(* ===== verification/Breaker.thy ===== *)
theory Breaker
  imports Prelude "HOL-Library.Multiset"
begin

text \<open>
  The per-target circuit breaker of \<^verbatim>\<open>apps/orchestrator/orchestrator/plan/breaker.py\<close>.

  \<open>CircuitBreakerRegistry.call\<close> suspends at \<open>await fn()\<close> only (the lock is never
  held across a suspension), so a call is two atomic segments: \<open>begin_call\<close>, from
  entry to the call of \<open>fn\<close>, and \<open>end_call\<close>, from its outcome to the exit. The
  outcome is a result, an \<open>Exception\<close>, or a cancellation (\<open>asyncio.CancelledError\<close> is
  a \<open>BaseException\<close>, which \<open>except Exception\<close> does not catch). \<open>call\<close> composes the
  two for a caller that nothing overlaps; \<open>breaker_step\<close> interleaves any number of them.
\<close>

section \<open>State and operations\<close>

datatype bstate = CLOSED | OPEN | HALF_OPEN

record breaker_state =
  st_state :: bstate
  st_failures :: int
  st_opened_at :: seconds
  st_inflight :: bool

definition new_breaker_state :: breaker_state where
  "new_breaker_state =
     \<lparr>st_state = CLOSED, st_failures = 0, st_opened_at = 0, st_inflight = False\<rparr>"

text \<open>\<open>br_events\<close> is the sequence of calls of the \<open>_on_change\<close> hook, when one is set.\<close>

record breaker_registry =
  br_states :: "string \<rightharpoonup> breaker_state"
  br_threshold :: int
  br_cooldown :: seconds
  br_hook :: bool
  br_events :: "(string \<times> bstate) list"

definition new_registry :: "int \<Rightarrow> seconds \<Rightarrow> breaker_registry" where
  "new_registry failure_threshold cooldown_s =
     \<lparr>br_states = Map.empty, br_threshold = failure_threshold, br_cooldown = cooldown_s,
      br_hook = False, br_events = []\<rparr>"

definition set_on_change :: "breaker_registry \<Rightarrow> breaker_registry" where
  "set_on_change r = r\<lparr>br_hook := True\<rparr>"

definition st_of :: "breaker_registry \<Rightarrow> string \<Rightarrow> breaker_state" where
  "st_of r target = (case br_states r target of None \<Rightarrow> new_breaker_state | Some st \<Rightarrow> st)"

definition state_of :: "breaker_registry \<Rightarrow> string \<Rightarrow> bstate" where
  "state_of r target = st_state (st_of r target)"

definition put_st :: "breaker_registry \<Rightarrow> string \<Rightarrow> breaker_state \<Rightarrow> breaker_registry" where
  "put_st r target st = r\<lparr>br_states := (br_states r)(target \<mapsto> st)\<rparr>"

definition transition :: "breaker_registry \<Rightarrow> string \<Rightarrow> bstate \<Rightarrow> breaker_registry" where
  "transition r target new_state =
     (if state_of r target = new_state then r
      else let r' = put_st r target ((st_of r target)\<lparr>st_state := new_state\<rparr>)
           in if br_hook r' then r'\<lparr>br_events := br_events r' @ [(target, new_state)]\<rparr> else r')"

definition maybe_half_open :: "breaker_registry \<Rightarrow> seconds \<Rightarrow> string \<Rightarrow> breaker_registry" where
  "maybe_half_open r now target =
     (if state_of r target \<noteq> OPEN then r
      else if now - st_opened_at (st_of r target) \<ge> br_cooldown r
           then transition r target HALF_OPEN else r)"

datatype admission = Rejected | AdmitProbe | AdmitClosed
datatype outcome = Returned | Raised | Cancelled

definition begin_call :: "breaker_registry \<Rightarrow> seconds \<Rightarrow> string \<Rightarrow> admission \<times> breaker_registry" where
  "begin_call r now target =
     (let r1 = put_st r target (st_of r target);
          r2 = maybe_half_open r1 now target;
          st = st_of r2 target
      in case st_state st of
           OPEN \<Rightarrow> (Rejected, r2)
         | HALF_OPEN \<Rightarrow>
             (if st_inflight st then (Rejected, r2)
              else (AdmitProbe, put_st r2 target (st\<lparr>st_inflight := True\<rparr>)))
         | CLOSED \<Rightarrow> (AdmitClosed, r2))"

fun end_call :: "breaker_registry \<Rightarrow> seconds \<Rightarrow> string \<Rightarrow> admission \<Rightarrow> outcome \<Rightarrow> breaker_registry" where
  "end_call r now target AdmitProbe Raised =
     (let r' = transition r target OPEN
      in put_st r' target ((st_of r' target)\<lparr>st_opened_at := now,
           st_failures := br_threshold r, st_inflight := False\<rparr>))"
| "end_call r now target AdmitProbe Returned =
     (let r' = transition r target CLOSED
      in put_st r' target ((st_of r' target)\<lparr>st_failures := 0, st_inflight := False\<rparr>))"
| "end_call r now target AdmitClosed Raised =
     (let st = (st_of r target)\<lparr>st_failures := st_failures (st_of r target) + 1\<rparr>;
          r1 = put_st r target st
      in if st_failures st \<ge> br_threshold r
         then let r2 = transition r1 target OPEN
              in put_st r2 target ((st_of r2 target)\<lparr>st_opened_at := now\<rparr>)
         else r1)"
| "end_call r now target AdmitClosed Returned =
     (if st_failures (st_of r target) \<noteq> 0
      then put_st r target ((st_of r target)\<lparr>st_failures := 0\<rparr>) else r)"
| "end_call r now target _ _ = r"

text \<open>A call nothing overlaps: \<open>None\<close> is \<open>BreakerOpen\<close>, otherwise the outcome of \<open>fn\<close>.\<close>

definition call :: "breaker_registry \<Rightarrow> seconds \<Rightarrow> seconds \<Rightarrow> string \<Rightarrow> outcome \<Rightarrow> outcome option \<times> breaker_registry" where
  "call r t0 t1 target oc =
     (case begin_call r t0 target of
        (Rejected, r') \<Rightarrow> (None, r')
      | (a, r') \<Rightarrow> (Some oc, end_call r' t1 target a oc))"

section \<open>Automation\<close>

lemma st_of_put [simp]: "st_of (put_st r t st) t' = (if t' = t then st else st_of r t')"
  by (simp add: st_of_def put_st_def)

lemma put_st_frame [simp]:
  "br_threshold (put_st r t st) = br_threshold r"
  "br_cooldown (put_st r t st) = br_cooldown r"
  "br_hook (put_st r t st) = br_hook r"
  "br_events (put_st r t st) = br_events r"
  by (simp_all add: put_st_def)

lemma st_of_transition [simp]:
  "st_of (transition r t s) t' = (if t' = t then (st_of r t)\<lparr>st_state := s\<rparr> else st_of r t')"
  by (auto simp: transition_def Let_def state_of_def) (simp_all add: st_of_def put_st_def)

lemma transition_frame [simp]:
  "br_threshold (transition r t s) = br_threshold r"
  "br_cooldown (transition r t s) = br_cooldown r"
  "br_hook (transition r t s) = br_hook r"
  by (simp_all add: transition_def Let_def)

lemma maybe_half_open_frame [simp]:
  "br_threshold (maybe_half_open r now t) = br_threshold r"
  "br_cooldown (maybe_half_open r now t) = br_cooldown r"
  by (simp_all add: maybe_half_open_def)

lemma st_of_maybe_half_open:
  "st_of (maybe_half_open r now t) t' =
     (if t' = t \<and> st_state (st_of r t) = OPEN \<and> br_cooldown r \<le> now - st_opened_at (st_of r t)
      then (st_of r t)\<lparr>st_state := HALF_OPEN\<rparr> else st_of r t')"
  by (simp add: maybe_half_open_def state_of_def)

lemmas breaker_simps = call_def begin_call_def st_of_maybe_half_open state_of_def Let_def


lemma st_of_begin_other: "t' \<noteq> t \<Longrightarrow> st_of (snd (begin_call r now t)) t' = st_of r t'"
  by (auto simp: breaker_simps split: bstate.splits)

lemma st_of_end_other: "t' \<noteq> t \<Longrightarrow> st_of (end_call r now t a oc) t' = st_of r t'"
  by (cases a; cases oc) (auto simp: Let_def)

lemma begin_call_frame:
  "br_threshold (snd (begin_call r now t)) = br_threshold r"
  "br_cooldown (snd (begin_call r now t)) = br_cooldown r"
  by (auto simp: begin_call_def Let_def split: bstate.splits)

lemma end_call_frame:
  "br_threshold (end_call r now t a oc) = br_threshold r"
  "br_cooldown (end_call r now t a oc) = br_cooldown r"
  by (cases a; cases oc; simp add: Let_def)+

text \<open>What a call that starts does, by the state it finds.\<close>

lemma begin_call_cases:
  "fst (begin_call r now t) =
     (let st = st_of r t in
      case st_state st of
        CLOSED \<Rightarrow> AdmitClosed
      | OPEN \<Rightarrow> (if now - st_opened_at st < br_cooldown r \<or> st_inflight st then Rejected else AdmitProbe)
      | HALF_OPEN \<Rightarrow> (if st_inflight st then Rejected else AdmitProbe))"
  by (auto simp: breaker_simps split: bstate.splits)

lemma st_of_begin:
  "st_of (snd (begin_call r now t)) t =
     (let st = st_of r t in
      case st_state st of
        CLOSED \<Rightarrow> st
      | OPEN \<Rightarrow> (if now - st_opened_at st < br_cooldown r then st
                else st\<lparr>st_state := HALF_OPEN, st_inflight := True\<rparr>)
      | HALF_OPEN \<Rightarrow> st\<lparr>st_inflight := True\<rparr>)"
  by (auto simp: breaker_simps split: bstate.splits intro!: breaker_state.equality)

section \<open>Sequential callers: a two-state specification\<close>

text \<open>
  With no overlapping calls and no cancellation, half-open is never seen between calls: the
  breaker is either shut, with a count of consecutive failures below the threshold, or
  tripped since some instant.
\<close>

datatype breaker_spec = Shut int | Tripped seconds

fun spec_call :: "int \<Rightarrow> seconds \<Rightarrow> breaker_spec \<Rightarrow> seconds \<Rightarrow> seconds \<Rightarrow> bool \<Rightarrow> bool \<times> breaker_spec" where
  "spec_call thr cd (Shut n) t0 t1 ok =
     (True, if ok then Shut 0 else if n + 1 \<ge> thr then Tripped t1 else Shut (n + 1))"
| "spec_call thr cd (Tripped t) t0 t1 ok =
     (if t0 - t < cd then (False, Tripped t)
      else (True, if ok then Shut 0 else Tripped t1))"

definition breaker_abs :: "breaker_state \<Rightarrow> breaker_spec" where
  "breaker_abs st = (if st_state st = CLOSED then Shut (st_failures st) else Tripped (st_opened_at st))"

definition settled :: "breaker_state \<Rightarrow> bool" where
  "settled st \<longleftrightarrow> st_state st \<noteq> HALF_OPEN \<and> \<not> st_inflight st"

lemma settled_new: "settled (st_of (new_registry thr cd) t)"
  by (simp add: settled_def st_of_def new_registry_def new_breaker_state_def)

text \<open>
  C1: For a caller that nothing overlaps and whose call is not cancelled, the three-state
  breaker of the source is a refinement of the two-state specification: it admits the same
  calls, moves to the state the specification moves to (opening exactly when the count of
  consecutive failures reaches the threshold, closing after one successful probe past the
  cooldown), and is settled again afterwards.
\<close>

theorem breaker_refines_spec:
  assumes "settled (st_of r t)" and "oc \<noteq> Cancelled"
  shows "let (res, r') = call r t0 t1 t oc;
             (ok, sp) = spec_call (br_threshold r) (br_cooldown r) (breaker_abs (st_of r t)) t0 t1 (oc = Returned)
         in (res = (if ok then Some oc else None)) \<and> breaker_abs (st_of r' t) = sp \<and> settled (st_of r' t)"
  using assms
  by (cases oc; cases "st_state (st_of r t)")
     (auto simp: breaker_simps settled_def breaker_abs_def)

theorem breaker_refines_spec_witness:
  "let r = new_registry 5 60; (res, r') = call r 0 1 ''q'' Raised
   in res = Some Raised \<and> breaker_abs (st_of r' ''q'') = Shut 1 \<and> settled (st_of r' ''q'')"
  using breaker_refines_spec [of "new_registry 5 60" "''q''" Raised 0 1]
  by (simp add: settled_new split: prod.splits)
     (simp add: new_registry_def st_of_def new_breaker_state_def breaker_abs_def)

section \<open>Overlapping callers\<close>

text \<open>
  The registry, the clock and the calls that are past \<open>begin_call\<close> and still waiting for
  \<open>fn\<close>, each with its target and how it was admitted.
\<close>

record breaker_sys =
  bs_reg :: breaker_registry
  bs_now :: seconds
  bs_live :: "(string \<times> admission) multiset"

datatype breaker_event = Tick seconds | Start string admission | Finish string admission outcome

inductive breaker_step :: "breaker_sys \<Rightarrow> breaker_event \<Rightarrow> breaker_sys \<Rightarrow> bool" where
  tick: "0 \<le> d \<Longrightarrow> breaker_step s (Tick d) (s\<lparr>bs_now := bs_now s + d\<rparr>)"
| start: "begin_call (bs_reg s) (bs_now s) t = (a, r') \<Longrightarrow>
     breaker_step s (Start t a)
       (s\<lparr>bs_reg := r',
          bs_live := (if a = Rejected then bs_live s else add_mset (t, a) (bs_live s))\<rparr>)"
| finish: "(t, a) \<in># bs_live s \<Longrightarrow>
     breaker_step s (Finish t a oc)
       (s\<lparr>bs_reg := end_call (bs_reg s) (bs_now s) t a oc,
          bs_live := bs_live s - {#(t, a)#}\<rparr>)"

inductive_cases tick_cases: "breaker_step s (Tick d) s'"
inductive_cases start_cases: "breaker_step s (Start t a) s'"
inductive_cases finish_cases: "breaker_step s (Finish t a oc) s'"

inductive breaker_run :: "breaker_sys \<Rightarrow> breaker_event list \<Rightarrow> breaker_sys \<Rightarrow> bool" where
  run_nil: "breaker_run s [] s"
| run_cons: "breaker_step s e s' \<Longrightarrow> breaker_run s' es s'' \<Longrightarrow> breaker_run s (e # es) s''"

inductive_cases run_nil_cases: "breaker_run s [] s'"
inductive_cases run_cons_cases: "breaker_run s (e # es) s'"

definition init_breaker_sys :: "int \<Rightarrow> seconds \<Rightarrow> seconds \<Rightarrow> breaker_sys" where
  "init_breaker_sys thr cd now = \<lparr>bs_reg = new_registry thr cd, bs_now = now, bs_live = {#}\<rparr>"

abbreviation probes :: "breaker_sys \<Rightarrow> string \<Rightarrow> nat" where
  "probes s t \<equiv> count (bs_live s) (t, AdmitProbe)"

text \<open>
  The strengthened invariant: a target has no more probes in flight than its in-flight
  mark says.
\<close>

definition probe_inv :: "breaker_sys \<Rightarrow> bool" where
  "probe_inv s \<longleftrightarrow> (\<forall>t. probes s t \<le> (if st_inflight (st_of (bs_reg s) t) then 1 else 0))"

lemma probe_inv_init: "probe_inv (init_breaker_sys thr cd now)"
  by (simp add: probe_inv_def init_breaker_sys_def)

lemma inflight_end_call:
  "st_inflight (st_of (end_call r now t a oc) t) =
     (st_inflight (st_of r t) \<and> (a = AdmitProbe \<longrightarrow> oc = Cancelled))"
  by (cases a; cases oc) (auto simp: Let_def)

lemma inflight_begin_call:
  "st_inflight (st_of (snd (begin_call r now t)) t) =
     (st_inflight (st_of r t) \<or> fst (begin_call r now t) = AdmitProbe)"
  by (auto simp: breaker_simps split: bstate.splits)

lemma begin_probe_free:
  "begin_call r now t = (AdmitProbe, r') \<Longrightarrow> \<not> st_inflight (st_of r t)"
  by (auto simp: breaker_simps split: bstate.splits if_splits)

lemma breaker_step_probe_inv: "breaker_step s e s' \<Longrightarrow> probe_inv s \<Longrightarrow> probe_inv s'"
proof (induction rule: breaker_step.induct)
  case (tick d s)
  then show ?case by (simp add: probe_inv_def)
next
  case (start s t a r')
  have r': "r' = snd (begin_call (bs_reg s) (bs_now s) t)" and a: "a = fst (begin_call (bs_reg s) (bs_now s) t)"
    using start.hyps by simp_all
  have free: "a = AdmitProbe \<Longrightarrow> \<not> st_inflight (st_of (bs_reg s) t)"
    using start.hyps begin_probe_free by blast
  show ?case unfolding probe_inv_def
  proof
    fix u
    have old: "probes s u \<le> (if st_inflight (st_of (bs_reg s) u) then 1 else 0)"
      using start.prems by (simp add: probe_inv_def)
    show "count (bs_live (s\<lparr>bs_reg := r', bs_live := if a = Rejected then bs_live s
            else add_mset (t, a) (bs_live s)\<rparr>)) (u, AdmitProbe)
        \<le> (if st_inflight (st_of (bs_reg (s\<lparr>bs_reg := r', bs_live := if a = Rejected then bs_live s
            else add_mset (t, a) (bs_live s)\<rparr>)) u) then 1 else 0)"
    proof (cases "u = t")
      case True
      then show ?thesis using old free by (auto simp: r' inflight_begin_call a split: if_splits)
    next
      case False
      then show ?thesis using old by (auto simp: r' st_of_begin_other split: if_splits)
    qed
  qed
next
  case (finish t a s oc)
  show ?case unfolding probe_inv_def
  proof
    fix u
    have old: "probes s u \<le> (if st_inflight (st_of (bs_reg s) u) then 1 else 0)"
      using finish.prems by (simp add: probe_inv_def)
    show "count (bs_live (s\<lparr>bs_reg := end_call (bs_reg s) (bs_now s) t a oc,
            bs_live := bs_live s - {#(t, a)#}\<rparr>)) (u, AdmitProbe)
        \<le> (if st_inflight (st_of (bs_reg (s\<lparr>bs_reg := end_call (bs_reg s) (bs_now s) t a oc,
            bs_live := bs_live s - {#(t, a)#}\<rparr>)) u) then 1 else 0)"
      using old finish.hyps
      by (cases "u = t") (auto simp: inflight_end_call st_of_end_other split: if_splits)
  qed
qed

lemma breaker_run_probe_inv: "breaker_run s es s' \<Longrightarrow> probe_inv s \<Longrightarrow> probe_inv s'"
  by (induction rule: breaker_run.induct) (auto intro: breaker_step_probe_inv)

text \<open>
  C3: However calls, their outcomes, cancellations and the clock interleave, no target ever
  has two probes in flight: half-open admits exactly one probe.
\<close>

theorem one_probe_at_a_time:
  assumes "breaker_run (init_breaker_sys thr cd now) es s"
  shows "probes s t \<le> 1"
proof -
  have "probe_inv s" using assms probe_inv_init breaker_run_probe_inv by blast
  then have "probes s t \<le> (if st_inflight (st_of (bs_reg s) t) then 1 else 0)"
    by (simp add: probe_inv_def)
  then show ?thesis by (simp split: if_splits)
qed

text \<open>A run in which a failing call trips a threshold-1 breaker and a probe starts.\<close>

definition tripped_run :: "breaker_event list" where
  "tripped_run = [Start ''q'' AdmitClosed, Finish ''q'' AdmitClosed Raised, Tick 60, Start ''q'' AdmitProbe]"

lemma tripped_run_reaches:
  "\<exists>s. breaker_run (init_breaker_sys 1 60 0) tripped_run s \<and> probes s ''q'' = 1
     \<and> st_inflight (st_of (bs_reg s) ''q'')"
proof -
  let ?s0 = "init_breaker_sys 1 60 0"
  let ?b1 = "begin_call (bs_reg ?s0) 0 ''q''"
  let ?s1 = "?s0\<lparr>bs_reg := snd ?b1, bs_live := add_mset (''q'', AdmitClosed) {#}\<rparr>"
  let ?s2 = "?s1\<lparr>bs_reg := end_call (snd ?b1) 0 ''q'' AdmitClosed Raised, bs_live := {#}\<rparr>"
  let ?s3 = "?s2\<lparr>bs_now := 60\<rparr>"
  let ?b4 = "begin_call (bs_reg ?s3) 60 ''q''"
  let ?s4 = "?s3\<lparr>bs_reg := snd ?b4, bs_live := add_mset (''q'', AdmitProbe) {#}\<rparr>"
  note ev = init_breaker_sys_def new_registry_def breaker_simps st_of_def new_breaker_state_def
    put_st_def transition_def maybe_half_open_def
  have "breaker_step ?s0 (Start ''q'' AdmitClosed) ?s1"
    using breaker_step.start [of ?s0 "''q''" AdmitClosed "snd ?b1"] by (simp add: ev)
  moreover have "breaker_step ?s1 (Finish ''q'' AdmitClosed Raised) ?s2"
    using breaker_step.finish [of "''q''" AdmitClosed ?s1 Raised] by (simp add: init_breaker_sys_def)
  moreover have "breaker_step ?s2 (Tick 60) ?s3"
    using breaker_step.tick [of 60 ?s2] by (simp add: init_breaker_sys_def)
  moreover have "breaker_step ?s3 (Start ''q'' AdmitProbe) ?s4"
    using breaker_step.start [of ?s3 "''q''" AdmitProbe "snd ?b4"] by (simp add: ev)
  ultimately have "breaker_run ?s0 tripped_run ?s4"
    unfolding tripped_run_def by (blast intro: breaker_run.intros)
  moreover have "probes ?s4 ''q'' = 1" and "st_inflight (st_of (bs_reg ?s4) ''q'')"
    by (simp_all add: ev)
  ultimately show ?thesis by blast
qed

theorem one_probe_at_a_time_witness:
  "\<exists>s. breaker_run (init_breaker_sys 1 60 0) tripped_run s \<and> probes s ''q'' \<le> 1"
  using tripped_run_reaches one_probe_at_a_time by blast

text \<open>
  A probe that is cancelled (the SLA wrapper cancels a node at its hard timeout, see
  \<^verbatim>\<open>execute/sla.py\<close>) leaves the in-flight mark set with nobody left to clear it. The
  target is then wedged: no probe in flight, mark set, breaker not shut.
\<close>

definition wedged :: "breaker_sys \<Rightarrow> string \<Rightarrow> bool" where
  "wedged s t \<longleftrightarrow> st_inflight (st_of (bs_reg s) t) \<and> probes s t = 0 \<and> st_state (st_of (bs_reg s) t) \<noteq> CLOSED"

lemma end_closed_keeps_open:
  "st_state (st_of r t) \<noteq> CLOSED \<Longrightarrow> st_state (st_of (end_call r now t AdmitClosed oc) t) \<noteq> CLOSED"
  by (cases oc) (auto simp: Let_def)

lemma begin_keeps_open:
  "st_state (st_of r t) \<noteq> CLOSED \<Longrightarrow> st_state (st_of (snd (begin_call r now t)) t) \<noteq> CLOSED"
  by (auto simp: st_of_begin Let_def split: bstate.splits)

lemma begin_wedged:
  "st_inflight (st_of r t) \<Longrightarrow> st_state (st_of r t) \<noteq> CLOSED \<Longrightarrow> fst (begin_call r now t) = Rejected"
  by (auto simp: begin_call_cases Let_def split: bstate.splits)

lemma breaker_step_wedged:
  assumes "breaker_step s e s'" and "wedged s t"
  shows "wedged s' t \<and> (\<forall>a. e = Start t a \<longrightarrow> a = Rejected)"
  using assms
proof (induction rule: breaker_step.induct)
  case (tick d s)
  then show ?case by (simp add: wedged_def)
next
  case (start s u a r')
  then have eqs: "a = fst (begin_call (bs_reg s) (bs_now s) u)" "r' = snd (begin_call (bs_reg s) (bs_now s) u)"
    by simp_all
  show ?case
  proof (cases "u = t")
    case True
    then have "a = Rejected" using start.prems by (simp add: eqs wedged_def begin_wedged)
    then show ?thesis using start.prems True
      by (simp add: wedged_def eqs(2) inflight_begin_call begin_keeps_open)
  next
    case False
    then show ?thesis using start.prems by (auto simp: wedged_def eqs(2) st_of_begin_other)
  qed
next
  case (finish u a s oc)
  show ?case
  proof (cases "u = t")
    case True
    then have "a \<noteq> AdmitProbe" using finish by (auto simp: wedged_def simp flip: not_in_iff)
    then show ?thesis using finish.prems True
      by (cases a) (auto simp: wedged_def inflight_end_call end_closed_keeps_open)
  next
    case False
    then show ?thesis using finish.prems by (auto simp: wedged_def st_of_end_other)
  qed
qed

lemma breaker_run_wedged:
  "breaker_run s es s' \<Longrightarrow> wedged s t \<Longrightarrow> wedged s' t \<and> (\<forall>a. Start t a \<in> set es \<longrightarrow> a = Rejected)"
  by (induction rule: breaker_run.induct) (auto dest: breaker_step_wedged)

text \<open>The mark is only ever set on a breaker that is not shut.\<close>

definition mark_inv :: "breaker_sys \<Rightarrow> bool" where
  "mark_inv s \<longleftrightarrow> (\<forall>t. st_inflight (st_of (bs_reg s) t) \<longrightarrow> st_state (st_of (bs_reg s) t) \<noteq> CLOSED)"

lemma begin_mark:
  assumes "st_inflight (st_of r t) \<longrightarrow> st_state (st_of r t) \<noteq> CLOSED"
  shows "st_inflight (st_of (snd (begin_call r now t)) t) \<longrightarrow>
         st_state (st_of (snd (begin_call r now t)) t) \<noteq> CLOSED"
  using assms by (auto simp: st_of_begin Let_def split: bstate.splits)

lemma end_mark:
  assumes "st_inflight (st_of r t) \<longrightarrow> st_state (st_of r t) \<noteq> CLOSED"
  shows "st_inflight (st_of (end_call r now t a oc) t) \<longrightarrow>
         st_state (st_of (end_call r now t a oc) t) \<noteq> CLOSED"
  using assms by (cases a; cases oc) (auto simp: Let_def)

lemma breaker_step_mark_inv: "breaker_step s e s' \<Longrightarrow> mark_inv s \<Longrightarrow> mark_inv s'"
proof (induction rule: breaker_step.induct)
  case (tick d s)
  then show ?case by (simp add: mark_inv_def)
next
  case (start s t a r')
  then have r': "r' = snd (begin_call (bs_reg s) (bs_now s) t)" by simp
  have "st_inflight (st_of r' u) \<longrightarrow> st_state (st_of r' u) \<noteq> CLOSED" for u
    using start.prems begin_mark [of "bs_reg s" t "bs_now s"]
    by (cases "u = t") (simp_all add: r' mark_inv_def st_of_begin_other)
  then show ?case by (simp add: mark_inv_def)
next
  case (finish t a s oc)
  have "st_inflight (st_of (end_call (bs_reg s) (bs_now s) t a oc) u) \<longrightarrow>
        st_state (st_of (end_call (bs_reg s) (bs_now s) t a oc) u) \<noteq> CLOSED" for u
    using finish.prems end_mark [of "bs_reg s" t "bs_now s" a oc]
    by (cases "u = t") (simp_all add: mark_inv_def st_of_end_other)
  then show ?case by (simp add: mark_inv_def)
qed

lemma breaker_run_mark_inv: "breaker_run s es s' \<Longrightarrow> mark_inv s \<Longrightarrow> mark_inv s'"
  by (induction rule: breaker_run.induct) (auto intro: breaker_step_mark_inv)

lemma mark_inv_init: "mark_inv (init_breaker_sys thr cd now)"
  by (simp add: mark_inv_def init_breaker_sys_def new_registry_def st_of_def new_breaker_state_def)

text \<open>
  C18: Once a probe of a target is cancelled, the breaker never admits another call
  to that target, however much time passes and whatever else happens: every later call
  raises \<open>BreakerOpen\<close> and the breaker never closes again.
\<close>

theorem cancelled_probe_wedges_breaker:
  assumes run: "breaker_run (init_breaker_sys thr cd now) es s"
    and live: "(t, AdmitProbe) \<in># bs_live s"
    and cancel: "breaker_step s (Finish t AdmitProbe Cancelled) s1"
    and later: "breaker_run s1 es' s2"
  shows "(\<forall>a. Start t a \<in> set es' \<longrightarrow> a = Rejected) \<and> state_of (bs_reg s2) t \<noteq> CLOSED"
proof -
  have inv: "probe_inv s" using run probe_inv_init breaker_run_probe_inv by blast
  then have one: "probes s t = 1" and mark: "st_inflight (st_of (bs_reg s) t)"
    using live unfolding probe_inv_def
    by (metis One_nat_def count_eq_zero_iff le_0_eq le_SucE)+
  have "mark_inv s" using run mark_inv_init breaker_run_mark_inv by blast
  then have not_closed: "st_state (st_of (bs_reg s) t) \<noteq> CLOSED"
    using mark by (simp add: mark_inv_def)
  then have "wedged s1 t"
    using cancel one mark by (auto elim!: finish_cases simp: wedged_def)
  then show ?thesis using breaker_run_wedged [OF later] by (simp add: wedged_def state_of_def)
qed

theorem cancelled_probe_wedges_breaker_witness:
  "\<exists>s s1. breaker_run (init_breaker_sys 1 60 0) tripped_run s
     \<and> breaker_step s (Finish ''q'' AdmitProbe Cancelled) s1
     \<and> (\<forall>s2. breaker_run s1 [Tick 100000] s2 \<longrightarrow> state_of (bs_reg s2) ''q'' \<noteq> CLOSED)"
proof -
  obtain s where run: "breaker_run (init_breaker_sys 1 60 0) tripped_run s" and "probes s ''q'' = 1"
    using tripped_run_reaches by blast
  then have live: "(''q'', AdmitProbe) \<in># bs_live s" by (simp flip: count_greater_zero_iff)
  then obtain s1 where "breaker_step s (Finish ''q'' AdmitProbe Cancelled) s1"
    using breaker_step.finish by blast
  then show ?thesis using cancelled_probe_wedges_breaker [OF run live] run by blast
qed

text \<open>Targets do not interfere.\<close>

lemma call_other_target: "t' \<noteq> t \<Longrightarrow> state_of (snd (call r t0 t1 t oc)) t' = state_of r t'"
  using st_of_begin_other [of t' t r t0]
  by (auto simp: call_def state_of_def st_of_end_other split: prod.splits admission.splits)

text \<open>
  A call that finds the breaker tripped and its cooldown not over never runs \<open>fn\<close>
  and leaves the breaker as it was; the cooldown over, the next call is admitted, and if
  it succeeds the breaker is closed with no failures counted.
\<close>

theorem open_breaker_gates_until_cooldown:
  assumes "settled (st_of r t)" and "state_of r t = OPEN"
  shows "(t0 - st_opened_at (st_of r t) < br_cooldown r \<longrightarrow>
            fst (call r t0 t1 t oc) = None \<and> st_of (snd (call r t0 t1 t oc)) t = st_of r t)
       \<and> (br_cooldown r \<le> t0 - st_opened_at (st_of r t) \<longrightarrow>
            fst (call r t0 t1 t Returned) = Some Returned
            \<and> st_state (st_of (snd (call r t0 t1 t Returned)) t) = CLOSED
            \<and> st_failures (st_of (snd (call r t0 t1 t Returned)) t) = 0)"
  using assms by (auto simp: breaker_simps settled_def)

definition tripped_registry :: breaker_registry where
  "tripped_registry = snd (call (new_registry 1 60) 0 5 ''q'' Raised)"

theorem open_breaker_gates_until_cooldown_witness:
  "fst (call tripped_registry 64 70 ''q'' Returned) = None
   \<and> fst (call tripped_registry 65 70 ''q'' Returned) = Some Returned"
proof -
  have st: "st_of tripped_registry ''q'' =
      \<lparr>st_state = OPEN, st_failures = 1, st_opened_at = 5, st_inflight = False\<rparr>"
    by (simp add: tripped_registry_def breaker_simps new_registry_def st_of_def
        new_breaker_state_def put_st_def maybe_half_open_def transition_def)
  have cd: "br_cooldown tripped_registry = 60"
    by (simp add: tripped_registry_def breaker_simps new_registry_def st_of_def
        new_breaker_state_def put_st_def maybe_half_open_def transition_def)
  have "settled (st_of tripped_registry ''q'')" "state_of tripped_registry ''q'' = OPEN"
    by (simp_all add: st settled_def state_of_def)
  from open_breaker_gates_until_cooldown [OF this, of 64 70 Returned]
    open_breaker_gates_until_cooldown [OF this, of 65 70 Returned]
  show ?thesis by (simp add: st cd)
qed

end
