(* ===== verification/RateLimits.thy ===== *)
theory RateLimits
  imports Prelude
begin

text \<open>
  The two sliding-window limiters of the system: the notifier's per-channel limiter
  (\<^verbatim>\<open>packages/notifier/notifier/ratelimit.py\<close>) and the advice merger's per-agent limiter
  (\<^verbatim>\<open>apps/orchestrator/orchestrator/merge/advice_merger.py\<close>, \<open>_PerAgentRateLimit\<close>). Both
  are instances of one contract, the locale \<open>sliding_window\<close>, in which the bound on the
  events any window can hold is proved once.
\<close>

section \<open>The contract\<close>

fun sw_run :: "('s \<Rightarrow> 'k \<Rightarrow> seconds \<Rightarrow> bool \<times> 's) \<Rightarrow> 's \<Rightarrow> ('k \<times> seconds) list \<Rightarrow> ('k \<times> seconds) list" where
  "sw_run allow s [] = []"
| "sw_run allow s ((k, t) # rs) =
     (let (ok, s') = allow s k t in (if ok then [(k, t)] else []) @ sw_run allow s' rs)"

definition in_window :: "seconds \<Rightarrow> seconds \<Rightarrow> seconds list \<Rightarrow> nat" where
  "in_window a w xs = length (filter (\<lambda>x. a \<le> x \<and> x \<le> a + w) xs)"

definition times_of :: "'k \<Rightarrow> ('k \<times> seconds) list \<Rightarrow> seconds list" where
  "times_of k es = map snd (filter (\<lambda>e. fst e = k) es)"

lemma times_of_simps [simp]:
  "times_of k [] = []"
  "times_of k ((j, t) # es) = (if j = k then t # times_of k es else times_of k es)"
  "times_of k (xs @ ys) = times_of k xs @ times_of k ys"
  by (simp_all add: times_of_def)

locale sliding_window =
  fixes hist :: "'s \<Rightarrow> 'k \<Rightarrow> seconds list"
    and allow :: "'s \<Rightarrow> 'k \<Rightarrow> seconds \<Rightarrow> bool \<times> 's"
    and inv :: "seconds \<Rightarrow> 's \<Rightarrow> bool"
    and cap :: "'k \<Rightarrow> int"
    and win :: "'k \<Rightarrow> seconds"
    and limited :: "'k \<Rightarrow> bool"
  assumes inv_mono: "inv t s \<Longrightarrow> t \<le> u \<Longrightarrow> inv u s"
    and inv_allow: "inv t s \<Longrightarrow> inv t (snd (allow s k t))"
    and allow_iff: "inv t s \<Longrightarrow> limited k \<Longrightarrow>
      fst (allow s k t) \<longleftrightarrow> int (length (filter (\<lambda>x. t - win k \<le> x) (hist s k))) < cap k"
    and hist_allow: "inv t s \<Longrightarrow> limited k \<Longrightarrow>
      hist (snd (allow s k t)) k =
        filter (\<lambda>x. t - win k \<le> x) (hist s k) @ (if fst (allow s k t) then [t] else [])"
    and hist_other: "j \<noteq> k \<Longrightarrow> hist (snd (allow s k t)) j = hist s j"
begin

text \<open>
  The history forgets events older than a window; \<open>full\<close> remembers them all. What is
  forgotten cannot share a window with anything still to come.
\<close>

lemma run_window:
  assumes "inv t0 s" and "sorted (t0 # map snd rs)" and "limited k" and "0 \<le> win k"
    and "hist s k = filter (\<lambda>x. c \<le> x) full" and "c + win k \<le> t0"
    and "\<forall>a. int (in_window a (win k) full) \<le> max 0 (cap k)"
  shows "int (in_window a (win k) (full @ times_of k (sw_run allow s rs))) \<le> max 0 (cap k)"
  using assms
proof (induction rs arbitrary: s t0 c full)
  case Nil
  then show ?case by simp
next
  case (Cons r rs)
  obtain j t where r: "r = (j, t)" by (cases r)
  obtain ok s' where al: "allow s j t = (ok, s')" by (cases "allow s j t")
  have ord: "t0 \<le> t" "sorted (t # map snd rs)" using Cons.prems(2) r by auto
  have inv: "inv t s" using Cons.prems(1) ord inv_mono by blast
  have inv': "inv t s'" using inv_allow [OF inv, of j] al by simp
  show ?case
  proof (cases "j = k")
    case False
    then have "hist s' k = filter (\<lambda>x. c \<le> x) full"
      using hist_other [of k j s t] al Cons.prems(5) by simp
    then show ?thesis
      using Cons.IH [OF inv' ord(2) Cons.prems(3,4) _ _ Cons.prems(7), of c] False ord Cons.prems(6)
      by (auto simp: r al)
  next
    case True
    let ?recent = "filter (\<lambda>x. t - win k \<le> x) full"
    have same: "filter (\<lambda>x. t - win k \<le> x) (hist s k) = ?recent"
    proof -
      have "c \<le> x" if "t - win k \<le> x" for x
        using that Cons.prems(6) ord(1) by linarith
      then have "(\<lambda>x. t - win k \<le> x \<and> c \<le> x) = (\<lambda>x. t - win k \<le> x)" by blast
      then show ?thesis by (simp add: Cons.prems(5) conj_commute)
    qed
    have hist': "hist s' k = ?recent @ (if ok then [t] else [])"
      using hist_allow [OF inv Cons.prems(3)] al True same by simp
    have room: "ok \<Longrightarrow> int (length ?recent) < cap k"
      using allow_iff [OF inv Cons.prems(3)] al True same by simp
    let ?full = "full @ (if ok then [t] else [])"
    have "hist s' k = filter (\<lambda>x. t - win k \<le> x) ?full"
      using hist' Cons.prems(4) by simp
    moreover have "\<forall>a. int (in_window a (win k) ?full) \<le> max 0 (cap k)"
    proof (intro allI)
      fix a
      show "int (in_window a (win k) ?full) \<le> max 0 (cap k)"
      proof (cases "ok \<and> a \<le> t \<and> t \<le> a + win k")
        case True
        have "length (filter (\<lambda>x. a \<le> x \<and> x \<le> a + win k) full) \<le> length ?recent"
          using True by (induction full) auto
        then show ?thesis using True room by (simp add: in_window_def)
      next
        case False
        then have "in_window a (win k) ?full = in_window a (win k) full"
          by (auto simp: in_window_def)
        then show ?thesis using Cons.prems(7) by simp
      qed
    qed
    ultimately show ?thesis
      using Cons.IH [OF inv' ord(2) Cons.prems(3,4), of "t - win k" ?full] True
      by (auto simp: r al [unfolded True])
  qed
qed

lemma window_bound:
  assumes "inv t0 s" and "sorted (t0 # map snd rs)" and "limited k" and "0 \<le> win k" and "hist s k = []"
  shows "int (in_window a (win k) (times_of k (sw_run allow s rs))) \<le> max 0 (cap k)"
  using run_window [where full = "[]" and c = "t0 - win k", OF assms(1-4)] assms(5)
  by (simp add: in_window_def)

end

section \<open>The notifier's limiter\<close>

record nwindow =
  nw_capacity :: int
  nw_window_s :: seconds
  nw_timestamps :: "seconds list"

record nlimiter =
  nl_limits :: "string \<rightharpoonup> int \<times> seconds"
  nl_windows :: "string \<rightharpoonup> nwindow"

definition DEFAULT_LIMITS :: "(string, int \<times> seconds) dict" where
  "DEFAULT_LIMITS =
     [(''wecom_bot:briefs'', (20, 60)), (''wecom_bot:alerts'', (20, 60)), (''wecom_bot:fills'', (20, 60)),
      (''wecom_app'', (60, 60)), (''serverchan'', (5, 60)), (''ntfy'', (1000, 60)), (''smtp'', (50, 3600))]"

definition new_nlimiter :: "(string, int \<times> seconds) dict option \<Rightarrow> nlimiter" where
  "new_nlimiter limits =
     \<lparr>nl_limits = map_of (case limits of None \<Rightarrow> DEFAULT_LIMITS
                          | Some l \<Rightarrow> if l = [] then DEFAULT_LIMITS else l),
      nl_windows = Map.empty\<rparr>"

text \<open>
  \<open>acquire\<close>: \<open>False\<close> is \<open>AdapterRateLimit\<close>. A key without a limit (or with capacity 0)
  is uncapped. The deque drops expired events from its left end only.
\<close>

definition nl_acquire :: "nlimiter \<Rightarrow> string \<Rightarrow> seconds \<Rightarrow> bool \<times> nlimiter" where
  "nl_acquire l key now =
     (let (cap, window_s) = (case nl_limits l key of None \<Rightarrow> (0, 0) | Some x \<Rightarrow> x)
      in if cap = 0 then (True, l)
         else let window = (case nl_windows l key of
                              None \<Rightarrow> \<lparr>nw_capacity = cap, nw_window_s = window_s, nw_timestamps = []\<rparr>
                            | Some w \<Rightarrow> w);
                  cutoff = now - nw_window_s window;
                  ts = dropWhile (\<lambda>t. t < cutoff) (nw_timestamps window)
              in if int (length ts) \<ge> nw_capacity window
                 then (False, l\<lparr>nl_windows := (nl_windows l)(key \<mapsto> window\<lparr>nw_timestamps := ts\<rparr>)\<rparr>)
                 else (True, l\<lparr>nl_windows := (nl_windows l)(key \<mapsto> window\<lparr>nw_timestamps := ts @ [now]\<rparr>)\<rparr>))"

definition nl_reset :: "nlimiter \<Rightarrow> string option \<Rightarrow> nlimiter" where
  "nl_reset l key =
     (case key of None \<Rightarrow> l\<lparr>nl_windows := Map.empty\<rparr>
      | Some k \<Rightarrow> l\<lparr>nl_windows := (nl_windows l)(k := None)\<rparr>)"

definition nl_hist :: "nlimiter \<Rightarrow> string \<Rightarrow> seconds list" where
  "nl_hist l key = (case nl_windows l key of None \<Rightarrow> [] | Some w \<Rightarrow> nw_timestamps w)"

definition nl_inv :: "(string \<rightharpoonup> int \<times> seconds) \<Rightarrow> seconds \<Rightarrow> nlimiter \<Rightarrow> bool" where
  "nl_inv lims now l \<longleftrightarrow> nl_limits l = lims \<and>
     (\<forall>k w. nl_windows l k = Some w \<longrightarrow>
        lims k = Some (nw_capacity w, nw_window_s w) \<and> sorted (nw_timestamps w) \<and>
        (\<forall>t \<in> set (nw_timestamps w). t \<le> now))"

definition lim_cap :: "(string \<rightharpoonup> int \<times> seconds) \<Rightarrow> string \<Rightarrow> int" where
  "lim_cap lims k = (case lims k of None \<Rightarrow> 0 | Some (c, w) \<Rightarrow> c)"

definition lim_win :: "(string \<rightharpoonup> int \<times> seconds) \<Rightarrow> string \<Rightarrow> seconds" where
  "lim_win lims k = (case lims k of None \<Rightarrow> 0 | Some (c, w) \<Rightarrow> w)"

lemma dropWhile_sorted_filter:
  "sorted xs \<Longrightarrow> dropWhile (\<lambda>t. t < c) xs = filter (\<lambda>t. c \<le> t) xs" for c :: "'a::linorder"
proof (induction xs)
  case (Cons x xs)
  show ?case
  proof (cases "x < c")
    case False
    with Cons.prems have "\<forall>y \<in> set xs. c \<le> y" by auto
    with False show ?thesis by (simp add: not_less)
  qed (use Cons in auto)
qed simp

lemma nl_window_of_inv:
  assumes "nl_inv lims now l" and "lim_cap lims k \<noteq> 0"
  shows "\<exists>ts. sorted ts \<and> (\<forall>t \<in> set ts. t \<le> now) \<and> nl_hist l k = ts \<and> lims k = Some (lim_cap lims k, lim_win lims k)
      \<and> (case nl_windows l k of
           None \<Rightarrow> \<lparr>nw_capacity = lim_cap lims k, nw_window_s = lim_win lims k, nw_timestamps = []\<rparr>
         | Some w \<Rightarrow> w) = \<lparr>nw_capacity = lim_cap lims k, nw_window_s = lim_win lims k, nw_timestamps = ts\<rparr>"
proof (cases "nl_windows l k")
  case None
  then show ?thesis using assms
    by (auto simp: lim_cap_def lim_win_def nl_hist_def split: option.splits)
next
  case (Some w)
  then have "lims k = Some (nw_capacity w, nw_window_s w)" "sorted (nw_timestamps w)"
      "\<forall>t \<in> set (nw_timestamps w). t \<le> now"
    using assms(1) by (auto simp: nl_inv_def)
  then show ?thesis using Some by (auto simp: lim_cap_def lim_win_def nl_hist_def)
qed

text \<open>One acquisition of a limited key, in terms of its history.\<close>

lemma nl_acquire_eq:
  assumes "nl_inv lims now l" and "lim_cap lims k \<noteq> 0"
  defines "ts \<equiv> filter (\<lambda>x. now - lim_win lims k \<le> x) (nl_hist l k)"
  defines "ok \<equiv> int (length ts) < lim_cap lims k"
  shows "nl_acquire l k now =
    (ok, l\<lparr>nl_windows := (nl_windows l)(k \<mapsto>
       \<lparr>nw_capacity = lim_cap lims k, nw_window_s = lim_win lims k,
        nw_timestamps = ts @ (if ok then [now] else [])\<rparr>)\<rparr>)"
proof -
  obtain h where h: "sorted h" "nl_hist l k = h" "lims k = Some (lim_cap lims k, lim_win lims k)"
    "(case nl_windows l k of
       None \<Rightarrow> \<lparr>nw_capacity = lim_cap lims k, nw_window_s = lim_win lims k, nw_timestamps = []\<rparr>
     | Some w \<Rightarrow> w) = \<lparr>nw_capacity = lim_cap lims k, nw_window_s = lim_win lims k, nw_timestamps = h\<rparr>"
    using nl_window_of_inv [OF assms(1,2)] by blast
  have "nl_limits l = lims" using assms(1) by (simp add: nl_inv_def)
  then show ?thesis
    using h assms(2) by (auto simp: nl_acquire_def Let_def dropWhile_sorted_filter ts_def ok_def)
qed

lemma nl_acquire_unlimited:
  "nl_inv lims now l \<Longrightarrow> lim_cap lims k = 0 \<Longrightarrow> nl_acquire l k now = (True, l)"
  by (auto simp: nl_acquire_def nl_inv_def lim_cap_def split: option.splits)

lemma nl_inv_acquire [inv_intros]: "nl_inv lims now l \<Longrightarrow> nl_inv lims now (snd (nl_acquire l k now))"
proof (cases "lim_cap lims k = 0")
  case False
  assume inv: "nl_inv lims now l"
  obtain h where h: "sorted h" "\<forall>t \<in> set h. t \<le> now" "nl_hist l k = h"
      "lims k = Some (lim_cap lims k, lim_win lims k)"
    using nl_window_of_inv [OF inv False] by blast
  then show ?thesis using inv
    by (auto simp: nl_acquire_eq [OF inv False] nl_inv_def sorted_append sorted_wrt_filter)
qed (simp add: nl_acquire_unlimited)

lemma nl_hist_other: "j \<noteq> k \<Longrightarrow> nl_hist (snd (nl_acquire l k t)) j = nl_hist l j"
  by (auto simp: nl_acquire_def nl_hist_def Let_def split: prod.splits)

interpretation notifier_window: sliding_window nl_hist nl_acquire "nl_inv lims"
    "lim_cap lims" "lim_win lims" "\<lambda>k. lim_cap lims k \<noteq> 0"
  for lims
proof (unfold_locales, goal_cases)
  case (1 t s u)
  then show ?case by (force simp: nl_inv_def)
next
  case (2 t s k)
  then show ?case by (rule nl_inv_acquire)
next
  case (3 t s k)
  then show ?case by (simp add: nl_acquire_eq [OF 3])
next
  case (4 t s k)
  then show ?case by (simp add: nl_acquire_eq [OF 4] nl_hist_def)
next
  case (5 j k s t)
  then show ?case by (rule nl_hist_other)
qed

lemma nl_inv_new: "nl_inv (nl_limits (new_nlimiter limits)) t (new_nlimiter limits)"
  by (simp add: nl_inv_def new_nlimiter_def)

lemma nl_inv_reset [inv_intros]: "nl_inv lims t l \<Longrightarrow> nl_inv lims t (nl_reset l key)"
  by (auto simp: nl_inv_def nl_reset_def split: option.splits)

text \<open>
  Whatever requests for whatever channels reach the notifier's limiter, in time order,
  no window of a channel's length ever holds more admitted sends of that channel than its
  capacity (a channel configured with a capacity other than 0).
\<close>

theorem notifier_window_never_overfull:
  assumes "sorted (map snd reqs)" and "map_of limits key = Some (cap, w)" and "cap \<noteq> 0" and "0 \<le> w"
  shows "int (in_window a w (times_of key (sw_run nl_acquire (new_nlimiter (Some limits)) reqs))) \<le> max 0 cap"
proof -
  let ?l = "new_nlimiter (Some limits)" and ?t0 = "case reqs of [] \<Rightarrow> 0 | r # _ \<Rightarrow> snd r"
  have lims: "nl_limits ?l key = Some (cap, w)"
    using assms(2) by (auto simp: new_nlimiter_def)
  then have eq: "lim_cap (nl_limits ?l) key = cap" "lim_win (nl_limits ?l) key = w"
    by (simp_all add: lim_cap_def lim_win_def)
  have "sorted (?t0 # map snd reqs)" using assms(1) by (cases reqs) auto
  moreover have "nl_hist ?l key = []" by (simp add: nl_hist_def new_nlimiter_def)
  ultimately show ?thesis
    using notifier_window.window_bound [OF nl_inv_new, of ?t0 reqs "Some limits" key a] assms eq by simp
qed

theorem notifier_window_never_overfull_witness:
  "int (in_window 0 60 (times_of ''serverchan''
     (sw_run nl_acquire (new_nlimiter (Some DEFAULT_LIMITS)) (map (\<lambda>t. (''serverchan'', t)) [0, 1, 2, 3, 4, 5, 6])))) \<le> 5"
  using notifier_window_never_overfull
    [of "map (\<lambda>t. (''serverchan'', t)) [0, 1, 2, 3, 4, 5, 6]" DEFAULT_LIMITS "''serverchan''" 5 60 0]
  by (simp add: DEFAULT_LIMITS_def)

section \<open>The advice merger's limiter\<close>

definition DEFAULT_PER_AGENT_RATE_LIMIT :: int where
  "DEFAULT_PER_AGENT_RATE_LIMIT = 10"

record 'k agent_limit =
  al_max :: int
  al_buckets :: "'k \<rightharpoonup> seconds list"

definition new_agent_limit :: "int \<Rightarrow> 'k agent_limit" where
  "new_agent_limit max_per_minute = \<lparr>al_max = max_per_minute, al_buckets = Map.empty\<rparr>"

definition al_allow :: "'k agent_limit \<Rightarrow> 'k \<Rightarrow> seconds \<Rightarrow> bool \<times> 'k agent_limit" where
  "al_allow l agent now =
     (let cutoff = now - 60;
          history = (case al_buckets l agent of None \<Rightarrow> [] | Some h \<Rightarrow> h);
          kept = filter (\<lambda>ts. ts \<ge> cutoff) history
      in if int (length kept) \<ge> al_max l
         then (False, l\<lparr>al_buckets := (al_buckets l)(agent \<mapsto> kept)\<rparr>)
         else (True, l\<lparr>al_buckets := (al_buckets l)(agent \<mapsto> kept @ [now])\<rparr>))"

definition al_hist :: "'k agent_limit \<Rightarrow> 'k \<Rightarrow> seconds list" where
  "al_hist l agent = (case al_buckets l agent of None \<Rightarrow> [] | Some h \<Rightarrow> h)"

lemma al_max_allow [simp]: "al_max (snd (al_allow l k t)) = al_max l"
  by (simp add: al_allow_def Let_def)

interpretation merger_window: sliding_window al_hist al_allow "\<lambda>t l. al_max l = m"
    "\<lambda>k. m" "\<lambda>k. 60" "\<lambda>k. True"
  for m
  by unfold_locales (auto simp: al_allow_def al_hist_def Let_def not_le)

text \<open>
  Whatever advice arrives, in time order, the merger never lets more than
  \<open>max_per_minute\<close> advices of one agent through in any closed minute.
\<close>

theorem merger_minute_never_overfull:
  assumes "sorted (map snd reqs)"
  shows "int (in_window a 60 (times_of agent (sw_run al_allow (new_agent_limit m) reqs))) \<le> max 0 m"
proof -
  let ?t0 = "case reqs of [] \<Rightarrow> 0 | r # _ \<Rightarrow> snd r"
  have "sorted (?t0 # map snd reqs)" using assms by (cases reqs) auto
  then show ?thesis
    using merger_window.window_bound [where s = "new_agent_limit m" and m = m and ?t0.0 = ?t0 and rs = reqs and k = agent and a = a]
    by (simp add: new_agent_limit_def al_hist_def)
qed

theorem merger_minute_never_overfull_witness:
  "int (in_window 0 60 (times_of ''quant'' (sw_run al_allow (new_agent_limit 2)
     [(''quant'', 0), (''quant'', 1), (''fund'', 1), (''quant'', 2)]))) \<le> 2"
  using merger_minute_never_overfull
    [of "[(''quant'', 0), (''quant'', 1), (''fund'', 1), (''quant'', 2)]" 0 "''quant''" 2] by simp

section \<open>Retrying after a rate limit\<close>

text \<open>
  \<open>with_retry_after\<close>: \<open>fn i\<close> is what the \<open>i\<close>-th call of \<open>fn\<close> does. The result is
  paired with the sleeps taken. With \<open>max_attempts = 0\<close> the loop body never runs and the
  function returns without having called \<open>fn\<close>.
\<close>

datatype retry_result = Done | RateLimited | OtherError

fun retry_loop :: "nat \<Rightarrow> nat \<Rightarrow> nat \<Rightarrow> (nat \<Rightarrow> retry_result) \<Rightarrow> seconds \<Rightarrow> retry_result \<times> seconds list" where
  "retry_loop 0 attempt max_attempts fn sleep_s = (Done, [])"
| "retry_loop (Suc n) attempt max_attempts fn sleep_s =
     (case fn attempt of
        RateLimited \<Rightarrow>
          (if attempt + 1 = max_attempts then (RateLimited, [])
           else let (r, ss) = retry_loop n (attempt + 1) max_attempts fn sleep_s
                in (r, (sleep_s * 2 ^ attempt) # ss))
      | r \<Rightarrow> (r, []))"

definition with_retry_after :: "nat \<Rightarrow> (nat \<Rightarrow> retry_result) \<Rightarrow> seconds \<Rightarrow> retry_result \<times> seconds list" where
  "with_retry_after max_attempts fn sleep_s = retry_loop max_attempts 0 max_attempts fn sleep_s"

lemma retry_loop_all_limited:
  assumes "\<forall>i. fn i = RateLimited" and "attempt + n = m" and "0 < n"
  shows "fst (retry_loop n attempt m fn s) = RateLimited \<and>
         length (snd (retry_loop n attempt m fn s)) = n - 1 \<and>
         sum_list (snd (retry_loop n attempt m fn s)) = s * (2 ^ (m - 1) - 2 ^ attempt)"
  using assms
proof (induction n arbitrary: attempt)
  case (Suc n)
  show ?case
  proof (cases n)
    case 0
    then show ?thesis using Suc.prems by auto
  next
    case (Suc n')
    then show ?thesis using Suc.prems Suc.IH [of "attempt + 1"]
      by (auto simp: split_beta algebra_simps)
  qed
qed simp

text \<open>A call that keeps being refused gives up with the error, after \<open>2 ^ (n - 1) - 1\<close> units of sleep.\<close>

lemma with_retry_after_exhausts:
  "0 < n \<Longrightarrow> \<forall>i. fn i = RateLimited \<Longrightarrow>
     fst (with_retry_after n fn s) = RateLimited \<and>
     sum_list (snd (with_retry_after n fn s)) = s * (2 ^ (n - 1) - 1)"
  using retry_loop_all_limited [of fn 0 n n s] by (simp add: with_retry_after_def)

end
