(* ===== verification/Json.thy ===== *)
theory Json
  imports Prelude
begin

text \<open>
  JSON values as the code handles them after \<open>json.loads\<close>, and Python's accessors on
  them: \<open>d[k]\<close>, \<open>d.get(k, default)\<close>, \<open>str\<close>/\<open>float\<close>/\<open>int\<close> of a value, and its
  truth value. The parsers and printers themselves (json, orjson) are not modelled.
\<close>

datatype json =
  JNull
| JBool bool
| JNum rat
| JStr string
| JArr "json list"
| JObj "(string \<times> json) list"

datatype exn = KeyError string | ValueError string | TypeError | AttributeError | OtherExn string

fun truthy :: "json \<Rightarrow> bool" where
  "truthy JNull = False"
| "truthy (JBool b) = b"
| "truthy (JNum r) = (r \<noteq> 0)"
| "truthy (JStr s) = (s \<noteq> [])"
| "truthy (JArr xs) = (xs \<noteq> [])"
| "truthy (JObj d) = (d \<noteq> [])"

text \<open>\<open>d.get(k)\<close> on a dict; \<open>None\<close> is both a missing key and Python's None.\<close>

fun jget :: "json \<Rightarrow> string \<Rightarrow> json option" where
  "jget (JObj d) k = map_of d k"
| "jget _ k = None"

definition jget_or :: "json \<Rightarrow> string \<Rightarrow> json \<Rightarrow> json" where
  "jget_or d k dflt = (case jget d k of None \<Rightarrow> dflt | Some v \<Rightarrow> v)"

definition jitem :: "json \<Rightarrow> string \<Rightarrow> exn + json" where
  "jitem d k = (case d of JObj m \<Rightarrow> (case map_of m k of None \<Rightarrow> Inl (KeyError k) | Some v \<Rightarrow> Inr v)
                | _ \<Rightarrow> Inl TypeError)"

fun jstr :: "json \<Rightarrow> exn + string" where
  "jstr (JStr s) = Inr s"
| "jstr _ = Inl TypeError"

text \<open>\<open>float(v)\<close>; a numeric string is outside the model and counts as an error.\<close>

fun jfloat :: "json \<Rightarrow> exn + rat" where
  "jfloat (JNum r) = Inr r"
| "jfloat (JBool b) = Inr (if b then 1 else 0)"
| "jfloat (JStr s) = Inl (ValueError s)"
| "jfloat _ = Inl TypeError"

text \<open>\<open>type(v).__name__\<close>, for the messages of TypeError and AttributeError.\<close>

fun type_name :: "json \<Rightarrow> string" where
  "type_name JNull = ''NoneType''"
| "type_name (JBool b) = ''bool''"
| "type_name (JNum r) = (if of_int \<lfloor>r\<rfloor> = r then ''int'' else ''float'')"
| "type_name (JStr s) = ''str''"
| "type_name (JArr xs) = ''list''"
| "type_name (JObj d) = ''dict''"

definition trunc :: "rat \<Rightarrow> int" where
  "trunc x = (if 0 \<le> x then \<lfloor>x\<rfloor> else \<lceil>x\<rceil>)"

lemma trunc_of_int [simp]: "trunc (of_int n) = n"
  by (simp add: trunc_def)

definition jint :: "json \<Rightarrow> exn + int" where
  "jint v = res_bind (jfloat v) (\<lambda>r. Inr (trunc r))"

definition jopt :: "('a \<Rightarrow> json) \<Rightarrow> 'a option \<Rightarrow> json" where
  "jopt f x = (case x of None \<Rightarrow> JNull | Some v \<Rightarrow> f v)"

fun jopt_str :: "json \<Rightarrow> exn + string option" where
  "jopt_str JNull = Inr None"
| "jopt_str (JStr s) = Inr (Some s)"
| "jopt_str _ = Inl TypeError"

fun jstrs :: "json list \<Rightarrow> exn + string list" where
  "jstrs [] = Inr []"
| "jstrs (v # vs) = res_bind (jstr v) (\<lambda>s. res_bind (jstrs vs) (\<lambda>ss. Inr (s # ss)))"

fun jopt_strs :: "json \<Rightarrow> exn + string list option" where
  "jopt_strs JNull = Inr None"
| "jopt_strs (JArr vs) = res_bind (jstrs vs) (\<lambda>ss. Inr (Some ss))"
| "jopt_strs _ = Inl TypeError"

lemma jstrs_map_JStr [simp]: "jstrs (map JStr ss) = Inr ss"
  by (induction ss) simp_all

lemma jopt_str_jopt [simp]: "jopt_str (jopt JStr x) = Inr x"
  by (cases x) (simp_all add: jopt_def)

lemma jopt_strs_jopt [simp]: "jopt_strs (jopt (\<lambda>ss. JArr (map JStr ss)) x) = Inr x"
  by (cases x) (simp_all add: jopt_def)

end
