(* ===== verification/Notifier.thy ===== *)
theory Notifier
  imports RateLimits Json
begin

text \<open>
  The notifier's message types, router and severity plan:
  \<^verbatim>\<open>packages/notifier/notifier/{types,router}.py\<close>. The adapters' \<open>send\<close> (HTTP, SMTP)
  is a parameter: \<open>net_send\<close> says what a send does in a world \<open>'w\<close>, and \<open>net_now\<close> reads
  the monotonic clock of that world. Time passes in sends only. The parallel fan-out runs
  the sends in chain order, which is the order \<open>asyncio.gather\<close> returns its results in.
  Error texts keep their structure instead of being formatted.
\<close>

section \<open>Types\<close>

datatype severity = INFO | WARN | ALERT | CRITICAL

fun severity_rank :: "severity \<Rightarrow> nat" where
  "severity_rank INFO = 0"
| "severity_rank WARN = 1"
| "severity_rank ALERT = 2"
| "severity_rank CRITICAL = 3"

lemma severity_rank_inj [simp]: "severity_rank a = severity_rank b \<longleftrightarrow> a = b"
  by (cases a; cases b) simp_all

instantiation severity :: linorder
begin

definition less_eq_severity :: "severity \<Rightarrow> severity \<Rightarrow> bool" where
  "a \<le> b \<longleftrightarrow> severity_rank a \<le> severity_rank b"

definition less_severity :: "severity \<Rightarrow> severity \<Rightarrow> bool" where
  "a < b \<longleftrightarrow> severity_rank a < severity_rank b"

instance
  by standard (auto simp: less_eq_severity_def less_severity_def)

end

datatype channel_hint = BRIEFS | ALERTS | FILLS | CHAT

fun severity_value :: "severity \<Rightarrow> string" where
  "severity_value INFO = ''info''"
| "severity_value WARN = ''warn''"
| "severity_value ALERT = ''alert''"
| "severity_value CRITICAL = ''critical''"

fun channel_value :: "channel_hint \<Rightarrow> string" where
  "channel_value BRIEFS = ''briefs''"
| "channel_value ALERTS = ''alerts''"
| "channel_value FILLS = ''fills''"
| "channel_value CHAT = ''chat''"

text \<open>The enum constructors \<open>Severity(v)\<close> and \<open>ChannelHint(v)\<close>.\<close>

definition severity_of :: "string \<Rightarrow> exn + severity" where
  "severity_of v = (case List.find (\<lambda>s. severity_value s = v) [INFO, WARN, ALERT, CRITICAL] of
                      None \<Rightarrow> Inl (ValueError v) | Some s \<Rightarrow> Inr s)"

definition channel_of :: "string \<Rightarrow> exn + channel_hint" where
  "channel_of v = (case List.find (\<lambda>c. channel_value c = v) [BRIEFS, ALERTS, FILLS, CHAT] of
                     None \<Rightarrow> Inl (ValueError v) | Some c \<Rightarrow> Inr c)"

lemma severity_of_value [simp]: "severity_of (severity_value s) = Inr s"
  by (cases s) (simp_all add: severity_of_def)

lemma channel_of_value [simp]: "channel_of (channel_value c) = Inr c"
  by (cases c) (simp_all add: channel_of_def)

record notification =
  n_severity :: severity
  n_channel :: channel_hint
  n_markdown :: string
  n_language :: string
  n_mentioned :: "string list option"
  n_target :: "string option"

text \<open>An adapter is known by its name.\<close>

type_synonym adapter = string

datatype send_result = SendOk | SendRateLimit string | SendDown string | SendRejected string | SendError string

datatype attempt_error =
  LimiterFull string
| RateLimitError string
| DownError string
| RejectedError string
| ErrorError string

record adapter_attempt =
  at_name :: string
  at_succeeded :: bool
  at_latency_ms :: int
  at_error :: "attempt_error option"

record notify_result =
  nr_severity :: severity
  nr_channel :: channel_hint
  nr_attempts :: "adapter_attempt list"

definition nr_succeeded :: "notify_result \<Rightarrow> bool" where
  "nr_succeeded r \<longleftrightarrow> (\<exists>a \<in> set (nr_attempts r). at_succeeded a)"

section \<open>Severity plan\<close>

record plan =
  pl_primary :: "adapter list"
  pl_fallbacks :: "adapter list"
  pl_parallel :: bool

definition present :: "adapter option list \<Rightarrow> adapter list" where
  "present as = List.map_filter id as"

definition severity_to_channels :: "severity \<Rightarrow> (string \<rightharpoonup> adapter) \<Rightarrow> plan" where
  "severity_to_channels severity by_name =
     (let wecom = by_name ''wecom_bot''; sc = by_name ''serverchan'';
          ntfy = by_name ''ntfy''; smtp = by_name ''smtp''
      in if severity = CRITICAL
         then \<lparr>pl_primary = present [wecom, sc, ntfy, smtp], pl_fallbacks = [], pl_parallel = True\<rparr>
         else if severity = ALERT
         then \<lparr>pl_primary = present [wecom, sc], pl_fallbacks = present [ntfy, smtp], pl_parallel = False\<rparr>
         else let fallbacks = present [sc, ntfy, smtp]
              in case wecom of
                   None \<Rightarrow> \<lparr>pl_primary = take 1 fallbacks, pl_fallbacks = drop 1 fallbacks, pl_parallel = False\<rparr>
                 | Some w \<Rightarrow> \<lparr>pl_primary = [w], pl_fallbacks = fallbacks, pl_parallel = False\<rparr>)"

text \<open>
  For every severity the plan tries exactly the configured ones of the four channels,
  each once, in the order WeCom bot, ServerChan, ntfy, SMTP; only \<open>critical\<close> fans out in
  parallel, and there is always a primary when any channel is configured.
\<close>

theorem severity_plan_covers_channels:
  "let p = severity_to_channels sev by_name;
       chain = present [by_name ''wecom_bot'', by_name ''serverchan'', by_name ''ntfy'', by_name ''smtp'']
   in pl_primary p @ pl_fallbacks p = chain \<and> (pl_parallel p \<longleftrightarrow> sev = CRITICAL)
      \<and> (sev \<noteq> ALERT \<and> chain \<noteq> [] \<longrightarrow> pl_primary p \<noteq> [])"
  by (cases sev; cases "by_name ''wecom_bot''"; cases "by_name ''serverchan''";
      cases "by_name ''ntfy''"; cases "by_name ''smtp''")
     (simp_all add: severity_to_channels_def present_def List.map_filter_simps)

theorem severity_plan_covers_channels_witness:
  "pl_primary (severity_to_channels WARN [''ntfy'' \<mapsto> ''ntfy'', ''smtp'' \<mapsto> ''smtp'']) \<noteq> []"
  using severity_plan_covers_channels [of WARN "[''ntfy'' \<mapsto> ''ntfy'', ''smtp'' \<mapsto> ''smtp'']"]
  by (simp add: Let_def present_def List.map_filter_simps)

section \<open>Router\<close>

record 'w net =
  net_now :: "'w \<Rightarrow> seconds"
  net_send :: "'w \<Rightarrow> adapter \<Rightarrow> notification \<Rightarrow> send_result \<times> 'w"

type_synonym 'w nstate = "nlimiter \<times> 'w"

definition rate_key :: "adapter \<Rightarrow> channel_hint \<Rightarrow> string" where
  "rate_key adapter hint =
     (if adapter = ''wecom_bot'' then ''wecom_bot:'' @ channel_value hint else adapter)"

definition latency_ms :: "seconds \<Rightarrow> seconds \<Rightarrow> int" where
  "latency_ms started now = trunc ((now - started) * 1000)"

definition failure :: "adapter \<Rightarrow> seconds \<Rightarrow> seconds \<Rightarrow> attempt_error \<Rightarrow> adapter_attempt" where
  "failure name started now err =
     \<lparr>at_name = name, at_succeeded = False, at_latency_ms = latency_ms started now, at_error = Some err\<rparr>"

definition try_adapter :: "'w net \<Rightarrow> adapter \<Rightarrow> notification \<Rightarrow> 'w nstate \<Rightarrow> adapter_attempt \<times> 'w nstate" where
  "try_adapter net adapter n s =
     (let (lim, w) = s;
          key = rate_key adapter (n_channel n);
          started = net_now net w
      in case nl_acquire lim key started of
           (False, lim') \<Rightarrow> (failure adapter started (net_now net w) (LimiterFull key), (lim', w))
         | (True, lim') \<Rightarrow>
             (case net_send net w adapter n of
                (SendRateLimit e, w') \<Rightarrow> (failure adapter started (net_now net w') (RateLimitError e), (lim', w'))
              | (SendDown e, w') \<Rightarrow> (failure adapter started (net_now net w') (DownError e), (lim', w'))
              | (SendRejected e, w') \<Rightarrow> (failure adapter started (net_now net w') (RejectedError e), (lim', w'))
              | (SendError e, w') \<Rightarrow> (failure adapter started (net_now net w') (ErrorError e), (lim', w'))
              | (SendOk, w') \<Rightarrow>
                  (\<lparr>at_name = adapter, at_succeeded = True,
                    at_latency_ms = latency_ms started (net_now net w'), at_error = None\<rparr>, (lim', w'))))"

fun run_cascade :: "'w net \<Rightarrow> adapter list \<Rightarrow> notification \<Rightarrow> 'w nstate \<Rightarrow> adapter_attempt list \<times> 'w nstate" where
  "run_cascade net [] n s = ([], s)"
| "run_cascade net (a # chain) n s =
     (let (attempt, s') = try_adapter net a n s
      in if at_succeeded attempt then ([attempt], s')
         else let (rest, s'') = run_cascade net chain n s' in (attempt # rest, s''))"

fun run_parallel :: "'w net \<Rightarrow> adapter list \<Rightarrow> notification \<Rightarrow> 'w nstate \<Rightarrow> adapter_attempt list \<times> 'w nstate" where
  "run_parallel net [] n s = ([], s)"
| "run_parallel net (a # chain) n s =
     (let (attempt, s') = try_adapter net a n s; (rest, s'') = run_parallel net chain n s'
      in (attempt # rest, s''))"

text \<open>\<open>notify\<close>: \<open>Inl\<close> is \<open>NotifyExhausted\<close>, carrying its message and, for the proofs, the attempts made.\<close>

definition notify_attempts :: "'w net \<Rightarrow> (string \<rightharpoonup> adapter) \<Rightarrow> notification \<Rightarrow> 'w nstate \<Rightarrow> adapter_attempt list \<times> 'w nstate" where
  "notify_attempts net adapters n s =
     (let p = severity_to_channels (n_severity n) adapters
      in if pl_parallel p then run_parallel net (pl_primary p) n s
         else run_cascade net (pl_primary p @ pl_fallbacks p) n s)"

definition exhausted_message :: "notification \<Rightarrow> string" where
  "exhausted_message n = ''all adapters failed for severity='' @ severity_value (n_severity n)"

definition notify :: "'w net \<Rightarrow> (string \<rightharpoonup> adapter) \<Rightarrow> notification \<Rightarrow> 'w nstate \<Rightarrow> (string + notify_result) \<times> 'w nstate" where
  "notify net adapters n s =
     (let (attempts, s') = notify_attempts net adapters n s;
          result = \<lparr>nr_severity = n_severity n, nr_channel = n_channel n, nr_attempts = attempts\<rparr>
      in (if nr_succeeded result then Inr result else Inl (exhausted_message n), s'))"

definition build_router :: "adapter list \<Rightarrow> (string \<rightharpoonup> adapter)" where
  "build_router adapters = fold (\<lambda>a m. m(a \<mapsto> a)) adapters Map.empty"

lemma try_adapter_name [simp]: "at_name (fst (try_adapter net a n s)) = a"
  by (auto simp: try_adapter_def failure_def Let_def split: prod.splits bool.splits send_result.splits)

lemma try_adapter_error: "at_succeeded (fst (try_adapter net a n s)) \<longleftrightarrow> at_error (fst (try_adapter net a n s)) = None"
  by (auto simp: try_adapter_def failure_def Let_def split: prod.splits bool.splits send_result.splits)

lemma run_cascade_shape:
  "run_cascade net chain n s = (as, s') \<Longrightarrow>
     map at_name as = take (length as) chain \<and> length as \<le> length chain \<and>
     (\<forall>a \<in> set (butlast as). \<not> at_succeeded a) \<and>
     ((\<exists>a \<in> set as. at_succeeded a) \<or> length as = length chain)"
proof (induction chain arbitrary: s as s')
  case (Cons a chain)
  obtain x s1 where x: "try_adapter net a n s = (x, s1)" by (cases "try_adapter net a n s")
  then have "at_name x = a" using try_adapter_name [of net a n s] by simp
  then show ?case using Cons.IH [of s1] Cons.prems x
    by (cases "run_cascade net chain n s1") (auto split: if_splits)
qed simp

lemma run_parallel_shape: "map at_name (fst (run_parallel net chain n s)) = chain"
proof (induction chain arbitrary: s)
  case (Cons a chain)
  obtain x s1 where x: "try_adapter net a n s = (x, s1)" by (cases "try_adapter net a n s")
  then have "at_name x = a" using try_adapter_name [of net a n s] by simp
  then show ?case using Cons.IH [of s1] x by (cases "run_parallel net chain n s1") auto
qed simp

definition planned_chain :: "(string \<rightharpoonup> adapter) \<Rightarrow> notification \<Rightarrow> adapter list" where
  "planned_chain adapters n =
     (let p = severity_to_channels (n_severity n) adapters in pl_primary p @ pl_fallbacks p)"

lemma parallel_iff_critical: "pl_parallel (severity_to_channels sev by) \<longleftrightarrow> sev = CRITICAL"
  by (cases sev) (auto simp: severity_to_channels_def Let_def split: option.splits)

lemma parallel_no_fallbacks:
  "pl_parallel (severity_to_channels sev by) \<Longrightarrow> pl_fallbacks (severity_to_channels sev by) = []"
  by (auto simp: severity_to_channels_def Let_def split: if_splits option.splits)

text \<open>
  \<open>notify\<close> tries the planned adapters in order. It raises \<open>NotifyExhausted\<close> exactly
  when every planned adapter was tried and failed; otherwise it returns a result recording
  a prefix of the plan with a success in it, and outside the parallel fan-out the first
  success is the last adapter tried.
\<close>

theorem notify_tries_plan_in_order:
  "let (as, s1) = notify_attempts net adapters n s;
       (res, s2) = notify net adapters n s;
       chain = planned_chain adapters n
   in map at_name as = take (length as) chain
      \<and> (case res of
           Inl msg \<Rightarrow> length as = length chain \<and> (\<forall>a \<in> set as. \<not> at_succeeded a)
         | Inr r \<Rightarrow> nr_attempts r = as \<and> (\<exists>a \<in> set as. at_succeeded a)
             \<and> (n_severity n \<noteq> CRITICAL \<longrightarrow> (\<forall>a \<in> set (butlast as). \<not> at_succeeded a)))
      \<and> s1 = s2"
proof -
  let ?p = "severity_to_channels (n_severity n) adapters"
  obtain as s1 where as: "notify_attempts net adapters n s = (as, s1)"
    by (cases "notify_attempts net adapters n s")
  have par: "pl_parallel ?p \<longleftrightarrow> n_severity n = CRITICAL"
    by (rule parallel_iff_critical)
  show ?thesis
  proof (cases "n_severity n = CRITICAL")
    case True
    then have "map at_name as = planned_chain adapters n"
      using as par run_parallel_shape [of net "pl_primary ?p" n s] parallel_no_fallbacks
      by (simp add: notify_attempts_def planned_chain_def Let_def)
    then show ?thesis using as True
      by (auto simp: notify_def nr_succeeded_def dest: arg_cong [where f = length])
  next
    case False
    then have "run_cascade net (planned_chain adapters n) n s = (as, s1)"
      using as par by (simp add: notify_attempts_def planned_chain_def Let_def)
    from run_cascade_shape [OF this] show ?thesis using as False
      by (auto simp: notify_def nr_succeeded_def)
  qed
qed

text \<open>A world for the witnesses: the clock stands still and only ntfy delivers.\<close>

definition ntfy_only :: "unit net" where
  "ntfy_only = \<lparr>net_now = (\<lambda>w. 0),
     net_send = (\<lambda>w a n. (if a = ''ntfy'' then SendOk else SendDown ''refused'', w))\<rparr>"

definition sample_notification :: "severity \<Rightarrow> notification" where
  "sample_notification sev =
     \<lparr>n_severity = sev, n_channel = ALERTS, n_markdown = ''m'', n_language = ''en'',
      n_mentioned = None, n_target = None\<rparr>"

theorem notify_tries_plan_in_order_witness:
  "map at_name (fst (notify_attempts ntfy_only [''wecom_bot'' \<mapsto> ''wecom_bot'', ''ntfy'' \<mapsto> ''ntfy'', ''smtp'' \<mapsto> ''smtp'']
      (sample_notification WARN) (new_nlimiter None, ()))) = [''wecom_bot'', ''ntfy'']"
proof -
  let ?m = "[''wecom_bot'' \<mapsto> ''wecom_bot'', ''ntfy'' \<mapsto> ''ntfy'', ''smtp'' \<mapsto> ''smtp'']"
  let ?n = "sample_notification WARN" and ?s = "(new_nlimiter None, ())"
  have chain: "planned_chain ?m ?n = [''wecom_bot'', ''ntfy'', ''smtp'']"
    by (simp add: planned_chain_def sample_notification_def severity_to_channels_def present_def
        List.map_filter_simps Let_def)
  have "length (fst (notify_attempts ntfy_only ?m ?n ?s)) = 2"
    by (simp add: notify_attempts_def sample_notification_def severity_to_channels_def present_def
        List.map_filter_simps Let_def try_adapter_def ntfy_only_def nl_acquire_def new_nlimiter_def
        DEFAULT_LIMITS_def rate_key_def failure_def)
  then show ?thesis
    using notify_tries_plan_in_order [of ntfy_only ?m ?n ?s] chain
    by (auto simp: split_beta Let_def numeral_2_eq_2)
qed

end
