(* ===== verification/Redelivery.thy ===== *)
theory Redelivery
  imports Notifier
begin

text \<open>
  The durable redelivery queue of \<^verbatim>\<open>packages/notifier/notifier/redelivery.py\<close>: what happens to
  a notification no adapter took, the drain pass, and the JSON form the Redis queue stores.
  The queue is an interface (\<open>RedeliveryQueue\<close>), here a locale; the in-memory queue
  discharges it. The Redis queue's own commands are not modelled, its (de)serialisation is.
\<close>

section \<open>Messages and their lifetime\<close>

record queued =
  qm_id :: string
  qm_notification :: notification
  qm_enqueued_at :: seconds
  qm_expires_at :: seconds
  qm_trace_id :: "string option"
  qm_attempts :: int
  qm_last_error :: "string option"

definition TTL_BY_SEVERITY :: "(severity, int) dict" where
  "TTL_BY_SEVERITY = [(CRITICAL, 60 * 60), (ALERT, 60 * 60 * 6), (WARN, 60 * 60 * 12), (INFO, 60 * 60 * 24)]"

definition ttl_of :: "severity \<Rightarrow> int" where
  "ttl_of sev = (case map_of TTL_BY_SEVERITY sev of None \<Rightarrow> 6 * 3600 | Some t \<Rightarrow> t)"

lemma ttl_of_eqs [simp]:
  "ttl_of CRITICAL = 3600" "ttl_of ALERT = 21600" "ttl_of WARN = 43200" "ttl_of INFO = 86400"
  by (simp_all add: ttl_of_def TTL_BY_SEVERITY_def)

lemma ttl_of_pos: "0 < ttl_of sev"
  by (cases sev) simp_all

text \<open>The more severe a message, the sooner the queue gives up on it.\<close>

lemma ttl_of_antimono: "a \<le> b \<Longrightarrow> ttl_of b \<le> ttl_of a"
  by (cases a; cases b) (simp_all add: less_eq_severity_def)

section \<open>The queue interface\<close>

definition bump_attempt :: "string \<Rightarrow> queued \<Rightarrow> queued" where
  "bump_attempt error m = m\<lparr>qm_attempts := qm_attempts m + 1, qm_last_error := Some error\<rparr>"

lemma bump_attempt_id [simp]: "qm_id (bump_attempt e m) = qm_id m"
  by (simp add: bump_attempt_def)

text \<open>
  \<open>drain_once\<close> over any queue: \<open>update_attempt\<close> and \<open>remove\<close> are the queue's, \<open>send\<close>
  stands for \<open>router.notify\<close> (\<open>Inl\<close> is \<open>NotifyExhausted\<close>). The result is the number
  delivered, the queue and the state of the router.
\<close>

fun drain_loop :: "(notification \<Rightarrow> 's \<Rightarrow> (string + notify_result) \<times> 's) \<Rightarrow> ('q \<Rightarrow> string \<Rightarrow> string \<Rightarrow> 'q) \<Rightarrow>
    ('q \<Rightarrow> string \<Rightarrow> 'q) \<Rightarrow> queued list \<Rightarrow> 'q \<Rightarrow> 's \<Rightarrow> nat \<Rightarrow> nat \<times> 'q \<times> 's" where
  "drain_loop send upd rem [] q s delivered = (delivered, q, s)"
| "drain_loop send upd rem (m # ms) q s delivered =
     (case send (qm_notification m) s of
        (Inl exc, s') \<Rightarrow> drain_loop send upd rem ms (upd q (qm_id m) exc) s' delivered
      | (Inr r, s') \<Rightarrow> drain_loop send upd rem ms (rem q (qm_id m)) s' (delivered + 1))"

text \<open>Which of the messages are delivered, in order: it does not depend on the queue.\<close>

fun deliveries :: "(notification \<Rightarrow> 's \<Rightarrow> (string + notify_result) \<times> 's) \<Rightarrow> queued list \<Rightarrow> 's \<Rightarrow> (string + notify_result) list \<times> 's" where
  "deliveries send [] s = ([], s)"
| "deliveries send (m # ms) s =
     (let (r, s') = send (qm_notification m) s; (rs, s'') = deliveries send ms s' in (r # rs, s''))"

text \<open>What a pass makes of the stored messages: a delivered one is gone, a failed one has one more attempt.\<close>

definition after_attempt :: "queued \<Rightarrow> string + notify_result \<Rightarrow> queued option" where
  "after_attempt m r = (case r of Inl exc \<Rightarrow> Some (bump_attempt exc m) | Inr _ \<Rightarrow> None)"

lemma length_deliveries [simp]: "length (fst (deliveries send ms s)) = length ms"
  by (induction ms arbitrary: s) (simp_all add: Let_def split_beta)

locale redelivery_queue =
  fixes enq :: "'q \<Rightarrow> queued \<Rightarrow> 'q"
    and pending :: "'q \<Rightarrow> seconds \<Rightarrow> queued list"
    and rem :: "'q \<Rightarrow> string \<Rightarrow> 'q"
    and upd :: "'q \<Rightarrow> string \<Rightarrow> string \<Rightarrow> 'q"
    and look :: "'q \<Rightarrow> string \<Rightarrow> queued option"
    and invar :: "'q \<Rightarrow> bool"
  assumes look_enq: "invar q \<Longrightarrow> look (enq q m) = (look q)(qm_id m \<mapsto> m)"
    and look_rem: "invar q \<Longrightarrow> look (rem q i) = (look q)(i := None)"
    and look_upd: "invar q \<Longrightarrow> look (upd q i e) = (look q)(i := map_option (bump_attempt e) (look q i))"
    and pending_set: "invar q \<Longrightarrow> set (pending q now) = {m. look q (qm_id m) = Some m \<and> now < qm_expires_at m}"
    and pending_distinct: "invar q \<Longrightarrow> distinct (map qm_id (pending q now))"
    and invar_enq: "invar q \<Longrightarrow> invar (enq q m)"
    and invar_rem: "invar q \<Longrightarrow> invar (rem q i)"
    and invar_upd: "invar q \<Longrightarrow> invar (upd q i e)"
begin

lemma drain_loop_spec:
  assumes "invar q" and "distinct (map qm_id ms)" and "\<forall>m \<in> set ms. look q (qm_id m) = Some m"
    and "drain_loop send upd rem ms q s n = (d, q', s')" and "deliveries send ms s = (rs, s'')"
  shows "invar q' \<and> s' = s'' \<and> d = n + length (filter (\<lambda>r. \<not> isl r) rs)
    \<and> (\<forall>(m, r) \<in> set (zip ms rs). look q' (qm_id m) = after_attempt m r)
    \<and> (\<forall>i. i \<notin> qm_id ` set ms \<longrightarrow> look q' i = look q i)"
  using assms
proof (induction ms arbitrary: q s n rs)
  case Nil
  then show ?case by simp
next
  case (Cons m ms)
  obtain r s1 where r: "send (qm_notification m) s = (r, s1)" by (cases "send (qm_notification m) s")
  obtain rs' where rs': "deliveries send ms s1 = (rs', s'')" "rs = r # rs'"
    using Cons.prems(5) r by (cases "deliveries send ms s1") auto
  define q1 where "q1 = (case r of Inl exc \<Rightarrow> upd q (qm_id m) exc | Inr _ \<Rightarrow> rem q (qm_id m))"
  define n1 where "n1 = (if isl r then n else n + 1)"
  have run: "drain_loop send upd rem ms q1 s1 n1 = (d, q', s')"
    using Cons.prems(4) r by (cases r) (simp_all add: q1_def n1_def)
  have inv1: "invar q1"
    using Cons.prems(1) by (cases r) (simp_all add: q1_def invar_upd invar_rem)
  have look1: "look q1 = (look q)(qm_id m := after_attempt m r)"
    using Cons.prems(1,3) by (cases r) (simp_all add: q1_def after_attempt_def look_upd look_rem)
  have fresh: "qm_id m \<notin> qm_id ` set ms" and dist: "distinct (map qm_id ms)"
    using Cons.prems(2) by auto
  have "\<forall>m' \<in> set ms. look q1 (qm_id m') = Some m'"
  proof
    fix m' assume m': "m' \<in> set ms"
    then have "qm_id m' \<noteq> qm_id m" using fresh by (metis imageI)
    moreover have "look q (qm_id m') = Some m'" using Cons.prems(3) m' by simp
    ultimately show "look q1 (qm_id m') = Some m'" by (simp add: look1)
  qed
  note IH = Cons.IH [OF inv1 dist this run rs'(1)]
  have others: "i \<notin> qm_id ` set ms \<longrightarrow> look q' i = look q1 i" for i using IH by blast
  have head: "look q' (qm_id m) = after_attempt m r" using fresh others [of "qm_id m"] by (simp add: look1)
  have count: "d = n + length (filter (\<lambda>r. \<not> isl r) rs)"
    using IH rs'(2) by (cases r) (simp_all add: n1_def)
  have rest: "\<forall>i. i \<notin> qm_id ` set (m # ms) \<longrightarrow> look q' i = look q i"
    using others by (simp add: look1)
  have "\<forall>(m, r) \<in> set (zip ms rs'). look q' (qm_id m) = after_attempt m r" using IH by blast
  then have "\<forall>(m, r) \<in> set (zip (m # ms) rs). look q' (qm_id m) = after_attempt m r"
    unfolding rs'(2) zip_Cons_Cons list.set(2) using head by blast
  then show ?case using IH count rest by blast
qed

lemma drain_pending_spec:
  assumes "invar q" and "drain_loop send upd rem (pending q now) q s 0 = (d, q', s')"
    and "deliveries send (pending q now) s = (rs, s'')"
  shows "invar q' \<and> s' = s'' \<and> d = length (filter (\<lambda>r. \<not> isl r) rs)
    \<and> (\<forall>(m, r) \<in> set (zip (pending q now) rs). look q' (qm_id m) = after_attempt m r)
    \<and> (\<forall>i. i \<notin> qm_id ` set (pending q now) \<longrightarrow> look q' i = look q i)"
  using drain_loop_spec [OF assms(1) pending_distinct [OF assms(1)] _ assms(2,3)]
  by (simp add: pending_set assms(1))

end

section \<open>The in-memory queue\<close>

type_synonym mem_queue = "(string, queued) dict"

definition mq_enqueue :: "mem_queue \<Rightarrow> queued \<Rightarrow> mem_queue" where
  "mq_enqueue q m = AList.update (qm_id m) m q"

definition mq_list_pending :: "mem_queue \<Rightarrow> seconds \<Rightarrow> queued list" where
  "mq_list_pending q now = filter (\<lambda>m. qm_expires_at m > now) (vals q)"

definition mq_remove :: "mem_queue \<Rightarrow> string \<Rightarrow> mem_queue" where
  "mq_remove q i = AList.delete i q"

definition mq_update_attempt :: "mem_queue \<Rightarrow> string \<Rightarrow> string \<Rightarrow> mem_queue" where
  "mq_update_attempt q i error =
     (case map_of q i of None \<Rightarrow> q | Some m \<Rightarrow> AList.update i (bump_attempt error m) q)"

definition mq_size :: "mem_queue \<Rightarrow> nat" where
  "mq_size q = length q"

definition mq_inv :: "mem_queue \<Rightarrow> bool" where
  "mq_inv q \<longleftrightarrow> distinct (keys q) \<and> (\<forall>i m. map_of q i = Some m \<longrightarrow> qm_id m = i)"

lemma mq_inv_empty [simp]: "mq_inv []"
  by (simp add: mq_inv_def)

lemma mq_inv_update [inv_intros]: "mq_inv q \<Longrightarrow> qm_id m = i \<Longrightarrow> mq_inv (AList.update i m q)"
  by (simp add: mq_inv_def distinct_keys_update)

lemma mq_inv_delete [inv_intros]: "mq_inv q \<Longrightarrow> mq_inv (AList.delete i q)"
  by (simp add: mq_inv_def distinct_keys_delete)

lemma mq_inv_lookup: "mq_inv q \<Longrightarrow> map_of q i = Some m \<Longrightarrow> qm_id m = i"
  by (simp add: mq_inv_def)

lemma mq_set_iff: "mq_inv q \<Longrightarrow> (i, m) \<in> set q \<longleftrightarrow> map_of q i = Some m"
  by (simp add: mq_inv_def)

lemma mq_vals_ids: "mq_inv q \<Longrightarrow> map qm_id (vals q) = keys q"
  by (auto simp: mq_set_iff dest: mq_inv_lookup)

lemma mq_pending_set:
  "mq_inv q \<Longrightarrow> set (mq_list_pending q now) = {m. map_of q (qm_id m) = Some m \<and> now < qm_expires_at m}"
proof -
  assume inv: "mq_inv q"
  have "m \<in> set (vals q) \<longleftrightarrow> map_of q (qm_id m) = Some m" for m
  proof
    assume "m \<in> set (vals q)"
    then obtain i where "map_of q i = Some m" using mq_set_iff [OF inv] by auto
    then show "map_of q (qm_id m) = Some m" using mq_inv_lookup [OF inv] by simp
  next
    assume "map_of q (qm_id m) = Some m"
    then have "(qm_id m, m) \<in> set q" by (rule map_of_SomeD)
    then show "m \<in> set (vals q)" by force
  qed
  then show ?thesis by (auto simp: mq_list_pending_def)
qed

interpretation mem_queue: redelivery_queue mq_enqueue mq_list_pending mq_remove mq_update_attempt map_of mq_inv
proof (unfold_locales, goal_cases)
  case (1 q m)
  then show ?case by (simp add: mq_enqueue_def)
next
  case (2 q i)
  then show ?case by (simp add: mq_remove_def)
next
  case (3 q i e)
  then show ?case by (auto simp: mq_update_attempt_def fun_upd_idem split: option.splits)
next
  case (4 q now)
  then show ?case by (rule mq_pending_set)
next
  case (5 q now)
  have "distinct (map qm_id (vals q))" unfolding mq_vals_ids [OF 5] using 5 by (simp add: mq_inv_def)
  then show ?case by (simp add: mq_list_pending_def distinct_map_filter)
next
  case (6 q m)
  then show ?case by (simp add: mq_enqueue_def mq_inv_update)
next
  case (7 q i)
  then show ?case by (simp add: mq_remove_def mq_inv_delete)
next
  case (8 q i e)
  then show ?case
    by (auto simp: mq_update_attempt_def mq_inv_update mq_inv_lookup split: option.splits)
qed

section \<open>The drain pass\<close>

definition drain_once :: "'w net \<Rightarrow> (string \<rightharpoonup> adapter) \<Rightarrow> mem_queue \<Rightarrow> 'w nstate \<Rightarrow> nat \<times> mem_queue \<times> 'w nstate" where
  "drain_once net adapters q s =
     drain_loop (notify net adapters) mq_update_attempt mq_remove
       (mq_list_pending q (net_now net (snd s))) q s 0"

text \<open>
  A drain pass over the in-memory queue tries every unexpired message once. A message
  an adapter took is removed, a message no adapter took stays with one more attempt and
  the error recorded, every other message is untouched, and the count returned is the
  number of messages taken.
\<close>

theorem drain_once_accounts_for_every_message:
  assumes "mq_inv q" and "drain_once net adapters q s = (d, q', s')"
    and "pend = mq_list_pending q (net_now net (snd s))"
    and "deliveries (notify net adapters) pend s = (rs, s'')"
  shows "mq_inv q' \<and> d = length (filter (\<lambda>r. \<not> isl r) rs) \<and> length rs = length pend
    \<and> (\<forall>(m, r) \<in> set (zip pend rs). map_of q' (qm_id m) = after_attempt m r)
    \<and> (\<forall>i. i \<notin> qm_id ` set pend \<longrightarrow> map_of q' i = map_of q i)"
  using mem_queue.drain_pending_spec [OF assms(1) assms(2) [unfolded drain_once_def]] assms(3,4)
    length_deliveries [of "notify net adapters" pend s]
  by simp

definition sample_queued :: queued where
  "sample_queued = \<lparr>qm_id = ''n1'', qm_notification = sample_notification WARN, qm_enqueued_at = 0,
     qm_expires_at = 43200, qm_trace_id = None, qm_attempts = 0, qm_last_error = None\<rparr>"

lemma ntfy_only_notify:
  "isl (fst (notify ntfy_only [''smtp'' \<mapsto> ''smtp''] (sample_notification WARN) (new_nlimiter None, ())))"
  by (simp add: notify_def notify_attempts_def sample_notification_def severity_to_channels_def present_def
      List.map_filter_simps Let_def try_adapter_def ntfy_only_def nl_acquire_def new_nlimiter_def
      DEFAULT_LIMITS_def rate_key_def failure_def nr_succeeded_def)

theorem drain_once_accounts_for_every_message_witness:
  "\<exists>d q' s' m. drain_once ntfy_only [''smtp'' \<mapsto> ''smtp''] [(''n1'', sample_queued)] (new_nlimiter None, ()) = (d, q', s')
     \<and> d = 0 \<and> map_of q' ''n1'' = Some m \<and> qm_attempts m = 1"
proof -
  let ?a = "[''smtp'' \<mapsto> ''smtp'']" and ?q = "[(''n1'', sample_queued)]" and ?s = "(new_nlimiter None, ())"
  obtain d q' s' where run: "drain_once ntfy_only ?a ?q ?s = (d, q', s')"
    by (cases "drain_once ntfy_only ?a ?q ?s") auto
  have pend: "[sample_queued] = mq_list_pending ?q (net_now ntfy_only (snd ?s))"
    by (simp add: mq_list_pending_def sample_queued_def ntfy_only_def)
  obtain e s1 where e: "notify ntfy_only ?a (sample_notification WARN) ?s = (Inl e, s1)"
    using ntfy_only_notify by (metis isl_def prod.collapse)
  then have del: "deliveries (notify ntfy_only ?a) [sample_queued] ?s = ([Inl e], s1)"
    by (simp add: sample_queued_def)
  have "mq_inv ?q" by (auto simp: mq_inv_def sample_queued_def)
  from drain_once_accounts_for_every_message [OF this run pend del] run show ?thesis
    by (cases s') (auto simp: after_attempt_def bump_attempt_def sample_queued_def)
qed

section \<open>Deferring a notification no adapter took\<close>

record deferral =
  df_message :: queued
  df_critical_push :: bool

definition notify_with_redelivery :: "'w net \<Rightarrow> (string \<rightharpoonup> adapter) \<Rightarrow> notification \<Rightarrow> mem_queue \<Rightarrow> 'w nstate \<Rightarrow>
    string option \<Rightarrow> string \<Rightarrow> notify_result option \<times> mem_queue \<times> 'w nstate \<times> deferral option" where
  "notify_with_redelivery net adapters n q s trace_id nid =
     (case notify net adapters n s of
        (Inr r, s') \<Rightarrow> (Some r, q, s', None)
      | (Inl exc, s') \<Rightarrow>
          let now = net_now net (snd s');
              msg = \<lparr>qm_id = nid, qm_notification = n, qm_enqueued_at = now,
                     qm_expires_at = now + of_int (ttl_of (n_severity n)),
                     qm_trace_id = trace_id, qm_attempts = 0, qm_last_error = Some exc\<rparr>
          in (None, mq_enqueue q msg, s',
              Some \<lparr>df_message = msg, df_critical_push = (n_severity n = CRITICAL)\<rparr>))"

text \<open>
  A notification is never lost. Either some adapter took it and the queue is as it
  was, or it is stored under its id, and every drain pass made before the TTL of its
  severity runs out tries it again: it is removed and counted if an adapter takes it now,
  and kept with the failed attempt recorded otherwise.
\<close>

theorem deferred_message_is_retried:
  assumes "mq_inv q" and "notify_with_redelivery net adapters n q s tid nid = (res, q1, s1, df)"
  shows "(case res of
       Some r \<Rightarrow> nr_succeeded r \<and> q1 = q
     | None \<Rightarrow> \<exists>m. map_of q1 nid = Some m \<and> qm_notification m = n
        \<and> (\<forall>s2 d q2 s3 rs st.
             net_now net (snd s2) < net_now net (snd s1) + of_int (ttl_of (n_severity n))
             \<longrightarrow> drain_once net adapters' q1 s2 = (d, q2, s3)
             \<longrightarrow> deliveries (notify net adapters') (mq_list_pending q1 (net_now net (snd s2))) s2 = (rs, st)
             \<longrightarrow> (\<exists>r \<in> set rs. map_of q2 nid = after_attempt m r \<and> (\<not> isl r \<longrightarrow> 0 < d))))"
proof (cases res)
  case (Some r)
  then show ?thesis using assms(2)
    by (auto simp: notify_with_redelivery_def notify_def Let_def split: prod.splits sum.splits if_splits)
next
  case None
  then obtain exc where "notify net adapters n s = (Inl exc, s1)"
    using assms(2) by (auto simp: notify_with_redelivery_def Let_def split: prod.splits sum.splits)
  then obtain m where m: "q1 = mq_enqueue q m" "qm_id m = nid" "qm_notification m = n"
      "qm_expires_at m = net_now net (snd s1) + of_int (ttl_of (n_severity n))"
    using assms(2) by (auto simp: notify_with_redelivery_def Let_def)
  have inv: "mq_inv q1" and look: "map_of q1 nid = Some m"
    using m assms(1) by (simp_all add: mem_queue.invar_enq mem_queue.look_enq)
  have "\<exists>r \<in> set rs. map_of q2 nid = after_attempt m r \<and> (\<not> isl r \<longrightarrow> 0 < d)"
    if early: "net_now net (snd s2) < net_now net (snd s1) + of_int (ttl_of (n_severity n))"
      and run: "drain_once net adapters' q1 s2 = (d, q2, s3)"
      and del: "deliveries (notify net adapters') (mq_list_pending q1 (net_now net (snd s2))) s2 = (rs, st)"
    for s2 d q2 s3 rs st
  proof -
    let ?pend = "mq_list_pending q1 (net_now net (snd s2))"
    note acc = mem_queue.drain_pending_spec [OF inv run [unfolded drain_once_def] del]
    have "m \<in> set ?pend" using look m(2,4) early unfolding mem_queue.pending_set [OF inv] by simp
    moreover have "length rs = length ?pend"
      using length_deliveries [of "notify net adapters'" ?pend s2] del by simp
    ultimately obtain r where r: "(m, r) \<in> set (zip ?pend rs)"
      by (metis in_set_impl_in_set_zip1)
    then have "map_of q2 nid = after_attempt m r" using acc m(2) by auto
    moreover have "r \<in> set rs" using r by (rule set_zip_rightD)
    moreover have "\<not> isl r \<longrightarrow> 0 < d"
      using acc \<open>r \<in> set rs\<close> by (metis (mono_tags, lifting) filter_empty_conv length_greater_0_conv)
    ultimately show ?thesis by blast
  qed
  then show ?thesis using None look m(3) by auto
qed

theorem deferred_message_is_retried_witness:
  "\<exists>res q1 s1 df m. notify_with_redelivery ntfy_only [''smtp'' \<mapsto> ''smtp''] (sample_notification WARN) []
      (new_nlimiter None, ()) None ''n1'' = (res, q1, s1, df) \<and> res = None
     \<and> map_of q1 ''n1'' = Some m \<and> qm_notification m = sample_notification WARN"
proof -
  let ?a = "[''smtp'' \<mapsto> ''smtp'']" and ?n = "sample_notification WARN" and ?s = "(new_nlimiter None, ())"
  obtain res q1 s1 df where run: "notify_with_redelivery ntfy_only ?a ?n [] ?s None ''n1'' = (res, q1, s1, df)"
    by (cases "notify_with_redelivery ntfy_only ?a ?n [] ?s None ''n1''") auto
  obtain e s2 where "notify ntfy_only ?a ?n ?s = (Inl e, s2)"
    using ntfy_only_notify by (metis isl_def prod.collapse)
  then have "res = None" using run by (auto simp: notify_with_redelivery_def Let_def)
  moreover from deferred_message_is_retried [OF mq_inv_empty run, where adapters' = Map.empty] this
  have "\<exists>m. map_of q1 ''n1'' = Some m \<and> qm_notification m = ?n" by (simp only: option.case) blast
  ultimately show ?thesis using run by blast
qed

section \<open>The stored form\<close>

definition jserialize :: "queued \<Rightarrow> json" where
  "jserialize m =
     (let n = qm_notification m in
      JObj [(''notification_id'', JStr (qm_id m)),
            (''trace_id'', jopt JStr (qm_trace_id m)),
            (''enqueued_at'', JNum (qm_enqueued_at m)),
            (''expires_at'', JNum (qm_expires_at m)),
            (''attempts'', JNum (of_int (qm_attempts m))),
            (''last_error'', jopt JStr (qm_last_error m)),
            (''notification'',
             JObj [(''severity'', JStr (severity_value (n_severity n))),
                   (''channel_hint'', JStr (channel_value (n_channel n))),
                   (''markdown'', JStr (n_markdown n)),
                   (''language'', JStr (n_language n)),
                   (''mentioned_list'', jopt (\<lambda>ss. JArr (map JStr ss)) (n_mentioned n)),
                   (''target_user'', jopt JStr (n_target n))])])"

definition jdeserialize :: "json \<Rightarrow> exn + queued" where
  "jdeserialize d =
     res_bind (jitem d ''notification'') (\<lambda>n.
     res_bind (res_bind (jitem d ''notification_id'') jstr) (\<lambda>nid.
     res_bind (res_bind (res_bind (jitem n ''severity'') jstr) severity_of) (\<lambda>sev.
     res_bind (res_bind (res_bind (jitem n ''channel_hint'') jstr) channel_of) (\<lambda>ch.
     res_bind (res_bind (jitem n ''markdown'') jstr) (\<lambda>md.
     res_bind (jstr (jget_or n ''language'' (JStr ''en''))) (\<lambda>lang.
     res_bind (jopt_strs (jget_or n ''mentioned_list'' JNull)) (\<lambda>ment.
     res_bind (jopt_str (jget_or n ''target_user'' JNull)) (\<lambda>tgt.
     res_bind (res_bind (jitem d ''enqueued_at'') jfloat) (\<lambda>enq.
     res_bind (res_bind (jitem d ''expires_at'') jfloat) (\<lambda>expi.
     res_bind (jopt_str (jget_or d ''trace_id'' JNull)) (\<lambda>tid.
     res_bind (jint (jget_or d ''attempts'' (JNum 0))) (\<lambda>att.
     res_bind (jopt_str (jget_or d ''last_error'' JNull)) (\<lambda>err.
       Inr \<lparr>qm_id = nid,
            qm_notification = \<lparr>n_severity = sev, n_channel = ch, n_markdown = md, n_language = lang,
                               n_mentioned = ment, n_target = tgt\<rparr>,
            qm_enqueued_at = enq, qm_expires_at = expi, qm_trace_id = tid,
            qm_attempts = att, qm_last_error = err\<rparr>)))))))))))))"

text \<open>
  What the Redis queue stores reads back as the message that was stored, field by
  field, including an absent trace id, error, mention list or target.
\<close>

theorem deserialize_serialize: "jdeserialize (jserialize m) = Inr m"
  by (simp add: jdeserialize_def jserialize_def Let_def jitem_def jget_or_def jint_def)

section \<open>Events published about the queue\<close>

text \<open>The ISO timestamp of the event is an argument.\<close>

definition deferred_event_payload :: "queued \<Rightarrow> seconds \<Rightarrow> string \<Rightarrow> json" where
  "deferred_event_payload m now stamp =
     JObj [(''notification_id'', JStr (qm_id m)),
           (''trace_id'', jopt JStr (qm_trace_id m)),
           (''severity'', JStr (severity_value (n_severity (qm_notification m)))),
           (''channel_hint'', JStr (channel_value (n_channel (qm_notification m)))),
           (''enqueued_at_iso'', JStr stamp),
           (''ttl_remaining_s'', JNum (of_int (trunc (max (qm_expires_at m - now) 0)))),
           (''last_error'', jopt JStr (qm_last_error m))]"

definition delivered_event_payload :: "queued \<Rightarrow> string \<Rightarrow> json" where
  "delivered_event_payload m stamp =
     JObj [(''notification_id'', JStr (qm_id m)),
           (''trace_id'', jopt JStr (qm_trace_id m)),
           (''severity'', JStr (severity_value (n_severity (qm_notification m)))),
           (''delivered_at_iso'', JStr stamp),
           (''attempts'', JNum (of_int (qm_attempts m + 1)))]"

lemma deferred_event_ttl_nonneg:
  "jget (deferred_event_payload m now stamp) ''ttl_remaining_s'' = Some (JNum r) \<Longrightarrow> 0 \<le> r"
  by (auto simp: deferred_event_payload_def trunc_def)

end
