(* ===== verification/HashChain.thy ===== *)
theory HashChain
  imports Prelude
begin

text \<open>
  The contract the three tamper-evident logs share: every row stores the hash of its own
  payload together with the previous row's hash, and a verifier recomputes the chain from a
  fixed origin. Inside the locale: verification of an appended row, and tamper evidence.
  Two logs of the same length that both verify and end in the same hash carry the same
  payloads, or a collision of the hash function is at hand.
\<close>

fun chain_tip :: "('h \<Rightarrow> 'g) \<Rightarrow> ('e \<Rightarrow> 'h) \<Rightarrow> 'g \<Rightarrow> 'e list \<Rightarrow> 'g" where
  "chain_tip lift hash_of g [] = g"
| "chain_tip lift hash_of g (e # es) = chain_tip lift hash_of (lift (hash_of e)) es"

lemma chain_tip_snoc [simp]: "chain_tip lift hash_of g (es @ [e]) = lift (hash_of e)"
  by (induction es arbitrary: g) simp_all

lemma chain_tip_eq: "chain_tip lift hash_of g es = (if es = [] then g else lift (hash_of (last es)))"
  by (cases es rule: rev_cases) simp_all

locale hash_chain =
  fixes H :: "'g \<Rightarrow> 'p \<Rightarrow> 'h"
    and lift :: "'h \<Rightarrow> 'g"
    and payload_of :: "'e \<Rightarrow> 'p"
    and hash_of :: "'e \<Rightarrow> 'h"
    and link_ok :: "'g \<Rightarrow> 'e \<Rightarrow> bool"
    and verify :: "'g \<Rightarrow> 'e list \<Rightarrow> bool"
  assumes inj_lift: "lift h = lift h' \<Longrightarrow> h = h'"
    and verify_Nil: "verify g []"
    and verify_Cons: "verify g (e # es) \<longleftrightarrow>
      hash_of e = H g (payload_of e) \<and> link_ok g e \<and> verify (lift (hash_of e)) es"
begin

lemma verify_append:
  "verify g (es @ fs) \<longleftrightarrow> verify g es \<and> verify (chain_tip lift hash_of g es) fs"
  by (induction es arbitrary: g) (auto simp: verify_Nil verify_Cons)

lemma verify_snoc:
  "verify g (es @ [e]) \<longleftrightarrow>
     verify g es \<and> hash_of e = H (chain_tip lift hash_of g es) (payload_of e)
     \<and> link_ok (chain_tip lift hash_of g es) e"
  by (simp add: verify_append verify_Cons verify_Nil)

text \<open>
  Two different hash inputs with the same hash, both at the origin or both past it (where
  the previous link is itself a hash).
\<close>

definition collision_at :: "'g \<Rightarrow> bool" where
  "collision_at g \<longleftrightarrow> (\<exists>g1 p1 g2 p2. (g1, p1) \<noteq> (g2, p2) \<and> H g1 p1 = H g2 p2 \<and>
     (g1 = g \<and> g2 = g \<or>
      (\<exists>a1 b1 a2 b2. g1 = lift (H a1 b1) \<and> g2 = lift (H a2 b2))))"

lemma tip_is_link:
  assumes "verify g es" and "es \<noteq> []"
  shows "\<exists>a b. chain_tip lift hash_of g es = lift (H a b)"
  using assms by (cases es rule: rev_cases) (auto simp: verify_snoc)

lemma tamper_evident:
  assumes "verify g es" and "verify g fs" and "length es = length fs"
    and "chain_tip lift hash_of g es = chain_tip lift hash_of g fs"
  shows "map payload_of es = map payload_of fs \<or> collision_at g"
  using assms
proof (induction es arbitrary: fs rule: rev_induct)
  case Nil
  then show ?case by simp
next
  case (snoc e es)
  from snoc.prems(3) obtain f fs' where fs: "fs = fs' @ [f]" and len: "length es = length fs'"
    by (cases fs rule: rev_cases) auto
  let ?t = "chain_tip lift hash_of g es" and ?u = "chain_tip lift hash_of g fs'"
  have es_ok: "verify g es" "hash_of e = H ?t (payload_of e)"
    and fs_ok: "verify g fs'" "hash_of f = H ?u (payload_of f)"
    using snoc.prems(1,2) by (simp_all add: fs verify_snoc)
  have eq: "H ?t (payload_of e) = H ?u (payload_of f)"
    using snoc.prems(4) es_ok(2) fs_ok(2) by (auto simp: fs dest: inj_lift)
  show ?case
  proof (cases "?t = ?u \<and> payload_of e = payload_of f")
    case True
    then show ?thesis using snoc.IH [OF es_ok(1) fs_ok(1) len] by (auto simp: fs)
  next
    case False
    have "?t = g \<and> ?u = g \<or> (\<exists>a1 b1 a2 b2. ?t = lift (H a1 b1) \<and> ?u = lift (H a2 b2))"
    proof (cases "es = []")
      case True
      then show ?thesis using len by simp
    next
      case False
      then have "fs' \<noteq> []" using len by auto
      then show ?thesis using False tip_is_link es_ok(1) fs_ok(1) by blast
    qed
    then have "collision_at g" unfolding collision_at_def using False eq by blast
    then show ?thesis ..
  qed
qed

end

end
