(* ===== verification/JsonText.thy ===== *)
theory JsonText
  imports Prelude
begin

text \<open>
  The text \<open>json.dumps\<close> writes for a flat dict of strings with sorted keys and compact
  separators, as the FUTU audit log hashes it, and the proof that different dicts with the
  same keys give different texts. Characters are code points below 256.
\<close>

definition hex_digit :: "nat \<Rightarrow> char" where
  "hex_digit n = (if n < 10 then char_of (48 + n) else char_of (87 + n))"

definition unhex :: "char \<Rightarrow> nat" where
  "unhex c = (let n = of_char c in if n < 58 then n - 48 else n - 87)"

lemma unhex_hex [simp]: "n < 16 \<Longrightarrow> unhex (hex_digit n) = n"
  by (simp add: unhex_def hex_digit_def)

text \<open>The escapes of \<open>ensure_ascii\<close>: quote, backslash, everything outside space to tilde.\<close>

definition esc_char :: "char \<Rightarrow> string" where
  "esc_char c =
     (let n = of_char c :: nat in
      if n = 34 then [char_of (92::nat), char_of (34::nat)]
      else if n = 92 then [char_of (92::nat), char_of (92::nat)]
      else if n = 10 then [char_of (92::nat), CHR ''n'']
      else if n = 13 then [char_of (92::nat), CHR ''r'']
      else if n = 9 then [char_of (92::nat), CHR ''t'']
      else if n = 12 then [char_of (92::nat), CHR ''f'']
      else if n = 8 then [char_of (92::nat), CHR ''b'']
      else if 32 \<le> n \<and> n \<le> 126 then [c]
      else [char_of (92::nat), CHR ''u'', CHR ''0'', CHR ''0'', hex_digit (n div 16), hex_digit (n mod 16)])"

definition json_string :: "string \<Rightarrow> string" where
  "json_string s = char_of (34::nat) # concat (map esc_char s) @ [char_of (34::nat)]"

text \<open>Reading one character back off the front of a text.\<close>

fun unesc_char :: "string \<Rightarrow> char \<times> string" where
  "unesc_char (c # d # r) =
     (if c \<noteq> char_of (92::nat) then (c, d # r)
      else if d = CHR ''n'' then (char_of (10::nat), r)
      else if d = CHR ''r'' then (char_of (13::nat), r)
      else if d = CHR ''t'' then (char_of (9::nat), r)
      else if d = CHR ''f'' then (char_of (12::nat), r)
      else if d = CHR ''b'' then (char_of (8::nat), r)
      else if d = CHR ''u'' then (char_of (unhex (r ! 2) * 16 + unhex (r ! 3)), drop 4 r)
      else (d, r))"
| "unesc_char [c] = (c, [])"
| "unesc_char [] = (char_of (0::nat), [])"

lemma char_eq_iff_code: "c = d \<longleftrightarrow> (of_char c :: nat) = of_char d"
  by (metis char_of_char)

lemma of_char_bound: "(of_char c :: nat) < 256"
  by (rule nat_of_char_less_256)

lemma unesc_esc: "r \<noteq> [] \<Longrightarrow> unesc_char (esc_char c @ r) = (c, r)"
proof -
  assume r: "r \<noteq> []"
  then obtain d r' where "r = d # r'" by (cases r) auto
  moreover have "(of_char c :: nat) div 16 < 16"
    by (rule less_mult_imp_div_less) (use of_char_bound [of c] in simp)
  ultimately show ?thesis using of_char_bound [of c]
    by (auto simp: esc_char_def Let_def char_eq_iff_code)
qed

lemma esc_char_head: "\<exists>d r. esc_char c = d # r \<and> d \<noteq> char_of (34::nat)"
proof (cases "32 \<le> (of_char c :: nat) \<and> (of_char c :: nat) \<le> 126 \<and> (of_char c :: nat) \<noteq> 34 \<and> (of_char c :: nat) \<noteq> 92")
  case True
  then have "esc_char c = [c]" and "c \<noteq> char_of (34::nat)"
    by (simp_all add: esc_char_def Let_def char_eq_iff_code)
  then show ?thesis by blast
next
  case False
  then have "\<exists>r. esc_char c = char_of (92::nat) # r" by (auto simp: esc_char_def Let_def)
  then show ?thesis by (auto simp: char_eq_iff_code)
qed

lemma esc_concat_inj:
  "concat (map esc_char s) @ char_of (34::nat) # r = concat (map esc_char t) @ char_of (34::nat) # r' \<Longrightarrow>
     s = t \<and> r = r'"
proof (induction s arbitrary: t)
  case Nil
  show ?case
  proof (cases t)
    case (Cons d t')
    then show ?thesis using Nil esc_char_head [of d] by auto
  qed (use Nil in simp)
next
  case (Cons c s)
  show ?case
  proof (cases t)
    case Nil
    then show ?thesis using Cons.prems esc_char_head [of c] by auto
  next
    case (Cons d t')
    let ?x = "concat (map esc_char s) @ char_of (34::nat) # r"
    let ?y = "concat (map esc_char t') @ char_of (34::nat) # r'"
    have "esc_char c @ ?x = esc_char d @ ?y" using Cons.prems Cons by simp
    then have "(c, ?x) = (d, ?y)" by (metis unesc_esc append_is_Nil_conv list.distinct(1))
    then show ?thesis using Cons.IH [of t'] Cons by simp
  qed
qed

text \<open>A string literal can be read off the front of a text in one way only.\<close>

lemma json_string_inj: "json_string s @ r = json_string t @ r' \<Longrightarrow> s = t \<and> r = r'"
  by (rule esc_concat_inj) (simp add: json_string_def)

text \<open>\<open>json.dumps(d, sort_keys=True, separators=(",", ":"))\<close> on fields already in key order.\<close>

fun json_fields :: "(string \<times> string) list \<Rightarrow> string" where
  "json_fields [] = []"
| "json_fields [(k, v)] = json_string k @ '':'' @ json_string v"
| "json_fields ((k, v) # f # fs) = json_string k @ '':'' @ json_string v @ '','' @ json_fields (f # fs)"

definition json_object :: "(string \<times> string) list \<Rightarrow> string" where
  "json_object fs = ''{'' @ json_fields fs @ ''}''"

lemma json_fields_inj:
  "json_fields fs @ r = json_fields gs @ r' \<Longrightarrow> map fst fs = map fst gs \<Longrightarrow> fs = gs \<and> r = r'"
proof (induction fs arbitrary: gs r r' rule: json_fields.induct)
  case 1
  then show ?case by simp
next
  case (2 k v)
  then obtain w where "gs = [(k, w)]" by (cases gs) auto
  then show ?case using 2 by (auto dest!: json_string_inj)
next
  case (3 k v f fs)
  then obtain w g gs' where gs: "gs = (k, w) # g # gs'" and ks: "map fst (f # fs) = map fst (g # gs')"
    by (cases gs; cases "tl gs") auto
  have "json_string v @ '','' @ json_fields (f # fs) @ r = json_string w @ '','' @ json_fields (g # gs') @ r'"
    using "3.prems"(1) by (simp add: gs)
  then have "v = w" and "json_fields (f # fs) @ r = json_fields (g # gs') @ r'"
    by (auto dest!: json_string_inj)
  then show ?case using "3.IH" [OF _ ks] gs by simp
qed

lemma json_object_inj:
  "json_object fs = json_object gs \<Longrightarrow> map fst fs = map fst gs \<Longrightarrow> fs = gs"
  using json_fields_inj [of fs "''}''" gs "''}''"] by (simp add: json_object_def)

end
