(* ===== verification/FutuAudit.thy ===== *)
theory FutuAudit
  imports HashChain JsonText
begin

text \<open>
  The hash-chained FUTU audit log (\<^verbatim>\<open>apps/agent_futu/futu/audit.py\<close>, with the constraints of
  migration \<^verbatim>\<open>0005_futu_audit.py\<close>) and the read-only client that writes to it
  (\<^verbatim>\<open>apps/agent_futu/futu/readonly_client.py\<close>). SHA-256 is the parameter \<open>sha\<close>; UUIDs,
  timestamps and the \<open>_safe_repr\<close> texts of the arguments are arguments of the operations.
\<close>

section \<open>Entries and their hash\<close>

record futu_entry =
  fe_entry_id :: string
  fe_futu_id_hash :: string
  fe_method :: string
  fe_args_repr :: string
  fe_kwargs_repr :: string
  fe_issued_at :: string
  fe_prev_hash :: string
  fe_entry_hash :: string
  fe_status :: string
  fe_summary :: "string option"
  fe_error :: "string option"

definition zero_hash :: string where
  "zero_hash = replicate 64 (CHR ''0'')"

text \<open>The hashed payload: the fields below with the previous hash, in the order of the sorted keys.\<close>

type_synonym futu_payload = "string \<times> string \<times> string \<times> string \<times> string \<times> string"

definition fe_payload :: "futu_entry \<Rightarrow> futu_payload" where
  "fe_payload e = (fe_args_repr e, fe_entry_id e, fe_futu_id_hash e, fe_issued_at e, fe_kwargs_repr e, fe_method e)"

fun futu_blob :: "string \<Rightarrow> futu_payload \<Rightarrow> string" where
  "futu_blob prev (args, eid, fid, issued, kwargs, meth) =
     json_object [(''args_repr'', args), (''entry_id'', eid), (''futu_id_hash'', fid),
       (''issued_at'', issued), (''kwargs_repr'', kwargs), (''method'', meth), (''prev_hash'', prev)]"

definition futu_hash :: "(string \<Rightarrow> string) \<Rightarrow> string \<Rightarrow> futu_payload \<Rightarrow> string" where
  "futu_hash sha prev p = sha (futu_blob prev p)"

lemma futu_blob_inj: "futu_blob g p = futu_blob h q \<Longrightarrow> g = h \<and> p = q"
  by (cases p; cases q) (auto dest!: json_object_inj)

section \<open>The in-memory log\<close>

type_synonym futu_log = "futu_entry list"

definition fl_head :: "futu_log \<Rightarrow> string" where
  "fl_head lg = (if lg = [] then zero_hash else fe_entry_hash (last lg))"

definition make_entry :: "(string \<Rightarrow> string) \<Rightarrow> string \<Rightarrow> string \<Rightarrow> string \<Rightarrow> string \<Rightarrow> string \<Rightarrow> string \<Rightarrow> string \<Rightarrow> futu_entry" where
  "make_entry sha prev entry_id issued_at method args_repr kwargs_repr fid =
     \<lparr>fe_entry_id = entry_id, fe_futu_id_hash = fid, fe_method = method, fe_args_repr = args_repr,
      fe_kwargs_repr = kwargs_repr, fe_issued_at = issued_at, fe_prev_hash = prev,
      fe_entry_hash = futu_hash sha prev (args_repr, entry_id, fid, issued_at, kwargs_repr, method),
      fe_status = ''pending'', fe_summary = None, fe_error = None\<rparr>"

definition fl_append :: "(string \<Rightarrow> string) \<Rightarrow> futu_log \<Rightarrow> string \<Rightarrow> string \<Rightarrow> string \<Rightarrow> string \<Rightarrow> string \<Rightarrow> string \<Rightarrow> futu_entry \<times> futu_log" where
  "fl_append sha lg entry_id issued_at method args_repr kwargs_repr fid =
     (let e = make_entry sha (fl_head lg) entry_id issued_at method args_repr kwargs_repr fid
      in (e, lg @ [e]))"

fun fl_mark :: "(futu_entry \<Rightarrow> futu_entry) \<Rightarrow> futu_log \<Rightarrow> string \<Rightarrow> futu_log" where
  "fl_mark f [] entry_id = []"
| "fl_mark f (e # es) entry_id =
     (if fe_entry_id e = entry_id then f e # es else e # fl_mark f es entry_id)"

definition fl_mark_ok :: "futu_log \<Rightarrow> string \<Rightarrow> string \<Rightarrow> futu_log" where
  "fl_mark_ok lg entry_id summary =
     fl_mark (\<lambda>e. e\<lparr>fe_status := ''ok'', fe_summary := Some summary\<rparr>) lg entry_id"

definition fl_mark_error :: "futu_log \<Rightarrow> string \<Rightarrow> string \<Rightarrow> futu_log" where
  "fl_mark_error lg entry_id error =
     fl_mark (\<lambda>e. e\<lparr>fe_status := ''error'', fe_error := Some error\<rparr>) lg entry_id"

fun fl_verify_from :: "(string \<Rightarrow> string) \<Rightarrow> string \<Rightarrow> futu_log \<Rightarrow> bool" where
  "fl_verify_from sha prev [] = True"
| "fl_verify_from sha prev (e # es) =
     (if futu_hash sha prev (fe_payload e) \<noteq> fe_entry_hash e then False
      else if fe_prev_hash e \<noteq> prev then False
      else fl_verify_from sha (fe_entry_hash e) es)"

definition fl_verify_chain :: "(string \<Rightarrow> string) \<Rightarrow> futu_log \<Rightarrow> bool" where
  "fl_verify_chain sha lg = fl_verify_from sha zero_hash lg"

interpretation futu_chain: hash_chain "futu_hash sha" "\<lambda>h. h" fe_payload fe_entry_hash
    "\<lambda>prev e. fe_prev_hash e = prev" "fl_verify_from sha"
  for sha
  by unfold_locales auto

lemma fl_head_tip: "fl_head lg = chain_tip (\<lambda>h. h) fe_entry_hash zero_hash lg"
  by (simp add: fl_head_def chain_tip_eq)

lemma fe_payload_make: "fe_payload (make_entry sha prev i t m a k f) = (a, i, f, t, k, m)"
  by (simp add: fe_payload_def make_entry_def)

lemma fl_verify_append [inv_intros]:
  "fl_verify_chain sha lg \<Longrightarrow> fl_verify_chain sha (snd (fl_append sha lg i t m a k f))"
  by (simp add: fl_verify_chain_def fl_append_def Let_def futu_chain.verify_snoc fe_payload_make
      flip: fl_head_tip) (simp add: make_entry_def)

text \<open>Marking changes neither a hashed field nor a hash.\<close>

lemma fl_mark_verify [inv_intros]:
  assumes "\<And>e. fe_payload (f e) = fe_payload e \<and> fe_prev_hash (f e) = fe_prev_hash e \<and> fe_entry_hash (f e) = fe_entry_hash e"
  shows "fl_verify_from sha g (fl_mark f lg i) = fl_verify_from sha g lg"
  using assms by (induction lg arbitrary: g) auto

lemma fl_mark_ok_verify [simp]: "fl_verify_chain sha (fl_mark_ok lg i s) = fl_verify_chain sha lg"
  by (simp add: fl_verify_chain_def fl_mark_ok_def fl_mark_verify fe_payload_def)

lemma fl_mark_error_verify [simp]: "fl_verify_chain sha (fl_mark_error lg i s) = fl_verify_chain sha lg"
  by (simp add: fl_verify_chain_def fl_mark_error_def fl_mark_verify fe_payload_def)

text \<open>
  Tamper evidence, down to SHA-256 itself: two logs of the same length that both
  pass \<open>verify_chain\<close> and have the same head agree in every hashed field of every entry,
  or there are two different texts with the same SHA-256.
\<close>

theorem futu_log_tamper_evident:
  assumes "fl_verify_chain sha lg" and "fl_verify_chain sha lg'"
    and "length lg = length lg'" and "fl_head lg = fl_head lg'"
  shows "map fe_payload lg = map fe_payload lg' \<or> (\<exists>x y. x \<noteq> y \<and> sha x = sha y)"
proof -
  have "map fe_payload lg = map fe_payload lg' \<or> futu_chain.collision_at sha zero_hash"
    using futu_chain.tamper_evident [of sha zero_hash lg lg'] assms
    by (simp add: fl_verify_chain_def fl_head_tip)
  then show ?thesis
    unfolding futu_chain.collision_at_def futu_hash_def by (metis futu_blob_inj prod.inject)
qed

definition sample_log :: "futu_log" where
  "sample_log = snd (fl_append id [] ''e1'' ''t'' ''get_acc_list'' ''[]'' ''{}'' ''f'')"

theorem futu_log_tamper_evident_witness:
  "fl_verify_chain id sample_log \<and> map fe_payload sample_log = map fe_payload (fl_mark_ok sample_log ''e1'' ''list'')"
proof -
  have v: "fl_verify_chain id sample_log"
    using fl_verify_append [of id "[]"] by (simp add: sample_log_def fl_verify_chain_def)
  moreover have "fl_head sample_log = fl_head (fl_mark_ok sample_log ''e1'' ''list'')"
    by (simp add: sample_log_def fl_append_def Let_def fl_mark_ok_def fl_head_def make_entry_def)
  moreover have "length sample_log = length (fl_mark_ok sample_log ''e1'' ''list'')"
    by (simp add: sample_log_def fl_append_def Let_def fl_mark_ok_def)
  ultimately show ?thesis
    using futu_log_tamper_evident [of id sample_log "fl_mark_ok sample_log ''e1'' ''list''"] by simp
qed

section \<open>The Postgres log\<close>

text \<open>
  \<open>lake.futu_audit\<close> as the list of its rows in id order, all FUTU ids together. An INSERT
  is accepted when the constraints of migration 0005 hold: unique entry id, unique entry
  hash, unique \<open>(futu_id_hash, prev_hash)\<close>, and the trigger's rule that a previous hash
  other than the zero sentinel belongs to an existing row of the same FUTU id.
\<close>

definition pg_rows :: "futu_log \<Rightarrow> string \<Rightarrow> futu_log" where
  "pg_rows table fid = filter (\<lambda>e. fe_futu_id_hash e = fid) table"

definition pg_read_head :: "futu_log \<Rightarrow> string \<Rightarrow> string" where
  "pg_read_head table fid = (let rows = pg_rows table fid in if rows = [] then zero_hash else fe_entry_hash (last rows))"

definition futu_audit_chain_check :: "futu_log \<Rightarrow> futu_entry \<Rightarrow> bool" where
  "futu_audit_chain_check table new \<longleftrightarrow>
     fe_prev_hash new = zero_hash \<or>
     list_ex (\<lambda>e. fe_futu_id_hash e = fe_futu_id_hash new \<and> fe_entry_hash e = fe_prev_hash new) table"

definition pg_constraints :: "futu_log \<Rightarrow> futu_entry \<Rightarrow> bool" where
  "pg_constraints table new \<longleftrightarrow>
     list_all (\<lambda>e. fe_entry_id e \<noteq> fe_entry_id new \<and> fe_entry_hash e \<noteq> fe_entry_hash new
        \<and> \<not> (fe_futu_id_hash e = fe_futu_id_hash new \<and> fe_prev_hash e = fe_prev_hash new)) table"

definition pg_insert :: "futu_log \<Rightarrow> futu_entry \<Rightarrow> futu_log option" where
  "pg_insert table new =
     (if futu_audit_chain_check table new \<and> pg_constraints table new then Some (table @ [new]) else None)"

definition pg_append :: "(string \<Rightarrow> string) \<Rightarrow> futu_log \<Rightarrow> string \<Rightarrow> string \<Rightarrow> string \<Rightarrow> string \<Rightarrow> string \<Rightarrow> string \<Rightarrow> (futu_entry \<times> futu_log) option" where
  "pg_append sha table entry_id issued_at method args_repr kwargs_repr fid =
     (let e = make_entry sha (pg_read_head table fid) entry_id issued_at method args_repr kwargs_repr fid
      in map_option (Pair e) (pg_insert table e))"

definition pg_mark :: "futu_log \<Rightarrow> string \<Rightarrow> string \<Rightarrow> string option \<Rightarrow> string option \<Rightarrow> futu_log" where
  "pg_mark table entry_id status summary error =
     map (\<lambda>e. if fe_entry_id e = entry_id
              then e\<lparr>fe_status := status, fe_summary := summary, fe_error := error\<rparr> else e) table"

definition pg_verify_chain :: "(string \<Rightarrow> string) \<Rightarrow> futu_log \<Rightarrow> string \<Rightarrow> bool" where
  "pg_verify_chain sha table fid = fl_verify_from sha zero_hash (pg_rows table fid)"

text \<open>The entries of a verified chain link each to the one before, the first to the sentinel.\<close>

lemma verify_prevs:
  "fl_verify_from sha g es \<Longrightarrow> es \<noteq> [] \<Longrightarrow> map fe_prev_hash es = g # butlast (map fe_entry_hash es)"
proof (induction es arbitrary: g)
  case (Cons e es)
  have "fl_verify_from sha (fe_entry_hash e) es" and "fe_prev_hash e = g"
    using Cons.prems(1) by (simp_all split: if_splits)
  with Cons.IH show ?case by (cases "es = []") simp_all
qed simp

lemma verify_prev_of_next:
  assumes "fl_verify_from sha g es" and "h \<in> set (map fe_entry_hash es)" and "h \<notin> set (map fe_prev_hash es)"
  shows "es \<noteq> [] \<and> h = fe_entry_hash (last es)"
proof -
  have ne: "es \<noteq> []" using assms(2) by auto
  then have "h \<notin> set (butlast (map fe_entry_hash es))" using verify_prevs [OF assms(1)] assms(3) by auto
  moreover have "butlast (map fe_entry_hash es) @ [last (map fe_entry_hash es)] = map fe_entry_hash es"
    using ne by (intro append_butlast_last_id) simp
  then have "h \<in> set (butlast (map fe_entry_hash es) @ [last (map fe_entry_hash es)])"
    by (simp only:) (rule assms(2))
  ultimately have "h = last (map fe_entry_hash es)" by simp
  then show ?thesis using ne by (simp add: last_map)
qed

lemma pg_insert_keeps_row_chain:
  assumes ok: "pg_verify_chain sha table (fe_futu_id_hash e)" and ins: "pg_insert table e = Some table'"
    and self: "fe_entry_hash e = futu_hash sha (fe_prev_hash e) (fe_payload e)"
  shows "pg_verify_chain sha table' (fe_futu_id_hash e)"
proof -
  let ?rows = "pg_rows table (fe_futu_id_hash e)"
  have t': "table' = table @ [e]" and chk: "futu_audit_chain_check table e" and con: "pg_constraints table e"
    using ins by (simp_all add: pg_insert_def split: if_splits)
  have fresh: "fe_prev_hash e \<notin> set (map fe_prev_hash ?rows)"
    using con by (auto simp: pg_constraints_def pg_rows_def list_all_iff)
  have "fe_prev_hash e = fl_head ?rows"
  proof (cases "?rows = []")
    case True
    then have "\<not> list_ex (\<lambda>x. fe_futu_id_hash x = fe_futu_id_hash e \<and> fe_entry_hash x = fe_prev_hash e) table"
      by (auto simp: pg_rows_def list_ex_iff filter_empty_conv)
    then show ?thesis using chk True by (simp add: futu_audit_chain_check_def fl_head_def)
  next
    case False
    then have "zero_hash \<in> set (map fe_prev_hash ?rows)"
      using verify_prevs ok by (metis list.set_intros(1) pg_verify_chain_def)
    then have "fe_prev_hash e \<noteq> zero_hash" using fresh by metis
    then obtain x where "x \<in> set table" "fe_futu_id_hash x = fe_futu_id_hash e" "fe_entry_hash x = fe_prev_hash e"
      using chk by (auto simp: futu_audit_chain_check_def list_ex_iff)
    then have "fe_prev_hash e \<in> set (map fe_entry_hash ?rows)"
      by (simp add: pg_rows_def) (metis (mono_tags, lifting) image_eqI mem_Collect_eq)
    then have "fe_prev_hash e = fe_entry_hash (last ?rows)"
      using verify_prev_of_next [OF ok [unfolded pg_verify_chain_def] _ fresh] by blast
    then show ?thesis using False by (simp add: fl_head_def)
  qed
  then show ?thesis
    using ok self by (simp add: t' pg_verify_chain_def pg_rows_def futu_chain.verify_snoc flip: fl_head_tip)
qed

text \<open>
  Writers in several processes: each reads a head at some moment and inserts later. The
  table's rows, and the entries computed but not yet inserted.
\<close>

inductive pg_step :: "(string \<Rightarrow> string) \<Rightarrow> futu_log \<times> futu_entry set \<Rightarrow> futu_log \<times> futu_entry set \<Rightarrow> bool" for sha where
  compute: "pg_step sha (table, ws)
     (table, insert (make_entry sha (pg_read_head table fid) i t m a k fid) ws)"
| insert_row: "e \<in> ws \<Longrightarrow> pg_insert table e = Some table' \<Longrightarrow> pg_step sha (table, ws) (table', ws - {e})"
| insert_fails: "e \<in> ws \<Longrightarrow> pg_insert table e = None \<Longrightarrow> pg_step sha (table, ws) (table, ws - {e})"
| mark: "pg_step sha (table, ws) (pg_mark table i st su er, ws)"

definition pg_inv :: "(string \<Rightarrow> string) \<Rightarrow> futu_log \<times> futu_entry set \<Rightarrow> bool" where
  "pg_inv sha s \<longleftrightarrow> (\<forall>fid. pg_verify_chain sha (fst s) fid) \<and>
     (\<forall>e \<in> snd s. fe_entry_hash e = futu_hash sha (fe_prev_hash e) (fe_payload e))"

lemma pg_rows_mark: "pg_rows (pg_mark table i st su er) fid =
    map (\<lambda>e. if fe_entry_id e = i then e\<lparr>fe_status := st, fe_summary := su, fe_error := er\<rparr> else e) (pg_rows table fid)"
  by (induction table) (auto simp: pg_rows_def pg_mark_def)

lemma verify_map_mark:
  "fl_verify_from sha g (map (\<lambda>e. if fe_entry_id e = i then e\<lparr>fe_status := st, fe_summary := su, fe_error := er\<rparr> else e) es)
     = fl_verify_from sha g es"
  by (induction es arbitrary: g) (auto simp: fe_payload_def)

lemma pg_step_inv: "pg_step sha s s' \<Longrightarrow> pg_inv sha s \<Longrightarrow> pg_inv sha s'"
proof (induction rule: pg_step.induct)
  case (compute table ws fid i t m a k)
  then show ?case by (auto simp: pg_inv_def fe_payload_make) (simp add: make_entry_def)
next
  case (insert_row e ws table table')
  have self: "fe_entry_hash e = futu_hash sha (fe_prev_hash e) (fe_payload e)"
    and ok: "\<forall>fid. pg_verify_chain sha table fid"
    using insert_row by (auto simp: pg_inv_def)
  have "pg_verify_chain sha table' fid" for fid
  proof (cases "fid = fe_futu_id_hash e")
    case True
    then show ?thesis using pg_insert_keeps_row_chain [OF _ insert_row.hyps(2) self] ok by simp
  next
    case False
    then have "pg_rows table' fid = pg_rows table fid"
      using insert_row.hyps(2) by (auto simp: pg_insert_def pg_rows_def split: if_splits)
    then show ?thesis using ok by (simp add: pg_verify_chain_def)
  qed
  then show ?case using insert_row.prems by (auto simp: pg_inv_def)
next
  case (insert_fails e ws table)
  then show ?case by (auto simp: pg_inv_def)
next
  case (mark table ws i st su er)
  then show ?case by (simp add: pg_inv_def pg_verify_chain_def pg_rows_mark verify_map_mark)
qed

text \<open>
  Processes may read a head, compute an entry and insert it in any interleaving, with
  marks in between: whatever the database accepts, the chain of every FUTU id verifies.
  A writer that read a stale head is refused by the unique index instead of forking the chain.
\<close>

theorem concurrent_writers_keep_chain:
  assumes "(pg_step sha)\<^sup>*\<^sup>* ([], {}) (table, ws)"
  shows "pg_verify_chain sha table fid"
proof -
  have "pg_inv sha ([], {})" by (simp add: pg_inv_def pg_verify_chain_def pg_rows_def)
  with assms have "pg_inv sha (table, ws)" by (induction rule: rtranclp_induct) (auto intro: pg_step_inv)
  then show ?thesis by (simp add: pg_inv_def)
qed

theorem concurrent_writers_keep_chain_witness:
  "\<exists>e. (pg_step id)\<^sup>*\<^sup>* ([], {}) ([e], {}) \<and> pg_verify_chain id [e] ''f''"
proof -
  let ?e = "make_entry id (pg_read_head [] ''f'') ''e1'' ''t'' ''get_acc_list'' ''[]'' ''{}'' ''f''"
  have ins: "pg_insert [] ?e = Some [?e]"
    by (simp add: pg_insert_def futu_audit_chain_check_def pg_constraints_def pg_read_head_def pg_rows_def make_entry_def)
  have "pg_step id ([], {}) ([], {?e})"
    using compute [of id "[]" "{}" "''f''" "''e1''" "''t''" "''get_acc_list''" "''[]''" "''{}''"] by simp
  moreover have "pg_step id ([], {?e}) ([?e], {})" using insert_row [OF _ ins, of "{?e}" id] by simp
  ultimately have run: "(pg_step id)\<^sup>*\<^sup>* ([], {}) ([?e], {})"
    by (rule rtranclp_two)
  show ?thesis by (intro exI conjI) (rule run, rule concurrent_writers_keep_chain [OF run])
qed

end
