(* ===== verification/FutuClient.thy ===== *)
theory FutuClient
  imports FutuAudit
begin

text \<open>
  \<open>FutuReadOnlyClient\<close> (\<^verbatim>\<open>apps/agent_futu/futu/readonly_client.py\<close>): attribute access on the
  wrapper, the wrapped call with its audit entry, and sequences of such calls. OpenD is a
  parameter: for each method name, nothing (the attribute is missing) or a function of the
  arguments and OpenD's state. Entry ids and timestamps are arguments; \<open>rep\<close> is
  \<open>_safe_repr\<close>.
\<close>

section \<open>Attribute access\<close>

definition ALLOWED_METHODS :: "string list" where
  "ALLOWED_METHODS = [''get_acc_list'', ''accinfo_query'', ''position_list_query'',
     ''order_list_query'', ''history_order_list_query'', ''history_deal_list_query'',
     ''get_market_state'']"

definition FORBIDDEN_METHODS :: "string list" where
  "FORBIDDEN_METHODS = [''place_order'', ''modify_order'', ''cancel_order'', ''unlock_trade'',
     ''deal_list_query_realtime'']"

text \<open>The slots of the dataclass, which Python resolves before \<open>__getattr__\<close>.\<close>

definition client_slots :: "string list" where
  "client_slots = [''openD'', ''futu_id_hash'', ''audit'', ''test_mode'']"

text \<open>
  What a call did: returned a value, raised an \<open>Exception\<close>, or was torn down by a
  \<open>BaseException\<close> (task cancellation, interpreter exit), which \<open>except Exception\<close>
  does not see.
\<close>

datatype 'v outcome = Returned 'v | Raised string | TornDown

type_synonym ('a, 'v, 'w) openD = "string \<Rightarrow> ('a \<Rightarrow> 'w \<Rightarrow> 'v outcome \<times> 'w) option"

datatype ('a, 'v, 'w) attr =
  Slot string
| Method "'a \<Rightarrow> 'w \<Rightarrow> 'v outcome \<times> 'w"
| FutuReadOnlyError
| AttributeMissing

definition client_getattr :: "('a, 'v, 'w) openD \<Rightarrow> string \<Rightarrow> ('a, 'v, 'w) attr" where
  "client_getattr openD name =
     (if name \<in> set client_slots then Slot name
      else if name \<in> set FORBIDDEN_METHODS then FutuReadOnlyError
      else if name \<notin> set ALLOWED_METHODS then AttributeMissing
      else case openD name of None \<Rightarrow> FutuReadOnlyError | Some underlying \<Rightarrow> Method underlying)"

section \<open>The wrapped call\<close>

record 'w client_state =
  cs_log :: futu_log
  cs_world :: 'w

datatype 'v call_result = Called "'v outcome" | Refused | NotCallable

text \<open>The arguments of one \<open>client.name(args)\<close> with the id and time its entry would get.\<close>

record 'a call =
  ca_name :: string
  ca_args :: 'a
  ca_entry_id :: string
  ca_issued_at :: string

definition wrapped :: "(string \<Rightarrow> string) \<Rightarrow> ('a \<Rightarrow> string \<times> string) \<Rightarrow> ('v \<Rightarrow> string) \<Rightarrow> string
    \<Rightarrow> ('a \<Rightarrow> 'w \<Rightarrow> 'v outcome \<times> 'w) \<Rightarrow> 'a call \<Rightarrow> 'w client_state \<Rightarrow> 'v outcome \<times> 'w client_state" where
  "wrapped sha rep summarise fid underlying c s =
     (let (entry, lg) = fl_append sha (cs_log s) (ca_entry_id c) (ca_issued_at c) (ca_name c)
                          (fst (rep (ca_args c))) (snd (rep (ca_args c))) fid;
          (out, world) = underlying (ca_args c) (cs_world s)
      in (out,
          \<lparr>cs_log = (case out of
               Returned result \<Rightarrow> fl_mark_ok lg (fe_entry_id entry) (summarise result)
             | Raised exc \<Rightarrow> fl_mark_error lg (fe_entry_id entry) exc
             | TornDown \<Rightarrow> lg),
           cs_world = world\<rparr>))"

definition client_call :: "(string \<Rightarrow> string) \<Rightarrow> ('a \<Rightarrow> string \<times> string) \<Rightarrow> ('v \<Rightarrow> string) \<Rightarrow> string
    \<Rightarrow> ('a, 'v, 'w) openD \<Rightarrow> 'a call \<Rightarrow> 'w client_state \<Rightarrow> 'v call_result \<times> 'w client_state" where
  "client_call sha rep summarise fid openD c s =
     (case client_getattr openD (ca_name c) of
        Slot f \<Rightarrow> (NotCallable, s)
      | FutuReadOnlyError \<Rightarrow> (Refused, s)
      | AttributeMissing \<Rightarrow> (Refused, s)
      | Method underlying \<Rightarrow> (let (out, s') = wrapped sha rep summarise fid underlying c s in (Called out, s')))"

fun client_run :: "(string \<Rightarrow> string) \<Rightarrow> ('a \<Rightarrow> string \<times> string) \<Rightarrow> ('v \<Rightarrow> string) \<Rightarrow> string
    \<Rightarrow> ('a, 'v, 'w) openD \<Rightarrow> 'a call list \<Rightarrow> 'w client_state \<Rightarrow> 'v call_result list \<times> 'w client_state" where
  "client_run sha rep summarise fid openD [] s = ([], s)"
| "client_run sha rep summarise fid openD (c # cs) s =
     (let (r, s1) = client_call sha rep summarise fid openD c s;
          (rs, s2) = client_run sha rep summarise fid openD cs s1
      in (r # rs, s2))"

text \<open>\<open>_summarise\<close> on the SDK's values: a pair, a tuple of another length, or anything else by its type name.\<close>

datatype sdk_value = Pair_of string "nat option" | Other_tuple | Value_of_type string

fun summarise_sdk :: "(nat \<Rightarrow> string) \<Rightarrow> sdk_value \<Rightarrow> string" where
  "summarise_sdk dec (Pair_of ok_repr len) =
     ''ok='' @ ok_repr @ '' rows='' @ dec (case len of Some n \<Rightarrow> n | None \<Rightarrow> 1)"
| "summarise_sdk dec Other_tuple = ''unknown''"
| "summarise_sdk dec (Value_of_type t) = t"

section \<open>Only allowlisted methods reach OpenD\<close>

lemma client_getattr_Method:
  "client_getattr openD name = Method f \<longleftrightarrow> name \<in> set ALLOWED_METHODS \<and> openD name = Some f"
  by (auto simp: client_getattr_def client_slots_def FORBIDDEN_METHODS_def ALLOWED_METHODS_def
      split: option.splits)

lemma client_call_cases:
  obtains (refused) "client_call sha rep sm fid openD c s = (Refused, s)" "ca_name c \<notin> set ALLOWED_METHODS \<or> openD (ca_name c) = None"
  | (slot) "client_call sha rep sm fid openD c s = (NotCallable, s)" "ca_name c \<in> set client_slots"
  | (called) f out s' where "openD (ca_name c) = Some f" "ca_name c \<in> set ALLOWED_METHODS"
      "wrapped sha rep sm fid f c s = (out, s')" "client_call sha rep sm fid openD c s = (Called out, s')"
proof (cases "client_getattr openD (ca_name c)")
  case (Slot n)
  then show ?thesis using slot by (auto simp: client_call_def client_getattr_def split: if_splits option.splits)
next
  case (Method f)
  then show ?thesis using called [of f] client_getattr_Method [of openD "ca_name c" f]
    by (cases "wrapped sha rep sm fid f c s") (auto simp: client_call_def)
next
  case FutuReadOnlyError
  then have "ca_name c \<notin> set ALLOWED_METHODS \<or> openD (ca_name c) = None"
    using client_getattr_Method [of openD "ca_name c"] by (cases "openD (ca_name c)") auto
  then show ?thesis using FutuReadOnlyError refused by (simp add: client_call_def)
next
  case AttributeMissing
  then have "ca_name c \<notin> set ALLOWED_METHODS \<or> openD (ca_name c) = None"
    using client_getattr_Method [of openD "ca_name c"] by (cases "openD (ca_name c)") auto
  then show ?thesis using AttributeMissing refused by (simp add: client_call_def)
qed

lemma wrapped_world:
  "cs_world (snd (wrapped sha rep sm fid f c s)) = snd (f (ca_args c) (cs_world s))"
  by (simp add: wrapped_def split: prod.splits)

definition keeps :: "('w \<Rightarrow> bool) \<Rightarrow> ('a \<Rightarrow> 'w \<Rightarrow> 'v outcome \<times> 'w) \<Rightarrow> bool" where
  "keeps I f \<longleftrightarrow> (\<forall>a w. I w \<longrightarrow> I (snd (f a w)))"

lemma client_call_keeps:
  assumes "\<And>m f. m \<in> set ALLOWED_METHODS \<Longrightarrow> openD m = Some f \<Longrightarrow> keeps I f" and "I (cs_world s)"
  shows "I (cs_world (snd (client_call sha rep sm fid openD c s)))"
proof (rule client_call_cases [where sha = sha and rep = rep and sm = sm and fid = fid and openD = openD and c = c and s = s], goal_cases refused slot called)
  case (called f out s')
  then have "cs_world s' = snd (f (ca_args c) (cs_world s))" using wrapped_world [of sha rep sm fid f c s] by simp
  then show ?case using called assms by (auto simp: keeps_def)
qed (use assms in simp_all)

text \<open>
  The wrapper is read-only. Whatever calls a program makes through it, with whatever
  method names, anything about the broker that the seven allowlisted methods leave alone
  stays as it was: no other method of OpenD is ever entered.
\<close>

theorem readonly_client_is_readonly:
  assumes "\<And>m f. m \<in> set ALLOWED_METHODS \<Longrightarrow> openD m = Some f \<Longrightarrow> keeps I f" and "I (cs_world s)"
  shows "I (cs_world (snd (client_run sha rep sm fid openD calls s)))"
  using assms(2)
proof (induction calls arbitrary: s)
  case (Cons c cs)
  have "I (cs_world (snd (client_call sha rep sm fid openD c s)))"
    by (rule client_call_keeps) (use assms(1) Cons.prems in auto)
  then have "I (cs_world (snd (client_run sha rep sm fid openD cs (snd (client_call sha rep sm fid openD c s)))))"
    by (rule Cons.IH)
  then show ?case by (simp add: case_prod_beta Let_def)
qed simp

definition toy_openD :: "(string, nat, nat) openD" where
  "toy_openD name = (if name = ''place_order'' then Some (\<lambda>a n. (Returned 1, n + 1))
     else if name = ''get_acc_list'' then Some (\<lambda>a n. (Returned n, n)) else None)"

definition toy_calls :: "string call list" where
  "toy_calls = [\<lparr>ca_name = ''place_order'', ca_args = ''x'', ca_entry_id = ''1'', ca_issued_at = ''t''\<rparr>,
     \<lparr>ca_name = ''get_acc_list'', ca_args = '''', ca_entry_id = ''2'', ca_issued_at = ''t''\<rparr>]"

theorem readonly_client_is_readonly_witness:
  "cs_world (snd (client_run id (\<lambda>a. (a, '''')) (\<lambda>v. ''int'') ''f'' toy_openD toy_calls
     \<lparr>cs_log = [], cs_world = 0\<rparr>)) = 0"
  by (rule readonly_client_is_readonly [where I = "\<lambda>n. n = 0"])
    (auto simp: toy_openD_def keeps_def ALLOWED_METHODS_def split: if_splits)

section \<open>Every forwarded call is audited\<close>

fun status_of :: "'v outcome \<Rightarrow> string" where
  "status_of (Returned v) = ''ok''"
| "status_of (Raised e) = ''error''"
| "status_of TornDown = ''pending''"

definition entry_view :: "futu_entry \<Rightarrow> string \<times> string \<times> string \<times> string \<times> string" where
  "entry_view e = (fe_entry_id e, fe_method e, fe_args_repr e, fe_kwargs_repr e, fe_status e)"

text \<open>The entry a call must leave, given its result: none when it never reached OpenD.\<close>

fun audit_due :: "('a \<Rightarrow> string \<times> string) \<Rightarrow> 'a call \<Rightarrow> 'v call_result \<Rightarrow> (string \<times> string \<times> string \<times> string \<times> string) list" where
  "audit_due rep c (Called out) =
     [(ca_entry_id c, ca_name c, fst (rep (ca_args c)), snd (rep (ca_args c)), status_of out)]"
| "audit_due rep c Refused = []"
| "audit_due rep c NotCallable = []"

definition log_ids :: "futu_log \<Rightarrow> string list" where
  "log_ids lg = map fe_entry_id lg"

lemma fl_mark_fresh: "i \<notin> set (log_ids lg) \<Longrightarrow> fl_mark f (lg @ es) i = lg @ fl_mark f es i"
  by (induction lg) (auto simp: log_ids_def)

lemma wrapped_log:
  assumes "ca_entry_id c \<notin> set (log_ids (cs_log s))" and "wrapped sha rep sm fid f c s = (out, s')"
  shows "\<exists>e. cs_log s' = cs_log s @ [e] \<and> [entry_view e] = audit_due rep c (Called out)"
  using assms
  by (cases out)
    (auto simp: wrapped_def fl_append_def Let_def fl_mark_ok_def fl_mark_error_def fl_mark_fresh
      make_entry_def entry_view_def split: prod.splits)

lemma wrapped_verify:
  assumes "fl_verify_chain sha (cs_log s)" and "wrapped sha rep sm fid f c s = (out, s')"
  shows "fl_verify_chain sha (cs_log s')"
proof -
  obtain e lg where a: "fl_append sha (cs_log s) (ca_entry_id c) (ca_issued_at c) (ca_name c)
      (fst (rep (ca_args c))) (snd (rep (ca_args c))) fid = (e, lg)" by (cases "fl_append sha (cs_log s) (ca_entry_id c) (ca_issued_at c) (ca_name c) (fst (rep (ca_args c))) (snd (rep (ca_args c))) fid")
  then have "fl_verify_chain sha lg" using fl_verify_append [OF assms(1)] by (metis snd_conv)
  with a assms(2) show ?thesis by (cases out) (auto simp: wrapped_def split: prod.splits)
qed

lemma client_call_audited:
  assumes "ca_entry_id c \<notin> set (log_ids (cs_log s))" and "fl_verify_chain sha (cs_log s)"
    and "client_call sha rep sm fid openD c s = (r, s')"
  shows "\<exists>es. cs_log s' = cs_log s @ es \<and> map entry_view es = audit_due rep c r \<and> fl_verify_chain sha (cs_log s')"
proof (rule client_call_cases [where sha = sha and rep = rep and sm = sm and fid = fid and openD = openD and c = c and s = s], goal_cases refused slot called)
  case (called f out s1)
  then have eq: "r = Called out" "s1 = s'" using assms(3) by simp_all
  obtain e where "cs_log s' = cs_log s @ [e]" "[entry_view e] = audit_due rep c (Called out)"
    using wrapped_log [OF assms(1) called(3)] eq by blast
  moreover have "fl_verify_chain sha (cs_log s')" using wrapped_verify [OF assms(2) called(3)] eq by simp
  ultimately show ?case using eq by (intro exI [of _ "[e]"]) simp
qed (use assms in simp_all)

lemma audit_due_ids: "set (map fst (audit_due rep c r)) \<subseteq> {ca_entry_id c}"
  by (cases r) simp_all

text \<open>
  Every call that reaches OpenD leaves exactly one audit entry, in call order, with its
  method, its arguments and how it ended (pending when it was torn down); a refused call
  leaves none; and the log still verifies. Entry ids are taken to be fresh, as uuid4 ids are.
\<close>

theorem every_call_audited:
  assumes "distinct (map ca_entry_id calls @ log_ids (cs_log s))" and "fl_verify_chain sha (cs_log s)"
    and "client_run sha rep sm fid openD calls s = (rs, s')"
  shows "\<exists>es. cs_log s' = cs_log s @ es \<and> map entry_view es = concat (map2 (audit_due rep) calls rs)
    \<and> fl_verify_chain sha (cs_log s')"
  using assms
proof (induction calls arbitrary: s rs)
  case (Cons c cs)
  obtain r s1 where call: "client_call sha rep sm fid openD c s = (r, s1)" by fastforce
  obtain rs' where run: "client_run sha rep sm fid openD cs s1 = (rs', s')" and rs: "rs = r # rs'"
    using Cons.prems(3) call by (auto split: prod.splits)
  obtain es where es: "cs_log s1 = cs_log s @ es" "map entry_view es = audit_due rep c r" "fl_verify_chain sha (cs_log s1)"
    using client_call_audited [OF _ Cons.prems(2) call] Cons.prems(1) by auto
  have "map fe_entry_id es = map fst (audit_due rep c r)"
    unfolding es(2) [symmetric] by (simp add: entry_view_def comp_def)
  then have "set (log_ids es) \<subseteq> {ca_entry_id c}"
    using audit_due_ids [of rep c r] by (simp add: log_ids_def)
  moreover have "distinct (log_ids es)"
    using \<open>map fe_entry_id es = _\<close> by (cases r) (simp_all add: log_ids_def)
  ultimately have "distinct (map ca_entry_id cs @ log_ids (cs_log s1))"
    using Cons.prems(1) by (auto simp: es(1) log_ids_def) (metis imageI singletonD subsetD)+
  from Cons.IH [OF this es(3) run] obtain fs where
    "cs_log s' = cs_log s1 @ fs" "map entry_view fs = concat (map2 (audit_due rep) cs rs')" "fl_verify_chain sha (cs_log s')" by blast
  then show ?case using es rs by (intro exI [of _ "es @ fs"]) simp
qed simp

theorem every_call_audited_witness:
  "\<exists>es. cs_log (snd (client_run id (\<lambda>a. (a, '''')) (\<lambda>v. ''int'') ''f'' toy_openD toy_calls \<lparr>cs_log = [], cs_world = 0\<rparr>)) = es
     \<and> map entry_view es = [(''2'', ''get_acc_list'', '''', '''', ''ok'')]"
proof -
  let ?run = "client_run id (\<lambda>a. (a, '''')) (\<lambda>v. ''int'') ''f'' toy_openD toy_calls \<lparr>cs_log = [], cs_world = 0\<rparr>"
  have r: "fst ?run = [Refused, Called (Returned 0)]"
    by (simp add: toy_calls_def client_call_def client_getattr_def client_slots_def FORBIDDEN_METHODS_def
        ALLOWED_METHODS_def toy_openD_def wrapped_def fl_append_def Let_def)
  have "distinct (map ca_entry_id toy_calls @ log_ids (cs_log \<lparr>cs_log = [], cs_world = 0::nat\<rparr>))"
    by (simp add: toy_calls_def log_ids_def)
  moreover have "fl_verify_chain id (cs_log \<lparr>cs_log = [], cs_world = 0::nat\<rparr>)"
    by (simp add: fl_verify_chain_def)
  ultimately obtain es where "cs_log (snd ?run) = [] @ es" "map entry_view es = concat (map2 (audit_due (\<lambda>a. (a, ''''))) toy_calls (fst ?run))"
    using every_call_audited [of toy_calls "\<lparr>cs_log = [], cs_world = 0::nat\<rparr>" id "\<lambda>a. (a, '''')" "\<lambda>v. ''int''" "''f''" toy_openD "fst ?run" "snd ?run"]
    by auto
  then show ?thesis using r by (simp add: toy_calls_def)
qed

section \<open>The wrapped context is within reach\<close>

text \<open>
  The dataclass slot that holds the OpenD context is an ordinary public attribute, found
  before \<open>__getattr__\<close> is consulted: \<open>client.openD\<close> hands out the unguarded context.
\<close>

lemma openD_slot_is_public: "client_getattr openD ''openD'' = Slot ''openD''"
  by (simp add: client_getattr_def client_slots_def)

end
