(* ===== verification/AdviceLedger.thy ===== *)
theory AdviceLedger
  imports HashChain Json "HOL-Library.Word" "HOL-Library.Char_ord" "HOL-Library.List_Lexorder"
    "HOL-Library.Product_Lexorder"
begin

text \<open>
  The immutable advice ledger (\<^verbatim>\<open>packages/data-lake/data_lake/advice_ledger.py\<close>) on the table
  \<open>lake.advice\<close> with the constraints of migration \<^verbatim>\<open>0001\<close> and the trigger of \<^verbatim>\<open>0002\<close>: one
  hash chain per agent. SHA-256, the canonical JSON bytes and the reading of a timestamp
  are parameters; a payload is a JSON value.
\<close>

section \<open>Rows\<close>

type_synonym bytes = "8 word list"

record advice_row =
  ar_id :: string
  ar_agent :: string
  ar_issued_at :: int
  ar_direction :: string
  ar_confidence :: rat
  ar_canonical :: bytes
  ar_prev_hash :: "bytes option"
  ar_row_hash :: bytes

type_synonym advice_table = "advice_row list"

text \<open>\<open>sha256(prev_hash || canonical)\<close>; the first row of a chain has no prefix.\<close>

definition compute_row_hash :: "(bytes \<Rightarrow> bytes) \<Rightarrow> bytes option \<Rightarrow> bytes \<Rightarrow> bytes" where
  "compute_row_hash sha prev canonical = sha (case prev of None \<Rightarrow> canonical | Some h \<Rightarrow> h @ canonical)"

text \<open>\<open>ORDER BY issued_at, id\<close> over one agent's rows.\<close>

definition row_key :: "advice_row \<Rightarrow> int \<times> string" where
  "row_key r = (ar_issued_at r, ar_id r)"

definition agent_rows :: "advice_table \<Rightarrow> string \<Rightarrow> advice_table" where
  "agent_rows table agent = sort_key row_key (filter (\<lambda>r. ar_agent r = agent) table)"

definition select_chain_head :: "advice_table \<Rightarrow> string \<Rightarrow> bytes option" where
  "select_chain_head table agent =
     (let rows = agent_rows table agent in if rows = [] then None else Some (ar_row_hash (last rows)))"

section \<open>What the database accepts\<close>

definition crockford :: string where
  "crockford = ''0123456789ABCDEFGHJKMNPQRSTVWXYZ''"

definition advice_id_format :: "string \<Rightarrow> bool" where
  "advice_id_format i \<longleftrightarrow> length i = 26 \<and> list_all (\<lambda>c. c \<in> set crockford) i"

definition advice_checks :: "advice_row \<Rightarrow> bool" where
  "advice_checks r \<longleftrightarrow> ar_direction r \<in> {''long'', ''short'', ''flat''}
     \<and> 0 \<le> ar_confidence r \<and> ar_confidence r \<le> 1 \<and> advice_id_format (ar_id r)"

definition advice_unique :: "advice_table \<Rightarrow> advice_row \<Rightarrow> bool" where
  "advice_unique table new \<longleftrightarrow>
     list_all (\<lambda>r. ar_id r \<noteq> ar_id new \<and> \<not> (ar_agent r = ar_agent new \<and> ar_prev_hash r = ar_prev_hash new)) table"

definition advice_chain_check :: "advice_table \<Rightarrow> advice_row \<Rightarrow> bool" where
  "advice_chain_check table new \<longleftrightarrow>
     (case ar_prev_hash new of None \<Rightarrow> True
      | Some h \<Rightarrow> list_ex (\<lambda>r. ar_agent r = ar_agent new \<and> ar_row_hash r = h) table)"

definition advice_insert :: "advice_table \<Rightarrow> advice_row \<Rightarrow> advice_table option" where
  "advice_insert table new =
     (if advice_chain_check table new \<and> advice_checks new \<and> advice_unique table new
      then Some (table @ [new]) else None)"

section \<open>Appending\<close>

datatype ledger_error =
  MissingKeys "string list"
| EmptyEvidence
| BadPayload exn
| IntegrityError

definition required_keys :: "string list" where
  "required_keys = [''schema'', ''id'', ''agent'', ''issued_at'', ''asset'', ''thesis'', ''direction'',
     ''confidence'', ''entry_band'', ''target_band'', ''stop_loss'', ''horizon_days'',
     ''max_drawdown_pct'', ''expires_at'', ''evidence'']"

text \<open>\<open>lo, hi = band\<close>.\<close>

fun unpack2 :: "json \<Rightarrow> exn + json \<times> json" where
  "unpack2 (JArr [lo, hi]) = Inr (lo, hi)"
| "unpack2 (JArr xs) = Inl (ValueError ''unpack'')"
| "unpack2 _ = Inl TypeError"

definition as_ledger :: "exn + 'a \<Rightarrow> ledger_error + 'a" where
  "as_ledger r = (case r of Inl e \<Rightarrow> Inl (BadPayload e) | Inr x \<Rightarrow> Inr x)"

definition jat :: "json \<Rightarrow> string \<Rightarrow> json" where
  "jat d k = jget_or d k JNull"

text \<open>The checks \<open>append\<close> makes before it opens a session.\<close>

definition check_advice :: "json \<Rightarrow> ledger_error + unit" where
  "check_advice advice =
     (let missing = filter (\<lambda>k. jget advice k = None) required_keys in
      if missing \<noteq> [] then Inl (MissingKeys missing)
      else if \<not> truthy (jat advice ''evidence'') then Inl EmptyEvidence
      else res_bind (as_ledger (unpack2 (jat advice ''entry_band''))) (\<lambda>_.
           res_bind (as_ledger (unpack2 (jat advice ''target_band''))) (\<lambda>_. Inr ())))"

text \<open>The columns of the row the constraints and the chain read.\<close>

definition make_row :: "(bytes \<Rightarrow> bytes) \<Rightarrow> (json \<Rightarrow> bytes) \<Rightarrow> (json \<Rightarrow> exn + int) \<Rightarrow> bytes option \<Rightarrow> json \<Rightarrow> exn + advice_row" where
  "make_row sha canonical ts_of prev advice =
     res_bind (jitem (jat advice ''asset'') ''kind'') (\<lambda>_.
     res_bind (jitem (jat advice ''asset'') ''ticker'') (\<lambda>_.
     res_bind (jstr (jat advice ''id'')) (\<lambda>i.
     res_bind (jstr (jat advice ''agent'')) (\<lambda>agent.
     res_bind (ts_of (jat advice ''issued_at'')) (\<lambda>issued.
     res_bind (jstr (jat advice ''direction'')) (\<lambda>direction.
     res_bind (jfloat (jat advice ''confidence'')) (\<lambda>confidence.
     Inr \<lparr>ar_id = i, ar_agent = agent, ar_issued_at = issued, ar_direction = direction,
          ar_confidence = confidence, ar_canonical = canonical advice, ar_prev_hash = prev,
          ar_row_hash = compute_row_hash sha prev (canonical advice)\<rparr>)))))))"

text \<open>
  \<open>append\<close> with the head the writer read, which a concurrent writer may have made stale,
  and \<open>append\<close> as one writer runs it.
\<close>

definition append_at :: "(bytes \<Rightarrow> bytes) \<Rightarrow> (json \<Rightarrow> bytes) \<Rightarrow> (json \<Rightarrow> exn + int) \<Rightarrow> bytes option
    \<Rightarrow> json \<Rightarrow> advice_table \<Rightarrow> (ledger_error + bytes) \<times> advice_table" where
  "append_at sha canonical ts_of prev advice table =
     (case res_bind (check_advice advice) (\<lambda>_. as_ledger (make_row sha canonical ts_of prev advice)) of
        Inl e \<Rightarrow> (Inl e, table)
      | Inr row \<Rightarrow> (case advice_insert table row of
            None \<Rightarrow> (Inl IntegrityError, table)
          | Some table' \<Rightarrow> (Inr (ar_row_hash row), table')))"

definition agent_of :: "json \<Rightarrow> string" where
  "agent_of advice = (case jat advice ''agent'' of JStr a \<Rightarrow> a | _ \<Rightarrow> '''')"

definition ledger_append :: "(bytes \<Rightarrow> bytes) \<Rightarrow> (json \<Rightarrow> bytes) \<Rightarrow> (json \<Rightarrow> exn + int)
    \<Rightarrow> json \<Rightarrow> advice_table \<Rightarrow> (ledger_error + bytes) \<times> advice_table" where
  "ledger_append sha canonical ts_of advice table =
     append_at sha canonical ts_of (select_chain_head table (agent_of advice)) advice table"

fun append_all :: "(bytes \<Rightarrow> bytes) \<Rightarrow> (json \<Rightarrow> bytes) \<Rightarrow> (json \<Rightarrow> exn + int)
    \<Rightarrow> json list \<Rightarrow> advice_table \<Rightarrow> advice_table" where
  "append_all sha canonical ts_of [] table = table"
| "append_all sha canonical ts_of (a # as) table =
     append_all sha canonical ts_of as (snd (ledger_append sha canonical ts_of a table))"

section \<open>Verifying\<close>

datatype chain_status =
  ChainEmpty
| ChainOk (rows_checked: nat)
| ChainBroken (rows_checked: nat) (broken_at_id: string)

fun verify_rows :: "(bytes \<Rightarrow> bytes) \<Rightarrow> bytes option \<Rightarrow> nat \<Rightarrow> advice_table \<Rightarrow> chain_status" where
  "verify_rows sha prev i [] = ChainOk i"
| "verify_rows sha prev i (r # rs) =
     (let expected = compute_row_hash sha prev (ar_canonical r) in
      if ar_row_hash r \<noteq> expected then ChainBroken (i + 1) (ar_id r)
      else if prev \<noteq> None \<and> ar_prev_hash r \<noteq> prev then ChainBroken (i + 1) (ar_id r)
      else verify_rows sha (Some expected) (i + 1) rs)"

definition verify_chain :: "(bytes \<Rightarrow> bytes) \<Rightarrow> advice_table \<Rightarrow> string \<Rightarrow> chain_status" where
  "verify_chain sha table agent =
     (let rows = agent_rows table agent in if rows = [] then ChainEmpty else verify_rows sha None 0 rows)"

fun rows_ok :: "(bytes \<Rightarrow> bytes) \<Rightarrow> bytes option \<Rightarrow> advice_table \<Rightarrow> bool" where
  "rows_ok sha prev [] = True"
| "rows_ok sha prev (r # rs) \<longleftrightarrow> ar_row_hash r = compute_row_hash sha prev (ar_canonical r)
     \<and> (prev \<noteq> None \<longrightarrow> ar_prev_hash r = prev) \<and> rows_ok sha (Some (ar_row_hash r)) rs"

interpretation advice_chain: hash_chain "compute_row_hash sha" Some ar_canonical ar_row_hash
    "\<lambda>prev r. prev \<noteq> None \<longrightarrow> ar_prev_hash r = prev" "rows_ok sha"
  for sha
  by unfold_locales auto

lemma verify_rows_ok: "(\<exists>n. verify_rows sha prev i rs = ChainOk n) \<longleftrightarrow> rows_ok sha prev rs"
  by (induction rs arbitrary: prev i) (auto simp: Let_def)

lemma verify_rows_count: "rows_ok sha prev rs \<Longrightarrow> verify_rows sha prev i rs = ChainOk (i + length rs)"
  by (induction rs arbitrary: prev i) (auto simp: Let_def)

lemma verify_rows_not_empty: "verify_rows sha prev i rs \<noteq> ChainEmpty"
  by (induction rs arbitrary: prev i) (auto simp: Let_def)

lemma verify_chain_ok_iff:
  "(\<forall>n i. verify_chain sha table agent \<noteq> ChainBroken n i) \<longleftrightarrow> rows_ok sha None (agent_rows table agent)"
proof (cases "verify_rows sha None 0 (agent_rows table agent)")
  case (ChainBroken n i)
  then have "\<not> rows_ok sha None (agent_rows table agent)"
    using verify_rows_ok [of sha None 0 "agent_rows table agent"] by simp
  then show ?thesis using ChainBroken by (auto simp: verify_chain_def Let_def)
next
  case (ChainOk n)
  then have "rows_ok sha None (agent_rows table agent)"
    using verify_rows_ok [of sha None 0 "agent_rows table agent"] by blast
  then show ?thesis using ChainOk by (auto simp: verify_chain_def Let_def)
qed (simp add: verify_rows_not_empty)

section \<open>Appends in order keep the chain\<close>

lemma agent_rows_set: "set (agent_rows table agent) = {r \<in> set table. ar_agent r = agent}"
  by (simp add: agent_rows_def)

lemma agent_rows_other: "ar_agent r \<noteq> agent \<Longrightarrow> agent_rows (table @ [r]) agent = agent_rows table agent"
  by (simp add: agent_rows_def)

lemma insort_key_snoc: "f x \<le> f y \<Longrightarrow> insort_key f x (xs @ [y]) = insort_key f x xs @ [y]"
  by (induction xs) simp_all

lemma sort_key_snoc:
  assumes "\<And>x. x \<in> set xs \<Longrightarrow> f x \<le> f y"
  shows "sort_key f (xs @ [y]) = sort_key f xs @ [y]"
  using assms by (induction xs) (simp_all add: insort_key_snoc)

lemma agent_rows_in_order:
  assumes "\<And>x. x \<in> set table \<Longrightarrow> ar_agent x = ar_agent r \<Longrightarrow> row_key x \<le> row_key r"
  shows "agent_rows (table @ [r]) (ar_agent r) = agent_rows table (ar_agent r) @ [r]"
proof -
  have "filter (\<lambda>x. ar_agent x = ar_agent r) (table @ [r]) = filter (\<lambda>x. ar_agent x = ar_agent r) table @ [r]" by simp
  then show ?thesis unfolding agent_rows_def by (simp only:) (rule sort_key_snoc, use assms in auto)
qed

lemma select_chain_head_tip:
  "select_chain_head table agent = chain_tip Some ar_row_hash None (agent_rows table agent)"
  by (simp add: select_chain_head_def chain_tip_eq Let_def)

text \<open>
  The invariant of one agent's rows: the chain verifies and its first row has no previous
  hash (the verifier does not look at that column of the first row).
\<close>

definition chain_inv :: "(bytes \<Rightarrow> bytes) \<Rightarrow> advice_table \<Rightarrow> string \<Rightarrow> bool" where
  "chain_inv sha table agent \<longleftrightarrow> rows_ok sha None (agent_rows table agent)
     \<and> (agent_rows table agent \<noteq> [] \<longrightarrow> ar_prev_hash (hd (agent_rows table agent)) = None)"

lemma rows_ok_prevs:
  "rows_ok sha (Some h) rs \<Longrightarrow> map ar_prev_hash rs @ [chain_tip Some ar_row_hash (Some h) rs] = Some h # map (\<lambda>r. Some (ar_row_hash r)) rs"
proof (induction rs arbitrary: h)
  case (Cons r rs)
  then have "ar_prev_hash r = Some h" "rows_ok sha (Some (ar_row_hash r)) rs" unfolding rows_ok.simps by blast+
  with Cons.IH [of "ar_row_hash r"] show ?case by simp
qed simp

text \<open>In a good chain every row but the last has its hash as the previous hash of another row.\<close>

lemma chain_prevs:
  assumes "chain_inv sha table agent" and "agent_rows table agent \<noteq> []"
  shows "map ar_prev_hash (agent_rows table agent) @ [select_chain_head table agent]
    = None # map (\<lambda>r. Some (ar_row_hash r)) (agent_rows table agent)"
proof -
  obtain r rs where rows: "agent_rows table agent = r # rs" using assms(2) by (cases "agent_rows table agent") auto
  then have "rows_ok sha (Some (ar_row_hash r)) rs" "ar_prev_hash r = None"
    using assms(1) unfolding chain_inv_def rows rows_ok.simps by auto
  then show ?thesis using rows_ok_prevs [of sha "ar_row_hash r" rs] by (simp add: rows select_chain_head_tip)
qed

text \<open>
  The unique indexes and the trigger together let a row in only behind the head, whatever
  head its writer had read.
\<close>

lemma accepted_is_at_head:
  assumes inv: "chain_inv sha table (ar_agent r)" and ins: "advice_insert table r = Some table'"
  shows "ar_prev_hash r = select_chain_head table (ar_agent r)"
proof (cases "agent_rows table (ar_agent r) = []")
  case True
  then have "\<not> list_ex (\<lambda>x. ar_agent x = ar_agent r \<and> ar_row_hash x = h) table" for h
    using agent_rows_set [of table "ar_agent r"] by (auto simp: list_ex_iff)
  then have "ar_prev_hash r = None"
    using ins by (auto simp: advice_insert_def advice_chain_check_def split: if_splits option.splits)
  with True show ?thesis by (simp add: select_chain_head_def Let_def)
next
  case False
  let ?rows = "agent_rows table (ar_agent r)"
  have fresh: "ar_prev_hash r \<notin> set (map ar_prev_hash ?rows)"
    using ins by (auto simp: advice_insert_def advice_unique_def list_all_iff agent_rows_set split: if_splits)
  have prevs: "set (map ar_prev_hash ?rows @ [select_chain_head table (ar_agent r)])
      = set (None # map (\<lambda>r. Some (ar_row_hash r)) ?rows)"
    by (simp only: chain_prevs [OF inv False])
  have "ar_prev_hash r \<in> set (None # map (\<lambda>r. Some (ar_row_hash r)) ?rows)"
  proof (cases "ar_prev_hash r")
    case (Some h)
    then obtain x where "x \<in> set table" "ar_agent x = ar_agent r" "ar_row_hash x = h"
      using ins by (auto simp: advice_insert_def advice_chain_check_def list_ex_iff split: if_splits)
    then show ?thesis using Some by (auto simp: agent_rows_set image_iff)
  qed simp
  then show ?thesis using fresh unfolding prevs [symmetric] by simp
qed

lemma insert_Some: "advice_insert table r = Some table' \<Longrightarrow> table' = table @ [r]"
  by (simp add: advice_insert_def split: if_splits)

lemma insert_keeps_chain [inv_intros]:
  assumes inv: "chain_inv sha table agent" and ins: "advice_insert table r = Some table'"
    and self: "ar_row_hash r = compute_row_hash sha (ar_prev_hash r) (ar_canonical r)"
    and order: "\<And>x. x \<in> set table \<Longrightarrow> ar_agent x = ar_agent r \<Longrightarrow> row_key x \<le> row_key r"
  shows "chain_inv sha table' agent"
proof (cases "ar_agent r = agent")
  case True
  note inv' = inv [folded True]
  have head: "ar_prev_hash r = chain_tip Some ar_row_hash None (agent_rows table (ar_agent r))"
    using accepted_is_at_head [OF inv' ins] by (simp add: select_chain_head_tip)
  have rows: "agent_rows table' agent = agent_rows table (ar_agent r) @ [r]"
    using agent_rows_in_order [OF order] insert_Some [OF ins] True by simp
  have "rows_ok sha None (agent_rows table' agent)"
    using inv' self by (simp add: rows chain_inv_def advice_chain.verify_snoc flip: head)
  moreover have "ar_prev_hash (hd (agent_rows table' agent)) = None"
    using inv' head by (cases "agent_rows table (ar_agent r)") (simp_all add: rows chain_inv_def)
  ultimately show ?thesis by (simp add: chain_inv_def)
next
  case False
  then show ?thesis using inv agent_rows_other insert_Some [OF ins] by (simp add: chain_inv_def)
qed

text \<open>What an accepted append stored.\<close>

lemma append_at_Inr:
  assumes "append_at sha canonical ts_of prev advice table = (Inr h, table')"
  shows "\<exists>r. make_row sha canonical ts_of prev advice = Inr r \<and> advice_insert table r = Some table'
    \<and> ar_prev_hash r = prev \<and> ar_canonical r = canonical advice
    \<and> ar_row_hash r = compute_row_hash sha prev (canonical advice) \<and> h = ar_row_hash r"
  using assms
  by (auto simp: append_at_def make_row_def as_ledger_def res_bind_Inr_iff split: sum.splits option.splits)

lemma append_at_Inl: "append_at sha canonical ts_of prev advice table = (Inl e, table') \<Longrightarrow> table' = table"
  by (auto simp: append_at_def split: sum.splits option.splits)

text \<open>
  Writers may race and read any head: as long as the accepted advice of an agent comes
  in the order of \<open>(issued_at, id)\<close>, every agent's chain verifies after every append, and
  the head row is the only one without a previous hash.
\<close>

theorem in_order_appends_keep_chain:
  assumes "append_at sha canonical ts_of prev advice table = (res, table')"
    and "\<And>agent. chain_inv sha table agent"
    and "\<And>r x. make_row sha canonical ts_of prev advice = Inr r \<Longrightarrow> x \<in> set table
           \<Longrightarrow> ar_agent x = ar_agent r \<Longrightarrow> row_key x \<le> row_key r"
  shows "chain_inv sha table' agent \<and>
    verify_chain sha table' agent = (if agent_rows table' agent = [] then ChainEmpty
      else ChainOk (length (agent_rows table' agent)))"
proof -
  have "chain_inv sha table' agent"
  proof (cases res)
    case (Inl e)
    then show ?thesis using append_at_Inl assms(1,2) by metis
  next
    case (Inr h)
    obtain r where r: "make_row sha canonical ts_of prev advice = Inr r" "advice_insert table r = Some table'"
        "ar_prev_hash r = prev" "ar_canonical r = canonical advice" "ar_row_hash r = compute_row_hash sha prev (canonical advice)"
      using append_at_Inr assms(1) Inr by blast
    show ?thesis using insert_keeps_chain [OF assms(2) r(2)] r assms(3) by simp
  qed
  then show ?thesis using verify_rows_count [of sha None "agent_rows table' agent" 0]
    by (simp add: chain_inv_def verify_chain_def Let_def)
qed

definition sample_advice :: "string \<Rightarrow> rat \<Rightarrow> json" where
  "sample_advice i issued = JObj [(''schema'', JStr ''advice.v1''), (''id'', JStr i), (''agent'', JStr ''quant''),
     (''issued_at'', JNum issued), (''asset'', JObj [(''kind'', JStr ''equity''), (''ticker'', JStr ''AAPL'')]),
     (''thesis'', JStr ''t''), (''direction'', JStr ''long''), (''confidence'', JNum (1/2)),
     (''entry_band'', JArr [JNum 1, JNum 2]), (''target_band'', JArr [JNum 3, JNum 4]), (''stop_loss'', JNum 1),
     (''horizon_days'', JNum 5), (''max_drawdown_pct'', JNum 8), (''expires_at'', JNum 99),
     (''evidence'', JArr [JObj [(''type'', JStr ''quote'')]])]"

definition id_A :: string where "id_A = ''0000000000000000000000000A''"
definition id_B :: string where "id_B = ''0000000000000000000000000B''"

text \<open>A toy digest (a fixed byte in front) and a toy canonical form (the length of the id's last letter).\<close>

definition toy_sha :: "bytes \<Rightarrow> bytes" where
  "toy_sha x = 7 # x"

definition toy_canonical :: "json \<Rightarrow> bytes" where
  "toy_canonical a = [if jat a ''id'' = JStr id_A then 1 else 2]"

definition sample_row :: "string \<Rightarrow> int \<Rightarrow> bytes \<Rightarrow> bytes option \<Rightarrow> advice_row" where
  "sample_row i issued canonical prev = \<lparr>ar_id = i, ar_agent = ''quant'', ar_issued_at = issued, ar_direction = ''long'',
     ar_confidence = 1/2, ar_canonical = canonical, ar_prev_hash = prev, ar_row_hash = compute_row_hash toy_sha prev canonical\<rparr>"

lemma make_sample_row:
  "make_row toy_sha toy_canonical jint prev (sample_advice i (of_int n))
     = Inr (sample_row i n [if i = id_A then 1 else 2] prev)"
  by (simp add: make_row_def sample_advice_def jat_def jget_or_def jitem_def jint_def sample_row_def toy_canonical_def)

lemma check_sample: "check_advice (sample_advice i x) = Inr ()"
  by (simp add: check_advice_def required_keys_def sample_advice_def jat_def jget_or_def as_ledger_def Let_def)

lemma ids_ok: "advice_id_format id_A" "advice_id_format id_B" "id_A \<noteq> id_B"
  by (simp_all add: advice_id_format_def id_A_def id_B_def crockford_def)

lemma first_sample:
  "append_at toy_sha toy_canonical jint None (sample_advice id_A (of_int n)) []
     = (Inr [7, 1], [sample_row id_A n [1] None])"
proof -
  have "advice_insert [] (sample_row id_A n [1] None) = Some [sample_row id_A n [1] None]"
    by (simp add: advice_insert_def advice_chain_check_def advice_checks_def advice_unique_def sample_row_def ids_ok)
  then show ?thesis
    by (simp add: append_at_def check_sample make_sample_row as_ledger_def)
      (simp add: sample_row_def compute_row_hash_def toy_sha_def)
qed

theorem in_order_appends_keep_chain_witness:
  "chain_inv toy_sha [sample_row id_A 5 [1] None] ''quant'' \<and>
    verify_chain toy_sha [sample_row id_A 5 [1] None] ''quant'' =
      (if agent_rows [sample_row id_A 5 [1] None] ''quant'' = [] then ChainEmpty
       else ChainOk (length (agent_rows [sample_row id_A 5 [1] None] ''quant'')))"
  by (rule in_order_appends_keep_chain [OF first_sample])
    (simp_all add: chain_inv_def agent_rows_def)

section \<open>Advice out of order\<close>

lemma sort_key_without:
  assumes "r \<notin> set xs"
  shows "filter (\<lambda>x. x \<noteq> r) (sort_key f (xs @ [r])) = sort_key f xs"
proof -
  have "filter (\<lambda>x. x \<noteq> r) (xs @ [r]) = xs" using assms by (auto intro: filter_True)
  then show ?thesis unfolding filter_sort by simp
qed

lemma last_max: "sorted (map f xs) \<Longrightarrow> x \<in> set xs \<Longrightarrow> f x \<le> f (last xs)"
  by (induction xs) auto

text \<open>Where a row whose key is below the last one lands.\<close>

lemma sort_key_before_last:
  assumes fresh: "r \<notin> set xs" and ne: "xs \<noteq> []" and before: "f r < f (last (sort_key f xs))"
  obtains A s B where "sort_key f (xs @ [r]) = A @ r # s # B" "sort_key f xs = A @ s # B"
proof -
  let ?S = "sort_key f (xs @ [r])"
  have "r \<in> set ?S" by simp
  then obtain A B where S: "?S = A @ r # B" and A: "r \<notin> set A" by (meson split_list_first)
  have rest: "A @ filter (\<lambda>x. x \<noteq> r) B = sort_key f xs"
  proof -
    have "filter (\<lambda>x. x \<noteq> r) A = A" using A by (auto intro: filter_True)
    then show ?thesis using sort_key_without [OF fresh, of f] by (simp add: S)
  qed
  then have "length A + length (filter (\<lambda>x. x \<noteq> r) B) = length xs" by (metis length_append length_sort)
  moreover have "length A + Suc (length B) = Suc (length xs)"
    using arg_cong [OF S, of length] by (simp only: length_sort length_append list.size)
  ultimately have "length (filter (\<lambda>x. x \<noteq> r) B) = length B" by simp
  then have "filter (\<lambda>x. x \<noteq> r) B = B"
    by (metis filter_True length_filter_less less_irrefl)
  with rest have sorted: "sort_key f xs = A @ B" by simp
  have "B \<noteq> []"
  proof
    assume "B = []"
    then have "f x \<le> f r" if "x \<in> set ?S" for x
      using last_max [of f ?S x] that sorted_sort_key [of f "xs @ [r]"] by (simp only: S last_snoc)
    moreover have "last (sort_key f xs) \<in> set ?S"
      using ne last_in_set [of "sort_key f xs"] by (metis Un_iff length_0_conv length_sort set_append set_sort)
    ultimately show False using before by (metis leD)
  qed
  then show thesis using that S sorted by (cases B) auto
qed

definition blocked :: "advice_table \<Rightarrow> string \<Rightarrow> bool" where
  "blocked table agent \<longleftrightarrow> (\<exists>r \<in> set table. ar_agent r = agent \<and> ar_prev_hash r = select_chain_head table agent)"

lemma ledger_append_Inr:
  assumes "ledger_append sha canonical ts_of advice table = (Inr h, table')"
  shows "\<exists>r. table' = table @ [r] \<and> advice_insert table r = Some table' \<and> ar_agent r = agent_of advice
    \<and> ar_prev_hash r = select_chain_head table (agent_of advice)
    \<and> ar_row_hash r = compute_row_hash sha (ar_prev_hash r) (ar_canonical r)"
proof -
  obtain r where r: "make_row sha canonical ts_of (select_chain_head table (agent_of advice)) advice = Inr r"
      "advice_insert table r = Some table'" "ar_prev_hash r = select_chain_head table (agent_of advice)"
      "ar_row_hash r = compute_row_hash sha (ar_prev_hash r) (ar_canonical r)"
    using append_at_Inr assms unfolding ledger_append_def by metis
  have "jstr (jat advice ''agent'') = Inr (ar_agent r)"
    using r(1) by (auto simp: make_row_def res_bind_Inr_iff)
  then have "ar_agent r = agent_of advice" by (cases "jat advice ''agent''") (simp_all add: agent_of_def)
  then show ?thesis using r insert_Some by blast
qed

text \<open>A blocked agent takes nothing more, and stays blocked whatever else is appended.\<close>

lemma blocked_append:
  assumes "blocked table agent"
  shows "agent_rows (snd (ledger_append sha canonical ts_of advice table)) agent = agent_rows table agent
    \<and> blocked (snd (ledger_append sha canonical ts_of advice table)) agent"
proof (cases "ledger_append sha canonical ts_of advice table")
  case (Pair res table')
  show ?thesis
  proof (cases res)
    case (Inl e)
    then show ?thesis using assms Pair append_at_Inl unfolding ledger_append_def by (metis snd_conv)
  next
    case (Inr h)
    then obtain r where r: "table' = table @ [r]" "advice_insert table r = Some table'" "ar_agent r = agent_of advice"
        "ar_prev_hash r = select_chain_head table (agent_of advice)"
      using ledger_append_Inr Pair by blast
    have "agent_of advice \<noteq> agent"
    proof
      assume "agent_of advice = agent"
      then show False using assms r
        by (auto simp: blocked_def advice_insert_def advice_unique_def list_all_iff split: if_splits)
    qed
    then have "agent_rows table' agent = agent_rows table agent" using r(1,3) by (simp add: agent_rows_other)
    moreover from this have "blocked table' agent"
      using assms by (auto simp: blocked_def select_chain_head_def r(1))
    ultimately show ?thesis using Pair by simp
  qed
qed

lemma blocked_append_all:
  "blocked table agent \<Longrightarrow> agent_rows (append_all sha canonical ts_of later table) agent = agent_rows table agent"
  by (induction later arbitrary: table) (use blocked_append in auto)

lemma backdated_breaks:
  assumes inv: "chain_inv sha table (ar_agent r)" and ins: "advice_insert table r = Some table'"
    and ne: "agent_rows table (ar_agent r) \<noteq> []" and sha: "\<And>x. sha x \<noteq> []"
    and self: "ar_row_hash r = compute_row_hash sha (ar_prev_hash r) (ar_canonical r)"
    and early: "row_key r < row_key (last (agent_rows table (ar_agent r)))"
  shows "(\<not> rows_ok sha None (agent_rows table' (ar_agent r)) \<or> (\<exists>x y. x \<noteq> y \<and> sha x = sha y))
    \<and> blocked table' (ar_agent r)"
proof -
  let ?xs = "filter (\<lambda>x. ar_agent x = ar_agent r) table"
  have un: "\<And>x. x \<in> set table \<Longrightarrow> ar_agent x = ar_agent r \<Longrightarrow> ar_prev_hash x \<noteq> ar_prev_hash r"
    using ins by (auto simp: advice_insert_def advice_unique_def list_all_iff split: if_splits)
  have fresh: "r \<notin> set ?xs" using un by auto
  have ne': "?xs \<noteq> []" using ne by (auto simp: agent_rows_def)
  obtain A s B where S: "sort_key row_key (?xs @ [r]) = A @ r # s # B" and old: "sort_key row_key ?xs = A @ s # B"
    using sort_key_before_last [OF fresh ne' early [unfolded agent_rows_def]] by blast
  have new: "agent_rows table' (ar_agent r) = A @ r # s # B"
    using S insert_Some [OF ins] by (simp add: agent_rows_def)
  have rows: "agent_rows table (ar_agent r) = A @ s # B" using old by (simp add: agent_rows_def)
  have head: "ar_prev_hash r = select_chain_head table (ar_agent r)" by (rule accepted_is_at_head [OF inv ins])
  have "select_chain_head table' (ar_agent r) = select_chain_head table (ar_agent r)"
    by (simp add: select_chain_head_def new rows)
  then have "blocked table' (ar_agent r)" unfolding blocked_def using head insert_Some [OF ins] by auto
  moreover have "\<exists>x y. x \<noteq> y \<and> sha x = sha y" if ok: "rows_ok sha None (A @ r # s # B)"
  proof (cases A rule: rev_cases)
    case Nil
    have old_ok: "rows_ok sha None (agent_rows table (ar_agent r))" using inv by (simp add: chain_inv_def)
    obtain g c where tip: "select_chain_head table (ar_agent r) = Some (compute_row_hash sha g c)"
      using advice_chain.tip_is_link [OF old_ok ne] by (auto simp: select_chain_head_tip)
    then have pos: "compute_row_hash sha g c \<noteq> []" using sha by (simp add: compute_row_hash_def)
    have "sha (compute_row_hash sha g c @ ar_canonical r) = sha (ar_canonical r)"
      using ok self head tip unfolding Nil by (simp add: compute_row_hash_def)
    then show ?thesis using pos by (metis append_self_conv2)
  next
    case (snoc A' q)
    have "ar_prev_hash r = Some (ar_row_hash q)" using ok by (simp add: snoc advice_chain.verify_append)
    moreover have "ar_prev_hash s = Some (ar_row_hash q)"
      using inv by (simp add: chain_inv_def rows snoc advice_chain.verify_append)
    moreover have "s \<in> set table \<and> ar_agent s = ar_agent r"
      using agent_rows_set [of table "ar_agent r"] rows by auto
    ultimately show ?thesis using un by auto
  qed
  ultimately show ?thesis unfolding new by blast
qed

text \<open>
  Advice whose \<open>(issued_at, id)\<close> sorts before the agent's head is accepted by every
  constraint, yet the chain no longer verifies (or SHA-256 has a collision), and from then
  on no advice of that agent can be stored again: each later append reads the same head
  and its previous hash is taken.
\<close>

theorem backdated_advice_blocks_agent:
  assumes "chain_inv sha table (agent_of advice)" and "agent_rows table (agent_of advice) \<noteq> []"
    and "ledger_append sha canonical ts_of advice table = (Inr h, table')"
    and "row_key (last table') < row_key (last (agent_rows table (agent_of advice)))"
    and "\<And>x. sha x \<noteq> []"
  shows "((\<exists>n i. verify_chain sha table' (agent_of advice) = ChainBroken n i) \<or> (\<exists>x y. x \<noteq> y \<and> sha x = sha y))
    \<and> agent_rows (append_all sha canonical ts_of later table') (agent_of advice) = agent_rows table' (agent_of advice)"
proof -
  obtain r where r: "table' = table @ [r]" "advice_insert table r = Some table'" "ar_agent r = agent_of advice"
      "ar_row_hash r = compute_row_hash sha (ar_prev_hash r) (ar_canonical r)"
    using ledger_append_Inr assms(3) by blast
  have "(\<not> rows_ok sha None (agent_rows table' (ar_agent r)) \<or> (\<exists>x y. x \<noteq> y \<and> sha x = sha y)) \<and> blocked table' (ar_agent r)"
    by (rule backdated_breaks [OF _ r(2) _ assms(5) r(4)]) (use assms(1,2,4) r(1,3) in simp_all)
  then show ?thesis
    using verify_chain_ok_iff [of sha table' "agent_of advice"] blocked_append_all r(3) by metis
qed

text \<open>Two pieces of advice of one agent, the second issued before the first.\<close>

theorem backdated_advice_blocks_agent_witness:
  "\<exists>table'. ledger_append toy_sha toy_canonical jint (sample_advice id_B (of_int 4)) [sample_row id_A 5 [1] None] = (Inr [7, 7, 1, 2], table')
    \<and> agent_rows (append_all toy_sha toy_canonical jint [sample_advice id_A (of_int 9)] table') ''quant'' = agent_rows table' ''quant''"
proof -
  let ?t = "[sample_row id_A 5 [1] None]" and ?r = "sample_row id_B 4 [2] (Some [7, 1])"
  have agent: "agent_of (sample_advice id_B (of_int 4)) = ''quant''"
    by (simp add: agent_of_def jat_def jget_or_def sample_advice_def)
  have rows: "agent_rows ?t ''quant'' = ?t" by (simp add: agent_rows_def sample_row_def)
  have inv: "chain_inv toy_sha ?t ''quant''"
    by (simp add: chain_inv_def rows) (simp add: sample_row_def)
  have head: "select_chain_head ?t ''quant'' = Some [7, 1]"
    by (simp add: select_chain_head_def rows) (simp add: sample_row_def compute_row_hash_def toy_sha_def)
  have "advice_insert ?t ?r = Some (?t @ [?r])"
    using ids_ok by (simp add: advice_insert_def advice_chain_check_def advice_checks_def advice_unique_def
        sample_row_def compute_row_hash_def toy_sha_def)
  then have app: "ledger_append toy_sha toy_canonical jint (sample_advice id_B (of_int 4)) ?t = (Inr [7, 7, 1, 2], ?t @ [?r])"
    using ids_ok(3) by (simp add: ledger_append_def append_at_def agent head check_sample make_sample_row as_ledger_def
        del: of_int_numeral) (simp add: sample_row_def compute_row_hash_def toy_sha_def)
  have "row_key (last (?t @ [?r])) < row_key (last (agent_rows ?t ''quant''))"
    by (simp add: rows) (simp add: row_key_def sample_row_def)
  then show ?thesis
    using backdated_advice_blocks_agent [of toy_sha ?t "sample_advice id_B (of_int 4)" toy_canonical jint _ _ "[sample_advice id_A (of_int 9)]", unfolded agent, OF inv _ app]
      app by (simp add: rows toy_sha_def del: append_all.simps of_int_numeral)
qed

section \<open>Tamper evidence\<close>

lemma compute_row_hash_length: "(\<And>x. length (sha x) = n) \<Longrightarrow> length (compute_row_hash sha g p) = n"
  by (simp add: compute_row_hash_def)

lemma collision_at_sha:
  assumes "advice_chain.collision_at sha None" and "\<And>x. length (sha x) = n"
  shows "\<exists>x y. x \<noteq> y \<and> sha x = sha y"
proof -
  obtain g1 p1 g2 p2 where ne: "(g1, p1) \<noteq> (g2, p2)" and eq: "compute_row_hash sha g1 p1 = compute_row_hash sha g2 p2"
    and "g1 = None \<and> g2 = None \<or> (\<exists>a1 b1 a2 b2. g1 = Some (compute_row_hash sha a1 b1) \<and> g2 = Some (compute_row_hash sha a2 b2))"
    using assms(1) unfolding advice_chain.collision_at_def by metis
  then consider "g1 = None" "g2 = None" | h1 h2 where "g1 = Some h1" "g2 = Some h2" "length h1 = n" "length h2 = n"
    using assms(2) compute_row_hash_length by metis
  then show ?thesis
  proof cases
    case 1
    then show ?thesis using ne eq by (auto simp: compute_row_hash_def)
  next
    case 2
    then have "h1 @ p1 \<noteq> h2 @ p2" using ne by auto
    moreover have "sha (h1 @ p1) = sha (h2 @ p2)" using eq 2 by (simp add: compute_row_hash_def)
    ultimately show ?thesis by blast
  qed
qed

text \<open>
  Tamper evidence: two states of an agent's ledger that both verify, have the same
  number of rows and end in the same row hash hold the same payload bytes in the same order,
  or SHA-256 has a collision.
\<close>

theorem advice_ledger_tamper_evident:
  assumes "verify_chain sha table agent = ChainOk n" and "verify_chain sha table' agent = ChainOk n"
    and "select_chain_head table agent = select_chain_head table' agent"
    and "\<And>x. length (sha x) = 32"
  shows "map ar_canonical (agent_rows table agent) = map ar_canonical (agent_rows table' agent)
    \<or> (\<exists>x y. x \<noteq> y \<and> sha x = sha y)"
proof -
  have ok: "rows_ok sha None (agent_rows t agent) \<and> length (agent_rows t agent) = n"
    if "verify_chain sha t agent = ChainOk n" for t
    using that verify_chain_ok_iff [of sha t agent] verify_rows_count [of sha None "agent_rows t agent" 0]
    by (auto simp: verify_chain_def Let_def split: if_splits)
  have "length (agent_rows table agent) = length (agent_rows table' agent)"
    using ok [OF assms(1)] ok [OF assms(2)] by simp
  then have "map ar_canonical (agent_rows table agent) = map ar_canonical (agent_rows table' agent)
      \<or> advice_chain.collision_at sha None"
    by (rule advice_chain.tamper_evident [OF conjunct1 [OF ok [OF assms(1)]] conjunct1 [OF ok [OF assms(2)]] _
          assms(3) [unfolded select_chain_head_tip]])
  then show ?thesis by (rule disj_forward) (assumption, erule collision_at_sha, rule assms(4))
qed

definition sha32 :: "bytes \<Rightarrow> bytes" where
  "sha32 x = take 32 (x @ replicate 32 0)"

lemma length_sha32: "length (sha32 x) = 32"
  by (simp add: sha32_def)

definition sample32 :: "rat \<Rightarrow> advice_row" where
  "sample32 confidence = \<lparr>ar_id = id_A, ar_agent = ''quant'', ar_issued_at = 5, ar_direction = ''long'',
     ar_confidence = confidence, ar_canonical = [1], ar_prev_hash = None, ar_row_hash = sha32 [1]\<rparr>"

lemma agent_rows_sample32: "agent_rows [sample32 c] ''quant'' = [sample32 c]"
  by (simp add: agent_rows_def sample32_def)

lemma verify_sample32: "verify_chain sha32 [sample32 c] ''quant'' = ChainOk 1"
  by (simp add: verify_chain_def agent_rows_sample32) (simp add: sample32_def compute_row_hash_def)

lemma head_sample32: "select_chain_head [sample32 c] ''quant'' = Some (sha32 [1])"
  by (simp add: select_chain_head_def agent_rows_sample32) (simp add: sample32_def)

theorem advice_ledger_tamper_evident_witness:
  "map ar_canonical (agent_rows [sample32 0] ''quant'') = map ar_canonical (agent_rows [sample32 1] ''quant'')
     \<or> (\<exists>x y. x \<noteq> y \<and> sha32 x = sha32 y)"
  by (rule advice_ledger_tamper_evident [OF verify_sample32 verify_sample32 _ length_sha32])
    (simp only: head_sample32)

end
