(* ===== verification/AdminApi.thy ===== *)
theory AdminApi
  imports HashChain Json "HOL-Library.Char_ord" "HOL-Library.List_Lexorder" "HOL-Library.Product_Lexorder"
begin

text \<open>
  The admin API's configuration writes (\<^verbatim>\<open>apps/admin_api/admin_api/\<close>): the whitelist and the
  file writes of \<^verbatim>\<open>config_io.py\<close>, the hash-chained audit rows of \<^verbatim>\<open>audit.py\<close>, and the routes
  of \<^verbatim>\<open>main.py\<close> that combine them, secret rotation (\<^verbatim>\<open>secrets.py\<close>) and schedules
  (\<^verbatim>\<open>schedules.py\<close>) included. YAML validity and printing, SHA-256, the operating system's
  answer to a write and sops are parameters. Paths have no symbolic links.
\<close>

section \<open>The whitelist\<close>

type_synonym path = "string list"
type_synonym files = "path \<Rightarrow> string option"

definition EDITABLE_PATHS :: "string list" where
  "EDITABLE_PATHS = [''docs/prompts/persona/'', ''packages/featureflags/flags.yaml'', ''infra/intel/'',
     ''infra/cron/schedules.yaml'', ''infra/quant/watchlist.yaml'', ''infra/notifier/preferences.yaml'',
     ''infra/futu/brokers.yaml'']"

definition lstrip_slash :: "string \<Rightarrow> string" where
  "lstrip_slash s = dropWhile (\<lambda>c. c = CHR ''/'') s"

definition is_editable :: "string \<Rightarrow> bool" where
  "is_editable rel_path \<longleftrightarrow> (let rel = lstrip_slash rel_path in
     list_ex (\<lambda>prefix. (ends_with ''/'' prefix \<and> starts_with prefix rel) \<or> rel = prefix) EDITABLE_PATHS)"

text \<open>\<open>(rdir / rel).resolve()\<close>.\<close>

fun resolve_step :: "path \<Rightarrow> string \<Rightarrow> path" where
  "resolve_step acc c = (if c = '''' \<or> c = ''.'' then acc else if c = ''..'' then butlast acc else acc @ [c])"

definition resolve :: "path \<Rightarrow> string \<Rightarrow> path" where
  "resolve rdir rel = foldl resolve_step rdir (split_on (CHR ''/'') rel)"

datatype io_error = PermissionError | InvalidYaml | OsError

definition abs_path :: "path \<Rightarrow> string \<Rightarrow> io_error + path" where
  "abs_path rdir rel_path =
     (if \<not> is_editable rel_path then Inl PermissionError
      else let p = resolve rdir (lstrip_slash rel_path) in
        if take (length rdir) p \<noteq> rdir then Inl PermissionError else Inr p)"

section \<open>Reading and writing\<close>

text \<open>Text-mode reading turns CR LF and CR into LF.\<close>

definition CR :: char where "CR = char_of (13::nat)"
definition LF :: char where "LF = char_of (10::nat)"

fun universal_newlines :: "string \<Rightarrow> string" where
  "universal_newlines [] = []"
| "universal_newlines [c] = [if c = CR then LF else c]"
| "universal_newlines (c # d # s) =
     (if c = CR then LF # (if d = LF then universal_newlines s else universal_newlines (d # s))
      else c # universal_newlines (d # s))"

record snapshot =
  sn_path :: path
  sn_content :: string
  sn_sha256 :: string

definition read_file :: "(string \<Rightarrow> string) \<Rightarrow> path \<Rightarrow> files \<Rightarrow> string \<Rightarrow> io_error + snapshot" where
  "read_file sha rdir fs rel_path =
     res_bind (abs_path rdir rel_path) (\<lambda>p.
       let content = (case fs p of Some s \<Rightarrow> universal_newlines s | None \<Rightarrow> '''') in
       Inr \<lparr>sn_path = p, sn_content = content, sn_sha256 = sha content\<rparr>)"

definition propose :: "(string \<Rightarrow> string) \<Rightarrow> (string \<Rightarrow> bool) \<Rightarrow> path \<Rightarrow> files \<Rightarrow> string \<Rightarrow> string \<Rightarrow> io_error + string \<times> string" where
  "propose sha yaml_ok rdir fs rel_path new_content =
     (if \<not> yaml_ok new_content then Inl InvalidYaml
      else res_bind (read_file sha rdir fs rel_path) (\<lambda>current. Inr (sn_sha256 current, sha new_content)))"

text \<open>
  \<open>os_ok p\<close>: the operating system lets the temporary file be written beside \<open>p\<close> and renamed
  to it. The rename is atomic, so the file has the old content or the new one.
\<close>

definition apply_write :: "(string \<Rightarrow> string) \<Rightarrow> (string \<Rightarrow> bool) \<Rightarrow> (path \<Rightarrow> bool) \<Rightarrow> path \<Rightarrow> files \<Rightarrow> string \<Rightarrow> string
    \<Rightarrow> io_error + snapshot \<times> files" where
  "apply_write sha yaml_ok os_ok rdir fs rel_path new_content =
     (if \<not> yaml_ok new_content then Inl InvalidYaml
      else res_bind (abs_path rdir rel_path) (\<lambda>target.
        if \<not> os_ok target then Inl OsError
        else Inr (\<lparr>sn_path = target, sn_content = new_content, sn_sha256 = sha new_content\<rparr>,
                  fs(target \<mapsto> new_content))))"

section \<open>Audit rows\<close>

record cfg_row =
  cr_id :: string
  cr_ts :: int
  cr_actor :: string
  cr_path :: string
  cr_before :: "string option"
  cr_after :: string
  cr_prev :: "string option"
  cr_chain :: string
  cr_reason :: "string option"

definition or_empty :: "string option \<Rightarrow> string" where
  "or_empty x = (case x of None \<Rightarrow> '''' | Some s \<Rightarrow> s)"

definition compute_chain_hash :: "(string \<Rightarrow> string) \<Rightarrow> (int \<Rightarrow> string) \<Rightarrow> string option \<Rightarrow> string \<Rightarrow> string
    \<Rightarrow> string option \<Rightarrow> string \<Rightarrow> int \<Rightarrow> string" where
  "compute_chain_hash sha isoformat prev actor path before_hash after_hash ts =
     sha (or_empty prev @ actor @ path @ or_empty before_hash @ after_hash @ isoformat ts)"

text \<open>The two stores: the list of the in-memory sink, the table of the Postgres sink.\<close>

datatype sink = InMemory | Postgres

definition sink_head :: "sink \<Rightarrow> cfg_row list \<Rightarrow> string option" where
  "sink_head k rows =
     (if rows = [] then None
      else Some (cr_chain (last (case k of InMemory \<Rightarrow> rows | Postgres \<Rightarrow> sort_key (\<lambda>r. (cr_ts r, cr_id r)) rows))))"

text \<open>\<open>bytes.fromhex\<close>: pairs of hexadecimal digits, white space between pairs skipped.\<close>

definition hex_digit :: "char \<Rightarrow> bool" where
  "hex_digit c \<longleftrightarrow> c \<in> set ''0123456789abcdefABCDEF''"

fun from_hex_ok :: "string \<Rightarrow> bool" where
  "from_hex_ok [] = True"
| "from_hex_ok (c # s) =
     (if is_space c then from_hex_ok s
      else case s of [] \<Rightarrow> False | d # t \<Rightarrow> hex_digit c \<and> hex_digit d \<and> from_hex_ok t)"

definition hex_params_ok :: "cfg_row \<Rightarrow> bool" where
  "hex_params_ok r \<longleftrightarrow> from_hex_ok (or_empty (cr_before r)) \<and> from_hex_ok (cr_after r)
     \<and> from_hex_ok (or_empty (cr_prev r)) \<and> from_hex_ok (cr_chain r)"

text \<open>
  \<open>append\<close> with the head the sink read: in Postgres the head is read in a session of its
  own, so another writer may append in between. The primary key is \<open>(id, ts)\<close>.
\<close>

definition sink_append_at :: "(string \<Rightarrow> string) \<Rightarrow> (int \<Rightarrow> string) \<Rightarrow> sink \<Rightarrow> string option \<Rightarrow> string \<Rightarrow> int \<Rightarrow> string
    \<Rightarrow> string \<Rightarrow> string option \<Rightarrow> string \<Rightarrow> string option \<Rightarrow> cfg_row list \<Rightarrow> exn + cfg_row \<times> cfg_row list" where
  "sink_append_at sha isoformat k prev uid ts actor path before_hash after_hash reason rows =
     (let r = \<lparr>cr_id = uid, cr_ts = ts, cr_actor = actor, cr_path = path, cr_before = before_hash,
               cr_after = after_hash, cr_prev = prev,
               cr_chain = compute_chain_hash sha isoformat prev actor path before_hash after_hash ts,
               cr_reason = reason\<rparr> in
      case k of
        InMemory \<Rightarrow> Inr (r, rows @ [r])
      | Postgres \<Rightarrow>
          (if \<not> hex_params_ok r then Inl (ValueError ''non-hexadecimal'')
           else if list_ex (\<lambda>q. cr_id q = uid \<and> cr_ts q = ts) rows then Inl (OtherExn ''IntegrityError'')
           else Inr (r, rows @ [r])))"

definition sink_append :: "(string \<Rightarrow> string) \<Rightarrow> (int \<Rightarrow> string) \<Rightarrow> sink \<Rightarrow> string \<Rightarrow> int \<Rightarrow> string
    \<Rightarrow> string \<Rightarrow> string option \<Rightarrow> string \<Rightarrow> string option \<Rightarrow> cfg_row list \<Rightarrow> exn + cfg_row \<times> cfg_row list" where
  "sink_append sha isoformat k uid ts actor path before_hash after_hash reason rows =
     sink_append_at sha isoformat k (sink_head k rows) uid ts actor path before_hash after_hash reason rows"

section \<open>The routes\<close>

record admin_state =
  as_files :: files
  as_sealed :: "string \<Rightarrow> string option"
  as_rows :: "cfg_row list"

datatype http = Http200 | Http400 | Http403 | Http500 | Http503

fun http_of :: "io_error \<Rightarrow> http" where
  "http_of PermissionError = Http403"
| "http_of InvalidYaml = Http400"
| "http_of OsError = Http500"

text \<open>What the process is configured with, and what the request's id and clock read.\<close>

record env =
  en_sha :: "string \<Rightarrow> string"
  en_isoformat :: "int \<Rightarrow> string"
  en_yaml_ok :: "string \<Rightarrow> bool"
  en_os_ok :: "path \<Rightarrow> bool"
  en_root :: path
  en_sink :: sink
  en_actor :: string
  en_sops :: "string \<Rightarrow> string option"
  en_have_sops :: bool

definition audit_row :: "env \<Rightarrow> string \<Rightarrow> int \<Rightarrow> string \<Rightarrow> string option \<Rightarrow> string \<Rightarrow> string option \<Rightarrow> admin_state \<Rightarrow> http \<times> admin_state" where
  "audit_row e uid ts path before_hash after_hash reason s =
     (case sink_append (en_sha e) (en_isoformat e) (en_sink e) uid ts (en_actor e) path before_hash after_hash reason (as_rows s) of
        Inl x \<Rightarrow> (Http500, s)
      | Inr (r, rows) \<Rightarrow> (Http200, s\<lparr>as_rows := rows\<rparr>))"

definition apply_file :: "env \<Rightarrow> string \<Rightarrow> int \<Rightarrow> string \<Rightarrow> string \<Rightarrow> string option \<Rightarrow> admin_state \<Rightarrow> http \<times> admin_state" where
  "apply_file e uid ts rel new_content reason s =
     (case read_file (en_sha e) (en_root e) (as_files s) rel of
        Inl x \<Rightarrow> (http_of x, s)
      | Inr before \<Rightarrow>
          (case apply_write (en_sha e) (en_yaml_ok e) (en_os_ok e) (en_root e) (as_files s) rel new_content of
             Inl x \<Rightarrow> (http_of x, s)
           | Inr (snap, fs) \<Rightarrow>
               audit_row e uid ts rel (Some (sn_sha256 before)) (sn_sha256 snap) reason (s\<lparr>as_files := fs\<rparr>)))"

text \<open>The schedule and broker routes write one fixed file, with the body printed by \<open>dump\<close>.\<close>

definition apply_fixed :: "env \<Rightarrow> string \<Rightarrow> int \<Rightarrow> string \<Rightarrow> string \<Rightarrow> string \<Rightarrow> admin_state \<Rightarrow> http \<times> admin_state" where
  "apply_fixed e uid ts rel serialized reason s =
     (case read_file (en_sha e) (en_root e) (as_files s) rel of
        Inl x \<Rightarrow> (Http500, s)
      | Inr before \<Rightarrow>
          (case apply_write (en_sha e) (en_yaml_ok e) (en_os_ok e) (en_root e) (as_files s) rel serialized of
             Inl x \<Rightarrow> (Http500, s)
           | Inr (snap, fs) \<Rightarrow>
               audit_row e uid ts rel (Some (sn_sha256 before)) (sn_sha256 snap) (Some reason) (s\<lparr>as_files := fs\<rparr>)))"

record schedule_entry =
  sc_job_id :: json
  sc_enabled :: bool
  sc_cron :: json
  sc_timezone :: json

text \<open>
  The dict of entries a request body gives; a later entry with the same job id replaces an
  earlier one, and a list or dict is no dict key.
\<close>

definition schedule_of :: "json \<Rightarrow> json \<Rightarrow> schedule_entry" where
  "schedule_of item j = \<lparr>sc_job_id = j,
     sc_enabled = truthy (jget_or item ''enabled'' (JBool True)),
     sc_cron = jget_or item ''cron'' JNull, sc_timezone = jget_or item ''timezone'' JNull\<rparr>"

fun hashable :: "json \<Rightarrow> bool" where
  "hashable (JArr xs) = False"
| "hashable (JObj d) = False"
| "hashable _ = True"

fun parse_schedules :: "json list \<Rightarrow> (json, schedule_entry) dict \<Rightarrow> exn + (json, schedule_entry) dict" where
  "parse_schedules [] d = Inr d"
| "parse_schedules (item # items) d =
     (case jget item ''job_id'' of
        None \<Rightarrow> parse_schedules items d
      | Some j \<Rightarrow> if hashable j then parse_schedules items (AList.update j (schedule_of item j) d) else Inl TypeError)"

definition SCHEDULES_REL :: string where
  "SCHEDULES_REL = ''infra/cron/schedules.yaml''"

definition apply_schedules :: "env \<Rightarrow> ((json, schedule_entry) dict \<Rightarrow> string) \<Rightarrow> string \<Rightarrow> int \<Rightarrow> json \<Rightarrow> admin_state \<Rightarrow> http \<times> admin_state" where
  "apply_schedules e dump uid ts body s =
     (case jget body ''schedules'' of
        Some (JArr raw) \<Rightarrow>
          (case parse_schedules raw [] of
             Inl x \<Rightarrow> (Http500, s)
           | Inr entries \<Rightarrow> apply_fixed e uid ts SCHEDULES_REL (dump entries) ''schedules update via admin UI'' s)
      | _ \<Rightarrow> (Http400, s))"

definition KNOWN_SECRETS :: "string list" where
  "KNOWN_SECRETS = [''deepseek_api_key'', ''anthropic_api_key'', ''groq_api_key'', ''openai_api_key'',
     ''fred_api_key'', ''newsapi_key'', ''wecom_bot_url'', ''futu_opend_password'']"

text \<open>\<open>secrets.rotate\<close>; \<open>en_sops\<close> is the sealed text sops writes, or nothing when it fails.\<close>

definition rotate :: "env \<Rightarrow> string \<Rightarrow> string \<Rightarrow> (string \<Rightarrow> string option) \<Rightarrow> http + (string \<Rightarrow> string option)" where
  "rotate e name plaintext sealed =
     (if name \<notin> set KNOWN_SECRETS then Inl Http400
      else if \<not> en_have_sops e then Inl Http503
      else case en_sops e plaintext of None \<Rightarrow> Inl Http500 | Some t \<Rightarrow> Inr (sealed(name \<mapsto> t)))"

definition rotate_secret :: "env \<Rightarrow> string \<Rightarrow> int \<Rightarrow> string \<Rightarrow> json \<Rightarrow> admin_state \<Rightarrow> http \<times> admin_state" where
  "rotate_secret e uid ts name value s =
     (case value of
        JStr plaintext \<Rightarrow>
          (if plaintext = '''' then (Http400, s)
           else case rotate e name plaintext (as_sealed s) of
             Inl h \<Rightarrow> (h, s)
           | Inr sealed \<Rightarrow> audit_row e uid ts (''secrets/sealed/'' @ name) None ''rotated''
                              (Some ''secret rotation via admin UI'') (s\<lparr>as_sealed := sealed\<rparr>))
      | _ \<Rightarrow> (Http400, s))"

section \<open>What a write does\<close>

lemma abs_path_inside: "abs_path rdir rel = Inr p \<Longrightarrow> take (length rdir) p = rdir \<and> is_editable rel"
  by (simp add: abs_path_def Let_def split: if_splits)

lemma sink_append_Inr:
  assumes "sink_append sha isoformat k uid ts actor path before_hash after_hash reason rows = Inr (r, rows')"
  shows "rows' = rows @ [r] \<and> cr_actor r = actor \<and> cr_path r = path \<and> cr_before r = before_hash \<and> cr_after r = after_hash
    \<and> cr_prev r = sink_head k rows \<and> cr_reason r = reason \<and> cr_ts r = ts
    \<and> cr_chain r = compute_chain_hash sha isoformat (sink_head k rows) actor path before_hash after_hash ts"
  using assms by (auto simp: sink_append_def sink_append_at_def Let_def split: sink.splits if_splits)

lemma audit_row_cases:
  assumes "audit_row e uid ts path before_hash after_hash reason s = (h, s')"
  obtains r where "h = Http200" "s' = s\<lparr>as_rows := as_rows s @ [r]\<rparr>" "cr_actor r = en_actor e" "cr_path r = path"
      "cr_before r = before_hash" "cr_after r = after_hash" "cr_prev r = sink_head (en_sink e) (as_rows s)"
      "cr_chain r = compute_chain_hash (en_sha e) (en_isoformat e) (sink_head (en_sink e) (as_rows s)) (en_actor e) path before_hash after_hash ts"
  | "h = Http500" "s' = s"
  using assms by (auto simp: audit_row_def split: sum.splits dest!: sink_append_Inr)

text \<open>
  A configuration write either changes exactly one file, inside the repository and to
  the validated content, and appends one row chained to the sink's head that carries the
  hash of the old and of the new content; or it is refused with 400 or 403 and changes
  nothing; or it fails with 500 and no row is added.
\<close>

theorem apply_file_is_audited:
  assumes "apply_file e uid ts rel content reason s = (h, s')"
  shows "(h = Http200 \<and> en_yaml_ok e content \<and>
      (\<exists>p r old. abs_path (en_root e) rel = Inr p \<and> take (length (en_root e)) p = en_root e
        \<and> read_file (en_sha e) (en_root e) (as_files s) rel = Inr old
        \<and> s' = s\<lparr>as_files := (as_files s)(p \<mapsto> content), as_rows := as_rows s @ [r]\<rparr>
        \<and> cr_path r = rel \<and> cr_before r = Some (sn_sha256 old) \<and> cr_after r = en_sha e content
        \<and> cr_prev r = sink_head (en_sink e) (as_rows s)))
    \<or> h \<in> {Http400, Http403} \<and> s' = s
    \<or> h = Http500 \<and> as_rows s' = as_rows s \<and> as_sealed s' = as_sealed s"
proof (cases "read_file (en_sha e) (en_root e) (as_files s) rel")
  case (Inl x)
  then have "x = PermissionError" by (auto simp: read_file_def res_bind_Inl_iff abs_path_def Let_def split: if_splits)
  then show ?thesis using assms Inl by (simp add: apply_file_def)
next
  case (Inr old)
  note rd = Inr
  show ?thesis
  proof (cases "apply_write (en_sha e) (en_yaml_ok e) (en_os_ok e) (en_root e) (as_files s) rel content")
    case (Inl x)
    then show ?thesis using assms rd by (cases x) (simp_all add: apply_file_def)
  next
    case (Inr sf)
    then obtain p where p: "abs_path (en_root e) rel = Inr p" "en_yaml_ok e content"
        "sf = (\<lparr>sn_path = p, sn_content = content, sn_sha256 = en_sha e content\<rparr>, (as_files s)(p \<mapsto> content))"
      by (auto simp: apply_write_def res_bind_Inr_iff split: if_splits)
    have "audit_row e uid ts rel (Some (sn_sha256 old)) (en_sha e content) reason (s\<lparr>as_files := (as_files s)(p \<mapsto> content)\<rparr>) = (h, s')"
      using assms rd Inr p(3) by (simp add: apply_file_def)
    then show ?thesis
    proof (cases rule: audit_row_cases)
      case (1 r)
      then show ?thesis using p rd abs_path_inside [OF p(1)] by simp (rule exI [of _ r], simp)
    next
      case 2
      then show ?thesis by simp
    qed
  qed
qed

definition sample_env :: "sink \<Rightarrow> env" where
  "sample_env k = \<lparr>en_sha = id, en_isoformat = (\<lambda>t. ''t''), en_yaml_ok = (\<lambda>s. s \<noteq> ''{''), en_os_ok = (\<lambda>p. True),
     en_root = [''repo''], en_sink = k, en_actor = ''unauthenticated'', en_sops = Some, en_have_sops = True\<rparr>"

definition empty_state :: admin_state where
  "empty_state = \<lparr>as_files = (\<lambda>p. None), as_sealed = (\<lambda>n. None), as_rows = []\<rparr>"

theorem apply_file_is_audited_witness:
  "\<exists>s'. apply_file (sample_env InMemory) ''u'' 0 ''README.md'' ''x'' None empty_state = (Http403, s') \<and> s' = empty_state"
proof -
  have "\<not> is_editable ''README.md''"
    by (simp add: is_editable_def lstrip_slash_def EDITABLE_PATHS_def starts_with_def ends_with_def)
  then have "apply_file (sample_env InMemory) ''u'' 0 ''README.md'' ''x'' None empty_state = (Http403, empty_state)"
    by (simp add: apply_file_def read_file_def abs_path_def)
  with apply_file_is_audited [OF this] show ?thesis by simp
qed

section \<open>The whitelist is checked before the path is resolved\<close>

definition plain :: "string \<Rightarrow> bool" where
  "plain c \<longleftrightarrow> CHR ''/'' \<notin> set c \<and> c \<noteq> '''' \<and> c \<noteq> ''.'' \<and> c \<noteq> ''..''"

lemma resolve_plain: "(\<And>c. c \<in> set cs \<Longrightarrow> plain c) \<Longrightarrow> foldl resolve_step acc cs = acc @ cs"
  by (induction cs arbitrary: acc) (auto simp: plain_def)

definition detour :: "string list \<Rightarrow> string" where
  "detour cs = join_with ''/'' ([''infra'', ''intel'', ''..'', ''..''] @ cs)"

lemma detour_editable: "is_editable (detour cs)"
proof -
  have "starts_with ''infra/intel/'' (detour cs)"
    by (cases cs) (simp_all add: detour_def starts_with_def)
  moreover have "lstrip_slash (detour cs) = detour cs"
    by (cases cs) (simp_all add: detour_def lstrip_slash_def)
  ultimately show ?thesis by (simp add: is_editable_def Let_def EDITABLE_PATHS_def ends_with_def starts_with_def)
qed

lemma detour_resolves:
  assumes "\<And>c. c \<in> set cs \<Longrightarrow> plain c"
  shows "abs_path rdir (detour cs) = Inr (rdir @ cs)"
proof -
  have "lstrip_slash (detour cs) = detour cs"
    by (cases cs) (simp_all add: detour_def lstrip_slash_def)
  moreover have "split_on (CHR ''/'') (detour cs) = [''infra'', ''intel'', ''..'', ''..''] @ cs"
    unfolding detour_def by (rule split_on_join) (use assms in \<open>auto simp: plain_def\<close>)
  then have "resolve rdir (detour cs) = rdir @ cs"
    using resolve_plain [of cs rdir] assms by (simp add: resolve_def butlast_append)
  ultimately show ?thesis using detour_editable by (simp add: abs_path_def)
qed

text \<open>
  Every file of the repository can be written through the API, not only the whitelisted
  ones: the whitelist compares the prefix of the path as sent, and dot-dot components are
  resolved afterwards.
\<close>

theorem whitelist_does_not_confine:
  assumes "list_all plain cs" and "en_yaml_ok e content" and "en_os_ok e (en_root e @ cs)"
    and "en_sink e = InMemory"
  shows "\<exists>s'. apply_file e uid ts (detour cs) content reason s = (Http200, s')
    \<and> as_files s' (en_root e @ cs) = Some content"
  using assms
  by (simp add: list_all_iff apply_file_def read_file_def apply_write_def detour_resolves audit_row_def sink_append_def
      sink_append_at_def Let_def)

theorem whitelist_does_not_confine_witness:
  "\<exists>s'. apply_file (sample_env InMemory) ''u'' 0 ''infra/intel/../../apps/main.py'' ''x: 1'' None empty_state = (Http200, s')
    \<and> as_files s' [''repo'', ''apps'', ''main.py''] = Some ''x: 1''"
  using whitelist_does_not_confine [of "[''apps'', ''main.py'']" "sample_env InMemory" "''x: 1''" "''u''" 0 None empty_state]
  by (simp add: plain_def sample_env_def detour_def)

section \<open>Secret rotation with the Postgres sink\<close>

text \<open>
  With the Postgres sink a successful rotation is never audited: the row's after-hash is
  the word ''rotated'', which \<open>bytes.fromhex\<close> refuses after the secret has been replaced.
\<close>

theorem rotation_never_audited_on_postgres:
  assumes "en_sink e = Postgres" and "name \<in> set KNOWN_SECRETS" and "en_have_sops e"
    and "plaintext \<noteq> ''''" and "en_sops e plaintext = Some sealed"
  shows "rotate_secret e uid ts name (JStr plaintext) s = (Http500, s\<lparr>as_sealed := (as_sealed s)(name \<mapsto> sealed)\<rparr>)"
proof -
  have "\<not> from_hex_ok ''rotated''" by (simp add: is_space_def hex_digit_def)
  then show ?thesis using assms
    by (simp add: rotate_secret_def rotate_def audit_row_def sink_append_def sink_append_at_def Let_def hex_params_ok_def
        del: from_hex_ok.simps)
qed

theorem rotation_never_audited_on_postgres_witness:
  "as_rows (snd (rotate_secret (sample_env Postgres) ''u'' 0 ''fred_api_key'' (JStr ''k'') empty_state)) = []"
  using rotation_never_audited_on_postgres [of "sample_env Postgres" "''fred_api_key''" "''k''" "''k''" "''u''" 0 empty_state]
  by (simp add: sample_env_def KNOWN_SECRETS_def empty_state_def)

section \<open>The chain of audit rows\<close>

text \<open>
  The chain the docs promise: each row links to the one before and stores the hash of its
  own hashed columns. The code has no routine that checks it; this is the specification.
\<close>

type_synonym cfg_payload = "string \<times> string \<times> string option \<times> string \<times> int"

definition cfg_payload :: "cfg_row \<Rightarrow> cfg_payload" where
  "cfg_payload r = (cr_actor r, cr_path r, cr_before r, cr_after r, cr_ts r)"

definition cfg_hash :: "(string \<Rightarrow> string) \<Rightarrow> (int \<Rightarrow> string) \<Rightarrow> string option \<Rightarrow> cfg_payload \<Rightarrow> string" where
  "cfg_hash sha isoformat prev p =
     (case p of (actor, path, before_hash, after_hash, ts) \<Rightarrow>
        compute_chain_hash sha isoformat prev actor path before_hash after_hash ts)"

fun cfg_linked :: "(string \<Rightarrow> string) \<Rightarrow> (int \<Rightarrow> string) \<Rightarrow> string option \<Rightarrow> cfg_row list \<Rightarrow> bool" where
  "cfg_linked sha isoformat prev [] = True"
| "cfg_linked sha isoformat prev (r # rs) \<longleftrightarrow> cr_chain r = cfg_hash sha isoformat prev (cfg_payload r)
     \<and> cr_prev r = prev \<and> cfg_linked sha isoformat (Some (cr_chain r)) rs"

interpretation cfg_chain: hash_chain "cfg_hash sha isoformat" Some cfg_payload cr_chain
    "\<lambda>prev r. cr_prev r = prev" "cfg_linked sha isoformat"
  for sha isoformat
  by unfold_locales auto

lemma sink_append_linked [inv_intros]:
  assumes "cfg_linked sha isoformat None rows" and "sink_head k rows = sink_head InMemory rows"
    and "sink_append sha isoformat k uid ts actor path before_hash after_hash reason rows = Inr (r, rows')"
  shows "cfg_linked sha isoformat None rows'"
proof -
  have "sink_head InMemory rows = chain_tip Some cr_chain None rows" by (simp add: sink_head_def chain_tip_eq)
  then show ?thesis using sink_append_Inr [OF assms(3)] assms(1,2)
    by (simp add: cfg_chain.verify_snoc cfg_hash_def cfg_payload_def)
qed

text \<open>Two Postgres writers that read the same head are both accepted: the chain forks.\<close>

lemma postgres_chain_forks:
  assumes "sink_append_at sha isoformat Postgres h u1 t1 a1 p1 b1 c1 x1 rows = Inr (r1, rows1)"
    and "sink_append_at sha isoformat Postgres h u2 t2 a2 p2 b2 c2 x2 rows1 = Inr (r2, rows2)"
  shows "rows2 = rows @ [r1, r2] \<and> cr_prev r1 = h \<and> cr_prev r2 = h"
  using assms by (auto simp: sink_append_at_def Let_def split: if_splits)

text \<open>
  What a row says can be changed without changing its hash: characters move between the
  actor and the path, which are hashed without a separator, and the reason is not hashed.
\<close>

definition reattribute :: "cfg_row \<Rightarrow> string \<Rightarrow> string \<Rightarrow> string option \<Rightarrow> cfg_row \<Rightarrow> cfg_row" where
  "reattribute r actor path reason q =
     (if q = r then q\<lparr>cr_actor := actor, cr_path := path, cr_reason := reason\<rparr> else q)"

lemma reattribute_same:
  "cr_actor r @ cr_path r = actor @ path \<Longrightarrow>
     cr_chain (reattribute r actor path reason q) = cr_chain q \<and> cr_prev (reattribute r actor path reason q) = cr_prev q
     \<and> cfg_hash sha isoformat prev (cfg_payload (reattribute r actor path reason q)) = cfg_hash sha isoformat prev (cfg_payload q)"
  by (simp add: reattribute_def cfg_hash_def cfg_payload_def compute_chain_hash_def) (metis append_assoc)

lemma reattribute_linked:
  "cr_actor r @ cr_path r = actor @ path \<Longrightarrow>
     cfg_linked sha isoformat prev (map (reattribute r actor path reason) rows) = cfg_linked sha isoformat prev rows"
  by (induction rows arbitrary: prev) (simp_all add: reattribute_same)

text \<open>
  The configuration audit chain does not authenticate who changed what: in any chain
  that verifies, any row's actor and path can be re-split, and its reason replaced, with
  every row's hash and link unchanged and the chain still verifying, whatever the digest.
\<close>

theorem config_audit_not_tamper_evident:
  assumes "cfg_linked sha isoformat None rows" and "r \<in> set rows" and "cr_actor r @ cr_path r = actor @ path"
  shows "cfg_linked sha isoformat None (map (reattribute r actor path reason) rows)
    \<and> map cr_chain (map (reattribute r actor path reason) rows) = map cr_chain rows
    \<and> r\<lparr>cr_actor := actor, cr_path := path, cr_reason := reason\<rparr> \<in> set (map (reattribute r actor path reason) rows)"
proof -
  have "map cr_chain (map (reattribute r actor path reason) rows) = map cr_chain rows"
    using reattribute_same [OF assms(3)] by simp
  moreover have "reattribute r actor path reason r \<in> set (map (reattribute r actor path reason) rows)"
    using assms(2) by simp
  ultimately show ?thesis using assms(1) reattribute_linked [OF assms(3)] by (simp add: reattribute_def)
qed

definition alice_row :: cfg_row where
  "alice_row = \<lparr>cr_id = ''u'', cr_ts = 0, cr_actor = ''alice'', cr_path = ''infra/futu/brokers.yaml'', cr_before = None,
     cr_after = ''00'', cr_prev = None, cr_chain = ''aliceinfra/futu/brokers.yaml00t'', cr_reason = None\<rparr>"

theorem config_audit_not_tamper_evident_witness:
  "\<exists>rows. cfg_linked id (\<lambda>t. ''t'') None rows \<and> map cr_chain rows = map cr_chain [alice_row]
    \<and> alice_row\<lparr>cr_actor := ''al'', cr_path := ''iceinfra/futu/brokers.yaml'', cr_reason := Some ''x''\<rparr> \<in> set rows"
proof -
  have "cfg_linked id (\<lambda>t. ''t'') None [alice_row]"
    by (simp add: alice_row_def cfg_payload_def cfg_hash_def compute_chain_hash_def or_empty_def)
  moreover have "cr_actor alice_row @ cr_path alice_row = ''al'' @ ''iceinfra/futu/brokers.yaml''"
    by (simp add: alice_row_def)
  ultimately show ?thesis using config_audit_not_tamper_evident [of id "\<lambda>t. ''t''" "[alice_row]" alice_row] by (meson list.set_intros(1))
qed

end
