(* ===== verification/LlmAdapters.thy ===== *)
theory LlmAdapters
  imports Json
begin

text \<open>
  The LLM client's types, routing matrix, prices and provider adapters
  (\<^verbatim>\<open>packages/llm-client/llm_client/\<close>: \<^verbatim>\<open>types.py\<close>, \<^verbatim>\<open>exceptions.py\<close>, \<^verbatim>\<open>_matrix.py\<close>, \<^verbatim>\<open>pricing.py\<close>,
  \<^verbatim>\<open>adapters/\<close>). The HTTP exchange is a parameter: a function of the JSON payload that
  times out, fails to connect or answers with a status, a text and a decoded body.
\<close>

section \<open>Types\<close>

datatype tier = Flash | Pro | Embed

datatype role = System | User | Assistant

record message =
  ms_role :: role
  ms_content :: string

record chat_response =
  lr_text :: string
  lr_model :: string
  lr_tier :: tier
  lr_prompt_tokens :: int
  lr_completion_tokens :: int
  lr_cost_usd :: usd
  lr_cached :: bool
  lr_fallback_used :: bool
  lr_cost_skipped :: bool
  lr_request_id :: string
  lr_latency_ms :: int

record embed_response =
  er_model :: string
  er_cost_usd :: usd
  er_request_id :: string
  er_vectors :: "json list"

datatype llm_error =
  CostBudgetExceeded string
| ProviderTimeout string
| ProviderError string
| DeepSeekDown string
| NoLLMAvailable string
| UnknownCallerId string
| OtherError exn

text \<open>\<open>DeepSeekDown\<close> is a subclass of \<open>ProviderError\<close>.\<close>

fun is_provider_error :: "llm_error \<Rightarrow> bool" where
  "is_provider_error (ProviderError m) = True"
| "is_provider_error (DeepSeekDown m) = True"
| "is_provider_error _ = False"

section \<open>The routing matrix\<close>

type_synonym signals = json

definition signal_truthy :: "signals \<Rightarrow> string \<Rightarrow> bool" where
  "signal_truthy s k = truthy (jget_or s k (JBool False))"

datatype escalate_rule = Never | Always | Filing_over_200_pages | Regime_change | Weekly_deepdive | Explain_deeply

fun escalates :: "escalate_rule \<Rightarrow> signals \<Rightarrow> exn + bool" where
  "escalates Never s = Inr False"
| "escalates Always s = Inr True"
| "escalates Filing_over_200_pages s =
     res_bind (jint (jget_or s ''filing_pages'' (JNum 0))) (\<lambda>n. Inr (n > 200))"
| "escalates Regime_change s = Inr (signal_truthy s ''regime_change'')"
| "escalates Weekly_deepdive s = Inr (signal_truthy s ''weekly_deepdive'')"
| "escalates Explain_deeply s = Inr (signal_truthy s ''explain_deeply'' \<or> signal_truthy s ''multi_step_question'')"

record caller_spec =
  cs_default_tier :: tier
  cs_escalate_when :: escalate_rule
  cs_cache_eligible :: bool
  cs_cache_ttl_seconds :: "nat option"

definition spec :: "tier \<Rightarrow> escalate_rule \<Rightarrow> caller_spec" where
  "spec t r = \<lparr>cs_default_tier = t, cs_escalate_when = r, cs_cache_eligible = False, cs_cache_ttl_seconds = None\<rparr>"

definition cached_spec :: "tier \<Rightarrow> escalate_rule \<Rightarrow> nat option \<Rightarrow> caller_spec" where
  "cached_spec t r ttl = \<lparr>cs_default_tier = t, cs_escalate_when = r, cs_cache_eligible = True, cs_cache_ttl_seconds = ttl\<rparr>"

definition MATRIX :: "(string, caller_spec) dict" where
  "MATRIX =
    [(''intel.crawler.translate'', cached_spec Flash Never (Some (24 * 3600))),
     (''intel.sentiment.classify'', cached_spec Flash Never (Some 3600)),
     (''intel.dedupe.embed'', cached_spec Embed Never None),
     (''intel.synth'', spec Pro Always),
     (''fund.filings.extract'', cached_spec Flash Filing_over_200_pages (Some (7 * 24 * 3600))),
     (''fund.valuation'', spec Pro Always),
     (''fund.writer'', spec Pro Always),
     (''quant.writer'', spec Flash Regime_change),
     (''persona.daily'', spec Flash Weekly_deepdive),
     (''persona.weekly'', spec Pro Always),
     (''backtest.narrate'', spec Flash Never),
     (''secretary.chat'', spec Flash Explain_deeply),
     (''secretary.brief.morning'', spec Pro Always),
     (''secretary.brief.midday'', spec Flash Never),
     (''secretary.echo'', spec Flash Never),
     (''secretary.plan'', spec Flash Explain_deeply),
     (''orchestrator.plan'', spec Pro Always),
     (''event_triage'', spec Flash Never),
     (''persona.team_plan'', spec Flash Never),
     (''board.bull'', spec Flash Never),
     (''board.bear'', spec Flash Never),
     (''board.risk_aggressive'', spec Flash Never),
     (''board.risk_conservative'', spec Flash Never),
     (''board.risk_neutral'', spec Flash Never),
     (''board.chair'', spec Pro Always)]"

definition llm_lookup :: "string \<Rightarrow> llm_error + caller_spec" where
  "llm_lookup caller_id =
     (if starts_with ''persona.'' caller_id \<and> ends_with ''.daily'' caller_id then Inr (spec Flash Weekly_deepdive)
      else if starts_with ''persona.'' caller_id \<and> ends_with ''.weekly'' caller_id then Inr (spec Pro Always)
      else case map_of MATRIX caller_id of None \<Rightarrow> Inl (UnknownCallerId caller_id) | Some sp \<Rightarrow> Inr sp)"

definition as_llm :: "exn + 'a \<Rightarrow> llm_error + 'a" where
  "as_llm r = (case r of Inl e \<Rightarrow> Inl (OtherError e) | Inr x \<Rightarrow> Inr x)"

definition resolve_tier :: "string \<Rightarrow> signals \<Rightarrow> llm_error + tier" where
  "resolve_tier caller_id s =
     res_bind (llm_lookup caller_id) (\<lambda>sp.
     res_bind (as_llm (escalates (cs_escalate_when sp) s)) (\<lambda>up.
     Inr (if up then Pro else cs_default_tier sp)))"

text \<open>The persona entries \<open>lookup\<close> reads from the matrix are the ones written out above.\<close>

lemma llm_lookup_matrix:
  "map_of MATRIX ''persona.daily'' = Some (spec Flash Weekly_deepdive)"
  "map_of MATRIX ''persona.weekly'' = Some (spec Pro Always)"
  by (simp_all add: MATRIX_def)

section \<open>Prices\<close>

definition PRICING :: "string \<Rightarrow> (usd \<times> usd) option" where
  "PRICING = map_of
     [(''deepseek-v4-pro'', (55/100, 220/100)),
      (''deepseek-v4-flash'', (7/100, 28/100)),
      (''deepseek-bge-m3'', (2/100, 0)),
      (''claude-sonnet-4-6'', (3, 15)),
      (''llama-3.3-70b-versatile'', (0, 0))]"

definition cost_usd :: "string \<Rightarrow> int \<Rightarrow> int \<Rightarrow> usd" where
  "cost_usd model prompt_tokens completion_tokens =
     (case PRICING model of None \<Rightarrow> 0
      | Some (in_per_1m, out_per_1m) \<Rightarrow>
          (of_int prompt_tokens / 1000000) * in_per_1m + (of_int completion_tokens / 1000000) * out_per_1m)"

lemma PRICING_nonneg: "PRICING m = Some (a, b) \<Longrightarrow> 0 \<le> a \<and> 0 \<le> b"
  by (auto simp: PRICING_def split: if_splits)

lemma cost_usd_nonneg: "0 \<le> p \<Longrightarrow> 0 \<le> c \<Longrightarrow> 0 \<le> cost_usd m p c"
  using PRICING_nonneg [of m] by (auto simp: cost_usd_def split: option.splits)

section \<open>One HTTP exchange\<close>

datatype http_result = HttpTimeout | HttpError string | HttpResponse nat string json

text \<open>\<open>resp.json()\<close> of a body that is no JSON is not modelled; a decoded body is any JSON value.\<close>

record call_opts =
  co_max_tokens :: int
  co_temperature :: rat
  co_timeout_text :: string
  co_uuid :: string
  co_latency_ms :: int

fun role_text :: "role \<Rightarrow> string" where
  "role_text System = ''system''"
| "role_text User = ''user''"
| "role_text Assistant = ''assistant''"

definition message_json :: "message \<Rightarrow> json" where
  "message_json m = JObj [(''role'', JStr (role_text (ms_role m))), (''content'', JStr (ms_content m))]"

definition openai_payload :: "string \<Rightarrow> message list \<Rightarrow> call_opts \<Rightarrow> json" where
  "openai_payload model ms co =
     JObj [(''model'', JStr model), (''messages'', JArr (map message_json ms)),
       (''max_tokens'', JNum (of_int (co_max_tokens co))), (''temperature'', JNum (co_temperature co)),
       (''stream'', JBool False)]"

text \<open>\<open>data["choices"][0]["message"]["content"]\<close>, a string by the response schema.\<close>

fun jindex0 :: "json \<Rightarrow> exn + json" where
  "jindex0 (JArr (x # xs)) = Inr x"
| "jindex0 (JArr []) = Inl (OtherExn ''IndexError'')"
| "jindex0 _ = Inl TypeError"

definition choice_text :: "json \<Rightarrow> exn + string" where
  "choice_text data =
     res_bind (jitem data ''choices'') (\<lambda>cs. res_bind (jindex0 cs) (\<lambda>c.
     res_bind (jitem c ''message'') (\<lambda>m. res_bind (jitem m ''content'') jstr)))"

text \<open>\<open>d.get(k, dflt)\<close> raises on a value that is no dict.\<close>

definition jget_attr :: "json \<Rightarrow> string \<Rightarrow> json \<Rightarrow> exn + json" where
  "jget_attr d k dflt = (case d of JObj m \<Rightarrow> Inr (jget_or d k dflt) | _ \<Rightarrow> Inl AttributeError)"

definition usage_count :: "json \<Rightarrow> string \<Rightarrow> exn + int" where
  "usage_count data k =
     res_bind (jget_attr data ''usage'' (JObj [])) (\<lambda>usage. res_bind (jget_attr usage k (JNum 0)) jint)"

definition request_id :: "json \<Rightarrow> string \<Rightarrow> exn + string" where
  "request_id data fresh = jstr (jget_or data ''id'' (JStr fresh))"

text \<open>Building the validated response: token counts below zero are refused.\<close>

definition make_response :: "string \<Rightarrow> string \<Rightarrow> tier \<Rightarrow> int \<Rightarrow> int \<Rightarrow> bool \<Rightarrow> string \<Rightarrow> int \<Rightarrow> exn + chat_response" where
  "make_response text model t prompt completion fb rid latency =
     (if prompt < 0 \<or> completion < 0 \<or> latency < 0 then Inl (OtherExn ''ValidationError'')
      else Inr \<lparr>lr_text = text, lr_model = model, lr_tier = t, lr_prompt_tokens = prompt,
        lr_completion_tokens = completion, lr_cost_usd = cost_usd model prompt completion,
        lr_cached = False, lr_fallback_used = fb, lr_cost_skipped = False, lr_request_id = rid,
        lr_latency_ms = latency\<rparr>)"

definition openai_response :: "string \<Rightarrow> tier \<Rightarrow> bool \<Rightarrow> call_opts \<Rightarrow> json \<Rightarrow> exn + chat_response" where
  "openai_response model t fb co data =
     res_bind (choice_text data) (\<lambda>text.
     res_bind (usage_count data ''prompt_tokens'') (\<lambda>p.
     res_bind (usage_count data ''completion_tokens'') (\<lambda>c.
     res_bind (request_id data (co_uuid co)) (\<lambda>rid.
     make_response text model t p c fb rid (co_latency_ms co)))))"

section \<open>The three adapters\<close>

type_synonym post = "json \<Rightarrow> http_result"

record deepseek =
  ds_model_pro :: string
  ds_model_flash :: string
  ds_embed_model :: string

definition deepseek_model_for :: "deepseek \<Rightarrow> tier \<Rightarrow> string" where
  "deepseek_model_for d t = (case t of Pro \<Rightarrow> ds_model_pro d | Flash \<Rightarrow> ds_model_flash d | Embed \<Rightarrow> ds_embed_model d)"

definition deepseek_chat :: "deepseek \<Rightarrow> post \<Rightarrow> message list \<Rightarrow> tier \<Rightarrow> call_opts \<Rightarrow> llm_error + chat_response" where
  "deepseek_chat d post ms t co =
     (if t = Embed then Inl (ProviderError ''embed tier does not support chat()'')
      else let model = deepseek_model_for d t in
        case post (openai_payload model ms co) of
          HttpTimeout \<Rightarrow> Inl (ProviderTimeout (''deepseek timeout after '' @ co_timeout_text co @ ''s''))
        | HttpError m \<Rightarrow> Inl (DeepSeekDown (''deepseek connection error: '' @ m))
        | HttpResponse status body data \<Rightarrow>
            if status \<ge> 500 then Inl (DeepSeekDown (''deepseek 5xx: '' @ show_nat status @ '' '' @ take 200 body))
            else if status \<ge> 400 then Inl (ProviderError (''deepseek '' @ show_nat status @ '': '' @ take 200 body))
            else as_llm (openai_response model t False co data))"

definition groq_chat :: "string \<Rightarrow> post \<Rightarrow> message list \<Rightarrow> tier \<Rightarrow> call_opts \<Rightarrow> llm_error + chat_response" where
  "groq_chat model post ms t co =
     (if t = Embed then Inl (ProviderError ''groq adapter does not support embeddings'')
      else case post (openai_payload model ms co) of
          HttpTimeout \<Rightarrow> Inl (ProviderTimeout (''groq timeout after '' @ co_timeout_text co @ ''s''))
        | HttpError m \<Rightarrow> Inl (ProviderError (''groq connection error: '' @ m))
        | HttpResponse status body data \<Rightarrow>
            if status \<ge> 400 then Inl (ProviderError (''groq '' @ show_nat status @ '': '' @ take 200 body))
            else as_llm (openai_response model t True co data))"

text \<open>Anthropic: the system texts move to a field of their own; the answer is a list of blocks.\<close>

definition anthropic_payload :: "string \<Rightarrow> message list \<Rightarrow> call_opts \<Rightarrow> json" where
  "anthropic_payload model ms co =
     (let system_text = join_with [char_of (10::nat), char_of (10::nat)]
            (map ms_content (filter (\<lambda>m. ms_role m = System) ms));
          non_system = filter (\<lambda>m. ms_role m \<noteq> System) ms in
      JObj ([(''model'', JStr model), (''messages'', JArr (map message_json non_system)),
         (''max_tokens'', JNum (of_int (co_max_tokens co))), (''temperature'', JNum (co_temperature co))]
        @ (if system_text = '''' then [] else [(''system'', JStr system_text)])))"

fun block_texts :: "json list \<Rightarrow> exn + string" where
  "block_texts [] = Inr ''''"
| "block_texts (b # bs) =
     (case b of JObj d \<Rightarrow> res_bind (jstr (jget_or b ''text'' (JStr ''''))) (\<lambda>s. res_bind (block_texts bs) (\<lambda>t. Inr (s @ t)))
      | _ \<Rightarrow> Inl AttributeError)"

fun iter_blocks :: "json \<Rightarrow> exn + json list" where
  "iter_blocks (JArr xs) = Inr xs"
| "iter_blocks (JStr s) = Inr (map (\<lambda>c. JStr [c]) s)"
| "iter_blocks (JObj d) = Inr (map (\<lambda>(k, v). JStr k) d)"
| "iter_blocks _ = Inl TypeError"

definition anthropic_response :: "string \<Rightarrow> tier \<Rightarrow> call_opts \<Rightarrow> json \<Rightarrow> exn + chat_response" where
  "anthropic_response model t co data =
     res_bind (jget_attr data ''content'' (JArr [])) (\<lambda>content.
     res_bind (iter_blocks content) (\<lambda>blocks.
     res_bind (block_texts blocks) (\<lambda>text.
     res_bind (usage_count data ''input_tokens'') (\<lambda>p.
     res_bind (usage_count data ''output_tokens'') (\<lambda>c.
     res_bind (request_id data (co_uuid co)) (\<lambda>rid.
     make_response text model t p c True rid (co_latency_ms co)))))))"

definition anthropic_chat :: "string \<Rightarrow> post \<Rightarrow> message list \<Rightarrow> tier \<Rightarrow> call_opts \<Rightarrow> llm_error + chat_response" where
  "anthropic_chat model post ms t co =
     (if t = Embed then Inl (ProviderError ''anthropic does not support embeddings'')
      else case post (anthropic_payload model ms co) of
          HttpTimeout \<Rightarrow> Inl (ProviderTimeout (''anthropic timeout after '' @ co_timeout_text co @ ''s''))
        | HttpError m \<Rightarrow> Inl (ProviderError (''anthropic connection error: '' @ m))
        | HttpResponse status body data \<Rightarrow>
            if status \<ge> 400 then Inl (ProviderError (''anthropic '' @ show_nat status @ '': '' @ take 200 body))
            else as_llm (anthropic_response model t co data))"

definition deepseek_embed :: "deepseek \<Rightarrow> post \<Rightarrow> string list \<Rightarrow> call_opts \<Rightarrow> llm_error + embed_response" where
  "deepseek_embed d post texts co =
     (case post (JObj [(''model'', JStr (ds_embed_model d)), (''input'', JArr (map JStr texts))]) of
        HttpTimeout \<Rightarrow> Inl (ProviderTimeout (''deepseek embed timeout after '' @ co_timeout_text co @ ''s''))
      | HttpError m \<Rightarrow> Inl (DeepSeekDown (''deepseek embed error: '' @ m))
      | HttpResponse status body data \<Rightarrow>
          if status \<ge> 400 then Inl (ProviderError (''deepseek embed '' @ show_nat status @ '': '' @ take 200 body))
          else as_llm (
            res_bind (usage_count data ''prompt_tokens'') (\<lambda>p.
            res_bind (jitem data ''data'') (\<lambda>items. case items of
              JArr xs \<Rightarrow> res_bind (those_res (map (\<lambda>x. jitem x ''embedding'') xs)) (\<lambda>vs.
                res_bind (request_id data (co_uuid co)) (\<lambda>rid.
                if cost_usd (ds_embed_model d) p 0 < 0 then Inl (OtherExn ''ValidationError'')
                else Inr \<lparr>er_model = ds_embed_model d, er_cost_usd = cost_usd (ds_embed_model d) p 0,
                          er_request_id = rid, er_vectors = vs\<rparr>))
            | _ \<Rightarrow> Inl TypeError))))"

section \<open>The adapter contract\<close>

definition response_ok :: "bool \<Rightarrow> tier \<Rightarrow> chat_response \<Rightarrow> bool" where
  "response_ok fb t r \<longleftrightarrow> lr_tier r = t \<and> 0 \<le> lr_prompt_tokens r \<and> 0 \<le> lr_completion_tokens r
     \<and> lr_cost_usd r = cost_usd (lr_model r) (lr_prompt_tokens r) (lr_completion_tokens r)
     \<and> \<not> lr_cached r \<and> lr_fallback_used r = fb \<and> \<not> lr_cost_skipped r"

lemma make_response_ok: "make_response text model t p c fb rid l = Inr r \<Longrightarrow> response_ok fb t r"
  by (auto simp: make_response_def response_ok_def split: if_splits)

text \<open>What the router relies on in an adapter, primary (\<open>fb = False\<close>) or fallback.\<close>

locale adapter =
  fixes chat :: "message list \<Rightarrow> tier \<Rightarrow> call_opts \<Rightarrow> llm_error + chat_response"
    and fb :: bool
  assumes chat_ok: "chat ms t co = Inr r \<Longrightarrow> response_ok fb t r"
    and no_embed: "\<exists>m. chat ms Embed co = Inl (ProviderError m)"
    and own_errors: "chat ms t co = Inl e \<Longrightarrow> is_provider_error e \<or> (\<exists>m. e = ProviderTimeout m) \<or> (\<exists>x. e = OtherError x)"
begin

lemma cost_nonneg: "chat ms t co = Inr r \<Longrightarrow> 0 \<le> lr_cost_usd r"
  using chat_ok cost_usd_nonneg by (auto simp: response_ok_def)

lemma never_over_budget_error: "chat ms t co \<noteq> Inl (CostBudgetExceeded m)"
  using own_errors by fastforce

end

lemma as_llm_Inr [simp]: "as_llm r = Inr x \<longleftrightarrow> r = Inr x"
  by (simp add: as_llm_def split: sum.splits)

lemma as_llm_Inl [simp]: "as_llm r = Inl e \<longleftrightarrow> (\<exists>x. r = Inl x \<and> e = OtherError x)"
  by (auto simp: as_llm_def split: sum.splits)

lemma openai_response_ok: "openai_response model t fb co data = Inr r \<Longrightarrow> response_ok fb t r"
  by (auto simp: openai_response_def res_bind_Inr_iff dest: make_response_ok)

lemma anthropic_response_ok: "anthropic_response model t co data = Inr r \<Longrightarrow> response_ok True t r"
  by (auto simp: anthropic_response_def res_bind_Inr_iff dest: make_response_ok)

interpretation deepseek: adapter "deepseek_chat d post" False for d post
  by unfold_locales
    (auto simp: deepseek_chat_def Let_def split: if_splits http_result.splits dest: openai_response_ok)

interpretation groq: adapter "groq_chat model post" True for model post
  by unfold_locales
    (auto simp: groq_chat_def split: if_splits http_result.splits dest: openai_response_ok)

interpretation anthropic: adapter "anthropic_chat model post" True for model post
  by unfold_locales
    (auto simp: anthropic_chat_def split: if_splits http_result.splits dest: anthropic_response_ok)

definition fails_over :: "llm_error \<Rightarrow> bool" where
  "fails_over e \<longleftrightarrow> (\<exists>m. e = DeepSeekDown m) \<or> (\<exists>m. e = ProviderTimeout m)"

text \<open>
  DeepSeek's adapter reports the two errors that send a call to the fallback provider
  exactly when the request timed out, did not connect or was answered with a 5xx; every
  answer it returns has the requested tier, non-negative counts and the price list's cost.
\<close>

definition unreachable :: "http_result \<Rightarrow> bool" where
  "unreachable r = (case r of HttpTimeout \<Rightarrow> True | HttpError m \<Rightarrow> True | HttpResponse status body data \<Rightarrow> status \<ge> 500)"

theorem deepseek_fails_over_iff_unreachable:
  "(case deepseek_chat d post ms t co of
      Inl e \<Rightarrow> fails_over e = (t \<noteq> Embed \<and> unreachable (post (openai_payload (deepseek_model_for d t) ms co)))
    | Inr r \<Rightarrow> t \<noteq> Embed \<and> \<not> unreachable (post (openai_payload (deepseek_model_for d t) ms co))
        \<and> response_ok False t r \<and> 0 \<le> lr_cost_usd r)"
proof (cases "deepseek_chat d post ms t co")
  case (Inl e)
  then show ?thesis
    by (auto simp: deepseek_chat_def Let_def unreachable_def fails_over_def split: if_splits http_result.splits)
next
  case (Inr r)
  then have "t \<noteq> Embed \<and> \<not> unreachable (post (openai_payload (deepseek_model_for d t) ms co))"
    by (auto simp: deepseek_chat_def Let_def unreachable_def split: if_splits http_result.splits)
  then show ?thesis using Inr deepseek.chat_ok [OF Inr] deepseek.cost_nonneg [OF Inr] by simp
qed

end
