(* ===== verification/CostMeter.thy ===== *)
theory CostMeter
  imports LlmAdapters
begin

text \<open>
  The LLM budget (\<^verbatim>\<open>packages/llm-client/llm_client/cost_meter.py\<close>): the spend store behind its
  protocol, as a locale the in-memory store interprets, and the meter's circuit breaker
  over the spend of the last thirty days. A cap is \<open>None\<close> when it is infinite. Days are
  numbered; the clock reading is in seconds.
\<close>

section \<open>The spend store\<close>

text \<open>\<open>total_spend(since, fallback_only)\<close> and \<open>record(day, tier, fallback, cost)\<close>.\<close>

locale spend_store =
  fixes spent_since :: "'st \<Rightarrow> int \<Rightarrow> bool \<Rightarrow> usd"
    and put :: "'st \<Rightarrow> int \<Rightarrow> tier \<Rightarrow> bool \<Rightarrow> usd \<Rightarrow> 'st"
    and good :: "'st \<Rightarrow> bool"
  assumes total_put: "spent_since (put st day t fb c) since fo
      = spent_since st since fo + (if since \<le> day \<and> (fo \<longrightarrow> fb) then c else 0)"
    and good_put: "good st \<Longrightarrow> 0 \<le> c \<Longrightarrow> good (put st day t fb c)"
    and total_nonneg: "good st \<Longrightarrow> 0 \<le> spent_since st since fo"
    and total_anti: "good st \<Longrightarrow> since \<le> since' \<Longrightarrow> spent_since st since' fo \<le> spent_since st since fo"

type_synonym spend_rows = "((int \<times> tier \<times> bool) \<times> usd) list"

definition mem_total :: "spend_rows \<Rightarrow> int \<Rightarrow> bool \<Rightarrow> usd" where
  "mem_total rows since fallback_only =
     sum_list (map snd (filter (\<lambda>((day, t, fb), cost). since \<le> day \<and> (\<not> fallback_only \<or> fb)) rows))"

definition mem_record :: "spend_rows \<Rightarrow> int \<Rightarrow> tier \<Rightarrow> bool \<Rightarrow> usd \<Rightarrow> spend_rows" where
  "mem_record rows day t fb cost =
     (let key = (day, t, fb) in
      AList.update key ((case map_of rows key of None \<Rightarrow> 0 | Some c \<Rightarrow> c) + cost) rows)"

definition mem_good :: "spend_rows \<Rightarrow> bool" where
  "mem_good rows \<longleftrightarrow> list_all (\<lambda>(k, c). 0 \<le> c) rows"

lemma mem_total_Cons:
  "mem_total (((day, t, fb), cost) # rows) since fo = (if since \<le> day \<and> (fo \<longrightarrow> fb) then cost else 0) + mem_total rows since fo"
  by (auto simp: mem_total_def)

lemma mem_total_Nil [simp]: "mem_total [] since fo = 0"
  by (simp add: mem_total_def)

lemma mem_total_record:
  "mem_total (mem_record rows day t fb c) since fo = mem_total rows since fo + (if since \<le> day \<and> (fo \<longrightarrow> fb) then c else 0)"
  by (induction rows) (auto simp: mem_record_def Let_def mem_total_Cons split: prod.splits)

lemma mem_good_record: "mem_good rows \<Longrightarrow> 0 \<le> c \<Longrightarrow> mem_good (mem_record rows day t fb c)"
  by (induction rows) (auto simp: mem_good_def mem_record_def Let_def split: option.splits)

lemma mem_total_nonneg: "mem_good rows \<Longrightarrow> 0 \<le> mem_total rows since fo"
  by (induction rows) (auto simp: mem_good_def mem_total_Cons)

lemma mem_total_anti: "mem_good rows \<Longrightarrow> since \<le> since' \<Longrightarrow> mem_total rows since' fo \<le> mem_total rows since fo"
  by (induction rows) (auto simp: mem_good_def mem_total_Cons)

interpretation mem_store: spend_store mem_total mem_record mem_good
  by unfold_locales (rule mem_total_record mem_good_record mem_total_nonneg mem_total_anti; assumption)+

section \<open>The meter\<close>

datatype meter_state = MClosed | MOpen | MHalfOpen

record meter_cfg =
  mc_monthly_cap :: "usd option"
  mc_fallback_cap :: "usd option"
  mc_soft_fraction :: rat
  mc_cooldown :: seconds

record meter =
  mt_state :: meter_state
  mt_opened_at :: seconds

definition new_meter :: meter where
  "new_meter = \<lparr>mt_state = MClosed, mt_opened_at = 0\<rparr>"

definition meter_refresh :: "meter_cfg \<Rightarrow> seconds \<Rightarrow> meter \<Rightarrow> meter" where
  "meter_refresh cfg now m =
     (if mt_state m = MOpen \<and> now - mt_opened_at m \<ge> mc_cooldown cfg then m\<lparr>mt_state := MHalfOpen\<rparr> else m)"

definition meter_open :: "seconds \<Rightarrow> meter \<Rightarrow> meter" where
  "meter_open now m = m\<lparr>mt_state := MOpen, mt_opened_at := now\<rparr>"

definition meter_reset :: "meter \<Rightarrow> meter" where
  "meter_reset m = \<lparr>mt_state = MClosed, mt_opened_at = 0\<rparr>"

definition reaches :: "usd \<Rightarrow> usd option \<Rightarrow> bool" where
  "reaches spent cap = (case cap of None \<Rightarrow> False | Some c \<Rightarrow> spent \<ge> c)"

text \<open>\<open>allow\<close> over the totals the store answers for the last thirty days.\<close>

definition meter_allow :: "meter_cfg \<Rightarrow> seconds \<Rightarrow> usd \<Rightarrow> usd \<Rightarrow> bool \<Rightarrow> meter \<Rightarrow> bool \<times> meter" where
  "meter_allow cfg now spent fb_spent fallback m =
     (let m = meter_refresh cfg now m in
      if mt_state m = MOpen then (False, m)
      else if reaches spent (mc_monthly_cap cfg) then (False, meter_open now m)
      else if fallback \<and> reaches fb_spent (mc_fallback_cap cfg) then (False, meter_open now m)
      else (True, m))"

definition since :: "int \<Rightarrow> int" where
  "since today = today - 30"

definition soft_breach :: "meter_cfg \<Rightarrow> usd \<Rightarrow> bool" where
  "soft_breach cfg spent = reaches spent (map_option (\<lambda>c. c * mc_soft_fraction cfg) (mc_monthly_cap cfg))"

text \<open>When the breaker holds calls back: opened less than the cooldown ago.\<close>

definition cooling :: "meter_cfg \<Rightarrow> seconds \<Rightarrow> meter \<Rightarrow> bool" where
  "cooling cfg now m \<longleftrightarrow> mt_state m = MOpen \<and> now - mt_opened_at m < mc_cooldown cfg"

lemma meter_allow_char:
  "meter_allow cfg now spent fb_spent fallback m = (ok, m') \<Longrightarrow>
      ok = (\<not> cooling cfg now m \<and> \<not> reaches spent (mc_monthly_cap cfg)
            \<and> \<not> (fallback \<and> reaches fb_spent (mc_fallback_cap cfg)))
      \<and> mt_opened_at m' = (if ok \<or> cooling cfg now m then mt_opened_at m else now)
      \<and> (mt_state m' = MOpen) = (\<not> ok)"
  by (auto simp: meter_allow_def meter_refresh_def meter_open_def cooling_def Let_def not_le split: if_splits)

text \<open>
  A call is let through exactly when the breaker is not cooling down and the spend of
  the last thirty days is below the monthly cap (and the fallback spend below its cap, for
  a fallback call); a refusal for spend starts a cooldown now, a refusal while cooling
  does not prolong it.
\<close>

theorem meter_allow_iff:
  "(case meter_allow cfg now spent fb_spent fallback m of (ok, m') \<Rightarrow>
      ok = (\<not> cooling cfg now m \<and> \<not> reaches spent (mc_monthly_cap cfg)
            \<and> \<not> (fallback \<and> reaches fb_spent (mc_fallback_cap cfg)))
      \<and> mt_opened_at m' = (if ok \<or> cooling cfg now m then mt_opened_at m else now)
      \<and> (mt_state m' = MOpen) = (\<not> ok))"
proof (cases "meter_allow cfg now spent fb_spent fallback m")
  case (Pair ok m')
  show ?thesis unfolding Pair prod.case by (rule meter_allow_char [OF Pair])
qed

section \<open>The budget under concurrent calls\<close>

text \<open>
  Callers in flight: each was let through by \<open>allow\<close> and records its cost when it returns,
  or fails and records nothing. \<open>K\<close> bounds the calls in flight, \<open>c\<close> the cost of one call.
\<close>

record 'st budget =
  bg_store :: 'st
  bg_meter :: meter
  bg_inflight :: nat
  bg_today :: int
  bg_now :: seconds

inductive budget_step :: "('st \<Rightarrow> int \<Rightarrow> bool \<Rightarrow> usd) \<Rightarrow> ('st \<Rightarrow> int \<Rightarrow> tier \<Rightarrow> bool \<Rightarrow> usd \<Rightarrow> 'st) \<Rightarrow> meter_cfg
    \<Rightarrow> nat \<Rightarrow> usd \<Rightarrow> 'st budget \<Rightarrow> 'st budget \<Rightarrow> bool" for spent_since put cfg K c where
  admitted: "bg_inflight b < K \<Longrightarrow>
     meter_allow cfg (bg_now b) (spent_since (bg_store b) (since (bg_today b)) False)
       (spent_since (bg_store b) (since (bg_today b)) True) fallback (bg_meter b) = (True, m) \<Longrightarrow>
     budget_step spent_since put cfg K c b (b\<lparr>bg_meter := m, bg_inflight := Suc (bg_inflight b)\<rparr>)"
| denied: "meter_allow cfg (bg_now b) (spent_since (bg_store b) (since (bg_today b)) False)
       (spent_since (bg_store b) (since (bg_today b)) True) fallback (bg_meter b) = (False, m) \<Longrightarrow>
     budget_step spent_since put cfg K c b (b\<lparr>bg_meter := m\<rparr>)"
| returned: "bg_inflight b = Suc n \<Longrightarrow> 0 \<le> cost \<Longrightarrow> cost \<le> c \<Longrightarrow>
     budget_step spent_since put cfg K c b
       (b\<lparr>bg_store := put (bg_store b) (bg_today b) t fb cost, bg_inflight := n\<rparr>)"
| failed: "bg_inflight b = Suc n \<Longrightarrow> budget_step spent_since put cfg K c b (b\<lparr>bg_inflight := n\<rparr>)"
| tick: "bg_today b \<le> day \<Longrightarrow> bg_now b \<le> now \<Longrightarrow>
     budget_step spent_since put cfg K c b (b\<lparr>bg_today := day, bg_now := now\<rparr>)"

inductive_cases budget_stepE: "budget_step spent_since put cfg K c b b'"

context spend_store
begin

definition budget_inv :: "usd \<Rightarrow> nat \<Rightarrow> usd \<Rightarrow> 'st budget \<Rightarrow> bool" where
  "budget_inv cap K c b \<longleftrightarrow> good (bg_store b) \<and> bg_inflight b \<le> K
     \<and> spent_since (bg_store b) (since (bg_today b)) False + of_nat (bg_inflight b) * c \<le> cap + of_nat K * c"

lemma budget_inv_step:
  assumes "budget_step spent_since put cfg K c b b'" and "budget_inv cap K c b"
    and "mc_monthly_cap cfg = Some cap" and "0 \<le> c"
  shows "budget_inv cap K c b'"
  using assms(1)
proof (elim budget_stepE, goal_cases admitted denied returned failed tick)
  case (admitted fallback m)
  have "spent_since (bg_store b) (since (bg_today b)) False < cap"
    using meter_allow_char [OF admitted(3)] assms(3) by (simp add: reaches_def)
  moreover have "of_nat (Suc (bg_inflight b)) * c \<le> of_nat K * c"
    using admitted(2) assms(4) by (intro mult_right_mono) (simp_all add: Suc_leI flip: of_nat_Suc)
  ultimately show ?case using assms(2) admitted by (simp add: budget_inv_def)
next
  case (denied fallback m)
  then show ?case using assms(2) by (simp add: budget_inv_def)
next
  case (returned n cost t fb)
  then show ?case using assms(2,4)
    by (auto simp: budget_inv_def total_put good_put since_def algebra_simps)
next
  case (failed n)
  then show ?case using assms(2,4) by (auto simp: budget_inv_def algebra_simps)
next
  case (tick day now)
  then have "spent_since (bg_store b) (since day) False \<le> spent_since (bg_store b) (since (bg_today b)) False"
    using assms(2) by (intro total_anti) (simp_all add: budget_inv_def since_def)
  then show ?case using assms(2) tick by (simp add: budget_inv_def)
qed

lemma budget_bound:
  assumes "(budget_step spent_since put cfg K c)\<^sup>*\<^sup>* b b'" and "good (bg_store b)" and "bg_inflight b = 0"
    and "spent_since (bg_store b) (since (bg_today b)) False \<le> cap"
    and "mc_monthly_cap cfg = Some cap" and "0 \<le> c"
  shows "spent_since (bg_store b') (since (bg_today b')) False \<le> cap + of_nat K * c"
proof -
  have "budget_inv cap K c b" using assms by (simp add: budget_inv_def add_increasing2)
  with assms(1) have "budget_inv cap K c b'"
    by (induction rule: rtranclp_induct) (use assms(5,6) budget_inv_step in blast)+
  moreover have "0 \<le> of_nat (bg_inflight b') * c" using assms(6) by simp
  ultimately show ?thesis by (simp add: budget_inv_def)
qed

end

text \<open>
  However calls interleave, with at most \<open>K\<close> in flight that cost at most \<open>c\<close> each, the
  spend of any thirty-day window never exceeds the monthly cap by more than \<open>K * c\<close>: the
  calls admitted before the cap was reached and still running.
\<close>

theorem monthly_spend_bounded:
  assumes "(budget_step mem_total mem_record cfg K c)\<^sup>*\<^sup>* b b'" and "bg_store b = []" and "bg_inflight b = 0"
    and "mc_monthly_cap cfg = Some cap" and "0 \<le> cap" and "0 \<le> c"
  shows "mem_total (bg_store b') (since (bg_today b')) False \<le> cap + of_nat K * c"
  by (rule mem_store.budget_bound [OF assms(1)]) (use assms in \<open>simp_all add: mem_good_def\<close>)

definition toy_budget :: "spend_rows \<Rightarrow> nat \<Rightarrow> spend_rows budget" where
  "toy_budget rows n = \<lparr>bg_store = rows, bg_meter = new_meter, bg_inflight = n, bg_today = 100, bg_now = 0\<rparr>"

definition toy_cfg :: meter_cfg where
  "toy_cfg = \<lparr>mc_monthly_cap = Some 10, mc_fallback_cap = None, mc_soft_fraction = 4/5, mc_cooldown = 3600\<rparr>"

text \<open>One call of two dollars within a cap of ten.\<close>

theorem monthly_spend_bounded_witness:
  "(budget_step mem_total mem_record toy_cfg 4 2)\<^sup>*\<^sup>* (toy_budget [] 0) (toy_budget [((100, Pro, False), 2)] 0)
    \<and> mem_total [((100, Pro, False), 2)] (since 100) False \<le> 10 + of_nat 4 * 2"
proof -
  have "budget_step mem_total mem_record toy_cfg 4 2 (toy_budget [] 0) (toy_budget [] 1)"
    using admitted [of "toy_budget [] 0" 4 toy_cfg mem_total False new_meter mem_record 2]
    by (simp add: toy_budget_def meter_allow_def meter_refresh_def new_meter_def reaches_def toy_cfg_def)
  moreover have "budget_step mem_total mem_record toy_cfg 4 2 (toy_budget [] 1) (toy_budget [((100, Pro, False), 2)] 0)"
    using returned [of "toy_budget [] 1" 0 2 2 mem_total mem_record toy_cfg 4 Pro False]
    by (simp add: toy_budget_def mem_record_def)
  ultimately have run: "(budget_step mem_total mem_record toy_cfg 4 2)\<^sup>*\<^sup>* (toy_budget [] 0) (toy_budget [((100, Pro, False), 2)] 0)"
    by (rule rtranclp_two)
  then show ?thesis
    using monthly_spend_bounded [OF run, of 10] by (simp add: toy_budget_def toy_cfg_def)
qed

text \<open>
  Reaching the fallback cap closes the way for the primary provider too: after one
  refused fallback call every call is refused until the cooldown is over, however little of
  the monthly cap is spent.
\<close>

theorem fallback_cap_stops_primary:
  assumes "meter_allow cfg now spent fb_spent True m = (False, m')" and "\<not> cooling cfg now m"
    and "t < now + mc_cooldown cfg"
  shows "fst (meter_allow cfg t spent' fb_spent' False m') = False"
proof -
  have "mt_state m' = MOpen" "mt_opened_at m' = now"
    using meter_allow_char [OF assms(1)] assms(2) by simp_all
  then have "cooling cfg t m'" using assms(3) by (simp add: cooling_def)
  moreover obtain ok m2 where "meter_allow cfg t spent' fb_spent' False m' = (ok, m2)" by fastforce
  ultimately show ?thesis using meter_allow_char by fastforce
qed

theorem fallback_cap_stops_primary_witness:
  "fst (meter_allow (toy_cfg\<lparr>mc_fallback_cap := Some 1\<rparr>) 5 0 0 False \<lparr>mt_state = MOpen, mt_opened_at = 0\<rparr>) = False"
proof -
  have "meter_allow (toy_cfg\<lparr>mc_fallback_cap := Some 1\<rparr>) 0 2 2 True new_meter = (False, \<lparr>mt_state = MOpen, mt_opened_at = 0\<rparr>)"
    by (simp add: meter_allow_def meter_refresh_def meter_open_def new_meter_def reaches_def toy_cfg_def)
  then show ?thesis
    by (rule fallback_cap_stops_primary) (simp_all add: cooling_def new_meter_def toy_cfg_def)
qed

end
