(* ===== verification/LlmLimits.thy ===== *)
theory LlmLimits
  imports Prelude
begin

text \<open>
  How the LLM client throttles itself: the token bucket per (provider, tier) of
  \<^verbatim>\<open>packages/llm-client/llm_client/rate_limiter.py\<close> with its environment overrides, and the
  per-caller semaphores of \<^verbatim>\<open>router.py\<close> (\<open>_CallerConcurrency\<close>). A semaphore is the number of
  its permits in use; an acquire that has to wait is one that has not happened yet. Reading
  a number from an environment value is a parameter.
\<close>

section \<open>Configuration\<close>

record bucket_cfg =
  bc_rps :: rat
  bc_concurrency :: "int option"

type_synonym bucket_key = "string \<times> string"

definition BUILTIN_DEFAULTS :: "(bucket_key, bucket_cfg) dict" where
  "BUILTIN_DEFAULTS =
    [((''deepseek'', ''flash''), \<lparr>bc_rps = 60, bc_concurrency = None\<rparr>),
     ((''deepseek'', ''pro''), \<lparr>bc_rps = 6, bc_concurrency = Some 4\<rparr>),
     ((''deepseek'', ''embed''), \<lparr>bc_rps = 20, bc_concurrency = None\<rparr>),
     ((''anthropic'', ''pro''), \<lparr>bc_rps = 5, bc_concurrency = Some 4\<rparr>),
     ((''groq'', ''flash''), \<lparr>bc_rps = 20, bc_concurrency = None\<rparr>),
     ((''openai'', ''embed''), \<lparr>bc_rps = 20, bc_concurrency = None\<rparr>)]"

definition fallback_cfg :: "(bucket_key, bucket_cfg) dict \<Rightarrow> bucket_key \<Rightarrow> bucket_cfg" where
  "fallback_cfg out key =
     (case map_of out key of Some c \<Rightarrow> c
      | None \<Rightarrow> case map_of BUILTIN_DEFAULTS key of Some c \<Rightarrow> c | None \<Rightarrow> \<lparr>bc_rps = 10, bc_concurrency = None\<rparr>)"

definition env_override :: "(string \<Rightarrow> int option) \<Rightarrow> (string \<Rightarrow> rat option) \<Rightarrow> string \<Rightarrow> string
    \<Rightarrow> (bucket_key, bucket_cfg) dict \<Rightarrow> (bucket_key, bucket_cfg) dict" where
  "env_override to_int to_float raw_key raw_val out =
     (if \<not> starts_with ''IIC_RATE_'' raw_key then out
      else let body = drop 9 raw_key;
               is_conc = ends_with ''_CONC'' body;
               body = (if is_conc then take (length body - 5) body else body) in
        case split_on (CHR ''_'') body of
          [p, t] \<Rightarrow>
            (let key = (lower p, lower t); c = fallback_cfg out key in
             if is_conc then
               (case to_int raw_val of None \<Rightarrow> out
                | Some n \<Rightarrow> AList.update key (c\<lparr>bc_concurrency := (if n > 0 then Some n else None)\<rparr>) out)
             else
               (case to_float raw_val of None \<Rightarrow> out
                | Some r \<Rightarrow> AList.update key (c\<lparr>bc_rps := r\<rparr>) out))
        | _ \<Rightarrow> out)"

definition env_overrides :: "(string \<Rightarrow> int option) \<Rightarrow> (string \<Rightarrow> rat option) \<Rightarrow> (string \<times> string) list
    \<Rightarrow> (bucket_key, bucket_cfg) dict" where
  "env_overrides to_int to_float env = foldl (\<lambda>out (k, v). env_override to_int to_float k v out) [] env"

definition effective_defaults :: "(string \<Rightarrow> int option) \<Rightarrow> (string \<Rightarrow> rat option) \<Rightarrow> (string \<times> string) list
    \<Rightarrow> bucket_key \<Rightarrow> bucket_cfg option" where
  "effective_defaults to_int to_float env =
     map_of BUILTIN_DEFAULTS ++ map_of (env_overrides to_int to_float env)"

section \<open>The bucket\<close>

record bucket =
  bk_rps :: rat
  bk_next_ready :: seconds
  bk_cap :: "int option"
  bk_used :: int

definition new_bucket :: "bucket_cfg \<Rightarrow> bucket" where
  "new_bucket cfg = \<lparr>bk_rps = bc_rps cfg, bk_next_ready = 0,
     bk_cap = (case bc_concurrency cfg of Some n \<Rightarrow> if n = 0 then None else Some n | None \<Rightarrow> None), bk_used = 0\<rparr>"

definition sem_take :: "bucket \<Rightarrow> bucket option" where
  "sem_take b = (case bk_cap b of None \<Rightarrow> Some b
     | Some n \<Rightarrow> if bk_used b < n then Some (b\<lparr>bk_used := bk_used b + 1\<rparr>) else None)"

definition bucket_release :: "bucket \<Rightarrow> bucket" where
  "bucket_release b = (if bk_cap b = None then b else b\<lparr>bk_used := bk_used b - 1\<rparr>)"

datatype acquired = Granted seconds | ZeroDivision | SleepCancelled | MustWait

text \<open>
  \<open>acquire\<close> at time \<open>now\<close>: the semaphore, the reservation of a start time and the sleep up
  to it, which may be cancelled. A reservation stays taken when its sleep is cancelled.
\<close>

definition bucket_acquire :: "seconds \<Rightarrow> bool \<Rightarrow> bucket \<Rightarrow> acquired \<times> bucket" where
  "bucket_acquire now cancelled b =
     (case sem_take b of
        None \<Rightarrow> (MustWait, b)
      | Some b1 \<Rightarrow>
          if bk_rps b1 = 0 then (ZeroDivision, bucket_release b1)
          else let wait = max 0 (bk_next_ready b1 - now);
                   b2 = b1\<lparr>bk_next_ready := max now (bk_next_ready b1) + 1 / bk_rps b1\<rparr> in
            if wait > 0 \<and> cancelled then (SleepCancelled, bucket_release b2)
            else (Granted (now + wait), b2))"

text \<open>A sequence of acquires and releases on one bucket, and the start times granted.\<close>

datatype bucket_op = Acq seconds bool | Rel

fun bucket_run :: "bucket_op list \<Rightarrow> bucket \<Rightarrow> seconds list" where
  "bucket_run [] b = []"
| "bucket_run (Rel # ops) b = bucket_run ops (bucket_release b)"
| "bucket_run (Acq now cancelled # ops) b =
     (case bucket_acquire now cancelled b of
        (Granted t, b') \<Rightarrow> t # bucket_run ops b'
      | (r, b') \<Rightarrow> bucket_run ops b')"

fun spaced :: "seconds \<Rightarrow> seconds \<Rightarrow> seconds list \<Rightarrow> bool" where
  "spaced d lo [] = True"
| "spaced d lo (t # ts) \<longleftrightarrow> lo \<le> t \<and> spaced d (t + d) ts"

lemma spaced_weaken: "spaced d lo ts \<Longrightarrow> lo' \<le> lo \<Longrightarrow> spaced d lo' ts"
  by (cases ts) auto

lemma bucket_fields:
  "bk_next_ready (bucket_release b) = bk_next_ready b" "bk_rps (bucket_release b) = bk_rps b"
  "sem_take b = Some b1 \<Longrightarrow> bk_next_ready b1 = bk_next_ready b \<and> bk_rps b1 = bk_rps b"
  by (auto simp: bucket_release_def sem_take_def split: option.splits if_splits)

lemma bucket_acquire_ready:
  assumes "bucket_acquire now c b = (r, b')" and "0 < bk_rps b"
  shows "bk_rps b' = bk_rps b \<and> bk_next_ready b \<le> bk_next_ready b'
    \<and> (\<forall>t. r = Granted t \<longrightarrow> bk_next_ready b \<le> t \<and> bk_next_ready b' = t + 1 / bk_rps b)"
proof (cases "sem_take b")
  case None
  then show ?thesis using assms by (auto simp: bucket_acquire_def)
next
  case (Some b1)
  define d where "d = 1 / bk_rps b"
  have "0 \<le> d" using assms(2) by (simp add: d_def)
  moreover have "1 / bk_rps b1 = d" using bucket_fields(3) [OF Some] by (simp add: d_def)
  ultimately show ?thesis using assms Some bucket_fields(3) [OF Some]
    by (auto simp: bucket_acquire_def Let_def bucket_fields(1,2) max_def d_def [symmetric] split: if_splits)
qed

lemma bucket_run_spaced:
  "0 < bk_rps b \<Longrightarrow> spaced (1 / bk_rps b) (bk_next_ready b) (bucket_run ops b)"
proof (induction ops b rule: bucket_run.induct)
  case (3 now c ops b)
  obtain r b' where acq: "bucket_acquire now c b = (r, b')" by fastforce
  note ready = bucket_acquire_ready [OF acq "3.prems"]
  show ?case
  proof (cases r)
    case (Granted t)
    then show ?thesis using "3.IH"(1) [OF acq [symmetric] Granted] ready "3.prems" acq by simp
  next
    case ZeroDivision
    then show ?thesis using "3.IH"(2) [OF acq [symmetric] ZeroDivision] ready "3.prems" acq by (auto intro: spaced_weaken)
  next
    case SleepCancelled
    then show ?thesis using "3.IH"(3) [OF acq [symmetric] SleepCancelled] ready "3.prems" acq by (auto intro: spaced_weaken)
  next
    case MustWait
    then show ?thesis using "3.IH"(4) [OF acq [symmetric] MustWait] ready "3.prems" acq by (auto intro: spaced_weaken)
  qed
qed (simp_all add: bucket_fields)

lemma spaced_nth:
  "spaced d lo ts \<Longrightarrow> 0 \<le> d \<Longrightarrow> j < length ts \<Longrightarrow> lo + of_nat j * d \<le> ts ! j"
proof (induction ts arbitrary: lo j)
  case (Cons t ts)
  show ?case
  proof (cases j)
    case (Suc k)
    then have "t + d + of_nat k * d \<le> ts ! k" using Cons by simp
    then show ?thesis using Cons.prems(1) Suc by (simp add: algebra_simps)
  qed (use Cons.prems in simp)
qed simp

lemma spaced_nth2:
  "spaced d lo ts \<Longrightarrow> 0 \<le> d \<Longrightarrow> i \<le> j \<Longrightarrow> j < length ts \<Longrightarrow> ts ! i + of_nat (j - i) * d \<le> ts ! j"
proof (induction ts arbitrary: lo i j)
  case (Cons t ts)
  show ?case
  proof (cases i)
    case 0
    have "spaced d t (t # ts)" using Cons.prems(1) by simp
    from spaced_nth [OF this Cons.prems(2,4)] show ?thesis using 0 by simp
  next
    case (Suc k)
    then obtain l where "j = Suc l" using Cons.prems(3) by (cases j) auto
    then show ?thesis using Cons Suc by auto
  qed
qed simp

text \<open>
  The bucket keeps the configured rate: whatever the order and the times of acquires,
  releases and cancelled waits, the \<open>j\<close>-th start time granted is at least \<open>(j - i) / rps\<close>
  after the \<open>i\<close>-th, so no interval of length \<open>T\<close> sees more than \<open>T * rps + 1\<close> starts.
\<close>

theorem bucket_keeps_rate:
  assumes "0 < bk_rps b" and "i \<le> j" and "j < length (bucket_run ops b)"
  shows "bucket_run ops b ! i + of_nat (j - i) / bk_rps b \<le> bucket_run ops b ! j"
  using spaced_nth2 [OF bucket_run_spaced [OF assms(1)] _ assms(2,3)] assms(1) by simp

theorem bucket_keeps_rate_witness:
  "bucket_run [Acq 1 False, Acq 1 False, Rel] (new_bucket \<lparr>bc_rps = 5, bc_concurrency = Some 4\<rparr>) ! 0 + 1 / 5
    \<le> bucket_run [Acq 1 False, Acq 1 False, Rel] (new_bucket \<lparr>bc_rps = 5, bc_concurrency = Some 4\<rparr>) ! 1"
proof -
  let ?b = "new_bucket \<lparr>bc_rps = 5, bc_concurrency = Some 4\<rparr>"
  have "length (bucket_run [Acq 1 False, Acq 1 False, Rel] ?b) = 2"
    by (simp add: new_bucket_def bucket_acquire_def sem_take_def Let_def)
  moreover have "bk_rps ?b = 5" by (simp add: new_bucket_def)
  ultimately show ?thesis using bucket_keeps_rate [of ?b 0 1 "[Acq 1 False, Acq 1 False, Rel]"] by simp
qed

text \<open>A rate of zero, which the environment may set, makes every acquire raise.\<close>

lemma zero_rate_always_raises:
  "bk_rps b = 0 \<Longrightarrow> fst (bucket_acquire now c b) \<in> {ZeroDivision, MustWait}"
  using bucket_fields(3) [of b] by (auto simp: bucket_acquire_def split: option.splits)

lemma env_zero_rate:
  "map_of (env_overrides to_int to_float [(''IIC_RATE_DEEPSEEK_PRO'', v)]) (''deepseek'', ''pro'')
     = (if to_float v = None then None else Some \<lparr>bc_rps = the (to_float v), bc_concurrency = Some 4\<rparr>)"
proof -
  have "starts_with ''IIC_RATE_'' ''IIC_RATE_DEEPSEEK_PRO''" and "\<not> ends_with ''_CONC'' ''DEEPSEEK_PRO''"
    and "split_on (CHR ''_'') ''DEEPSEEK_PRO'' = [''DEEPSEEK'', ''PRO'']"
    and "lower ''DEEPSEEK'' = ''deepseek''" and "lower ''PRO'' = ''pro''"
    by code_simp+
  then show ?thesis
    by (auto simp: env_overrides_def env_override_def Let_def fallback_cfg_def BUILTIN_DEFAULTS_def split: option.splits)
qed

section \<open>Per-caller concurrency\<close>

text \<open>
  \<open>_sems\<close>: the current semaphore of each caller with the cap it was made for; every
  semaphore ever made keeps its permits in use, since a call releases the one it acquired.
\<close>

record conc =
  cc_sems :: "string \<Rightarrow> (int \<times> nat) option"
  cc_used :: "nat \<Rightarrow> int"
  cc_next :: nat

definition new_conc :: conc where
  "new_conc = \<lparr>cc_sems = (\<lambda>c. None), cc_used = (\<lambda>i. 0), cc_next = 0\<rparr>"

definition concurrency_cap :: "(string \<Rightarrow> int) \<Rightarrow> string \<Rightarrow> int" where
  "concurrency_cap flag_value caller_id =
     (let specific = flag_value (''llm.concurrency.'' @ caller_id);
          dflt = flag_value ''llm.concurrency.default'' in
      if specific > 0 then specific else if dflt > 0 then dflt else 4)"

definition conc_select :: "string \<Rightarrow> int \<Rightarrow> conc \<Rightarrow> nat \<times> conc" where
  "conc_select caller cap st =
     (case cc_sems st caller of
        Some (cap0, i) \<Rightarrow>
          if cap0 \<noteq> cap then (cc_next st, st\<lparr>cc_sems := (cc_sems st)(caller \<mapsto> (cap, cc_next st)), cc_next := Suc (cc_next st)\<rparr>)
          else (i, st)
      | None \<Rightarrow> (cc_next st, st\<lparr>cc_sems := (cc_sems st)(caller \<mapsto> (cap, cc_next st)), cc_next := Suc (cc_next st)\<rparr>))"

definition conc_acquire :: "string \<Rightarrow> int \<Rightarrow> conc \<Rightarrow> nat option \<times> conc" where
  "conc_acquire caller cap st =
     (let (i, st) = conc_select caller cap st in
      if cc_used st i < cap then (Some i, st\<lparr>cc_used := (cc_used st)(i := cc_used st i + 1)\<rparr>) else (None, st))"

definition conc_release :: "nat \<Rightarrow> conc \<Rightarrow> conc" where
  "conc_release i st = st\<lparr>cc_used := (cc_used st)(i := cc_used st i - 1)\<rparr>"

text \<open>Calls in flight: the caller and the semaphore each of them holds.\<close>

inductive conc_step :: "(string \<Rightarrow> int) \<Rightarrow> conc \<times> (string \<times> nat) list \<Rightarrow> conc \<times> (string \<times> nat) list \<Rightarrow> bool" for cap where
  enter: "conc_acquire caller (cap caller) st = (Some i, st') \<Longrightarrow> conc_step cap (st, fl) (st', (caller, i) # fl)"
| queued: "conc_acquire caller (cap caller) st = (None, st') \<Longrightarrow> conc_step cap (st, fl) (st', fl)"
| leave: "(caller, i) \<in> set fl \<Longrightarrow> conc_step cap (st, fl) (conc_release i st, remove1 (caller, i) fl)"

definition inflight :: "(string \<times> nat) list \<Rightarrow> string \<Rightarrow> nat" where
  "inflight fl caller = length (filter (\<lambda>(c, i). c = caller) fl)"

definition conc_inv :: "(string \<Rightarrow> int) \<Rightarrow> conc \<times> (string \<times> nat) list \<Rightarrow> bool" where
  "conc_inv cap s \<longleftrightarrow> (case s of (st, fl) \<Rightarrow>
     (\<forall>c k i. cc_sems st c = Some (k, i) \<longrightarrow> k = cap c \<and> i < cc_next st)
     \<and> (\<forall>c c' k k' i. cc_sems st c = Some (k, i) \<and> cc_sems st c' = Some (k', i) \<longrightarrow> c = c')
     \<and> (\<forall>(c, i) \<in> set fl. \<exists>k. cc_sems st c = Some (k, i))
     \<and> (\<forall>i. cc_used st i = int (length (filter (\<lambda>(c, j). j = i) fl)))
     \<and> (\<forall>c k i. cc_sems st c = Some (k, i) \<longrightarrow> cc_used st i \<le> max 0 (cap c)))"

lemma conc_invD:
  assumes "conc_inv cap (st, fl)"
  shows "cc_sems st c = Some (k, i) \<Longrightarrow> k = cap c \<and> i < cc_next st"
    and "cc_sems st c = Some (k, i) \<Longrightarrow> cc_sems st c' = Some (k', i) \<Longrightarrow> c = c'"
    and "(c, i) \<in> set fl \<Longrightarrow> \<exists>k. cc_sems st c = Some (k, i)"
    and "cc_used st i = int (length (filter (\<lambda>(c, j). j = i) fl))"
    and "cc_sems st c = Some (k, i) \<Longrightarrow> cc_used st i \<le> max 0 (cap c)"
  using assms unfolding conc_inv_def prod.case by blast+

lemma conc_select_cases:
  assumes "conc_select caller k st = (i, st')" and "\<And>k' i. cc_sems st caller = Some (k', i) \<Longrightarrow> k' = k"
  shows "cc_sems st caller = Some (k, i) \<and> st' = st
    \<or> cc_sems st caller = None \<and> i = cc_next st
      \<and> st' = st\<lparr>cc_sems := (cc_sems st)(caller \<mapsto> (k, i)), cc_next := Suc i\<rparr>"
  using assms by (auto simp: conc_select_def split: option.splits prod.splits if_splits)

lemma count_remove1:
  "(c, i) \<in> set fl \<Longrightarrow> int (length (filter (\<lambda>(d, j). j = k) (remove1 (c, i) fl)))
     = int (length (filter (\<lambda>(d, j). j = k) fl)) - (if k = i then 1 else 0)"
proof (induction fl)
  case (Cons x fl)
  then show ?case by (cases x) (auto split: if_splits)
qed simp

text \<open>Selecting a semaphore keeps the invariant: a new one is fresh and unused.\<close>

lemma conc_inv_select:
  assumes "conc_inv cap (st, fl)" and "conc_select caller (cap caller) st = (i, st')"
  shows "conc_inv cap (st', fl) \<and> cc_sems st' caller = Some (cap caller, i)"
proof -
  have sems: "\<And>k i. cc_sems st caller = Some (k, i) \<Longrightarrow> k = cap caller"
    using assms(1) by (auto simp: conc_inv_def)
  consider "cc_sems st caller = Some (cap caller, i)" "st' = st"
    | "cc_sems st caller = None" "i = cc_next st" "st' = st\<lparr>cc_sems := (cc_sems st)(caller \<mapsto> (cap caller, i)), cc_next := Suc i\<rparr>"
    by (rule disjE [OF conc_select_cases [OF assms(2) sems]]) auto
  then show ?thesis
  proof cases
    case 1
    then show ?thesis using assms(1) by simp
  next
    case 2
    have fresh: "cc_sems st c \<noteq> Some (k, cc_next st)" for c k
      using conc_invD(1) [OF assms(1), of c k "cc_next st"] by auto
    have "filter (\<lambda>(c, j). j = cc_next st) fl = []"
      using conc_invD(3) [OF assms(1)] fresh by (fastforce simp: filter_empty_conv)
    then have unused: "cc_used st (cc_next st) = 0" using conc_invD(4) [OF assms(1)] by simp
    have sems: "cc_sems st' c = (if c = caller then Some (cap caller, i) else cc_sems st c)" for c
      by (simp add: 2(3))
    have rest: "cc_used st' = cc_used st" "cc_next st' = Suc (cc_next st)" using 2 by simp_all
    have "conc_inv cap (st', fl)" unfolding conc_inv_def prod.case rest
    proof (intro conjI)
      show "\<forall>c k j. cc_sems st' c = Some (k, j) \<longrightarrow> k = cap c \<and> j < Suc (cc_next st)"
        using conc_invD(1) [OF assms(1)] 2(2) by (auto simp: sems less_Suc_eq split: if_splits)
      show "\<forall>c c' k k' j. cc_sems st' c = Some (k, j) \<and> cc_sems st' c' = Some (k', j) \<longrightarrow> c = c'"
        using conc_invD(2) [OF assms(1)] fresh 2(2) by (auto simp: sems split: if_splits)
      show "\<forall>(c, j) \<in> set fl. \<exists>k. cc_sems st' c = Some (k, j)"
        using conc_invD(3) [OF assms(1)] 2(1) by (fastforce simp: sems)
      show "\<forall>j. cc_used st j = int (length (filter (\<lambda>(c, k). k = j) fl))"
        using conc_invD(4) [OF assms(1)] by blast
      show "\<forall>c k j. cc_sems st' c = Some (k, j) \<longrightarrow> cc_used st j \<le> max 0 (cap c)"
        using conc_invD(5) [OF assms(1)] unused 2(2) by (auto simp: sems split: if_splits)
    qed
    then show ?thesis by (simp add: sems)
  qed
qed

lemma conc_step_inv: "conc_step cap s s' \<Longrightarrow> conc_inv cap s \<Longrightarrow> conc_inv cap s'"
proof (induction rule: conc_step.induct)
  case (enter caller st i st' fl)
  obtain st1 where sel: "conc_select caller (cap caller) st = (i, st1)" and lt: "cc_used st1 i < cap caller"
      and st': "st' = st1\<lparr>cc_used := (cc_used st1)(i := cc_used st1 i + 1)\<rparr>"
    using enter.hyps by (auto simp: conc_acquire_def split: prod.splits if_splits)
  have inv: "conc_inv cap (st1, fl)" "cc_sems st1 caller = Some (cap caller, i)"
    using conc_inv_select [OF enter.prems sel] by simp_all
  have sems: "cc_sems st' = cc_sems st1" "cc_next st' = cc_next st1" by (simp_all add: st')
  have own: "cc_sems st1 c = Some (k, i) \<Longrightarrow> c = caller" for c k by (rule conc_invD(2) [OF inv(1) _ inv(2)])
  show ?case unfolding conc_inv_def prod.case sems
  proof (intro conjI)
    show "\<forall>c k j. cc_sems st1 c = Some (k, j) \<longrightarrow> cc_used st' j \<le> max 0 (cap c)"
    proof (intro allI impI)
      fix c k j assume c: "cc_sems st1 c = Some (k, j)"
      show "cc_used st' j \<le> max 0 (cap c)"
      proof (cases "j = i")
        case True
        then have "c = caller" using own c by blast
        then show ?thesis using True lt by (simp add: st')
      next
        case False
        then show ?thesis using conc_invD(5) [OF inv(1) c] by (simp add: st')
      qed
    qed
    show "\<forall>j. cc_used st' j = int (length (filter (\<lambda>(c, k). k = j) ((caller, i) # fl)))"
      using conc_invD(4) [OF inv(1)] by (simp add: st')
    show "\<forall>(c, j) \<in> set ((caller, i) # fl). \<exists>k. cc_sems st1 c = Some (k, j)"
      using inv conc_invD(3) [OF inv(1)] by auto
  qed (use conc_invD(1,2) [OF inv(1)] in blast)+
next
  case (queued caller st st' fl)
  then obtain i where "conc_select caller (cap caller) st = (i, st')"
    by (auto simp: conc_acquire_def split: prod.splits if_splits)
  then show ?case using conc_inv_select [OF queued.prems] by blast
next
  case (leave caller i fl st)
  have sub: "x \<in> set (remove1 (caller, i) fl) \<Longrightarrow> x \<in> set fl" for x using set_remove1_subset [of "(caller, i)" fl] by blast
  have used: "cc_used st j = int (length (filter (\<lambda>(c, k). k = j) fl))" for j
    by (rule conc_invD(4) [OF leave.prems])
  have sems: "cc_sems (conc_release i st) = cc_sems st" "cc_next (conc_release i st) = cc_next st"
    by (simp_all add: conc_release_def)
  have dec: "cc_used (conc_release i st) j \<le> cc_used st j" for j by (simp add: conc_release_def)
  show ?case unfolding conc_inv_def prod.case
  proof (intro conjI)
    show "\<forall>j. cc_used (conc_release i st) j = int (length (filter (\<lambda>(c, k). k = j) (remove1 (caller, i) fl)))"
      using leave.hyps by (simp add: conc_release_def used count_remove1)
    show "\<forall>c k j. cc_sems (conc_release i st) c = Some (k, j) \<longrightarrow> cc_used (conc_release i st) j \<le> max 0 (cap c)"
      unfolding sems using conc_invD(5) [OF leave.prems] dec order_trans by blast
    show "\<forall>(c, j) \<in> set (remove1 (caller, i) fl). \<exists>k. cc_sems (conc_release i st) c = Some (k, j)"
      unfolding sems using conc_invD(3) [OF leave.prems] sub by blast
    show "\<forall>c k j. cc_sems (conc_release i st) c = Some (k, j) \<longrightarrow> k = cap c \<and> j < cc_next (conc_release i st)"
      unfolding sems using conc_invD(1) [OF leave.prems] by blast
    show "\<forall>c c' k k' j. cc_sems (conc_release i st) c = Some (k, j) \<and> cc_sems (conc_release i st) c' = Some (k', j) \<longrightarrow> c = c'"
      unfolding sems by (intro allI impI, elim conjE) (rule conc_invD(2) [OF leave.prems])
  qed
qed

lemma inflight_used:
  assumes "conc_inv cap (st, fl)"
  shows "int (inflight fl caller) \<le> max 0 (cap caller)"
proof (cases "cc_sems st caller")
  case None
  then have "filter (\<lambda>(c, i). c = caller) fl = []"
    using conc_invD(3) [OF assms] by (fastforce simp: filter_empty_conv)
  then show ?thesis by (simp add: inflight_def)
next
  case (Some ki)
  then obtain k i where ki: "cc_sems st caller = Some (k, i)" by (cases ki) auto
  have "filter (\<lambda>(c, j). c = caller) fl = filter (\<lambda>(c, j). j = i) fl"
  proof (rule filter_cong)
    fix x assume x: "x \<in> set fl"
    obtain c j where cj: "x = (c, j)" by fastforce
    then obtain k' where k': "cc_sems st c = Some (k', j)" using conc_invD(3) [OF assms] x by blast
    have "c = caller \<Longrightarrow> j = i" using k' ki by simp
    moreover have "j = i \<Longrightarrow> c = caller" using conc_invD(2) [OF assms, of c k' i caller k] k' ki by simp
    ultimately show "(case x of (c, j) \<Rightarrow> c = caller) = (case x of (c, j) \<Rightarrow> j = i)"
      unfolding cj prod.case by blast
  qed simp
  then have "int (inflight fl caller) = cc_used st i" using conc_invD(4) [OF assms] by (simp add: inflight_def)
  then show ?thesis using conc_invD(5) [OF assms ki] by simp
qed

text \<open>
  While a caller's cap stays the same, it never has more calls in flight than the cap,
  in any interleaving of acquires and releases of all callers.
\<close>

theorem caller_concurrency_capped:
  assumes "(conc_step cap)\<^sup>*\<^sup>* (new_conc, []) (st, fl)"
  shows "int (inflight fl caller) \<le> max 0 (cap caller)"
proof -
  have "conc_inv cap (new_conc, [])" by (simp add: conc_inv_def new_conc_def)
  with assms have "conc_inv cap (st, fl)" by (induction rule: rtranclp_induct) (auto intro: conc_step_inv)
  then show ?thesis by (rule inflight_used)
qed

theorem caller_concurrency_capped_witness:
  "\<exists>st. (conc_step (\<lambda>c. 4))\<^sup>*\<^sup>* (new_conc, []) (st, [(''board.chair'', 0)]) \<and> int (inflight [(''board.chair'', 0)] ''board.chair'') \<le> max 0 4"
proof -
  obtain st where "conc_acquire ''board.chair'' 4 new_conc = (Some 0, st)"
    by (simp add: conc_acquire_def conc_select_def new_conc_def)
  then have "conc_step (\<lambda>c. 4) (new_conc, []) (st, [(''board.chair'', 0)])" by (rule enter)
  then have run: "(conc_step (\<lambda>c. 4))\<^sup>*\<^sup>* (new_conc, []) (st, [(''board.chair'', 0)])" by (rule r_into_rtranclp)
  then show ?thesis using caller_concurrency_capped [OF run, of "''board.chair''"] by blast
qed

text \<open>
  A changed cap starts a new semaphore beside the old one: with one call of cap 1 in flight,
  a cap of 2 lets two more in at once.
\<close>

lemma cap_change_adds_permits:
  "\<exists>st1 st2 st3. conc_acquire c 1 new_conc = (Some 0, st1) \<and> conc_acquire c 2 st1 = (Some 1, st2)
     \<and> conc_acquire c 2 st2 = (Some 1, st3)"
  by (simp add: conc_acquire_def conc_select_def new_conc_def)

end
