(* ===== verification/LlmRouter.thy ===== *)
theory LlmRouter
  imports CostMeter LlmLimits
begin

text \<open>
  \<open>LlmRouter\<close> (\<^verbatim>\<open>packages/llm-client/llm_client/router.py\<close>) with the prompt cache (\<^verbatim>\<open>cache.py\<close>),
  the fallback chain (\<^verbatim>\<open>fallback.py\<close>) and the rows telemetry receives (\<^verbatim>\<open>telemetry.py\<close>). A call
  runs to its end in one step; how each await of the environment ends (acquiring a permit,
  the primary provider, the fallback provider), cancellation included, is given by a script.
  The cost of waiting is in \<^verbatim>\<open>LlmLimits\<close>.
\<close>

section \<open>State and script\<close>

text \<open>An await that returns a value, raises, or is cancelled.\<close>

datatype 'a await = Done 'a | Err llm_error | Cancelled

datatype call_outcome = OutOk | OutError | OutTimeout | OutRateLimit | OutSkipped

record tele_row =
  tl_caller_id :: string
  tl_outcome :: call_outcome
  tl_error :: "string option"
  tl_response :: "chat_response option"

type_synonym cache_store = "string \<times> tier \<times> message list \<Rightarrow> chat_response option"

record router =
  rt_meter :: meter
  rt_spend :: spend_rows
  rt_cache :: cache_store
  rt_tele :: "tele_row list"
  rt_callers :: "string \<Rightarrow> nat"
  rt_slots :: "string \<times> tier \<Rightarrow> nat"

text \<open>How the router was built: its provider's name, its caps, and which parts are present.\<close>

record router_cfg =
  rc_primary_name :: string
  rc_meter :: meter_cfg
  rc_has_cache :: bool
  rc_pro_fallback :: bool
  rc_flash_fallback :: bool

record script =
  sc_signals :: signals
  sc_today :: int
  sc_now :: seconds
  sc_caller_permit :: "unit await"
  sc_rate_permit :: "unit await"
  sc_primary :: "chat_response await"
  sc_fallback_now :: seconds
  sc_fallback :: "chat_response await"

fun error_text :: "llm_error \<Rightarrow> string" where
  "error_text (CostBudgetExceeded m) = m"
| "error_text (ProviderTimeout m) = m"
| "error_text (ProviderError m) = m"
| "error_text (DeepSeekDown m) = m"
| "error_text (NoLLMAvailable m) = m"
| "error_text (UnknownCallerId m) = m"
| "error_text (OtherError e) = ''''"

text \<open>\<open>type(exc).__name__\<close>; the messages of Python's own exceptions are not modelled.\<close>

fun type_name :: "llm_error \<Rightarrow> string" where
  "type_name (CostBudgetExceeded m) = ''CostBudgetExceeded''"
| "type_name (ProviderTimeout m) = ''ProviderTimeout''"
| "type_name (ProviderError m) = ''ProviderError''"
| "type_name (DeepSeekDown m) = ''DeepSeekDown''"
| "type_name (NoLLMAvailable m) = ''NoLLMAvailable''"
| "type_name (UnknownCallerId m) = ''UnknownCallerId''"
| "type_name (OtherError e) = (case e of KeyError k \<Rightarrow> ''KeyError'' | ValueError m \<Rightarrow> ''ValueError''
     | TypeError \<Rightarrow> ''TypeError'' | AttributeError \<Rightarrow> ''AttributeError'' | OtherExn n \<Rightarrow> n)"

fun tier_text :: "tier \<Rightarrow> string" where
  "tier_text Flash = ''flash''"
| "tier_text Pro = ''pro''"
| "tier_text Embed = ''embed''"

section \<open>Pieces of a call\<close>

definition fire_and_forget :: "string \<Rightarrow> chat_response option \<Rightarrow> call_outcome \<Rightarrow> string option \<Rightarrow> router \<Rightarrow> router" where
  "fire_and_forget caller_id response outcome error s =
     s\<lparr>rt_tele := rt_tele s @ [\<lparr>tl_caller_id = caller_id, tl_outcome = outcome, tl_error = error, tl_response = response\<rparr>]\<rparr>"

text \<open>\<open>PromptCache.get\<close>: a stored response comes back marked cached and free.\<close>

definition cache_get :: "string \<Rightarrow> tier \<Rightarrow> message list \<Rightarrow> router \<Rightarrow> chat_response option" where
  "cache_get caller_id t ms s =
     map_option (\<lambda>r. r\<lparr>lr_cached := True, lr_cost_usd := 0\<rparr>) (rt_cache s (caller_id, t, ms))"

definition cache_set :: "string \<Rightarrow> tier \<Rightarrow> message list \<Rightarrow> chat_response \<Rightarrow> router \<Rightarrow> router" where
  "cache_set caller_id t ms r s = s\<lparr>rt_cache := (rt_cache s)((caller_id, t, ms) \<mapsto> r)\<rparr>"

definition allow :: "router_cfg \<Rightarrow> seconds \<Rightarrow> int \<Rightarrow> bool \<Rightarrow> router \<Rightarrow> bool \<times> router" where
  "allow rc now today fallback s =
     (let (ok, m) = meter_allow (rc_meter rc) now (mem_total (rt_spend s) (since today) False)
                      (mem_total (rt_spend s) (since today) True) fallback (rt_meter s)
      in (ok, s\<lparr>rt_meter := m\<rparr>))"

definition meter_record :: "int \<Rightarrow> chat_response \<Rightarrow> router \<Rightarrow> router" where
  "meter_record today r s =
     s\<lparr>rt_spend := mem_record (rt_spend s) today (lr_tier r) (lr_fallback_used r) (lr_cost_usd r)\<rparr>"

text \<open>\<open>FallbackChain.chat\<close>.\<close>

definition adapter_for :: "router_cfg \<Rightarrow> tier \<Rightarrow> bool" where
  "adapter_for rc t = (case t of Pro \<Rightarrow> rc_pro_fallback rc | Flash \<Rightarrow> rc_flash_fallback rc | Embed \<Rightarrow> False)"

definition fallback_chat :: "router_cfg \<Rightarrow> tier \<Rightarrow> script \<Rightarrow> string \<Rightarrow> chat_response await" where
  "fallback_chat rc t sc primary_error =
     (if \<not> adapter_for rc t then Err (NoLLMAvailable (''no fallback configured for tier='' @ tier_text t @ ''; primary error: '' @ primary_error))
      else case sc_fallback sc of
          Err e \<Rightarrow> if is_provider_error e \<or> (\<exists>m. e = ProviderTimeout m)
                   then Err (NoLLMAvailable (''primary + fallback both down: primary='' @ primary_error @ ''; fallback='' @ error_text e))
                   else Err e
        | r \<Rightarrow> r)"

definition take_slot :: "(string \<times> tier) \<Rightarrow> router \<Rightarrow> router" where
  "take_slot k s = s\<lparr>rt_slots := (rt_slots s)(k := rt_slots s k + 1)\<rparr>"

definition drop_slot :: "(string \<times> tier) \<Rightarrow> router \<Rightarrow> router" where
  "drop_slot k s = s\<lparr>rt_slots := (rt_slots s)(k := rt_slots s k - 1)\<rparr>"

definition take_caller :: "string \<Rightarrow> router \<Rightarrow> router" where
  "take_caller c s = s\<lparr>rt_callers := (rt_callers s)(c := rt_callers s c + 1)\<rparr>"

definition drop_caller :: "string \<Rightarrow> router \<Rightarrow> router" where
  "drop_caller c s = s\<lparr>rt_callers := (rt_callers s)(c := rt_callers s c - 1)\<rparr>"

text \<open>The primary attempt and, when it is down or too slow, the fallback.\<close>

definition attempt :: "router_cfg \<Rightarrow> string \<Rightarrow> tier \<Rightarrow> script \<Rightarrow> router \<Rightarrow> chat_response await \<times> router" where
  "attempt rc caller_id t sc s =
     (case sc_primary sc of
        Err e \<Rightarrow>
          (if fails_over e then
             (let (ok, s) = allow rc (sc_fallback_now sc) (sc_today sc) True s in
              if \<not> ok then
                (Err (CostBudgetExceeded ''fallback cap exceeded while DeepSeek is down''),
                 fire_and_forget caller_id None OutRateLimit (Some ''fallback_cap_exceeded'') s)
              else (fallback_chat rc t sc (error_text e), s))
           else (Err e, s))
      | r \<Rightarrow> (r, s))"

text \<open>The rate limit around the attempt, with its \<open>finally\<close>.\<close>

definition limited_attempt :: "router_cfg \<Rightarrow> string \<Rightarrow> tier \<Rightarrow> script \<Rightarrow> router \<Rightarrow> chat_response await \<times> router" where
  "limited_attempt rc caller_id t sc s =
     (case sc_rate_permit sc of
        Err e \<Rightarrow> (Err e, s)
      | Cancelled \<Rightarrow> (Cancelled, s)
      | Done u \<Rightarrow>
          (let k = (rc_primary_name rc, t); (r, s) = attempt rc caller_id t sc (take_slot k s) in (r, drop_slot k s)))"

definition or_text :: "string \<Rightarrow> string \<Rightarrow> string" where
  "or_text m dflt = (if m = '''' then dflt else m)"

text \<open>The telemetry of a failed call, by the except clauses in their order.\<close>

definition observe_error :: "string \<Rightarrow> llm_error \<Rightarrow> router \<Rightarrow> router" where
  "observe_error caller_id e s =
     (case e of
        ProviderTimeout m \<Rightarrow> fire_and_forget caller_id None OutTimeout (Some (or_text m ''provider_timeout'')) s
      | ProviderError m \<Rightarrow> fire_and_forget caller_id None OutError (Some (or_text m ''provider_error'')) s
      | DeepSeekDown m \<Rightarrow> fire_and_forget caller_id None OutError (Some (or_text m ''provider_error'')) s
      | CostBudgetExceeded m \<Rightarrow> s
      | _ \<Rightarrow> fire_and_forget caller_id None OutError (Some (type_name e @ '': '' @ error_text e)) s)"

definition guarded_attempt :: "router_cfg \<Rightarrow> string \<Rightarrow> tier \<Rightarrow> script \<Rightarrow> router \<Rightarrow> chat_response await \<times> router" where
  "guarded_attempt rc caller_id t sc s =
     (case sc_caller_permit sc of
        Err e \<Rightarrow> (Err e, s)
      | Cancelled \<Rightarrow> (Cancelled, s)
      | Done u \<Rightarrow>
          (case limited_attempt rc caller_id t sc (take_caller caller_id s) of
             (Err e, s) \<Rightarrow> (Err e, drop_caller caller_id (observe_error caller_id e s))
           | (r, s) \<Rightarrow> (r, drop_caller caller_id s)))"

section \<open>chat\<close>

definition pick_tier :: "string \<Rightarrow> tier option \<Rightarrow> signals \<Rightarrow> llm_error + tier" where
  "pick_tier caller_id force_tier signals =
     (case force_tier of Some t \<Rightarrow> Inr t | None \<Rightarrow> resolve_tier caller_id signals)"

definition use_cache :: "router_cfg \<Rightarrow> caller_spec \<Rightarrow> tier option \<Rightarrow> bool" where
  "use_cache rc sp force_tier \<longleftrightarrow> rc_has_cache rc \<and> cs_cache_eligible sp \<and> force_tier = None"

definition chat :: "router_cfg \<Rightarrow> string \<Rightarrow> message list \<Rightarrow> tier option \<Rightarrow> script \<Rightarrow> router \<Rightarrow> chat_response await \<times> router" where
  "chat rc caller_id ms force_tier sc s =
     (case llm_lookup caller_id of Inl e \<Rightarrow> (Err e, s) | Inr sp \<Rightarrow>
     (case pick_tier caller_id force_tier (sc_signals sc) of Inl e \<Rightarrow> (Err e, s) | Inr t \<Rightarrow>
     (case (if use_cache rc sp force_tier then cache_get caller_id t ms s else None) of
        Some hit \<Rightarrow> (Done hit, fire_and_forget caller_id (Some hit) OutOk None s)
      | None \<Rightarrow>
          (let (ok, s) = allow rc (sc_now sc) (sc_today sc) False s in
           if \<not> ok then
             (Err (CostBudgetExceeded ''monthly LLM budget exceeded; circuit breaker is OPEN''),
              fire_and_forget caller_id None OutRateLimit (Some ''cost_breaker_open'') s)
           else case guarded_attempt rc caller_id t sc s of
               (Done r, s) \<Rightarrow>
                 (let s = fire_and_forget caller_id (Some r) OutOk None (meter_record (sc_today sc) r s);
                      s = (if use_cache rc sp force_tier then cache_set caller_id t ms r s else s)
                  in (Done r, s))
             | (r, s) \<Rightarrow> (r, s)))))"

section \<open>chat_or_skip, embed\<close>

definition synthetic_skip_response :: "tier \<Rightarrow> string \<Rightarrow> string \<Rightarrow> chat_response" where
  "synthetic_skip_response t reason rid =
     \<lparr>lr_text = ''[cost-breaker open: synthetic skip]'', lr_model = ''synthetic-skip:'' @ reason, lr_tier = t,
      lr_prompt_tokens = 0, lr_completion_tokens = 0, lr_cost_usd = 0, lr_cached = False,
      lr_fallback_used = False, lr_cost_skipped = True, lr_request_id = ''skip-'' @ rid, lr_latency_ms = 0\<rparr>"

text \<open>
  \<open>deadline\<close>: a cancellation inside the inner call is the drain deadline's, not the caller's.
  The breaker's own check reads the clock at \<open>now0\<close>.
\<close>

definition chat_or_skip :: "bool \<Rightarrow> bool \<Rightarrow> seconds \<Rightarrow> string \<Rightarrow> router_cfg \<Rightarrow> string \<Rightarrow> message list \<Rightarrow> tier option
    \<Rightarrow> script \<Rightarrow> router \<Rightarrow> chat_response await \<times> router" where
  "chat_or_skip breaker_enabled deadline now0 rid rc caller_id ms force_tier sc s =
     (let t = (case force_tier of Some t \<Rightarrow> t | None \<Rightarrow> Flash) in
      if \<not> breaker_enabled then chat rc caller_id ms force_tier sc s
      else
        (let (ok, s) = allow rc now0 (sc_today sc) False s in
         if \<not> ok then
           (Done (synthetic_skip_response t ''cost_breaker_open'' rid),
            fire_and_forget caller_id None OutRateLimit (Some ''cost_breaker_open'') s)
         else case chat rc caller_id ms force_tier sc s of
             (Err (CostBudgetExceeded m), s) \<Rightarrow>
               (let skip = synthetic_skip_response t ''cost_breaker_open'' rid in
                (Done skip, fire_and_forget caller_id (Some skip) OutSkipped (Some ''cost_breaker_open'') s))
           | (Cancelled, s) \<Rightarrow>
               (if deadline then
                  (let skip = synthetic_skip_response t ''drain_deadline'' rid in
                   (Done skip, fire_and_forget caller_id (Some skip) OutSkipped (Some ''drain_deadline'') s))
                else (Cancelled, s))
           | (r, s) \<Rightarrow> (r, s)))"

definition embed :: "router_cfg \<Rightarrow> string \<Rightarrow> script \<Rightarrow> embed_response await \<Rightarrow> router \<Rightarrow> embed_response await \<times> router" where
  "embed rc caller_id sc primary_embed s =
     (case llm_lookup caller_id of Inl e \<Rightarrow> (Err e, s) | Inr sp \<Rightarrow>
      if cs_default_tier sp \<noteq> Embed
      then (Err (ProviderError (''caller_id='' @ caller_id @ '' is not registered as an embed caller'')), s)
      else let (ok, s) = allow rc (sc_now sc) (sc_today sc) False s in
        if \<not> ok then (Err (CostBudgetExceeded ''monthly LLM budget exceeded; circuit breaker is OPEN''), s)
        else case sc_rate_permit sc of
            Err e \<Rightarrow> (Err e, s)
          | Cancelled \<Rightarrow> (Cancelled, s)
          | Done u \<Rightarrow> (primary_embed, drop_slot (rc_primary_name rc, Embed) (take_slot (rc_primary_name rc, Embed) s)))"

section \<open>Every path releases, observes and charges\<close>

text \<open>The parts of the state a call must leave as they were: the permits in use.\<close>

definition permits :: "router \<Rightarrow> (string \<Rightarrow> nat) \<times> (string \<times> tier \<Rightarrow> nat)" where
  "permits s = (rt_callers s, rt_slots s)"

lemma fire_and_forget_simps [simp]:
  "permits (fire_and_forget c r out e s) = permits s"
  "rt_spend (fire_and_forget c r out e s) = rt_spend s"
  "rt_cache (fire_and_forget c r out e s) = rt_cache s"
  "rt_meter (fire_and_forget c r out e s) = rt_meter s"
  "rt_tele (fire_and_forget c r out e s) = rt_tele s @ [\<lparr>tl_caller_id = c, tl_outcome = out, tl_error = e, tl_response = r\<rparr>]"
  "rt_callers (fire_and_forget c r out e s) = rt_callers s"
  "rt_slots (fire_and_forget c r out e s) = rt_slots s"
  by (simp_all add: fire_and_forget_def permits_def)

lemma allow_simps:
  "allow rc now today fb s = (ok, s') \<Longrightarrow>
     permits s' = permits s \<and> rt_spend s' = rt_spend s \<and> rt_cache s' = rt_cache s \<and> rt_tele s' = rt_tele s
     \<and> rt_callers s' = rt_callers s \<and> rt_slots s' = rt_slots s"
  by (auto simp: allow_def Let_def permits_def split: prod.splits)

lemma take_drop_simps [simp]:
  "rt_spend (take_slot k s) = rt_spend s" "rt_tele (take_slot k s) = rt_tele s" "rt_cache (take_slot k s) = rt_cache s"
  "rt_spend (drop_slot k s) = rt_spend s" "rt_tele (drop_slot k s) = rt_tele s" "rt_cache (drop_slot k s) = rt_cache s"
  "rt_spend (take_caller c s) = rt_spend s" "rt_tele (take_caller c s) = rt_tele s" "rt_cache (take_caller c s) = rt_cache s"
  "rt_spend (drop_caller c s) = rt_spend s" "rt_tele (drop_caller c s) = rt_tele s" "rt_cache (drop_caller c s) = rt_cache s"
  by (simp_all add: take_slot_def drop_slot_def take_caller_def drop_caller_def)

lemma drop_take_slot:
  "permits s' = permits (take_slot k s) \<Longrightarrow> permits (drop_slot k s') = permits s"
  by (auto simp: permits_def take_slot_def drop_slot_def)

lemma drop_take_caller:
  "permits s' = permits (take_caller k s) \<Longrightarrow> permits (drop_caller k s') = permits s"
  by (auto simp: permits_def take_caller_def drop_caller_def)

text \<open>The telemetry row owed for an error, as the caller sees it.\<close>

definition outcome_of :: "llm_error \<Rightarrow> call_outcome" where
  "outcome_of e = (case e of CostBudgetExceeded m \<Rightarrow> OutRateLimit | ProviderTimeout m \<Rightarrow> OutTimeout | _ \<Rightarrow> OutError)"

definition views :: "router \<Rightarrow> (string \<times> call_outcome \<times> chat_response option) list" where
  "views s = map (\<lambda>r. (tl_caller_id r, tl_outcome r, tl_response r)) (rt_tele s)"

fun due :: "string \<Rightarrow> chat_response await \<Rightarrow> (string \<times> call_outcome \<times> chat_response option) list" where
  "due c (Done r) = [(c, OutOk, Some r)]"
| "due c (Err e) = [(c, outcome_of e, None)]"
| "due c Cancelled = []"

text \<open>The part of the row a guarded attempt writes itself: nothing yet for a success.\<close>

fun due_errors :: "string \<Rightarrow> chat_response await \<Rightarrow> (string \<times> call_outcome \<times> chat_response option) list" where
  "due_errors c (Err e) = [(c, outcome_of e, None)]"
| "due_errors c r = []"

definition own_error :: "'a await \<Rightarrow> bool" where
  "own_error a \<longleftrightarrow> (\<forall>m. a \<noteq> Err (CostBudgetExceeded m))"

definition script_ok :: "script \<Rightarrow> bool" where
  "script_ok sc \<longleftrightarrow> own_error (sc_primary sc) \<and> own_error (sc_fallback sc) \<and> own_error (sc_rate_permit sc)
     \<and> (\<forall>e. sc_caller_permit sc \<noteq> Err e)"

lemma fallback_chat_own: "script_ok sc \<Longrightarrow> own_error (fallback_chat rc t sc m)"
  by (auto simp: fallback_chat_def own_error_def script_ok_def split: await.splits)

text \<open>What one attempt adds: a row exactly when the fallback cap refused it.\<close>

lemma attempt_effect:
  assumes "attempt rc c t sc s = (r, s')" and "script_ok sc"
  shows "permits s' = permits s \<and> rt_spend s' = rt_spend s \<and> rt_cache s' = rt_cache s
    \<and> views s' = views s @ (if own_error r then [] else due_errors c r)"
proof (cases "sc_primary sc")
  case (Err e)
  show ?thesis
  proof (cases "fails_over e")
    case True
    obtain ok s1 where al: "allow rc (sc_fallback_now sc) (sc_today sc) True s = (ok, s1)" by fastforce
    show ?thesis
    proof (cases ok)
      case ok: True
      then have "own_error r" "s' = s1" using assms Err True al fallback_chat_own by (auto simp: attempt_def)
      then show ?thesis using allow_simps [OF al] by (simp add: views_def)
    next
      case False
      then have r: "r = Err (CostBudgetExceeded ''fallback cap exceeded while DeepSeek is down'')"
        and s': "s' = fire_and_forget c None OutRateLimit (Some ''fallback_cap_exceeded'') s1"
        using assms Err True al by (simp_all add: attempt_def)
      show ?thesis using allow_simps [OF al] by (simp add: r s' views_def own_error_def outcome_of_def)
    qed
  next
    case False
    then show ?thesis using assms Err by (auto simp: attempt_def script_ok_def)
  qed
qed (use assms in \<open>auto simp: attempt_def own_error_def\<close>)

lemma limited_effect:
  assumes "limited_attempt rc c t sc s = (r, s')" and "script_ok sc"
  shows "permits s' = permits s \<and> rt_spend s' = rt_spend s \<and> rt_cache s' = rt_cache s
    \<and> views s' = views s @ (if own_error r then [] else due_errors c r)"
proof (cases "sc_rate_permit sc")
  case (Done u)
  obtain s1 where at: "attempt rc c t sc (take_slot (rc_primary_name rc, t) s) = (r, s1)"
      and s': "s' = drop_slot (rc_primary_name rc, t) s1"
    using assms(1) Done by (auto simp: limited_attempt_def Let_def split: prod.splits)
  show ?thesis using attempt_effect [OF at assms(2)] drop_take_slot by (simp add: s' views_def)
qed (use assms in \<open>auto simp: limited_attempt_def script_ok_def own_error_def\<close>)

lemma observe_error_effect:
  "permits (observe_error c e s) = permits s \<and> rt_spend (observe_error c e s) = rt_spend s
   \<and> rt_cache (observe_error c e s) = rt_cache s
   \<and> views (observe_error c e s) = views s @ (if \<exists>m. e = CostBudgetExceeded m then [] else [(c, outcome_of e, None)])"
  by (cases e) (simp_all add: observe_error_def views_def outcome_of_def)

lemma guarded_effect:
  assumes "guarded_attempt rc c t sc s = (r, s')" and "script_ok sc"
  shows "permits s' = permits s \<and> rt_spend s' = rt_spend s \<and> rt_cache s' = rt_cache s \<and> views s' = views s @ due_errors c r"
proof (cases "sc_caller_permit sc")
  case (Done u)
  obtain r1 s1 where lim: "limited_attempt rc c t sc (take_caller c s) = (r1, s1)" by fastforce
  note eff = limited_effect [OF lim assms(2)]
  show ?thesis
  proof (cases r1)
    case (Err e)
    then have r: "r = Err e" "s' = drop_caller c (observe_error c e s1)"
      using assms(1) Done lim by (simp_all add: guarded_attempt_def)
    have "permits s' = permits s"
      unfolding r(2) by (rule drop_take_caller) (simp add: observe_error_effect eff)
    then show ?thesis using eff observe_error_effect [of c e s1]
      by (auto simp: r Err own_error_def views_def)
  qed (use assms(1) Done lim eff drop_take_caller in \<open>auto simp: guarded_attempt_def own_error_def views_def\<close>)
qed (use assms in \<open>auto simp: guarded_attempt_def script_ok_def\<close>)

text \<open>
  Whatever happens to a registered call, cache hit, refused budget, provider failure,
  failover, cancellation at any await: every permit it took is given back; exactly one
  telemetry row is written, with the outcome the caller sees (none when it was cancelled);
  and the budget is charged exactly for an answer that came from a provider, once.
\<close>

theorem chat_releases_observes_charges:
  assumes "llm_lookup caller_id = Inr sp" and "pick_tier caller_id force_tier (sc_signals sc) = Inr t"
    and "script_ok sc" and "chat rc caller_id ms force_tier sc s = (r, s')"
  shows "permits s' = permits s \<and> views s' = views s @ due caller_id r
    \<and> rt_spend s' = (case r of
         Done resp \<Rightarrow> (if use_cache rc sp force_tier \<and> cache_get caller_id t ms s \<noteq> None then rt_spend s
                      else mem_record (rt_spend s) (sc_today sc) (lr_tier resp) (lr_fallback_used resp) (lr_cost_usd resp))
       | _ \<Rightarrow> rt_spend s)"
proof (cases "if use_cache rc sp force_tier then cache_get caller_id t ms s else None")
  case (Some hit)
  then have "use_cache rc sp force_tier \<and> cache_get caller_id t ms s = Some hit" by (simp split: if_splits)
  moreover have "r = Done hit" "s' = fire_and_forget caller_id (Some hit) OutOk None s"
    using assms Some by (simp_all add: chat_def)
  ultimately show ?thesis by (simp add: views_def)
next
  case None
  then have miss: "\<not> (use_cache rc sp force_tier \<and> cache_get caller_id t ms s \<noteq> None)" by (simp split: if_splits)
  obtain ok s1 where al: "allow rc (sc_now sc) (sc_today sc) False s = (ok, s1)" by fastforce
  note al_eff = allow_simps [OF al]
  show ?thesis
  proof (cases ok)
    case False
    then show ?thesis using assms None al al_eff by (auto simp: chat_def views_def outcome_of_def)
  next
    case True
    obtain r1 s2 where g: "guarded_attempt rc caller_id t sc s1 = (r1, s2)" by fastforce
    note eff = guarded_effect [OF g assms(3)]
    show ?thesis
    proof (cases r1)
      case (Done resp)
      then have "r = Done resp" "permits s' = permits s2"
        "rt_spend s' = mem_record (rt_spend s2) (sc_today sc) (lr_tier resp) (lr_fallback_used resp) (lr_cost_usd resp)"
        "views s' = views s2 @ [(caller_id, OutOk, Some resp)]"
        using assms None al True g
        by (auto simp: chat_def Let_def meter_record_def cache_set_def views_def permits_def split: if_splits)
      then show ?thesis using eff al_eff miss Done by (auto simp: views_def)
    qed (use assms None al True g eff al_eff in \<open>auto simp: chat_def views_def\<close>)
  qed
qed

definition new_router :: router where
  "new_router = \<lparr>rt_meter = new_meter, rt_spend = [], rt_cache = (\<lambda>k. None), rt_tele = [],
     rt_callers = (\<lambda>c. 0), rt_slots = (\<lambda>k. 0)\<rparr>"

definition toy_router_cfg :: "bool \<Rightarrow> router_cfg" where
  "toy_router_cfg cache = \<lparr>rc_primary_name = ''deepseek'', rc_meter = toy_cfg, rc_has_cache = cache,
     rc_pro_fallback = True, rc_flash_fallback = True\<rparr>"

definition toy_answer :: "bool \<Rightarrow> chat_response" where
  "toy_answer fb = \<lparr>lr_text = ''hi'', lr_model = ''m'', lr_tier = Flash, lr_prompt_tokens = 1, lr_completion_tokens = 1,
     lr_cost_usd = 2, lr_cached = False, lr_fallback_used = fb, lr_cost_skipped = False, lr_request_id = ''r'', lr_latency_ms = 1\<rparr>"

text \<open>DeepSeek is down and Groq answers.\<close>

definition toy_script :: script where
  "toy_script = \<lparr>sc_signals = JObj [], sc_today = 100, sc_now = 0, sc_caller_permit = Done (), sc_rate_permit = Done (),
     sc_primary = Err (DeepSeekDown ''503''), sc_fallback_now = 1, sc_fallback = Done (toy_answer True)\<rparr>"

lemma script_ok_toy: "script_ok toy_script"
  by (simp add: script_ok_def own_error_def toy_script_def)

lemma lookup_toy:
  "llm_lookup ''secretary.echo'' = Inr (spec Flash Never)"
  "llm_lookup ''intel.sentiment.classify'' = Inr (cached_spec Flash Never (Some 3600))"
  by (simp_all add: llm_lookup_def starts_with_def MATRIX_def)

theorem chat_releases_observes_charges_witness:
  "fst (chat (toy_router_cfg False) ''secretary.echo'' [] (Some Flash) toy_script new_router) = Done (toy_answer True)
   \<and> views (snd (chat (toy_router_cfg False) ''secretary.echo'' [] (Some Flash) toy_script new_router))
       = [(''secretary.echo'', OutOk, Some (toy_answer True))]"
proof -
  let ?r = "chat (toy_router_cfg False) ''secretary.echo'' [] (Some Flash) toy_script new_router"
  have fst: "fst ?r = Done (toy_answer True)"
    by (simp add: chat_def lookup_toy pick_tier_def use_cache_def toy_router_cfg_def allow_def meter_allow_def
        meter_refresh_def new_meter_def new_router_def reaches_def toy_cfg_def guarded_attempt_def toy_script_def
        limited_attempt_def attempt_def fails_over_def fallback_chat_def adapter_for_def Let_def fire_and_forget_def
        take_caller_def drop_caller_def take_slot_def drop_slot_def meter_record_def)
  have "views (snd ?r) = views new_router @ due ''secretary.echo'' (fst ?r)"
    using chat_releases_observes_charges [OF lookup_toy(1) _ script_ok_toy, of "Some Flash" Flash "toy_router_cfg False" "[]" new_router "fst ?r" "snd ?r"]
    by (simp add: pick_tier_def)
  then show ?thesis using fst by (simp add: views_def new_router_def)
qed

section \<open>Degrading instead of failing\<close>

text \<open>
  With the cost breaker enabled a caller of \<open>chat_or_skip\<close> never sees the budget error
  nor the drain deadline: it gets an answer marked as skipped that costs nothing and is not
  charged. Every other result is the one \<open>chat\<close> gives.
\<close>

theorem chat_or_skip_never_budget_error:
  assumes "chat_or_skip True deadline now0 rid rc caller_id ms force_tier sc s = (r, s')"
  shows "r \<noteq> Err (CostBudgetExceeded m) \<and> (deadline \<longrightarrow> r \<noteq> Cancelled)
    \<and> ((\<exists>resp. r = Done resp \<and> lr_cost_skipped resp \<and> lr_cost_usd resp = 0 \<and> lr_text resp = ''[cost-breaker open: synthetic skip]'')
       \<or> r = fst (chat rc caller_id ms force_tier sc (snd (allow rc now0 (sc_today sc) False s))))"
proof -
  obtain ok s1 where al: "allow rc now0 (sc_today sc) False s = (ok, s1)" by fastforce
  obtain r1 s2 where ch: "chat rc caller_id ms force_tier sc s1 = (r1, s2)" by fastforce
  have s1: "snd (allow rc now0 (sc_today sc) False s) = s1" by (simp add: al)
  show ?thesis
  proof (cases ok)
    case False
    then have "r = Done (synthetic_skip_response (case force_tier of Some t \<Rightarrow> t | None \<Rightarrow> Flash) ''cost_breaker_open'' rid)"
      using assms al by (simp add: chat_or_skip_def Let_def)
    then show ?thesis by (simp add: synthetic_skip_response_def)
  next
    case True
    show ?thesis
    proof (cases r1)
      case (Done resp)
      then have "r = fst (chat rc caller_id ms force_tier sc s1)" using assms al True ch by (simp add: chat_or_skip_def Let_def)
      then show ?thesis using ch Done s1 by auto
    next
      case (Err e)
      show ?thesis
      proof (cases e)
        case (CostBudgetExceeded m')
        then have "r = Done (synthetic_skip_response (case force_tier of Some t \<Rightarrow> t | None \<Rightarrow> Flash) ''cost_breaker_open'' rid)"
          using assms al True ch Err by (simp add: chat_or_skip_def Let_def)
        then show ?thesis by (simp add: synthetic_skip_response_def)
      qed (use assms al True ch Err s1 in \<open>auto simp: chat_or_skip_def Let_def\<close>)
    next
      case Cancelled
      show ?thesis
      proof (cases deadline)
        case True
        then have "r = Done (synthetic_skip_response (case force_tier of Some t \<Rightarrow> t | None \<Rightarrow> Flash) ''drain_deadline'' rid)"
          using assms al \<open>ok\<close> ch Cancelled by (simp add: chat_or_skip_def Let_def)
        then show ?thesis by (simp add: synthetic_skip_response_def)
      next
        case False
        then have "r = fst (chat rc caller_id ms force_tier sc s1)" "r = Cancelled"
          using assms al \<open>ok\<close> ch Cancelled by (simp_all add: chat_or_skip_def Let_def)
        then show ?thesis using False s1 by auto
      qed
    qed
  qed
qed

text \<open>The breaker is open: the caller gets a skip.\<close>

theorem chat_or_skip_never_budget_error_witness:
  "\<exists>r s'. chat_or_skip True True 0 ''x'' (toy_router_cfg False) ''secretary.echo'' [] None toy_script
      (new_router\<lparr>rt_spend := [((100, Flash, False), 50)]\<rparr>) = (r, s') \<and> r \<noteq> Cancelled"
proof -
  let ?c = "chat_or_skip True True 0 ''x'' (toy_router_cfg False) ''secretary.echo'' [] None toy_script
      (new_router\<lparr>rt_spend := [((100, Flash, False), 50)]\<rparr>)"
  have c: "?c = (fst ?c, snd ?c)" by simp
  show ?thesis using chat_or_skip_never_budget_error [OF c] c by blast
qed

section \<open>The prompt cache\<close>

text \<open>
  For a caller whose answers may be cached, a second identical call is served from the
  cache: the stored answer, marked cached and free, without a permit, without a charge and
  whatever has become of the providers and the budget.
\<close>

theorem repeated_call_served_from_cache:
  assumes "llm_lookup caller_id = Inr sp" and "cs_cache_eligible sp" and "rc_has_cache rc"
    and "resolve_tier caller_id (sc_signals sc) = Inr t" and "resolve_tier caller_id (sc_signals sc') = Inr t"
    and "chat rc caller_id ms None sc s = (Done resp, s1)" and "rt_cache s (caller_id, t, ms) = None"
  shows "fst (chat rc caller_id ms None sc' s1) = Done (resp\<lparr>lr_cached := True, lr_cost_usd := 0\<rparr>)
    \<and> rt_spend (snd (chat rc caller_id ms None sc' s1)) = rt_spend s1
    \<and> permits (snd (chat rc caller_id ms None sc' s1)) = permits s1"
proof -
  have use: "use_cache rc sp None" using assms(2,3) by (simp add: use_cache_def)
  obtain ok s0 where al: "allow rc (sc_now sc) (sc_today sc) False s = (ok, s0)" by fastforce
  obtain r2 s2 where g: "guarded_attempt rc caller_id t sc s0 = (r2, s2)" by fastforce
  have miss: "cache_get caller_id t ms s = None" using assms(7) by (simp add: cache_get_def)
  have ok: ok using assms(1,4,6) al use miss by (cases ok) (simp_all add: chat_def pick_tier_def)
  then have "s1 = cache_set caller_id t ms resp (fire_and_forget caller_id (Some resp) OutOk None (meter_record (sc_today sc) resp s2))"
    using assms(1,4,6) al use miss g
    by (cases r2) (simp_all add: chat_def pick_tier_def Let_def)
  then have "rt_cache s1 (caller_id, t, ms) = Some resp" by (simp add: cache_set_def)
  then show ?thesis using assms(1,5) use by (simp add: chat_def pick_tier_def cache_get_def)
qed

theorem repeated_call_served_from_cache_witness:
  "\<exists>resp s1. chat (toy_router_cfg True) ''intel.sentiment.classify'' [] None toy_script new_router = (Done resp, s1)
     \<and> fst (chat (toy_router_cfg True) ''intel.sentiment.classify'' [] None (toy_script\<lparr>sc_primary := Cancelled\<rparr>) s1)
         = Done (resp\<lparr>lr_cached := True, lr_cost_usd := 0\<rparr>)"
proof -
  let ?r = "chat (toy_router_cfg True) ''intel.sentiment.classify'' [] None toy_script new_router"
  have tier: "resolve_tier ''intel.sentiment.classify'' sg = Inr Flash" for sg
    by (simp add: resolve_tier_def lookup_toy cached_spec_def as_llm_def)
  have "fst ?r = Done (toy_answer True)"
    by (simp add: chat_def lookup_toy pick_tier_def tier use_cache_def cached_spec_def cache_get_def toy_router_cfg_def allow_def meter_allow_def
        meter_refresh_def new_meter_def new_router_def reaches_def toy_cfg_def guarded_attempt_def toy_script_def
        limited_attempt_def attempt_def fails_over_def fallback_chat_def adapter_for_def Let_def fire_and_forget_def
        take_caller_def drop_caller_def take_slot_def drop_slot_def meter_record_def)
  then have r: "?r = (Done (toy_answer True), snd ?r)" by (metis prod.collapse)
  show ?thesis
    using repeated_call_served_from_cache [OF lookup_toy(2) _ _ tier tier r, of "toy_script\<lparr>sc_primary := Cancelled\<rparr>"] r
    by (auto simp: cached_spec_def toy_router_cfg_def new_router_def)
qed

section \<open>Embeddings\<close>

text \<open>
  An embedding call is invisible: it adds no telemetry row and charges nothing,
  whatever it cost, so the spend the caps are checked against never includes embeddings.
\<close>

theorem embed_never_charged:
  "rt_spend (snd (embed rc caller_id sc a s)) = rt_spend s \<and> rt_tele (snd (embed rc caller_id sc a s)) = rt_tele s
    \<and> permits (snd (embed rc caller_id sc a s)) = permits s"
proof -
  obtain ok s1 where al: "allow rc (sc_now sc) (sc_today sc) False s = (ok, s1)" by fastforce
  have "permits (drop_slot k (take_slot k s1)) = permits s1" for k by (rule drop_take_slot) simp
  then show ?thesis using allow_simps [OF al] by (auto simp: embed_def al split: sum.splits await.splits)
qed

end
