(* ===== verification/DagRunner.thy ===== *)
theory DagRunner
  imports Json
begin

text \<open>
  The orchestrator's DAG runner (\<^verbatim>\<open>apps/orchestrator/orchestrator/execute/runner.py\<close>) and its SLA
  wrapper (\<^verbatim>\<open>execute/sla.py\<close>). A node's function maps the shared state to how long it takes,
  what it ends with and the state it leaves; a batch of ready nodes runs in the order
  \<open>arrange\<close> gives (Python iterates over a set). The clock reading at the start of each round
  is a parameter.
\<close>

section \<open>Nodes and the SLA wrapper\<close>

datatype fn_result = FnOk json | FnRaised string | FnTimeoutError

text \<open>One run of a node function; the last field is the state left behind if it is cancelled.\<close>

record 'st fn_run =
  fr_duration :: seconds
  fr_result :: fn_result
  fr_state :: 'st
  fr_cut_state :: 'st

record 'st node =
  nd_name :: string
  nd_fn :: "'st \<Rightarrow> 'st fn_run"
  nd_soft :: "seconds option"
  nd_hard :: "seconds option"

datatype node_out = Output json | NoOutput | SLAStub string

record node_result =
  nr_name :: string
  nr_ok :: bool
  nr_output :: node_out
  nr_error :: "string option"
  nr_timed_out :: bool

definition SLA_TABLE :: "(string, seconds \<times> seconds) dict" where
  "SLA_TABLE =
    [(''intel.synth'', (60, 120)), (''fundamental.run'', (45, 90)), (''quant.run'', (30, 60)),
     (''persona.daily'', (30, 90)), (''persona.weekly'', (60, 180)), (''secretary.compose_brief'', (30, 60)),
     (''secretary.chat'', (8, 20)), (''backtest.daily'', (60, 180)), (''backtest.weekly_eval'', (120, 300))]"

definition lookup_sla :: "string \<Rightarrow> (seconds \<times> seconds) option" where
  "lookup_sla n =
     (case map_of SLA_TABLE n of Some x \<Rightarrow> Some x
      | None \<Rightarrow>
          if starts_with ''persona.'' n \<and> ends_with ''.daily'' n then map_of SLA_TABLE ''persona.daily''
          else if starts_with ''persona.'' n \<and> ends_with ''.weekly'' n then map_of SLA_TABLE ''persona.weekly''
          else None)"

definition result_of :: "string \<Rightarrow> bool \<Rightarrow> node_out \<Rightarrow> string option \<Rightarrow> bool \<Rightarrow> node_result" where
  "result_of n ok out err tout = \<lparr>nr_name = n, nr_ok = ok, nr_output = out, nr_error = err, nr_timed_out = tout\<rparr>"

text \<open>Without an SLA runner, and where no hard limit applies: the function runs to its end.\<close>

definition run_unbounded :: "'st node \<Rightarrow> 'st \<Rightarrow> node_result \<times> 'st" where
  "run_unbounded nd st =
     (let r = nd_fn nd st in
      (case fr_result r of
         FnOk v \<Rightarrow> result_of (nd_name nd) True (Output v) None False
       | FnRaised e \<Rightarrow> result_of (nd_name nd) False NoOutput (Some e) False
       | FnTimeoutError \<Rightarrow> result_of (nd_name nd) False NoOutput (Some '''') False, fr_state r))"

definition hard_limit :: "'st node \<Rightarrow> seconds option" where
  "hard_limit nd = (case nd_hard nd of Some h \<Rightarrow> Some h | None \<Rightarrow> map_option snd (lookup_sla (nd_name nd)))"

definition timeout_message :: "(seconds \<Rightarrow> string) \<Rightarrow> string \<Rightarrow> seconds \<Rightarrow> string" where
  "timeout_message fmt n h = ''node '' @ n @ '' exceeded hard timeout '' @ fmt h @ ''s''"

definition with_sla_timeout :: "(seconds \<Rightarrow> string) \<Rightarrow> 'st node \<Rightarrow> 'st \<Rightarrow> node_result \<times> 'st" where
  "with_sla_timeout fmt nd st =
     (case hard_limit nd of
        None \<Rightarrow> run_unbounded nd st
      | Some h \<Rightarrow>
          (let r = nd_fn nd st; n = nd_name nd in
           if fr_duration r > h then (result_of n False (SLAStub n) (Some (timeout_message fmt n h)) True, fr_cut_state r)
           else case fr_result r of
               FnOk v \<Rightarrow> (result_of n True (Output v) None False, fr_state r)
             | FnRaised e \<Rightarrow> (result_of n False NoOutput (Some e) False, fr_state r)
             | FnTimeoutError \<Rightarrow> (result_of n False (SLAStub n) (Some (timeout_message fmt n h)) True, fr_state r)))"

section \<open>The graph\<close>

record 'st graph =
  gr_nodes :: "(string, 'st node) dict"
  gr_edges :: "(string, string list) dict"
  gr_cond :: "(string, 'st \<Rightarrow> string list) dict"
  gr_entry :: "string option"

definition empty_graph :: "'st graph" where
  "empty_graph = \<lparr>gr_nodes = [], gr_edges = [], gr_cond = [], gr_entry = None\<rparr>"

definition add_node :: "'st node \<Rightarrow> 'st graph \<Rightarrow> exn + 'st graph" where
  "add_node nd g =
     (if map_of (gr_nodes g) (nd_name nd) \<noteq> None then Inl (ValueError (''duplicate node: '' @ nd_name nd))
      else Inr (g\<lparr>gr_nodes := AList.update (nd_name nd) nd (gr_nodes g)\<rparr>))"

definition edges_of :: "'st graph \<Rightarrow> string \<Rightarrow> string list" where
  "edges_of g n = (case map_of (gr_edges g) n of Some ds \<Rightarrow> ds | None \<Rightarrow> [])"

definition add_edge :: "string \<Rightarrow> string \<Rightarrow> 'st graph \<Rightarrow> 'st graph" where
  "add_edge src dst g = g\<lparr>gr_edges := AList.update src (edges_of g src @ [dst]) (gr_edges g)\<rparr>"

definition add_conditional_edges :: "string \<Rightarrow> ('st \<Rightarrow> string list) \<Rightarrow> 'st graph \<Rightarrow> 'st graph" where
  "add_conditional_edges src f g = g\<lparr>gr_cond := AList.update src f (gr_cond g)\<rparr>"

definition set_entry :: "string \<Rightarrow> 'st graph \<Rightarrow> 'st graph" where
  "set_entry n g = g\<lparr>gr_entry := Some n\<rparr>"

definition successors :: "'st graph \<Rightarrow> string \<Rightarrow> 'st \<Rightarrow> string list" where
  "successors g n st = edges_of g n @ (case map_of (gr_cond g) n of Some f \<Rightarrow> f st | None \<Rightarrow> [])"

definition parents_of :: "'st graph \<Rightarrow> string \<Rightarrow> string list" where
  "parents_of g n = map fst (filter (\<lambda>(src, dsts). n \<in> set dsts) (gr_edges g))"

section \<open>Execution\<close>

datatype 'st dag_out =
  DagDone "node_result list" 'st bool
| NoEntry
| Stalled "string list" 'st
| DagTimeout 'st
| MissingNode 'st
| OutOfFuel

type_synonym 'st node_runner = "'st node \<Rightarrow> 'st \<Rightarrow> node_result \<times> 'st"

fun run_batch :: "'st graph \<Rightarrow> 'st node_runner \<Rightarrow> string list \<Rightarrow> 'st \<Rightarrow> (node_result list \<times> 'st) option" where
  "run_batch g runner [] st = Some ([], st)"
| "run_batch g runner (n # ns) st =
     (case map_of (gr_nodes g) n of
        None \<Rightarrow> None
      | Some nd \<Rightarrow>
          (let (r, st1) = runner nd st in
           case run_batch g runner ns st1 of
             None \<Rightarrow> None
           | Some (rs, st2) \<Rightarrow> Some (r\<lparr>nr_name := n\<rparr> # rs, st2)))"

fun add_pending :: "string list \<Rightarrow> string set \<Rightarrow> string list \<Rightarrow> string list" where
  "add_pending [] completed pending = pending"
| "add_pending (n # ns) completed pending =
     add_pending ns completed (if n \<in> completed \<or> n \<in> set pending then pending else pending @ [n])"

fun settle :: "'st graph \<Rightarrow> 'st \<Rightarrow> node_result list \<Rightarrow> string list \<Rightarrow> string set \<Rightarrow> string list \<times> string set" where
  "settle g st [] pending completed = (pending, completed)"
| "settle g st (r # rs) pending completed =
     (let completed = insert (nr_name r) completed;
          pending = filter (\<lambda>n. n \<noteq> nr_name r) pending
      in settle g st rs (add_pending (successors g (nr_name r) st) completed pending) completed)"

fun exec_loop :: "nat \<Rightarrow> (nat \<Rightarrow> seconds) \<Rightarrow> seconds \<Rightarrow> (string list \<Rightarrow> string list) \<Rightarrow> 'st node_runner \<Rightarrow> 'st graph
    \<Rightarrow> nat \<Rightarrow> 'st \<Rightarrow> node_result list \<Rightarrow> string list \<Rightarrow> string set \<Rightarrow> 'st dag_out" where
  "exec_loop fuel clock deadline arrange runner g rnd st results pending completed =
     (if pending = [] then DagDone results st (list_all nr_ok results)
      else (case fuel of
          0 \<Rightarrow> OutOfFuel
        | Suc n \<Rightarrow>
            (if clock rnd > deadline then DagTimeout st
             else (let ready = filter (\<lambda>n. set (parents_of g n) \<subseteq> completed) (arrange pending) in
               if ready = [] then Stalled pending st
               else (case run_batch g runner ready st of
                   None \<Rightarrow> MissingNode st
                 | Some (rs, st') \<Rightarrow>
                     (let (pending', completed') = settle g st' rs pending completed in
                      exec_loop n clock deadline arrange runner g (Suc rnd) st' (results @ rs) pending' completed'))))))"

declare exec_loop.simps [simp del]

definition execute :: "(nat \<Rightarrow> seconds) \<Rightarrow> seconds \<Rightarrow> (string list \<Rightarrow> string list) \<Rightarrow> 'st node_runner \<Rightarrow> 'st graph \<Rightarrow> 'st \<Rightarrow> 'st dag_out" where
  "execute clock timeout_s arrange runner g st =
     (case gr_entry g of
        None \<Rightarrow> NoEntry
      | Some entry \<Rightarrow>
          exec_loop (Suc (length (gr_nodes g))) clock (clock 0 + timeout_s) arrange runner g 0 st [] [entry] {})"

section \<open>Each node once, after its parents\<close>

lemma run_batch_names:
  "run_batch g runner ns st = Some (rs, st') \<Longrightarrow> map nr_name rs = ns \<and> set ns \<subseteq> set (keys (gr_nodes g))"
proof (induction ns arbitrary: st rs st')
  case (Cons n ns)
  obtain nd where nd: "map_of (gr_nodes g) n = Some nd" using Cons.prems by (auto split: option.splits)
  obtain r st1 where r: "runner nd st = (r, st1)" by fastforce
  obtain rs2 st2 where rs2: "run_batch g runner ns st1 = Some (rs2, st2)" and rs: "rs = r\<lparr>nr_name := n\<rparr> # rs2"
    using Cons.prems nd r by (auto split: option.splits)
  have "n \<in> set (keys (gr_nodes g))" using nd by (metis map_of_eq_None_iff option.distinct(1) image_set)
  then show ?case using Cons.IH [OF rs2] rs by simp
qed simp

lemma set_add_pending: "set (add_pending ns c p) = set p \<union> {n \<in> set ns. n \<notin> c}"
  by (induction ns arbitrary: p) auto

lemma distinct_add_pending: "distinct p \<Longrightarrow> distinct (add_pending ns c p)"
  by (induction ns arbitrary: p) auto

lemma settle_spec:
  assumes "settle g st rs p c = (p', c')" and "set p \<inter> c = {}" and "distinct p"
  shows "c' = c \<union> nr_name ` set rs \<and> distinct p' \<and> set p' \<inter> c' = {} \<and> set p \<subseteq> set p' \<union> c'
    \<and> (\<forall>r \<in> set rs. set (successors g (nr_name r) st) \<subseteq> set p' \<union> c')"
  using assms
proof (induction rs arbitrary: p c)
  case (Cons r rs)
  let ?c = "insert (nr_name r) c" and ?q = "filter (\<lambda>n. n \<noteq> nr_name r) p"
  let ?p = "add_pending (successors g (nr_name r) st) ?c ?q"
  have st: "settle g st rs ?p ?c = (p', c')" using Cons.prems(1) by (simp add: Let_def)
  have dis: "set ?p \<inter> ?c = {}" using Cons.prems(2) by (auto simp: set_add_pending)
  have "distinct ?p" using Cons.prems(3) by (simp add: distinct_add_pending)
  note IH = Cons.IH [OF st dis this]
  have c': "c' = ?c \<union> nr_name ` set rs" and sub: "set ?p \<subseteq> set p' \<union> c'" using IH by blast+
  have "set (successors g (nr_name r) st) \<subseteq> set ?p \<union> ?c" "set p \<subseteq> set ?p \<union> ?c"
    by (auto simp: set_add_pending)
  then have "set (successors g (nr_name r) st) \<subseteq> set p' \<union> c'" "set p \<subseteq> set p' \<union> c'"
    using sub c' by blast+
  then show ?case using IH c' by auto
qed simp

definition dag_inv :: "'st graph \<Rightarrow> node_result list \<Rightarrow> string list \<Rightarrow> string set \<Rightarrow> bool" where
  "dag_inv g results pending completed \<longleftrightarrow>
     completed = nr_name ` set results \<and> distinct (map nr_name results)
     \<and> set pending \<inter> completed = {} \<and> distinct pending
     \<and> (\<forall>i < length results. set (parents_of g (nr_name (results ! i))) \<subseteq> nr_name ` set (take i results))
     \<and> completed \<subseteq> set (keys (gr_nodes g))
     \<and> (\<forall>n \<in> completed. set (edges_of g n) \<subseteq> completed \<union> set pending)"

lemma dag_invD:
  assumes "dag_inv g results pending completed"
  shows "completed = nr_name ` set results" and "distinct (map nr_name results)"
    and "set pending \<inter> completed = {}" and "distinct pending"
    and "i < length results \<Longrightarrow> set (parents_of g (nr_name (results ! i))) \<subseteq> nr_name ` set (take i results)"
    and "completed \<subseteq> set (keys (gr_nodes g))"
    and "n \<in> completed \<Longrightarrow> set (edges_of g n) \<subseteq> completed \<union> set pending"
  using assms unfolding dag_inv_def by blast+

definition arranges :: "(string list \<Rightarrow> string list) \<Rightarrow> bool" where
  "arranges f \<longleftrightarrow> (\<forall>xs. set (f xs) = set xs \<and> (distinct xs \<longrightarrow> distinct (f xs)))"

lemma dag_inv_round:
  assumes inv: "dag_inv g results pending completed" and arr: "arranges arrange"
    and ready: "ready = filter (\<lambda>n. set (parents_of g n) \<subseteq> completed) (arrange pending)"
    and batch: "run_batch g runner ready st = Some (rs, st')"
    and settle: "settle g st' rs pending completed = (pending', completed')"
  shows "dag_inv g (results @ rs) pending' completed' \<and> map nr_name rs = ready"
proof -
  have names: "map nr_name rs = ready" "set ready \<subseteq> set (keys (gr_nodes g))" using run_batch_names [OF batch] by simp_all
  have rset: "nr_name ` set rs = set ready" using names(1) by (metis list.set_map)
  have sub: "set ready \<subseteq> set pending" using arr ready by (auto simp: arranges_def)
  have dist: "distinct ready" using arr inv ready by (auto simp: arranges_def dag_inv_def)
  have i: "completed = nr_name ` set results" "distinct (map nr_name results)" "set pending \<inter> completed = {}" "distinct pending"
    by (rule dag_invD [OF inv])+
  note sp = settle_spec [OF settle i(3,4)]
  have c': "completed' = completed \<union> set ready" using sp rset by simp
  show ?thesis unfolding dag_inv_def
  proof (intro conjI)
    show "completed' = nr_name ` set (results @ rs)" using c' i(1) rset by (simp add: image_Un)
    show "distinct (map nr_name (results @ rs))"
      using i(1-3) dist names(1) sub rset by auto
    show "set pending' \<inter> completed' = {}" by (rule conjunct1 [OF conjunct2 [OF conjunct2 [OF sp]]])
    show "distinct pending'" using sp by blast
    show "\<forall>j < length (results @ rs). set (parents_of g (nr_name ((results @ rs) ! j))) \<subseteq> nr_name ` set (take j (results @ rs))"
    proof (intro allI impI)
      fix j assume j: "j < length (results @ rs)"
      show "set (parents_of g (nr_name ((results @ rs) ! j))) \<subseteq> nr_name ` set (take j (results @ rs))"
      proof (cases "j < length results")
        case True
        then show ?thesis using inv by (simp add: dag_inv_def nth_append)
      next
        case False
        then have "nr_name ((results @ rs) ! j) \<in> set ready"
          using j rset by (simp add: nth_append) (metis nth_mem imageI add_diff_inverse_nat nat_add_left_cancel_less)
        then have "set (parents_of g (nr_name ((results @ rs) ! j))) \<subseteq> completed" using ready by simp
        moreover have "set results \<subseteq> set (take j (results @ rs))" using False by simp
        ultimately show ?thesis using i(1) by blast
      qed
    qed
    show "completed' \<subseteq> set (keys (gr_nodes g))" using c' names(2) inv by (auto simp: dag_inv_def)
    show "\<forall>n \<in> completed'. set (edges_of g n) \<subseteq> completed' \<union> set pending'"
    proof
      fix n assume "n \<in> completed'"
      then consider "n \<in> completed" | "n \<in> nr_name ` set rs" using c' rset by blast
      then show "set (edges_of g n) \<subseteq> completed' \<union> set pending'"
      proof cases
        case 1
        then have "set (edges_of g n) \<subseteq> completed \<union> set pending" by (rule dag_invD(7) [OF inv])
        then show ?thesis using sp c' by blast
      next
        case 2
        then have "set (successors g n st') \<subseteq> set pending' \<union> completed'" using sp by auto
        then show ?thesis by (auto simp: successors_def)
      qed
    qed
    show "map nr_name rs = ready" by (rule names(1))
  qed
qed

lemma exec_loop_inv:
  assumes "exec_loop fuel clock deadline arrange runner g rnd st results pending completed = DagDone res st' ok"
    and "dag_inv g results pending completed" and "arranges arrange"
  shows "dag_inv g res [] (nr_name ` set res) \<and> ok = list_all nr_ok res \<and> (\<exists>rs. res = results @ rs)"
  using assms
proof (induction fuel arbitrary: rnd st results pending completed)
  case 0
  then show ?case by (subst (asm) exec_loop.simps) (auto simp: dag_inv_def split: if_splits)
next
  case (Suc fuel)
  show ?case
  proof (cases "pending = []")
    case True
    then have "res = results" "ok = list_all nr_ok results"
      using Suc.prems(1) by (auto simp: exec_loop.simps [of "Suc fuel"])
    moreover have "completed = nr_name ` set results" by (rule dag_invD(1) [OF Suc.prems(2)])
    ultimately show ?thesis using Suc.prems(2) True by simp
  next
    case False
    define ready where "ready = filter (\<lambda>n. set (parents_of g n) \<subseteq> completed) (arrange pending)"
    from Suc.prems(1) False obtain rs st1 where batch: "run_batch g runner ready st = Some (rs, st1)"
      by (subst (asm) exec_loop.simps) (auto simp: ready_def Let_def split: if_splits option.splits)
    obtain p' c' where set: "settle g st1 rs pending completed = (p', c')" by fastforce
    have "exec_loop fuel clock deadline arrange runner g (Suc rnd) st1 (results @ rs) p' c' = DagDone res st' ok"
      using Suc.prems(1) False batch set
      by (subst (asm) exec_loop.simps) (auto simp: ready_def Let_def split: if_splits)
    from Suc.IH [OF this] dag_inv_round [OF Suc.prems(2,3) ready_def batch set] Suc.prems(3)
    show ?thesis by auto
  qed
qed

lemma dag_inv_start: "dag_inv g [] [e] {}"
  by (simp add: dag_inv_def)

text \<open>
  C20: A run that completes has run every node it reached exactly once, each after all its
  static predecessors, and every static successor of a node it ran; it is ok exactly when
  every node was.
\<close>

theorem dag_runs_each_node_once_after_parents:
  assumes "execute clock timeout_s arrange runner g st = DagDone res st' ok" and "arranges arrange"
  shows "distinct (map nr_name res)
    \<and> (\<forall>i < length res. \<forall>src \<in> set (parents_of g (nr_name (res ! i))). \<exists>j < i. nr_name (res ! j) = src)
    \<and> (\<forall>r \<in> set res. nr_name r \<in> set (keys (gr_nodes g)) \<and> set (edges_of g (nr_name r)) \<subseteq> nr_name ` set res)
    \<and> ok = list_all nr_ok res"
proof -
  obtain e where "exec_loop (Suc (length (gr_nodes g))) clock (clock 0 + timeout_s) arrange runner g 0 st [] [e] {} = DagDone res st' ok"
    using assms(1) by (auto simp: execute_def split: option.splits)
  from exec_loop_inv [OF this dag_inv_start assms(2)]
  have inv: "dag_inv g res [] (nr_name ` set res)" and ok: "ok = list_all nr_ok res" by simp_all
  have "\<exists>j < i. nr_name (res ! j) = src" if "i < length res" "src \<in> set (parents_of g (nr_name (res ! i)))" for i src
  proof -
    have "src \<in> nr_name ` set (take i res)" using inv that by (auto simp: dag_inv_def)
    then obtain r where "r \<in> set (take i res)" "src = nr_name r" by blast
    then show ?thesis by (auto simp: in_set_conv_nth)
  qed
  then show ?thesis using inv ok by (auto simp: dag_inv_def)
qed

definition toy_node :: "string \<Rightarrow> nat node" where
  "toy_node n = \<lparr>nd_name = n, nd_fn = (\<lambda>k. \<lparr>fr_duration = 1, fr_result = FnOk JNull, fr_state = k + 1, fr_cut_state = k\<rparr>),
     nd_soft = None, nd_hard = None\<rparr>"

text \<open>A diamond: \<open>a\<close>, then \<open>b\<close> and \<open>c\<close>, then \<open>d\<close>.\<close>

definition toy_graph :: "nat graph" where
  "toy_graph = \<lparr>gr_nodes = [(''a'', toy_node ''a''), (''b'', toy_node ''b''), (''c'', toy_node ''c''), (''d'', toy_node ''d'')],
     gr_edges = [(''a'', [''b'', ''c'']), (''b'', [''d'']), (''c'', [''d''])], gr_cond = [], gr_entry = Some ''a''\<rparr>"

definition toy_result :: "string \<Rightarrow> node_result" where
  "toy_result n = result_of n True (Output JNull) None False"

lemma toy_run:
  "execute (\<lambda>k. 0) 600 id run_unbounded toy_graph 0
     = DagDone [toy_result ''a'', toy_result ''b'', toy_result ''c'', toy_result ''d''] 4 True"
  by (simp add: execute_def toy_graph_def exec_loop.simps parents_of_def toy_node_def run_unbounded_def Let_def
      result_of_def successors_def edges_of_def toy_result_def)

lemma arranges_id: "arranges id"
  by (simp add: arranges_def)

theorem dag_runs_each_node_once_after_parents_witness:
  "\<exists>j < 3. nr_name ([toy_result ''a'', toy_result ''b'', toy_result ''c'', toy_result ''d''] ! j) = ''c''"
proof -
  let ?res = "[toy_result ''a'', toy_result ''b'', toy_result ''c'', toy_result ''d'']"
  have "''c'' \<in> set (parents_of toy_graph (nr_name (?res ! 3)))"
    by (simp add: parents_of_def toy_graph_def toy_result_def result_of_def)
  then show ?thesis using dag_runs_each_node_once_after_parents [OF toy_run arranges_id] by fastforce
qed

section \<open>Cycles\<close>

definition static_edge :: "'st graph \<Rightarrow> (string \<times> string) set" where
  "static_edge g = {(src, dst). src \<in> set (parents_of g dst)}"

lemma earlier_path:
  assumes par: "\<And>i src. i < length res \<Longrightarrow> src \<in> set (parents_of g (nr_name (res ! i))) \<Longrightarrow> \<exists>j < i. nr_name (res ! j) = src"
    and path: "(a, b) \<in> (static_edge g)\<^sup>+" and i: "i < length res" "nr_name (res ! i) = b"
  shows "\<exists>j < i. nr_name (res ! j) = a"
  using path i
proof (induction arbitrary: i rule: trancl_induct)
  case (base b)
  then show ?case using par by (auto simp: static_edge_def)
next
  case (step b c)
  then have "b \<in> set (parents_of g (nr_name (res ! i)))" by (simp add: static_edge_def)
  then obtain k where "k < i" "nr_name (res ! k) = b" using par step.prems(1) by blast
  with step.IH [of k] step.prems show ?case by (meson less_trans)
qed

text \<open>
  A cycle of static edges is never run: if the run completes, no node it ran lies on
  one (a graph whose entry reaches a static cycle stalls or fails instead).
\<close>

theorem static_cycles_never_complete:
  assumes "execute clock timeout_s arrange runner g st = DagDone res st' ok" and "arranges arrange" and "r \<in> set res"
  shows "(nr_name r, nr_name r) \<notin> (static_edge g)\<^sup>+"
proof
  assume cyc: "(nr_name r, nr_name r) \<in> (static_edge g)\<^sup>+"
  obtain e where run: "exec_loop (Suc (length (gr_nodes g))) clock (clock 0 + timeout_s) arrange runner g 0 st [] [e] {} = DagDone res st' ok"
    using assms(1) by (auto simp: execute_def split: option.splits)
  have inv: "dag_inv g res [] (nr_name ` set res)"
    by (rule conjunct1 [OF exec_loop_inv [OF run dag_inv_start assms(2)]])
  have par: "\<exists>j < i. nr_name (res ! j) = src" if "i < length res" "src \<in> set (parents_of g (nr_name (res ! i)))" for i src
  proof -
    have "src \<in> nr_name ` set (take i res)" using inv that by (auto simp: dag_inv_def)
    then obtain x where "x \<in> set (take i res)" "src = nr_name x" by blast
    then show ?thesis by (auto simp: in_set_conv_nth)
  qed
  obtain i where i: "i < length res" "res ! i = r" using assms(3) by (auto simp: in_set_conv_nth)
  then obtain j where j: "j < i" "nr_name (res ! j) = nr_name r"
    using earlier_path [OF par cyc] by blast
  have "distinct (map nr_name res)" using inv by (simp add: dag_inv_def)
  then show False using i j nth_eq_iff_index_eq [of "map nr_name res" i j] by simp
qed

theorem static_cycles_never_complete_witness:
  "(''d'', ''d'') \<notin> (static_edge toy_graph)\<^sup>+"
  using static_cycles_never_complete [OF toy_run arranges_id, of "toy_result ''d''"]
  by (simp add: toy_result_def result_of_def)

text \<open>A cycle closed by a conditional edge is not rejected: the edge back is ignored.\<close>

definition cyclic_graph :: "nat graph" where
  "cyclic_graph = \<lparr>gr_nodes = [(''a'', toy_node ''a''), (''b'', toy_node ''b'')],
     gr_edges = [(''a'', [''b''])], gr_cond = [(''b'', \<lambda>st. [''a''])], gr_entry = Some ''a''\<rparr>"

lemma conditional_cycle_accepted:
  "execute (\<lambda>k. 0) 600 id run_unbounded cyclic_graph 0 = DagDone [toy_result ''a'', toy_result ''b''] 2 True"
  by (simp add: execute_def cyclic_graph_def exec_loop.simps parents_of_def toy_node_def run_unbounded_def Let_def
      result_of_def successors_def edges_of_def toy_result_def)

section \<open>Termination\<close>

lemma exec_loop_enough_fuel:
  assumes "dag_inv g results pending completed" and "arranges arrange"
    and "length (gr_nodes g) < fuel + card completed"
  shows "exec_loop fuel clock deadline arrange runner g rnd st results pending completed \<noteq> OutOfFuel"
  using assms
proof (induction fuel arbitrary: rnd st results pending completed)
  case 0
  have "card completed \<le> card (set (keys (gr_nodes g)))"
    by (rule card_mono [OF _ dag_invD(6) [OF 0(1)]]) simp
  also have "\<dots> \<le> length (gr_nodes g)" using card_length [of "keys (gr_nodes g)"] by simp
  finally show ?case using 0(3) by simp
next
  case (Suc n)
  define ready where "ready = filter (\<lambda>n. set (parents_of g n) \<subseteq> completed) (arrange pending)"
  show ?case
  proof (cases "pending = [] \<or> clock rnd > deadline \<or> ready = [] \<or> run_batch g runner ready st = None")
    case True
    then show ?thesis by (auto simp: exec_loop.simps [of "Suc n"] ready_def Let_def)
  next
    case False
    then obtain rs st1 where batch: "run_batch g runner ready st = Some (rs, st1)" by auto
    obtain p' c' where set: "settle g st1 rs pending completed = (p', c')" by fastforce
    note rnd_inv = dag_inv_round [OF Suc.prems(1,2) ready_def batch set]
    have eq: "exec_loop (Suc n) clock deadline arrange runner g rnd st results pending completed
        = exec_loop n clock deadline arrange runner g (Suc rnd) st1 (results @ rs) p' c'"
      using False batch set by (simp add: exec_loop.simps [of "Suc n"] ready_def Let_def)
    have names: "map nr_name rs = ready" and inv': "dag_inv g (results @ rs) p' c'" using rnd_inv by simp_all
    have "c' = nr_name ` set (results @ rs)" "distinct (map nr_name (results @ rs))"
      by (rule dag_invD [OF inv'])+
    then have "card c' = length (results @ rs)" by (metis distinct_card length_map list.set_map)
    moreover have "completed = nr_name ` set results" "distinct (map nr_name results)"
      by (rule dag_invD [OF Suc.prems(1)])+
    then have "card completed = length results" by (metis distinct_card length_map list.set_map)
    moreover have "0 < length rs" using names False by auto
    ultimately have "length (gr_nodes g) < n + card c'" using Suc.prems(3) by (simp only: length_append)
    then show ?thesis using Suc.IH [OF inv' Suc.prems(2)] eq by simp
  qed
qed

text \<open>
  C24: The runner always comes to an end, conditional edges and cycles included: it needs at
  most one round more than the graph has nodes.
\<close>

theorem dag_execution_terminates:
  assumes "arranges arrange"
  shows "execute clock timeout_s arrange runner g st \<noteq> OutOfFuel"
proof (cases "gr_entry g")
  case (Some e)
  have "length (gr_nodes g) < Suc (length (gr_nodes g)) + card ({} :: string set)" by simp
  from exec_loop_enough_fuel [OF dag_inv_start assms this] Some show ?thesis by (simp add: execute_def)
qed (simp add: execute_def)

theorem dag_execution_terminates_witness:
  "execute (\<lambda>k. 0) 600 id run_unbounded cyclic_graph 0 \<noteq> OutOfFuel"
  by (rule dag_execution_terminates [OF arranges_id])

section \<open>The SLA wrapper\<close>

text \<open>
  Under the SLA wrapper a node that runs longer than its hard limit (its own, or the
  table's) is cut with a stub naming it, marked failed and timed out; any other node keeps
  its own outcome, and a node without a limit is never cut.
\<close>

theorem sla_cuts_exactly_overruns:
  "(case hard_limit nd of
      None \<Rightarrow> \<not> nr_timed_out (fst (with_sla_timeout fmt nd st))
    | Some h \<Rightarrow>
        nr_timed_out (fst (with_sla_timeout fmt nd st))
          = (fr_duration (nd_fn nd st) > h \<or> fr_result (nd_fn nd st) = FnTimeoutError)
        \<and> nr_timed_out (fst (with_sla_timeout fmt nd st))
          = (nr_output (fst (with_sla_timeout fmt nd st)) = SLAStub (nd_name nd)))
    \<and> nr_ok (fst (with_sla_timeout fmt nd st))
      = ((\<exists>v. fr_result (nd_fn nd st) = FnOk v) \<and> (case hard_limit nd of None \<Rightarrow> True | Some h \<Rightarrow> fr_duration (nd_fn nd st) \<le> h))"
  by (cases "fr_result (nd_fn nd st)")
    (auto simp: with_sla_timeout_def run_unbounded_def result_of_def Let_def not_less split: option.splits)

end
