(* ===== verification/AgentClient.thy ===== *)
theory AgentClient
  imports Json Breaker
begin

text \<open>
  How the orchestrator calls an agent (\<^verbatim>\<open>apps/orchestrator/orchestrator/plan/agent_client.py\<close>).
  A client is a function of the agent's name, the payload and the world behind it; HTTP and
  NATS transports are parameters. \<open>httpx_call\<close> is the production client: base URL, transport
  flag, per-agent breaker, and the degraded answer when the breaker is open.
\<close>

section \<open>Calls and answers\<close>

datatype call_out = Answered "(string, json) dict" | CallRaised string | CallTimeoutError

type_synonym 'c agent_client = "string \<Rightarrow> json \<Rightarrow> 'c \<Rightarrow> call_out \<times> 'c"

definition breaker_open_response :: "string \<Rightarrow> (string, json) dict" where
  "breaker_open_response agent =
     [(''agent'', JStr agent), (''ok'', JBool False), (''advices'', JArr []), (''_breaker_open'', JBool True),
      (''_target'', JStr agent)]"

text \<open>The stub client: a table of answers and a log of the calls.\<close>

definition stub_call :: "(string, (string, json) dict) dict \<Rightarrow> (string \<times> json) list agent_client" where
  "stub_call responses agent payload calls =
     (Answered (case map_of responses agent of Some r \<Rightarrow> r | None \<Rightarrow> [(''agent'', JStr agent), (''ok'', JBool True)]),
      calls @ [(agent, payload)])"

text \<open>\<open>str(KeyError(m))\<close> is the repr of \<open>m\<close>, which has no quote in it here.\<close>

definition no_base_url :: "string \<Rightarrow> string" where
  "no_base_url agent = CHR 0x27 # ''no base URL configured for agent='' @ agent @ [CHR 0x27]"

record 'e httpx_world =
  hw_breaker :: breaker_registry
  hw_net :: 'e

text \<open>
  What the client relies on: the two transports and the monotonic clock, as functions of
  the network behind them.
\<close>

record 'e transports =
  send_http :: "string \<Rightarrow> json \<Rightarrow> 'e \<Rightarrow> call_out \<times> 'e"
  send_nats :: "string \<Rightarrow> json \<Rightarrow> 'e \<Rightarrow> call_out \<times> 'e"
  monotonic :: "'e \<Rightarrow> seconds"

fun outcome_of :: "call_out \<Rightarrow> outcome" where
  "outcome_of (Answered r) = Returned"
| "outcome_of _ = Raised"

definition httpx_call :: "'e transports \<Rightarrow> bool \<Rightarrow> (string, string) dict \<Rightarrow> 'e httpx_world agent_client" where
  "httpx_call tr use_nats base agent payload w =
     (case map_of base agent of
        None \<Rightarrow> (CallRaised (no_base_url agent), w)
      | Some url \<Rightarrow>
          (case begin_call (hw_breaker w) (monotonic tr (hw_net w)) agent of
             (Rejected, br) \<Rightarrow> (Answered (breaker_open_response agent), w\<lparr>hw_breaker := br\<rparr>)
           | (adm, br) \<Rightarrow>
               (let (r, net) = (if use_nats then send_nats tr agent payload (hw_net w)
                                else send_http tr (url @ ''/run'') payload (hw_net w))
                in (r, \<lparr>hw_breaker = end_call br (monotonic tr net) agent adm (outcome_of r), hw_net = net\<rparr>))))"

section \<open>What a call does\<close>

lemma httpx_unknown_agent:
  "map_of base agent = None \<Longrightarrow> httpx_call tr n base agent payload w = (CallRaised (no_base_url agent), w)"
  by (simp add: httpx_call_def)

text \<open>A call touches no other agent's breaker.\<close>

lemma httpx_call_other_breaker:
  "b \<noteq> agent \<Longrightarrow> st_of (hw_breaker (snd (httpx_call tr n base agent payload w))) b = st_of (hw_breaker w) b"
  using st_of_begin_other [of b agent "hw_breaker w" "monotonic tr (hw_net w)"] st_of_end_other [of b agent]
  by (auto simp: httpx_call_def Let_def split: option.splits prod.splits admission.splits)

definition degraded :: "string \<Rightarrow> call_out \<Rightarrow> bool" where
  "degraded agent r \<longleftrightarrow> r = Answered (breaker_open_response agent)"

text \<open>
  An agent whose breaker tripped less than the cooldown ago: the answer is the degraded one
  and the network is not touched.
\<close>

lemma httpx_call_tripped:
  assumes "map_of base agent = Some url" and "st_state (st_of (hw_breaker w) agent) = OPEN"
    and "monotonic tr (hw_net w) - st_opened_at (st_of (hw_breaker w) agent) < br_cooldown (hw_breaker w)"
  shows "fst (httpx_call tr n base agent payload w) = Answered (breaker_open_response agent)"
    and "hw_net (snd (httpx_call tr n base agent payload w)) = hw_net w"
    and "st_of (hw_breaker (snd (httpx_call tr n base agent payload w))) agent = st_of (hw_breaker w) agent"
    and "br_cooldown (hw_breaker (snd (httpx_call tr n base agent payload w))) = br_cooldown (hw_breaker w)"
  using assms by (auto simp: httpx_call_def begin_call_def maybe_half_open_def state_of_def Let_def)

text \<open>\<open>n\<close> calls of one agent in a row.\<close>

fun call_times :: "nat \<Rightarrow> 'c agent_client \<Rightarrow> string \<Rightarrow> json \<Rightarrow> 'c \<Rightarrow> call_out list \<times> 'c" where
  "call_times 0 client agent payload w = ([], w)"
| "call_times (Suc k) client agent payload w =
     (let (r, w1) = client agent payload w; (rs, w2) = call_times k client agent payload w1 in (r # rs, w2))"

text \<open>A transport that fails whenever this agent is called, on a clock within one window.\<close>

definition dead :: "'e transports \<Rightarrow> bool \<Rightarrow> string \<Rightarrow> string \<Rightarrow> json \<Rightarrow> bool" where
  "dead tr n url agent payload \<longleftrightarrow>
     (\<forall>net. outcome_of (fst (if n then send_nats tr agent payload net else send_http tr (url @ ''/run'') payload net)) = Raised)"

definition clock_within :: "'e transports \<Rightarrow> seconds \<Rightarrow> seconds \<Rightarrow> bool" where
  "clock_within tr t d \<longleftrightarrow> (\<forall>net. t \<le> monotonic tr net \<and> monotonic tr net < t + d)"

lemma dead_call_closed:
  assumes base: "map_of base agent = Some url" and dead: "dead tr n url agent payload" and clock: "clock_within tr t cd"
    and "st_state (st_of (hw_breaker w) agent) = CLOSED" and "br_cooldown (hw_breaker w) = cd"
    and "st_failures (st_of (hw_breaker w) agent) = f" and "br_threshold (hw_breaker w) = thr"
    and "httpx_call tr n base agent payload w = (r, w')"
  shows "outcome_of r = Raised \<and> br_cooldown (hw_breaker w') = cd \<and> br_threshold (hw_breaker w') = thr
    \<and> (if f + 1 < thr
       then st_state (st_of (hw_breaker w') agent) = CLOSED \<and> st_failures (st_of (hw_breaker w') agent) = f + 1
       else st_state (st_of (hw_breaker w') agent) = OPEN \<and> t \<le> st_opened_at (st_of (hw_breaker w') agent))"
proof -
  define s where "s = (if n then send_nats tr agent payload (hw_net w) else send_http tr (url @ ''/run'') payload (hw_net w))"
  have raised: "outcome_of (fst s) = Raised" using dead unfolding dead_def s_def by blast
  have "t \<le> monotonic tr (snd s)" using clock by (simp add: clock_within_def)
  then show ?thesis using assms base raised
    by (auto simp: httpx_call_def begin_call_def maybe_half_open_def state_of_def Let_def s_def [symmetric] case_prod_beta)
qed

lemma dead_calls_trip:
  assumes net: "map_of base agent = Some url" "dead tr n url agent payload" "clock_within tr t cd"
    and start: "st_state (st_of (hw_breaker w) agent) = CLOSED" "br_cooldown (hw_breaker w) = cd"
      "st_failures (st_of (hw_breaker w) agent) + int (Suc k) = br_threshold (hw_breaker w)"
      "call_times (Suc k) (httpx_call tr n base) agent payload w = (rs, w')"
  shows "list_all (\<lambda>r. outcome_of r = Raised) rs \<and> length rs = Suc k \<and> br_cooldown (hw_breaker w') = cd
    \<and> st_state (st_of (hw_breaker w') agent) = OPEN \<and> t \<le> st_opened_at (st_of (hw_breaker w') agent)"
  using start
proof (induction k arbitrary: w rs)
  case 0
  obtain r w1 where c: "httpx_call tr n base agent payload w = (r, w1)" by fastforce
  from dead_call_closed [OF net 0(1,2) refl refl c] show ?case using 0(3,4) c by auto
next
  case (Suc k)
  obtain r w1 where c: "httpx_call tr n base agent payload w = (r, w1)" by fastforce
  obtain rs' where rest: "call_times (Suc k) (httpx_call tr n base) agent payload w1 = (rs', w')" "rs = r # rs'"
    using Suc.prems(4) c unfolding call_times.simps(2) [of "Suc k"] by (auto simp: Let_def split: prod.splits)
  have step: "outcome_of r = Raised" "br_cooldown (hw_breaker w1) = cd" "br_threshold (hw_breaker w1) = br_threshold (hw_breaker w)"
    "st_state (st_of (hw_breaker w1) agent) = CLOSED"
    "st_failures (st_of (hw_breaker w1) agent) = st_failures (st_of (hw_breaker w) agent) + 1"
    using dead_call_closed [OF net Suc.prems(1,2) refl refl c] Suc.prems(3) by (auto split: if_splits)
  have "st_failures (st_of (hw_breaker w1) agent) + int (Suc k) = br_threshold (hw_breaker w1)"
    using step Suc.prems(3) by simp
  from Suc.IH [OF step(4,2) this rest(1)] show ?case using step(1) rest(2) by simp
qed

lemma tripped_calls_degraded:
  assumes base: "map_of base agent = Some url" and clock: "clock_within tr t cd"
    and start: "st_state (st_of (hw_breaker w) agent) = OPEN" "br_cooldown (hw_breaker w) = cd"
      "t \<le> st_opened_at (st_of (hw_breaker w) agent)"
      "call_times k (httpx_call tr n base) agent payload w = (rs, w')"
  shows "rs = replicate k (Answered (breaker_open_response agent)) \<and> hw_net w' = hw_net w"
  using start
proof (induction k arbitrary: w rs)
  case (Suc k)
  obtain r w1 where c: "httpx_call tr n base agent payload w = (r, w1)" by fastforce
  have "monotonic tr (hw_net w) < t + cd" using clock by (simp add: clock_within_def)
  then have soon: "monotonic tr (hw_net w) - st_opened_at (st_of (hw_breaker w) agent) < br_cooldown (hw_breaker w)"
    using Suc.prems(2,3) by simp
  note one = httpx_call_tripped [OF base Suc.prems(1) soon, of n payload, unfolded c fst_conv snd_conv]
  obtain rs' where rest: "call_times k (httpx_call tr n base) agent payload w1 = (rs', w')" "rs = r # rs'"
    using Suc.prems(4) c by (auto simp: Let_def split: prod.splits)
  have "rs' = replicate k (Answered (breaker_open_response agent)) \<and> hw_net w' = hw_net w1"
    by (rule Suc.IH [OF _ _ _ rest(1)]) (use one Suc.prems in simp_all)
  then show ?case using one rest(2) by simp
qed simp

lemma call_times_append:
  "call_times (j + k) c a p w =
     (let (rs, w1) = call_times j c a p w; (rs', w2) = call_times k c a p w1 in (rs @ rs', w2))"
  by (induction j arbitrary: w) (simp_all add: Let_def case_prod_beta)

text \<open>
  An agent whose transport always fails is contacted exactly as often as the failure
  threshold; until the cooldown is over, every later call is answered with the degraded
  response and does not touch the network.
\<close>

theorem dead_agent_contacted_threshold_times:
  assumes "map_of base agent = Some url" and "dead tr n url agent payload" and "clock_within tr t cd" and "0 < thr"
  shows "\<exists>rs w. call_times thr (httpx_call tr n base) agent payload
        \<lparr>hw_breaker = new_registry (int thr) cd, hw_net = net\<rparr> = (rs, w)
      \<and> length rs = thr \<and> list_all (\<lambda>r. outcome_of r = Raised) rs
      \<and> (\<forall>k. \<exists>w'. call_times (thr + k) (httpx_call tr n base) agent payload
            \<lparr>hw_breaker = new_registry (int thr) cd, hw_net = net\<rparr>
          = (rs @ replicate k (Answered (breaker_open_response agent)), w') \<and> hw_net w' = hw_net w)"
proof -
  let ?w = "\<lparr>hw_breaker = new_registry (int thr) cd, hw_net = net\<rparr>"
  obtain j where j: "thr = Suc j" using assms(4) gr0_conv_Suc by blast
  obtain rs w where first: "call_times thr (httpx_call tr n base) agent payload ?w = (rs, w)" by fastforce
  have init: "st_state (st_of (hw_breaker ?w) agent) = CLOSED" "br_cooldown (hw_breaker ?w) = cd"
    "st_failures (st_of (hw_breaker ?w) agent) + int (Suc j) = br_threshold (hw_breaker ?w)"
    by (simp_all add: new_registry_def st_of_def new_breaker_state_def j)
  have trip: "list_all (\<lambda>r. outcome_of r = Raised) rs \<and> length rs = Suc j \<and> br_cooldown (hw_breaker w) = cd
    \<and> st_state (st_of (hw_breaker w) agent) = OPEN \<and> t \<le> st_opened_at (st_of (hw_breaker w) agent)"
    by (rule dead_calls_trip [OF assms(1-3) init]) (use first in \<open>simp only: j\<close>)
  have "\<exists>w'. call_times (thr + k) (httpx_call tr n base) agent payload ?w
      = (rs @ replicate k (Answered (breaker_open_response agent)), w') \<and> hw_net w' = hw_net w" for k
  proof -
    obtain rs' w' where rest: "call_times k (httpx_call tr n base) agent payload w = (rs', w')" by fastforce
    have "rs' = replicate k (Answered (breaker_open_response agent)) \<and> hw_net w' = hw_net w"
      by (rule tripped_calls_degraded [OF assms(1,3) _ _ _ rest]) (use trip in simp_all)
    then show ?thesis using rest first by (simp add: call_times_append)
  qed
  then show ?thesis using first trip j by blast
qed

definition dead_net :: "unit transports" where
  "dead_net = \<lparr>send_http = (\<lambda>url p e. (CallRaised ''connection refused'', e)),
     send_nats = (\<lambda>a p e. (CallTimeoutError, e)), monotonic = (\<lambda>e. 100)\<rparr>"

theorem dead_agent_contacted_threshold_times_witness:
  "\<exists>rs w. call_times 5 (httpx_call dead_net False [(''agent_quant'', ''http://agent_quant:8083'')]) ''agent_quant'' JNull
        \<lparr>hw_breaker = new_registry (int 5) 60, hw_net = ()\<rparr> = (rs, w)
      \<and> length rs = 5 \<and> list_all (\<lambda>r. outcome_of r = Raised) rs
      \<and> (\<forall>k. \<exists>w'. call_times (5 + k) (httpx_call dead_net False [(''agent_quant'', ''http://agent_quant:8083'')]) ''agent_quant'' JNull
            \<lparr>hw_breaker = new_registry (int 5) 60, hw_net = ()\<rparr>
          = (rs @ replicate k (Answered (breaker_open_response ''agent_quant'')), w') \<and> hw_net w' = hw_net w)"
  by (rule dead_agent_contacted_threshold_times [where t = 100]) (simp_all add: dead_def clock_within_def dead_net_def)

end
