(* ===== verification/PyStd.thy ===== *)
theory PyStd
  imports Json
begin

text \<open>
  What several components use of Python's builtins on JSON values and strings: \<open>str\<close>,
  \<open>float\<close>, \<open>or\<close>, iteration, \<open>len\<close>, \<open>format(x, '.2f')\<close> and \<open>split()\<close>. \<open>str(v)\<close> of
  a value that is no string, \<open>float(s)\<close> of a string and \<open>repr(s)\<close> are fields of
  \<open>pystd\<close>. A JSON number with an integral value counts as an int.
\<close>

section \<open>Values\<close>

record pystd =
  py_str :: "json \<Rightarrow> string"
  py_float :: "string \<Rightarrow> rat option"
  py_repr :: "string \<Rightarrow> string"

definition py_ascii :: pystd where
  "py_ascii = \<lparr>py_str = (\<lambda>v. '''') , py_float = (\<lambda>s. None), py_repr = id\<rparr>"

definition to_str :: "pystd \<Rightarrow> json \<Rightarrow> string" where
  "to_str py v = (case v of JStr s \<Rightarrow> s | _ \<Rightarrow> py_str py v)"

fun float_of :: "pystd \<Rightarrow> json \<Rightarrow> rat option" where
  "float_of py (JNum r) = Some r"
| "float_of py (JBool b) = Some (if b then 1 else 0)"
| "float_of py (JStr s) = py_float py s"
| "float_of py _ = None"

text \<open>\<open>a or b\<close> on values, with a missing key read as None.\<close>

definition jor :: "json \<Rightarrow> json \<Rightarrow> json" where
  "jor a b = (if truthy a then a else b)"

abbreviation field_of :: "(string, json) dict \<Rightarrow> string \<Rightarrow> json" where
  "field_of d k \<equiv> jget_or (JObj d) k JNull"

text \<open>Iterating over a value: a string gives its characters, a dict its keys.\<close>

fun iterate :: "json \<Rightarrow> string + json list" where
  "iterate (JArr xs) = Inr xs"
| "iterate (JStr s) = Inr (map (\<lambda>c. JStr [c]) s)"
| "iterate (JObj d) = Inr (map (JStr \<circ> fst) d)"
| "iterate v = Inl (CHR 0x27 # type_name v @ [CHR 0x27] @ '' object is not iterable'')"

text \<open>\<open>d.get(k)\<close> on a dict, \<open>None\<close> for a missing key.\<close>

definition dget :: "(string, json) dict \<Rightarrow> string \<Rightarrow> json" where
  "dget d k = (case map_of d k of None \<Rightarrow> JNull | Some v \<Rightarrow> v)"

text \<open>\<open>len(v)\<close>.\<close>

fun len_of :: "json \<Rightarrow> string + nat" where
  "len_of (JStr s) = Inr (length s)"
| "len_of (JArr xs) = Inr (length xs)"
| "len_of (JObj d) = Inr (length d)"
| "len_of v = Inl (''object of type '' @ [CHR 0x27] @ type_name v @ [CHR 0x27] @ '' has no len()'')"

definition jnat :: "nat \<Rightarrow> json" where
  "jnat n = JNum (of_nat n)"

section \<open>Text\<close>

text \<open>The em dash of the source's messages: one character, written with a code of its own.\<close>

definition em_dash :: string where
  "em_dash = [CHR 0x97]"

text \<open>\<open>format(x, '.2f')\<close> of a score, ties to even.\<close>

definition round_half_even :: "rat \<Rightarrow> int" where
  "round_half_even x =
     (let n = \<lfloor>x\<rfloor>; d = x - of_int n in
      if d < 1/2 then n else if d > 1/2 then n + 1 else if even n then n else n + 1)"

definition fmt2 :: "rat \<Rightarrow> string" where
  "fmt2 x = (let n = nat (round_half_even (100 * x)) in
     show_nat (n div 100) @ ''.'' @ show_nat (n mod 100 div 10) @ show_nat (n mod 10))"

text \<open>\<open>s.split()\<close>: the maximal runs of characters that are no white space.\<close>

lemma words_step:
  assumes "dropWhile is_space s \<noteq> []"
  shows "length (dropWhile (\<lambda>c. \<not> is_space c) (dropWhile is_space s)) < length s"
proof -
  obtain c s2 where s2: "dropWhile is_space s = c # s2" using assms by (cases "dropWhile is_space s") simp
  then have "\<not> is_space c" by (metis hd_dropWhile list.sel(1) list.simps(3))
  then have "length (dropWhile (\<lambda>c. \<not> is_space c) (dropWhile is_space s)) = length (dropWhile (\<lambda>c. \<not> is_space c) s2)"
    by (simp add: s2)
  also have "\<dots> < length (dropWhile is_space s)" using length_dropWhile_le [of "\<lambda>c. \<not> is_space c" s2] by (simp add: s2)
  also have "\<dots> \<le> length s" by (rule length_dropWhile_le)
  finally show ?thesis .
qed

function words_of :: "string \<Rightarrow> string list" where
  "words_of s =
     (let s1 = dropWhile is_space s in
      if s1 = [] then [] else takeWhile (\<lambda>c. \<not> is_space c) s1 # words_of (dropWhile (\<lambda>c. \<not> is_space c) s1))"
  by auto
termination
  by (relation "measure length") (simp_all add: words_step)

declare words_of.simps [simp del]

section \<open>Whole numbers in text\<close>

definition in_range :: "char \<Rightarrow> char \<Rightarrow> char \<Rightarrow> bool" where
  "in_range lo hi c \<longleftrightarrow> (of_char lo :: nat) \<le> of_char c \<and> (of_char c :: nat) \<le> of_char hi"

definition is_digit :: "char \<Rightarrow> bool" where
  "is_digit c = in_range CHR ''0'' CHR ''9'' c"

definition is_lower :: "char \<Rightarrow> bool" where
  "is_lower c = in_range CHR ''a'' CHR ''z'' c"

definition is_upper :: "char \<Rightarrow> bool" where
  "is_upper c = in_range CHR ''A'' CHR ''Z'' c"

text \<open>\<open>int(s)\<close> of a string in ASCII: an optional sign, digits, single underscores between them.\<close>

fun read_digits :: "bool \<Rightarrow> nat \<Rightarrow> string \<Rightarrow> nat option" where
  "read_digits prev acc [] = (if prev then Some acc else None)"
| "read_digits prev acc (c # s) =
     (if is_digit c then read_digits True (10 * acc + (of_char c - 48)) s
      else if c = CHR ''_'' \<and> prev then read_digits False acc s
      else None)"

definition py_int :: "string \<Rightarrow> int option" where
  "py_int s =
     (case strip s of
        [] \<Rightarrow> None
      | c # t \<Rightarrow> if c = CHR ''-'' then map_option (\<lambda>n. - int n) (read_digits False 0 t)
                 else if c = CHR ''+'' then map_option int (read_digits False 0 t)
                 else map_option int (read_digits False 0 (c # t)))"

text \<open>\<open>int(v)\<close> of a JSON value.\<close>

definition int_of_json :: "json \<Rightarrow> exn + int" where
  "int_of_json v =
     (case v of
        JNum r \<Rightarrow> Inr (trunc r)
      | JBool b \<Rightarrow> Inr (if b then 1 else 0)
      | JStr s \<Rightarrow> (case py_int s of None \<Rightarrow> Inl (ValueError s) | Some n \<Rightarrow> Inr n)
      | _ \<Rightarrow> Inl TypeError)"

text \<open>\<open>t in s\<close> on strings.\<close>

fun occurs_in :: "string \<Rightarrow> string \<Rightarrow> bool" where
  "occurs_in t [] = (t = [])"
| "occurs_in t (c # s) = (starts_with t (c # s) \<or> occurs_in t s)"

section \<open>Lines\<close>

text \<open>\<open>str.splitlines\<close> on ASCII.\<close>

definition line_break :: "char \<Rightarrow> bool" where
  "line_break c \<longleftrightarrow> (let n = of_char c :: nat in 10 \<le> n \<and> n \<le> 13 \<or> 28 \<le> n \<and> n \<le> 30)"

fun lines_loop :: "string \<Rightarrow> string \<Rightarrow> string list" where
  "lines_loop acc [] = (if acc = [] then [] else [rev acc])"
| "lines_loop acc (c # s) =
     (if line_break c
      then rev acc # lines_loop [] (if c = CHR 0x0D \<and> s \<noteq> [] \<and> hd s = CHR 0x0A then tl s else s)
      else lines_loop (c # acc) s)"

definition splitlines :: "string \<Rightarrow> string list" where
  "splitlines s = lines_loop [] s"

lemma lines_loop_line:
  "list_all (\<lambda>c. \<not> line_break c) l \<Longrightarrow> lines_loop acc (l @ CHR 0x0A # s) = (rev acc @ l) # lines_loop [] s"
proof (induction l arbitrary: acc)
  case Nil
  have "line_break CHR 0x0A" by code_simp
  then show ?case by simp
qed simp

lemma lines_loop_last: "list_all (\<lambda>c. \<not> line_break c) l \<Longrightarrow> lines_loop acc l = (if rev acc @ l = [] then [] else [rev acc @ l])"
  by (induction l arbitrary: acc) auto

text \<open>Lines that hold no line break are what \<open>splitlines\<close> gives of them joined, if the last one is not empty.\<close>

lemma splitlines_join:
  "list_all (list_all (\<lambda>c. \<not> line_break c)) ls \<Longrightarrow> ls = [] \<or> last ls \<noteq> [] \<Longrightarrow> splitlines (join_with [CHR 0x0A] ls) = ls"
  unfolding splitlines_def
  by (induction "[CHR 0x0A]" ls rule: join_with.induct) (auto simp: lines_loop_line lines_loop_last)

lemma splitlines_join_ended:
  "list_all (list_all (\<lambda>c. \<not> line_break c)) ls \<Longrightarrow> ls \<noteq> [] \<Longrightarrow> splitlines (join_with [CHR 0x0A] ls @ [CHR 0x0A]) = ls"
  unfolding splitlines_def
  by (induction "[CHR 0x0A]" ls rule: join_with.induct) (auto simp: lines_loop_line)

section \<open>Lengths of texts\<close>

lemma length_show_nat_digit: "n < 10 \<Longrightarrow> length (show_nat n) = 1"
  by (simp add: show_nat.simps)

lemma length_fmt2_unit:
  assumes "0 \<le> x" and "x \<le> 1"
  shows "length (fmt2 x) = 4"
proof -
  have "round_half_even (100 * x) \<le> 100"
  proof (cases "x = 1")
    case False
    then have "\<lfloor>100 * x\<rfloor> < 100" using assms by (simp add: floor_less_iff)
    then show ?thesis by (auto simp: round_half_even_def Let_def)
  qed (simp add: round_half_even_def)
  then have "nat (round_half_even (100 * x)) \<le> 100" by simp
  then have "nat (round_half_even (100 * x)) div 100 < 10" "nat (round_half_even (100 * x)) mod 100 div 10 < 10" by simp_all
  then show ?thesis by (simp add: fmt2_def Let_def length_show_nat_digit)
qed

lemma length_join: "(\<And>w. w \<in> set ws \<Longrightarrow> length w \<le> k) \<Longrightarrow> length (join_with sep ws) \<le> (k + length sep) * length ws"
  by (induction sep ws rule: join_with.induct) (fastforce simp: algebra_simps)+

end
