(* ===== verification/AgentDags.thy ===== *)
theory AgentDags
  imports DagRunner AgentClient PyStd
begin

text \<open>
  What the orchestrator's DAGs share: building a graph from its nodes and edges, the bodies of
  nodes that call an agent, and the run of a graph that is a chain.
\<close>

section \<open>Building\<close>

fun add_nodes :: "'st node list \<Rightarrow> 'st graph \<Rightarrow> exn + 'st graph" where
  "add_nodes [] g = Inr g"
| "add_nodes (nd # nds) g = res_bind (add_node nd g) (add_nodes nds)"

definition add_edges :: "(string \<times> string) list \<Rightarrow> 'st graph \<Rightarrow> 'st graph" where
  "add_edges es g = fold (\<lambda>(src, dst). add_edge src dst) es g"

definition build_graph :: "'st node list \<Rightarrow> string \<Rightarrow> (string \<times> string) list \<Rightarrow> exn + 'st graph" where
  "build_graph nds entry es = res_bind (add_nodes nds empty_graph) (\<lambda>g. Inr (add_edges es (set_entry entry g)))"

section \<open>Node bodies\<close>

text \<open>
  A body takes the state and gives what it ends with and the state it leaves. How long it
  takes and the state in which a cancellation finds it are the environment's: \<open>timing\<close>.
\<close>

type_synonym 'st body = "'st \<Rightarrow> fn_result \<times> 'st"
type_synonym 'st timing = "string \<Rightarrow> 'st \<Rightarrow> seconds \<times> 'st"

definition mk_node :: "'st timing \<Rightarrow> string \<Rightarrow> (seconds \<times> seconds) option \<Rightarrow> 'st body \<Rightarrow> 'st node" where
  "mk_node timing n limits body =
     \<lparr>nd_name = n,
      nd_fn = (\<lambda>st. \<lparr>fr_duration = fst (timing n st), fr_result = fst (body st), fr_state = snd (body st),
                     fr_cut_state = snd (timing n st)\<rparr>),
      nd_soft = map_option fst limits, nd_hard = map_option snd limits\<rparr>"

lemma mk_node_simps [simp]:
  "nd_name (mk_node timing n limits body) = n"
  "nd_hard (mk_node timing n limits body) = map_option snd limits"
  by (simp_all add: mk_node_def)

fun raised :: "call_out \<Rightarrow> fn_result" where
  "raised (CallRaised e) = FnRaised e"
| "raised CallTimeoutError = FnTimeoutError"
| "raised (Answered r) = FnOk (JObj r)"

fun call_error_text :: "call_out \<Rightarrow> string" where
  "call_error_text (CallRaised e) = e"
| "call_error_text _ = ''''"

definition no_attribute :: "json \<Rightarrow> string \<Rightarrow> string" where
  "no_attribute v a = [CHR 0x27] @ type_name v @ [CHR 0x27] @ '' object has no attribute '' @ [CHR 0x27] @ a @ [CHR 0x27]"

section \<open>Chains\<close>

fun chain_edges :: "string list \<Rightarrow> (string \<times> string) list" where
  "chain_edges (a # b # ns) = (a, b) # chain_edges (b # ns)"
| "chain_edges _ = []"

fun run_chain :: "'st node_runner \<Rightarrow> 'st node list \<Rightarrow> 'st \<Rightarrow> node_result list \<times> 'st" where
  "run_chain runner [] st = ([], st)"
| "run_chain runner (nd # nds) st =
     (let (r, st1) = runner nd st; (rs, st2) = run_chain runner nds st1 in (r\<lparr>nr_name := nd_name nd\<rparr> # rs, st2))"

lemma add_nodes_Inr:
  "add_nodes nds g = Inr g' \<Longrightarrow> distinct (keys (gr_nodes g)) \<Longrightarrow>
     g' = g\<lparr>gr_nodes := gr_nodes g @ map (\<lambda>nd. (nd_name nd, nd)) nds\<rparr>
     \<and> distinct (keys (gr_nodes g @ map (\<lambda>nd. (nd_name nd, nd)) nds))"
proof (induction nds arbitrary: g)
  case (Cons nd nds)
  then have fresh: "nd_name nd \<notin> set (keys (gr_nodes g))"
    and rest: "add_nodes nds (g\<lparr>gr_nodes := AList.update (nd_name nd) nd (gr_nodes g)\<rparr>) = Inr g'"
    by (auto simp: add_node_def res_bind_Inr_iff map_of_eq_None_iff split: if_splits)
  have up: "AList.update (nd_name nd) nd (gr_nodes g) = gr_nodes g @ [(nd_name nd, nd)]"
    using fresh by (rule update_fresh)
  show ?case using Cons.IH [OF rest] Cons.prems(2) fresh by (auto simp: up)
qed simp

lemma chain_edges_src: "(a, b) \<in> set (chain_edges ns) \<Longrightarrow> a \<in> set (butlast ns) \<and> b \<in> set (tl ns)"
  by (induction ns rule: chain_edges.induct) auto

lemma chain_edges_pred:
  "(a, b) \<in> set (chain_edges (xs @ b # ys)) \<Longrightarrow> distinct (xs @ b # ys) \<Longrightarrow> a \<in> set xs"
proof (induction xs)
  case Nil
  then show ?case using chain_edges_src [of a b "b # ys"] by simp
next
  case (Cons x xs)
  then show ?case by (cases "xs @ b # ys") auto
qed

lemma add_chain_edges:
  assumes "distinct ns" and "set ns \<inter> set (keys (gr_edges g)) = {}"
  shows "add_edges (chain_edges ns) g = g\<lparr>gr_edges := gr_edges g @ map (\<lambda>(a, b). (a, [b])) (chain_edges ns)\<rparr>"
  using assms
proof (induction ns arbitrary: g rule: chain_edges.induct)
  case (1 a b ns)
  have fresh: "a \<notin> set (keys (gr_edges g))" using 1 by auto
  then have "map_of (gr_edges g) a = None" by (simp add: map_of_eq_None_iff)
  then have "add_edge a b g = g\<lparr>gr_edges := gr_edges g @ [(a, [b])]\<rparr>"
    using fresh by (simp add: add_edge_def edges_of_def update_fresh)
  then show ?case using 1 by (auto simp: add_edges_def)
qed (simp_all add: add_edges_def)

text \<open>The graph of a chain of nodes.\<close>

definition chain_graph :: "'st node list \<Rightarrow> 'st graph" where
  "chain_graph nds =
     \<lparr>gr_nodes = map (\<lambda>nd. (nd_name nd, nd)) nds,
      gr_edges = map (\<lambda>(a, b). (a, [b])) (chain_edges (map nd_name nds)), gr_cond = [],
      gr_entry = Some (nd_name (hd nds))\<rparr>"

lemma build_chain:
  assumes "build_graph nds (nd_name (hd nds)) (chain_edges (map nd_name nds)) = Inr g"
  shows "g = chain_graph nds \<and> distinct (map nd_name nds)"
proof -
  obtain g1 where g1: "add_nodes nds empty_graph = Inr g1"
    and g: "g = add_edges (chain_edges (map nd_name nds)) (set_entry (nd_name (hd nds)) g1)"
    using assms by (auto simp: build_graph_def res_bind_Inr_iff)
  have n: "g1 = empty_graph\<lparr>gr_nodes := map (\<lambda>nd. (nd_name nd, nd)) nds\<rparr>" "distinct (map nd_name nds)"
    using add_nodes_Inr [OF g1] by (simp_all add: empty_graph_def comp_def)
  let ?g0 = "set_entry (nd_name (hd nds)) g1"
  have "add_edges (chain_edges (map nd_name nds)) ?g0
      = ?g0\<lparr>gr_edges := gr_edges ?g0 @ map (\<lambda>(a, b). (a, [b])) (chain_edges (map nd_name nds))\<rparr>"
    by (rule add_chain_edges [OF n(2)]) (simp add: n(1) set_entry_def empty_graph_def)
  then show ?thesis using g n by (simp add: chain_graph_def set_entry_def empty_graph_def)
qed

lemma chain_edges_succ:
  "distinct (xs @ b # ys) \<Longrightarrow>
     map_of (map (\<lambda>(a, c). (a, [c])) (chain_edges (xs @ b # ys))) b = (case ys of [] \<Rightarrow> None | y # _ \<Rightarrow> Some [y])"
proof (induction xs)
  case Nil
  then show ?case by (cases ys) simp_all
next
  case (Cons x xs)
  then have "x \<noteq> b" by simp
  with Cons show ?case by (cases "xs @ b # ys") auto
qed

lemma chain_node:
  "nd \<in> set nds \<Longrightarrow> distinct (map nd_name nds) \<Longrightarrow> map_of (gr_nodes (chain_graph nds)) (nd_name nd) = Some nd"
  by (rule map_of_is_SomeI) (auto simp: chain_graph_def comp_def)

lemma chain_successors:
  assumes "nds = pre @ nd # post" and "distinct (map nd_name nds)"
  shows "successors (chain_graph nds) (nd_name nd) st = (case post of [] \<Rightarrow> [] | nd' # _ \<Rightarrow> [nd_name nd'])"
  using chain_edges_succ [of "map nd_name pre" "nd_name nd" "map nd_name post"] assms
  by (cases post) (simp_all add: successors_def edges_of_def chain_graph_def)

lemma chain_parents:
  assumes "nds = pre @ nd # post" and "distinct (map nd_name nds)"
  shows "set (parents_of (chain_graph nds) (nd_name nd)) \<subseteq> nd_name ` set pre"
proof
  fix a assume "a \<in> set (parents_of (chain_graph nds) (nd_name nd))"
  then have "(a, nd_name nd) \<in> set (chain_edges (map nd_name pre @ nd_name nd # map nd_name post))"
    by (auto simp: parents_of_def chain_graph_def assms(1))
  from chain_edges_pred [OF this] show "a \<in> nd_name ` set pre" using assms by simp
qed

lemma arranges_one: "arranges f \<Longrightarrow> f [x] = [x]"
proof -
  assume "arranges f"
  then have s: "set (f [x]) = {x}" "distinct (f [x])" by (simp_all add: arranges_def)
  then have "length (f [x]) = 1" by (metis distinct_card card.empty card_insert_disjoint empty_iff finite.emptyI One_nat_def)
  then obtain y where "f [x] = [y]" by (metis length_Suc_conv length_0_conv One_nat_def)
  then show "f [x] = [x]" using s(1) by simp
qed

lemma chain_loop:
  assumes "nds = pre @ nd # post" and "distinct (map nd_name nds)" and "arranges arrange"
    and "\<And>k. clock k \<le> deadline" and "length post < fuel"
  shows "exec_loop fuel clock deadline arrange runner (chain_graph nds) rnd st res [nd_name nd] (nd_name ` set pre)
    = (let (rs, st') = run_chain runner (nd # post) st in DagDone (res @ rs) st' (list_all nr_ok (res @ rs)))"
  using assms(1,5)
proof (induction post arbitrary: pre nd fuel rnd st res)
  case Nil
  obtain n where fuel: "fuel = Suc n" using Nil(2) by (cases fuel) simp_all
  have node: "map_of (gr_nodes (chain_graph nds)) (nd_name nd) = Some nd"
    by (rule chain_node [OF _ assms(2)]) (simp add: Nil(1))
  obtain r st1 where r: "runner nd st = (r, st1)" by fastforce
  have sub: "set (parents_of (chain_graph nds) (nd_name nd)) \<subseteq> nd_name ` set pre" by (rule chain_parents [OF Nil(1) assms(2)])
  show ?case unfolding fuel
    using arranges_one [OF assms(3)] assms(4) [of rnd] node r sub chain_successors [OF Nil(1) assms(2)]
    by (simp add: exec_loop.simps [of "Suc n"] exec_loop.simps [where pending = "[]"] Let_def not_less)
next
  case (Cons nd2 post)
  obtain n where fuel: "fuel = Suc n" "length post < n" using Cons.prems(2) by (cases fuel) simp_all
  have node: "map_of (gr_nodes (chain_graph nds)) (nd_name nd) = Some nd"
    by (rule chain_node [OF _ assms(2)]) (simp add: Cons.prems(1))
  obtain r st1 where r: "runner nd st = (r, st1)" by fastforce
  have sub: "set (parents_of (chain_graph nds) (nd_name nd)) \<subseteq> nd_name ` set pre" by (rule chain_parents [OF Cons.prems(1) assms(2)])
  have new: "nd_name nd2 \<notin> insert (nd_name nd) (nd_name ` set pre)" using assms(2) Cons.prems(1) by auto
  have "nds = (pre @ [nd]) @ nd2 # post" using Cons.prems(1) by simp
  note IH = Cons.IH [OF this fuel(2), of "Suc rnd" st1 "res @ [r\<lparr>nr_name := nd_name nd\<rparr>]"]
  show ?case unfolding fuel(1)
    using arranges_one [OF assms(3)] assms(4) [of rnd] node r sub chain_successors [OF Cons.prems(1) assms(2)] new IH
    by (simp add: exec_loop.simps [of "Suc n"] Let_def not_less case_prod_beta)
qed

text \<open>No round of the run starts past the overall deadline.\<close>

definition in_time :: "(nat \<Rightarrow> seconds) \<Rightarrow> seconds \<Rightarrow> bool" where
  "in_time clock timeout_s \<longleftrightarrow> (\<forall>k. clock k \<le> clock 0 + timeout_s)"

lemma chain_run:
  assumes "build_graph nds (nd_name (hd nds)) (chain_edges (map nd_name nds)) = Inr g" and "nds \<noteq> []"
    and "arranges arrange" and "in_time clock timeout_s"
  shows "execute clock timeout_s arrange runner g st
    = (let (rs, st') = run_chain runner nds st in DagDone rs st' (list_all nr_ok rs))"
proof -
  obtain nd post where nds: "nds = nd # post" using assms(2) by (cases nds) simp_all
  have g: "g = chain_graph nds" "distinct (map nd_name nds)" using build_chain [OF assms(1)] by simp_all
  have "length post < Suc (length nds)" by (simp add: nds)
  from chain_loop [OF _ g(2) assms(3) _ this, of "[]" nd clock "clock 0 + timeout_s"] assms(4) nds
  show ?thesis unfolding g(1) execute_def by (simp add: chain_graph_def case_prod_beta in_time_def)
qed

section \<open>Runs within the limits\<close>

text \<open>Every node takes at most \<open>d\<close> seconds.\<close>

definition quick :: "seconds \<Rightarrow> 'st timing \<Rightarrow> bool" where
  "quick d timing \<longleftrightarrow> (\<forall>n st. fst (timing n st) \<le> d)"

definition within_limit :: "seconds \<Rightarrow> 'st node \<Rightarrow> bool" where
  "within_limit d nd \<longleftrightarrow> (case hard_limit nd of None \<Rightarrow> True | Some h \<Rightarrow> d \<le> h)"

lemma within_limit_own [simp]: "within_limit d (mk_node timing n (Some (s, h)) b) \<longleftrightarrow> d \<le> h"
  by (simp add: within_limit_def hard_limit_def)

lemma within_limit_none [simp]:
  "within_limit d (mk_node timing n None b) \<longleftrightarrow> (case lookup_sla n of None \<Rightarrow> True | Some (s, h) \<Rightarrow> d \<le> h)"
  by (simp add: within_limit_def hard_limit_def split: option.splits)

text \<open>A node that keeps its limit leaves the state its body leaves.\<close>

lemma quick_state:
  assumes "quick d timing" and "within_limit d (mk_node timing n limits b)"
  shows "snd (with_sla_timeout fmt (mk_node timing n limits b) st) = snd (b st)"
    and "nr_ok (fst (with_sla_timeout fmt (mk_node timing n limits b) st)) = (\<exists>v. fst (b st) = FnOk v)"
proof -
  have "fst (timing n st) \<le> h" if "hard_limit (mk_node timing n limits b) = Some h" for h
    using assms that order_trans unfolding quick_def within_limit_def by fastforce
  then show "snd (with_sla_timeout fmt (mk_node timing n limits b) st) = snd (b st)"
    "nr_ok (fst (with_sla_timeout fmt (mk_node timing n limits b) st)) = (\<exists>v. fst (b st) = FnOk v)"
    by (cases "fst (b st)"; force simp: with_sla_timeout_def run_unbounded_def mk_node_def result_of_def Let_def not_less split: option.splits)+
qed

end
