(* ===== verification/EventTriage.thy ===== *)
theory EventTriage
  imports PyStd
begin

text \<open>
  The event-triage gate (\<^verbatim>\<open>apps/orchestrator/orchestrator/plan/event_triage.py\<close>): parsing of an
  event's scores and tickers, the numeric routes, and the LLM tie-break, which is a function
  of the prompt and of the world behind the router.
\<close>

section \<open>Parsing an event\<close>

datatype route = TradingRoom | MorningBriefOnly | Drop

fun route_name :: "route \<Rightarrow> string" where
  "route_name TradingRoom = ''trading_room''"
| "route_name MorningBriefOnly = ''morning_brief_only''"
| "route_name Drop = ''drop''"

definition HIGH_IMPACT_THRESHOLD :: rat where "HIGH_IMPACT_THRESHOLD = 0.85"
definition LOW_IMPACT_THRESHOLD :: rat where "LOW_IMPACT_THRESHOLD = 0.4"

definition coerce_score :: "pystd \<Rightarrow> json \<Rightarrow> rat \<Rightarrow> rat" where
  "coerce_score py raw dflt =
     (case float_of py raw of
        None \<Rightarrow> dflt
      | Some v \<Rightarrow> if v < 0 then 0 else if v > 1 then 1 else v)"

fun str_or_int :: "json \<Rightarrow> bool" where
  "str_or_int (JStr s) = True"
| "str_or_int (JBool b) = True"
| "str_or_int (JNum r) = (of_int \<lfloor>r\<rfloor> = r)"
| "str_or_int _ = False"

record triage_inputs =
  ti_event_id :: string
  ti_trace_id :: string
  ti_title :: string
  ti_body :: string
  ti_tickers :: "string list"
  ti_regime :: rat
  ti_surprise :: rat
  ti_overlap :: rat

definition parse_event :: "pystd \<Rightarrow> (string, json) dict \<Rightarrow> string + triage_inputs" where
  "parse_event py payload =
     res_bind (iterate (jor (jor (field_of payload ''tickers'') (field_of payload ''affected_universe'')) (JArr [])))
       (\<lambda>raw. let tickers = map (to_str py) (filter str_or_int raw) in
          Inr \<lparr>ti_event_id = to_str py (jor (jor (field_of payload ''event_id'') (field_of payload ''id'')) (JStr [])),
               ti_trace_id = to_str py (jor (field_of payload ''trace_id'') (JStr [])),
               ti_title = to_str py (jor (field_of payload ''title'') (JStr [])),
               ti_body = to_str py (jor (field_of payload ''body'') (JStr [])),
               ti_tickers = tickers,
               ti_regime = coerce_score py (field_of payload ''regime_change_score'') 0,
               ti_surprise = coerce_score py (field_of payload ''surprise_factor'') 0,
               ti_overlap = coerce_score py (field_of payload ''affected_universe_overlap'')
                              (if tickers \<noteq> [] then 1 else 0)\<rparr>)"

section \<open>The numeric routes\<close>

definition has_overlap :: "triage_inputs \<Rightarrow> bool" where
  "has_overlap t \<longleftrightarrow> ti_tickers t \<noteq> [] \<and> ti_overlap t > 0"

definition big_signal :: "triage_inputs \<Rightarrow> bool" where
  "big_signal t \<longleftrightarrow> ti_regime t \<ge> HIGH_IMPACT_THRESHOLD \<or> ti_surprise t \<ge> HIGH_IMPACT_THRESHOLD"

definition medium_signal :: "triage_inputs \<Rightarrow> bool" where
  "medium_signal t \<longleftrightarrow> ti_regime t \<ge> LOW_IMPACT_THRESHOLD \<or> ti_surprise t \<ge> LOW_IMPACT_THRESHOLD"

definition numeric_route :: "triage_inputs \<Rightarrow> (route \<times> string) option" where
  "numeric_route t =
     (if big_signal t \<and> has_overlap t
      then Some (TradingRoom, ''high-impact (regime='' @ fmt2 (ti_regime t) @ '', surprise='' @ fmt2 (ti_surprise t)
                   @ '') with universe overlap'')
      else if \<not> has_overlap t \<and> \<not> medium_signal t then Some (Drop, ''no universe overlap and no medium-impact signal'')
      else if has_overlap t \<and> \<not> medium_signal t then Some (MorningBriefOnly, ''overlap but only low-impact signals'')
      else if medium_signal t \<and> \<not> has_overlap t then Some (MorningBriefOnly, ''medium signal but no universe overlap'')
      else None)"

section \<open>The tie-break\<close>

definition VALID_LLM_TOKENS :: "(string, route) dict" where
  "VALID_LLM_TOKENS = [(''trading_room'', TradingRoom), (''morning_brief_only'', MorningBriefOnly),
     (''morning_brief'', MorningBriefOnly), (''drop'', Drop)]"

fun first_route :: "string list \<Rightarrow> route option" where
  "first_route [] = None"
| "first_route (w # ws) = (case map_of VALID_LLM_TOKENS w of Some r \<Rightarrow> Some r | None \<Rightarrow> first_route ws)"

definition parse_llm_route :: "string \<Rightarrow> route option" where
  "parse_llm_route text = first_route (words_of (lower (strip text)))"

text \<open>
  What the tie-break can meet: the package missing, no router configured, an exception of
  \<open>chat_or_skip\<close> (which is not caught), or an answer with its skipped mark.
\<close>

datatype tie_out = NoLlmClient | NoRouter | LlmRaised string | LlmAnswer string bool

type_synonym 'c triage_llm = "json \<Rightarrow> 'c \<Rightarrow> tie_out \<times> 'c"

definition tiebreak_prompt :: "triage_inputs \<Rightarrow> json" where
  "tiebreak_prompt t = JObj
     [(''title'', JStr (ti_title t)), (''body'', JStr (take 2000 (ti_body t))),
      (''tickers'', JArr (map JStr (ti_tickers t))), (''regime_change_score'', JNum (ti_regime t)),
      (''surprise_factor'', JNum (ti_surprise t)), (''affected_universe_overlap'', JNum (ti_overlap t))]"

definition llm_tiebreak :: "pystd \<Rightarrow> 'c triage_llm \<Rightarrow> triage_inputs \<Rightarrow> 'c \<Rightarrow> (string + route \<times> string \<times> bool) \<times> 'c" where
  "llm_tiebreak py llm t w =
     (let (ans, w') = llm (tiebreak_prompt t) w in
      (case ans of
         NoLlmClient \<Rightarrow> Inr (Drop, ''llm_client unavailable; defaulting to drop'', True)
       | NoRouter \<Rightarrow> Inr (Drop, ''no router configured; defaulting to drop'', True)
       | LlmRaised e \<Rightarrow> Inl e
       | LlmAnswer text skipped \<Rightarrow>
           if skipped then Inr (Drop, ''cost breaker open; defaulting to drop'', True)
           else (case parse_llm_route text of
               None \<Rightarrow> Inr (MorningBriefOnly, ''LLM returned unparseable token '' @ py_repr py text
                          @ ''; safe-default to morning_brief_only'', False)
             | Some r \<Rightarrow> Inr (r, ''LLM tie-break: '' @ route_name r, False)), w'))"

section \<open>The gate\<close>

record triage_decision =
  td_trace_id :: string
  td_event_id :: string
  td_issued_at :: string
  td_route :: route
  td_reason :: string
  td_affected_universe :: "string list"
  td_regime :: rat
  td_surprise :: rat
  td_overlap :: rat
  td_cost_skipped :: bool

definition decision_dict :: "triage_decision \<Rightarrow> (string, json) dict" where
  "decision_dict d =
     [(''schema'', JStr ''triage.decision.v1''), (''trace_id'', JStr (td_trace_id d)), (''event_id'', JStr (td_event_id d)),
      (''issued_at'', JStr (td_issued_at d)), (''route'', JStr (route_name (td_route d))), (''reason'', JStr (td_reason d)),
      (''affected_universe'', JArr (map JStr (td_affected_universe d))), (''regime_change_score'', JNum (td_regime d)),
      (''surprise_factor'', JNum (td_surprise d)), (''affected_universe_overlap'', JNum (td_overlap d)),
      (''cost_skipped'', JBool (td_cost_skipped d))]"

definition decide :: "string \<Rightarrow> triage_inputs \<Rightarrow> route \<Rightarrow> string \<Rightarrow> bool \<Rightarrow> triage_decision" where
  "decide now_iso t r reason skipped =
     \<lparr>td_trace_id = ti_trace_id t, td_event_id = ti_event_id t, td_issued_at = now_iso, td_route = r, td_reason = reason,
      td_affected_universe = ti_tickers t, td_regime = ti_regime t, td_surprise = ti_surprise t,
      td_overlap = ti_overlap t, td_cost_skipped = skipped\<rparr>"

definition triage :: "pystd \<Rightarrow> 'c triage_llm \<Rightarrow> bool \<Rightarrow> string \<Rightarrow> (string, json) dict \<Rightarrow> 'c \<Rightarrow> (string + triage_decision) \<times> 'c" where
  "triage py llm flag_on now_iso payload w =
     (case parse_event py payload of
        Inl e \<Rightarrow> (Inl e, w)
      | Inr t \<Rightarrow>
          if \<not> flag_on then (Inr (decide now_iso t Drop ''flag_disabled'' False), w)
          else (case numeric_route t of
              Some (r, reason) \<Rightarrow> (Inr (decide now_iso t r reason False), w)
            | None \<Rightarrow>
                (case llm_tiebreak py llm t w of
                   (Inl e, w') \<Rightarrow> (Inl e, w')
                 | (Inr (r, reason, skipped), w') \<Rightarrow> (Inr (decide now_iso t r reason skipped), w'))))"

section \<open>What the gate decides\<close>

lemma coerce_score_bounds: "0 \<le> dflt \<Longrightarrow> dflt \<le> 1 \<Longrightarrow> 0 \<le> coerce_score py raw dflt \<and> coerce_score py raw dflt \<le> 1"
  by (auto simp: coerce_score_def split: option.splits)

lemma big_is_medium: "big_signal t \<Longrightarrow> medium_signal t"
  by (auto simp: big_signal_def medium_signal_def HIGH_IMPACT_THRESHOLD_def LOW_IMPACT_THRESHOLD_def)

lemma numeric_route_None: "numeric_route t = None \<longleftrightarrow> has_overlap t \<and> medium_signal t \<and> \<not> big_signal t"
  using big_is_medium [of t] by (auto simp: numeric_route_def)

lemma numeric_route_room: "numeric_route t = Some (TradingRoom, reason) \<Longrightarrow> big_signal t \<and> has_overlap t"
  by (auto simp: numeric_route_def split: if_splits)

text \<open>
  The room is woken only when the flag is on, the event names at least one ticker with
  a positive overlap, and a score is at least 0.85, or at least 0.4 with an answer of the
  LLM that was not skipped and names the trading room before any other route.
\<close>

theorem room_woken_only_when_justified:
  assumes "triage py llm flag_on now_iso payload w = (Inr d, w')" and "td_route d = TradingRoom"
  shows "\<exists>t. parse_event py payload = Inr t \<and> flag_on \<and> ti_tickers t \<noteq> [] \<and> 0 < ti_overlap t
     \<and> (0.85 \<le> max (ti_regime t) (ti_surprise t)
        \<or> 0.4 \<le> max (ti_regime t) (ti_surprise t)
          \<and> (\<exists>text. fst (llm (tiebreak_prompt t) w) = LlmAnswer text False
               \<and> first_route (words_of (lower (strip text))) = Some TradingRoom))"
proof -
  obtain t where t: "parse_event py payload = Inr t" using assms(1) by (auto simp: triage_def split: sum.splits)
  have flag: "flag_on" using assms t by (cases flag_on) (auto simp: triage_def decide_def)
  show ?thesis
  proof (cases "numeric_route t")
    case (Some rr)
    then have "big_signal t \<and> has_overlap t"
      using assms t flag numeric_route_room [of t] by (cases rr) (auto simp: triage_def decide_def)
    then show ?thesis using t flag by (auto simp: big_signal_def has_overlap_def HIGH_IMPACT_THRESHOLD_def le_max_iff_disj)
  next
    case None
    then have sig: "has_overlap t" "medium_signal t" by (simp_all add: numeric_route_None)
    obtain r reason s where tie: "fst (llm_tiebreak py llm t w) = Inr (r, reason, s)" "r = TradingRoom"
      using assms t flag None by (auto simp: triage_def decide_def split: prod.splits sum.splits)
    then obtain reply where "fst (llm (tiebreak_prompt t) w) = LlmAnswer reply False" "parse_llm_route reply = Some TradingRoom"
      by (cases "fst (llm (tiebreak_prompt t) w)")
         (auto simp: llm_tiebreak_def case_prod_beta split: if_splits option.splits)
    then show ?thesis using t flag sig
      by (auto simp: medium_signal_def has_overlap_def LOW_IMPACT_THRESHOLD_def le_max_iff_disj parse_llm_route_def)
  qed
qed

definition fed_event :: "(string, json) dict" where
  "fed_event = [(''event_id'', JStr ''e1''), (''tickers'', JArr [JStr ''SPY'']), (''surprise_factor'', JNum 0.9)]"

lemma fed_event_triaged:
  "\<exists>d. triage py_ascii (\<lambda>p w. (LlmAnswer ''drop'' False, w)) True '''' fed_event () = (Inr d, ()) \<and> td_route d = TradingRoom"
  by (simp add: triage_def parse_event_def fed_event_def jget_or_def jor_def to_str_def coerce_score_def numeric_route_def
      big_signal_def has_overlap_def HIGH_IMPACT_THRESHOLD_def decide_def)

theorem room_woken_only_when_justified_witness:
  "\<exists>t. parse_event py_ascii fed_event = Inr t \<and> True \<and> ti_tickers t \<noteq> [] \<and> 0 < ti_overlap t
     \<and> (0.85 \<le> max (ti_regime t) (ti_surprise t)
        \<or> 0.4 \<le> max (ti_regime t) (ti_surprise t)
          \<and> (\<exists>text. fst ((\<lambda>p w. (LlmAnswer ''drop'' False, w)) (tiebreak_prompt t) ()) = LlmAnswer text False
               \<and> first_route (words_of (lower (strip text))) = Some TradingRoom))"
proof -
  obtain d where d: "triage py_ascii (\<lambda>p w. (LlmAnswer ''drop'' False, w)) True '''' fed_event () = (Inr d, ())" "td_route d = TradingRoom"
    using fed_event_triaged by blast
  show ?thesis by (rule room_woken_only_when_justified [OF d])
qed

text \<open>
  The module's rule 2 sends an event to the morning brief when any of the three scores is at
  least 0.4. The third score, the overlap, is not looked at without tickers.
\<close>

lemma overlap_score_alone_dropped:
  assumes "parse_event py payload = Inr t" and "ti_tickers t = []"
    and "ti_regime t < 0.4" and "ti_surprise t < 0.4" and "triage py llm flag_on now_iso payload w = (Inr d, w')"
  shows "td_route d = Drop"
  using assms by (auto simp: triage_def numeric_route_def has_overlap_def big_signal_def medium_signal_def decide_def
      HIGH_IMPACT_THRESHOLD_def LOW_IMPACT_THRESHOLD_def split: if_splits)

text \<open>
  With the cost breaker open, an event with overlap and a score from 0.4 to 0.85 is dropped,
  while a weaker one still reaches the morning brief.
\<close>

lemma skipped_tiebreak_drops:
  assumes "parse_event py payload = Inr t" and "has_overlap t" and "medium_signal t" and "\<not> big_signal t"
    and "fst (llm (tiebreak_prompt t) w) = LlmAnswer text True"
  shows "\<exists>d. fst (triage py llm True now_iso payload w) = Inr d \<and> td_route d = Drop \<and> td_cost_skipped d"
  using assms numeric_route_None [of t] by (simp add: triage_def llm_tiebreak_def case_prod_beta decide_def)

lemma weak_overlap_goes_to_brief:
  assumes "parse_event py payload = Inr t" and "has_overlap t" and "\<not> medium_signal t"
  shows "\<exists>d. fst (triage py llm True now_iso payload w) = Inr d \<and> td_route d = MorningBriefOnly"
  using assms big_is_medium [of t] by (auto simp: triage_def numeric_route_def decide_def)

text \<open>
  The gate fails only on tickers it cannot iterate over or when the tie-break is
  reached and the router raises; every other event gets a decision that carries the
  event's identity and scores within 0 and 1.
\<close>

theorem triage_total_but_for_router_errors:
  "case fst (triage py llm flag_on now_iso payload w) of
     Inl e \<Rightarrow> parse_event py payload = Inl e
        \<or> (\<exists>t msg. parse_event py payload = Inr t \<and> flag_on \<and> has_overlap t \<and> medium_signal t \<and> \<not> big_signal t
             \<and> fst (llm (tiebreak_prompt t) w) = LlmRaised msg)
   | Inr d \<Rightarrow> \<exists>t. parse_event py payload = Inr t \<and> td_event_id d = ti_event_id t \<and> td_affected_universe d = ti_tickers t
        \<and> td_regime d \<in> {0..1} \<and> td_surprise d \<in> {0..1} \<and> td_overlap d \<in> {0..1}"
proof (cases "parse_event py payload")
  case (Inl e)
  then show ?thesis by (simp add: triage_def)
next
  case (Inr t)
  have bounds: "ti_regime t \<in> {0..1} \<and> ti_surprise t \<in> {0..1} \<and> ti_overlap t \<in> {0..1}"
    using Inr coerce_score_bounds by (auto simp: parse_event_def res_bind_def Let_def split: sum.splits)
  have d: "td_event_id (decide n t r x s) = ti_event_id t \<and> td_affected_universe (decide n t r x s) = ti_tickers t
      \<and> td_regime (decide n t r x s) = ti_regime t \<and> td_surprise (decide n t r x s) = ti_surprise t
      \<and> td_overlap (decide n t r x s) = ti_overlap t" for n r x s
    by (simp add: decide_def)
  show ?thesis
  proof (cases "flag_on \<and> numeric_route t = None")
    case False
    then show ?thesis using Inr bounds d by (auto simp: triage_def)
  next
    case True
    then have tie: "has_overlap t \<and> medium_signal t \<and> \<not> big_signal t" by (simp add: numeric_route_None)
    show ?thesis
    proof (cases "fst (llm_tiebreak py llm t w)")
      case (Inl e)
      then have "\<exists>msg. fst (llm (tiebreak_prompt t) w) = LlmRaised msg"
        by (cases "fst (llm (tiebreak_prompt t) w)") (auto simp: llm_tiebreak_def case_prod_beta split: if_splits option.splits)
      then show ?thesis using Inl True tie Inr by (cases "llm_tiebreak py llm t w") (simp add: triage_def)
    next
      case (Inr x)
      then show ?thesis using True \<open>parse_event py payload = Inr t\<close> bounds d
        by (cases x; cases "llm_tiebreak py llm t w") (auto simp: triage_def)
    qed
  qed
qed

end
