(* ===== verification/TradingRoom.thy ===== *)
theory TradingRoom
  imports AgentDags EventTriage
begin

text \<open>
  The trading-room DAG (\<^verbatim>\<open>apps/orchestrator/orchestrator/plan/trading_room.py\<close>): triage, fan-out to
  the teams, the board, the brief, the notification. The agents, the LLM of the triage and
  everything behind them are functions on the world \<open>tr_world\<close>; a board decision and a
  plan are the JSON the agents answered.
\<close>

section \<open>State\<close>

record 'c room =
  tr_trace_id :: string
  tr_trigger_event :: "(string, json) dict"
  tr_triage_decision :: "(string, json) dict option"
  tr_plans :: "json list"
  tr_team_failures :: "string list"
  tr_board_decision :: "json option"
  tr_brief_md :: json
  tr_notify_result :: "(string, json) dict option"
  tr_degraded :: bool
  tr_degraded_reasons :: "string list"
  tr_world :: 'c

text \<open>\<open>trace_id or trigger_event.get("trace_id") or a new id\<close>.\<close>

definition make_initial_room :: "pystd \<Rightarrow> string \<Rightarrow> (string, json) dict \<Rightarrow> string \<Rightarrow> 'c \<Rightarrow> 'c room" where
  "make_initial_room py new_ulid trigger_event trace_id w =
     \<lparr>tr_trace_id = (if trace_id \<noteq> [] then trace_id
        else if truthy (dget trigger_event ''trace_id'') then to_str py (dget trigger_event ''trace_id'') else new_ulid),
      tr_trigger_event = trigger_event, tr_triage_decision = None, tr_plans = [], tr_team_failures = [],
      tr_board_decision = None, tr_brief_md = JNull, tr_notify_result = None, tr_degraded = False,
      tr_degraded_reasons = [], tr_world = w\<rparr>"

definition degrade :: "string \<Rightarrow> 'c room \<Rightarrow> 'c room" where
  "degrade why st = st\<lparr>tr_degraded := True, tr_degraded_reasons := tr_degraded_reasons st @ [why]\<rparr>"

definition skipped :: "string \<Rightarrow> fn_result" where
  "skipped n = FnOk (JObj [(''node'', JStr n), (''skipped'', JBool True)])"

section \<open>The nodes\<close>

definition n_triage :: "pystd \<Rightarrow> 'c triage_llm \<Rightarrow> bool \<Rightarrow> string \<Rightarrow> 'c room body" where
  "n_triage py llm flag_on now_iso st =
     (case triage py llm flag_on now_iso (tr_trigger_event st) (tr_world st) of
        (Inl e, w) \<Rightarrow> (FnRaised e, st\<lparr>tr_world := w\<rparr>)
      | (Inr d, w) \<Rightarrow>
          (FnOk (JObj [(''node'', JStr ''n_triage''), (''route'', JStr (route_name (td_route d))), (''reason'', JStr (td_reason d))]),
           st\<lparr>tr_triage_decision := Some (decision_dict d), tr_world := w\<rparr>))"

definition team_targets :: "string list" where
  "team_targets = [''agent_quant'', ''agent_fundamental'', ''agent_persona'']"

definition team_request :: "'c room \<Rightarrow> json" where
  "team_request st = JObj
     [(''action'', JStr ''team_plan''), (''trace_id'', JStr (tr_trace_id st)),
      (''trigger_event_id'', dget (tr_trigger_event st) ''event_id''),
      (''tickers'', jor (dget (tr_trigger_event st) ''tickers'') (JArr []))]"

definition team_failed :: "string \<Rightarrow> string \<Rightarrow> 'c room \<Rightarrow> 'c room" where
  "team_failed agent suffix st =
     st\<lparr>tr_team_failures := tr_team_failures st @ [agent], tr_degraded_reasons := tr_degraded_reasons st @ [agent @ suffix]\<rparr>"

definition ask_team :: "'c agent_client \<Rightarrow> json \<Rightarrow> string \<Rightarrow> 'c room \<Rightarrow> 'c room" where
  "ask_team client request agent st =
     (let (r, w) = client agent request (tr_world st); st1 = st\<lparr>tr_world := w\<rparr> in
      case r of
        Answered d \<Rightarrow>
          (if truthy (dget d ''_breaker_open'') then team_failed agent ''_breaker_open'' st1
           else if truthy (dget d ''plan'') then st1\<lparr>tr_plans := tr_plans st1 @ [dget d ''plan'']\<rparr> else st1)
      | _ \<Rightarrow> team_failed agent ''_call_raised'' st1)"

definition routed_to_room :: "'c room \<Rightarrow> bool" where
  "routed_to_room st \<longleftrightarrow>
     (case tr_triage_decision st of None \<Rightarrow> False | Some d \<Rightarrow> dget d ''route'' = JStr ''trading_room'')"

definition n_fanout :: "'c agent_client \<Rightarrow> 'c room body" where
  "n_fanout client st =
     (if \<not> routed_to_room st then (skipped ''n_fanout'', st)
      else let st1 = fold (ask_team client (team_request st)) team_targets st;
               st2 = (if tr_team_failures st1 \<noteq> [] then st1\<lparr>tr_degraded := True\<rparr> else st1)
        in (FnOk (JObj [(''node'', JStr ''n_fanout''), (''plans_n'', jnat (length (tr_plans st2))),
              (''failures'', JArr (map JStr (tr_team_failures st2)))]), st2))"

definition board_request :: "'c room \<Rightarrow> json" where
  "board_request st = JObj
     [(''trigger_event_id'', dget (tr_trigger_event st) ''event_id''), (''trace_id'', JStr (tr_trace_id st)),
      (''plans'', JArr (tr_plans st)), (''persist'', JBool True)]"

definition n_board :: "'c agent_client \<Rightarrow> 'c room body" where
  "n_board client st =
     (if tr_plans st = [] then (skipped ''n_board'', degrade ''no_plans_for_board'' st)
      else let (r, w) = client ''agent_board'' (board_request st) (tr_world st); st1 = st\<lparr>tr_world := w\<rparr> in
        case r of
          Answered resp \<Rightarrow>
            (if truthy (dget resp ''_breaker_open'') then (skipped ''n_board'', degrade ''board_breaker_open'' st1)
             else let decision = dget resp ''decision'' in
               if decision = JNull then (skipped ''n_board'', degrade ''board_no_decision'' st1)
               else let st2 = st1\<lparr>tr_board_decision := Some decision\<rparr>;
                        st3 = (if truthy (dget resp ''degraded'') then degrade ''board_degraded'' st2 else st2)
                 in (case decision of
                       JObj d \<Rightarrow> FnOk (JObj [(''node'', JStr ''n_board''), (''chosen_plan_id'', dget d ''chosen_plan_id''),
                                   (''confidence'', dget d ''confidence'')])
                     | v \<Rightarrow> FnRaised (no_attribute v ''get''), st3))
        | _ \<Rightarrow> (raised r, st1))"

definition brief_request :: "'c room \<Rightarrow> json \<Rightarrow> json" where
  "brief_request st decision = JObj
     [(''action'', JStr ''trading_room_brief''), (''trace_id'', JStr (tr_trace_id st)), (''decision'', decision),
      (''considered_plans'', JArr (tr_plans st)), (''degraded'', JBool (tr_degraded st)),
      (''degraded_reasons'', JArr (map JStr (tr_degraded_reasons st)))]"

definition n_brief :: "'c agent_client \<Rightarrow> 'c room body" where
  "n_brief client st =
     (case tr_board_decision st of
        None \<Rightarrow> (skipped ''n_brief'', st)
      | Some decision \<Rightarrow>
          (let (r, w) = client ''agent_secretary'' (brief_request st decision) (tr_world st); st1 = st\<lparr>tr_world := w\<rparr> in
           case r of
             Answered resp \<Rightarrow>
               (let md = dget resp ''markdown'' in
                (case len_of (jor md (JStr [])) of
                   Inr n \<Rightarrow> FnOk (JObj [(''node'', JStr ''n_brief''), (''char_count'', jnat n)])
                 | Inl e \<Rightarrow> FnRaised e, st1\<lparr>tr_brief_md := md\<rparr>))
           | _ \<Rightarrow> (raised r, st1)))"

definition notify_request :: "'c room \<Rightarrow> json" where
  "notify_request st = JObj
     [(''action'', JStr ''notify''), (''severity'', JStr ''ALERT''), (''trace_id'', JStr (tr_trace_id st)),
      (''markdown'', tr_brief_md st)]"

definition n_notify :: "'c agent_client \<Rightarrow> 'c room body" where
  "n_notify client st =
     (if \<not> truthy (tr_brief_md st) then (skipped ''n_notify'', st)
      else let (r, w) = client ''agent_secretary'' (notify_request st) (tr_world st); st1 = st\<lparr>tr_world := w\<rparr> in
        case r of
          Answered resp \<Rightarrow> (FnOk (JObj [(''node'', JStr ''n_notify''), (''skipped'', JBool False)]), st1\<lparr>tr_notify_result := Some resp\<rparr>)
        | _ \<Rightarrow> (FnOk (JObj [(''node'', JStr ''n_notify''), (''skipped'', JBool False), (''deferred'', JBool True),
                (''error'', JStr (call_error_text r))]), st1))"

section \<open>The graph\<close>

definition room_nodes :: "pystd \<Rightarrow> 'c triage_llm \<Rightarrow> bool \<Rightarrow> string \<Rightarrow> 'c room timing \<Rightarrow> 'c agent_client \<Rightarrow> 'c room node list" where
  "room_nodes py llm flag_on now_iso timing client =
     [mk_node timing ''n_triage'' None (n_triage py llm flag_on now_iso), mk_node timing ''n_fanout'' None (n_fanout client),
      mk_node timing ''n_board'' None (n_board client), mk_node timing ''n_brief'' None (n_brief client),
      mk_node timing ''n_notify'' None (n_notify client)]"

definition build_trading_room_dag ::
    "pystd \<Rightarrow> 'c triage_llm \<Rightarrow> bool \<Rightarrow> string \<Rightarrow> 'c room timing \<Rightarrow> 'c agent_client \<Rightarrow> exn + 'c room graph" where
  "build_trading_room_dag py llm flag_on now_iso timing client =
     build_graph (room_nodes py llm flag_on now_iso timing client) ''n_triage''
       [(''n_triage'', ''n_fanout''), (''n_fanout'', ''n_board''), (''n_board'', ''n_brief''), (''n_brief'', ''n_notify'')]"

section \<open>A run of the room\<close>

lemma room_limits:
  "hard_limit (mk_node timing ''n_triage'' None b) = None" "hard_limit (mk_node timing ''n_fanout'' None b) = None"
  "hard_limit (mk_node timing ''n_board'' None b) = None" "hard_limit (mk_node timing ''n_brief'' None b) = None"
  "hard_limit (mk_node timing ''n_notify'' None b) = None"
  by (simp_all add: hard_limit_def lookup_sla_def SLA_TABLE_def starts_with_def ends_with_def)

lemma unlimited_state: "hard_limit (mk_node timing n None b) = None \<Longrightarrow> snd (with_sla_timeout fmt (mk_node timing n None b) st) = snd (b st)"
  by (simp add: with_sla_timeout_def run_unbounded_def mk_node_def)

definition room_final ::
    "pystd \<Rightarrow> 'c triage_llm \<Rightarrow> bool \<Rightarrow> string \<Rightarrow> 'c agent_client \<Rightarrow> 'c room \<Rightarrow> 'c room" where
  "room_final py llm flag_on now_iso client st =
     snd (n_notify client (snd (n_brief client (snd (n_board client (snd (n_fanout client
       (snd (n_triage py llm flag_on now_iso st)))))))))"

text \<open>None of the room's nodes has a limit; the run ends, with the state of the five bodies in turn.\<close>

lemma room_run:
  assumes "build_trading_room_dag py llm flag_on now_iso timing client = Inr g" and "arranges arrange"
    and "in_time clock timeout_s"
  shows "\<exists>rs ok. execute clock timeout_s arrange (with_sla_timeout fmt) g st
    = DagDone rs (room_final py llm flag_on now_iso client st) ok"
proof -
  let ?nds = "room_nodes py llm flag_on now_iso timing client"
  have "build_graph ?nds (nd_name (hd ?nds)) (chain_edges (map nd_name ?nds)) = Inr g"
    using assms(1) by (simp add: build_trading_room_dag_def room_nodes_def)
  from chain_run [OF this _ assms(2,3)]
  have "execute clock timeout_s arrange (with_sla_timeout fmt) g st
    = (let (rs, st') = run_chain (with_sla_timeout fmt) ?nds st in DagDone rs st' (list_all nr_ok rs))"
    by (simp add: room_nodes_def)
  moreover have "snd (run_chain (with_sla_timeout fmt) ?nds st) = room_final py llm flag_on now_iso client st"
    by (simp add: room_nodes_def room_final_def case_prod_beta Let_def unlimited_state room_limits)
  ultimately show ?thesis by (simp add: case_prod_beta)
qed

lemma room_built: "\<exists>g. build_trading_room_dag py llm flag_on now_iso timing client = Inr g"
  by (simp add: build_trading_room_dag_def room_nodes_def build_graph_def add_node_def empty_graph_def)

text \<open>Without a plan nothing leaves the room.\<close>

lemma no_decision_no_brief:
  "tr_board_decision st = None \<Longrightarrow> tr_brief_md st = JNull \<Longrightarrow> snd (n_notify client (snd (n_brief client st))) = st"
  by (simp add: n_brief_def n_notify_def)

lemma unrouted_room_idle:
  assumes "\<not> routed_to_room st" and "tr_plans st = []" and "tr_board_decision st = None" and "tr_brief_md st = JNull"
  shows "snd (n_notify client (snd (n_brief client (snd (n_board client (snd (n_fanout client st)))))))
    = degrade ''no_plans_for_board'' st"
  using assms by (simp add: n_fanout_def n_board_def no_decision_no_brief degrade_def)

lemma triage_state:
  "snd (n_triage py llm flag_on now_iso st)
     = (case triage py llm flag_on now_iso (tr_trigger_event st) (tr_world st) of
          (Inl e, w) \<Rightarrow> st\<lparr>tr_world := w\<rparr>
        | (Inr d, w) \<Rightarrow> st\<lparr>tr_triage_decision := Some (decision_dict d), tr_world := w\<rparr>)"
  by (simp add: n_triage_def split: prod.splits sum.splits)

lemma routed_iff: "tr_triage_decision st = Some (decision_dict d) \<Longrightarrow> routed_to_room st \<longleftrightarrow> td_route d = TradingRoom"
  by (cases "td_route d") (simp_all add: routed_to_room_def decision_dict_def dget_def)

text \<open>
  If the triage does not send the event to the trading room, or fails, the run of the
  DAG ends without a call to any team, the board or the secretary: the world is as the
  triage left it, there is no plan, no board decision, no brief and no notification.
\<close>

theorem dropped_event_calls_nobody:
  assumes "build_trading_room_dag py llm flag_on now_iso timing client = Inr g" and "arranges arrange"
    and "in_time clock timeout_s"
    and "triage py llm flag_on now_iso event w = (verdict, w')" and "\<And>d. verdict = Inr d \<Longrightarrow> td_route d \<noteq> TradingRoom"
  shows "\<exists>rs st' ok. execute clock timeout_s arrange (with_sla_timeout fmt) g (make_initial_room py ulid event trace w)
      = DagDone rs st' ok \<and> tr_world st' = w' \<and> tr_plans st' = [] \<and> tr_board_decision st' = None
      \<and> tr_brief_md st' = JNull \<and> tr_notify_result st' = None"
proof -
  let ?st = "make_initial_room py ulid event trace w"
  let ?st1 = "snd (n_triage py llm flag_on now_iso ?st)"
  obtain rs ok where run: "execute clock timeout_s arrange (with_sla_timeout fmt) g ?st
      = DagDone rs (room_final py llm flag_on now_iso client ?st) ok"
    using room_run [OF assms(1-3)] by blast
  have "\<not> routed_to_room ?st1 \<and> tr_plans ?st1 = [] \<and> tr_board_decision ?st1 = None \<and> tr_brief_md ?st1 = JNull
      \<and> tr_notify_result ?st1 = None \<and> tr_world ?st1 = w'"
  proof (cases verdict)
    case (Inl e)
    then show ?thesis using assms(4) by (simp add: triage_state make_initial_room_def routed_to_room_def)
  next
    case (Inr d)
    then show ?thesis using assms(4) assms(5) [OF Inr]
      by (simp add: triage_state make_initial_room_def routed_iff [where d = d])
  qed
  then have "room_final py llm flag_on now_iso client ?st = degrade ''no_plans_for_board'' ?st1"
    "tr_world ?st1 = w'" "tr_plans ?st1 = []" "tr_board_decision ?st1 = None" "tr_brief_md ?st1 = JNull" "tr_notify_result ?st1 = None"
    by (simp_all add: room_final_def unrouted_room_idle)
  then show ?thesis using run by (simp add: degrade_def)
qed

text \<open>A world that counts the calls of the LLM; every agent would raise.\<close>

definition quiet_event :: "(string, json) dict" where
  "quiet_event = [(''event_id'', JStr ''e7''), (''tickers'', JArr [JStr ''SPY'']), (''surprise_factor'', JNum 0.5)]"

definition drop_llm :: "nat triage_llm" where
  "drop_llm p k = (LlmAnswer ''drop'' True, k + 1)"

definition down_client :: "nat agent_client" where
  "down_client a p k = (CallRaised ''down'', k + 100)"

definition quiet_decision :: triage_decision where
  "quiet_decision = \<lparr>td_trace_id = [], td_event_id = ''e7'', td_issued_at = [], td_route = Drop,
     td_reason = ''cost breaker open; defaulting to drop'', td_affected_universe = [''SPY''], td_regime = 0,
     td_surprise = 0.5, td_overlap = 1, td_cost_skipped = True\<rparr>"

lemma quiet_triage: "triage py_ascii drop_llm True [] quiet_event 0 = (Inr quiet_decision, 1)"
  by (simp add: triage_def parse_event_def quiet_event_def jget_or_def jor_def to_str_def coerce_score_def numeric_route_def
      big_signal_def medium_signal_def has_overlap_def HIGH_IMPACT_THRESHOLD_def LOW_IMPACT_THRESHOLD_def decide_def
      llm_tiebreak_def drop_llm_def quiet_decision_def)

theorem dropped_event_calls_nobody_witness:
  "\<exists>g. build_trading_room_dag py_ascii drop_llm True [] (\<lambda>n st. (1, st)) down_client = Inr g
     \<and> (\<exists>rs st' ok. execute (\<lambda>k. 0) 600 id (with_sla_timeout (\<lambda>h. ''60'')) g
        (make_initial_room py_ascii ''ulid'' quiet_event ''t1'' 0) = DagDone rs st' ok
     \<and> tr_world st' = 1 \<and> tr_plans st' = [] \<and> tr_board_decision st' = None \<and> tr_brief_md st' = JNull
     \<and> tr_notify_result st' = None)"
proof -
  obtain g where g: "build_trading_room_dag py_ascii drop_llm True [] (\<lambda>n st. (1, st)) down_client = Inr g"
    using room_built by blast
  have "in_time (\<lambda>k. 0) 600" by (simp add: in_time_def)
  moreover have "td_route d \<noteq> TradingRoom" if "Inr quiet_decision = Inr d" for d :: triage_decision
    using that by (auto simp: quiet_decision_def)
  ultimately show ?thesis using g dropped_event_calls_nobody [OF g arranges_id _ quiet_triage] by blast
qed

section \<open>Fan-out\<close>

text \<open>The answers of a list of agents asked one after the other.\<close>

fun ask_all :: "'c agent_client \<Rightarrow> json \<Rightarrow> string list \<Rightarrow> 'c \<Rightarrow> (string \<times> call_out) list \<times> 'c" where
  "ask_all client request [] w = ([], w)"
| "ask_all client request (a # as) w =
     (let (r, w1) = client a request w; (rs, w2) = ask_all client request as w1 in ((a, r) # rs, w2))"

fun team_down :: "call_out \<Rightarrow> bool" where
  "team_down (Answered d) = truthy (dget d ''_breaker_open'')"
| "team_down _ = True"

fun plan_of :: "call_out \<Rightarrow> json" where
  "plan_of (Answered d) = dget d ''plan''"
| "plan_of _ = JNull"

definition plans_in :: "(string \<times> call_out) list \<Rightarrow> json list" where
  "plans_in rs = filter truthy (map (plan_of \<circ> snd) (filter (\<lambda>(a, r). \<not> team_down r) rs))"

lemma ask_teams:
  "ask_all client request as (tr_world st) = (rs, w) \<Longrightarrow>
     (let st' = fold (ask_team client request) as st in
      map fst rs = as \<and> tr_world st' = w \<and> tr_plans st' = tr_plans st @ plans_in rs
      \<and> tr_team_failures st' = tr_team_failures st @ map fst (filter (\<lambda>(a, r). team_down r) rs)
      \<and> tr_degraded st' = tr_degraded st \<and> tr_board_decision st' = tr_board_decision st \<and> tr_brief_md st' = tr_brief_md st
      \<and> tr_notify_result st' = tr_notify_result st)"
proof (induction "as" arbitrary: st rs)
  case (Cons a as)
  obtain r w1 where r: "client a request (tr_world st) = (r, w1)" by fastforce
  obtain rs' where rs: "ask_all client request as w1 = (rs', w)" "rs = (a, r) # rs'"
    using Cons.prems r by (auto simp: Let_def split: prod.splits)
  let ?st1 = "ask_team client request a st"
  have one: "tr_world ?st1 = w1 \<and> tr_plans ?st1 = tr_plans st @ plans_in [(a, r)]
      \<and> tr_team_failures ?st1 = tr_team_failures st @ map fst (filter (\<lambda>(a, r). team_down r) [(a, r)])
      \<and> tr_degraded ?st1 = tr_degraded st \<and> tr_board_decision ?st1 = tr_board_decision st \<and> tr_brief_md ?st1 = tr_brief_md st
      \<and> tr_notify_result ?st1 = tr_notify_result st"
    by (cases r) (simp_all add: ask_team_def r team_failed_def plans_in_def)
  have "ask_all client request as (tr_world ?st1) = (rs', w)" using rs(1) one by simp
  from Cons.IH [OF this] one rs(2) show ?case by (simp add: Let_def plans_in_def)
qed (simp add: plans_in_def)

text \<open>
  The fan-out asks all three teams whatever happens to any of them; the board gets the
  plans of exactly the teams that answered with one, in order, the failures are exactly the
  teams whose call raised or whose breaker is open, and the run is degraded exactly if there
  are any.
\<close>

theorem fanout_isolates_team_failures:
  assumes "routed_to_room st" and "tr_team_failures st = []"
    and "ask_all client (team_request st) [''agent_quant'', ''agent_fundamental'', ''agent_persona''] (tr_world st) = (rs, w)"
  shows "(\<exists>v. fst (n_fanout client st) = FnOk v)
    \<and> tr_world (snd (n_fanout client st)) = w
    \<and> tr_plans (snd (n_fanout client st)) = tr_plans st @ plans_in rs
    \<and> tr_team_failures (snd (n_fanout client st)) = map fst (filter (\<lambda>(a, r). team_down r) rs)
    \<and> tr_degraded (snd (n_fanout client st)) = (tr_degraded st \<or> list_ex (\<lambda>(a, r). team_down r) rs)"
  using ask_teams [OF assms(3)] assms(1,2)
  by (auto simp: n_fanout_def team_targets_def [symmetric] Let_def list_ex_iff filter_empty_conv)

definition fed_room :: "nat room" where
  "fed_room = (make_initial_room py_ascii [] [] ''t'' 0)\<lparr>tr_triage_decision := Some [(''route'', JStr ''trading_room'')]\<rparr>"

definition one_plan_client :: "nat agent_client" where
  "one_plan_client a p k =
     (if a = ''agent_quant'' then Answered [(''plan'', JStr ''buy'')] else if a = ''agent_persona'' then CallTimeoutError
      else Answered (breaker_open_response a), k + 1)"

theorem fanout_isolates_team_failures_witness:
  "tr_plans (snd (n_fanout one_plan_client fed_room)) = [JStr ''buy'']
     \<and> tr_team_failures (snd (n_fanout one_plan_client fed_room)) = [''agent_fundamental'', ''agent_persona'']"
proof -
  have "routed_to_room fed_room" "tr_team_failures fed_room = []" "tr_plans fed_room = []"
    by (simp_all add: fed_room_def routed_to_room_def dget_def make_initial_room_def)
  moreover have "ask_all one_plan_client (team_request fed_room) [''agent_quant'', ''agent_fundamental'', ''agent_persona''] (tr_world fed_room)
      = ([(''agent_quant'', Answered [(''plan'', JStr ''buy'')]), (''agent_fundamental'', Answered (breaker_open_response ''agent_fundamental'')),
          (''agent_persona'', CallTimeoutError)], tr_world fed_room + 3)"
    by (simp add: one_plan_client_def)
  ultimately show ?thesis using fanout_isolates_team_failures [of fed_room one_plan_client]
    by (simp add: plans_in_def dget_def breaker_open_response_def)
qed

end
