(* ===== verification/AuxiliaryDags.thy ===== *)
theory AuxiliaryDags
  imports AgentDags EventTriage
begin

text \<open>
  The DAGs of one to three nodes behind the cron entries and the NATS subjects
  (\<^verbatim>\<open>apps/orchestrator/orchestrator/plan/auxiliary_dags.py\<close>), all chains over one simple state.
\<close>

section \<open>State and calls\<close>

record 'c simple =
  sd_trace_id :: string
  sd_macro_regime :: json
  sd_digest :: "(string, json) dict option"
  sd_advices :: "json list"
  sd_notify_payload :: "(string, json) dict option"
  sd_world :: 'c

definition initial_simple :: "string \<Rightarrow> string \<Rightarrow> 'c \<Rightarrow> 'c simple" where
  "initial_simple new_ulid trace_id w =
     \<lparr>sd_trace_id = (if trace_id \<noteq> [] then trace_id else new_ulid), sd_macro_regime = JStr ''unknown'', sd_digest = None,
      sd_advices = [], sd_notify_payload = None, sd_world = w\<rparr>"

text \<open>\<open>await client.call\<close> with nothing around it, and inside the \<open>try\<close> of a notifying node.\<close>

definition sd_call :: "'c agent_client \<Rightarrow> string \<Rightarrow> json \<Rightarrow> 'c simple
    \<Rightarrow> ((string, json) dict \<Rightarrow> 'c simple \<Rightarrow> fn_result \<times> 'c simple) \<Rightarrow> fn_result \<times> 'c simple" where
  "sd_call client agent payload st k =
     (let (r, w) = client agent payload (sd_world st); st1 = st\<lparr>sd_world := w\<rparr> in
      case r of Answered d \<Rightarrow> k d st1 | _ \<Rightarrow> (raised r, st1))"

definition sd_notify :: "string \<Rightarrow> 'c agent_client \<Rightarrow> json \<Rightarrow> 'c simple body" where
  "sd_notify n client payload st =
     (let (r, w) = client ''agent_secretary'' payload (sd_world st) in
      (FnOk (JObj ([(''node'', JStr n), (''skipped'', JBool False)]
         @ (case r of Answered d \<Rightarrow> [] | _ \<Rightarrow> [(''deferred'', JBool True), (''error'', JStr (call_error_text r))]))),
       st\<lparr>sd_world := w\<rparr>))"

definition sd_skip :: "string \<Rightarrow> fn_result" where
  "sd_skip n = FnOk (JObj [(''node'', JStr n), (''skipped'', JBool True)])"

text \<open>\<open>{"node": n, k: len(v)}\<close>.\<close>

definition counted :: "string \<Rightarrow> string \<Rightarrow> json \<Rightarrow> fn_result" where
  "counted n k v = (case len_of v of Inr m \<Rightarrow> FnOk (JObj [(''node'', JStr n), (k, jnat m)]) | Inl e \<Rightarrow> FnRaised e)"

definition sla_or :: "string \<Rightarrow> seconds \<times> seconds \<Rightarrow> (seconds \<times> seconds) option" where
  "sla_or k dflt = Some (case map_of SLA_TABLE k of Some x \<Rightarrow> x | None \<Rightarrow> dflt)"

definition synth_into :: "string \<Rightarrow> (string, json) dict \<Rightarrow> 'c simple \<Rightarrow> fn_result \<times> 'c simple" where
  "synth_into n digest st =
     (let regime = jget_or (JObj digest) ''macro_regime'' (JStr ''unknown'') in
      (FnOk (JObj [(''node'', JStr n), (''macro_regime'', regime)]),
       st\<lparr>sd_digest := Some digest, sd_macro_regime := regime\<rparr>))"

section \<open>Midday pulse\<close>

definition n_intel_pulse :: "'c agent_client \<Rightarrow> 'c simple body" where
  "n_intel_pulse client st =
     sd_call client ''agent_intelligence''
       (JObj [(''action'', JStr ''synth''), (''trace_id'', JStr (sd_trace_id st)), (''mode'', JStr ''midday_pulse'')]) st
       (synth_into ''n_intel_pulse'')"

definition n_regime_check :: "'c agent_client \<Rightarrow> 'c simple body" where
  "n_regime_check client st =
     sd_call client ''agent_quant''
       (JObj [(''action'', JStr ''regime_check''), (''regime'', sd_macro_regime st), (''trace_id'', JStr (sd_trace_id st))]) st
       (\<lambda>result st1.
          let changed = JBool (truthy (jget_or (JObj result) ''changed'' (JBool False))) in
          (FnOk (JObj [(''node'', JStr ''n_regime_check''), (''regime_changed'', changed)]),
           st1\<lparr>sd_notify_payload := Some [(''macro_regime'', sd_macro_regime st1), (''regime_changed'', changed),
                 (''snapshot'', dget result ''snapshot'')]\<rparr>))"

definition midday_message :: "pystd \<Rightarrow> 'c simple \<Rightarrow> json" where
  "midday_message py st = JObj
     [(''action'', JStr ''notify''), (''severity'', JStr ''INFO''), (''trace_id'', JStr (sd_trace_id st)),
      (''markdown'', JStr (''Midday regime check: macro_regime='' @ to_str py (sd_macro_regime st)
         @ ''. Regime changed since the morning brief '' @ em_dash @ '' review positions.''))]"

definition n_notify_if_changed :: "pystd \<Rightarrow> 'c agent_client \<Rightarrow> 'c simple body" where
  "n_notify_if_changed py client st =
     (if (case sd_notify_payload st of None \<Rightarrow> False | Some p \<Rightarrow> truthy (dget p ''regime_changed''))
      then sd_notify ''n_notify_if_changed'' client (midday_message py st) st
      else (sd_skip ''n_notify_if_changed'', st))"

definition midday_nodes :: "pystd \<Rightarrow> 'c simple timing \<Rightarrow> 'c agent_client \<Rightarrow> 'c simple node list" where
  "midday_nodes py timing client =
     [mk_node timing ''n_intel_pulse'' (sla_or ''intel.synth'' (60, 90)) (n_intel_pulse client),
      mk_node timing ''n_regime_check'' (sla_or ''quant.run'' (60, 90)) (n_regime_check client),
      mk_node timing ''n_notify_if_changed'' None (n_notify_if_changed py client)]"

definition build_midday_pulse_dag :: "pystd \<Rightarrow> 'c simple timing \<Rightarrow> 'c agent_client \<Rightarrow> exn + 'c simple graph" where
  "build_midday_pulse_dag py timing client =
     build_graph (midday_nodes py timing client) ''n_intel_pulse''
       [(''n_intel_pulse'', ''n_regime_check''), (''n_regime_check'', ''n_notify_if_changed'')]"

section \<open>Evening recap\<close>

definition n_backtest_mtm :: "'c agent_client \<Rightarrow> 'c simple body" where
  "n_backtest_mtm client st =
     sd_call client ''agent_backtest'' (JObj [(''action'', JStr ''daily_mtm''), (''trace_id'', JStr (sd_trace_id st))]) st
       (\<lambda>result st1. (counted ''n_backtest_mtm'' ''agents_n'' (jget_or (JObj result) ''agents'' (JArr [])),
          st1\<lparr>sd_notify_payload := Some result\<rparr>))"

definition payload_or_empty :: "'c simple \<Rightarrow> (string, json) dict" where
  "payload_or_empty st = (case sd_notify_payload st of None \<Rightarrow> [] | Some p \<Rightarrow> p)"

definition recap_request :: "'c simple \<Rightarrow> json" where
  "recap_request st = JObj
     [(''action'', JStr ''compose_brief''), (''kind'', JStr ''evening_recap''), (''payload'', JObj (payload_or_empty st)),
      (''trace_id'', JStr (sd_trace_id st))]"

definition n_recap_brief :: "'c agent_client \<Rightarrow> 'c simple body" where
  "n_recap_brief client st =
     sd_call client ''agent_secretary'' (recap_request st) st
       (\<lambda>result st1. (counted ''n_recap_brief'' ''char_count'' (jor (dget result ''markdown'') (JStr [])),
          st1\<lparr>sd_notify_payload := Some (AList.update ''markdown'' (dget result ''markdown'') (payload_or_empty st1))\<rparr>))"

definition n_recap_notify :: "'c agent_client \<Rightarrow> 'c simple body" where
  "n_recap_notify client st =
     (let markdown = dget (payload_or_empty st) ''markdown'' in
      if \<not> truthy markdown then (sd_skip ''n_recap_notify'', st)
      else sd_notify ''n_recap_notify'' client
        (JObj [(''action'', JStr ''notify''), (''severity'', JStr ''INFO''), (''markdown'', markdown),
          (''trace_id'', JStr (sd_trace_id st))]) st)"

definition evening_nodes :: "'c simple timing \<Rightarrow> 'c agent_client \<Rightarrow> 'c simple node list" where
  "evening_nodes timing client =
     [mk_node timing ''n_backtest_mtm'' (sla_or ''backtest.daily'' (60, 120)) (n_backtest_mtm client),
      mk_node timing ''n_recap_brief'' (sla_or ''secretary.compose_brief'' (30, 60)) (n_recap_brief client),
      mk_node timing ''n_recap_notify'' None (n_recap_notify client)]"

definition build_evening_recap_dag :: "'c simple timing \<Rightarrow> 'c agent_client \<Rightarrow> exn + 'c simple graph" where
  "build_evening_recap_dag timing client =
     build_graph (evening_nodes timing client) ''n_backtest_mtm''
       [(''n_backtest_mtm'', ''n_recap_brief''), (''n_recap_brief'', ''n_recap_notify'')]"

section \<open>Intel pulls and the hourly synth\<close>

definition n_pull :: "string \<Rightarrow> string \<Rightarrow> string \<Rightarrow> 'c agent_client \<Rightarrow> 'c simple body" where
  "n_pull src counter field client st =
     sd_call client ''agent_intelligence''
       (JObj [(''action'', JStr ''pull''), (''source'', JStr src), (''trace_id'', JStr (sd_trace_id st))]) st
       (\<lambda>result st1. (counted ''n_pull'' counter (jor (dget result field) (JArr [])), st1))"

definition build_pull_dag :: "string \<Rightarrow> string \<Rightarrow> string \<Rightarrow> 'c simple timing \<Rightarrow> 'c agent_client \<Rightarrow> exn + 'c simple graph" where
  "build_pull_dag src counter field timing client =
     build_graph [mk_node timing ''n_pull'' (sla_or ''intel.synth'' (60, 90)) (n_pull src counter field client)] ''n_pull'' []"

definition build_intel_rss_pull_dag :: "'c simple timing \<Rightarrow> 'c agent_client \<Rightarrow> exn + 'c simple graph" where
  "build_intel_rss_pull_dag = build_pull_dag ''rss'' ''accepted_n'' ''accepted_event_ids''"

definition build_intel_gdelt_pull_dag :: "'c simple timing \<Rightarrow> 'c agent_client \<Rightarrow> exn + 'c simple graph" where
  "build_intel_gdelt_pull_dag = build_pull_dag ''gdelt'' ''accepted_n'' ''accepted_event_ids''"

definition build_intel_macro_pull_dag :: "'c simple timing \<Rightarrow> 'c agent_client \<Rightarrow> exn + 'c simple graph" where
  "build_intel_macro_pull_dag = build_pull_dag ''macro'' ''series_n'' ''series''"

definition n_hourly_synth :: "'c agent_client \<Rightarrow> 'c simple body" where
  "n_hourly_synth client st =
     sd_call client ''agent_intelligence''
       (JObj [(''action'', JStr ''synth''), (''mode'', JStr ''hourly''), (''trace_id'', JStr (sd_trace_id st))]) st
       (synth_into ''n_hourly_synth'')"

definition build_hourly_intel_dag :: "'c simple timing \<Rightarrow> 'c agent_client \<Rightarrow> exn + 'c simple graph" where
  "build_hourly_intel_dag timing client =
     build_graph [mk_node timing ''n_hourly_synth'' (sla_or ''intel.synth'' (60, 90)) (n_hourly_synth client)] ''n_hourly_synth'' []"

section \<open>Weekly evaluation\<close>

definition n_eval_prompts :: "'c agent_client \<Rightarrow> 'c simple body" where
  "n_eval_prompts client st =
     sd_call client ''agent_backtest'' (JObj [(''action'', JStr ''weekly_eval''), (''trace_id'', JStr (sd_trace_id st))]) st
       (\<lambda>result st1. (counted ''n_eval_prompts'' ''deltas_n'' (jget_or (JObj result) ''deltas'' (JArr [])),
          st1\<lparr>sd_notify_payload := Some result\<rparr>))"

definition leaderboard_request :: "'c simple \<Rightarrow> json" where
  "leaderboard_request st = JObj
     [(''action'', JStr ''publish_leaderboard''), (''payload'', JObj (payload_or_empty st)), (''trace_id'', JStr (sd_trace_id st))]"

definition n_publish_leaderboard :: "'c agent_client \<Rightarrow> 'c simple body" where
  "n_publish_leaderboard client st =
     sd_call client ''agent_secretary'' (leaderboard_request st) st
       (\<lambda>result st1. (FnOk (JObj [(''node'', JStr ''n_publish_leaderboard'')]), st1))"

definition weekly_nodes :: "'c simple timing \<Rightarrow> 'c agent_client \<Rightarrow> 'c simple node list" where
  "weekly_nodes timing client =
     [mk_node timing ''n_eval_prompts'' (sla_or ''backtest.daily'' (60, 120)) (n_eval_prompts client),
      mk_node timing ''n_publish_leaderboard'' (sla_or ''secretary.compose_brief'' (30, 60)) (n_publish_leaderboard client)]"

definition build_weekly_eval_dag :: "'c simple timing \<Rightarrow> 'c agent_client \<Rightarrow> exn + 'c simple graph" where
  "build_weekly_eval_dag timing client =
     build_graph (weekly_nodes timing client) ''n_eval_prompts'' [(''n_eval_prompts'', ''n_publish_leaderboard'')]"

section \<open>Event DAGs\<close>

text \<open>One call whose answer is not looked at.\<close>

definition tell :: "string \<Rightarrow> string \<Rightarrow> ('c simple \<Rightarrow> json) \<Rightarrow> 'c agent_client \<Rightarrow> 'c simple body" where
  "tell n agent payload client st =
     sd_call client agent (payload st) st (\<lambda>result st1. (FnOk (JObj [(''node'', JStr n)]), st1))"

definition build_intel_digest_event_dag :: "'c simple timing \<Rightarrow> 'c agent_client \<Rightarrow> exn + 'c simple graph" where
  "build_intel_digest_event_dag timing client =
     build_graph [mk_node timing ''n_route'' None (tell ''n_route'' ''agent_quant''
       (\<lambda>st. JObj [(''action'', JStr ''regime_hint''), (''trace_id'', JStr (sd_trace_id st))]) client)] ''n_route'' []"

definition build_backtest_fill_event_dag :: "'c simple timing \<Rightarrow> 'c agent_client \<Rightarrow> exn + 'c simple graph" where
  "build_backtest_fill_event_dag timing client =
     build_graph [mk_node timing ''n_notify_fill'' None (tell ''n_notify_fill'' ''agent_secretary''
       (\<lambda>st. JObj [(''action'', JStr ''notify''), (''severity'', JStr ''INFO''), (''trace_id'', JStr (sd_trace_id st)),
          (''markdown'', JStr ''Backtest fill recorded.'')]) client)] ''n_notify_fill'' []"

definition build_ops_alert_event_dag :: "'c simple timing \<Rightarrow> 'c agent_client \<Rightarrow> exn + 'c simple graph" where
  "build_ops_alert_event_dag timing client =
     build_graph [mk_node timing ''n_runbook_hint'' None (tell ''n_runbook_hint'' ''agent_secretary''
       (\<lambda>st. JObj [(''action'', JStr ''runbook_hint''), (''trace_id'', JStr (sd_trace_id st))]) client)] ''n_runbook_hint'' []"

section \<open>Runs\<close>

lemma sla_or_simps [simp]:
  "sla_or ''intel.synth'' d = Some (60, 120)" "sla_or ''quant.run'' d = Some (30, 60)"
  "sla_or ''backtest.daily'' d = Some (60, 180)" "sla_or ''secretary.compose_brief'' d = Some (30, 60)"
  by (simp_all add: sla_or_def SLA_TABLE_def)

lemma notify_unlimited [simp]:
  "lookup_sla ''n_notify_if_changed'' = None" "lookup_sla ''n_recap_notify'' = None"
  by (simp_all add: lookup_sla_def SLA_TABLE_def starts_with_def ends_with_def)

lemma midday_run:
  assumes "build_midday_pulse_dag py timing client = Inr g" and "arranges arrange" and "in_time clock timeout_s" and "quick 60 timing"
  shows "\<exists>rs ok. execute clock timeout_s arrange (with_sla_timeout fmt) g st
    = DagDone rs (snd (n_notify_if_changed py client (snd (n_regime_check client (snd (n_intel_pulse client st)))))) ok"
proof -
  let ?nds = "midday_nodes py timing client"
  have "build_graph ?nds (nd_name (hd ?nds)) (chain_edges (map nd_name ?nds)) = Inr g"
    using assms(1) by (simp add: build_midday_pulse_dag_def midday_nodes_def)
  from chain_run [OF this _ assms(2,3)]
  have "execute clock timeout_s arrange (with_sla_timeout fmt) g st
    = (let (rs, st') = run_chain (with_sla_timeout fmt) ?nds st in DagDone rs st' (list_all nr_ok rs))"
    by (simp add: midday_nodes_def)
  moreover have "snd (run_chain (with_sla_timeout fmt) ?nds st)
      = snd (n_notify_if_changed py client (snd (n_regime_check client (snd (n_intel_pulse client st)))))"
    by (simp add: midday_nodes_def case_prod_beta Let_def quick_state(1) [OF assms(4)])
  ultimately show ?thesis by (simp add: case_prod_beta)
qed

lemma evening_run:
  assumes "build_evening_recap_dag timing client = Inr g" and "arranges arrange" and "in_time clock timeout_s" and "quick 60 timing"
  shows "\<exists>rs ok. execute clock timeout_s arrange (with_sla_timeout fmt) g st
    = DagDone rs (snd (n_recap_notify client (snd (n_recap_brief client (snd (n_backtest_mtm client st)))))) ok"
proof -
  let ?nds = "evening_nodes timing client"
  have "build_graph ?nds (nd_name (hd ?nds)) (chain_edges (map nd_name ?nds)) = Inr g"
    using assms(1) by (simp add: build_evening_recap_dag_def evening_nodes_def)
  from chain_run [OF this _ assms(2,3)]
  have "execute clock timeout_s arrange (with_sla_timeout fmt) g st
    = (let (rs, st') = run_chain (with_sla_timeout fmt) ?nds st in DagDone rs st' (list_all nr_ok rs))"
    by (simp add: evening_nodes_def)
  moreover have "snd (run_chain (with_sla_timeout fmt) ?nds st)
      = snd (n_recap_notify client (snd (n_recap_brief client (snd (n_backtest_mtm client st)))))"
    by (simp add: evening_nodes_def case_prod_beta Let_def quick_state(1) [OF assms(4)])
  ultimately show ?thesis by (simp add: case_prod_beta)
qed

text \<open>The regime the midday check asks about: the digest's, or the state's own if the pulse failed.\<close>

definition regime_after :: "call_out \<Rightarrow> json" where
  "regime_after r = (case r of Answered d \<Rightarrow> jget_or (JObj d) ''macro_regime'' (JStr ''unknown'') | _ \<Rightarrow> JStr ''unknown'')"

definition says_changed :: "call_out \<Rightarrow> bool" where
  "says_changed r = (case r of Answered d \<Rightarrow> truthy (dget d ''changed'') | _ \<Rightarrow> False)"

definition pulse_request :: "string \<Rightarrow> json" where
  "pulse_request trace = JObj [(''action'', JStr ''synth''), (''trace_id'', JStr trace), (''mode'', JStr ''midday_pulse'')]"

definition check_request :: "string \<Rightarrow> json \<Rightarrow> json" where
  "check_request trace regime = JObj [(''action'', JStr ''regime_check''), (''regime'', regime), (''trace_id'', JStr trace)]"

lemma jget_or_truthy: "truthy (jget_or (JObj d) k (JBool False)) = truthy (dget d k)"
  by (simp add: jget_or_def dget_def split: option.splits)

text \<open>
  Whatever the intelligence agent does, the midday pulse asks quant once, with the
  digest's regime or \<open>unknown\<close>, and then calls the secretary exactly if quant answered
  that the regime changed; otherwise the run ends there.
\<close>

theorem midday_notifies_iff_changed:
  assumes "build_midday_pulse_dag py timing client = Inr g" and "arranges arrange" and "in_time clock timeout_s" and "quick 60 timing"
    and "trace \<noteq> []" and "client ''agent_intelligence'' (pulse_request trace) w = (r1, w1)"
    and "client ''agent_quant'' (check_request trace (regime_after r1)) w1 = (r2, w2)"
  shows "\<exists>rs st' ok msg. execute clock timeout_s arrange (with_sla_timeout fmt) g (initial_simple ulid trace w) = DagDone rs st' ok
     \<and> sd_world st' = (if says_changed r2 then snd (client ''agent_secretary'' msg w2) else w2)
     \<and> jget msg ''action'' = Some (JStr ''notify'') \<and> jget msg ''trace_id'' = Some (JStr trace)"
proof -
  let ?st = "initial_simple ulid trace w"
  let ?st1 = "snd (n_intel_pulse client ?st)"
  let ?st2 = "snd (n_regime_check client ?st1)"
  obtain rs ok where run: "execute clock timeout_s arrange (with_sla_timeout fmt) g ?st
      = DagDone rs (snd (n_notify_if_changed py client ?st2)) ok"
    using midday_run [OF assms(1-4)] by blast
  have st1: "sd_world ?st1 = w1 \<and> sd_macro_regime ?st1 = regime_after r1 \<and> sd_trace_id ?st1 = trace \<and> sd_notify_payload ?st1 = None"
    using assms(5,6) by (cases r1) (simp_all add: n_intel_pulse_def sd_call_def initial_simple_def pulse_request_def
        synth_into_def regime_after_def Let_def)
  have st2: "sd_world ?st2 = w2 \<and> sd_trace_id ?st2 = trace \<and> (case sd_notify_payload ?st2 of None \<Rightarrow> False | Some p \<Rightarrow> truthy (dget p ''regime_changed'')) = says_changed r2"
    using assms(7) st1 by (cases r2) (simp_all add: n_regime_check_def sd_call_def check_request_def says_changed_def
        jget_or_truthy Let_def dget_def [of "(''macro_regime'', v) # d" for v d])
  have "sd_world (snd (n_notify_if_changed py client ?st2))
      = (if says_changed r2 then snd (client ''agent_secretary'' (midday_message py ?st2) w2) else w2)"
    using st2 by (simp add: n_notify_if_changed_def sd_notify_def case_prod_beta)
  moreover have "jget (midday_message py ?st2) ''action'' = Some (JStr ''notify'')"
    "jget (midday_message py ?st2) ''trace_id'' = Some (JStr trace)"
    using st2 by (simp_all add: midday_message_def)
  ultimately show ?thesis using run by blast
qed

definition pulse_client :: "nat agent_client" where
  "pulse_client a p k =
     (if a = ''agent_quant'' then Answered [(''changed'', JBool True)] else CallRaised ''down'', k + 1)"

theorem midday_notifies_iff_changed_witness:
  "\<exists>g rs st' ok. build_midday_pulse_dag py_ascii (\<lambda>n st. (1, st)) pulse_client = Inr g
     \<and> execute (\<lambda>k. 0) 600 id (with_sla_timeout (\<lambda>h. [])) g (initial_simple [] ''t'' 0) = DagDone rs st' ok \<and> sd_world st' = 3"
proof -
  obtain g where g: "build_midday_pulse_dag py_ascii (\<lambda>n st. (1, st)) pulse_client = Inr g"
    by (simp add: build_midday_pulse_dag_def midday_nodes_def build_graph_def add_node_def empty_graph_def)
  have "in_time (\<lambda>k. 0) 600" "quick 60 (\<lambda>n st. (1, st))" by (simp_all add: in_time_def quick_def)
  from midday_notifies_iff_changed [OF g arranges_id this, of "''t''" 0 "CallRaised ''down''" 1 "Answered [(''changed'', JBool True)]" 2]
  show ?thesis using g by (fastforce simp: pulse_client_def says_changed_def dget_def)
qed

text \<open>
  The weekly evaluation runs under the daily limit, not under the \<open>backtest.weekly_eval\<close>
  entry of the table.
\<close>

lemma weekly_eval_gets_daily_limit:
  "hard_limit (hd (weekly_nodes timing client)) = Some 180 \<and> map_of SLA_TABLE ''backtest.weekly_eval'' = Some (120, 300)"
  by (simp add: weekly_nodes_def hard_limit_def SLA_TABLE_def)

end
