(* ===== verification/MorningBrief.thy ===== *)
theory MorningBrief
  imports AgentDags EventTriage
begin

text \<open>
  The morning-brief DAG (\<^verbatim>\<open>apps/orchestrator/orchestrator/plan/morning_brief.py\<close>): the digest,
  one leg per analyst (fundamental, quant, every persona), the secretary's brief, its
  delivery. The personas' slugs come from the YAML directory and are a parameter.
\<close>

section \<open>State and nodes\<close>

record 'c morning =
  mb_trace_id :: string
  mb_persona_slugs :: "string list"
  mb_digest :: "(string, json) dict option"
  mb_macro_regime :: json
  mb_advices :: "json list"
  mb_brief_md :: json
  mb_notify_result :: "(string, json) dict option"
  mb_world :: 'c

definition initial_morning :: "string \<Rightarrow> string list \<Rightarrow> string \<Rightarrow> string list option \<Rightarrow> 'c \<Rightarrow> 'c morning" where
  "initial_morning new_ulid default_slugs trace_id slugs w =
     \<lparr>mb_trace_id = (if trace_id \<noteq> [] then trace_id else new_ulid),
      mb_persona_slugs = (case slugs of Some s \<Rightarrow> s | None \<Rightarrow> default_slugs), mb_digest = None,
      mb_macro_regime = JStr ''unknown'', mb_advices = [], mb_brief_md = JNull, mb_notify_result = None, mb_world = w\<rparr>"

definition mb_call :: "'c agent_client \<Rightarrow> string \<Rightarrow> json \<Rightarrow> 'c morning
    \<Rightarrow> ((string, json) dict \<Rightarrow> 'c morning \<Rightarrow> fn_result \<times> 'c morning) \<Rightarrow> fn_result \<times> 'c morning" where
  "mb_call client agent payload st k =
     (let (r, w) = client agent payload (mb_world st); st1 = st\<lparr>mb_world := w\<rparr> in
      case r of Answered d \<Rightarrow> k d st1 | _ \<Rightarrow> (raised r, st1))"

definition n_intel_synth :: "'c agent_client \<Rightarrow> 'c morning body" where
  "n_intel_synth client st =
     mb_call client ''agent_intelligence'' (JObj [(''action'', JStr ''synth''), (''trace_id'', JStr (mb_trace_id st))]) st
       (\<lambda>digest st1. let regime = jget_or (JObj digest) ''macro_regime'' (JStr ''unknown'') in
          (FnOk (JObj [(''node'', JStr ''n_intel_synth''), (''macro_regime'', regime)]),
           st1\<lparr>mb_digest := Some digest, mb_macro_regime := regime\<rparr>))"

definition mb_digest_json :: "'c morning \<Rightarrow> json" where
  "mb_digest_json st = jopt JObj (mb_digest st)"

text \<open>A leg: ask its agent, append every advice of the answer, report how many.\<close>

definition leg :: "string \<Rightarrow> string \<Rightarrow> ('c morning \<Rightarrow> json) \<Rightarrow> 'c agent_client \<Rightarrow> 'c morning body" where
  "leg n agent payload client st =
     mb_call client agent (payload st) st
       (\<lambda>result st1.
          let given = jget_or (JObj result) ''advices'' (JArr []) in
          case iterate given of
            Inl e \<Rightarrow> (FnRaised e, st1)
          | Inr advices \<Rightarrow>
              (case len_of given of
                 Inr k \<Rightarrow> FnOk (JObj [(''node'', JStr n), (''advices_n'', jnat k)])
               | Inl e \<Rightarrow> FnRaised e, st1\<lparr>mb_advices := mb_advices st1 @ advices\<rparr>))"

definition digest_request :: "'c morning \<Rightarrow> json" where
  "digest_request st = JObj [(''digest'', mb_digest_json st), (''trace_id'', JStr (mb_trace_id st))]"

definition quant_request :: "'c morning \<Rightarrow> json" where
  "quant_request st = JObj [(''regime'', mb_macro_regime st), (''trace_id'', JStr (mb_trace_id st))]"

definition n_fundamental :: "'c agent_client \<Rightarrow> 'c morning body" where
  "n_fundamental = leg ''n_fundamental'' ''agent_fundamental'' digest_request"

definition n_quant :: "'c agent_client \<Rightarrow> 'c morning body" where
  "n_quant = leg ''n_quant'' ''agent_quant'' quant_request"

definition n_persona :: "string \<Rightarrow> 'c agent_client \<Rightarrow> 'c morning body" where
  "n_persona slug = leg (''n_persona_'' @ slug) (''agent_persona.'' @ slug) digest_request"

definition compose_request :: "'c morning \<Rightarrow> json" where
  "compose_request st = JObj
     [(''action'', JStr ''compose_brief''), (''advices'', JArr (mb_advices st)), (''digest'', mb_digest_json st),
      (''macro_regime'', mb_macro_regime st), (''trace_id'', JStr (mb_trace_id st))]"

definition n_secretary_brief :: "'c agent_client \<Rightarrow> 'c morning body" where
  "n_secretary_brief client st =
     mb_call client ''agent_secretary'' (compose_request st) st
       (\<lambda>result st1. let md = dget result ''markdown'' in
          (case len_of (jor md (JStr [])) of
             Inr k \<Rightarrow> FnOk (JObj [(''node'', JStr ''n_secretary_brief''), (''char_count'', jnat k)])
           | Inl e \<Rightarrow> FnRaised e, st1\<lparr>mb_brief_md := md\<rparr>))"

definition deliver_request :: "'c morning \<Rightarrow> json" where
  "deliver_request st = JObj [(''action'', JStr ''notify''), (''markdown'', mb_brief_md st), (''trace_id'', JStr (mb_trace_id st))]"

definition n_deliver_brief :: "'c agent_client \<Rightarrow> 'c morning body" where
  "n_deliver_brief client st =
     (let (r, w) = client ''agent_secretary'' (deliver_request st) (mb_world st); st1 = st\<lparr>mb_world := w\<rparr> in
      case r of
        Answered result \<Rightarrow>
          (FnOk (JObj [(''node'', JStr ''n_deliver_brief''), (''ok'', JBool True),
             (''deferred'', JBool (truthy (jget_or (JObj result) ''deferred'' (JBool False))))]),
           st1\<lparr>mb_notify_result := Some result\<rparr>)
      | _ \<Rightarrow>
          (FnOk (JObj [(''node'', JStr ''n_deliver_brief''), (''ok'', JBool True), (''deferred'', JBool True)]),
           st1\<lparr>mb_notify_result := Some [(''ok'', JBool False), (''deferred'', JBool True), (''error'', JStr (call_error_text r))]\<rparr>))"

section \<open>The graph\<close>

definition persona_node_name :: "string \<Rightarrow> string" where
  "persona_node_name slug = ''n_persona_'' @ slug"

definition leg_names :: "string list \<Rightarrow> string list" where
  "leg_names slugs = ''n_fundamental'' # ''n_quant'' # map persona_node_name slugs"

definition leg_nodes :: "string list \<Rightarrow> 'c morning timing \<Rightarrow> 'c agent_client \<Rightarrow> 'c morning node list" where
  "leg_nodes slugs timing client =
     mk_node timing ''n_fundamental'' (map_of SLA_TABLE ''fundamental.run'') (n_fundamental client)
     # mk_node timing ''n_quant'' (map_of SLA_TABLE ''quant.run'') (n_quant client)
     # map (\<lambda>s. mk_node timing (persona_node_name s) (map_of SLA_TABLE ''persona.daily'') (n_persona s client)) slugs"

definition fan_nodes :: "'st node \<Rightarrow> 'st node list \<Rightarrow> 'st node \<Rightarrow> 'st node \<Rightarrow> 'st node list" where
  "fan_nodes a ms j z = a # ms @ [j, z]"

definition fan_edges :: "string \<Rightarrow> string list \<Rightarrow> string \<Rightarrow> string \<Rightarrow> (string \<times> string) list" where
  "fan_edges a ms j z = map (\<lambda>m. (a, m)) ms @ map (\<lambda>m. (m, j)) ms @ [(j, z)]"

definition build_dag :: "string list \<Rightarrow> 'c morning timing \<Rightarrow> 'c agent_client \<Rightarrow> exn + 'c morning graph" where
  "build_dag slugs timing client =
     build_graph
       (fan_nodes (mk_node timing ''n_intel_synth'' (map_of SLA_TABLE ''intel.synth'') (n_intel_synth client))
          (leg_nodes slugs timing client)
          (mk_node timing ''n_secretary_brief'' (map_of SLA_TABLE ''secretary.compose_brief'') (n_secretary_brief client))
          (mk_node timing ''n_deliver_brief'' None (n_deliver_brief client)))
       ''n_intel_synth'' (fan_edges ''n_intel_synth'' (leg_names slugs) ''n_secretary_brief'' ''n_deliver_brief'')"

section \<open>Fan-out and fan-in\<close>

lemma edges_of_add_edge: "edges_of (add_edge s d g) n = edges_of g n @ (if n = s then [d] else [])"
  by (simp add: edges_of_def add_edge_def)

lemma edges_of_add_edges: "edges_of (add_edges es g) n = edges_of g n @ map snd (filter (\<lambda>(s, d). s = n) es)"
proof (induction es arbitrary: g)
  case (Cons e es)
  obtain s d where "e = (s, d)" by fastforce
  then show ?case using Cons.IH [of "add_edge s d g"] by (auto simp: add_edges_def edges_of_add_edge)
qed (simp add: add_edges_def)

lemma add_edges_frame [simp]:
  "gr_nodes (add_edges es g) = gr_nodes g" "gr_cond (add_edges es g) = gr_cond g" "gr_entry (add_edges es g) = gr_entry g"
  by (induction es arbitrary: g) (auto simp: add_edges_def add_edge_def)

lemma add_edges_distinct: "distinct (keys (gr_edges g)) \<Longrightarrow> distinct (keys (gr_edges (add_edges es g)))"
proof (induction es arbitrary: g)
  case (Cons e es)
  obtain s d where e: "e = (s, d)" by fastforce
  have "distinct (keys (gr_edges (add_edge s d g)))" using Cons.prems by (simp add: add_edge_def distinct_update)
  from Cons.IH [OF this] show ?case by (simp add: add_edges_def e)
qed (simp add: add_edges_def)

lemma parents_of_iff:
  assumes "distinct (keys (gr_edges g))"
  shows "s \<in> set (parents_of g n) \<longleftrightarrow> n \<in> set (edges_of g s)"
proof -
  have "s \<in> set (parents_of g n) \<longleftrightarrow> (\<exists>ds. (s, ds) \<in> set (gr_edges g) \<and> n \<in> set ds)"
    by (force simp: parents_of_def)
  also have "\<dots> \<longleftrightarrow> (\<exists>ds. map_of (gr_edges g) s = Some ds \<and> n \<in> set ds)"
    using map_of_eq_Some_iff [OF assms] by simp
  finally show ?thesis by (auto simp: edges_of_def split: option.splits)
qed

lemma settle_to_join:
  assumes "settle g st rs p c = (p', c')" and "\<And>r. r \<in> set rs \<Longrightarrow> successors g (nr_name r) st = [j]"
    and "j \<notin> c" and "j \<notin> nr_name ` set rs"
  shows "set p' = (set p - nr_name ` set rs) \<union> (if rs = [] then {} else {j}) \<and> c' = c \<union> nr_name ` set rs"
  using assms
proof (induction rs arbitrary: p c)
  case (Cons r rs)
  let ?c = "insert (nr_name r) c" and ?p = "add_pending [j] (insert (nr_name r) c) (filter (\<lambda>n. n \<noteq> nr_name r) p)"
  have "settle g st rs ?p ?c = (p', c')" using Cons.prems(1,2) by (simp add: Let_def)
  note IH = Cons.IH [OF this Cons.prems(2)]
  have "set ?p = set p - {nr_name r} \<union> {j}" using Cons.prems(3,4) by (auto simp: set_add_pending)
  moreover have "set p' = (set ?p - nr_name ` set rs) \<union> (if rs = [] then {} else {j}) \<and> c' = ?c \<union> nr_name ` set rs"
    by (rule IH) (use Cons.prems in auto)
  ultimately show ?case using Cons.prems(4) by auto
qed simp

lemma distinct_singleton: "distinct xs \<Longrightarrow> set xs = {x} \<Longrightarrow> xs = [x]"
  by (cases xs; cases "tl xs") auto

lemma add_pending_fresh: "distinct (p @ ns) \<Longrightarrow> set ns \<inter> c = {} \<Longrightarrow> add_pending ns c p = p @ ns"
  by (induction ns arbitrary: p) auto

lemma run_batch_chain:
  "(\<And>nd. nd \<in> set nds \<Longrightarrow> map_of (gr_nodes g) (nd_name nd) = Some nd) \<Longrightarrow>
     run_batch g runner (map nd_name nds) st = Some (run_chain runner nds st)"
  by (induction nds arbitrary: st) (simp_all add: Let_def case_prod_beta)

lemma run_chain_append:
  "run_chain runner (xs @ ys) st =
     (let (rs, st1) = run_chain runner xs st; (rs', st2) = run_chain runner ys st1 in (rs @ rs', st2))"
  by (induction xs arbitrary: st) (simp_all add: Let_def case_prod_beta)

lemma run_chain_names: "map nr_name (fst (run_chain runner nds st)) = map nd_name nds"
  by (induction nds arbitrary: st) (simp_all add: Let_def case_prod_beta)

text \<open>
  The run of a graph with one entry, any number of legs that meet again, and one node after
  them: the legs run in some order, every other node at its place.
\<close>

lemma add_nodes_graph:
  assumes "build_graph nds e es = Inr g"
  shows "distinct (map nd_name nds) \<and> (\<forall>nd \<in> set nds. map_of (gr_nodes g) (nd_name nd) = Some nd)
    \<and> gr_cond g = [] \<and> gr_entry g = Some e \<and> length (gr_nodes g) = length nds
    \<and> (\<forall>s n. s \<in> set (parents_of g n) \<longleftrightarrow> (s, n) \<in> set es) \<and> (\<forall>n. edges_of g n = map snd (filter (\<lambda>(s, d). s = n) es))"
proof -
  obtain g1 where g1: "add_nodes nds empty_graph = Inr g1" and g: "g = add_edges es (set_entry e g1)"
    using assms by (auto simp: build_graph_def res_bind_Inr_iff)
  have n: "g1 = empty_graph\<lparr>gr_nodes := map (\<lambda>nd. (nd_name nd, nd)) nds\<rparr>" and d: "distinct (map nd_name nds)"
    using add_nodes_Inr [OF g1] by (simp_all add: empty_graph_def comp_def)
  have frame: "gr_nodes g = map (\<lambda>nd. (nd_name nd, nd)) nds" "gr_cond g = []" "gr_entry g = Some e"
    by (simp_all add: g n set_entry_def empty_graph_def)
  have look: "map_of (gr_nodes g) (nd_name nd) = Some nd" if "nd \<in> set nds" for nd
    unfolding frame by (rule map_of_is_SomeI) (use d that in \<open>auto simp: comp_def\<close>)
  have edges: "edges_of g n = map snd (filter (\<lambda>(s, d). s = n) es)" for n
    by (simp add: g edges_of_add_edges) (simp add: edges_of_def n set_entry_def empty_graph_def)
  have "distinct (keys (gr_edges g))"
    unfolding g by (rule add_edges_distinct) (simp add: n set_entry_def empty_graph_def)
  then have "s \<in> set (parents_of g m) \<longleftrightarrow> (s, m) \<in> set es" for s m by (force simp: parents_of_iff edges)
  then show ?thesis using d look frame edges by simp
qed

lemma filter_fan:
  "filter (\<lambda>(s, d). s = x) (map (\<lambda>m. (a, m)) ms) = (if a = x then map (\<lambda>m. (a, m)) ms else [])"
  "distinct ms \<Longrightarrow> filter (\<lambda>(s, d). s = x) (map (\<lambda>m. (m, j)) ms) = (if x \<in> set ms then [(x, j)] else [])"
  by (induction ms) auto

lemma fan_edges_of:
  assumes "build_graph (fan_nodes a ms j z) (nd_name a) (fan_edges (nd_name a) (map nd_name ms) (nd_name j) (nd_name z)) = Inr g"
  shows "successors g (nd_name a) st = map nd_name ms"
    and "m \<in> set ms \<Longrightarrow> successors g (nd_name m) st = [nd_name j]"
    and "successors g (nd_name j) st = [nd_name z]" and "successors g (nd_name z) st = []"
    and "parents_of g (nd_name a) = []" and "m \<in> set ms \<Longrightarrow> set (parents_of g (nd_name m)) = {nd_name a}"
    and "set (parents_of g (nd_name j)) = nd_name ` set ms" and "set (parents_of g (nd_name z)) = {nd_name j}"
proof -
  note G = add_nodes_graph [OF assms]
  have d: "nd_name a \<notin> nd_name ` set ms" "nd_name j \<notin> nd_name ` set ms" "nd_name z \<notin> nd_name ` set ms" "nd_name a \<noteq> nd_name j"
    "nd_name a \<noteq> nd_name z" "nd_name j \<noteq> nd_name z" "distinct (map nd_name ms)"
    using G by (auto simp: fan_nodes_def)
  have s: "successors g n st = map snd (filter (\<lambda>(s, d). s = n) (fan_edges (nd_name a) (map nd_name ms) (nd_name j) (nd_name z)))" for n
    using G by (simp add: successors_def)
  show "successors g (nd_name a) st = map nd_name ms" "m \<in> set ms \<Longrightarrow> successors g (nd_name m) st = [nd_name j]"
    "successors g (nd_name j) st = [nd_name z]" "successors g (nd_name z) st = []"
    unfolding s fan_edges_def filter_append filter_fan(1) filter_fan(2) [OF d(7)] using d by auto
  have p: "x \<in> set (parents_of g n) \<longleftrightarrow> (x, n) \<in> set (fan_edges (nd_name a) (map nd_name ms) (nd_name j) (nd_name z))" for x n
    using G by simp
  have "x \<notin> set (parents_of g (nd_name a))" for x using d unfolding p by (auto simp: fan_edges_def)
  then show "parents_of g (nd_name a) = []" by (cases "parents_of g (nd_name a)") auto
  show "set (parents_of g (nd_name m)) = {nd_name a}" if "m \<in> set ms"
  proof -
    have "nd_name m \<noteq> nd_name j" "nd_name m \<noteq> nd_name z" using imageI [OF that, of nd_name] d by auto
    then show ?thesis using that p by (auto simp: fan_edges_def)
  qed
  show "set (parents_of g (nd_name j)) = nd_name ` set ms" using d p by (auto simp: fan_edges_def)
  show "set (parents_of g (nd_name z)) = {nd_name j}" using d p by (auto simp: fan_edges_def)
qed

lemma fan_run:
  assumes "build_graph (fan_nodes a ms j z) (nd_name a) (fan_edges (nd_name a) (map nd_name ms) (nd_name j) (nd_name z)) = Inr g"
    and "ms \<noteq> []" and "arranges arrange" and "in_time clock timeout_s"
  shows "\<exists>order. set order = set ms \<and> distinct order \<and>
     execute clock timeout_s arrange runner g st
       = (let (rs, st') = run_chain runner (a # order @ [j, z]) st in DagDone rs st' (list_all nr_ok rs))"
proof -
  note G = add_nodes_graph [OF assms(1)] and E = fan_edges_of [OF assms(1)]
  have dms: "distinct (map nd_name ms)" "nd_name a \<notin> nd_name ` set ms" "nd_name j \<notin> insert (nd_name a) (nd_name ` set ms)"
    "nd_name z \<notin> insert (nd_name j) (insert (nd_name a) (nd_name ` set ms))"
    using conjunct1 [OF G] by (auto simp: fan_nodes_def)
  define order where "order = map (\<lambda>n. the (map_of (gr_nodes g) n)) (arrange (map nd_name ms))"
  have node: "map_of (gr_nodes g) (nd_name nd) = Some nd" if "nd \<in> insert a (insert j (insert z (set ms)))" for nd
    using conjunct1 [OF conjunct2 [OF G]] that by (auto simp: fan_nodes_def)
  have arr: "set (arrange (map nd_name ms)) = nd_name ` set ms" "distinct (arrange (map nd_name ms))"
    using assms(3) dms(1) by (auto simp: arranges_def)
  have names: "map nd_name order = arrange (map nd_name ms)"
    unfolding order_def using arr(1) node by (force simp: comp_def intro: map_idI)
  have set_order: "set order = set ms" unfolding order_def using arr(1) node by (force simp: image_iff)
  have dist: "distinct order" using arr(2) names by (metis distinct_map)
  have clock: "\<not> clock 0 + timeout_s < clock k" for k using assms(4) by (simp add: in_time_def not_less)
  obtain ra st1 where ra: "runner a st = (ra, st1)" by fastforce
  obtain rs st2 where rs: "run_chain runner order st1 = (rs, st2)" by fastforce
  obtain rj st3 where rj: "runner j st2 = (rj, st3)" by fastforce
  obtain rz st4 where rz: "runner z st3 = (rz, st4)" by fastforce
  let ?a = "ra\<lparr>nr_name := nd_name a\<rparr>" and ?j = "rj\<lparr>nr_name := nd_name j\<rparr>" and ?z = "rz\<lparr>nr_name := nd_name z\<rparr>"
  let ?loop = "\<lambda>fuel. exec_loop fuel clock (clock 0 + timeout_s) arrange runner g"
  obtain n where fuel: "Suc (length (gr_nodes g)) = Suc (Suc (Suc (Suc n)))"
    using G by (auto simp: fan_nodes_def)
  have pend: "add_pending (map nd_name ms) {nd_name a} [] = map nd_name ms"
    using add_pending_fresh [of "[]" "map nd_name ms"] dms by auto
  have first: "?loop (Suc (Suc (Suc (Suc n)))) 0 st [] [nd_name a] {}
      = ?loop (Suc (Suc (Suc n))) (Suc 0) st1 [?a] (map nd_name ms) {nd_name a}"
    using clock clock [of 0] ra node E(1,5) arranges_one [OF assms(3)] pend by (simp add: exec_loop.simps [of "Suc (Suc (Suc (Suc n)))"] Let_def)
  have ready: "filter (\<lambda>m. set (parents_of g m) \<subseteq> {nd_name a}) (arrange (map nd_name ms)) = map nd_name order"
    unfolding names by (rule filter_True) (use arr(1) E(6) in auto)
  have batch: "run_batch g runner (map nd_name order) st1 = Some (rs, st2)"
    by (subst run_batch_chain) (use node set_order rs in auto)
  have rnames: "nr_name ` set rs = nd_name ` set ms"
    using run_chain_names [of runner order st1] rs set_order by (metis fst_conv list.set_map)
  obtain p' c' where settled: "settle g st2 rs (map nd_name ms) {nd_name a} = (p', c')" by fastforce
  have "successors g (nr_name r) st2 = [nd_name j]" if "r \<in> set rs" for r
    using that rnames E(2) by (metis (no_types, lifting) imageE imageI)
  from settle_to_join [OF settled this]
  have "set p' = {nd_name j}" "c' = insert (nd_name a) (nd_name ` set ms)"
    using dms rnames assms(2) by (auto split: if_splits)
  moreover have "distinct p'" using settle_spec [OF settled] dms by auto
  ultimately have pc: "p' = [nd_name j]" "c' = insert (nd_name a) (nd_name ` set ms)" using distinct_singleton by simp_all
  have second: "?loop (Suc (Suc (Suc n))) (Suc 0) st1 [?a] (map nd_name ms) {nd_name a}
      = ?loop (Suc (Suc n)) (Suc (Suc 0)) st2 (?a # rs) [nd_name j] c'"
    using clock ready batch settled pc assms(2) set_order by (auto simp: exec_loop.simps [of "Suc (Suc (Suc n))"] Let_def)
  have third: "?loop (Suc (Suc n)) (Suc (Suc 0)) st2 (?a # rs) [nd_name j] c'
      = ?loop (Suc n) (Suc (Suc (Suc 0))) st3 (?a # rs @ [?j]) [nd_name z] (insert (nd_name j) c')"
    using clock rj node E(3,7) arranges_one [OF assms(3)] dms pc by (auto simp: exec_loop.simps [of "Suc (Suc n)"] Let_def)
  have fourth: "?loop (Suc n) (Suc (Suc (Suc 0))) st3 (?a # rs @ [?j]) [nd_name z] (insert (nd_name j) c')
      = DagDone (?a # rs @ [?j, ?z]) st4 (list_all nr_ok (?a # rs @ [?j, ?z]))"
    using clock rz node E(4,8) arranges_one [OF assms(3)] pc
    by (auto simp: exec_loop.simps [of "Suc n"] exec_loop.simps [where pending = "[]"] Let_def)
  have "execute clock timeout_s arrange runner g st = DagDone (?a # rs @ [?j, ?z]) st4 (list_all nr_ok (?a # rs @ [?j, ?z]))"
    using G fuel first second third fourth by (simp add: execute_def)
  moreover have "run_chain runner (a # order @ [j, z]) st = (?a # rs @ [?j, ?z], st4)"
    by (simp add: run_chain_append ra rs rj rz)
  ultimately show ?thesis using set_order dist by auto
qed

section \<open>The brief ships\<close>

lemma leg_node_names: "map nd_name (leg_nodes slugs timing client) = leg_names slugs"
  by (simp add: leg_nodes_def leg_names_def)

lemma SLA_entries [simp]:
  "map_of SLA_TABLE ''intel.synth'' = Some (60, 120)" "map_of SLA_TABLE ''fundamental.run'' = Some (45, 90)"
  "map_of SLA_TABLE ''quant.run'' = Some (30, 60)" "map_of SLA_TABLE ''persona.daily'' = Some (30, 90)"
  "map_of SLA_TABLE ''secretary.compose_brief'' = Some (30, 60)"
  by (simp_all add: SLA_TABLE_def)

lemma deliver_unlimited: "hard_limit (mk_node timing ''n_deliver_brief'' None b) = None"
  by (simp add: hard_limit_def lookup_sla_def SLA_TABLE_def starts_with_def ends_with_def)

lemma morning_run:
  assumes "build_dag slugs timing client = Inr g" and "arranges arrange" and "in_time clock timeout_s"
  shows "\<exists>legs. set legs = set (leg_nodes slugs timing client) \<and> distinct legs \<and>
     execute clock timeout_s arrange runner g st
       = (let (rs, st') = run_chain runner
            (mk_node timing ''n_intel_synth'' (Some (60, 120)) (n_intel_synth client)
             # legs @ [mk_node timing ''n_secretary_brief'' (Some (30, 60)) (n_secretary_brief client),
                       mk_node timing ''n_deliver_brief'' None (n_deliver_brief client)]) st
          in DagDone rs st' (list_all nr_ok rs))"
proof (rule fan_run [OF _ _ assms(2,3)])
  show "build_graph
     (fan_nodes (mk_node timing ''n_intel_synth'' (Some (60, 120)) (n_intel_synth client)) (leg_nodes slugs timing client)
       (mk_node timing ''n_secretary_brief'' (Some (30, 60)) (n_secretary_brief client))
       (mk_node timing ''n_deliver_brief'' None (n_deliver_brief client)))
     (nd_name (mk_node timing ''n_intel_synth'' (Some (60, 120)) (n_intel_synth client)))
     (fan_edges (nd_name (mk_node timing ''n_intel_synth'' (Some (60, 120)) (n_intel_synth client)))
       (map nd_name (leg_nodes slugs timing client))
       (nd_name (mk_node timing ''n_secretary_brief'' (Some (30, 60)) (n_secretary_brief client)))
       (nd_name (mk_node timing ''n_deliver_brief'' None (n_deliver_brief client)))) = Inr g"
    using assms(1) by (simp add: build_dag_def leg_node_names)
  show "leg_nodes slugs timing client \<noteq> []" by (simp add: leg_nodes_def)
qed

lemma secretary_state:
  assumes "fst (timing ''n_secretary_brief'' st) \<le> 60"
    and "client ''agent_secretary'' (compose_request st) (mb_world st) = (Answered d, w)" and "dget d ''markdown'' = JStr md"
  shows "with_sla_timeout fmt (mk_node timing ''n_secretary_brief'' (Some (30, 60)) (n_secretary_brief client)) st
    = (result_of ''n_secretary_brief'' True (Output (JObj [(''node'', JStr ''n_secretary_brief''), (''char_count'', jnat (length md))])) None False,
       st\<lparr>mb_world := w, mb_brief_md := JStr md\<rparr>)"
  using assms by (simp add: with_sla_timeout_def hard_limit_def n_secretary_brief_def mb_call_def mk_node_def jor_def Let_def not_less)

lemma deliver_state:
  "nr_ok (fst (with_sla_timeout fmt (mk_node timing ''n_deliver_brief'' None (n_deliver_brief client)) st)) \<and>
   (\<exists>st'. snd (with_sla_timeout fmt (mk_node timing ''n_deliver_brief'' None (n_deliver_brief client)) st) = st'
      \<and> mb_brief_md st' = mb_brief_md st \<and> mb_notify_result st' \<noteq> None
      \<and> mb_world st' = snd (client ''agent_secretary'' (deliver_request st) (mb_world st)))"
proof (cases "client ''agent_secretary'' (deliver_request st) (mb_world st)")
  case (Pair r w)
  then show ?thesis
    by (cases r) (simp_all add: with_sla_timeout_def hard_limit_def lookup_sla_def SLA_TABLE_def starts_with_def ends_with_def
        run_unbounded_def mk_node_def n_deliver_brief_def result_of_def)
qed

text \<open>
  Whatever the intelligence, fundamental, quant and persona agents do (fail, hang past
  their limit, answer with no advice), if the secretary composes within its limit the run
  completes, the brief is the secretary's text, it is handed to the notifier, and the two
  secretary nodes come last and are ok, a failed delivery included.
\<close>

theorem morning_brief_ships_without_agents:
  assumes "build_dag slugs timing client = Inr g" and "arranges arrange" and "in_time clock timeout_s"
    and "\<And>st. fst (timing ''n_secretary_brief'' st) \<le> 60"
    and "\<And>st. \<exists>d w'. client ''agent_secretary'' (compose_request st) (mb_world st) = (Answered d, w') \<and> dget d ''markdown'' = JStr md"
  shows "\<exists>legs rj rz st' ok.
      execute clock timeout_s arrange (with_sla_timeout fmt) g st = DagDone (legs @ [rj, rz]) st' ok
      \<and> nr_name ` set legs = insert ''n_intel_synth'' (set (leg_names slugs))
      \<and> nr_name rj = ''n_secretary_brief'' \<and> nr_ok rj \<and> nr_name rz = ''n_deliver_brief'' \<and> nr_ok rz
      \<and> mb_brief_md st' = JStr md \<and> mb_notify_result st' \<noteq> None"
proof -
  let ?run = "with_sla_timeout fmt"
  let ?a = "mk_node timing ''n_intel_synth'' (Some (60, 120)) (n_intel_synth client)"
  let ?j = "mk_node timing ''n_secretary_brief'' (Some (30, 60)) (n_secretary_brief client)"
  let ?z = "mk_node timing ''n_deliver_brief'' None (n_deliver_brief client)"
  obtain order where order: "set order = set (leg_nodes slugs timing client)"
    and run: "execute clock timeout_s arrange ?run g st
       = (let (rs, st') = run_chain ?run (?a # order @ [?j, ?z]) st in DagDone rs st' (list_all nr_ok rs))"
    using morning_run [OF assms(1-3)] by blast
  obtain rs st1 where rs: "run_chain ?run (?a # order) st = (rs, st1)" by fastforce
  have rnames: "nr_name ` set rs = insert ''n_intel_synth'' (set (leg_names slugs))"
  proof -
    have "map nr_name rs = ''n_intel_synth'' # map nd_name order"
      using run_chain_names [of ?run "?a # order" st] unfolding rs by simp
    moreover have "set (map nd_name order) = set (leg_names slugs)"
      unfolding leg_node_names [of slugs timing client, symmetric] by (simp add: order)
    ultimately show ?thesis by (metis list.set_map list.simps(15))
  qed
  obtain d w where sec: "client ''agent_secretary'' (compose_request st1) (mb_world st1) = (Answered d, w)" "dget d ''markdown'' = JStr md"
    using assms(5) by blast
  let ?st2 = "st1\<lparr>mb_world := w, mb_brief_md := JStr md\<rparr>"
  note j = secretary_state [where timing = timing and st = st1 and client = client and fmt = fmt, OF assms(4) sec]
  obtain rz st' where z: "?run ?z ?st2 = (rz, st')" by fastforce
  have zz: "nr_ok rz" "mb_brief_md st' = JStr md" "mb_notify_result st' \<noteq> None"
    using deliver_state [of fmt timing client ?st2] z by auto
  have "run_chain ?run ((?a # order) @ [?j, ?z]) st
      = (rs @ [result_of ''n_secretary_brief'' True
            (Output (JObj [(''node'', JStr ''n_secretary_brief''), (''char_count'', jnat (length md))])) None False,
          rz\<lparr>nr_name := ''n_deliver_brief''\<rparr>], st')"
    unfolding run_chain_append rs by (simp add: j z result_of_def Let_def)
  then have "execute clock timeout_s arrange ?run g st
      = DagDone (rs @ [result_of ''n_secretary_brief'' True
            (Output (JObj [(''node'', JStr ''n_secretary_brief''), (''char_count'', jnat (length md))])) None False,
          rz\<lparr>nr_name := ''n_deliver_brief''\<rparr>]) st'
          (list_all nr_ok (rs @ [result_of ''n_secretary_brief'' True
            (Output (JObj [(''node'', JStr ''n_secretary_brief''), (''char_count'', jnat (length md))])) None False,
          rz\<lparr>nr_name := ''n_deliver_brief''\<rparr>]))"
    using run by simp
  then show ?thesis using rnames zz
    by (intro exI [of _ rs] exI [of _ "result_of ''n_secretary_brief'' True
            (Output (JObj [(''node'', JStr ''n_secretary_brief''), (''char_count'', jnat (length md))])) None False"]
          exI [of _ "rz\<lparr>nr_name := ''n_deliver_brief''\<rparr>"] exI [of _ st']) (simp add: result_of_def)
qed

text \<open>Only the secretary answers; every analyst hangs for ten minutes.\<close>

definition only_secretary :: "nat agent_client" where
  "only_secretary a p k = (if a = ''agent_secretary'' then Answered [(''markdown'', JStr ''# Brief'')] else CallRaised ''down'', k + 1)"

definition hanging :: "nat morning timing" where
  "hanging n st = (if n = ''n_secretary_brief'' then 5 else 600, st)"

theorem morning_brief_ships_without_agents_witness:
  "\<exists>g. build_dag [''buffett'', ''soros''] hanging only_secretary = Inr g
     \<and> (\<exists>legs rj rz st' ok.
      execute (\<lambda>k. 0) 600 id (with_sla_timeout (\<lambda>h. [])) g (initial_morning [] [] ''t'' (Some [''buffett'', ''soros'']) 0)
         = DagDone (legs @ [rj, rz]) st' ok
      \<and> nr_name ` set legs = insert ''n_intel_synth'' (set (leg_names [''buffett'', ''soros'']))
      \<and> nr_name rj = ''n_secretary_brief'' \<and> nr_ok rj \<and> nr_name rz = ''n_deliver_brief'' \<and> nr_ok rz
      \<and> mb_brief_md st' = JStr ''# Brief'' \<and> mb_notify_result st' \<noteq> None)"
proof -
  obtain g where g: "build_dag [''buffett'', ''soros''] hanging only_secretary = Inr g"
    by (simp add: build_dag_def build_graph_def fan_nodes_def leg_nodes_def add_node_def empty_graph_def persona_node_name_def)
  have "in_time (\<lambda>k. 0) 600" by (simp add: in_time_def)
  note ships = morning_brief_ships_without_agents [OF g arranges_id this]
  show ?thesis
    by (intro exI [of _ g] conjI g ships) (simp_all add: hanging_def only_secretary_def dget_def)
qed

end
