(* ===== verification/NxStore.thy ===== *)
theory NxStore
  imports Prelude
begin

text \<open>
  The orchestrator's two users of \<open>SET key value NX EX ttl\<close>: the Pro-tier slots
  (\<^verbatim>\<open>apps/orchestrator/orchestrator/execute/concurrency.py\<close>) and the run-once cache
  (\<^verbatim>\<open>state/idempotency.py\<close>). The store is an interface: the in-memory one of the source, where
  nothing expires, and one that forgets a key when its time to live is over, as Redis
  documents, both interpret it.
\<close>

section \<open>The store\<close>

locale nx_store =
  fixes set_nx :: "seconds \<Rightarrow> string \<Rightarrow> string \<Rightarrow> seconds \<Rightarrow> 'st \<Rightarrow> bool \<times> 'st"
    and del :: "string \<Rightarrow> 'st \<Rightarrow> 'st"
    and held :: "seconds \<Rightarrow> 'st \<Rightarrow> string \<Rightarrow> bool"
  assumes set_iff: "fst (set_nx now k v ttl st) \<longleftrightarrow> \<not> held now st k"
    and set_holds: "0 < ttl \<Longrightarrow> held now (snd (set_nx now k v ttl st)) k"
    and set_other: "k' \<noteq> k \<Longrightarrow> held t (snd (set_nx now k v ttl st)) k' = held t st k'"
    and set_keeps: "held now st k \<Longrightarrow> held t (snd (set_nx now k v ttl st)) k = held t st k"
    and set_lasts: "\<not> held now st k \<Longrightarrow> now \<le> t \<Longrightarrow> t < now + ttl \<Longrightarrow> held t (snd (set_nx now k v ttl st)) k"
    and del_frees: "\<not> held now (del k st) k"
    and del_other: "k' \<noteq> k \<Longrightarrow> held now (del k st) k' = held now st k'"

type_synonym mem_nx = "(string, string) dict"

definition mem_set_nx :: "seconds \<Rightarrow> string \<Rightarrow> string \<Rightarrow> seconds \<Rightarrow> mem_nx \<Rightarrow> bool \<times> mem_nx" where
  "mem_set_nx now name v ttl store =
     (if map_of store name \<noteq> None then (False, store) else (True, AList.update name v store))"

definition mem_delete :: "string \<Rightarrow> mem_nx \<Rightarrow> mem_nx" where
  "mem_delete name store = AList.delete name store"

definition mem_held :: "seconds \<Rightarrow> mem_nx \<Rightarrow> string \<Rightarrow> bool" where
  "mem_held now store name \<longleftrightarrow> map_of store name \<noteq> None"

interpretation mem: nx_store mem_set_nx mem_delete mem_held
  by unfold_locales (auto simp: mem_set_nx_def mem_delete_def mem_held_def)

text \<open>Redis: a key with its expiry; an expired key is as good as absent.\<close>

type_synonym ttl_nx = "string \<Rightarrow> (string \<times> seconds) option"

definition ttl_held :: "seconds \<Rightarrow> ttl_nx \<Rightarrow> string \<Rightarrow> bool" where
  "ttl_held now store name = (case store name of None \<Rightarrow> False | Some (v, expires) \<Rightarrow> now < expires)"

definition ttl_set_nx :: "seconds \<Rightarrow> string \<Rightarrow> string \<Rightarrow> seconds \<Rightarrow> ttl_nx \<Rightarrow> bool \<times> ttl_nx" where
  "ttl_set_nx now name v ttl store =
     (if ttl_held now store name then (False, store) else (True, store(name \<mapsto> (v, now + ttl))))"

definition ttl_delete :: "string \<Rightarrow> ttl_nx \<Rightarrow> ttl_nx" where
  "ttl_delete name store = store(name := None)"

interpretation redis: nx_store ttl_set_nx ttl_delete ttl_held
  by unfold_locales (auto simp: ttl_set_nx_def ttl_delete_def ttl_held_def)

section \<open>Pro slots\<close>

definition slot_key :: "nat \<Rightarrow> string" where
  "slot_key slot = ''lock:pro_concurrency:'' @ show_nat slot"

text \<open>One sweep of \<open>_claim\<close> over the slots; the loop around it sweeps again after a pause.\<close>

fun claim_sweep :: "(string \<Rightarrow> 'st \<Rightarrow> bool \<times> 'st) \<Rightarrow> nat list \<Rightarrow> 'st \<Rightarrow> nat option \<times> 'st" where
  "claim_sweep set_slot [] st = (None, st)"
| "claim_sweep set_slot (slot # slots) st =
     (let (ok, st') = set_slot (slot_key slot) st in
      if ok then (Some slot, st') else claim_sweep set_slot slots st')"

definition SLOT_TTL_S :: seconds where
  "SLOT_TTL_S = 300"

definition slots_upto :: "nat \<Rightarrow> nat list" where
  "slots_upto capacity = [1..<Suc capacity]"

datatype claim_result = Slot nat | ClaimTimeout | Sleep

definition claim_round :: "(seconds \<Rightarrow> string \<Rightarrow> string \<Rightarrow> seconds \<Rightarrow> 'st \<Rightarrow> bool \<times> 'st) \<Rightarrow> string \<Rightarrow> nat
    \<Rightarrow> seconds \<Rightarrow> seconds \<Rightarrow> 'st \<Rightarrow> claim_result \<times> 'st" where
  "claim_round set_nx holder capacity deadline now st =
     (case claim_sweep (\<lambda>k. set_nx now k holder SLOT_TTL_S) (slots_upto capacity) st of
        (Some slot, st') \<Rightarrow> (Slot slot, st')
      | (None, st') \<Rightarrow> (if now > deadline then ClaimTimeout else Sleep, st'))"

text \<open>Releasing deletes the slot's key, whoever holds it by then.\<close>

definition release_slot :: "(string \<Rightarrow> 'st \<Rightarrow> 'st) \<Rightarrow> nat \<Rightarrow> 'st \<Rightarrow> 'st" where
  "release_slot del slot st = del (slot_key slot) st"

section \<open>Run once\<close>

definition idempotency_key :: "string \<Rightarrow> string \<Rightarrow> string \<Rightarrow> string" where
  "idempotency_key dag_id trigger_kind trigger_at =
     ''orch:idem:'' @ dag_id @ '':'' @ trigger_kind @ '':'' @ trigger_at"

definition DEFAULT_TTL_S :: seconds where
  "DEFAULT_TTL_S = 24 * 3600"

definition claim_or_skip :: "(seconds \<Rightarrow> string \<Rightarrow> string \<Rightarrow> seconds \<Rightarrow> 'st \<Rightarrow> bool \<times> 'st) \<Rightarrow> seconds
    \<Rightarrow> string \<Rightarrow> string \<Rightarrow> string \<Rightarrow> bool \<Rightarrow> 'st \<Rightarrow> bool \<times> 'st" where
  "claim_or_skip set_nx now dag_id trigger_kind trigger_at force st =
     (if force then (True, st)
      else set_nx now (idempotency_key dag_id trigger_kind trigger_at) ''1'' DEFAULT_TTL_S st)"

definition with_idempotency :: "(seconds \<Rightarrow> string \<Rightarrow> string \<Rightarrow> seconds \<Rightarrow> 'st \<Rightarrow> bool \<times> 'st) \<Rightarrow> seconds
    \<Rightarrow> string \<Rightarrow> string \<Rightarrow> string \<Rightarrow> bool \<Rightarrow> 'r \<Rightarrow> 'r \<Rightarrow> 'st \<Rightarrow> 'r \<times> 'st" where
  "with_idempotency set_nx now dag_id trigger_kind trigger_at force runner on_skip st =
     (let (proceed, st') = claim_or_skip set_nx now dag_id trigger_kind trigger_at force st in
      (if proceed then runner else on_skip, st'))"

section \<open>Lemmas over the interface\<close>

context nx_store
begin

text \<open>A claim takes a slot nobody holds; no other key changes hands.\<close>

lemma sweep_claims_free:
  assumes "claim_sweep (\<lambda>k. set_nx now k v ttl) slots st = (Some slot, st')"
  shows "slot \<in> set slots \<and> \<not> held now st (slot_key slot)"
  using assms
proof (induction slots arbitrary: st)
  case (Cons s slots)
  obtain ok st1 where s: "set_nx now (slot_key s) v ttl st = (ok, st1)" by fastforce
  show ?case
  proof (cases ok)
    case True
    then show ?thesis using Cons.prems s set_iff [of now "slot_key s" v ttl st] by simp
  next
    case False
    then have h: "held now st (slot_key s)" using s set_iff [of now "slot_key s" v ttl st] by simp
    have "claim_sweep (\<lambda>k. set_nx now k v ttl) slots st1 = (Some slot, st')" using Cons.prems s False by simp
    from Cons.IH [OF this] have "slot \<in> set slots" "\<not> held now st1 (slot_key slot)" by simp_all
    moreover have "held now st1 k = held now st k" for k
      using set_other [of k "slot_key s" now now v ttl st] set_keeps [OF h, of now v ttl] s by (cases "k = slot_key s") simp_all
    ultimately show ?thesis by simp
  qed
qed simp

lemma sweep_frame:
  assumes "claim_sweep (\<lambda>k. set_nx now k v ttl) slots st = (Some slot, st')"
  shows "(k \<noteq> slot_key slot \<longrightarrow> held t st' k = held t st k)
    \<and> (now \<le> t \<and> t < now + ttl \<longrightarrow> held t st' (slot_key slot))"
  using assms
proof (induction slots arbitrary: st)
  case (Cons s slots)
  obtain ok st1 where step: "set_nx now (slot_key s) v ttl st = (ok, st1)" by fastforce
  show ?case
  proof (cases ok)
    case True
    then have eq: "slot = s" "st' = st1" using Cons.prems step by simp_all
    have free: "\<not> held now st (slot_key s)" using True step set_iff [of now "slot_key s" v ttl st] by simp
    have "st1 = snd (set_nx now (slot_key s) v ttl st)" by (simp add: step)
    then show ?thesis unfolding eq using set_other set_lasts [OF free] by simp
  next
    case False
    then have "held now st (slot_key s)" using step set_iff [of now "slot_key s" v ttl st] by simp
    then have "held t st1 k = held t st k"
      using step set_other [of k "slot_key s" t now v ttl st] set_keeps [of now st "slot_key s" t v ttl]
      by (cases "k = slot_key s") simp_all
    moreover have "claim_sweep (\<lambda>k. set_nx now k v ttl) slots st1 = (Some slot, st')"
      using Cons.prems step False by simp
    ultimately show ?thesis using Cons.IH by simp
  qed
qed simp

lemma second_claim_skipped:
  assumes "claim_or_skip set_nx now d k m False st = (True, st')" and "now \<le> t" and "t < now + DEFAULT_TTL_S"
  shows "\<not> fst (claim_or_skip set_nx t d k m False st')"
proof -
  let ?key = "idempotency_key d k m"
  have "\<not> held now st ?key" using assms(1) set_iff [of now ?key "''1''" DEFAULT_TTL_S st]
    by (simp add: claim_or_skip_def)
  then have "held t st' ?key"
    using set_lasts [of now st ?key t DEFAULT_TTL_S "''1''"] assms by (simp add: claim_or_skip_def)
  then show ?thesis using set_iff [of t ?key "''1''" DEFAULT_TTL_S st'] by (simp add: claim_or_skip_def)
qed

end

text \<open>Different slots have different keys.\<close>

lemma show_nat_inj: "show_nat m = show_nat n \<Longrightarrow> m = n"
proof (induction m arbitrary: n rule: less_induct)
  case (less m)
  have digit: "(48::nat) + i < 256" if "i < 10" for i using that by simp
  have char: "char_of (48 + i) = (char_of (48 + j) :: char) \<Longrightarrow> i = j" if "i < 10" "j < 10" for i j :: nat
    using that by (metis add_left_cancel char_of_eq_iff digit of_char_of mod_less)
  show ?case
  proof (cases "m < 10")
    case True
    show ?thesis
    proof (cases "n < 10")
      case n: True
      then show ?thesis using less.prems True char by (simp add: show_nat.simps [of m] show_nat.simps [of n])
    next
      case False
      have "length (show_nat k) \<ge> 1" for k by (subst show_nat.simps) simp
      from this [of "n div 10"] have "length (show_nat n) \<ge> 2" using False by (subst show_nat.simps) simp
      moreover have "length (show_nat n) = 1"
        unfolding less.prems [symmetric] using True by (subst show_nat.simps) simp
      ultimately show ?thesis by simp
    qed
  next
    case m: False
    show ?thesis
    proof (cases "n < 10")
      case True
      have "length (show_nat k) \<ge> 1" for k by (subst show_nat.simps) simp
      from this [of "m div 10"] have "length (show_nat m) \<ge> 2" using m by (subst show_nat.simps) simp
      moreover have "length (show_nat m) = 1"
        unfolding less.prems using True by (subst show_nat.simps) simp
      ultimately show ?thesis by simp
    next
      case False
      then have "show_nat (m div 10) = show_nat (n div 10)" "m mod 10 = n mod 10"
        using less.prems m char by (simp_all add: show_nat.simps [of m] show_nat.simps [of n])
      moreover have "m div 10 < m" using m by simp
      ultimately show ?thesis using less.IH by (metis div_mult_mod_eq)
    qed
  qed
qed

lemma slot_key_inj: "slot_key a = slot_key b \<longleftrightarrow> a = b"
  using show_nat_inj by (auto simp: slot_key_def)

section \<open>The cap on Pro calls\<close>

text \<open>
  Holders claim and release slots while time passes; each holder with the time it claimed.
  \<open>tick\<close> lets no hold outlive the time to live of its key.
\<close>

inductive slot_step :: "(seconds \<Rightarrow> string \<Rightarrow> string \<Rightarrow> seconds \<Rightarrow> 'st \<Rightarrow> bool \<times> 'st) \<Rightarrow> (string \<Rightarrow> 'st \<Rightarrow> 'st) \<Rightarrow> nat
    \<Rightarrow> seconds \<times> 'st \<times> (nat \<times> seconds) list \<Rightarrow> seconds \<times> 'st \<times> (nat \<times> seconds) list \<Rightarrow> bool"
  for set_nx del capacity where
  claim: "claim_round set_nx holder capacity deadline now st = (Slot i, st') \<Longrightarrow>
     slot_step set_nx del capacity (now, st, hs) (now, st', (i, now) # hs)"
| no_claim: "claim_round set_nx holder capacity deadline now st = (r, st') \<Longrightarrow> r = Sleep \<or> r = ClaimTimeout \<Longrightarrow>
     slot_step set_nx del capacity (now, st, hs) (now, st', hs)"
| release: "(i, t0) \<in> set hs \<Longrightarrow>
     slot_step set_nx del capacity (now, st, hs) (now, release_slot del i st, remove1 (i, t0) hs)"
| tick: "now \<le> t \<Longrightarrow> (\<And>i t0. (i, t0) \<in> set hs \<Longrightarrow> t < t0 + SLOT_TTL_S) \<Longrightarrow>
     slot_step set_nx del capacity (now, st, hs) (t, st, hs)"

lemma claim_round_Slot:
  "claim_round set_nx h capacity dl now st = (Slot i, st') \<Longrightarrow>
     claim_sweep (\<lambda>k. set_nx now k h SLOT_TTL_S) (slots_upto capacity) st = (Some i, st')"
  by (auto simp: claim_round_def split: prod.splits option.splits if_splits)

lemma claim_round_none:
  "claim_round set_nx h capacity dl now st = (r, st') \<Longrightarrow> r = Sleep \<or> r = ClaimTimeout \<Longrightarrow>
     claim_sweep (\<lambda>k. set_nx now k h SLOT_TTL_S) (slots_upto capacity) st = (None, st')"
  by (auto simp: claim_round_def split: prod.splits option.splits)

context nx_store
begin

lemma sweep_none_frame:
  "claim_sweep (\<lambda>k. set_nx now k v ttl) slots st = (None, st') \<Longrightarrow> held t st' k = held t st k"
proof (induction slots arbitrary: st)
  case (Cons s slots)
  obtain ok st1 where step: "set_nx now (slot_key s) v ttl st = (ok, st1)" by fastforce
  then have "\<not> ok" using Cons.prems by auto
  then have "held now st (slot_key s)" using step set_iff [of now "slot_key s" v ttl st] by simp
  then have "held t st1 k = held t st k"
    using step set_other [of k "slot_key s" t now v ttl st] set_keeps [of now st "slot_key s" t v ttl]
    by (cases "k = slot_key s") simp_all
  then show ?case using Cons step \<open>\<not> ok\<close> by simp
qed simp

definition slots_inv :: "nat \<Rightarrow> seconds \<times> 'st \<times> (nat \<times> seconds) list \<Rightarrow> bool" where
  "slots_inv capacity s = (case s of (now, st, hs) \<Rightarrow> distinct (map fst hs)
     \<and> (\<forall>(i, t0) \<in> set hs. i \<in> set (slots_upto capacity) \<and> t0 \<le> now \<and> now < t0 + SLOT_TTL_S
          \<and> (\<forall>t. now \<le> t \<and> t < t0 + SLOT_TTL_S \<longrightarrow> held t st (slot_key i))))"

lemma slots_inv_step: "slot_step set_nx del capacity s s' \<Longrightarrow> slots_inv capacity s \<Longrightarrow> slots_inv capacity s'"
proof (induction rule: slot_step.induct)
  case (claim holder deadline now st i st' hs)
  note sweep = claim_round_Slot [OF claim.hyps]
  have i: "i \<in> set (slots_upto capacity)" "\<not> held now st (slot_key i)" using sweep_claims_free [OF sweep] by simp_all
  have "i \<notin> fst ` set hs" using claim.prems i(2) by (fastforce simp: slots_inv_def)
  moreover have "held t st' (slot_key j) = held t st (slot_key j)" if "j \<in> fst ` set hs" for t j
    using sweep_frame [OF sweep, of "slot_key j" t] that calculation by (auto simp: slot_key_inj)
  moreover have "held t st' (slot_key i)" if "now \<le> t" "t < now + SLOT_TTL_S" for t
    using sweep_frame [OF sweep, of "slot_key i" t] that by simp
  ultimately show ?case using claim.prems i(1) by (force simp: slots_inv_def SLOT_TTL_S_def)
next
  case (no_claim holder deadline now st r st' hs)
  then show ?case using sweep_none_frame [OF claim_round_none [OF no_claim.hyps]] by (simp add: slots_inv_def)
next
  case (release i t0 hs now st)
  have dist: "distinct (map fst hs)" using release.prems by (simp add: slots_inv_def)
  have same: "held t (release_slot del i st) (slot_key j) = held t st (slot_key j)" if "j \<noteq> i" for t j
    using that by (simp add: release_slot_def del_other slot_key_inj)
  have kept: "j \<noteq> i \<and> (j, t1) \<in> set hs" if x: "(j, t1) \<in> set (remove1 (i, t0) hs)" for j t1
  proof -
    have "distinct hs" using dist by (simp add: distinct_map)
    then have "(j, t1) \<in> set hs" "(j, t1) \<noteq> (i, t0)" using x by simp_all
    then show ?thesis using eq_key_imp_eq_value [OF dist, of i t1 t0] release.hyps by blast
  qed
  have "distinct (map fst (remove1 (i, t0) hs))"
    using dist set_remove1_subset [of "(i, t0)" hs] by (auto simp: distinct_map intro: inj_on_subset distinct_remove1)
  moreover have "j \<in> set (slots_upto capacity) \<and> t1 \<le> now \<and> now < t1 + SLOT_TTL_S
      \<and> (\<forall>t. now \<le> t \<and> t < t1 + SLOT_TTL_S \<longrightarrow> held t (release_slot del i st) (slot_key j))"
    if "(j, t1) \<in> set (remove1 (i, t0) hs)" for j t1
    using kept [OF that] release.prems same [of j] by (simp add: slots_inv_def) blast
  ultimately show ?case by (simp only: slots_inv_def prod.case) blast
next
  case (tick now t hs st)
  have "t0 \<le> t \<and> t < t0 + SLOT_TTL_S" if "(i, t0) \<in> set hs" for i t0
    using tick that by (fastforce simp: slots_inv_def)
  then show ?case using tick.hyps(1) tick.prems by (fastforce simp: slots_inv_def)
qed

lemma slots_bounded:
  assumes "(slot_step set_nx del capacity)\<^sup>*\<^sup>* (now0, st0, []) (now, st, hs)"
  shows "length hs \<le> capacity"
proof -
  have "slots_inv capacity (now0, st0, [])" by (simp add: slots_inv_def)
  with assms have inv: "slots_inv capacity (now, st, hs)"
    by (induction rule: rtranclp_induct) (auto intro: slots_inv_step)
  have "set (map fst hs) \<subseteq> set (slots_upto capacity)" "distinct (map fst hs)"
    using inv by (auto simp: slots_inv_def)
  then have "length hs \<le> card (set (slots_upto capacity))"
    by (metis card_mono distinct_card length_map List.finite_set)
  moreover have "card (set (slots_upto capacity)) \<le> capacity"
    using card_length [of "slots_upto capacity"] by (simp only: slots_upto_def length_upt)
  ultimately show ?thesis by (rule le_trans)
qed

end

text \<open>
  As long as no holder keeps its slot longer than the key's time to live, never more
  than \<open>capacity\<close> Pro calls hold a slot at once, in any interleaving and whatever keys the
  store held before and whichever store it is that keeps its \<open>SET NX EX\<close> laws.
\<close>

theorem pro_calls_capped:
  assumes "nx_store set_nx del held"
    and "(slot_step set_nx del capacity)\<^sup>*\<^sup>* (now0, store0, []) (now, store, hs)"
  shows "length hs \<le> capacity"
  by (rule nx_store.slots_bounded [OF assms])

theorem pro_calls_capped_witness:
  "\<exists>store. (slot_step ttl_set_nx ttl_delete 4)\<^sup>*\<^sup>* (0, (\<lambda>k. None), []) (0, store, [(1, 0)]) \<and> length [(1::nat, 0::seconds)] \<le> 4"
proof -
  have "\<exists>store. claim_round ttl_set_nx ''orch'' 4 300 0 (\<lambda>k. None) = (Slot 1, store)"
    by (simp add: claim_round_def slots_upto_def ttl_set_nx_def ttl_held_def upt_rec)
  then obtain store where "claim_round ttl_set_nx ''orch'' 4 300 0 (\<lambda>k. None) = (Slot 1, store)" ..
  then have "slot_step ttl_set_nx ttl_delete 4 (0, (\<lambda>k. None), []) (0, store, [(1, 0)])" by (rule claim)
  then have run: "(slot_step ttl_set_nx ttl_delete 4)\<^sup>*\<^sup>* (0, (\<lambda>k. None), []) (0, store, [(1, 0)])" by (rule r_into_rtranclp)
  show ?thesis using run pro_calls_capped [OF redis.nx_store_axioms run] by blast
qed

text \<open>
  A holder that overruns the time to live breaks the cap twice: with a capacity of one,
  a second holder gets the expired slot, and when the first one releases it deletes the
  second one's key, so that a third gets in while the second still runs.
\<close>

theorem slot_overrun_breaks_cap:
  "\<exists>st1 st2.
     claim_round ttl_set_nx a 1 dl t (\<lambda>k. None) = (Slot 1, st1)
     \<and> claim_round ttl_set_nx b 1 dl (t + 300) st1 = (Slot 1, st2)
     \<and> fst (claim_round ttl_set_nx c 1 dl (t + 301) st2) \<noteq> Slot 1
     \<and> fst (claim_round ttl_set_nx c 1 dl (t + 301) (release_slot ttl_delete 1 st2)) = Slot 1"
  by (simp add: claim_round_def slots_upto_def ttl_set_nx_def ttl_held_def SLOT_TTL_S_def release_slot_def
      ttl_delete_def)

section \<open>At most one run per trigger\<close>

text \<open>
  Without \<open>force\<close>, a trigger of the same DAG, kind and minute that fires again within
  a day is skipped: the DAG does not run.
\<close>

theorem repeated_trigger_skipped:
  assumes "nx_store set_nx del held"
    and "claim_or_skip set_nx now dag kind minute False st = (True, st')" and "now \<le> t" and "t < now + 24 * 3600"
  shows "fst (with_idempotency set_nx t dag kind minute False (Some run) None st') = None"
proof -
  have "\<not> fst (claim_or_skip set_nx t dag kind minute False st')"
    by (rule nx_store.second_claim_skipped [OF assms(1-3)]) (use assms(4) in \<open>simp add: DEFAULT_TTL_S_def\<close>)
  then show ?thesis by (simp add: with_idempotency_def case_prod_beta)
qed

theorem repeated_trigger_skipped_witness:
  "fst (with_idempotency ttl_set_nx 60 ''morning_brief'' ''cron'' ''06:30'' False (Some ()) None
     (snd (claim_or_skip ttl_set_nx 0 ''morning_brief'' ''cron'' ''06:30'' False (\<lambda>k. None)))) = None"
  by (rule repeated_trigger_skipped [OF redis.nx_store_axioms, where now = 0 and st = "\<lambda>k. None"])
    (simp_all add: claim_or_skip_def ttl_set_nx_def ttl_held_def)

end
