(* ===== verification/OrchestratorApp.thy ===== *)
theory OrchestratorApp
  imports TradingRoom AuxiliaryDags MorningBrief NxStore
begin

text \<open>
  The orchestrator's application (\<^verbatim>\<open>apps/orchestrator/orchestrator/app.py\<close>, \<^verbatim>\<open>plan/registry.py\<close>,
  \<^verbatim>\<open>triggers/\<close>): every trigger goes through \<open>route\<close>, which looks up the DAG of its name and
  runs it under the run-once cache; the HTTP endpoints; the table of the default DAGs and the
  production client's base URLs.
\<close>

section \<open>Triggers and the registry\<close>

record trigger =
  tg_kind :: string
  tg_name :: string
  tg_fired_at :: seconds
  tg_payload :: "(string, json) dict"
  tg_force :: bool

datatype ctx_val = CtxTrigger trigger | CtxStr string | CtxJson json

type_synonym ctx = "(string, ctx_val) dict"

datatype dag_error = BuildError exn | NoEntryNode | StalledOn "string list" | OverallTimeout | UnknownNode | NoTraceId | NeverEnds

record dag_summary =
  ds_dag_id :: string
  ds_trace_id :: string
  ds_ok :: bool
  ds_nodes :: "node_result list"

type_synonym 'c entry = "ctx \<Rightarrow> 'c \<Rightarrow> (dag_error + dag_summary) \<times> 'c"
type_synonym 'c registry = "(string, 'c entry) dict"

definition register :: "string \<Rightarrow> 'c entry \<Rightarrow> 'c registry \<Rightarrow> 'c registry" where
  "register trigger_name e r = AList.update trigger_name e r"

definition lookup :: "string \<Rightarrow> 'c registry \<Rightarrow> 'c entry option" where
  "lookup trigger_name r = map_of r trigger_name"

definition cron_trigger :: "string \<Rightarrow> seconds \<Rightarrow> trigger" where
  "cron_trigger n now = \<lparr>tg_kind = ''cron'', tg_name = n, tg_fired_at = now, tg_payload = [], tg_force = False\<rparr>"

text \<open>\<open>parsed\<close> is what \<open>orjson.loads\<close> makes of the data, \<open>None\<close> if it is no JSON.\<close>

definition event_trigger :: "string \<Rightarrow> seconds \<Rightarrow> string \<Rightarrow> (string, json) dict option \<Rightarrow> trigger" where
  "event_trigger subject now data parsed =
     \<lparr>tg_kind = ''event'', tg_name = ''event:'' @ subject, tg_fired_at = now,
      tg_payload = (if data = [] then [] else case parsed of Some d \<Rightarrow> d | None \<Rightarrow> [(''_raw'', JStr data)]), tg_force = False\<rparr>"

definition http_trigger :: "string \<Rightarrow> seconds \<Rightarrow> (string, json) dict \<Rightarrow> bool \<Rightarrow> trigger" where
  "http_trigger dag_id now body force =
     \<lparr>tg_kind = ''http'', tg_name = ''http:'' @ dag_id, tg_fired_at = now, tg_payload = body, tg_force = force\<rparr>"

definition ORCH_SUBJECTS :: "string list" where
  "ORCH_SUBJECTS = [''intel.digest.v1'', ''intel.event.high_impact.v1'', ''intel.event.geo_cluster.v1'', ''backtest.fill.v1'', ''ops.alert.v1'']"

definition CRON_NAMES :: "string list" where
  "CRON_NAMES = [''cron:intel_rss_pull'', ''cron:intel_gdelt_pull'', ''cron:intel_macro_pull'', ''cron:morning_brief'',
     ''cron:midday_check'', ''cron:evening_recap'', ''cron:weekly_eval'']"

section \<open>Running a DAG\<close>

text \<open>
  What a run takes from its environment: the clock at the start of each round, the order of
  ready nodes, the timing of nodes, the triage's flag, LLM and time stamp, the slugs.
\<close>

record 'c env =
  ev_clock :: "nat \<Rightarrow> seconds"
  ev_arrange :: "string list \<Rightarrow> string list"
  ev_fmt :: "seconds \<Rightarrow> string"
  ev_simple_timing :: "'c simple timing"
  ev_morning_timing :: "'c morning timing"
  ev_room_timing :: "'c room timing"
  ev_py :: pystd
  ev_llm :: "'c triage_llm"
  ev_triage_on :: bool
  ev_now_iso :: string
  ev_ulid :: string
  ev_slugs :: "string list"

definition run_dag :: "'c env \<Rightarrow> string \<Rightarrow> string \<Rightarrow> ('st \<Rightarrow> 'c) \<Rightarrow> exn + 'st graph \<Rightarrow> 'st \<Rightarrow> (dag_error + dag_summary) \<times> 'c" where
  "run_dag env dag_id trace world_of g st =
     (case g of
        Inl e \<Rightarrow> (Inl (BuildError e), world_of st)
      | Inr g \<Rightarrow>
          (case execute (ev_clock env) 600 (ev_arrange env) (with_sla_timeout (ev_fmt env)) g st of
             DagDone rs st' ok \<Rightarrow> (Inr \<lparr>ds_dag_id = dag_id, ds_trace_id = trace, ds_ok = ok, ds_nodes = rs\<rparr>, world_of st')
           | NoEntry \<Rightarrow> (Inl NoEntryNode, world_of st)
           | Stalled ps st' \<Rightarrow> (Inl (StalledOn ps), world_of st')
           | DagTimeout st' \<Rightarrow> (Inl OverallTimeout, world_of st')
           | MissingNode st' \<Rightarrow> (Inl UnknownNode, world_of st')
           | OutOfFuel \<Rightarrow> (Inl NeverEnds, world_of st)))"

text \<open>\<open>ctx["trace_id"]\<close>, and \<open>ctx.get("payload") or {}\<close>.\<close>

definition with_trace :: "(string \<Rightarrow> 'c \<Rightarrow> (dag_error + dag_summary) \<times> 'c) \<Rightarrow> ctx \<Rightarrow> 'c \<Rightarrow> (dag_error + dag_summary) \<times> 'c" where
  "with_trace run c w = (case map_of c ''trace_id'' of Some (CtxStr t) \<Rightarrow> run t w | _ \<Rightarrow> (Inl NoTraceId, w))"

definition ctx_payload :: "ctx \<Rightarrow> (string, json) dict" where
  "ctx_payload c = (case map_of c ''payload'' of Some (CtxJson (JObj d)) \<Rightarrow> d | _ \<Rightarrow> [])"

definition morning_brief_entry :: "'c env \<Rightarrow> 'c agent_client \<Rightarrow> 'c entry" where
  "morning_brief_entry env client = with_trace (\<lambda>t w.
     let st = initial_morning (ev_ulid env) (ev_slugs env) t None w in
     run_dag env ''morning_brief'' (mb_trace_id st) mb_world (build_dag (ev_slugs env) (ev_morning_timing env) client) st)"

definition simple_entry :: "'c env \<Rightarrow> string \<Rightarrow> ('c simple timing \<Rightarrow> 'c agent_client \<Rightarrow> exn + 'c simple graph) \<Rightarrow> 'c agent_client \<Rightarrow> 'c entry" where
  "simple_entry env dag_id builder client = with_trace (\<lambda>t w.
     let st = initial_simple (ev_ulid env) t w in
     run_dag env dag_id (sd_trace_id st) sd_world (builder (ev_simple_timing env) client) st)"

definition trading_room_entry :: "'c env \<Rightarrow> 'c agent_client \<Rightarrow> 'c entry" where
  "trading_room_entry env client c = with_trace (\<lambda>t w.
     let st = make_initial_room (ev_py env) (ev_ulid env) (ctx_payload c) t w in
     run_dag env ''trading_room'' (tr_trace_id st) tr_world
       (build_trading_room_dag (ev_py env) (ev_llm env) (ev_triage_on env) (ev_now_iso env) (ev_room_timing env) client) st) c"

definition default_table :: "'c env \<Rightarrow> 'c agent_client \<Rightarrow> (string \<times> 'c entry) list" where
  "default_table env client =
     (let morning = morning_brief_entry env client;
          midday = simple_entry env ''midday_pulse'' (build_midday_pulse_dag (ev_py env)) client;
          evening = simple_entry env ''evening_recap'' build_evening_recap_dag client;
          hourly = simple_entry env ''hourly_intel_pulse'' build_hourly_intel_dag client;
          weekly = simple_entry env ''weekly_eval'' build_weekly_eval_dag client;
          rss_pull = simple_entry env ''intel_rss_pull'' build_intel_rss_pull_dag client;
          gdelt_pull = simple_entry env ''intel_gdelt_pull'' build_intel_gdelt_pull_dag client;
          macro_pull = simple_entry env ''intel_macro_pull'' build_intel_macro_pull_dag client;
          room = trading_room_entry env client
      in [(''cron:morning_brief'', morning), (''http:morning_brief'', morning),
          (''cron:midday_check'', midday), (''http:midday_check'', midday),
          (''cron:evening_recap'', evening), (''http:evening_recap'', evening),
          (''cron:hourly_intel'', hourly), (''http:hourly_intel'', hourly),
          (''cron:weekly_eval'', weekly), (''http:weekly_eval'', weekly),
          (''cron:intel_rss_pull'', rss_pull), (''http:intel_rss_pull'', rss_pull),
          (''cron:intel_gdelt_pull'', gdelt_pull), (''http:intel_gdelt_pull'', gdelt_pull),
          (''cron:intel_macro_pull'', macro_pull), (''http:intel_macro_pull'', macro_pull),
          (''event:intel.digest.v1'', simple_entry env ''event_intel_digest'' build_intel_digest_event_dag client),
          (''event:backtest.fill.v1'', simple_entry env ''event_backtest_fill'' build_backtest_fill_event_dag client),
          (''event:ops.alert.v1'', simple_entry env ''event_ops_alert'' build_ops_alert_event_dag client),
          (''event:intel.event.high_impact.v1'', room), (''event:intel.event.geo_cluster.v1'', room)])"

definition register_default_dags :: "'c env \<Rightarrow> 'c agent_client \<Rightarrow> 'c registry \<Rightarrow> 'c registry" where
  "register_default_dags env client = fold (\<lambda>(n, e). register n e) (default_table env client)"

section \<open>Routing\<close>

record ('c, 'st) app =
  ap_idem :: 'st
  ap_active :: "(string, string \<times> seconds \<times> string) dict"
  ap_last :: "dag_summary option"
  ap_world :: 'c

datatype route_out = Dropped | Ran dag_summary | Failed dag_error

text \<open>\<open>trigger.name.split(":", 1)[-1]\<close>.\<close>

definition after_colon :: "string \<Rightarrow> string" where
  "after_colon s = (if CHR '':'' \<in> set s then tl (dropWhile (\<lambda>c. c \<noteq> CHR '':'') s) else s)"

definition route_ctx :: "trigger \<Rightarrow> string \<Rightarrow> ctx" where
  "route_ctx t trace_id = [(''trigger'', CtxTrigger t), (''trace_id'', CtxStr trace_id)]"

text \<open>
  \<open>minute_iso\<close> is \<open>isoformat(timespec="minutes")\<close>; \<open>trace_id\<close> the new id. The run's
  row in \<open>_active_dags\<close> is added before it and popped after it, also when it raises.
\<close>

definition route :: "(seconds \<Rightarrow> string \<Rightarrow> string \<Rightarrow> seconds \<Rightarrow> 'st \<Rightarrow> bool \<times> 'st) \<Rightarrow> (seconds \<Rightarrow> string) \<Rightarrow> seconds \<Rightarrow> string
    \<Rightarrow> 'c registry \<Rightarrow> trigger \<Rightarrow> ('c, 'st) app \<Rightarrow> route_out \<times> ('c, 'st) app" where
  "route set_nx minute_iso now trace_id reg t app =
     (case lookup (tg_name t) reg of
        None \<Rightarrow> (Dropped, app)
      | Some entry \<Rightarrow>
          (let dag_id = after_colon (tg_name t);
               (proceed, idem) = with_idempotency set_nx now dag_id (tg_kind t) (minute_iso (tg_fired_at t)) (tg_force t) True False (ap_idem app);
               app1 = app\<lparr>ap_idem := idem\<rparr>
           in if \<not> proceed then (Dropped, app1)
              else let app2 = app1\<lparr>ap_active := AList.update trace_id (dag_id, now, tg_name t) (ap_active app1)\<rparr>;
                       (r, w) = entry (route_ctx t trace_id) (ap_world app2);
                       app3 = app2\<lparr>ap_world := w, ap_active := AList.delete trace_id (ap_active app2)\<rparr>
                in (case r of
                      Inl e \<Rightarrow> (Failed e, app3)
                    | Inr s \<Rightarrow> (Ran s, app3\<lparr>ap_last := Some s\<rparr>))))"

datatype http_out = Http404 string | HttpRun dag_summary | Http500

definition kick :: "(seconds \<Rightarrow> string \<Rightarrow> string \<Rightarrow> seconds \<Rightarrow> 'st \<Rightarrow> bool \<times> 'st) \<Rightarrow> (seconds \<Rightarrow> string) \<Rightarrow> seconds \<Rightarrow> string
    \<Rightarrow> 'c registry \<Rightarrow> string \<Rightarrow> (string, json) dict \<Rightarrow> bool \<Rightarrow> ('c, 'st) app \<Rightarrow> http_out \<times> ('c, 'st) app" where
  "kick set_nx minute_iso now trace_id reg dag_id body force app =
     (let (r, app') = route set_nx minute_iso now trace_id reg (http_trigger dag_id now body force) app in
      (case r of Dropped \<Rightarrow> Http404 (''no DAG registered for '' @ dag_id) | Ran s \<Rightarrow> HttpRun s | Failed e \<Rightarrow> Http500, app'))"

definition health :: "(seconds \<Rightarrow> string) \<Rightarrow> nat \<Rightarrow> ('c, 'st) app \<Rightarrow> json" where
  "health iso_of uptime_s app = JObj
     [(''service'', JStr ''orchestrator''), (''uptime_s'', jnat uptime_s),
      (''active_dags'', JArr (map (\<lambda>(trace, d, s, t). JObj [(''dag_id'', JStr d), (''started_at'', JStr (iso_of s)), (''trigger'', JStr t)]) (ap_active app))),
      (''last_completed'', case ap_last app of None \<Rightarrow> JNull | Some s \<Rightarrow> JObj
         [(''dag_id'', JStr (ds_dag_id s)), (''trace_id'', JStr (ds_trace_id s)), (''ok'', JBool (ds_ok s)),
          (''node_count'', jnat (length (ds_nodes s)))])]"

section \<open>Bootstrap\<close>

definition bootstrap_base_urls :: "string list \<Rightarrow> (string, string) dict" where
  "bootstrap_base_urls slugs =
     fold (\<lambda>slug d. AList.update (''agent_persona.'' @ slug) ''http://agent_persona:8084'' d) slugs
       [(''agent_intelligence'', ''http://agent_intelligence:8081''), (''agent_fundamental'', ''http://agent_fundamental:8082''),
        (''agent_quant'', ''http://agent_quant:8083''), (''agent_secretary'', ''http://agent_secretary:8086'')]"

section \<open>Every scheduled or subscribed trigger has a DAG\<close>

lemma lookup_registered:
  "map_of (rev tbl) n = Some e \<Longrightarrow> lookup n (fold (\<lambda>(n, e). register n e) tbl r) = Some e"
  by (induction tbl arbitrary: r rule: rev_induct) (auto simp: lookup_def register_def split: if_splits)

lemma lookup_default: "map_of (rev (default_table env client)) n = Some e \<Longrightarrow> lookup n (register_default_dags env client r) = Some e"
  unfolding register_default_dags_def by (rule lookup_registered)

lemma registered_room:
  assumes "n \<in> {''event:intel.event.high_impact.v1'', ''event:intel.event.geo_cluster.v1''}"
  shows "lookup n (register_default_dags env client r) = Some (trading_room_entry env client)"
proof (rule lookup_default)
  consider "n = ''event:intel.event.high_impact.v1''" | "n = ''event:intel.event.geo_cluster.v1''" using assms by blast
  then show "map_of (rev (default_table env client)) n = Some (trading_room_entry env client)"
    by cases (simp_all add: default_table_def Let_def)
qed

lemma registered_evening:
  "lookup ''cron:evening_recap'' (register_default_dags env client r) = Some (simple_entry env ''evening_recap'' build_evening_recap_dag client)"
  by (rule lookup_default) (simp add: default_table_def Let_def)

lemma default_names:
  "n \<in> set (map fst (default_table env client)) \<Longrightarrow> lookup n (register_default_dags env client r) \<noteq> None"
proof -
  assume "n \<in> set (map fst (default_table env client))"
  then have "map_of (rev (default_table env client)) n \<noteq> None" by (simp add: map_of_eq_None_iff)
  then obtain e where "map_of (rev (default_table env client)) n = Some e" by blast
  then show "lookup n (register_default_dags env client r) \<noteq> None" by (simp add: lookup_default)
qed

text \<open>
  After the default registration no cron entry and no subscribed subject is dropped for
  want of a DAG, whatever was registered before.
\<close>

theorem every_trigger_has_a_dag:
  "list_all (\<lambda>n. lookup n (register_default_dags env client r) \<noteq> None)
     (CRON_NAMES @ map (\<lambda>s. ''event:'' @ s) ORCH_SUBJECTS)"
proof -
  have "list_all (\<lambda>n. n \<in> set (map fst (default_table env client))) (CRON_NAMES @ map (\<lambda>s. ''event:'' @ s) ORCH_SUBJECTS)"
    by (simp add: CRON_NAMES_def ORCH_SUBJECTS_def default_table_def Let_def)
  then show ?thesis using default_names unfolding list_all_iff by blast
qed

section \<open>The payload is lost\<close>

lemma empty_event_dropped: "\<exists>d. triage py llm flag_on now_iso [] w = (Inr d, w) \<and> td_route d = Drop"
  by (simp add: triage_def parse_event_def jget_or_def jor_def coerce_score_def numeric_route_def has_overlap_def
      big_signal_def medium_signal_def HIGH_IMPACT_THRESHOLD_def LOW_IMPACT_THRESHOLD_def decide_def)

lemma room_entry_without_payload:
  assumes "arranges (ev_arrange env)" and "in_time (ev_clock env) 600"
  shows "\<exists>s. trading_room_entry env client (route_ctx t trace) w = (Inr s, w) \<and> ds_dag_id s = ''trading_room''"
proof -
  let ?st = "make_initial_room (ev_py env) (ev_ulid env) [] trace w"
  obtain g where g: "build_trading_room_dag (ev_py env) (ev_llm env) (ev_triage_on env) (ev_now_iso env) (ev_room_timing env) client = Inr g"
    using room_built by blast
  obtain rs ok where run: "execute (ev_clock env) 600 (ev_arrange env) (with_sla_timeout (ev_fmt env)) g ?st
      = DagDone rs (room_final (ev_py env) (ev_llm env) (ev_triage_on env) (ev_now_iso env) client ?st) ok"
    using room_run [OF g assms] by blast
  let ?st1 = "snd (n_triage (ev_py env) (ev_llm env) (ev_triage_on env) (ev_now_iso env) ?st)"
  obtain d where d: "triage (ev_py env) (ev_llm env) (ev_triage_on env) (ev_now_iso env) [] w = (Inr d, w)" "td_route d = Drop"
    using empty_event_dropped [of "ev_py env" "ev_llm env" "ev_triage_on env" "ev_now_iso env" w] by blast
  then have st1: "tr_world ?st1 = w" "\<not> routed_to_room ?st1" "tr_plans ?st1 = []" "tr_board_decision ?st1 = None" "tr_brief_md ?st1 = JNull"
    by (simp_all add: triage_state make_initial_room_def routed_iff [where d = d])
  have "tr_world (room_final (ev_py env) (ev_llm env) (ev_triage_on env) (ev_now_iso env) client ?st) = w"
    unfolding room_final_def unrouted_room_idle [OF st1(2-5)] by (simp add: degrade_def st1(1))
  then show ?thesis using run g
    by (simp add: trading_room_entry_def with_trace_def route_ctx_def ctx_payload_def run_dag_def Let_def)
qed

text \<open>
  C5: The trading room is never woken by its events: whatever the payload of a high-impact
  or geo-cluster trigger, its run ends without a call to the LLM, a team, the board or the
  secretary, since the entry reads the payload from a key \<open>route\<close> does not pass.
\<close>

theorem trading_room_never_woken_by_events:
  assumes "tg_name t \<in> {''event:intel.event.high_impact.v1'', ''event:intel.event.geo_cluster.v1''}"
    and "arranges (ev_arrange env)" and "in_time (ev_clock env) 600"
    and "route set_nx minute_iso now trace (register_default_dags env client r) t app = (out, app')"
  shows "ap_world app' = ap_world app \<and> (out = Dropped \<or> (\<exists>s. out = Ran s \<and> ds_dag_id s = ''trading_room''))"
proof -
  obtain s where s: "trading_room_entry env client (route_ctx t trace) (ap_world app) = (Inr s, ap_world app)" "ds_dag_id s = ''trading_room''"
    using room_entry_without_payload [OF assms(2,3)] by blast
  then show ?thesis using assms(4) registered_room [OF assms(1), of env client r]
    by (auto simp: route_def Let_def split: prod.splits if_splits)
qed

definition quiet_env :: "nat env" where
  "quiet_env = \<lparr>ev_clock = (\<lambda>k. 0), ev_arrange = id, ev_fmt = (\<lambda>s. []), ev_simple_timing = (\<lambda>n st. (1, st)),
     ev_morning_timing = (\<lambda>n st. (1, st)), ev_room_timing = (\<lambda>n st. (1, st)), ev_py = py_ascii,
     ev_llm = (\<lambda>p k. (LlmAnswer ''trading_room'' False, k + 1)), ev_triage_on = True, ev_now_iso = [], ev_ulid = ''u'', ev_slugs = []\<rparr>"

text \<open>The gate would send this very event to the room (\<open>fed_event_triaged\<close>).\<close>

theorem trading_room_never_woken_by_events_witness:
  "\<exists>app'. snd (route ttl_set_nx (\<lambda>s. []) 0 ''t'' (register_default_dags quiet_env one_plan_client [])
       (event_trigger ''intel.event.high_impact.v1'' 0 ''raw'' (Some fed_event))
       \<lparr>ap_idem = (\<lambda>k. None), ap_active = [], ap_last = None, ap_world = 0\<rparr>) = app' \<and> ap_world app' = 0"
proof -
  let ?app = "\<lparr>ap_idem = (\<lambda>k. None) :: ttl_nx, ap_active = [], ap_last = None, ap_world = 0 :: nat\<rparr>"
  let ?t = "event_trigger ''intel.event.high_impact.v1'' 0 ''raw'' (Some fed_event)"
  obtain out app' where r: "route ttl_set_nx (\<lambda>s. []) 0 ''t'' (register_default_dags quiet_env one_plan_client []) ?t ?app = (out, app')"
    by fastforce
  have "tg_name ?t \<in> {''event:intel.event.high_impact.v1'', ''event:intel.event.geo_cluster.v1''}"
    "arranges (ev_arrange quiet_env)" "in_time (ev_clock quiet_env) 600"
    by (simp_all add: event_trigger_def quiet_env_def arranges_id in_time_def)
  from trading_room_never_woken_by_events [OF this r] show ?thesis using r by simp
qed

section \<open>One run per minute\<close>

lemma with_idempotency_skip:
  "\<not> fst (claim_or_skip set_nx now d k m f st) \<Longrightarrow> fst (with_idempotency set_nx now d k m f x y st) = y"
  by (simp add: with_idempotency_def case_prod_beta)

lemma route_skipped:
  assumes "\<not> fst (claim_or_skip set_nx now (after_colon (tg_name t)) (tg_kind t) (minute_iso (tg_fired_at t)) (tg_force t) (ap_idem app))"
  shows "fst (route set_nx minute_iso now trace reg t app) = Dropped
    \<and> ap_world (snd (route set_nx minute_iso now trace reg t app)) = ap_world app
    \<and> ap_last (snd (route set_nx minute_iso now trace reg t app)) = ap_last app
    \<and> ap_active (snd (route set_nx minute_iso now trace reg t app)) = ap_active app"
  using with_idempotency_skip [OF assms, of True False]
  by (auto simp: route_def Let_def case_prod_beta split: option.splits)

lemma route_ran_claimed:
  assumes "route set_nx minute_iso now trace reg t app = (out, app')" and "out \<noteq> Dropped"
  shows "claim_or_skip set_nx now (after_colon (tg_name t)) (tg_kind t) (minute_iso (tg_fired_at t)) (tg_force t) (ap_idem app)
    = (True, ap_idem app')"
proof -
  obtain ok idem where c: "claim_or_skip set_nx now (after_colon (tg_name t)) (tg_kind t) (minute_iso (tg_fired_at t)) (tg_force t) (ap_idem app)
      = (ok, idem)" by fastforce
  have "ok \<and> ap_idem app' = idem"
    using assms c by (auto simp: route_def with_idempotency_def Let_def case_prod_beta split: option.splits sum.splits if_splits)
  then show ?thesis using c by simp
qed

text \<open>
  Once a trigger has run, every other trigger of the same name and kind that fires
  within the same minute and reaches the router within a day is dropped without a run,
  whatever its payload: an event is told apart from the next by its minute, not by its id.
\<close>

theorem second_event_of_the_minute_lost:
  assumes "nx_store set_nx del held"
    and "route set_nx minute_iso now trace reg t1 app = (out, app1)" and "out \<noteq> Dropped"
    and "tg_name t2 = tg_name t1" and "tg_kind t2 = tg_kind t1" and "\<not> tg_force t1" and "\<not> tg_force t2"
    and "minute_iso (tg_fired_at t2) = minute_iso (tg_fired_at t1)" and "now \<le> now2" and "now2 < now + 24 * 3600"
  shows "fst (route set_nx minute_iso now2 trace2 reg t2 app1) = Dropped
    \<and> ap_world (snd (route set_nx minute_iso now2 trace2 reg t2 app1)) = ap_world app1"
proof -
  have "claim_or_skip set_nx now (after_colon (tg_name t1)) (tg_kind t1) (minute_iso (tg_fired_at t1)) False (ap_idem app) = (True, ap_idem app1)"
    using route_ran_claimed [OF assms(2,3)] assms(6) by simp
  then have "\<not> fst (claim_or_skip set_nx now2 (after_colon (tg_name t1)) (tg_kind t1) (minute_iso (tg_fired_at t1)) False (ap_idem app1))"
    by (rule nx_store.second_claim_skipped [OF assms(1)]) (use assms in \<open>simp_all add: DEFAULT_TTL_S_def\<close>)
  then show ?thesis using route_skipped [of set_nx now2 t2 minute_iso app1 trace2 reg] assms by simp
qed

text \<open>Two different fills, 20 seconds apart, on a registry whose entry counts its runs.\<close>

definition counting_registry :: "nat registry" where
  "counting_registry = [(''event:backtest.fill.v1'', \<lambda>c k. (Inr \<lparr>ds_dag_id = ''fill'', ds_trace_id = [], ds_ok = True, ds_nodes = []\<rparr>, k + 1))]"

definition fill_event :: "seconds \<Rightarrow> string \<Rightarrow> trigger" where
  "fill_event s i = event_trigger ''backtest.fill.v1'' s ''data'' (Some [(''id'', JStr i)])"

theorem second_event_of_the_minute_lost_witness:
  "\<exists>app1. route ttl_set_nx (\<lambda>s. show_nat (nat \<lfloor>s / 60\<rfloor>)) 5 ''t1'' counting_registry (fill_event 5 ''f1'')
        \<lparr>ap_idem = (\<lambda>k. None), ap_active = [], ap_last = None, ap_world = 0\<rparr>
      = (Ran \<lparr>ds_dag_id = ''fill'', ds_trace_id = [], ds_ok = True, ds_nodes = []\<rparr>, app1)
     \<and> fst (route ttl_set_nx (\<lambda>s. show_nat (nat \<lfloor>s / 60\<rfloor>)) 25 ''t2'' counting_registry (fill_event 25 ''f2'') app1) = Dropped"
proof -
  let ?app = "\<lparr>ap_idem = (\<lambda>k. None) :: ttl_nx, ap_active = [], ap_last = None, ap_world = 0 :: nat\<rparr>"
  let ?iso = "\<lambda>s :: seconds. show_nat (nat \<lfloor>s / 60\<rfloor>)"
  obtain app1 where r: "route ttl_set_nx ?iso 5 ''t1'' counting_registry (fill_event 5 ''f1'') ?app
      = (Ran \<lparr>ds_dag_id = ''fill'', ds_trace_id = [], ds_ok = True, ds_nodes = []\<rparr>, app1)"
    by (simp add: route_def lookup_def counting_registry_def fill_event_def event_trigger_def with_idempotency_def claim_or_skip_def
        ttl_set_nx_def ttl_held_def Let_def)
  have "?iso 25 = ?iso 5" by simp
  then show ?thesis using r second_event_of_the_minute_lost [OF redis.nx_store_axioms r, of "fill_event 25 ''f2''" 25]
    by (simp add: fill_event_def event_trigger_def)
qed

text \<open>
  A manual run asked for twice in one minute without \<open>force\<close> is answered the second
  time with a 404 that says no such DAG is registered, although it just ran.
\<close>

theorem repeated_kick_is_404:
  assumes "nx_store set_nx del held"
    and "kick set_nx minute_iso now trace reg dag body False app = (HttpRun s, app1)"
    and "minute_iso now2 = minute_iso now" and "now \<le> now2" and "now2 < now + 24 * 3600"
  shows "lookup (''http:'' @ dag) reg \<noteq> None
    \<and> fst (kick set_nx minute_iso now2 trace2 reg dag body2 False app1) = Http404 (''no DAG registered for '' @ dag)"
proof -
  let ?t = "http_trigger dag now body False" and ?t2 = "http_trigger dag now2 body2 False"
  have run: "route set_nx minute_iso now trace reg ?t app = (Ran s, app1)"
    using assms(2) by (auto simp: kick_def Let_def case_prod_beta prod_eq_iff split: route_out.splits)
  then have look: "lookup (''http:'' @ dag) reg \<noteq> None"
    by (auto simp: route_def http_trigger_def split: option.splits)
  have "claim_or_skip set_nx now (after_colon (tg_name ?t)) (tg_kind ?t) (minute_iso (tg_fired_at ?t)) False (ap_idem app) = (True, ap_idem app1)"
    using route_ran_claimed [OF run] by (simp add: http_trigger_def)
  then have "\<not> fst (claim_or_skip set_nx now2 (after_colon (tg_name ?t)) (tg_kind ?t) (minute_iso (tg_fired_at ?t)) False (ap_idem app1))"
    by (rule nx_store.second_claim_skipped [OF assms(1)]) (use assms in \<open>simp_all add: DEFAULT_TTL_S_def\<close>)
  then have "fst (route set_nx minute_iso now2 trace2 reg ?t2 app1) = Dropped"
    using route_skipped [of set_nx now2 ?t2 minute_iso app1 trace2 reg] assms(3) by (simp add: http_trigger_def)
  then show ?thesis using look by (simp add: kick_def case_prod_beta)
qed

definition http_registry :: "nat registry" where
  "http_registry = [(''http:morning_brief'', \<lambda>c k. (Inr \<lparr>ds_dag_id = ''mb'', ds_trace_id = [], ds_ok = True, ds_nodes = []\<rparr>, k + 1))]"

theorem repeated_kick_is_404_witness:
  "\<exists>s app1. kick ttl_set_nx (\<lambda>s. show_nat (nat \<lfloor>s / 60\<rfloor>)) 5 ''t1'' http_registry ''morning_brief'' [] False
        \<lparr>ap_idem = (\<lambda>k. None), ap_active = [], ap_last = None, ap_world = 0\<rparr> = (HttpRun s, app1)
     \<and> fst (kick ttl_set_nx (\<lambda>s. show_nat (nat \<lfloor>s / 60\<rfloor>)) 25 ''t2'' http_registry ''morning_brief'' [] False app1)
         = Http404 ''no DAG registered for morning_brief''"
proof -
  let ?app = "\<lparr>ap_idem = (\<lambda>k. None) :: ttl_nx, ap_active = [], ap_last = None, ap_world = 0 :: nat\<rparr>"
  let ?iso = "\<lambda>s :: seconds. show_nat (nat \<lfloor>s / 60\<rfloor>)"
  obtain s app1 where r: "kick ttl_set_nx ?iso 5 ''t1'' http_registry ''morning_brief'' [] False ?app = (HttpRun s, app1)"
    by (simp add: kick_def route_def lookup_def http_registry_def http_trigger_def with_idempotency_def claim_or_skip_def
        ttl_set_nx_def ttl_held_def Let_def)
  have "?iso 25 = ?iso 5" by simp
  then show ?thesis using r repeated_kick_is_404 [OF redis.nx_store_axioms r, of 25] by fastforce
qed

section \<open>The production client\<close>

lemma base_urls_unknown:
  assumes "agent \<in> {''agent_board'', ''agent_backtest'', ''agent_persona''}"
  shows "map_of (bootstrap_base_urls slugs) agent = None"
proof -
  have other: "''agent_persona.'' @ s \<noteq> agent" for s using assms by auto
  have "map_of (bootstrap_base_urls slugs) agent
      = map_of [(''agent_intelligence'', ''http://agent_intelligence:8081''), (''agent_fundamental'', ''http://agent_fundamental:8082''),
        (''agent_quant'', ''http://agent_quant:8083''), (''agent_secretary'', ''http://agent_secretary:8086'')] agent"
    unfolding bootstrap_base_urls_def by (rule fold_update_other) (rule other)
  then show ?thesis using assms by auto
qed

lemma production_call_raises:
  "agent \<in> {''agent_board'', ''agent_backtest'', ''agent_persona''} \<Longrightarrow>
     httpx_call tr n (bootstrap_base_urls slugs) agent p w = (CallRaised (no_base_url agent), w)"
  by (rule httpx_unknown_agent [OF base_urls_unknown])

lemma fanout_frame:
  "tr_board_decision (snd (n_fanout client st)) = tr_board_decision st \<and> tr_brief_md (snd (n_fanout client st)) = tr_brief_md st
   \<and> tr_notify_result (snd (n_fanout client st)) = tr_notify_result st"
proof -
  obtain rs w where "ask_all client (team_request st) team_targets (tr_world st) = (rs, w)" by fastforce
  from ask_teams [OF this] show ?thesis by (auto simp: n_fanout_def Let_def)
qed

lemma production_board_silent:
  assumes "tr_board_decision st = None"
  shows "tr_board_decision (snd (n_board (httpx_call tr n (bootstrap_base_urls slugs)) st)) = None
    \<and> tr_brief_md (snd (n_board (httpx_call tr n (bootstrap_base_urls slugs)) st)) = tr_brief_md st
    \<and> tr_notify_result (snd (n_board (httpx_call tr n (bootstrap_base_urls slugs)) st)) = tr_notify_result st
    \<and> tr_world (snd (n_board (httpx_call tr n (bootstrap_base_urls slugs)) st)) = tr_world st"
  using assms by (simp add: n_board_def degrade_def production_call_raises)

text \<open>
  With the client the bootstrap builds, a trading-room run never reaches the board (it
  has no base URL), so it ends without a decision, a brief or a notification, whatever the
  event, the triage and the teams answer, and the secretary is not called: the world after
  the run is the one the fan-out left.
\<close>

theorem production_room_never_notifies:
  assumes "build_trading_room_dag py llm flag_on now_iso timing (httpx_call tr n (bootstrap_base_urls slugs)) = Inr g"
    and "arranges arrange" and "in_time clock timeout_s"
  shows "\<exists>rs st' ok. execute clock timeout_s arrange (with_sla_timeout fmt) g (make_initial_room py ulid event trace w) = DagDone rs st' ok
    \<and> tr_board_decision st' = None \<and> tr_brief_md st' = JNull \<and> tr_notify_result st' = None
    \<and> tr_world st' = tr_world (snd (n_fanout (httpx_call tr n (bootstrap_base_urls slugs))
                         (snd (n_triage py llm flag_on now_iso (make_initial_room py ulid event trace w)))))"
proof -
  let ?client = "httpx_call tr n (bootstrap_base_urls slugs)"
  let ?st = "make_initial_room py ulid event trace w"
  let ?st1 = "snd (n_triage py llm flag_on now_iso ?st)" let ?st2 = "snd (n_fanout ?client ?st1)" let ?st3 = "snd (n_board ?client ?st2)"
  have "tr_board_decision ?st1 = None \<and> tr_brief_md ?st1 = JNull \<and> tr_notify_result ?st1 = None"
    by (simp add: triage_state make_initial_room_def split: prod.splits sum.splits)
  then have st2: "tr_board_decision ?st2 = None \<and> tr_brief_md ?st2 = JNull \<and> tr_notify_result ?st2 = None"
    using fanout_frame [of ?client ?st1] by simp
  then have st3: "tr_board_decision ?st3 = None \<and> tr_brief_md ?st3 = JNull \<and> tr_notify_result ?st3 = None \<and> tr_world ?st3 = tr_world ?st2"
    using production_board_silent [of ?st2 tr n slugs] by simp
  have final: "room_final py llm flag_on now_iso ?client ?st = ?st3"
    using st3 by (simp add: room_final_def no_decision_no_brief)
  obtain rs ok where "execute clock timeout_s arrange (with_sla_timeout fmt) g ?st = DagDone rs (room_final py llm flag_on now_iso ?client ?st) ok"
    using room_run [OF assms] by blast
  then have "execute clock timeout_s arrange (with_sla_timeout fmt) g ?st = DagDone rs ?st3 ok" unfolding final .
  with st3 show ?thesis by blast
qed

theorem production_room_never_notifies_witness:
  "\<exists>g. build_trading_room_dag py_ascii (\<lambda>p k. (NoRouter, k)) True [] (\<lambda>n st. (1, st)) (httpx_call dead_net False (bootstrap_base_urls [''soros''])) = Inr g
     \<and> (\<exists>rs st' ok. execute (\<lambda>k. 0) 600 id (with_sla_timeout (\<lambda>h. [])) g
          (make_initial_room py_ascii ''u'' fed_event ''t'' \<lparr>hw_breaker = new_registry 5 60, hw_net = ()\<rparr>) = DagDone rs st' ok
        \<and> tr_brief_md st' = JNull)"
proof -
  obtain g where g: "build_trading_room_dag py_ascii (\<lambda>p k. (NoRouter, k)) True [] (\<lambda>n st. (1, st))
      (httpx_call dead_net False (bootstrap_base_urls [''soros''])) = Inr g" using room_built by blast
  have "in_time (\<lambda>k. 0) 600" by (simp add: in_time_def)
  from production_room_never_notifies [OF g arranges_id this] g show ?thesis by blast
qed

text \<open>
  With the bootstrap's client the evening recap is always composed from an empty
  payload: the backtest agent has no base URL, so its node fails without a call and the run
  goes on as if the day had no result.
\<close>

theorem production_recap_has_no_results:
  assumes "build_evening_recap_dag timing (httpx_call tr n (bootstrap_base_urls slugs)) = Inr g"
    and "arranges arrange" and "in_time clock timeout_s" and "quick 60 timing" and "trace \<noteq> []"
  shows "\<exists>rs st' ok. execute clock timeout_s arrange (with_sla_timeout fmt) g (initial_simple ulid trace w) = DagDone rs st' ok
    \<and> sd_world st' = sd_world (snd (n_recap_notify (httpx_call tr n (bootstrap_base_urls slugs))
        (snd (n_recap_brief (httpx_call tr n (bootstrap_base_urls slugs)) (initial_simple ulid trace w)))))
    \<and> recap_request (initial_simple ulid trace w) = JObj
        [(''action'', JStr ''compose_brief''), (''kind'', JStr ''evening_recap''), (''payload'', JObj []), (''trace_id'', JStr trace)]"
proof -
  let ?client = "httpx_call tr n (bootstrap_base_urls slugs)" and ?st = "initial_simple ulid trace w"
  have "snd (n_backtest_mtm ?client ?st) = ?st"
    by (simp add: n_backtest_mtm_def sd_call_def production_call_raises)
  moreover obtain rs ok where "execute clock timeout_s arrange (with_sla_timeout fmt) g ?st
      = DagDone rs (snd (n_recap_notify ?client (snd (n_recap_brief ?client (snd (n_backtest_mtm ?client ?st)))))) ok"
    using evening_run [OF assms(1-4)] by blast
  moreover have "recap_request ?st = JObj
        [(''action'', JStr ''compose_brief''), (''kind'', JStr ''evening_recap''), (''payload'', JObj []), (''trace_id'', JStr trace)]"
    using assms(5) by (simp add: recap_request_def payload_or_empty_def initial_simple_def)
  ultimately show ?thesis by simp
qed

theorem production_recap_has_no_results_witness:
  "\<exists>g. build_evening_recap_dag (\<lambda>n st. (1, st)) (httpx_call dead_net False (bootstrap_base_urls [])) = Inr g
     \<and> (\<exists>rs st' ok. execute (\<lambda>k. 0) 600 id (with_sla_timeout (\<lambda>h. [])) g
          (initial_simple [] ''t'' \<lparr>hw_breaker = new_registry 5 60, hw_net = ()\<rparr>) = DagDone rs st' ok)"
proof -
  obtain g where g: "build_evening_recap_dag (\<lambda>n st. (1, st)) (httpx_call dead_net False (bootstrap_base_urls [])) = Inr g"
    by (simp add: build_evening_recap_dag_def evening_nodes_def build_graph_def add_node_def empty_graph_def)
  have "in_time (\<lambda>k. 0) 600" "quick 60 (\<lambda>n st. (1, st))" by (simp_all add: in_time_def quick_def)
  from production_recap_has_no_results [OF g arranges_id this, of "''t''"] g show ?thesis by blast
qed

end
