(* ===== verification/Schema.thy ===== *)
theory Schema
  imports PyStd
begin

text \<open>
  The envelopes the agents exchange, with the validators their Pydantic models run
  (\<^verbatim>\<open>packages/schema/schema/advice.py\<close>, \<^verbatim>\<open>plan.py\<close>, and the board's decision in
  \<^verbatim>\<open>apps/agent_board/board/schema.py\<close>). Instants are seconds. Pydantic itself and the ULID
  package are not modelled: constructing a model is \<open>construct\<close>, which refuses an instance
  one of whose validators raises, and \<open>ulid_ok\<close> is \<open>ulid.ULID.from_str\<close> accepting.
\<close>

section \<open>Shared parts\<close>

datatype direction = Long | Short | Flat
datatype action = Buy | Sell | Hold
datatype team = Quant | Fundamental | Persona | Intel

definition asset_kinds :: "string list" where
  "asset_kinds = [''equity'', ''etf'', ''future'', ''option'', ''fx'', ''crypto'', ''bond'']"

definition evidence_kinds :: "string list" where
  "evidence_kinds = [''news'', ''filing'', ''factor'', ''macro'', ''social'', ''filing_url'']"

record asset =
  as_kind :: string
  as_ticker :: string
  as_venue :: string
  as_name :: "string option"

record evidence =
  ev_kind :: string
  ev_ref :: "string option"
  ev_url :: "string option"

definition ulid_chars :: string where
  "ulid_chars = ''0123456789ABCDEFGHJKMNPQRSTVWXYZ''"

text \<open>\<open>_ULID_RE.match\<close>: in Python \<open>$\<close> also matches before a final newline.\<close>

definition ulid_re :: "string \<Rightarrow> bool" where
  "ulid_re v =
     (let s = (if v \<noteq> [] \<and> last v = CHR 0x0A then butlast v else v)
      in length s = 26 \<and> list_all (\<lambda>c. c \<in> set ulid_chars) s)"

definition days :: "int \<Rightarrow> seconds" where
  "days n = of_int n * 86400"

definition blank :: "string option \<Rightarrow> bool" where
  "blank s = (strip (case s of None \<Rightarrow> [] | Some x \<Rightarrow> x) = [])"

text \<open>The values of the literals.\<close>

fun direction_value :: "direction \<Rightarrow> string" where
  "direction_value Long = ''long''"
| "direction_value Short = ''short''"
| "direction_value Flat = ''flat''"

fun team_value :: "team \<Rightarrow> string" where
  "team_value Quant = ''quant''"
| "team_value Fundamental = ''fundamental''"
| "team_value Persona = ''persona''"
| "team_value Intel = ''intel''"

fun action_value :: "action \<Rightarrow> string" where
  "action_value Buy = ''buy''"
| "action_value Sell = ''sell''"
| "action_value Hold = ''hold''"

section \<open>advice.v1\<close>

record advice_v1 =
  av_id :: string
  av_agent :: string
  av_issued_at :: seconds
  av_asset :: asset
  av_thesis :: string
  av_direction :: direction
  av_confidence :: rat
  av_entry_band :: "rat \<times> rat"
  av_target_band :: "rat \<times> rat"
  av_stop_loss :: rat
  av_horizon_days :: int
  av_max_drawdown_pct :: rat
  av_sizing_hint_pct_nav :: rat
  av_expires_at :: seconds
  av_evidence :: "evidence list"
  av_disclaimer :: "string option"

definition asset_fields_ok :: "asset \<Rightarrow> bool" where
  "asset_fields_ok a \<longleftrightarrow> as_kind a \<in> set asset_kinds"

definition evidence_fields_ok :: "evidence list \<Rightarrow> bool" where
  "evidence_fields_ok es \<longleftrightarrow> list_all (\<lambda>e. ev_kind e \<in> set evidence_kinds) es"

definition id_is_ulid :: "(string \<Rightarrow> bool) \<Rightarrow> string \<Rightarrow> bool" where
  "id_is_ulid ulid_ok v \<longleftrightarrow> ulid_re v \<and> ulid_ok v"

definition band_ascending :: "rat \<times> rat \<Rightarrow> bool" where
  "band_ascending v = (case v of (lo, hi) \<Rightarrow> \<not> lo > hi)"

definition advice_fields_ok :: "advice_v1 \<Rightarrow> bool" where
  "advice_fields_ok a \<longleftrightarrow>
     asset_fields_ok (av_asset a) \<and> length (av_thesis a) \<le> 4000 \<and> 0 \<le> av_confidence a \<and> av_confidence a \<le> 1
     \<and> 1 \<le> av_horizon_days a \<and> av_horizon_days a \<le> 365 * 5 \<and> 0 \<le> av_max_drawdown_pct a \<and> av_max_drawdown_pct a \<le> 100
     \<and> 0 \<le> av_sizing_hint_pct_nav a \<and> av_sizing_hint_pct_nav a \<le> 100 \<and> evidence_fields_ok (av_evidence a)"

definition direction_consistency :: "advice_v1 \<Rightarrow> bool" where
  "direction_consistency a =
     (case (av_entry_band a, av_target_band a) of ((entry_lo, entry_hi), (target_lo, target_hi)) \<Rightarrow>
        (case av_direction a of
           Long \<Rightarrow> \<not> entry_hi \<ge> target_lo \<and> \<not> av_stop_loss a \<ge> entry_lo
         | Short \<Rightarrow> \<not> target_hi \<ge> entry_lo \<and> \<not> av_stop_loss a \<le> entry_hi
         | Flat \<Rightarrow> entry_lo = entry_hi \<and> entry_hi = target_lo \<and> target_lo = target_hi))"

definition evidence_required_when_directional :: "advice_v1 \<Rightarrow> bool" where
  "evidence_required_when_directional a \<longleftrightarrow> \<not> (av_direction a \<noteq> Flat \<and> av_evidence a = [])"

definition expiry_within_one_year :: "seconds \<Rightarrow> seconds \<Rightarrow> bool" where
  "expiry_within_one_year issued_at expires_at \<longleftrightarrow> \<not> expires_at - issued_at \<le> 0 \<and> \<not> expires_at - issued_at > days 365"

lemma expiry_of_days: "1 \<le> h \<Longrightarrow> expiry_within_one_year t (t + days h) \<longleftrightarrow> h \<le> 365"
proof -
  assume h: "1 \<le> h"
  have "(of_int h :: rat) * 86400 \<le> 365 * 86400 \<longleftrightarrow> h \<le> 365"
    by (metis mult_le_cancel_right_pos of_int_le_iff of_int_numeral zero_less_numeral)
  moreover have "0 < (of_int h :: rat)" using h by simp
  ultimately show ?thesis by (simp add: expiry_within_one_year_def days_def not_less not_le)
qed

definition persona_requires_disclaimer :: "advice_v1 \<Rightarrow> bool" where
  "persona_requires_disclaimer a \<longleftrightarrow> \<not> (starts_with ''persona.'' (av_agent a) \<and> blank (av_disclaimer a))"

definition advice_valid :: "(string \<Rightarrow> bool) \<Rightarrow> advice_v1 \<Rightarrow> bool" where
  "advice_valid ulid_ok a \<longleftrightarrow>
     advice_fields_ok a \<and> id_is_ulid ulid_ok (av_id a) \<and> band_ascending (av_entry_band a) \<and> band_ascending (av_target_band a)
     \<and> direction_consistency a \<and> evidence_required_when_directional a
     \<and> expiry_within_one_year (av_issued_at a) (av_expires_at a) \<and> persona_requires_disclaimer a"

definition construct :: "('a \<Rightarrow> bool) \<Rightarrow> 'a \<Rightarrow> string + 'a" where
  "construct valid x = (if valid x then Inr x else Inl ''validation error'')"

lemma construct_Inr_iff [simp]: "construct valid x = Inr y \<longleftrightarrow> valid x \<and> y = x"
  by (auto simp: construct_def)

section \<open>plan.v1\<close>

record portfolio_context =
  pc_position_pct_nav :: rat
  pc_open_orders :: int
  pc_cost_basis :: "rat option"
  pc_base_currency :: string

record plan_v1 =
  pl_id :: string
  pl_team :: team
  pl_persona_slug :: "string option"
  pl_issued_at :: seconds
  pl_asset :: asset
  pl_action :: action
  pl_entry_price :: rat
  pl_window_open :: seconds
  pl_window_close :: seconds
  pl_target_price :: rat
  pl_stop_loss :: rat
  pl_max_drawdown_pct :: rat
  pl_horizon_days :: int
  pl_sizing_pct_nav :: rat
  pl_confidence :: rat
  pl_thesis :: string
  pl_evidence :: "evidence list"
  pl_context :: "portfolio_context option"
  pl_expires_at :: seconds
  pl_disclaimer :: "string option"

definition context_fields_ok :: "portfolio_context \<Rightarrow> bool" where
  "context_fields_ok c \<longleftrightarrow> -100 \<le> pc_position_pct_nav c \<and> pc_position_pct_nav c \<le> 100 \<and> 0 \<le> pc_open_orders c
     \<and> (case pc_cost_basis c of None \<Rightarrow> True | Some x \<Rightarrow> 0 \<le> x)"

definition plan_fields_ok :: "plan_v1 \<Rightarrow> bool" where
  "plan_fields_ok p \<longleftrightarrow>
     asset_fields_ok (pl_asset p) \<and> 0 \<le> pl_entry_price p \<and> 0 \<le> pl_target_price p \<and> 0 \<le> pl_stop_loss p
     \<and> 0 \<le> pl_max_drawdown_pct p \<and> pl_max_drawdown_pct p \<le> 100 \<and> 1 \<le> pl_horizon_days p \<and> pl_horizon_days p \<le> 365
     \<and> 0 \<le> pl_sizing_pct_nav p \<and> pl_sizing_pct_nav p \<le> 100 \<and> 0 \<le> pl_confidence p \<and> pl_confidence p \<le> 1
     \<and> length (pl_thesis p) \<le> 4000 \<and> evidence_fields_ok (pl_evidence p)
     \<and> (case pl_context p of None \<Rightarrow> True | Some c \<Rightarrow> context_fields_ok c)"

definition entry_window_monotone :: "plan_v1 \<Rightarrow> bool" where
  "entry_window_monotone p \<longleftrightarrow> \<not> pl_window_close p \<le> pl_window_open p"

definition action_price_ordering :: "plan_v1 \<Rightarrow> bool" where
  "action_price_ordering p =
     (case pl_action p of
        Buy \<Rightarrow> pl_target_price p > pl_entry_price p \<and> pl_entry_price p > pl_stop_loss p
      | Sell \<Rightarrow> pl_stop_loss p > pl_entry_price p \<and> pl_entry_price p > pl_target_price p
      | Hold \<Rightarrow> True)"

definition evidence_required_unless_hold :: "plan_v1 \<Rightarrow> bool" where
  "evidence_required_unless_hold p \<longleftrightarrow> \<not> (pl_action p \<noteq> Hold \<and> pl_evidence p = [])"

definition persona_team_requires_persona_slug :: "plan_v1 \<Rightarrow> bool" where
  "persona_team_requires_persona_slug p \<longleftrightarrow>
     \<not> (pl_team p = Persona \<and> blank (pl_persona_slug p))
     \<and> \<not> (pl_team p \<noteq> Persona \<and> pl_persona_slug p \<noteq> None \<and> pl_persona_slug p \<noteq> Some [])"

definition persona_team_requires_disclaimer :: "plan_v1 \<Rightarrow> bool" where
  "persona_team_requires_disclaimer p \<longleftrightarrow> \<not> (pl_team p = Persona \<and> blank (pl_disclaimer p))"

definition plan_valid :: "(string \<Rightarrow> bool) \<Rightarrow> plan_v1 \<Rightarrow> bool" where
  "plan_valid ulid_ok p \<longleftrightarrow>
     plan_fields_ok p \<and> id_is_ulid ulid_ok (pl_id p) \<and> entry_window_monotone p \<and> action_price_ordering p
     \<and> evidence_required_unless_hold p \<and> persona_team_requires_persona_slug p \<and> persona_team_requires_disclaimer p
     \<and> expiry_within_one_year (pl_issued_at p) (pl_expires_at p)"

section \<open>board.decision.v1\<close>

record board_decision =
  bd_id :: string
  bd_trigger_event_id :: string
  bd_considered :: "string list"
  bd_chosen :: string
  bd_rationale :: string
  bd_dissent :: string
  bd_risk_view :: string
  bd_confidence :: rat
  bd_issued_at :: seconds

definition decision_fields_ok :: "board_decision \<Rightarrow> bool" where
  "decision_fields_ok d \<longleftrightarrow>
     length (bd_rationale d) \<le> 4000 \<and> length (bd_dissent d) \<le> 8000 \<and> length (bd_risk_view d) \<le> 4000
     \<and> 0 \<le> bd_confidence d \<and> bd_confidence d \<le> 1"

definition chosen_in_considered :: "board_decision \<Rightarrow> bool" where
  "chosen_in_considered d \<longleftrightarrow> bd_chosen d \<in> set (bd_considered d)"

definition dissent_when_multiple :: "board_decision \<Rightarrow> bool" where
  "dissent_when_multiple d \<longleftrightarrow> \<not> (length (bd_considered d) > 1 \<and> strip (bd_dissent d) = [])"

definition decision_valid :: "board_decision \<Rightarrow> bool" where
  "decision_valid d \<longleftrightarrow> decision_fields_ok d \<and> ulid_re (bd_id d) \<and> chosen_in_considered d \<and> dissent_when_multiple d"

end
