(* ===== verification/Board.thy ===== *)
theory Board
  imports Schema
begin

text \<open>
  The Investment Board (\<^verbatim>\<open>apps/agent_board/board/\<close>): the bull/bear debate, the risk panel, the
  chair with its deterministic fallback, the projection of a decision onto the advice ledger's
  envelope, and the \<open>/decide\<close> endpoint. The LLM is a function of the caller's name and the
  user prompt on the world behind the router; the fixed system prompts are left out.
\<close>

section \<open>The LLM\<close>

text \<open>An answer is the text and its skipped mark; \<open>Inl\<close> is an exception of \<open>chat_or_skip\<close>.\<close>

type_synonym 'c board_llm = "string \<Rightarrow> string \<Rightarrow> 'c \<Rightarrow> (string + string \<times> bool) \<times> 'c"

definition newline :: string where
  "newline = [CHR 0x0A]"

definition lines_of :: "string list \<Rightarrow> string" where
  "lines_of ls = join_with newline ls"

fun team_name :: "team \<Rightarrow> string" where
  "team_name Quant = ''quant''" | "team_name Fundamental = ''fundamental''" | "team_name Persona = ''persona''"
| "team_name Intel = ''intel''"

fun action_name :: "action \<Rightarrow> string" where
  "action_name Buy = ''buy''" | "action_name Sell = ''sell''" | "action_name Hold = ''hold''"

section \<open>Bull and bear\<close>

datatype side = Bull | Bear

fun side_name :: "side \<Rightarrow> string" where
  "side_name Bull = ''bull''" | "side_name Bear = ''bear''"

record debate_turn =
  dt_side :: side
  dt_round :: nat
  dt_text :: string
  dt_skipped :: bool

record bull_bear =
  bb_turns :: "debate_turn list"
  bb_bull :: string
  bb_bear :: string
  bb_skipped :: bool

definition bb_degraded :: "bull_bear \<Rightarrow> bool" where
  "bb_degraded t \<longleftrightarrow> bb_skipped t \<or> list_ex dt_skipped (bb_turns t)"

definition MAX_ROUNDS :: nat where "MAX_ROUNDS = 2"

definition plan_summary :: "plan_v1 \<Rightarrow> string" where
  "plan_summary p =
     ''['' @ pl_id p @ ''] team='' @ team_name (pl_team p) @ '' action='' @ action_name (pl_action p)
     @ '' entry='' @ fmt2 (pl_entry_price p) @ '' target='' @ fmt2 (pl_target_price p) @ '' stop='' @ fmt2 (pl_stop_loss p)
     @ '' confidence='' @ fmt2 (pl_confidence p) @ '' thesis='' @ take 300 (pl_thesis p)"

definition debate_prompt :: "plan_v1 list \<Rightarrow> debate_turn list \<Rightarrow> string" where
  "debate_prompt plans prior =
     ''Plans considered:'' @ newline @ lines_of (map plan_summary plans)
     @ (if prior \<noteq> [] then newline @ newline @ ''Prior debate:'' @ newline
          @ lines_of (map (\<lambda>t. ''['' @ side_name (dt_side t) @ '' r'' @ show_nat (dt_round t) @ ''] '' @ take 300 (dt_text t)) prior) else [])
     @ newline @ newline @ ''Write your argument.''"

definition debate_one_turn :: "'c board_llm \<Rightarrow> side \<Rightarrow> nat \<Rightarrow> plan_v1 list \<Rightarrow> debate_turn list \<Rightarrow> 'c \<Rightarrow> (string + debate_turn) \<times> 'c" where
  "debate_one_turn llm s r plans prior w =
     (let (ans, w') = llm (''board.'' @ side_name s) (debate_prompt plans prior) w in
      (res_bind ans (\<lambda>(txt, skip). Inr \<lparr>dt_side = s, dt_round = r, dt_text = strip txt, dt_skipped = skip\<rparr>), w'))"

fun debate_loop :: "'c board_llm \<Rightarrow> plan_v1 list \<Rightarrow> nat list \<Rightarrow> debate_turn list \<Rightarrow> string \<Rightarrow> string \<Rightarrow> 'c
    \<Rightarrow> (string + bull_bear) \<times> 'c" where
  "debate_loop llm plans [] turns bull_text bear_text w =
     (Inr \<lparr>bb_turns = turns, bb_bull = bull_text, bb_bear = bear_text, bb_skipped = False\<rparr>, w)"
| "debate_loop llm plans (r # rs) turns bull_text bear_text w =
     (case debate_one_turn llm Bull r plans turns w of
        (Inl e, w1) \<Rightarrow> (Inl e, w1)
      | (Inr bull, w1) \<Rightarrow>
          (case debate_one_turn llm Bear r plans (turns @ [bull]) w1 of
             (Inl e, w2) \<Rightarrow> (Inl e, w2)
           | (Inr bear, w2) \<Rightarrow>
               (if dt_skipped bull \<or> dt_skipped bear
                then (Inr \<lparr>bb_turns = turns @ [bull, bear], bb_bull = bull_text, bb_bear = bear_text, bb_skipped = True\<rparr>, w2)
                else debate_loop llm plans rs (turns @ [bull, bear]) (dt_text bull) (dt_text bear) w2)))"

definition debate :: "'c board_llm \<Rightarrow> plan_v1 list \<Rightarrow> 'c \<Rightarrow> (string + bull_bear) \<times> 'c" where
  "debate llm plans w =
     (if plans = [] then (Inl ''debate requires at least one PlanV1'', w)
      else debate_loop llm plans [1..<Suc MAX_ROUNDS] [] [] [] w)"

section \<open>The risk panel\<close>

datatype perspective = Aggressive | Conservative | Neutral

fun perspective_name :: "perspective \<Rightarrow> string" where
  "perspective_name Aggressive = ''aggressive''" | "perspective_name Conservative = ''conservative''"
| "perspective_name Neutral = ''neutral''"

record risk_turn =
  rt_perspective :: perspective
  rt_text :: string
  rt_skipped :: bool

record risk_transcript =
  rk_turns :: "risk_turn list"
  rk_aggressive :: string
  rk_conservative :: string
  rk_neutral :: string
  rk_skipped :: bool

definition rk_degraded :: "risk_transcript \<Rightarrow> bool" where
  "rk_degraded t \<longleftrightarrow> rk_skipped t \<or> list_ex rt_skipped (rk_turns t)"

definition MAX_TURNS :: nat where "MAX_TURNS = 3"

definition risk_prompt :: "plan_v1 list \<Rightarrow> risk_turn list \<Rightarrow> string" where
  "risk_prompt plans prior =
     ''Plans:'' @ newline
     @ lines_of (map (\<lambda>p. ''['' @ pl_id p @ ''] team='' @ team_name (pl_team p) @ '' action='' @ action_name (pl_action p)
         @ '' sizing='' @ fmt2 (pl_sizing_pct_nav p) @ ''% conf='' @ fmt2 (pl_confidence p)) plans)
     @ (if prior \<noteq> [] then newline @ newline @ ''Prior risk takes:'' @ newline
          @ lines_of (map (\<lambda>t. ''['' @ perspective_name (rt_perspective t) @ ''] '' @ take 200 (rt_text t)) prior) else [])
     @ newline @ newline @ ''Write your risk view.''"

definition risk_one_turn :: "'c board_llm \<Rightarrow> perspective \<Rightarrow> plan_v1 list \<Rightarrow> risk_turn list \<Rightarrow> 'c \<Rightarrow> (string + risk_turn) \<times> 'c" where
  "risk_one_turn llm p plans prior w =
     (let (ans, w') = llm (''board.risk_'' @ perspective_name p) (risk_prompt plans prior) w in
      (res_bind ans (\<lambda>(txt, skip). Inr \<lparr>rt_perspective = p, rt_text = strip txt, rt_skipped = skip\<rparr>), w'))"

fun risk_loop :: "'c board_llm \<Rightarrow> plan_v1 list \<Rightarrow> perspective list \<Rightarrow> risk_turn list \<Rightarrow> (perspective \<Rightarrow> string) \<Rightarrow> 'c
    \<Rightarrow> (string + risk_turn list \<times> (perspective \<Rightarrow> string) \<times> bool) \<times> 'c" where
  "risk_loop llm plans [] turns summaries w = (Inr (turns, summaries, False), w)"
| "risk_loop llm plans (p # ps) turns summaries w =
     (if length turns \<ge> MAX_TURNS then (Inr (turns, summaries, False), w)
      else case risk_one_turn llm p plans turns w of
          (Inl e, w1) \<Rightarrow> (Inl e, w1)
        | (Inr turn, w1) \<Rightarrow>
            (let turns' = turns @ [turn]; summaries' = summaries(p := rt_text turn) in
             if rt_skipped turn then (Inr (turns', summaries', True), w1)
             else risk_loop llm plans ps turns' summaries' w1))"

definition deliberate :: "'c board_llm \<Rightarrow> plan_v1 list \<Rightarrow> 'c \<Rightarrow> (string + risk_transcript) \<times> 'c" where
  "deliberate llm plans w =
     (if plans = [] then (Inl ''risk_panel requires at least one PlanV1'', w)
      else let (r, w') = risk_loop llm plans [Aggressive, Conservative, Neutral] [] (\<lambda>p. []) w in
        (res_bind r (\<lambda>(turns, s, skip). Inr \<lparr>rk_turns = turns, rk_aggressive = s Aggressive, rk_conservative = s Conservative,
            rk_neutral = s Neutral, rk_skipped = skip\<rparr>), w'))"

section \<open>The chair\<close>

text \<open>\<open>re.search(r"\{.*\}", text, DOTALL)\<close>: from the first opening to the last closing brace.\<close>

definition braces_of :: "string \<Rightarrow> string option" where
  "braces_of s =
     (let s1 = dropWhile (\<lambda>c. c \<noteq> CHR 0x7B) s; s2 = rev (dropWhile (\<lambda>c. c \<noteq> CHR 0x7D) (rev s1))
      in if s2 = [] then None else Some s2)"

text \<open>\<open>loads\<close> is \<open>json.loads\<close> on a text in braces, \<open>None\<close> for a decode error.\<close>

definition extract_json :: "(string \<Rightarrow> (string, json) dict option) \<Rightarrow> string \<Rightarrow> (string, json) dict option" where
  "extract_json loads s = (case braces_of s of None \<Rightarrow> None | Some t \<Rightarrow> loads t)"

text \<open>\<open>max(plans, key=...)\<close>: the first of the plans with the highest confidence.\<close>

definition most_confident :: "plan_v1 list \<Rightarrow> plan_v1" where
  "most_confident plans = foldl (\<lambda>best p. if pl_confidence p > pl_confidence best then p else best) (hd plans) (tl plans)"

definition fallback_dissent :: "plan_v1 list \<Rightarrow> plan_v1 \<Rightarrow> string" where
  "fallback_dissent plans chosen =
     (let others = join_with '', '' (map pl_id (filter (\<lambda>p. pl_id p \<noteq> pl_id chosen) plans)) in
      ''Synthetic-fallback dissent record '' @ em_dash @ '' Chair LLM unavailable.'' @ newline @ newline
      @ ''Considered plans:'' @ newline
      @ lines_of (map (\<lambda>p. ''- ['' @ pl_id p @ ''] team='' @ team_name (pl_team p) @ '' action='' @ action_name (pl_action p)
           @ '' conf='' @ fmt2 (pl_confidence p)) plans)
      @ newline @ newline @ ''Fallback chose ['' @ pl_id chosen @ ''] (highest confidence). Other plans not chosen: ''
      @ (if others = [] then ''(none)'' else others) @ ''.'')"

definition fallback_risk_view :: "risk_transcript \<Rightarrow> string" where
  "fallback_risk_view r =
     (let v = strip (''aggressive: '' @ take 200 (rk_aggressive r) @ newline @ ''conservative: '' @ take 200 (rk_conservative r)
                @ newline @ ''neutral: '' @ take 200 (rk_neutral r))
      in if v = [] then ''Risk panel unavailable.'' else v)"

definition fallback_decision :: "string \<Rightarrow> string \<Rightarrow> plan_v1 list \<Rightarrow> risk_transcript \<Rightarrow> seconds \<Rightarrow> string \<Rightarrow> string + board_decision" where
  "fallback_decision new_ulid trigger plans risk issued reason =
     (let chosen = most_confident plans in
      construct decision_valid
        \<lparr>bd_id = new_ulid, bd_trigger_event_id = trigger, bd_considered = map pl_id plans, bd_chosen = pl_id chosen,
         bd_rationale = ''Fallback selection ('' @ reason @ ''): chose plan '' @ pl_id chosen @ '' on highest confidence (''
           @ fmt2 (pl_confidence chosen) @ '').'',
         bd_dissent = fallback_dissent plans chosen, bd_risk_view = fallback_risk_view risk,
         bd_confidence = pl_confidence chosen, bd_issued_at = issued\<rparr>)"

definition chair_prompt :: "string \<Rightarrow> plan_v1 list \<Rightarrow> bull_bear \<Rightarrow> risk_transcript \<Rightarrow> string" where
  "chair_prompt trigger plans bb risk =
     (let rounds = show_nat (length (bb_turns bb) div 2) in
      ''Trigger event: '' @ trigger @ newline @ newline @ ''Candidate plans:'' @ newline
      @ lines_of (map (\<lambda>p. ''['' @ pl_id p @ ''] team='' @ team_name (pl_team p) @ '' action='' @ action_name (pl_action p)
          @ '' entry='' @ fmt2 (pl_entry_price p) @ '' target='' @ fmt2 (pl_target_price p) @ '' stop='' @ fmt2 (pl_stop_loss p)
          @ '' conf='' @ fmt2 (pl_confidence p) @ '': '' @ take 300 (pl_thesis p)) plans)
      @ newline @ newline
      @ ''Bull thesis (round-'' @ rounds @ ''): '' @ take 600 (bb_bull bb) @ newline
      @ ''Bear thesis (round-'' @ rounds @ ''): '' @ take 600 (bb_bear bb) @ newline @ newline
      @ ''Risk panel:'' @ newline @ ''- aggressive: '' @ take 300 (rk_aggressive risk) @ newline
      @ ''- conservative: '' @ take 300 (rk_conservative risk) @ newline
      @ ''- neutral: '' @ take 300 (rk_neutral risk) @ newline)"

definition chair_dissent :: "plan_v1 list \<Rightarrow> string \<Rightarrow> string \<Rightarrow> string" where
  "chair_dissent plans chosen_id dissent =
     (if length plans > 1 \<and> strip dissent = []
      then ''Chair did not produce dissent record; auto-generated: ''
        @ join_with '', '' (map (\<lambda>p. ''['' @ pl_id p @ '']'') (filter (\<lambda>p. pl_id p \<noteq> chosen_id) plans))
      else dissent)"

definition synthesize_decision :: "pystd \<Rightarrow> (string \<Rightarrow> (string, json) dict option) \<Rightarrow> 'c board_llm \<Rightarrow> string \<Rightarrow> string
    \<Rightarrow> plan_v1 list \<Rightarrow> bull_bear \<Rightarrow> risk_transcript \<Rightarrow> seconds \<Rightarrow> 'c \<Rightarrow> (string + board_decision) \<times> 'c" where
  "synthesize_decision py loads llm new_ulid trigger plans bb risk issued w =
     (if plans = [] then (Inl ''Investment Board requires at least one PlanV1'', w)
      else if bb_degraded bb then (fallback_decision new_ulid trigger plans risk issued ''bull_bear_degraded'', w)
      else case llm ''board.chair'' (chair_prompt trigger plans bb risk) w of
          (Inl e, w') \<Rightarrow> (Inl e, w')
        | (Inr (txt, skip), w') \<Rightarrow>
            (if skip then fallback_decision new_ulid trigger plans risk issued ''chair_cost_skipped''
             else case extract_json loads txt of
                 None \<Rightarrow> fallback_decision new_ulid trigger plans risk issued ''chair_json_parse_failed''
               | Some parsed \<Rightarrow>
                   (let chosen_id = to_str py (jor (dget parsed ''chosen_plan_id'') (JStr [])) in
                    case find (\<lambda>p. pl_id p = chosen_id) plans of
                      None \<Rightarrow> fallback_decision new_ulid trigger plans risk issued ''chair_picked_unknown_plan''
                    | Some chosen \<Rightarrow>
                        (case float_of py (jget_or (JObj parsed) ''confidence'' (JNum (pl_confidence chosen))) of
                           None \<Rightarrow> Inl ''confidence is not a number''
                         | Some c \<Rightarrow>
                             construct decision_valid
                               \<lparr>bd_id = new_ulid, bd_trigger_event_id = trigger, bd_considered = map pl_id plans,
                                bd_chosen = chosen_id,
                                bd_rationale = take 4000 (to_str py (jor (dget parsed ''chair_rationale'') (JStr []))),
                                bd_dissent = take 8000 (chair_dissent plans chosen_id
                                   (to_str py (jor (dget parsed ''dissent_record'') (JStr [])))),
                                bd_risk_view = take 4000 (to_str py (jor (dget parsed ''risk_view'') (JStr []))),
                                bd_confidence = max 0 (min 1 c), bd_issued_at = issued\<rparr>)), w'))"

section \<open>Projection onto advice.v1\<close>

fun action_to_direction :: "action \<Rightarrow> direction" where
  "action_to_direction Buy = Long" | "action_to_direction Sell = Short" | "action_to_direction Hold = Flat"

definition bands :: "plan_v1 \<Rightarrow> (rat \<times> rat) \<times> rat \<times> rat" where
  "bands p =
     (case action_to_direction (pl_action p) of
        Long \<Rightarrow> ((pl_entry_price p * 0.999, pl_entry_price p * 1.001), (pl_target_price p * 0.99, pl_target_price p))
      | Short \<Rightarrow> ((pl_entry_price p * 0.999, pl_entry_price p * 1.001), (pl_target_price p, pl_target_price p * 1.01))
      | Flat \<Rightarrow> ((pl_entry_price p, pl_entry_price p), (pl_entry_price p, pl_entry_price p)))"

definition board_evidence :: "board_decision \<Rightarrow> evidence list" where
  "board_evidence d =
     \<lparr>ev_kind = ''news'', ev_ref = Some (''board.trigger.'' @ bd_trigger_event_id d), ev_url = None\<rparr>
     # map (\<lambda>pid. \<lparr>ev_kind = ''factor'', ev_ref = Some (''board.plan.'' @ pid), ev_url = None\<rparr>) (bd_considered d)"

definition board_decision_to_advice :: "(string \<Rightarrow> bool) \<Rightarrow> board_decision \<Rightarrow> plan_v1 list \<Rightarrow> string + advice_v1" where
  "board_decision_to_advice ulid_ok d plans =
     (case find (\<lambda>p. pl_id p = bd_chosen d) plans of
        None \<Rightarrow> Inl ''StopIteration''
      | Some chosen \<Rightarrow>
          construct (advice_valid ulid_ok)
            \<lparr>av_id = bd_id d, av_agent = ''board'', av_issued_at = bd_issued_at d, av_asset = pl_asset chosen,
             av_thesis = take 4000 (if bd_rationale d \<noteq> [] then bd_rationale d else ''Investment Board decision.''),
             av_direction = action_to_direction (pl_action chosen), av_confidence = bd_confidence d,
             av_entry_band = fst (bands chosen), av_target_band = snd (bands chosen),
             av_stop_loss = pl_stop_loss chosen, av_horizon_days = pl_horizon_days chosen,
             av_max_drawdown_pct = pl_max_drawdown_pct chosen, av_sizing_hint_pct_nav = pl_sizing_pct_nav chosen,
             av_expires_at = bd_issued_at d + days (pl_horizon_days chosen),
             av_evidence = board_evidence d,
             av_disclaimer = None\<rparr>)"

section \<open>The endpoint\<close>

text \<open>
  \<open>persist\<close> is \<open>data_lake.advice_ledger.append\<close> on a valid envelope; the plans come
  validated (\<open>Inl\<close>: a validation error of the request). \<open>HttpError\<close> is an exception that
  leaves the handler.
\<close>

datatype decide_out =
  DecideSkipped
| DecideNoPlans
| Decided board_decision bool "(string + string) option" "advice_v1 option"
| HttpError string

definition decide_board :: "pystd \<Rightarrow> (string \<Rightarrow> (string, json) dict option) \<Rightarrow> (string \<Rightarrow> bool) \<Rightarrow> 'c board_llm
    \<Rightarrow> (advice_v1 \<Rightarrow> 'c \<Rightarrow> (string + string) \<times> 'c) \<Rightarrow> bool \<Rightarrow> string \<Rightarrow> seconds \<Rightarrow> string + plan_v1 list \<Rightarrow> string \<Rightarrow> bool
    \<Rightarrow> 'c \<Rightarrow> decide_out \<times> 'c" where
  "decide_board py loads ulid_ok llm persist flag_on new_ulid now plans trigger persist_on w =
     (if \<not> flag_on then (DecideSkipped, w)
      else case plans of
          Inl e \<Rightarrow> (HttpError e, w)
        | Inr ps \<Rightarrow>
            if ps = [] then (DecideNoPlans, w)
            else (case debate llm ps w of
                (Inl e, w1) \<Rightarrow> (HttpError e, w1)
              | (Inr bb, w1) \<Rightarrow>
                  (case deliberate llm ps w1 of
                     (Inl e, w2) \<Rightarrow> (HttpError e, w2)
                   | (Inr rk, w2) \<Rightarrow>
                       (case synthesize_decision py loads llm new_ulid trigger ps bb rk now w2 of
                          (Inl e, w3) \<Rightarrow> (HttpError e, w3)
                        | (Inr d, w3) \<Rightarrow>
                            (let deg = bb_degraded bb \<or> rk_degraded rk in
                             if persist_on then
                               (case board_decision_to_advice ulid_ok d ps of
                                  Inl e \<Rightarrow> (Decided d deg (Some (Inl e)) None, w3)
                                | Inr a \<Rightarrow> (let (r, w4) = persist a w3 in (Decided d deg (Some r) None, w4)))
                             else (case board_decision_to_advice ulid_ok d ps of
                                  Inl e \<Rightarrow> (HttpError e, w3)
                                | Inr a \<Rightarrow> (Decided d deg None (Some a), w3)))))))"

section \<open>The projection\<close>

text \<open>When the chosen plan's prices leave room for the bands the projection draws around them.\<close>

definition recordable :: "plan_v1 \<Rightarrow> bool" where
  "recordable p =
     (case pl_action p of
        Buy \<Rightarrow> 1.001 * pl_entry_price p < 0.99 * pl_target_price p \<and> pl_stop_loss p < 0.999 * pl_entry_price p
      | Sell \<Rightarrow> 1.01 * pl_target_price p < 0.999 * pl_entry_price p \<and> 1.001 * pl_entry_price p < pl_stop_loss p
      | Hold \<Rightarrow> True)"

lemma board_evidence_ok: "evidence_fields_ok (board_evidence d)" "board_evidence d \<noteq> []"
  by (auto simp: board_evidence_def evidence_fields_ok_def evidence_kinds_def list_all_iff)

lemma horizon_expiry: "1 \<le> h \<Longrightarrow> h \<le> 365 \<Longrightarrow> expiry_within_one_year t (t + days h)"
proof -
  assume h: "1 \<le> h" "h \<le> 365"
  then have "(1::rat) \<le> of_int h" "of_int h \<le> (365::rat)" by (simp_all add: of_int_le_iff [symmetric])
  then show ?thesis by (simp add: expiry_within_one_year_def days_def)
qed

text \<open>
  C30: The board's decision for a valid plan can be written to the ledger exactly if the
  plan's target is far enough from its entry for the drawn bands not to meet and its stop
  lies outside the entry band; a valid plan with prices closer together, which plan.v1
  accepts, makes the projection raise.
\<close>

theorem board_projection_valid_iff:
  assumes "plan_valid ulid_ok p" and "find (\<lambda>q. pl_id q = bd_chosen d) plans = Some p"
    and "id_is_ulid ulid_ok (bd_id d)" and "0 \<le> bd_confidence d" and "bd_confidence d \<le> 1"
  shows "(\<exists>a. board_decision_to_advice ulid_ok d plans = Inr a) \<longleftrightarrow> recordable p"
proof -
  have e: "0 \<le> pl_entry_price p" "0 \<le> pl_target_price p" and h: "1 \<le> pl_horizon_days p" "pl_horizon_days p \<le> 365"
    using assms(1) by (simp_all add: plan_valid_def plan_fields_ok_def)
  have bands: "band_ascending (fst (bands p))" "band_ascending (snd (bands p))"
    using e by (cases "pl_action p"; simp add: bands_def band_ascending_def)+
  show ?thesis
    using assms e h bands horizon_expiry [OF h] board_evidence_ok
    by (cases "pl_action p")
       (simp_all add: board_decision_to_advice_def advice_valid_def advice_fields_ok_def plan_valid_def plan_fields_ok_def
          direction_consistency_def bands_def evidence_required_when_directional_def persona_requires_disclaimer_def
          starts_with_def recordable_def not_le mult.commute)
qed

definition spy :: asset where
  "spy = \<lparr>as_kind = ''etf'', as_ticker = ''SPY'', as_venue = ''ARCA'', as_name = None\<rparr>"

definition sample_ulid :: string where
  "sample_ulid = ''01HZZZZZZZZZZZZZZZZZZZZZZZ''"

definition sample_plan :: "rat \<Rightarrow> rat \<Rightarrow> plan_v1" where
  "sample_plan target stop = \<lparr>pl_id = sample_ulid, pl_team = Quant, pl_persona_slug = None, pl_issued_at = 0, pl_asset = spy, pl_action = Buy,
     pl_entry_price = 100, pl_window_open = 0, pl_window_close = 3600, pl_target_price = target, pl_stop_loss = stop,
     pl_max_drawdown_pct = 5, pl_horizon_days = 5, pl_sizing_pct_nav = 2, pl_confidence = 0.7, pl_thesis = ''mean reversion'',
     pl_evidence = [\<lparr>ev_kind = ''factor'', ev_ref = Some ''rsi2'', ev_url = None\<rparr>], pl_context = None, pl_expires_at = 432000,
     pl_disclaimer = None\<rparr>"

definition sample_decision :: board_decision where
  "sample_decision = \<lparr>bd_id = sample_ulid, bd_trigger_event_id = ''e1'', bd_considered = [sample_ulid], bd_chosen = sample_ulid,
     bd_rationale = ''r'', bd_dissent = [], bd_risk_view = ''v'', bd_confidence = 0.7, bd_issued_at = 10\<rparr>"

lemma sample_ids: "id_is_ulid (\<lambda>v. True) sample_ulid" "ulid_re sample_ulid"
  by (simp_all add: id_is_ulid_def ulid_re_def sample_ulid_def ulid_chars_def)

lemma sample_plan_valid: "100 < target \<Longrightarrow> 0 \<le> stop \<Longrightarrow> stop < 100 \<Longrightarrow> plan_valid (\<lambda>v. True) (sample_plan target stop)"
  using sample_ids by (simp add: plan_valid_def plan_fields_ok_def sample_plan_def asset_fields_ok_def spy_def asset_kinds_def evidence_fields_ok_def
      evidence_kinds_def entry_window_monotone_def action_price_ordering_def evidence_required_unless_hold_def
      persona_team_requires_persona_slug_def persona_team_requires_disclaimer_def expiry_within_one_year_def days_def)

text \<open>A buy from 100 to 101 with its stop at 98 cannot be recorded; one to 110 can.\<close>

theorem board_projection_valid_iff_witness:
  "(\<nexists>a. board_decision_to_advice (\<lambda>v. True) sample_decision [sample_plan 101 98] = Inr a)
   \<and> (\<exists>a. board_decision_to_advice (\<lambda>v. True) sample_decision [sample_plan 110 98] = Inr a)"
proof -
  have "find (\<lambda>q. pl_id q = bd_chosen sample_decision) [sample_plan t s] = Some (sample_plan t s)" for t s
    by (simp add: sample_decision_def sample_plan_def)
  moreover have "id_is_ulid (\<lambda>v. True) (bd_id sample_decision)" "0 \<le> bd_confidence sample_decision" "bd_confidence sample_decision \<le> 1"
    using sample_ids by (simp_all add: sample_decision_def)
  ultimately have "(\<exists>a. board_decision_to_advice (\<lambda>v. True) sample_decision [sample_plan t 98] = Inr a) \<longleftrightarrow> recordable (sample_plan t 98)"
    if "100 < t" for t
    by (intro board_projection_valid_iff [OF sample_plan_valid]) (use that in simp_all)
  from this [of 101] this [of 110] show ?thesis by (simp add: recordable_def sample_plan_def)
qed

section \<open>The fallback\<close>

lemma foldl_best:
  "let b = foldl (\<lambda>best p. if pl_confidence p > pl_confidence best then p else best) q ps in
     b \<in> set (q # ps) \<and> (\<forall>p \<in> set (q # ps). pl_confidence p \<le> pl_confidence b)"
proof (induction ps arbitrary: q)
  case (Cons p ps)
  show ?case using Cons.IH [of "if pl_confidence p > pl_confidence q then p else q"] by (auto simp: Let_def split: if_splits)
qed simp

lemma most_confident:
  assumes "plans \<noteq> []"
  shows "most_confident plans \<in> set plans" and "p \<in> set plans \<Longrightarrow> pl_confidence p \<le> pl_confidence (most_confident plans)"
  using foldl_best [of "hd plans" "tl plans"] assms by (simp_all add: most_confident_def Let_def)

lemma length_strip: "length (strip s) \<le> length s"
proof -
  have "length (strip s) \<le> length (dropWhile is_space s)"
    using length_dropWhile_le [of is_space "rev (dropWhile is_space s)"] by (simp add: strip_def)
  also have "\<dots> \<le> length s" by (rule length_dropWhile_le)
  finally show ?thesis .
qed

lemma strip_nonblank: "c \<in> set s \<Longrightarrow> \<not> is_space c \<Longrightarrow> strip s \<noteq> []"
  by (auto simp: strip_eq_Nil_iff)

lemma length_ulid: "ulid_re v \<Longrightarrow> length v \<le> 27"
  by (auto simp: ulid_re_def Let_def split: if_splits)

lemma length_lines: "(\<And>x. x \<in> set xs \<Longrightarrow> length (f x) \<le> k) \<Longrightarrow> length (lines_of (map f xs)) \<le> (k + 1) * length xs"
  using length_join [of "map f xs" k newline] unfolding lines_of_def by (auto simp: newline_def)

lemma length_names: "length (team_name t) \<le> 11" "length (action_name a) \<le> 4"
  by (cases t; simp) (cases a; simp)

definition plan_ok :: "plan_v1 \<Rightarrow> bool" where
  "plan_ok p \<longleftrightarrow> ulid_re (pl_id p) \<and> 0 \<le> pl_confidence p \<and> pl_confidence p \<le> 1"

lemma plan_valid_ok: "plan_valid ulid_ok p \<Longrightarrow> plan_ok p"
  by (simp add: plan_valid_def plan_ok_def plan_fields_ok_def id_is_ulid_def)

lemma fallback_dissent_ok:
  assumes "\<And>p. p \<in> set plans \<Longrightarrow> plan_ok p" and "chosen \<in> set plans" and "length plans \<le> 70"
  shows "length (fallback_dissent plans chosen) \<le> 8000 \<and> strip (fallback_dissent plans chosen) \<noteq> []"
proof
  let ?row = "\<lambda>p. ''- ['' @ pl_id p @ ''] team='' @ team_name (pl_team p) @ '' action='' @ action_name (pl_action p) @ '' conf='' @ fmt2 (pl_confidence p)"
  let ?others = "join_with '', '' (map pl_id (filter (\<lambda>p. pl_id p \<noteq> pl_id chosen) plans))"
  have row: "length (?row p) \<le> 70" if "p \<in> set plans" for p
    using assms(1) [OF that] length_ulid [of "pl_id p"] length_names(1) [of "pl_team p"] length_names(2) [of "pl_action p"] length_fmt2_unit [of "pl_confidence p"]
    by (simp add: plan_ok_def)
  have "length (lines_of (map ?row plans)) \<le> 71 * length plans" using length_lines [of plans ?row 70] row by simp
  then have rows: "length (lines_of (map ?row plans)) \<le> 71 * 70" using assms(3) by linarith
  have "length w \<le> 27" if "w \<in> set (map pl_id (filter (\<lambda>p. pl_id p \<noteq> pl_id chosen) plans))" for w
    using that assms(1) length_ulid by (auto simp: plan_ok_def)
  then have "length ?others \<le> (27 + length '', '') * length (map pl_id (filter (\<lambda>p. pl_id p \<noteq> pl_id chosen) plans))"
    by (rule length_join)
  then have "length ?others \<le> 29 * length (filter (\<lambda>p. pl_id p \<noteq> pl_id chosen) plans)" by simp
  also have "\<dots> \<le> 29 * 70" using assms(3) le_trans [OF length_filter_le] by (simp add: mult_le_mono2)
  finally have others: "length ?others \<le> 29 * 70" .
  have "length (pl_id chosen) \<le> 27" using assms(1,2) length_ulid by (simp add: plan_ok_def)
  then show "length (fallback_dissent plans chosen) \<le> 8000"
    using rows others by (simp add: fallback_dissent_def Let_def newline_def em_dash_def)
  show "strip (fallback_dissent plans chosen) \<noteq> []"
    by (rule strip_nonblank [where c = "CHR ''S''"]) (simp_all add: fallback_dissent_def Let_def is_space_def)
qed

lemma fallback_risk_view_ok: "length (fallback_risk_view r) \<le> 4000"
proof -
  have t: "length (take 200 s) \<le> 200" for s :: string by simp
  have "length (strip (''aggressive: '' @ take 200 (rk_aggressive r) @ newline @ ''conservative: '' @ take 200 (rk_conservative r)
      @ newline @ ''neutral: '' @ take 200 (rk_neutral r))) \<le> 700"
    by (rule order_trans [OF length_strip]) (use t [of "rk_aggressive r"] t [of "rk_conservative r"] t [of "rk_neutral r"] in
      \<open>simp add: newline_def\<close>)
  then show ?thesis unfolding fallback_risk_view_def Let_def by simp
qed

definition fallback_reasons :: "string list" where
  "fallback_reasons = [''bull_bear_degraded'', ''chair_cost_skipped'', ''chair_json_parse_failed'', ''chair_picked_unknown_plan'']"

lemma fallback_decides:
  assumes "plans \<noteq> []" and "\<And>p. p \<in> set plans \<Longrightarrow> plan_ok p" and "length plans \<le> 70" and "ulid_re new_ulid"
    and "reason \<in> set fallback_reasons"
  shows "\<exists>d. fallback_decision new_ulid trigger plans risk issued reason = Inr d \<and> bd_chosen d = pl_id (most_confident plans)
    \<and> bd_confidence d = pl_confidence (most_confident plans)"
proof -
  let ?c = "most_confident plans"
  have c: "?c \<in> set plans" by (rule most_confident [OF assms(1)])
  have p: "plan_ok ?c" by (rule assms(2) [OF c])
  have "length reason \<le> 30" using assms(5) by (auto simp: fallback_reasons_def)
  moreover have "length (pl_id ?c) \<le> 27" "length (fmt2 (pl_confidence ?c)) = 4"
    using p length_ulid length_fmt2_unit by (simp_all add: plan_ok_def)
  ultimately show ?thesis
    using fallback_dissent_ok [OF assms(2) c assms(3)] fallback_risk_view_ok [of risk] c p assms(4)
    by (simp add: fallback_decision_def Let_def decision_valid_def decision_fields_ok_def chosen_in_considered_def
        dissent_when_multiple_def plan_ok_def)
qed

section \<open>What the board decides\<close>

lemma construct_decision: "construct decision_valid x = Inr d \<Longrightarrow> decision_valid d"
  by simp

lemma fallback_typed:
  assumes "plans \<noteq> []" and "fallback_decision new_ulid trigger plans risk issued reason = Inr d"
  shows "decision_valid d \<and> bd_considered d = map pl_id plans \<and> bd_trigger_event_id d = trigger \<and> bd_issued_at d = issued"
  using assms by (auto simp: fallback_decision_def Let_def)

lemma synthesize_typed:
  assumes "synthesize_decision py loads llm new_ulid trigger plans bb risk issued w = (Inr d, w')"
  shows "plans \<noteq> [] \<and> decision_valid d \<and> bd_considered d = map pl_id plans \<and> bd_trigger_event_id d = trigger \<and> bd_issued_at d = issued"
  using assms fallback_typed [of plans new_ulid trigger risk issued _ d]
  by (auto simp: synthesize_decision_def Let_def split: if_splits sum.splits prod.splits option.splits)

text \<open>
  Whatever the language model answers, a decision the board returns is well typed: it names one
  of the plans it was given as chosen, lists exactly those plans as considered, keeps its
  confidence in [0, 1] and carries a dissent record whenever there was more than one plan.
\<close>

theorem board_decision_typed:
  assumes "decide_board py loads ulid_ok llm persist flag_on new_ulid now (Inr plans) trigger persist_on w
             = (Decided d deg r a, w')"
  shows "(\<exists>p \<in> set plans. bd_chosen d = pl_id p) \<and> bd_considered d = map pl_id plans
    \<and> 0 \<le> bd_confidence d \<and> bd_confidence d \<le> 1 \<and> (1 < length plans \<longrightarrow> strip (bd_dissent d) \<noteq> [])
    \<and> length (bd_dissent d) \<le> 8000 \<and> bd_trigger_event_id d = trigger \<and> bd_issued_at d = now"
proof -
  have "\<exists>bb rk w2 w3. synthesize_decision py loads llm new_ulid trigger plans bb rk now w2 = (Inr d, w3)"
    using assms by (auto simp: decide_board_def Let_def split: if_splits sum.splits prod.splits)
  then have "decision_valid d \<and> bd_considered d = map pl_id plans \<and> bd_trigger_event_id d = trigger \<and> bd_issued_at d = now"
    by (elim exE) (drule synthesize_typed, blast)
  then show ?thesis
    by (auto simp: decision_valid_def decision_fields_ok_def chosen_in_considered_def dissent_when_multiple_def)
qed

text \<open>
  When the chair's own answer cannot be used: the debate degraded, the call skipped on cost, no
  JSON object in the text, or a plan id the board did not consider.
\<close>

definition chair_unusable :: "pystd \<Rightarrow> (string \<Rightarrow> (string, json) dict option) \<Rightarrow> 'c board_llm \<Rightarrow> string
    \<Rightarrow> plan_v1 list \<Rightarrow> bull_bear \<Rightarrow> risk_transcript \<Rightarrow> 'c \<Rightarrow> bool" where
  "chair_unusable py loads llm trigger plans bb risk w \<longleftrightarrow>
     bb_degraded bb \<or>
     (case fst (llm ''board.chair'' (chair_prompt trigger plans bb risk) w) of
        Inl e \<Rightarrow> False
      | Inr (txt, skip) \<Rightarrow> skip \<or>
          (case extract_json loads txt of None \<Rightarrow> True
           | Some parsed \<Rightarrow> to_str py (jor (dget parsed ''chosen_plan_id'') (JStr [])) \<notin> set (map pl_id plans)))"

lemma find_id_None: "v \<notin> pl_id ` set plans \<Longrightarrow> find (\<lambda>p. pl_id p = v) plans = None"
  by (auto simp: find_None_iff)

lemma unusable_falls_back:
  assumes "plans \<noteq> []" and "chair_unusable py loads llm trigger plans bb risk w"
  shows "\<exists>reason \<in> set fallback_reasons. fst (synthesize_decision py loads llm new_ulid trigger plans bb risk issued w)
           = fallback_decision new_ulid trigger plans risk issued reason"
proof (cases "bb_degraded bb")
  case True
  then show ?thesis using assms(1) by (simp add: synthesize_decision_def fallback_reasons_def)
next
  case False
  obtain ans w' where call: "llm ''board.chair'' (chair_prompt trigger plans bb risk) w = (ans, w')" by force
  show ?thesis
  proof (cases ans)
    case (Inl e)
    then show ?thesis using assms False call by (simp add: chair_unusable_def)
  next
    case (Inr a)
    obtain t skip where "a = (t, skip)" by force
    then show ?thesis using assms False call Inr
      by (cases skip) (auto simp: chair_unusable_def synthesize_decision_def fallback_reasons_def find_id_None Let_def split: option.splits)
  qed
qed

text \<open>
  When the chair's answer cannot be used, the board still decides, for up to seventy valid
  plans: the fallback never raises, takes the plan with the highest confidence (the first of
  them) and reports that plan's confidence.
\<close>

theorem board_falls_back_to_most_confident:
  assumes "plans \<noteq> []" and "\<And>p. p \<in> set plans \<Longrightarrow> plan_valid ulid_ok p" and "length plans \<le> 70"
    and "id_is_ulid ulid_ok new_ulid" and "chair_unusable py loads llm trigger plans bb risk w"
  shows "\<exists>d. fst (synthesize_decision py loads llm new_ulid trigger plans bb risk issued w) = Inr d
    \<and> (\<exists>p \<in> set plans. bd_chosen d = pl_id p \<and> bd_confidence d = pl_confidence p \<and> (\<forall>q \<in> set plans. pl_confidence q \<le> pl_confidence p))"
proof -
  obtain reason where r: "reason \<in> set fallback_reasons"
    "fst (synthesize_decision py loads llm new_ulid trigger plans bb risk issued w) = fallback_decision new_ulid trigger plans risk issued reason"
    using unusable_falls_back [OF assms(1,5)] by blast
  have ok: "p \<in> set plans \<Longrightarrow> plan_ok p" for p using assms(2) by (auto simp: plan_valid_def plan_ok_def plan_fields_ok_def id_is_ulid_def)
  have "ulid_re new_ulid" using assms(4) by (simp add: id_is_ulid_def)
  from fallback_decides [OF assms(1) ok assms(3) this r(1), of trigger risk issued] obtain d where
    "fallback_decision new_ulid trigger plans risk issued reason = Inr d" "bd_chosen d = pl_id (most_confident plans)"
    "bd_confidence d = pl_confidence (most_confident plans)" by blast
  then show ?thesis using r(2) most_confident [OF assms(1)] by (intro exI [of _ d]) auto
qed

text \<open>Two plans and a chair that answers in prose: the more confident plan is taken.\<close>

definition second_ulid :: string where
  "second_ulid = ''01HYYYYYYYYYYYYYYYYYYYYYYY''"

definition two_plans :: "plan_v1 list" where
  "two_plans = [sample_plan 110 98 \<lparr>pl_confidence := 0.4\<rparr>, sample_plan 110 98 \<lparr>pl_id := second_ulid\<rparr>]"

definition prose :: "unit board_llm" where
  "prose caller prompt w = (Inr (''I would buy.'', False), w)"

definition one_round :: bull_bear where
  "one_round = \<lparr>bb_turns = [], bb_bull = ''up'', bb_bear = ''down'', bb_skipped = False\<rparr>"

definition quiet_panel :: risk_transcript where
  "quiet_panel = \<lparr>rk_turns = [], rk_aggressive = ''a'', rk_conservative = ''c'', rk_neutral = ''n'', rk_skipped = False\<rparr>"

lemmas validators = plan_valid_def plan_fields_ok_def entry_window_monotone_def action_price_ordering_def
  evidence_required_unless_hold_def persona_team_requires_persona_slug_def persona_team_requires_disclaimer_def

lemma two_plans_valid: "p \<in> set two_plans \<Longrightarrow> plan_valid (\<lambda>v. True) p"
proof -
  have v: "plan_valid (\<lambda>v. True) (sample_plan 110 98)" by (rule sample_plan_valid) simp_all
  have u: "ulid_re second_ulid" by (simp add: ulid_re_def second_ulid_def ulid_chars_def)
  have "plan_valid ok q \<Longrightarrow> 0 \<le> c \<Longrightarrow> c \<le> 1 \<Longrightarrow> plan_valid ok (q\<lparr>pl_confidence := c\<rparr>)" for ok q c
    by (cases "pl_action q") (simp_all add: validators)
  then have "plan_valid (\<lambda>v. True) (sample_plan 110 98\<lparr>pl_confidence := 0.4\<rparr>)" using v by simp
  moreover have "plan_valid (\<lambda>v. True) (sample_plan 110 98\<lparr>pl_id := second_ulid\<rparr>)"
    using v u by (cases "pl_action (sample_plan 110 98)") (simp_all add: validators id_is_ulid_def)
  moreover assume "p \<in> set two_plans"
  ultimately show ?thesis unfolding two_plans_def by (simp only: list.set insert_iff empty_iff) blast
qed

lemma prose_unusable: "chair_unusable py_ascii (\<lambda>t. None) prose ''e1'' two_plans one_round quiet_panel ()"
  by (simp add: chair_unusable_def prose_def extract_json_def braces_of_def)

theorem board_falls_back_to_most_confident_witness:
  "\<exists>d. fst (synthesize_decision py_ascii (\<lambda>t. None) prose sample_ulid ''e1'' two_plans one_round quiet_panel 10 ()) = Inr d
     \<and> bd_chosen d = second_ulid"
proof -
  have "two_plans \<noteq> []" "length two_plans \<le> 70" by (simp_all add: two_plans_def)
  from board_falls_back_to_most_confident [OF this(1) two_plans_valid this(2) sample_ids(1) prose_unusable, of 10]
  show ?thesis by (auto simp: two_plans_def sample_plan_def)
qed

theorem board_decision_typed_witness:
  "\<exists>d deg r a. decide_board py_ascii (\<lambda>t. None) (\<lambda>v. True) prose (\<lambda>a w. (Inr [], w)) True sample_ulid 10 (Inr two_plans) ''e1'' True ()
       = (Decided d deg r a, ())
     \<and> strip (bd_dissent d) \<noteq> []"
proof -
  obtain bb where bb: "debate prose two_plans () = (Inr bb, ())" "bb_degraded bb = False"
    by (simp add: debate_def MAX_ROUNDS_def upt_rec debate_one_turn_def prose_def bb_degraded_def two_plans_def)
  obtain rk where rk: "deliberate prose two_plans () = (Inr rk, ())"
    by (simp add: deliberate_def risk_one_turn_def MAX_TURNS_def prose_def two_plans_def)
  have u: "chair_unusable py_ascii (\<lambda>t. None) prose ''e1'' two_plans bb rk ()"
    by (simp add: chair_unusable_def prose_def extract_json_def braces_of_def)
  have two: "two_plans \<noteq> []" by (simp add: two_plans_def)
  moreover have "ulid_re sample_ulid" "length two_plans \<le> 70" using sample_ids by (simp_all add: two_plans_def)
  moreover have "plan_ok p" if "p \<in> set two_plans" for p using two_plans_valid [OF that] by (rule plan_valid_ok)
  ultimately obtain d where "fst (synthesize_decision py_ascii (\<lambda>t. None) prose sample_ulid ''e1'' two_plans bb rk 10 ()) = Inr d"
    using unusable_falls_back [OF _ u, of sample_ulid 10] fallback_decides [of two_plans sample_ulid _ "''e1''" rk 10] by metis
  then obtain d' where "synthesize_decision py_ascii (\<lambda>t. None) prose sample_ulid ''e1'' two_plans bb rk 10 () = (Inr d', ())"
    by (metis prod.collapse old.unit.exhaust)
  then obtain deg r a where out: "decide_board py_ascii (\<lambda>t. None) (\<lambda>v. True) prose (\<lambda>a w. (Inr [], w)) True sample_ulid 10 (Inr two_plans) ''e1'' True ()
       = (Decided d' deg r a, ())"
    using bb rk two by (cases "board_decision_to_advice (\<lambda>v. True) d' two_plans") (simp_all add: decide_board_def Let_def)
  have "1 < length two_plans" by (simp add: two_plans_def)
  with board_decision_typed [OF out] out show ?thesis by blast
qed

section \<open>The calls of a decision\<close>

text \<open>\<open>calls\<close> reads off the world which callers have asked the LLM so far.\<close>

definition records_calls :: "('c \<Rightarrow> string list) \<Rightarrow> 'c board_llm \<Rightarrow> (advice_v1 \<Rightarrow> 'c \<Rightarrow> (string + string) \<times> 'c) \<Rightarrow> bool" where
  "records_calls calls llm persist \<longleftrightarrow>
     (\<forall>caller prompt w. calls (snd (llm caller prompt w)) = calls w @ [caller]) \<and> (\<forall>a w. calls (snd (persist a w)) = calls w)"

definition debate_callers :: "nat \<Rightarrow> string list" where
  "debate_callers n = concat (replicate n [''board.bull'', ''board.bear''])"

definition risk_callers :: "perspective list \<Rightarrow> string list" where
  "risk_callers ps = map (\<lambda>p. ''board.risk_'' @ perspective_name p) ps"

lemma calls_llm: "records_calls calls llm persist \<Longrightarrow> llm caller prompt w = (a, w') \<Longrightarrow> calls w' = calls w @ [caller]"
  unfolding records_calls_def by (metis snd_conv)

lemma calls_persist: "records_calls calls llm persist \<Longrightarrow> persist a w = (r, w') \<Longrightarrow> calls w' = calls w"
  unfolding records_calls_def by (metis snd_conv)

lemma debate_turn_calls:
  assumes "records_calls calls llm persist" and "debate_one_turn llm s r plans prior w = (t, w')"
  shows "calls w' = calls w @ [''board.'' @ side_name s]"
  using assms calls_llm [OF assms(1)] by (auto simp: debate_one_turn_def Let_def split: prod.splits)

lemma take_debate_callers:
  "take (Suc (Suc i)) (debate_callers (Suc n)) = [''board.bull'', ''board.bear''] @ take i (debate_callers n)"
  "take (Suc 0) (debate_callers (Suc n)) = [''board.bull'']"
  by (simp_all add: debate_callers_def)

lemma debate_loop_calls:
  assumes "records_calls calls llm persist" and "debate_loop llm plans rs turns bt rt w = (t, w')"
  shows "\<exists>i. calls w' = calls w @ take i (debate_callers (length rs))"
  using assms(2)
proof (induction rs arbitrary: turns bt rt w)
  case Nil
  then show ?case by (simp add: debate_callers_def)
next
  case (Cons r rs)
  obtain b1 w1 where b: "debate_one_turn llm Bull r plans turns w = (b1, w1)" by force
  then have c1: "calls w1 = calls w @ [''board.bull'']" using debate_turn_calls [OF assms(1) b] by simp
  show ?case
  proof (cases b1)
    case (Inl e)
    then have "w' = w1" using Cons.prems b by simp
    then show ?thesis using c1 take_debate_callers(2) [of "length rs"] by (intro exI [of _ 1]) simp
  next
    case (Inr bull)
    obtain b2 w2 where r2: "debate_one_turn llm Bear r plans (turns @ [bull]) w1 = (b2, w2)" by force
    then have c2: "calls w2 = calls w @ [''board.bull'', ''board.bear'']" using debate_turn_calls [OF assms(1) r2] c1 by simp
    then have stop: "\<exists>i. calls w2 = calls w @ take i (debate_callers (length (r # rs)))"
      using take_debate_callers(1) [of 0 "length rs"] by (intro exI [of _ 2]) (simp add: numeral_2_eq_2)
    show ?thesis
    proof (cases b2)
      case (Inl e)
      then have "w' = w2" using Cons.prems b Inr r2 by simp
      then show ?thesis using stop by simp
    next
      case bear: (Inr bear)
      show ?thesis
      proof (cases "dt_skipped bull \<or> dt_skipped bear")
        case True
        then have "w' = w2" using Cons.prems b Inr r2 bear by simp
        then show ?thesis using stop by simp
      next
        case False
        then have "debate_loop llm plans rs (turns @ [bull, bear]) (dt_text bull) (dt_text bear) w2 = (t, w')"
          using Cons.prems b Inr r2 bear by simp
        from Cons.IH [OF this] obtain i where "calls w' = calls w2 @ take i (debate_callers (length rs))" by blast
        then show ?thesis using c2 take_debate_callers(1) [of i "length rs"] by (intro exI [of _ "Suc (Suc i)"]) simp
      qed
    qed
  qed
qed

lemma risk_loop_calls:
  assumes "records_calls calls llm persist" and "risk_loop llm plans ps turns s w = (t, w')"
  shows "\<exists>i. calls w' = calls w @ take i (risk_callers ps)"
  using assms(2)
proof (induction ps arbitrary: turns s w)
  case Nil
  then show ?case by (simp add: risk_callers_def)
next
  case (Cons p ps)
  obtain b1 w1 where b: "risk_one_turn llm p plans turns w = (b1, w1)" by force
  then have c1: "calls w1 = calls w @ [''board.risk_'' @ perspective_name p]"
    using calls_llm [OF assms(1)] by (auto simp: risk_one_turn_def Let_def split: prod.splits)
  then have stop: "\<exists>i. calls w1 = calls w @ take i (risk_callers (p # ps))"
    by (intro exI [of _ 1]) (simp add: risk_callers_def)
  show ?case
  proof (cases "length turns \<ge> MAX_TURNS")
    case True
    then show ?thesis using Cons.prems by (intro exI [of _ 0]) simp
  next
    case False
    show ?thesis
    proof (cases b1)
      case (Inl e)
      then show ?thesis using Cons.prems b False stop by simp
    next
      case (Inr turn)
      show ?thesis
      proof (cases "rt_skipped turn")
        case True
        then show ?thesis using Cons.prems b False Inr stop by (simp add: Let_def)
      next
        case skip: False
        then have "risk_loop llm plans ps (turns @ [turn]) (s(p := rt_text turn)) w1 = (t, w')"
          using Cons.prems b False Inr by (simp add: Let_def)
        from Cons.IH [OF this] obtain i where "calls w' = calls w1 @ take i (risk_callers ps)" by blast
        then show ?thesis using c1 by (intro exI [of _ "Suc i"]) (simp add: risk_callers_def)
      qed
    qed
  qed
qed

lemma debate_calls:
  assumes "records_calls calls llm persist" and "debate llm plans w = (t, w')"
  shows "\<exists>i. calls w' = calls w @ take i (debate_callers 2)"
proof (cases "plans = []")
  case True
  then show ?thesis using assms by (intro exI [of _ 0]) (simp add: debate_def)
next
  case False
  then have "debate_loop llm plans [1..<3] [] [] [] w = (t, w')" using assms(2) by (simp add: debate_def MAX_ROUNDS_def)
  from debate_loop_calls [OF assms(1) this] show ?thesis by simp
qed

lemma deliberate_calls:
  assumes "records_calls calls llm persist" and "deliberate llm plans w = (t, w')"
  shows "\<exists>i. calls w' = calls w @ take i (risk_callers [Aggressive, Conservative, Neutral])"
proof (cases "plans = []")
  case True
  then show ?thesis using assms by (intro exI [of _ 0]) (simp add: deliberate_def)
next
  case False
  then have "\<exists>r. risk_loop llm plans [Aggressive, Conservative, Neutral] [] (\<lambda>p. []) w = (r, w')"
    using assms(2) by (auto simp: deliberate_def Let_def split: prod.splits)
  then show ?thesis using risk_loop_calls [OF assms(1)] by blast
qed

lemma chair_calls:
  assumes "records_calls calls llm persist" and "synthesize_decision py loads llm new_ulid trigger plans bb risk issued w = (t, w')"
  shows "\<exists>i. calls w' = calls w @ take i [''board.chair'']"
proof (cases "plans = [] \<or> bb_degraded bb")
  case True
  then have "w' = w" using assms(2) by (auto simp: synthesize_decision_def split: if_splits)
  then show ?thesis by (intro exI [of _ 0]) simp
next
  case False
  obtain ans w1 where call: "llm ''board.chair'' (chair_prompt trigger plans bb risk) w = (ans, w1)" by force
  then have "w' = w1" using assms(2) False by (simp add: synthesize_decision_def split: sum.splits prod.splits)
  then show ?thesis using calls_llm [OF assms(1) call] by (intro exI [of _ 1]) simp
qed

lemma take_append_less: "\<exists>i. w2 = w @ take i xs \<Longrightarrow> \<exists>j. w3 = w2 @ take j ys \<Longrightarrow> \<exists>i j. w3 = w @ take i xs @ take j ys"
  by fastforce

text \<open>
  A decision costs at most eight LLM calls, in this order: bull and bear twice, the three
  risk voices once each, the chair once; a panel that stops early leaves out a suffix of its
  calls, and nothing is asked twice or retried.
\<close>

theorem board_call_budget:
  assumes "records_calls calls llm persist"
    and "decide_board py loads ulid_ok llm persist flag_on new_ulid now plans trigger persist_on w = (res, w')"
  shows "\<exists>i j k. calls w' = calls w
    @ take i [''board.bull'', ''board.bear'', ''board.bull'', ''board.bear'']
    @ take j [''board.risk_aggressive'', ''board.risk_conservative'', ''board.risk_neutral'']
    @ take k [''board.chair'']"
proof -
  have callers: "debate_callers 2 = [''board.bull'', ''board.bear'', ''board.bull'', ''board.bear'']"
    "risk_callers [Aggressive, Conservative, Neutral] = [''board.risk_aggressive'', ''board.risk_conservative'', ''board.risk_neutral'']"
    by (simp_all add: debate_callers_def risk_callers_def numeral_2_eq_2)
  have none: "\<exists>i j k. calls w = calls w @ take i xs @ take j ys @ take k zs" for xs ys zs :: "string list"
    by (intro exI [of _ 0]) simp
  show ?thesis
  proof (cases "flag_on \<and> (\<exists>ps. plans = Inr ps \<and> ps \<noteq> [])")
    case False
    then have "w' = w" using assms(2) by (auto simp: decide_board_def split: sum.splits if_splits)
    then show ?thesis using none by simp
  next
    case True
    then obtain ps where ps: "flag_on" "plans = Inr ps" "ps \<noteq> []" by blast
    obtain bb w1 where d: "debate llm ps w = (bb, w1)" by force
    obtain i where i: "calls w1 = calls w @ take i (debate_callers 2)" using debate_calls [OF assms(1) d] by blast
    obtain rk w2 where r: "deliberate llm ps w1 = (rk, w2)" by force
    obtain j where j: "calls w2 = calls w1 @ take j (risk_callers [Aggressive, Conservative, Neutral])"
      using deliberate_calls [OF assms(1) r] by blast
    show ?thesis
    proof (cases "bb")
      case (Inl e)
      then have "w' = w1" using assms(2) ps d by (simp add: decide_board_def)
      then show ?thesis using i callers by (intro exI [of _ i] exI [of _ 0]) simp
    next
      case (Inr b)
      show ?thesis
      proof (cases rk)
        case (Inl e)
        then have "w' = w2" using assms(2) ps d r Inr by (simp add: decide_board_def)
        then show ?thesis using i j callers by (intro exI [of _ i] exI [of _ j] exI [of _ 0]) simp
      next
        case panel: (Inr p)
        obtain dec w3 where s: "synthesize_decision py loads llm new_ulid trigger ps b p now w2 = (dec, w3)" by force
        have "calls w' = calls w3" using assms(2) ps d r s Inr panel calls_persist [OF assms(1)]
          by (auto simp: decide_board_def Let_def split: sum.splits if_splits prod.splits)
        moreover obtain k where "calls w3 = calls w2 @ take k [''board.chair'']" using chair_calls [OF assms(1) s] by blast
        ultimately show ?thesis using i j callers by (intro exI [of _ i] exI [of _ j] exI [of _ k]) simp
      qed
    qed
  qed
qed

text \<open>A world that is the list of the callers, and a model that is never skipped.\<close>

definition logged :: "string list board_llm" where
  "logged caller prompt w = (Inr (''no'', False), w @ [caller])"

theorem board_call_budget_witness:
  "length (snd (decide_board py_ascii (\<lambda>t. None) (\<lambda>v. True) logged (\<lambda>a w. (Inr [], w)) True sample_ulid 10 (Inr two_plans) ''e1'' True [])) \<le> 8"
proof -
  have rec: "records_calls id logged (\<lambda>a w. (Inr [], w))" by (simp add: records_calls_def logged_def)
  obtain res w' where out: "decide_board py_ascii (\<lambda>t. None) (\<lambda>v. True) logged (\<lambda>a w. (Inr [], w)) True sample_ulid 10
      (Inr two_plans) ''e1'' True [] = (res, w')" by force
  obtain i j k where "w' = take i [''board.bull'', ''board.bear'', ''board.bull'', ''board.bear'']
      @ take j [''board.risk_aggressive'', ''board.risk_conservative'', ''board.risk_neutral''] @ take k [''board.chair'']"
    using board_call_budget [OF rec out] by auto
  then show ?thesis using out by simp
qed

end
