(* ===== verification/AdviceMerger.thy ===== *)
theory AdviceMerger
  imports RateLimits PyStd
begin

text \<open>
  The advice merger (\<^verbatim>\<open>apps/orchestrator/orchestrator/merge/\<close>): an advice envelope is
  counted against its agent's limit, validated, its ticker brought to canonical form, and
  handed to the ledger; what is refused goes to the quarantine directory and raises an
  operations alert. \<open>validate\<close> is \<open>AdviceV1.model_validate\<close> (\<open>Inl\<close>: its error text),
  \<open>append\<close> and \<open>alert\<close> are the persistence and alert callables, \<open>writable\<close> says whether a
  file can be written at a path. Paths are not normalised.
\<close>

section \<open>Tickers\<close>

definition ticker_head :: string where
  "ticker_head = ''ABCDEFGHIJKLMNOPQRSTUVWXYZ''"

definition ticker_tail :: string where
  "ticker_tail = ticker_head @ ''0123456789.-''"

text \<open>\<open>_TICKER_RE.match\<close>; \<open>$\<close> also matches before a final newline.\<close>

definition ticker_re :: "string \<Rightarrow> bool" where
  "ticker_re v =
     (let s = (if v \<noteq> [] \<and> last v = CHR 0x0A then butlast v else v) in
      case s of [] \<Rightarrow> False
      | c # cs \<Rightarrow> c \<in> set ticker_head \<and> length cs \<le> 9 \<and> list_all (\<lambda>d. d \<in> set ticker_tail) cs)"

definition canonical_ticker :: "pystd \<Rightarrow> string \<Rightarrow> exn + string" where
  "canonical_ticker py raw =
     (let cleaned = upper (strip raw) in
      if \<not> ticker_re cleaned then Inl (ValueError (''ticker '' @ py_repr py raw @ '' does not match canonical format''))
      else Inr cleaned)"

section \<open>Quarantine\<close>

definition QUARANTINE_DIR :: string where
  "QUARANTINE_DIR = ''/srv/iic/advice_ledger/quarantine''"

record quarantine_body =
  qb_reason :: string
  qb_payload :: "(string, json) dict"

text \<open>\<open>dir / name\<close> of pathlib: an absolute name replaces the directory.\<close>

definition path_join :: "string \<Rightarrow> string \<Rightarrow> string" where
  "path_join dir name = (if starts_with ''/'' name then name else dir @ ''/'' @ name)"

definition dir_entry :: "string \<Rightarrow> string \<Rightarrow> bool" where
  "dir_entry dir path \<longleftrightarrow> starts_with (dir @ ''/'') path \<and> CHR ''/'' \<notin> set (drop (length dir + 1) path)"

definition quarantine_name :: "pystd \<Rightarrow> (string, quarantine_body) dict \<Rightarrow> (string, json) dict \<Rightarrow> string" where
  "quarantine_name py files payload =
     (let i = dget payload ''id'' in
      if truthy i then to_str py i else ''unknown-'' @ show_nat (length (filter (dir_entry QUARANTINE_DIR) (keys files))))"

definition quarantine_target :: "pystd \<Rightarrow> (string, quarantine_body) dict \<Rightarrow> (string, json) dict \<Rightarrow> string" where
  "quarantine_target py files payload = path_join QUARANTINE_DIR (quarantine_name py files payload @ ''.json'')"

definition quarantine :: "pystd \<Rightarrow> bool \<Rightarrow> (string \<Rightarrow> bool) \<Rightarrow> (string, json) dict \<Rightarrow> string
    \<Rightarrow> (string, quarantine_body) dict \<Rightarrow> (exn + string option) \<times> (string, quarantine_body) dict" where
  "quarantine py dir_ok writable payload reason files =
     (if \<not> dir_ok then (Inr None, files)
      else let target = quarantine_target py files payload in
        if writable target then (Inr (Some target), AList.update target \<lparr>qb_reason = reason, qb_payload = payload\<rparr> files)
        else (Inl (OtherExn target), files))"

section \<open>Merging\<close>

record merge_result =
  mr_accepted :: nat
  mr_quarantined :: nat
  mr_rate_limited :: nat

definition MergeResult :: merge_result where
  "MergeResult = \<lparr>mr_accepted = 0, mr_quarantined = 0, mr_rate_limited = 0\<rparr>"

record ops_alert =
  oa_code :: string
  oa_message :: string
  oa_agent :: json
  oa_advice_id :: json
  oa_quarantined_at :: "string option option"

text \<open>The merger's limiter with what it has written, alerted and handed to the ledger.\<close>

record merger =
  mg_limit :: "json agent_limit"
  mg_files :: "(string, quarantine_body) dict"
  mg_alerts :: "ops_alert list"
  mg_ledger :: "(string, json) dict list"

record merger_env =
  me_py :: pystd
  me_validate :: "(string, json) dict \<Rightarrow> string + unit"
  me_dir_ok :: bool
  me_writable :: "string \<Rightarrow> bool"
  me_append :: "(string, json) dict list \<Rightarrow> (string, json) dict \<Rightarrow> exn + unit"
  me_alert :: "ops_alert \<Rightarrow> exn + unit"

text \<open>A dict key: lists and dicts are not hashable, and \<open>True == 1\<close>.\<close>

fun agent_key :: "json \<Rightarrow> exn + json" where
  "agent_key (JArr xs) = Inl TypeError"
| "agent_key (JObj d) = Inl TypeError"
| "agent_key (JBool b) = Inr (JNum (if b then 1 else 0))"
| "agent_key v = Inr v"

definition send_alert :: "merger_env \<Rightarrow> ops_alert \<Rightarrow> merge_result \<Rightarrow> merger \<Rightarrow> (exn + merge_result) \<times> merger" where
  "send_alert env a r m =
     (case me_alert env a of Inl e \<Rightarrow> (Inl e, m) | Inr _ \<Rightarrow> (Inr r, m\<lparr>mg_alerts := mg_alerts m @ [a]\<rparr>))"

text \<open>\<open>{**payload["asset"], "ticker": canonical_ticker(payload["asset"]["ticker"])}\<close>.\<close>

definition normalized_asset :: "pystd \<Rightarrow> (string, json) dict \<Rightarrow> exn + json" where
  "normalized_asset py payload =
     res_bind (jitem (JObj payload) ''asset'') (\<lambda>a.
       (case a of
          JObj asset_d \<Rightarrow>
            res_bind (jitem a ''ticker'') (\<lambda>t.
              (case t of
                 JStr raw \<Rightarrow> res_bind (canonical_ticker py raw) (\<lambda>c. Inr (JObj (AList.update ''ticker'' (JStr c) asset_d)))
               | _ \<Rightarrow> Inl AttributeError))
        | _ \<Rightarrow> Inl TypeError))"

definition exn_text :: "pystd \<Rightarrow> exn \<Rightarrow> string option" where
  "exn_text py e = (case e of KeyError k \<Rightarrow> Some (py_repr py k) | ValueError t \<Rightarrow> Some t | _ \<Rightarrow> None)"

definition merge_limited :: "merger_env \<Rightarrow> json \<Rightarrow> (string, json) dict \<Rightarrow> merger \<Rightarrow> (exn + merge_result) \<times> merger" where
  "merge_limited env agent payload m =
     send_alert env
       \<lparr>oa_code = ''ADVICE_RATE_LIMITED'',
        oa_message = ''agent '' @ to_str (me_py env) agent @ '' exceeded '' @ show_nat (nat DEFAULT_PER_AGENT_RATE_LIMIT) @ ''/min'',
        oa_agent = agent, oa_advice_id = dget payload ''id'', oa_quarantined_at = None\<rparr>
       (MergeResult\<lparr>mr_rate_limited := 1\<rparr>) m"

definition merge_invalid :: "merger_env \<Rightarrow> json \<Rightarrow> (string, json) dict \<Rightarrow> string \<Rightarrow> merger \<Rightarrow> (exn + merge_result) \<times> merger" where
  "merge_invalid env agent payload why m =
     (case quarantine (me_py env) (me_dir_ok env) (me_writable env) payload why (mg_files m) of
        (Inl e, files) \<Rightarrow> (Inl e, m\<lparr>mg_files := files\<rparr>)
      | (Inr path, files) \<Rightarrow>
          send_alert env
            \<lparr>oa_code = ''ADVICE_VALIDATION_FAILED'',
             oa_message = ''advice from '' @ to_str (me_py env) agent @ '' rejected: '' @ why,
             oa_agent = agent, oa_advice_id = dget payload ''id'', oa_quarantined_at = Some path\<rparr>
            (MergeResult\<lparr>mr_quarantined := 1\<rparr>) (m\<lparr>mg_files := files\<rparr>))"

definition merge_unnormal :: "merger_env \<Rightarrow> json \<Rightarrow> (string, json) dict \<Rightarrow> string \<Rightarrow> merger \<Rightarrow> (exn + merge_result) \<times> merger" where
  "merge_unnormal env agent payload why m =
     (case quarantine (me_py env) (me_dir_ok env) (me_writable env) payload (''normalizer: '' @ why) (mg_files m) of
        (Inl e, files) \<Rightarrow> (Inl e, m\<lparr>mg_files := files\<rparr>)
      | (Inr path, files) \<Rightarrow>
          send_alert env
            \<lparr>oa_code = ''ADVICE_NORMALIZE_FAILED'', oa_message = why,
             oa_agent = agent, oa_advice_id = dget payload ''id'', oa_quarantined_at = None\<rparr>
            (MergeResult\<lparr>mr_quarantined := 1\<rparr>) (m\<lparr>mg_files := files\<rparr>))"

definition merge :: "merger_env \<Rightarrow> seconds \<Rightarrow> (string, json) dict \<Rightarrow> merger \<Rightarrow> (exn + merge_result) \<times> merger" where
  "merge env now payload m =
     (let agent = jget_or (JObj payload) ''agent'' (JStr ''<unknown>'') in
      case agent_key agent of
        Inl e \<Rightarrow> (Inl e, m)
      | Inr k \<Rightarrow>
          (let (ok, l) = al_allow (mg_limit m) k now; m1 = m\<lparr>mg_limit := l\<rparr> in
           if \<not> ok then merge_limited env agent payload m1
           else case me_validate env payload of
               Inl why \<Rightarrow> merge_invalid env agent payload why m1
             | Inr _ \<Rightarrow>
                 (case normalized_asset (me_py env) payload of
                    Inl e \<Rightarrow> (case exn_text (me_py env) e of None \<Rightarrow> (Inl e, m1) | Some why \<Rightarrow> merge_unnormal env agent payload why m1)
                  | Inr a \<Rightarrow>
                      (let payload' = AList.update ''asset'' a payload in
                       case me_append env (mg_ledger m1) payload' of
                         Inl e \<Rightarrow> (Inl e, m1)
                       | Inr _ \<Rightarrow> (Inr (MergeResult\<lparr>mr_accepted := 1\<rparr>), m1\<lparr>mg_ledger := mg_ledger m1 @ [payload']\<rparr>)))))"

section \<open>Canonical tickers\<close>

lemma upper_char_tail: "c \<in> set ticker_tail \<Longrightarrow> upper_char c = c \<and> \<not> is_space c"
  by (auto simp: ticker_tail_def ticker_head_def upper_char_def is_space_def)

lemma ticker_head_tail: "set ticker_head \<subseteq> set ticker_tail"
  unfolding ticker_tail_def set_append by blast

lemma upper_id: "(\<And>c. c \<in> set s \<Longrightarrow> upper_char c = c) \<Longrightarrow> upper s = s"
  by (simp add: upper_def map_idI)

lemma dropWhile_none: "(\<And>c. c \<in> set s \<Longrightarrow> \<not> P c) \<Longrightarrow> dropWhile P s = s"
  by (cases s) auto

lemma strip_id: "(\<And>c. c \<in> set s \<Longrightarrow> \<not> is_space c) \<Longrightarrow> strip s = s"
  using dropWhile_none [of s is_space] dropWhile_none [of "rev s" is_space] by (simp add: strip_def)

lemma last_strip: "strip s \<noteq> [] \<Longrightarrow> \<not> is_space (last (strip s))"
  unfolding strip_def using hd_dropWhile [of is_space "rev (dropWhile is_space s)"] by (simp add: last_rev)

lemma upper_char_newline:
  assumes "upper_char c = CHR 0x0A"
  shows "c = CHR 0x0A"
proof (cases "97 \<le> (of_char c :: nat) \<and> of_char c \<le> (122 :: nat)")
  case True
  then have "char_of (of_char c - 32 :: nat) = CHR 0x0A" using assms by (simp add: upper_char_def Let_def)
  then have "of_char (char_of (of_char c - 32 :: nat) :: char) = (10 :: nat)" by simp
  then have "(of_char c - 32) mod 256 = (10 :: nat)" by simp
  then have "of_char c - 32 = (10 :: nat)" using True by (subst (asm) mod_less) linarith+
  then show ?thesis using True by linarith
qed (use assms in \<open>simp add: upper_char_def Let_def split: if_splits\<close>)

lemma last_upper_strip: "upper (strip s) \<noteq> [] \<Longrightarrow> last (upper (strip s)) \<noteq> CHR 0x0A"
proof
  assume ne: "upper (strip s) \<noteq> []" and nl: "last (upper (strip s)) = CHR 0x0A"
  then have "upper_char (last (strip s)) = CHR 0x0A" by (simp add: upper_def last_map)
  then have "last (strip s) = CHR 0x0A" by (rule upper_char_newline)
  then have "is_space (last (strip s))" by (simp add: is_space_def)
  then show False using last_strip [of s] ne by (simp add: upper_def)
qed

lemma canonical_ticker_chars:
  assumes "canonical_ticker py raw = Inr c"
  shows "c \<noteq> []" and "d \<in> set c \<Longrightarrow> d \<in> set ticker_tail" and "ticker_re c"
proof -
  have c: "c = upper (strip raw)" and re: "ticker_re c"
    using assms by (auto simp: canonical_ticker_def Let_def split: if_splits)
  then show ne: "c \<noteq> []" by (auto simp: ticker_re_def)
  have "last c \<noteq> CHR 0x0A" using last_upper_strip [of raw] c ne by simp
  then have "hd c \<in> set ticker_head \<and> (\<forall>d \<in> set (tl c). d \<in> set ticker_tail)"
    using re ne by (cases c) (auto simp: ticker_re_def list_all_iff)
  then show "d \<in> set c \<Longrightarrow> d \<in> set ticker_tail" using ticker_head_tail ne by (cases c) auto
  show "ticker_re c" by (rule re)
qed

text \<open>
  Canonicalising is idempotent: a ticker the merger stored is stored unchanged when it comes
  back, whatever case and blanks it arrived with first.
\<close>

theorem canonical_ticker_idempotent:
  assumes "canonical_ticker py raw = Inr c"
  shows "canonical_ticker py c = Inr c"
proof -
  have "d \<in> set c \<Longrightarrow> upper_char d = d" "d \<in> set c \<Longrightarrow> \<not> is_space d" for d
    using canonical_ticker_chars(2) [OF assms] upper_char_tail by blast+
  then have "upper (strip c) = c" by (simp add: upper_id strip_id)
  then show ?thesis using canonical_ticker_chars(3) [OF assms] by (simp add: canonical_ticker_def)
qed

theorem canonical_ticker_idempotent_witness:
  "canonical_ticker py_ascii ''BRK.B'' = Inr ''BRK.B''"
proof (rule canonical_ticker_idempotent)
  show "canonical_ticker py_ascii '' brk.b '' = Inr ''BRK.B''"
    by code_simp
qed

section \<open>Where a refused advice is written\<close>

lemma dir_entry_join: "\<not> starts_with ''/'' name \<Longrightarrow> dir_entry dir (path_join dir name) \<longleftrightarrow> CHR ''/'' \<notin> set name"
  by (simp add: dir_entry_def path_join_def starts_with_def)

lemma dir_entry_absolute: "starts_with ''/'' name \<Longrightarrow> dir_entry dir name \<Longrightarrow> starts_with (dir @ ''/'') name"
  by (simp add: dir_entry_def)

lemma not_in_suffix:
  assumes "\<not> length dir + 1 \<le> length i" and "CHR ''/'' \<notin> set suf"
  shows "\<not> starts_with (dir @ ''/'') (i @ suf)"
proof
  assume "starts_with (dir @ ''/'') (i @ suf)"
  then obtain t where t: "i @ suf = (dir @ ''/'') @ t" by (auto simp: starts_with_iff)
  then have "(i @ suf) ! length dir = CHR ''/''" by (simp add: nth_append)
  moreover have "length dir < length (i @ suf)" using arg_cong [OF t, of length] by simp
  ultimately have "CHR ''/'' \<in> set suf"
    using assms(1) nth_mem [of "length dir - length i" suf] by (simp add: nth_append)
  then show False using assms(2) by blast
qed

text \<open>
  A refused advice with a text id is written as an entry of the quarantine directory exactly
  if the id has no slash or is itself such an entry's absolute path: the id is taken from the
  unvalidated payload, and one with slashes chooses another place in the file system.
\<close>

theorem quarantine_stays_in_directory_iff:
  assumes "map_of payload ''id'' = Some (JStr i)" and "i \<noteq> []"
    and "quarantine py True (\<lambda>p. True) payload why files = (Inr (Some path), files')"
  shows "dir_entry QUARANTINE_DIR path \<longleftrightarrow> CHR ''/'' \<notin> set i \<or> dir_entry QUARANTINE_DIR i"
    and "map_of files' path = Some \<lparr>qb_reason = why, qb_payload = payload\<rparr>"
proof -
  have name: "quarantine_name py files payload = i"
    using assms(1,2) by (simp add: quarantine_name_def dget_def to_str_def)
  then have path: "path = path_join QUARANTINE_DIR (i @ ''.json'')"
    using assms(3) by (auto simp: quarantine_def quarantine_target_def Let_def)
  show "dir_entry QUARANTINE_DIR path \<longleftrightarrow> CHR ''/'' \<notin> set i \<or> dir_entry QUARANTINE_DIR i"
  proof (cases "starts_with ''/'' (i @ ''.json'')")
    case False
    then have "\<not> dir_entry QUARANTINE_DIR i"
      by (cases i) (auto simp: dir_entry_def starts_with_def QUARANTINE_DIR_def)
    then show ?thesis using dir_entry_join [OF False, of QUARANTINE_DIR] path by simp
  next
    case True
    then have slash: "CHR ''/'' \<in> set i" using assms(2) by (cases i) (auto simp: starts_with_def)
    have "path = i @ ''.json''" using path True by (simp add: path_join_def)
    moreover have "dir_entry QUARANTINE_DIR (i @ ''.json'') \<longleftrightarrow> dir_entry QUARANTINE_DIR i"
    proof (cases "length QUARANTINE_DIR + 1 \<le> length i")
      case True
      then show ?thesis by (auto simp: dir_entry_def starts_with_def)
    next
      case False
      then have "\<not> starts_with (QUARANTINE_DIR @ ''/'') (i @ ''.json'')" by (rule not_in_suffix) simp
      moreover have "\<not> starts_with (QUARANTINE_DIR @ ''/'') i" using False by (auto simp: starts_with_iff)
      ultimately show ?thesis by (simp add: dir_entry_def)
    qed
    ultimately show ?thesis using slash by simp
  qed
  show "map_of files' path = Some \<lparr>qb_reason = why, qb_payload = payload\<rparr>"
    using assms(3) by (auto simp: quarantine_def Let_def)
qed

text \<open>An id that climbs out of the directory.\<close>

theorem quarantine_stays_in_directory_iff_witness:
  "\<exists>path files'. quarantine py_ascii True (\<lambda>p. True) [(''id'', JStr ''../ledger'')] ''bad'' [] = (Inr (Some path), files')
     \<and> \<not> dir_entry QUARANTINE_DIR path"
proof -
  let ?p = "[(''id'', JStr ''../ledger'')]"
  obtain path files' where q: "quarantine py_ascii True (\<lambda>p. True) ?p ''bad'' [] = (Inr (Some path), files')"
    by (simp add: quarantine_def Let_def)
  have "map_of ?p ''id'' = Some (JStr ''../ledger'')" "''../ledger'' \<noteq> ''''" by simp_all
  from quarantine_stays_in_directory_iff(1) [OF this q] have "\<not> dir_entry QUARANTINE_DIR path"
    by (simp add: dir_entry_def starts_with_def QUARANTINE_DIR_def)
  with q show ?thesis by blast
qed

section \<open>What merging does\<close>

lemma send_alert_Inr:
  "send_alert env a r m = (Inr r', m') \<Longrightarrow> r' = r \<and> m' = m\<lparr>mg_alerts := mg_alerts m @ [a]\<rparr>"
  by (auto simp: send_alert_def split: sum.splits)

lemma refused_effect:
  assumes "merge_limited env agent payload m = (Inr r, m') \<or> merge_invalid env agent payload why m = (Inr r, m')
    \<or> merge_unnormal env agent payload why m = (Inr r, m')"
  shows "mr_accepted r = 0 \<and> mr_quarantined r + mr_rate_limited r = 1 \<and> mg_ledger m' = mg_ledger m
    \<and> length (mg_alerts m') = Suc (length (mg_alerts m)) \<and> (mr_quarantined r = 0 \<longrightarrow> mg_files m' = mg_files m)"
  using assms by (auto simp: merge_limited_def merge_invalid_def merge_unnormal_def MergeResult_def
      dest!: send_alert_Inr split: sum.splits prod.splits)

lemma normalized_asset_Inr:
  assumes "normalized_asset py payload = Inr a"
  shows "\<exists>d c. a = JObj d \<and> map_of d ''ticker'' = Some (JStr c) \<and> ticker_re c"
proof -
  obtain j where j: "jitem (JObj payload) ''asset'' = Inr j" using assms by (auto simp: normalized_asset_def res_bind_Inr_iff)
  then obtain d where d: "j = JObj d" using assms by (cases j) (auto simp: normalized_asset_def)
  obtain t where t: "jitem (JObj d) ''ticker'' = Inr t" using assms j d by (auto simp: normalized_asset_def res_bind_Inr_iff)
  then obtain raw where "t = JStr raw" using assms j d by (cases t) (auto simp: normalized_asset_def)
  then obtain c where c: "canonical_ticker py raw = Inr c" "a = JObj (AList.update ''ticker'' (JStr c) d)"
    using assms j d t by (auto simp: normalized_asset_def res_bind_Inr_iff)
  then show ?thesis using canonical_ticker_chars(3) [OF c(1)] by simp
qed

lemma merge_Inr_cases:
  assumes "merge env now payload m = (Inr r, m')"
  obtains (accepted) a where "r = MergeResult\<lparr>mr_accepted := 1\<rparr>" "me_validate env payload = Inr ()"
      "normalized_asset (me_py env) payload = Inr a" "mg_ledger m' = mg_ledger m @ [AList.update ''asset'' a payload]"
      "mg_alerts m' = mg_alerts m" "mg_files m' = mg_files m"
    | (refused) "mr_accepted r = 0" "mr_quarantined r + mr_rate_limited r = 1" "mg_ledger m' = mg_ledger m"
      "length (mg_alerts m') = Suc (length (mg_alerts m))" "mr_quarantined r = 0 \<longrightarrow> mg_files m' = mg_files m"
proof -
  let ?agent = "jget_or (JObj payload) ''agent'' (JStr ''<unknown>'')"
  obtain k where k: "agent_key ?agent = Inr k" using assms by (auto simp: merge_def Let_def split: sum.splits)
  obtain ok l where a: "al_allow (mg_limit m) k now = (ok, l)" by force
  let ?m1 = "m\<lparr>mg_limit := l\<rparr>"
  show thesis
  proof (cases ok)
    case False
    then have "merge_limited env ?agent payload ?m1 = (Inr r, m')" using assms k a by (simp add: merge_def)
    then show thesis using refused_effect [of env ?agent payload ?m1 r m' "[]"] that(2) by simp
  next
    case ok: True
    show thesis
    proof (cases "me_validate env payload")
      case (Inl why)
      then have "merge_invalid env ?agent payload why ?m1 = (Inr r, m')" using assms k a ok by (simp add: merge_def)
      then show thesis using refused_effect [of env ?agent payload ?m1 r m' why] that(2) by simp
    next
      case v: (Inr u)
      show thesis
      proof (cases "normalized_asset (me_py env) payload")
        case (Inl e)
        then obtain why where "merge_unnormal env ?agent payload why ?m1 = (Inr r, m')"
          using assms k a ok v by (auto simp: merge_def Let_def split: option.splits)
        then show thesis using refused_effect [of env ?agent payload ?m1 r m' why] that(2) by simp
      next
        case (Inr asset)
        then show thesis using assms k a ok v that(1) by (auto simp: merge_def Let_def split: sum.splits)
      qed
    qed
  qed
qed

text \<open>
  Every advice that merging does not fail on is accounted for exactly once: it is accepted
  and handed to the ledger, validated and with a canonical ticker, with no alert; or it is refused, with
  exactly one alert and nothing handed to the ledger.
\<close>

theorem merge_accounts_for_every_advice:
  assumes "merge env now payload m = (Inr r, m')"
  shows "(r = MergeResult\<lparr>mr_accepted := 1\<rparr> \<and> me_validate env payload = Inr () \<and> mg_alerts m' = mg_alerts m
      \<and> (\<exists>d c. mg_ledger m' = mg_ledger m @ [AList.update ''asset'' (JObj d) payload]
             \<and> map_of d ''ticker'' = Some (JStr c) \<and> ticker_re c))
    \<or> (mr_accepted r = 0 \<and> mr_quarantined r + mr_rate_limited r = 1
      \<and> mg_ledger m' = mg_ledger m \<and> length (mg_alerts m') = Suc (length (mg_alerts m)))"
  using assms
proof (cases rule: merge_Inr_cases)
  case (accepted a)
  then show ?thesis using normalized_asset_Inr [OF accepted(3)] by auto
qed simp

text \<open>A lower-case ticker accepted, and a payload with no asset refused.\<close>

definition sample_env :: merger_env where
  "sample_env = \<lparr>me_py = py_ascii, me_validate = (\<lambda>p. Inr ()), me_dir_ok = True, me_writable = (\<lambda>p. True),
     me_append = (\<lambda>l p. Inr ()), me_alert = (\<lambda>a. Inr ())\<rparr>"

definition sample_merger :: merger where
  "sample_merger = \<lparr>mg_limit = new_agent_limit 10, mg_files = [], mg_alerts = [], mg_ledger = []\<rparr>"

theorem merge_accounts_for_every_advice_witness:
  "\<exists>m'. merge sample_env 0 [(''agent'', JStr ''quant''), (''asset'', JObj [(''ticker'', JStr ''spy'')])] sample_merger
       = (Inr (MergeResult\<lparr>mr_accepted := 1\<rparr>), m') \<and> length (mg_ledger m') = 1"
proof -
  let ?p = "[(''agent'', JStr ''quant''), (''asset'', JObj [(''ticker'', JStr ''spy'')])]"
  have "canonical_ticker py_ascii ''spy'' = Inr ''SPY''" by code_simp
  then obtain m' where m': "merge sample_env 0 ?p sample_merger = (Inr (MergeResult\<lparr>mr_accepted := 1\<rparr>), m')"
    by (simp add: merge_def Let_def jget_or_def al_allow_def new_agent_limit_def sample_merger_def sample_env_def normalized_asset_def jitem_def)
  from merge_accounts_for_every_advice [OF this] show ?thesis
    using m' by (auto simp: MergeResult_def sample_merger_def)
qed

end
