(* ===== verification/Backtest.thy ===== *)
theory Backtest
  imports Schema "HOL-Library.Multiset"
begin

text \<open>
  The virtual book of the backtest agent (\<^verbatim>\<open>apps/agent_backtest/backtest/\<close>): the slippage model, opening
  a position from an advice, exit detection and realised P&L, the pricer, and the mark-to-market
  tick that closes positions. The store is the in-memory one; its positions are shared objects, so
  a tick writes a position it has marked back at once. The clock is an argument; \<open>on_close\<close> is a
  callback on a world of its own that may raise.
\<close>

section \<open>Positions\<close>

datatype position_state = Open | Closed
datatype exit_reason = Target | Stop | Expiry | EarlyClose

record position =
  ps_advice_id :: string
  ps_agent :: string
  ps_ticker :: string
  ps_venue :: string
  ps_direction :: direction
  ps_entry_band :: "rat \<times> rat"
  ps_target_band :: "rat \<times> rat"
  ps_stop_loss :: rat
  ps_expires_at :: seconds
  ps_opened_at :: seconds
  ps_fill_px :: rat
  ps_state :: position_state
  ps_closed_at :: "seconds option"
  ps_exit_px :: "rat option"
  ps_exit_reason :: "exit_reason option"
  ps_pnl_usd :: rat
  ps_pnl_r :: rat
  ps_max_drawdown_pct :: rat
  ps_marks :: "(seconds \<times> rat) list"

record mark =
  mk_ticker :: string
  mk_asof :: seconds
  mk_price :: rat

section \<open>Slippage\<close>

definition LIQUID_VENUES :: "string list" where
  "LIQUID_VENUES = [''NASDAQ'', ''NYSE'', ''HKEX'', ''SSE'', ''SZSE'']"

definition BASE_LIQUID_BPS :: rat where "BASE_LIQUID_BPS = 5"
definition BASE_OTHER_BPS :: rat where "BASE_OTHER_BPS = 15"
definition SIZE_FACTOR_BPS :: rat where "SIZE_FACTOR_BPS = 5"
definition SIZE_THRESHOLD_PCT :: rat where "SIZE_THRESHOLD_PCT = 0.005"

definition slippage_bps :: "string \<Rightarrow> rat \<Rightarrow> rat \<Rightarrow> rat \<Rightarrow> rat" where
  "slippage_bps venue size_usd median_dollar_volume_5d realized_vol_20d_pct =
     (let base = (if venue \<in> set LIQUID_VENUES then BASE_LIQUID_BPS else BASE_OTHER_BPS);
          size_factor = (if median_dollar_volume_5d > 0 \<and> size_usd > SIZE_THRESHOLD_PCT * median_dollar_volume_5d
                         then SIZE_FACTOR_BPS else 0);
          vol_factor = 0.05 * realized_vol_20d_pct
      in base + size_factor + vol_factor)"

definition fill_price :: "rat \<times> rat \<Rightarrow> direction \<Rightarrow> string \<Rightarrow> rat \<Rightarrow> rat \<Rightarrow> rat \<Rightarrow> rat" where
  "fill_price entry_band dir venue size_usd median_dollar_volume_5d realized_vol_20d_pct =
     (let mid = (fst entry_band + snd entry_band) / 2;
          sgn = (if dir = Long then 1 else -1);
          bps = slippage_bps venue size_usd median_dollar_volume_5d realized_vol_20d_pct
      in mid * (1 + sgn * bps / 10000))"

section \<open>The store and opening a position\<close>

type_synonym store = "(string, position) dict"

definition upsert :: "position \<Rightarrow> store \<Rightarrow> bool \<times> store" where
  "upsert p s = (ps_advice_id p \<notin> set (keys s), AList.update (ps_advice_id p) p s)"

definition store_get :: "string \<Rightarrow> store \<Rightarrow> position option" where
  "store_get i s = map_of s i"

definition open_positions :: "store \<Rightarrow> position list" where
  "open_positions s = filter (\<lambda>p. ps_state p = Open) (vals s)"

definition closed_positions :: "store \<Rightarrow> position list" where
  "closed_positions s = filter (\<lambda>p. ps_state p = Closed) (vals s)"

definition new_position :: "advice_v1 \<Rightarrow> rat \<Rightarrow> rat \<Rightarrow> seconds \<Rightarrow> position" where
  "new_position a median_dollar_volume_5d realized_vol_20d_pct now =
     \<lparr>ps_advice_id = av_id a, ps_agent = av_agent a, ps_ticker = as_ticker (av_asset a), ps_venue = as_venue (av_asset a),
      ps_direction = av_direction a, ps_entry_band = av_entry_band a, ps_target_band = av_target_band a,
      ps_stop_loss = av_stop_loss a, ps_expires_at = av_expires_at a, ps_opened_at = now,
      ps_fill_px = fill_price (av_entry_band a) (av_direction a) (as_venue (av_asset a))
         (av_sizing_hint_pct_nav a * 1000000 / 100) median_dollar_volume_5d realized_vol_20d_pct,
      ps_state = Open, ps_closed_at = None, ps_exit_px = None, ps_exit_reason = None,
      ps_pnl_usd = 0, ps_pnl_r = 0, ps_max_drawdown_pct = 0, ps_marks = []\<rparr>"

definition open_position :: "advice_v1 \<Rightarrow> rat \<Rightarrow> rat \<Rightarrow> seconds \<Rightarrow> store \<Rightarrow> (string + position) \<times> store" where
  "open_position a median_dollar_volume_5d realized_vol_20d_pct now s =
     (case store_get (av_id a) s of
        Some p \<Rightarrow> (Inr p, s)
      | None \<Rightarrow>
          if av_direction a = Flat then (Inl ''backtester does not open positions for direction=flat'', s)
          else let p = new_position a median_dollar_volume_5d realized_vol_20d_pct now in (Inr p, snd (upsert p s)))"

section \<open>Exits\<close>

definition check_exit :: "position \<Rightarrow> rat \<Rightarrow> seconds \<Rightarrow> bool \<times> exit_reason option \<times> rat" where
  "check_exit p mark_px asof =
     (if ps_state p \<noteq> Open
      then (False, None, case ps_exit_px p of None \<Rightarrow> ps_fill_px p | Some x \<Rightarrow> if x = 0 then ps_fill_px p else x)
      else let (target_low, target_high) = ps_target_band p in
        if ps_direction p = Long \<and> mark_px \<ge> target_low then (True, Some Target, target_low)
        else if ps_direction p = Long \<and> mark_px \<le> ps_stop_loss p then (True, Some Stop, ps_stop_loss p)
        else if ps_direction p \<noteq> Long \<and> mark_px \<le> target_high then (True, Some Target, target_high)
        else if ps_direction p \<noteq> Long \<and> mark_px \<ge> ps_stop_loss p then (True, Some Stop, ps_stop_loss p)
        else if asof \<ge> ps_expires_at p then (True, Some Expiry, mark_px)
        else (False, None, mark_px))"

definition realize_pnl :: "position \<Rightarrow> rat \<Rightarrow> rat \<times> rat" where
  "realize_pnl p exit_px =
     (let sgn = (if ps_direction p = Long then 1 else -1);
          px_pnl = sgn * (exit_px - ps_fill_px p);
          risk_unit = (let d = \<bar>ps_fill_px p - ps_stop_loss p\<bar> in if d = 0 then 1 else d)
      in (px_pnl, px_pnl / risk_unit))"

section \<open>The pricer\<close>

type_synonym pricer = "(string, mark list) dict"

definition new_pricer :: "(string, mark list) dict \<Rightarrow> pricer" where
  "new_pricer d = map (\<lambda>(k, v). (k, sort_key mk_asof v)) d"

definition pricer_set :: "string \<Rightarrow> seconds \<Rightarrow> rat \<Rightarrow> pricer \<Rightarrow> pricer" where
  "pricer_set ticker asof price pr =
     (let old = (case map_of pr ticker of None \<Rightarrow> [] | Some ms \<Rightarrow> ms)
      in AList.update ticker (sort_key mk_asof (old @ [\<lparr>mk_ticker = ticker, mk_asof = asof, mk_price = price\<rparr>])) pr)"

definition latest :: "pricer \<Rightarrow> string \<Rightarrow> seconds \<Rightarrow> mark option" where
  "latest pr ticker asof =
     (let marks = filter (\<lambda>m. mk_asof m \<le> asof) (case map_of pr ticker of None \<Rightarrow> [] | Some ms \<Rightarrow> ms)
      in if marks = [] then None else Some (last marks))"

section \<open>The mark-to-market tick\<close>

definition close_at :: "position \<Rightarrow> seconds \<Rightarrow> exit_reason option \<Rightarrow> rat \<Rightarrow> position" where
  "close_at p asof reason exit_px =
     p\<lparr>ps_state := Closed, ps_closed_at := Some asof, ps_exit_px := Some exit_px, ps_exit_reason := reason,
       ps_pnl_usd := fst (realize_pnl p exit_px), ps_pnl_r := snd (realize_pnl p exit_px)\<rparr>"

fun tick_loop :: "(string \<Rightarrow> rat option) \<Rightarrow> seconds \<Rightarrow> (position \<Rightarrow> 'w \<Rightarrow> (string + unit) \<times> 'w) option
    \<Rightarrow> position list \<Rightarrow> nat \<Rightarrow> store \<Rightarrow> 'w \<Rightarrow> (string + nat) \<times> store \<times> 'w" where
  "tick_loop px_by_ticker asof on_close [] n s w = (Inr n, s, w)"
| "tick_loop px_by_ticker asof on_close (p # ps) n s w =
     (case px_by_ticker (ps_ticker p) of
        None \<Rightarrow> tick_loop px_by_ticker asof on_close ps n s w
      | Some px \<Rightarrow>
          (let marked = p\<lparr>ps_marks := ps_marks p @ [(asof, px)]\<rparr>;
               s1 = AList.update (ps_advice_id p) marked s;
               (exited, reason, exit_px) = check_exit marked px asof in
           if \<not> exited then tick_loop px_by_ticker asof on_close ps n s1 w
           else let q = close_at marked asof reason exit_px; s2 = snd (upsert q s1) in
             case on_close of
               None \<Rightarrow> tick_loop px_by_ticker asof on_close ps (n + 1) s2 w
             | Some f \<Rightarrow>
                 (case f q w of
                    (Inl e, w1) \<Rightarrow> (Inl e, s2, w1)
                  | (Inr _, w1) \<Rightarrow> tick_loop px_by_ticker asof on_close ps (n + 1) s2 w1)))"

definition tick :: "(string \<Rightarrow> seconds \<Rightarrow> mark option) \<Rightarrow> seconds \<Rightarrow> (position \<Rightarrow> 'w \<Rightarrow> (string + unit) \<times> 'w) option
    \<Rightarrow> store \<Rightarrow> 'w \<Rightarrow> (string + nat) \<times> store \<times> 'w" where
  "tick price asof on_close s w =
     tick_loop (\<lambda>t. map_option mk_price (price t asof)) asof on_close (open_positions s) 0 s w"

section \<open>What a tick does to the store\<close>

text \<open>What a position a tick sees at price \<open>px\<close> becomes.\<close>

definition after_tick :: "seconds \<Rightarrow> rat \<Rightarrow> position \<Rightarrow> position" where
  "after_tick asof px p =
     (let marked = p\<lparr>ps_marks := ps_marks p @ [(asof, px)]\<rparr> in
      case check_exit marked px asof of
        (True, reason, exit_px) \<Rightarrow> close_at marked asof reason exit_px
      | (False, _) \<Rightarrow> marked)"

lemma after_tick_id [simp]: "ps_advice_id (after_tick asof px p) = ps_advice_id p"
  by (simp add: after_tick_def close_at_def Let_def split: prod.splits bool.splits)

lemma update_twice: "AList.update k v (AList.update k u d) = AList.update k v d"
  by (induction d) auto

text \<open>One step of the loop, whichever callback there is.\<close>

lemma tick_loop_step:
  assumes "px_by_ticker (ps_ticker p) = Some px"
  shows "\<exists>n' w'. tick_loop px_by_ticker asof on_close (p # ps) n s w
        = tick_loop px_by_ticker asof on_close ps n' (AList.update (ps_advice_id p) (after_tick asof px p) s) w'
      \<or> (\<exists>e. tick_loop px_by_ticker asof on_close (p # ps) n s w
        = (Inl e, AList.update (ps_advice_id p) (after_tick asof px p) s, w'))"
  using assms
  by (auto simp: after_tick_def Let_def upsert_def close_at_def update_twice split: prod.splits option.splits sum.splits bool.splits)

lemma tick_loop_other:
  "i \<notin> ps_advice_id ` set ps \<Longrightarrow> map_of (fst (snd (tick_loop px asof on_close ps n s w))) i = map_of s i"
proof (induction ps arbitrary: n s w)
  case (Cons p ps)
  show ?case
  proof (cases "px (ps_ticker p)")
    case None
    then show ?thesis using Cons by simp
  next
    case (Some x)
    from tick_loop_step [where px_by_ticker = px and p = p and px = x and asof = asof and on_close = on_close and ps = ps and n = n and s = s and w = w, OF Some] obtain n' w' where
      "fst (snd (tick_loop px asof on_close (p # ps) n s w))
         = fst (snd (tick_loop px asof on_close ps n' (AList.update (ps_advice_id p) (after_tick asof x p) s) w'))
       \<or> fst (snd (tick_loop px asof on_close (p # ps) n s w)) = AList.update (ps_advice_id p) (after_tick asof x p) s"
      by (metis fst_conv snd_conv)
    then show ?thesis using Cons by auto
  qed
qed simp

text \<open>Positions are stored under their own ids; what is closed carries its exit.\<close>

definition pos_ok :: "position \<Rightarrow> bool" where
  "pos_ok p \<longleftrightarrow> ps_direction p \<noteq> Flat \<and>
     (case ps_state p of
        Open \<Rightarrow> ps_closed_at p = None \<and> ps_exit_px p = None \<and> ps_exit_reason p = None \<and> ps_pnl_usd p = 0 \<and> ps_pnl_r p = 0
      | Closed \<Rightarrow> (\<exists>x r t. ps_exit_px p = Some x \<and> ps_exit_reason p = Some r \<and> ps_closed_at p = Some t
                     \<and> (ps_pnl_usd p, ps_pnl_r p) = realize_pnl p x))
     \<and> ps_max_drawdown_pct p = 0"

definition store_ok :: "store \<Rightarrow> bool" where
  "store_ok s \<longleftrightarrow> distinct (keys s) \<and> (\<forall>i p. map_of s i = Some p \<longrightarrow> ps_advice_id p = i \<and> pos_ok p)"

lemma check_exit_reason: "check_exit p px asof = (True, reason, x) \<Longrightarrow> reason \<noteq> None"
  by (auto simp: check_exit_def split: if_splits prod.splits)

lemma realize_pnl_marks [simp]: "realize_pnl (p\<lparr>ps_marks := ms\<rparr>) x = realize_pnl p x"
  by (simp add: realize_pnl_def)

lemma realize_close [simp]: "realize_pnl (close_at p t r x) y = realize_pnl p y"
  by (simp add: realize_pnl_def close_at_def)

lemma pos_ok_after_tick: "pos_ok p \<Longrightarrow> ps_state p = Open \<Longrightarrow> pos_ok (after_tick asof px p)"
  using check_exit_reason [of "p\<lparr>ps_marks := ps_marks p @ [(asof, px)]\<rparr>" px asof]
  by (auto simp: after_tick_def Let_def pos_ok_def split: prod.splits bool.splits) (auto simp: close_at_def realize_pnl_def)

lemma store_ok_update: "store_ok s \<Longrightarrow> pos_ok q \<Longrightarrow> store_ok (AList.update (ps_advice_id q) q s)"
  by (auto simp: store_ok_def intro: distinct_keys_update)

lemma tick_loop_ok:
  "store_ok s \<Longrightarrow> (\<And>p. p \<in> set ps \<Longrightarrow> pos_ok p \<and> ps_state p = Open)
     \<Longrightarrow> store_ok (fst (snd (tick_loop px asof on_close ps n s w)))"
proof (induction ps arbitrary: n s w)
  case (Cons p ps)
  show ?case
  proof (cases "px (ps_ticker p)")
    case None
    then show ?thesis using Cons by simp
  next
    case (Some x)
    have "store_ok (AList.update (ps_advice_id p) (after_tick asof x p) s)"
      using store_ok_update [OF Cons.prems(1) pos_ok_after_tick [of p asof x]] Cons.prems(2) [of p] by simp
    with tick_loop_step [where px_by_ticker = px and p = p and px = x and asof = asof and on_close = on_close and ps = ps and n = n and s = s and w = w, OF Some] show ?thesis
      using Cons by (auto simp del: tick_loop.simps)
  qed
qed simp

lemma open_in_store: "store_ok s \<Longrightarrow> p \<in> set (open_positions s) \<Longrightarrow> map_of s (ps_advice_id p) = Some p \<and> pos_ok p \<and> ps_state p = Open"
  by (auto simp: open_positions_def store_ok_def)

lemma tick_ok [inv_intros]: "store_ok s \<Longrightarrow> store_ok (fst (snd (tick price asof on_close s w)))"
  unfolding tick_def using open_in_store by (intro tick_loop_ok) blast+

lemma open_position_ok [inv_intros]: "store_ok s \<Longrightarrow> store_ok (snd (open_position a mdv rv now s))"
  using store_ok_update [of s "new_position a mdv rv now"]
  by (auto simp: open_position_def Let_def upsert_def new_position_def pos_ok_def split: option.splits)

section \<open>The book as a state machine\<close>

text \<open>The book opens positions from valid advice and ticks against any prices, callbacks included.\<close>

inductive book_step :: "(string \<Rightarrow> bool) \<Rightarrow> store \<Rightarrow> store \<Rightarrow> bool" for ulid_ok where
  opens: "advice_valid ulid_ok a \<Longrightarrow> book_step ulid_ok s (snd (open_position a mdv rv now s))"
| ticks: "book_step ulid_ok s (fst (snd (tick price asof (on_close :: (position \<Rightarrow> unit \<Rightarrow> (string + unit) \<times> unit) option) s ())))"

lemma book_ok: "book_step ulid_ok s s' \<Longrightarrow> store_ok s \<Longrightarrow> store_ok s'"
  by (induction rule: book_step.induct) (rule inv_intros, assumption)+

lemma book_final:
  assumes "book_step ulid_ok s s'" and "store_ok s" and "map_of s i = Some p" and "ps_state p = Closed"
  shows "map_of s' i = Some p"
  using assms
proof (induction rule: book_step.induct)
  case (opens a s mdv rv now)
  then show ?case by (auto simp: open_position_def store_get_def upsert_def new_position_def Let_def split: option.splits)
next
  case (ticks s price asof on_close)
  have "i \<notin> ps_advice_id ` set (open_positions s)"
    using open_in_store [OF ticks(1)] ticks(2,3) by force
  then show ?case using ticks(2) by (simp add: tick_def tick_loop_other)
qed

text \<open>
  C36: Once a position is closed nothing that happens to the book afterwards - more ticks at any
  prices, replays of the advice, callbacks that raise - changes its exit or its realised P&L, which
  is the P&L of the exit price it records.
\<close>

theorem closed_positions_final:
  assumes "(book_step ulid_ok)\<^sup>*\<^sup>* [] s" and "(book_step ulid_ok)\<^sup>*\<^sup>* s s'"
    and "map_of s i = Some p" and "ps_state p = Closed"
  shows "map_of s' i = Some p \<and> (\<exists>x. ps_exit_px p = Some x \<and> (ps_pnl_usd p, ps_pnl_r p) = realize_pnl p x)"
proof -
  have "store_ok []" by (simp add: store_ok_def)
  with assms(1) have ok: "store_ok s" by (induction rule: rtranclp_induct) (use book_ok in blast)+
  have "store_ok s' \<and> map_of s' i = Some p"
    using assms(2) by (induction rule: rtranclp_induct) (use ok assms(3,4) book_ok book_final in blast)+
  moreover have "pos_ok p" using ok assms(3) by (auto simp: store_ok_def)
  ultimately show ?thesis using assms(4) by (auto simp: pos_ok_def)
qed

text \<open>A replay returns the stored position and leaves the book alone, whatever became of it.\<close>

lemma open_position_replay:
  "open_position a mdv rv now s = (Inr p, s') \<Longrightarrow> open_position a mdv' rv' now' s' = (Inr p, s')"
  by (auto simp: open_position_def store_get_def upsert_def new_position_def Let_def split: option.splits if_splits)

section \<open>A stop costs one unit of risk\<close>

lemma slippage_nonneg: "0 \<le> rv \<Longrightarrow> 0 \<le> slippage_bps venue sz mdv rv"
  by (simp add: slippage_bps_def Let_def BASE_LIQUID_BPS_def BASE_OTHER_BPS_def SIZE_FACTOR_BPS_def)

lemma fill_side:
  assumes "0 \<le> fst b" and "fst b \<le> snd b" and "0 \<le> rv"
  shows "d = Long \<Longrightarrow> fst b \<le> fill_price b d venue sz mdv rv"
    and "d \<noteq> Long \<Longrightarrow> fill_price b d venue sz mdv rv \<le> snd b"
proof -
  let ?m = "(fst b + snd b) / 2" and ?s = "slippage_bps venue sz mdv rv"
  have m: "0 \<le> ?m" "fst b \<le> ?m" "?m \<le> snd b" using assms by simp_all
  have s: "0 \<le> ?s / 10000" using slippage_nonneg [OF assms(3)] by simp
  have "0 \<le> ?m * (?s / 10000)" using m(1) s by (rule mult_nonneg_nonneg)
  then have "?m \<le> ?m * (1 + ?s / 10000)" "?m * (1 - ?s / 10000) \<le> ?m" by (simp_all add: algebra_simps)
  then show "d = Long \<Longrightarrow> fst b \<le> fill_price b d venue sz mdv rv"
    and "d \<noteq> Long \<Longrightarrow> fill_price b d venue sz mdv rv \<le> snd b"
    using m unfolding fill_price_def Let_def by (simp_all del: distrib_left_numeral)
qed

text \<open>
  A position opened from a valid advice that is stopped out loses exactly one unit of risk,
  at whatever price the mark gapped through the stop: the exit is booked at the stop, not at the
  market.
\<close>

theorem stopped_out_loses_one_r:
  assumes "advice_valid ulid_ok a" and "0 \<le> fst (av_entry_band a)" and "0 \<le> rv"
    and "open_position a mdv rv now s = (Inr p, s')" and "av_id a \<notin> set (keys s)"
    and "check_exit p px asof = (True, Some Stop, x)"
  shows "snd (realize_pnl p x) = -1 \<and> x = av_stop_loss a"
proof -
  have p: "p = new_position a mdv rv now" and flat: "av_direction a \<noteq> Flat"
    using assms(4,5) by (auto simp: open_position_def store_get_def Let_def map_of_eq_None_iff split: option.splits if_splits)
      (metis map_of_eq_None_iff option.simps(3) list.set_map)+
  obtain lo hi tlo thi where b: "av_entry_band a = (lo, hi)" "av_target_band a = (tlo, thi)" by force
  have x: "x = av_stop_loss a"
    using assms(6) by (auto simp: p new_position_def check_exit_def split: if_splits prod.splits)
  have v: "lo \<le> hi" "direction_consistency a" using assms(1) b by (simp_all add: advice_valid_def band_ascending_def)
  let ?f = "fill_price (lo, hi) (av_direction a) (as_venue (av_asset a)) (av_sizing_hint_pct_nav a * 1000000 / 100) mdv rv"
  show ?thesis
  proof (cases "av_direction a")
    case Long
    then have "av_stop_loss a < lo" using v b by (simp add: direction_consistency_def)
    moreover have "lo \<le> ?f" using v(1) fill_side(1) [of "(lo, hi)" rv "av_direction a"] assms(2,3) b Long by simp
    ultimately have "av_stop_loss a < ?f" by linarith
    then show ?thesis using x Long b by (simp add: p new_position_def realize_pnl_def Let_def divide_simps)
  next
    case Short
    then have "hi < av_stop_loss a" using v b by (simp add: direction_consistency_def)
    moreover have "?f \<le> hi" using v(1) fill_side(2) [of "(lo, hi)" rv "av_direction a"] assms(2,3) b Short by simp
    ultimately have "?f < av_stop_loss a" by linarith
    then show ?thesis using x Short b by (simp add: p new_position_def realize_pnl_def Let_def divide_simps)
  qed (use flat in simp)
qed

section \<open>Every exit a tick sees is taken\<close>

definition exits_at :: "(string \<Rightarrow> rat option) \<Rightarrow> seconds \<Rightarrow> position \<Rightarrow> bool" where
  "exits_at px asof p = (case px (ps_ticker p) of None \<Rightarrow> False | Some x \<Rightarrow> fst (check_exit p x asof))"

definition ticked :: "(string \<Rightarrow> rat option) \<Rightarrow> seconds \<Rightarrow> position \<Rightarrow> position" where
  "ticked px asof p = (case px (ps_ticker p) of None \<Rightarrow> p | Some x \<Rightarrow> after_tick asof x p)"

lemma check_exit_marks [simp]: "check_exit (p\<lparr>ps_marks := ms\<rparr>) x asof = check_exit p x asof"
  by (simp add: check_exit_def cong: if_cong option.case_cong prod.case_cong)

lemma tick_loop_step_Inr:
  assumes "px (ps_ticker p) = Some x" and "tick_loop px asof on_close (p # ps) n s w = (Inr c, s', w')"
  shows "\<exists>w1. tick_loop px asof on_close ps (n + (if fst (check_exit p x asof) then 1 else 0))
      (AList.update (ps_advice_id p) (after_tick asof x p) s) w1 = (Inr c, s', w')"
  using assms
  by (auto simp: after_tick_def Let_def upsert_def close_at_def update_twice split: prod.splits option.splits sum.splits bool.splits if_splits)

lemma tick_loop_effect:
  assumes "distinct (map ps_advice_id ps)" and "tick_loop px asof on_close ps n s w = (Inr c, s', w')"
    and "\<And>p. p \<in> set ps \<Longrightarrow> map_of s (ps_advice_id p) = Some p"
  shows "c = n + length (filter (exits_at px asof) ps) \<and> (\<forall>p \<in> set ps. map_of s' (ps_advice_id p) = Some (ticked px asof p))"
  using assms
proof (induction ps arbitrary: n s w)
  case (Cons p ps)
  have other: "map_of s' (ps_advice_id p) = map_of s1 (ps_advice_id p)" if "tick_loop px asof on_close ps m s1 w1 = (Inr c, s', w')" for m s1 w1
    using tick_loop_other [of "ps_advice_id p" ps px asof on_close m s1 w1] that Cons.prems(1) by simp
  show ?case
  proof (cases "px (ps_ticker p)")
    case None
    then have run: "tick_loop px asof on_close ps n s w = (Inr c, s', w')" using Cons.prems(2) by simp
    from Cons.IH [OF _ this] Cons.prems(1,3) have "c = n + length (filter (exits_at px asof) ps)
        \<and> (\<forall>p \<in> set ps. map_of s' (ps_advice_id p) = Some (ticked px asof p))" by simp
    moreover have "\<not> exits_at px asof p" "ticked px asof p = p" using None by (simp_all add: exits_at_def ticked_def)
    ultimately show ?thesis using other [OF run] Cons.prems(3) [of p] by simp
  next
    case (Some x)
    let ?s1 = "AList.update (ps_advice_id p) (after_tick asof x p) s" and ?m = "n + (if fst (check_exit p x asof) then 1 else 0)"
    obtain w1 where run: "tick_loop px asof on_close ps ?m ?s1 w1 = (Inr c, s', w')"
      using tick_loop_step_Inr [where px = px and p = p and x = x and asof = asof and on_close = on_close and ps = ps and n = n
          and s = s and w = w and c = c and s' = s' and w' = w', OF Some Cons.prems(2)] by blast
    have "map_of ?s1 (ps_advice_id q) = Some q" if "q \<in> set ps" for q
    proof -
      have "ps_advice_id q \<noteq> ps_advice_id p" using that Cons.prems(1) by (metis imageI distinct.simps(2) list.map(2) list.set_map)
      then show ?thesis using that Cons.prems(3) [of q] by simp
    qed
    from Cons.IH [OF _ run this] Cons.prems(1) have "c = ?m + length (filter (exits_at px asof) ps)
        \<and> (\<forall>p \<in> set ps. map_of s' (ps_advice_id p) = Some (ticked px asof p))" by simp
    moreover have "exits_at px asof p = fst (check_exit p x asof)" "ticked px asof p = after_tick asof x p"
      using Some by (simp_all add: exits_at_def ticked_def)
    ultimately show ?thesis using other [OF run] by simp
  qed
qed simp

lemma distinct_open: "store_ok s \<Longrightarrow> distinct (map ps_advice_id (open_positions s))"
proof -
  assume ok: "store_ok s"
  then have eq: "map ps_advice_id (vals s) = keys s"
    by (auto simp: store_ok_def intro!: map_cong)
  have "distinct (map ps_advice_id (vals s))" unfolding eq using ok by (simp add: store_ok_def)
  then show ?thesis unfolding open_positions_def by (rule distinct_map_filter)
qed

text \<open>
  A tick that is not stopped by its callback closes exactly the open positions whose latest
  price is an exit, returns how many they are, and afterwards the book holds each position as the
  tick left it: marked, and closed if it exited.
\<close>

theorem tick_closes_exactly_the_exits:
  assumes "store_ok s" and "tick price asof on_close s w = (Inr c, s', w')"
  shows "c = length (filter (exits_at (\<lambda>t. map_option mk_price (price t asof)) asof) (open_positions s))
    \<and> (\<forall>p \<in> set (open_positions s). map_of s' (ps_advice_id p) = Some (ticked (\<lambda>t. map_option mk_price (price t asof)) asof p))"
  using tick_loop_effect [of "open_positions s" "\<lambda>t. map_option mk_price (price t asof)" asof on_close 0 s w c s' w']
    distinct_open [OF assms(1)] open_in_store [OF assms(1)] assms(2) by (simp add: tick_def)

section \<open>The pricer looks back only\<close>

definition pricer_ok :: "pricer \<Rightarrow> bool" where
  "pricer_ok pr \<longleftrightarrow> (\<forall>t ms. map_of pr t = Some ms \<longrightarrow> sorted (map mk_asof ms))"

lemma pricer_ok_new: "pricer_ok (new_pricer d)"
  by (auto simp: pricer_ok_def new_pricer_def map_of_map)

lemma pricer_ok_set: "pricer_ok pr \<Longrightarrow> pricer_ok (pricer_set t asof px pr)"
  by (auto simp: pricer_ok_def pricer_set_def)

lemma sorted_last: "sorted (map f xs) \<Longrightarrow> x \<in> set xs \<Longrightarrow> f x \<le> (f (last xs) :: 'a::linorder)"
  by (induction xs) auto

text \<open>
  However prices were loaded and set, the price a tick uses is never from after the tick: it
  is the newest known mark of the ticker at or before it.
\<close>

theorem pricer_never_looks_ahead:
  assumes "pricer_ok pr" and "latest pr ticker asof = Some m"
  shows "mk_asof m \<le> asof \<and> (\<exists>ms. map_of pr ticker = Some ms \<and> m \<in> set ms
    \<and> (\<forall>m' \<in> set ms. mk_asof m' \<le> asof \<longrightarrow> mk_asof m' \<le> mk_asof m))"
proof -
  obtain ms where ms: "map_of pr ticker = Some ms" and l: "filter (\<lambda>m. mk_asof m \<le> asof) ms \<noteq> []"
    "m = last (filter (\<lambda>m. mk_asof m \<le> asof) ms)"
    using assms(2) by (auto simp: latest_def Let_def split: option.splits if_splits)
  have s: "sorted (map mk_asof (filter (\<lambda>m. mk_asof m \<le> asof) ms))"
    using assms(1) ms by (auto simp: pricer_ok_def sorted_filter)
  have "m \<in> set (filter (\<lambda>m. mk_asof m \<le> asof) ms)" using l last_in_set by blast
  then show ?thesis using ms sorted_last [OF s] l(2) by auto
qed

section \<open>A book at work\<close>

definition sample_advice_v1 :: advice_v1 where
  "sample_advice_v1 = \<lparr>av_id = ''01HZZZZZZZZZZZZZZZZZZZZZZZ'', av_agent = ''quant'', av_issued_at = 0,
     av_asset = \<lparr>as_kind = ''etf'', as_ticker = ''SPY'', as_venue = ''ARCA'', as_name = None\<rparr>, av_thesis = ''t'',
     av_direction = Long, av_confidence = 0.6, av_entry_band = (99, 101), av_target_band = (110, 112), av_stop_loss = 95,
     av_horizon_days = 5, av_max_drawdown_pct = 5, av_sizing_hint_pct_nav = 2, av_expires_at = 432000,
     av_evidence = [\<lparr>ev_kind = ''factor'', ev_ref = None, ev_url = None\<rparr>], av_disclaimer = None\<rparr>"

lemmas advice_validators = advice_valid_def advice_fields_ok_def asset_fields_ok_def asset_kinds_def evidence_fields_ok_def
  evidence_kinds_def id_is_ulid_def ulid_re_def ulid_chars_def band_ascending_def direction_consistency_def
  evidence_required_when_directional_def expiry_within_one_year_def days_def persona_requires_disclaimer_def starts_with_def

lemma sample_advice_valid: "advice_valid (\<lambda>v. True) sample_advice_v1"
  by (simp add: sample_advice_v1_def advice_validators)

definition sample_position :: position where
  "sample_position = new_position sample_advice_v1 1000000 20 10"

definition sample_prices :: pricer where
  "sample_prices = pricer_set ''SPY'' 200 90 (pricer_set ''SPY'' 100 104 [])"

lemma sample_open: "open_position sample_advice_v1 1000000 20 10 [] = (Inr sample_position, [(ps_advice_id sample_position, sample_position)])"
  by (simp add: open_position_def store_get_def upsert_def Let_def sample_position_def new_position_def sample_advice_v1_def)

lemma sample_fields: "ps_state sample_position = Open" "ps_direction sample_position = Long" "ps_target_band sample_position = (110, 112)"
  "ps_stop_loss sample_position = 95" "ps_expires_at sample_position = 432000" "ps_ticker sample_position = ''SPY''"
  "ps_advice_id sample_position = av_id sample_advice_v1"
  by (simp_all add: sample_position_def new_position_def sample_advice_v1_def)

theorem stopped_out_loses_one_r_witness: "snd (realize_pnl sample_position 95) = -1"
proof -
  have "check_exit sample_position 60 500 = (True, Some Stop, 95)" by (simp add: check_exit_def sample_fields)
  moreover have "0 \<le> fst (av_entry_band sample_advice_v1)" by (simp add: sample_advice_v1_def)
  ultimately show ?thesis
    using stopped_out_loses_one_r [OF sample_advice_valid _ _ sample_open, of 60 500 95] by simp
qed

theorem pricer_never_looks_ahead_witness:
  "\<exists>m. latest sample_prices ''SPY'' 150 = Some m \<and> mk_asof m \<le> 150"
proof -
  have ok: "pricer_ok sample_prices" unfolding sample_prices_def by (intro pricer_ok_set) (simp add: pricer_ok_def)
  obtain m where m: "latest sample_prices ''SPY'' 150 = Some m" by (simp add: latest_def sample_prices_def pricer_set_def)
  from pricer_never_looks_ahead [OF ok m] m show ?thesis by blast
qed

lemma sample_store_ok: "store_ok [(ps_advice_id sample_position, sample_position)]"
proof -
  have "store_ok []" by (simp add: store_ok_def)
  from open_position_ok [OF this, of sample_advice_v1 1000000 20 10] show ?thesis by (simp add: sample_open)
qed

lemma sample_tick: "\<exists>q. tick (latest sample_prices) 250 None [(ps_advice_id sample_position, sample_position)] ()
    = (Inr 1, [(ps_advice_id q, q)], ()) \<and> ps_state q = Closed \<and> ps_advice_id q = ps_advice_id sample_position"
proof -
  have "latest sample_prices ''SPY'' 250 = Some \<lparr>mk_ticker = ''SPY'', mk_asof = 200, mk_price = 90\<rparr>"
    by (simp add: latest_def sample_prices_def pricer_set_def)
  moreover have "check_exit sample_position 90 250 = (True, Some Stop, 95)" by (simp add: check_exit_def sample_fields)
  ultimately show ?thesis by (simp add: tick_def open_positions_def sample_fields Let_def close_at_def upsert_def)
qed

theorem tick_closes_exactly_the_exits_witness:
  "length (filter (exits_at (\<lambda>t. map_option mk_price (latest sample_prices t 250)) 250)
     (open_positions [(ps_advice_id sample_position, sample_position)])) = 1"
proof -
  obtain q where q: "tick (latest sample_prices) 250 None [(ps_advice_id sample_position, sample_position)] () = (Inr 1, [(ps_advice_id q, q)], ())"
    using sample_tick by blast
  show ?thesis using tick_closes_exactly_the_exits [OF sample_store_ok q] by simp
qed

theorem closed_positions_final_witness:
  "\<exists>s s' p. (book_step (\<lambda>v. True))\<^sup>*\<^sup>* [] s \<and> (book_step (\<lambda>v. True))\<^sup>*\<^sup>* s s' \<and> s \<noteq> s'
     \<and> ps_state p = Closed \<and> map_of s' (av_id sample_advice_v1) = Some p"
proof -
  let ?start = "[(ps_advice_id sample_position, sample_position)]"
  obtain q where q: "tick (latest sample_prices) 250 None ?start () = (Inr 1, [(ps_advice_id q, q)], ())" "ps_state q = Closed"
    "ps_advice_id q = ps_advice_id sample_position" using sample_tick by blast
  let ?s = "[(ps_advice_id q, q)]"
  have s0: "book_step (\<lambda>v. True) [] ?start" using book_step.opens [OF sample_advice_valid, of "[]" 1000000 20 10] by (simp add: sample_open)
  have s1: "book_step (\<lambda>v. True) ?start ?s" using book_step.ticks [of "\<lambda>v. True" ?start "latest sample_prices" 250 None] q(1) by simp
  have reach: "(book_step (\<lambda>v. True))\<^sup>*\<^sup>* [] ?s" by (rule rtranclp_two [where R = "book_step (\<lambda>v. True)", OF s0 s1])
  let ?b = "sample_advice_v1\<lparr>av_id := ''01HYYYYYYYYYYYYYYYYYYYYYYY''\<rparr>"
  let ?s' = "snd (open_position ?b 1000000 20 300 ?s)"
  have "advice_valid (\<lambda>v. True) ?b" by (simp add: sample_advice_v1_def advice_validators)
  then have step: "(book_step (\<lambda>v. True))\<^sup>*\<^sup>* ?s ?s'" by (intro r_into_rtranclp book_step.opens)
  have "?s' \<noteq> ?s" using q(3)
    by (simp add: open_position_def store_get_def upsert_def Let_def new_position_def sample_fields sample_advice_v1_def)
  moreover have "map_of ?s (av_id sample_advice_v1) = Some q" using q(3) by (simp add: sample_fields)
  from closed_positions_final [OF reach step this q(2)] have "map_of ?s' (av_id sample_advice_v1) = Some q" by blast
  ultimately show ?thesis using reach step q(2) by metis
qed

end
