(* ===== verification/BacktestStats.thy ===== *)
theory BacktestStats
  imports Backtest "HOL-Library.List_Lexorder"
begin

text \<open>
  What the backtest agent computes over its book (\<^verbatim>\<open>apps/agent_backtest/backtest/\<close>): the statistics and the
  leaderboard (\<^verbatim>\<open>attribution/\<close>), the daily roll-up, the endpoints of \<^verbatim>\<open>main.py\<close> and the reflection text. Statistics
  are over the reals, because of the square root; \<^verbatim>\<open>random.Random(seed).randrange(n)\<close> is the function \<open>rnd\<close>
  of the number of the draw.
\<close>

section \<open>Statistics\<close>

definition fmean :: "real list \<Rightarrow> real" where
  "fmean xs = sum_list xs / of_nat (length xs)"

definition pstdev :: "real list \<Rightarrow> real" where
  "pstdev xs = sqrt (sum_list (map (\<lambda>x. (x - fmean xs) * (x - fmean xs)) xs) / of_nat (length xs))"

definition sharpe :: "real list \<Rightarrow> real \<Rightarrow> real" where
  "sharpe returns risk_free =
     (if length returns < 2 then 0
      else let excess = map (\<lambda>r. r - risk_free) returns; sigma = pstdev excess in
        if sigma = 0 then 0 else fmean excess / sigma * sqrt 252)"

definition sortino :: "real list \<Rightarrow> real \<Rightarrow> real" where
  "sortino returns risk_free =
     (if length returns < 2 then 0
      else let excess = map (\<lambda>r. r - risk_free) returns;
               downside = map (\<lambda>r. min 0 r) excess;
               sigma = sqrt (fmean (map (\<lambda>d. d * d) downside)) in
        if sigma = 0 then 0 else fmean excess / sigma * sqrt 252)"

fun drawdown_loop :: "real list \<Rightarrow> real \<Rightarrow> real \<Rightarrow> real \<Rightarrow> real" where
  "drawdown_loop [] peak cum max_dd = max_dd"
| "drawdown_loop (r # rs) peak cum max_dd =
     (let cum' = cum + r; peak' = max peak cum' in drawdown_loop rs peak' cum' (max max_dd (peak' - cum')))"

definition max_drawdown :: "real list \<Rightarrow> real" where
  "max_drawdown returns = (if returns = [] then 0 else drawdown_loop returns 0 0 0)"

definition calmar :: "real list \<Rightarrow> real" where
  "calmar returns = (let dd = max_drawdown returns in if dd = 0 then 0 else fmean returns * 252 / dd)"

text \<open>\<open>xs[i]\<close>: a negative index counts from the end, one out of range raises.\<close>

definition py_index :: "'a list \<Rightarrow> int \<Rightarrow> string + 'a" where
  "py_index xs i =
     (if 0 \<le> i \<and> i < int (length xs) then Inr (xs ! nat i)
      else if i < 0 \<and> - int (length xs) \<le> i then Inr (xs ! nat (int (length xs) + i))
      else Inl ''list index out of range'')"

definition int_of_real :: "real \<Rightarrow> int" where
  "int_of_real x = (if 0 \<le> x then \<lfloor>x\<rfloor> else \<lceil>x\<rceil>)"

definition bootstrap_sharpe :: "(nat \<Rightarrow> nat) \<Rightarrow> real list \<Rightarrow> real \<Rightarrow> nat \<Rightarrow> string + real \<times> real \<times> real" where
  "bootstrap_sharpe rnd returns alpha n_boot =
     (if length returns < 5 then (let s = sharpe returns 0 in Inr (s, s, s))
      else let n = length returns;
               samples = sort (map (\<lambda>b. sharpe (map (\<lambda>i. returns ! rnd (b * n + i)) [0..<n]) 0) [0..<n_boot]) in
        res_bind (py_index samples (int_of_real (alpha / 2 * of_nat n_boot))) (\<lambda>lower.
        res_bind (py_index samples (int_of_real ((1 - alpha / 2) * of_nat n_boot))) (\<lambda>upper.
          Inr (sharpe returns 0, lower, upper))))"

section \<open>The leaderboard\<close>

record agent_snapshot =
  as_agent :: string
  as_trades_closed :: int
  as_days_live :: int
  as_sharpe :: rat
  as_hit_rate :: rat
  as_r_avg :: rat
  as_max_dd_pct :: rat
  as_turnover :: rat
  as_stale_advices :: rat

record ranked_row =
  rr_agent :: string
  rr_score :: rat
  rr_provisional :: bool

definition MIN_TRADES_FOR_RANKING :: int where "MIN_TRADES_FOR_RANKING = 20"
definition MIN_DAYS_FOR_RANKING :: int where "MIN_DAYS_FOR_RANKING = 60"

text \<open>The division raises when the drawdown is -100%.\<close>

definition leaderboard_score :: "agent_snapshot \<Rightarrow> string + rat" where
  "leaderboard_score s =
     (if 1 + as_max_dd_pct s / 100 = 0 then Inl ''float division by zero''
      else Inr (0.30 * as_sharpe s + 0.20 * as_hit_rate s + 0.25 * as_r_avg s + 0.15 * (1 / (1 + as_max_dd_pct s / 100))
                - 0.05 * as_turnover s - 0.05 * as_stale_advices s))"

definition is_provisional :: "agent_snapshot \<Rightarrow> bool" where
  "is_provisional s \<longleftrightarrow> as_trades_closed s < MIN_TRADES_FOR_RANKING \<or> as_days_live s < MIN_DAYS_FOR_RANKING"

definition rank_agents :: "agent_snapshot list \<Rightarrow> string + ranked_row list" where
  "rank_agents snapshots =
     res_bind (those_res (map (\<lambda>s. res_bind (leaderboard_score s) (\<lambda>x.
         Inr \<lparr>rr_agent = as_agent s, rr_score = x, rr_provisional = is_provisional s\<rparr>)) snapshots)) (\<lambda>rows.
       Inr (sort_key (\<lambda>r. - rr_score r) rows))"

section \<open>The daily roll-up\<close>

record agent_daily =
  ad_pnl_usd :: rat
  ad_trades_closed :: nat
  ad_trades_open :: nat

text \<open>\<open>defaultdict(list)\<close> filled with one append per element.\<close>

definition push_to :: "'k \<Rightarrow> 'a \<Rightarrow> ('k, 'a list) dict \<Rightarrow> ('k, 'a list) dict" where
  "push_to k x d = AList.update k ((case map_of d k of None \<Rightarrow> [] | Some xs \<Rightarrow> xs) @ [x]) d"

definition group_by :: "('a \<Rightarrow> 'k) \<Rightarrow> 'a list \<Rightarrow> ('k, 'a list) dict" where
  "group_by f xs = fold (\<lambda>x. push_to (f x) x) xs []"

definition aggregate :: "position list \<Rightarrow> position list \<Rightarrow> (string, agent_daily) dict" where
  "aggregate closed_today open_today =
     map (\<lambda>(agent, ps). (agent, \<lparr>ad_pnl_usd = sum_list (map ps_pnl_usd ps), ad_trades_closed = length ps,
            ad_trades_open = length (filter (\<lambda>p. ps_agent p = agent) open_today)\<rparr>))
       (group_by ps_agent closed_today)"

section \<open>The endpoints\<close>

text \<open>\<open>getattr(p, name, default)\<close>: \<open>Position\<close> has slots, so no other attribute exists.\<close>

definition state_json :: "position_state \<Rightarrow> json" where
  "state_json st = JStr (case st of Open \<Rightarrow> ''open'' | Closed \<Rightarrow> ''closed'')"

definition direction_json :: "direction \<Rightarrow> json" where
  "direction_json d = JStr (case d of Long \<Rightarrow> ''long'' | Short \<Rightarrow> ''short'' | Flat \<Rightarrow> ''flat'')"

definition pair_json :: "rat \<times> rat \<Rightarrow> json" where
  "pair_json p = JArr [JNum (fst p), JNum (snd p)]"

definition position_attrs :: "position \<Rightarrow> (string, json) dict" where
  "position_attrs p =
     [(''advice_id'', JStr (ps_advice_id p)), (''agent'', JStr (ps_agent p)), (''ticker'', JStr (ps_ticker p)),
      (''venue'', JStr (ps_venue p)), (''direction'', direction_json (ps_direction p)),
      (''entry_band'', pair_json (ps_entry_band p)), (''target_band'', pair_json (ps_target_band p)),
      (''stop_loss'', JNum (ps_stop_loss p)), (''expires_at'', JNum (ps_expires_at p)), (''opened_at'', JNum (ps_opened_at p)),
      (''fill_px'', JNum (ps_fill_px p)), (''state'', state_json (ps_state p)), (''closed_at'', jopt JNum (ps_closed_at p)),
      (''exit_px'', jopt JNum (ps_exit_px p)), (''pnl_usd'', JNum (ps_pnl_usd p)), (''pnl_r'', JNum (ps_pnl_r p)),
      (''max_drawdown_pct'', JNum (ps_max_drawdown_pct p)), (''marks'', JArr (map (pair_json) (ps_marks p)))]"

definition getattr :: "position \<Rightarrow> string \<Rightarrow> json \<Rightarrow> json" where
  "getattr p name dflt = (case map_of (position_attrs p) name of None \<Rightarrow> dflt | Some v \<Rightarrow> v)"

definition pnl_of :: "position \<Rightarrow> rat" where
  "pnl_of p = (case getattr p ''pnl_usd'' (JNum 0) of JNum x \<Rightarrow> x | _ \<Rightarrow> 0)"

definition run_daily_mtm :: "store \<Rightarrow> nat \<times> rat" where
  "run_daily_mtm s = (length (open_positions s), sum_list (map pnl_of (open_positions s)))"

definition run_weekly_eval :: "store \<Rightarrow> (json, nat \<times> rat) dict" where
  "run_weekly_eval s = fold (\<lambda>p d.
       (let agent = getattr p ''source_agent'' (JStr ''unknown''); b = (case map_of d agent of None \<Rightarrow> (0, 0) | Some b \<Rightarrow> b)
        in AList.update agent (fst b + 1, snd b + pnl_of p) d)) (closed_positions s) []"

record board_row =
  br_agent :: json
  br_n :: nat
  br_pnl_usd :: rat
  br_win_rate :: rat

text \<open>\<open>sorted(by_agent.items())\<close> compares the names; \<open>le\<close> is their order.\<close>

definition leaderboard :: "(json \<Rightarrow> string) \<Rightarrow> store \<Rightarrow> board_row list" where
  "leaderboard name_of s =
     (let by_agent = map (\<lambda>(a, ps). (a, map pnl_of ps))
                       (group_by (\<lambda>p. getattr p ''source_agent'' (JStr ''unknown'')) (closed_positions s))
      in map (\<lambda>(agent, pnls). \<lparr>br_agent = agent, br_n = length pnls, br_pnl_usd = sum_list pnls,
               br_win_rate = of_nat (length (filter (\<lambda>x. x > 0) pnls)) / of_nat (max 1 (length pnls))\<rparr>)
           (sort_key (\<lambda>(a, _). map (of_char :: char \<Rightarrow> nat) (name_of a)) by_agent))"

definition position_dict :: "position \<Rightarrow> (string, json) dict" where
  "position_dict p =
     [(''advice_id'', getattr p ''advice_id'' JNull), (''ticker'', getattr p ''ticker'' JNull),
      (''direction'', getattr p ''direction'' JNull), (''state'', getattr p ''state'' JNull),
      (''entry_price'', getattr p ''entry_price'' JNull), (''pnl_usd'', getattr p ''pnl_usd'' (JNum 0)),
      (''opened_at'', getattr p ''opened_at'' JNull)]"

section \<open>The drawdown is the largest fall\<close>

definition equity :: "real list \<Rightarrow> nat \<Rightarrow> real" where
  "equity returns k = sum_list (take k returns)"

definition largest_fall :: "real list \<Rightarrow> real" where
  "largest_fall returns = Max ((\<lambda>(i, j). equity returns i - equity returns j) ` {(i, j). i \<le> j \<and> j \<le> length returns})"

lemma drawdown_loop_ge: "max_dd \<le> drawdown_loop rs peak cum max_dd"
proof (induction rs arbitrary: peak cum max_dd)
  case (Cons r rs)
  from Cons.IH [of "max max_dd (max peak (cum + r) - (cum + r))" "max peak (cum + r)" "cum + r"]
  show ?case unfolding max.bounded_iff drawdown_loop.simps Let_def by blast
qed simp

lemma drawdown_loop_from_peak:
  "k \<le> length rs \<Longrightarrow> 0 < k \<Longrightarrow> peak - (cum + equity rs k) \<le> drawdown_loop rs peak cum max_dd"
proof (induction rs arbitrary: peak cum max_dd k)
  case (Cons r rs)
  let ?cum = "cum + r" let ?peak = "max peak ?cum" let ?dd = "max max_dd (?peak - ?cum)"
  obtain m where k: "k = Suc m" using Cons.prems by (cases k) auto
  have "?peak - (?cum + equity rs m) \<le> drawdown_loop rs ?peak ?cum ?dd"
  proof (cases "m = 0")
    case True
    then show ?thesis using drawdown_loop_ge [of ?dd rs ?peak ?cum] unfolding max.bounded_iff by (simp add: equity_def)
  next
    case False
    then show ?thesis using Cons.IH [of m ?peak ?cum ?dd] Cons.prems k by simp
  qed
  moreover have "peak - (cum + equity (r # rs) k) \<le> ?peak - (?cum + equity rs m)" by (simp add: k equity_def)
  ultimately show ?case by (simp add: Let_def)
qed simp

lemma drawdown_loop_between:
  "i \<le> j \<Longrightarrow> j \<le> length rs \<Longrightarrow> 0 < i \<Longrightarrow> equity rs i - equity rs j \<le> drawdown_loop rs peak cum max_dd"
proof (induction rs arbitrary: peak cum max_dd i j)
  case (Cons r rs)
  let ?cum = "cum + r" let ?peak = "max peak ?cum" let ?dd = "max max_dd (?peak - ?cum)"
  obtain m n where ij: "i = Suc m" "j = Suc n" using Cons.prems by (cases i; cases j) auto
  have diff: "equity (r # rs) i - equity (r # rs) j = equity rs m - equity rs n" by (simp add: ij equity_def)
  have "equity rs m - equity rs n \<le> drawdown_loop rs ?peak ?cum ?dd"
  proof (cases "m = 0")
    case True
    have "equity rs m - equity rs n \<le> ?peak - (?cum + equity rs n)" using True by (simp add: equity_def)
    also have "\<dots> \<le> drawdown_loop rs ?peak ?cum ?dd"
    proof (cases "n = 0")
      case True
      then show ?thesis using drawdown_loop_ge [of ?dd rs ?peak ?cum] unfolding max.bounded_iff by (simp add: equity_def)
    next
      case False
      then show ?thesis using drawdown_loop_from_peak [of n rs ?peak ?cum ?dd] Cons.prems ij by simp
    qed
    finally show ?thesis .
  next
    case False
    then show ?thesis using Cons.IH [of m n ?peak ?cum ?dd] Cons.prems ij by simp
  qed
  then show ?case unfolding diff by (simp add: Let_def)
qed simp

lemma drawdown_loop_attained:
  "drawdown_loop rs peak cum max_dd = max_dd
   \<or> (\<exists>k \<le> length rs. 0 < k \<and> drawdown_loop rs peak cum max_dd = peak - (cum + equity rs k))
   \<or> (\<exists>i j. i \<le> j \<and> j \<le> length rs \<and> 0 < i \<and> drawdown_loop rs peak cum max_dd = equity rs i - equity rs j)"
proof (induction rs arbitrary: peak cum max_dd)
  case (Cons r rs)
  let ?cum = "cum + r" let ?peak = "max peak ?cum" let ?dd = "max max_dd (?peak - ?cum)" let ?v = "drawdown_loop rs ?peak ?cum ?dd"
  have run: "drawdown_loop (r # rs) peak cum max_dd = ?v" by (simp add: Let_def)
  have shift: "equity (r # rs) (Suc k) = r + equity rs k" for k by (simp add: equity_def)
  have peak: ?case if "k \<le> length rs" "?v = ?peak - (?cum + equity rs k)" for k
  proof (cases "?cum \<le> peak")
    case True
    then have "?v = peak - (cum + equity (r # rs) (Suc k))" using that(2) shift by simp
    then show ?thesis unfolding run using that(1) by (intro disjI2 disjI1 exI [of _ "Suc k"]) simp
  next
    case False
    then have "?v = equity (r # rs) 1 - equity (r # rs) (Suc k)" using that(2) shift [of k] shift [of 0] by (simp add: equity_def)
    then show ?thesis unfolding run using that(1) by (intro disjI2 exI [of _ 1] exI [of _ "Suc k"]) simp
  qed
  from Cons.IH [of ?peak ?cum ?dd] show ?case
  proof (elim disjE exE conjE)
    assume "?v = ?dd"
    then show ?thesis using peak [of 0] run by (simp add: max_def equity_def split: if_splits)
  next
    fix k assume "k \<le> length rs" "?v = ?peak - (?cum + equity rs k)"
    then show ?thesis by (rule peak)
  next
    fix i j assume "i \<le> j" "j \<le> length rs" "0 < i" "?v = equity rs i - equity rs j"
    then show ?thesis unfolding run by (intro disjI2 exI [of _ "Suc i"] exI [of _ "Suc j"]) (simp add: shift)
  qed
qed simp

text \<open>
  The one-pass drawdown equals its definition: the largest fall of the cumulative return from
  any point to any later one, the start included.
\<close>

theorem max_drawdown_is_largest_fall: "max_drawdown returns = largest_fall returns"
proof -
  let ?P = "{(i, j). i \<le> j \<and> j \<le> length returns}" and ?f = "\<lambda>(i, j). equity returns i - equity returns j"
  let ?v = "drawdown_loop returns 0 0 0"
  have "?P \<subseteq> {..length returns} \<times> {..length returns}" by auto
  then have fin: "finite (?f ` ?P)" by (meson finite_SigmaI finite_atMost finite_imageI finite_subset)
  have start: "equity returns 0 = 0" by (simp add: equity_def)
  have upper: "equity returns i - equity returns j \<le> ?v" if "i \<le> j" "j \<le> length returns" for i j
    using drawdown_loop_ge [of 0 returns 0 0] drawdown_loop_from_peak [of j returns 0 0 0]
      drawdown_loop_between [of i j returns 0 0 0] that start
    by (cases "i = 0"; cases "j = 0") auto
  have "?v \<in> ?f ` ?P"
    using drawdown_loop_attained [of returns 0 0 0]
  proof (elim disjE exE conjE)
    assume "?v = 0" then show ?thesis using start by (intro image_eqI [of _ _ "(0, 0)"]) auto
  next
    fix k assume "k \<le> length returns" "?v = 0 - (0 + equity returns k)"
    then show ?thesis using start by (intro image_eqI [of _ _ "(0, k)"]) auto
  next
    fix i j assume "i \<le> j" "j \<le> length returns" "?v = equity returns i - equity returns j"
    then show ?thesis by (intro image_eqI [of _ _ "(i, j)"]) auto
  qed
  then have "largest_fall returns = ?v" unfolding largest_fall_def using fin upper by (intro Max_eqI) auto
  then show ?thesis by (cases returns) (simp_all add: max_drawdown_def)
qed

section \<open>The bootstrap interval\<close>

text \<open>
  For a level in (0, 1] and at least one resample the bootstrap never indexes out of its
  samples, and returns the Sharpe ratio with an interval whose ends are in order.
\<close>

theorem bootstrap_interval_ordered:
  assumes "0 < alpha" and "alpha \<le> 1" and "0 < n_boot"
  shows "\<exists>lower upper. bootstrap_sharpe rnd returns alpha n_boot = Inr (sharpe returns 0, lower, upper) \<and> lower \<le> upper"
proof (cases "length returns < 5")
  case True
  then show ?thesis by (simp add: bootstrap_sharpe_def Let_def)
next
  case False
  define samples where "samples = sort (map (\<lambda>b. sharpe (map (\<lambda>i. returns ! rnd (b * length returns + i)) [0..<length returns]) 0) [0..<n_boot])"
  have len: "length samples = n_boot" by (simp add: samples_def)
  let ?lo = "\<lfloor>alpha / 2 * real n_boot\<rfloor>" and ?hi = "\<lfloor>(1 - alpha / 2) * real n_boot\<rfloor>"
  have nonneg: "0 \<le> alpha / 2 * real n_boot" "0 \<le> (1 - alpha / 2) * real n_boot" using assms by simp_all
  have "alpha / 2 * real n_boot \<le> (1 - alpha / 2) * real n_boot" using assms by (intro mult_right_mono) simp_all
  then have order: "?lo \<le> ?hi" by (rule floor_mono)
  have "(1 - alpha / 2) * real n_boot < real n_boot" using assms by simp
  then have hi: "?hi < int n_boot" by (simp add: floor_less_iff)
  have lo: "0 \<le> ?lo" using nonneg by simp
  have "py_index samples ?lo = Inr (samples ! nat ?lo)" "py_index samples ?hi = Inr (samples ! nat ?hi)"
    unfolding py_index_def len using lo le_less_trans [OF order hi] order_trans [OF lo order] hi by (simp_all only: if_True simp_thms)
  then have "bootstrap_sharpe rnd returns alpha n_boot = Inr (sharpe returns 0, samples ! nat ?lo, samples ! nat ?hi)"
    using False nonneg by (simp add: bootstrap_sharpe_def Let_def int_of_real_def samples_def)
  moreover have "samples ! nat ?lo \<le> samples ! nat ?hi"
  proof (rule sorted_nth_mono)
    show "nat ?hi < length samples" unfolding len using hi order lo by linarith
  qed (use order in \<open>simp_all add: samples_def nat_mono\<close>)
  ultimately show ?thesis by blast
qed

theorem bootstrap_interval_ordered_witness:
  "\<exists>lower upper. bootstrap_sharpe (\<lambda>k. k mod 5) [1, 2, 3, 4, 5] 0.05 1000 = Inr (sharpe [1, 2, 3, 4, 5] 0, lower, upper) \<and> lower \<le> upper"
  by (rule bootstrap_interval_ordered) simp_all

section \<open>Grouping\<close>

lemma push_to_get: "map_of (push_to k x d) = (map_of d)(k \<mapsto> (case map_of d k of None \<Rightarrow> [] | Some xs \<Rightarrow> xs) @ [x])"
  by (simp add: push_to_def)

lemma group_by_snoc: "group_by f (xs @ [x]) = push_to (f x) x (group_by f xs)"
  by (simp add: group_by_def)

lemma group_by_get:
  "map_of (group_by f xs) k = (let g = filter (\<lambda>x. f x = k) xs in if g = [] then None else Some g)"
  by (induction xs rule: rev_induct) (auto simp: group_by_snoc push_to_get group_by_def Let_def)

lemma group_by_const: "group_by (\<lambda>x. c) xs = (if xs = [] then [] else [(c, xs)])"
  by (induction xs rule: rev_induct) (simp_all add: group_by_snoc push_to_def, simp add: group_by_def)

text \<open>
  The daily roll-up has a row for exactly the agents that closed a trade that day, with the
  sum of what those trades made, their number, and the number of the agent's open positions; an
  agent with open positions only has none.
\<close>

theorem daily_rollup_per_agent:
  "map_of (aggregate closed_today open_today) agent =
     (let mine = filter (\<lambda>p. ps_agent p = agent) closed_today in
      if mine = [] then None
      else Some \<lparr>ad_pnl_usd = sum_list (map ps_pnl_usd mine), ad_trades_closed = length mine,
                 ad_trades_open = length (filter (\<lambda>p. ps_agent p = agent) open_today)\<rparr>)"
proof -
  have "map_of (map (\<lambda>(a, ps). (a, g a ps)) d) k = map_option (g k) (map_of d k)"
    for g :: "string \<Rightarrow> position list \<Rightarrow> agent_daily" and d k
    by (induction d) auto
  then show ?thesis unfolding aggregate_def by (simp add: group_by_get Let_def)
qed

section \<open>The leaderboard endpoint\<close>

lemma getattr_missing: "getattr p ''source_agent'' v = v"
  by (simp add: getattr_def position_attrs_def)

lemma pnl_of_eq: "pnl_of = ps_pnl_usd"
  by (rule ext) (simp add: pnl_of_def getattr_def position_attrs_def)

text \<open>
  The leaderboard endpoint never ranks agents: whoever opened the closed positions, all of
  them make up one row of an agent called unknown, because a position has no attribute
  \<open>source_agent\<close>.
\<close>

theorem leaderboard_never_tells_agents_apart:
  "leaderboard name_of s =
     (if closed_positions s = [] then []
      else [\<lparr>br_agent = JStr ''unknown'', br_n = length (closed_positions s),
             br_pnl_usd = sum_list (map ps_pnl_usd (closed_positions s)),
             br_win_rate = of_nat (length (filter (\<lambda>x. x > 0) (map ps_pnl_usd (closed_positions s))))
                / of_nat (length (closed_positions s))\<rparr>])"
  by (cases "closed_positions s") (simp_all add: leaderboard_def getattr_missing group_by_const Let_def pnl_of_eq)

section \<open>Ranking\<close>

definition no_worse :: "agent_snapshot \<Rightarrow> agent_snapshot \<Rightarrow> bool" where
  "no_worse a b \<longleftrightarrow> as_sharpe a \<le> as_sharpe b \<and> as_hit_rate a \<le> as_hit_rate b \<and> as_r_avg a \<le> as_r_avg b
     \<and> as_max_dd_pct b \<le> as_max_dd_pct a \<and> as_turnover b \<le> as_turnover a \<and> as_stale_advices b \<le> as_stale_advices a"

lemma weighted_mono:
  fixes s :: rat
  assumes "s \<le> s'" "h \<le> h'" "r \<le> r'" "d \<le> d'" "t' \<le> t" "l' \<le> l"
  shows "0.30 * s + 0.20 * h + 0.25 * r + 0.15 * d - 0.05 * t - 0.05 * l
    \<le> 0.30 * s' + 0.20 * h' + 0.25 * r' + 0.15 * d' - 0.05 * t' - 0.05 * l'"
  using assms by simp

text \<open>
  The score is monotone: an agent that is at least as good on every measure, drawdowns being
  non-negative, never scores less.
\<close>

theorem better_agent_scores_no_less:
  assumes "no_worse a b" and "0 \<le> as_max_dd_pct b"
  shows "\<exists>x y. leaderboard_score a = Inr x \<and> leaderboard_score b = Inr y \<and> x \<le> y"
proof -
  have d: "0 < 1 + as_max_dd_pct b / 100" "1 + as_max_dd_pct b / 100 \<le> 1 + as_max_dd_pct a / 100"
    using assms by (simp_all add: no_worse_def divide_right_mono add_pos_nonneg)
  then have "1 / (1 + as_max_dd_pct a / 100) \<le> 1 / (1 + as_max_dd_pct b / 100)" by (intro divide_left_mono) auto
  then have "0.30 * as_sharpe a + 0.20 * as_hit_rate a + 0.25 * as_r_avg a + 0.15 * (1 / (1 + as_max_dd_pct a / 100))
      - 0.05 * as_turnover a - 0.05 * as_stale_advices a
    \<le> 0.30 * as_sharpe b + 0.20 * as_hit_rate b + 0.25 * as_r_avg b + 0.15 * (1 / (1 + as_max_dd_pct b / 100))
      - 0.05 * as_turnover b - 0.05 * as_stale_advices b"
    using assms(1) unfolding no_worse_def by (intro weighted_mono) blast+
  then show ?thesis using d unfolding leaderboard_score_def by auto
qed

definition snap :: "rat \<Rightarrow> agent_snapshot" where
  "snap s = \<lparr>as_agent = ''quant'', as_trades_closed = 30, as_days_live = 90, as_sharpe = s, as_hit_rate = 0.5, as_r_avg = 0.2,
     as_max_dd_pct = 10, as_turnover = 1, as_stale_advices = 0\<rparr>"

theorem better_agent_scores_no_less_witness:
  "\<exists>x y. leaderboard_score (snap 1) = Inr x \<and> leaderboard_score (snap 2) = Inr y \<and> x \<le> y"
  by (rule better_agent_scores_no_less) (simp_all add: no_worse_def snap_def)

end
