(* ===== verification/WalkForward.thy ===== *)
theory WalkForward
  imports PyStd
begin

text \<open>
  The walk-forward gate of the backtest agent (\<^verbatim>\<open>apps/agent_backtest/backtest/walk_forward.py\<close>
  and \<^verbatim>\<open>walk_forward_cli.py\<close>): replaying a fixture of historical advice, comparing two
  reports, the override token of a PR title, and the command CI runs. A parsed line of the
  fixture is a dict; \<open>iso_ts\<close> reads an ISO timestamp as seconds; a day is the number of days since
  the epoch.
\<close>

section \<open>Reports\<close>

definition DEFAULT_ALPHA_DROP_THRESHOLD :: rat where "DEFAULT_ALPHA_DROP_THRESHOLD = 0.10"
definition DEFAULT_HIT_RATE_DROP_THRESHOLD :: rat where "DEFAULT_HIT_RATE_DROP_THRESHOLD = 0.05"

record historical_advice =
  ha_advice_id :: json
  ha_issued_at :: seconds
  ha_ticker :: json
  ha_direction :: json
  ha_entry_px :: rat
  ha_realized_exit_px :: rat
  ha_realized_pnl_pct :: rat
  ha_benchmark_pnl_pct :: rat
  ha_realized_max_dd_pct :: rat
  ha_held :: bool

record report =
  wr_prompt_version :: string
  wr_start :: int
  wr_end :: int
  wr_sample_size :: nat
  wr_avg_alpha :: rat
  wr_hit_rate :: rat
  wr_avg_max_dd_pct :: rat

record delta =
  wd_baseline :: report
  wd_candidate :: report
  wd_alpha_delta :: rat
  wd_hit_rate_delta :: rat
  wd_max_dd_delta :: rat
  wd_materially_negative :: bool

definition day_of :: "seconds \<Rightarrow> int" where
  "day_of t = \<lfloor>t / 86400\<rfloor>"

definition mean_of :: "rat list \<Rightarrow> rat" where
  "mean_of xs = sum_list xs / of_nat (length xs)"

definition harness_run :: "int \<Rightarrow> historical_advice list \<Rightarrow> string \<Rightarrow> (historical_advice \<Rightarrow> historical_advice) \<Rightarrow> report" where
  "harness_run today history prompt_version scorer =
     (let scored = map scorer history in
      if scored = []
      then \<lparr>wr_prompt_version = prompt_version, wr_start = today, wr_end = today, wr_sample_size = 0,
            wr_avg_alpha = 0, wr_hit_rate = 0, wr_avg_max_dd_pct = 0\<rparr>
      else \<lparr>wr_prompt_version = prompt_version,
            wr_start = Min (set (map (day_of \<circ> ha_issued_at) scored)), wr_end = Max (set (map (day_of \<circ> ha_issued_at) scored)),
            wr_sample_size = length scored,
            wr_avg_alpha = mean_of (map (\<lambda>s. ha_realized_pnl_pct s - ha_benchmark_pnl_pct s) scored),
            wr_hit_rate = of_nat (length (filter ha_held scored)) / of_nat (length scored),
            wr_avg_max_dd_pct = mean_of (map ha_realized_max_dd_pct scored)\<rparr>)"

definition identity_scorer :: "historical_advice \<Rightarrow> historical_advice" where
  "identity_scorer a = a"

definition compare :: "report \<Rightarrow> report \<Rightarrow> rat \<Rightarrow> rat \<Rightarrow> delta" where
  "compare baseline candidate alpha_drop_threshold hit_rate_drop_threshold =
     (let alpha_delta = wr_avg_alpha candidate - wr_avg_alpha baseline;
          hit_rate_delta = wr_hit_rate candidate - wr_hit_rate baseline;
          max_dd_delta = wr_avg_max_dd_pct candidate - wr_avg_max_dd_pct baseline
      in \<lparr>wd_baseline = baseline, wd_candidate = candidate, wd_alpha_delta = alpha_delta,
          wd_hit_rate_delta = hit_rate_delta, wd_max_dd_delta = max_dd_delta,
          wd_materially_negative = (alpha_delta < - alpha_drop_threshold \<or> hit_rate_delta < - hit_rate_drop_threshold)\<rparr>)"

text \<open>\<open>round(x, 4)\<close>.\<close>

definition round4 :: "rat \<Rightarrow> rat" where
  "round4 x = of_int (round_half_even (x * 10000)) / 10000"

definition report_summary :: "report \<Rightarrow> json" where
  "report_summary r = JObj [(''prompt_version'', JStr (wr_prompt_version r)), (''start'', JNum (of_int (wr_start r))),
     (''end'', JNum (of_int (wr_end r))), (''sample_size'', jnat (wr_sample_size r)), (''avg_alpha'', JNum (round4 (wr_avg_alpha r))),
     (''hit_rate'', JNum (round4 (wr_hit_rate r))), (''avg_max_dd_pct'', JNum (round4 (wr_avg_max_dd_pct r)))]"

definition delta_summary :: "delta \<Rightarrow> json" where
  "delta_summary d = JObj [(''baseline'', report_summary (wd_baseline d)), (''candidate'', report_summary (wd_candidate d)),
     (''alpha_delta'', JNum (round4 (wd_alpha_delta d))), (''hit_rate_delta'', JNum (round4 (wd_hit_rate_delta d))),
     (''max_dd_delta'', JNum (round4 (wd_max_dd_delta d))), (''materially_negative'', JBool (wd_materially_negative d))]"

section \<open>The override token\<close>

text \<open>
  \<open>\[walk-forward override:\s*(?P<reason>.+?)\]\<close>, case-insensitively: at the leftmost place
  where it matches, with the most blanks skipped that still leave a reason, the shortest reason.
\<close>

definition override_head :: string where
  "override_head = ''[walk-forward override:''"

fun lazy_reason :: "string \<Rightarrow> string option" where
  "lazy_reason [] = None"
| "lazy_reason (c # cs) =
     (if c = CHR 0x0A then None
      else case cs of [] \<Rightarrow> None
           | d # ds \<Rightarrow> if d = CHR '']'' then Some [c] else map_option ((#) c) (lazy_reason cs))"

fun first_some :: "('a \<Rightarrow> 'b option) \<Rightarrow> 'a list \<Rightarrow> 'b option" where
  "first_some f [] = None"
| "first_some f (x # xs) = (case f x of None \<Rightarrow> first_some f xs | Some y \<Rightarrow> Some y)"

definition match_override :: "string \<Rightarrow> string option" where
  "match_override s =
     (if lower (take (length override_head) s) \<noteq> override_head then None
      else let rest = drop (length override_head) s; blanks = length (takeWhile is_space rest)
        in first_some (\<lambda>k. lazy_reason (drop k rest)) (rev [0..<Suc blanks]))"

fun suffixes_of :: "'a list \<Rightarrow> 'a list list" where
  "suffixes_of [] = [[]]"
| "suffixes_of (x # xs) = (x # xs) # suffixes_of xs"

definition has_override :: "string \<Rightarrow> bool \<times> string option" where
  "has_override pr_title =
     (case first_some match_override (suffixes_of pr_title) of None \<Rightarrow> (False, None) | Some r \<Rightarrow> (True, Some (strip r)))"

section \<open>The command line\<close>

definition jreq_float :: "pystd \<Rightarrow> (string, json) dict \<Rightarrow> string \<Rightarrow> exn + rat" where
  "jreq_float py d k =
     res_bind (jitem (JObj d) k) (\<lambda>v. case float_of py v of None \<Rightarrow> Inl (ValueError k) | Some x \<Rightarrow> Inr x)"

definition parse_advice :: "pystd \<Rightarrow> (json \<Rightarrow> exn + seconds) \<Rightarrow> (string, json) dict \<Rightarrow> exn + historical_advice" where
  "parse_advice py iso_ts d =
     res_bind (jitem (JObj d) ''advice_id'') (\<lambda>advice_id.
     res_bind (res_bind (jitem (JObj d) ''issued_at'') iso_ts) (\<lambda>issued_at.
     res_bind (jitem (JObj d) ''ticker'') (\<lambda>ticker.
     res_bind (jitem (JObj d) ''direction'') (\<lambda>dir.
     res_bind (jreq_float py d ''entry_px'') (\<lambda>entry_px.
     res_bind (jreq_float py d ''realized_exit_px'') (\<lambda>exit_px.
     res_bind (jreq_float py d ''realized_pnl_pct'') (\<lambda>pnl.
     res_bind (jreq_float py d ''benchmark_pnl_pct'') (\<lambda>bench.
     res_bind (jreq_float py d ''realized_max_dd_pct'') (\<lambda>dd.
     res_bind (jitem (JObj d) ''held'') (\<lambda>held.
       Inr \<lparr>ha_advice_id = advice_id, ha_issued_at = issued_at, ha_ticker = ticker, ha_direction = dir,
            ha_entry_px = entry_px, ha_realized_exit_px = exit_px, ha_realized_pnl_pct = pnl,
            ha_benchmark_pnl_pct = bench, ha_realized_max_dd_pct = dd, ha_held = truthy held\<rparr>))))))))))"

text \<open>\<open>loads\<close> is \<open>json.loads\<close> on a line that is not blank.\<close>

definition replay_from_jsonl :: "pystd \<Rightarrow> (json \<Rightarrow> exn + seconds) \<Rightarrow> (string \<Rightarrow> exn + (string, json) dict) \<Rightarrow> string list
    \<Rightarrow> exn + historical_advice list" where
  "replay_from_jsonl py iso_ts loads file_lines =
     those_res (map (\<lambda>l. res_bind (loads l) (parse_advice py iso_ts)) (filter (\<lambda>l. strip l \<noteq> []) file_lines))"

text \<open>
  The files the command writes and its exit code; \<open>fixture\<close> is None when the file does not
  exist. An exception ends the command with code 1 and no further file.
\<close>

definition report_name :: "string \<Rightarrow> string" where
  "report_name prompt_version = ''walk_forward_'' @ prompt_version @ ''.json''"

definition cli_main :: "pystd \<Rightarrow> (json \<Rightarrow> exn + seconds) \<Rightarrow> (string \<Rightarrow> exn + (string, json) dict) \<Rightarrow> int
    \<Rightarrow> string \<Rightarrow> string \<Rightarrow> string \<Rightarrow> string list option \<Rightarrow> (string \<times> json) list \<times> (exn + int)" where
  "cli_main py iso_ts loads today baseline candidate out fixture =
     (case fixture of
        None \<Rightarrow> ([(out, JObj [(''materially_negative'', JBool False), (''reason'', JStr ''no fixture'')])], Inr 0)
      | Some file_lines \<Rightarrow>
          (case replay_from_jsonl py iso_ts loads file_lines of
             Inl e \<Rightarrow> ([], Inl e)
           | Inr history \<Rightarrow>
               (let b = harness_run today history baseline identity_scorer;
                    c = harness_run today history candidate identity_scorer;
                    d = compare b c DEFAULT_ALPHA_DROP_THRESHOLD DEFAULT_HIT_RATE_DROP_THRESHOLD
                in ([(report_name (wr_prompt_version (wd_candidate d)), delta_summary d), (out, delta_summary d)], Inr 0))))"

section \<open>What the gate decides\<close>

lemma compare_flags_iff:
  "wd_materially_negative (compare b c DEFAULT_ALPHA_DROP_THRESHOLD DEFAULT_HIT_RATE_DROP_THRESHOLD) \<longleftrightarrow>
     wr_avg_alpha b - wr_avg_alpha c > 0.10 \<or> wr_hit_rate b - wr_hit_rate c > 0.05"
  by (auto simp: compare_def Let_def DEFAULT_ALPHA_DROP_THRESHOLD_def DEFAULT_HIT_RATE_DROP_THRESHOLD_def)

lemma harness_run_version:
  "harness_run today history v scorer = (harness_run today history u scorer)\<lparr>wr_prompt_version := v\<rparr>"
  by (simp add: harness_run_def Let_def)

text \<open>
  The walk-forward gate cannot fail: whatever the fixture holds, and whichever two prompt
  versions are compared, every file the command writes says the delta is not materially negative, because
  both versions are scored by the same function on the same history.
\<close>

theorem walk_forward_gate_never_blocks:
  "cli_main py iso_ts loads today baseline candidate out fixture = (files, result) \<Longrightarrow> (f, v) \<in> set files
     \<Longrightarrow> jget v ''materially_negative'' = Some (JBool False)"
proof -
  assume run: "cli_main py iso_ts loads today baseline candidate out fixture = (files, result)" and f: "(f, v) \<in> set files"
  show ?thesis
  proof (cases fixture)
    case None
    then show ?thesis using run f by (auto simp: cli_main_def)
  next
    case (Some file_lines)
    then obtain history where h: "replay_from_jsonl py iso_ts loads file_lines = Inr history"
      using run f by (auto simp: cli_main_def split: sum.splits)
    let ?d = "compare (harness_run today history baseline identity_scorer) (harness_run today history candidate identity_scorer)
        DEFAULT_ALPHA_DROP_THRESHOLD DEFAULT_HIT_RATE_DROP_THRESHOLD"
    have "\<not> wd_materially_negative ?d"
      unfolding compare_flags_iff by (simp add: harness_run_version [of today history candidate identity_scorer baseline])
    moreover have "v = delta_summary ?d" using run f Some h by (auto simp: cli_main_def Let_def)
    ultimately show ?thesis by (simp add: delta_summary_def)
  qed
qed

text \<open>A fixture with one advice that lost everything.\<close>

definition lost_line :: "(string, json) dict" where
  "lost_line = [(''advice_id'', JStr ''a''), (''issued_at'', JNum 0), (''ticker'', JStr ''SPY''), (''direction'', JStr ''long''),
     (''entry_px'', JNum 100), (''realized_exit_px'', JNum 0), (''realized_pnl_pct'', JNum (-1)), (''benchmark_pnl_pct'', JNum 0),
     (''realized_max_dd_pct'', JNum 1), (''held'', JBool False)]"

lemma lost_fields:
  "jitem (JObj lost_line) ''advice_id'' = Inr (JStr ''a'')" "jitem (JObj lost_line) ''issued_at'' = Inr (JNum 0)"
  "jitem (JObj lost_line) ''ticker'' = Inr (JStr ''SPY'')" "jitem (JObj lost_line) ''direction'' = Inr (JStr ''long'')"
  "jitem (JObj lost_line) ''entry_px'' = Inr (JNum 100)" "jitem (JObj lost_line) ''realized_exit_px'' = Inr (JNum 0)"
  "jitem (JObj lost_line) ''realized_pnl_pct'' = Inr (JNum (-1))" "jitem (JObj lost_line) ''benchmark_pnl_pct'' = Inr (JNum 0)"
  "jitem (JObj lost_line) ''realized_max_dd_pct'' = Inr (JNum 1)" "jitem (JObj lost_line) ''held'' = Inr (JBool False)"
  by (simp_all add: jitem_def lost_line_def)

theorem walk_forward_gate_never_blocks_witness:
  "\<exists>files v. cli_main py_ascii jfloat (\<lambda>l. Inr lost_line) 0 ''v1'' ''v2'' ''out.json'' (Some [''line'']) = (files, Inr 0)
     \<and> (''out.json'', v) \<in> set files \<and> jget v ''materially_negative'' = Some (JBool False)"
proof -
  obtain a where "parse_advice py_ascii jfloat lost_line = Inr a"
    by (simp add: parse_advice_def lost_fields jreq_float_def)
  then have "replay_from_jsonl py_ascii jfloat (\<lambda>l. Inr lost_line) [''line''] = Inr [a]"
    by (simp add: replay_from_jsonl_def strip_eq_Nil_iff is_space_def)
  then have "snd (cli_main py_ascii jfloat (\<lambda>l. Inr lost_line) 0 ''v1'' ''v2'' ''out.json'' (Some [''line''])) = Inr 0"
    "\<exists>v. (''out.json'', v) \<in> set (fst (cli_main py_ascii jfloat (\<lambda>l. Inr lost_line) 0 ''v1'' ''v2'' ''out.json'' (Some [''line''])))"
    by (auto simp: cli_main_def Let_def)
  then obtain files v where out: "cli_main py_ascii jfloat (\<lambda>l. Inr lost_line) 0 ''v1'' ''v2'' ''out.json'' (Some [''line'']) = (files, Inr 0)"
    "(''out.json'', v) \<in> set files" by (metis prod.collapse)
  from walk_forward_gate_never_blocks [OF out] out show ?thesis by blast
qed

text \<open>A title with the token overrides, whatever stands before and after it.\<close>

lemma first_some_found: "x \<in> set xs \<Longrightarrow> f x \<noteq> None \<Longrightarrow> first_some f xs \<noteq> None"
  by (induction xs) (auto split: option.splits)

lemma suffix_in: "s \<in> set (suffixes_of (pre @ s))"
  by (induction pre) (cases s, auto)

lemma lazy_reason_found:
  "r \<noteq> [] \<Longrightarrow> CHR 0x0A \<notin> set r \<Longrightarrow> lazy_reason (r @ CHR '']'' # post) \<noteq> None"
proof (induction r)
  case (Cons c r)
  show ?case
  proof (cases r)
    case Nil
    then show ?thesis using Cons.prems by simp
  next
    case r: (Cons d ds)
    then have "lazy_reason (r @ CHR '']'' # post) \<noteq> None" using Cons.IH Cons.prems by simp
    moreover have "c \<noteq> CHR 0x0A" using Cons.prems by auto
    ultimately show ?thesis using r by simp
  qed
qed simp

lemma override_detected:
  assumes "r \<noteq> []" and "CHR 0x0A \<notin> set r"
  shows "fst (has_override (pre @ override_head @ r @ CHR '']'' # post))"
proof -
  let ?s = "override_head @ r @ CHR '']'' # post"
  have "match_override ?s \<noteq> None"
  proof -
    have l: "lower override_head = override_head" by code_simp
    have t: "take (length override_head) ?s = override_head" and d: "drop (length override_head) ?s = r @ CHR '']'' # post" by simp_all
    have "lazy_reason (drop 0 (r @ CHR '']'' # post)) \<noteq> None" using lazy_reason_found assms by simp
    then have found: "first_some (\<lambda>k. lazy_reason (drop k (r @ CHR '']'' # post)))
        (rev [0..<Suc (length (takeWhile is_space (r @ CHR '']'' # post)))]) \<noteq> None"
      by (intro first_some_found [of 0]) simp_all
    show ?thesis unfolding match_override_def Let_def t l d using found by (subst if_not_P) (simp, assumption)
  qed
  then have "first_some match_override (suffixes_of (pre @ ?s)) \<noteq> None" by (rule first_some_found [OF suffix_in])
  then show ?thesis unfolding has_override_def by (cases "first_some match_override (suffixes_of (pre @ ?s))") auto
qed

end
