(* ===== verification/FutuQuotes.thy ===== *)
theory FutuQuotes
  imports PyStd "HOL-Library.List_Lexorder"
begin

text \<open>
  The quote side of the FUTU agent (\<^verbatim>\<open>apps/agent_futu/futu/\<close>): the allowlisted quote client
  (\<^verbatim>\<open>quote_client.py\<close>), the subscription manager with its persisted view (\<^verbatim>\<open>sub_manager.py\<close>), the
  quote writer and its two sinks (\<^verbatim>\<open>quote_writer.py\<close>), the read facades (\<^verbatim>\<open>quotes_facade.py\<close>) and
  the portfolio aggregator (\<^verbatim>\<open>aggregator.py\<close>). A Python set whose order is never observed is a
  list without repetitions. OpenD, orjson and the database engine are parameters.
\<close>

section \<open>The quote client\<close>

definition QUOTE_ALLOWED_METHODS :: "string list" where
  "QUOTE_ALLOWED_METHODS = [''get_market_snapshot'', ''get_cur_kline'', ''get_order_book'', ''subscribe'', ''unsubscribe'',
     ''get_global_state'', ''get_history_kl_quota'']"

datatype 'm quote_attr = CtxSlot | QuoteMethod 'm | FutuQuoteForbidden

definition quote_getattr :: "(string \<Rightarrow> 'm option) \<Rightarrow> string \<Rightarrow> 'm quote_attr" where
  "quote_getattr ctx name =
     (if name = ''ctx'' then CtxSlot
      else if name \<notin> set QUOTE_ALLOWED_METHODS then FutuQuoteForbidden
      else case ctx name of None \<Rightarrow> FutuQuoteForbidden | Some underlying \<Rightarrow> QuoteMethod underlying)"

lemma quote_getattr_Method: "quote_getattr ctx name = QuoteMethod m \<Longrightarrow> name \<in> set QUOTE_ALLOWED_METHODS \<and> ctx name = Some m"
  by (auto simp: quote_getattr_def split: if_splits option.splits)

section \<open>Subscriptions\<close>

datatype quote_call = Subscribe "string list" string | Unsubscribe "string list" string

type_synonym subs_doc = "(string, string list) dict"

text \<open>
  The manager, the calls it has made on OpenD, and the KV entry under its state key.
  \<open>truthy_raw\<close>, \<open>loads\<close> and \<open>dumps\<close> are what \<open>load\<close> and \<open>_persist\<close> use of orjson;
  \<open>raises\<close> is an exception of the SDK call (its return code is not looked at).
\<close>

record 'b sub_manager =
  sm_subs :: subs_doc
  sm_calls :: "quote_call list"
  sm_kv :: "'b option"

record 'b kv_codec =
  kc_dumps :: "subs_doc \<Rightarrow> 'b"
  kc_loads :: "'b \<Rightarrow> subs_doc option"
  kc_truthy :: "'b \<Rightarrow> bool"

text \<open>\<open>sorted\<close> on strings, by code point.\<close>

definition sorted_strings :: "string list \<Rightarrow> string list" where
  "sorted_strings xs = sort_key (map (of_char :: char \<Rightarrow> nat)) xs"

definition subs_of :: "subs_doc \<Rightarrow> string \<Rightarrow> string list" where
  "subs_of d st = (case map_of d st of None \<Rightarrow> [] | Some xs \<Rightarrow> xs)"

text \<open>Reading \<open>self.subs[subtype]\<close> of a defaultdict creates the entry.\<close>

definition touch :: "string \<Rightarrow> subs_doc \<Rightarrow> subs_doc" where
  "touch st d = (case map_of d st of None \<Rightarrow> AList.update st [] d | Some _ \<Rightarrow> d)"

definition sm_load :: "'b kv_codec \<Rightarrow> 'b sub_manager \<Rightarrow> 'b sub_manager" where
  "sm_load kc m =
     (case sm_kv m of
        None \<Rightarrow> m
      | Some raw \<Rightarrow>
          if \<not> kc_truthy kc raw then m
          else case kc_loads kc raw of
              None \<Rightarrow> m
            | Some doc \<Rightarrow> m\<lparr>sm_subs := fold (\<lambda>(st, ts). AList.update st (remdups ts)) doc (sm_subs m)\<rparr>)"

definition sorted_doc :: "subs_doc \<Rightarrow> subs_doc" where
  "sorted_doc d = map (\<lambda>(st, s). (st, sorted_strings s)) d"

definition sm_persist :: "'b kv_codec \<Rightarrow> 'b sub_manager \<Rightarrow> 'b sub_manager" where
  "sm_persist kc m = m\<lparr>sm_kv := Some (kc_dumps kc (sorted_doc (sm_subs m)))\<rparr>"

definition sm_add :: "'b kv_codec \<Rightarrow> (quote_call \<Rightarrow> string option) \<Rightarrow> string list \<Rightarrow> string \<Rightarrow> 'b sub_manager
    \<Rightarrow> (string + string list \<times> nat) \<times> 'b sub_manager" where
  "sm_add kc raises tickers subtype m =
     (let m1 = m\<lparr>sm_subs := touch subtype (sm_subs m)\<rparr>;
          cur = subs_of (sm_subs m1) subtype;
          new = filter (\<lambda>t. t \<notin> set cur) tickers in
      if new = [] then (Inr (new, length cur), m1)
      else case raises (Subscribe new subtype) of
          Some e \<Rightarrow> (Inl e, m1)
        | None \<Rightarrow>
            (let cur' = cur @ remdups new;
                 m2 = m1\<lparr>sm_calls := sm_calls m1 @ [Subscribe new subtype], sm_subs := AList.update subtype cur' (sm_subs m1)\<rparr>
             in (Inr (new, length cur'), sm_persist kc m2)))"

definition sm_remove :: "'b kv_codec \<Rightarrow> (quote_call \<Rightarrow> string option) \<Rightarrow> string list \<Rightarrow> string \<Rightarrow> 'b sub_manager
    \<Rightarrow> (string + string list \<times> nat) \<times> 'b sub_manager" where
  "sm_remove kc raises tickers subtype m =
     (let m1 = m\<lparr>sm_subs := touch subtype (sm_subs m)\<rparr>;
          cur = subs_of (sm_subs m1) subtype;
          gone = filter (\<lambda>t. t \<in> set cur) tickers in
      if gone = [] then (Inr (gone, length cur), m1)
      else case raises (Unsubscribe gone subtype) of
          Some e \<Rightarrow> (Inl e, m1)
        | None \<Rightarrow>
            (let cur' = filter (\<lambda>t. t \<notin> set gone) cur;
                 m2 = m1\<lparr>sm_calls := sm_calls m1 @ [Unsubscribe gone subtype], sm_subs := AList.update subtype cur' (sm_subs m1)\<rparr>
             in (Inr (gone, length cur'), sm_persist kc m2)))"

definition sm_list :: "string \<Rightarrow> 'b sub_manager \<Rightarrow> string list \<times> 'b sub_manager" where
  "sm_list subtype m = (sorted_strings (subs_of (sm_subs m) subtype), m\<lparr>sm_subs := touch subtype (sm_subs m)\<rparr>)"

fun reconcile_loop :: "(quote_call \<Rightarrow> string option) \<Rightarrow> subs_doc \<Rightarrow> subs_doc \<Rightarrow> 'b sub_manager \<Rightarrow> (string + subs_doc) \<times> 'b sub_manager" where
  "reconcile_loop raises [] out m = (Inr out, m)"
| "reconcile_loop raises ((st, ts) # d) out m =
     (if ts = [] then reconcile_loop raises d out m
      else let c = Subscribe (sorted_strings ts) st in
        case raises c of
          Some e \<Rightarrow> (Inl e, m)
        | None \<Rightarrow> reconcile_loop raises d (AList.update st (sorted_strings ts) out) (m\<lparr>sm_calls := sm_calls m @ [c]\<rparr>))"

definition sm_reconcile :: "(quote_call \<Rightarrow> string option) \<Rightarrow> 'b sub_manager \<Rightarrow> (string + subs_doc) \<times> 'b sub_manager" where
  "sm_reconcile raises m = reconcile_loop raises (sm_subs m) [] m"

section \<open>Ticks and sinks\<close>

record quote_tick =
  qt_ticker :: string
  qt_exch :: string
  qt_last :: rat
  qt_bid :: "rat option"
  qt_ask :: "rat option"
  qt_vol :: "int option"
  qt_ts :: seconds
  qt_src :: string

definition maybe_float :: "pystd \<Rightarrow> json \<Rightarrow> rat option" where
  "maybe_float py v = (if v = JNull then None else float_of py v)"

text \<open>\<open>int(v)\<close>; \<open>int_text\<close> reads an integer literal.\<close>

definition maybe_int :: "(string \<Rightarrow> int option) \<Rightarrow> json \<Rightarrow> int option" where
  "maybe_int int_text v =
     (case v of JStr s \<Rightarrow> int_text s | JNum x \<Rightarrow> Some (trunc x) | JBool b \<Rightarrow> Some (if b then 1 else 0) | _ \<Rightarrow> None)"

text \<open>\<open>code.split(".", 1)[0] if "." in code else "?"\<close>.\<close>

definition exchange_of :: "string \<Rightarrow> string" where
  "exchange_of code = (if CHR ''.'' \<in> set code then takeWhile (\<lambda>c. c \<noteq> CHR ''.'') code else ''?'')"

definition row_to_tick :: "pystd \<Rightarrow> (string \<Rightarrow> int option) \<Rightarrow> seconds \<Rightarrow> (string, json) dict \<Rightarrow> exn + quote_tick option" where
  "row_to_tick py int_text now row =
     (let code = dget row ''code'' in
      if \<not> truthy code then Inr None
      else case float_of py (jget_or (JObj row) ''last_price'' (JNum 0)) of
          None \<Rightarrow> Inr None
        | Some lst \<Rightarrow>
            (case code of
               JStr c \<Rightarrow> Inr (Some \<lparr>qt_ticker = c, qt_exch = exchange_of c, qt_last = lst,
                  qt_bid = maybe_float py (dget row ''bid_price''), qt_ask = maybe_float py (dget row ''ask_price''),
                  qt_vol = maybe_int int_text (dget row ''volume''), qt_ts = now, qt_src = ''futu''\<rparr>)
             | _ \<Rightarrow> Inl TypeError))"

text \<open>\<open>insert_batch\<close> of the memory sink, and the INSERT with ON CONFLICT (ticker, ts) DO NOTHING.\<close>

definition mem_insert :: "quote_tick list \<Rightarrow> quote_tick list \<Rightarrow> nat \<times> quote_tick list" where
  "mem_insert ticks rows = (length ticks, rows @ ticks)"

definition tick_key :: "quote_tick \<Rightarrow> string \<times> seconds" where
  "tick_key t = (qt_ticker t, qt_ts t)"

definition insert_tick :: "quote_tick \<Rightarrow> quote_tick list \<Rightarrow> quote_tick list" where
  "insert_tick t rows = (if tick_key t \<in> tick_key ` set rows then rows else rows @ [t])"

definition pg_insert_batch :: "quote_tick list \<Rightarrow> quote_tick list \<Rightarrow> nat \<times> quote_tick list" where
  "pg_insert_batch ticks rows = (if ticks = [] then (0, rows) else (length ticks, fold insert_tick ticks rows))"

text \<open>\<open>clock i\<close> is the time at which the \<open>i\<close>-th row is turned into a tick.\<close>

definition snapshot_and_write :: "pystd \<Rightarrow> (string \<Rightarrow> int option) \<Rightarrow> (nat \<Rightarrow> seconds) \<Rightarrow> (quote_tick list \<Rightarrow> 's \<Rightarrow> nat \<times> 's)
    \<Rightarrow> int \<times> (string, json) dict list option \<Rightarrow> 's \<Rightarrow> (exn + nat) \<times> 's" where
  "snapshot_and_write py int_text clock insert_batch answer sink =
     (if fst answer \<noteq> 0 then (Inr 0, sink)
      else let rows = (case snd answer of None \<Rightarrow> [] | Some r \<Rightarrow> r) in
        case those_res (map (\<lambda>(i, r). row_to_tick py int_text (clock i) r) (enumerate 0 rows)) of
          Inl e \<Rightarrow> (Inl e, sink)
        | Inr ts \<Rightarrow> (let (n, sink') = insert_batch (map the (filter (\<lambda>t. t \<noteq> None) ts)) sink in (Inr n, sink')))"

section \<open>Facades\<close>

type_synonym quotes = "(string, rat) dict"

text \<open>A row without a numeric price or a text code is left out.\<close>

definition futu_snapshot :: "pystd \<Rightarrow> int \<times> (string, json) dict list option \<Rightarrow> quotes" where
  "futu_snapshot py answer =
     (if fst answer \<noteq> 0 then []
      else fold (\<lambda>row out.
             (case (map_of row ''code'', map_of row ''last_price'') of
                (Some (JStr c), Some v) \<Rightarrow> (case float_of py v of None \<Rightarrow> out | Some x \<Rightarrow> AList.update c x out)
              | _ \<Rightarrow> out)) (case snd answer of None \<Rightarrow> [] | Some r \<Rightarrow> r) [])"

text \<open>\<open>DISTINCT ON (ticker) \<dots> ORDER BY ticker, ts DESC\<close>: per ticker the newest of the fresh rows.\<close>

definition newest :: "quote_tick list \<Rightarrow> quote_tick \<Rightarrow> quote_tick" where
  "newest rows t = foldl (\<lambda>best r. if qt_ts r > qt_ts best then r else best) t rows"

definition fresh_rows :: "seconds \<Rightarrow> quote_tick list \<Rightarrow> string \<Rightarrow> quote_tick list" where
  "fresh_rows since rows ticker = filter (\<lambda>r. qt_ticker r = ticker \<and> qt_ts r \<ge> since) rows"

definition lake_snapshot :: "seconds \<Rightarrow> rat \<Rightarrow> quote_tick list \<Rightarrow> string list \<Rightarrow> quotes" where
  "lake_snapshot now max_age_s table tickers =
     (let since = now - max_age_s in
      concat (map (\<lambda>t. (case fresh_rows since table t of [] \<Rightarrow> [] | r # rs \<Rightarrow> [(t, qt_last (newest rs r))]))
        (sorted_strings (remdups tickers))))"

definition composite_snapshot :: "(string list \<Rightarrow> quotes) \<Rightarrow> (string list \<Rightarrow> quotes) \<Rightarrow> string list \<Rightarrow> quotes" where
  "composite_snapshot primary secondary tickers =
     (let hot = primary tickers; missing = filter (\<lambda>t. t \<notin> set (keys hot)) tickers in
      if missing = [] then hot else fold (\<lambda>(k, v). AList.update k v) (secondary missing) hot)"

section \<open>The portfolio aggregator\<close>

record position_state =
  po_ticker :: string
  po_venue :: string
  po_qty :: rat
  po_cost_basis :: rat
  po_currency :: json
  po_market_value :: rat
  po_unrealized :: rat

record account_state =
  ac_futu_id :: string
  ac_account_id :: json
  ac_market :: string
  ac_base_currency :: json
  ac_nav :: rat
  ac_cash :: rat
  ac_purchasing_power :: rat
  ac_positions :: "position_state list"

record aggregate_state =
  ag_accounts :: "account_state list"
  ag_nav :: rat
  ag_cash :: rat
  ag_largest_concentration_pct_nav :: rat
  ag_base_currency :: string

text \<open>One client as the aggregator uses it: its id hash and the answers of its two queries.\<close>

record futu_client =
  fc_id_hash :: string
  fc_acc_list :: "int \<times> (string, json) dict list"
  fc_positions :: "json \<Rightarrow> int \<times> (string, json) dict list"

definition parse_code :: "string \<Rightarrow> string \<times> string" where
  "parse_code code =
     (if CHR ''.'' \<in> set code
      then (upper (takeWhile (\<lambda>c. c \<noteq> CHR ''.'') code), tl (dropWhile (\<lambda>c. c \<noteq> CHR ''.'') code))
      else (''UNKNOWN'', code))"

definition get_float :: "pystd \<Rightarrow> (string, json) dict \<Rightarrow> string \<Rightarrow> exn + rat" where
  "get_float py d k = (case float_of py (jget_or (JObj d) k (JNum 0)) of None \<Rightarrow> Inl (ValueError k) | Some x \<Rightarrow> Inr x)"

definition read_position :: "pystd \<Rightarrow> json \<Rightarrow> (string, json) dict \<Rightarrow> exn + position_state" where
  "read_position py base_ccy p =
     res_bind (jitem (JObj p) ''code'') (\<lambda>c. res_bind (jstr c) (\<lambda>code.
     res_bind (res_bind (jitem (JObj p) ''qty'') (\<lambda>q. case float_of py q of None \<Rightarrow> Inl (ValueError ''qty'') | Some x \<Rightarrow> Inr x)) (\<lambda>qty.
     res_bind (get_float py p ''cost_price'') (\<lambda>cost.
     res_bind (get_float py p ''market_val'') (\<lambda>mv.
     res_bind (get_float py p ''pl_val'') (\<lambda>pl.
       Inr \<lparr>po_ticker = snd (parse_code code), po_venue = fst (parse_code code), po_qty = qty, po_cost_basis = cost,
            po_currency = base_ccy, po_market_value = mv, po_unrealized = pl\<rparr>))))))"

definition market_from_positions :: "position_state list \<Rightarrow> json \<Rightarrow> string" where
  "market_from_positions ps base_ccy =
     (if ps = [] then (if base_ccy = JStr ''USD'' then ''FUND'' else ''FX'')
      else if ''HK'' \<in> po_venue ` set ps then ''HK''
      else if list_ex (\<lambda>p. po_venue p \<in> {''NASDAQ'', ''NYSE'', ''ARCA'', ''US''}) ps then ''US''
      else ''US'')"

definition account_of :: "pystd \<Rightarrow> futu_client \<Rightarrow> (string, json) dict \<Rightarrow> json \<Rightarrow> json \<Rightarrow> exn + account_state" where
  "account_of py c acc base_ccy acc_id =
     res_bind (if fst (fc_positions c acc_id) = 0
               then those_res (map (read_position py base_ccy) (snd (fc_positions c acc_id))) else Inr []) (\<lambda>positions.
     res_bind (get_float py acc ''nav'') (\<lambda>nav.
     res_bind (get_float py acc ''cash'') (\<lambda>cash.
     res_bind (get_float py acc ''purchasing_power'') (\<lambda>pp.
       Inr \<lparr>ac_futu_id = fc_id_hash c, ac_account_id = acc_id, ac_market = market_from_positions positions base_ccy,
            ac_base_currency = base_ccy, ac_nav = nav, ac_cash = cash, ac_purchasing_power = pp, ac_positions = positions\<rparr>))))"

definition read_account :: "pystd \<Rightarrow> futu_client \<Rightarrow> (string, json) dict \<Rightarrow> exn + account_state" where
  "read_account py c acc =
     res_bind (jitem (JObj acc) ''acc_id'') (account_of py c acc (jget_or (JObj acc) ''base_currency'' (JStr ''USD'')))"

definition client_accounts :: "pystd \<Rightarrow> futu_client \<Rightarrow> exn + account_state list" where
  "client_accounts py c =
     (if fst (fc_acc_list c) \<noteq> 0 then Inr [] else those_res (map (read_account py c) (snd (fc_acc_list c))))"

definition largest_concentration_pct :: "account_state list \<Rightarrow> rat \<Rightarrow> rat" where
  "largest_concentration_pct accounts total_nav =
     (if total_nav \<le> 0 then 0
      else min (foldl (\<lambda>largest p. let pct = \<bar>po_market_value p\<bar> / total_nav * 100 in if pct > largest then pct else largest) 0
                 (concat (map ac_positions accounts))) 100)"

definition aggregate_snapshot :: "pystd \<Rightarrow> futu_client list \<Rightarrow> exn + aggregate_state" where
  "aggregate_snapshot py clients =
     res_bind (those_res (map (client_accounts py) clients)) (\<lambda>per_client.
       let accounts = concat per_client; total_nav = sum_list (map ac_nav accounts) in
       Inr \<lparr>ag_accounts = accounts, ag_nav = total_nav, ag_cash = sum_list (map ac_cash accounts),
            ag_largest_concentration_pct_nav = largest_concentration_pct accounts total_nav, ag_base_currency = ''USD''\<rparr>)"

section \<open>The manager's view is OpenD's\<close>

text \<open>What OpenD streams for a subtype after a list of accepted calls.\<close>

fun opend_apply :: "string \<Rightarrow> string set \<Rightarrow> quote_call \<Rightarrow> string set" where
  "opend_apply st v (Subscribe ts st') = (if st' = st then v \<union> set ts else v)"
| "opend_apply st v (Unsubscribe ts st') = (if st' = st then v - set ts else v)"

definition opend_view :: "quote_call list \<Rightarrow> string \<Rightarrow> string set" where
  "opend_view cs st = foldl (opend_apply st) {} cs"

lemma opend_view_snoc: "opend_view (cs @ [c]) st = opend_apply st (opend_view cs st) c"
  by (simp add: opend_view_def)

text \<open>Decoding what was encoded, for documents with distinct keys.\<close>

definition codec_ok :: "'b kv_codec \<Rightarrow> bool" where
  "codec_ok kc \<longleftrightarrow> (\<forall>d. distinct (keys d) \<longrightarrow> kc_loads kc (kc_dumps kc d) = Some d \<and> kc_truthy kc (kc_dumps kc d))"

text \<open>The manager agrees with OpenD, holds no ticker twice, and what it stored last reads back as its view.\<close>

definition kv_agrees :: "'b kv_codec \<Rightarrow> 'b sub_manager \<Rightarrow> bool" where
  "kv_agrees kc m \<longleftrightarrow>
     (case sm_kv m of
        None \<Rightarrow> \<forall>st. subs_of (sm_subs m) st = []
      | Some raw \<Rightarrow> \<exists>d. raw = kc_dumps kc d \<and> distinct (keys d) \<and> (\<forall>st. set (subs_of d st) = set (subs_of (sm_subs m) st)))"

definition sm_inv :: "'b kv_codec \<Rightarrow> 'b sub_manager \<Rightarrow> bool" where
  "sm_inv kc m \<longleftrightarrow>
     distinct (keys (sm_subs m)) \<and> (\<forall>st. distinct (subs_of (sm_subs m) st))
     \<and> (\<forall>st. opend_view (sm_calls m) st = set (subs_of (sm_subs m) st)) \<and> kv_agrees kc m"

text \<open>A restart is a new manager on the same KV store, loaded; OpenD keeps what it was told.\<close>

definition sm_restart :: "'b kv_codec \<Rightarrow> 'b sub_manager \<Rightarrow> 'b sub_manager" where
  "sm_restart kc m = sm_load kc (m\<lparr>sm_subs := []\<rparr>)"

inductive sm_step :: "'b kv_codec \<Rightarrow> 'b sub_manager \<Rightarrow> 'b sub_manager \<Rightarrow> bool" for kc where
  adds: "sm_step kc m (snd (sm_add kc raises tickers subtype m))"
| removes: "sm_step kc m (snd (sm_remove kc raises tickers subtype m))"
| lists: "sm_step kc m (snd (sm_list subtype m))"
| reconciles: "sm_step kc m (snd (sm_reconcile raises m))"
| restarts: "sm_step kc m (sm_restart kc m)"

lemma subs_of_touch [simp]: "subs_of (touch st d) x = subs_of d x"
  by (auto simp: touch_def subs_of_def split: option.splits)

lemma keys_touch: "distinct (keys d) \<Longrightarrow> distinct (keys (touch st d))"
  by (auto simp: touch_def split: option.splits intro: distinct_keys_update)

lemma subs_of_update [simp]: "subs_of (AList.update st xs d) x = (if x = st then xs else subs_of d x)"
  by (simp add: subs_of_def)

lemma map_of_sorted: "map_of (sorted_doc d) x = map_option sorted_strings (map_of d x)"
  by (induction d) (simp_all add: sorted_doc_def split: prod.splits)

lemma subs_of_sorted [simp]: "set (subs_of (sorted_doc d) x) = set (subs_of d x)"
  by (cases "map_of d x") (simp_all add: subs_of_def map_of_sorted sorted_strings_def)

lemma keys_sorted [simp]: "keys (sorted_doc d) = keys d"
  by (induction d) (auto simp: sorted_doc_def)

lemma subs_of_Nil [simp]: "subs_of [] st = []"
  by (simp add: subs_of_def)

lemma kv_agrees_calls [simp]: "kv_agrees kc (m\<lparr>sm_calls := c\<rparr>) = kv_agrees kc m"
  by (simp add: kv_agrees_def cong: option.case_cong)

lemma inv_touch: "sm_inv kc m \<Longrightarrow> sm_inv kc (m\<lparr>sm_subs := touch st (sm_subs m)\<rparr>)"
  by (auto simp: sm_inv_def keys_touch kv_agrees_def split: option.splits)

lemma inv_persist:
  assumes "distinct (keys (sm_subs m))" and "\<And>st. distinct (subs_of (sm_subs m) st)"
    and "\<And>st. opend_view (sm_calls m) st = set (subs_of (sm_subs m) st)"
  shows "sm_inv kc (sm_persist kc m)"
proof -
  have "kv_agrees kc (sm_persist kc m)" unfolding kv_agrees_def sm_persist_def
    using assms(1) by (auto intro!: exI [of _ "sorted_doc (sm_subs m)"])
  then show ?thesis using assms by (simp add: sm_inv_def sm_persist_def)
qed

lemma inv_add:
  assumes "sm_inv kc m"
  shows "sm_inv kc (snd (sm_add kc raises tickers st m))"
proof -
  let ?new = "filter (\<lambda>t. t \<notin> set (subs_of (sm_subs m) st)) tickers"
  have m: "distinct (keys (sm_subs m))" "\<And>x. distinct (subs_of (sm_subs m) x)"
    "\<And>x. opend_view (sm_calls m) x = set (subs_of (sm_subs m) x)" using assms by (simp_all add: sm_inv_def)
  let ?m2 = "m\<lparr>sm_calls := sm_calls m @ [Subscribe ?new st],
      sm_subs := AList.update st (subs_of (sm_subs m) st @ remdups ?new) (touch st (sm_subs m))\<rparr>"
  have "sm_inv kc (sm_persist kc ?m2)"
    by (rule inv_persist) (use m in \<open>auto simp: opend_view_snoc keys_touch intro!: distinct_keys_update\<close>)
  then show ?thesis using inv_touch [OF assms] by (auto simp: sm_add_def Let_def split: option.splits)
qed

lemma inv_remove:
  assumes "sm_inv kc m"
  shows "sm_inv kc (snd (sm_remove kc raises tickers st m))"
proof -
  let ?gone = "filter (\<lambda>t. t \<in> set (subs_of (sm_subs m) st)) tickers"
  have m: "distinct (keys (sm_subs m))" "\<And>x. distinct (subs_of (sm_subs m) x)"
    "\<And>x. opend_view (sm_calls m) x = set (subs_of (sm_subs m) x)" using assms by (simp_all add: sm_inv_def)
  let ?m2 = "m\<lparr>sm_calls := sm_calls m @ [Unsubscribe ?gone st],
      sm_subs := AList.update st (filter (\<lambda>t. t \<notin> set ?gone) (subs_of (sm_subs m) st)) (touch st (sm_subs m))\<rparr>"
  have "sm_inv kc (sm_persist kc ?m2)"
    by (rule inv_persist) (use m in \<open>auto simp: opend_view_snoc keys_touch intro!: distinct_keys_update\<close>)
  then show ?thesis using inv_touch [OF assms] by (auto simp: sm_remove_def Let_def split: option.splits)
qed

lemma inv_reconcile_loop:
  assumes "sm_inv kc m" and "\<And>st ts. (st, ts) \<in> set d \<Longrightarrow> set ts \<subseteq> set (subs_of (sm_subs m) st)"
  shows "sm_inv kc (snd (reconcile_loop raises d out m)) \<and> sm_subs (snd (reconcile_loop raises d out m)) = sm_subs m"
  using assms
proof (induction d arbitrary: out m)
  case (Cons e d)
  obtain st ts where e: "e = (st, ts)" by force
  let ?c = "Subscribe (sorted_strings ts) st" let ?m = "m\<lparr>sm_calls := sm_calls m @ [?c]\<rparr>"
  have "set ts \<subseteq> set (subs_of (sm_subs m) st)" using Cons.prems(2) [of st ts] e by simp
  then have "sm_inv kc ?m" using Cons.prems(1)
    by (auto simp: sm_inv_def opend_view_snoc sorted_strings_def)
  then show ?case using Cons.IH [of ?m] Cons.IH [of m] Cons.prems e by (auto simp: Let_def split: option.splits)
qed simp

lemma inv_reconcile: "sm_inv kc m \<Longrightarrow> sm_inv kc (snd (sm_reconcile raises m))"
  unfolding sm_reconcile_def
  by (rule inv_reconcile_loop [THEN conjunct1]) (auto simp: subs_of_def sm_inv_def)

lemma fold_load:
  "distinct (keys doc) \<Longrightarrow> subs_of (fold (\<lambda>(st, ts). AList.update st (remdups ts)) doc d) x
     = (case map_of doc x of None \<Rightarrow> subs_of d x | Some ts \<Rightarrow> remdups ts)"
proof (induction doc arbitrary: d)
  case (Cons e doc)
  obtain a b where e: "e = (a, b)" by force
  have "map_of doc a = None" using Cons.prems e by (simp add: map_of_eq_None_iff)
  then show ?case using Cons.IH [of "AList.update a (remdups b) d"] Cons.prems e by (cases "x = a"; cases "map_of doc x") simp_all
qed simp

lemma fold_load_keys:
  "distinct (keys d) \<Longrightarrow> distinct (keys (fold (\<lambda>(st, ts). AList.update st (remdups ts)) doc d))"
  by (induction doc arbitrary: d) (auto intro: distinct_keys_update)

lemma inv_restart:
  assumes "codec_ok kc" and "sm_inv kc m"
  shows "sm_inv kc (sm_restart kc m)"
proof (cases "sm_kv m")
  case None
  then show ?thesis using assms(2) by (auto simp: sm_restart_def sm_load_def sm_inv_def kv_agrees_def)
next
  case (Some raw)
  then obtain d where d: "raw = kc_dumps kc d" "distinct (keys d)" "\<And>st. set (subs_of d st) = set (subs_of (sm_subs m) st)"
    using assms(2) by (auto simp: sm_inv_def kv_agrees_def)
  let ?subs = "fold (\<lambda>(st, ts). AList.update st (remdups ts)) d []"
  have "sm_restart kc m = m\<lparr>sm_subs := ?subs\<rparr>" using assms(1) Some d by (simp add: sm_restart_def sm_load_def codec_ok_def)
  moreover have "subs_of ?subs x = remdups (subs_of d x)" for x
    using fold_load [OF d(2), of "[]" x] by (auto simp: subs_of_def split: option.splits)
  moreover have "distinct (keys ?subs)" by (rule fold_load_keys) simp
  ultimately show ?thesis using assms(2) d Some by (auto simp: sm_inv_def kv_agrees_def)
qed

lemma sm_inv_step: "sm_step kc m m' \<Longrightarrow> codec_ok kc \<Longrightarrow> sm_inv kc m \<Longrightarrow> sm_inv kc m'"
  by (induction rule: sm_step.induct)
     (auto intro: inv_add inv_remove inv_reconcile inv_restart simp: sm_list_def inv_touch)

definition new_sub_manager :: "'b sub_manager" where
  "new_sub_manager = \<lparr>sm_subs = [], sm_calls = [], sm_kv = None\<rparr>"

text \<open>
  However tickers are added, removed, listed, reconciled and the agent restarted, and whatever
  SDK calls raise on the way, the manager's set for each subtype is what OpenD streams after the
  calls it was given, without repetition, and a restart recovers it from the KV store.
\<close>

theorem subscriptions_mirror_opend:
  assumes "codec_ok kc" and "(sm_step kc)\<^sup>*\<^sup>* new_sub_manager m"
  shows "opend_view (sm_calls m) st = set (subs_of (sm_subs m) st) \<and> distinct (subs_of (sm_subs m) st)
    \<and> set (subs_of (sm_subs (sm_restart kc m)) st) = set (subs_of (sm_subs m) st)"
proof -
  have "sm_inv kc new_sub_manager"
    by (simp add: sm_inv_def new_sub_manager_def subs_of_def opend_view_def kv_agrees_def)
  with assms(2) have inv: "sm_inv kc m" by (induction rule: rtranclp_induct) (use sm_inv_step [OF _ assms(1)] in blast)+
  have "sm_calls (sm_restart kc m) = sm_calls m"
    by (auto simp: sm_restart_def sm_load_def split: option.splits)
  then show ?thesis using inv inv_restart [OF assms(1) inv] by (simp add: sm_inv_def)
qed

text \<open>The document itself as the stored bytes.\<close>

definition plain_codec :: "subs_doc kv_codec" where
  "plain_codec = \<lparr>kc_dumps = id, kc_loads = Some, kc_truthy = (\<lambda>d. True)\<rparr>"

theorem subscriptions_mirror_opend_witness:
  "\<exists>m. sm_step plain_codec new_sub_manager m \<and> opend_view (sm_calls m) ''QUOTE'' = {''HK.00700''}
     \<and> set (subs_of (sm_subs (sm_restart plain_codec m)) ''QUOTE'') = {''HK.00700''}"
proof -
  let ?m = "snd (sm_add plain_codec (\<lambda>c. None) [''HK.00700'', ''HK.00700''] ''QUOTE'' new_sub_manager)"
  have step: "sm_step plain_codec new_sub_manager ?m" by (rule sm_step.adds)
  have "codec_ok plain_codec" by (simp add: codec_ok_def plain_codec_def)
  from subscriptions_mirror_opend [OF this r_into_rtranclp, OF step, of "''QUOTE''"]
  have "opend_view (sm_calls ?m) ''QUOTE'' = set (subs_of (sm_subs ?m) ''QUOTE'')"
    "set (subs_of (sm_subs (sm_restart plain_codec ?m)) ''QUOTE'') = set (subs_of (sm_subs ?m) ''QUOTE'')" by blast+
  moreover have "set (subs_of (sm_subs ?m) ''QUOTE'') = {''HK.00700''}"
    by (simp add: sm_add_def new_sub_manager_def touch_def subs_of_def sm_persist_def Let_def)
  ultimately show ?thesis using step by metis
qed

section \<open>The lake answers with fresh quotes only\<close>

lemma newest_in: "newest rows t \<in> set (t # rows) \<and> (\<forall>r \<in> set (t # rows). qt_ts r \<le> qt_ts (newest rows t))"
  unfolding newest_def
proof (induction rows arbitrary: t)
  case (Cons r rows)
  show ?case using Cons.IH [of "if qt_ts r > qt_ts t then r else t"] by (auto split: if_splits)
qed simp

text \<open>
  A price the lake facade returns is the price of the newest row of that ticker, and that row is
  no older than the freshness window.
\<close>

theorem lake_quotes_are_fresh:
  assumes "(t, x) \<in> set (lake_snapshot now max_age_s table tickers)"
  shows "t \<in> set tickers \<and> (\<exists>r \<in> set table. qt_ticker r = t \<and> qt_last r = x \<and> now - max_age_s \<le> qt_ts r
    \<and> (\<forall>q \<in> set table. qt_ticker q = t \<longrightarrow> qt_ts q \<le> qt_ts r))"
proof -
  let ?f = "fresh_rows (now - max_age_s) table t"
  have t: "t \<in> set tickers" and fx: "(t, x) \<in> set (case ?f of [] \<Rightarrow> [] | r # rs \<Rightarrow> [(t, qt_last (newest rs r))])"
    using assms by (auto simp: lake_snapshot_def sorted_strings_def Let_def split: list.splits)
  then obtain r rs where f: "?f = r # rs" and x: "x = qt_last (newest rs r)" by (cases ?f) auto
  let ?n = "newest rs r"
  have n: "?n \<in> set ?f" "\<And>q. q \<in> set ?f \<Longrightarrow> qt_ts q \<le> qt_ts ?n" using newest_in [of rs r] f by auto
  then have in_table: "?n \<in> set table" "qt_ticker ?n = t" "now - max_age_s \<le> qt_ts ?n" by (simp_all add: fresh_rows_def)
  have "qt_ts q \<le> qt_ts ?n" if "q \<in> set table" "qt_ticker q = t" for q
    using n(2) [of q] that in_table(3) by (cases "now - max_age_s \<le> qt_ts q") (auto simp: fresh_rows_def)
  then show ?thesis using t x in_table by blast
qed

theorem lake_quotes_are_fresh_witness:
  "\<exists>x. (''SPY'', x) \<in> set (lake_snapshot 1000 300
      [\<lparr>qt_ticker = ''SPY'', qt_exch = ''US'', qt_last = 500, qt_bid = None, qt_ask = None, qt_vol = None, qt_ts = 900, qt_src = ''futu''\<rparr>,
       \<lparr>qt_ticker = ''SPY'', qt_exch = ''US'', qt_last = 501, qt_bid = None, qt_ask = None, qt_vol = None, qt_ts = 950, qt_src = ''futu''\<rparr>]
      [''SPY'']) \<and> x = 501"
proof -
  let ?t = "[\<lparr>qt_ticker = ''SPY'', qt_exch = ''US'', qt_last = 500, qt_bid = None, qt_ask = None, qt_vol = None, qt_ts = 900, qt_src = ''futu''\<rparr>,
       \<lparr>qt_ticker = ''SPY'', qt_exch = ''US'', qt_last = 501, qt_bid = None, qt_ask = None, qt_vol = None, qt_ts = 950, qt_src = ''futu''\<rparr>]"
  obtain x where x: "(''SPY'', x) \<in> set (lake_snapshot 1000 300 ?t [''SPY''])"
    by (simp add: lake_snapshot_def fresh_rows_def sorted_strings_def)
  then show ?thesis using lake_quotes_are_fresh [OF x] by auto
qed

section \<open>The writer's count\<close>

lemma insert_ticks_keys:
  "tick_key ` set (fold insert_tick ticks rows) = tick_key ` set ticks \<union> tick_key ` set rows"
  by (induction ticks arbitrary: rows) (auto simp: insert_tick_def)

lemma insert_ticks_length:
  "length (fold insert_tick ticks rows) \<le> length rows + length ticks"
proof (induction ticks arbitrary: rows)
  case (Cons t ticks)
  have "length (insert_tick t rows) \<le> Suc (length rows)" by (simp add: insert_tick_def)
  with Cons.IH [of "insert_tick t rows"] show ?case by simp
qed simp

lemma insert_ticks_all_new_iff:
  "length (fold insert_tick ticks rows) = length rows + length ticks
     \<longleftrightarrow> distinct (map tick_key ticks) \<and> tick_key ` set ticks \<inter> tick_key ` set rows = {}"
proof (induction ticks arbitrary: rows)
  case (Cons t ticks)
  show ?case
  proof (cases "tick_key t \<in> tick_key ` set rows")
    case True
    then have "fold insert_tick (t # ticks) rows = fold insert_tick ticks rows" by (simp add: insert_tick_def)
    then show ?thesis using True insert_ticks_length [of ticks rows] by auto
  next
    case False
    then have "fold insert_tick (t # ticks) rows = fold insert_tick ticks (rows @ [t])" by (simp add: insert_tick_def)
    then show ?thesis using Cons.IH [of "rows @ [t]"] False by auto
  qed
qed simp

text \<open>
  The number the Postgres sink reports is the number of rows it inserted exactly if no two ticks
  of the batch share ticker and time and none of them is stored already; otherwise it is larger.
\<close>

theorem reported_rows_are_inserted_iff:
  "length (snd (pg_insert_batch ticks rows)) \<le> length rows + fst (pg_insert_batch ticks rows)
   \<and> (length (snd (pg_insert_batch ticks rows)) = length rows + fst (pg_insert_batch ticks rows)
      \<longleftrightarrow> distinct (map tick_key ticks) \<and> tick_key ` set ticks \<inter> tick_key ` set rows = {})"
  using insert_ticks_length [of ticks rows] insert_ticks_all_new_iff [of ticks rows]
  by (cases "ticks = []") (simp_all add: pg_insert_batch_def)

section \<open>The aggregate does not see currencies\<close>

text \<open>The same clients with every account in currency \<open>v\<close>.\<close>

definition in_currency :: "json \<Rightarrow> futu_client \<Rightarrow> futu_client" where
  "in_currency v c = c\<lparr>fc_acc_list := (fst (fc_acc_list c), map (AList.update ''base_currency'' v) (snd (fc_acc_list c)))\<rparr>"

definition same_position :: "position_state \<Rightarrow> position_state \<Rightarrow> bool" where
  "same_position p q \<longleftrightarrow> po_market_value p = po_market_value q"

definition same_account :: "account_state \<Rightarrow> account_state \<Rightarrow> bool" where
  "same_account a b \<longleftrightarrow> ac_nav a = ac_nav b \<and> ac_cash a = ac_cash b
     \<and> list_all2 same_position (ac_positions a) (ac_positions b)"

lemma rel_bind:
  "rel_sum (=) R r s \<Longrightarrow> (\<And>x y. R x y \<Longrightarrow> rel_sum (=) Q (f x) (g y)) \<Longrightarrow> rel_sum (=) Q (res_bind r f) (res_bind s g)"
  by (cases r; cases s) auto

lemma rel_those: "list_all2 (rel_sum (=) R) xs ys \<Longrightarrow> rel_sum (=) (list_all2 R) (those_res xs) (those_res ys)"
  by (induction rule: list_all2_induct) (auto intro!: rel_bind)

lemma rel_same: "rel_sum (=) (=) r r"
  by (cases r) auto

lemma read_position_currency: "rel_sum (=) same_position (read_position py u p) (read_position py v p)"
  unfolding read_position_def
  by (intro rel_bind [where R = "(=)"] rel_same) (simp_all add: same_position_def rel_same)

lemma get_float_other: "k \<noteq> ''base_currency'' \<Longrightarrow> get_float py (AList.update ''base_currency'' v acc) k = get_float py acc k"
  by (simp add: get_float_def jget_or_def)

lemma account_of_currency:
  "rel_sum (=) same_account (account_of py c acc u i) (account_of py (in_currency v c) (AList.update ''base_currency'' v acc) v i)"
proof -
  have p: "fc_positions (in_currency v c) = fc_positions c" by (simp add: in_currency_def)
  have "rel_sum (=) (list_all2 same_position)
      (if fst (fc_positions c i) = 0 then those_res (map (read_position py u) (snd (fc_positions c i))) else Inr [])
      (if fst (fc_positions c i) = 0 then those_res (map (read_position py v) (snd (fc_positions c i))) else Inr [])"
    by (auto intro!: rel_those read_position_currency simp: list.rel_map list_all2_same)
  then show ?thesis
    unfolding account_of_def p
    by (rule rel_bind) (auto simp: get_float_other same_account_def intro!: rel_bind [OF rel_same])
qed

lemma read_account_currency:
  "rel_sum (=) same_account (read_account py c acc) (read_account py (in_currency v c) (AList.update ''base_currency'' v acc))"
proof -
  have "jget_or (JObj (AList.update ''base_currency'' v acc)) ''base_currency'' (JStr ''USD'') = v"
    "jitem (JObj (AList.update ''base_currency'' v acc)) ''acc_id'' = jitem (JObj acc) ''acc_id''"
    by (simp_all add: jget_or_def jitem_def)
  then show ?thesis unfolding read_account_def using account_of_currency by (auto intro: rel_bind [OF rel_same])
qed

lemma client_accounts_currency: "rel_sum (=) (list_all2 same_account) (client_accounts py c) (client_accounts py (in_currency v c))"
  unfolding client_accounts_def in_currency_def
  using read_account_currency [of py c _ v]
  by (auto intro!: rel_those simp: list.rel_map list_all2_same in_currency_def)

lemma same_sums:
  assumes "list_all2 same_account as bs"
  shows "sum_list (map ac_nav as) = sum_list (map ac_nav bs) \<and> sum_list (map ac_cash as) = sum_list (map ac_cash bs)
    \<and> list_all2 same_position (concat (map ac_positions as)) (concat (map ac_positions bs))"
  using assms by (induction rule: list_all2_induct) (auto simp: same_account_def intro: list_all2_appendI)

lemma same_concentration:
  assumes "list_all2 same_position ps qs"
  shows "foldl (\<lambda>largest p. let pct = \<bar>po_market_value p\<bar> / n * 100 in if pct > largest then pct else largest) l ps
    = foldl (\<lambda>largest p. let pct = \<bar>po_market_value p\<bar> / n * 100 in if pct > largest then pct else largest) l qs"
  using assms by (induction arbitrary: l rule: list_all2_induct) (simp_all add: same_position_def Let_def)

text \<open>
  The portfolio aggregate adds amounts without regard to their currency: relabelling every
  account to any currency changes neither the total, labelled USD, nor the cash nor the
  concentration.
\<close>

theorem aggregate_ignores_currencies:
  assumes "aggregate_snapshot py clients = Inr s"
  shows "\<exists>s'. aggregate_snapshot py (map (in_currency v) clients) = Inr s'
    \<and> ag_nav s' = ag_nav s \<and> ag_cash s' = ag_cash s \<and> ag_base_currency s' = ''USD''
    \<and> ag_largest_concentration_pct_nav s' = ag_largest_concentration_pct_nav s"
proof -
  obtain per where per: "those_res (map (client_accounts py) clients) = Inr per"
    using assms by (auto simp: aggregate_snapshot_def res_bind_Inr_iff)
  have "rel_sum (=) (list_all2 (list_all2 same_account)) (those_res (map (client_accounts py) clients))
      (those_res (map (client_accounts py) (map (in_currency v) clients)))"
    by (rule rel_those) (simp add: list.rel_map list_all2_same client_accounts_currency)
  then obtain per' where per': "those_res (map (client_accounts py) (map (in_currency v) clients)) = Inr per'"
    "list_all2 (list_all2 same_account) per per'" using per by (cases "those_res (map (client_accounts py) (map (in_currency v) clients))") auto
  have "list_all2 same_account (concat per) (concat per')"
    using per'(2) by (induction rule: list_all2_induct) (auto intro: list_all2_appendI)
  from same_sums [OF this] same_concentration show ?thesis
    using assms per per'(1) by (auto simp: aggregate_snapshot_def Let_def largest_concentration_pct_def)
qed

text \<open>The two accounts of the fixture \<open>make_fake_openD_pair\<close>, in dollars and in Hong Kong dollars, without positions.\<close>

definition fixture_account :: "string \<Rightarrow> string \<Rightarrow> rat \<Rightarrow> futu_client" where
  "fixture_account i ccy nav = \<lparr>fc_id_hash = i, fc_acc_list = (0, [[(''acc_id'', JStr i), (''base_currency'', JStr ccy), (''nav'', JNum nav)]]),
     fc_positions = (\<lambda>a. (0, []))\<rparr>"

theorem aggregate_ignores_currencies_witness:
  "\<exists>s s'. aggregate_snapshot py_ascii [fixture_account ''a'' ''USD'' 100000, fixture_account ''b'' ''HKD'' 500000] = Inr s
     \<and> ag_nav s = 600000
     \<and> aggregate_snapshot py_ascii (map (in_currency (JStr ''USD'')) [fixture_account ''a'' ''USD'' 100000, fixture_account ''b'' ''HKD'' 500000]) = Inr s'
     \<and> ag_nav s' = 600000"
proof -
  obtain s where s: "aggregate_snapshot py_ascii [fixture_account ''a'' ''USD'' 100000, fixture_account ''b'' ''HKD'' 500000] = Inr s" "ag_nav s = 600000"
    by (simp add: aggregate_snapshot_def client_accounts_def fixture_account_def read_account_def account_of_def jitem_def get_float_def
        jget_or_def Let_def)
  from aggregate_ignores_currencies [OF s(1), of "JStr ''USD''"] s show ?thesis by auto
qed

end
