(* ===== verification/Marks.thy ===== *)
theory Marks
  imports Json
begin

text \<open>
  The live mark resolver (\<^verbatim>\<open>packages/data-lake/data_lake/quotes.py\<close>): the process cache, the Redis
  cache and the backend behind \<open>get_mark\<close>, and the default backend's query. The monotonic
  clock and Redis's own are one clock. Redis is a map with an expiry; \<open>rd\<close> and \<open>wr\<close> say whether
  a read or a write of it works. The backend is a function of the time of the call.
\<close>

section \<open>Marks and caches\<close>

definition CACHE_TTL_S :: rat where "CACHE_TTL_S = 30"

record mark =
  mk_price :: rat
  mk_bar_ts :: seconds
  mk_asof :: seconds
  mk_stale_seconds :: int
  mk_source :: string

record asset_like =
  al_kind :: string
  al_ticker :: string

definition cache_key :: "asset_like \<Rightarrow> string" where
  "cache_key a = ''cache:mark:'' @ al_kind a @ '':'' @ al_ticker a"

record mark_cache =
  mc_mem :: "string \<rightharpoonup> seconds \<times> mark"
  mc_redis :: "string \<rightharpoonup> seconds \<times> mark"

definition redis_cache_get :: "bool \<Rightarrow> seconds \<Rightarrow> string \<Rightarrow> mark_cache \<Rightarrow> mark option" where
  "redis_cache_get rd now key c =
     (if \<not> rd then None
      else case mc_redis c key of
          None \<Rightarrow> None
        | Some (expires, m) \<Rightarrow> if now < expires then Some (m\<lparr>mk_source := ''redis-cache''\<rparr>) else None)"

definition redis_cache_put :: "bool \<Rightarrow> seconds \<Rightarrow> string \<Rightarrow> mark \<Rightarrow> mark_cache \<Rightarrow> mark_cache" where
  "redis_cache_put wr now key m c = (if wr then c\<lparr>mc_redis := (mc_redis c)(key \<mapsto> (now + CACHE_TTL_S, m))\<rparr> else c)"

text \<open>A cached mark as it is returned for a query time: only its staleness is new.\<close>

definition recast :: "mark \<Rightarrow> seconds \<Rightarrow> string \<Rightarrow> mark" where
  "recast m asof src = \<lparr>mk_price = mk_price m, mk_bar_ts = mk_bar_ts m, mk_asof = asof,
     mk_stale_seconds = trunc (asof - mk_bar_ts m), mk_source = src\<rparr>"

text \<open>\<open>t1\<close> is when the fetched mark is stored: not before the call began.\<close>

definition get_mark :: "(asset_like \<Rightarrow> seconds \<Rightarrow> string + mark) \<Rightarrow> bool \<Rightarrow> bool \<Rightarrow> seconds \<Rightarrow> seconds \<Rightarrow> asset_like \<Rightarrow> seconds
    \<Rightarrow> mark_cache \<Rightarrow> (string + mark) \<times> mark_cache" where
  "get_mark fetcher rd wr now t1 a asof c =
     (let key = cache_key a;
          mem = (case mc_mem c key of None \<Rightarrow> None | Some (ts, m) \<Rightarrow> if now - ts < CACHE_TTL_S then Some m else None)
      in case mem of
           Some m \<Rightarrow> (Inr (recast m asof ''mem-cache''), c)
         | None \<Rightarrow>
             (case redis_cache_get rd now key c of
                Some m \<Rightarrow> (Inr (recast m asof ''redis-cache''), c)
              | None \<Rightarrow>
                  (case fetcher a asof of
                     Inl e \<Rightarrow> (Inl e, c)
                   | Inr m \<Rightarrow> (Inr m, redis_cache_put wr t1 key m (c\<lparr>mc_mem := (mc_mem c)(key \<mapsto> (t1, m))\<rparr>)))))"

section \<open>The default backend\<close>

record bar =
  ba_symbol :: string
  ba_ts :: seconds
  ba_as_of :: seconds
  ba_close :: rat

definition bar_before :: "bar \<Rightarrow> bar \<Rightarrow> bool" where
  "bar_before b b' \<longleftrightarrow> ba_ts b < ba_ts b' \<or> ba_ts b = ba_ts b' \<and> ba_as_of b < ba_as_of b'"

text \<open>\<open>ORDER BY ts DESC, as_of DESC LIMIT 1\<close>.\<close>

definition latest_bar :: "bar list \<Rightarrow> bar option" where
  "latest_bar bs = (case bs of [] \<Rightarrow> None | b # bs' \<Rightarrow> Some (foldl (\<lambda>best b. if bar_before best b then b else best) b bs'))"

definition no_data_mark :: "seconds \<Rightarrow> string \<Rightarrow> mark" where
  "no_data_mark asof src = \<lparr>mk_price = 0, mk_bar_ts = asof - 30 * 86400, mk_asof = asof, mk_stale_seconds = 30 * 24 * 3600, mk_source = src\<rparr>"

definition query_timescale_latest :: "bar list \<Rightarrow> asset_like \<Rightarrow> seconds \<Rightarrow> mark" where
  "query_timescale_latest table a asof =
     (case latest_bar (filter (\<lambda>b. ba_symbol b = al_ticker a \<and> ba_ts b \<le> asof \<and> ba_as_of b \<le> asof) table) of
        None \<Rightarrow> no_data_mark asof ''no-bar''
      | Some b \<Rightarrow> \<lparr>mk_price = ba_close b, mk_bar_ts = ba_ts b, mk_asof = asof,
          mk_stale_seconds = max 0 (trunc (asof - ba_ts b)), mk_source = ''timescale''\<rparr>)"

text \<open>\<open>fake\<close> is the environment's price (\<open>Some None\<close>: set, but no number); the table is None when the database fails.\<close>

definition default_fetcher :: "rat option option \<Rightarrow> bar list option \<Rightarrow> asset_like \<Rightarrow> seconds \<Rightarrow> mark" where
  "default_fetcher fake table a asof =
     (case fake of
        Some p \<Rightarrow> \<lparr>mk_price = (case p of None \<Rightarrow> 100 | Some x \<Rightarrow> x), mk_bar_ts = asof - 60, mk_asof = asof,
                   mk_stale_seconds = 60, mk_source = ''env-fake''\<rparr>
      | None \<Rightarrow> (case table of None \<Rightarrow> no_data_mark asof ''unavailable'' | Some t \<Rightarrow> query_timescale_latest t a asof))"

section \<open>The backend looks back only\<close>

lemma foldl_latest:
  "foldl (\<lambda>best b. if bar_before best b then b else best) b bs \<in> set (b # bs)
   \<and> (\<forall>c \<in> set (b # bs). \<not> bar_before (foldl (\<lambda>best b. if bar_before best b then b else best) b bs) c)"
proof (induction bs arbitrary: b)
  case Nil
  then show ?case by (simp add: bar_before_def)
next
  case (Cons x bs)
  let ?b = "if bar_before b x then x else b"
  have IH: "foldl (\<lambda>best b. if bar_before best b then b else best) ?b bs \<in> set (?b # bs)"
    "\<And>c. c \<in> set (?b # bs) \<Longrightarrow> \<not> bar_before (foldl (\<lambda>best b. if bar_before best b then b else best) ?b bs) c"
    using Cons.IH [of ?b] by blast+
  have trans: "\<not> bar_before r b \<Longrightarrow> \<not> bar_before b x \<Longrightarrow> \<not> bar_before r x" for r by (auto simp: bar_before_def)
  have trans': "\<not> bar_before r x \<Longrightarrow> bar_before b x \<Longrightarrow> \<not> bar_before r b" for r by (auto simp: bar_before_def)
  show ?case using IH trans trans' by (auto split: if_splits)
qed

lemma latest_bar_Some:
  assumes "latest_bar bs = Some b"
  shows "b \<in> set bs \<and> (\<forall>c \<in> set bs. \<not> bar_before b c)"
  using assms foldl_latest by (cases bs) (auto simp: latest_bar_def)

text \<open>
  The mark the default backend reads for a query time is never from a bar that was stamped or
  became known later, and is the newest such bar; without one it is the flagged empty mark.
\<close>

theorem backend_mark_is_point_in_time:
  assumes "query_timescale_latest table a asof = m" and "mk_source m = ''timescale''"
  shows "\<exists>b \<in> set table. ba_symbol b = al_ticker a \<and> ba_close b = mk_price m \<and> ba_ts b = mk_bar_ts m
    \<and> ba_ts b \<le> asof \<and> ba_as_of b \<le> asof
    \<and> (\<forall>c \<in> set table. ba_symbol c = al_ticker a \<and> ba_ts c \<le> asof \<and> ba_as_of c \<le> asof \<longrightarrow> \<not> bar_before b c)"
proof -
  let ?rows = "filter (\<lambda>b. ba_symbol b = al_ticker a \<and> ba_ts b \<le> asof \<and> ba_as_of b \<le> asof) table"
  obtain b where b: "latest_bar ?rows = Some b"
    using assms by (cases "latest_bar ?rows") (auto simp: query_timescale_latest_def no_data_mark_def)
  then have "m = \<lparr>mk_price = ba_close b, mk_bar_ts = ba_ts b, mk_asof = asof,
      mk_stale_seconds = max 0 (trunc (asof - ba_ts b)), mk_source = ''timescale''\<rparr>"
    using assms(1) by (simp add: query_timescale_latest_def)
  then show ?thesis using latest_bar_Some [OF b] by (intro bexI [of _ b]) auto
qed

definition spy_bars :: "bar list" where
  "spy_bars = [\<lparr>ba_symbol = ''SPY'', ba_ts = 100, ba_as_of = 110, ba_close = 500\<rparr>,
     \<lparr>ba_symbol = ''SPY'', ba_ts = 200, ba_as_of = 210, ba_close = 510\<rparr>]"

definition spy_asset :: asset_like where
  "spy_asset = \<lparr>al_kind = ''etf'', al_ticker = ''SPY''\<rparr>"

theorem backend_mark_is_point_in_time_witness:
  "mk_price (query_timescale_latest spy_bars spy_asset 205) = 500"
proof -
  have src: "mk_source (query_timescale_latest spy_bars spy_asset 205) = ''timescale''"
    by (simp add: query_timescale_latest_def spy_bars_def spy_asset_def latest_bar_def)
  from backend_mark_is_point_in_time [OF refl src] show ?thesis by (auto simp: spy_bars_def)
qed

section \<open>The caches do not look at the query time\<close>

text \<open>
  Within 30 seconds of a fetch, \<open>get_mark\<close> answers every query for the asset, whatever its
  query time, with the price and bar fetched: a query about the past is answered with a bar
  from its future, and a negative staleness.
\<close>

theorem cached_mark_ignores_query_time:
  assumes "get_mark fetcher rd wr now t1 a asof c = (Inr m, c')" and "mc_mem c (cache_key a) = None"
    and "redis_cache_get rd now (cache_key a) c = None" and "now' - t1 < CACHE_TTL_S"
  shows "\<exists>m'. fst (get_mark fetcher' rd' wr' now' t2 a asof' c') = Inr m' \<and> mk_price m' = mk_price m
    \<and> mk_bar_ts m' = mk_bar_ts m \<and> mk_stale_seconds m' = trunc (asof' - mk_bar_ts m)"
proof -
  have "c' = redis_cache_put wr t1 (cache_key a) m (c\<lparr>mc_mem := (mc_mem c)(cache_key a \<mapsto> (t1, m))\<rparr>)"
    using assms(1-3) by (auto simp: get_mark_def Let_def split: sum.splits)
  then have "mc_mem c' (cache_key a) = Some (t1, m)" by (simp add: redis_cache_put_def)
  then have "fst (get_mark fetcher' rd' wr' now' t2 a asof' c') = Inr (recast m asof' ''mem-cache'')"
    using assms(4) by (simp add: get_mark_def)
  then show ?thesis by (simp add: recast_def)
qed

definition no_cache :: mark_cache where
  "no_cache = \<lparr>mc_mem = Map.empty, mc_redis = Map.empty\<rparr>"

text \<open>At time 300 today's price is read; a second later a backtest asks for time 150 and is given the bar of time 200.\<close>

theorem cached_mark_ignores_query_time_witness:
  "let backend = \<lambda>a t. Inr (query_timescale_latest spy_bars a t);
       (first, c) = get_mark backend True True 300 300 spy_asset 300 no_cache
   in \<exists>m'. fst (get_mark backend True True 301 301 spy_asset 150 c) = Inr m' \<and> mk_price m' = 510 \<and> mk_bar_ts m' > 150"
proof -
  let ?b = "\<lambda>a t. Inr (query_timescale_latest spy_bars a t) :: string + mark"
  have m: "query_timescale_latest spy_bars spy_asset 300
      = \<lparr>mk_price = 510, mk_bar_ts = 200, mk_asof = 300, mk_stale_seconds = 100, mk_source = ''timescale''\<rparr>" (is "_ = ?m")
    using trunc_of_int [of 100] by (simp add: query_timescale_latest_def spy_bars_def spy_asset_def latest_bar_def bar_before_def)
  obtain c where c: "get_mark ?b True True 300 300 spy_asset 300 no_cache = (Inr ?m, c)"
    using m by (simp add: get_mark_def no_cache_def redis_cache_get_def Let_def)
  from cached_mark_ignores_query_time [OF c, of 301 ?b True True 301 150]
  show ?thesis unfolding c Let_def case_prod_conv by (auto simp: no_cache_def redis_cache_get_def CACHE_TTL_S_def)
qed

section \<open>How old a price can be\<close>

text \<open>
  \<open>fetched t key m\<close>: the backend gave \<open>m\<close> for the key at time \<open>t\<close>. Every cached mark was fetched when
  its entry says.
\<close>

definition cache_inv :: "(seconds \<Rightarrow> string \<Rightarrow> mark \<Rightarrow> bool) \<Rightarrow> mark_cache \<Rightarrow> bool" where
  "cache_inv fetched c \<longleftrightarrow>
     (\<forall>k t m. mc_mem c k = Some (t, m) \<longrightarrow> fetched t k m)
     \<and> (\<forall>k e m. mc_redis c k = Some (e, m) \<longrightarrow> fetched (e - CACHE_TTL_S) k m)"

definition logs_fetches :: "(seconds \<Rightarrow> string \<Rightarrow> mark \<Rightarrow> bool) \<Rightarrow> seconds \<Rightarrow> (asset_like \<Rightarrow> seconds \<Rightarrow> string + mark) \<Rightarrow> bool" where
  "logs_fetches fetched t fetcher \<longleftrightarrow> (\<forall>a asof m. fetcher a asof = Inr m \<longrightarrow> fetched t (cache_key a) m)"

lemma cache_inv_get_mark:
  "cache_inv fetched c \<Longrightarrow> logs_fetches fetched t1 fetcher \<Longrightarrow> cache_inv fetched (snd (get_mark fetcher rd wr now t1 a asof c))"
  by (auto simp: get_mark_def Let_def cache_inv_def logs_fetches_def redis_cache_put_def split: option.splits sum.splits prod.splits)

fun mark_run :: "(seconds \<Rightarrow> asset_like \<Rightarrow> seconds \<Rightarrow> string + mark) \<Rightarrow> (seconds \<times> bool \<times> bool \<times> asset_like \<times> seconds) list
    \<Rightarrow> mark_cache \<Rightarrow> mark_cache" where
  "mark_run backend [] c = c"
| "mark_run backend ((now, rd, wr, a, asof) # qs) c = mark_run backend qs (snd (get_mark (backend now) rd wr now now a asof c))"

text \<open>
  After any queries, with Redis working or not, a price \<open>get_mark\<close> returns was given by the
  backend for the same asset within the last 30 seconds.
\<close>

theorem price_is_at_most_30_seconds_old:
  assumes "fst (get_mark (backend now) rd wr now now a asof (mark_run backend qs no_cache)) = Inr m"
  shows "\<exists>t b asof' m'. backend t b asof' = Inr m' \<and> cache_key b = cache_key a \<and> mk_price m' = mk_price m
    \<and> mk_bar_ts m' = mk_bar_ts m \<and> now - t \<le> CACHE_TTL_S"
proof -
  define F where "F t k m \<longleftrightarrow> (\<exists>b asof. backend t b asof = Inr m \<and> cache_key b = k)" for t k m
  have logs: "logs_fetches F t (backend t)" for t by (auto simp: logs_fetches_def F_def)
  have "cache_inv F (mark_run backend qs c)" if "cache_inv F c" for c
    using that
  proof (induction qs arbitrary: c)
    case (Cons q qs)
    obtain t rd wr b asof' where q: "q = (t, rd, wr, b, asof')" by (cases q)
    show ?case using Cons.IH [OF cache_inv_get_mark [OF Cons.prems logs]] by (simp add: q)
  qed simp
  moreover have "cache_inv F no_cache" by (simp add: cache_inv_def no_cache_def)
  ultimately have inv: "cache_inv F (mark_run backend qs no_cache)" .
  let ?c = "mark_run backend qs no_cache"
  consider (mem) t m0 where "mc_mem ?c (cache_key a) = Some (t, m0)" "now - t < CACHE_TTL_S" "m = recast m0 asof ''mem-cache''"
    | (redis) e m0 where "mc_redis ?c (cache_key a) = Some (e, m0)" "now < e" "mk_price m = mk_price m0" "mk_bar_ts m = mk_bar_ts m0"
    | (backend) "backend now a asof = Inr m"
    using assms by (auto simp: get_mark_def Let_def redis_cache_get_def recast_def split: option.splits sum.splits prod.splits if_splits)
  then show ?thesis
  proof cases
    case mem
    then have "F t (cache_key a) m0" using inv by (auto simp: cache_inv_def)
    then obtain b asof' where "backend t b asof' = Inr m0" "cache_key b = cache_key a" unfolding F_def by blast
    then show ?thesis using mem by (intro exI [of _ t] exI [of _ b] exI [of _ asof'] exI [of _ m0]) (simp add: recast_def)
  next
    case redis
    then have "F (e - CACHE_TTL_S) (cache_key a) m0" using inv by (auto simp: cache_inv_def)
    then obtain b asof' where "backend (e - CACHE_TTL_S) b asof' = Inr m0" "cache_key b = cache_key a" unfolding F_def by blast
    then show ?thesis using redis by (intro exI [of _ "e - CACHE_TTL_S"] exI [of _ b] exI [of _ asof'] exI [of _ m0]) auto
  next
    case backend
    then show ?thesis by (intro exI [of _ now] exI [of _ a] exI [of _ asof] exI [of _ m]) (simp add: CACHE_TTL_S_def)
  qed
qed

theorem price_is_at_most_30_seconds_old_witness:
  "\<exists>b asof'. mk_price (query_timescale_latest spy_bars b asof') = 510 \<and> cache_key b = cache_key spy_asset"
proof -
  let ?b = "\<lambda>now a t. Inr (query_timescale_latest spy_bars a t) :: string + mark"
  have "mk_price (query_timescale_latest spy_bars spy_asset 301) = 510"
    by (simp add: query_timescale_latest_def spy_bars_def spy_asset_def latest_bar_def bar_before_def)
  then obtain m where m: "fst (get_mark (?b 301) True True 301 301 spy_asset 301 (mark_run ?b [] no_cache)) = Inr m" "mk_price m = 510"
    by (simp add: get_mark_def no_cache_def redis_cache_get_def Let_def)
  from price_is_at_most_30_seconds_old [OF m(1)] m(2) show ?thesis by auto
qed

end
