(* ===== verification/SecretaryStores.thy ===== *)
theory SecretaryStores
  imports PyStd
begin

text \<open>
  The stores of the secretary (\<^verbatim>\<open>apps/agent_secretary/secretary/\<close>): user preferences with an
  optional expiry (\<^verbatim>\<open>prefs.py\<close>) and conversation memory (\<^verbatim>\<open>memory.py\<close>), each in its in-memory
  and its Postgres form, and the allow-list (\<^verbatim>\<open>auth.py\<close>). A Postgres table is the list of its
  rows in the order they were written.
\<close>

section \<open>Preferences\<close>

record pref_row =
  pf_user :: string
  pf_key :: string
  pf_value :: string
  pf_expires_at :: "seconds option"

text \<open>A time-to-live of None or 0 is no time-to-live.\<close>

definition expiry_of :: "seconds \<Rightarrow> int option \<Rightarrow> seconds option" where
  "expiry_of now ttl = (case ttl of None \<Rightarrow> None | Some s \<Rightarrow> if s = 0 then None else Some (now + of_int s))"

type_synonym mem_prefs = "(string \<times> string, pref_row) dict"

definition mp_get :: "seconds \<Rightarrow> string \<Rightarrow> string \<Rightarrow> mem_prefs \<Rightarrow> string option" where
  "mp_get now user key d =
     (case map_of d (user, key) of
        None \<Rightarrow> None
      | Some r \<Rightarrow> (case pf_expires_at r of None \<Rightarrow> Some (pf_value r) | Some e \<Rightarrow> if e < now then None else Some (pf_value r)))"

definition mp_set :: "seconds \<Rightarrow> string \<Rightarrow> string \<Rightarrow> string \<Rightarrow> int option \<Rightarrow> mem_prefs \<Rightarrow> mem_prefs" where
  "mp_set now user key v ttl d =
     AList.update (user, key) \<lparr>pf_user = user, pf_key = key, pf_value = v, pf_expires_at = expiry_of now ttl\<rparr> d"

definition live :: "seconds \<Rightarrow> pref_row \<Rightarrow> bool" where
  "live now r = (case pf_expires_at r of None \<Rightarrow> True | Some e \<Rightarrow> e > now)"

definition mp_all_for :: "seconds \<Rightarrow> string \<Rightarrow> mem_prefs \<Rightarrow> string \<rightharpoonup> string" where
  "mp_all_for now user d =
     map_of (rev (map (\<lambda>(k, r). (pf_key r, pf_value r)) (filter (\<lambda>((u, k), r). u = user \<and> live now r) d)))"

text \<open>The table lake.user_prefs, with (user_id, key) its primary key.\<close>

type_synonym pg_prefs = "pref_row list"

definition same_pref :: "string \<Rightarrow> string \<Rightarrow> pref_row \<Rightarrow> bool" where
  "same_pref user key r \<longleftrightarrow> pf_user r = user \<and> pf_key r = key"

definition pp_get :: "seconds \<Rightarrow> string \<Rightarrow> string \<Rightarrow> pg_prefs \<Rightarrow> string option" where
  "pp_get now user key t =
     (case find (same_pref user key) t of
        None \<Rightarrow> None
      | Some r \<Rightarrow> (case pf_expires_at r of None \<Rightarrow> Some (pf_value r) | Some e \<Rightarrow> if e < now then None else Some (pf_value r)))"

definition pp_set :: "seconds \<Rightarrow> string \<Rightarrow> string \<Rightarrow> string \<Rightarrow> int option \<Rightarrow> pg_prefs \<Rightarrow> pg_prefs" where
  "pp_set now user key v ttl t =
     (let r = \<lparr>pf_user = user, pf_key = key, pf_value = v, pf_expires_at = expiry_of now ttl\<rparr> in
      if list_ex (same_pref user key) t then map (\<lambda>q. if same_pref user key q then r else q) t else t @ [r])"

definition pp_all_for :: "seconds \<Rightarrow> string \<Rightarrow> pg_prefs \<Rightarrow> string \<rightharpoonup> string" where
  "pp_all_for now user t = map_of (rev (map (\<lambda>r. (pf_key r, pf_value r)) (filter (\<lambda>r. pf_user r = user \<and> live now r) t)))"

section \<open>Conversation memory\<close>

datatype role = User | Assistant | System | Tool

record thread_turn =
  tt_thread_id :: string
  tt_ts :: seconds
  tt_role :: role
  tt_content :: string
  tt_trace_id :: "string option"

definition thread_append :: "string \<Rightarrow> role \<Rightarrow> string \<Rightarrow> string option \<Rightarrow> seconds \<Rightarrow> thread_turn list \<Rightarrow> thread_turn list" where
  "thread_append thread_id r content trace now turns =
     turns @ [\<lparr>tt_thread_id = thread_id, tt_ts = now, tt_role = r, tt_content = content, tt_trace_id = trace\<rparr>]"

definition in_thread :: "string \<Rightarrow> seconds \<Rightarrow> nat \<Rightarrow> thread_turn \<Rightarrow> bool" where
  "in_thread thread_id now max_age_days t \<longleftrightarrow> tt_thread_id t = thread_id \<and> tt_ts t \<ge> now - of_nat max_age_days * 86400"

text \<open>\<open>rows[-n:]\<close>; with \<open>n = 0\<close> that is all the rows.\<close>

definition mem_last_n :: "string \<Rightarrow> nat \<Rightarrow> nat \<Rightarrow> seconds \<Rightarrow> thread_turn list \<Rightarrow> thread_turn list" where
  "mem_last_n thread_id n max_age_days now turns =
     (let rows = filter (in_thread thread_id now max_age_days) turns
      in if n = 0 then rows else drop (length rows - n) rows)"

text \<open>\<open>ORDER BY ts ASC LIMIT :n\<close>.\<close>

definition pg_last_n :: "string \<Rightarrow> nat \<Rightarrow> nat \<Rightarrow> seconds \<Rightarrow> thread_turn list \<Rightarrow> thread_turn list" where
  "pg_last_n thread_id n max_age_days now turns =
     take n (sort_key tt_ts (filter (in_thread thread_id now max_age_days) turns))"

section \<open>The allow-list\<close>

definition allowed_users :: "string \<Rightarrow> string list" where
  "allowed_users env = filter (\<lambda>u. u \<noteq> []) (map strip (split_on CHR '','' env))"

text \<open>\<open>allowed or allowed_users()\<close>: an empty set falls back to the environment.\<close>

definition is_allowed :: "string \<Rightarrow> string \<Rightarrow> string list option \<Rightarrow> bool" where
  "is_allowed env user_id allowed \<longleftrightarrow>
     user_id \<in> set (case allowed of None \<Rightarrow> allowed_users env | Some a \<Rightarrow> if a = [] then allowed_users env else a)"

section \<open>The two preference stores agree\<close>

text \<open>The table as the dictionary it stands for.\<close>

definition prefs_abs :: "pg_prefs \<Rightarrow> mem_prefs" where
  "prefs_abs t = map (\<lambda>r. ((pf_user r, pf_key r), r)) t"

definition pg_ok :: "pg_prefs \<Rightarrow> bool" where
  "pg_ok t \<longleftrightarrow> distinct (map (\<lambda>r. (pf_user r, pf_key r)) t)"

lemma prefs_abs_get: "map_of (prefs_abs t) (user, key) = find (same_pref user key) t"
  by (induction t) (auto simp: prefs_abs_def same_pref_def)

lemma prefs_abs_set:
  "pg_ok t \<Longrightarrow> prefs_abs (pp_set now user key v ttl t) = mp_set now user key v ttl (prefs_abs t)"
proof (induction t)
  case (Cons q t)
  show ?case
  proof (cases "same_pref user key q")
    case True
    have none: "\<not> same_pref user key x" if "x \<in> set t" for x
      using Cons.prems True that by (auto simp: pg_ok_def same_pref_def image_iff)
    then have "map (\<lambda>q. if same_pref user key q then r else q) t = t" for r by (intro map_idI) auto
    then show ?thesis using True by (simp add: pp_set_def mp_set_def prefs_abs_def same_pref_def Let_def)
  next
    case False
    then have "(pf_user q, pf_key q) \<noteq> (user, key)" by (auto simp: same_pref_def)
    moreover have "pg_ok t" using Cons.prems by (simp add: pg_ok_def)
    ultimately show ?thesis using Cons.IH False
      by (auto simp: pp_set_def mp_set_def prefs_abs_def Let_def)
  qed
qed (simp add: pp_set_def mp_set_def prefs_abs_def)

lemma pg_ok_set: "pg_ok t \<Longrightarrow> pg_ok (pp_set now user key v ttl t)"
proof -
  assume ok: "pg_ok t"
  have keys: "map (\<lambda>r. (pf_user r, pf_key r)) t = keys (prefs_abs t)" for t by (simp add: prefs_abs_def)
  have "distinct (keys (mp_set now user key v ttl (prefs_abs t)))"
    unfolding mp_set_def using ok by (intro distinct_keys_update) (simp add: pg_ok_def keys)
  then show ?thesis unfolding pg_ok_def keys prefs_abs_set [OF ok] .
qed

lemma prefs_abs_all: "mp_all_for now user (prefs_abs t) = pp_all_for now user t"
proof -
  have "filter (\<lambda>((u, k), r). u = user \<and> live now r) (prefs_abs t)
      = map (\<lambda>r. ((pf_user r, pf_key r), r)) (filter (\<lambda>r. pf_user r = user \<and> live now r) t)"
    by (induction t) (auto simp: prefs_abs_def)
  then show ?thesis by (simp add: mp_all_for_def pp_all_for_def comp_def)
qed

record pref_write =
  pw_now :: seconds
  pw_user :: string
  pw_key :: string
  pw_value :: string
  pw_ttl :: "int option"

definition mem_writes :: "pref_write list \<Rightarrow> mem_prefs" where
  "mem_writes ws = foldl (\<lambda>d w. mp_set (pw_now w) (pw_user w) (pw_key w) (pw_value w) (pw_ttl w) d) [] ws"

definition pg_writes :: "pref_write list \<Rightarrow> pg_prefs" where
  "pg_writes ws = foldl (\<lambda>t w. pp_set (pw_now w) (pw_user w) (pw_key w) (pw_value w) (pw_ttl w) t) [] ws"

lemma writes_abs: "pg_ok (pg_writes ws) \<and> prefs_abs (pg_writes ws) = mem_writes ws"
proof (induction ws rule: rev_induct)
  case Nil
  then show ?case by (simp add: pg_writes_def mem_writes_def pg_ok_def prefs_abs_def)
next
  case (snoc w ws)
  then show ?case by (simp add: pg_writes_def mem_writes_def pg_ok_set prefs_abs_set)
qed

text \<open>
  The Postgres preference store refines the in-memory one: after the same writes, at any time,
  both answer every read the same.
\<close>

theorem preference_stores_agree:
  "pp_get now user key (pg_writes ws) = mp_get now user key (mem_writes ws)
   \<and> pp_all_for now user (pg_writes ws) = mp_all_for now user (mem_writes ws)"
proof -
  have "pp_get now user key t = mp_get now user key (prefs_abs t)" for t
    by (simp add: pp_get_def mp_get_def prefs_abs_get)
  then show ?thesis using writes_abs [of ws] prefs_abs_all [of now user "pg_writes ws"] by simp
qed

text \<open>What was written last is read until it expires, and for ever without a time-to-live or with one of 0.\<close>

lemma read_after_set:
  "mp_get now' user key (mp_set now user key v ttl d)
     = (case ttl of None \<Rightarrow> Some v | Some s \<Rightarrow> if s = 0 \<or> now' \<le> now + of_int s then Some v else None)"
  by (auto simp: mp_get_def mp_set_def expiry_of_def split: option.splits)

section \<open>The two memories do not agree\<close>

lemma sorted_filter_ts: "sorted (map tt_ts turns) \<Longrightarrow> sort_key tt_ts (filter P turns) = filter P turns"
  by (intro sort_key_id_if_sorted sorted_filter)

text \<open>
  On turns written in time order the in-memory store returns the newest \<open>n\<close> turns of a thread and the
  Postgres store the oldest \<open>n\<close>: with all times different they give the same exactly if the
  thread has no more than \<open>n\<close>.
\<close>

theorem memories_agree_iff_short:
  assumes "sorted (map tt_ts turns)" and "distinct (map tt_ts turns)" and "0 < n"
  shows "pg_last_n thread_id n d now turns = take n (filter (in_thread thread_id now d) turns)
    \<and> (pg_last_n thread_id n d now turns = mem_last_n thread_id n d now turns
         \<longleftrightarrow> length (filter (in_thread thread_id now d) turns) \<le> n)"
proof -
  let ?rows = "filter (in_thread thread_id now d) turns"
  have pg: "pg_last_n thread_id n d now turns = take n ?rows"
    using assms(1) by (simp add: pg_last_n_def sorted_filter_ts)
  have mem: "mem_last_n thread_id n d now turns = drop (length ?rows - n) ?rows"
    using assms(3) by (simp add: mem_last_n_def Let_def)
  have "distinct ?rows" using assms(2) by (simp add: distinct_map)
  have differ: "take n ?rows \<noteq> drop (length ?rows - n) ?rows" if long: "n < length ?rows"
  proof
    assume eq: "take n ?rows = drop (length ?rows - n) ?rows"
    have "take n ?rows ! 0 = ?rows ! 0" using assms(3) by simp
    moreover have "drop (length ?rows - n) ?rows ! 0 = ?rows ! (length ?rows - n)" using assms(3) long by simp
    ultimately have "?rows ! 0 = ?rows ! (length ?rows - n)" using eq by simp
    then have "0 = length ?rows - n" using \<open>distinct ?rows\<close> assms(3) long
      by (subst (asm) nth_eq_iff_index_eq) auto
    then show False using long by simp
  qed
  have "take n ?rows = drop (length ?rows - n) ?rows \<longleftrightarrow> length ?rows \<le> n"
  proof (cases "length ?rows \<le> n")
    case False
    then show ?thesis using differ by simp
  qed simp
  then show ?thesis using pg mem by simp
qed

definition three_turns :: "thread_turn list" where
  "three_turns = map (\<lambda>i. \<lparr>tt_thread_id = ''t'', tt_ts = of_nat i, tt_role = User, tt_content = show_nat i, tt_trace_id = None\<rparr>) [1, 2, 3]"

theorem memories_agree_iff_short_witness:
  "pg_last_n ''t'' 2 30 10 three_turns \<noteq> mem_last_n ''t'' 2 30 10 three_turns"
proof -
  have s: "sorted (map tt_ts three_turns)" and d: "distinct (map tt_ts three_turns)" and z: "0 < (2 :: nat)"
    by (simp_all add: three_turns_def)
  have "length (filter (in_thread ''t'' 10 30) three_turns) = 3" by (simp add: three_turns_def in_thread_def)
  with memories_agree_iff_short [OF s d z, of "''t''" 30 10, THEN conjunct2] show ?thesis by simp
qed

end
