(* ===== verification/SecretaryText.thy ===== *)
theory SecretaryText
  imports PyStd Notifier "HOL-Library.Sublist"
begin

text \<open>
  The secretary's texts: language detection (\<^verbatim>\<open>language.py\<close>), tones (\<^verbatim>\<open>tone.py\<close>), the brief
  helpers and the morning brief (\<^verbatim>\<open>outbound/\<close>), fill alerts, slash commands and the
  Alertmanager bridge (\<^verbatim>\<open>inbound/\<close>), all under \<^verbatim>\<open>apps/agent_secretary/secretary/\<close>. Where the
  code counts Chinese characters a text is the list of its code points; the language model
  and the prompt registry are parameters.
\<close>

section \<open>Texts as code points\<close>

type_synonym utext = "nat list"

definition ut :: "string \<Rightarrow> utext" where
  "ut s = map of_char s"

definition uspace :: "nat \<Rightarrow> bool" where
  "uspace n \<longleftrightarrow> 9 \<le> n \<and> n \<le> 13 \<or> 28 \<le> n \<and> n \<le> 32 \<or> 8192 \<le> n \<and> n \<le> 8202
     \<or> n \<in> set [133, 160, 5760, 8232, 8233, 8239, 8287, 12288]"

definition urstrip :: "utext \<Rightarrow> utext" where
  "urstrip s = rev (dropWhile uspace (rev s))"

definition ustrip :: "utext \<Rightarrow> utext" where
  "ustrip s = urstrip (dropWhile uspace s)"

section \<open>Language and tone\<close>

datatype language = EN | ZH

definition CJK_RANGES :: "(nat \<times> nat) list" where
  "CJK_RANGES = [(0x4E00, 0x9FFF), (0x3400, 0x4DBF), (0x20000, 0x2A6DF)]"

definition is_cjk :: "nat \<Rightarrow> bool" where
  "is_cjk c \<longleftrightarrow> list_ex (\<lambda>(lo, hi). lo \<le> c \<and> c \<le> hi) CJK_RANGES"

definition detect :: "utext \<Rightarrow> language \<Rightarrow> language" where
  "detect s dflt =
     (if s = [] then dflt
      else let seen = filter (\<lambda>c. \<not> uspace c) s; cjk = length (filter is_cjk seen)
           in if length seen = 0 then dflt
              else if of_nat cjk / of_nat (length seen) > (3 / 10 :: rat) then ZH else EN)"

datatype tone = Terse | Conv | Edu

fun tone_suffix :: "tone \<Rightarrow> string" where
  "tone_suffix Terse = ''Be terse. Numbers first. No analogies, no hedging, no greetings. Avoid adjectives.''"
| "tone_suffix Conv = ''Plain language. Conversational, light explanations. Avoid jargon unless the reader uses it.''"
| "tone_suffix Edu = ''Explain to a family member with no finance background. Use analogies. No acronyms. Spell out company names instead of tickers.''"

section \<open>Shaping a brief\<close>

definition WECHAT_LIMIT :: nat where
  "WECHAT_LIMIT = 4096"

definition TRUNCATE_LINK :: utext where
  "TRUNCATE_LINK = [10, 10, 8230] @ ut ''[more on dashboard '' @ [8594] @ ut '']''"

definition DISCLAIMER_EN :: utext where
  "DISCLAIMER_EN = ut ''*For personal research only. Not investment advice.*''"

definition DISCLAIMER_ZH :: utext where
  "DISCLAIMER_ZH = [42, 20165, 20379, 20010, 20154, 30740, 31350, 65292, 19981, 26500, 25104, 25237, 36164, 24314, 35758, 42]"

definition disclaimer_of :: "language \<Rightarrow> utext" where
  "disclaimer_of l = (if l = ZH then DISCLAIMER_ZH else DISCLAIMER_EN)"

definition COST_BREAKER_TEXT_EN :: utext where
  "COST_BREAKER_TEXT_EN =
     ut ''**System paused.** LLM monthly cap reached. The morning brief is omitted today.'' @ [10, 10]
     @ ut ''[See cost dashboard '' @ [8594] @ ut '']''"

definition COST_BREAKER_TEXT_ZH :: utext where
  "COST_BREAKER_TEXT_ZH =
     [42, 42, 31995, 32479, 24050, 26242, 20572, 12290, 42, 42, 32, 24050, 36798, 26412, 26376, 25512, 29702, 19978,
      38480, 65292, 20170, 26085, 31616, 25253, 30465, 30053, 12290, 10, 10, 91, 26597, 30475, 25104, 26412, 38754,
      26495, 32, 8594, 93]"

definition char_truncate :: "utext \<Rightarrow> nat \<Rightarrow> utext" where
  "char_truncate s limit =
     (if length s \<le> limit then s
      else if limit \<le> length TRUNCATE_LINK then take limit s
      else take (limit - length TRUNCATE_LINK) s @ TRUNCATE_LINK)"

fun strip_html_loop :: "bool \<Rightarrow> utext \<Rightarrow> utext" where
  "strip_html_loop in_tag [] = []"
| "strip_html_loop in_tag (ch # s) =
     (if ch = 60 then strip_html_loop True s
      else if ch = 62 then strip_html_loop False s
      else if in_tag then strip_html_loop in_tag s
      else ch # strip_html_loop in_tag s)"

definition strip_html :: "utext \<Rightarrow> utext" where
  "strip_html s = strip_html_loop False s"

definition ensure_disclaimer :: "utext \<Rightarrow> language \<Rightarrow> utext" where
  "ensure_disclaimer s l = (if sublist (disclaimer_of l) s then s else urstrip s @ [10, 10] @ disclaimer_of l)"

definition cost_breaker_brief :: "language \<Rightarrow> utext" where
  "cost_breaker_brief l = ensure_disclaimer (if l = ZH then COST_BREAKER_TEXT_ZH else COST_BREAKER_TEXT_EN) l"

text \<open>secretary.notify.v1; \<open>markdown\<close> has at most 4096 characters.\<close>

record 't secretary_notify =
  sn_severity :: severity
  sn_channel_hint :: channel_hint
  sn_language :: language
  sn_markdown :: "'t list"

definition notify_valid :: "'t secretary_notify \<Rightarrow> bool" where
  "notify_valid n \<longleftrightarrow> length (sn_markdown n) \<le> 4096"

section \<open>The morning brief\<close>

record chat_request =
  cr_system :: utext
  cr_user :: utext

text \<open>
  \<open>get\<close> renders the prompt from the digest, the advices, the leaderboard and the language
  into its system part, if it has one, and its user part; \<open>chat\<close> is the model's answer.
\<close>

definition morning_request ::
  "(utext \<Rightarrow> utext \<Rightarrow> utext \<Rightarrow> language \<Rightarrow> utext option \<times> utext)
     \<Rightarrow> utext option \<Rightarrow> utext \<Rightarrow> utext \<Rightarrow> tone \<Rightarrow> language \<Rightarrow> chat_request" where
  "morning_request get intel_brief top_advices_md leaderboard_md tn l =
     (case get (case intel_brief of Some md \<Rightarrow> md | None \<Rightarrow> ut ''(no upstream brief today)'')
               (if top_advices_md = [] then ut ''(no advices today)'' else top_advices_md)
               (if leaderboard_md = [] then ut ''(leaderboard pending)'' else leaderboard_md) l of
        (sys, usr) \<Rightarrow>
          \<lparr>cr_system = (case sys of None \<Rightarrow> [] | Some s \<Rightarrow> s) @ [10, 10] @ ut ''TONE: '' @ ut (tone_suffix tn),
           cr_user = usr\<rparr>)"

definition compose ::
  "(utext \<Rightarrow> utext \<Rightarrow> utext \<Rightarrow> language \<Rightarrow> utext option \<times> utext) \<Rightarrow> (chat_request \<Rightarrow> string + utext)
     \<Rightarrow> utext option \<Rightarrow> utext \<Rightarrow> utext \<Rightarrow> tone \<Rightarrow> language \<Rightarrow> string + nat secretary_notify" where
  "compose get chat intel_brief top_advices_md leaderboard_md tn l =
     res_bind (chat (morning_request get intel_brief top_advices_md leaderboard_md tn l)) (\<lambda>answer.
       let body = ensure_disclaimer (strip_html (ustrip answer)) l;
           n = \<lparr>sn_severity = INFO, sn_channel_hint = BRIEFS, sn_language = l, sn_markdown = char_truncate body WECHAT_LIMIT\<rparr>
       in if notify_valid n then Inr n else Inl ''validation error'')"

section \<open>What a brief looks like\<close>

lemma length_link: "length TRUNCATE_LINK = 24"
  by (simp add: TRUNCATE_LINK_def ut_def)

lemma char_truncate_fits: "length (char_truncate s limit) \<le> limit"
  by (auto simp: char_truncate_def length_link)

lemma strip_html_no_brackets: "60 \<notin> set (strip_html_loop b s) \<and> 62 \<notin> set (strip_html_loop b s)"
  by (induction b s rule: strip_html_loop.induct) simp_all

text \<open>
  A disclaimer starts and ends with a star and has none in between; the character before
  the last star is no newline, and there is no star in the link.
\<close>

definition starred :: "utext \<Rightarrow> bool" where
  "starred d \<longleftrightarrow> 2 < length d \<and> hd d = 42 \<and> last d = 42 \<and> 42 \<notin> set (butlast (tl d)) \<and> d ! (length d - 2) \<noteq> 10"

lemma disclaimers_starred: "starred (disclaimer_of l)"
proof (cases l)
  case EN
  have "starred (disclaimer_of EN)" by code_simp
  then show ?thesis using EN by simp
next
  case ZH
  have "starred (disclaimer_of ZH)" by (simp add: starred_def disclaimer_of_def DISCLAIMER_ZH_def)
  then show ?thesis using ZH by simp
qed

lemma star_position:
  assumes "starred d" and "i < length d" and "d ! i = 42"
  shows "i = 0 \<or> i = length d - 1"
proof (rule ccontr)
  assume "\<not> (i = 0 \<or> i = length d - 1)"
  then have i: "0 < i" "i < length d - 1" using assms(2) by auto
  then have "butlast (tl d) ! (i - 1) = d ! i" by (simp add: nth_butlast nth_tl)
  moreover have "i - 1 < length (butlast (tl d))" using i by simp
  ultimately show False using assms(1,3) nth_mem unfolding starred_def by metis
qed

text \<open>
  Cutting anything off a text that ends with the disclaimer and does not hold it before
  leaves a text without the disclaimer, also with the link appended.
\<close>

lemma sublist_nth:
  "sublist d s \<longleftrightarrow> (\<exists>p. p + length d \<le> length s \<and> (\<forall>i < length d. s ! (p + i) = d ! i))"
proof
  assume "sublist d s"
  then obtain a b where "s = a @ d @ b" by (auto simp: sublist_def)
  then show "\<exists>p. p + length d \<le> length s \<and> (\<forall>i < length d. s ! (p + i) = d ! i)"
    by (intro exI [of _ "length a"]) (simp add: nth_append)
next
  assume "\<exists>p. p + length d \<le> length s \<and> (\<forall>i < length d. s ! (p + i) = d ! i)"
  then obtain p where p: "p + length d \<le> length s" "\<forall>i < length d. s ! (p + i) = d ! i" by blast
  then have "take (length d) (drop p s) = d" by (intro nth_equalityI) auto
  then have "s = take p s @ d @ drop (length d) (drop p s)" by (metis append_take_drop_id)
  then show "sublist d s" by (metis sublist_appendI)
qed

lemma cut_disclaimer_is_lost:
  assumes d: "starred d" and fresh: "\<not> sublist d r" and k: "k < length (r @ [10, 10] @ d)" and L: "42 \<notin> set L"
  shows "\<not> sublist d (take k (r @ [10, 10] @ d) @ L)"
proof
  let ?X = "r @ [10, 10] @ d"
  assume "sublist d (take k ?X @ L)"
  then obtain p where p: "p + length d \<le> length (take k ?X @ L)" "\<forall>i < length d. (take k ?X @ L) ! (p + i) = d ! i"
    unfolding sublist_nth by blast
  define e where "e = p + (length d - 1)"
  have len: "2 < length d" and last: "d ! (length d - 1) = 42" and ends: "d ! (length d - 2) \<noteq> 10"
  proof -
    have "d \<noteq> []" using d by (auto simp: starred_def)
    then show "d ! (length d - 1) = 42" using d last_conv_nth [of d] by (simp add: starred_def)
  qed (use d in \<open>auto simp: starred_def\<close>)
  have e: "(take k ?X @ L) ! e = 42" using p(2) [rule_format, of "length d - 1"] last len unfolding e_def by simp
  have "e < k"
  proof (rule ccontr)
    assume "\<not> e < k"
    then have "(take k ?X @ L) ! e \<in> set L" using k p(1) len by (auto simp: nth_append e_def)
    then show False using e L by simp
  qed
  have X: "?X ! (p + i) = d ! i" if "i < length d" for i
  proof -
    have "p + i < k" using \<open>e < k\<close> that by (simp add: e_def)
    moreover have "p + i < length (take k ?X)" using \<open>p + i < k\<close> k by (simp del: append_assoc)
    ultimately have "(take k ?X @ L) ! (p + i) = ?X ! (p + i)" by (simp only: nth_append if_True nth_take)
    then show ?thesis using p(2) that by simp
  qed
  show False
  proof (cases "e < length r")
    case True
    have "\<forall>i < length d. r ! (p + i) = d ! i"
    proof (intro allI impI)
      fix i
      assume i: "i < length d"
      then have "p + i < length r" using True by (simp add: e_def)
      then show "r ! (p + i) = d ! i" using X [OF i] by (simp add: nth_append)
    qed
    then have "sublist d r" unfolding sublist_nth using True len by (intro exI [of _ p]) (simp add: e_def)
    with fresh show False ..
  next
    case False
    have Xe: "?X ! e = 42" using X [of "length d - 1"] len last by (simp add: e_def)
    have tail: "?X ! (length r + j) = ([10, 10] @ d) ! j" for j by (simp add: nth_append)
    obtain j where j: "e = length r + j" using False by (metis le_add_diff_inverse not_less)
    have "([10, 10] @ d) ! j = 42" using Xe tail [of j] by (simp only: j)
    then have "j \<noteq> 0" "j \<noteq> 1" by (auto intro: ccontr)
    then obtain i where i: "j = i + 2" by (metis One_nat_def add_2_eq_Suc' not0_implies_Suc)
    have "d ! i = 42" using Xe tail [of j] by (simp add: j i)
    moreover have "i < length d" "i \<noteq> length d - 1" using \<open>e < k\<close> k by (auto simp: j i)
    ultimately have "i = 0" using star_position [OF d] by blast
    then have "p + (length d - 2) = length r + 1" using j i len by (simp add: e_def)
    then have "d ! (length d - 2) = 10" using X [of "length d - 2"] tail [of 1] len by simp
    with ends show False ..
  qed
qed

lemma urstrip_prefix: "prefix (urstrip s) s"
proof -
  have "suffix (dropWhile uspace (rev s)) (rev s)" by (rule suffix_dropWhile)
  then show ?thesis by (simp add: urstrip_def suffix_to_prefix)
qed

lemma link_no_star: "42 \<notin> set TRUNCATE_LINK"
  by code_simp

lemma link_short: "length TRUNCATE_LINK < WECHAT_LIMIT"
  by (simp add: length_link WECHAT_LIMIT_def)

text \<open>
  C40: The morning brief always meets the size limit of WeCom and of the notify schema. If the
  model did not write the disclaimer itself, the brief carries it exactly if its text with
  the disclaimer appended fits: a longer brief is cut at the end, where the disclaimer is, and is sent
  without it.
\<close>

theorem brief_keeps_disclaimer_iff_fits:
  assumes "chat (morning_request get intel_brief advices leaderboard tn l) = Inr answer"
    and "\<not> sublist (disclaimer_of l) (strip_html (ustrip answer))"
  shows "\<exists>n. compose get chat intel_brief advices leaderboard tn l = Inr n \<and> length (sn_markdown n) \<le> 4096
    \<and> (sublist (disclaimer_of l) (sn_markdown n)
         \<longleftrightarrow> length (urstrip (strip_html (ustrip answer))) + 2 + length (disclaimer_of l) \<le> 4096)"
proof -
  let ?r = "urstrip (strip_html (ustrip answer))" and ?d = "disclaimer_of l"
  let ?X = "?r @ [10, 10] @ ?d"
  have body: "ensure_disclaimer (strip_html (ustrip answer)) l = ?X" using assms(2) by (simp add: ensure_disclaimer_def)
  have fresh: "\<not> sublist ?d ?r"
    using assms(2) urstrip_prefix [of "strip_html (ustrip answer)"] by (meson prefix_imp_sublist sublist_order.order.trans)
  have fits: "length (char_truncate ?X WECHAT_LIMIT) \<le> 4096" using char_truncate_fits [of ?X WECHAT_LIMIT]
    by (simp add: WECHAT_LIMIT_def)
  have "sublist ?d (char_truncate ?X WECHAT_LIMIT) \<longleftrightarrow> length ?X \<le> WECHAT_LIMIT"
  proof (cases "length ?X \<le> WECHAT_LIMIT")
    case True
    then show ?thesis using sublist_append_leftI [of ?d "?r @ [10, 10]"] by (simp add: char_truncate_def)
  next
    case False
    then have cut: "char_truncate ?X WECHAT_LIMIT = take (WECHAT_LIMIT - length TRUNCATE_LINK) ?X @ TRUNCATE_LINK"
      using link_short unfolding char_truncate_def by (simp del: append_assoc)
    have "WECHAT_LIMIT - length TRUNCATE_LINK < length ?X" using False by linarith
    from cut_disclaimer_is_lost [OF disclaimers_starred fresh this link_no_star] cut False show ?thesis by simp
  qed
  then show ?thesis using fits by (simp add: compose_def assms(1) body notify_valid_def WECHAT_LIMIT_def)
qed

definition echo_prompt :: "utext \<Rightarrow> utext \<Rightarrow> utext \<Rightarrow> language \<Rightarrow> utext option \<times> utext" where
  "echo_prompt digest_md advices_md leaderboard_md l = (None, digest_md)"

theorem brief_keeps_disclaimer_iff_fits_witness:
  "\<exists>n. compose echo_prompt (\<lambda>q. Inr (ut ''Hello'')) None [] [] Conv EN = Inr n \<and> sublist (disclaimer_of EN) (sn_markdown n)"
proof -
  have "\<not> sublist (disclaimer_of EN) (strip_html (ustrip (ut ''Hello'')))" by code_simp
  moreover have "length (urstrip (strip_html (ustrip (ut ''Hello'')))) + 2 + length (disclaimer_of EN) \<le> 4096"
    by (simp add: ut_def strip_html_def ustrip_def urstrip_def uspace_def disclaimer_of_def DISCLAIMER_EN_def)
  ultimately show ?thesis
    using brief_keeps_disclaimer_iff_fits 
      [where chat = "\<lambda>q. Inr (ut ''Hello'')" and get = echo_prompt and intel_brief = None and advices = "[]"
         and leaderboard = "[]" and tn = Conv and l = EN and answer = "ut ''Hello''"] by auto
qed

end
