(* ===== verification/DataBus.thy ===== *)
theory DataBus
  imports PyStd
begin

text \<open>
  The message bus (\<^verbatim>\<open>packages/data-bus/data_bus/\<close>): the registry of subjects and streams
  (\<^verbatim>\<open>subjects.py\<close>, \<^verbatim>\<open>streams.py\<close>), publishing (\<^verbatim>\<open>publish.py\<close>), consuming
  (\<^verbatim>\<open>subscribe.py\<close>), request-reply (\<^verbatim>\<open>request_reply.py\<close>) and the key-value buckets
  (\<^verbatim>\<open>kv.py\<close>). The NATS client, orjson, tracing headers and the ULID package are parameters.
\<close>

section \<open>Subjects\<close>

definition subject_char :: "char \<Rightarrow> bool" where
  "subject_char c \<longleftrightarrow> is_lower c \<or> is_digit c \<or> c = CHR ''_''"

definition word_part :: "string \<Rightarrow> bool" where
  "word_part w \<longleftrightarrow> w \<noteq> [] \<and> list_all subject_char w"

definition version_part :: "string \<Rightarrow> bool" where
  "version_part w \<longleftrightarrow> 1 < length w \<and> hd w = CHR ''v'' \<and> list_all is_digit (tl w)"

text \<open>\<open>SUBJECT_RE.match\<close>: in Python \<open>$\<close> also matches before a final newline.\<close>

definition subject_re :: "string \<Rightarrow> bool" where
  "subject_re s =
     (let parts = split_on CHR ''.'' (if s \<noteq> [] \<and> last s = CHR 0x0A then butlast s else s)
      in 2 \<le> length parts \<and> list_all word_part (butlast parts) \<and> is_lower (hd (hd parts)) \<and> version_part (last parts))"

datatype bus_error = InvalidSubject string | BusExn string

definition assert_valid_subject :: "string \<Rightarrow> bus_error + unit" where
  "assert_valid_subject s = guard (subject_re s) (InvalidSubject s)"

text \<open>A persona's subject; \<open>isalnum\<close> on ASCII.\<close>

definition advice_persona :: "string \<Rightarrow> bus_error + string" where
  "advice_persona slug =
     (let bare = filter (\<lambda>c. c \<noteq> CHR ''_'') slug in
      if slug = [] \<or> bare = [] \<or> \<not> list_all (\<lambda>c. is_lower c \<or> is_upper c \<or> is_digit c) bare
      then Inl (InvalidSubject slug)
      else Inr (''advice.persona.'' @ slug @ ''.v1''))"

record stream_spec =
  st_name :: string
  st_subject_prefix :: string
  st_retention_seconds :: "nat option"
  st_replicas :: nat

definition SECONDS_PER_DAY :: nat where
  "SECONDS_PER_DAY = 24 * 3600"

definition STREAMS :: "stream_spec list" where
  "STREAMS =
     [\<lparr>st_name = ''INTEL'', st_subject_prefix = ''intel.>'', st_retention_seconds = Some (30 * SECONDS_PER_DAY), st_replicas = 1\<rparr>,
      \<lparr>st_name = ''ADVICE'', st_subject_prefix = ''advice.>'', st_retention_seconds = None, st_replicas = 1\<rparr>,
      \<lparr>st_name = ''BACKTEST'', st_subject_prefix = ''backtest.>'', st_retention_seconds = Some (365 * SECONDS_PER_DAY), st_replicas = 1\<rparr>,
      \<lparr>st_name = ''SECRETARY'', st_subject_prefix = ''secretary.>'', st_retention_seconds = Some (7 * SECONDS_PER_DAY), st_replicas = 1\<rparr>,
      \<lparr>st_name = ''OPS'', st_subject_prefix = ''ops.>'', st_retention_seconds = Some (14 * SECONDS_PER_DAY), st_replicas = 1\<rparr>]"

definition spec_prefix :: "stream_spec \<Rightarrow> string" where
  "spec_prefix sp = rev (dropWhile (\<lambda>c. c = CHR ''>'') (rev (st_subject_prefix sp)))"

definition stream_for :: "string \<Rightarrow> bus_error + string" where
  "stream_for subject =
     (case List.find (\<lambda>sp. starts_with (spec_prefix sp) subject) STREAMS of
        None \<Rightarrow> Inl (InvalidSubject subject) | Some sp \<Rightarrow> Inr (st_name sp))"

section \<open>Provisioning\<close>

record stream_cfg =
  sg_name :: string
  sg_subjects :: "string list"
  sg_num_replicas :: nat
  sg_max_age :: "nat option"

definition stream_config :: "stream_spec \<Rightarrow> stream_cfg" where
  "stream_config sp =
     \<lparr>sg_name = st_name sp, sg_subjects = [st_subject_prefix sp], sg_num_replicas = st_replicas sp,
      sg_max_age = map_option (\<lambda>s. s * 1000000000) (st_retention_seconds sp)\<rparr>"

text \<open>\<open>add_stream\<close> and \<open>update_stream\<close> of the broker; \<open>Inl\<close> is an exception.\<close>

fun ensure_loop :: "(stream_cfg \<Rightarrow> 'w \<Rightarrow> (string + unit) \<times> 'w) \<Rightarrow> (stream_cfg \<Rightarrow> 'w \<Rightarrow> (string + unit) \<times> 'w)
    \<Rightarrow> stream_spec list \<Rightarrow> string list \<Rightarrow> 'w \<Rightarrow> (string + string list) \<times> 'w" where
  "ensure_loop add upd [] touched w = (Inr touched, w)"
| "ensure_loop add upd (sp # sps) touched w =
     (case add (stream_config sp) w of
        (Inr _, w1) \<Rightarrow> ensure_loop add upd sps (touched @ [st_name sp]) w1
      | (Inl _, w1) \<Rightarrow>
          (case upd (stream_config sp) w1 of
             (Inl e, w2) \<Rightarrow> (Inl e, w2)
           | (Inr _, w2) \<Rightarrow> ensure_loop add upd sps (touched @ [st_name sp]) w2))"

definition ensure_streams :: "(stream_cfg \<Rightarrow> 'w \<Rightarrow> (string + unit) \<times> 'w) \<Rightarrow> (stream_cfg \<Rightarrow> 'w \<Rightarrow> (string + unit) \<times> 'w)
    \<Rightarrow> 'w \<Rightarrow> (string + string list) \<times> 'w" where
  "ensure_streams add upd w = ensure_loop add upd STREAMS [] w"

section \<open>Publishing\<close>

text \<open>
  \<open>send\<close> is JetStream's publish with its acknowledged sequence number, if there is one;
  \<open>dumps\<close> serialises the payload, \<open>inject\<close> adds the tracing headers.
\<close>

record ('p, 'w) bus =
  b_dumps :: "'p \<Rightarrow> string + string"
  b_inject :: "(string, string) dict \<Rightarrow> (string, string) dict"
  b_send :: "string \<Rightarrow> string \<Rightarrow> (string, string) dict \<Rightarrow> 'w \<Rightarrow> (string + nat option) \<times> 'w"

definition publish :: "('p, 'w) bus \<Rightarrow> string \<Rightarrow> 'p \<Rightarrow> string option \<Rightarrow> 'w \<Rightarrow> (bus_error + string) \<times> 'w" where
  "publish b subject payload idempotency_key w =
     (case res_bind (assert_valid_subject subject) (\<lambda>_.
             res_bind (stream_for subject) (\<lambda>stream_name.
             case b_dumps b payload of Inl e \<Rightarrow> Inl (BusExn e) | Inr body \<Rightarrow> Inr (stream_name, body))) of
        Inl e \<Rightarrow> (Inl e, w)
      | Inr (stream_name, body) \<Rightarrow>
          (let key = (case idempotency_key of None \<Rightarrow> [] | Some k \<Rightarrow> k);
               headers = (''Content-Type'', ''application/json'') # (if key \<noteq> [] then [(''Nats-Msg-Id'', key)] else []) in
           case b_send b subject body (b_inject b headers) w of
             (Inl e, w1) \<Rightarrow> (Inl (BusExn e), w1)
           | (Inr ack, w1) \<Rightarrow>
               (Inr (if key \<noteq> [] then key
                     else case ack of Some n \<Rightarrow> stream_name @ ''@'' @ show_nat n | None \<Rightarrow> stream_name), w1)))"

section \<open>Consuming\<close>

text \<open>
  What the wrapped handler does with one message: run the handler, then acknowledge; an
  exception of either is answered with a negative acknowledgement and raised again.
\<close>

datatype handled = HandledOk | HandlerError string | NakFailed string

definition wrap_handler :: "('w \<Rightarrow> (string + unit) \<times> 'w) \<Rightarrow> ('w \<Rightarrow> (string + unit) \<times> 'w) \<Rightarrow> ('w \<Rightarrow> (string + unit) \<times> 'w)
    \<Rightarrow> string \<Rightarrow> 'w \<Rightarrow> handled \<times> 'w" where
  "wrap_handler handler ack nak subject w =
     (case (case handler w of (Inl e, w1) \<Rightarrow> (Inl e, w1) | (Inr _, w1) \<Rightarrow> ack w1) of
        (Inr _, w2) \<Rightarrow> (HandledOk, w2)
      | (Inl e, w2) \<Rightarrow>
          (case nak w2 of
             (Inl e', w3) \<Rightarrow> (NakFailed e', w3)
           | (Inr _, w3) \<Rightarrow> (HandlerError (''handler for '' @ subject @ '' failed: '' @ e), w3)))"

section \<open>Request-reply\<close>

definition AGENT_SUBJECT_PREFIX :: string where
  "AGENT_SUBJECT_PREFIX = ''iic.agent.''"

definition agent_subject :: "string \<Rightarrow> string" where
  "agent_subject agent_id = AGENT_SUBJECT_PREFIX @ agent_id"

type_synonym 'w handler = "(string, json) dict \<Rightarrow> 'w \<Rightarrow> (string + json) \<times> 'w"
type_synonym 'w handlers = "(string, 'w handler) dict"

definition register_handler :: "string \<Rightarrow> 'w handler \<Rightarrow> 'w handlers \<Rightarrow> 'w handlers" where
  "register_handler subject h hs = AList.update subject h hs"

definition clear_handlers_for_test :: "'w handlers \<Rightarrow> 'w handlers" where
  "clear_handlers_for_test hs = []"

definition with_trace_id :: "string \<Rightarrow> (string, json) dict \<Rightarrow> (string, json) dict" where
  "with_trace_id fresh payload =
     (if truthy (dget payload ''trace_id'') then payload else AList.update ''trace_id'' (JStr fresh) payload)"

text \<open>
  \<open>wait_for\<close> is the timeout around a local handler, \<open>real_call\<close> the broker's request;
  \<open>fresh\<close> is a new ULID and \<open>disabled\<close> the environment's switch.
\<close>

definition nats_call ::
  "('w handler \<Rightarrow> 'w handler) \<Rightarrow> (string \<Rightarrow> 'w handler) \<Rightarrow> bool \<Rightarrow> string \<Rightarrow> 'w handlers \<Rightarrow> string \<Rightarrow> 'w handler" where
  "nats_call wait_for real_call disabled fresh hs subject payload w =
     (let payload' = with_trace_id fresh payload in
      case map_of hs subject of
        Some h \<Rightarrow> wait_for h payload' w
      | None \<Rightarrow>
          if disabled then (Inl ''NATS request-reply disabled by env; flip the feature flag off'', w)
          else real_call subject payload' w)"

text \<open>The broker side of a request: parse, run, answer. \<open>respond\<close> gets the bytes of the answer.\<close>

definition reply_callback ::
  "(string \<Rightarrow> json option) \<Rightarrow> (json \<Rightarrow> string option) \<Rightarrow> (json \<Rightarrow> 'w \<Rightarrow> (string + json) \<times> 'w)
     \<Rightarrow> (string \<Rightarrow> 'w \<Rightarrow> (string + unit) \<times> 'w) \<Rightarrow> string \<Rightarrow> 'w \<Rightarrow> (string + unit) \<times> 'w" where
  "reply_callback loads dumps fn respond data w =
     (case (if data = [] then Some (JObj []) else loads data) of
        None \<Rightarrow> respond ''{\"_error\":\"bad_payload\"}'' w
      | Some payload \<Rightarrow>
          (case fn payload w of
             (r, w1) \<Rightarrow>
               (case dumps (case r of Inl e \<Rightarrow> JObj [(''_error'', JStr e)] | Inr v \<Rightarrow> v) of
                  None \<Rightarrow> (Inl ''not JSON serializable'', w1)
                | Some bytes \<Rightarrow> respond bytes w1)))"

section \<open>Buckets\<close>

definition KV_BUCKETS :: "string list" where
  "KV_BUCKETS = [''iic_state'', ''iic_locks'', ''iic_versions'']"

text \<open>A bucket's \<open>get\<close> raises (\<open>Inl\<close>) for a missing key; \<open>put\<close> returns the revision.\<close>

definition kv_get :: "(string \<Rightarrow> string \<Rightarrow> 'w \<Rightarrow> string + string) \<Rightarrow> string \<Rightarrow> string \<Rightarrow> 'w \<Rightarrow> string + string option" where
  "kv_get raw_get bucket key w =
     (if bucket \<notin> set KV_BUCKETS then Inl ''unknown KV bucket''
      else case raw_get bucket key w of Inl _ \<Rightarrow> Inr None | Inr v \<Rightarrow> Inr (if v = [] then None else Some v))"

definition kv_put :: "(string \<Rightarrow> string \<Rightarrow> string \<Rightarrow> 'w \<Rightarrow> (string + nat) \<times> 'w)
    \<Rightarrow> string \<Rightarrow> string \<Rightarrow> string \<Rightarrow> 'w \<Rightarrow> (string + nat) \<times> 'w" where
  "kv_put raw_put bucket key v w =
     (if bucket \<notin> set KV_BUCKETS then (Inl ''unknown KV bucket'', w) else raw_put bucket key v w)"

section \<open>Streams and subjects\<close>

text \<open>The prefixes are disjoint: a subject falls under at most one stream.\<close>

lemma stream_prefixes:
  "map spec_prefix STREAMS = [''intel.'', ''advice.'', ''backtest.'', ''secretary.'', ''ops.'']"
  by (simp add: STREAMS_def spec_prefix_def)

lemma starts_with_hd: "starts_with (c # p) s \<Longrightarrow> s \<noteq> [] \<and> hd s = c"
  by (cases s) (auto simp: starts_with_def)

lemma one_stream:
  assumes "sp \<in> set STREAMS" and "sq \<in> set STREAMS"
    and "starts_with (spec_prefix sp) s" and "starts_with (spec_prefix sq) s"
  shows "spec_prefix sp = spec_prefix sq"
proof -
  have "spec_prefix x \<in> set [''intel.'', ''advice.'', ''backtest.'', ''secretary.'', ''ops.'']" if "x \<in> set STREAMS" for x
    using that unfolding stream_prefixes [symmetric] by simp
  with assms have "spec_prefix sp \<in> set [''intel.'', ''advice.'', ''backtest.'', ''secretary.'', ''ops.'']"
    and "spec_prefix sq \<in> set [''intel.'', ''advice.'', ''backtest.'', ''secretary.'', ''ops.'']" by auto
  moreover have "hd (spec_prefix sp) = hd (spec_prefix sq)"
  proof -
    have "spec_prefix x = hd (spec_prefix x) # tl (spec_prefix x)"
      if "spec_prefix x \<in> set [''intel.'', ''advice.'', ''backtest.'', ''secretary.'', ''ops.'']" for x
      using that by auto
    then show ?thesis using calculation assms(3,4) starts_with_hd by metis
  qed
  ultimately show ?thesis by auto
qed

lemma upper_not_lower: "is_upper c \<Longrightarrow> \<not> subject_char c"
proof -
  assume "is_upper c"
  then have n: "65 \<le> (of_char c :: nat)" "(of_char c :: nat) \<le> 90" by (auto simp: is_upper_def in_range_def)
  then have "c \<noteq> CHR ''_''" by auto
  with n show ?thesis by (auto simp: subject_char_def is_lower_def is_digit_def in_range_def)
qed

lemma not_dot:
  assumes "is_lower c \<or> is_upper c \<or> is_digit c" shows "c \<noteq> CHR ''.'' \<and> c \<noteq> CHR 0x0A"
  using assms by (auto simp: is_lower_def is_upper_def is_digit_def in_range_def)

text \<open>
  A persona's advice subject always lies in the ADVICE stream, but it passes the subject guard of
  publish exactly if the slug has no capital letter: for any other slug that \<open>advice_persona\<close>
  accepts, publishing the advice raises.
\<close>

theorem persona_subject_publishable_iff:
  assumes "advice_persona slug = Inr subject"
  shows "stream_for subject = Inr ''ADVICE'' \<and> (assert_valid_subject subject = Inr () \<longleftrightarrow> \<not> list_ex is_upper slug)"
proof -
  let ?bare = "filter (\<lambda>c. c \<noteq> CHR ''_'') slug"
  have slug: "slug \<noteq> []" and bare: "list_all (\<lambda>c. is_lower c \<or> is_upper c \<or> is_digit c) ?bare"
    and subject: "subject = ''advice.persona.'' @ slug @ ''.v1''"
    using assms by (auto simp: advice_persona_def Let_def split: if_splits)
  have chars: "is_lower c \<or> is_upper c \<or> is_digit c \<or> c = CHR ''_''" if "c \<in> set slug" for c
    using bare that by (auto simp: list_all_iff)
  have nodot: "CHR ''.'' \<notin> set slug" using chars not_dot by fastforce
  have "list_all subject_char slug \<longleftrightarrow> \<not> list_ex is_upper slug"
    using chars upper_not_lower by (auto simp: list_all_iff list_ex_iff subject_char_def)
  moreover have "subject = join_with ''.'' [''advice'', ''persona'', slug, ''v1'']" by (simp add: subject)
  then have "split_on CHR ''.'' subject = [''advice'', ''persona'', slug, ''v1'']"
    by (simp only:) (rule split_on_join, use nodot in auto)
  moreover have "last subject \<noteq> CHR 0x0A" by (simp add: subject)
  moreover have "word_part ''advice''" "word_part ''persona''" "version_part ''v1''" "is_lower CHR ''a''" by code_simp+
  ultimately have "subject_re subject \<longleftrightarrow> \<not> list_ex is_upper slug"
    using slug by (simp add: subject_re_def Let_def word_part_def)
  moreover have "stream_for subject = Inr ''ADVICE''"
    unfolding stream_for_def subject STREAMS_def spec_prefix_def starts_with_def by simp
  ultimately show ?thesis by (simp add: assert_valid_subject_def)
qed

theorem persona_subject_publishable_iff_witness:
  "\<not> subject_re ''advice.persona.Buffett.v1''"
proof -
  have "advice_persona ''Buffett'' = Inr ''advice.persona.Buffett.v1''" by code_simp
  from persona_subject_publishable_iff [OF this] show ?thesis
    by (simp add: assert_valid_subject_def is_upper_def in_range_def)
qed

text \<open>A message is acknowledged or refused, once, and refused exactly if the handler or its acknowledgement raised.\<close>

lemma handled_once:
  assumes "\<And>w. ack w = (Inr (), w @ [True])" and "\<And>w. nak w = (Inr (), w @ [False])"
  shows "snd (wrap_handler h ack nak subject w) = snd (h w) @ [\<not> (\<exists>e. fst (h w) = Inl e)]"
  using assms by (auto simp: wrap_handler_def split: sum.splits prod.splits)

text \<open>Nothing is sent for a subject that is not registered.\<close>

lemma publish_unregistered:
  "\<not> subject_re subject \<or> stream_for subject = Inl e \<Longrightarrow> snd (publish b subject payload key w) = w"
  by (auto simp: publish_def assert_valid_subject_def guard_def)

text \<open>A value put under a key is read back, unless it is empty: then the key reads as missing.\<close>

lemma kv_put_get:
  assumes "bucket \<in> set KV_BUCKETS" and "raw_put bucket key v w = (Inr n, w1)" and "raw_get bucket key w1 = Inr v"
  shows "kv_get raw_get bucket key (snd (kv_put raw_put bucket key v w)) = Inr (if v = [] then None else Some v)"
  using assms by (simp add: kv_get_def kv_put_def)

end
