(* ===== verification/DecisionLog.thy ===== *)
theory DecisionLog
  imports PyStd "HOL-Library.Sublist"
begin

text \<open>
  The decision log (\<^verbatim>\<open>packages/data-lake/data_lake/decision_log.py\<close>): one markdown file per
  agent, entries between HTML-comment delimiters, appended by the agent and amended by the
  backtest reflector, read back by a regular expression. A root directory is a dictionary
  from file names to texts; temporary files, \<open>fsync\<close> and the locks are not modelled, nor is
  the conversion of the time stamp to text. Texts hold no carriage return, on which
  \<open>read_text\<close> would translate the newline.
\<close>

section \<open>Entries and their text\<close>

record log_entry =
  de_advice_id :: string
  de_agent :: string
  de_issued_at :: string
  de_rating :: string
  de_thesis :: string
  de_evidence_urls :: "string list"
  de_reflection :: "string option"

definition newline :: string where
  "newline = [CHR 0x0A]"

definition BEGIN_ID :: string where
  "BEGIN_ID = ''<!-- BEGIN entry id=''"

definition AGENT_EQ :: string where
  "AGENT_EQ = ''agent=''"

definition COMMENT_END :: string where
  "COMMENT_END = ''-->''"

definition END_ENTRY :: string where
  "END_ENTRY = ''<!-- END entry -->''"

definition REFLECTION_BEGIN :: string where
  "REFLECTION_BEGIN = ''<!-- reflection -->''"

definition REFLECTION_END :: string where
  "REFLECTION_END = ''<!-- /reflection -->''"

definition REFLECTION_LABEL :: string where
  "REFLECTION_LABEL = ''**Reflection:** ''"

definition header_for :: "string \<Rightarrow> string" where
  "header_for agent =
     ''# '' @ agent @ '' decision log'' @ newline @ newline
     @ ''> Append-only markdown '' @ em_dash @ '' every advice this agent emits is logged here.'' @ newline
     @ ''> Generated by `data_lake.decision_log` (v2.5 T1.11). Do not edit by hand.'' @ newline @ newline"

definition reflection_block :: "string \<Rightarrow> string" where
  "reflection_block r =
     newline @ REFLECTION_BEGIN @ newline @ REFLECTION_LABEL @ strip r @ newline @ REFLECTION_END @ newline"

text \<open>What stands between the delimiters of an entry.\<close>

definition entry_body :: "log_entry \<Rightarrow> string" where
  "entry_body e =
     newline @ ''## '' @ de_issued_at e @ '' '' @ em_dash @ '' '' @ de_rating e @ newline @ newline
     @ strip (de_thesis e) @ newline
     @ (if de_evidence_urls e = [] then []
        else newline @ ''**Evidence:**'' @ newline @ join_with newline (map (\<lambda>u. ''- '' @ u) (de_evidence_urls e)) @ newline)
     @ (case de_reflection e of None \<Rightarrow> [] | Some r \<Rightarrow> if r = [] then [] else reflection_block r)"

definition entry_begin :: "string \<Rightarrow> string \<Rightarrow> string" where
  "entry_begin advice_id agent = BEGIN_ID @ advice_id @ '' '' @ AGENT_EQ @ agent @ '' '' @ COMMENT_END"

definition render_entry :: "log_entry \<Rightarrow> string" where
  "render_entry e =
     newline @ entry_begin (de_advice_id e) (de_agent e) @ entry_body e @ END_ENTRY @ newline"

section \<open>Searching\<close>

text \<open>The text before and after the first occurrence of a pattern.\<close>

fun cut_at :: "string \<Rightarrow> string \<Rightarrow> (string \<times> string) option" where
  "cut_at pat [] = (if pat = [] then Some ([], []) else None)"
| "cut_at pat (c # s) =
     (if starts_with pat (c # s) then Some ([], drop (length pat) (c # s))
      else map_option (\<lambda>(a, b). (c # a, b)) (cut_at pat s))"

definition is_nonspace :: "char \<Rightarrow> bool" where
  "is_nonspace c \<longleftrightarrow> \<not> is_space c"

text \<open>\<open>pat\<close> at the front of a text: what follows it.\<close>

definition eat :: "string \<Rightarrow> string \<Rightarrow> string option" where
  "eat pat s = (if starts_with pat s then Some (drop (length pat) s) else None)"

text \<open>\<open>\s*-->\<close>\<close>

definition eat_close :: "string \<Rightarrow> string option" where
  "eat_close s = eat COMMENT_END (dropWhile is_space s)"

text \<open>\<open>\s+agent=\<close>\<close>

definition eat_agent_eq :: "string \<Rightarrow> string option" where
  "eat_agent_eq s = (if s \<noteq> [] \<and> is_space (hd s) then eat AGENT_EQ (dropWhile is_space s) else None)"

text \<open>
  The head of the injection pattern: this id and this agent, as they are written. The head
  of the entry pattern reads them: \<open>[^\s]+\<close> takes the whole run of characters that are no
  space; \<open>[^\s>]+\<close> takes the whole run too, or gives back a final \<open>--\<close> when \<open>>\<close> follows.
\<close>

definition eat_begin_of :: "string \<Rightarrow> string \<Rightarrow> string \<Rightarrow> string option" where
  "eat_begin_of advice_id agent s =
     Option.bind (eat BEGIN_ID s) (\<lambda>s1. Option.bind (eat advice_id s1) (\<lambda>s2.
     Option.bind (eat_agent_eq s2) (\<lambda>s3. Option.bind (eat agent s3) eat_close)))"

definition agent_char :: "char \<Rightarrow> bool" where
  "agent_char c \<longleftrightarrow> \<not> is_space c \<and> c \<noteq> CHR ''>''"

definition read_agent :: "string \<Rightarrow> (string \<times> string) option" where
  "read_agent s =
     (let run = takeWhile agent_char s; rest = dropWhile agent_char s in
      if run = [] then None
      else case eat_close rest of
             Some s' \<Rightarrow> Some (run, s')
           | None \<Rightarrow>
               if 2 < length run \<and> ends_with ''--'' run \<and> rest \<noteq> [] \<and> hd rest = CHR ''>''
               then Some (take (length run - 2) run, tl rest) else None)"

definition read_begin :: "string \<Rightarrow> ((string \<times> string) \<times> string) option" where
  "read_begin s =
     Option.bind (eat BEGIN_ID s) (\<lambda>s1.
       let i = takeWhile is_nonspace s1 in
       if i = [] then None
       else Option.bind (eat_agent_eq (dropWhile is_nonspace s1)) (\<lambda>s2.
            Option.bind (read_agent s2) (\<lambda>(a, s3). Some ((i, a), s3))))"

text \<open>
  The first place where a head matches: the text before it, what it read, the text after it.
\<close>

fun search_head :: "(string \<Rightarrow> 'h option) \<Rightarrow> string \<Rightarrow> (string \<times> 'h) option" where
  "search_head h [] = map_option (\<lambda>x. ([], x)) (h [])"
| "search_head h (c # s) =
     (case h (c # s) of Some x \<Rightarrow> Some ([], x) | None \<Rightarrow> map_option (\<lambda>(a, x). (c # a, x)) (search_head h s))"

lemma cut_at_length: "cut_at pat s = Some (a, b) \<Longrightarrow> length s = length a + length pat + length b"
proof (induction pat s arbitrary: a rule: cut_at.induct)
  case (2 pat c s)
  show ?case
  proof (cases "starts_with pat (c # s)")
    case True
    then obtain t where "c # s = pat @ t" by (auto simp: starts_with_iff)
    then have "length (c # s) = length pat + length t" by (metis length_append)
    then show ?thesis using 2(2) True by auto
  next
    case False
    then show ?thesis using 2 by auto
  qed
qed (auto split: if_splits)

lemma eat_length: "eat pat s = Some s' \<Longrightarrow> length s = length pat + length s'"
  by (auto simp: eat_def starts_with_iff split: if_splits)

lemma eat_close_length: "eat_close s = Some s' \<Longrightarrow> length s' < length s"
  using eat_length [of COMMENT_END "dropWhile is_space s" s'] length_dropWhile_le [of is_space s]
  by (simp add: eat_close_def COMMENT_END_def)

lemma read_agent_length: "read_agent s = Some (a, s') \<Longrightarrow> length s' < length s"
proof -
  assume r: "read_agent s = Some (a, s')"
  have d: "length (dropWhile agent_char s) \<le> length s" by (rule length_dropWhile_le)
  show ?thesis
  proof (cases "eat_close (dropWhile agent_char s)")
    case None
    then have "dropWhile agent_char s \<noteq> [] \<and> s' = tl (dropWhile agent_char s)"
      using r by (auto simp: read_agent_def Let_def split: if_splits)
    then show ?thesis using d by (cases "dropWhile agent_char s") auto
  next
    case (Some t)
    then have "s' = t" using r by (auto simp: read_agent_def Let_def split: if_splits)
    then show ?thesis using eat_close_length [OF Some] d by simp
  qed
qed

lemma read_begin_length: "read_begin s = Some (h, s') \<Longrightarrow> length s' < length s"
proof -
  assume "read_begin s = Some (h, s')"
  then obtain s1 s2 a where s1: "eat BEGIN_ID s = Some s1" and s2: "eat_agent_eq (dropWhile is_nonspace s1) = Some s2"
    and s3: "read_agent s2 = Some (a, s')"
    by (auto simp: read_begin_def Let_def bind_eq_Some_conv split: if_splits)
  have "length s2 \<le> length (dropWhile is_nonspace s1)"
    using s2 eat_length length_dropWhile_le [of is_space "dropWhile is_nonspace s1"]
    by (fastforce simp: eat_agent_eq_def split: if_splits)
  moreover have "length (dropWhile is_nonspace s1) \<le> length s1" by (rule length_dropWhile_le)
  ultimately show ?thesis using read_agent_length [OF s3] eat_length [OF s1] by linarith
qed

lemma search_head_length:
  "search_head h s = Some (a, x) \<Longrightarrow> \<exists>t. s = a @ t \<and> h t = Some x"
  by (induction s arbitrary: a) (auto split: option.splits)

section \<open>Amending and reading\<close>

definition rstrip_newlines :: "string \<Rightarrow> string" where
  "rstrip_newlines s = rev (dropWhile (\<lambda>c. c = CHR 0x0A) (rev s))"

text \<open>\<open>re.sub\<close> of every reflection block, with the newline after it, by nothing.\<close>

function strip_reflections :: "string \<Rightarrow> string" where
  "strip_reflections s =
     (case cut_at REFLECTION_BEGIN s of
        None \<Rightarrow> s
      | Some (a, s1) \<Rightarrow>
          (case cut_at REFLECTION_END s1 of
             None \<Rightarrow> s
           | Some (b, s2) \<Rightarrow> a @ strip_reflections (if starts_with newline s2 then tl s2 else s2)))"
  by auto
termination
  by (relation "measure length") (auto dest!: cut_at_length simp: REFLECTION_BEGIN_def)

declare strip_reflections.simps [simp del]

definition inject_reflection :: "string \<Rightarrow> string \<Rightarrow> string \<Rightarrow> string \<Rightarrow> string \<times> bool" where
  "inject_reflection s advice_id agent reflection =
     (case search_head (eat_begin_of advice_id agent) s of
        None \<Rightarrow> (s, False)
      | Some (pre, rest) \<Rightarrow>
          (case cut_at END_ENTRY rest of
             None \<Rightarrow> (s, False)
           | Some (body, post) \<Rightarrow>
               (pre @ entry_begin advice_id agent
                @ rstrip_newlines (strip_reflections body) @ reflection_block reflection @ END_ENTRY @ post, True)))"

text \<open>\<open><!-- reflection -->\s***Reflection:**\s*(.*?)<!-- /reflection -->\<close>, searched in a body.\<close>

definition eat_reflection :: "string \<Rightarrow> string option" where
  "eat_reflection s =
     Option.bind (eat REFLECTION_BEGIN s) (\<lambda>s1. Option.bind (eat ''**Reflection:**'' (dropWhile is_space s1)) (\<lambda>s2.
     map_option (\<lambda>(r, _). strip r) (cut_at REFLECTION_END s2)))"

definition find_reflection :: "string \<Rightarrow> string option" where
  "find_reflection body = map_option snd (search_head eat_reflection body)"

record parsed_entry =
  pe_advice_id :: string
  pe_agent :: string
  pe_body :: string
  pe_reflection :: "string option"

function parse_entries :: "string \<Rightarrow> parsed_entry list" where
  "parse_entries s =
     (case search_head read_begin s of
        None \<Rightarrow> []
      | Some (pre, (i, a), rest) \<Rightarrow>
          (case cut_at END_ENTRY rest of
             None \<Rightarrow> []
           | Some (body, post) \<Rightarrow>
               \<lparr>pe_advice_id = i, pe_agent = a, pe_body = strip body, pe_reflection = find_reflection body\<rparr>
               # parse_entries post))"
  by auto
termination
proof (relation "measure length")
  fix s pre i a rest body post and x y z w
  assume "search_head read_begin s = Some x" "(pre, y) = x" "(z, rest) = y" "(i, a) = z" "cut_at END_ENTRY rest = Some w" "(body, post) = w"
  then show "(post, s) \<in> measure length"
    using search_head_length [of read_begin s pre "((i, a), rest)"] cut_at_length [of END_ENTRY rest body post]
    by (auto dest!: read_begin_length)
qed simp

declare parse_entries.simps [simp del]

section \<open>The log\<close>

type_synonym log_root = "(string, string) dict"

definition path_for :: "string \<Rightarrow> string" where
  "path_for agent_slug = agent_slug @ ''.md''"

definition log_append :: "log_entry \<Rightarrow> log_root \<Rightarrow> log_root" where
  "log_append e fs =
     (let path = path_for (de_agent e);
          existing = (case map_of fs path of Some s \<Rightarrow> s | None \<Rightarrow> header_for (de_agent e))
      in AList.update path (existing @ render_entry e) fs)"

definition attach_reflection :: "string \<Rightarrow> string \<Rightarrow> string \<Rightarrow> log_root \<Rightarrow> bool \<times> log_root" where
  "attach_reflection agent advice_id reflection fs =
     (case map_of fs (path_for agent) of
        None \<Rightarrow> (False, fs)
      | Some s \<Rightarrow>
          (case inject_reflection s advice_id agent reflection of
             (updated, found) \<Rightarrow> if found then (True, AList.update (path_for agent) updated fs) else (False, fs)))"

definition iter_entries :: "string \<Rightarrow> log_root \<Rightarrow> parsed_entry list" where
  "iter_entries agent fs = (case map_of fs (path_for agent) of None \<Rightarrow> [] | Some s \<Rightarrow> parse_entries s)"

section \<open>Patterns that stand where they were put\<close>

text \<open>Every delimiter starts with \<open><\<close> and has no other: a second one cannot start inside it.\<close>

definition marked :: "string \<Rightarrow> bool" where
  "marked pat \<longleftrightarrow> pat \<noteq> [] \<and> hd pat \<notin> set (tl pat)"

lemma marked_delimiters: "marked BEGIN_ID" "marked END_ENTRY" "marked REFLECTION_BEGIN" "marked REFLECTION_END"
  by (simp_all add: marked_def BEGIN_ID_def END_ENTRY_def REFLECTION_BEGIN_def REFLECTION_END_def)

lemma sublist_starts: "starts_with pat (v @ r) \<Longrightarrow> length pat \<le> length v \<Longrightarrow> sublist pat v"
  by (auto simp: starts_with_def sublist_def) (metis append_Nil append_take_drop_id)

lemma no_straddle:
  assumes "\<not> sublist pat (u @ v)" and "v \<noteq> []" and "pat \<noteq> []" and "r = [] \<or> hd r \<notin> set (tl pat)"
  shows "\<not> starts_with pat (v @ r)"
proof
  assume s: "starts_with pat (v @ r)"
  show False
  proof (cases "length pat \<le> length v")
    case True
    then have "sublist pat v" using s by (intro sublist_starts)
    with assms(1) show False by (meson sublist_append_leftI sublist_order.order.trans)
  next
    case False
    have pat: "pat = v @ take (length pat - length v) r"
      using s False unfolding starts_with_def by simp
    with False have r: "r \<noteq> []" and n: "0 < length pat - length v" by auto
    then have "hd r \<in> set (take (length pat - length v) r)" by (cases r; cases "length pat - length v") auto
    moreover have "tl pat = tl v @ take (length pat - length v) r" using pat assms(2) by (metis tl_append2)
    ultimately show False using assms(4) r by auto
  qed
qed

lemma sublist_at: "sublist (pat :: string) s \<longleftrightarrow> (\<exists>u v. s = u @ v \<and> starts_with pat v)"
  by (auto simp: sublist_def starts_with_iff)

lemma sublist_join:
  fixes pat :: string
  assumes "pat \<noteq> []" and "r = [] \<or> hd r \<notin> set (tl pat)"
  shows "sublist pat (a @ r) \<longleftrightarrow> sublist pat a \<or> sublist pat r"
proof
  assume "sublist pat (a @ r)"
  then obtain u v where uv: "a @ r = u @ v" and v: "starts_with pat v" by (auto simp: sublist_at)
  show "sublist pat a \<or> sublist pat r"
  proof (cases "length a \<le> length u")
    case True
    then have "\<exists>w. r = w @ v" using uv by (metis append_eq_append_conv_if)
    then show ?thesis using v by (auto simp: sublist_at)
  next
    case False
    then obtain w where w: "a = u @ w" "w \<noteq> []" "v = w @ r"
      using uv by (metis append_eq_append_conv2 append_Nil2 le_add1 length_append)
    then show ?thesis using no_straddle [OF _ w(2) assms] v by auto
  qed
next
  assume "sublist pat a \<or> sublist pat r"
  then show "sublist pat (a @ r)" by (meson sublist_append_leftI sublist_append_rightI sublist_order.order.trans)
qed

lemma cut_at_skip:
  assumes "\<not> sublist pat a" and "pat \<noteq> []" and "hd r \<notin> set (tl pat)"
  shows "cut_at pat (a @ r) = map_option (\<lambda>(p, q). (a @ p, q)) (cut_at pat r)"
  using assms(1)
proof (induction a)
  case Nil
  then show ?case by (cases "cut_at pat r") auto
next
  case (Cons c a)
  have "\<not> sublist pat a" using Cons.prems by (meson sublist_Cons_right)
  then show ?case using Cons.IH no_straddle [of pat "[]" "c # a" r] Cons.prems assms(2,3)
    by (cases "cut_at pat r") auto
qed

lemma cut_at_found:
  assumes "marked pat" and "\<not> sublist pat a" shows "cut_at pat (a @ pat @ b) = Some (a, b)"
proof -
  have pat: "pat \<noteq> []" "hd (pat @ b) \<notin> set (tl pat)" using assms(1) by (auto simp: marked_def)
  obtain c s where cs: "pat @ b = c # s" using pat(1) by (cases pat) auto
  have "starts_with pat (c # s)" using starts_with_append [of pat b] cs by simp
  moreover have "drop (length pat) (c # s) = b" by (simp flip: cs)
  ultimately have "cut_at pat (pat @ b) = Some ([], b)" by (simp add: cs)
  then show ?thesis using cut_at_skip [OF assms(2) pat] by simp
qed

lemma cut_at_none: "\<not> sublist pat s \<Longrightarrow> pat \<noteq> [] \<Longrightarrow> cut_at pat s = None"
proof (induction s)
  case (Cons c s)
  then have "\<not> sublist pat s" "\<not> starts_with pat (c # s)" by (auto simp: sublist_Cons_right prefix_def starts_with_iff)
  then show ?case using Cons by simp
qed simp

text \<open>A head that starts with a delimiter passes over text without it.\<close>

definition headed :: "(string \<Rightarrow> 'h option) \<Rightarrow> string \<Rightarrow> bool" where
  "headed h pat \<longleftrightarrow> pat \<noteq> [] \<and> (\<forall>s. h s \<noteq> None \<longrightarrow> starts_with pat s)"

lemma search_skip:
  assumes "headed h pat" and "\<not> sublist pat a" and "r = [] \<or> hd r \<notin> set (tl pat)"
  shows "search_head h (a @ r) = map_option (\<lambda>(p, x). (a @ p, x)) (search_head h r)"
  using assms(2)
proof (induction a)
  case Nil
  then show ?case by (cases "search_head h r") auto
next
  case (Cons c a)
  have "\<not> sublist pat a" using Cons.prems by (meson sublist_Cons_right)
  moreover have "h ((c # a) @ r) = None"
    using no_straddle [of pat "[]" "c # a" r] Cons.prems assms(1,3) unfolding headed_def by fastforce
  ultimately show ?case using Cons.IH by (cases "search_head h r") auto
qed

lemma search_here: "h r = Some x \<Longrightarrow> search_head h r = Some ([], x)"
  by (cases r) simp_all

lemma search_none: "headed h pat \<Longrightarrow> \<not> sublist pat a \<Longrightarrow> search_head h a = None"
proof -
  assume h: "headed h pat" and a: "\<not> sublist pat a"
  have "\<not> starts_with pat []" using h by (auto simp: headed_def starts_with_def)
  then have "h [] = None" using h unfolding headed_def by blast
  then show ?thesis using search_skip [OF h a, of "[]"] by simp
qed

lemma headed_read: "headed read_begin BEGIN_ID"
  by (auto simp: headed_def read_begin_def eat_def BEGIN_ID_def split: if_splits)

lemma headed_begin_of: "headed (eat_begin_of i a) BEGIN_ID"
  by (auto simp: headed_def eat_begin_of_def eat_def BEGIN_ID_def split: if_splits)

lemma headed_reflection: "headed eat_reflection REFLECTION_BEGIN"
  by (auto simp: headed_def eat_reflection_def eat_def REFLECTION_BEGIN_def split: if_splits)

section \<open>Bodies\<close>

text \<open>A text that holds no HTML comment.\<close>

definition plain :: "string \<Rightarrow> bool" where
  "plain s \<longleftrightarrow> \<not> sublist ''<!--'' s"

definition body_of :: "string \<Rightarrow> string option \<Rightarrow> string" where
  "body_of base ro = base @ (case ro of None \<Rightarrow> [] | Some r \<Rightarrow> reflection_block r)"

definition delimiters :: "string set" where
  "delimiters = {BEGIN_ID, END_ENTRY, REFLECTION_BEGIN, REFLECTION_END}"

lemma delimiter_facts:
  assumes "pat \<in> delimiters"
  shows "pat \<noteq> []" and "CHR 0x0A \<notin> set pat" and "hd pat = CHR ''<''" and "CHR ''<'' \<notin> set (tl pat)" and "sublist ''<!--'' pat"
  using assms
  by (auto simp: delimiters_def BEGIN_ID_def END_ENTRY_def REFLECTION_BEGIN_def REFLECTION_END_def sublist_code)

lemma newline_not_in_tl: "pat \<in> delimiters \<Longrightarrow> CHR 0x0A \<notin> set (tl pat)"
  using delimiter_facts(1,2) [of pat] by (cases pat) auto

lemma sublist_newline:
  assumes "pat \<in> delimiters" shows "sublist pat (a @ newline @ r) \<longleftrightarrow> sublist pat a \<or> sublist pat r"
proof -
  have "sublist pat (newline @ r) \<longleftrightarrow> sublist pat r"
    using delimiter_facts(1,3) [OF assms] by (cases pat) (auto simp: newline_def sublist_Cons_right)
  moreover have "hd (newline @ r) \<notin> set (tl pat)" using newline_not_in_tl [OF assms] by (simp add: newline_def)
  ultimately show ?thesis using sublist_join [of pat "newline @ r" a] delimiter_facts(1) [OF assms] by simp
qed

lemma plain_no_delimiter: "plain s \<Longrightarrow> pat \<in> delimiters \<Longrightarrow> \<not> sublist pat s"
  unfolding plain_def using delimiter_facts(5) by (meson sublist_order.order.trans)

lemma no_delimiter_empty: "pat \<in> delimiters \<Longrightarrow> \<not> sublist pat []"
  using delimiter_facts(1) by simp

lemma label_no_delimiter: "pat \<in> delimiters \<Longrightarrow> \<not> sublist pat (REFLECTION_LABEL @ s) \<longleftrightarrow> \<not> sublist pat s"
  using delimiter_facts(1,3) [of pat] by (cases pat) (auto simp: sublist_Cons_right REFLECTION_LABEL_def)

lemma reflection_delimiters_quiet:
  "\<not> sublist BEGIN_ID REFLECTION_BEGIN" "\<not> sublist BEGIN_ID REFLECTION_END"
  "\<not> sublist END_ENTRY REFLECTION_BEGIN" "\<not> sublist END_ENTRY REFLECTION_END"
  by (simp_all add: BEGIN_ID_def END_ENTRY_def REFLECTION_BEGIN_def REFLECTION_END_def sublist_code)

lemma body_quiet:
  assumes "plain base" and "\<forall>r. ro = Some r \<longrightarrow> plain (strip r)" and "pat \<in> {BEGIN_ID, END_ENTRY}"
  shows "\<not> sublist pat (body_of base ro)"
proof -
  have d: "pat \<in> delimiters" using assms(3) by (auto simp: delimiters_def)
  show ?thesis
  proof (cases ro)
    case None
    then show ?thesis using plain_no_delimiter [OF assms(1) d] by (simp add: body_of_def)
  next
    case (Some r)
    have "\<not> sublist pat (strip r)" using assms(2) Some plain_no_delimiter [OF _ d] by blast
    then show ?thesis
      using plain_no_delimiter [OF assms(1) d] assms(3) reflection_delimiters_quiet
      by (auto simp: Some body_of_def reflection_block_def sublist_newline [OF d] label_no_delimiter [OF d]
            no_delimiter_empty [OF d] sublist_newline [OF d, of _ "[]", simplified])
  qed
qed

lemma reflection_marks: "REFLECTION_BEGIN \<in> delimiters" "REFLECTION_END \<in> delimiters" "BEGIN_ID \<in> delimiters" "END_ENTRY \<in> delimiters"
  by (simp_all add: delimiters_def)

lemma cut_reflection:
  assumes "plain (strip r)"
  shows "cut_at REFLECTION_END (newline @ REFLECTION_LABEL @ strip r @ newline @ REFLECTION_END @ newline)
       = Some (newline @ REFLECTION_LABEL @ strip r @ newline, newline)"
proof -
  have "\<not> sublist REFLECTION_END (newline @ REFLECTION_LABEL @ strip r @ newline)"
    using plain_no_delimiter [OF assms reflection_marks(2)]
      sublist_newline [OF reflection_marks(2), of "[]" "REFLECTION_LABEL @ strip r @ newline"]
      sublist_newline [OF reflection_marks(2), of "strip r" "[]"]
      label_no_delimiter [OF reflection_marks(2), of "strip r @ newline"] no_delimiter_empty [OF reflection_marks(2)]
    by simp
  from cut_at_found [OF marked_delimiters(4) this, of newline] show ?thesis by simp
qed

lemma cut_block:
  assumes "plain base"
  shows "cut_at REFLECTION_BEGIN (body_of base (Some r))
       = Some (base @ newline, newline @ REFLECTION_LABEL @ strip r @ newline @ REFLECTION_END @ newline)"
proof -
  have "\<not> sublist REFLECTION_BEGIN (base @ newline)"
    using plain_no_delimiter [OF assms reflection_marks(1)] sublist_newline [OF reflection_marks(1), of base "[]"]
      no_delimiter_empty [OF reflection_marks(1)] by simp
  from cut_at_found [OF marked_delimiters(3) this] show ?thesis by (simp add: body_of_def reflection_block_def)
qed

lemma strip_reflections_body:
  assumes "plain base" and "\<forall>r. ro = Some r \<longrightarrow> plain (strip r)"
  shows "rstrip_newlines (strip_reflections (body_of base ro)) = rstrip_newlines base"
proof (cases ro)
  case None
  then show ?thesis
    using cut_at_none [OF plain_no_delimiter [OF assms(1) reflection_marks(1)]]
    by (simp add: strip_reflections.simps [of base] body_of_def REFLECTION_BEGIN_def)
next
  case (Some r)
  have "strip_reflections [] = []" by (simp add: strip_reflections.simps REFLECTION_BEGIN_def)
  then have "strip_reflections (body_of base ro) = base @ newline"
    using cut_block [OF assms(1), of r] cut_reflection [of r] assms(2) Some
    by (subst strip_reflections.simps) (simp add: starts_with_def newline_def)
  then show ?thesis by (simp add: rstrip_newlines_def newline_def)
qed

lemma plain_rstrip: "plain s \<Longrightarrow> plain (rstrip_newlines s)"
proof -
  assume p: "plain s"
  have "rev s = takeWhile (\<lambda>c. c = CHR 0x0A) (rev s) @ rev (rstrip_newlines s)"
    by (simp add: rstrip_newlines_def)
  then have "s = rstrip_newlines s @ rev (takeWhile (\<lambda>c. c = CHR 0x0A) (rev s))" by (metis rev_append rev_rev_ident)
  then show ?thesis using p unfolding plain_def by (metis sublist_append_rightI sublist_order.order.trans)
qed

lemma dropWhile_spaces: "list_all is_space a \<Longrightarrow> dropWhile is_space (a @ s) = dropWhile is_space s"
  by (induction a) simp_all

lemma strip_pad:
  assumes "list_all is_space a" and "list_all is_space b" shows "strip (a @ s @ b) = strip s"
proof (cases "dropWhile is_space s = []")
  case True
  then have "list_all is_space s" by (simp add: list_all_iff)
  then have "\<forall>c \<in> set (a @ s @ b). is_space c" "\<forall>c \<in> set s. is_space c" using assms by (auto simp: list_all_iff)
  then show ?thesis by (metis strip_eq_Nil_iff)
next
  case False
  then have "dropWhile is_space (a @ s @ b) = dropWhile is_space s @ b"
    using dropWhile_spaces [OF assms(1)] by (simp add: dropWhile_append3 dropWhile_append) (metis dropWhile_eq_Nil_conv)
  moreover have "list_all is_space (rev b)" using assms(2) by simp
  ultimately show ?thesis by (simp add: strip_def dropWhile_spaces)
qed

lemma strip_strip: "strip (strip s) = strip s"
proof -
  have "s = takeWhile is_space s @ strip s @ rev (takeWhile is_space (rev (dropWhile is_space s)))"
    unfolding strip_def by (metis rev_append rev_rev_ident takeWhile_dropWhile_id)
  moreover have "list_all is_space (takeWhile is_space s)" by (auto simp: list_all_iff dest: set_takeWhileD)
  moreover have "list_all is_space (rev (takeWhile is_space (rev (dropWhile is_space s))))"
    by (auto simp: list_all_iff dest: set_takeWhileD)
  ultimately show ?thesis using strip_pad by metis
qed

lemma find_reflection_body:
  assumes "plain base" and "\<forall>r. ro = Some r \<longrightarrow> plain (strip r)"
  shows "find_reflection (body_of base ro) = map_option strip ro"
proof (cases ro)
  case None
  then show ?thesis
    using search_none [OF headed_reflection plain_no_delimiter [OF assms(1) reflection_marks(1)]]
    by (simp add: find_reflection_def body_of_def)
next
  case (Some r)
  have space: "is_space (CHR '' '')" "is_space (CHR 0x0A)" "\<not> is_space (CHR ''*'')" by code_simp+
  let ?t = "REFLECTION_BEGIN @ newline @ REFLECTION_LABEL @ strip r @ newline @ REFLECTION_END @ newline"
  have cut: "cut_at REFLECTION_END ('' '' @ strip r @ newline @ REFLECTION_END @ newline) = Some ('' '' @ strip r @ newline, newline)"
  proof -
    have "\<not> sublist REFLECTION_END ('' '' @ strip r @ newline)"
      using plain_no_delimiter [of "strip r", OF _ reflection_marks(2)] assms(2) Some
        sublist_newline [OF reflection_marks(2), of "'' '' @ strip r" "[]"] no_delimiter_empty [OF reflection_marks(2)]
      by (simp add: sublist_Cons_right REFLECTION_END_def)
    from cut_at_found [OF marked_delimiters(4) this, of newline] show ?thesis by simp
  qed
  have "strip ('' '' @ strip r @ newline) = strip r"
    using strip_pad [of "'' ''" newline "strip r"] by (simp add: space newline_def strip_strip)
  moreover have "dropWhile is_space (newline @ REFLECTION_LABEL @ s) = REFLECTION_LABEL @ s" for s
    by (simp add: newline_def space REFLECTION_LABEL_def)
  moreover have "eat pat (pat @ s) = Some s" for pat s by (simp add: eat_def)
  moreover have "REFLECTION_LABEL @ s = ''**Reflection:**'' @ '' '' @ s" for s by (simp add: REFLECTION_LABEL_def)
  ultimately have "eat_reflection ?t = Some (strip r)"
    unfolding eat_reflection_def using cut by (simp only: Option.bind.simps option.map prod.case)
  then have "search_head eat_reflection ?t = Some ([], strip r)" by (rule search_here)
  moreover have "\<not> sublist REFLECTION_BEGIN (base @ newline)"
    using plain_no_delimiter [OF assms(1) reflection_marks(1)] sublist_newline [OF reflection_marks(1), of base "[]"]
      no_delimiter_empty [OF reflection_marks(1)] by simp
  moreover have "hd ?t \<notin> set (tl REFLECTION_BEGIN)" by (simp add: REFLECTION_BEGIN_def)
  ultimately have "search_head eat_reflection ((base @ newline) @ ?t) = Some (base @ newline, strip r)"
    using search_skip [OF headed_reflection, of "base @ newline" ?t] by simp
  then show ?thesis by (simp add: find_reflection_def Some body_of_def reflection_block_def)
qed

section \<open>Blocks\<close>

definition id_ok :: "string \<Rightarrow> bool" where
  "id_ok i \<longleftrightarrow> i \<noteq> [] \<and> list_all (\<lambda>c. \<not> is_space c \<and> c \<noteq> CHR ''<'') i"

definition agent_ok :: "string \<Rightarrow> bool" where
  "agent_ok a \<longleftrightarrow> a \<noteq> [] \<and> list_all (\<lambda>c. agent_char c \<and> c \<noteq> CHR ''<'') a"

type_synonym block = "string \<times> string \<times> string option"

definition block_ok :: "block \<Rightarrow> bool" where
  "block_ok b = (case b of (i, base, ro) \<Rightarrow> id_ok i \<and> plain base \<and> (\<forall>r. ro = Some r \<longrightarrow> plain (strip r)))"

definition after_begin :: "block \<Rightarrow> string \<Rightarrow> string" where
  "after_begin b s = (case b of (i, base, ro) \<Rightarrow> body_of base ro @ END_ENTRY @ newline @ s)"

definition block_text :: "string \<Rightarrow> block \<Rightarrow> string" where
  "block_text agent b = newline @ entry_begin (fst b) agent @ after_begin b []"

definition blocks_text :: "string \<Rightarrow> block list \<Rightarrow> string" where
  "blocks_text agent bs = concat (map (block_text agent) bs)"

lemma blocks_text_Cons:
  "blocks_text agent (b # bs) = newline @ entry_begin (fst b) agent @ after_begin b (blocks_text agent bs)"
  by (cases b) (simp add: blocks_text_def block_text_def after_begin_def)

lemma hd_blocks_text: "blocks_text agent bs = [] \<or> hd (blocks_text agent bs) = CHR 0x0A"
  by (cases bs) (simp_all add: blocks_text_Cons, simp_all add: blocks_text_def newline_def)

lemma eat_append [simp]: "eat pat (pat @ s) = Some s"
  by (simp add: eat_def)

lemma agent_head:
  assumes "agent_ok a"
  shows "read_agent (a @ '' '' @ COMMENT_END @ s) = Some (a, s)" and "eat_close ('' '' @ COMMENT_END @ s) = Some s"
proof -
  have space: "is_space (CHR '' '')" "\<not> is_space (CHR ''-'')" "\<not> agent_char (CHR '' '')" by code_simp+
  have "dropWhile is_space ('' '' @ COMMENT_END @ s) = COMMENT_END @ s" by (simp add: space COMMENT_END_def)
  then show close: "eat_close ('' '' @ COMMENT_END @ s) = Some s" by (simp only: eat_close_def eat_append)
  have ac: "\<And>c. c \<in> set a \<Longrightarrow> agent_char c" using assms by (auto simp: agent_ok_def list_all_iff)
  have "takeWhile agent_char (a @ '' '' @ COMMENT_END @ s) = a"
    and "dropWhile agent_char (a @ '' '' @ COMMENT_END @ s) = '' '' @ COMMENT_END @ s"
    using ac by (simp_all add: space takeWhile_append dropWhile_append)
  then show "read_agent (a @ '' '' @ COMMENT_END @ s) = Some (a, s)"
    using assms close by (simp only: read_agent_def Let_def) (simp add: agent_ok_def)
qed

lemma agent_eq_head: "agent_ok a \<Longrightarrow> eat_agent_eq ('' '' @ AGENT_EQ @ a @ s) = Some (a @ s)"
proof -
  have "is_space (CHR '' '')" "\<not> is_space (CHR ''a'')" by code_simp+
  then have "dropWhile is_space ('' '' @ AGENT_EQ @ a @ s) = AGENT_EQ @ a @ s" by (simp add: AGENT_EQ_def)
  with \<open>is_space (CHR '' '')\<close> show ?thesis unfolding eat_agent_eq_def by (simp del: append.simps add: append_Cons)
qed

lemma read_own_head:
  assumes "id_ok i" and "agent_ok a" shows "read_begin (entry_begin i a @ s) = Some ((i, a), s)"
proof -
  have ns: "\<And>c. c \<in> set i \<Longrightarrow> is_nonspace c" using assms(1) by (auto simp: id_ok_def list_all_iff is_nonspace_def)
  have "\<not> is_nonspace (CHR '' '')" by code_simp
  then have "takeWhile is_nonspace (i @ '' '' @ t) = i" and d: "dropWhile is_nonspace (i @ '' '' @ t) = '' '' @ t" for t
    using ns by (simp_all add: takeWhile_append dropWhile_append)
  then show ?thesis using assms(1) agent_eq_head [OF assms(2)] agent_head(1) [OF assms(2)]
    by (simp only: read_begin_def entry_begin_def append_assoc eat_append Option.bind.simps Let_def d)
       (simp add: id_ok_def)
qed

lemma own_head: "id_ok i \<Longrightarrow> agent_ok a \<Longrightarrow> eat_begin_of i a (entry_begin i a @ s) = Some s"
  using agent_eq_head [of a] agent_head(2) [of a]
  by (simp only: eat_begin_of_def entry_begin_def append_assoc eat_append Option.bind.simps)

lemma other_head:
  assumes "id_ok i" and "id_ok j" and "i \<noteq> j" shows "eat_begin_of i a (entry_begin j b @ s) = None"
proof (rule ccontr)
  let ?t = "j @ '' '' @ AGENT_EQ @ b @ '' '' @ COMMENT_END @ s"
  assume "eat_begin_of i a (entry_begin j b @ s) \<noteq> None"
  moreover have "eat BEGIN_ID (entry_begin j b @ s) = Some ?t" by (simp only: entry_begin_def append_assoc eat_append)
  ultimately have "Option.bind (eat i ?t) (\<lambda>s2. Option.bind (eat_agent_eq s2) (\<lambda>s3. Option.bind (eat a s3) eat_close)) \<noteq> None"
    by (simp only: eat_begin_of_def Option.bind.simps not_False_eq_True)
  then obtain t u where t: "eat i ?t = Some t" and u: "eat_agent_eq t = Some u"
    unfolding bind_eq_None_conv by (metis option.exhaust option.sel)
  let ?p = "\<lambda>c. \<not> is_space c"
  have "j @ '' '' @ AGENT_EQ @ b @ '' '' @ COMMENT_END @ s = i @ t"
    using t by (auto simp: eat_def starts_with_iff split: if_splits)
  then have eq: "takeWhile ?p ?t = takeWhile ?p (i @ t)" by simp
  have nonspace: "\<And>c. c \<in> set i \<Longrightarrow> ?p c" "\<And>c. c \<in> set j \<Longrightarrow> ?p c" using assms(1,2) by (auto simp: id_ok_def list_all_iff)
  have "is_space (CHR '' '')" by code_simp
  then have "takeWhile ?p ?t = j" using takeWhile_append2 [of j ?p, OF nonspace(2)] by simp
  moreover have "t \<noteq> [] \<and> is_space (hd t)" using u by (auto simp: eat_agent_eq_def split: if_splits)
  then have "takeWhile ?p (i @ t) = i" using takeWhile_append2 [of i ?p, OF nonspace(1)] by (cases t) simp_all
  ultimately have "j = i" using eq by simp
  with assms(3) show False by simp
qed

definition view :: "string \<Rightarrow> block \<Rightarrow> parsed_entry" where
  "view agent b = (case b of (i, base, ro) \<Rightarrow>
     \<lparr>pe_advice_id = i, pe_agent = agent, pe_body = strip (body_of base ro), pe_reflection = map_option strip ro\<rparr>)"

lemma cut_after_begin:
  assumes "block_ok b"
  shows "cut_at END_ENTRY (after_begin b s) = Some (body_of (fst (snd b)) (snd (snd b)), newline @ s)"
proof -
  obtain i base ro where b: "b = (i, base, ro)" by (cases b)
  then have "\<not> sublist END_ENTRY (body_of base ro)" using assms body_quiet [of base ro END_ENTRY] by (simp add: block_ok_def)
  from cut_at_found [OF marked_delimiters(2) this, of "newline @ s"] show ?thesis by (simp add: b after_begin_def)
qed

lemma quiet_newline: "\<not> sublist BEGIN_ID a \<Longrightarrow> \<not> sublist BEGIN_ID (a @ newline)"
  using sublist_newline [OF reflection_marks(3), of a "[]"] no_delimiter_empty [OF reflection_marks(3)] by simp

lemma begin_hd: "hd (entry_begin i a @ s) \<notin> set (tl BEGIN_ID)"
  by (simp add: entry_begin_def BEGIN_ID_def)

text \<open>Reading a file gives its blocks, in order.\<close>

lemma parse_blocks:
  "\<not> sublist BEGIN_ID a \<Longrightarrow> \<forall>b \<in> set bs. block_ok b \<Longrightarrow> agent_ok agent
     \<Longrightarrow> parse_entries (a @ blocks_text agent bs) = map (view agent) bs"
proof (induction bs arbitrary: a)
  case Nil
  then show ?case using search_none [OF headed_read, of a] by (simp add: parse_entries.simps blocks_text_def)
next
  case (Cons b bs)
  obtain i base ro where b: "b = (i, base, ro)" by (cases b)
  have ok: "block_ok b" "id_ok i" "plain base" "\<forall>r. ro = Some r \<longrightarrow> plain (strip r)"
    using Cons.prems(2) by (auto simp: b block_ok_def)
  let ?rest = "blocks_text agent bs"
  have "search_head read_begin (entry_begin i agent @ after_begin b ?rest) = Some ([], (i, agent), after_begin b ?rest)"
    by (rule search_here) (rule read_own_head [OF ok(2) Cons.prems(3)])
  then have "search_head read_begin ((a @ newline) @ entry_begin i agent @ after_begin b ?rest)
      = Some (a @ newline, (i, agent), after_begin b ?rest)"
    using search_skip [OF headed_read quiet_newline [OF Cons.prems(1)], of "entry_begin i agent @ after_begin b ?rest"]
      begin_hd [of i agent "after_begin b ?rest"] by simp
  moreover have "parse_entries (newline @ ?rest) = map (view agent) bs"
    using Cons.IH [of newline] Cons.prems(2,3) quiet_newline [of "[]"] no_delimiter_empty [OF reflection_marks(3)] by simp
  ultimately show ?case
    using cut_after_begin [OF ok(1), of ?rest] find_reflection_body [OF ok(3,4)]
    by (subst parse_entries.simps) (simp add: blocks_text_Cons b view_def)
qed

section \<open>Amending blocks\<close>

fun amend :: "string \<Rightarrow> string \<Rightarrow> block list \<Rightarrow> block list" where
  "amend i r [] = []"
| "amend i r ((j, base, ro) # bs) = (if j = i then (j, rstrip_newlines base, Some r) # bs else (j, base, ro) # amend i r bs)"

lemma amend_ok: "\<forall>b \<in> set bs. block_ok b \<Longrightarrow> plain (strip r) \<Longrightarrow> \<forall>b \<in> set (amend i r bs). block_ok b"
  by (induction i r bs rule: amend.induct) (auto simp: block_ok_def plain_rstrip)

lemma no_bracket_join: "CHR ''<'' \<notin> set a \<Longrightarrow> sublist BEGIN_ID (a @ s) \<longleftrightarrow> sublist BEGIN_ID s"
  by (induction a) (auto simp: sublist_Cons_right BEGIN_ID_def)

lemma inject_skip:
  assumes "search_head (eat_begin_of i a) (w @ s) = map_option (\<lambda>(p, x). (w @ p, x)) (search_head (eat_begin_of i a) s)"
  shows "inject_reflection (w @ s) i a r = (w @ fst (inject_reflection s i a r), snd (inject_reflection s i a r))"
  using assms by (simp add: inject_reflection_def split: option.splits)

lemma skip_block:
  assumes "\<not> sublist BEGIN_ID a" and "block_ok (j, base, ro)" and "agent_ok ag" and "id_ok i" and "i \<noteq> j"
  shows "search_head (eat_begin_of i ag) ((a @ newline @ entry_begin j ag @ body_of base ro @ END_ENTRY) @ newline @ s)
    = map_option (\<lambda>(p, x). ((a @ newline @ entry_begin j ag @ body_of base ro @ END_ENTRY) @ p, x))
        (search_head (eat_begin_of i ag) (newline @ s))"
proof -
  let ?h = "eat_begin_of i ag" and ?r = "newline @ s"
  let ?tail = "tl (entry_begin j ag) @ body_of base ro @ END_ENTRY"
  have ok: "id_ok j" "plain base" "\<forall>r. ro = Some r \<longrightarrow> plain (strip r)" using assms(2) by (auto simp: block_ok_def)
  have eb: "entry_begin j ag = CHR ''<'' # tl (entry_begin j ag)" by (simp add: entry_begin_def BEGIN_ID_def)
  have "CHR ''<'' \<notin> set (tl (entry_begin j ag))"
    using ok(1) assms(3)
    by (auto simp: entry_begin_def BEGIN_ID_def AGENT_EQ_def COMMENT_END_def id_ok_def agent_ok_def list_all_iff)
  moreover have "\<not> sublist BEGIN_ID (body_of base ro @ END_ENTRY)"
  proof -
    have "hd END_ENTRY \<notin> set (tl BEGIN_ID)" and "BEGIN_ID \<noteq> []" and "\<not> sublist BEGIN_ID END_ENTRY"
      by (simp_all add: END_ENTRY_def BEGIN_ID_def sublist_code)
    then show ?thesis using sublist_join [of BEGIN_ID END_ENTRY] body_quiet [OF ok(2,3), of BEGIN_ID] by simp
  qed
  ultimately have quiet: "\<not> sublist BEGIN_ID ?tail" using no_bracket_join by blast
  have nl: "hd (newline @ s) \<notin> set (tl BEGIN_ID)" by (simp add: newline_def BEGIN_ID_def)
  have "?h (entry_begin j ag @ t) = None" for t by (rule other_head [OF assms(4) ok(1) assms(5)])
  then have "?h (CHR ''<'' # ?tail @ ?r) = None" by (metis append_Cons append_assoc eb)
  then have at: "search_head ?h (CHR ''<'' # ?tail @ ?r)
      = map_option (\<lambda>(p, x). (CHR ''<'' # ?tail @ p, x)) (search_head ?h ?r)"
    using search_skip [OF headed_begin_of [of i ag] quiet, of ?r] nl by (cases "search_head ?h ?r") auto
  have "hd (CHR ''<'' # ?tail @ ?r) \<notin> set (tl BEGIN_ID)" by (simp add: BEGIN_ID_def)
  then have "search_head ?h ((a @ newline) @ CHR ''<'' # ?tail @ ?r)
      = map_option (\<lambda>(p, x). ((a @ newline) @ CHR ''<'' # ?tail @ p, x)) (search_head ?h ?r)"
    using search_skip [OF headed_begin_of [of i ag] quiet_newline [OF assms(1)], of "CHR ''<'' # ?tail @ ?r"] at
    by (cases "search_head ?h ?r") auto
  moreover have "(a @ newline) @ CHR ''<'' # ?tail @ t = (a @ newline @ entry_begin j ag @ body_of base ro @ END_ENTRY) @ t" for t
    by (metis append_Cons append_assoc eb)
  ultimately show ?thesis by (simp only:)
qed

lemma inject_blocks:
  "\<not> sublist BEGIN_ID a \<Longrightarrow> \<forall>b \<in> set bs. block_ok b \<Longrightarrow> agent_ok ag \<Longrightarrow> id_ok i
     \<Longrightarrow> inject_reflection (a @ blocks_text ag bs) i ag r = (a @ blocks_text ag (amend i r bs), i \<in> fst ` set bs)"
proof (induction bs arbitrary: a)
  case Nil
  then show ?case using search_none [OF headed_begin_of] by (simp add: inject_reflection_def blocks_text_def)
next
  case (Cons b bs)
  obtain j base ro where b: "b = (j, base, ro)" by (cases b)
  have ok: "block_ok b" "id_ok j" "plain base" "\<forall>r. ro = Some r \<longrightarrow> plain (strip r)"
    using Cons.prems(2) by (auto simp: b block_ok_def)
  let ?rest = "blocks_text ag bs"
  show ?case
  proof (cases "j = i")
    case True
    have "search_head (eat_begin_of i ag) (entry_begin i ag @ after_begin b ?rest) = Some ([], after_begin b ?rest)"
      by (rule search_here) (rule own_head [OF Cons.prems(4,3)])
    then have "search_head (eat_begin_of i ag) ((a @ newline) @ entry_begin i ag @ after_begin b ?rest)
        = Some (a @ newline, after_begin b ?rest)"
      using search_skip [OF headed_begin_of [of i ag] quiet_newline [OF Cons.prems(1)], of "entry_begin i ag @ after_begin b ?rest"]
        begin_hd [of i ag "after_begin b ?rest"] by simp
    then have "inject_reflection (a @ blocks_text ag (b # bs)) i ag r
        = (a @ newline @ entry_begin i ag @ rstrip_newlines base @ reflection_block r @ END_ENTRY @ newline @ ?rest, True)"
      using cut_after_begin [OF ok(1), of ?rest] strip_reflections_body [OF ok(3,4)] True
      by (simp add: inject_reflection_def blocks_text_Cons b)
    then show ?thesis by (simp add: b True blocks_text_Cons after_begin_def body_of_def)
  next
    case False
    let ?W = "a @ newline @ entry_begin j ag @ body_of base ro @ END_ENTRY"
    have split: "a @ blocks_text ag (b # bs2) = ?W @ newline @ blocks_text ag bs2" for bs2
      by (simp add: blocks_text_Cons b after_begin_def)
    have "inject_reflection (newline @ ?rest) i ag r = (newline @ blocks_text ag (amend i r bs), i \<in> fst ` set bs)"
      using Cons.IH [of newline] Cons.prems quiet_newline [of "[]"] no_delimiter_empty [OF reflection_marks(3)] by simp
    moreover have "amend i r (b # bs) = b # amend i r bs" using False by (simp add: b)
    ultimately show ?thesis
      using inject_skip [OF skip_block [OF Cons.prems(1) ok(1) [unfolded b] Cons.prems(3,4)], of ?rest] False
      by (simp only: split) (auto simp: b)
  qed
qed

section \<open>The log refines a list of entries with their latest reflection\<close>

datatype log_op = Append log_entry | Amend string string

definition log_step :: "string \<Rightarrow> log_root \<Rightarrow> log_op \<Rightarrow> log_root" where
  "log_step agent fs op = (case op of Append e \<Rightarrow> log_append e fs | Amend i r \<Rightarrow> snd (attach_reflection agent i r fs))"

definition written_reflection :: "log_entry \<Rightarrow> string option" where
  "written_reflection e = (case de_reflection e of None \<Rightarrow> None | Some r \<Rightarrow> if r = [] then None else Some r)"

definition base_of :: "log_entry \<Rightarrow> string" where
  "base_of e = entry_body (e\<lparr>de_reflection := None\<rparr>)"

definition op_ok :: "string \<Rightarrow> log_op \<Rightarrow> bool" where
  "op_ok agent op =
     (case op of
        Append e \<Rightarrow> de_agent e = agent \<and> block_ok (de_advice_id e, base_of e, written_reflection e)
      | Amend i r \<Rightarrow> id_ok i \<and> plain (strip r))"

text \<open>The specification: advice ids with the reflection last written, newest entry last.\<close>

fun spec_amend :: "string \<Rightarrow> string \<Rightarrow> (string \<times> string option) list \<Rightarrow> (string \<times> string option) list" where
  "spec_amend i r [] = []"
| "spec_amend i r ((j, x) # l) = (if j = i then (j, Some (strip r)) # l else (j, x) # spec_amend i r l)"

definition spec_step :: "(string \<times> string option) list \<Rightarrow> log_op \<Rightarrow> (string \<times> string option) list" where
  "spec_step l op =
     (case op of Append e \<Rightarrow> l @ [(de_advice_id e, map_option strip (written_reflection e))] | Amend i r \<Rightarrow> spec_amend i r l)"

definition file_holds :: "string \<Rightarrow> log_root \<Rightarrow> block list \<Rightarrow> bool" where
  "file_holds agent fs bs \<longleftrightarrow> (\<forall>b \<in> set bs. block_ok b) \<and>
     (case map_of fs (path_for agent) of None \<Rightarrow> bs = [] | Some s \<Rightarrow> s = header_for agent @ blocks_text agent bs)"

definition abs_block :: "block \<Rightarrow> string \<times> string option" where
  "abs_block b = (case b of (i, base, ro) \<Rightarrow> (i, map_option strip ro))"

lemma header_quiet: "agent_ok agent \<Longrightarrow> \<not> sublist BEGIN_ID (header_for agent)"
proof -
  assume "agent_ok agent"
  then have "CHR ''<'' \<notin> set (header_for agent)"
    by (auto simp: header_for_def agent_ok_def list_all_iff newline_def em_dash_def)
  from no_bracket_join [OF this, of "[]"] show ?thesis using no_delimiter_empty [OF reflection_marks(3)] by simp
qed

lemma render_block: "render_entry e = block_text (de_agent e) (de_advice_id e, base_of e, written_reflection e)"
  by (simp add: render_entry_def block_text_def after_begin_def body_of_def base_of_def entry_body_def written_reflection_def
      split: option.split)

lemma blocks_snoc: "blocks_text agent (bs @ [b]) = blocks_text agent bs @ block_text agent b"
  by (simp add: blocks_text_def)

lemma step_holds:
  assumes "file_holds agent fs bs" and "agent_ok agent" and "op_ok agent op"
  shows "\<exists>bs'. file_holds agent (log_step agent fs op) bs' \<and> map abs_block bs' = spec_step (map abs_block bs) op"
proof (cases op)
  case (Append e)
  let ?b = "(de_advice_id e, base_of e, written_reflection e)"
  have e: "de_agent e = agent" "block_ok ?b" using assms(3) by (simp_all add: op_ok_def Append)
  have "file_holds agent (log_append e fs) (bs @ [?b])"
    using assms(1) e
    by (auto simp: file_holds_def log_append_def Let_def update_conv render_block blocks_snoc blocks_text_def split: option.splits)
  then show ?thesis by (intro exI [of _ "bs @ [?b]"]) (simp add: Append log_step_def spec_step_def abs_block_def)
next
  case (Amend i r)
  have i: "id_ok i" "plain (strip r)" using assms(3) by (simp_all add: op_ok_def Amend)
  have bs: "\<forall>b \<in> set bs. block_ok b" using assms(1) by (simp add: file_holds_def)
  have spec: "map abs_block (amend i r bs) = spec_amend i r (map abs_block bs)"
    by (induction i r bs rule: amend.induct) (simp_all add: abs_block_def)
  have same: "i \<notin> fst ` set bs \<Longrightarrow> amend i r bs = bs" by (induction i r bs rule: amend.induct) auto
  have "file_holds agent (snd (attach_reflection agent i r fs)) (amend i r bs)"
  proof (cases "map_of fs (path_for agent)")
    case None
    then show ?thesis using assms(1) by (simp add: file_holds_def attach_reflection_def)
  next
    case (Some s)
    then have s: "s = header_for agent @ blocks_text agent bs" using assms(1) by (simp add: file_holds_def)
    from inject_blocks [OF header_quiet [OF assms(2)] bs assms(2) i(1), of r]
    have "inject_reflection s i agent r = (header_for agent @ blocks_text agent (amend i r bs), i \<in> fst ` set bs)"
      by (simp add: s)
    then show ?thesis using amend_ok [OF bs i(2)] Some s same
      by (auto simp: file_holds_def attach_reflection_def update_conv)
  qed
  then show ?thesis using spec by (auto simp: Amend log_step_def spec_step_def)
qed

lemma run_holds:
  "agent_ok agent \<Longrightarrow> \<forall>op \<in> set ops. op_ok agent op
     \<Longrightarrow> \<exists>bs. file_holds agent (foldl (log_step agent) [] ops) bs \<and> map abs_block bs = foldl spec_step [] ops"
proof (induction ops rule: rev_induct)
  case Nil
  have "file_holds agent [] []" by (simp add: file_holds_def)
  then show ?case by force
next
  case (snoc op ops)
  then obtain bs where "file_holds agent (foldl (log_step agent) [] ops) bs" "map abs_block bs = foldl spec_step [] ops" by auto
  then show ?case using step_holds [of agent _ bs op] snoc.prems by simp
qed

text \<open>
  C15: After any appends and reflections of an agent whose texts hold no HTML comment and whose ids and name hold
  no space or angle bracket, reading the file gives every entry in the order written, each with
  the reflection last attached to it: a reflection reaches the entry of its advice and no other.
\<close>

theorem decision_log_refines_list:
  assumes "agent_ok agent" and "\<forall>op \<in> set ops. op_ok agent op"
  shows "map (\<lambda>p. (pe_advice_id p, pe_agent p, pe_reflection p)) (iter_entries agent (foldl (log_step agent) [] ops))
    = map (\<lambda>(i, r). (i, agent, r)) (foldl spec_step [] ops)"
proof -
  obtain bs where h: "file_holds agent (foldl (log_step agent) [] ops) bs" and spec: "map abs_block bs = foldl spec_step [] ops"
    using run_holds [OF assms] by blast
  have "iter_entries agent (foldl (log_step agent) [] ops) = map (view agent) bs"
  proof (cases "map_of (foldl (log_step agent) [] ops) (path_for agent)")
    case None
    then show ?thesis using h by (simp add: iter_entries_def file_holds_def)
  next
    case (Some s)
    then show ?thesis using h parse_blocks [OF header_quiet [OF assms(1)] _ assms(1)] by (simp add: iter_entries_def file_holds_def)
  qed
  moreover have "(case abs_block b of (i, r) \<Rightarrow> (i, agent, r))
      = (pe_advice_id (view agent b), pe_agent (view agent b), pe_reflection (view agent b))" for b
    by (simp add: abs_block_def view_def split: prod.splits)
  ultimately show ?thesis by (simp flip: spec)
qed

definition sample_ops :: "log_op list" where
  "sample_ops =
     [Append \<lparr>de_advice_id = ''A1'', de_agent = ''quant'', de_issued_at = ''t'', de_rating = ''long'', de_thesis = ''x < y'',
              de_evidence_urls = [], de_reflection = None\<rparr>,
      Amend ''A1'' '' it held '']"

theorem decision_log_refines_list_witness:
  "map (\<lambda>p. (pe_advice_id p, pe_agent p, pe_reflection p)) (iter_entries ''quant'' (foldl (log_step ''quant'') [] sample_ops))
    = [(''A1'', ''quant'', Some ''it held'')]"
proof -
  have "agent_ok ''quant''" by code_simp
  moreover have "\<forall>op \<in> set sample_ops. op_ok ''quant'' op"
    by (auto simp: sample_ops_def op_ok_def block_ok_def id_ok_def plain_def base_of_def entry_body_def written_reflection_def
        newline_def em_dash_def strip_def is_space_def sublist_code)
  ultimately have "map (\<lambda>p. (pe_advice_id p, pe_agent p, pe_reflection p)) (iter_entries ''quant'' (foldl (log_step ''quant'') [] sample_ops))
    = map (\<lambda>(i, r). (i, ''quant'', r)) (foldl spec_step [] sample_ops)" by (rule decision_log_refines_list)
  also have "\<dots> = [(''A1'', ''quant'', Some ''it held'')]"
    by (simp add: sample_ops_def spec_step_def written_reflection_def strip_def is_space_def)
  finally show ?thesis .
qed

end
