(* ===== verification/BacktestService.thy ===== *)
theory BacktestService
  imports Backtest DataBus DecisionLog
begin

text \<open>
  What the backtest agent tells others (\<^verbatim>\<open>apps/agent_backtest/backtest/\<close>): the fill event on the
  bus (\<^verbatim>\<open>publish.py\<close>), the narrative of a closed trade (\<^verbatim>\<open>narrate.py\<close>), the reflection
  written into the source agent's decision log (\<^verbatim>\<open>reflect.py\<close>) and the service's endpoints
  (\<^verbatim>\<open>main.py\<close>). The language model, the bus and the conversion of times and floats to text
  are parameters.
\<close>

section \<open>The fill event\<close>

record backtest_fill_v1 =
  bf_advice_id :: string
  bf_agent :: string
  bf_opened_at :: seconds
  bf_closed_at :: seconds
  bf_entry_px :: rat
  bf_exit_px :: rat
  bf_exit_reason :: exit_reason
  bf_pnl_usd :: rat
  bf_pnl_r :: rat
  bf_max_dd_during_trade_pct :: rat
  bf_narrative :: string

definition fill_valid :: "backtest_fill_v1 \<Rightarrow> bool" where
  "fill_valid f \<longleftrightarrow> 0 < bf_entry_px f \<and> 0 < bf_exit_px f \<and> 0 \<le> bf_max_dd_during_trade_pct f \<and> length (bf_narrative f) \<le> 1000"

definition fill_of :: "position \<Rightarrow> string \<Rightarrow> string + backtest_fill_v1" where
  "fill_of p narrative =
     (case (ps_exit_px p, ps_closed_at p, ps_exit_reason p) of
        (Some exit_px, Some closed_at, Some reason) \<Rightarrow>
          construct fill_valid
            \<lparr>bf_advice_id = ps_advice_id p, bf_agent = ps_agent p, bf_opened_at = ps_opened_at p, bf_closed_at = closed_at,
             bf_entry_px = ps_fill_px p, bf_exit_px = exit_px, bf_exit_reason = reason, bf_pnl_usd = ps_pnl_usd p,
             bf_pnl_r = ps_pnl_r p, bf_max_dd_during_trade_pct = ps_max_drawdown_pct p, bf_narrative = narrative\<rparr>
      | _ \<Rightarrow> Inl ''publish_fill requires a closed position'')"

definition BACKTEST_FILL :: string where
  "BACKTEST_FILL = ''backtest.fill.v1''"

definition publish_fill :: "(backtest_fill_v1, 'w) bus \<Rightarrow> position \<Rightarrow> string \<Rightarrow> 'w \<Rightarrow> (bus_error + string) \<times> 'w" where
  "publish_fill js p narrative w =
     (case fill_of p narrative of
        Inl e \<Rightarrow> (Inl (BusExn e), w)
      | Inr f \<Rightarrow> publish js BACKTEST_FILL f (Some (''fill:'' @ ps_advice_id p)) w)"

section \<open>The narrative\<close>

definition BANNED_WORDS :: "string list" where
  "BANNED_WORDS = [''crushed'', ''epic'', ''moonshot'', ''destroyed'', ''annihilated'']"

datatype narrate_error = NotClosed | HypeDetected string | ChatError string

text \<open>\<open>word in lower\<close>.\<close>

definition contains :: "string \<Rightarrow> string \<Rightarrow> bool" where
  "contains w s \<longleftrightarrow> sublist w s"

text \<open>\<open>chat\<close> is the model's answer to the facts of the position.\<close>

definition narrate :: "(position \<Rightarrow> string + string) \<Rightarrow> position \<Rightarrow> narrate_error + string" where
  "narrate chat p =
     (if ps_state p \<noteq> Closed then Inl NotClosed
      else case chat p of
             Inl e \<Rightarrow> Inl (ChatError e)
           | Inr answer \<Rightarrow>
               (let s = strip answer in
                case List.find (\<lambda>w. contains w (lower s)) BANNED_WORDS of
                  Some w \<Rightarrow> Inl (HypeDetected w) | None \<Rightarrow> Inr s))"

section \<open>The reflection\<close>

record realized_outcome =
  ro_advice_id :: string
  ro_agent :: string
  ro_ticker :: string
  ro_venue :: string
  ro_direction :: direction
  ro_entry_px :: rat
  ro_exit_px :: rat
  ro_exit_reason :: exit_reason
  ro_realized_pnl_pct :: rat
  ro_benchmark_pnl_pct :: rat

definition thesis_held :: "realized_outcome \<Rightarrow> bool" where
  "thesis_held x =
     (if ro_exit_reason x = Target then True
      else if ro_exit_reason x = Stop then False
      else if ro_direction x = Long then ro_exit_px x \<ge> ro_entry_px x
      else ro_exit_px x \<le> ro_entry_px x)"

fun exit_reason_value :: "exit_reason \<Rightarrow> string" where
  "exit_reason_value Target = ''target''"
| "exit_reason_value Stop = ''stop''"
| "exit_reason_value Expiry = ''expiry''"
| "exit_reason_value EarlyClose = ''early_close''"

text \<open>
  \<open>pct\<close> is \<open>f'{x:.1%}'\<close> and \<open>spct\<close> \<open>f'{x:+.1%}'\<close>. The multiplication sign and the dash of the
  messages are single characters with codes of their own.
\<close>

definition times_sign :: string where
  "times_sign = [CHR 0xD7]"

definition lesson_for :: "(rat \<Rightarrow> string) \<Rightarrow> realized_outcome \<Rightarrow> bool \<Rightarrow> string" where
  "lesson_for pct x held =
     (case ro_exit_reason x of
        Target \<Rightarrow> ''target hit on '' @ ro_ticker x @ ''; momentum continuation in this regime is real''
      | Stop \<Rightarrow> ''stop on '' @ ro_ticker x @ ''; thesis was '' @ pct \<bar>ro_benchmark_pnl_pct x\<bar> @ times_sign
          @ '' wrong vs benchmark '' @ em_dash @ '' review entry timing''
      | Expiry \<Rightarrow> if held then ''expiry on '' @ ro_ticker x @ ''; horizon was probably too short''
          else ''expiry on '' @ ro_ticker x @ ''; thesis didn't crystallize '' @ em_dash @ '' re-examine catalyst timing''
      | EarlyClose \<Rightarrow> ''early_close on '' @ ro_ticker x @ ''; check whether the trigger was correct'')"

definition compose_reflection :: "(rat \<Rightarrow> string) \<Rightarrow> (rat \<Rightarrow> string) \<Rightarrow> realized_outcome \<Rightarrow> string" where
  "compose_reflection pct spct x =
     (let alpha = ro_realized_pnl_pct x - ro_benchmark_pnl_pct x;
          held = thesis_held x;
          lesson = lesson_for pct x held;
          benchmark = (if upper (ro_venue x) \<in> set [''NASDAQ'', ''NYSE'', ''ARCA''] then ''SPY'' else ''HSI'')
      in ''Realized '' @ spct (ro_realized_pnl_pct x) @ '' ('' @ exit_reason_value (ro_exit_reason x) @ ''); alpha vs ''
         @ benchmark @ '' = '' @ spct alpha @ ''. Thesis-'' @ (if held then ''held'' else ''failed'') @ ''. Lesson: '' @ lesson)"

definition reflect :: "(rat \<Rightarrow> string) \<Rightarrow> (rat \<Rightarrow> string) \<Rightarrow> realized_outcome \<Rightarrow> log_root \<Rightarrow> bool \<times> log_root" where
  "reflect pct spct x fs = attach_reflection (ro_agent x) (ro_advice_id x) (compose_reflection pct spct x) fs"

section \<open>The service\<close>

text \<open>\<open>getattr(p, name, dflt)\<close> on a position; \<open>iso\<close> prints its time of opening.\<close>

definition position_attrs :: "(seconds \<Rightarrow> string) \<Rightarrow> position \<Rightarrow> (string, json) dict" where
  "position_attrs isoformat p =
     [(''advice_id'', JStr (ps_advice_id p)), (''agent'', JStr (ps_agent p)), (''ticker'', JStr (ps_ticker p)),
      (''venue'', JStr (ps_venue p)), (''direction'', JStr (if ps_direction p = Long then ''long'' else ''short'')),
      (''stop_loss'', JNum (ps_stop_loss p)), (''fill_px'', JNum (ps_fill_px p)),
      (''state'', JStr (if ps_state p = Open then ''open'' else ''closed'')), (''pnl_usd'', JNum (ps_pnl_usd p)),
      (''pnl_r'', JNum (ps_pnl_r p)), (''max_drawdown_pct'', JNum (ps_max_drawdown_pct p)),
      (''opened_at'', JStr (isoformat (ps_opened_at p)))]"

definition getattr :: "(seconds \<Rightarrow> string) \<Rightarrow> position \<Rightarrow> string \<Rightarrow> json \<Rightarrow> json" where
  "getattr isoformat p name dflt = (case map_of (position_attrs isoformat p) name of None \<Rightarrow> dflt | Some v \<Rightarrow> v)"

fun num_of :: "json \<Rightarrow> rat" where
  "num_of (JNum r) = r"
| "num_of _ = 0"

definition run_daily_mtm :: "(seconds \<Rightarrow> string) \<Rightarrow> seconds \<Rightarrow> store \<Rightarrow> json" where
  "run_daily_mtm isoformat now book =
     (let ps = open_positions book in
      JObj [(''status'', JStr ''ok''), (''as_of'', JStr (isoformat now)), (''open_n'', jnat (length ps)), (''agents'', JArr []),
            (''pnl_total_usd'', JNum (sum_list (map (\<lambda>p. num_of (getattr isoformat p ''pnl_usd'' (JNum 0))) ps)))])"

text \<open>The dictionary from agents to their closed positions' profits, in the order the agents first appear.\<close>

definition by_agent :: "(seconds \<Rightarrow> string) \<Rightarrow> position list \<Rightarrow> (json, rat list) dict" where
  "by_agent isoformat ps =
     foldl (\<lambda>d p. let a = getattr isoformat p ''source_agent'' (JStr ''unknown'');
                      old = (case map_of d a of None \<Rightarrow> [] | Some xs \<Rightarrow> xs)
                  in AList.update a (old @ [num_of (getattr isoformat p ''pnl_usd'' (JNum 0))]) d) [] ps"

definition run_weekly_eval :: "(seconds \<Rightarrow> string) \<Rightarrow> store \<Rightarrow> (json \<times> nat \<times> rat) list" where
  "run_weekly_eval isoformat book =
     map (\<lambda>(a, xs). (a, length xs, sum_list xs)) (by_agent isoformat (closed_positions book))"

record board_entry =
  be_agent :: json
  be_n :: nat
  be_pnl_usd :: rat
  be_win_rate :: rat

text \<open>The agents are sorted by name; \<open>sort_agents\<close> is \<open>sorted\<close> on pairs with distinct names.\<close>

definition leaderboard_endpoint :: "((json \<times> rat list) list \<Rightarrow> (json \<times> rat list) list) \<Rightarrow> (seconds \<Rightarrow> string) \<Rightarrow> store \<Rightarrow> board_entry list" where
  "leaderboard_endpoint sort_agents isoformat book =
     map (\<lambda>(a, xs). \<lparr>be_agent = a, be_n = length xs, be_pnl_usd = sum_list xs,
                     be_win_rate = of_nat (length (filter (\<lambda>x. x > 0) xs)) / of_nat (max 1 (length xs))\<rparr>)
       (sort_agents (by_agent isoformat (closed_positions book)))"

definition position_dict :: "(seconds \<Rightarrow> string) \<Rightarrow> position \<Rightarrow> json" where
  "position_dict isoformat p =
     JObj (map (\<lambda>n. (n, getattr isoformat p n JNull)) [''advice_id'', ''ticker'', ''direction'', ''state'', ''entry_price'']
           @ [(''pnl_usd'', getattr isoformat p ''pnl_usd'' (JNum 0)), (''opened_at'', getattr isoformat p ''opened_at'' JNull)])"

definition positions_open :: "(seconds \<Rightarrow> string) \<Rightarrow> store \<Rightarrow> json" where
  "positions_open isoformat book = JObj [(''positions'', JArr (map (position_dict isoformat) (open_positions book)))]"

definition positions_closed :: "(seconds \<Rightarrow> string) \<Rightarrow> store \<Rightarrow> json" where
  "positions_closed isoformat book = JObj [(''positions'', JArr (map (position_dict isoformat) (closed_positions book)))]"

section \<open>What the service reports\<close>

lemma by_agent_unknown:
  "by_agent isoformat ps = (if ps = [] then [] else [(JStr ''unknown'', map ps_pnl_usd ps)])"
proof -
  have attr: "getattr isoformat p ''source_agent'' d = d" "getattr isoformat p ''pnl_usd'' d = JNum (ps_pnl_usd p)" for p d
    by (simp_all add: getattr_def position_attrs_def)
  show ?thesis
    by (induction ps rule: rev_induct) (simp_all add: by_agent_def attr Let_def)
qed

text \<open>
  The leaderboard endpoint never tells agents apart: whichever agents' trades are closed, it has one entry,
  for the agent \<open>unknown\<close>, with all the trades and all their profit in it.
\<close>

theorem leaderboard_has_one_agent:
  assumes "closed_positions book \<noteq> []" and "\<And>x. sort_agents [x] = [x]"
  shows "\<exists>wins. leaderboard_endpoint sort_agents isoformat book =
    [\<lparr>be_agent = JStr ''unknown'', be_n = length (closed_positions book),
      be_pnl_usd = sum_list (map ps_pnl_usd (closed_positions book)), be_win_rate = wins\<rparr>]"
  using assms by (simp add: leaderboard_endpoint_def by_agent_unknown)

text \<open>
  Whatever positions are opened, ticked and closed, the daily mark-to-market endpoint reports a profit of 0:
  it sums a field that stays 0 until a position is closed, and looks only at open positions.
\<close>

theorem daily_mtm_always_zero:
  assumes "store_ok book"
  shows "dget (case run_daily_mtm isoformat now book of JObj d \<Rightarrow> d | _ \<Rightarrow> []) ''pnl_total_usd'' = JNum 0"
proof -
  have "ps_pnl_usd p = 0" if "p \<in> set (open_positions book)" for p
    using open_in_store [OF assms that] by (auto simp: pos_ok_def)
  then have "map (\<lambda>p. num_of (getattr isoformat p ''pnl_usd'' (JNum 0))) (open_positions book) = map (\<lambda>p. 0) (open_positions book)"
    by (simp add: getattr_def position_attrs_def)
  then have "sum_list (map (\<lambda>p. num_of (getattr isoformat p ''pnl_usd'' (JNum 0))) (open_positions book)) = 0"
    by (metis sum_list_0)
  then show ?thesis by (simp add: run_daily_mtm_def Let_def dget_def)
qed

theorem leaderboard_has_one_agent_witness:
  "length (leaderboard_endpoint id (\<lambda>t. []) [(''A'', close_at sample_position 250 (Some Target) 110)]) = 1"
proof -
  have "closed_positions [(''A'', close_at sample_position 250 (Some Target) 110)] \<noteq> []"
    by (simp add: closed_positions_def close_at_def)
  from leaderboard_has_one_agent [OF this, of id "\<lambda>t. []"] show ?thesis by auto
qed

theorem daily_mtm_always_zero_witness:
  "dget (case run_daily_mtm (\<lambda>t. []) 250 [(ps_advice_id sample_position, sample_position)] of JObj d \<Rightarrow> d | _ \<Rightarrow> []) ''pnl_total_usd'' = JNum 0"
  using daily_mtm_always_zero [OF sample_store_ok] by blast

text \<open>A position that a tick has closed can always be reported, with what the tick recorded.\<close>

lemma closed_position_reportable:
  assumes "pos_ok p" and "ps_state p = Closed" and "0 < ps_fill_px p" and "\<forall>x. ps_exit_px p = Some x \<longrightarrow> 0 < x"
    and "length narrative \<le> 1000"
  shows "\<exists>f. fill_of p narrative = Inr f \<and> (bf_pnl_usd f, bf_pnl_r f) = realize_pnl p (bf_exit_px f)"
  using assms by (auto simp: pos_ok_def fill_of_def fill_valid_def)

text \<open>The reflection calls a thesis held at expiry exactly if the trade did not lose.\<close>

lemma thesis_held_at_expiry:
  assumes "ro_exit_reason x = Expiry \<or> ro_exit_reason x = EarlyClose" and "ro_direction x = ps_direction p"
    and "ro_entry_px x = ps_fill_px p"
  shows "thesis_held x \<longleftrightarrow> 0 \<le> fst (realize_pnl p (ro_exit_px x))"
  using assms by (auto simp: thesis_held_def realize_pnl_def Let_def)

end
