(* ===== verification/SecretaryInbound.thy ===== *)
theory SecretaryInbound
  imports SecretaryText BacktestService "HOL-Library.List_Lexorder" "HOL-Library.Char_ord"
begin

text \<open>
  What reaches the secretary and what it makes of it: slash commands, the WeCom signature and
  the Alertmanager bridge (\<^verbatim>\<open>inbound/\<close>), fill alerts, the disagreement table and the
  trading-room brief (\<^verbatim>\<open>outbound/\<close>), under \<^verbatim>\<open>apps/agent_secretary/secretary/\<close>. SHA-1 and
  \<open>strftime\<close> are parameters. The arrow, the dashes and the ellipsis of the messages are
  single characters with codes of their own.
\<close>

section \<open>Slash commands\<close>

definition KNOWN_COMMANDS :: "string list" where
  "KNOWN_COMMANDS = [''leaderboard'', ''explain'', ''why'', ''disagree'', ''quiet'', ''tone'', ''help'']"

record slash_result =
  sl_command :: string
  sl_args :: "string list"
  sl_body :: string

datatype slash_error = NotSlash string | UnknownSlash string

definition parse_slash :: "string \<Rightarrow> slash_error + string \<times> string list" where
  "parse_slash s =
     (if \<not> starts_with ''/'' s then Inl (NotSlash ''not a slash command'')
      else case words_of (tl s) of
             [] \<Rightarrow> Inl (NotSlash ''empty slash command'')
           | cmd # args \<Rightarrow> if cmd \<in> set KNOWN_COMMANDS then Inr (cmd, args) else Inl (UnknownSlash cmd))"

definition arg_or :: "string \<Rightarrow> string list \<Rightarrow> string" where
  "arg_or dflt args = (case args of [] \<Rightarrow> dflt | a # _ \<Rightarrow> a)"

definition NL :: string where
  "NL = [CHR 0x0A]"

definition arrow :: string where
  "arrow = [CHR 0x8D]"

definition en_dash :: string where
  "en_dash = [CHR 0x96]"

definition ellipsis :: string where
  "ellipsis = [CHR 0x85]"

definition slash_help :: string where
  "slash_help =
     ''Available commands:'' @ NL
     @ ''- `/leaderboard` '' @ em_dash @ '' latest leaderboard'' @ NL
     @ ''- `/explain <advice_id>` '' @ em_dash @ '' deep-explain on one advice'' @ NL
     @ ''- `/why <ticker>` '' @ em_dash @ '' all open advices for ticker'' @ NL
     @ ''- `/disagree <ticker>` '' @ em_dash @ '' render the agent-disagreement table'' @ NL
     @ ''- `/quiet <minutes>` '' @ em_dash @ '' mute non-critical pushes'' @ NL
     @ ''- `/tone <terse|conv|edu>` '' @ em_dash @ '' set conversation tone'' @ NL
     @ ''- `/help` '' @ em_dash @ '' show this list''"

definition render_slash :: "string \<Rightarrow> string list \<Rightarrow> string" where
  "render_slash cmd args =
     (if cmd = ''help'' then slash_help
      else if cmd = ''leaderboard'' then ''Latest leaderboard:'' @ NL @ ''_(populated when backtester emits)_''
      else if cmd = ''explain'' then ''Explain mode for '' @ arg_or ''(missing advice id)'' args @ '': deep-explain plan queued.''
      else if cmd = ''why'' then ''Open advices for '' @ arg_or ''(missing ticker)'' args @ '': pending lake.advice query.''
      else if cmd = ''disagree''
        then ''Disagreement table for '' @ arg_or ''(missing ticker)'' args @ '': rendering pending advice scan.''
      else if cmd = ''quiet'' then ''Outbound non-critical pushes muted for '' @ arg_or ''30'' args @ '' minutes.''
      else if cmd = ''tone'' then ''Tone set to `'' @ arg_or ''conv'' args @ ''` for this conversation.''
      else ''(no-op)'')"

definition dispatch :: "string \<Rightarrow> slash_error + slash_result" where
  "dispatch s = res_bind (parse_slash s) (\<lambda>(cmd, args). Inr \<lparr>sl_command = cmd, sl_args = args, sl_body = render_slash cmd args\<rparr>)"

section \<open>The WeCom signature\<close>

definition wecom_signature :: "(string \<Rightarrow> string) \<Rightarrow> string \<Rightarrow> string \<Rightarrow> string \<Rightarrow> string option \<Rightarrow> string" where
  "wecom_signature sha1_hex token timestamp nonce encrypt =
     sha1_hex (concat (sort ([token, timestamp, nonce] @ (case encrypt of None \<Rightarrow> [] | Some e \<Rightarrow> [e]))))"

definition wecom_verify :: "(string \<Rightarrow> string) \<Rightarrow> string \<Rightarrow> string \<Rightarrow> string \<Rightarrow> string \<Rightarrow> string option \<Rightarrow> bool" where
  "wecom_verify sha1_hex token timestamp nonce msg_signature encrypt \<longleftrightarrow>
     wecom_signature sha1_hex token timestamp nonce encrypt = msg_signature"

section \<open>Alertmanager\<close>

datatype alert_status = Firing | Resolved

record parsed_alert =
  pa_code :: json
  pa_severity :: severity
  pa_summary :: json
  pa_runbook :: json
  pa_status :: alert_status
  pa_labels :: "(string, json) dict"

datatype alert_error = BadAlertmanagerPayload string | AlertExn exn

text \<open>
  \<open>dict(v or {})\<close>; \<open>dict_of\<close> is what \<open>dict\<close> makes of a true value that is no object.
\<close>

definition dict_or_empty :: "(json \<Rightarrow> exn + (string, json) dict) \<Rightarrow> json \<Rightarrow> exn + (string, json) dict" where
  "dict_or_empty dict_of v = (if \<not> truthy v then Inr [] else case v of JObj d \<Rightarrow> Inr d | _ \<Rightarrow> dict_of v)"

definition known_severity :: "string \<Rightarrow> severity" where
  "known_severity s = (case severity_of s of Inl _ \<Rightarrow> WARN | Inr sv \<Rightarrow> sv)"

definition parse_one :: "(json \<Rightarrow> exn + (string, json) dict) \<Rightarrow> json \<Rightarrow> exn + parsed_alert" where
  "parse_one dict_of raw =
     (case raw of
        JObj r \<Rightarrow>
          res_bind (dict_or_empty dict_of (dget r ''labels'')) (\<lambda>labels.
          res_bind (dict_or_empty dict_of (dget r ''annotations'')) (\<lambda>annotations.
          let code = jor (jor (dget labels ''code'') (dget labels ''alertname'')) (JStr ''UNKNOWN'')
          in res_bind (case map_of labels ''severity'' of
                         None \<Rightarrow> Inr ''warn'' | Some (JStr s) \<Rightarrow> Inr (lower s) | Some _ \<Rightarrow> Inl AttributeError) (\<lambda>severity_raw.
             Inr \<lparr>pa_code = code, pa_severity = known_severity severity_raw,
                  pa_summary = (case map_of annotations ''summary'' of None \<Rightarrow> code | Some v \<Rightarrow> v),
                  pa_runbook = dget annotations ''runbook'',
                  pa_status = (if dget r ''status'' = JStr ''resolved'' then Resolved else Firing),
                  pa_labels = labels\<rparr>)))
      | _ \<Rightarrow> Inl AttributeError)"

text \<open>\<open>"alerts" not in payload\<close> on any JSON value, then \<open>payload["alerts"]\<close>.\<close>

definition alerts_of :: "json \<Rightarrow> alert_error + json list" where
  "alerts_of payload =
     (let missing = Inl (BadAlertmanagerPayload ''envelope missing 'alerts' list'') in
      case payload of
        JObj d \<Rightarrow> (case map_of d ''alerts'' of Some (JArr xs) \<Rightarrow> Inr xs | _ \<Rightarrow> missing)
      | JArr xs \<Rightarrow> if JStr ''alerts'' \<in> set xs then Inl (AlertExn TypeError) else missing
      | JStr s \<Rightarrow> if sublist ''alerts'' s then Inl (AlertExn TypeError) else missing
      | _ \<Rightarrow> Inl (AlertExn TypeError))"

definition parse_payload :: "(json \<Rightarrow> exn + (string, json) dict) \<Rightarrow> json \<Rightarrow> alert_error + parsed_alert list" where
  "parse_payload dict_of payload =
     res_bind (alerts_of payload) (\<lambda>raws.
       case those_res (map (parse_one dict_of) raws) of Inl e \<Rightarrow> Inl (AlertExn e) | Inr alerts \<Rightarrow> Inr alerts)"

definition alert_markdown :: "pystd \<Rightarrow> parsed_alert \<Rightarrow> string" where
  "alert_markdown py a =
     (let extra = filter (\<lambda>(k, v). k \<notin> set [''severity'', ''code'', ''alertname'']) (pa_labels a);
          bullets = [''- code: `'' @ to_str py (pa_code a) @ ''`'', ''- severity: `'' @ severity_value (pa_severity a) @ ''`'']
            @ (if truthy (pa_runbook a) then [''- runbook: '' @ to_str py (pa_runbook a)] else [])
            @ (if extra \<noteq> []
               then [''- labels: '' @ join_with '', '' (map (\<lambda>(k, v). ''`'' @ k @ ''='' @ to_str py v @ ''`'') (sort_key fst extra))]
               else [])
      in ''**'' @ (if pa_status a = Firing then ''[FIRING]'' else ''[RESOLVED]'') @ '' '' @ to_str py (pa_summary a) @ ''**''
         @ NL @ NL @ join_with NL bullets)"

definition render_alert :: "pystd \<Rightarrow> parsed_alert \<Rightarrow> string + char secretary_notify" where
  "render_alert py a =
     construct notify_valid
       \<lparr>sn_severity = pa_severity a, sn_channel_hint = ALERTS, sn_language = EN, sn_markdown = alert_markdown py a\<rparr>"

definition render_all :: "pystd \<Rightarrow> parsed_alert list \<Rightarrow> string + char secretary_notify list" where
  "render_all py alerts = those_res (map (render_alert py) alerts)"

text \<open>\<open>Crash\<close> is an exception that leaves the endpoint: the server answers 500.\<close>

datatype 'a reply = Reply 'a | HttpFail nat string | Crash

text \<open>The request's body is \<open>None\<close> if it is no JSON.\<close>

definition alertmanager_webhook ::
  "(json \<Rightarrow> exn + (string, json) dict) \<Rightarrow> pystd \<Rightarrow> json option \<Rightarrow> json reply" where
  "alertmanager_webhook dict_of py body =
     (case body of
        None \<Rightarrow> HttpFail 400 ''invalid JSON''
      | Some payload \<Rightarrow>
          (case parse_payload dict_of payload of
             Inl (BadAlertmanagerPayload m) \<Rightarrow> HttpFail 400 m
           | Inl (AlertExn e) \<Rightarrow> Crash
           | Inr alerts \<Rightarrow>
               (case render_all py alerts of
                  Inl m \<Rightarrow> Crash
                | Inr ns \<Rightarrow>
                    Reply (JObj [(''status'', JStr ''ok''),
                      (''notifications'',
                       JArr (map (\<lambda>n. JObj [(''severity'', JStr (severity_value (sn_severity n))),
                                            (''channel_hint'', JStr (channel_value (sn_channel_hint n)))]) ns))]))))"

section \<open>Fill alerts\<close>

definition ALERT_THRESHOLD_R :: rat where
  "ALERT_THRESHOLD_R = 3 / 2"

definition STOP_ALERT_THRESHOLD_R :: rat where
  "STOP_ALERT_THRESHOLD_R = 4 / 5"

definition is_significant :: "backtest_fill_v1 \<Rightarrow> bool" where
  "is_significant f \<longleftrightarrow>
     bf_pnl_r f \<ge> ALERT_THRESHOLD_R \<or> bf_exit_reason f = Stop \<and> \<bar>bf_pnl_r f\<bar> \<ge> STOP_ALERT_THRESHOLD_R"

text \<open>\<open>f'{x:.2f}'\<close> and \<open>f'{x:+.2f}'\<close>; the latter prints the sign of a negative zero too, which rationals do not have.\<close>

definition fmt2_int :: "rat \<Rightarrow> string" where
  "fmt2_int x = (if x < 0 then ''-'' @ fmt2 (- x) else fmt2 x)"

definition fmt2_signed :: "rat \<Rightarrow> string" where
  "fmt2_signed x = (if x < 0 then ''-'' @ fmt2 (- x) else ''+'' @ fmt2 x)"

definition fill_pnl_pct :: "backtest_fill_v1 \<Rightarrow> rat" where
  "fill_pnl_pct f = (if bf_entry_px f \<noteq> 0 then (bf_exit_px f - bf_entry_px f) / bf_entry_px f * 100 else 0)"

definition fill_direction_word :: "backtest_fill_v1 \<Rightarrow> string" where
  "fill_direction_word f = (if bf_exit_reason f = Target then ''Take-profit'' else ''Stop'')"

definition render_fill :: "backtest_fill_v1 \<Rightarrow> string + char secretary_notify" where
  "render_fill f =
     construct notify_valid
       \<lparr>sn_severity = (if bf_exit_reason f = Stop then WARN else INFO), sn_channel_hint = FILLS, sn_language = EN,
        sn_markdown =
          ''**'' @ fill_direction_word f @ '': '' @ bf_agent f @ ''**'' @ NL
          @ ''- advice id: `'' @ bf_advice_id f @ ''`'' @ NL
          @ ''- entry '' @ arrow @ '' exit: '' @ fmt2_int (bf_entry_px f) @ '' '' @ arrow @ '' '' @ fmt2_int (bf_exit_px f)
          @ '' ('' @ fmt2_signed (fill_pnl_pct f) @ ''%)'' @ NL
          @ ''- pnl_r: '' @ fmt2_signed (bf_pnl_r f) @ NL
          @ ''- '' @ bf_narrative f\<rparr>"

section \<open>Reading the alerts\<close>

lemma those_res_cases:
  "those_res (map f xs) = (if list_all (\<lambda>x. \<exists>y. f x = Inr y) xs then Inr (map (\<lambda>x. projr (f x)) xs) else those_res (map f xs))"
  by (induction xs) (auto split: if_splits)

lemma those_res_fails: "\<not> list_all (\<lambda>x. \<exists>y. f x = Inr y) xs \<Longrightarrow> \<exists>e. those_res (map f xs) = Inl e"
proof (induction xs)
  case (Cons x xs)
  then show ?case by (cases "f x"; cases "those_res (map f xs)") (auto simp: res_bind_def)
qed simp

text \<open>
  The Alertmanager webhook answers a readable batch with one notification per alert, in order, at the severity
  of its label (an unknown one counts as \<open>warn\<close>), if every alert's text has at most 4096
  characters. One longer alert makes the whole request fail.
\<close>

theorem webhook_all_or_nothing:
  assumes "parse_payload dict_of payload = Inr alerts"
  shows "alertmanager_webhook dict_of py (Some payload) =
    (if list_all (\<lambda>a. length (alert_markdown py a) \<le> 4096) alerts
     then Reply (JObj [(''status'', JStr ''ok''),
            (''notifications'', JArr (map (\<lambda>a. JObj [(''severity'', JStr (severity_value (pa_severity a))),
                                                      (''channel_hint'', JStr ''alerts'')]) alerts))])
     else Crash)"
proof -
  have ok: "(\<exists>n. render_alert py a = Inr n) \<longleftrightarrow> length (alert_markdown py a) \<le> 4096" for a
    by (simp add: render_alert_def construct_def notify_valid_def)
  show ?thesis
  proof (cases "list_all (\<lambda>a. length (alert_markdown py a) \<le> 4096) alerts")
    case True
    then have "render_all py alerts = Inr (map (\<lambda>a. projr (render_alert py a)) alerts)"
      unfolding render_all_def using those_res_cases [of "render_alert py" alerts] by (simp add: ok)
    moreover have "sn_severity (projr (render_alert py a)) = pa_severity a \<and> sn_channel_hint (projr (render_alert py a)) = ALERTS"
      if "a \<in> set alerts" for a
      using True that by (auto simp: list_all_iff render_alert_def construct_def notify_valid_def)
    ultimately show ?thesis using True by (simp add: alertmanager_webhook_def assms)
  next
    case False
    then obtain e where "render_all py alerts = Inl e"
      unfolding render_all_def using those_res_fails [of "render_alert py" alerts] by (auto simp: ok)
    then show ?thesis using False by (simp add: alertmanager_webhook_def assms)
  qed
qed

text \<open>The severity a parsed alert carries.\<close>

lemma parse_one_severity:
  assumes "parse_one dict_of (JObj r) = Inr a" and "dget r ''labels'' = JObj labels" and "labels \<noteq> []"
  shows "pa_severity a = (case map_of labels ''severity'' of Some (JStr s) \<Rightarrow> known_severity (lower s) | _ \<Rightarrow> WARN)"
proof -
  have labels: "dict_or_empty dict_of (dget r ''labels'') = Inr labels" using assms(2,3) by (simp add: dict_or_empty_def)
  have warn: "known_severity ''warn'' = WARN" by code_simp
  show ?thesis
  proof (cases "map_of labels ''severity''")
    case None
    then show ?thesis using assms(1) labels warn by (auto simp: parse_one_def Let_def res_bind_Inr_iff)
  next
    case (Some v)
    then show ?thesis using assms(1) labels by (cases v) (auto simp: parse_one_def Let_def res_bind_Inr_iff)
  qed
qed

definition one_alert :: json where
  "one_alert = JObj [(''alerts'', JArr [JObj [(''labels'', JObj [(''code'', JStr ''DISK''), (''severity'', JStr ''CRITICAL'')])]])]"

theorem webhook_all_or_nothing_witness:
  "alertmanager_webhook (\<lambda>v. Inl TypeError) py_ascii (Some one_alert) =
     Reply (JObj [(''status'', JStr ''ok''),
       (''notifications'', JArr [JObj [(''severity'', JStr ''critical''), (''channel_hint'', JStr ''alerts'')]])])"
proof -
  let ?a = "\<lparr>pa_code = JStr ''DISK'', pa_severity = CRITICAL, pa_summary = JStr ''DISK'', pa_runbook = JNull, pa_status = Firing,
             pa_labels = [(''code'', JStr ''DISK''), (''severity'', JStr ''CRITICAL'')]\<rparr>"
  have p: "parse_payload (\<lambda>v. Inl TypeError) one_alert = Inr [?a]"
    by code_simp
  have "length (alert_markdown py_ascii ?a) \<le> 4096"
    by (simp add: alert_markdown_def to_str_def NL_def)
  with webhook_all_or_nothing [OF p, of py_ascii] show ?thesis by simp
qed

section \<open>Fill alerts\<close>

text \<open>
  In the alert about a fill the printed percentage has the sign of the result for a long trade and the opposite
  sign for a short one: a short trade that won is reported with a loss in percent beside its positive R, and
  a stopped-out short with a gain.
\<close>

theorem fill_percentage_sign:
  assumes "pos_ok p" and "ps_state p = Closed" and "fill_of p narrative = Inr f"
  shows "sgn (fill_pnl_pct f) = (if ps_direction p = Long then 1 else -1) * sgn (bf_pnl_r f)"
proof -
  obtain x where x: "ps_exit_px p = Some x" and f: "bf_exit_px f = x" "bf_entry_px f = ps_fill_px p" "bf_pnl_r f = ps_pnl_r p"
    and pos: "0 < ps_fill_px p" and r: "ps_pnl_r p = snd (realize_pnl p x)"
    using assms by (auto simp: pos_ok_def fill_of_def fill_valid_def split: option.splits) (metis snd_conv)+
  define d where "d = (let d = \<bar>ps_fill_px p - ps_stop_loss p\<bar> in if d = 0 then 1 else d)"
  have "0 < d" by (simp add: d_def Let_def)
  have "sgn (fill_pnl_pct f) = sgn (x - ps_fill_px p)"
  proof -
    have "fill_pnl_pct f = (x - ps_fill_px p) * (100 / ps_fill_px p)" using pos by (simp add: fill_pnl_pct_def f)
    then have "sgn (fill_pnl_pct f) = sgn (x - ps_fill_px p) * sgn (100 / ps_fill_px p)" by (simp only: sgn_mult)
    moreover have "sgn (100 / ps_fill_px p) = 1" using pos by simp
    ultimately show ?thesis by simp
  qed
  moreover have "sgn (bf_pnl_r f) = (if ps_direction p = Long then 1 else -1) * sgn (x - ps_fill_px p)"
  proof -
    have "bf_pnl_r f = (if ps_direction p = Long then 1 else -1) * (x - ps_fill_px p) * (1 / d)"
      by (simp add: f r realize_pnl_def d_def Let_def)
    then have "sgn (bf_pnl_r f) = sgn (if ps_direction p = Long then 1 else -1 :: rat) * sgn (x - ps_fill_px p) * sgn (1 / d)"
      by (simp only: sgn_mult)
    then show ?thesis using \<open>0 < d\<close> by simp
  qed
  ultimately show ?thesis by simp
qed

definition short_win :: position where
  "short_win = close_at (sample_position\<lparr>ps_direction := Short, ps_stop_loss := 120, ps_fill_px := 100\<rparr>) 250 (Some Target) 90"

theorem fill_percentage_sign_witness:
  "\<exists>f. fill_of short_win '''' = Inr f \<and> fill_pnl_pct f < 0 \<and> 0 < bf_pnl_r f"
proof -
  have w: "ps_state short_win = Closed" "ps_direction short_win = Short" "ps_exit_px short_win = Some 90"
    "ps_closed_at short_win = Some 250" "ps_exit_reason short_win = Some Target" "ps_fill_px short_win = 100"
    "ps_stop_loss short_win = 120" "ps_max_drawdown_pct short_win = 0"
    by (simp_all add: short_win_def close_at_def sample_position_def new_position_def)
  have pnl: "realize_pnl short_win 90 = (10, 1 / 2)" by (simp add: realize_pnl_def w)
  have "(ps_pnl_usd short_win, ps_pnl_r short_win) = realize_pnl short_win 90"
    by (simp add: short_win_def close_at_def realize_pnl_def)
  then have r: "ps_pnl_r short_win = 1 / 2" and ok: "pos_ok short_win" and closed: "ps_state short_win = Closed"
    using pnl w by (auto simp: pos_ok_def)
  obtain f where f: "fill_of short_win '''' = Inr f" and r: "bf_pnl_r f = 1 / 2"
    by (simp add: fill_of_def w construct_def fill_valid_def r)
  have "sgn (fill_pnl_pct f) = -1"
    using fill_percentage_sign [OF ok closed f] r by (simp add: w)
  then have "fill_pnl_pct f < 0" by (simp add: sgn_if split: if_splits)
  with f r show ?thesis by auto
qed

section \<open>The disagreement table\<close>

definition relevant_advice :: "string \<Rightarrow> seconds \<Rightarrow> seconds \<Rightarrow> advice_v1 \<Rightarrow> bool" where
  "relevant_advice ticker asof window a \<longleftrightarrow> upper (as_ticker (av_asset a)) = upper ticker \<and> asof - av_issued_at a \<le> window"

definition disagreement_row :: "advice_v1 \<Rightarrow> string" where
  "disagreement_row a =
     (let entry = fmt2_int (fst (av_entry_band a)) @ en_dash @ fmt2_int (snd (av_entry_band a));
          target = fmt2_int (fst (av_target_band a)) @ en_dash @ fmt2_int (snd (av_target_band a));
          thesis = (if length (av_thesis a) > 80 then take 80 (av_thesis a) @ ellipsis else av_thesis a)
      in ''| '' @ av_agent a @ '' | '' @ direction_value (av_direction a) @ '' | '' @ entry @ '' | '' @ target
         @ '' | '' @ fmt2_int (av_confidence a) @ '' | '' @ thesis @ '' |'')"

definition render_disagreement_table :: "advice_v1 list \<Rightarrow> string \<Rightarrow> seconds \<Rightarrow> seconds \<Rightarrow> string" where
  "render_disagreement_table advices ticker asof window =
     (let relevant = filter (relevant_advice ticker asof window) advices;
          directions = remdups (map av_direction relevant)
      in if length directions < 2 then []
         else join_with NL
           ([''| agent | direction | entry | target | confidence | thesis |'', ''|---|---|---|---|---|---|'']
            @ map disagreement_row (sort_key av_agent relevant)
            @ [[], ''_'' @ show_nat (length relevant) @ '' advices on '' @ ticker @ '' disagree across ''
                   @ show_nat (length directions) @ '' directions._'']))"

lemma two_distinct: "2 \<le> length (remdups xs) \<longleftrightarrow> (\<exists>x \<in> set xs. \<exists>y \<in> set xs. x \<noteq> y)"
proof -
  have "length (remdups xs) = card (set xs)" by (simp add: length_remdups_card_conv)
  moreover have "2 \<le> card (set xs) \<longleftrightarrow> (\<exists>x \<in> set xs. \<exists>y \<in> set xs. x \<noteq> y)"
  proof -
    have "card (set xs) \<le> Suc 0 \<longleftrightarrow> (\<forall>x \<in> set xs. \<forall>y \<in> set xs. x = y)" by (rule card_le_Suc0_iff_eq) simp
    moreover have "2 \<le> card (set xs) \<longleftrightarrow> \<not> card (set xs) \<le> Suc 0" by linarith
    ultimately show ?thesis by blast
  qed
  ultimately show ?thesis by simp
qed

text \<open>
  There is a table exactly if two advices on the ticker, neither older than the window, differ in direction.
\<close>

theorem disagreement_table_iff:
  "render_disagreement_table advices ticker asof window \<noteq> []
     \<longleftrightarrow> (\<exists>a b. {a, b} \<subseteq> {x \<in> set advices. relevant_advice ticker asof window x} \<and> av_direction a \<noteq> av_direction b)"
proof -
  let ?rel = "filter (relevant_advice ticker asof window) advices"
  have "render_disagreement_table advices ticker asof window \<noteq> [] \<longleftrightarrow> 2 \<le> length (remdups (map av_direction ?rel))"
    by (auto simp: render_disagreement_table_def Let_def)
  also have "\<dots> \<longleftrightarrow> (\<exists>a \<in> set ?rel. \<exists>b \<in> set ?rel. av_direction a \<noteq> av_direction b)" by (simp add: two_distinct)
  finally show ?thesis by auto
qed

section \<open>The trading-room brief\<close>

definition TR_DISCLAIMER :: string where
  "TR_DISCLAIMER = ''This is research, not investment advice. The IIC Investment Board is a simulated decision body; positions are illustrative only.''"

definition team_label :: "plan_v1 \<Rightarrow> string" where
  "team_label p =
     (case pl_persona_slug p of
        Some slug \<Rightarrow> if pl_team p = Persona \<and> slug \<noteq> [] then ''persona/'' @ slug else team_value (pl_team p)
      | None \<Rightarrow> team_value (pl_team p))"

definition or_else :: "string \<Rightarrow> string \<Rightarrow> string" where
  "or_else s dflt = (if s = [] then dflt else s)"

definition ev_block :: "plan_v1 \<Rightarrow> string" where
  "ev_block p =
     (if pl_evidence p = [] then ''(no evidence)''
      else join_with '', '' (map (\<lambda>e. or_else (case ev_url e of None \<Rightarrow> [] | Some u \<Rightarrow> u)
                                     (or_else (case ev_ref e of None \<Rightarrow> [] | Some r \<Rightarrow> r) (ev_kind e))) (take 5 (pl_evidence p))))"

definition plan_row :: "plan_v1 \<Rightarrow> string" where
  "plan_row p =
     ''| '' @ team_label p @ '' | '' @ action_value (pl_action p) @ '' | '' @ fmt2_int (pl_entry_price p) @ '' | ''
     @ fmt2_int (pl_target_price p) @ '' | '' @ fmt2_int (pl_stop_loss p) @ '' | '' @ fmt2_int (pl_confidence p) @ '' |''"

text \<open>\<open>fmt_when\<close> prints the time of the brief; \<open>None\<close> as the result is a confidence that \<open>float\<close> refuses.\<close>

definition compose_trading_room_brief ::
  "pystd \<Rightarrow> (seconds \<Rightarrow> string) \<Rightarrow> (string, json) dict \<Rightarrow> plan_v1 list \<Rightarrow> string \<Rightarrow> string \<Rightarrow> string \<Rightarrow> seconds option
     \<Rightarrow> string option" where
  "compose_trading_room_brief py fmt_when decision considered aggressive conservative neutral issued_at =
     (let chosen_id = to_str py (jor (dget decision ''chosen_plan_id'') (JStr [])) in
      case map_of (rev (map (\<lambda>p. (pl_id p, p)) considered)) chosen_id of
        None \<Rightarrow>
          Some (''# Trading Room '' @ em_dash @ '' (unknown ticker)'' @ NL @ NL
            @ ''Investment Board decision references a plan we don't have.'' @ NL @ NL
            @ ''## Disclaimer'' @ NL @ TR_DISCLAIMER @ NL)
      | Some chosen \<Rightarrow>
          map_option (\<lambda>confidence.
            ''# Trading Room '' @ em_dash @ '' '' @ as_ticker (pl_asset chosen) @ '', ''
              @ fmt_when (case issued_at of None \<Rightarrow> pl_issued_at chosen | Some t \<Rightarrow> t) @ NL @ NL
            @ ''## Winning plan ('' @ team_label chosen @ '' '' @ em_dash @ '' confidence '' @ fmt2_int confidence @ '')'' @ NL
            @ ''Action: '' @ action_value (pl_action chosen) @ ''; entry '' @ fmt2_int (pl_entry_price chosen)
              @ ''; target '' @ fmt2_int (pl_target_price chosen) @ ''; stop '' @ fmt2_int (pl_stop_loss chosen)
              @ ''; horizon '' @ show_nat (nat (pl_horizon_days chosen)) @ ''d'' @ NL @ NL
            @ ''Thesis: '' @ pl_thesis chosen @ NL @ NL
            @ ''Evidence: '' @ ev_block chosen @ NL @ NL
            @ ''Chair rationale: ''
              @ or_else (to_str py (jor (dget decision ''chair_rationale'') (JStr []))) ''(no rationale captured)'' @ NL @ NL
            @ ''## Dissent ('' @ show_nat (length (filter (\<lambda>p. pl_id p \<noteq> chosen_id) considered)) @ '' plans disagreed)'' @ NL
            @ or_else (to_str py (jor (dget decision ''dissent_record'') (JStr []))) ''(no dissent recorded)'' @ NL @ NL
            @ ''## Risk view'' @ NL @ ''Aggressive: '' @ or_else aggressive ''(no view)'' @ NL @ NL
            @ ''Conservative: '' @ or_else conservative ''(no view)'' @ NL @ NL
            @ ''Neutral: '' @ or_else neutral ''(no view)'' @ NL @ NL
            @ ''## All plans considered'' @ NL @ ''| Team | Action | Entry | Target | Stop | Conf |'' @ NL
            @ ''|------|--------|-------|--------|------|------|'' @ NL
            @ join_with NL (map plan_row considered) @ NL @ NL
            @ ''## Disclaimer'' @ NL @ TR_DISCLAIMER @ NL)
            (float_of py (jget_or (JObj decision) ''confidence'' (JNum 0))))"

text \<open>Unlike the morning brief, every brief of the trading room ends with its disclaimer, but it may be longer than WeCom takes.\<close>

lemma trading_room_brief_disclaimer:
  "compose_trading_room_brief py fmt_when decision considered a c n t = Some md \<Longrightarrow> ends_with (TR_DISCLAIMER @ NL) md"
proof -
  have e: "ends_with s (x @ y @ s)" for s x y using ends_with_append [of s "x @ y"] by simp
  have two: "ends_with s (x @ s)" for s x by simp
  assume "compose_trading_room_brief py fmt_when decision considered a c n t = Some md"
  then have "\<exists>x. md = x @ TR_DISCLAIMER @ NL"
    by (auto simp: compose_trading_room_brief_def Let_def simp del: append.simps split: option.splits)
  then show ?thesis by auto
qed

end
