(* ===== verification/Secretary.thy ===== *)
theory Secretary
  imports SecretaryStores SecretaryInbound
begin

text \<open>
  The secretary's service (\<^verbatim>\<open>apps/agent_secretary/secretary/\<close>): the outbound dispatcher
  (\<^verbatim>\<open>agents.py\<close>), the conversational planner (\<^verbatim>\<open>planner.py\<close>) and the endpoints
  (\<^verbatim>\<open>main.py\<close>). HTTP, the language model, \<open>json.loads\<close>, fresh ids and the clock are
  parameters. An endpoint returns a \<open>reply\<close> and the new state.
\<close>

section \<open>Calling other agents\<close>

definition DEFAULT_REGISTRY :: "(string, string) dict" where
  "DEFAULT_REGISTRY =
     [(''agent_intelligence'', ''http://iic-agent-intelligence:8081''), (''agent_fundamental'', ''http://iic-agent-fundamental:8082''),
      (''agent_quant'', ''http://iic-agent-quant:8083''), (''agent_persona'', ''http://iic-agent-persona:8084''),
      (''agent_backtest'', ''http://iic-agent-backtest:8085''), (''agent_board'', ''http://iic-agent-board:8088''),
      (''orchestrator'', ''http://iic-orchestrator:8080'')]"

definition ENV_PREFIX :: string where
  "ENV_PREFIX = ''SECRETARY_AGENT_''"

definition registry_from_env :: "(string \<times> string) list \<Rightarrow> (string, string) dict" where
  "registry_from_env environ =
     foldl (\<lambda>reg (key, val). if starts_with ENV_PREFIX key \<and> val \<noteq> [] then AList.update (lower (drop (length ENV_PREFIX) key)) val reg else reg)
       DEFAULT_REGISTRY environ"

text \<open>
  What a POST may do: answer JSON, answer something else, fail with an \<open>httpx.HTTPError\<close> (with the status code
  if there was a response), or raise any other exception.
\<close>

datatype post_out = PostJson json | PostText string | PostHttpError string "nat option" | PostRaised string

type_synonym 'w post = "string \<Rightarrow> json \<Rightarrow> 'w \<Rightarrow> post_out \<times> 'w"
type_synonym 'w client = "string \<Rightarrow> string \<Rightarrow> json \<Rightarrow> 'w \<Rightarrow> (exn + json) \<times> 'w"

definition endpoint_path :: "string \<Rightarrow> string" where
  "endpoint_path endpoint = (if starts_with ''/'' endpoint then endpoint else ''/'' @ endpoint)"

definition http_client :: "'w post \<Rightarrow> (string, string) dict \<Rightarrow> 'w client" where
  "http_client post registry agent endpoint payload w =
     (case map_of registry agent of
        None \<Rightarrow> (Inl (KeyError agent), w)
      | Some base \<Rightarrow>
          (case post (base @ endpoint_path endpoint) payload w of
             (PostJson v, w1) \<Rightarrow> (Inr v, w1)
           | (PostText s, w1) \<Rightarrow> (Inr (JObj [(''_raw'', JStr s)]), w1)
           | (PostHttpError e code, w1) \<Rightarrow>
               (Inr (JObj [(''_error'', JStr e), (''_status'', jopt (\<lambda>n. JNum (of_nat n)) code)]), w1)
           | (PostRaised e, w1) \<Rightarrow> (Inl (OtherExn e), w1)))"

definition stub_client :: "((string \<times> string) \<times> json) list \<Rightarrow> (string \<times> string \<times> json) list client" where
  "stub_client responses agent endpoint payload calls =
     (Inr (case map_of responses (agent, endpoint) of Some r \<Rightarrow> r | None \<Rightarrow> JObj [(''status'', JStr ''ok'')]),
      calls @ [(agent, endpoint, payload)])"

section \<open>The planner\<close>

definition ALLOWED_CALLERS :: "string list" where
  "ALLOWED_CALLERS =
     [''agent_intelligence'', ''agent_fundamental'', ''agent_quant'', ''agent_persona'', ''agent_backtest'', ''agent_board'', ''orchestrator'']"

record plan_step =
  sp_caller :: string
  sp_endpoint :: string
  sp_args :: "(string, json) dict"

definition PLANNER_SYSTEM :: string where
  "PLANNER_SYSTEM =
     ''You are the IIC secretary's conversational planner. Given a user request and conversation context, output STRICTLY a JSON array of agent RPCs needed to satisfy the request. Each element is an object with `caller` (one of: ''
     @ join_with '', '' ALLOWED_CALLERS
     @ ''), `endpoint` (an existing path on that agent), and `args` (an object). Do not include explanations, only the JSON array. If the user is making small talk and no RPC is needed, return [].''"

definition fence :: string where
  "fence = ''```''"

text \<open>The text up to the next fence.\<close>

fun before_fence :: "string \<Rightarrow> string" where
  "before_fence [] = []"
| "before_fence (c # s) = (if starts_with fence (c # s) then [] else c # before_fence s)"

definition unfence :: "string \<Rightarrow> string" where
  "unfence raw =
     (let s = strip raw in
      if \<not> starts_with fence s then s
      else let inner = before_fence (drop (length fence) s)
           in if starts_with ''json'' inner then drop 4 inner else inner)"

definition step_of :: "json \<Rightarrow> plan_step option" where
  "step_of item =
     (case item of
        JObj d \<Rightarrow>
          (case (dget d ''caller'', dget d ''endpoint'') of
             (JStr caller, JStr endpoint) \<Rightarrow>
               if caller \<in> set ALLOWED_CALLERS
               then Some \<lparr>sp_caller = caller, sp_endpoint = endpoint,
                          sp_args = (case jor (dget d ''args'') (JObj []) of JObj a \<Rightarrow> a | _ \<Rightarrow> [])\<rparr>
               else None
           | _ \<Rightarrow> None)
      | _ \<Rightarrow> None)"

text \<open>\<open>loads\<close> is \<open>json.loads\<close>; None is a JSONDecodeError.\<close>

definition parse_steps :: "(string \<Rightarrow> json option) \<Rightarrow> string \<Rightarrow> plan_step list" where
  "parse_steps loads raw_text =
     (case loads (unfence raw_text) of Some (JArr items) \<Rightarrow> List.map_filter step_of items | _ \<Rightarrow> [])"

fun role_value :: "role \<Rightarrow> string" where
  "role_value User = ''user''"
| "role_value Assistant = ''assistant''"
| "role_value System = ''system''"
| "role_value Tool = ''tool''"

definition plan_messages :: "string \<Rightarrow> (role \<times> string) list \<Rightarrow> (string \<times> string) list" where
  "plan_messages request context_turns =
     (''system'', PLANNER_SYSTEM)
     # map (\<lambda>(r, c). (role_value r, c)) (filter (\<lambda>(r, c). r \<in> {User, Assistant, System}) context_turns)
     @ [(''user'', request)]"

definition planner_plan ::
  "((string \<times> string) list \<Rightarrow> string + string) \<Rightarrow> (string \<Rightarrow> json option) \<Rightarrow> string \<Rightarrow> (role \<times> string) list \<Rightarrow> plan_step list" where
  "planner_plan llm loads request context_turns =
     (case llm (plan_messages request context_turns) of Inl e \<Rightarrow> [] | Inr answer \<Rightarrow> parse_steps loads answer)"

section \<open>/chat\<close>

definition missing :: "string \<Rightarrow> string" where
  "missing name = ''missing '' @ [CHR 0x27] @ name @ [CHR 0x27]"

definition body_str :: "pystd \<Rightarrow> (string, json) dict \<Rightarrow> string \<Rightarrow> string" where
  "body_str py body key = to_str py (jget_or (JObj body) key (JStr []))"

definition resolve_user_id :: "pystd \<Rightarrow> (string, json) dict \<Rightarrow> string option \<Rightarrow> string" where
  "resolve_user_id py body header =
     (let raw = (case header of
                   Some (c # h) \<Rightarrow> c # h
                 | _ \<Rightarrow> to_str py (jor (jor (dget body ''user'') (dget body ''user_id'')) (JStr ''anon'')));
          u = lower (strip raw)
      in if u = [] then ''anon'' else u)"

record 'w secretary =
  sc_turns :: "thread_turn list"
  sc_prefs :: mem_prefs
  sc_world :: 'w

fun run_steps :: "'w client \<Rightarrow> plan_step list \<Rightarrow> (plan_step \<times> json) list \<Rightarrow> 'w \<Rightarrow> (exn + (plan_step \<times> json) list) \<times> 'w" where
  "run_steps call [] results w = (Inr results, w)"
| "run_steps call (s # ss) results w =
     (case call (sp_caller s) (sp_endpoint s) (JObj (sp_args s)) w of
        (Inl e, w1) \<Rightarrow> (Inl e, w1)
      | (Inr out, w1) \<Rightarrow> run_steps call ss (results @ [(s, out)]) w1)"

definition stitch_answer :: "pystd \<Rightarrow> string \<Rightarrow> (plan_step \<times> json) list \<Rightarrow> string" where
  "stitch_answer py request results =
     (if results = [] then ''(no agents dispatched for: '' @ request @ '')''
      else join_with NL
        ((''Resolved '' @ show_nat (length results) @ '' agent call(s):'')
         # map (\<lambda>(s, out). ''- '' @ sp_caller s @ '' '' @ sp_endpoint s @ '' '' @ arrow @ '' '' @ to_str py out) results))"

record chat_answer =
  ca_thread_id :: string
  ca_trace_id :: string
  ca_user_id :: string
  ca_results :: "(plan_step \<times> json) list"
  ca_answer :: string

text \<open>
  \<open>last_n\<close> is the thread store's, in memory or in Postgres; \<open>planner\<close> is \<open>planner_plan\<close> on a model; the two ids
  are used where the body gives none.
\<close>

definition chat ::
  "pystd \<Rightarrow> (string \<Rightarrow> nat \<Rightarrow> nat \<Rightarrow> seconds \<Rightarrow> thread_turn list \<Rightarrow> thread_turn list)
     \<Rightarrow> (string \<Rightarrow> (role \<times> string) list \<Rightarrow> plan_step list) \<Rightarrow> 'w client \<Rightarrow> string \<Rightarrow> seconds \<Rightarrow> string \<Rightarrow> string
     \<Rightarrow> (string, json) dict \<Rightarrow> string option \<Rightarrow> 'w secretary \<Rightarrow> chat_answer reply \<times> 'w secretary" where
  "chat py last_n planner call env now id1 id2 body header st =
     (let request = strip (body_str py body ''text'');
          user_id = resolve_user_id py body header;
          allowed = map lower (allowed_users env) in
      if request = [] then (HttpFail 400 (missing ''text''), st)
      else if allowed \<noteq> [] \<and> \<not> is_allowed env user_id (Some allowed) then (HttpFail 403 ''user not in allowlist'', st)
      else let thread_id = to_str py (jor (dget body ''thread_id'') (JStr id1));
               trace_id = to_str py (jor (dget body ''trace_id'') (JStr id2));
               turns = thread_append thread_id User request (Some trace_id) now (sc_turns st);
               history = last_n thread_id 20 30 now turns;
               steps = planner request (map (\<lambda>t. (tt_role t, tt_content t)) (butlast history)) in
           case run_steps call steps [] (sc_world st) of
             (Inl e, w) \<Rightarrow> (Crash, st\<lparr>sc_turns := turns, sc_world := w\<rparr>)
           | (Inr results, w) \<Rightarrow>
               (let answer = stitch_answer py request results in
                (Reply \<lparr>ca_thread_id = thread_id, ca_trace_id = trace_id, ca_user_id = user_id, ca_results = results, ca_answer = answer\<rparr>,
                 st\<lparr>sc_turns := thread_append thread_id Assistant answer (Some trace_id) now turns, sc_world := w\<rparr>)))"

section \<open>The other endpoints\<close>

definition get_prefs :: "seconds \<Rightarrow> string \<Rightarrow> 'w secretary \<Rightarrow> string \<rightharpoonup> string" where
  "get_prefs now user_id st = mp_all_for now user_id (sc_prefs st)"

text \<open>
  The instants a datetime can hold, in seconds since 1970: an expiry outside them is an OverflowError.
\<close>

definition MIN_INSTANT :: seconds where
  "MIN_INSTANT = -62135596800"

definition END_OF_TIME :: seconds where
  "END_OF_TIME = 253402300800"

definition prefs_set :: "seconds \<Rightarrow> string \<Rightarrow> string \<Rightarrow> string \<Rightarrow> int option \<Rightarrow> mem_prefs \<Rightarrow> exn + mem_prefs" where
  "prefs_set now user key v ttl d =
     (case expiry_of now ttl of
        Some e \<Rightarrow> if e < MIN_INSTANT \<or> END_OF_TIME \<le> e then Inl (OtherExn ''OverflowError'') else Inr (mp_set now user key v ttl d)
      | None \<Rightarrow> Inr (mp_set now user key v ttl d))"

definition set_pref :: "seconds \<Rightarrow> string \<Rightarrow> string \<Rightarrow> (string, json) dict \<Rightarrow> 'w secretary \<Rightarrow> json reply \<times> 'w secretary" where
  "set_pref now user_id key body st =
     (case dget body ''value'' of
        JStr v \<Rightarrow>
          (let ttl = dget body ''ttl_seconds'' in
           case res_bind (if truthy ttl then res_bind (int_of_json ttl) (\<lambda>n. Inr (Some n)) else Inr None)
                  (\<lambda>n. prefs_set now user_id key v n (sc_prefs st)) of
             Inl e \<Rightarrow> (Crash, st)
           | Inr d \<Rightarrow> (Reply (JObj [(''ok'', JBool True), (''user_id'', JStr user_id), (''key'', JStr key)]), st\<lparr>sc_prefs := d\<rparr>))
      | _ \<Rightarrow> (HttpFail 400 (missing ''value''), st))"

definition rerun :: "pystd \<Rightarrow> 'w client \<Rightarrow> (string, json) dict \<Rightarrow> 'w secretary \<Rightarrow> json reply \<times> 'w secretary" where
  "rerun py call body st =
     (let agent = body_str py body ''agent'' in
      if agent = [] then (HttpFail 400 (missing ''agent''), st)
      else case jor (dget body ''override_signals'') (JObj []) of
             JObj override \<Rightarrow>
               (case call agent ''/run/rerun'' (JObj override) (sc_world st) of
                  (Inl e, w) \<Rightarrow> (Crash, st\<lparr>sc_world := w\<rparr>)
                | (Inr out, w) \<Rightarrow> (Reply (JObj [(''agent'', JStr agent), (''result'', out)]), st\<lparr>sc_world := w\<rparr>))
           | _ \<Rightarrow> (HttpFail 400 ''override_signals must be object'', st))"

text \<open>A brief of two agents' answers; \<open>digest.get\<close> raises on an answer that is true and no object.\<close>

definition compose_brief :: "pystd \<Rightarrow> string \<Rightarrow> json option \<Rightarrow> json option \<Rightarrow> string \<Rightarrow> exn + string" where
  "compose_brief py title digest advice moment =
     res_bind (case digest of
                 None \<Rightarrow> Inr []
               | Some d \<Rightarrow> if \<not> truthy d then Inr []
                   else case d of
                          JObj m \<Rightarrow> Inr [[], ''## Intel'', ''- events='' @ to_str py (jget_or d ''events'' (JNum 0))]
                        | _ \<Rightarrow> Inl AttributeError)
       (\<lambda>intel. Inr (join_with NL
          ([''# '' @ title @ '' '' @ em_dash @ '' '' @ moment] @ intel
           @ (case advice of None \<Rightarrow> []
              | Some a \<Rightarrow> if truthy a then [[], ''## Advice'', ''- payload='' @ to_str py a] else []))))"

fun call_all :: "'w client \<Rightarrow> (string \<times> string \<times> json) list \<Rightarrow> 'w \<Rightarrow> (exn + json list) \<times> 'w" where
  "call_all call [] w = (Inr [], w)"
| "call_all call ((agent, endpoint, payload) # rs) w =
     (case call agent endpoint payload w of
        (Inl e, w1) \<Rightarrow> (Inl e, w1)
      | (Inr v, w1) \<Rightarrow> (case call_all call rs w1 of (r, w2) \<Rightarrow> (res_bind r (\<lambda>vs. Inr (v # vs)), w2)))"

definition brief_reply :: "string \<Rightarrow> exn + string \<Rightarrow> json reply" where
  "brief_reply kind r =
     (case r of Inl e \<Rightarrow> Crash
      | Inr md \<Rightarrow> Reply (JObj [(''status'', JStr ''ok''), (''kind'', JStr kind), (''markdown'', JStr md)]))"

definition run_morning_brief :: "pystd \<Rightarrow> 'w client \<Rightarrow> string \<Rightarrow> 'w \<Rightarrow> json reply \<times> 'w" where
  "run_morning_brief py call moment w =
     (case call_all call [(''agent_intelligence'', ''/run/synthesize'', JObj []), (''orchestrator'', ''/run/morning_brief'', JObj [])] w of
        (r, w1) \<Rightarrow> (brief_reply ''morning_brief'' (res_bind r (\<lambda>vs. compose_brief py ''Morning brief'' (Some (vs ! 0)) (Some (vs ! 1)) moment)), w1))"

definition run_midday_check :: "pystd \<Rightarrow> 'w client \<Rightarrow> string \<Rightarrow> 'w \<Rightarrow> json reply \<times> 'w" where
  "run_midday_check py call moment w =
     (case call_all call [(''agent_intelligence'', ''/run/pull'', JObj [(''source'', JStr ''rss'')])] w of
        (r, w1) \<Rightarrow> (brief_reply ''midday_check'' (res_bind r (\<lambda>vs. compose_brief py ''Midday check'' (Some (vs ! 0)) None moment)), w1))"

definition run_evening_recap :: "pystd \<Rightarrow> 'w client \<Rightarrow> string \<Rightarrow> 'w \<Rightarrow> json reply \<times> 'w" where
  "run_evening_recap py call moment w =
     (case call_all call [(''agent_backtest'', ''/run/daily_mtm'', JObj [])] w of
        (r, w1) \<Rightarrow> (brief_reply ''evening_recap'' (res_bind r (\<lambda>vs. compose_brief py ''Evening recap'' None (Some (vs ! 0)) moment)), w1))"

text \<open>/chat/echo: \<open>router\<close> is the bound router's answer to the echo prompt, \<open>Inl\<close> NoLLMAvailable.\<close>

definition chat_echo :: "pystd \<Rightarrow> string \<Rightarrow> (string \<Rightarrow> string + 'r) option \<Rightarrow> (string, json) dict \<Rightarrow> 'r reply" where
  "chat_echo py demo_endpoints router body =
     (if lower demo_endpoints = ''off'' then HttpFail 404 ''demo endpoints disabled''
      else let s = strip (body_str py body ''text'') in
        if s = [] then HttpFail 400 (missing ''text'')
        else case router of
               None \<Rightarrow> HttpFail 503 ''no LLM router bound''
             | Some route \<Rightarrow>
                 (case route (''Echo this back verbatim: '' @ py_repr py s) of Inl e \<Rightarrow> HttpFail 503 e | Inr r \<Rightarrow> Reply r))"

section \<open>WeCom\<close>

definition wecom_verify_endpoint :: "(string \<Rightarrow> string) \<Rightarrow> string \<Rightarrow> string \<Rightarrow> string \<Rightarrow> string \<Rightarrow> string \<Rightarrow> string reply" where
  "wecom_verify_endpoint sha1_hex token msg_signature timestamp nonce echostr =
     (if wecom_verify sha1_hex token timestamp nonce msg_signature None then Reply echostr else HttpFail 403 ''bad signature'')"

definition quiet_minutes :: "string list \<Rightarrow> int" where
  "quiet_minutes args = (case args of [] \<Rightarrow> 30 | a # _ \<Rightarrow> (case py_int a of None \<Rightarrow> 30 | Some n \<Rightarrow> n))"

definition apply_slash_side_effects :: "(seconds \<Rightarrow> string) \<Rightarrow> seconds \<Rightarrow> string \<Rightarrow> string \<Rightarrow> string list \<Rightarrow> mem_prefs \<Rightarrow> exn + mem_prefs" where
  "apply_slash_side_effects isoformat now user_id command args d =
     (if command = ''quiet'' then prefs_set now user_id ''mute_until'' (isoformat now) (Some (quiet_minutes args * 60)) d
      else if command = ''tone'' then prefs_set now user_id ''tone'' (arg_or ''conv'' args) None d
      else Inr d)"

datatype wecom_out = WecomOk string string | WecomUnknownSlash | WecomIgnored

definition wecom_inbound ::
  "(seconds \<Rightarrow> string) \<Rightarrow> string \<Rightarrow> seconds \<Rightarrow> string \<Rightarrow> string \<Rightarrow> 'w secretary \<Rightarrow> wecom_out reply \<times> 'w secretary" where
  "wecom_inbound isoformat env now user_id body st =
     (if \<not> is_allowed env user_id None then (Reply WecomIgnored, st)
      else case dispatch body of
             Inl (UnknownSlash c) \<Rightarrow> (Reply WecomUnknownSlash, st)
           | Inl (NotSlash m) \<Rightarrow> (Reply WecomIgnored, st)
           | Inr r \<Rightarrow>
               (case apply_slash_side_effects isoformat now user_id (sl_command r) (sl_args r) (sc_prefs st) of
                  Inl e \<Rightarrow> (Crash, st)
                | Inr d \<Rightarrow> (Reply (WecomOk (sl_command r) (sl_body r)), st\<lparr>sc_prefs := d\<rparr>)))"

section \<open>Where the conversation can reach\<close>

text \<open>A transport that keeps the list of the URLs posted to.\<close>

definition logged :: "'w post \<Rightarrow> (string list \<times> 'w) post" where
  "logged post url payload s = (case post url payload (snd s) of (r, w) \<Rightarrow> (r, fst s @ [url], w))"

definition agent_url :: "(string, string) dict \<Rightarrow> string \<Rightarrow> bool" where
  "agent_url reg url \<longleftrightarrow>
     (\<exists>agent base. agent \<in> set ALLOWED_CALLERS \<and> map_of reg agent = Some base \<and> starts_with (base @ ''/'') url)"

lemma endpoint_path_slash: "\<exists>t. endpoint_path e = ''/'' @ t"
  by (auto simp: endpoint_path_def starts_with_iff)

lemma step_of_caller:
  assumes "step_of item = Some s" shows "sp_caller s \<in> set ALLOWED_CALLERS"
proof (cases item)
  case (JObj d)
  show ?thesis
  proof (cases "dget d ''caller''")
    case (JStr c)
    then show ?thesis using assms JObj by (cases "dget d ''endpoint''") (auto simp: step_of_def split: if_splits)
  qed (use assms JObj in \<open>simp_all add: step_of_def\<close>)
qed (use assms in \<open>simp_all add: step_of_def\<close>)

lemma parse_steps_callers: "s \<in> set (parse_steps loads raw) \<Longrightarrow> sp_caller s \<in> set ALLOWED_CALLERS"
proof -
  assume "s \<in> set (parse_steps loads raw)"
  then obtain items where "s \<in> set (List.map_filter step_of items)"
    by (cases "loads (unfence raw)"; cases "the (loads (unfence raw))") (auto simp: parse_steps_def)
  then obtain item where "step_of item = Some s" by (auto simp: map_filter_def)
  then show ?thesis by (rule step_of_caller)
qed

lemma planner_callers: "s \<in> set (planner_plan llm loads request turns) \<Longrightarrow> sp_caller s \<in> set ALLOWED_CALLERS"
  using parse_steps_callers by (auto simp: planner_plan_def split: sum.splits)

lemma logged_call:
  assumes "agent \<in> set ALLOWED_CALLERS" and "http_client (logged post) reg agent e p s = (r, s')"
  shows "set (fst s') \<subseteq> set (fst s) \<union> Collect (agent_url reg)"
proof (cases "map_of reg agent")
  case None
  then show ?thesis using assms(2) by (auto simp: http_client_def)
next
  case (Some base)
  obtain t where t: "endpoint_path e = ''/'' @ t" using endpoint_path_slash by blast
  have "starts_with (base @ ''/'') (base @ endpoint_path e)" by (simp add: t starts_with_def)
  then have "agent_url reg (base @ endpoint_path e)" using assms(1) Some by (auto simp: agent_url_def)
  then show ?thesis using assms(2) Some
    by (auto simp: http_client_def logged_def split: prod.splits post_out.splits)
qed

lemma logged_steps:
  "\<forall>s \<in> set steps. sp_caller s \<in> set ALLOWED_CALLERS
     \<Longrightarrow> set (fst (snd (run_steps (http_client (logged post) reg) steps acc w))) \<subseteq> set (fst w) \<union> Collect (agent_url reg)"
proof (induction steps arbitrary: acc w)
  case (Cons s ss)
  obtain r w1 where c: "http_client (logged post) reg (sp_caller s) (sp_endpoint s) (JObj (sp_args s)) w = (r, w1)" by (rule prod.exhaust)
  have one: "set (fst w1) \<subseteq> set (fst w) \<union> Collect (agent_url reg)" using logged_call [OF _ c] Cons.prems by simp
  show ?case
  proof (cases r)
    case (Inl e)
    then show ?thesis using one c by simp
  next
    case (Inr out)
    have "set (fst (snd (run_steps (http_client (logged post) reg) ss (acc @ [(s, out)]) w1))) \<subseteq> set (fst w1) \<union> Collect (agent_url reg)"
      using Cons by simp
    then show ?thesis using one c Inr by auto
  qed
qed simp

lemma chat_world:
  "sc_world (snd (chat py last_n planner call env now id1 id2 body header st)) = sc_world st
     \<or> (\<exists>request turns. sc_world (snd (chat py last_n planner call env now id1 id2 body header st))
            = snd (run_steps call (planner request turns) [] (sc_world st)))"
proof -
  define request where "request = strip (body_str py body ''text'')"
  define turns where "turns = thread_append (to_str py (jor (dget body ''thread_id'') (JStr id1))) User request
    (Some (to_str py (jor (dget body ''trace_id'') (JStr id2)))) now (sc_turns st)"
  define context_turns where "context_turns = map (\<lambda>t. (tt_role t, tt_content t))
    (butlast (last_n (to_str py (jor (dget body ''thread_id'') (JStr id1))) 20 30 now turns))"
  obtain r w where run: "run_steps call (planner request context_turns) [] (sc_world st) = (r, w)" by (rule prod.exhaust)
  have "sc_world (snd (chat py last_n planner call env now id1 id2 body header st)) \<in> {sc_world st, w}"
    unfolding chat_def Let_def request_def [symmetric] turns_def [symmetric] context_turns_def [symmetric] run
    by (cases r) simp_all
  then show ?thesis using run by (metis insertE singletonD snd_conv)
qed

text \<open>
  C12: Whatever the user writes and whatever the model plans, the conversation posts only to URLs under the base
  URL of an allowed agent: the base, a slash, and any path.
\<close>

theorem chat_posts_only_to_agents:
  "set (fst (sc_world (snd (chat py last_n (planner_plan llm loads) (http_client (logged post) reg) env now id1 id2 body header st))))
     \<subseteq> set (fst (sc_world st)) \<union> {url. agent_url reg url}"
proof -
  have steps: "set (fst (snd (run_steps (http_client (logged post) reg) (planner_plan llm loads request turns) [] (sc_world st))))
      \<subseteq> set (fst (sc_world st)) \<union> Collect (agent_url reg)" for request turns
    by (rule logged_steps) (use planner_callers in blast)
  from chat_world [of py last_n "planner_plan llm loads" "http_client (logged post) reg" env now id1 id2 body header st]
  show ?thesis
  proof (elim disjE exE)
    assume "sc_world (snd (chat py last_n (planner_plan llm loads) (http_client (logged post) reg) env now id1 id2 body header st)) = sc_world st"
    then show ?thesis by simp
  next
    fix request turns
    assume "sc_world (snd (chat py last_n (planner_plan llm loads) (http_client (logged post) reg) env now id1 id2 body header st))
      = snd (run_steps (http_client (logged post) reg) (planner_plan llm loads request turns) [] (sc_world st))"
    then show ?thesis using steps by simp
  qed
qed

section \<open>Who is answered\<close>

lemma registry_keeps: "map_of reg a \<noteq> None
    \<Longrightarrow> map_of (foldl (\<lambda>reg (key, val). if starts_with ENV_PREFIX key \<and> val \<noteq> [] then AList.update (lower (drop (length ENV_PREFIX) key)) val reg else reg) reg environ) a \<noteq> None"
  by (induction environ arbitrary: reg) (auto simp: update_conv split: if_splits)

lemma allowed_registered: "a \<in> set ALLOWED_CALLERS \<Longrightarrow> map_of (registry_from_env environ) a \<noteq> None"
  unfolding registry_from_env_def by (rule registry_keeps) (auto simp: ALLOWED_CALLERS_def DEFAULT_REGISTRY_def)

lemma steps_answered:
  assumes "\<And>u p w e. fst (post u p w) \<noteq> PostRaised e"
  shows "\<forall>s \<in> set steps. sp_caller s \<in> set ALLOWED_CALLERS
     \<Longrightarrow> \<exists>results. fst (run_steps (http_client post (registry_from_env environ)) steps acc w) = Inr results"
proof (induction steps arbitrary: acc w)
  case (Cons s ss)
  obtain base where base: "map_of (registry_from_env environ) (sp_caller s) = Some base" using allowed_registered Cons.prems by fastforce
  obtain r w1 where c: "http_client post (registry_from_env environ) (sp_caller s) (sp_endpoint s) (JObj (sp_args s)) w = (r, w1)"
    by (rule prod.exhaust)
  have "\<exists>out. r = Inr out"
    using c base assms [of "base @ endpoint_path (sp_endpoint s)" "JObj (sp_args s)" w]
    by (auto simp: http_client_def split: prod.splits post_out.splits)
  then show ?case using Cons c by auto
qed simp

definition admitted :: "pystd \<Rightarrow> string \<Rightarrow> (string, json) dict \<Rightarrow> string option \<Rightarrow> bool" where
  "admitted py env body header \<longleftrightarrow>
     allowed_users env = [] \<or> (\<exists>u. u \<in> set (allowed_users env) \<and> lower u = resolve_user_id py body header)"

lemma admitted_iff:
  "admitted py env body header
     \<longleftrightarrow> \<not> (map lower (allowed_users env) \<noteq> [] \<and> \<not> is_allowed env (resolve_user_id py body header) (Some (map lower (allowed_users env))))"
  by (auto simp: admitted_def is_allowed_def image_iff) metis

text \<open>
  While HTTP itself does not raise, a chat request is answered exactly if it has a text and its user is on the
  allow-list, whatever the model plans and however the environment overrides the registry; it then adds
  two turns to its thread, the request and the answer. A refused request changes nothing.
\<close>

theorem chat_answers_iff_admitted:
  assumes "\<And>u p w e. fst (post u p w) \<noteq> PostRaised e"
  shows "if strip (body_str py body ''text'') \<noteq> [] \<and> admitted py env body header
    then \<exists>a t u. chat py last_n (planner_plan llm loads) (http_client post (registry_from_env environ)) env now id1 id2 body header st
           = (Reply a, st\<lparr>sc_turns := sc_turns st @ [t, u],
                sc_world := sc_world (snd (chat py last_n (planner_plan llm loads) (http_client post (registry_from_env environ)) env now id1 id2 body header st))\<rparr>)
           \<and> tt_role t = User \<and> tt_content t = strip (body_str py body ''text'') \<and> tt_role u = Assistant \<and> tt_content u = ca_answer a
           \<and> tt_thread_id t = ca_thread_id a \<and> tt_thread_id u = ca_thread_id a
    else \<exists>code m. chat py last_n (planner_plan llm loads) (http_client post (registry_from_env environ)) env now id1 id2 body header st
           = (HttpFail code m, st)"
proof (cases "strip (body_str py body ''text'') \<noteq> [] \<and> admitted py env body header")
  case True
  define request where "request = strip (body_str py body ''text'')"
  define tid where "tid = to_str py (jor (dget body ''thread_id'') (JStr id1))"
  define trc where "trc = to_str py (jor (dget body ''trace_id'') (JStr id2))"
  define turns where "turns = thread_append tid User request (Some trc) now (sc_turns st)"
  define steps where "steps = planner_plan llm loads request (map (\<lambda>t. (tt_role t, tt_content t)) (butlast (last_n tid 20 30 now turns)))"
  have "\<forall>s \<in> set steps. sp_caller s \<in> set ALLOWED_CALLERS" using planner_callers by (auto simp: steps_def)
  then obtain results where "fst (run_steps (http_client post (registry_from_env environ)) steps [] (sc_world st)) = Inr results"
    using steps_answered [where post = post and environ = environ and acc = "[]" and w = "sc_world st" and steps = steps] assms by blast
  then obtain w where run: "run_steps (http_client post (registry_from_env environ)) steps [] (sc_world st) = (Inr results, w)"
    by (cases "run_steps (http_client post (registry_from_env environ)) steps [] (sc_world st)") simp
  have req: "request \<noteq> []" and adm: "\<not> (map lower (allowed_users env) \<noteq> [] \<and> \<not> is_allowed env (resolve_user_id py body header) (Some (map lower (allowed_users env))))"
    using True admitted_iff by (auto simp: request_def)
  have eq: "chat py last_n (planner_plan llm loads) (http_client post (registry_from_env environ)) env now id1 id2 body header st =
      (Reply \<lparr>ca_thread_id = tid, ca_trace_id = trc, ca_user_id = resolve_user_id py body header, ca_results = results,
              ca_answer = stitch_answer py request results\<rparr>,
       st\<lparr>sc_turns := thread_append tid Assistant (stitch_answer py request results) (Some trc) now turns, sc_world := w\<rparr>)"
    unfolding chat_def Let_def request_def [symmetric] tid_def [symmetric] trc_def [symmetric] turns_def [symmetric] steps_def [symmetric] run
    using req adm by simp
  let ?t = "\<lparr>tt_thread_id = tid, tt_ts = now, tt_role = User, tt_content = request, tt_trace_id = Some trc\<rparr>"
    and ?u = "\<lparr>tt_thread_id = tid, tt_ts = now, tt_role = Assistant, tt_content = stitch_answer py request results, tt_trace_id = Some trc\<rparr>"
  have grown: "thread_append tid Assistant (stitch_answer py request results) (Some trc) now turns = sc_turns st @ [?t, ?u]"
    by (simp add: turns_def thread_append_def)
  have T: "request \<noteq> [] \<and> admitted py env body header" using True by (simp add: request_def)
  show ?thesis unfolding eq grown request_def [symmetric] if_P [OF T]
    by (intro exI [of _ "\<lparr>ca_thread_id = tid, ca_trace_id = trc, ca_user_id = resolve_user_id py body header,
          ca_results = results, ca_answer = stitch_answer py request results\<rparr>"] exI [of _ ?t] exI [of _ ?u]) simp
next
  case False
  show ?thesis
  proof (cases "strip (body_str py body ''text'') = []")
    case True
    then show ?thesis by (simp add: chat_def Let_def)
  next
    case req: False
    then have "\<not> admitted py env body header" using False by simp
    then have "map lower (allowed_users env) \<noteq> [] \<and> \<not> is_allowed env (resolve_user_id py body header) (Some (map lower (allowed_users env)))"
      using admitted_iff by blast
    then show ?thesis unfolding chat_def Let_def using False req by simp
  qed
qed

definition answering :: "nat post" where
  "answering url payload w = (PostJson (JObj []), w + 1)"

definition asks_board :: "(string \<times> string) list \<Rightarrow> string + string" where
  "asks_board messages = Inr ''plan''"

definition board_plan :: "string \<Rightarrow> json option" where
  "board_plan s = Some (JArr [JObj [(''caller'', JStr ''agent_board''), (''endpoint'', JStr ''decide'')]])"

theorem chat_answers_iff_admitted_witness:
  "\<exists>a s. chat py_ascii mem_last_n (planner_plan asks_board board_plan) (http_client answering (registry_from_env []))
      ''Ann, bob'' 10 ''t1'' ''t2'' [(''text'', JStr ''hi''), (''user'', JStr ''BOB'')] None
      \<lparr>sc_turns = [], sc_prefs = [], sc_world = 0\<rparr> = (Reply a, s)"
proof -
  have "strip (body_str py_ascii [(''text'', JStr ''hi''), (''user'', JStr ''BOB'')] ''text'') \<noteq> []"
    and u: "resolve_user_id py_ascii [(''text'', JStr ''hi''), (''user'', JStr ''BOB'')] None = ''bob''"
    and l: "lower ''bob'' = ''bob''" and a: "allowed_users ''Ann, bob'' = [''Ann'', ''bob'']" by code_simp+
  moreover have "admitted py_ascii ''Ann, bob'' [(''text'', JStr ''hi''), (''user'', JStr ''BOB'')] None"
    unfolding admitted_def u a using l by auto
  ultimately show ?thesis
    using chat_answers_iff_admitted [where post = answering and py = py_ascii and env = "''Ann, bob''" and last_n = mem_last_n
        and llm = asks_board and loads = board_plan and environ = "[]" and now = 10 and ?id1.0 = "''t1''" and ?id2.0 = "''t2''"
        and body = "[(''text'', JStr ''hi''), (''user'', JStr ''BOB'')]" and header = None
        and st = "\<lparr>sc_turns = [], sc_prefs = [], sc_world = 0\<rparr>"]
    by (auto simp: answering_def)
qed

section \<open>/quiet\<close>

lemma words_of_step:
  "dropWhile is_space s = t \<Longrightarrow> t \<noteq> [] \<Longrightarrow> takeWhile (\<lambda>c. \<not> is_space c) t = w \<Longrightarrow> dropWhile (\<lambda>c. \<not> is_space c) t = r
     \<Longrightarrow> words_of s = w # words_of r"
  by (subst words_of.simps) (simp add: Let_def)

lemma words_single:
  assumes "s \<noteq> []" and "list_all (\<lambda>c. \<not> is_space c) s" shows "words_of s = [s]"
proof -
  have d: "dropWhile is_space s = s" using assms by (cases s) auto
  have "takeWhile (\<lambda>c. \<not> is_space c) s = s" "dropWhile (\<lambda>c. \<not> is_space c) s = []"
    using assms(2) by (auto simp: takeWhile_eq_all_conv dropWhile_eq_Nil_conv list_all_iff)
  from words_of_step [OF d assms(1) this] show ?thesis by (simp add: words_of.simps)
qed

lemma words_two:
  assumes "w \<noteq> []" "list_all (\<lambda>c. \<not> is_space c) w" "s \<noteq> []" "list_all (\<lambda>c. \<not> is_space c) s"
  shows "words_of (w @ '' '' @ s) = [w, s]"
proof -
  have sp: "is_space (CHR '' '')" by code_simp
  have d: "dropWhile is_space (w @ '' '' @ s) = w @ '' '' @ s" using assms(1,2) by (cases w) auto
  have "takeWhile (\<lambda>c. \<not> is_space c) (w @ '' '' @ s) = w" "dropWhile (\<lambda>c. \<not> is_space c) (w @ '' '' @ s) = '' '' @ s"
    using assms(2) sp by (simp_all add: takeWhile_append dropWhile_append list_all_iff)
  from words_of_step [OF d _ this] have "words_of (w @ '' '' @ s) = w # words_of ('' '' @ s)" using assms(1) by simp
  moreover have "dropWhile is_space ('' '' @ s) = s" using sp assms(3,4) by (cases s) auto
  moreover have "takeWhile (\<lambda>c. \<not> is_space c) s = s" "dropWhile (\<lambda>c. \<not> is_space c) s = []"
    using assms(4) by (auto simp: takeWhile_eq_all_conv dropWhile_eq_Nil_conv list_all_iff)
  ultimately show ?thesis using words_of_step [of "'' '' @ s" s s "[]"] assms(3) by (simp add: words_of.simps [of "[]"])
qed

text \<open>
  An allowed user's \<open>/quiet m\<close>, with \<open>m\<close> a whole number of minutes whose end a datetime can hold, is
  confirmed and sets the mark \<open>mute_until\<close>, which can be read for those minutes; with 0 minutes it can be read for ever, and with a
  negative number it has already expired. The mark's value is the time of the command, not the end of the quiet.
\<close>

theorem quiet_mark_lifetime:
  assumes "is_allowed env u None" and "m \<noteq> []" and "list_all (\<lambda>c. \<not> is_space c) m" and "py_int m = Some k"
    and "MIN_INSTANT \<le> now + of_int (k * 60)" and "now + of_int (k * 60) < END_OF_TIME" and "now \<le> later"
  shows "\<exists>st'. wecom_inbound isoformat env now u (''/quiet '' @ m) st
      = (Reply (WecomOk ''quiet'' (''Outbound non-critical pushes muted for '' @ m @ '' minutes.'')), st')
    \<and> mp_get later u ''mute_until'' (sc_prefs st') = (if k = 0 \<or> later \<le> now + of_int (k * 60) then Some (isoformat now) else None)"
proof -
  have nonspace: "list_all (\<lambda>c. \<not> is_space c) ''quiet''" by code_simp
  have "words_of (''quiet'' @ '' '' @ m) = [''quiet'', m]" by (rule words_two [OF _ nonspace assms(2,3)]) simp
  then have "parse_slash (''/quiet '' @ m) = Inr (''quiet'', [m])"
    by (simp add: parse_slash_def starts_with_def KNOWN_COMMANDS_def)
  then have d: "dispatch (''/quiet '' @ m) = Inr \<lparr>sl_command = ''quiet'', sl_args = [m],
      sl_body = ''Outbound non-critical pushes muted for '' @ m @ '' minutes.''\<rparr>"
    by (simp add: dispatch_def render_slash_def arg_or_def)
  have q: "quiet_minutes [m] = k" using assms(4) by (simp add: quiet_minutes_def)
  have "prefs_set now u ''mute_until'' (isoformat now) (Some (k * 60)) (sc_prefs st)
      = Inr (mp_set now u ''mute_until'' (isoformat now) (Some (k * 60)) (sc_prefs st))"
    using assms(5,6) by (auto simp: prefs_set_def expiry_of_def)
  then have eff: "apply_slash_side_effects isoformat now u ''quiet'' [m] (sc_prefs st)
      = Inr (mp_set now u ''mute_until'' (isoformat now) (Some (k * 60)) (sc_prefs st))"
    by (simp add: apply_slash_side_effects_def q)
  have "wecom_inbound isoformat env now u (''/quiet '' @ m) st
      = (Reply (WecomOk ''quiet'' (''Outbound non-critical pushes muted for '' @ m @ '' minutes.'')),
         st\<lparr>sc_prefs := mp_set now u ''mute_until'' (isoformat now) (Some (k * 60)) (sc_prefs st)\<rparr>)"
    unfolding wecom_inbound_def d using assms(1) eff by simp
  moreover have "mp_get later u ''mute_until'' (mp_set now u ''mute_until'' (isoformat now) (Some (k * 60)) (sc_prefs st))
      = (if k = 0 \<or> later \<le> now + of_int (k * 60) then Some (isoformat now) else None)"
    by (simp add: read_after_set)
  ultimately show ?thesis by auto
qed

theorem quiet_mark_lifetime_witness:
  "\<exists>st'. wecom_inbound (\<lambda>t. ''now'') ''ann'' 100 ''ann'' ''/quiet 2'' \<lparr>sc_turns = [], sc_prefs = [], sc_world = ()\<rparr>
      = (Reply (WecomOk ''quiet'' ''Outbound non-critical pushes muted for 2 minutes.''), st')
    \<and> mp_get 300 ''ann'' ''mute_until'' (sc_prefs st') = None"
proof -
  have allowed: "is_allowed ''ann'' ''ann'' None" by code_simp
  have int: "py_int ''2'' = Some 2" by code_simp
  have nonspace: "list_all (\<lambda>c. \<not> is_space c) ''2''" by code_simp
  show ?thesis
    using quiet_mark_lifetime [where now = 100 and later = 300 and isoformat = "\<lambda>t. ''now''", OF allowed _ nonspace int]
    by (simp add: MIN_INSTANT_def END_OF_TIME_def)
qed

text \<open>A rerun of an agent that is not registered is an unhandled exception.\<close>

lemma rerun_unknown_agent:
  assumes "map_of reg agent = None" and "agent \<noteq> []"
  shows "rerun py (http_client post reg) [(''agent'', JStr agent)] st = (Crash, st)"
  using assms by (simp add: rerun_def body_str_def jget_or_def to_str_def dget_def jor_def http_client_def)

end
