(* ===== verification/PersonaReasoner.thy ===== *)
theory PersonaReasoner
  imports Schema
begin

text \<open>
  The persona agent's reasoner (\<^verbatim>\<open>apps/agent_persona/persona/\<close>): the persona files
  (\<^verbatim>\<open>types.py\<close>, \<^verbatim>\<open>loader.py\<close>), the filter on the digest's events, the price bands around the
  live mark and the advice (\<^verbatim>\<open>reasoner.py\<close>), its check (\<^verbatim>\<open>output_validator.py\<close>) and the
  service's runs (\<^verbatim>\<open>main.py\<close>). YAML, the language model, the memory store, the mark backend and the
  ULID generator are parameters; floats are rationals.
\<close>

section \<open>Persona files\<close>

record canonical_trade =
  ct_era :: string
  ct_asset :: string
  ct_action :: string
  ct_lesson :: string

record band_rules =
  br_direction_default :: string
  br_target_pct_over_mark :: rat
  br_stop_pct_under_mark :: rat
  br_entry_band_pct :: rat
  br_horizon_days :: int
  br_confidence_floor :: rat
  br_macro_regime_modulation :: bool

record persona_spec =
  pn_slug :: string
  pn_display_name :: string
  pn_priors :: "string list"
  pn_canonical_trades :: "canonical_trade list"
  pn_universe_weights :: "(string, rat) dict"
  pn_prompt_template_ref :: string
  pn_retain_days :: int
  pn_bias_categories :: "string list"
  pn_guardrails :: "string list"
  pn_disclaimer :: string
  pn_band_rules :: "band_rules option"

text \<open>Iterating, \<open>.get\<close> and \<open>float\<close> on YAML values; \<open>d.get(k, dflt)\<close> of a value that is no mapping raises.\<close>

definition items_of :: "json \<Rightarrow> exn + json list" where
  "items_of v = (case iterate v of Inl e \<Rightarrow> Inl TypeError | Inr xs \<Rightarrow> Inr xs)"

definition get_or :: "json \<Rightarrow> string \<Rightarrow> json \<Rightarrow> exn + json" where
  "get_or d k dflt = (case d of JObj m \<Rightarrow> Inr (jget_or d k dflt) | _ \<Rightarrow> Inl AttributeError)"

definition float_res :: "pystd \<Rightarrow> json \<Rightarrow> exn + rat" where
  "float_res py v =
     (case float_of py v of Some r \<Rightarrow> Inr r
      | None \<Rightarrow> Inl (case v of JStr s \<Rightarrow> ValueError s | _ \<Rightarrow> TypeError))"

definition get_str :: "pystd \<Rightarrow> json \<Rightarrow> string \<Rightarrow> string \<Rightarrow> exn + string" where
  "get_str py d k dflt = res_bind (get_or d k (JStr dflt)) (\<lambda>v. Inr (to_str py v))"

definition get_float :: "pystd \<Rightarrow> json \<Rightarrow> string \<Rightarrow> rat \<Rightarrow> exn + rat" where
  "get_float py d k dflt = res_bind (get_or d k (JNum dflt)) (float_res py)"

definition get_int :: "json \<Rightarrow> string \<Rightarrow> int \<Rightarrow> exn + int" where
  "get_int d k dflt = res_bind (get_or d k (JNum (of_int dflt))) int_of_json"

definition strs_at :: "pystd \<Rightarrow> json \<Rightarrow> string \<Rightarrow> exn + string list" where
  "strs_at py d k = res_bind (get_or d k (JArr [])) (\<lambda>v. res_bind (items_of v) (\<lambda>xs. Inr (map (to_str py) xs)))"

definition trade_of :: "pystd \<Rightarrow> json \<Rightarrow> exn + canonical_trade" where
  "trade_of py c =
     res_bind (get_str py c ''era'' []) (\<lambda>era. res_bind (get_str py c ''asset'' []) (\<lambda>a.
     res_bind (get_str py c ''action'' []) (\<lambda>act. res_bind (get_str py c ''lesson'' []) (\<lambda>l.
     Inr \<lparr>ct_era = era, ct_asset = a, ct_action = act, ct_lesson = l\<rparr>))))"

definition load_band_rules :: "pystd \<Rightarrow> json \<Rightarrow> exn + band_rules option" where
  "load_band_rules py raw =
     (case raw of
        JNull \<Rightarrow> Inr None
      | JObj d \<Rightarrow>
          res_bind (get_str py raw ''direction_default'' ''flat'') (\<lambda>s.
          let direction = lower (strip s) in
          res_bind (guard (direction \<in> {''long'', ''short'', ''flat''}) (ValueError ''band_rules.direction_default'')) (\<lambda>_.
          res_bind (get_float py raw ''target_pct_over_mark'' 0) (\<lambda>t.
          res_bind (get_float py raw ''stop_pct_under_mark'' 0) (\<lambda>sp.
          res_bind (get_float py raw ''entry_band_pct'' 0.005) (\<lambda>b.
          res_bind (get_int raw ''horizon_days'' 180) (\<lambda>h.
          res_bind (get_float py raw ''confidence_floor'' 0.5) (\<lambda>c.
          Inr (Some \<lparr>br_direction_default = direction, br_target_pct_over_mark = t, br_stop_pct_under_mark = sp,
                     br_entry_band_pct = b, br_horizon_days = h, br_confidence_floor = c,
                     br_macro_regime_modulation = truthy (jget_or raw ''macro_regime_modulation'' (JBool False))\<rparr>))))))))
      | _ \<Rightarrow> Inl (ValueError ''band_rules must be a mapping''))"

definition weights_of :: "pystd \<Rightarrow> json \<Rightarrow> exn + (string, rat) dict" where
  "weights_of py v =
     (case v of JObj d \<Rightarrow> those_res (map (\<lambda>(k, w). res_bind (float_res py w) (\<lambda>r. Inr (k, r))) d) | _ \<Rightarrow> Inl AttributeError)"

definition to_spec :: "pystd \<Rightarrow> json \<Rightarrow> exn + persona_spec" where
  "to_spec py row =
     res_bind (guard (jget row ''slug'' \<noteq> None \<and> jget row ''display_name'' \<noteq> None)
                 (KeyError ''persona spec requires slug and display_name'')) (\<lambda>_.
     res_bind (guard (jget row ''disclaimer'' \<noteq> None) (KeyError ''persona spec requires disclaimer'')) (\<lambda>_.
     res_bind (strs_at py row ''priors'') (\<lambda>priors.
     res_bind (get_or row ''canonical_trades'' (JArr [])) (\<lambda>ct. res_bind (items_of ct) (\<lambda>cs.
     res_bind (those_res (map (trade_of py) cs)) (\<lambda>trades.
     res_bind (res_bind (get_or row ''universe_weights'' (JObj [])) (weights_of py)) (\<lambda>weights.
     res_bind (get_or row ''memory_scope'' (JObj [])) (\<lambda>ms.
     res_bind (get_int ms ''retain_days'' 365) (\<lambda>retain.
     res_bind (strs_at py ms ''bias_categories'') (\<lambda>bias.
     res_bind (strs_at py row ''guardrails'') (\<lambda>guardrails.
     res_bind (load_band_rules py (jget_or row ''band_rules'' JNull)) (\<lambda>rules.
     Inr \<lparr>pn_slug = to_str py (jget_or row ''slug'' JNull), pn_display_name = to_str py (jget_or row ''display_name'' JNull),
          pn_priors = priors, pn_canonical_trades = trades, pn_universe_weights = weights,
          pn_prompt_template_ref = to_str py (jget_or row ''prompt_template_ref'' (JStr ''persona.daily.base@1.0.0'')),
          pn_retain_days = retain, pn_bias_categories = bias, pn_guardrails = guardrails,
          pn_disclaimer = to_str py (jget_or row ''disclaimer'' JNull), pn_band_rules = rules\<rparr>))))))))))))"

text \<open>A file: \<open>raw\<close> is its YAML. The caught exceptions become a ValueError.\<close>

definition load_spec :: "pystd \<Rightarrow> json \<Rightarrow> exn + persona_spec" where
  "load_spec py raw =
     (case raw of
        JObj d \<Rightarrow>
          (case to_spec py raw of
             Inr s \<Rightarrow> Inr s
           | Inl (KeyError e) \<Rightarrow> Inl (ValueError e)
           | Inl (ValueError e) \<Rightarrow> Inl (ValueError e)
           | Inl TypeError \<Rightarrow> Inl (ValueError ''invalid persona spec'')
           | Inl e \<Rightarrow> Inl e)
      | _ \<Rightarrow> Inl (ValueError ''persona file must be a mapping''))"

fun load_dir :: "pystd \<Rightarrow> json list \<Rightarrow> (string, persona_spec) dict \<Rightarrow> exn + (string, persona_spec) dict" where
  "load_dir py [] out = Inr out"
| "load_dir py (f # fs) out =
     res_bind (load_spec py f) (\<lambda>spec.
       if map_of out (pn_slug spec) \<noteq> None then Inl (ValueError (''duplicate persona slug: '' @ pn_slug spec))
       else load_dir py fs (out @ [(pn_slug spec, spec)]))"

section \<open>The events a persona sees\<close>

record intel_event =
  ie_id :: string
  ie_rank :: int
  ie_headline :: string
  ie_why_it_matters :: string
  ie_primary_asset_links :: "string list"

record intel_digest =
  dg_macro_regime :: string
  dg_events :: "intel_event list"

definition asset_bucket :: "string \<Rightarrow> string" where
  "asset_bucket asset_link =
     (let s = upper asset_link in
      if s \<in> set [''BTC'', ''ETH'', ''USDC'', ''USDT''] \<or> starts_with ''CRYPTO_'' s then ''crypto''
      else if s \<in> set [''GOLD'', ''OIL'', ''WTI'', ''BRENT'', ''COPPER'', ''WHEAT'', ''CORN''] then ''commodities''
      else if s \<in> set [''USD'', ''EUR'', ''JPY'', ''GBP'', ''CNY'', ''DXY''] \<or> starts_with ''FX_'' s then ''fx''
      else if starts_with ''BOND_'' s \<or> s \<in> set [''TLT'', ''IEF'', ''HYG'', ''LQD''] then ''bonds''
      else if starts_with ''EM_'' s \<or> s \<in> set [''EEM'', ''FXI'', ''INDA''] then ''em_equities''
      else ''us_largecap'')"

definition relevant_events :: "intel_digest \<Rightarrow> persona_spec \<Rightarrow> intel_event list" where
  "relevant_events digest spec =
     (let active = map fst (filter (\<lambda>(b, w). w > 0) (pn_universe_weights spec)) in
      if pn_universe_weights spec = [] \<or> active = [] then dg_events digest
      else filter (\<lambda>ev. ie_primary_asset_links ev = []
                      \<or> list_ex (\<lambda>link. asset_bucket link \<in> set active) (ie_primary_asset_links ev)) (dg_events digest))"

definition asset_for_event :: "intel_event \<Rightarrow> asset" where
  "asset_for_event ev =
     \<lparr>as_kind = ''equity'', as_ticker = (case ie_primary_asset_links ev of [] \<Rightarrow> ''GENERIC'' | t # _ \<Rightarrow> t),
      as_venue = ''NASDAQ'', as_name = None\<rparr>"

section \<open>Bands\<close>

definition PLACEHOLDER_PX :: rat where
  "PLACEHOLDER_PX = 100"

definition REGIME_MULTIPLIER :: "(string, rat) dict" where
  "REGIME_MULTIPLIER =
     [(''rate_cut'', 1.5), (''risk_on'', 1.3), (''bull'', 1.5), (''stagflation'', 0.7), (''risk_off'', 0.6),
      (''recession'', 0.5), (''bear'', 0.5), (''crisis'', 0.4), (''neutral'', 1), (''unknown'', 1)]"

definition regime_multiplier :: "string \<Rightarrow> rat" where
  "regime_multiplier regime = (case map_of REGIME_MULTIPLIER (lower regime) of None \<Rightarrow> 1 | Some m \<Rightarrow> m)"

definition coerce_direction :: "string \<Rightarrow> direction" where
  "coerce_direction s =
     (let raw = lower (strip s) in if raw = ''long'' then Long else if raw = ''short'' then Short else Flat)"

definition EPS :: rat where
  "EPS = 1 / 1000000"

record bands =
  bb_direction :: direction
  bb_entry :: "rat \<times> rat"
  bb_target :: "rat \<times> rat"
  bb_stop :: rat
  bb_horizon_days :: int
  bb_confidence :: rat

definition target_pct :: "band_rules \<Rightarrow> string \<Rightarrow> rat" where
  "target_pct r macro_regime =
     (if br_macro_regime_modulation r then br_target_pct_over_mark r * regime_multiplier macro_regime
      else br_target_pct_over_mark r)"

definition bands_from_priors :: "persona_spec \<Rightarrow> rat \<Rightarrow> string \<Rightarrow> bands" where
  "bands_from_priors spec mark_price macro_regime =
     (let px = max mark_price EPS in
      case pn_band_rules spec of
        None \<Rightarrow> \<lparr>bb_direction = Flat, bb_entry = (px, px), bb_target = (px, px), bb_stop = px, bb_horizon_days = 180, bb_confidence = 0.5\<rparr>
      | Some r \<Rightarrow>
          (let dir = coerce_direction (br_direction_default r);
               target = target_pct r macro_regime;
               stop_pct = br_stop_pct_under_mark r;
               band = max (br_entry_band_pct r) 0;
               entry_lo = px * (1 - band);
               entry_hi = px * (1 + band) in
           case dir of
             Long \<Rightarrow>
               (let target_lo = max (px * (1 + target)) (entry_hi + EPS) in
                \<lparr>bb_direction = dir, bb_entry = (entry_lo, entry_hi), bb_target = (target_lo, target_lo * (1 + band)),
                 bb_stop = min (px * (1 - stop_pct)) (entry_lo - EPS), bb_horizon_days = br_horizon_days r,
                 bb_confidence = br_confidence_floor r\<rparr>)
           | Short \<Rightarrow>
               (let target_hi = min (px * (1 - target)) (entry_lo - EPS) in
                \<lparr>bb_direction = dir, bb_entry = (entry_lo, entry_hi), bb_target = (target_hi * (1 - band), target_hi),
                 bb_stop = max (px * (1 + stop_pct)) (entry_hi + EPS), bb_horizon_days = br_horizon_days r,
                 bb_confidence = br_confidence_floor r\<rparr>)
           | Flat \<Rightarrow>
               \<lparr>bb_direction = Flat, bb_entry = (px, px), bb_target = (px, px), bb_stop = px, bb_horizon_days = br_horizon_days r,
                bb_confidence = br_confidence_floor r\<rparr>))"

section \<open>The advice\<close>

definition mark_or_placeholder :: "rat option \<Rightarrow> rat" where
  "mark_or_placeholder m = (case m of Some p \<Rightarrow> if p > 0 then p else PLACEHOLDER_PX | None \<Rightarrow> PLACEHOLDER_PX)"

definition advice_of :: "persona_spec \<Rightarrow> string \<Rightarrow> string \<Rightarrow> intel_event \<Rightarrow> rat option \<Rightarrow> string \<Rightarrow> seconds \<Rightarrow> advice_v1" where
  "advice_of spec new_id thesis anchor m macro_regime now =
     (let b = bands_from_priors spec (mark_or_placeholder m) macro_regime in
      \<lparr>av_id = new_id, av_agent = ''persona.'' @ pn_slug spec, av_issued_at = now, av_asset = asset_for_event anchor, av_thesis = thesis,
       av_direction = bb_direction b, av_confidence = bb_confidence b, av_entry_band = bb_entry b, av_target_band = bb_target b,
       av_stop_loss = bb_stop b, av_horizon_days = bb_horizon_days b, av_max_drawdown_pct = 15, av_sizing_hint_pct_nav = 2,
       av_expires_at = now + days (bb_horizon_days b),
       av_evidence = [\<lparr>ev_kind = ''news'', ev_ref = Some (''intel.digest.v1#'' @ ie_id anchor), ev_url = None\<rparr>],
       av_disclaimer = Some (pn_disclaimer spec)\<rparr>)"

definition validate_output :: "advice_v1 \<Rightarrow> persona_spec \<Rightarrow> string + unit" where
  "validate_output a spec =
     (if av_agent a \<noteq> ''persona.'' @ pn_slug spec then Inl ''WrongAgent''
      else if strip (case av_disclaimer a of None \<Rightarrow> [] | Some s \<Rightarrow> s) \<noteq> strip (pn_disclaimer spec) then Inl ''DisclaimerMismatch''
      else Inr ())"

text \<open>
  What the prompt is rendered from; \<open>answer\<close> is the model's answer to it, with the caller id, \<open>memories\<close> what the
  store returns for a query, \<open>get_mark\<close> the price of the asset.
\<close>

record persona_prompt =
  pp_template :: string
  pp_slug :: string
  pp_priors_md :: string
  pp_digest_excerpt :: string
  pp_memory_snippets :: string

definition lines :: "string list \<Rightarrow> string" where
  "lines ls = join_with [CHR 0x0A] ls"

definition show_int :: "int \<Rightarrow> string" where
  "show_int n = (if n < 0 then ''-'' @ show_nat (nat (- n)) else show_nat (nat n))"

definition persona_prompt_of :: "persona_spec \<Rightarrow> intel_event list \<Rightarrow> string list \<Rightarrow> string \<Rightarrow> persona_prompt" where
  "persona_prompt_of spec relevant memories cadence =
     \<lparr>pp_template = (if cadence = ''daily'' then ''persona.daily.base'' else ''persona.weekly.base''), pp_slug = pn_slug spec,
      pp_priors_md = lines (map (\<lambda>p. ''- '' @ p) (pn_priors spec)),
      pp_digest_excerpt = lines (map (\<lambda>ev. show_int (ie_rank ev) @ ''. '' @ ie_headline ev @ '': '' @ ie_why_it_matters ev) relevant),
      pp_memory_snippets = (let s = lines (map (\<lambda>m. ''- '' @ m) memories) in if s = [] then ''(no prior trades)'' else s)\<rparr>"

definition reason ::
  "(string \<Rightarrow> bool) \<Rightarrow> (string \<Rightarrow> string \<Rightarrow> nat \<Rightarrow> string list) \<Rightarrow> (string \<Rightarrow> persona_prompt \<Rightarrow> string + string)
     \<Rightarrow> bool \<Rightarrow> (asset \<Rightarrow> seconds \<Rightarrow> rat) \<Rightarrow> string \<Rightarrow> persona_spec \<Rightarrow> intel_digest \<Rightarrow> string \<Rightarrow> seconds
     \<Rightarrow> string + advice_v1 option" where
  "reason ulid_ok memory_query answer live_mark get_mark new_id spec digest cadence now =
     (let relevant = relevant_events digest spec in
      if relevant = [] then Inr None
      else let query = join_with '' '' (map ie_headline (take 3 relevant));
               memories = memory_query (pn_slug spec) query (if cadence = ''daily'' then 8 else 16) in
           res_bind (answer (''persona.'' @ pn_slug spec @ ''.'' @ cadence) (persona_prompt_of spec relevant memories cadence)) (\<lambda>r.
           let anchor = hd relevant;
               m = (if live_mark then Some (get_mark (asset_for_event anchor) now) else None) in
           res_bind (construct (advice_valid ulid_ok) (advice_of spec new_id (strip r) anchor m (dg_macro_regime digest) now)) (\<lambda>a.
           res_bind (validate_output a spec) (\<lambda>_. Inr (Some a)))))"

section \<open>Runs of the service\<close>

text \<open>
  The service's state, as far as a run reads or changes it. The answer to a run that gave an advice reads
  the attribute \<open>assets\<close> of the advice; \<open>advice_attrs\<close> are the fields of \<open>AdviceV1\<close>.
\<close>

definition advice_attrs :: "string list" where
  "advice_attrs = [''schema_version'', ''id'', ''agent'', ''issued_at'', ''asset'', ''thesis'', ''direction'', ''confidence'',
     ''entry_band'', ''target_band'', ''stop_loss'', ''horizon_days'', ''max_drawdown_pct'', ''sizing_hint_pct_nav'',
     ''expires_at'', ''evidence'', ''disclaimer'']"

record persona_state =
  pt_spec :: "persona_spec option"
  pt_digest :: "intel_digest option"
  pt_memory_bound :: bool
  pt_advices_24h :: nat

datatype run_out = RunStatus string | RunOk string string | RunRaised string

definition run_cadence ::
  "(persona_spec \<Rightarrow> intel_digest \<Rightarrow> string \<Rightarrow> string + advice_v1 option) \<Rightarrow> string \<Rightarrow> persona_state \<Rightarrow> run_out \<times> persona_state" where
  "run_cadence reasoner cadence st =
     (case pt_spec st of
        None \<Rightarrow> (RunStatus ''no_spec'', st)
      | Some spec \<Rightarrow>
          (case pt_digest st of
             None \<Rightarrow> (RunStatus ''no_inputs'', st)
           | Some digest \<Rightarrow>
               if \<not> pt_memory_bound st then (RunStatus ''no_inputs'', st)
               else case reasoner spec digest cadence of
                      Inl e \<Rightarrow> (RunRaised e, st)
                    | Inr None \<Rightarrow> (RunStatus ''no_advice'', st)
                    | Inr (Some a) \<Rightarrow>
                        (let st' = st\<lparr>pt_advices_24h := pt_advices_24h st + 1\<rparr> in
                         if ''assets'' \<in> set advice_attrs then (RunOk (av_id a) (av_agent a), st')
                         else (RunRaised ''AttributeError: assets'', st'))))"

definition run_rerun ::
  "(persona_spec \<Rightarrow> intel_digest \<Rightarrow> string \<Rightarrow> string + advice_v1 option) \<Rightarrow> pystd \<Rightarrow> (string, json) dict \<Rightarrow> persona_state \<Rightarrow> run_out \<times> persona_state" where
  "run_rerun reasoner py body st =
     (let cadence = to_str py (jget_or (JObj body) ''cadence'' (JStr ''daily'')) in
      if cadence \<notin> set [''daily'', ''weekly''] then (RunStatus ''error'', st) else run_cadence reasoner cadence st)"

text \<open>
  No run of the persona service ever reports an advice: as soon as the reasoner gives one, the
  endpoint raises, after counting it.
\<close>

theorem persona_run_never_reports_advice:
  "case run_cadence reasoner cadence st of
     (RunOk i a, st') \<Rightarrow> False
   | (RunStatus s, st') \<Rightarrow> st' = st
   | (RunRaised e, st') \<Rightarrow> st' = st \<or> pt_advices_24h st' = pt_advices_24h st + 1 \<and> e = ''AttributeError: assets''"
  by (simp add: run_cadence_def advice_attrs_def Let_def split: option.split sum.split)

section \<open>Which advices are valid\<close>

text \<open>The rules of a persona file that can carry an advice at all.\<close>

definition rules_sound :: "band_rules \<Rightarrow> bool" where
  "rules_sound r \<longleftrightarrow> 0 \<le> br_confidence_floor r \<and> br_confidence_floor r \<le> 1 \<and> 1 \<le> br_horizon_days r \<and> br_horizon_days r \<le> 5 * 365"

lemma EPS_pos [simp]: "0 < EPS" by (simp add: EPS_def)

lemma less_max_eps: "b < max a (b + EPS)" using EPS_pos by (simp add: less_max_iff_disj)

lemma min_eps_less: "min a (b - EPS) < b" using EPS_pos by (simp add: min_less_iff_disj)

lemma scaled_band_ascending: "h * (1 - w) \<le> h \<longleftrightarrow> 0 \<le> h \<or> w \<le> 0" if "0 \<le> w" for h w :: rat
proof -
  have "h * (1 - w) = h - h * w" by (simp add: algebra_simps)
  then have "h * (1 - w) \<le> h \<longleftrightarrow> 0 \<le> h * w" by linarith
  also have "\<dots> \<longleftrightarrow> 0 \<le> h \<or> w \<le> 0" using that by (auto simp: zero_le_mult_iff)
  finally show ?thesis .
qed

lemma long_bands_eq:
  assumes "coerce_direction (br_direction_default r) = Long" and "pn_band_rules spec = Some r"
  shows "bands_from_priors spec m regime =
    (let lo = max (max m EPS * (1 + target_pct r regime)) (max m EPS * (1 + max (br_entry_band_pct r) 0) + EPS) in
     \<lparr>bb_direction = Long,
      bb_entry = (max m EPS * (1 - max (br_entry_band_pct r) 0), max m EPS * (1 + max (br_entry_band_pct r) 0)),
      bb_target = (lo, lo * (1 + max (br_entry_band_pct r) 0)),
      bb_stop = min (max m EPS * (1 - br_stop_pct_under_mark r)) (max m EPS * (1 - max (br_entry_band_pct r) 0) - EPS),
      bb_horizon_days = br_horizon_days r, bb_confidence = br_confidence_floor r\<rparr>)"
  unfolding bands_from_priors_def assms(2) Let_def option.case assms(1) direction.case by (rule refl)

lemma long_bands:
  assumes "coerce_direction (br_direction_default r) = Long" and "pn_band_rules spec = Some r"
    and "b = bands_from_priors spec m regime"
  shows "bb_direction b = Long" and "band_ascending (bb_entry b)" and "band_ascending (bb_target b)"
    and "snd (bb_entry b) < fst (bb_target b)" and "bb_stop b < fst (bb_entry b)"
proof -
  let ?px = "max m EPS" and ?w = "max (br_entry_band_pct r) 0"
  have px: "0 < ?px" by (simp add: EPS_def)
  have w: "0 \<le> ?w" by simp
  let ?lo = "max (?px * (1 + target_pct r regime)) (?px * (1 + ?w) + EPS)"
  have "0 < ?px * (1 + ?w)" using px w by (intro mult_pos_pos) auto
  then have lo: "0 < ?lo" using less_max_eps by (rule less_trans)
  have "?px * (1 - ?w) \<le> ?px * (1 + ?w)" using px w by (intro mult_left_mono) auto
  moreover have "?lo \<le> ?lo * (1 + ?w)" using lo w mult_left_mono [of 1 "1 + ?w" ?lo] by simp
  moreover have "?px * (1 + ?w) < ?lo" by (rule less_max_eps)
  moreover have "min (?px * (1 - br_stop_pct_under_mark r)) (?px * (1 - ?w) - EPS) < ?px * (1 - ?w)"
    by (rule min_eps_less)
  ultimately show "bb_direction b = Long" and "band_ascending (bb_entry b)" and "band_ascending (bb_target b)"
    and "snd (bb_entry b) < fst (bb_target b)" and "bb_stop b < fst (bb_entry b)"
    unfolding assms(3) long_bands_eq [OF assms(1,2)] Let_def band_ascending_def bands.simps fst_conv snd_conv prod.case not_less
    by - ((rule refl | assumption)+)
qed

definition short_target_hi :: "band_rules \<Rightarrow> rat \<Rightarrow> string \<Rightarrow> rat" where
  "short_target_hi r m regime =
     min (max m EPS * (1 - target_pct r regime)) (max m EPS * (1 - max (br_entry_band_pct r) 0) - EPS)"

lemma short_bands_eq:
  assumes "coerce_direction (br_direction_default r) = Short" and "pn_band_rules spec = Some r"
  shows "bands_from_priors spec m regime =
    \<lparr>bb_direction = Short,
     bb_entry = (max m EPS * (1 - max (br_entry_band_pct r) 0), max m EPS * (1 + max (br_entry_band_pct r) 0)),
     bb_target = (short_target_hi r m regime * (1 - max (br_entry_band_pct r) 0), short_target_hi r m regime),
     bb_stop = max (max m EPS * (1 + br_stop_pct_under_mark r)) (max m EPS * (1 + max (br_entry_band_pct r) 0) + EPS),
     bb_horizon_days = br_horizon_days r, bb_confidence = br_confidence_floor r\<rparr>"
  unfolding bands_from_priors_def assms(2) Let_def short_target_hi_def option.case assms(1) direction.case by (rule refl)

lemma short_bands:
  assumes "coerce_direction (br_direction_default r) = Short" and "pn_band_rules spec = Some r"
    and "b = bands_from_priors spec m regime"
  shows "bb_direction b = Short" and "band_ascending (bb_entry b)"
    and "band_ascending (bb_target b) \<longleftrightarrow> 0 \<le> short_target_hi r m regime \<or> br_entry_band_pct r \<le> 0"
    and "snd (bb_target b) < fst (bb_entry b)" and "snd (bb_entry b) < bb_stop b"
proof -
  let ?px = "max m EPS" and ?w = "max (br_entry_band_pct r) 0" and ?hi = "short_target_hi r m regime"
  have px: "0 < ?px" by (simp add: EPS_def)
  have w: "0 \<le> ?w" by simp
  have "?px * (1 - ?w) \<le> ?px * (1 + ?w)" using px w by (intro mult_left_mono) auto
  moreover have "?hi * (1 - ?w) \<le> ?hi \<longleftrightarrow> 0 \<le> ?hi \<or> br_entry_band_pct r \<le> 0"
    by (simp only: scaled_band_ascending [OF w]) simp
  moreover have "?hi < ?px * (1 - ?w)" unfolding short_target_hi_def by (rule min_eps_less)
  moreover have "?px * (1 + ?w) < max (?px * (1 + br_stop_pct_under_mark r)) (?px * (1 + ?w) + EPS)"
    by (rule less_max_eps)
  ultimately show "bb_direction b = Short" and "band_ascending (bb_entry b)"
    and "band_ascending (bb_target b) \<longleftrightarrow> 0 \<le> short_target_hi r m regime \<or> br_entry_band_pct r \<le> 0"
    and "snd (bb_target b) < fst (bb_entry b)" and "snd (bb_entry b) < bb_stop b"
    unfolding assms(3) short_bands_eq [OF assms(1,2)] band_ascending_def bands.simps fst_conv snd_conv prod.case not_less
    by - ((rule refl | assumption)+)
qed

lemma flat_bands:
  assumes "coerce_direction (br_direction_default r) = Flat" and "pn_band_rules spec = Some r"
    and "b = bands_from_priors spec m regime"
  shows "bb_direction b = Flat" and "bb_entry b = (max m EPS, max m EPS)" and "bb_target b = (max m EPS, max m EPS)"
  unfolding assms(3) bands_from_priors_def assms(2) Let_def by (simp_all add: assms(1))

lemma bands_horizon:
  assumes "pn_band_rules spec = Some r"
  shows "bb_horizon_days (bands_from_priors spec m regime) = br_horizon_days r"
    and "bb_confidence (bands_from_priors spec m regime) = br_confidence_floor r"
  by (cases "coerce_direction (br_direction_default r)"; simp add: bands_from_priors_def assms Let_def)+

text \<open>The bands always fit their direction, except for a short persona with a wide entry band whose target would be negative.\<close>

lemma bands_consistent:
  assumes "pn_band_rules spec = Some r" and "b = bands_from_priors spec m regime"
    and "av_direction a = bb_direction b" "av_entry_band a = bb_entry b" "av_target_band a = bb_target b" "av_stop_loss a = bb_stop b"
  shows "band_ascending (av_entry_band a) \<and> band_ascending (av_target_band a) \<and> direction_consistency a
    \<longleftrightarrow> (coerce_direction (br_direction_default r) = Short \<longrightarrow> 0 \<le> short_target_hi r m regime \<or> br_entry_band_pct r \<le> 0)"
proof (cases "coerce_direction (br_direction_default r)")
  case Long
  show ?thesis using long_bands [OF Long assms(1,2)] assms(3-6) Long by (auto simp: direction_consistency_def split: prod.splits)
next
  case Short
  show ?thesis using short_bands [OF Short assms(1,2)] assms(3-6) Short by (auto simp: direction_consistency_def split: prod.splits)
next
  case Flat
  show ?thesis using flat_bands [OF Flat assms(1,2)] assms(3-6) Flat by (auto simp: direction_consistency_def band_ascending_def)
qed

text \<open>
  C14: An advice of a persona with sound rules is valid exactly if its horizon is at most 365 days, its thesis is at most
  4000 characters long and, for a short persona, the upper end of the target band is not negative or the entry band has no
  width (an entry_band_pct of at most 0, when a negative target band is a single price): the bands derived from the live
  mark are otherwise always consistent with the direction, whatever the mark and the regime. A persona with a longer horizon
  can give no advice.
\<close>

theorem persona_advice_valid_iff:
  assumes "pn_band_rules spec = Some r" and "rules_sound r" and "id_is_ulid ulid_ok i" and "\<not> blank (Some (pn_disclaimer spec))"
  shows "(\<exists>a. construct (advice_valid ulid_ok) (advice_of spec i thesis anchor m regime now) = Inr a)
    \<longleftrightarrow> br_horizon_days r \<le> 365 \<and> length thesis \<le> 4000
      \<and> (coerce_direction (br_direction_default r) = Short
           \<longrightarrow> 0 \<le> short_target_hi r (mark_or_placeholder m) regime \<or> br_entry_band_pct r \<le> 0)"
proof -
  let ?b = "bands_from_priors spec (mark_or_placeholder m) regime" and ?a = "advice_of spec i thesis anchor m regime now"
  have fields: "av_direction ?a = bb_direction ?b" "av_entry_band ?a = bb_entry ?b" "av_target_band ?a = bb_target ?b"
    "av_stop_loss ?a = bb_stop ?b" "av_horizon_days ?a = br_horizon_days r" "av_confidence ?a = br_confidence_floor r"
    "av_expires_at ?a = now + days (br_horizon_days r)" "av_issued_at ?a = now" "av_thesis ?a = thesis" "av_id ?a = i"
    "av_disclaimer ?a = Some (pn_disclaimer spec)" "av_max_drawdown_pct ?a = 15" "av_sizing_hint_pct_nav ?a = 2"
    by (simp_all add: advice_of_def Let_def bands_horizon [OF assms(1)])
  have "asset_fields_ok (av_asset ?a)" "evidence_fields_ok (av_evidence ?a)" "av_evidence ?a \<noteq> []"
    by (simp_all add: advice_of_def Let_def asset_fields_ok_def asset_for_event_def asset_kinds_def evidence_fields_ok_def evidence_kinds_def)
  moreover have "expiry_within_one_year now (now + days (br_horizon_days r)) \<longleftrightarrow> br_horizon_days r \<le> 365"
    using assms(2) by (intro expiry_of_days) (simp add: rules_sound_def)
  ultimately have "advice_valid ulid_ok ?a \<longleftrightarrow> br_horizon_days r \<le> 365 \<and> length thesis \<le> 4000
      \<and> band_ascending (av_entry_band ?a) \<and> band_ascending (av_target_band ?a) \<and> direction_consistency ?a"
    using assms(2-4)
    by (auto simp: advice_valid_def advice_fields_ok_def fields rules_sound_def evidence_required_when_directional_def
        persona_requires_disclaimer_def)
  then show ?thesis
    using bands_consistent [OF assms(1) refl fields(1-4)] by simp
qed

text \<open>Two of the shipped persona files (\<^verbatim>\<open>docs/prompts/persona/\<close>), as far as the bands and the universe go.\<close>

definition buffett_rules :: band_rules where
  "buffett_rules = \<lparr>br_direction_default = ''long'', br_target_pct_over_mark = 0.25, br_stop_pct_under_mark = 0.2,
     br_entry_band_pct = 0.01, br_horizon_days = 730, br_confidence_floor = 0.55, br_macro_regime_modulation = False\<rparr>"

definition persona_with :: "string \<Rightarrow> (string, rat) dict \<Rightarrow> string \<Rightarrow> band_rules option \<Rightarrow> persona_spec" where
  "persona_with slug weights disclaimer rules =
     \<lparr>pn_slug = slug, pn_display_name = slug, pn_priors = [], pn_canonical_trades = [], pn_universe_weights = weights,
      pn_prompt_template_ref = ''persona.daily.base@1.0.0'', pn_retain_days = 730, pn_bias_categories = [],
      pn_guardrails = [], pn_disclaimer = disclaimer, pn_band_rules = rules\<rparr>"

theorem persona_advice_valid_iff_witness:
  "\<forall>ev. \<not> (\<exists>a. construct (advice_valid (\<lambda>_. True))
         (advice_of (persona_with ''buffett'' [(''us_largecap'', 0.55)] ''Not Mr. Buffett.'' (Some buffett_rules))
            ''01ARZ3NDEKTSV4RRFFQ69G5FAV'' ''Moat.'' ev (Some 100) ''bull'' 0) = Inr a)"
proof -
  let ?s = "persona_with ''buffett'' [(''us_largecap'', 0.55)] ''Not Mr. Buffett.'' (Some buffett_rules)"
  have 1: "pn_band_rules ?s = Some buffett_rules" by (simp only: persona_with_def persona_spec.simps)
  have 2: "rules_sound buffett_rules" by (simp add: rules_sound_def buffett_rules_def)
  have 3: "id_is_ulid (\<lambda>_. True) ''01ARZ3NDEKTSV4RRFFQ69G5FAV''" unfolding id_is_ulid_def by code_simp
  have "\<not> blank (Some ''Not Mr. Buffett.'')" by code_simp
  then have 4: "\<not> blank (Some (pn_disclaimer ?s))" by (simp only: persona_with_def persona_spec.simps not_False_eq_True)
  have "\<not> br_horizon_days buffett_rules \<le> 365" by (simp add: buffett_rules_def)
  then show ?thesis unfolding persona_advice_valid_iff [OF 1 2 3 4] by blast
qed

text \<open>
  C99: A persona whose universe names none of the buckets the classifier knows sees exactly the events without an asset
  link, so that its advice is about the ticker GENERIC; three of the shipped personas are so.
\<close>

definition known_buckets :: "string list" where
  "known_buckets = [''crypto'', ''commodities'', ''fx'', ''bonds'', ''em_equities'', ''us_largecap'']"

lemma asset_bucket_known: "asset_bucket s \<in> set known_buckets"
  by (simp add: asset_bucket_def known_buckets_def Let_def)

theorem unclassified_universe_sees_no_assets:
  assumes "list_ex (\<lambda>(b, w). 0 < w) (pn_universe_weights spec)"
    and "list_all (\<lambda>(b, w). 0 < w \<longrightarrow> b \<notin> set known_buckets) (pn_universe_weights spec)"
  shows "relevant_events digest spec = filter (\<lambda>ev. ie_primary_asset_links ev = []) (dg_events digest)
    \<and> list_all (\<lambda>ev. as_ticker (asset_for_event ev) = ''GENERIC'') (relevant_events digest spec)"
proof -
  let ?active = "map fst (filter (\<lambda>(b, w). w > 0) (pn_universe_weights spec))"
  have "?active \<noteq> []" using assms(1) by (auto simp: list_ex_iff filter_empty_conv)
  moreover have "\<And>l. asset_bucket l \<notin> set ?active"
    using assms(2) asset_bucket_known by (fastforce simp: list_all_iff)
  ultimately have "relevant_events digest spec = filter (\<lambda>ev. ie_primary_asset_links ev = []) (dg_events digest)"
    by (auto simp: relevant_events_def Let_def list_ex_iff intro!: filter_cong)
  then show ?thesis by (simp add: list_all_iff asset_for_event_def)
qed

definition wood_weights :: "(string, rat) dict" where
  "wood_weights = [(''us_innovation'', 0.55), (''ai_robotics'', 0.15), (''genomics'', 0.1), (''blockchain'', 0.1), (''international_innovation'', 0.1)]"

theorem unclassified_universe_sees_no_assets_witness:
  "relevant_events \<lparr>dg_macro_regime = ''bull'', dg_events =
       [\<lparr>ie_id = ''1'', ie_rank = 1, ie_headline = ''Tesla'', ie_why_it_matters = '''', ie_primary_asset_links = [''TSLA'']\<rparr>]\<rparr>
     (persona_with ''wood'' wood_weights ''Not Ms. Wood.'' None) = []"
proof -
  let ?d = "\<lparr>dg_macro_regime = ''bull'', dg_events =
       [\<lparr>ie_id = ''1'', ie_rank = 1, ie_headline = ''Tesla'', ie_why_it_matters = '''', ie_primary_asset_links = [''TSLA'']\<rparr>]\<rparr>"
  let ?s = "persona_with ''wood'' wood_weights ''Not Ms. Wood.'' None"
  have 1: "list_ex (\<lambda>(b, w). 0 < w) (pn_universe_weights ?s)" by (simp add: persona_with_def wood_weights_def)
  have 2: "list_all (\<lambda>(b, w). 0 < w \<longrightarrow> b \<notin> set known_buckets) (pn_universe_weights ?s)"
    by (simp add: persona_with_def wood_weights_def known_buckets_def)
  show ?thesis using unclassified_universe_sees_no_assets [OF 1 2, of ?d] by simp
qed

end
