(* ===== verification/PersonaTeam.thy ===== *)
theory PersonaTeam
  imports PersonaReasoner DataBus "HOL-Library.AList" "HOL-Library.Multiset"
begin

text \<open>
  The persona team beside the reasoner (\<^verbatim>\<open>apps/agent_persona/persona/\<close>): the consensus plan of the eight personas
  (\<^verbatim>\<open>team_plan.py\<close>), their memory (\<^verbatim>\<open>memory.py\<close>), the feedback on a closed trade (\<^verbatim>\<open>feedback.py\<close>) and the publisher
  (\<^verbatim>\<open>publish.py\<close>). The language model, \<open>math.exp\<close>, Pydantic's parsing of a request and ISO dates are parameters.
\<close>

section \<open>The consensus plan\<close>

definition CONSENSUS_DISCLAIMER :: string where
  "CONSENSUS_DISCLAIMER =
     ''IIC Persona Consensus is a research synthesis of 8 named investor personas. '' @
     ''It is not personalised investment advice and does not constitute a '' @
     ''recommendation. The views are those of the simulated personas, not the user.''"

definition direction_to_action :: "direction \<Rightarrow> bool \<Rightarrow> action" where
  "direction_to_action d has_signal =
     (if \<not> has_signal then Hold else case d of Long \<Rightarrow> Buy | Short \<Rightarrow> Sell | Flat \<Rightarrow> Hold)"

definition band_mid :: "rat \<times> rat \<Rightarrow> rat" where
  "band_mid b = (case b of (lo, hi) \<Rightarrow> (lo + hi) / 2)"

text \<open>The counts in the order of the directions' names; sorting them by descending count is stable.\<close>

definition direction_count :: "advice_v1 list \<Rightarrow> direction \<Rightarrow> nat" where
  "direction_count advices d = length (filter (\<lambda>a. av_direction a = d) advices)"

definition majority_direction :: "advice_v1 list \<Rightarrow> direction \<times> rat" where
  "majority_direction advices =
     (let counts = map (\<lambda>d. (d, direction_count advices d)) [Flat, Long, Short];
          n = sum_list (map snd counts);
          denom = of_nat (if n = 0 then 1 else n);
          sorted_dirs = sort_key (\<lambda>(d, k). - int k) counts;
          (top1, top_n) = sorted_dirs ! 0;
          runner_n = snd (sorted_dirs ! 1) in
      if top_n = runner_n then (Flat, of_nat top_n / denom) else (top1, of_nat top_n / denom))"

fun dedupe_evidence_loop :: "(string \<times> string option \<times> string option) list \<Rightarrow> evidence list \<Rightarrow> evidence list" where
  "dedupe_evidence_loop seen [] = []"
| "dedupe_evidence_loop seen (e # es) =
     (let key = (ev_kind e, ev_ref e, ev_url e) in
      if key \<in> set seen then dedupe_evidence_loop seen es else e # dedupe_evidence_loop (key # seen) es)"

definition dedupe_evidence :: "advice_v1 list \<Rightarrow> evidence list" where
  "dedupe_evidence advices = dedupe_evidence_loop [] (concat (map av_evidence advices))"

text \<open>\<open>statistics.median\<close> and \<open>fmean\<close> of a list that is not empty.\<close>

definition median :: "rat list \<Rightarrow> rat" where
  "median data =
     (let xs = sort data; n = length xs in
      if n mod 2 = 1 then xs ! (n div 2) else (xs ! (n div 2 - 1) + xs ! (n div 2)) / 2)"

definition mean :: "rat list \<Rightarrow> rat" where
  "mean xs = sum_list xs / of_nat (length xs)"

definition fallback_thesis :: "advice_v1 list \<Rightarrow> action \<Rightarrow> string" where
  "fallback_thesis advices act =
     ''Persona consensus action: '' @ action_value act @ ''.'' @ [CHR 0x0A, CHR 0x0A] @ ''Per-persona signals:'' @ [CHR 0x0A]
     @ join_with [CHR 0x0A]
         (map (\<lambda>a. ''- '' @ av_agent a @ '': '' @ direction_value (av_direction a) @ '' (conf='' @ fmt2 (av_confidence a) @ '') ''
                 @ em_dash @ '' '' @ take 200 (av_thesis a)) advices)
     @ [CHR 0x0A, CHR 0x0A] @ ''Synthesis was performed without the LLM (cost breaker or unavailable). ''
     @ ''The action follows the majority direction across the panel.''"

text \<open>The user prompt; \<open>roll\<close> is the router's answer to it: an exception, or whether the cost breaker skipped it, and the text.\<close>

definition thesis_prompt :: "advice_v1 list \<Rightarrow> action \<Rightarrow> string" where
  "thesis_prompt advices act =
     ''Action: '' @ action_value act @ [CHR 0x0A] @ ''Persona advisories:'' @ [CHR 0x0A]
     @ join_with [CHR 0x0A]
         (map (\<lambda>a. ''- ['' @ av_agent a @ ''] direction='' @ direction_value (av_direction a) @ '' confidence=''
                 @ fmt2 (av_confidence a) @ '': '' @ take 400 (av_thesis a)) advices)
     @ [CHR 0x0A, CHR 0x0A] @ ''Output 3 paragraphs ('' @ [CHR 0x88] @ ''600 words total).''"

definition synthesize_thesis :: "(string \<Rightarrow> string + bool \<times> string) \<Rightarrow> advice_v1 list \<Rightarrow> action \<Rightarrow> string" where
  "synthesize_thesis roll advices act =
     (case roll (thesis_prompt advices act) of
        Inl e \<Rightarrow> fallback_thesis advices act
      | Inr (cost_skipped, t) \<Rightarrow> if cost_skipped \<or> strip t = [] then fallback_thesis advices act else strip t)"

definition consensus_action :: "advice_v1 list \<Rightarrow> action" where
  "consensus_action advices = (case majority_direction advices of (d, share) \<Rightarrow> direction_to_action d (share > 1/2))"

text \<open>The prices, repaired to the order the action needs: (entry, target, stop).\<close>

definition repair_prices :: "action \<Rightarrow> rat \<Rightarrow> rat \<Rightarrow> rat \<Rightarrow> rat \<times> rat" where
  "repair_prices act entry target stop =
     (case act of
        Buy \<Rightarrow> (if target \<le> entry then entry * 1.01 else target, if stop \<ge> entry then entry * 0.99 else stop)
      | Sell \<Rightarrow> (if target \<ge> entry then entry * 0.99 else target, if stop \<le> entry then entry * 1.01 else stop)
      | Hold \<Rightarrow> (target, stop))"

definition consensus_plan ::
  "(string \<Rightarrow> string + bool \<times> string) \<Rightarrow> string \<Rightarrow> advice_v1 list \<Rightarrow> portfolio_context option \<Rightarrow> seconds \<Rightarrow> plan_v1" where
  "consensus_plan roll new_id advices context now =
     (let share = snd (majority_direction advices);
          act = consensus_action advices;
          entry_mid = median (map (band_mid \<circ> av_entry_band) advices);
          target_mid = mean (map (band_mid \<circ> av_target_band) advices);
          stop_max = Max (set (map av_stop_loss advices));
          horizon = Max (set (map av_horizon_days advices));
          confidence = mean (map av_confidence advices) * share;
          (target, stop) = repair_prices act entry_mid target_mid stop_max;
          found = dedupe_evidence advices;
          cited = (if act \<noteq> Hold \<and> found = []
                   then [\<lparr>ev_kind = ''news'', ev_ref = Some (''persona.consensus.'' @ av_id (hd advices)), ev_url = None\<rparr>] else found) in
      \<lparr>pl_id = new_id, pl_team = Persona, pl_persona_slug = Some ''consensus'', pl_issued_at = now, pl_asset = av_asset (hd advices),
       pl_action = act, pl_entry_price = entry_mid, pl_window_open = now, pl_window_close = now + 24 * 3600,
       pl_target_price = target, pl_stop_loss = stop, pl_max_drawdown_pct = 15, pl_horizon_days = horizon, pl_sizing_pct_nav = 2,
       pl_confidence = clip 0 1 confidence, pl_thesis = synthesize_thesis roll advices act, pl_evidence = cited,
       pl_context = context, pl_expires_at = now + days horizon, pl_disclaimer = Some CONSENSUS_DISCLAIMER\<rparr>)"

definition synthesize_persona_plan ::
  "(string \<Rightarrow> bool) \<Rightarrow> (string \<Rightarrow> string + bool \<times> string) \<Rightarrow> string \<Rightarrow> advice_v1 list \<Rightarrow> portfolio_context option \<Rightarrow> seconds
     \<Rightarrow> string + plan_v1" where
  "synthesize_persona_plan ulid_ok roll new_id advices context now =
     (if advices = [] then Inl ''synthesize_persona_plan requires at least one AdviceV1''
      else construct (plan_valid ulid_ok) (consensus_plan roll new_id advices context now))"

text \<open>The endpoint; the two \<open>parse\<close> functions are \<open>model_validate\<close>.\<close>

definition team_plan_payload ::
  "(string \<Rightarrow> bool) \<Rightarrow> (json \<Rightarrow> string + advice_v1) \<Rightarrow> (json \<Rightarrow> string + portfolio_context) \<Rightarrow> (string \<Rightarrow> string + bool \<times> string)
     \<Rightarrow> string \<Rightarrow> (string, json) dict \<Rightarrow> seconds \<Rightarrow> string + plan_v1" where
  "team_plan_payload ulid_ok parse_advice parse_context roll new_id request now =
     res_bind (iterate (jor (dget request ''advices'') (JArr []))) (\<lambda>raw.
     res_bind (those_res (map parse_advice raw)) (\<lambda>advices.
     let pc_raw = dget request ''portfolio_context'' in
     res_bind (if truthy pc_raw then res_bind (parse_context pc_raw) (\<lambda>c. Inr (Some c)) else Inr None) (\<lambda>context.
     synthesize_persona_plan ulid_ok roll new_id advices context now)))"

section \<open>The action needs more than half of the personas\<close>

lemma direction_count_sum: "direction_count as Flat + direction_count as Long + direction_count as Short = length as"
proof (induction as)
  case (Cons a as)
  then show ?case by (cases "av_direction a") (simp_all add: direction_count_def)
qed (simp add: direction_count_def)

lemma share_above_half: "(1/2 < (of_nat k / of_nat n :: rat)) \<longleftrightarrow> n < 2 * k" if "0 < n"
proof -
  have "(1/2 < (of_nat k / of_nat n :: rat)) \<longleftrightarrow> (of_nat n :: rat) < of_nat (2 * k)"
    using that by (simp add: less_divide_eq mult.commute)
  then show ?thesis by (simp only: of_nat_less_iff)
qed

text \<open>
  C29: The consensus buys exactly if more than half of the personas are long, sells exactly if more than half are short,
  and holds otherwise; a plurality is not enough.
\<close>

theorem consensus_needs_absolute_majority:
  "consensus_action advices =
     (if length advices < 2 * direction_count advices Long then Buy
      else if length advices < 2 * direction_count advices Short then Sell else Hold)"
proof (cases "advices = []")
  case True
  then show ?thesis
    by (simp add: consensus_action_def majority_direction_def direction_count_def direction_to_action_def)
next
  case False
  let ?n = "length advices" and ?f = "direction_count advices Flat" and ?l = "direction_count advices Long"
    and ?s = "direction_count advices Short"
  have n: "0 < ?n" "?f + ?l + ?s = ?n" using False direction_count_sum by simp_all
  have half: "1/2 < (of_nat k / of_nat ?n :: rat) \<longleftrightarrow> ?n < 2 * k" for k by (rule share_above_half [OF n(1)])
  have total: "?f + (?l + ?s) = ?n" "?n \<noteq> 0" using n by simp_all
  show ?thesis
    unfolding consensus_action_def majority_direction_def
    using n by (auto simp: total half direction_to_action_def Let_def split: if_splits)
qed

section \<open>The consensus plan is valid\<close>

lemma median_pos: "xs \<noteq> [] \<Longrightarrow> list_all (\<lambda>x. 0 < x) xs \<Longrightarrow> 0 < median xs"
proof -
  assume ne: "xs \<noteq> []" and pos: "list_all (\<lambda>x. 0 < x) xs"
  have nth: "0 < sort xs ! i" if "i < length xs" for i
    using pos nth_mem [of i "sort xs"] that by (simp add: list_all_iff)
  have "0 < length xs" using ne by simp
  then have "length xs div 2 < length xs" "length xs div 2 - 1 < length xs" by linarith+
  then show ?thesis by (simp add: median_def Let_def nth add_pos_pos)
qed

lemma mean_pos: "xs \<noteq> [] \<Longrightarrow> list_all (\<lambda>x. 0 < x) xs \<Longrightarrow> 0 < mean xs"
proof -
  have "list_all (\<lambda>x. 0 < x) xs \<Longrightarrow> 0 \<le> sum_list xs \<and> (xs \<noteq> [] \<longrightarrow> 0 < sum_list xs)" for xs :: "rat list"
    by (induction xs) (auto simp: add_pos_nonneg)
  then show "xs \<noteq> [] \<Longrightarrow> list_all (\<lambda>x. 0 < x) xs \<Longrightarrow> 0 < mean xs" by (simp add: mean_def)
qed

lemma dedupe_evidence_loop_subset: "set (dedupe_evidence_loop seen es) \<subseteq> set es"
  by (induction seen es rule: dedupe_evidence_loop.induct) (auto simp: Let_def)

lemma repair_prices_ordered:
  assumes "0 < entry" "0 < target" "0 < stop" and "repair_prices act entry target stop = (t, s)"
  shows "0 < t" "0 < s"
    and "act = Buy \<Longrightarrow> s < entry \<and> entry < t" and "act = Sell \<Longrightarrow> t < entry \<and> entry < s"
  using assms by (auto simp: repair_prices_def split: action.splits if_splits)

text \<open>An advice with positive prices.\<close>

definition priced :: "advice_v1 \<Rightarrow> bool" where
  "priced a \<longleftrightarrow> 0 < fst (av_entry_band a) \<and> 0 < fst (av_target_band a) \<and> 0 < av_stop_loss a"

lemma band_mid_pos: "band_ascending b \<Longrightarrow> 0 < fst b \<Longrightarrow> 0 < band_mid b"
  by (cases b) (simp add: band_ascending_def band_mid_def)

lemma disclaimer_not_blank: "\<not> blank (Some CONSENSUS_DISCLAIMER)" "\<not> blank (Some ''consensus'')"
  by code_simp+

lemma consensus_evidence:
  assumes "list_all (\<lambda>a. evidence_fields_ok (av_evidence a)) advices"
  shows "evidence_fields_ok (dedupe_evidence advices)"
  using dedupe_evidence_loop_subset [of "[]" "concat (map av_evidence advices)"] assms
  by (fastforce simp: evidence_fields_ok_def dedupe_evidence_def list_all_iff)

lemma consensus_prices:
  assumes "advices \<noteq> []" and "list_all (advice_valid ulid_ok) advices" and "list_all priced advices"
  shows "0 < median (map (band_mid \<circ> av_entry_band) advices)" and "0 < mean (map (band_mid \<circ> av_target_band) advices)"
    and "0 < Max (set (map av_stop_loss advices))"
proof -
  have *: "0 < band_mid (av_entry_band a)" "0 < band_mid (av_target_band a)" "0 < av_stop_loss a" if "a \<in> set advices" for a
    using assms(2,3) that by (auto simp: list_all_iff advice_valid_def priced_def band_mid_pos)
  show "0 < median (map (band_mid \<circ> av_entry_band) advices)" "0 < mean (map (band_mid \<circ> av_target_band) advices)"
    using assms(1) * by (auto simp: list_all_iff intro!: median_pos mean_pos)
  obtain b where "b \<in> set advices" using assms(1) by (cases advices) auto
  then show "0 < Max (set (map av_stop_loss advices))" using * by (subst Max_gr_iff) auto
qed

lemma consensus_horizon:
  assumes "advices \<noteq> []" and "list_all (advice_valid ulid_ok) advices"
  shows "1 \<le> Max (set (map av_horizon_days advices))"
    and "Max (set (map av_horizon_days advices)) \<le> 365 \<longleftrightarrow> list_all (\<lambda>a. av_horizon_days a \<le> 365) advices"
proof -
  obtain b where b: "b \<in> set advices" using assms(1) by (cases advices) auto
  then have "1 \<le> av_horizon_days b" using assms(2) by (auto simp: list_all_iff advice_valid_def advice_fields_ok_def)
  then show "1 \<le> Max (set (map av_horizon_days advices))" using b by (subst Max_ge_iff) auto
  show "Max (set (map av_horizon_days advices)) \<le> 365 \<longleftrightarrow> list_all (\<lambda>a. av_horizon_days a \<le> 365) advices"
    using assms(1) by (simp add: list_all_iff)
qed

text \<open>
  C10: From valid advices with positive prices, with a valid context and an id the ULID package accepts, the consensus is
  a valid plan exactly if no advice has a horizon above 365 days and the thesis has at most 4000 characters: the prices
  are repaired to the order the action needs whatever the bands of the personas are, and the evidence is never missing.
\<close>

theorem consensus_plan_valid_iff:
  assumes "advices \<noteq> []" and "list_all (advice_valid ulid_ok) advices" and "list_all priced advices"
    and "id_is_ulid ulid_ok i" and "case context of None \<Rightarrow> True | Some c \<Rightarrow> context_fields_ok c"
  shows "(\<exists>p. synthesize_persona_plan ulid_ok roll i advices context now = Inr p)
    \<longleftrightarrow> list_all (\<lambda>a. av_horizon_days a \<le> 365) advices
      \<and> length (synthesize_thesis roll advices (consensus_action advices)) \<le> 4000"
proof -
  let ?p = "consensus_plan roll i advices context now" and ?act = "consensus_action advices"
    and ?E = "median (map (band_mid \<circ> av_entry_band) advices)" and ?T = "mean (map (band_mid \<circ> av_target_band) advices)"
    and ?S = "Max (set (map av_stop_loss advices))" and ?h = "Max (set (map av_horizon_days advices))"
  note prices = consensus_prices [OF assms(1-3)] and horizon = consensus_horizon [OF assms(1,2)]
  obtain t s where ts: "repair_prices ?act ?E ?T ?S = (t, s)" by (rule prod.exhaust)
  note ordered = repair_prices_ordered [OF prices ts]
  have parts: "pl_team ?p = Persona" "pl_persona_slug ?p = Some ''consensus''" "pl_disclaimer ?p = Some CONSENSUS_DISCLAIMER"
    "pl_action ?p = ?act" "pl_entry_price ?p = ?E" "pl_target_price ?p = t" "pl_stop_loss ?p = s" "pl_horizon_days ?p = ?h"
    "pl_window_open ?p = now" "pl_window_close ?p = now + 24 * 3600" "pl_issued_at ?p = now" "pl_expires_at ?p = now + days ?h"
    "pl_thesis ?p = synthesize_thesis roll advices ?act" "pl_id ?p = i" "pl_context ?p = context" "pl_asset ?p = av_asset (hd advices)"
    "pl_max_drawdown_pct ?p = 15" "pl_sizing_pct_nav ?p = 2"
    and ev: "pl_evidence ?p = (if ?act \<noteq> Hold \<and> dedupe_evidence advices = []
        then [\<lparr>ev_kind = ''news'', ev_ref = Some (''persona.consensus.'' @ av_id (hd advices)), ev_url = None\<rparr>]
        else dedupe_evidence advices)"
    and conf: "0 \<le> pl_confidence ?p \<and> pl_confidence ?p \<le> 1"
    by (simp_all only: consensus_plan_def Let_def ts prod.case plan_v1.simps clip_bounds [OF zero_le_one])
  have "evidence_fields_ok (dedupe_evidence advices)"
    using assms(2) by (intro consensus_evidence) (auto simp: list_all_iff advice_valid_def advice_fields_ok_def)
  then have cited: "evidence_fields_ok (pl_evidence ?p)" "?act \<noteq> Hold \<Longrightarrow> pl_evidence ?p \<noteq> []"
    by (simp_all add: ev evidence_fields_ok_def evidence_kinds_def)
  have asset: "asset_fields_ok (av_asset (hd advices))"
    using assms(1,2) by (cases advices) (simp_all add: advice_valid_def advice_fields_ok_def)
  have "action_price_ordering ?p"
    using ordered(3,4) by (cases ?act) (simp_all add: action_price_ordering_def parts)
  moreover have "entry_window_monotone ?p" by (simp add: entry_window_monotone_def parts)
  moreover have "evidence_required_unless_hold ?p" using cited(2) by (auto simp: evidence_required_unless_hold_def parts)
  moreover have "persona_team_requires_persona_slug ?p" "persona_team_requires_disclaimer ?p"
    using disclaimer_not_blank by (simp_all add: persona_team_requires_persona_slug_def persona_team_requires_disclaimer_def parts)
  moreover have "expiry_within_one_year now (now + days ?h) \<longleftrightarrow> ?h \<le> 365" using horizon(1) by (rule expiry_of_days)
  moreover have "plan_fields_ok ?p \<longleftrightarrow> ?h \<le> 365 \<and> length (pl_thesis ?p) \<le> 4000"
    using horizon(1) prices(1) ordered(1,2) conf cited(1) asset assms(5) by (simp add: plan_fields_ok_def parts)
  ultimately have "plan_valid ulid_ok ?p \<longleftrightarrow> ?h \<le> 365 \<and> length (pl_thesis ?p) \<le> 4000"
    using assms(4) by (auto simp: plan_valid_def parts)
  then show ?thesis using assms(1) by (simp add: synthesize_persona_plan_def horizon(2) parts list_all_iff)
qed

definition sample_advice :: advice_v1 where
  "sample_advice =
     \<lparr>av_id = ''01ARZ3NDEKTSV4RRFFQ69G5FAV'', av_agent = ''persona.soros'', av_issued_at = 0,
      av_asset = \<lparr>as_kind = ''equity'', as_ticker = ''MSFT'', as_venue = ''NASDAQ'', as_name = None\<rparr>, av_thesis = ''Reflexivity.'',
      av_direction = Long, av_confidence = 1/2, av_entry_band = (99, 101), av_target_band = (120, 130), av_stop_loss = 90,
      av_horizon_days = 30, av_max_drawdown_pct = 15, av_sizing_hint_pct_nav = 2, av_expires_at = days 30,
      av_evidence = [\<lparr>ev_kind = ''news'', ev_ref = Some ''intel.digest.v1#1'', ev_url = None\<rparr>], av_disclaimer = Some ''Stylized.''\<rparr>"

lemma sample_team_advice_valid: "advice_valid (\<lambda>_. True) sample_advice"
proof -
  have "ulid_re ''01ARZ3NDEKTSV4RRFFQ69G5FAV''" "\<not> blank (Some ''Stylized.'')" by code_simp+
  then show ?thesis
    by (simp add: sample_advice_def advice_valid_def advice_fields_ok_def id_is_ulid_def asset_fields_ok_def asset_kinds_def
        evidence_fields_ok_def evidence_kinds_def band_ascending_def direction_consistency_def
        evidence_required_when_directional_def persona_requires_disclaimer_def expiry_within_one_year_def days_def)
qed

theorem consensus_plan_valid_iff_witness:
  "\<exists>p. synthesize_persona_plan (\<lambda>_. True) (\<lambda>_. Inr (False, ''Buy.'')) ''01ARZ3NDEKTSV4RRFFQ69G5FAV''
         [sample_advice] None 0 = Inr p"
proof -
  have 1: "list_all (advice_valid (\<lambda>_. True)) [sample_advice]" using sample_team_advice_valid by simp
  have 2: "list_all priced [sample_advice]" by (simp add: priced_def sample_advice_def)
  have "ulid_re ''01ARZ3NDEKTSV4RRFFQ69G5FAV''" by code_simp
  then have 3: "id_is_ulid (\<lambda>_. True) ''01ARZ3NDEKTSV4RRFFQ69G5FAV''" by (simp add: id_is_ulid_def)
  have 4: "case None of None \<Rightarrow> True | Some c \<Rightarrow> context_fields_ok c" by simp
  have "strip ''Buy.'' = ''Buy.''" by code_simp
  then have "synthesize_thesis (\<lambda>_. Inr (False, ''Buy.'')) advices act = ''Buy.''" for advices act
    by (simp add: synthesize_thesis_def)
  then show ?thesis
    using consensus_plan_valid_iff [OF _ 1 2 3 4, of "\<lambda>_. Inr (False, ''Buy.'')" 0] by (simp add: sample_advice_def)
qed

text \<open>
  Without the language model (it raises, the cost breaker skips the call, or the answer is blank) the thesis of up to
  twelve valid advices, of agents with names of up to 60 characters, has at most 4000 characters.
\<close>

theorem fallback_thesis_fits:
  assumes "case roll (thesis_prompt advices act) of Inl e \<Rightarrow> True | Inr (skipped, t) \<Rightarrow> skipped \<or> strip t = []"
    and "length advices \<le> 12" and "list_all (\<lambda>a. advice_fields_ok a \<and> length (av_agent a) \<le> 60) advices"
  shows "length (synthesize_thesis roll advices act) \<le> 4000"
proof -
  let ?row = "\<lambda>a. ''- '' @ av_agent a @ '': '' @ direction_value (av_direction a) @ '' (conf='' @ fmt2 (av_confidence a) @ '') ''
                 @ em_dash @ '' '' @ take 200 (av_thesis a)"
  have "length (?row a) \<le> 290" if "a \<in> set advices" for a
  proof -
    have "length (av_agent a) \<le> 60" "length (fmt2 (av_confidence a)) = 4"
      using assms(3) that by (auto simp: list_all_iff advice_fields_ok_def length_fmt2_unit)
    moreover have "length (direction_value (av_direction a)) \<le> 5" by (cases "av_direction a") simp_all
    ultimately show ?thesis by (simp add: em_dash_def)
  qed
  then have "length (join_with [CHR 0x0A] (map ?row advices)) \<le> (290 + length [CHR 0x0A]) * length (map ?row advices)"
    by (intro length_join) auto
  also have "\<dots> \<le> 291 * 12" using assms(2) by simp
  finally have "length (join_with [CHR 0x0A] (map ?row advices)) \<le> 3492" by simp
  moreover have "length (action_value act) \<le> 4" by (cases act) simp_all
  ultimately have "length (fallback_thesis advices act) \<le> 4000" unfolding fallback_thesis_def by simp
  then show ?thesis using assms(1) by (auto simp: synthesize_thesis_def split: sum.splits prod.splits)
qed

theorem fallback_thesis_fits_witness:
  "length (synthesize_thesis (\<lambda>_. Inl ''router down'') [sample_advice] Buy) \<le> 4000"
  using sample_team_advice_valid
  by (intro fallback_thesis_fits) (simp_all add: advice_valid_def sample_advice_def)

section \<open>Memory\<close>

record memory_entry =
  me_doc_id :: string
  me_text :: string
  me_kind :: string
  me_similarity :: rat
  me_pnl_r :: "rat option"
  me_days_old :: int
  me_metadata :: "(string, string) dict"

definition RECENCY_HALF_LIFE_DAYS :: rat where
  "RECENCY_HALF_LIFE_DAYS = 365"

definition LOSING_TRADE_PENALTY :: rat where
  "LOSING_TRADE_PENALTY = 1"

definition score_with_recency :: "(rat \<Rightarrow> rat) \<Rightarrow> rat \<Rightarrow> memory_entry \<Rightarrow> rat" where
  "score_with_recency exp_fn base entry =
     (let decay = 1/2 + 1/2 * exp_fn (- of_int (me_days_old entry) / RECENCY_HALF_LIFE_DAYS);
          score = base * decay in
      case me_pnl_r entry of Some p \<Rightarrow> if p < -1 then score - LOSING_TRADE_PENALTY else score | None \<Rightarrow> score)"

definition filter_by_universe :: "string list \<Rightarrow> (string, rat) dict \<Rightarrow> string list" where
  "filter_by_universe candidates universe_weights =
     (if universe_weights = [] then candidates
      else filter (\<lambda>c. (case map_of universe_weights c of None \<Rightarrow> 1 | Some w \<Rightarrow> w) > 0) candidates)"

text \<open>The dates: \<open>iso\<close> is \<open>fromisoformat\<close>, with whether the result has a zone (subtracting one without raises TypeError).\<close>

type_synonym iso_parser = "string \<Rightarrow> (seconds \<times> bool) option"

definition meta_dt :: "iso_parser \<Rightarrow> memory_entry \<Rightarrow> string \<Rightarrow> seconds \<Rightarrow> seconds \<times> bool" where
  "meta_dt iso_parse entry key dflt =
     (case map_of (me_metadata entry) key of
        None \<Rightarrow> (dflt, True)
      | Some raw \<Rightarrow> if raw = [] then (dflt, True) else case iso_parse raw of None \<Rightarrow> (dflt, True) | Some t \<Rightarrow> t)"

definition query_terms :: "string \<Rightarrow> string list" where
  "query_terms q = remdups (map lower (filter (\<lambda>t. length t > 3) (words_of q)))"

text \<open>The scored entries of a persona, with their positions in its list; entries are mutated in place there.\<close>

definition base_hits :: "string list \<Rightarrow> memory_entry \<Rightarrow> nat" where
  "base_hits terms entry = length (filter (\<lambda>t. occurs_in t (lower (me_text entry))) terms)"

definition score_entry :: "(rat \<Rightarrow> rat) \<Rightarrow> string list \<Rightarrow> memory_entry \<Rightarrow> rat option" where
  "score_entry exp_fn terms entry =
     (let base = base_hits terms entry in
      if base = 0 \<and> me_kind entry \<noteq> ''lesson'' then None
      else Some (score_with_recency exp_fn (of_nat base + (if me_kind entry = ''lesson'' then 1/2 else 0)) entry))"

definition scored :: "(rat \<Rightarrow> rat) \<Rightarrow> string list \<Rightarrow> memory_entry list \<Rightarrow> (rat \<times> nat) list" where
  "scored exp_fn terms entries =
     List.map_filter (\<lambda>(i, e). map_option (\<lambda>s. (s, i)) (score_entry exp_fn terms e)) (zip [0..<length entries] entries)"

text \<open>The first \<open>k\<close> by descending score (the sort is stable); a raised TypeError ends the loop that marks them.\<close>

definition ranked :: "(rat \<Rightarrow> rat) \<Rightarrow> string list \<Rightarrow> nat \<Rightarrow> memory_entry list \<Rightarrow> (rat \<times> nat) list" where
  "ranked exp_fn terms k entries = take k (sort_key (\<lambda>r. - fst r) (scored exp_fn terms entries))"

fun mark_out :: "iso_parser \<Rightarrow> seconds \<Rightarrow> (rat \<times> nat) list \<Rightarrow> memory_entry list \<Rightarrow> exn option \<times> memory_entry list" where
  "mark_out iso_parse now [] entries = (None, entries)"
| "mark_out iso_parse now ((score, i) # rest) entries =
     (let e = (entries ! i)\<lparr>me_similarity := score\<rparr>; (indexed, aware) = meta_dt iso_parse e ''indexed_at'' now in
      if \<not> aware then (Some TypeError, entries[i := e])
      else mark_out iso_parse now rest (entries[i := e\<lparr>me_days_old := \<lfloor>(now - indexed) / 86400\<rfloor>\<rparr>]))"

type_synonym memory_store = "(string, memory_entry list) dict"

definition entries_of :: "memory_store \<Rightarrow> string \<Rightarrow> memory_entry list" where
  "entries_of st slug = (case map_of st slug of None \<Rightarrow> [] | Some es \<Rightarrow> es)"

definition memory_query ::
  "(rat \<Rightarrow> rat) \<Rightarrow> iso_parser \<Rightarrow> seconds \<Rightarrow> string \<Rightarrow> string \<Rightarrow> nat \<Rightarrow> memory_store \<Rightarrow> (exn + memory_entry list) \<times> memory_store" where
  "memory_query exp_fn iso_parse now slug q k st =
     (let entries = entries_of st slug; hits = ranked exp_fn (query_terms q) k entries;
          (e, entries') = mark_out iso_parse now hits entries;
          st' = (if map_of st slug = None then st else AList.update slug entries' st) in
      (case e of Some x \<Rightarrow> Inl x | None \<Rightarrow> Inr (map (\<lambda>(s, i). entries' ! i) hits), st'))"

definition memory_add :: "string \<Rightarrow> memory_entry \<Rightarrow> memory_store \<Rightarrow> memory_store" where
  "memory_add slug entry st = AList.update slug (entries_of st slug @ [entry]) st"

fun set_pnl :: "string \<Rightarrow> rat \<Rightarrow> memory_entry list \<Rightarrow> memory_entry list" where
  "set_pnl doc_id pnl [] = []"
| "set_pnl doc_id pnl (e # es) =
     (if me_doc_id e = doc_id then e\<lparr>me_pnl_r := Some pnl\<rparr> # es else e # set_pnl doc_id pnl es)"

definition update_pnl :: "string \<Rightarrow> string \<Rightarrow> rat \<Rightarrow> memory_store \<Rightarrow> memory_store" where
  "update_pnl slug doc_id pnl st =
     (case map_of st slug of None \<Rightarrow> st | Some es \<Rightarrow> AList.update slug (set_pnl doc_id pnl es) st)"

section \<open>Feedback and publishing\<close>

record fill_v1 =
  fv_agent :: string
  fv_advice_id :: string
  fv_exit_reason :: string
  fv_pnl_r :: rat
  fv_narrative :: string

text \<open>\<open>answer\<close> is the model's answer to the prompt about the fill, \<open>now_iso\<close> the current time as text.\<close>

definition on_fill ::
  "(fill_v1 \<Rightarrow> string + string) \<Rightarrow> string \<Rightarrow> string \<Rightarrow> persona_spec \<Rightarrow> fill_v1 \<Rightarrow> memory_store
     \<Rightarrow> (string + memory_entry option) \<times> memory_store" where
  "on_fill answer new_id now_iso spec fill st =
     (if \<not> ends_with (pn_slug spec) (fv_agent fill) then (Inr None, st)
      else let st1 = update_pnl (pn_slug spec) (fv_advice_id fill) (fv_pnl_r fill) st in
        (case answer fill of
           Inl e \<Rightarrow> (Inl e, st1)
         | Inr t \<Rightarrow>
             (let lesson = \<lparr>me_doc_id = new_id, me_text = strip t, me_kind = ''lesson'', me_similarity = 0,
                            me_pnl_r = Some (fv_pnl_r fill), me_days_old = 0,
                            me_metadata = [(''indexed_at'', now_iso), (''source_advice_id'', fv_advice_id fill)]\<rparr> in
              (Inr (Some lesson), memory_add (pn_slug spec) lesson st1))))"

definition publish_advice :: "(advice_v1, 'w) bus \<Rightarrow> advice_v1 \<Rightarrow> 'w \<Rightarrow> (bus_error + string) \<times> 'w" where
  "publish_advice b a w =
     (if \<not> starts_with ''persona.'' (av_agent a) then (Inl (BusExn ''ValueError''), w)
      else case advice_persona (drop (length ''persona.'') (av_agent a)) of
             Inl e \<Rightarrow> (Inl e, w)
           | Inr subject \<Rightarrow> publish b subject a (Some (''advice:'' @ av_id a)) w)"

section \<open>A query gives the best entries\<close>

lemma map_fst_positions:
  "length is = length es \<Longrightarrow>
    map fst (List.map_filter (\<lambda>(i, e). map_option (\<lambda>s. (s, i)) (g e)) (zip is es)) = List.map_filter g es"
  by (induction "is" es rule: list_induct2) (auto simp: List.map_filter_simps split: option.split)

lemma positions_within:
  "length is = length es \<Longrightarrow> distinct is \<Longrightarrow>
    (let r = List.map_filter (\<lambda>(i, e). map_option (\<lambda>s. (s, i)) (g e)) (zip is es) in
     distinct (map snd r) \<and> set (map snd r) \<subseteq> set is)"
  by (induction "is" es rule: list_induct2) (auto simp: List.map_filter_simps Let_def split: option.split)

lemma map_fst_sort_desc: "map fst (sort_key (\<lambda>r. - fst r) xs) = rev (sort (map fst xs))" for xs :: "(rat \<times> nat) list"
proof -
  let ?ys = "sort_key (\<lambda>r. - fst r) xs"
  have "sorted (map (\<lambda>r. - fst r) ?ys)" by simp
  then have "sorted_wrt (\<lambda>a b. fst b \<le> fst a) ?ys" by (simp add: sorted_map sorted_wrt_map)
  then have "sorted (rev (map fst ?ys))" by (simp add: sorted_wrt_rev sorted_wrt_map)
  moreover have "mset (rev (map fst ?ys)) = mset (map fst xs)" by simp
  ultimately have "sort (map fst xs) = rev (map fst ?ys)" by (metis properties_for_sort)
  then show ?thesis by simp
qed

definition memory_core :: "memory_entry \<Rightarrow> string \<times> string \<times> string \<times> rat option \<times> (string, string) dict" where
  "memory_core e = (me_doc_id e, me_text e, me_kind e, me_pnl_r e, me_metadata e)"

lemma mark_out_other:
  "j \<notin> snd ` set hits \<Longrightarrow> snd (mark_out iso_parse now hits entries) ! j = entries ! j"
  by (induction iso_parse now hits entries rule: mark_out.induct) (auto simp: Let_def split: prod.splits)

lemma memory_core_marks [simp]:
  "memory_core (e\<lparr>me_similarity := s\<rparr>) = memory_core e" "memory_core (e\<lparr>me_days_old := d\<rparr>) = memory_core e"
  by (simp_all add: memory_core_def)

lemma mark_out_core:
  "list_all (\<lambda>h. snd h < length entries) hits \<Longrightarrow>
    map memory_core (snd (mark_out iso_parse now hits entries)) = map memory_core entries"
proof (induction iso_parse now hits entries rule: mark_out.induct)
  case (2 iso_parse now score i rest entries)
  have upd: "map memory_core (entries[i := e]) = map memory_core entries"
    if "memory_core e = memory_core (entries ! i)" for e
    using that 2(2) by (auto simp: map_update intro!: list_update_same_conv [THEN iffD2])
  obtain t aware where "meta_dt iso_parse ((entries ! i)\<lparr>me_similarity := score\<rparr>) ''indexed_at'' now = (t, aware)"
    by (rule prod.exhaust)
  then show ?case using 2 by (auto simp: Let_def upd)
qed simp

lemma mark_out_similarity:
  assumes "fst (mark_out iso_parse now hits entries) = None" and "distinct (map snd hits)"
    and "list_all (\<lambda>h. snd h < length entries) hits"
  shows "map (\<lambda>(s, i). me_similarity (snd (mark_out iso_parse now hits entries) ! i)) hits = map fst hits"
  using assms
proof (induction iso_parse now hits entries rule: mark_out.induct)
  case (2 iso_parse now score i rest entries)
  obtain t aware where t: "meta_dt iso_parse ((entries ! i)\<lparr>me_similarity := score\<rparr>) ''indexed_at'' now = (t, aware)"
    by (rule prod.exhaust)
  have aware using 2(2) t by (simp add: Let_def split: if_splits)
  then show ?case
    using 2 t by (auto simp: Let_def mark_out_other)
qed simp

lemma length_map_core: "map memory_core xs = map memory_core ys \<Longrightarrow> length xs = length ys"
  by (metis length_map)

text \<open>
  When a query succeeds, the similarities of its hits are the \<open>k\<close> largest scores of the matching entries, best first,
  the hits are entries of the persona, and the query changes nothing else of any entry than its similarity and its age.
\<close>

theorem memory_query_top_k:
  assumes "memory_query exp_fn iso_parse now slug q k st = (Inr hits, st')"
  shows "map me_similarity hits
      = take k (rev (sort (List.map_filter (score_entry exp_fn (query_terms q)) (entries_of st slug))))
    \<and> set hits \<subseteq> set (entries_of st' slug)
    \<and> map memory_core (entries_of st' slug) = map memory_core (entries_of st slug)"
proof -
  let ?es = "entries_of st slug" and ?terms = "query_terms q"
  let ?r = "ranked exp_fn ?terms k ?es"
  let ?m = "mark_out iso_parse now ?r ?es"
  have ok: "fst ?m = None" and hits: "hits = map (\<lambda>(s, i). snd ?m ! i) ?r"
    and st': "st' = (if map_of st slug = None then st else AList.update slug (snd ?m) st)"
    using assms by (auto simp: memory_query_def Let_def split: prod.splits option.splits)
  have scored: "map fst (scored exp_fn ?terms ?es) = List.map_filter (score_entry exp_fn ?terms) ?es"
    unfolding scored_def by (rule map_fst_positions) simp
  have within: "distinct (map snd (scored exp_fn ?terms ?es))" "set (map snd (scored exp_fn ?terms ?es)) \<subseteq> {..<length ?es}"
    using positions_within [of "[0..<length ?es]" ?es "score_entry exp_fn ?terms"] by (auto simp: scored_def Let_def)
  have perm: "mset (map snd (sort_key (\<lambda>r. - fst r) (scored exp_fn ?terms ?es))) = mset (map snd (scored exp_fn ?terms ?es))"
    by simp
  then have "distinct (map snd (sort_key (\<lambda>r. - fst r) (scored exp_fn ?terms ?es)))"
    using within(1) by (rule mset_eq_imp_distinct_iff [THEN iffD2])
  then have dist: "distinct (map snd ?r)" by (simp add: ranked_def take_map [symmetric])
  have "set ?r \<subseteq> set (scored exp_fn ?terms ?es)" unfolding ranked_def by (metis set_sort set_take_subset)
  then have bound: "list_all (\<lambda>h. snd h < length ?es) ?r" using within(2) by (auto simp: list_all_iff)
  have len: "length (snd ?m) = length ?es" by (rule length_map_core [OF mark_out_core [OF bound]])
  have "map me_similarity hits = map fst ?r"
    using mark_out_similarity [OF ok dist bound] by (simp add: hits comp_def case_prod_unfold)
  also have "\<dots> = take k (map fst (sort_key (\<lambda>r. - fst r) (scored exp_fn ?terms ?es)))"
    by (simp add: ranked_def take_map)
  finally have "map me_similarity hits = take k (rev (sort (List.map_filter (score_entry exp_fn ?terms) ?es)))"
    by (simp add: map_fst_sort_desc scored)
  moreover have es': "entries_of st' slug = snd ?m"
  proof (cases "map_of st slug")
    case None
    then have "?es = []" by (simp add: entries_of_def)
    then show ?thesis using len None by (simp add: st' entries_of_def)
  qed (simp add: st' entries_of_def update_conv)
  moreover have "set hits \<subseteq> set (snd ?m)" using bound len by (auto simp: hits list_all_iff)
  ultimately show ?thesis using mark_out_core [OF bound, of iso_parse now] by simp
qed

definition sample_memory :: memory_store where
  "sample_memory = [(''soros'',
     [\<lparr>me_doc_id = ''1'', me_text = ''Pound broke its peg'', me_kind = ''decision'', me_similarity = 0, me_pnl_r = None,
       me_days_old = 0, me_metadata = []\<rparr>,
      \<lparr>me_doc_id = ''2'', me_text = ''Respect the trend'', me_kind = ''lesson'', me_similarity = 0, me_pnl_r = Some (-2),
       me_days_old = 0, me_metadata = []\<rparr>])]"

theorem memory_query_top_k_witness:
  "\<exists>hits st'. memory_query (\<lambda>_. 1) (\<lambda>_. None) 0 ''soros'' ''pound peg'' 1 sample_memory = (Inr hits, st')
     \<and> map me_similarity hits = [1]"
proof -
  have terms: "query_terms ''pound peg'' = [''pound'']" by code_simp
  have "occurs_in ''pound'' (lower ''Pound broke its peg'')" "\<not> occurs_in ''pound'' (lower ''Respect the trend'')" by code_simp+
  then have scores: "List.map_filter (score_entry (\<lambda>_. 1) [''pound'']) (entries_of sample_memory ''soros'') = [1, - 1/2]"
    by (simp add: entries_of_def sample_memory_def score_entry_def base_hits_def score_with_recency_def
        LOSING_TRADE_PENALTY_def List.map_filter_simps Let_def)
  have "meta_dt (\<lambda>_. None) e key d = (d, True)" for e key d by (simp add: meta_dt_def split: option.split)
  then have "fst (mark_out (\<lambda>_. None) 0 hits es) = None" for hits es
    by (induction hits arbitrary: es) (simp_all add: Let_def split_paired_all)
  then obtain hits st' where q: "memory_query (\<lambda>_. 1) (\<lambda>_. None) 0 ''soros'' ''pound peg'' 1 sample_memory = (Inr hits, st')"
    by (simp add: memory_query_def Let_def case_prod_unfold)
  from memory_query_top_k [OF this] have "map me_similarity hits = [1]" by (simp add: terms scores)
  with q show ?thesis by (intro exI conjI)
qed

section \<open>What the memory learns\<close>

text \<open>The feedback is the only writer of the memory; a history is a list of fills, with the answer, the fresh id and the time of each.\<close>

definition learn :: "persona_spec \<Rightarrow> ((fill_v1 \<Rightarrow> string + string) \<times> string \<times> string \<times> fill_v1) list \<Rightarrow> memory_store \<Rightarrow> memory_store" where
  "learn spec history st = fold (\<lambda>(answer, new_id, now_iso, fill) s. snd (on_fill answer new_id now_iso spec fill s)) history st"

definition only_lessons :: "string set \<Rightarrow> memory_entry list \<Rightarrow> bool" where
  "only_lessons ids es \<longleftrightarrow> list_all (\<lambda>e. me_kind e = ''lesson'' \<and> me_doc_id e \<in> ids \<and> me_pnl_r e \<noteq> None) es"

lemma set_pnl_absent: "doc_id \<notin> me_doc_id ` set es \<Longrightarrow> set_pnl doc_id p es = es"
  by (induction es) auto

lemma entries_of_update_pnl: "entries_of (update_pnl slug doc_id p st) slug = set_pnl doc_id p (entries_of st slug)"
  by (simp add: entries_of_def update_pnl_def update_conv split: option.split)

lemma entries_of_add: "entries_of (memory_add slug e st) slug = entries_of st slug @ [e]"
  by (simp add: memory_add_def update_conv) (simp add: entries_of_def update_conv)

text \<open>
  As long as no fresh document id is the id of a closed advice, the memory that grows by feedback alone holds only
  lessons, and the result of a trade is never attached to a memory: each fill of the persona that is answered appends
  exactly its lesson to the entries, and leaves the others as they are.
\<close>

theorem feedback_only_appends_lessons:
  assumes "only_lessons ids (entries_of st (pn_slug spec))"
    and "list_all (\<lambda>(answer, new_id, now_iso, fill). new_id \<in> ids \<and> fv_advice_id fill \<notin> ids) history"
  shows "\<exists>ls. entries_of (learn spec history st) (pn_slug spec) = entries_of st (pn_slug spec) @ ls \<and> only_lessons ids ls
    \<and> length ls = length (filter (\<lambda>(answer, new_id, now_iso, fill).
          ends_with (pn_slug spec) (fv_agent fill) \<and> (\<exists>t. answer fill = Inr t)) history)"
  using assms
proof (induction history arbitrary: st)
  case (Cons h history)
  let ?slug = "pn_slug spec"
  obtain answer new_id now_iso fill where h: "h = (answer, new_id, now_iso, fill)" by (cases h)
  let ?st1 = "snd (on_fill answer new_id now_iso spec fill st)"
  have "fv_advice_id fill \<notin> me_doc_id ` set (entries_of st ?slug)"
    using Cons.prems by (auto simp: h only_lessons_def list_all_iff)
  then have same: "entries_of (update_pnl ?slug (fv_advice_id fill) (fv_pnl_r fill) st) ?slug = entries_of st ?slug"
    by (simp add: entries_of_update_pnl set_pnl_absent)
  obtain l where l: "entries_of ?st1 ?slug = entries_of st ?slug @ l" "only_lessons ids l"
    "length l = (if ends_with ?slug (fv_agent fill) \<and> (\<exists>t. answer fill = Inr t) then 1 else 0)"
  proof (cases "ends_with ?slug (fv_agent fill)")
    case False
    then show thesis using that [of "[]"] by (simp add: on_fill_def only_lessons_def)
  next
    case True
    show thesis
    proof (cases "answer fill")
      case (Inl e)
      then show thesis using that [of "[]"] True same by (simp add: on_fill_def only_lessons_def Let_def)
    next
      case (Inr t)
      then show thesis
        using that [of "[\<lparr>me_doc_id = new_id, me_text = strip t, me_kind = ''lesson'', me_similarity = 0,
            me_pnl_r = Some (fv_pnl_r fill), me_days_old = 0,
            me_metadata = [(''indexed_at'', now_iso), (''source_advice_id'', fv_advice_id fill)]\<rparr>]"] True same Cons.prems(2)
        by (simp add: on_fill_def only_lessons_def Let_def entries_of_add h)
    qed
  qed
  have "only_lessons ids (entries_of ?st1 ?slug)" using l Cons.prems(1) by (simp add: only_lessons_def)
  from Cons.IH [OF this] Cons.prems(2) obtain ls where
    "entries_of (learn spec history ?st1) ?slug = entries_of ?st1 ?slug @ ls" "only_lessons ids ls"
    "length ls = length (filter (\<lambda>(answer, new_id, now_iso, fill). ends_with ?slug (fv_agent fill) \<and> (\<exists>t. answer fill = Inr t)) history)"
    by (auto simp: h)
  then show ?case using l by (intro exI [of _ "l @ ls"]) (auto simp: learn_def h only_lessons_def)
qed (simp add: learn_def only_lessons_def)

definition sample_fill :: fill_v1 where
  "sample_fill = \<lparr>fv_agent = ''persona.wood'', fv_advice_id = ''A1'', fv_exit_reason = ''stop'', fv_pnl_r = -1, fv_narrative = ''''\<rparr>"

theorem feedback_only_appends_lessons_witness:
  "length (entries_of (learn (persona_with ''wood'' [] ''d'' None) [(\<lambda>_. Inr ''Patience.'', ''L1'', ''2026-01-01'', sample_fill)] []) ''wood'') = 1"
proof -
  let ?s = "persona_with ''wood'' [] ''d'' None" and ?h = "[(\<lambda>_ :: fill_v1. Inr ''Patience.'' :: string + string, ''L1'', ''2026-01-01'', sample_fill)]"
  have 1: "only_lessons {''L1''} (entries_of [] (pn_slug ?s))" by (simp add: only_lessons_def entries_of_def)
  have 2: "list_all (\<lambda>(answer, new_id, now_iso, fill). new_id \<in> {''L1''} \<and> fv_advice_id fill \<notin> {''L1''}) ?h"
    by (simp add: sample_fill_def)
  have "ends_with ''wood'' ''persona.wood''" by code_simp
  then show ?thesis
    using feedback_only_appends_lessons [OF 1 2] by (auto simp: persona_with_def sample_fill_def entries_of_def)
qed

end
