(* ===== verification/FeatureFlags.thy ===== *)
theory FeatureFlags
  imports Json "HOL-Library.AList" "HOL-Library.List_Lexorder" "HOL-Library.Char_ord"
begin

text \<open>
  The feature flags (\<^verbatim>\<open>packages/featureflags/featureflags/\<close>): the registry, the overrides of tests and the cached flags
  file (\<^verbatim>\<open>core.py\<close>), the flags the repository declares (\<^verbatim>\<open>registry.py\<close>) and the search for the checkout
  (\<^verbatim>\<open>paths.py\<close>). The file system and YAML are what a read of the file sees.
\<close>

section \<open>State\<close>

record flag_spec =
  sp_name :: string
  sp_description :: string
  sp_added_in :: string
  sp_default :: json
  sp_owner :: string

record flag_state =
  fs_registry :: "(string, flag_spec) dict"
  fs_overrides :: "(string, json) dict"
  fs_mtime :: rat
  fs_values :: "(string, json) dict"

definition flag_state0 :: flag_state where
  "flag_state0 = \<lparr>fs_registry = [], fs_overrides = [], fs_mtime = -1, fs_values = []\<rparr>"

text \<open>What a call sees of the flags file: whether it exists, its mtime (\<open>None\<close>: \<open>stat\<close> raises OSError) and what reading gives.\<close>

datatype file_read = ReadRaised string | YamlError | Parsed json

record flags_file =
  ff_exists :: bool
  ff_mtime :: "rat option"
  ff_read :: file_read

text \<open>\<open>safe_load(...) or {}\<close>, a mapping or \<open>{}\<close>; the keys of a YAML mapping are given by their \<open>str\<close>.\<close>

definition mapping_of :: "json \<Rightarrow> (string, json) dict" where
  "mapping_of raw = (case raw of JObj d \<Rightarrow> d | _ \<Rightarrow> [])"

definition read_yaml :: "flags_file \<Rightarrow> flag_state \<Rightarrow> (string + (string, json) dict) \<times> flag_state" where
  "read_yaml f st =
     (if \<not> ff_exists f then (Inr [], st)
      else case ff_mtime f of
             None \<Rightarrow> (Inr (fs_values st), st)
           | Some m \<Rightarrow>
               if m \<noteq> fs_mtime st
               then (case ff_read f of
                       ReadRaised e \<Rightarrow> (Inl e, st)
                     | YamlError \<Rightarrow> (Inr (fs_values st), st)
                     | Parsed raw \<Rightarrow> (Inr (mapping_of raw), st\<lparr>fs_mtime := m, fs_values := mapping_of raw\<rparr>))
               else (Inr (fs_values st), st))"

definition register :: "flag_spec \<Rightarrow> flag_state \<Rightarrow> flag_state" where
  "register spec st = st\<lparr>fs_registry := AList.update (sp_name spec) spec (fs_registry st)\<rparr>"

definition resolve :: "flags_file \<Rightarrow> string \<Rightarrow> flag_state \<Rightarrow> (string + json) \<times> flag_state" where
  "resolve f name st =
     (case map_of (fs_overrides st) name of
        Some v \<Rightarrow> (Inr v, st)
      | None \<Rightarrow>
          (case read_yaml f st of
             (Inl e, st') \<Rightarrow> (Inl e, st')
           | (Inr values, st') \<Rightarrow>
               (Inr (case map_of values name of
                       Some v \<Rightarrow> v
                     | None \<Rightarrow> (case map_of (fs_registry st') name of None \<Rightarrow> JNull | Some spec \<Rightarrow> sp_default spec)), st')))"

definition flag :: "flags_file \<Rightarrow> string \<Rightarrow> flag_state \<Rightarrow> (string + bool) \<times> flag_state" where
  "flag f name st =
     (if map_of (fs_registry st) name = None then (Inr False, st)
      else case resolve f name st of (Inl e, st') \<Rightarrow> (Inl e, st') | (Inr v, st') \<Rightarrow> (Inr (truthy v), st'))"

definition flag_value :: "flags_file \<Rightarrow> string \<Rightarrow> json \<Rightarrow> flag_state \<Rightarrow> (string + json) \<times> flag_state" where
  "flag_value f name dflt st =
     (case resolve f name st of
        (Inl e, st') \<Rightarrow> (Inl e, st')
      | (Inr v, st') \<Rightarrow> (Inr (if v = JNull then dflt else v), st'))"

definition set_for_test :: "string \<Rightarrow> json \<Rightarrow> flag_state \<Rightarrow> flag_state" where
  "set_for_test name v st = st\<lparr>fs_overrides := AList.update name v (fs_overrides st)\<rparr>"

definition reset_for_test :: "flag_state \<Rightarrow> flag_state" where
  "reset_for_test st = st\<lparr>fs_overrides := []\<rparr>"

fun list_loop :: "flags_file \<Rightarrow> flag_spec list \<Rightarrow> flag_state \<Rightarrow> (string + (flag_spec \<times> json) list) \<times> flag_state" where
  "list_loop f [] st = (Inr [], st)"
| "list_loop f (s # ss) st =
     (case resolve f (sp_name s) st of
        (Inl e, st') \<Rightarrow> (Inl e, st')
      | (Inr v, st') \<Rightarrow>
          (case list_loop f ss st' of (Inl e, st'') \<Rightarrow> (Inl e, st'') | (Inr rows, st'') \<Rightarrow> (Inr ((s, v) # rows), st'')))"

definition list_flags :: "flags_file \<Rightarrow> flag_state \<Rightarrow> (string + (flag_spec \<times> json) list) \<times> flag_state" where
  "list_flags f st = list_loop f (sort_key sp_name (map snd (fs_registry st))) st"

section \<open>The declared flags\<close>

definition spec_of :: "string \<Rightarrow> string \<Rightarrow> string \<Rightarrow> json \<Rightarrow> string \<Rightarrow> flag_spec" where
  "spec_of name description added_in dflt owner =
     \<lparr>sp_name = name, sp_description = description, sp_added_in = added_in, sp_default = dflt, sp_owner = owner\<rparr>"

definition DECLARED :: "flag_spec list" where
  "DECLARED =
     [spec_of ''iic.featureflags.bootstrap'' ''Synthetic flag flipped by the T0.1 acceptance test.'' ''v2.5-T0.1'' (JBool False) ''platform'',
      spec_of ''persona.live_mark.enabled'' ''Use live mark from data_lake.quotes.get_mark in persona advice.'' ''v2.5-T1.1'' (JBool True) ''persona'',
      spec_of ''notifier.durable_redelivery.enabled'' ''Push NotifyExhausted onto Redis retry queue with severity-based TTL.'' ''v2.5-T1.4'' (JBool False) ''notifier'',
      spec_of ''orchestrator.agent_breaker.enabled'' ''Open circuit after 5 consecutive failures; half-open every 60 s.'' ''v2.5-T1.6'' (JBool True) ''orchestrator'',
      spec_of ''orchestrator.use_nats_for_agent_calls'' ''Route agent fan-out via NATS request-reply instead of HTTP.'' ''v2.5-T2.0'' (JBool False) ''orchestrator'',
      spec_of ''trading_room.event_triage.enabled'' ''Enable the Event-Triage Gate to fan out to analysis teams.'' ''v2.5-T2.1'' (JBool False) ''trading_room'',
      spec_of ''trading_room.investment_board.enabled'' (''Run Bull/Bear '' @ [CHR 0x8D] @ '' 3-way Risk '' @ [CHR 0x8D] @ '' Chair on every high-impact event.'')
        ''v2.5-T2.4'' (JBool False) ''board'',
      spec_of ''agent_futu.enabled'' ''Enable agent_futu container; read-only across N OpenD instances.'' ''v2.5-T2.7'' (JBool False) ''agent_futu'',
      spec_of ''cost_breaker.enabled'' (''When true, LlmRouter.chat_or_skip gates calls on cost cap and falls back ''
        @ ''to a synthetic-skip response. Default off so production runs hit real '' @ ''providers and surface real failures.'')
        ''v2.6-P0'' (JBool False) ''platform'',
      spec_of ''llm.concurrency.default'' (''Max in-flight LlmRouter calls per caller_id. Prevents a runaway ''
        @ ''agent from saturating provider rate-limit slots and starving '' @ ''neighbours. Override per-caller via `llm.concurrency.<caller_id>`.'')
        ''v2.6-P0'' (JNum 4) ''platform'']"

definition import_registry :: "flag_state \<Rightarrow> flag_state" where
  "import_registry st = fold register DECLARED st"

section \<open>The checkout\<close>

text \<open>
  \<open>getenv\<close> reads the environment, \<open>resolved\<close> is \<open>Path.resolve\<close>, \<open>parents\<close> the module's file and its parents,
  \<open>marked\<close> that a directory holds \<^verbatim>\<open>pyproject.toml\<close> and \<^verbatim>\<open>packages/\<close>; \<open>repo_root\<close> caches its first answer.
\<close>

definition repo_root ::
  "(string \<Rightarrow> string) \<Rightarrow> (string \<Rightarrow> string) \<Rightarrow> string list \<Rightarrow> (string \<Rightarrow> bool) \<Rightarrow> string option \<Rightarrow> string \<times> string option" where
  "repo_root getenv resolved parents marked cache =
     (case cache of
        Some p \<Rightarrow> (p, cache)
      | None \<Rightarrow>
          (let p = (if getenv ''IIC_REPO_ROOT'' \<noteq> [] then resolved (getenv ''IIC_REPO_ROOT'')
                    else case List.find marked parents of Some d \<Rightarrow> d | None \<Rightarrow> ''/app'') in (p, Some p)))"

definition persona_dir ::
  "(string \<Rightarrow> string) \<Rightarrow> (string \<Rightarrow> string) \<Rightarrow> string list \<Rightarrow> (string \<Rightarrow> bool) \<Rightarrow> string option \<Rightarrow> string \<times> string option" where
  "persona_dir getenv resolved parents marked cache =
     (if getenv ''IIC_PERSONA_DIR'' \<noteq> [] then (resolved (getenv ''IIC_PERSONA_DIR''), cache)
      else case repo_root getenv resolved parents marked cache of (p, cache') \<Rightarrow> (p @ ''/docs/prompts/persona'', cache'))"

section \<open>Flags follow the last good file\<close>

definition reads :: "flags_file list \<Rightarrow> flag_state \<Rightarrow> flag_state" where
  "reads fs st = fold (\<lambda>f st. snd (read_yaml f st)) fs st"

text \<open>A good view of the file can be read and parsed; \<open>last_good\<close> is the mapping of the last one.\<close>

definition good_mapping :: "flags_file \<Rightarrow> (string, json) dict option" where
  "good_mapping f =
     (if ff_exists f \<and> ff_mtime f \<noteq> None then (case ff_read f of Parsed raw \<Rightarrow> Some (mapping_of raw) | _ \<Rightarrow> None) else None)"

definition last_good :: "flags_file list \<Rightarrow> (string, json) dict" where
  "last_good fs = (case rev (List.map_filter good_mapping fs) of [] \<Rightarrow> [] | d # _ \<Rightarrow> d)"

text \<open>The mtime determines the mapping of the file, and is never the \<open>-1\<close> of the empty cache.\<close>

definition mtime_tells :: "(rat \<Rightarrow> (string, json) dict) \<Rightarrow> flags_file \<Rightarrow> bool" where
  "mtime_tells content f =
     (case (ff_mtime f, good_mapping f) of (Some m, Some d) \<Rightarrow> d = content m \<and> m \<noteq> -1 | _ \<Rightarrow> True)"

definition coherent :: "(rat \<Rightarrow> (string, json) dict) \<Rightarrow> flag_state \<Rightarrow> bool" where
  "coherent content st \<longleftrightarrow> fs_mtime st = -1 \<or> fs_values st = content (fs_mtime st)"

lemma last_good_snoc: "last_good (fs @ [f]) = (case good_mapping f of Some d \<Rightarrow> d | None \<Rightarrow> last_good fs)"
  unfolding last_good_def List.map_filter_def
  by (cases "good_mapping f") simp_all

lemma read_yaml_step:
  assumes "mtime_tells content f" and "coherent content st"
  shows "fs_values (snd (read_yaml f st)) = (case good_mapping f of Some d \<Rightarrow> d | None \<Rightarrow> fs_values st)"
    and "coherent content (snd (read_yaml f st))"
    and "fs_registry (snd (read_yaml f st)) = fs_registry st" and "fs_overrides (snd (read_yaml f st)) = fs_overrides st"
  using assms
  by (auto simp: read_yaml_def coherent_def mtime_tells_def good_mapping_def split: option.splits file_read.splits if_splits)

lemma read_yaml_answer:
  assumes "mtime_tells content f" and "coherent content st" and "\<nexists>e. ff_read f = ReadRaised e"
  shows "fst (read_yaml f st) = Inr (if ff_exists f then fs_values (snd (read_yaml f st)) else [])"
  using assms by (auto simp: read_yaml_def split: option.splits file_read.splits)

lemma reads_snoc: "reads (fs @ [f]) st = snd (read_yaml f (reads fs st))"
  by (simp add: reads_def)

lemma reads_values:
  assumes "list_all (mtime_tells content) fs" and "coherent content st" and "fs_values st = []"
  shows "fs_values (reads fs st) = last_good fs \<and> coherent content (reads fs st)
    \<and> fs_registry (reads fs st) = fs_registry st \<and> fs_overrides (reads fs st) = fs_overrides st"
  using assms(1)
proof (induction fs rule: rev_induct)
  case Nil
  then show ?case using assms(2,3) by (simp add: reads_def last_good_def List.map_filter_simps)
next
  case (snoc f fs)
  then have IH: "fs_values (reads fs st) = last_good fs" "coherent content (reads fs st)"
    "fs_registry (reads fs st) = fs_registry st" "fs_overrides (reads fs st) = fs_overrides st" by simp_all
  have "mtime_tells content f" using snoc.prems by simp
  from read_yaml_step [OF this IH(2)] show ?case
    by (cases "good_mapping f") (simp_all add: reads_snoc IH last_good_snoc)
qed

lemma import_registry_state:
  "import_registry flag_state0 = \<lparr>fs_registry = map (\<lambda>s. (sp_name s, s)) DECLARED, fs_overrides = [], fs_mtime = -1, fs_values = []\<rparr>"
  by (simp add: import_registry_def register_def flag_state0_def DECLARED_def spec_of_def)

text \<open>
  C21: Whatever happened to the flags file before (missing, unreadable, broken YAML, rewritten), as long as its mtime
  tells its versions apart, a declared flag is what the last good version of the file says, or its default if that
  version does not name it or the file is gone; any other flag is off.
\<close>

theorem flags_follow_last_good_file:
  assumes "list_all (mtime_tells content) (fs @ [f])" and "\<nexists>e. ff_read f = ReadRaised e"
  shows "fst (flag f name (reads fs (import_registry flag_state0))) =
    Inr (case map_of (map (\<lambda>s. (sp_name s, s)) DECLARED) name of
           None \<Rightarrow> False
         | Some spec \<Rightarrow> truthy (case map_of (if ff_exists f then last_good (fs @ [f]) else []) name of
                                  Some v \<Rightarrow> v | None \<Rightarrow> sp_default spec))"
proof -
  let ?st = "reads fs (import_registry flag_state0)"
  have f: "mtime_tells content f" and fs: "list_all (mtime_tells content) fs" using assms(1) by simp_all
  have "coherent content (import_registry flag_state0)" "fs_values (import_registry flag_state0) = []"
    "fs_registry (import_registry flag_state0) = map (\<lambda>s. (sp_name s, s)) DECLARED"
    "fs_overrides (import_registry flag_state0) = []"
    unfolding import_registry_state coherent_def by simp_all
  note init = this
  have st: "fs_values ?st = last_good fs" "coherent content ?st" "fs_overrides ?st = []"
    "fs_registry ?st = map (\<lambda>s. (sp_name s, s)) DECLARED"
    using reads_values [OF fs init(1,2)] by (simp_all only: init)
  note step = read_yaml_step [OF f st(2)] and answer = read_yaml_answer [OF f st(2) assms(2)]
  obtain r st' where r: "read_yaml f ?st = (r, st')" by (rule prod.exhaust)
  have "fs_values st' = last_good (fs @ [f])" using step(1) by (simp only: r snd_conv st(1) last_good_snoc)
  then have answered: "read_yaml f ?st = (Inr (if ff_exists f then last_good (fs @ [f]) else []), st')"
    using answer unfolding r fst_conv snd_conv by (simp only:)
  have reg: "fs_registry st' = map (\<lambda>s. (sp_name s, s)) DECLARED" using step(3) by (simp only: r snd_conv st(4))
  show ?thesis
  proof (cases "map_of (map (\<lambda>s. (sp_name s, s)) DECLARED) name")
    case None
    then show ?thesis unfolding flag_def st(4) by simp
  next
    case (Some spec)
    then show ?thesis
      unfolding flag_def resolve_def st(3,4) answered map_of.simps option.case prod.case reg Some sum.case by simp
  qed
qed

definition good_file :: "rat \<Rightarrow> json \<Rightarrow> flags_file" where
  "good_file m raw = \<lparr>ff_exists = True, ff_mtime = Some m, ff_read = Parsed raw\<rparr>"

definition broken_file :: "rat \<Rightarrow> flags_file" where
  "broken_file m = \<lparr>ff_exists = True, ff_mtime = Some m, ff_read = YamlError\<rparr>"

theorem flags_follow_last_good_file_witness:
  "fst (flag (broken_file 2) ''agent_futu.enabled''
     (reads [good_file 1 (JObj [(''agent_futu.enabled'', JBool True)])] (import_registry flag_state0))) = Inr True"
proof -
  let ?fs = "[good_file 1 (JObj [(''agent_futu.enabled'', JBool True)])]"
  have 1: "list_all (mtime_tells (\<lambda>_. [(''agent_futu.enabled'', JBool True)])) (?fs @ [broken_file 2])"
    by (simp add: mtime_tells_def good_mapping_def good_file_def broken_file_def mapping_of_def)
  have 2: "\<nexists>e. ff_read (broken_file 2) = ReadRaised e" by (simp add: broken_file_def)
  have "last_good (?fs @ [broken_file 2]) = [(''agent_futu.enabled'', JBool True)]"
    by (simp add: last_good_def good_mapping_def good_file_def broken_file_def mapping_of_def List.map_filter_simps)
  moreover have "map_of (map (\<lambda>s. (sp_name s, s)) DECLARED) ''agent_futu.enabled''
      = Some (spec_of ''agent_futu.enabled'' ''Enable agent_futu container; read-only across N OpenD instances.'' ''v2.5-T2.7'' (JBool False) ''agent_futu'')"
    by (simp add: DECLARED_def spec_of_def)
  ultimately show ?thesis
    using flags_follow_last_good_file [OF 1 2, of "''agent_futu.enabled''"] by (simp add: broken_file_def)
qed

text \<open>
  Without a flags file, on a fresh process, the flags that are on are the live mark, the agents' breaker and the
  concurrency cap, whatever the name asked for.
\<close>

theorem flags_on_by_default:
  "fst (flag \<lparr>ff_exists = False, ff_mtime = mt, ff_read = rd\<rparr> name (import_registry flag_state0))
     = Inr (name \<in> {''persona.live_mark.enabled'', ''orchestrator.agent_breaker.enabled'', ''llm.concurrency.default''})"
  unfolding import_registry_state
  by (simp add: flag_def resolve_def read_yaml_def DECLARED_def spec_of_def)

text \<open>The checkout is found once: later changes of the environment do not move it.\<close>

lemma repo_root_cached:
  "repo_root getenv resolved parents marked None = (p, c) \<Longrightarrow> repo_root getenv' resolved' parents' marked' c = (p, c)"
  by (auto simp: repo_root_def Let_def)

end
