(* ===== verification/Pit.thy ===== *)
theory Pit
  imports PyStd "HOL-Library.AList" "HOL-Library.List_Lexorder" "HOL-Library.Char_ord"
begin

text \<open>
  Point-in-time correctness of the data lake (\<^verbatim>\<open>packages/data-lake/data_lake/pit.py\<close>): the check of a query's parsed
  tree, the check and the stamping of an ingested record, and the historical universe. sqlglot's parser is a
  parameter that gives the tree, of which a node has its class, its name and its children.
\<close>

section \<open>Queries\<close>

datatype sql_node = SqlNode (nd_class: string) (nd_name: string) (nd_children: "sql_node list")

definition PIT_TABLES :: "string list" where
  "PIT_TABLES = [''timeseries'', ''doc_chunks'']"

definition comparisons :: "string list" where
  "comparisons = [''LT'', ''LTE'', ''GT'', ''GTE'', ''EQ'', ''Between'']"

text \<open>\<open>find_all\<close>: the nodes of a subtree, itself included, each with the classes of its ancestors, the nearest first.\<close>

fun walk :: "string list \<Rightarrow> sql_node \<Rightarrow> (sql_node \<times> string list) list" where
  "walk ancestors (SqlNode cls name children) =
     (SqlNode cls name children, ancestors) # concat (map (walk (cls # ancestors)) children)"

definition find_all :: "string list \<Rightarrow> sql_node \<times> string list \<Rightarrow> (sql_node \<times> string list) list" where
  "find_all classes n = filter (\<lambda>m. nd_class (fst m) \<in> set classes) (walk (snd n) (fst n))"

definition references_table :: "sql_node \<Rightarrow> string list \<Rightarrow> bool" where
  "references_table parsed table_names =
     list_ex (\<lambda>tbl. lower (nd_name (fst tbl)) \<in> lower ` set table_names) (find_all [''Table''] (parsed, []))"

text \<open>The climb from the column's parent to the first comparison, up to the root of the query.\<close>

fun climb :: "string list \<Rightarrow> string option" where
  "climb [] = None"
| "climb (cls # rest) = (if cls \<in> set comparisons then Some cls else climb rest)"

definition has_as_of_filter :: "sql_node \<Rightarrow> bool" where
  "has_as_of_filter parsed =
     list_ex (\<lambda>cond. list_ex (\<lambda>col. lower (nd_name (fst col)) = ''as_of'' \<and> climb (snd col) \<noteq> None) (find_all [''Column''] cond))
       (find_all [''Where'', ''Join''] (parsed, []))"

datatype pit_error = PITViolation string | ParseRaised string

definition assert_pit_safe :: "(string \<Rightarrow> string + sql_node) \<Rightarrow> string \<Rightarrow> pit_error + unit" where
  "assert_pit_safe parse_one sql =
     (case parse_one sql of
        Inl e \<Rightarrow> Inl (ParseRaised e)
      | Inr parsed \<Rightarrow>
          if \<not> references_table parsed PIT_TABLES then Inr ()
          else if \<not> has_as_of_filter parsed then Inl (PITViolation ''query touches a PIT table but does not constrain `as_of`.'')
          else Inr ())"

section \<open>Ingest\<close>

text \<open>A value of a record: an instant (without a zone it is read as UTC), a text, None or another type.\<close>

datatype ingest_value = VNone | VInstant seconds | VText string | VOther string

definition coerce_dt :: "(string \<Rightarrow> seconds option) \<Rightarrow> ingest_value \<Rightarrow> string \<Rightarrow> string \<Rightarrow> pit_error + seconds" where
  "coerce_dt fromiso v fld source =
     (case v of
        VInstant t \<Rightarrow> Inr t
      | VText s \<Rightarrow> (case fromiso s of Some t \<Rightarrow> Inr t | None \<Rightarrow> Inl (PITViolation (source @ ''.'' @ fld @ '' not iso8601'')))
      | VOther cls \<Rightarrow> Inl (PITViolation (source @ ''.'' @ fld @ '' must be datetime or iso8601 string, got '' @ cls))
      | VNone \<Rightarrow> Inl (PITViolation (source @ ''.'' @ fld @ '' must be datetime or iso8601 string, got NoneType'')))"

definition INGEST_REQUIRED_FIELDS :: "string list" where
  "INGEST_REQUIRED_FIELDS = [''as_of_ts'', ''ingested_at_ts'']"

definition INGEST_PATHS :: "string list" where
  "INGEST_PATHS = [''intel.events'', ''fundamental.filings'', ''quant.timeseries'', ''persona.memory'', ''futu_audit'', ''plan_scorecard'']"

definition rget :: "(string, ingest_value) dict \<Rightarrow> string \<Rightarrow> ingest_value" where
  "rget record f = (case map_of record f of None \<Rightarrow> VNone | Some v \<Rightarrow> v)"

definition assert_ingest_pit_safe ::
  "(string \<Rightarrow> seconds option) \<Rightarrow> seconds \<Rightarrow> (string, ingest_value) dict \<Rightarrow> string \<Rightarrow> pit_error + unit" where
  "assert_ingest_pit_safe fromiso now record source =
     (let missing = filter (\<lambda>f. rget record f = VNone) INGEST_REQUIRED_FIELDS in
      if missing \<noteq> [] then Inl (PITViolation (''ingest path '' @ source @ '' missing PIT timestamps''))
      else res_bind (coerce_dt fromiso (rget record ''as_of_ts'') ''as_of_ts'' source) (\<lambda>as_of.
           res_bind (coerce_dt fromiso (rget record ''ingested_at_ts'') ''ingested_at_ts'' source) (\<lambda>ingested.
           if as_of > ingested then Inl (PITViolation (''ingest path '' @ source @ '': backwards''))
           else if ingested > now then Inl (PITViolation (''ingest path '' @ source @ '': clock skew or future-data injection''))
           else Inr ())))"

definition stamp_ingest :: "seconds \<Rightarrow> (string, ingest_value) dict \<Rightarrow> seconds \<Rightarrow> (string, ingest_value) dict" where
  "stamp_ingest now payload as_of_ts =
     AList.update ''ingested_at_ts'' (VInstant now) (AList.update ''as_of_ts'' (VInstant as_of_ts) payload)"

section \<open>The historical universe\<close>

record membership =
  um_index :: string
  um_ticker :: string
  um_in_from :: int
  um_in_to :: "int option"

definition member_on :: "string \<Rightarrow> int \<Rightarrow> membership \<Rightarrow> bool" where
  "member_on idx asof m \<longleftrightarrow> um_index m = idx \<and> um_in_from m \<le> asof \<and> (case um_in_to m of None \<Rightarrow> True | Some t \<Rightarrow> t > asof)"

definition historical_universe :: "membership list \<Rightarrow> string \<Rightarrow> int \<Rightarrow> string list" where
  "historical_universe rows idx asof = sort (map um_ticker (filter (member_on idx asof) rows))"

section \<open>The query check does not see the direction of the comparison\<close>

text \<open>A tree with the classes of its comparisons renamed.\<close>

fun rename_classes :: "(string \<Rightarrow> string) \<Rightarrow> sql_node \<Rightarrow> sql_node" where
  "rename_classes h (SqlNode cls name children) = SqlNode (h cls) name (map (rename_classes h) children)"

definition swaps_comparisons :: "(string \<Rightarrow> string) \<Rightarrow> bool" where
  "swaps_comparisons h \<longleftrightarrow> (\<forall>c. (c \<in> set comparisons \<longrightarrow> h c \<in> set comparisons) \<and> (c \<notin> set comparisons \<longrightarrow> h c = c))"

lemma swap_class: "swaps_comparisons h \<Longrightarrow> set cs \<inter> set comparisons = {} \<Longrightarrow> h c \<in> set cs \<longleftrightarrow> c \<in> set cs"
  unfolding swaps_comparisons_def by (metis disjoint_iff)

lemma swap_comparison: "swaps_comparisons h \<Longrightarrow> h c \<in> set comparisons \<longleftrightarrow> c \<in> set comparisons"
  unfolding swaps_comparisons_def by metis

lemma nd_rename [simp]: "nd_class (rename_classes h n) = h (nd_class n)" "nd_name (rename_classes h n) = nd_name n"
  by (cases n; simp)+

lemma walk_rename:
  "walk (map h anc) (rename_classes h n) = map (\<lambda>(m, a). (rename_classes h m, map h a)) (walk anc n)"
proof (induction anc n rule: walk.induct)
  case (1 anc cls name children)
  then show ?case by (simp add: map_concat comp_def cong: map_cong)
qed

lemma find_all_rename:
  assumes "swaps_comparisons h" and "set cs \<inter> set comparisons = {}"
  shows "find_all cs (rename_classes h n, map h a) = map (\<lambda>(m, a). (rename_classes h m, map h a)) (find_all cs (n, a))"
  by (simp add: find_all_def walk_rename filter_map comp_def case_prod_unfold swap_class [OF assms])

lemma climb_rename: "swaps_comparisons h \<Longrightarrow> climb (map h a) = None \<longleftrightarrow> climb a = None"
  by (induction a) (simp_all add: swap_comparison)

lemma classes_apart: "set [''Table''] \<inter> set comparisons = {}" "set [''Column''] \<inter> set comparisons = {}"
  "set [''Where'', ''Join''] \<inter> set comparisons = {}"
  by (simp_all add: comparisons_def)

text \<open>
  Exchanging the comparisons of a query, \<open>as_of <= t\<close> for \<open>as_of >= t\<close> say, never changes the verdict: a query that
  reads only rows from after the date passes the check as well as one that reads only rows from before it.
\<close>

theorem pit_check_ignores_direction:
  assumes "swaps_comparisons h"
  shows "assert_pit_safe (\<lambda>s. map_sum id (rename_classes h) (parse_one s)) sql = assert_pit_safe parse_one sql"
proof (cases "parse_one sql")
  case (Inr n)
  have "references_table (rename_classes h n) PIT_TABLES = references_table n PIT_TABLES"
    using find_all_rename [OF assms classes_apart(1), of n "[]"]
    by (simp add: references_table_def list_ex_iff case_prod_unfold)
  moreover have "has_as_of_filter (rename_classes h n) = has_as_of_filter n"
    using find_all_rename [OF assms classes_apart(3), of n "[]"] find_all_rename [OF assms classes_apart(2)]
    by (simp add: has_as_of_filter_def list_ex_iff case_prod_unfold climb_rename [OF assms] del: not_None_eq)
  ultimately show ?thesis by (simp add: assert_pit_safe_def Inr)
qed (simp add: assert_pit_safe_def)

definition turn_around :: "string \<Rightarrow> string" where
  "turn_around c = (if c = ''LTE'' then ''GTE'' else if c = ''GTE'' then ''LTE'' else c)"

definition backtest_query :: sql_node where
  "backtest_query =
     SqlNode ''Select'' ''''
       [SqlNode ''From'' '''' [SqlNode ''Table'' ''timeseries'' []],
        SqlNode ''Where'' '''' [SqlNode ''LTE'' '''' [SqlNode ''Column'' ''as_of'' [], SqlNode ''Literal'' ''2024-06-01'' []]]]"

theorem pit_check_ignores_direction_witness:
  "assert_pit_safe (\<lambda>s. Inr (rename_classes turn_around backtest_query)) ''SELECT'' = Inr ()"
proof -
  have "swaps_comparisons turn_around" by (auto simp: swaps_comparisons_def turn_around_def comparisons_def)
  from pit_check_ignores_direction [OF this, of "\<lambda>_. Inr backtest_query" "''SELECT''"]
  have "assert_pit_safe (\<lambda>s. Inr (rename_classes turn_around backtest_query)) ''SELECT''
      = assert_pit_safe (\<lambda>_. Inr backtest_query) ''SELECT''" by simp
  also have "\<dots> = Inr ()" by code_simp
  finally show ?thesis .
qed

section \<open>Stamped records are safe\<close>

text \<open>
  A record stamped at one time passes the ingest check at another one exactly if it became known before it was
  stamped and the clock has not gone back since, whatever the payload said before.
\<close>

theorem stamped_record_safe_iff:
  "assert_ingest_pit_safe fromiso now (stamp_ingest stamped payload known) source = Inr ()
     \<longleftrightarrow> known \<le> stamped \<and> stamped \<le> now"
  by (auto simp: assert_ingest_pit_safe_def stamp_ingest_def INGEST_REQUIRED_FIELDS_def rget_def update_conv coerce_dt_def
      Let_def)

end
