(* ===== verification/QuantSignal.thy ===== *)
theory QuantSignal
  imports Schema "HOL-Library.AList" "HOL-Library.Multiset" "HOL-Library.List_Lexorder" "HOL-Library.Char_ord"
begin

text \<open>
  The quant agent's selection (\<^verbatim>\<open>apps/agent_quant/quant/\<close>): the domain types (\<^verbatim>\<open>types.py\<close>), the regime detector
  (\<^verbatim>\<open>regime.py\<close>), the combination of the factors to candidates (\<^verbatim>\<open>signal.py\<close>) and the risk shaping (\<^verbatim>\<open>risk.py\<close>).
  Numbers are rationals; the parameter \<open>flt\<close> is the float next to a real, used where a root or a power leaves them.
\<close>

section \<open>Types\<close>

record bar =
  br_ticker :: string
  br_asof :: seconds
  br_open :: rat
  br_high :: rat
  br_low :: rat
  br_close :: rat
  br_volume :: rat

record factor_row =
  fr_asof :: seconds
  fr_ticker :: string
  fr_factor_id :: string
  fr_value :: rat
  fr_rank :: rat

record candidate =
  cd_ticker :: string
  cd_venue :: string
  cd_region :: string
  cd_sector :: string
  cd_direction :: direction
  cd_combined_z :: rat
  cd_contributing :: "string list"
  cd_realized_vol_60d :: rat
  cd_median_dollar_volume_5d :: rat
  cd_last_close :: rat

datatype regime = RiskOn | RiskOff | RateCut | Stagflation | Recession | Crisis | UnknownRegime

section \<open>The regime\<close>

record regime_inputs =
  ri_vix_ema_20d :: "rat option"
  ri_breadth_pct :: "rat option"
  ri_pairwise_corr :: "rat option"
  ri_yield_curve_bps :: "rat option"

text \<open>\<open>x is None or p x\<close>, \<open>x is not None and p x\<close>.\<close>

definition none_or :: "rat option \<Rightarrow> (rat \<Rightarrow> bool) \<Rightarrow> bool" where
  "none_or x p = (case x of None \<Rightarrow> True | Some v \<Rightarrow> p v)"

definition some_and :: "rat option \<Rightarrow> (rat \<Rightarrow> bool) \<Rightarrow> bool" where
  "some_and x p = (case x of None \<Rightarrow> False | Some v \<Rightarrow> p v)"

definition classify :: "regime_inputs \<Rightarrow> regime" where
  "classify i =
     (let breadth = ri_breadth_pct i; corr = ri_pairwise_corr i; curve = ri_yield_curve_bps i in
      case ri_vix_ema_20d i of
        None \<Rightarrow> UnknownRegime
      | Some vix \<Rightarrow>
          if vix > 35 \<and> none_or corr (\<lambda>c. c > 0.6) then Crisis
          else if vix > 25 \<and> none_or breadth (\<lambda>b. b < 0.45) then RiskOff
          else if some_and curve (\<lambda>c. c < -30) \<and> none_or breadth (\<lambda>b. b < 0.5) then Recession
          else if vix > 22 \<and> some_and curve (\<lambda>c. c < 0) then Stagflation
          else if vix < 18 \<and> some_and curve (\<lambda>c. c < 10) then RateCut
          else if vix < 20 \<and> none_or breadth (\<lambda>b. b > 0.55) then RiskOn
          else UnknownRegime)"

section \<open>The combination\<close>

fun regime_weights :: "regime \<Rightarrow> (string, rat) dict" where
  "regime_weights RiskOn =
     [(''momentum'', 0.3), (''mean_reversion'', 0.1), (''vol_risk_premium'', 0.15), (''pead'', 0.1), (''insider'', 0.05),
      (''sector_rs'', 0.2), (''crypto_basis'', 0.05), (''fx_carry'', 0.05)]"
| "regime_weights RiskOff =
     [(''momentum'', 0.1), (''mean_reversion'', 0.2), (''vol_risk_premium'', 0.3), (''pead'', 0.05), (''insider'', 0.1),
      (''sector_rs'', 0.15), (''crypto_basis'', 0), (''fx_carry'', 0.1)]"
| "regime_weights RateCut =
     [(''momentum'', 0.25), (''mean_reversion'', 0.15), (''vol_risk_premium'', 0.1), (''pead'', 0.1), (''insider'', 0.05),
      (''sector_rs'', 0.2), (''crypto_basis'', 0.05), (''fx_carry'', 0.1)]"
| "regime_weights Stagflation =
     [(''momentum'', 0.05), (''mean_reversion'', 0.1), (''vol_risk_premium'', 0.2), (''pead'', 0.05), (''insider'', 0.1),
      (''sector_rs'', 0.1), (''crypto_basis'', 0), (''fx_carry'', 0.4)]"
| "regime_weights Recession =
     [(''momentum'', 0.05), (''mean_reversion'', 0.3), (''vol_risk_premium'', 0.3), (''pead'', 0.1), (''insider'', 0.1),
      (''sector_rs'', 0.1), (''crypto_basis'', 0), (''fx_carry'', 0.05)]"
| "regime_weights Crisis =
     [(''momentum'', 0.05), (''mean_reversion'', 0.2), (''vol_risk_premium'', 0.4), (''pead'', 0.05), (''insider'', 0.05),
      (''sector_rs'', 0.05), (''crypto_basis'', 0), (''fx_carry'', 0.2)]"
| "regime_weights UnknownRegime =
     [(''momentum'', 0.2), (''mean_reversion'', 0.15), (''vol_risk_premium'', 0.15), (''pead'', 0.1), (''insider'', 0.1),
      (''sector_rs'', 0.15), (''crypto_basis'', 0.05), (''fx_carry'', 0.1)]"

definition dget_or :: "('k, 'v) dict \<Rightarrow> 'k \<Rightarrow> 'v \<Rightarrow> 'v" where
  "dget_or d k dflt = (case map_of d k of None \<Rightarrow> dflt | Some v \<Rightarrow> v)"

definition by_factor :: "factor_row list \<Rightarrow> (string, (string, rat) dict) dict" where
  "by_factor rows =
     fold (\<lambda>r d. AList.update (fr_factor_id r) (AList.update (fr_ticker r) (fr_value r) (dget_or d (fr_factor_id r) [])) d) rows []"

text \<open>\<open>statistics.fmean\<close> and \<open>pstdev\<close>.\<close>

definition rat_mean :: "rat list \<Rightarrow> rat" where
  "rat_mean xs = sum_list xs / of_nat (length xs)"

definition rat_pstdev :: "(real \<Rightarrow> rat) \<Rightarrow> rat list \<Rightarrow> rat" where
  "rat_pstdev flt xs = flt (sqrt (of_rat (rat_mean (map (\<lambda>x. (x - rat_mean xs) * (x - rat_mean xs)) xs))))"

definition sigma_of :: "(real \<Rightarrow> rat) \<Rightarrow> rat list \<Rightarrow> rat" where
  "sigma_of flt xs = (let s = (if length xs > 1 then rat_pstdev flt xs else 1) in if s = 0 then 1 else s)"

definition z_scores :: "(real \<Rightarrow> rat) \<Rightarrow> (string, (string, rat) dict) dict \<Rightarrow> (string, (string, rat) dict) dict" where
  "z_scores flt grouped =
     map (\<lambda>(f, d). let xs = map snd d; mu = rat_mean xs; sigma = sigma_of flt xs in (f, map (\<lambda>(t, v). (t, (v - mu) / sigma)) d))
       (filter (\<lambda>(f, d). d \<noteq> []) grouped)"

text \<open>The scores and the contributors, ticker by ticker, factor by factor.\<close>

type_synonym tally = "(string, rat) dict \<times> (string, string list) dict"

fun tally_factor :: "rat \<Rightarrow> string \<Rightarrow> (string, rat) dict \<Rightarrow> tally \<Rightarrow> tally" where
  "tally_factor w f [] acc = acc"
| "tally_factor w f ((t, z) # d) (combined, contributors) =
     tally_factor w f d
       (AList.update t (dget_or combined t 0 + w * z) combined,
        if \<bar>w * z\<bar> > 0.05 then AList.update t (dget_or contributors t [] @ [f]) contributors else contributors)"

fun tally_all :: "(string, rat) dict \<Rightarrow> (string, (string, rat) dict) dict \<Rightarrow> tally \<Rightarrow> tally" where
  "tally_all weights [] acc = acc"
| "tally_all weights ((f, d) # zs) acc =
     (let w = dget_or weights f 0 in
      if w = 0 then tally_all weights zs acc else tally_all weights zs (tally_factor w f d acc))"

definition with_score :: "candidate \<Rightarrow> direction \<Rightarrow> rat \<Rightarrow> string list \<Rightarrow> candidate" where
  "with_score base d z contribs = base\<lparr>cd_direction := d, cd_combined_z := z, cd_contributing := contribs\<rparr>"

definition side ::
  "(string, candidate) dict \<Rightarrow> (string, string list) dict \<Rightarrow> direction \<Rightarrow> (string \<times> rat) list \<Rightarrow> candidate list" where
  "side meta contributors d chosen =
     List.map_filter (\<lambda>(t, z). map_option (\<lambda>m. with_score m d z (dget_or contributors t [])) (map_of meta t)) chosen"

definition ranked_scores :: "(real \<Rightarrow> rat) \<Rightarrow> factor_row list \<Rightarrow> regime \<Rightarrow> (string \<times> rat) list" where
  "ranked_scores flt rows rg =
     sort_key (\<lambda>kv. - snd kv) (fst (tally_all (regime_weights rg) (z_scores flt (by_factor rows)) ([], [])))"

text \<open>\<open>ranked[-n:]\<close> is the whole list for \<open>n = 0\<close>.\<close>

definition last_n :: "nat \<Rightarrow> 'a list \<Rightarrow> 'a list" where
  "last_n n xs = (if n = 0 then xs else drop (length xs - n) xs)"

definition combine ::
  "(real \<Rightarrow> rat) \<Rightarrow> factor_row list \<Rightarrow> regime \<Rightarrow> (string, candidate) dict \<Rightarrow> nat \<Rightarrow> candidate list" where
  "combine flt rows rg meta n_per_side =
     (let contributors = snd (tally_all (regime_weights rg) (z_scores flt (by_factor rows)) ([], []));
          ranked = ranked_scores flt rows rg in
      side meta contributors Long (take n_per_side ranked) @ side meta contributors Short (last_n n_per_side ranked))"

section \<open>Risk shaping\<close>

definition VOL_TARGET :: rat where "VOL_TARGET = 0.12"
definition PER_POSITION_MAX_PCT :: rat where "PER_POSITION_MAX_PCT = 5"
definition SECTOR_CAP_PCT :: rat where "SECTOR_CAP_PCT = 25"
definition REGION_CAP_PCT :: rat where "REGION_CAP_PCT = 50"
definition CORRELATION_CAP :: rat where "CORRELATION_CAP = 0.85"
definition LIQUIDITY_RATIO_MIN :: rat where "LIQUIDITY_RATIO_MIN = 10"

record sized_trade =
  sz_candidate :: candidate
  sz_weight_pct_nav :: rat
  sz_entry_band :: "rat \<times> rat"
  sz_target_band :: "rat \<times> rat"
  sz_stop_loss :: rat

definition vol_target_weight :: "candidate \<Rightarrow> rat" where
  "vol_target_weight c = (if cd_realized_vol_60d c \<le> 0 then 0 else (VOL_TARGET / cd_realized_vol_60d c) * 100 / 10)"

definition passes_liquidity :: "candidate \<Rightarrow> rat \<Rightarrow> rat \<Rightarrow> bool" where
  "passes_liquidity c nav weight_pct \<longleftrightarrow>
     (if cd_median_dollar_volume_5d c \<le> 0 then True
      else let trade_value = nav * (weight_pct / 100) in cd_median_dollar_volume_5d c \<ge> trade_value * LIQUIDITY_RATIO_MIN)"

definition corr_key :: "string \<Rightarrow> string \<Rightarrow> string \<times> string" where
  "corr_key s t = (if s \<le> t then (s, t) else (t, s))"

definition pair_corr :: "(string \<times> string, rat) dict \<Rightarrow> string \<Rightarrow> string \<Rightarrow> rat" where
  "pair_corr correlations s t = dget_or correlations (corr_key s t) 0"

definition passes_correlation :: "candidate \<Rightarrow> sized_trade list \<Rightarrow> (string \<times> string, rat) dict \<Rightarrow> bool" where
  "passes_correlation c accepted correlations \<longleftrightarrow>
     list_all (\<lambda>prior. \<not> \<bar>pair_corr correlations (cd_ticker c) (cd_ticker (sz_candidate prior))\<bar> > CORRELATION_CAP) accepted"

definition with_bands :: "candidate \<Rightarrow> rat \<Rightarrow> (string, rat) dict \<Rightarrow> sized_trade" where
  "with_bands c weight_pct atr_pct_by_ticker =
     (let atr_pct = dget_or atr_pct_by_ticker (cd_ticker c) 0.02; px = max (cd_last_close c) (1 / 1000000);
          entry = (px * (1 - 0.5 * atr_pct), px * (1 + 0.5 * atr_pct)) in
      if cd_direction c = Long
      then \<lparr>sz_candidate = c, sz_weight_pct_nav = weight_pct, sz_entry_band = entry,
            sz_target_band = (px * (1 + 1.5 * atr_pct), px * (1 + 2.5 * atr_pct)), sz_stop_loss = px * (1 - 1.2 * atr_pct)\<rparr>
      else \<lparr>sz_candidate = c, sz_weight_pct_nav = weight_pct, sz_entry_band = entry,
            sz_target_band = (px * (1 - 2.5 * atr_pct), px * (1 - 1.5 * atr_pct)), sz_stop_loss = px * (1 + 1.2 * atr_pct)\<rparr>)"

fun shape_loop ::
  "rat \<Rightarrow> (string \<times> string, rat) dict \<Rightarrow> (string, rat) dict \<Rightarrow> (string, rat) dict \<Rightarrow> (string, rat) dict \<Rightarrow> sized_trade list
     \<Rightarrow> candidate list \<Rightarrow> sized_trade list" where
  "shape_loop nav corrs atr sector_used region_used accepted [] = accepted"
| "shape_loop nav corrs atr sector_used region_used accepted (c # cs) =
     (let weight0 = vol_target_weight c in
      if weight0 \<le> 0 then shape_loop nav corrs atr sector_used region_used accepted cs
      else let weight = min weight0 PER_POSITION_MAX_PCT in
        if \<not> passes_liquidity c nav weight then shape_loop nav corrs atr sector_used region_used accepted cs
        else if \<not> passes_correlation c accepted corrs then shape_loop nav corrs atr sector_used region_used accepted cs
        else if dget_or sector_used (cd_sector c) 0 + weight > SECTOR_CAP_PCT then shape_loop nav corrs atr sector_used region_used accepted cs
        else if dget_or region_used (cd_region c) 0 + weight > REGION_CAP_PCT then shape_loop nav corrs atr sector_used region_used accepted cs
        else shape_loop nav corrs atr
               (AList.update (cd_sector c) (dget_or sector_used (cd_sector c) 0 + weight) sector_used)
               (AList.update (cd_region c) (dget_or region_used (cd_region c) 0 + weight) region_used)
               (accepted @ [with_bands c weight atr]) cs)"

definition shape ::
  "rat \<Rightarrow> (string \<times> string, rat) dict \<Rightarrow> (string, rat) dict \<Rightarrow> candidate list \<Rightarrow> sized_trade list" where
  "shape nav_usd correlations atr_pct_by_ticker candidates =
     shape_loop nav_usd correlations atr_pct_by_ticker [] [] [] (sort_key (\<lambda>c. - \<bar>cd_combined_z c\<bar>) candidates)"

section \<open>The shaped book respects every cap\<close>

definition weight_where :: "(candidate \<Rightarrow> bool) \<Rightarrow> sized_trade list \<Rightarrow> rat" where
  "weight_where p ts = sum_list (map sz_weight_pct_nav (filter (p \<circ> sz_candidate) ts))"

definition trade_ok :: "rat \<Rightarrow> sized_trade \<Rightarrow> bool" where
  "trade_ok nav t \<longleftrightarrow> 0 < sz_weight_pct_nav t \<and> sz_weight_pct_nav t \<le> PER_POSITION_MAX_PCT
     \<and> passes_liquidity (sz_candidate t) nav (sz_weight_pct_nav t)"

definition uncorrelated :: "(string \<times> string, rat) dict \<Rightarrow> sized_trade \<Rightarrow> sized_trade \<Rightarrow> bool" where
  "uncorrelated corrs p c \<longleftrightarrow> \<bar>pair_corr corrs (cd_ticker (sz_candidate c)) (cd_ticker (sz_candidate p))\<bar> \<le> CORRELATION_CAP"

definition book_inv ::
  "rat \<Rightarrow> (string \<times> string, rat) dict \<Rightarrow> (string, rat) dict \<Rightarrow> (string, rat) dict \<Rightarrow> sized_trade list \<Rightarrow> bool" where
  "book_inv nav corrs su ru ts \<longleftrightarrow> list_all (trade_ok nav) ts \<and> sorted_wrt (uncorrelated corrs) ts
     \<and> (\<forall>s. dget_or su s 0 = weight_where (\<lambda>c. cd_sector c = s) ts \<and> dget_or su s 0 \<le> SECTOR_CAP_PCT)
     \<and> (\<forall>r. dget_or ru r 0 = weight_where (\<lambda>c. cd_region c = r) ts \<and> dget_or ru r 0 \<le> REGION_CAP_PCT)"

lemma dget_or_update [simp]: "dget_or (AList.update k v d) k' dflt = (if k' = k then v else dget_or d k' dflt)"
  by (simp add: dget_or_def update_conv)

lemma weight_where_snoc:
  "weight_where p (ts @ [t]) = weight_where p ts + (if p (sz_candidate t) then sz_weight_pct_nav t else 0)"
  by (simp add: weight_where_def)

lemma with_bands_parts [simp]:
  "sz_candidate (with_bands c w atr) = c" "sz_weight_pct_nav (with_bands c w atr) = w"
  by (simp_all add: with_bands_def Let_def)

lemma cap_update:
  assumes used: "\<forall>s. dget_or u s 0 = weight_where (\<lambda>c. key c = s) ts \<and> dget_or u s 0 \<le> cap"
    and fits: "\<not> dget_or u (key c) 0 + w > cap"
  shows "\<forall>s. dget_or (AList.update (key c) (dget_or u (key c) 0 + w) u) s 0
      = weight_where (\<lambda>c. key c = s) (ts @ [with_bands c w atr])
    \<and> dget_or (AList.update (key c) (dget_or u (key c) 0 + w) u) s 0 \<le> cap"
proof
  fix s
  show "dget_or (AList.update (key c) (dget_or u (key c) 0 + w) u) s 0
      = weight_where (\<lambda>c. key c = s) (ts @ [with_bands c w atr])
    \<and> dget_or (AList.update (key c) (dget_or u (key c) 0 + w) u) s 0 \<le> cap"
  proof (cases "s = key c")
    case True
    then show ?thesis using used fits by (simp add: weight_where_snoc)
  next
    case False
    moreover from used have "dget_or u s 0 = weight_where (\<lambda>c. key c = s) ts" "dget_or u s 0 \<le> cap" by blast+
    ultimately show ?thesis by (auto simp: weight_where_snoc)
  qed
qed

lemma book_inv_accept:
  assumes "book_inv nav corrs su ru ts" and "0 < w" "w \<le> PER_POSITION_MAX_PCT" and "passes_liquidity c nav w"
    and "passes_correlation c ts corrs" and "\<not> dget_or su (cd_sector c) 0 + w > SECTOR_CAP_PCT"
    and "\<not> dget_or ru (cd_region c) 0 + w > REGION_CAP_PCT"
  shows "book_inv nav corrs (AList.update (cd_sector c) (dget_or su (cd_sector c) 0 + w) su)
    (AList.update (cd_region c) (dget_or ru (cd_region c) 0 + w) ru) (ts @ [with_bands c w atr])"
proof -
  have "list_all (trade_ok nav) (ts @ [with_bands c w atr])" using assms by (simp add: book_inv_def trade_ok_def)
  moreover have "sorted_wrt (uncorrelated corrs) (ts @ [with_bands c w atr])"
    using assms by (auto simp: book_inv_def sorted_wrt_append uncorrelated_def passes_correlation_def list_all_iff not_less)
  moreover note cap_update [where key = cd_sector, OF _ assms(6)] cap_update [where key = cd_region, OF _ assms(7)]
  ultimately show ?thesis using assms(1) unfolding book_inv_def by blast
qed

lemma shape_loop_inv:
  "book_inv nav corrs su ru ts \<Longrightarrow> \<exists>su' ru'. book_inv nav corrs su' ru' (shape_loop nav corrs atr su ru ts cs)"
proof (induction cs arbitrary: su ru ts)
  case (Cons c cs)
  let ?w = "min (vol_target_weight c) PER_POSITION_MAX_PCT"
  show ?case
  proof (cases "vol_target_weight c \<le> 0 \<or> \<not> passes_liquidity c nav ?w \<or> \<not> passes_correlation c ts corrs
      \<or> dget_or su (cd_sector c) 0 + ?w > SECTOR_CAP_PCT \<or> dget_or ru (cd_region c) 0 + ?w > REGION_CAP_PCT")
    case True
    then have "shape_loop nav corrs atr su ru ts (c # cs) = shape_loop nav corrs atr su ru ts cs"
      by (auto simp: Let_def)
    then show ?thesis using Cons by simp
  next
    case False
    then have eq: "shape_loop nav corrs atr su ru ts (c # cs) = shape_loop nav corrs atr
        (AList.update (cd_sector c) (dget_or su (cd_sector c) 0 + ?w) su)
        (AList.update (cd_region c) (dget_or ru (cd_region c) 0 + ?w) ru) (ts @ [with_bands c ?w atr]) cs"
      by (simp add: Let_def)
    have "0 < ?w" "?w \<le> PER_POSITION_MAX_PCT" using False by (simp_all add: PER_POSITION_MAX_PCT_def)
    then show ?thesis unfolding eq using False by (intro Cons.IH book_inv_accept [OF Cons.prems]) simp_all
  qed
qed auto

text \<open>
  C2: Whatever the candidates are, every accepted trade has a positive weight of at most 5 per cent of NAV that its
  liquidity allows, no sector carries more than 25 and no region more than 50 per cent, and no later trade is correlated
  above the cap with an earlier one.
\<close>

theorem shaped_book_respects_caps:
  "list_all (trade_ok nav) (shape nav corrs atr cands) \<and> sorted_wrt (uncorrelated corrs) (shape nav corrs atr cands)
   \<and> weight_where (\<lambda>c. cd_sector c = s) (shape nav corrs atr cands) \<le> SECTOR_CAP_PCT
   \<and> weight_where (\<lambda>c. cd_region c = r) (shape nav corrs atr cands) \<le> REGION_CAP_PCT"
proof -
  have "book_inv nav corrs [] [] []"
    by (simp add: book_inv_def dget_or_def weight_where_def SECTOR_CAP_PCT_def REGION_CAP_PCT_def)
  then obtain su ru where "book_inv nav corrs su ru (shape nav corrs atr cands)"
    unfolding shape_def using shape_loop_inv by blast
  then show ?thesis unfolding book_inv_def by metis
qed

section \<open>Both sides of the ranking\<close>

text \<open>
  The weights of every regime add up to one, the unknown regime included.
\<close>

theorem regime_weights_sum_to_one:
  "sum_list (map snd (regime_weights (classify i))) = 1"
  by (cases "classify i") simp_all

text \<open>Keys stay unique.\<close>

definition tidy :: "(string, (string, rat) dict) dict \<Rightarrow> bool" where
  "tidy g \<longleftrightarrow> distinct (map fst g) \<and> list_all (\<lambda>(f, d). distinct (map fst d)) g"

lemma tidy_update:
  assumes "tidy g" shows "tidy (AList.update f (AList.update t v (dget_or g f [])) g)"
proof -
  have "distinct (map fst (dget_or g f []))"
    using assms by (auto simp: dget_or_def tidy_def list_all_iff split: option.split dest: map_of_SomeD)
  then have "distinct (map fst (AList.update t v (dget_or g f [])))" by (rule distinct_update)
  moreover have "(k, d) \<in> set (AList.update f e g) \<Longrightarrow> (k, d) = (f, e) \<or> (k, d) \<in> set g" for k d e
    by (induction g) (auto split: if_splits)
  ultimately show ?thesis using assms by (force simp: tidy_def list_all_iff distinct_update)
qed

lemma tidy_by_factor: "tidy (by_factor rows)"
proof -
  have "tidy g \<Longrightarrow> tidy (fold (\<lambda>r d. AList.update (fr_factor_id r) (AList.update (fr_ticker r) (fr_value r) (dget_or d (fr_factor_id r) [])) d) rows g)" for g
    by (induction rows arbitrary: g) (simp_all add: tidy_update)
  then show ?thesis unfolding by_factor_def by (simp add: tidy_def)
qed

lemma tidy_z_scores: "tidy g \<Longrightarrow> tidy (z_scores flt g)"
proof -
  have "map fst (map (\<lambda>(t, v). (t, h v)) d) = map fst d" for h and d :: "(string, rat) dict"
    by (induction d) auto
  then show "tidy g \<Longrightarrow> tidy (z_scores flt g)"
    by (auto simp: tidy_def z_scores_def Let_def list_all_iff case_prod_unfold comp_def distinct_map_filter)
qed

lemma dict_keys_update: "fst ` set (AList.update k v d) = insert k (fst ` set d)"
  by (induction d) auto

lemma dget_or_absent: "k \<notin> fst ` set d \<Longrightarrow> dget_or d k x = x"
  by (simp add: dget_or_def map_of_eq_None_iff [THEN iffD2])

lemma tally_factor_score:
  "distinct (map fst d) \<Longrightarrow> distinct (map fst (fst acc)) \<Longrightarrow>
    dget_or (fst (tally_factor w f d acc)) t 0 = dget_or (fst acc) t 0 + w * dget_or d t 0
    \<and> fst ` set (fst (tally_factor w f d acc)) = fst ` set (fst acc) \<union> fst ` set d
    \<and> distinct (map fst (fst (tally_factor w f d acc)))"
proof (induction w f d acc rule: tally_factor.induct)
  case (2 w f t' z d combined contributors)
  have "distinct (map fst (AList.update t' (dget_or combined t' 0 + w * z) combined))"
    using 2(3) by (simp add: distinct_update)
  with 2 show ?case by (auto simp: dict_keys_update dget_or_absent) (auto simp: dget_or_def)
qed (simp add: dget_or_def)

definition weighted_sum :: "(string, rat) dict \<Rightarrow> (string, (string, rat) dict) dict \<Rightarrow> string \<Rightarrow> rat" where
  "weighted_sum weights zs t = sum_list (map (\<lambda>(f, d). dget_or weights f 0 * dget_or d t 0) zs)"

definition scored_by :: "(string, rat) dict \<Rightarrow> (string, (string, rat) dict) dict \<Rightarrow> string \<Rightarrow> bool" where
  "scored_by weights zs t \<longleftrightarrow> list_ex (\<lambda>(f, d). dget_or weights f 0 \<noteq> 0 \<and> t \<in> fst ` set d) zs"

lemma tally_all_score:
  "list_all (\<lambda>(f, d). distinct (map fst d)) zs \<Longrightarrow> distinct (map fst (fst acc)) \<Longrightarrow>
    dget_or (fst (tally_all weights zs acc)) t 0 = dget_or (fst acc) t 0 + weighted_sum weights zs t
    \<and> (t \<in> fst ` set (fst (tally_all weights zs acc)) \<longleftrightarrow> t \<in> fst ` set (fst acc) \<or> scored_by weights zs t)
    \<and> distinct (map fst (fst (tally_all weights zs acc)))"
proof (induction weights zs acc rule: tally_all.induct)
  case (2 weights f d zs acc)
  have d: "distinct (map fst d)" using 2(3) by simp
  note step = tally_factor_score [OF d 2(4), of "dget_or weights f 0" f t]
  show ?case
  proof (cases "dget_or weights f 0 = 0")
    case True
    then show ?thesis using 2 by (simp add: weighted_sum_def scored_by_def)
  next
    case False
    then show ?thesis using 2 step by (auto simp: weighted_sum_def scored_by_def Let_def)
  qed
qed (simp add: weighted_sum_def scored_by_def)

text \<open>
  C7: The ranking built up factor by factor is the reference definition: it holds each ticker that a factor with a weight
  scores, once, with the sum of the regime's weights times its z-scores, best first.
\<close>

theorem ranking_is_weighted_sum:
  "(\<forall>t x. (t, x) \<in> set (ranked_scores flt rows rg) \<longleftrightarrow>
      scored_by (regime_weights rg) (z_scores flt (by_factor rows)) t
      \<and> x = weighted_sum (regime_weights rg) (z_scores flt (by_factor rows)) t)
   \<and> distinct (map fst (ranked_scores flt rows rg)) \<and> sorted_wrt (\<lambda>a b. snd b \<le> snd a) (ranked_scores flt rows rg)"
proof -
  let ?w = "regime_weights rg" and ?z = "z_scores flt (by_factor rows)"
  let ?c = "fst (tally_all ?w ?z ([], []))" and ?r = "ranked_scores flt rows rg"
  have "list_all (\<lambda>(f, d). distinct (map fst d)) ?z" using tidy_z_scores [OF tidy_by_factor] by (simp add: tidy_def)
  note tally = tally_all_score [OF this, of "([], [])", simplified]
  have dist: "distinct (map fst ?c)" using tally by blast
  have members: "(t, x) \<in> set ?c \<longleftrightarrow> scored_by ?w ?z t \<and> x = weighted_sum ?w ?z t" for t x
  proof -
    have "(t, x) \<in> set ?c \<longleftrightarrow> map_of ?c t = Some x" using dist by simp
    also have "\<dots> \<longleftrightarrow> t \<in> fst ` set ?c \<and> x = dget_or ?c t 0"
      by (cases "map_of ?c t") (auto simp: dget_or_def map_of_eq_None_iff dest: map_of_SomeD intro: rev_image_eqI)
    also have "\<dots> \<longleftrightarrow> scored_by ?w ?z t \<and> x = weighted_sum ?w ?z t" using tally [of ?w t] by (simp add: dget_or_def)
    finally show ?thesis .
  qed
  have "distinct (map fst (sort_key (\<lambda>kv. - snd kv) ?c))"
    using dist by (metis mset_map mset_sort mset_eq_imp_distinct_iff)
  moreover have "sorted (map (\<lambda>kv. - snd kv) (sort_key (\<lambda>kv. - snd kv) ?c))" by simp
  then have "sorted_wrt (\<lambda>a b. snd b \<le> snd a) (sort_key (\<lambda>kv. - snd kv) ?c)" by (simp add: sorted_map)
  ultimately show ?thesis unfolding ranked_scores_def using members by auto
qed

lemma ranked_distinct: "distinct (map fst (ranked_scores flt rows rg))"
proof -
  have "list_all (\<lambda>(f, d). distinct (map fst d)) (z_scores flt (by_factor rows))"
    using tidy_z_scores [OF tidy_by_factor] by (simp add: tidy_def)
  from tally_all_score [OF this, of "([], [])"] show ?thesis
    unfolding ranked_scores_def by (simp, metis mset_map mset_sort mset_eq_imp_distinct_iff)
qed

lemma take_last_disjoint:
  assumes "distinct xs" and "0 < n"
  shows "set (take n xs) \<inter> set (last_n n xs) = {} \<longleftrightarrow> xs = [] \<or> 2 * n \<le> length xs"
proof (cases "2 * n \<le> length xs")
  case True
  then show ?thesis using assms set_take_disj_set_drop_if_distinct [OF assms(1), of n "length xs - n"]
    by (simp add: last_n_def)
next
  case False
  show ?thesis
  proof (cases "xs = []")
    case nonempty: False
    let ?i = "length xs - n"
    have i: "?i < n" "?i < length xs" using False nonempty assms(2) by auto
    have "xs ! ?i \<in> set (take n xs)" using i by (metis in_set_conv_nth length_take min_less_iff_conj nth_take)
    moreover have "xs ! ?i \<in> set (drop ?i xs)" using i(2) by (metis Cons_nth_drop_Suc list.set_intros(1))
    ultimately show ?thesis using False nonempty assms(2) by (auto simp: last_n_def)
  qed (simp add: last_n_def)
qed

lemma side_tickers:
  assumes "list_all (\<lambda>(t, m). cd_ticker m = t) meta" and "list_all (\<lambda>(t, z). map_of meta t \<noteq> None) chosen"
  shows "map cd_ticker (side meta con d chosen) = map fst chosen" and "list_all (\<lambda>c. cd_direction c = d) (side meta con d chosen)"
proof -
  have "cd_ticker m = t" if "map_of meta t = Some m" for t m
    using assms(1) map_of_SomeD [OF that] by (auto simp: list_all_iff)
  with assms(2) show "map cd_ticker (side meta con d chosen) = map fst chosen"
    by (induction chosen) (auto simp: side_def List.map_filter_simps with_score_def split: option.splits)
  show "list_all (\<lambda>c. cd_direction c = d) (side meta con d chosen)"
    by (induction chosen) (auto simp: side_def List.map_filter_simps with_score_def split: option.splits)
qed

definition tickers_of :: "direction \<Rightarrow> candidate list \<Rightarrow> string set" where
  "tickers_of d cs = cd_ticker ` set (filter (\<lambda>c. cd_direction c = d) cs)"

text \<open>
  With at least one candidate per side and metadata for every ranked ticker, some ticker is proposed both long and
  short exactly if the ranking is not empty and shorter than twice the candidates per side.
\<close>

theorem small_universe_on_both_sides:
  assumes "0 < n" and "list_all (\<lambda>(t, m). cd_ticker m = t) meta"
    and "list_all (\<lambda>(t, z). map_of meta t \<noteq> None) (ranked_scores flt rows rg)"
  shows "tickers_of Long (combine flt rows rg meta n) \<inter> tickers_of Short (combine flt rows rg meta n) \<noteq> {}
    \<longleftrightarrow> 0 < length (ranked_scores flt rows rg) \<and> length (ranked_scores flt rows rg) < 2 * n"
proof -
  let ?r = "ranked_scores flt rows rg" and ?con = "snd (tally_all (regime_weights rg) (z_scores flt (by_factor rows)) ([], []))"
  let ?L = "side meta ?con Long (take n ?r)" and ?S = "side meta ?con Short (last_n n ?r)"
  have "set (take n ?r) \<subseteq> set ?r" "set (last_n n ?r) \<subseteq> set ?r"
    by (auto simp: last_n_def dest: in_set_dropD in_set_takeD)
  then have covered: "list_all (\<lambda>(t, z). map_of meta t \<noteq> None) (take n ?r)"
    "list_all (\<lambda>(t, z). map_of meta t \<noteq> None) (last_n n ?r)"
    using assms(3) by (auto simp: list_all_iff)
  note long = side_tickers [OF assms(2) covered(1), where con = ?con and d = Long]
    and short = side_tickers [OF assms(2) covered(2), where con = ?con and d = Short]
  have "filter (\<lambda>c. cd_direction c = Long) (?L @ ?S) = ?L" "filter (\<lambda>c. cd_direction c = Short) (?L @ ?S) = ?S"
    using long(2) short(2) by (auto simp: list_all_iff intro!: filter_True filter_False)
  then have "tickers_of Long (combine flt rows rg meta n) = set (map fst (take n ?r))"
    "tickers_of Short (combine flt rows rg meta n) = set (map fst (last_n n ?r))"
    unfolding tickers_of_def combine_def Let_def by (metis long(1) list.set_map, metis short(1) list.set_map)
  moreover have "set (map fst (take n ?r)) = set (take n (map fst ?r))" "set (map fst (last_n n ?r)) = set (last_n n (map fst ?r))"
    by (simp_all add: take_map last_n_def drop_map)
  moreover note take_last_disjoint [OF ranked_distinct [of flt rows rg] assms(1)]
  ultimately show ?thesis by (simp add: not_le)
qed

definition sample_candidate :: "string \<Rightarrow> candidate" where
  "sample_candidate t =
     \<lparr>cd_ticker = t, cd_venue = ''NASDAQ'', cd_region = ''US'', cd_sector = ''tech'', cd_direction = Long, cd_combined_z = 0,
      cd_contributing = [], cd_realized_vol_60d = 0.2, cd_median_dollar_volume_5d = 0, cd_last_close = 100\<rparr>"

definition sample_row :: factor_row where
  "sample_row = \<lparr>fr_asof = 0, fr_ticker = ''MSFT'', fr_factor_id = ''momentum'', fr_value = 1, fr_rank = 1\<rparr>"

theorem small_universe_on_both_sides_witness:
  "tickers_of Long (combine (\<lambda>_. 0) [sample_row] RiskOn [(''MSFT'', sample_candidate ''MSFT'')] 10)
   \<inter> tickers_of Short (combine (\<lambda>_. 0) [sample_row] RiskOn [(''MSFT'', sample_candidate ''MSFT'')] 10) \<noteq> {}"
proof -
  have r: "ranked_scores (\<lambda>_. 0) [sample_row] RiskOn = [(''MSFT'', 0)]"
    by (simp add: ranked_scores_def by_factor_def sample_row_def dget_or_def z_scores_def rat_mean_def sigma_of_def Let_def)
  have 1: "list_all (\<lambda>(t, m). cd_ticker m = t) [(''MSFT'', sample_candidate ''MSFT'')]" by (simp add: sample_candidate_def)
  have 2: "list_all (\<lambda>(t, z). map_of [(''MSFT'', sample_candidate ''MSFT'')] t \<noteq> None) (ranked_scores (\<lambda>_. 0) [sample_row] RiskOn)"
    by (simp add: r)
  show ?thesis unfolding small_universe_on_both_sides [OF zero_less_numeral 1 2] r by simp
qed

end
