(* ===== verification/QuantFactors.thy ===== *)
theory QuantFactors
  imports QuantSignal
begin

text \<open>
  The quant agent's factors (\<^verbatim>\<open>apps/agent_quant/quant/factors/\<close>), the matrix that ranks them (\<^verbatim>\<open>feature_matrix.py\<close>) and
  the universe of a day (\<^verbatim>\<open>universe.py\<close>). A raised IndexError or ZeroDivisionError is an error value; \<open>flt\<close> is the
  float next to a real.
\<close>

section \<open>Factors\<close>

definition group_by :: "('a \<Rightarrow> string) \<Rightarrow> 'a list \<Rightarrow> (string, 'a list) dict" where
  "group_by key xs = fold (\<lambda>x d. AList.update (key x) (dget_or d (key x) [] @ [x]) d) xs []"

text \<open>\<open>bars[-k]\<close>.\<close>

definition from_end :: "nat \<Rightarrow> 'a list \<Rightarrow> exn + 'a" where
  "from_end k xs =
     (if k = 0 then (if xs = [] then Inl (OtherExn ''IndexError'') else Inr (hd xs))
      else if k \<le> length xs then Inr (xs ! (length xs - k)) else Inl (OtherExn ''IndexError''))"

definition momentum_of :: "nat \<Rightarrow> bar list \<Rightarrow> exn + rat option" where
  "momentum_of lookback_days lst =
     (let bars = sort_key br_asof lst in
      if length bars < lookback_days then Inr None
      else res_bind (from_end 22 bars) (\<lambda>end_bar. res_bind (from_end lookback_days bars) (\<lambda>start_bar.
           Inr (if br_close start_bar \<le> 0 then None else Some (br_close end_bar / br_close start_bar - 1)))))"

definition mean_reversion_of :: "bar list \<Rightarrow> exn + rat option" where
  "mean_reversion_of lst =
     (let bars = sort_key br_asof lst in
      if length bars < 6 then Inr None
      else let old_close = br_close (bars ! (length bars - 6)) in
        if old_close = 0 then Inl (OtherExn ''ZeroDivisionError'')
        else Inr (Some (- (br_close (last bars) / old_close - 1))))"

text \<open>The loop over the tickers, which the first exception ends.\<close>

fun per_ticker :: "('a list \<Rightarrow> exn + rat option) \<Rightarrow> (string, 'a list) dict \<Rightarrow> exn + (string, rat) dict" where
  "per_ticker f [] = Inr []"
| "per_ticker f ((t, lst) # groups) =
     res_bind (f lst) (\<lambda>r. res_bind (per_ticker f groups) (\<lambda>out.
     Inr (case r of None \<Rightarrow> out | Some v \<Rightarrow> (t, v) # out)))"

definition momentum_12_1 :: "nat \<Rightarrow> bar list \<Rightarrow> exn + (string, rat) dict" where
  "momentum_12_1 lookback_days history = per_ticker (momentum_of lookback_days) (group_by br_ticker history)"

definition mean_reversion_5d :: "bar list \<Rightarrow> exn + (string, rat) dict" where
  "mean_reversion_5d history = per_ticker mean_reversion_of (group_by br_ticker history)"

definition vol_risk_premium :: "(string, rat) dict \<Rightarrow> (string, rat) dict \<Rightarrow> (string, rat) dict" where
  "vol_risk_premium iv rv_20d =
     map (\<lambda>(t, v). (t, v - dget_or rv_20d t 0)) (filter (\<lambda>(t, v). map_of rv_20d t \<noteq> None) iv)"

record form4_buy =
  fb_ticker :: string
  fb_insider_id :: string
  fb_bought_at :: seconds
  fb_value_usd :: rat

definition CLUSTER_INSIDERS_MIN :: nat where "CLUSTER_INSIDERS_MIN = 3"
definition CLUSTER_VALUE_MIN_USD :: rat where "CLUSTER_VALUE_MIN_USD = 1000000"
definition CLUSTER_WINDOW_DAYS :: int where "CLUSTER_WINDOW_DAYS = 10"
definition DECAY_DAYS :: rat where "DECAY_DAYS = 30"

text \<open>The anchors in turn; the first cluster that has not decayed gives the score.\<close>

fun cluster_loop :: "(real \<Rightarrow> rat) \<Rightarrow> seconds \<Rightarrow> form4_buy list \<Rightarrow> rat option" where
  "cluster_loop flt asof [] = None"
| "cluster_loop flt asof (anchor # later) =
     (let window = filter (\<lambda>b. fb_bought_at b - fb_bought_at anchor \<le> days CLUSTER_WINDOW_DAYS) (anchor # later);
          value = sum_list (map fb_value_usd window) in
      if length (remdups (map fb_insider_id window)) \<ge> CLUSTER_INSIDERS_MIN \<and> value \<ge> CLUSTER_VALUE_MIN_USD
      then let age_days = \<lfloor>(asof - fb_bought_at (last window)) / 86400\<rfloor>;
               decay = max 0 (1 - of_int age_days / DECAY_DAYS) in
           if decay \<le> 0 then cluster_loop flt asof later
           else let base = flt (log 10 (of_rat (max (value / CLUSTER_VALUE_MIN_USD) 1))) / 2 in
             Some (max 0 (min 1 (base * decay)))
      else cluster_loop flt asof later)"

definition insider_cluster_score :: "(real \<Rightarrow> rat) \<Rightarrow> form4_buy list \<Rightarrow> seconds \<Rightarrow> (string, rat) dict" where
  "insider_cluster_score flt buys asof =
     List.map_filter (\<lambda>(t, lst). map_option (\<lambda>s. (t, s)) (cluster_loop flt asof (sort_key fb_bought_at lst))) (group_by fb_ticker buys)"

section \<open>The ranked matrix\<close>

definition rank_pairs :: "(string, rat) dict \<Rightarrow> (string, nat) dict" where
  "rank_pairs by_ticker = (let sorted_pairs = sort_key snd by_ticker in zip (map fst sorted_pairs) [1..<Suc (length sorted_pairs)])"

definition factor_rows :: "seconds \<Rightarrow> string \<Rightarrow> (string, rat) dict \<Rightarrow> factor_row list" where
  "factor_rows asof factor_id by_ticker =
     map (\<lambda>(t, raw). \<lparr>fr_asof = asof, fr_ticker = t, fr_factor_id = factor_id, fr_value = raw,
                      fr_rank = of_nat (dget_or (rank_pairs by_ticker) t 0)\<rparr>) by_ticker"

definition build_matrix :: "(string, (string, rat) dict) dict \<Rightarrow> seconds \<Rightarrow> factor_row list" where
  "build_matrix factors asof =
     concat (map (\<lambda>(f, d). factor_rows asof f d) (filter (\<lambda>(f, d). d \<noteq> []) factors))"

section \<open>The universe of a day\<close>

record universe_row =
  ur_universe :: string
  ur_ticker :: string
  ur_added_at :: seconds
  ur_removed_at :: "seconds option"

definition constituents :: "universe_row list \<Rightarrow> string \<Rightarrow> seconds \<Rightarrow> string list" where
  "constituents rows universe asof =
     sort (remdups (map ur_ticker (filter (\<lambda>r. ur_universe r = universe \<and> \<not> ur_added_at r > asof
        \<and> \<not> (case ur_removed_at r of None \<Rightarrow> False | Some t \<Rightarrow> t \<le> asof)) rows)))"

section \<open>The insider score is a score\<close>

text \<open>
  The insider score of every ticker lies between 0 and 1, whatever the purchases are, in the future or not: the
  decay of a purchase after the date exceeds 1, and is cut off. This holds for every rounding \<open>flt\<close>.
\<close>

theorem insider_score_bounded:
  "list_all (\<lambda>(t, s). 0 \<le> s \<and> s \<le> 1) (insider_cluster_score flt buys asof)"
proof -
  have step: "cluster_loop flt asof (a # l) = cluster_loop flt asof l
      \<or> (\<exists>x. cluster_loop flt asof (a # l) = Some (max 0 (min 1 x)))" for a l
    by (simp only: cluster_loop.simps Let_def split: if_split) blast
  have "cluster_loop flt asof lst = Some s \<Longrightarrow> 0 \<le> s \<and> s \<le> 1" for lst s
  proof (induction lst)
    case (Cons a l)
    then show ?case using step [of a l] by (elim disjE exE) (auto simp del: cluster_loop.simps)
  qed simp
  then show ?thesis by (auto simp: insider_cluster_score_def list_all_iff List.map_filter_def)
qed

section \<open>Momentum leaves out the last month\<close>

lemma group_by_one:
  assumes "list_all (\<lambda>x. key x = k) xs" and "xs \<noteq> []"
  shows "group_by key xs = [(k, xs)]"
proof -
  have "fold (\<lambda>x d. AList.update (key x) (dget_or d (key x) [] @ [x]) d) ys [(k, acc)] = [(k, acc @ ys)]"
    if "list_all (\<lambda>x. key x = k) ys" for ys acc
    using that by (induction ys arbitrary: acc) (simp_all add: dget_or_def)
  then show ?thesis using assms by (cases xs) (simp_all add: group_by_def dget_or_def)
qed

text \<open>
  The momentum of a ticker does not depend on its last 21 bars: two histories in order of time that agree but for
  these have the same momentum, for every look-back of at least 22 bars.
\<close>

theorem momentum_skips_last_month:
  assumes "length recent = 21" and "length recent' = 21" and "22 \<le> lookback"
    and "list_all (\<lambda>b. br_ticker b = t) (bars @ recent @ recent')"
    and "sorted (map br_asof (bars @ recent))" and "sorted (map br_asof (bars @ recent'))"
  shows "momentum_12_1 lookback (bars @ recent) = momentum_12_1 lookback (bars @ recent')"
proof -
  have "from_end k (bars @ r) = from_end k (bars @ r')" if "length r = 21" "length r' = 21" "22 \<le> k" for r r' k
    using that by (auto simp: from_end_def nth_append)
  note same = this [OF assms(1,2)]
  have "momentum_of lookback (bars @ recent) = momentum_of lookback (bars @ recent')"
    using assms same [of 22] same [of lookback] by (simp add: momentum_of_def sort_key_id_if_sorted Let_def)
  moreover have "bars @ recent \<noteq> []" "bars @ recent' \<noteq> []" using assms(1,2) by auto
  then have "group_by br_ticker (bars @ recent) = [(t, bars @ recent)]"
    "group_by br_ticker (bars @ recent') = [(t, bars @ recent')]"
    using assms(4) by (auto intro!: group_by_one)
  ultimately show ?thesis by (simp add: momentum_12_1_def)
qed

definition sample_bar :: "nat \<Rightarrow> rat \<Rightarrow> bar" where
  "sample_bar i close = \<lparr>br_ticker = ''MSFT'', br_asof = of_nat i, br_open = close, br_high = close, br_low = close,
     br_close = close, br_volume = 1\<rparr>"

theorem momentum_skips_last_month_witness:
  "momentum_12_1 22 (sample_bar 0 100 # replicate 21 (sample_bar 1 7)) = momentum_12_1 22 (sample_bar 0 100 # replicate 21 (sample_bar 2 9))"
proof -
  have "sorted (map br_asof ([sample_bar 0 100] @ replicate 21 (sample_bar i x)))" if "0 < i" for i x
    using that by (auto simp: sample_bar_def map_replicate_const sorted_replicate)
  then show ?thesis
    using momentum_skips_last_month [of "replicate 21 (sample_bar 1 7)" "replicate 21 (sample_bar 2 9)" 22 "''MSFT''" "[sample_bar 0 100]"]
    by (simp add: sample_bar_def list_all_iff)
qed

section \<open>The ranks of the matrix\<close>

lemma rank_pairs_parts:
  "map fst (rank_pairs d) = map fst (sort_key snd d)" "map snd (rank_pairs d) = [1..<Suc (length d)]"
  by (simp_all add: rank_pairs_def Let_def del: upt_Suc)

lemma rank_of:
  assumes "distinct (map fst d)" and "i < length d"
  shows "dget_or (rank_pairs d) (fst (sort_key snd d ! i)) 0 = Suc i"
proof -
  let ?s = "sort_key snd d"
  have "distinct (map fst ?s)" using assms(1) by (metis mset_map mset_sort mset_eq_imp_distinct_iff)
  then have "distinct (map fst (rank_pairs d))" by (simp only: rank_pairs_parts)
  moreover have "rank_pairs d ! i = (fst (?s ! i), Suc i)" "i < length (rank_pairs d)"
    using assms(2) by (simp_all add: rank_pairs_def Let_def del: upt_Suc)
  ultimately have "map_of (rank_pairs d) (fst (?s ! i)) = Some (Suc i)" by (metis map_of_is_SomeI nth_mem)
  then show ?thesis by (simp add: dget_or_def)
qed

lemma in_set_map_nth: "r \<in> set (map h xs) \<Longrightarrow> \<exists>i < length xs. r = h (xs ! i)"
  by (auto simp: in_set_conv_nth)

text \<open>
  For a factor with distinct tickers the ranks in the matrix are 1 to N, each once; a lower value never has the
  higher rank.
\<close>

theorem ranks_follow_values:
  assumes "distinct (map fst d)"
  shows "mset (map fr_rank (factor_rows asof f d)) = mset (map of_nat [1..<Suc (length d)])
    \<and> list_all (\<lambda>r. list_all (\<lambda>r'. fr_rank r < fr_rank r' \<longrightarrow> fr_value r \<le> fr_value r') (factor_rows asof f d)) (factor_rows asof f d)"
proof -
  let ?s = "sort_key snd d" and ?rank = "\<lambda>t. dget_or (rank_pairs d) t 0"
  let ?row = "\<lambda>(t, raw). \<lparr>fr_asof = asof, fr_ticker = t, fr_factor_id = f, fr_value = raw, fr_rank = of_nat (?rank t)\<rparr>"
  have ranks: "map (\<lambda>(t, v). ?rank t) ?s = [1..<Suc (length d)]"
    using rank_of [OF assms] by (intro nth_equalityI) (simp_all add: case_prod_unfold del: upt_Suc)
  have rows: "mset (factor_rows asof f d) = mset (map ?row ?s)" by (simp add: factor_rows_def)
  have "mset (map fr_rank (factor_rows asof f d)) = mset (map fr_rank (map ?row ?s))" using rows by (simp only: mset_map)
  also have "map fr_rank (map ?row ?s) = map of_nat (map (\<lambda>(t, v). ?rank t) ?s)" by (simp add: case_prod_unfold comp_def)
  finally have perm: "mset (map fr_rank (factor_rows asof f d)) = mset (map of_nat [1..<Suc (length d)])" by (simp only: ranks)
  have "fr_value (?row (?s ! i)) \<le> fr_value (?row (?s ! j))"
    if "i < length d" "j < length d" "fr_rank (?row (?s ! i)) < fr_rank (?row (?s ! j))" for i j
  proof -
    have "i < j" using that rank_of [OF assms, of i] rank_of [OF assms, of j] by (simp add: case_prod_unfold)
    moreover have "sorted (map snd ?s)" by simp
    ultimately have "map snd ?s ! i \<le> map snd ?s ! j" using that(2) by (intro sorted_nth_mono) simp_all
    then show ?thesis using that by (simp add: case_prod_unfold)
  qed
  note ordered = this
  have index: "\<exists>i < length d. r = ?row (?s ! i)" if "r \<in> set (map ?row ?s)" for r
    using in_set_map_nth [OF that] unfolding length_sort .
  have "fr_value r \<le> fr_value r'" if "r \<in> set (map ?row ?s)" "r' \<in> set (map ?row ?s)" "fr_rank r < fr_rank r'" for r r'
    using index [OF that(1)] index [OF that(2)] that(3) ordered by blast
  then have "\<forall>r\<in>set (map ?row ?s). \<forall>r'\<in>set (map ?row ?s). fr_rank r < fr_rank r' \<longrightarrow> fr_value r \<le> fr_value r'" by blast
  moreover have "set (factor_rows asof f d) = set (map ?row ?s)" using rows by (rule mset_eq_setD)
  ultimately show ?thesis using perm by (simp only: list_all_iff)
qed

theorem ranks_follow_values_witness:
  "mset (map fr_rank (factor_rows 0 ''pead'' [(''A'', 3), (''B'', 1)])) = {#1, 2#}"
  using ranks_follow_values [of "[(''A'', 3), (''B'', 1)]" 0 "''pead''"] by simp

end
