(* ===== verification/QuantTeam.thy ===== *)
theory QuantTeam
  imports QuantFactors DataBus
begin

text \<open>
  What the quant agent sends out (\<^verbatim>\<open>apps/agent_quant/quant/\<close>): the advice on a sized trade (\<^verbatim>\<open>writer.py\<close>,
  \<^verbatim>\<open>publish.py\<close>), the team plan (\<^verbatim>\<open>team_plan.py\<close>) and the endpoints (\<^verbatim>\<open>main.py\<close>). The language model and
  Pydantic's parsing are parameters; \<open>flt\<close> is the float next to a real, \<open>date\<close> the ISO date of an instant.
\<close>

section \<open>The advice on a trade\<close>

definition HORIZON_DEFAULTS :: "(string, int) dict" where
  "HORIZON_DEFAULTS =
     [(''momentum'', 30), (''mean_reversion'', 5), (''vol_risk_premium'', 14), (''pead'', 10), (''insider'', 30), (''sector_rs'', 21)]"

definition sigmoid_confidence :: "(real \<Rightarrow> rat) \<Rightarrow> rat \<Rightarrow> rat" where
  "sigmoid_confidence flt z = max 0.05 (min 0.95 (flt (1 / (1 + exp (- of_rat z)))))"

definition primary_factor :: "candidate \<Rightarrow> string" where
  "primary_factor c = (case cd_contributing c of [] \<Rightarrow> ''unknown'' | f # _ \<Rightarrow> f)"

definition secondary_factor :: "candidate \<Rightarrow> string" where
  "secondary_factor c = (case cd_contributing c of f # g # _ \<Rightarrow> g | _ \<Rightarrow> ''unknown'')"

definition writer_prompt :: "candidate \<Rightarrow> string \<Rightarrow> int \<Rightarrow> string" where
  "writer_prompt c rg horizon =
     ''ticker='' @ cd_ticker c @ '' direction='' @ direction_value (cd_direction c) @ '' primary='' @ primary_factor c
     @ '' secondary='' @ secondary_factor c @ '' regime='' @ rg @ '' horizon_days='' @ show_nat (nat horizon)"

definition quant_advice :: "(real \<Rightarrow> rat) \<Rightarrow> (seconds \<Rightarrow> string) \<Rightarrow> string \<Rightarrow> string \<Rightarrow> string \<Rightarrow> sized_trade \<Rightarrow> seconds \<Rightarrow> advice_v1" where
  "quant_advice flt date new_id asof_factor_matrix thesis trade now =
     (let c = sz_candidate trade; horizon = dget_or HORIZON_DEFAULTS (primary_factor c) 21 in
      \<lparr>av_id = new_id, av_agent = ''quant'', av_issued_at = now,
       av_asset = \<lparr>as_kind = ''equity'', as_ticker = cd_ticker c, as_venue = cd_venue c, as_name = None\<rparr>, av_thesis = thesis,
       av_direction = cd_direction c, av_confidence = sigmoid_confidence flt (cd_combined_z c), av_entry_band = sz_entry_band trade,
       av_target_band = sz_target_band trade, av_stop_loss = sz_stop_loss trade, av_horizon_days = horizon, av_max_drawdown_pct = 10,
       av_sizing_hint_pct_nav = sz_weight_pct_nav trade, av_expires_at = now + days horizon,
       av_evidence = [\<lparr>ev_kind = ''factor'',
                       ev_ref = Some (asof_factor_matrix @ '':asof='' @ date now @ '',ticker='' @ cd_ticker c), ev_url = None\<rparr>],
       av_disclaimer = None\<rparr>)"

definition compose ::
  "(string \<Rightarrow> bool) \<Rightarrow> (real \<Rightarrow> rat) \<Rightarrow> (seconds \<Rightarrow> string) \<Rightarrow> (string \<Rightarrow> string + string) \<Rightarrow> string \<Rightarrow> sized_trade \<Rightarrow> string \<Rightarrow> seconds
     \<Rightarrow> string + advice_v1" where
  "compose ulid_ok flt date answer new_id trade rg now =
     (let c = sz_candidate trade; horizon = dget_or HORIZON_DEFAULTS (primary_factor c) 21 in
      res_bind (answer (writer_prompt c rg horizon)) (\<lambda>t.
      construct (advice_valid ulid_ok) (quant_advice flt date new_id ''lake.factor_matrix'' (strip t) trade now)))"

definition publish_quant_advice :: "(advice_v1, 'w) bus \<Rightarrow> advice_v1 \<Rightarrow> 'w \<Rightarrow> (bus_error + string) \<times> 'w" where
  "publish_quant_advice b a w = publish b ''advice.quant.v1'' a (Some (''advice:'' @ av_id a)) w"

section \<open>The team plan\<close>

definition MAX_SIZING_PCT_NAV :: rat where "MAX_SIZING_PCT_NAV = 5"

definition sigmoid :: "(real \<Rightarrow> rat) \<Rightarrow> rat \<Rightarrow> rat" where
  "sigmoid flt x = flt (1 / (1 + exp (- of_rat x)))"

definition net_z_of :: "(string, rat) dict \<Rightarrow> (string, rat) dict option \<Rightarrow> rat" where
  "net_z_of factor_scores weights =
     (if factor_scores = [] then 0
      else case weights of
             None \<Rightarrow> rat_mean (map snd factor_scores)
           | Some ws \<Rightarrow>
               (let w_abs = sum_list (map (\<lambda>(k, w). \<bar>w\<bar>) ws); total_w = (if w_abs = 0 then 1 else w_abs) in
                sum_list (map (\<lambda>(k, w). dget_or factor_scores k 0 * w) ws) / total_w))"

definition action_for :: "rat \<Rightarrow> action \<times> direction" where
  "action_for net_z = (if net_z > 1/2 then (Buy, Long) else if net_z < -1/2 then (Sell, Short) else (Hold, Flat))"

text \<open>\<open>format(z, '+.2f')\<close>.\<close>

definition fmt2_signed :: "rat \<Rightarrow> string" where
  "fmt2_signed z = (if z < 0 then ''-'' else ''+'') @ fmt2 \<bar>z\<bar>"

definition factor_evidence :: "action \<Rightarrow> (string, rat) dict \<Rightarrow> rat \<Rightarrow> evidence list" where
  "factor_evidence act factor_scores net_z =
     (if act = Hold then []
      else let found = map (\<lambda>(name, z). \<lparr>ev_kind = ''factor'', ev_ref = Some (''quant.factor.'' @ name @ ''@z='' @ fmt2_signed z), ev_url = None\<rparr>)
                         (filter (\<lambda>(name, z). \<not> \<bar>z\<bar> < 1/1000) factor_scores) in
        if found = [] then [\<lparr>ev_kind = ''factor'', ev_ref = Some (''quant.factor.net_z@'' @ fmt2_signed net_z), ev_url = None\<rparr>] else found)"

definition quant_thesis :: "action \<Rightarrow> (string, rat) dict \<Rightarrow> rat \<Rightarrow> string" where
  "quant_thesis act factor_scores net_z =
     ''Quant net z-score = '' @ fmt2_signed net_z @ '' (action='' @ action_value act @ ''). '' @ ''Driving factors: ''
     @ join_with '', '' (map (\<lambda>(name, z). name @ ''('' @ fmt2_signed z @ '')'') (take 5 (sort_key (\<lambda>kv. - \<bar>snd kv\<bar>) factor_scores)))
     @ ''. Sizing capped at 5% NAV.''"

text \<open>Entry, target and stop around the mark.\<close>

definition quant_prices :: "action \<Rightarrow> rat \<Rightarrow> rat \<Rightarrow> rat \<times> rat \<times> rat" where
  "quant_prices act px band_pct =
     (case act of
        Buy \<Rightarrow> (px, px * (1 + band_pct * 2), px * (1 - band_pct))
      | Sell \<Rightarrow> (px, px * (1 - band_pct * 2), px * (1 + band_pct))
      | Hold \<Rightarrow> (px, px, px))"

definition quant_plan ::
  "(real \<Rightarrow> rat) \<Rightarrow> string \<Rightarrow> asset \<Rightarrow> rat \<Rightarrow> (string, rat) dict \<Rightarrow> (string, rat) dict option \<Rightarrow> portfolio_context option \<Rightarrow> seconds \<Rightarrow> int
     \<Rightarrow> plan_v1" where
  "quant_plan flt new_id ast mark_price factor_scores factor_weights context now horizon_days =
     (let px = max mark_price (1 / 1000000); net_z = net_z_of factor_scores factor_weights; act = fst (action_for net_z);
          band_pct = min 0.1 (max 0.01 (\<bar>net_z\<bar> * 0.05)); (entry, target, stop) = quant_prices act px band_pct in
      \<lparr>pl_id = new_id, pl_team = Quant, pl_persona_slug = None, pl_issued_at = now, pl_asset = ast, pl_action = act,
       pl_entry_price = entry, pl_window_open = now, pl_window_close = now + 8 * 3600, pl_target_price = target, pl_stop_loss = stop,
       pl_max_drawdown_pct = 10, pl_horizon_days = horizon_days, pl_sizing_pct_nav = min MAX_SIZING_PCT_NAV (\<bar>net_z\<bar> * 2),
       pl_confidence = clip 0 1 (\<bar>sigmoid flt net_z - 1/2\<bar> * 2), pl_thesis = quant_thesis act factor_scores net_z,
       pl_evidence = factor_evidence act factor_scores net_z, pl_context = context, pl_expires_at = now + days horizon_days,
       pl_disclaimer = None\<rparr>)"

definition synthesize_quant_plan ::
  "(string \<Rightarrow> bool) \<Rightarrow> (real \<Rightarrow> rat) \<Rightarrow> string \<Rightarrow> asset \<Rightarrow> rat \<Rightarrow> (string, rat) dict \<Rightarrow> (string, rat) dict option
     \<Rightarrow> portfolio_context option \<Rightarrow> seconds \<Rightarrow> int \<Rightarrow> string + plan_v1" where
  "synthesize_quant_plan ulid_ok flt new_id ast mark_price factor_scores factor_weights context now horizon_days =
     construct (plan_valid ulid_ok) (quant_plan flt new_id ast mark_price factor_scores factor_weights context now horizon_days)"

text \<open>The endpoint. The request's asset, numbers and context are parsed by the \<open>parse\<close> functions, a KeyError for a missing asset included.\<close>

record quant_request =
  qr_asset :: "string + asset"
  qr_mark_price :: "string + rat"
  qr_factor_scores :: "(string, rat) dict"
  qr_factor_weights :: "(string, rat) dict option"
  qr_context :: "string + portfolio_context option"
  qr_horizon_days :: "string + int"

definition quant_team_plan :: "(string \<Rightarrow> bool) \<Rightarrow> (real \<Rightarrow> rat) \<Rightarrow> string \<Rightarrow> quant_request \<Rightarrow> seconds \<Rightarrow> string + plan_v1" where
  "quant_team_plan ulid_ok flt new_id q now =
     res_bind (qr_asset q) (\<lambda>ast. res_bind (qr_mark_price q) (\<lambda>mark. res_bind (qr_context q) (\<lambda>context.
     res_bind (qr_horizon_days q) (\<lambda>h.
     synthesize_quant_plan ulid_ok flt new_id ast mark (qr_factor_scores q) (qr_factor_weights q) context now h))))"

section \<open>The endpoints\<close>

text \<open>The factors are computed from no bars at all; the signal has the number of scores of each factor, and no candidates.\<close>

definition run_factors :: "exn + (string \<times> (string, rat) dict) list" where
  "run_factors =
     res_bind (momentum_12_1 252 []) (\<lambda>m. Inr [(''momentum_12_1'', m), (''mean_reversion'', []), (''vol_risk_premium'', [])])"

record signal_reply =
  sr_regime :: json
  sr_summary :: "(string \<times> nat) list"
  sr_candidates :: "candidate list"

definition run_signal :: "(string, json) dict \<Rightarrow> exn + signal_reply" where
  "run_signal payload =
     res_bind run_factors (\<lambda>factors.
     Inr \<lparr>sr_regime = jget_or (JObj payload) ''regime'' (JStr ''unknown''), sr_summary = map (\<lambda>(k, v). (k, length v)) factors,
          sr_candidates = []\<rparr>)"

section \<open>Advices and plans are valid\<close>

lemma horizon_defaults: "1 \<le> dget_or HORIZON_DEFAULTS f 21 \<and> dget_or HORIZON_DEFAULTS f 21 \<le> 30"
  by (simp add: dget_or_def HORIZON_DEFAULTS_def)

lemma with_bands_order:
  assumes "cd_direction c \<noteq> Flat" and "a = dget_or atr (cd_ticker c) 0.02" and "t = with_bands c w atr"
    and "av_entry_band v = sz_entry_band t" "av_target_band v = sz_target_band t" "av_stop_loss v = sz_stop_loss t"
    and "av_direction v = cd_direction c"
  shows "band_ascending (sz_entry_band t) \<and> band_ascending (sz_target_band t) \<and> direction_consistency v \<longleftrightarrow> 0 < a"
proof -
  define px where "px = max (cd_last_close c) (1 / 1000000)"
  have "0 < px" by (simp add: px_def)
  then have scale: "px * x < px * y \<longleftrightarrow> x < y" "px * x \<le> px * y \<longleftrightarrow> x \<le> y" for x y by simp_all
  show ?thesis
  proof (cases "cd_direction c")
    case Long
    have "t = \<lparr>sz_candidate = c, sz_weight_pct_nav = w, sz_entry_band = (px * (1 - 0.5 * a), px * (1 + 0.5 * a)),
        sz_target_band = (px * (1 + 1.5 * a), px * (1 + 2.5 * a)), sz_stop_loss = px * (1 - 1.2 * a)\<rparr>"
      unfolding assms(2,3) px_def with_bands_def Let_def Long by simp
    then have "band_ascending (sz_entry_band t) \<and> band_ascending (sz_target_band t) \<and> direction_consistency v
      \<longleftrightarrow> 1 - 0.5 * a \<le> 1 + 0.5 * a \<and> 1 + 1.5 * a \<le> 1 + 2.5 * a \<and> 1 + 0.5 * a < 1 + 1.5 * a \<and> 1 - 1.2 * a < 1 - 0.5 * a"
      by (simp only: band_ascending_def direction_consistency_def assms(4-7) Long sized_trade.simps prod.case direction.case not_less not_le scale)
    then show ?thesis by auto
  next
    case Short
    have "t = \<lparr>sz_candidate = c, sz_weight_pct_nav = w, sz_entry_band = (px * (1 - 0.5 * a), px * (1 + 0.5 * a)),
        sz_target_band = (px * (1 - 2.5 * a), px * (1 - 1.5 * a)), sz_stop_loss = px * (1 + 1.2 * a)\<rparr>"
      unfolding assms(2,3) px_def with_bands_def Let_def Short by simp
    then have "band_ascending (sz_entry_band t) \<and> band_ascending (sz_target_band t) \<and> direction_consistency v
      \<longleftrightarrow> 1 - 0.5 * a \<le> 1 + 0.5 * a \<and> 1 - 2.5 * a \<le> 1 - 1.5 * a \<and> 1 - 1.5 * a < 1 - 0.5 * a \<and> 1 + 0.5 * a < 1 + 1.2 * a"
      by (simp only: band_ascending_def direction_consistency_def assms(4-7) Short sized_trade.simps prod.case direction.case not_less not_le scale)
    then show ?thesis by auto
  qed (use assms(1) in simp)
qed

text \<open>
  The advice on a sized trade, long or short, is valid exactly if the average true range of its ticker is positive
  and the thesis has at most 4000 characters, whatever its score and its last close: an ATR of 0 makes it fail.
\<close>

theorem quant_advice_valid_iff:
  assumes "cd_direction c \<noteq> Flat" and "0 < w" and "w \<le> PER_POSITION_MAX_PCT" and "id_is_ulid ulid_ok i"
  shows "(\<exists>a. construct (advice_valid ulid_ok) (quant_advice flt date i m thesis (with_bands c w atr) now) = Inr a)
    \<longleftrightarrow> 0 < dget_or atr (cd_ticker c) 0.02 \<and> length thesis \<le> 4000"
proof -
  let ?t = "with_bands c w atr" and ?a = "quant_advice flt date i m thesis (with_bands c w atr) now"
    and ?h = "dget_or HORIZON_DEFAULTS (primary_factor c) 21"
  have parts: "av_entry_band ?a = sz_entry_band ?t" "av_target_band ?a = sz_target_band ?t" "av_stop_loss ?a = sz_stop_loss ?t"
    "av_direction ?a = cd_direction c" "av_horizon_days ?a = ?h" "av_sizing_hint_pct_nav ?a = w" "av_thesis ?a = thesis" "av_id ?a = i"
    "av_issued_at ?a = now" "av_expires_at ?a = now + days ?h" "av_agent ?a = ''quant''" "av_max_drawdown_pct ?a = 10"
    "av_confidence ?a = sigmoid_confidence flt (cd_combined_z c)"
    by (simp_all add: quant_advice_def Let_def)
  have fits: "asset_fields_ok (av_asset ?a)" "evidence_fields_ok (av_evidence ?a)" "av_evidence ?a \<noteq> []"
    by (simp_all add: quant_advice_def Let_def asset_fields_ok_def asset_kinds_def evidence_fields_ok_def evidence_kinds_def)
  have "expiry_within_one_year now (now + days ?h)"
    using horizon_defaults [of "primary_factor c"] expiry_of_days [of ?h now] by linarith
  moreover have "0 \<le> sigmoid_confidence flt z" "sigmoid_confidence flt z \<le> 1" for z
    by (simp_all add: sigmoid_confidence_def le_max_iff_disj)
  moreover have "\<not> starts_with ''persona.'' ''quant''" by code_simp
  ultimately have "advice_valid ulid_ok ?a \<longleftrightarrow> length thesis \<le> 4000
      \<and> band_ascending (av_entry_band ?a) \<and> band_ascending (av_target_band ?a) \<and> direction_consistency ?a"
    using assms fits horizon_defaults [of "primary_factor c"]
    by (auto simp: advice_valid_def advice_fields_ok_def parts evidence_required_when_directional_def persona_requires_disclaimer_def
        PER_POSITION_MAX_PCT_def)
  then show ?thesis using with_bands_order [OF assms(1) refl refl parts(1-4)] parts(1,2) by auto
qed

theorem quant_advice_valid_iff_witness:
  "\<not> (\<exists>a. construct (advice_valid (\<lambda>_. True)) (quant_advice (\<lambda>_. 0) (\<lambda>_. ''2026-01-01'') ''01ARZ3NDEKTSV4RRFFQ69G5FAV'' ''m'' ''t''
        (with_bands (sample_candidate ''MSFT'') 5 [(''MSFT'', 0)]) 0) = Inr a)"
proof -
  have 1: "cd_direction (sample_candidate ''MSFT'') \<noteq> Flat" and t: "cd_ticker (sample_candidate ''MSFT'') = ''MSFT''"
    by (simp_all add: sample_candidate_def)
  have 2: "(5 :: rat) \<le> PER_POSITION_MAX_PCT" by (simp add: PER_POSITION_MAX_PCT_def)
  have "ulid_re ''01ARZ3NDEKTSV4RRFFQ69G5FAV''" by code_simp
  then have 3: "id_is_ulid (\<lambda>_. True) ''01ARZ3NDEKTSV4RRFFQ69G5FAV''" by (simp add: id_is_ulid_def)
  show ?thesis unfolding quant_advice_valid_iff [OF 1 zero_less_numeral 2 3] t by (simp add: dget_or_def)
qed

text \<open>
  The confidence of an advice grows with its score whatever its direction, so that of two shorts the one with the
  stronger signal never has the higher confidence. This needs of the rounding only that it is monotone.
\<close>

theorem stronger_short_is_less_confident:
  assumes "mono flt" and "cd_direction (sz_candidate t) = Short" and "cd_direction (sz_candidate t') = Short"
    and "cd_combined_z (sz_candidate t) \<le> cd_combined_z (sz_candidate t')"
  shows "av_confidence (quant_advice flt date i m thesis t now) \<le> av_confidence (quant_advice flt date i' m thesis' t' now)"
proof -
  let ?z = "of_rat (cd_combined_z (sz_candidate t)) :: real" and ?z' = "of_rat (cd_combined_z (sz_candidate t')) :: real"
  have "?z \<le> ?z'" using assms(4) by (simp add: of_rat_less_eq)
  then have "1 / (1 + exp (- ?z)) \<le> 1 / (1 + exp (- ?z'))" by (intro divide_left_mono) (simp_all add: add_pos_pos)
  then have "flt (1 / (1 + exp (- ?z))) \<le> flt (1 / (1 + exp (- ?z')))" using assms(1) by (rule monoD [rotated])
  then have "sigmoid_confidence flt (cd_combined_z (sz_candidate t)) \<le> sigmoid_confidence flt (cd_combined_z (sz_candidate t'))"
    unfolding sigmoid_confidence_def by (intro max.mono min.mono order.refl)
  then show ?thesis by (simp add: quant_advice_def Let_def)
qed

definition short_trade :: "rat \<Rightarrow> sized_trade" where
  "short_trade z = with_bands ((sample_candidate ''MSFT'')\<lparr>cd_direction := Short, cd_combined_z := z\<rparr>) 5 []"

theorem stronger_short_is_less_confident_witness:
  "av_confidence (quant_advice (\<lambda>x. of_int \<lfloor>x\<rfloor>) (\<lambda>_. '''') ''1'' ''m'' ''t'' (short_trade (-3)) 0)
     \<le> av_confidence (quant_advice (\<lambda>x. of_int \<lfloor>x\<rfloor>) (\<lambda>_. '''') ''2'' ''m'' ''t'' (short_trade (-1)) 0)"
  by (rule stronger_short_is_less_confident) (auto simp: short_trade_def mono_def intro: floor_mono)

section \<open>The team plan is valid\<close>

lemma quant_plan_prices:
  assumes "0 < px" and "0.01 \<le> b" and "b \<le> 0.1" and "quant_prices act px b = (e, t, s)"
  shows "0 < e \<and> 0 < t \<and> 0 < s \<and> (act = Buy \<longrightarrow> s < e \<and> e < t) \<and> (act = Sell \<longrightarrow> t < e \<and> e < s)"
proof -
  have pos: "0 < px * (1 + b * 2)" "0 < px * (1 - b)" "0 < px * (1 - b * 2)" "0 < px * (1 + b)"
    using assms(1-3) by (auto intro!: mult_pos_pos)
  have "px * (1 - b) < px * 1" "px * 1 < px * (1 + b * 2)" "px * (1 - b * 2) < px * 1" "px * 1 < px * (1 + b)"
    using assms(1,2) by (auto intro!: mult_strict_left_mono)
  then have ord: "px * (1 - b) < px" "px < px * (1 + b * 2)" "px * (1 - b * 2) < px" "px < px * (1 + b)" by simp_all
  show ?thesis using assms(4,1) pos ord by (cases act) (simp_all only: quant_prices_def action.case prod.inject simp_thms, auto)
qed

text \<open>
  Whatever the mark, the factor scores and their weights are, the quant plan on a valid asset is valid exactly if the
  horizon lies between 1 and 365 days and the thesis has at most 4000 characters: prices, size, confidence and evidence
  always fit the action. This holds for every rounding.
\<close>

theorem quant_plan_valid_iff:
  assumes "asset_fields_ok ast" and "id_is_ulid ulid_ok i" and "case context of None \<Rightarrow> True | Some c \<Rightarrow> context_fields_ok c"
  shows "(\<exists>p. synthesize_quant_plan ulid_ok flt i ast mark scores weights context now h = Inr p)
    \<longleftrightarrow> 1 \<le> h \<and> h \<le> 365
      \<and> length (quant_thesis (fst (action_for (net_z_of scores weights))) scores (net_z_of scores weights)) \<le> 4000"
proof -
  let ?p = "quant_plan flt i ast mark scores weights context now h" and ?z = "net_z_of scores weights"
  let ?act = "fst (action_for ?z)" and ?px = "max mark (1 / 1000000)" and ?b = "min 0.1 (max 0.01 (\<bar>?z\<bar> * 0.05))"
  obtain e t s where ts: "quant_prices ?act ?px ?b = (e, t, s)" by (metis prod_cases3)
  have "0 < ?px" "0.01 \<le> ?b" "?b \<le> 0.1" by simp_all
  note prices = quant_plan_prices [OF this ts]
  have parts: "pl_team ?p = Quant" "pl_persona_slug ?p = None" "pl_action ?p = ?act" "pl_entry_price ?p = e" "pl_target_price ?p = t"
    "pl_stop_loss ?p = s" "pl_horizon_days ?p = h" "pl_window_open ?p = now" "pl_window_close ?p = now + 8 * 3600" "pl_issued_at ?p = now"
    "pl_expires_at ?p = now + days h" "pl_thesis ?p = quant_thesis ?act scores ?z" "pl_id ?p = i" "pl_context ?p = context" "pl_asset ?p = ast"
    "pl_max_drawdown_pct ?p = 10" "pl_sizing_pct_nav ?p = min MAX_SIZING_PCT_NAV (\<bar>?z\<bar> * 2)" "pl_evidence ?p = factor_evidence ?act scores ?z"
    and conf: "0 \<le> pl_confidence ?p \<and> pl_confidence ?p \<le> 1"
    by (simp_all only: quant_plan_def Let_def ts prod.case plan_v1.simps clip_bounds [OF zero_le_one])
  have evidence: "evidence_fields_ok (factor_evidence ?act scores ?z)" "?act \<noteq> Hold \<Longrightarrow> factor_evidence ?act scores ?z \<noteq> []"
    by (auto simp: factor_evidence_def Let_def evidence_fields_ok_def evidence_kinds_def list_all_iff)
  have "action_price_ordering ?p" using prices by (cases ?act) (simp_all add: action_price_ordering_def parts)
  moreover have "entry_window_monotone ?p" by (simp add: entry_window_monotone_def parts)
  moreover have "evidence_required_unless_hold ?p" using evidence(2) by (auto simp: evidence_required_unless_hold_def parts)
  moreover have "persona_team_requires_persona_slug ?p" "persona_team_requires_disclaimer ?p"
    by (simp_all add: persona_team_requires_persona_slug_def persona_team_requires_disclaimer_def parts)
  moreover have "1 \<le> h \<Longrightarrow> expiry_within_one_year now (now + days h) \<longleftrightarrow> h \<le> 365" by (rule expiry_of_days)
  moreover have "plan_fields_ok ?p \<longleftrightarrow> 1 \<le> h \<and> h \<le> 365 \<and> length (pl_thesis ?p) \<le> 4000"
    using prices conf evidence(1) assms(1,3) by (auto simp: plan_fields_ok_def parts MAX_SIZING_PCT_NAV_def)
  ultimately have "plan_valid ulid_ok ?p \<longleftrightarrow> 1 \<le> h \<and> h \<le> 365 \<and> length (pl_thesis ?p) \<le> 4000"
    using assms(2) by (auto simp: plan_valid_def parts)
  then show ?thesis by (simp add: synthesize_quant_plan_def parts)
qed

theorem quant_plan_valid_iff_witness:
  "\<exists>p. synthesize_quant_plan (\<lambda>_. True) (\<lambda>_. 0) ''01ARZ3NDEKTSV4RRFFQ69G5FAV''
     \<lparr>as_kind = ''equity'', as_ticker = ''MSFT'', as_venue = ''NASDAQ'', as_name = None\<rparr> (-5) [] None None 0 21 = Inr p"
proof -
  have 1: "asset_fields_ok \<lparr>as_kind = ''equity'', as_ticker = ''MSFT'', as_venue = ''NASDAQ'', as_name = None\<rparr>"
    by (simp add: asset_fields_ok_def asset_kinds_def)
  have "ulid_re ''01ARZ3NDEKTSV4RRFFQ69G5FAV''" by code_simp
  then have 2: "id_is_ulid (\<lambda>_. True) ''01ARZ3NDEKTSV4RRFFQ69G5FAV''" by (simp add: id_is_ulid_def)
  have 3: "case None of None \<Rightarrow> True | Some c \<Rightarrow> context_fields_ok c" by simp
  have "length (fmt2 0) = 4" by (rule length_fmt2_unit) simp_all
  then show ?thesis unfolding quant_plan_valid_iff [OF 1 2 3]
    by (simp add: net_z_of_def action_for_def quant_thesis_def fmt2_signed_def)
qed

end
