(* ===== verification/FundFilings.thy ===== *)
theory FundFilings
  imports PyStd "HOL-Library.AList"
begin

text \<open>
  The fundamental agent's filings and valuations (\<^verbatim>\<open>apps/agent_fundamental/fund/\<close>): the chunker with its two
  regular expressions (\<^verbatim>\<open>filings/chunker.py\<close>), the in-memory index and source (\<^verbatim>\<open>filings/retrieval.py\<close>,
  \<^verbatim>\<open>filings/edgar.py\<close>), the discounted cash flow and the peer multiples (\<^verbatim>\<open>valuation/\<close>). Floats are rationals;
  texts are in ASCII.
\<close>

section \<open>Types\<close>

record filing =
  fl_ticker :: string
  fl_form :: string
  fl_accession :: string
  fl_filed_at :: seconds
  fl_url :: string
  fl_text :: string

record chunk =
  ck_parent_doc :: string
  ck_section :: string
  ck_idx :: nat
  ck_text :: string
  ck_token_count :: nat

section \<open>Sections\<close>

abbreviation newline :: char where "newline \<equiv> CHR 0x0A"

definition is_alnum :: "char \<Rightarrow> bool" where
  "is_alnum c \<longleftrightarrow> is_digit c \<or> is_upper c \<or> is_lower c"

text \<open>
  \<open>ITEM_RE\<close> at the start of a line, without regard to case: the white space may span lines. The match gives the item's id and
  the text after it; no part of the expression ever has to give characters back.
\<close>

definition match_item :: "string \<Rightarrow> (string \<times> string) option" where
  "match_item s =
     (let s1 = dropWhile is_space s in
      if lower (take 4 s1) \<noteq> ''item'' then None
      else let s2 = drop 4 s1; s3 = dropWhile is_space s2; ident = takeWhile is_alnum s3 in
        if s3 = s2 \<or> ident = [] then None
        else let s4 = dropWhile is_alnum s3;
                 s5 = (case s4 of c # t \<Rightarrow> if c \<in> {CHR ''.'', CHR '':''} then t else s4 | [] \<Rightarrow> []) in
          Some (ident, dropWhile (\<lambda>c. c \<noteq> newline) (dropWhile is_space s5)))"

lemma dropWhile_shorter: "length (dropWhile P xs) \<le> length xs"
  by (rule length_dropWhile_le)

lemma match_item_shorter: "match_item s = Some (i, rest) \<Longrightarrow> length rest < length s"
proof -
  assume m: "match_item s = Some (i, rest)"
  let ?s1 = "dropWhile is_space s" and ?d = "\<lambda>s. dropWhile is_space s"
  let ?s3 = "?d (drop 4 ?s1)"
  let ?s4 = "dropWhile is_alnum ?s3"
  have ident: "takeWhile is_alnum ?s3 \<noteq> []" and rest: "rest = dropWhile (\<lambda>c. c \<noteq> newline)
      (?d (case ?s4 of c # t \<Rightarrow> if c \<in> {CHR ''.'', CHR '':''} then t else ?s4 | [] \<Rightarrow> []))"
    using m by (auto simp: match_item_def Let_def split: if_splits)
  have "length rest \<le> length (case ?s4 of c # t \<Rightarrow> if c \<in> {CHR ''.'', CHR '':''} then t else ?s4 | [] \<Rightarrow> [])"
    unfolding rest by (meson dropWhile_shorter le_trans)
  also have "\<dots> \<le> length ?s4" by (auto split: list.split)
  also have "\<dots> < length ?s3" using ident by (metis append.simps(1) append_eq_conv_conj length_append length_greater_0_conv less_add_same_cancel2 takeWhile_dropWhile_id)
  also have "\<dots> \<le> length ?s1" by (metis diff_le_self dropWhile_shorter length_drop le_trans)
  also have "\<dots> \<le> length s" by (rule dropWhile_shorter)
  finally show ?thesis .
qed

text \<open>The text up to the next heading, and the sections from it on; \<open>bol\<close> says that a line begins here.\<close>

function scan_items :: "bool \<Rightarrow> string \<Rightarrow> string \<times> (string \<times> string) list" where
  "scan_items bol s =
     (case (if bol then match_item s else None) of
        Some (ident, rest) \<Rightarrow> (case scan_items False rest of (body, later) \<Rightarrow> ([], (ident, body) # later))
      | None \<Rightarrow>
          (case s of [] \<Rightarrow> ([], [])
           | c # cs \<Rightarrow> (case scan_items (c = newline) cs of (body, later) \<Rightarrow> (c # body, later))))"
  by auto
termination
  by (relation "measure (length \<circ> snd)") (auto dest: match_item_shorter split: if_splits)

declare scan_items.simps [simp del]

definition split_by_item :: "string \<Rightarrow> (string \<times> string) list" where
  "split_by_item s =
     (case snd (scan_items True s) of
        [] \<Rightarrow> [(''body'', s)]
      | secs \<Rightarrow> map (\<lambda>(ident, body). (''Item '' @ ident, strip body)) secs)"

section \<open>Sentences and chunks\<close>

text \<open>\<open>SENT_RE.split\<close>: white space after a full stop, question or exclamation mark and before a capital is a break.\<close>

definition breaks_after :: "char \<Rightarrow> string \<Rightarrow> bool" where
  "breaks_after c s \<longleftrightarrow>
     c \<in> set ''.!?'' \<and> dropWhile is_space s \<noteq> s \<and> (case dropWhile is_space s of [] \<Rightarrow> False | d # _ \<Rightarrow> is_upper d)"

function sentences :: "string \<Rightarrow> string \<Rightarrow> string list" where
  "sentences acc [] = [acc]"
| "sentences acc (c # s) =
     (if breaks_after c s then (acc @ [c]) # sentences [] (dropWhile is_space s) else sentences (acc @ [c]) s)"
  by pat_completeness auto
termination
  by (relation "measure (length \<circ> snd)") (auto simp: le_imp_less_Suc length_dropWhile_le)

definition approx_tokens :: "string \<Rightarrow> nat" where
  "approx_tokens s = nat \<lfloor>(of_nat (length (words_of s)) :: rat) * 1.3\<rfloor> + 1"

text \<open>The sentences from the end, as long as they fit into the overlap.\<close>

fun tail_loop :: "nat \<Rightarrow> nat \<Rightarrow> string list \<Rightarrow> string list \<Rightarrow> string list" where
  "tail_loop overlap tokens [] out = out"
| "tail_loop overlap tokens (s # rest) out =
     (if tokens + approx_tokens s > overlap then out else tail_loop overlap (tokens + approx_tokens s) rest (s # out))"

definition tail_with_overlap :: "string list \<Rightarrow> nat \<Rightarrow> string list" where
  "tail_with_overlap ss overlap = tail_loop overlap 0 (rev ss) []"

definition tokens_of :: "string list \<Rightarrow> nat" where
  "tokens_of ss = sum_list (map approx_tokens ss)"

text \<open>The loop over the sentences gives the chunks as lists of sentences; the source joins each with blanks.\<close>

fun chunk_loop :: "nat \<Rightarrow> nat \<Rightarrow> string list \<Rightarrow> nat \<Rightarrow> string list \<Rightarrow> string list list" where
  "chunk_loop target overlap current current_tokens [] = (if current = [] then [] else [current])"
| "chunk_loop target overlap current current_tokens (sent # rest) =
     (let st = approx_tokens sent in
      if current_tokens + st > target \<and> current \<noteq> []
      then let keep = tail_with_overlap current overlap in
        current # chunk_loop target overlap (keep @ [sent]) (tokens_of keep + st) rest
      else chunk_loop target overlap (current @ [sent]) (current_tokens + st) rest)"

definition chunk_section :: "nat \<Rightarrow> nat \<Rightarrow> string \<Rightarrow> string list" where
  "chunk_section target overlap body =
     (if strip body = [] then []
      else filter (\<lambda>c. c \<noteq> []) (map (\<lambda>ss. strip (join_with '' '' ss)) (chunk_loop target overlap [] 0 (sentences [] body))))"

definition split_filing :: "nat \<Rightarrow> nat \<Rightarrow> filing \<Rightarrow> chunk list" where
  "split_filing target_tokens overlap_tokens f =
     (let texts = concat (map (\<lambda>(section_id, body). map (\<lambda>c. (section_id, c)) (chunk_section target_tokens overlap_tokens body))
                    (split_by_item (fl_text f))) in
      map (\<lambda>(idx, section_id, c). \<lparr>ck_parent_doc = fl_accession f, ck_section = section_id, ck_idx = idx, ck_text = c,
                                   ck_token_count = approx_tokens c\<rparr>) (zip [0..<length texts] texts))"

section \<open>Index and source\<close>

definition PREFERRED_SECTIONS :: "string list" where
  "PREFERRED_SECTIONS = [''Item 7'', ''Item 1A'', ''Item 7A'', ''Item 1'']"

type_synonym filings_index = "(string, chunk list) dict"

definition chunks_of :: "filings_index \<Rightarrow> string \<Rightarrow> chunk list" where
  "chunks_of ix ticker = (case map_of ix ticker of None \<Rightarrow> [] | Some cs \<Rightarrow> cs)"

definition index_add :: "string \<Rightarrow> chunk list \<Rightarrow> filings_index \<Rightarrow> filings_index" where
  "index_add ticker cs ix = AList.update ticker (chunks_of ix ticker @ cs) ix"

definition chunk_score :: "string list \<Rightarrow> chunk \<Rightarrow> rat" where
  "chunk_score terms c =
     of_nat (length (filter (\<lambda>t. occurs_in t (lower (ck_text c))) terms)) + (if ck_section c \<in> set PREFERRED_SECTIONS then 1/2 else 0)"

definition index_query :: "filings_index \<Rightarrow> string \<Rightarrow> string \<Rightarrow> nat \<Rightarrow> chunk list" where
  "index_query ix ticker q k =
     (let terms = remdups (map lower (filter (\<lambda>t. length t > 3) (words_of q))) in
      take k (sort_key (\<lambda>c. - chunk_score terms c) (filter (\<lambda>c. chunk_score terms c > 0) (chunks_of ix ticker))))"

definition latest_for :: "(string, filing list) dict \<Rightarrow> string \<Rightarrow> filing list" where
  "latest_for by_ticker ticker = (case map_of by_ticker ticker of None \<Rightarrow> [] | Some fs \<Rightarrow> fs)"

section \<open>Valuation\<close>

record dcf_inputs =
  dc_starting_fcf_usd :: rat
  dc_growth_rates :: "rat list"
  dc_terminal_growth :: rat
  dc_wacc :: rat
  dc_net_debt_usd :: rat
  dc_shares_outstanding :: rat

record dcf_result =
  dr_enterprise_value_usd :: rat
  dr_equity_value_usd :: rat
  dr_fair_value_per_share_usd :: rat
  dr_pv_terminal_usd :: rat

datatype dcf_error = DcfValueError | DcfZeroDivision

text \<open>The loop: the last cash flow and the sum of the discounted ones, from year \<open>i\<close> on.\<close>

fun dcf_loop :: "rat \<Rightarrow> nat \<Rightarrow> rat \<Rightarrow> rat list \<Rightarrow> rat \<times> rat list" where
  "dcf_loop wacc i fcf [] = (fcf, [])"
| "dcf_loop wacc i fcf (g # gs) =
     (let fcf' = fcf * (1 + g); (end_fcf, ds) = dcf_loop wacc (i + 1) fcf' gs in (end_fcf, fcf' / (1 + wacc) ^ i # ds))"

definition dcf_value :: "dcf_inputs \<Rightarrow> dcf_error + dcf_result" where
  "dcf_value inp =
     (if dc_wacc inp \<le> dc_terminal_growth inp then Inl DcfValueError
      else if dc_growth_rates inp \<noteq> [] \<and> 1 + dc_wacc inp = 0 then Inl DcfZeroDivision
      else let (fcf, discounted) = dcf_loop (dc_wacc inp) 1 (dc_starting_fcf_usd inp) (dc_growth_rates inp);
               n = length (dc_growth_rates inp);
               terminal_value = fcf * (1 + dc_terminal_growth inp) / (dc_wacc inp - dc_terminal_growth inp);
               pv_terminal = terminal_value / (1 + dc_wacc inp) ^ n;
               ev = sum_list discounted + pv_terminal;
               equity = ev - dc_net_debt_usd inp in
        Inr \<lparr>dr_enterprise_value_usd = ev, dr_equity_value_usd = equity,
             dr_fair_value_per_share_usd = (if dc_shares_outstanding inp \<noteq> 0 then equity / dc_shares_outstanding inp else 0),
             dr_pv_terminal_usd = pv_terminal\<rparr>)"

type_synonym multiples = "(string, rat option) dict"

record multiples_summary =
  ms_pe :: "rat option"
  ms_pe_peer_median :: "rat option"
  ms_pe_premium_pct :: "rat option"
  ms_ev_ebitda :: "rat option"
  ms_ev_ebitda_peer_median :: "rat option"
  ms_fcf_yield :: "rat option"
  ms_fcf_yield_peer_median :: "rat option"

definition mget :: "multiples \<Rightarrow> string \<Rightarrow> rat option" where
  "mget m key = (case map_of m key of Some v \<Rightarrow> v | None \<Rightarrow> None)"

definition peer_median :: "(string, multiples) dict \<Rightarrow> string \<Rightarrow> rat option" where
  "peer_median peers key =
     (let xs = sort (List.map_filter (\<lambda>(p, m). mget m key) peers); mid = length xs div 2 in
      if xs = [] then None
      else if length xs mod 2 \<noteq> 0 then Some (xs ! mid) else Some ((xs ! (mid - 1) + xs ! mid) / 2))"

definition peer_multiples_summary :: "multiples \<Rightarrow> (string, multiples) dict \<Rightarrow> multiples_summary" where
  "peer_multiples_summary target peers =
     (let pe = mget target ''pe''; pe_med = peer_median peers ''pe'' in
      \<lparr>ms_pe = pe, ms_pe_peer_median = pe_med,
       ms_pe_premium_pct = (case (pe, pe_med) of (Some p, Some m) \<Rightarrow> if m \<noteq> 0 then Some (p / m - 1) else None | _ \<Rightarrow> None),
       ms_ev_ebitda = mget target ''ev_ebitda'', ms_ev_ebitda_peer_median = peer_median peers ''ev_ebitda'',
       ms_fcf_yield = mget target ''fcf_yield'', ms_fcf_yield_peer_median = peer_median peers ''fcf_yield''\<rparr>)"

section \<open>The cash flow model\<close>

lemma dcf_loop_gordon:
  assumes "0 < 1 + w" and "g < w"
  shows "case dcf_loop w (Suc j) fcf (replicate n g) of (E, ds) \<Rightarrow>
    sum_list ds + E * (1 + g) / (w - g) / (1 + w) ^ (j + n) = fcf * (1 + g) / (w - g) / (1 + w) ^ j"
proof (induction n arbitrary: j fcf)
  case (Suc n)
  let ?f = "fcf * (1 + g)" and ?p = "(1 + w) ^ Suc j"
  obtain E ds where l: "dcf_loop w (Suc (Suc j)) ?f (replicate n g) = (E, ds)" by (rule prod.exhaust)
  have IH: "sum_list ds + E * (1 + g) / (w - g) / (1 + w) ^ (Suc j + n) = ?f * (1 + g) / (w - g) / ?p"
    using Suc.IH [of "Suc j" ?f] l by simp
  have nz: "w - g \<noteq> 0" "(1 + w) ^ j \<noteq> 0" "1 + w \<noteq> 0" using assms by auto
  define x where "x = ?f / ?p"
  have "?f / ?p + ?f * (1 + g) / (w - g) / ?p = x + x * (1 + g) / (w - g)" by (simp add: x_def)
  also have "\<dots> = (x * (w - g) + x * (1 + g)) / (w - g)" using nz(1) by (simp add: add_divide_distrib)
  also have "x * (w - g) + x * (1 + g) = x * (1 + w)" by (simp add: algebra_simps)
  also have "x * (1 + w) = ?f / (1 + w) ^ j" using nz by (simp add: x_def)
  also have "?f / (1 + w) ^ j / (w - g) = ?f / (w - g) / (1 + w) ^ j" by (simp add: mult.commute)
  finally have eq: "?f / ?p + ?f * (1 + g) / (w - g) / ?p = ?f / (w - g) / (1 + w) ^ j" .
  have step: "dcf_loop w (Suc j) fcf (replicate (Suc n) g) = (E, ?f / ?p # ds)" using l by (simp add: Let_def)
  show ?case unfolding step prod.case sum_list.Cons using IH eq by (simp only: add_Suc_right add_Suc)
qed simp

text \<open>
  C17: With every growth rate equal to the terminal one, the enterprise value is that of Gordon's formula, whatever the
  number of projected years is; the equity and the value per share follow from it.
\<close>

theorem constant_growth_is_gordon:
  assumes "dc_growth_rates inp = replicate n (dc_terminal_growth inp)"
    and "dc_terminal_growth inp < dc_wacc inp" and "0 < 1 + dc_wacc inp" and "dc_shares_outstanding inp \<noteq> 0"
  shows "\<exists>r. dcf_value inp = Inr r
    \<and> dr_enterprise_value_usd r = dc_starting_fcf_usd inp * (1 + dc_terminal_growth inp) / (dc_wacc inp - dc_terminal_growth inp)
    \<and> dr_fair_value_per_share_usd r = (dr_enterprise_value_usd r - dc_net_debt_usd inp) / dc_shares_outstanding inp"
proof -
  let ?w = "dc_wacc inp" and ?g = "dc_terminal_growth inp" and ?f = "dc_starting_fcf_usd inp"
  obtain E ds where l: "dcf_loop ?w 1 ?f (replicate n ?g) = (E, ds)" by (rule prod.exhaust)
  have "sum_list ds + E * (1 + ?g) / (?w - ?g) / (1 + ?w) ^ n = ?f * (1 + ?g) / (?w - ?g)"
    using dcf_loop_gordon [OF assms(3,2), where j = 0 and fcf = ?f and n = n] l by simp
  then show ?thesis using assms l by (simp add: dcf_value_def Let_def not_le)
qed

theorem constant_growth_is_gordon_witness:
  "\<exists>r. dcf_value \<lparr>dc_starting_fcf_usd = 100, dc_growth_rates = [0.02, 0.02], dc_terminal_growth = 0.02, dc_wacc = 0.1,
       dc_net_debt_usd = 0, dc_shares_outstanding = 10\<rparr> = Inr r \<and> dr_enterprise_value_usd r = 1275"
  using constant_growth_is_gordon
    [of "\<lparr>dc_starting_fcf_usd = 100, dc_growth_rates = [0.02, 0.02], dc_terminal_growth = 0.02, dc_wacc = 0.1,
       dc_net_debt_usd = 0, dc_shares_outstanding = 10\<rparr>" 2]
  by (auto simp: numeral_2_eq_2)

section \<open>No sentence is lost\<close>

text \<open>
  Chunks that cover the sentences in order: each is a kept part, of at most the overlap and the end of the chunk before,
  and new sentences, at least one.
\<close>

inductive chains :: "nat \<Rightarrow> string list \<Rightarrow> string list list \<Rightarrow> string list \<Rightarrow> bool" for overlap where
  chains_Nil: "chains overlap prev [] []"
| chains_Cons: "fresh \<noteq> [] \<Longrightarrow> prev = p @ k \<Longrightarrow> tokens_of k \<le> overlap \<Longrightarrow> chains overlap (k @ fresh) cs rest
    \<Longrightarrow> chains overlap prev ((k @ fresh) # cs) (fresh @ rest)"

lemma tail_loop_suffix:
  "tokens = tokens_of out \<Longrightarrow> tokens \<le> overlap \<Longrightarrow>
    tokens_of (tail_loop overlap tokens xs out) \<le> overlap \<and> (\<exists>p. rev xs @ out = p @ tail_loop overlap tokens xs out)"
proof (induction overlap tokens xs out rule: tail_loop.induct)
  case (2 overlap tokens s rest out)
  show ?case
  proof (cases "tokens + approx_tokens s > overlap")
    case False
    then have "tokens_of (tail_loop overlap (tokens + approx_tokens s) rest (s # out)) \<le> overlap
      \<and> (\<exists>p. rev rest @ s # out = p @ tail_loop overlap (tokens + approx_tokens s) rest (s # out))"
      using 2 by (simp add: tokens_of_def)
    then show ?thesis using False by simp
  qed (use 2 in auto)
qed auto

lemma tail_with_overlap_suffix:
  "tokens_of (tail_with_overlap ss overlap) \<le> overlap \<and> (\<exists>p. ss = p @ tail_with_overlap ss overlap)"
  using tail_loop_suffix [of 0 "[]" overlap "rev ss"] by (simp add: tail_with_overlap_def tokens_of_def)

lemma chunk_loop_chains:
  "fresh \<noteq> [] \<Longrightarrow> prev = p @ k \<Longrightarrow> tokens_of k \<le> overlap \<Longrightarrow>
    chains overlap prev (chunk_loop target overlap (k @ fresh) ct ss) (fresh @ ss)"
proof (induction ss arbitrary: prev p k fresh ct)
  case Nil
  then show ?case using chains_Cons [OF Nil(1-3) chains_Nil] by simp
next
  case (Cons s ss)
  let ?keep = "tail_with_overlap (k @ fresh) overlap"
  show ?case
  proof (cases "ct + approx_tokens s > target")
    case True
    obtain q where q: "k @ fresh = q @ ?keep" "tokens_of ?keep \<le> overlap" using tail_with_overlap_suffix by blast
    have "chains overlap (k @ fresh) (chunk_loop target overlap (?keep @ [s]) (tokens_of ?keep + approx_tokens s) ss) ([s] @ ss)"
      using q by (intro Cons.IH) auto
    from chains_Cons [OF Cons.prems this] show ?thesis using True Cons.prems(1) by (simp add: Let_def)
  next
    case False
    have "chains overlap prev (chunk_loop target overlap (k @ (fresh @ [s])) (ct + approx_tokens s) ss) ((fresh @ [s]) @ ss)"
      using Cons.prems by (intro Cons.IH) auto
    then show ?thesis using False by (simp add: Let_def)
  qed
qed

text \<open>
  C25: The chunks of a section cover its sentences in order: each chunk begins with at most the overlap's tokens from the
  end of the chunk before and goes on with at least one new sentence, and the new parts together are all the sentences.
\<close>

theorem chunks_cover_sentences:
  "chains overlap [] (chunk_loop target overlap [] 0 ss) ss"
proof (cases ss)
  case (Cons s rest)
  then show ?thesis using chunk_loop_chains [of "[s]" "[]" "[]" "[]" overlap target "approx_tokens s" rest]
    by (simp add: Let_def tokens_of_def)
qed (simp add: chains_Nil)

text \<open>
  With sentences of at most \<open>m\<close> tokens, a chunk has at most the target's tokens, or those of the overlap and one
  sentence, whichever is more.
\<close>

theorem chunk_size_bounded:
  assumes "list_all (\<lambda>s. approx_tokens s \<le> m) ss"
  shows "list_all (\<lambda>c. tokens_of c \<le> max target (overlap + m)) (chunk_loop target overlap [] 0 ss)"
proof -
  have "list_all (\<lambda>c. tokens_of c \<le> max target (overlap + m)) (chunk_loop target overlap current (tokens_of current) ss)"
    if "tokens_of current \<le> max target (overlap + m)" for current
    using assms that
  proof (induction ss arbitrary: current)
    case (Cons s ss)
    let ?keep = "tail_with_overlap current overlap"
    have add: "tokens_of (xs @ [s]) = tokens_of xs + approx_tokens s" for xs by (simp add: tokens_of_def)
    show ?case
    proof (cases "tokens_of current + approx_tokens s > target \<and> current \<noteq> []")
      case True
      have "tokens_of (?keep @ [s]) \<le> overlap + m"
        unfolding add using Cons.prems(1) tail_with_overlap_suffix [of current overlap] by (simp add: add_mono)
      then have "tokens_of (?keep @ [s]) \<le> max target (overlap + m)" by simp
      then have "list_all (\<lambda>c. tokens_of c \<le> max target (overlap + m)) (chunk_loop target overlap (?keep @ [s]) (tokens_of (?keep @ [s])) ss)"
        using Cons by simp
      moreover have "chunk_loop target overlap current (tokens_of current) (s # ss)
          = current # chunk_loop target overlap (?keep @ [s]) (tokens_of (?keep @ [s])) ss"
        using True by (simp only: chunk_loop.simps Let_def if_True add simp_thms)
      ultimately show ?thesis using Cons.prems(2) by simp
    next
      case False
      then have "tokens_of (current @ [s]) \<le> max target (overlap + m)"
        unfolding add using Cons.prems(1) by (auto simp: tokens_of_def)
      then have "list_all (\<lambda>c. tokens_of c \<le> max target (overlap + m)) (chunk_loop target overlap (current @ [s]) (tokens_of (current @ [s])) ss)"
        using Cons by simp
      moreover have "chunk_loop target overlap current (tokens_of current) (s # ss)
          = chunk_loop target overlap (current @ [s]) (tokens_of (current @ [s])) ss"
        using False by (simp only: chunk_loop.simps Let_def if_False add)
      ultimately show ?thesis by simp
    qed
  qed auto
  from this [of "[]"] show ?thesis by (simp add: tokens_of_def)
qed

theorem chunk_size_bounded_witness:
  "list_all (\<lambda>c. tokens_of c \<le> 6) (chunk_loop 5 3 [] 0 [''a b'', ''c d'', ''e''])"
proof -
  have "words_of ''a b'' = [''a'', ''b'']" "words_of ''c d'' = [''c'', ''d'']" "words_of ''e'' = [''e'']" by code_simp+
  moreover have "\<lfloor>13 / 5 :: rat\<rfloor> = 2" "\<lfloor>13 / 10 :: rat\<rfloor> = 1" by (rule floor_unique; simp)+
  ultimately have "list_all (\<lambda>s. approx_tokens s \<le> 3) [''a b'', ''c d'', ''e'']" by (simp add: approx_tokens_def)
  from chunk_size_bounded [OF this, of 5 3] show ?thesis by simp
qed

section \<open>The line under a heading\<close>

definition no_item :: "string \<Rightarrow> bool" where
  "no_item s \<longleftrightarrow> list_all (\<lambda>c. lower_char c \<noteq> CHR ''i'') s"

lemma scan_no_item: "no_item s \<Longrightarrow> scan_items bol s = (s, [])"
proof (induction s arbitrary: bol)
  case Nil
  then show ?case by (simp add: scan_items.simps [of _ "[]"] match_item_def lower_def)
next
  case (Cons c s)
  let ?s1 = "dropWhile is_space (c # s)"
  have "set (take 4 ?s1) \<subseteq> set (c # s)" by (meson in_set_takeD set_dropWhileD subsetI)
  then have "list_all (\<lambda>c. lower_char c \<noteq> CHR ''i'') (take 4 ?s1)" using Cons.prems by (auto simp: no_item_def list_all_iff)
  then have "lower (take 4 ?s1) \<noteq> ''item''" by (cases "take 4 ?s1") (auto simp: lower_def)
  then have "match_item (c # s) = None" by (simp add: match_item_def Let_def)
  then show ?case using Cons by (subst scan_items.simps) (simp add: no_item_def)
qed

lemma is_space_newline: "is_space newline" "\<not> is_alnum newline" by code_simp+

lemma alnum_not_space: "is_alnum c \<Longrightarrow> \<not> is_space c"
  by (auto simp: is_alnum_def is_digit_def is_upper_def is_lower_def in_range_def is_space_def Let_def)

text \<open>
  When the title of an item is not on the line of its number, the first line of its text is taken for the title and
  lost: the section holds only what comes after that line, whatever the line says.
\<close>

theorem line_under_heading_is_lost:
  assumes "ident \<noteq> []" and "list_all is_alnum ident" and "line \<noteq> []" and "\<not> is_space (hd line)"
    and "newline \<notin> set line" and "no_item body"
  shows "split_by_item (''Item '' @ ident @ [newline] @ line @ [newline] @ body) = [(''Item '' @ ident, strip body)]"
proof -
  obtain c cs where ic: "ident = c # cs" using assms(1) by (cases ident) auto
  obtain d ds where ld: "line = d # ds" using assms(3) by (cases line) auto
  let ?s = "''Item '' @ ident @ [newline] @ line @ [newline] @ body"
  have low: "lower ''Item'' = ''item''" by code_simp
  have start: "dropWhile is_space ?s = ?s" "lower (take 4 ?s) = ''item''" "drop 4 ?s = CHR '' '' # ident @ [newline] @ line @ [newline] @ body"
    by (simp_all add: is_space_def low)
  have "\<not> is_space c" using assms(2) ic alnum_not_space by simp
  then have s3: "dropWhile is_space (CHR '' '' # ident @ [newline] @ line @ [newline] @ body) = ident @ [newline] @ line @ [newline] @ body"
    by (simp add: ic is_space_def)
  have tw: "takeWhile is_alnum (ident @ [newline] @ line @ [newline] @ body) = ident"
    "dropWhile is_alnum (ident @ [newline] @ line @ [newline] @ body) = newline # line @ [newline] @ body"
    using assms(2) is_space_newline by (simp_all add: takeWhile_append dropWhile_append list_all_iff)
  have "dropWhile (\<lambda>c. c \<noteq> newline) (line @ newline # body) = newline # body"
    using assms(5) by (simp add: dropWhile_append)
  moreover have "dropWhile is_space (newline # line @ [newline] @ body) = line @ newline # body"
    using assms(4) is_space_newline by (simp add: ld)
  ultimately have "match_item ?s = Some (ident, newline # body)"
    unfolding match_item_def Let_def start s3 tw using assms(1) by simp
  moreover have "no_item (newline # body)" using assms(6) by (simp add: no_item_def lower_char_def)
  then have "scan_items False (newline # body) = (newline # body, [])" by (rule scan_no_item)
  ultimately have "scan_items True ?s = ([], [(ident, newline # body)])" by (subst scan_items.simps) simp
  moreover have "strip (newline # body) = strip body" using is_space_newline by (simp add: strip_def)
  ultimately show ?thesis by (simp add: split_by_item_def)
qed

theorem line_under_heading_is_lost_witness:
  "split_by_item (''Item '' @ ''1A'' @ [newline] @ ''We may run out of cash.'' @ [newline] @ ''Other news.'')
     = [(''Item '' @ ''1A'', strip ''Other news.'')]"
proof (rule line_under_heading_is_lost)
  show "list_all is_alnum ''1A''" "\<not> is_space (hd ''We may run out of cash.'')" "no_item ''Other news.''" by code_simp+
qed simp_all

end
