(* ===== verification/FundTeam.thy ===== *)
theory FundTeam
  imports FundFilings PersonaReasoner DataBus "HOL-Library.List_Lexorder" "HOL-Library.Char_ord"
begin

text \<open>
  The fundamental agent's selection and writing (\<^verbatim>\<open>apps/agent_fundamental/fund/\<close>): the watchlist
  (\<^verbatim>\<open>watchlist.py\<close>), the scorer of events (\<^verbatim>\<open>linker.py\<close>), the daily coverage (\<^verbatim>\<open>coverage.py\<close>), the
  advice with its citation guard (\<^verbatim>\<open>writer.py\<close>, \<^verbatim>\<open>publish.py\<close>), the team plan (\<^verbatim>\<open>team_plan.py\<close>) and the
  endpoints (\<^verbatim>\<open>main.py\<close>). The language model, the source of filings and Pydantic's parsing are parameters.
\<close>

section \<open>Watchlist and events\<close>

record watchlist_entry =
  we_ticker :: string
  we_venue :: string
  we_sector :: string
  we_thesis_tag :: string
  we_peers :: "string list"

definition entry_of :: "pystd \<Rightarrow> json \<Rightarrow> exn + watchlist_entry" where
  "entry_of py row =
     (case row of
        JObj d \<Rightarrow>
          res_bind (jitem row ''ticker'') (\<lambda>t. res_bind (jitem row ''venue'') (\<lambda>v. res_bind (jitem row ''sector'') (\<lambda>s.
          res_bind (items_of (jget_or row ''peers'' (JArr []))) (\<lambda>ps.
          Inr \<lparr>we_ticker = to_str py t, we_venue = to_str py v, we_sector = to_str py s,
               we_thesis_tag = to_str py (jget_or row ''thesis_tag'' (JStr [])), we_peers = map (to_str py) ps\<rparr>))))
      | _ \<Rightarrow> Inl (ValueError ''expected mapping''))"

definition load_watchlist :: "pystd \<Rightarrow> json \<Rightarrow> exn + watchlist_entry list" where
  "load_watchlist py raw =
     (case raw of
        JArr rows \<Rightarrow> those_res (map (\<lambda>row. case entry_of py row of Inl (KeyError k) \<Rightarrow> Inl (ValueError (''missing key '' @ k)) | r \<Rightarrow> r) rows)
      | _ \<Rightarrow> Inl (ValueError ''expected a list of watchlist entries''))"

record link_score =
  ls_ticker :: string
  ls_event_id :: string
  ls_score :: rat
  ls_reasons :: "string list"

definition ALPHA :: rat where "ALPHA = 0.4"
definition BETA :: rat where "BETA = 0.4"
definition GAMMA :: rat where "GAMMA = 0.2"

definition sector_hit :: "(string, string list) dict \<Rightarrow> string \<Rightarrow> watchlist_entry \<Rightarrow> rat" where
  "sector_hit sector_index txt e =
     (let hit = (if we_ticker e \<in> set (case map_of sector_index (we_sector e) of None \<Rightarrow> [] | Some ts \<Rightarrow> ts) then 1 else 0) in
      if we_sector e \<noteq> [] \<and> occurs_in (lower (we_sector e)) txt then max hit (1/2) else hit)"

definition score_entry_for :: "intel_event \<Rightarrow> (string, string list) dict \<Rightarrow> watchlist_entry \<Rightarrow> link_score" where
  "score_entry_for ev sector_index e =
     (let txt = lower (ie_headline ev @ '' '' @ ie_why_it_matters ev); assets = map upper (ie_primary_asset_links ev);
          asset_hit = (if upper (we_ticker e) \<in> set assets then 1 else 0);
          peer = List.find (\<lambda>p. upper p \<in> set assets \<or> occurs_in (lower p) txt) (we_peers e);
          reasons = (if we_sector e \<noteq> [] \<and> occurs_in (lower (we_sector e)) txt then [''sector match: '' @ we_sector e] else [])
            @ (if asset_hit \<noteq> 0 then [''primary_asset_link''] else [])
            @ (case peer of None \<Rightarrow> [] | Some p \<Rightarrow> [''peer mention: '' @ p]) in
      \<lparr>ls_ticker = we_ticker e, ls_event_id = ie_id ev,
       ls_score = ALPHA * sector_hit sector_index txt e + BETA * asset_hit + GAMMA * (if peer = None then 0 else 1), ls_reasons = reasons\<rparr>)"

text \<open>The sort by descending score and ticker is two stable sorts.\<close>

definition sort_links :: "link_score list \<Rightarrow> link_score list" where
  "sort_links ls = sort_key (\<lambda>l. - ls_score l) (sort_key ls_ticker ls)"

definition score_event :: "intel_event \<Rightarrow> watchlist_entry list \<Rightarrow> (string, string list) dict \<Rightarrow> link_score list" where
  "score_event ev entries sector_index =
     sort_links (filter (\<lambda>l. ls_score l > 0) (map (score_entry_for ev sector_index) entries))"

definition top_k :: "link_score list \<Rightarrow> nat \<Rightarrow> link_score list" where
  "top_k scores k = take k scores"

section \<open>Coverage\<close>

definition DEFAULT_DAILY_CAP :: nat where "DEFAULT_DAILY_CAP = 8"
definition FRESHNESS_DAYS :: int where "FRESHNESS_DAYS = 14"

definition is_fresh :: "(string, seconds) dict \<Rightarrow> seconds \<Rightarrow> string \<Rightarrow> bool" where
  "is_fresh last_advice_at now t =
     (case map_of last_advice_at t of None \<Rightarrow> True | Some at_time \<Rightarrow> at_time < now - days FRESHNESS_DAYS)"

fun select_loop :: "(string \<Rightarrow> bool) \<Rightarrow> nat \<Rightarrow> string list \<Rightarrow> string list \<Rightarrow> string list \<Rightarrow> string list \<Rightarrow> string list \<times> string list" where
  "select_loop fresh_p cap seen fresh stale [] = (fresh, stale)"
| "select_loop fresh_p cap seen fresh stale (t # ts) =
     (if t \<in> set seen then select_loop fresh_p cap seen fresh stale ts
      else let fresh' = (if fresh_p t then fresh @ [t] else fresh); stale' = (if fresh_p t then stale else stale @ [t]) in
        if length fresh' \<ge> cap then (fresh', stale') else select_loop fresh_p cap (t # seen) fresh' stale' ts)"

definition select_coverage :: "(string, seconds) dict \<Rightarrow> seconds \<Rightarrow> nat \<Rightarrow> link_score list \<Rightarrow> string list" where
  "select_coverage last_advice_at now cap scores =
     (case select_loop (is_fresh last_advice_at now) cap [] [] [] (map ls_ticker (sort_links scores)) of
        (fresh, stale) \<Rightarrow> (let chosen = take cap fresh in if length chosen < cap then chosen @ take (cap - length chosen) stale else chosen))"

section \<open>The citation guard\<close>

text \<open>
  The three expressions at a position: the text after the match. They are deterministic: a shorter number is always followed
  by one of the characters it could have had, never by a sign the expression wants.
\<close>

datatype numeric_pattern = Percent | Dollars | Multiple

definition fraction_end :: "string \<Rightarrow> string" where
  "fraction_end r =
     (case r of c # d # t \<Rightarrow> if c = CHR ''.'' \<and> is_digit d then dropWhile is_digit t else r | _ \<Rightarrow> r)"

definition number_end :: "string \<Rightarrow> string option" where
  "number_end s = (case s of [] \<Rightarrow> None | c # t \<Rightarrow> if is_digit c then Some (fraction_end (dropWhile is_digit t)) else None)"

definition skip_space :: "string \<Rightarrow> string" where
  "skip_space s = (case s of [] \<Rightarrow> [] | c # t \<Rightarrow> if is_space c then t else s)"

definition then_char :: "char set \<Rightarrow> string \<Rightarrow> string option" where
  "then_char cs s = (case s of [] \<Rightarrow> None | c # t \<Rightarrow> if c \<in> cs then Some t else None)"

fun match_pattern :: "numeric_pattern \<Rightarrow> string \<Rightarrow> string option" where
  "match_pattern Percent s = Option.bind (number_end s) (\<lambda>r. then_char {CHR ''%''} (skip_space r))"
| "match_pattern Multiple s = Option.bind (number_end s) (\<lambda>r. then_char {CHR ''x'', CHR 0xD7} (skip_space r))"
| "match_pattern Dollars s =
     Option.bind (then_char {CHR ''$''} s) (\<lambda>r.
       (case skip_space r of
          [] \<Rightarrow> None
        | c # t \<Rightarrow> if is_digit c then Some (fraction_end (dropWhile (\<lambda>d. is_digit d \<or> d = CHR '','') t)) else None))"

fun has_citation :: "string \<Rightarrow> bool" where
  "has_citation [] = False"
| "has_citation (c # s) =
     (list_ex (\<lambda>k. starts_with k (c # s) \<and> CHR '']'' \<in> set (drop (length k) (c # s))) [''[ref'', ''[cite'', ''[source'']
      \<or> has_citation s)"

lemma fraction_end_length: "length (fraction_end r) \<le> length r"
  by (auto simp: fraction_end_def le_SucI length_dropWhile_le split: list.split)

lemma number_end_length: "number_end s = Some r \<Longrightarrow> length r < length s"
  by (auto simp: number_end_def split: list.splits if_splits
      intro!: le_imp_less_Suc order.trans [OF fraction_end_length length_dropWhile_le])

lemma skip_space_length: "length (skip_space s) \<le> length s"
  by (cases s) (simp_all add: skip_space_def)

lemma then_char_length: "then_char cs s = Some r \<Longrightarrow> length r < length s"
  by (auto simp: then_char_def split: list.splits if_splits)

lemma number_then_length:
  "Option.bind (number_end s) (\<lambda>r. then_char cs (skip_space r)) = Some r \<Longrightarrow> length r < length s"
  by (auto simp: bind_eq_Some_conv dest!: number_end_length then_char_length)
     (meson less_trans order.strict_trans2 skip_space_length)

lemma match_pattern_length: "match_pattern p s = Some r \<Longrightarrow> length r < length s"
proof (cases p)
  case Dollars
  let ?P = "\<lambda>d. is_digit d \<or> d = CHR '',''"
  assume m: "match_pattern p s = Some r"
  then obtain r1 where r1: "then_char {CHR ''$''} s = Some r1"
    and r: "(case skip_space r1 of [] \<Rightarrow> None | c # t \<Rightarrow> if is_digit c then Some (fraction_end (dropWhile ?P t)) else None) = Some r"
    using Dollars by (auto simp: bind_eq_Some_conv)
  then obtain c t where "skip_space r1 = c # t" "r = fraction_end (dropWhile ?P t)"
    by (cases "skip_space r1") (auto split: if_splits)
  then show ?thesis
    using then_char_length [OF r1] skip_space_length [of r1] fraction_end_length [of "dropWhile ?P t"] length_dropWhile_le [of ?P t]
    by simp
qed (auto dest: number_then_length)

text \<open>The matches from left to right: is each followed by a citation within 50 characters?\<close>

function all_cited :: "numeric_pattern \<Rightarrow> string \<Rightarrow> bool" where
  "all_cited p s =
     (case match_pattern p s of
        Some rest \<Rightarrow> has_citation (take 50 rest) \<and> all_cited p rest
      | None \<Rightarrow> (case s of [] \<Rightarrow> True | c # t \<Rightarrow> all_cited p t))"
  by auto
termination
  by (relation "measure (length \<circ> snd)") (auto dest: match_pattern_length)

declare all_cited.simps [simp del]

definition guard_citations :: "string \<Rightarrow> string + unit" where
  "guard_citations thesis =
     (if list_all (\<lambda>p. all_cited p thesis) [Percent, Dollars, Multiple] then Inr () else Inl ''numeric claim lacks a citation within 50 chars'')"

section \<open>The advice\<close>

record valuation_case =
  vc_base :: rat
  vc_bull :: rat
  vc_bear :: rat
  vc_target_12m :: rat
  vc_assumptions :: "string list"
  vc_catalysts :: "string list"

record writer_context =
  wc_entry :: watchlist_entry
  wc_missing_pct :: rat
  wc_valuation :: valuation_case
  wc_current_price :: rat

definition INSUFFICIENT_DATA_THRESHOLD :: rat where "INSUFFICIENT_DATA_THRESHOLD = 0.3"
definition HORIZON_DAYS :: int where "HORIZON_DAYS = 90"

definition derive_direction :: "rat \<Rightarrow> rat \<Rightarrow> direction" where
  "derive_direction target_mid current_price =
     (if current_price \<le> 0 then Flat
      else let ratio = target_mid / current_price in if ratio > 1.1 then Long else if ratio < 0.9 then Short else Flat)"

definition entry_band_of :: "rat \<Rightarrow> direction \<Rightarrow> rat \<times> rat" where
  "entry_band_of current d =
     (case d of Long \<Rightarrow> (current * 0.97, current * 1.01) | Short \<Rightarrow> (current * 0.99, current * 1.03) | Flat \<Rightarrow> (current, current))"

definition stop_loss_of :: "rat \<Rightarrow> direction \<Rightarrow> rat" where
  "stop_loss_of current d = (case d of Long \<Rightarrow> current * 0.92 | Short \<Rightarrow> current * 1.08 | Flat \<Rightarrow> current)"

definition round3 :: "rat \<Rightarrow> rat" where
  "round3 x = of_int (round_half_even (1000 * x)) / 1000"

definition case_confidence :: "valuation_case \<Rightarrow> rat \<Rightarrow> rat" where
  "case_confidence v current =
     (if current \<le> 0 then 0.05
      else let spread = (vc_bull v - vc_bear v) / current in round3 (max 0.05 (min 0.9 (0.6 - spread))))"

definition fund_prompt :: "writer_context \<Rightarrow> string" where
  "fund_prompt ctx =
     ''Ticker='' @ we_ticker (wc_entry ctx) @ '' sector='' @ we_sector (wc_entry ctx) @ '' current='' @ fmt2 (wc_current_price ctx)
     @ '' base='' @ fmt2 (vc_base (wc_valuation ctx)) @ '' bull='' @ fmt2 (vc_bull (wc_valuation ctx)) @ '' bear='' @ fmt2 (vc_bear (wc_valuation ctx))
     @ '' assumptions='' @ join_with ''; '' (vc_assumptions (wc_valuation ctx))"

definition ctx_direction :: "writer_context \<Rightarrow> direction" where
  "ctx_direction ctx = derive_direction ((vc_bear (wc_valuation ctx) + vc_bull (wc_valuation ctx)) / 2) (wc_current_price ctx)"

definition opt_text :: "string option \<Rightarrow> string" where
  "opt_text o' = (case o' of None \<Rightarrow> [] | Some s \<Rightarrow> s)"

definition fund_evidence :: "writer_context \<Rightarrow> string option \<Rightarrow> string option \<Rightarrow> string option \<Rightarrow> evidence list" where
  "fund_evidence ctx digest_event_id filing_url filing_chunk_ref =
     (if opt_text filing_url \<noteq> [] then [\<lparr>ev_kind = ''filing'', ev_ref = Some (opt_text filing_chunk_ref), ev_url = filing_url\<rparr>] else [])
     @ (if opt_text digest_event_id \<noteq> [] then [\<lparr>ev_kind = ''news'', ev_ref = Some (''intel.digest.v1#'' @ opt_text digest_event_id), ev_url = None\<rparr>] else [])
     @ [\<lparr>ev_kind = ''filing_url'', ev_ref = Some (''lake.timeseries:'' @ we_ticker (wc_entry ctx)), ev_url = None\<rparr>]"

definition fund_advice :: "string \<Rightarrow> string \<Rightarrow> evidence list \<Rightarrow> writer_context \<Rightarrow> seconds \<Rightarrow> advice_v1" where
  "fund_advice new_id thesis evs ctx now =
     (let d = ctx_direction ctx; current = wc_current_price ctx; v = wc_valuation ctx in
      \<lparr>av_id = new_id, av_agent = ''fundamental'', av_issued_at = now,
       av_asset = \<lparr>as_kind = ''equity'', as_ticker = we_ticker (wc_entry ctx), as_venue = we_venue (wc_entry ctx), as_name = None\<rparr>,
       av_thesis = thesis, av_direction = d, av_confidence = case_confidence v current, av_entry_band = entry_band_of current d,
       av_target_band = (vc_bear v, vc_bull v), av_stop_loss = stop_loss_of current d, av_horizon_days = HORIZON_DAYS,
       av_max_drawdown_pct = 12, av_sizing_hint_pct_nav = 2.5, av_expires_at = now + days HORIZON_DAYS, av_evidence = evs,
       av_disclaimer = None\<rparr>)"

definition compose_fund ::
  "(string \<Rightarrow> bool) \<Rightarrow> (string \<Rightarrow> string + string) \<Rightarrow> string \<Rightarrow> writer_context \<Rightarrow> string option \<Rightarrow> string option \<Rightarrow> string option \<Rightarrow> seconds
     \<Rightarrow> string + advice_v1" where
  "compose_fund ulid_ok answer new_id ctx digest_event_id filing_url filing_chunk_ref now =
     (if wc_missing_pct ctx > INSUFFICIENT_DATA_THRESHOLD then Inl ''InsufficientData''
      else res_bind (answer (fund_prompt ctx)) (\<lambda>t.
           let thesis = strip t in
           res_bind (guard_citations thesis) (\<lambda>_.
           construct (advice_valid ulid_ok)
             (fund_advice new_id thesis (fund_evidence ctx digest_event_id filing_url filing_chunk_ref) ctx now))))"

definition publish_fund_advice :: "(advice_v1, 'w) bus \<Rightarrow> advice_v1 \<Rightarrow> 'w \<Rightarrow> (bus_error + string) \<times> 'w" where
  "publish_fund_advice b a w = publish b ''advice.fundamental.v1'' a (Some (''advice:'' @ av_id a)) w"

section \<open>The team plan\<close>

record filing_thesis =
  ft_filing_ref :: string
  ft_filing_url :: string
  ft_direction :: string
  ft_conviction :: rat
  ft_fair_value :: rat
  ft_margin_of_safety_pct :: rat
  ft_horizon_days :: int
  ft_thesis :: string

definition fund_action :: "string \<Rightarrow> action" where
  "fund_action d = (if d = ''long'' then Buy else if d = ''short'' then Sell else Hold)"

text \<open>\<open>max(theses, key=...)\<close>: the first of the largest.\<close>

definition winner_of :: "filing_thesis list \<Rightarrow> filing_thesis option" where
  "winner_of ts =
     (case ts of [] \<Rightarrow> None | t # rest \<Rightarrow> Some (foldl (\<lambda>best x. if ft_conviction x > ft_conviction best then x else best) t rest))"

definition standing_flat :: "string \<Rightarrow> asset \<Rightarrow> rat \<Rightarrow> portfolio_context option \<Rightarrow> seconds \<Rightarrow> plan_v1" where
  "standing_flat new_id ast px context now =
     \<lparr>pl_id = new_id, pl_team = Fundamental, pl_persona_slug = None, pl_issued_at = now, pl_asset = ast, pl_action = Hold,
      pl_entry_price = px, pl_window_open = now, pl_window_close = now + 24 * 3600, pl_target_price = px, pl_stop_loss = px,
      pl_max_drawdown_pct = 8, pl_horizon_days = 180, pl_sizing_pct_nav = 0, pl_confidence = 0.1,
      pl_thesis = ''No high-conviction filing-based thesis available; standing flat.'', pl_evidence = [], pl_context = context,
      pl_expires_at = now + days 180, pl_disclaimer = None\<rparr>"

definition fund_prices :: "action \<Rightarrow> rat \<Rightarrow> rat \<Rightarrow> rat \<Rightarrow> rat \<times> rat \<times> rat" where
  "fund_prices act px fair_value mos =
     (case act of
        Buy \<Rightarrow> (px, max fair_value (px * (1 + max mos 0.05)), px * (1 - max mos 0.05))
      | Sell \<Rightarrow> (px, min fair_value (px * (1 - max mos 0.05)), px * (1 + max mos 0.05))
      | Hold \<Rightarrow> (px, px, px))"

definition winner_plan :: "string \<Rightarrow> asset \<Rightarrow> rat \<Rightarrow> filing_thesis \<Rightarrow> portfolio_context option \<Rightarrow> seconds \<Rightarrow> plan_v1" where
  "winner_plan new_id ast px w context now =
     (let act = fund_action (ft_direction w);
          (entry, target, stop) = fund_prices act px (max (ft_fair_value w) (1 / 1000000)) (ft_margin_of_safety_pct w / 100) in
      \<lparr>pl_id = new_id, pl_team = Fundamental, pl_persona_slug = None, pl_issued_at = now, pl_asset = ast, pl_action = act,
       pl_entry_price = entry, pl_window_open = now, pl_window_close = now + days 2, pl_target_price = target, pl_stop_loss = stop,
       pl_max_drawdown_pct = 12, pl_horizon_days = ft_horizon_days w, pl_sizing_pct_nav = min 5 (ft_conviction w * 5),
       pl_confidence = ft_conviction w, pl_thesis = ft_thesis w,
       pl_evidence = [\<lparr>ev_kind = ''filing'', ev_ref = Some (ft_filing_ref w), ev_url = Some (ft_filing_url w)\<rparr>], pl_context = context,
       pl_expires_at = now + days (ft_horizon_days w), pl_disclaimer = None\<rparr>)"

definition fund_plan :: "string \<Rightarrow> asset \<Rightarrow> rat \<Rightarrow> filing_thesis list \<Rightarrow> portfolio_context option \<Rightarrow> seconds \<Rightarrow> plan_v1" where
  "fund_plan new_id ast mark_price theses context now =
     (let px = max mark_price (1 / 1000000) in
      case winner_of theses of
        None \<Rightarrow> standing_flat new_id ast px context now
      | Some w \<Rightarrow> if ft_conviction w < 0.2 then standing_flat new_id ast px context now else winner_plan new_id ast px w context now)"

definition synthesize_fundamental_plan ::
  "(string \<Rightarrow> bool) \<Rightarrow> string \<Rightarrow> asset \<Rightarrow> rat \<Rightarrow> filing_thesis list \<Rightarrow> portfolio_context option \<Rightarrow> seconds \<Rightarrow> string + plan_v1" where
  "synthesize_fundamental_plan ulid_ok new_id ast mark_price theses context now =
     construct (plan_valid ulid_ok) (fund_plan new_id ast mark_price theses context now)"

text \<open>One thesis of a request; a missing reference is a KeyError.\<close>

definition thesis_of :: "pystd \<Rightarrow> rat \<Rightarrow> json \<Rightarrow> exn + filing_thesis" where
  "thesis_of py mark_price t =
     res_bind (jitem t ''filing_ref'') (\<lambda>r. res_bind (jitem t ''filing_url'') (\<lambda>u.
     res_bind (get_str py t ''direction'' ''flat'') (\<lambda>d. res_bind (get_float py t ''conviction'' 0) (\<lambda>c.
     res_bind (get_float py t ''fair_value'' mark_price) (\<lambda>fv. res_bind (get_float py t ''margin_of_safety_pct'' 0) (\<lambda>mos.
     res_bind (get_int t ''horizon_days'' 90) (\<lambda>h. res_bind (get_str py t ''thesis'' []) (\<lambda>txt.
     Inr \<lparr>ft_filing_ref = to_str py r, ft_filing_url = to_str py u, ft_direction = d, ft_conviction = c, ft_fair_value = fv,
          ft_margin_of_safety_pct = mos, ft_horizon_days = h, ft_thesis = txt\<rparr>))))))))"

definition fund_team_plan ::
  "(string \<Rightarrow> bool) \<Rightarrow> pystd \<Rightarrow> (json \<Rightarrow> exn + asset) \<Rightarrow> (json \<Rightarrow> exn + portfolio_context) \<Rightarrow> string \<Rightarrow> (string, json) dict \<Rightarrow> seconds
     \<Rightarrow> exn + plan_v1" where
  "fund_team_plan ulid_ok py parse_asset parse_context new_id request now =
     res_bind (res_bind (jitem (JObj request) ''asset'') parse_asset) (\<lambda>ast.
     res_bind (get_float py (JObj request) ''mark_price'' 0) (\<lambda>mark.
     res_bind (items_of (jor (dget request ''theses'') (JArr []))) (\<lambda>raw.
     res_bind (those_res (map (thesis_of py mark) raw)) (\<lambda>theses.
     res_bind (if truthy (dget request ''portfolio_context'') then res_bind (parse_context (dget request ''portfolio_context'')) (\<lambda>c. Inr (Some c)) else Inr None) (\<lambda>context.
     case synthesize_fundamental_plan ulid_ok new_id ast mark theses context now of Inl e \<Rightarrow> Inl (ValueError e) | Inr p \<Rightarrow> Inr p)))))"

section \<open>The endpoints\<close>

text \<open>\<open>source\<close> is the bound filing source, or the empty in-memory one.\<close>

datatype cover_reply = CoverOk string nat | CoverError string

definition run_cover :: "(string \<Rightarrow> string + filing list) option \<Rightarrow> string \<Rightarrow> cover_reply" where
  "run_cover source ticker =
     (case (case source of None \<Rightarrow> Inr (latest_for [] ticker) | Some src \<Rightarrow> src ticker) of
        Inl e \<Rightarrow> CoverError e | Inr fs \<Rightarrow> CoverOk ticker (length fs))"

fun digest_lines :: "(string \<Rightarrow> string + filing list) \<Rightarrow> string list \<Rightarrow> string + string list" where
  "digest_lines src [] = Inr []"
| "digest_lines src (t # ts) =
     res_bind (src t) (\<lambda>f. res_bind (digest_lines src ts) (\<lambda>ls.
     Inr ((''- '' @ t @ '': '' @ show_nat (length f) @ '' filing(s) considered'') # ls)))"

definition run_digest :: "(string \<Rightarrow> string + filing list) option \<Rightarrow> seconds \<Rightarrow> string + string" where
  "run_digest source now =
     (let src = (case source of None \<Rightarrow> (\<lambda>t. Inr (latest_for [] t)) | Some s \<Rightarrow> s); chosen = select_coverage [] now DEFAULT_DAILY_CAP [] in
      res_bind (digest_lines src chosen) (\<lambda>ls.
      Inr (join_with [newline] ([''# Fundamental '' @ em_dash @ '' daily digest'', ''''] @ ls
             @ (if chosen = [] then [''- (no tickers selected for today)''] else [])))))"

definition run_fund_rerun :: "(string \<Rightarrow> string + filing list) option \<Rightarrow> string option \<Rightarrow> cover_reply" where
  "run_fund_rerun source ticker =
     (case ticker of None \<Rightarrow> CoverError ''missing ticker'' | Some t \<Rightarrow> if t = [] then CoverError ''missing ticker'' else run_cover source t)"

section \<open>An uncited percentage is refused\<close>

lemma percent_sign: "\<not> is_digit (CHR ''%'')" "\<not> is_space (CHR ''%'')" "\<not> is_digit (CHR ''.'')"
  by code_simp+

lemma dropWhile_split: "\<exists>m. s = m @ dropWhile P s \<and> list_all P m"
  by (metis list_all_iff set_takeWhileD takeWhile_dropWhile_id)

lemma number_end_split:
  assumes "number_end s = Some r"
  shows "\<exists>m. s = m @ r \<and> CHR ''%'' \<notin> set m"
proof -
  obtain c t where s: "s = c # t" "is_digit c" and r: "r = fraction_end (dropWhile is_digit t)"
    using assms by (auto simp: number_end_def split: list.splits if_splits)
  obtain m1 where m1: "t = m1 @ dropWhile is_digit t" "list_all is_digit m1" using dropWhile_split by blast
  have "\<exists>m2. u = m2 @ fraction_end u \<and> CHR ''%'' \<notin> set m2" for u
  proof (cases "\<exists>d v. u = CHR ''.'' # d # v \<and> is_digit d")
    case True
    then obtain d v where u: "u = CHR ''.'' # d # v" "is_digit d" by blast
    obtain m where "v = m @ dropWhile is_digit v" "list_all is_digit m" using dropWhile_split by blast
    then have "u = (CHR ''.'' # d # m) @ fraction_end u" "CHR ''%'' \<notin> set (CHR ''.'' # d # m)"
      using u percent_sign by (auto simp: fraction_end_def list_all_iff)
    then show ?thesis by blast
  next
    case False
    then have "fraction_end u = u" by (auto simp: fraction_end_def split: list.split)
    then show ?thesis by (intro exI [of _ "[]"]) simp
  qed
  then obtain m2 where "dropWhile is_digit t = m2 @ r" "CHR ''%'' \<notin> set m2" unfolding r by blast
  then show ?thesis using s m1 percent_sign
    by (intro exI [of _ "c # m1 @ m2"]) (auto simp: list_all_iff)
qed

lemma percent_match_split:
  assumes "match_pattern Percent s = Some rest"
  shows "\<exists>m. s = m @ CHR ''%'' # rest \<and> CHR ''%'' \<notin> set m"
proof -
  obtain r where r: "number_end s = Some r" "then_char {CHR ''%''} (skip_space r) = Some rest"
    using assms by (auto simp: bind_eq_Some_conv)
  obtain m where m: "s = m @ r" "CHR ''%'' \<notin> set m" using number_end_split [OF r(1)] by blast
  have sk: "skip_space r = CHR ''%'' # rest" using r(2) by (auto simp: then_char_def split: list.splits if_splits)
  show ?thesis
  proof (cases "r = skip_space r")
    case True
    then show ?thesis using m sk by auto
  next
    case False
    then obtain c where "r = c # skip_space r" "is_space c" by (cases r) (auto simp: skip_space_def split: if_splits)
    then show ?thesis using m sk percent_sign by (intro exI [of _ "m @ [c]"]) auto
  qed
qed

lemma has_citation_bracket: "has_citation s \<Longrightarrow> CHR '']'' \<in> set s"
proof (induction s)
  case (Cons c s)
  then show ?case by (auto dest: in_set_dropD)
qed simp

lemma first_occurrence: "a @ x # u = b @ x # v \<Longrightarrow> x \<notin> set a \<Longrightarrow> x \<notin> set b \<Longrightarrow> a = b \<and> u = v"
proof (induction a arbitrary: b)
  case Nil
  then show ?case by (cases b) auto
next
  case (Cons c a)
  then show ?case by (cases b) auto
qed

lemma percent_matches: "is_digit d \<Longrightarrow> match_pattern Percent (d # CHR ''%'' # post) = Some post"
  using percent_sign by (auto simp: number_end_def fraction_end_def skip_space_def then_char_def split: list.split)

lemma uncited_percent:
  assumes "is_digit d" and "CHR '']'' \<notin> set post"
  shows "\<not> all_cited Percent (pre @ d # CHR ''%'' # post)"
proof (induction pre rule: length_induct)
  case (1 pre)
  let ?s = "pre @ d # CHR ''%'' # post"
  show ?case
  proof (cases "match_pattern Percent ?s")
    case (Some rest)
    obtain m where m: "?s = m @ CHR ''%'' # rest" "CHR ''%'' \<notin> set m" using percent_match_split [OF Some] by blast
    have eq: "(pre @ [d]) @ CHR ''%'' # post = m @ CHR ''%'' # rest" using m(1) by simp
    show ?thesis
    proof (cases "CHR ''%'' \<in> set (pre @ [d])")
      case True
      then have "CHR ''%'' \<in> set pre" using assms(1) percent_sign by auto
      then obtain p1 p2 where p: "pre = p1 @ CHR ''%'' # p2" "CHR ''%'' \<notin> set p1" by (metis split_list_first)
      have "p1 @ CHR ''%'' # (p2 @ d # CHR ''%'' # post) = m @ CHR ''%'' # rest" using m(1) p(1) by simp
      from first_occurrence [OF this p(2) m(2)] have "rest = p2 @ d # CHR ''%'' # post" by simp
      then have "\<not> all_cited Percent rest" using 1 p(1) by simp
      then show ?thesis by (subst all_cited.simps) (simp add: Some del: match_pattern.simps)
    next
      case False
      from first_occurrence [OF eq this m(2)] have "rest = post" by simp
      then have "\<not> has_citation (take 50 rest)" using assms(2) has_citation_bracket by (metis in_set_takeD)
      then show ?thesis by (subst all_cited.simps) (simp add: Some del: match_pattern.simps)
    qed
  next
    case None
    show ?thesis
    proof (cases pre)
      case Nil
      then show ?thesis using None percent_matches [OF assms(1)] by simp
    next
      case (Cons c cs)
      have "\<not> all_cited Percent (cs @ d # CHR ''%'' # post)" using 1 Cons by simp
      then show ?thesis using None by (subst all_cited.simps) (simp add: Cons del: match_pattern.simps)
    qed
  qed
qed

text \<open>
  C9: The writer never gives out a thesis with a percentage, a digit and a per cent sign, after which no bracket closes:
  whatever stands before it, the citation guard refuses it.
\<close>

theorem uncited_percentage_refused:
  assumes "is_digit d" and "CHR '']'' \<notin> set post" and "answer (fund_prompt ctx) = Inr t" and "strip t = pre @ d # CHR ''%'' # post"
  shows "\<exists>e. compose_fund ulid_ok answer i ctx digest url ref now = Inl e"
proof -
  have "guard_citations (strip t) = Inl ''numeric claim lacks a citation within 50 chars''"
    using uncited_percent [OF assms(1,2), of pre] by (simp add: guard_citations_def assms(4))
  then show ?thesis by (simp add: compose_fund_def assms(3) Let_def res_bind_def)
qed

definition sample_context :: "rat \<Rightarrow> rat \<Rightarrow> rat \<Rightarrow> writer_context" where
  "sample_context bear bull current =
     \<lparr>wc_entry = \<lparr>we_ticker = ''MSFT'', we_venue = ''NASDAQ'', we_sector = ''tech'', we_thesis_tag = '''', we_peers = []\<rparr>,
      wc_missing_pct = 0,
      wc_valuation = \<lparr>vc_base = current, vc_bull = bull, vc_bear = bear, vc_target_12m = bull, vc_assumptions = [], vc_catalysts = []\<rparr>,
      wc_current_price = current\<rparr>"

theorem uncited_percentage_refused_witness:
  "\<exists>e. compose_fund (\<lambda>_. True) (\<lambda>_. Inr ''Margins rose 40%.'') ''1'' (sample_context 90 150 100) None None None 0 = Inl e"
proof (rule uncited_percentage_refused)
  show "is_digit CHR ''0''" by code_simp
  show "(CHR '']'' :: char) \<notin> set ''.''" by simp
  show "strip ''Margins rose 40%.'' = ''Margins rose 4'' @ CHR ''0'' # CHR ''%'' # ''.''" by code_simp
qed (rule refl)

section \<open>Which advices are valid\<close>

lemma round3_unit: "0 \<le> x \<Longrightarrow> x \<le> 1 \<Longrightarrow> 0 \<le> round3 x \<and> round3 x \<le> 1"
proof -
  assume x: "0 \<le> x" "x \<le> 1"
  have "0 \<le> round_half_even (1000 * x)" using x(1) by (auto simp: round_half_even_def Let_def)
  moreover have "round_half_even (1000 * x) \<le> 1000"
  proof (cases "x = 1")
    case False
    then have "\<lfloor>1000 * x\<rfloor> < 1000" using x by (simp add: floor_less_iff)
    then show ?thesis by (auto simp: round_half_even_def Let_def)
  qed (simp add: round_half_even_def)
  ultimately show ?thesis by (simp add: round3_def)
qed

lemma case_confidence_unit: "0 \<le> case_confidence v current \<and> case_confidence v current \<le> 1"
proof (cases "current \<le> 0")
  case False
  have "0 \<le> max 0.05 (min 0.9 y)" "max 0.05 (min 0.9 y) \<le> 1" for y :: rat by (simp_all add: le_max_iff_disj)
  then show ?thesis using False round3_unit by (simp add: case_confidence_def Let_def)
qed (simp add: case_confidence_def)

text \<open>
  C32: With a positive price, the advice of the fundamental writer is valid exactly if its thesis fits, the bear case is not
  above the bull case, and, for a long view, even the bear case is more than 1 per cent above the price, for a short view
  the bull case is below 99 per cent of it, and for a flat view both cases are the price itself. A flat view of an
  uncertain value, and a long view with a bear case below the price, can never be given out.
\<close>

theorem fund_advice_valid_iff:
  assumes "0 < wc_current_price ctx" and "id_is_ulid ulid_ok i"
  shows "(\<exists>a. construct (advice_valid ulid_ok) (fund_advice i thesis (fund_evidence ctx digest url ref) ctx now) = Inr a)
    \<longleftrightarrow> length thesis \<le> 4000 \<and> vc_bear (wc_valuation ctx) \<le> vc_bull (wc_valuation ctx)
      \<and> (case ctx_direction ctx of
            Long \<Rightarrow> wc_current_price ctx * 1.01 < vc_bear (wc_valuation ctx)
          | Short \<Rightarrow> vc_bull (wc_valuation ctx) < wc_current_price ctx * 0.99
          | Flat \<Rightarrow> vc_bear (wc_valuation ctx) = wc_current_price ctx \<and> vc_bull (wc_valuation ctx) = wc_current_price ctx)"
proof -
  let ?a = "fund_advice i thesis (fund_evidence ctx digest url ref) ctx now" and ?c = "wc_current_price ctx" and ?d = "ctx_direction ctx"
    and ?bear = "vc_bear (wc_valuation ctx)" and ?bull = "vc_bull (wc_valuation ctx)"
  have parts: "av_entry_band ?a = entry_band_of ?c ?d" "av_target_band ?a = (?bear, ?bull)" "av_stop_loss ?a = stop_loss_of ?c ?d"
    "av_direction ?a = ?d" "av_horizon_days ?a = 90" "av_sizing_hint_pct_nav ?a = 2.5" "av_thesis ?a = thesis" "av_id ?a = i"
    "av_issued_at ?a = now" "av_expires_at ?a = now + days 90" "av_agent ?a = ''fundamental''" "av_max_drawdown_pct ?a = 12"
    "av_confidence ?a = case_confidence (wc_valuation ctx) ?c" "av_evidence ?a = fund_evidence ctx digest url ref"
    by (simp_all add: fund_advice_def Let_def HORIZON_DAYS_def)
  have fits: "asset_fields_ok (av_asset ?a)" "evidence_fields_ok (fund_evidence ctx digest url ref)" "fund_evidence ctx digest url ref \<noteq> []"
    by (simp_all add: fund_advice_def Let_def asset_fields_ok_def asset_kinds_def fund_evidence_def evidence_fields_ok_def evidence_kinds_def)
  have "expiry_within_one_year now (now + days 90)" using expiry_of_days [of 90 now] by simp
  moreover have "\<not> starts_with ''persona.'' ''fundamental''" by code_simp
  ultimately have "advice_valid ulid_ok ?a \<longleftrightarrow> length thesis \<le> 4000
      \<and> band_ascending (entry_band_of ?c ?d) \<and> band_ascending (?bear, ?bull) \<and> direction_consistency ?a"
    using assms(2) fits case_confidence_unit
    by (auto simp: advice_valid_def advice_fields_ok_def parts evidence_required_when_directional_def persona_requires_disclaimer_def)
  moreover have "band_ascending (entry_band_of ?c ?d)"
    using assms(1) by (cases ?d) (simp_all add: entry_band_of_def band_ascending_def)
  moreover have "direction_consistency ?a \<longleftrightarrow> (case ?d of Long \<Rightarrow> ?c * 1.01 < ?bear | Short \<Rightarrow> ?bull < ?c * 0.99
      | Flat \<Rightarrow> ?bear = ?c \<and> ?bull = ?c)"
    using assms(1) by (cases ?d) (auto simp: direction_consistency_def parts entry_band_of_def stop_loss_of_def)
  ultimately show ?thesis by (auto simp: band_ascending_def)
qed

theorem fund_advice_valid_iff_witness:
  "\<not> (\<exists>a. construct (advice_valid (\<lambda>_. True)) (fund_advice ''01ARZ3NDEKTSV4RRFFQ69G5FAV'' ''t''
        (fund_evidence (sample_context 90 150 100) None None None) (sample_context 90 150 100) 0) = Inr a)"
proof -
  have 1: "0 < wc_current_price (sample_context 90 150 100)" by (simp add: sample_context_def)
  have "ulid_re ''01ARZ3NDEKTSV4RRFFQ69G5FAV''" by code_simp
  then have 2: "id_is_ulid (\<lambda>_. True) ''01ARZ3NDEKTSV4RRFFQ69G5FAV''" by (simp add: id_is_ulid_def)
  show ?thesis unfolding fund_advice_valid_iff [OF 1 2]
    by (simp add: sample_context_def ctx_direction_def derive_direction_def)
qed

section \<open>Which plans are valid\<close>

lemma fund_prices_order:
  assumes "0 < px" and "0 < fv" and "fund_prices act px fv mos = (e, t, s)"
  shows "0 \<le> e" and "act = Buy \<Longrightarrow> s < e \<and> e < t" and "act = Sell \<Longrightarrow> t < e \<and> e < s"
    and "0 \<le> t \<and> 0 \<le> s \<longleftrightarrow> (act \<noteq> Hold \<longrightarrow> mos \<le> 1)"
proof -
  let ?m = "max mos 0.05"
  have "px * (1 - ?m) < px * 1" "px * 1 < px * (1 + ?m)" using assms(1) by (auto intro!: mult_strict_left_mono simp: less_max_iff_disj)
  then have ord: "px * (1 - ?m) < px" "px < px * (1 + ?m)" by simp_all
  have sign: "0 \<le> px * (1 - ?m) \<longleftrightarrow> mos \<le> 1" using assms(1) by (simp add: zero_le_mult_iff)
  have pos: "0 \<le> px * (1 + ?m)" using ord(2) assms(1) by linarith
  show "0 \<le> e" using assms(1,3) by (cases act) (simp_all add: fund_prices_def)
  show "act = Buy \<Longrightarrow> s < e \<and> e < t" using assms(3) ord by (simp only: fund_prices_def action.case prod.inject) (auto simp: less_max_iff_disj)
  show "act = Sell \<Longrightarrow> t < e \<and> e < s" using assms(3) ord by (simp only: fund_prices_def action.case prod.inject) (auto simp: min_less_iff_disj)
  show "0 \<le> t \<and> 0 \<le> s \<longleftrightarrow> (act \<noteq> Hold \<longrightarrow> mos \<le> 1)"
    using assms ord pos sign by (cases act) (simp_all only: fund_prices_def action.case prod.inject, auto simp: le_max_iff_disj)
qed

text \<open>
  On a valid asset the fundamental plan is valid exactly if there is no thesis, or its winner has a conviction below
  0.2, or its conviction is at most 1, its horizon between 1 and 365 days, its text fits and, unless it holds, its margin
  of safety is at most 100 per cent, whatever the mark and the fair value are.
\<close>

theorem fund_plan_valid_iff:
  assumes "asset_fields_ok ast" and "id_is_ulid ulid_ok i" and "case context of None \<Rightarrow> True | Some c \<Rightarrow> context_fields_ok c"
  shows "(\<exists>p. synthesize_fundamental_plan ulid_ok i ast mark theses context now = Inr p)
    \<longleftrightarrow> (case winner_of theses of
            None \<Rightarrow> True
          | Some w \<Rightarrow> ft_conviction w < 0.2 \<or> ft_conviction w \<le> 1 \<and> 1 \<le> ft_horizon_days w \<and> ft_horizon_days w \<le> 365
              \<and> length (ft_thesis w) \<le> 4000 \<and> (fund_action (ft_direction w) \<noteq> Hold \<longrightarrow> ft_margin_of_safety_pct w \<le> 100))"
proof -
  let ?px = "max mark (1 / 1000000)"
  have px: "0 < ?px" by simp
  have "expiry_within_one_year now (now + days 180)" using expiry_of_days [of 180 now] by simp
  then have flat: "plan_valid ulid_ok (standing_flat i ast ?px context now)"
    using assms by (simp add: plan_valid_def plan_fields_ok_def standing_flat_def entry_window_monotone_def action_price_ordering_def
        evidence_required_unless_hold_def persona_team_requires_persona_slug_def persona_team_requires_disclaimer_def evidence_fields_ok_def)
  have win: "plan_valid ulid_ok (winner_plan i ast ?px w context now) \<longleftrightarrow> ft_conviction w \<le> 1 \<and> 1 \<le> ft_horizon_days w
      \<and> ft_horizon_days w \<le> 365 \<and> length (ft_thesis w) \<le> 4000
      \<and> (fund_action (ft_direction w) \<noteq> Hold \<longrightarrow> ft_margin_of_safety_pct w \<le> 100)" if conv: "\<not> ft_conviction w < 0.2" for w
  proof -
    let ?p = "winner_plan i ast ?px w context now" and ?act = "fund_action (ft_direction w)" and ?h = "ft_horizon_days w"
    obtain e t s where ts: "fund_prices ?act ?px (max (ft_fair_value w) (1 / 1000000)) (ft_margin_of_safety_pct w / 100) = (e, t, s)"
      by (metis prod_cases3)
    have fv: "0 < max (ft_fair_value w) (1 / 1000000)" by simp
    note prices = fund_prices_order [OF px fv ts]
    have parts: "pl_team ?p = Fundamental" "pl_persona_slug ?p = None" "pl_action ?p = ?act" "pl_entry_price ?p = e" "pl_target_price ?p = t"
      "pl_stop_loss ?p = s" "pl_horizon_days ?p = ?h" "pl_window_open ?p = now" "pl_window_close ?p = now + days 2" "pl_issued_at ?p = now"
      "pl_expires_at ?p = now + days ?h" "pl_thesis ?p = ft_thesis w" "pl_id ?p = i" "pl_context ?p = context" "pl_asset ?p = ast"
      "pl_max_drawdown_pct ?p = 12" "pl_sizing_pct_nav ?p = min 5 (ft_conviction w * 5)" "pl_confidence ?p = ft_conviction w"
      "pl_evidence ?p = [\<lparr>ev_kind = ''filing'', ev_ref = Some (ft_filing_ref w), ev_url = Some (ft_filing_url w)\<rparr>]"
      by (simp_all only: winner_plan_def Let_def ts prod.case plan_v1.simps)
    have "action_price_ordering ?p" using prices(2,3) by (cases ?act) (simp_all add: action_price_ordering_def parts)
    moreover have "entry_window_monotone ?p" by (simp add: entry_window_monotone_def parts days_def)
    moreover have "evidence_required_unless_hold ?p" by (simp add: evidence_required_unless_hold_def parts)
    moreover have "persona_team_requires_persona_slug ?p" "persona_team_requires_disclaimer ?p"
      by (simp_all add: persona_team_requires_persona_slug_def persona_team_requires_disclaimer_def parts)
    moreover have "1 \<le> ?h \<Longrightarrow> expiry_within_one_year now (now + days ?h) \<longleftrightarrow> ?h \<le> 365" by (rule expiry_of_days)
    moreover have "plan_fields_ok ?p \<longleftrightarrow> ft_conviction w \<le> 1 \<and> 1 \<le> ?h \<and> ?h \<le> 365 \<and> length (ft_thesis w) \<le> 4000
        \<and> (0 \<le> t \<and> 0 \<le> s)"
      using prices(1) conv assms(1,3) by (auto simp: plan_fields_ok_def parts evidence_fields_ok_def evidence_kinds_def)
    ultimately show ?thesis using assms(2) prices(4) by (auto simp: plan_valid_def parts)
  qed
  show ?thesis
    using flat win by (cases "winner_of theses") (auto simp: synthesize_fundamental_plan_def fund_plan_def Let_def)
qed

theorem fund_plan_valid_iff_witness:
  "\<exists>p. synthesize_fundamental_plan (\<lambda>_. True) ''01ARZ3NDEKTSV4RRFFQ69G5FAV''
     \<lparr>as_kind = ''equity'', as_ticker = ''MSFT'', as_venue = ''NASDAQ'', as_name = None\<rparr> 100
     [\<lparr>ft_filing_ref = ''r'', ft_filing_url = ''u'', ft_direction = ''short'', ft_conviction = 0.7, ft_fair_value = 80,
       ft_margin_of_safety_pct = 20, ft_horizon_days = 90, ft_thesis = ''t''\<rparr>] None 0 = Inr p"
proof -
  have 1: "asset_fields_ok \<lparr>as_kind = ''equity'', as_ticker = ''MSFT'', as_venue = ''NASDAQ'', as_name = None\<rparr>"
    by (simp add: asset_fields_ok_def asset_kinds_def)
  have "ulid_re ''01ARZ3NDEKTSV4RRFFQ69G5FAV''" by code_simp
  then have 2: "id_is_ulid (\<lambda>_. True) ''01ARZ3NDEKTSV4RRFFQ69G5FAV''" by (simp add: id_is_ulid_def)
  have 3: "case None of None \<Rightarrow> True | Some c \<Rightarrow> context_fields_ok c" by simp
  show ?thesis unfolding fund_plan_valid_iff [OF 1 2 3] by (simp add: winner_of_def)
qed

section \<open>The daily coverage\<close>

text \<open>The first occurrences of a list, none of which was seen before.\<close>

fun first_seen :: "string list \<Rightarrow> string list \<Rightarrow> string list" where
  "first_seen seen [] = []"
| "first_seen seen (t # ts) = (if t \<in> set seen then first_seen seen ts else t # first_seen (t # seen) ts)"

lemma select_loop_take:
  assumes "length fresh < cap \<or> cap = 0" and "select_loop p cap seen fresh stale ts = (f, s)"
  shows "take cap (f @ s) = take cap (fresh @ filter p (first_seen seen ts) @ stale @ filter (\<lambda>t. \<not> p t) (first_seen seen ts))"
  using assms
proof (induction ts arbitrary: seen fresh stale)
  case (Cons t ts)
  let ?fresh = "if p t then fresh @ [t] else fresh" and ?stale = "if p t then stale else stale @ [t]"
  show ?case
  proof (cases "t \<in> set seen")
    case True
    then show ?thesis using Cons by simp
  next
    case unseen: False
    have arg: "fresh @ filter p (first_seen seen (t # ts)) @ stale @ filter (\<lambda>t. \<not> p t) (first_seen seen (t # ts))
        = ?fresh @ filter p (first_seen (t # seen) ts) @ ?stale @ filter (\<lambda>t. \<not> p t) (first_seen (t # seen) ts)"
      using unseen by simp
    show ?thesis
    proof (cases "length ?fresh < cap")
      case True
      then have "select_loop p cap (t # seen) ?fresh ?stale ts = (f, s)" using Cons.prems(2) unseen by (simp add: Let_def)
      then show ?thesis unfolding arg using True by (intro Cons.IH) simp_all
    next
      case False
      then have fs: "f = ?fresh" "s = ?stale" using Cons.prems(2) unseen by (auto simp: Let_def)
      have cut: "take cap (?fresh @ r) = take cap ?fresh" for r using False by simp
      show ?thesis unfolding arg fs cut by (rule refl)
    qed
  qed
qed simp

text \<open>
  The coverage of a day is the reference selection: of the distinct tickers in the order of their scores, the first
  \<open>cap\<close> of those without a recent advice followed by those with one. A ticker with a recent advice comes after every
  ticker without, whatever their scores are.
\<close>

theorem coverage_is_fresh_first:
  "select_coverage advised now cap scores =
    (let ts = first_seen [] (map ls_ticker (sort_links scores)) in
     take cap (filter (is_fresh advised now) ts @ filter (\<lambda>t. \<not> is_fresh advised now t) ts))"
proof -
  obtain f s where l: "select_loop (is_fresh advised now) cap [] [] [] (map ls_ticker (sort_links scores)) = (f, s)" by (rule prod.exhaust)
  have "take cap (f @ s) = take cap (filter (is_fresh advised now) (first_seen [] (map ls_ticker (sort_links scores)))
      @ filter (\<lambda>t. \<not> is_fresh advised now t) (first_seen [] (map ls_ticker (sort_links scores))))"
    using select_loop_take [OF _ l] by auto
  then show ?thesis by (auto simp: select_coverage_def l Let_def)
qed

section \<open>The link scores\<close>

lemma sorted_twice:
  fixes f :: "'a \<Rightarrow> 'b::linorder" and g :: "'a \<Rightarrow> 'c::linorder"
  assumes "sorted (map f ys)" and "\<And>k. sorted (map g (filter (\<lambda>y. f y = k) ys))"
  shows "sorted_wrt (\<lambda>a b. f a < f b \<or> f a = f b \<and> g a \<le> g b) ys"
  using assms
proof (induction ys)
  case (Cons a ys)
  have "f a < f b \<or> f a = f b \<and> g a \<le> g b" if b: "b \<in> set ys" for b
  proof (cases "f b = f a")
    case True
    then have "g a \<le> g b" using Cons.prems(2) [of "f a"] b by auto
    then show ?thesis using True by simp
  next
    case False
    moreover have "f a \<le> f b" using Cons.prems(1) b by auto
    ultimately show ?thesis by auto
  qed
  moreover have "sorted (map g (filter (\<lambda>y. f y = k) ys))" for k
    using Cons.prems(2) [of k] by (simp split: if_splits)
  ultimately show ?case using Cons by auto
qed simp

text \<open>
  The scores of an event lie above 0 and at most at 1, the best first, ties by ticker, and there is one for each entry
  of the watchlist that the event says anything about.
\<close>

theorem link_scores_bounded_and_ordered:
  "list_all (\<lambda>l. 0 < ls_score l \<and> ls_score l \<le> 1 \<and> ls_event_id l = ie_id ev) (score_event ev entries sector_index)
   \<and> sorted_wrt (\<lambda>a b. ls_score b < ls_score a \<or> ls_score a = ls_score b \<and> ls_ticker a \<le> ls_ticker b) (score_event ev entries sector_index)
   \<and> length (score_event ev entries sector_index) = length (filter (\<lambda>e. 0 < ls_score (score_entry_for ev sector_index e)) entries)"
proof -
  have hit: "sector_hit sector_index s e \<le> 1" for s e by (simp add: sector_hit_def Let_def)
  have bound: "ls_score (score_entry_for ev sector_index e) \<le> 1" for e
    using hit [of "lower (ie_headline ev @ '' '' @ ie_why_it_matters ev)" e]
    by (simp add: score_entry_for_def Let_def ALPHA_def BETA_def GAMMA_def)
  have "ls_event_id (score_entry_for ev sector_index e) = ie_id ev" for e by (simp add: score_entry_for_def Let_def)
  with bound have "list_all (\<lambda>l. 0 < ls_score l \<and> ls_score l \<le> 1 \<and> ls_event_id l = ie_id ev) (score_event ev entries sector_index)"
    by (auto simp: score_event_def sort_links_def list_all_iff)
  moreover have "sorted_wrt (\<lambda>a b. ls_score b < ls_score a \<or> ls_score a = ls_score b \<and> ls_ticker a \<le> ls_ticker b) (sort_links xs)" for xs
  proof -
    have "sorted (map (\<lambda>l. - ls_score l) (sort_links xs))" by (simp add: sort_links_def)
    moreover have "sorted (map ls_ticker (filter (\<lambda>l. - ls_score l = k) (sort_links xs)))" for k
      unfolding sort_links_def sort_key_stable by (simp add: sorted_filter)
    ultimately have "sorted_wrt (\<lambda>a b. - ls_score a < - ls_score b \<or> - ls_score a = - ls_score b \<and> ls_ticker a \<le> ls_ticker b) (sort_links xs)"
      by (rule sorted_twice)
    then show ?thesis by (rule sorted_wrt_mono_rel [rotated]) auto
  qed
  moreover have "length (score_event ev entries sector_index) = length (filter (\<lambda>e. 0 < ls_score (score_entry_for ev sector_index e)) entries)"
    by (simp add: score_event_def sort_links_def filter_map comp_def)
  ultimately show ?thesis by (simp add: score_event_def)
qed

end
