(* ===== verification/IntelIngest.thy ===== *)
theory IntelIngest
  imports PyStd NxStore "HOL-Library.Multiset" Complex_Main
begin

text \<open>
  The intake of the intelligence agent (\<^verbatim>\<open>apps/agent_intelligence/intel/\<close>): its types (\<^verbatim>\<open>types.py\<close>), the
  manifest of sources (\<^verbatim>\<open>sources.py\<close>) and the two gates against duplicates (\<^verbatim>\<open>dedupe/\<close>), each in its in-memory
  and its Redis or pgvector form. A time is an instant with the offset of its zone. \<open>isofmt\<close> prints a
  time, \<open>sha\<close> is SHA-256 and \<open>flt\<close> the rounding of a square root to a float. Texts are ASCII.
\<close>

section \<open>Calls that change the world and may raise\<close>

type_synonym ('a, 'w) io = "'w \<Rightarrow> (string + 'a) \<times> 'w"

definition io_ret :: "'a \<Rightarrow> ('a, 'w) io" where
  "io_ret x = (\<lambda>w. (Inr x, w))"

definition io_bind :: "('a, 'w) io \<Rightarrow> ('a \<Rightarrow> ('b, 'w) io) \<Rightarrow> ('b, 'w) io" where
  "io_bind m f = (\<lambda>w. case m w of (Inl e, w') \<Rightarrow> (Inl e, w') | (Inr x, w') \<Rightarrow> f x w')"

lemma io_bind_ret [simp]: "io_bind (io_ret x) f = f x"
  by (simp add: io_bind_def io_ret_def)

lemma io_bind_ok: "m w = (Inr x, w') \<Longrightarrow> io_bind m f w = f x w'"
  by (simp add: io_bind_def)

lemma io_bind_fails: "m w = (Inl e, w') \<Longrightarrow> io_bind m f w = (Inl e, w')"
  by (simp add: io_bind_def)

section \<open>Types\<close>

type_synonym dtime = "seconds \<times> int"

record source_cfg =
  sc_id :: string
  sc_region :: string
  sc_lean :: string
  sc_region_weight :: rat
  sc_language :: string
  sc_url :: json
  sc_channel :: json
  sc_rate_limit :: json

record raw_event =
  re_source_id :: string
  re_event_ts :: dtime
  re_ingest_ts :: dtime
  re_url :: "string option"
  re_title :: string
  re_body :: string
  re_lang :: string
  re_raw :: "(string, json) dict"

record intel_event =
  ie_id :: string
  ie_source_id :: string
  ie_source_region :: string
  ie_source_lean :: string
  ie_event_ts :: dtime
  ie_title :: string
  ie_body :: string
  ie_title_en :: string
  ie_body_en :: string
  ie_lang :: string
  ie_sentiment :: rat
  ie_target_assets :: "string list"
  ie_url :: "string option"

section \<open>The manifest of sources\<close>

text \<open>\<open>show_exn\<close> is \<open>str\<close> of an exception; the file's text is read by the YAML parser.\<close>

definition float_or_raise :: "pystd \<Rightarrow> json \<Rightarrow> exn + rat" where
  "float_or_raise py v =
     (case float_of py v of
        Some r \<Rightarrow> Inr r
      | None \<Rightarrow> Inl (case v of JStr s \<Rightarrow> ValueError (''could not convert string to float: '' @ py_repr py s) | _ \<Rightarrow> TypeError))"

definition to_cfg :: "pystd \<Rightarrow> (string, json) dict \<Rightarrow> exn + source_cfg" where
  "to_cfg py row =
     res_bind (jitem (JObj row) ''id'') (\<lambda>i.
     res_bind (jitem (JObj row) ''region'') (\<lambda>r.
     res_bind (jitem (JObj row) ''lean'') (\<lambda>l.
     res_bind (jitem (JObj row) ''region_weight'') (\<lambda>rw.
     res_bind (float_or_raise py rw) (\<lambda>w.
       Inr \<lparr>sc_id = to_str py i, sc_region = to_str py r, sc_lean = to_str py l, sc_region_weight = w,
            sc_language = to_str py (jget_or (JObj row) ''language'' (JStr ''en'')), sc_url = dget row ''url'',
            sc_channel = dget row ''channel'', sc_rate_limit = dget row ''rate_limit''\<rparr>)))))"

fun load_rows :: "pystd \<Rightarrow> (exn \<Rightarrow> string) \<Rightarrow> string \<Rightarrow> nat \<Rightarrow> json list \<Rightarrow> exn + source_cfg list" where
  "load_rows py show_exn path i [] = Inr []"
| "load_rows py show_exn path i (JObj row # rows) =
     (case to_cfg py row of
        Inl e \<Rightarrow> Inl (ValueError (path @ ''['' @ show_nat i @ ''] ('' @ to_str py (jget_or (JObj row) ''id'' (JStr ''?''))
                       @ ''): '' @ show_exn e))
      | Inr c \<Rightarrow> res_bind (load_rows py show_exn path (Suc i) rows) (\<lambda>cs. Inr (c # cs)))"
| "load_rows py show_exn path i (v # rows) =
     Inl (ValueError (path @ ''['' @ show_nat i @ '']: expected mapping, got '' @ type_name v))"

definition load_sources :: "pystd \<Rightarrow> (exn \<Rightarrow> string) \<Rightarrow> string \<Rightarrow> json \<Rightarrow> exn + source_cfg list" where
  "load_sources py show_exn path raw =
     (case raw of
        JArr rows \<Rightarrow> load_rows py show_exn path 0 rows
      | _ \<Rightarrow> Inl (ValueError (path @ '': expected a list of sources, got '' @ type_name raw)))"

fun by_id_loop :: "(string, source_cfg) dict \<Rightarrow> source_cfg list \<Rightarrow> exn + (string, source_cfg) dict" where
  "by_id_loop out [] = Inr out"
| "by_id_loop out (s # ss) =
     (if sc_id s \<in> set (keys out) then Inl (ValueError (''duplicate source id: '' @ sc_id s))
      else by_id_loop (AList.update (sc_id s) s out) ss)"

definition by_id :: "source_cfg list \<Rightarrow> exn + (string, source_cfg) dict" where
  "by_id sources = by_id_loop [] sources"

section \<open>The hash gate\<close>

definition DEDUPE_TTL_SECONDS :: seconds where
  "DEDUPE_TTL_SECONDS = 7 * 24 * 3600"

text \<open>What the gate relies on: a claim succeeds on a key nobody holds, and holds it for its time.\<close>

locale claim_store =
  fixes claim :: "seconds \<Rightarrow> string \<Rightarrow> seconds \<Rightarrow> 'st \<Rightarrow> bool \<times> 'st"
    and held :: "seconds \<Rightarrow> 'st \<Rightarrow> string \<Rightarrow> bool"
  assumes claim_iff: "fst (claim now k ttl st) \<longleftrightarrow> \<not> held now st k"
    and claim_other: "k' \<noteq> k \<Longrightarrow> held t (snd (claim now k ttl st)) k' = held t st k'"
    and claim_keeps: "held now st k \<Longrightarrow> held t (snd (claim now k ttl st)) k = held t st k"
    and claim_lasts: "0 < ttl \<Longrightarrow> \<not> held now st k \<Longrightarrow> now \<le> t \<Longrightarrow> t < now + ttl
      \<Longrightarrow> held t (snd (claim now k ttl st)) k"

type_synonym seen_set = "string set"

definition memory_claim :: "seconds \<Rightarrow> string \<Rightarrow> seconds \<Rightarrow> seen_set \<Rightarrow> bool \<times> seen_set" where
  "memory_claim now key ttl seen = (if key \<in> seen then (False, seen) else (True, insert key seen))"

definition memory_seen :: "seconds \<Rightarrow> seen_set \<Rightarrow> string \<Rightarrow> bool" where
  "memory_seen now seen key \<longleftrightarrow> key \<in> seen"

interpretation memory_store: claim_store memory_claim memory_seen
  by unfold_locales (auto simp: memory_claim_def memory_seen_def)

text \<open>The Redis store, over the model of \<open>SET key 1 NX EX ttl\<close>.\<close>

definition redis_claim :: "seconds \<Rightarrow> seconds \<Rightarrow> string \<Rightarrow> seconds \<Rightarrow> ttl_nx \<Rightarrow> bool \<times> ttl_nx" where
  "redis_claim default_ttl now key ttl st =
     ttl_set_nx now key ''1'' (if ttl = 0 then default_ttl else ttl) st"

interpretation redis_store: claim_store "redis_claim default_ttl" ttl_held for default_ttl
  by unfold_locales (auto simp: redis_claim_def redis.set_iff redis.set_other redis.set_keeps redis.set_lasts)

definition ts_text :: "(dtime \<Rightarrow> string) \<Rightarrow> dtime \<Rightarrow> string" where
  "ts_text isofmt ts = isofmt (of_int \<lfloor>fst ts\<rfloor>, snd ts)"

text \<open>\<open>a or b\<close> on an optional string.\<close>

definition str_or :: "string option \<Rightarrow> string \<Rightarrow> string" where
  "str_or a b = (case a of Some s \<Rightarrow> if s \<noteq> [] then s else b | None \<Rightarrow> b)"

definition hash_payload :: "(dtime \<Rightarrow> string) \<Rightarrow> raw_event \<Rightarrow> string" where
  "hash_payload isofmt ev =
     join_with ''|'' [re_source_id ev, str_or (re_url ev) (re_title ev), ts_text isofmt (re_event_ts ev)]"

definition hash_for :: "(string \<Rightarrow> string) \<Rightarrow> (dtime \<Rightarrow> string) \<Rightarrow> raw_event \<Rightarrow> string" where
  "hash_for sha isofmt ev = sha (hash_payload isofmt ev)"

definition hash_key :: "(string \<Rightarrow> string) \<Rightarrow> (dtime \<Rightarrow> string) \<Rightarrow> raw_event \<Rightarrow> string" where
  "hash_key sha isofmt ev = ''dedupe:hash:'' @ hash_for sha isofmt ev"

definition hash_accept :: "(seconds \<Rightarrow> string \<Rightarrow> seconds \<Rightarrow> 'st \<Rightarrow> bool \<times> 'st) \<Rightarrow> (string \<Rightarrow> string)
    \<Rightarrow> (dtime \<Rightarrow> string) \<Rightarrow> seconds \<Rightarrow> seconds \<Rightarrow> raw_event \<Rightarrow> 'st \<Rightarrow> bool \<times> 'st" where
  "hash_accept claim sha isofmt ttl now ev st = claim now (hash_key sha isofmt ev) ttl st"

text \<open>A run of the gate over arrivals at their times.\<close>

fun hash_run :: "(seconds \<Rightarrow> string \<Rightarrow> seconds \<Rightarrow> 'st \<Rightarrow> bool \<times> 'st) \<Rightarrow> (string \<Rightarrow> string)
    \<Rightarrow> (dtime \<Rightarrow> string) \<Rightarrow> seconds \<Rightarrow> (seconds \<times> raw_event) list \<Rightarrow> 'st \<Rightarrow> bool list \<times> 'st" where
  "hash_run claim sha isofmt ttl [] st = ([], st)"
| "hash_run claim sha isofmt ttl ((now, ev) # arrivals) st =
     (let (ok, st1) = hash_accept claim sha isofmt ttl now ev st;
          (oks, st2) = hash_run claim sha isofmt ttl arrivals st1
      in (ok # oks, st2))"

text \<open>The reference: an arrival passes when its key is new.\<close>

fun first_of_key :: "string set \<Rightarrow> string list \<Rightarrow> bool list" where
  "first_of_key seen [] = []"
| "first_of_key seen (k # ks) = ((k \<notin> seen) # first_of_key (insert k seen) ks)"

context claim_store
begin

lemma run_passes_first:
  assumes "0 < ttl"
    and "list_all (\<lambda>(now, ev). t0 \<le> now \<and> now < t0 + ttl) arrivals" and "sorted (map fst arrivals)"
    and "\<And>t k. now0 \<le> t \<Longrightarrow> t < t0 + ttl \<Longrightarrow> held t st k \<longleftrightarrow> k \<in> seen"
    and "t0 \<le> now0" and "list_all (\<lambda>(now, ev). now0 \<le> now) arrivals"
  shows "fst (hash_run claim sha isofmt ttl arrivals st) = first_of_key seen (map (hash_key sha isofmt \<circ> snd) arrivals)"
  using assms(2-6)
proof (induction arrivals arbitrary: st seen now0)
  case (Cons a arrivals)
  obtain now ev where a: "a = (now, ev)" by (cases a)
  let ?k = "hash_key sha isofmt ev"
  obtain ok st1 where step: "claim now ?k ttl st = (ok, st1)" by (rule prod.exhaust)
  have now: "t0 \<le> now" "now < t0 + ttl" "now0 \<le> now" using Cons.prems(1,5) a by simp_all
  have ok: "ok \<longleftrightarrow> ?k \<notin> seen" using claim_iff [of now ?k ttl st] step Cons.prems(3) [OF now(3,2)] by simp
  have after: "held t st1 k \<longleftrightarrow> k \<in> insert ?k seen" if t: "now \<le> t" "t < t0 + ttl" for t k
  proof (cases "k = ?k")
    case True
    have "held t st1 ?k"
    proof (cases "held now st ?k")
      case h: True
      then have "held t st1 ?k = held t st ?k" using claim_keeps [OF h, of t ttl] step by simp
      moreover have "?k \<in> seen" using h Cons.prems(3) [OF now(3,2)] by simp
      ultimately show ?thesis using Cons.prems(3) [of t ?k] t now(3) by simp
    next
      case False
      have "t < now + ttl" using t now(1) by simp
      then show ?thesis using claim_lasts [OF assms(1) False t(1)] step by simp
    qed
    then show ?thesis using True by simp
  next
    case False
    then have "held t st1 k = held t st k" using claim_other [OF False, of t now ttl st] step by simp
    then show ?thesis using Cons.prems(3) [of t k] t now(3) False by simp
  qed
  have "fst (hash_run claim sha isofmt ttl arrivals st1)
      = first_of_key (insert ?k seen) (map (hash_key sha isofmt \<circ> snd) arrivals)"
    using Cons.prems(1,2) a now(1) by (intro Cons.IH [where ?now0.0 = now]) (auto simp: after list_all_iff)
  then show ?case using a step ok by (simp add: hash_accept_def case_prod_beta comp_def)
qed simp

end

section \<open>The semantic gate\<close>

type_synonym vec = "rat list"

definition DEFAULT_THRESHOLD :: rat where
  "DEFAULT_THRESHOLD = 92 / 100"

definition DEFAULT_WINDOW :: seconds where
  "DEFAULT_WINDOW = 24 * 3600"

definition cosine :: "(real \<Rightarrow> rat) \<Rightarrow> vec \<Rightarrow> vec \<Rightarrow> rat" where
  "cosine flt a b =
     (if a = [] \<or> b = [] then 0
      else let dot = sum_list (map2 (*) a b);
               na = flt (sqrt (of_rat (sum_list (map (\<lambda>x. x * x) a))));
               nb = flt (sqrt (of_rat (sum_list (map (\<lambda>x. x * x) b))))
           in if na = 0 \<or> nb = 0 then 0 else dot / (na * nb))"

type_synonym hit = "string \<times> rat \<times> seconds"
type_synonym semantic_docs = "(string \<times> vec \<times> seconds) list"

definition memory_search :: "(real \<Rightarrow> rat) \<Rightarrow> vec \<Rightarrow> nat \<Rightarrow> seconds \<Rightarrow> semantic_docs \<Rightarrow> hit list" where
  "memory_search flt v k since docs =
     take k (sort_key (\<lambda>h. - fst (snd h))
       (map (\<lambda>(doc_id, w, ts). (doc_id, cosine flt v w, ts)) (filter (\<lambda>(doc_id, w, ts). since \<le> ts) docs)))"

definition memory_insert :: "string \<Rightarrow> vec \<Rightarrow> seconds \<Rightarrow> semantic_docs \<Rightarrow> semantic_docs" where
  "memory_insert doc_id v indexed_at docs = docs @ [(doc_id, v, indexed_at)]"

text \<open>
  The pgvector index: vectors go into the statements with seven decimals, the database
  computes the cosine distance \<open>cosdist\<close>, and the inserted row gets a random id; \<open>docs\<close> is
  the table in the order the scan meets it.
\<close>

definition seven :: "rat \<Rightarrow> rat" where
  "seven x = of_int (round_half_even (x * 10 ^ 7)) / 10 ^ 7"

definition pg_search :: "nat \<Rightarrow> (vec \<Rightarrow> vec \<Rightarrow> rat) \<Rightarrow> vec \<Rightarrow> nat \<Rightarrow> seconds \<Rightarrow> semantic_docs \<Rightarrow> exn + hit list" where
  "pg_search width cosdist v k since docs =
     (if length v \<noteq> width then Inl (ValueError ''pgvector index dim'')
      else let lit = map seven v in
           Inr (map (\<lambda>(event_id, w, ts). (event_id, 1 - cosdist w lit, ts))
             (take k (sort_key (\<lambda>(event_id, w, ts). cosdist w lit) (filter (\<lambda>(event_id, w, ts). since \<le> ts) docs)))))"

definition pg_insert :: "nat \<Rightarrow> string \<Rightarrow> string \<Rightarrow> vec \<Rightarrow> seconds \<Rightarrow> semantic_docs \<Rightarrow> exn + semantic_docs" where
  "pg_insert width gen_random_uuid doc_id v indexed_at docs =
     (if length v \<noteq> width then Inl (ValueError ''pgvector index dim'')
      else Inr (docs @ [(gen_random_uuid, map seven v, indexed_at)]))"

definition event_text :: "raw_event \<Rightarrow> string" where
  "event_text ev = re_title ev @ [CHR 0x0A, CHR 0x0A] @ re_body ev"

text \<open>The gate over any index, \<open>search\<close> and \<open>add\<close>; the embedding is computed first.\<close>

definition semantic_accept :: "(vec \<Rightarrow> nat \<Rightarrow> seconds \<Rightarrow> (hit list, 'w) io) \<Rightarrow> (string \<Rightarrow> vec \<Rightarrow> seconds \<Rightarrow> (unit, 'w) io)
    \<Rightarrow> (string \<Rightarrow> (vec, 'w) io) \<Rightarrow> (dtime \<Rightarrow> string) \<Rightarrow> raw_event \<Rightarrow> (bool \<times> string option, 'w) io" where
  "semantic_accept search add emb isofmt ev =
     io_bind (emb (event_text ev)) (\<lambda>v.
     io_bind (search v 5 (fst (re_ingest_ts ev) - DEFAULT_WINDOW)) (\<lambda>hits.
       case hits of
         (dup, score, ts) # _ \<Rightarrow>
           if score > DEFAULT_THRESHOLD then io_ret (False, Some dup)
           else io_bind (add (re_source_id ev @ '':'' @ isofmt (re_event_ts ev)) v (fst (re_ingest_ts ev))) (\<lambda>_. io_ret (True, None))
       | [] \<Rightarrow> io_bind (add (re_source_id ev @ '':'' @ isofmt (re_event_ts ev)) v (fst (re_ingest_ts ev))) (\<lambda>_. io_ret (True, None))))"

definition EMBED_DIM :: nat where
  "EMBED_DIM = 32"

definition bump :: "nat \<Rightarrow> rat list \<Rightarrow> rat list" where
  "bump n v = v[n := v ! n + 1]"

definition histogram :: "nat \<Rightarrow> string \<Rightarrow> rat list" where
  "histogram width s = fold (\<lambda>ch. bump (of_char ch mod width)) (lower s) (replicate width 0)"

definition hash_embed :: "(real \<Rightarrow> rat) \<Rightarrow> nat \<Rightarrow> string \<Rightarrow> vec" where
  "hash_embed flt width s =
     (let v = histogram width s;
          n = flt (sqrt (of_rat (sum_list (map (\<lambda>x. x * x) v))));
          norm = (if n = 0 then 1 else n)
      in map (\<lambda>x. x / norm) v)"

lemma length_bump [simp]: "length (bump n v) = length v"
  by (simp add: bump_def)

lemma length_bump_fold [simp]: "length (fold (\<lambda>ch. bump (f ch)) s v) = length v"
  by (induction s arbitrary: v) simp_all

lemma histogram_nth:
  assumes "i < width" and "length v = width"
  shows "fold (\<lambda>ch. bump (of_char ch mod width)) s v ! i = v ! i + of_nat (size (filter_mset (\<lambda>ch. of_char ch mod width = i) (mset s)))"
  using assms
proof (induction s arbitrary: v)
  case (Cons c s)
  define n where "n = (of_char c :: nat) mod width"
  have IH: "fold (\<lambda>ch. bump (of_char ch mod width)) s (bump n v) ! i
      = bump n v ! i + of_nat (size (filter_mset (\<lambda>ch. of_char ch mod width = i) (mset s)))"
    using Cons by (intro Cons.IH) simp_all
  have "bump n v ! i = v ! i + (if n = i then 1 else 0)" using Cons.prems by (simp add: bump_def nth_list_update)
  then show ?case using IH by (simp add: n_def [symmetric])
qed simp

text \<open>The embedding sees how often each letter occurs, not where.\<close>

lemma length_histogram [simp]: "length (histogram width s) = width"
  by (simp add: histogram_def)

lemma histogram_nth_count:
  "i < width \<Longrightarrow> histogram width s ! i = of_nat (size (filter_mset (\<lambda>ch. of_char ch mod width = i) (mset (lower s))))"
  unfolding histogram_def using histogram_nth [of i width "replicate width 0" "lower s"] by simp

lemma histogram_mset:
  assumes "mset (lower s) = mset (lower t)"
  shows "histogram width s = histogram width t"
proof (rule nth_equalityI)
  fix i
  assume "i < length (histogram width s)"
  then have "i < width" by simp
  then show "histogram width s ! i = histogram width t ! i" by (simp only: histogram_nth_count assms)
qed simp

lemma hash_embed_mset: "mset (lower s) = mset (lower t) \<Longrightarrow> hash_embed flt width s = hash_embed flt width t"
  unfolding hash_embed_def by (drule histogram_mset [where width = width]) simp

lemma map2_self: "map2 (*) v v = map (\<lambda>x. x * x :: rat) v"
  by (induction v) simp_all

text \<open>Rounding to within one part in a hundred keeps a vector close to itself.\<close>

definition rounds_well :: "(real \<Rightarrow> rat) \<Rightarrow> bool" where
  "rounds_well flt \<longleftrightarrow> (\<forall>x \<ge> 1/10. \<bar>of_rat (flt x) - x\<bar> \<le> x / 100)"

definition squares :: "vec \<Rightarrow> rat" where
  "squares v = sum_list (map (\<lambda>x. x * x) v)"

lemma squares_ge: "x \<in> set v \<Longrightarrow> x * x \<le> squares v"
proof (induction v)
  case (Cons y v)
  have "0 \<le> squares v" unfolding squares_def by (rule sum_list_nonneg) auto
  moreover have "0 \<le> y * y" by simp
  ultimately show ?case using Cons by (auto simp: squares_def intro: add_increasing)
qed simp

lemma squares_divide: "squares (map (\<lambda>x. x / n) v) = squares v / (n * n)"
  by (induction v) (simp_all add: squares_def add_divide_distrib)

lemma rounded_root:
  assumes "rounds_well flt" and "1/100 \<le> q"
  shows "0 < flt (sqrt (of_rat q)) \<and> flt (sqrt (of_rat q)) * flt (sqrt (of_rat q)) \<le> 10201/10000 * q"
proof -
  define s where "s = sqrt (of_rat q)"
  define n where "n = flt s"
  have "(1/10)\<^sup>2 \<le> real_of_rat q"
  proof -
    have "real_of_rat (1/100) \<le> of_rat q" using assms(2) by (simp only: of_rat_less_eq)
    then show ?thesis by (simp add: of_rat_divide power2_eq_square)
  qed
  then have s: "1/10 \<le> s" unfolding s_def by (rule real_le_rsqrt)
  have "0 \<le> real_of_rat q" using assms(2) by simp
  then have ss: "s * s = of_rat q" by (simp add: s_def)
  have "\<bar>of_rat n - s\<bar> \<le> s / 100" using assms(1) s unfolding rounds_well_def n_def by simp
  then have n: "99/100 * s \<le> of_rat n" "of_rat n \<le> 101/100 * s" by linarith+
  have np: "0 < real_of_rat n" using n(1) s by linarith
  have "real_of_rat n * of_rat n \<le> (101/100 * s) * (101/100 * s)" using n np s by (intro mult_mono) auto
  also have "\<dots> = 10201/10000 * of_rat q" using ss by simp
  finally have "real_of_rat (n * n) \<le> of_rat (10201/10000 * q)" by (simp add: of_rat_mult of_rat_divide)
  then have "n * n \<le> 10201/10000 * q" by (simp only: of_rat_less_eq)
  moreover have "0 < n" using np by (simp only: zero_less_of_rat_iff)
  ultimately show ?thesis by (simp add: n_def s_def)
qed

lemma cosine_self:
  assumes "rounds_well flt" and "v \<noteq> []" and "1/100 \<le> squares v"
  shows "DEFAULT_THRESHOLD < cosine flt v v"
proof -
  define n where "n = flt (sqrt (of_rat (squares v)))"
  have n: "0 < n" "n * n \<le> 10201/10000 * squares v"
    using rounded_root [OF assms(1,3)] unfolding n_def by simp_all
  have "cosine flt v v = squares v / (n * n)"
    using n(1) assms(2) by (simp add: cosine_def Let_def map2_self squares_def [symmetric] n_def [symmetric])
  moreover have "92/100 < squares v / (n * n)"
  proof -
    have "92/100 * (n * n) \<le> 92/100 * (10201/10000 * squares v)" using n(2) by simp
    also have "\<dots> < squares v" using assms(3) by simp
    finally show ?thesis using n(1) by (simp add: pos_less_divide_eq)
  qed
  ultimately show ?thesis by (simp add: DEFAULT_THRESHOLD_def)
qed

lemma squares_histogram:
  assumes "s \<noteq> []" and "0 < width"
  shows "1 \<le> squares (histogram width s)"
proof -
  define i where "i = (of_char (hd (lower s)) :: nat) mod width"
  have "hd (lower s) \<in># filter_mset (\<lambda>ch. of_char ch mod width = i) (mset (lower s))"
    using assms(1) by (cases s) (simp_all add: i_def lower_def)
  then have "filter_mset (\<lambda>ch. of_char ch mod width = i) (mset (lower s)) \<noteq> {#}" by (metis empty_iff set_mset_empty)
  then have "1 \<le> size (filter_mset (\<lambda>ch. of_char ch mod width = i) (mset (lower s)))"
    unfolding One_nat_def Suc_le_eq nonempty_has_size [symmetric] .
  then have "(1::rat) \<le> of_nat (size (filter_mset (\<lambda>ch. of_char ch mod width = i) (mset (lower s))))"
    by (metis of_nat_1 of_nat_le_iff)
  moreover have "i < width" using assms(2) by (simp add: i_def)
  ultimately have "1 \<le> histogram width s ! i" by (simp only: histogram_nth_count)
  then have "1 * 1 \<le> histogram width s ! i * histogram width s ! i" by (intro mult_mono) auto
  also have "\<dots> \<le> squares (histogram width s)" using assms(2) by (intro squares_ge) (simp add: i_def)
  finally show ?thesis by simp
qed

lemma squares_hash_embed:
  assumes "rounds_well flt" and "s \<noteq> []" and "0 < width"
  shows "1/100 \<le> squares (hash_embed flt width s)"
proof -
  define q where "q = squares (histogram width s)"
  define n where "n = flt (sqrt (of_rat q))"
  have q: "1 \<le> q" unfolding q_def by (rule squares_histogram [OF assms(2,3)])
  then have n: "0 < n" "n * n \<le> 10201/10000 * q" using rounded_root [OF assms(1), of q] unfolding n_def by simp_all
  have "hash_embed flt width s = map (\<lambda>x. x / n) (histogram width s)"
    using n(1) by (simp add: hash_embed_def Let_def squares_def [symmetric] q_def [symmetric] n_def [symmetric])
  then have "squares (hash_embed flt width s) = q / (n * n)" by (simp add: squares_divide q_def)
  moreover have "1/100 * (n * n) \<le> q" using n(2) q by linarith
  ultimately show ?thesis using n(1) by (simp add: pos_le_divide_eq)
qed

section \<open>The in-memory set-up of the gate\<close>

definition lift_search :: "('st \<Rightarrow> 'a) \<Rightarrow> ('a, 'st) io" where
  "lift_search f = (\<lambda>st. (Inr (f st), st))"

definition memory_semantic_accept :: "(real \<Rightarrow> rat) \<Rightarrow> (dtime \<Rightarrow> string) \<Rightarrow> raw_event \<Rightarrow> (bool \<times> string option, semantic_docs) io" where
  "memory_semantic_accept flt isofmt ev =
     semantic_accept (\<lambda>v k since. lift_search (memory_search flt v k since))
       (\<lambda>doc_id v ts docs. (Inr (), memory_insert doc_id v ts docs)) (\<lambda>s. io_ret (hash_embed flt EMBED_DIM s)) isofmt ev"

lemma search_best:
  assumes "(doc_id, w, ts) \<in> set docs" and "since \<le> ts" and "0 < k"
  obtains dup score t rest where "memory_search flt v k since docs = (dup, score, t) # rest" and "cosine flt v w \<le> score"
proof -
  define hits where "hits = map (\<lambda>(doc_id, w, ts). (doc_id, cosine flt v w, ts)) (filter (\<lambda>(doc_id, w, ts). since \<le> ts) docs)"
  define srt where "srt = sort_key (\<lambda>h. - fst (snd h)) hits"
  have "(doc_id, cosine flt v w, ts) \<in> set hits" using assms(1,2) by (force simp: hits_def)
  then have mem: "(doc_id, cosine flt v w, ts) \<in> set srt" by (simp add: srt_def)
  then obtain dup score t tl where srt: "srt = (dup, score, t) # tl" by (cases srt) auto
  have "sorted (map (\<lambda>h. - fst (snd h)) srt)" by (simp add: srt_def)
  then have "cosine flt v w \<le> score" using mem unfolding srt by (fastforce simp del: sort_key_simps)
  moreover have "memory_search flt v k since docs = (dup, score, t) # take (k - 1) tl"
    using assms(3) srt by (cases k) (simp_all add: memory_search_def srt_def hits_def)
  ultimately show thesis by (rule that [rotated])
qed

lemma accepted_is_indexed:
  assumes "memory_semantic_accept flt isofmt ev docs = (Inr (True, d), docs')"
  shows "\<exists>doc_id. docs' = docs @ [(doc_id, hash_embed flt EMBED_DIM (event_text ev), fst (re_ingest_ts ev))]"
  using assms
  by (auto simp: memory_semantic_accept_def semantic_accept_def lift_search_def io_bind_def io_ret_def memory_insert_def
      split: list.splits if_splits)

lemma gate_keeps_docs: "set docs \<subseteq> set (snd (memory_semantic_accept flt isofmt ev docs))"
  by (auto simp: memory_semantic_accept_def semantic_accept_def lift_search_def io_bind_def io_ret_def memory_insert_def
      split: list.splits)

lemma gate_run_keeps_docs: "set docs \<subseteq> set (fold (\<lambda>ev ds. snd (memory_semantic_accept flt isofmt ev ds)) evs docs)"
proof (induction evs arbitrary: docs)
  case (Cons ev evs)
  show ?case using gate_keeps_docs [of docs flt isofmt ev] Cons.IH by fastforce
qed simp

text \<open>
  C8: An event whose text (title and body) holds the same characters equally often as the text of an event the gate accepted,
  in any order and upper or lower case, spaces, digits and punctuation counted like letters, is dropped as a duplicate by
  the gate with the default embedding, whatever events arrived in between, if it is ingested at most the window of 24 hours
  after the accepted one.
\<close>

theorem anagram_is_dropped:
  assumes "rounds_well flt"
    and "memory_semantic_accept flt isofmt ev1 docs = (Inr (True, d), docs')"
    and "docs'' = fold (\<lambda>ev ds. snd (memory_semantic_accept flt isofmt ev ds)) between docs'"
    and "mset (lower (event_text ev1)) = mset (lower (event_text ev2))"
    and "fst (re_ingest_ts ev2) \<le> fst (re_ingest_ts ev1) + 24 * 3600"
  shows "\<exists>dup. memory_semantic_accept flt isofmt ev2 docs'' = (Inr (False, Some dup), docs'')"
proof -
  let ?v = "hash_embed flt EMBED_DIM (event_text ev1)"
  obtain doc_id where docs': "docs' = docs @ [(doc_id, ?v, fst (re_ingest_ts ev1))]"
    using accepted_is_indexed [OF assms(2)] by blast
  have v2: "hash_embed flt EMBED_DIM (event_text ev2) = ?v" by (rule hash_embed_mset [OF assms(4), symmetric])
  have "1/100 \<le> squares ?v" by (rule squares_hash_embed [OF assms(1)]) (simp_all add: event_text_def EMBED_DIM_def)
  moreover have "?v \<noteq> []" using calculation by (auto simp: squares_def)
  ultimately have close: "DEFAULT_THRESHOLD < cosine flt ?v ?v" by (intro cosine_self [OF assms(1)])
  have "(doc_id, ?v, fst (re_ingest_ts ev1)) \<in> set docs''"
    using gate_run_keeps_docs [of docs' flt isofmt between] by (auto simp: assms(3) docs')
  moreover have "fst (re_ingest_ts ev2) - DEFAULT_WINDOW \<le> fst (re_ingest_ts ev1)" using assms(5) by (simp add: DEFAULT_WINDOW_def)
  ultimately obtain dup score t rest where
    "memory_search flt ?v 5 (fst (re_ingest_ts ev2) - DEFAULT_WINDOW) docs'' = (dup, score, t) # rest" "cosine flt ?v ?v \<le> score"
    by (rule search_best [OF _ _ zero_less_numeral])
  then show ?thesis using close
    by (simp add: memory_semantic_accept_def semantic_accept_def lift_search_def io_bind_def io_ret_def v2)
qed

definition thousandths :: "real \<Rightarrow> rat" where
  "thousandths x = of_int \<lfloor>1000 * x\<rfloor> / 1000"

lemma thousandths_round_well: "rounds_well thousandths"
  unfolding rounds_well_def
proof (intro allI impI)
  fix x :: real
  assume "1/10 \<le> x"
  moreover have e: "real_of_rat (thousandths x) = of_int \<lfloor>1000 * x\<rfloor> / 1000" by (simp add: thousandths_def of_rat_divide)
  moreover have "of_int \<lfloor>1000 * x\<rfloor> \<le> 1000 * x" "1000 * x < of_int \<lfloor>1000 * x\<rfloor> + 1" by linarith+
  ultimately show "\<bar>of_rat (thousandths x) - x\<bar> \<le> x / 100" unfolding e by linarith
qed

definition sample_raw :: "string \<Rightarrow> seconds \<Rightarrow> raw_event" where
  "sample_raw title t =
     \<lparr>re_source_id = ''rss:wire'', re_event_ts = (t, 0), re_ingest_ts = (t, 0), re_url = None, re_title = title,
      re_body = [], re_lang = ''en'', re_raw = []\<rparr>"

lemma first_is_accepted:
  "memory_semantic_accept flt isofmt ev [] = (Inr (True, None),
     [(re_source_id ev @ '':'' @ isofmt (re_event_ts ev), hash_embed flt EMBED_DIM (event_text ev), fst (re_ingest_ts ev))])"
  by (simp add: memory_semantic_accept_def semantic_accept_def lift_search_def io_bind_def io_ret_def memory_search_def
      memory_insert_def)

theorem anagram_is_dropped_witness:
  "let docs = fold (\<lambda>ev ds. snd (memory_semantic_accept thousandths (\<lambda>t. []) ev ds)) [sample_raw ''Fed to act'' 0, sample_raw ''b'' 60] []
   in \<exists>dup. memory_semantic_accept thousandths (\<lambda>t. []) (sample_raw ''cat of Ted'' 3600) docs = (Inr (False, Some dup), docs)"
proof -
  let ?e1 = "sample_raw ''Fed to act'' 0" and ?e2 = "sample_raw ''cat of Ted'' 3600"
  let ?docs = "snd (memory_semantic_accept thousandths (\<lambda>t. []) ?e1 [])"
  have 0: "memory_semantic_accept thousandths (\<lambda>t. []) ?e1 [] = (Inr (True, None), ?docs)" by (simp add: first_is_accepted)
  have 1: "mset (lower (event_text ?e1)) = mset (lower (event_text ?e2))"
    by code_simp
  have 2: "fst (re_ingest_ts ?e2) \<le> fst (re_ingest_ts ?e1) + 24 * 3600"
    by (simp add: sample_raw_def)
  from anagram_is_dropped [OF thousandths_round_well 0 refl 1 2, of "[sample_raw ''b'' 60]"] show ?thesis by simp
qed

text \<open>
  C13: With Redis behind it, the hash gate lets exactly the first event of each source, address and second through, whatever
  the order of the arrivals of a week.
\<close>

theorem redis_gate_passes_first:
  assumes "0 < ttl" and "list_all (\<lambda>(now, ev). t0 \<le> now \<and> now < t0 + ttl) arrivals" and "sorted (map fst arrivals)"
  shows "fst (hash_run (redis_claim d) sha isofmt ttl arrivals Map.empty)
    = first_of_key {} (map (hash_key sha isofmt \<circ> snd) arrivals)"
proof (rule redis_store.run_passes_first [OF assms, of t0])
  show "list_all (\<lambda>(now, ev). t0 \<le> now) arrivals" using assms(2) by (auto simp: list_all_iff)
qed (simp_all add: ttl_held_def)

theorem redis_gate_passes_first_witness:
  "fst (hash_run (redis_claim 1) id (\<lambda>t. ''now'') DEDUPE_TTL_SECONDS
     [(0, sample_raw ''a'' 0), (60, sample_raw ''b'' 0), (3600, sample_raw ''a'' 0)] Map.empty) = [True, True, False]"
proof -
  have "fst (hash_run (redis_claim 1) id (\<lambda>t. ''now'') DEDUPE_TTL_SECONDS
      [(0, sample_raw ''a'' 0), (60, sample_raw ''b'' 0), (3600, sample_raw ''a'' 0)] Map.empty)
    = first_of_key {} (map (hash_key id (\<lambda>t. ''now'') \<circ> snd) [(0 :: seconds, sample_raw ''a'' 0), (60, sample_raw ''b'' 0), (3600, sample_raw ''a'' 0)])"
    by (rule redis_gate_passes_first [where ?t0.0 = 0]) (simp_all add: DEDUPE_TTL_SECONDS_def)
  also have "\<dots> = [True, True, False]"
    by (simp add: hash_key_def hash_for_def hash_payload_def sample_raw_def str_or_def)
  finally show ?thesis .
qed

end
