(* ===== verification/IntelText.thy ===== *)
theory IntelText
  imports IntelIngest
begin

text \<open>
  What the intelligence agent does with an event's text (\<^verbatim>\<open>apps/agent_intelligence/intel/\<close>):
  translation (\<^verbatim>\<open>translate.py\<close>), and the valence and the tickers of a headline
  (\<^verbatim>\<open>sentiment.py\<close>). \<open>chat\<close> is the language model, \<open>float_text\<close> is \<open>float\<close> of a string.
\<close>

record chat_call =
  cc_caller :: string
  cc_messages :: "(string \<times> string) list"
  cc_max_tokens :: nat
  cc_temperature :: rat

section \<open>Lines\<close>

definition solid_lines :: "string \<Rightarrow> string list" where
  "solid_lines s = filter (\<lambda>p. p \<noteq> []) (map strip (splitlines (strip s)))"

section \<open>Translation\<close>

definition TRANSLATE_PROMPT :: string where
  "TRANSLATE_PROMPT =
     ''Translate the following news headline and body to English. '' @
     ''Preserve numbers, tickers, and named entities exactly. '' @
     ''Output two lines: the first is the translated headline, the second is the body.''"

definition split_translation :: "string \<Rightarrow> string \<Rightarrow> string \<Rightarrow> string \<times> string" where
  "split_translation s fallback_title fallback_body =
     (case solid_lines s of
        [] \<Rightarrow> (fallback_title, fallback_body)
      | title # rest \<Rightarrow>
          (let body = join_with [CHR 0x0A] rest in (title, if body \<noteq> [] then body else fallback_body)))"

definition translate_call :: "raw_event \<Rightarrow> chat_call" where
  "translate_call ev =
     \<lparr>cc_caller = ''intel.crawler.translate'',
      cc_messages = [(''system'', TRANSLATE_PROMPT),
                     (''user'', ''Headline: '' @ re_title ev @ [CHR 0x0A, CHR 0x0A] @ ''Body: '' @ re_body ev)],
      cc_max_tokens = 1500, cc_temperature = 0\<rparr>"

definition translate :: "(chat_call \<Rightarrow> (string, 'w) io) \<Rightarrow> raw_event \<Rightarrow> (string \<times> string, 'w) io" where
  "translate chat ev =
     (if lower (re_lang ev) = ''en'' then io_ret (re_title ev, re_body ev)
      else io_bind (chat (translate_call ev)) (\<lambda>answer. io_ret (split_translation answer (re_title ev) (re_body ev))))"

section \<open>Valence\<close>

definition VADER_NEG :: "string list" where
  "VADER_NEG = [''crash'', ''plunge'', ''fail'', ''loss'', ''scandal'', ''default'', ''bankrupt'']"

definition VADER_POS :: "string list" where
  "VADER_POS = [''surge'', ''beat'', ''rally'', ''record'', ''growth'', ''approve'', ''expand'']"

text \<open>\<open>s.count(w)\<close> of a word that is not empty.\<close>

function count_of :: "string \<Rightarrow> string \<Rightarrow> nat" where
  "count_of w [] = 0"
| "count_of w (c # s) =
     (if starts_with w (c # s) then Suc (count_of w (drop (length w - 1) s)) else count_of w s)"
  by pat_completeness auto
termination by (relation "measure (length \<circ> snd)") auto

definition vader_score :: "string \<Rightarrow> rat" where
  "vader_score s =
     (let low = lower s;
          pos = sum_list (map (\<lambda>w. count_of w low) VADER_POS);
          neg = sum_list (map (\<lambda>w. count_of w low) VADER_NEG)
      in if pos + neg = 0 then 0 else (of_nat pos - of_nat neg) / of_nat (pos + neg))"

section \<open>Tickers\<close>

text \<open>
  \<open>\b[A-Z]{1,5}(?:\.[A-Z]{2,4})?\b\<close>: the regular expression tries the longest run first and the
  suffix before none. \<open>prev\<close> is the character before the rest of the text.
\<close>

definition word_char :: "char \<Rightarrow> bool" where
  "word_char c \<longleftrightarrow> is_lower c \<or> is_upper c \<or> is_digit c \<or> c = CHR ''_''"

definition ends_word :: "string \<Rightarrow> bool" where
  "ends_word s \<longleftrightarrow> s = [] \<or> \<not> word_char (hd s)"

definition upper_run :: "nat \<Rightarrow> string \<Rightarrow> bool" where
  "upper_run n s \<longleftrightarrow> n \<le> length s \<and> list_all is_upper (take n s)"

text \<open>The lengths to try after a run: that of a suffix with its dot, or none.\<close>

definition suffix_len :: "string \<Rightarrow> nat option" where
  "suffix_len s =
     List.find (\<lambda>m. if m = 0 then ends_word s
                    else s \<noteq> [] \<and> hd s = CHR ''.'' \<and> upper_run (m - 1) (tl s) \<and> ends_word (drop m s))
       [5, 4, 3, 0]"

fun ticker_try :: "nat list \<Rightarrow> string \<Rightarrow> nat option" where
  "ticker_try [] s = None"
| "ticker_try (n # ns) s =
     (if upper_run n s then (case suffix_len (drop n s) of Some m \<Rightarrow> Some (n + m) | None \<Rightarrow> ticker_try ns s)
      else ticker_try ns s)"

definition ticker_len :: "string \<Rightarrow> nat option" where
  "ticker_len s = ticker_try [5, 4, 3, 2, 1] s"

function tickers_from :: "bool \<Rightarrow> string \<Rightarrow> string list" where
  "tickers_from prev_word [] = []"
| "tickers_from prev_word (c # s) =
     (case (if prev_word then None else ticker_len (c # s)) of
        Some (Suc n) \<Rightarrow> (c # take n s) # tickers_from (word_char (last (c # take n s))) (drop n s)
      | _ \<Rightarrow> tickers_from (word_char c) s)"
  by pat_completeness auto
termination by (relation "measure (length \<circ> snd)") auto

definition candidate_tickers :: "string \<Rightarrow> string list" where
  "candidate_tickers s = tickers_from False s"

section \<open>Classification\<close>

text \<open>A float that the model may print: \<open>float\<close> also reads \<open>nan\<close> and the infinities.\<close>

datatype pyfloat = Fin rat | NaN | PosInf | NegInf

text \<open>\<open>max(-1.0, min(1.0, x))\<close>: \<open>min\<close> keeps its first argument unless the second is smaller.\<close>

fun clip_unit :: "pyfloat \<Rightarrow> rat" where
  "clip_unit (Fin r) = clip (-1) 1 r"
| "clip_unit NaN = 1"
| "clip_unit PosInf = 1"
| "clip_unit NegInf = -1"

definition parse_sentiment :: "(string \<Rightarrow> pyfloat option) \<Rightarrow> string \<Rightarrow> rat \<Rightarrow> rat \<times> string list" where
  "parse_sentiment float_text s fallback_valence =
     (case solid_lines s of
        [] \<Rightarrow> (fallback_valence, [])
      | first # rest \<Rightarrow>
          ((case float_text (hd (split_on CHR '','' first)) of Some x \<Rightarrow> clip_unit x | None \<Rightarrow> fallback_valence),
           (case rest of [] \<Rightarrow> []
            | second # _ \<Rightarrow> map (upper \<circ> strip) (filter (\<lambda>t. strip t \<noteq> []) (split_on CHR '','' second)))))"

record sentiment_result =
  sr_valence :: rat
  sr_target_assets :: "string list"
  sr_used_llm :: bool

definition SENTIMENT_PROMPT :: string where
  "SENTIMENT_PROMPT =
     ''You are a finance-aware sentiment tagger. '' @
     ''Output two CSV lines: line1=valence in [-1,1], '' @
     ''line2=comma-separated tickers actually mentioned (no fabrication).''"

definition classify_call :: "string \<Rightarrow> string \<Rightarrow> chat_call" where
  "classify_call title body =
     \<lparr>cc_caller = ''intel.sentiment.classify'',
      cc_messages = [(''system'', SENTIMENT_PROMPT), (''user'', ''Headline: '' @ title @ [CHR 0x0A] @ ''Body: '' @ body)],
      cc_max_tokens = 200, cc_temperature = 0\<rparr>"

definition classify :: "(string \<Rightarrow> pyfloat option) \<Rightarrow> (chat_call \<Rightarrow> (string, 'w) io) \<Rightarrow> string \<Rightarrow> string
    \<Rightarrow> (sentiment_result, 'w) io" where
  "classify float_text chat title body =
     (let valence = vader_score (title @ [CHR 0x0A] @ body);
          tickers = candidate_tickers title
      in if tickers = [] then io_ret \<lparr>sr_valence = valence, sr_target_assets = [], sr_used_llm = False\<rparr>
         else io_bind (chat (classify_call title body)) (\<lambda>answer.
           let (llm_valence, llm_tickers) = parse_sentiment float_text answer valence
           in io_ret \<lparr>sr_valence = llm_valence, sr_target_assets = filter (\<lambda>t. t \<in> set tickers) llm_tickers,
                      sr_used_llm = True\<rparr>))"

section \<open>What a classification can be\<close>

lemma vader_score_unit: "-1 \<le> vader_score s \<and> vader_score s \<le> 1"
proof -
  have "-1 \<le> (of_nat p - of_nat n) / (of_nat (p + n) :: rat) \<and> (of_nat p - of_nat n) / (of_nat (p + n) :: rat) \<le> 1"
    if "p + n \<noteq> 0" for p n
  proof -
    have "0 < (of_nat (p + n) :: rat)" using that by (simp only: of_nat_0_less_iff)
    then show ?thesis by (simp add: pos_le_divide_eq pos_divide_le_eq)
  qed
  then show ?thesis by (cases "vader_score s = 0") (auto simp only: vader_score_def Let_def split: if_splits)
qed

lemma clip_unit_bounds: "-1 \<le> clip_unit x \<and> clip_unit x \<le> 1"
  by (cases x) (simp_all add: clip_def)

lemma parse_sentiment_unit:
  "-1 \<le> v \<Longrightarrow> v \<le> 1 \<Longrightarrow> -1 \<le> fst (parse_sentiment float_text s v) \<and> fst (parse_sentiment float_text s v) \<le> 1"
  by (auto simp: parse_sentiment_def clip_unit_bounds split: list.split option.split)

text \<open>The words the regular expression describes.\<close>

definition ticker_shape :: "string \<Rightarrow> bool" where
  "ticker_shape t \<longleftrightarrow>
     (\<exists>a b. t = a @ b \<and> 1 \<le> length a \<and> length a \<le> 5 \<and> list_all is_upper a
       \<and> (b = [] \<or> (\<exists>u. b = CHR ''.'' # u \<and> 2 \<le> length u \<and> length u \<le> 4 \<and> list_all is_upper u)))"

lemma suffix_len_shape:
  assumes "suffix_len s = Some m"
  shows "m \<le> length s \<and> (m = 0 \<or> (\<exists>u. take m s = CHR ''.'' # u \<and> 2 \<le> length u \<and> length u \<le> 4 \<and> list_all is_upper u))"
proof (cases "m = 0")
  case False
  have "m \<in> set [5, 4, 3, 0] \<and> (if m = 0 then ends_word s
      else s \<noteq> [] \<and> hd s = CHR ''.'' \<and> upper_run (m - 1) (tl s) \<and> ends_word (drop m s))"
    using assms unfolding suffix_len_def find_Some_iff by (metis nth_mem)
  then have m: "m \<in> set [5, 4, 3, 0]" and p: "s \<noteq> []" "hd s = CHR ''.''" "upper_run (m - 1) (tl s)"
    using False by (simp_all split: if_splits)
  obtain t where s: "s = CHR ''.'' # t" using p(1,2) by (cases s) auto
  obtain k where k: "m = Suc k" using False by (cases m) auto
  show ?thesis using m p(3) by (auto simp: s k upper_run_def)
qed simp

lemma ticker_try_shape:
  assumes "ticker_try ns s = Some k" and "list_all (\<lambda>n. 1 \<le> n \<and> n \<le> 5) ns"
  shows "k \<le> length s \<and> 1 \<le> k \<and> ticker_shape (take k s)"
  using assms
proof (induction ns)
  case (Cons n ns)
  show ?case
  proof (cases "upper_run n s \<and> (\<exists>m. suffix_len (drop n s) = Some m)")
    case True
    then obtain m where m: "suffix_len (drop n s) = Some m" and u: "upper_run n s" by blast
    then have k: "k = n + m" using Cons.prems by simp
    have n: "1 \<le> n" "n \<le> 5" "n \<le> length s" "list_all is_upper (take n s)" using Cons.prems u by (simp_all add: upper_run_def)
    from suffix_len_shape [OF m] have sh: "m \<le> length (drop n s)"
      "m = 0 \<or> (\<exists>u. take m (drop n s) = CHR ''.'' # u \<and> 2 \<le> length u \<and> length u \<le> 4 \<and> list_all is_upper u)" by simp_all
    have "take k s = take n s @ take m (drop n s)" by (simp add: k take_add)
    moreover have "length (take n s) = n" using n(3) by simp
    ultimately have "ticker_shape (take k s)" unfolding ticker_shape_def using n sh(2) by (metis take_eq_Nil)
    then show ?thesis using n sh(1) by (simp add: k)
  next
    case False
    then have "ticker_try ns s = Some k" using Cons.prems by (auto split: if_splits option.splits)
    then show ?thesis using Cons by simp
  qed
qed simp

lemma tickers_step:
  "tickers_from b (c # s) =
     (case (if b then None else ticker_len (c # s)) of
        Some (Suc n) \<Rightarrow> (c # take n s) # tickers_from (word_char (last (c # take n s))) (drop n s)
      | _ \<Rightarrow> tickers_from (word_char c) s)"
  by simp

lemma candidate_shape: "t \<in> set (tickers_from b s) \<Longrightarrow> ticker_shape t"
proof (induction "length s" arbitrary: b s rule: less_induct)
  case less
  show ?case
  proof (cases s)
    case Nil
    then show ?thesis using less.prems by simp
  next
    case (Cons c s1)
    show ?thesis
    proof (cases "\<exists>n. (if b then None else ticker_len s) = Some (Suc n)")
      case True
      then obtain n where n: "(if b then None else ticker_len s) = Some (Suc n)" by blast
      then have "ticker_try [5, 4, 3, 2, 1] s = Some (Suc n)" by (simp add: ticker_len_def split: if_splits)
      from ticker_try_shape [OF this] have sh: "ticker_shape (c # take n s1)" by (simp add: Cons)
      have "t = c # take n s1 \<or> t \<in> set (tickers_from (word_char (last (c # take n s1))) (drop n s1))"
        using less.prems n unfolding Cons tickers_step by simp
      then show ?thesis using sh less.hyps [of "drop n s1"] Cons by auto
    next
      case False
      then have "t \<in> set (tickers_from (word_char c) s1)"
        using less.prems unfolding Cons tickers_step by (auto split: option.splits nat.splits)
      then show ?thesis using less.hyps [of s1] Cons by simp
    qed
  qed
qed

text \<open>A model whose world also keeps the calls made of it, in order.\<close>

definition logged_chat :: "(chat_call \<Rightarrow> (string, 'w) io) \<Rightarrow> chat_call \<Rightarrow> (string, 'w \<times> chat_call list) io" where
  "logged_chat chat c = (\<lambda>(w, calls). case chat c w of (r, w') \<Rightarrow> (r, (w', calls @ [c])))"

lemma classified_shape:
  assumes "candidate_tickers title \<noteq> []" and "(v, ts) = parse_sentiment float_text answer (vader_score s)"
  shows "-1 \<le> v \<and> v \<le> 1 \<and> list_all ticker_shape (filter (\<lambda>t. t \<in> set (candidate_tickers title)) ts)"
proof -
  have "-1 \<le> vader_score s" "vader_score s \<le> 1" using vader_score_unit by simp_all
  from parse_sentiment_unit [OF this, of float_text answer] show ?thesis
    using candidate_shape by (auto simp: assms(2) [symmetric] candidate_tickers_def list_all_iff)
qed

text \<open>
  C19: Whatever the language model answers, a classification has a valence in [-1, 1], and tags only words of the headline
  that look like tickers (up to five capitals, perhaps a dot and two to four more). The model is asked exactly once if the
  headline has such a word and not at all otherwise, as the log of its calls shows, and keeping that log changes nothing.
\<close>

theorem classification_well_typed:
  assumes "classify float_text (logged_chat chat) title body (w, []) = (res, (w', calls))"
  shows "calls = (if candidate_tickers title = [] then [] else [classify_call title body])
    \<and> classify float_text chat title body w = (res, w')
    \<and> (\<forall>r. res = Inr r \<longrightarrow> -1 \<le> sr_valence r \<and> sr_valence r \<le> 1
        \<and> set (sr_target_assets r) \<subseteq> set (candidate_tickers title) \<and> list_all ticker_shape (sr_target_assets r)
        \<and> (sr_used_llm r \<longleftrightarrow> candidate_tickers title \<noteq> []))"
proof (cases "candidate_tickers title = []")
  case True
  then show ?thesis using assms vader_score_unit by (auto simp: classify_def io_ret_def)
next
  case False
  obtain answer w1 where c: "chat (classify_call title body) w = (answer, w1)" by (rule prod.exhaust)
  show ?thesis
  proof (cases answer)
    case (Inl e)
    then show ?thesis using assms False c by (auto simp: classify_def Let_def io_bind_def logged_chat_def)
  next
    case (Inr text_out)
    obtain v ts where p: "parse_sentiment float_text text_out (vader_score (title @ [CHR 0x0A] @ body)) = (v, ts)" by (rule prod.exhaust)
    then show ?thesis using assms False c Inr classified_shape [OF False p [symmetric]]
      by (auto simp: classify_def Let_def io_bind_def io_ret_def logged_chat_def)
  qed
qed

text \<open>The model's answer \<open>nan\<close> is read as the best news there is.\<close>

definition sample_float :: "string \<Rightarrow> pyfloat option" where
  "sample_float s = (if s = ''nan'' then Some NaN else None)"

definition sample_answer :: "chat_call \<Rightarrow> (string, unit) io" where
  "sample_answer c = io_ret (''nan'' @ [CHR 0x0A] @ ''BRK.B, aapl'')"

lemma sample_classified:
  "classify sample_float sample_answer ''BRK.B and AAPL fail'' [] ()
     = (Inr \<lparr>sr_valence = 1, sr_target_assets = [''AAPL''], sr_used_llm = True\<rparr>, ())"
proof -
  have "candidate_tickers ''BRK.B and AAPL fail'' = [''BRK'', ''B'', ''AAPL'']" by code_simp
  moreover have "solid_lines (''nan'' @ [CHR 0x0A] @ ''BRK.B, aapl'') = [''nan'', ''BRK.B, aapl'']" by code_simp
  moreover have "split_on CHR '','' ''nan'' = [''nan'']" "sample_float ''nan'' = Some NaN" by code_simp+
  moreover have "map (upper \<circ> strip) (filter (\<lambda>t. strip t \<noteq> []) (split_on CHR '','' ''BRK.B, aapl'')) = [''BRK.B'', ''AAPL'']"
    by code_simp
  ultimately show ?thesis
    by (simp add: classify_def Let_def sample_answer_def parse_sentiment_def io_bind_def io_ret_def del: append.simps)
qed

theorem classification_well_typed_witness:
  "\<exists>calls. classify sample_float (logged_chat sample_answer) ''BRK.B and AAPL fail'' [] ((), [])
      = (Inr \<lparr>sr_valence = 1, sr_target_assets = [''AAPL''], sr_used_llm = True\<rparr>, ((), calls))
    \<and> calls = [classify_call ''BRK.B and AAPL fail'' []] \<and> list_all ticker_shape [''AAPL'']"
proof -
  obtain res w' calls where l: "classify sample_float (logged_chat sample_answer) ''BRK.B and AAPL fail'' [] ((), []) = (res, (w', calls))"
    by (metis prod.exhaust)
  have "candidate_tickers ''BRK.B and AAPL fail'' \<noteq> []" by code_simp
  then show ?thesis using classification_well_typed [OF l] l by (auto simp: sample_classified)
qed

end
