(* ===== verification/IntelSynth.thy ===== *)
theory IntelSynth
  imports IntelText SecretaryText
begin

text \<open>
  The intelligence agent's composers (\<^verbatim>\<open>apps/agent_intelligence/intel/\<close>): the balance of
  sources (\<^verbatim>\<open>bias_balance.py\<close>), the digest (\<^verbatim>\<open>synth.py\<close>), the brief (\<^verbatim>\<open>brief.py\<close>), the dashboard
  snapshot (\<^verbatim>\<open>dashboard.py\<close>) and the context of a ticker (\<^verbatim>\<open>context.py\<close>). The prompt registry,
  the JSON parser and printer, Pydantic, ULIDs and the model are parameters.
\<close>

section \<open>The balance of sources\<close>

record bias_balance =
  bl_by_region :: "(string, rat) dict"
  bl_by_lean :: "(string, rat) dict"

definition no_balance :: bias_balance where
  "no_balance = \<lparr>bl_by_region = [], bl_by_lean = []\<rparr>"

definition DOMINANCE_THRESHOLD :: rat where
  "DOMINANCE_THRESHOLD = 55 / 100"

definition weight_for :: "(string, rat) dict \<Rightarrow> intel_event \<Rightarrow> rat" where
  "weight_for weights ev = (case map_of weights (ie_source_id ev) of None \<Rightarrow> 1 | Some w \<Rightarrow> w)"

text \<open>\<open>d[k] += w\<close> on a \<open>defaultdict(float)\<close>.\<close>

definition add_at :: "string \<Rightarrow> rat \<Rightarrow> (string, rat) dict \<Rightarrow> (string, rat) dict" where
  "add_at k w d = AList.update k ((case map_of d k of None \<Rightarrow> 0 | Some v \<Rightarrow> v) + w) d"

fun tally_events :: "(string, rat) dict \<Rightarrow> intel_event list \<Rightarrow> (string, rat) dict \<times> (string, rat) dict \<times> rat
    \<Rightarrow> (string, rat) dict \<times> (string, rat) dict \<times> rat" where
  "tally_events weights [] acc = acc"
| "tally_events weights (ev # evs) (by_region, by_lean, tot) =
     (let w = weight_for weights ev in
      tally_events weights evs (add_at (ie_source_region ev) w by_region, add_at (ie_source_lean ev) w by_lean, tot + w))"

definition compute_balance :: "intel_event list \<Rightarrow> (string, rat) dict \<Rightarrow> bias_balance" where
  "compute_balance evs weights =
     (let (by_region, by_lean, tot) = tally_events weights evs ([], [], 0) in
      if tot = 0 then no_balance
      else \<lparr>bl_by_region = map (\<lambda>(k, v). (k, v / tot)) by_region, bl_by_lean = map (\<lambda>(k, v). (k, v / tot)) by_lean\<rparr>)"

text \<open>\<open>max\<close> with a key: the first of the largest.\<close>

fun first_max :: "(string \<times> rat) \<Rightarrow> (string \<times> rat) list \<Rightarrow> string \<times> rat" where
  "first_max best [] = best"
| "first_max best (x # xs) = first_max (if snd best < snd x then x else best) xs"

definition dominant_region :: "bias_balance \<Rightarrow> rat \<Rightarrow> string option" where
  "dominant_region balance threshold =
     (case filter (\<lambda>(r, s). threshold < s) (bl_by_region balance) of
        [] \<Rightarrow> None | x # xs \<Rightarrow> Some (fst (first_max x xs)))"

definition weights_from :: "source_cfg list \<Rightarrow> (string, rat) dict" where
  "weights_from sources = fold (\<lambda>s. AList.update (sc_id s) (sc_region_weight s)) sources []"

section \<open>The digest\<close>

record macro_release =
  mr_source :: string
  mr_series :: string
  mr_released_at :: dtime
  mr_value :: rat
  mr_note :: string

record digest_event =
  de_id :: string
  de_rank :: nat
  de_headline :: string
  de_why_it_matters :: string
  de_primary_asset_links :: "string list"
  de_regime_change_score :: rat
  de_novelty :: rat
  de_sentiment :: rat
  de_sources :: "(string \<times> string option) list"

record intel_digest =
  dg_id :: string
  dg_issued_at :: dtime
  dg_macro_regime :: string
  dg_events :: "digest_event list"
  dg_bias_balance :: bias_balance
  dg_macro_thesis :: string

text \<open>\<open>sy_prompt caller variables\<close> renders a prompt into its system part, if any, and its user part.\<close>

record 'w synth_env =
  sy_chat :: "chat_call \<Rightarrow> (string, 'w) io"
  sy_prompt :: "string \<Rightarrow> (string, string) dict \<Rightarrow> string + (string option \<times> string)"
  sy_loads :: "string \<Rightarrow> string + json"
  sy_dumps :: "json \<Rightarrow> string"
  sy_validate :: "(string, json) dict \<Rightarrow> string + intel_digest"
  sy_ulid :: "(string, 'w) io"
  sy_now :: "(dtime, 'w) io"
  sy_iso :: "dtime \<Rightarrow> string"

definition lift_res :: "string + 'a \<Rightarrow> ('a, 'w) io" where
  "lift_res r = (\<lambda>w. (r, w))"

definition event_json :: "(dtime \<Rightarrow> string) \<Rightarrow> intel_event \<Rightarrow> json" where
  "event_json isofmt ev =
     JObj [(''id'', JStr (ie_id ev)), (''title'', JStr (ie_title_en ev)), (''body'', JStr (take 600 (ie_body_en ev))),
           (''source_id'', JStr (ie_source_id ev)), (''source_region'', JStr (ie_source_region ev)),
           (''source_lean'', JStr (ie_source_lean ev)), (''event_ts'', JStr (isofmt (ie_event_ts ev))),
           (''sentiment'', JNum (ie_sentiment ev)), (''target_assets'', JArr (map JStr (ie_target_assets ev)))]"

definition release_json :: "(dtime \<Rightarrow> string) \<Rightarrow> macro_release \<Rightarrow> json" where
  "release_json isofmt r =
     JObj [(''source'', JStr (mr_source r)), (''series'', JStr (mr_series r)), (''value'', JNum (mr_value r)),
           (''released_at'', JStr (isofmt (mr_released_at r))), (''note'', JStr (mr_note r))]"

definition events_payload :: "(json \<Rightarrow> string) \<Rightarrow> (dtime \<Rightarrow> string) \<Rightarrow> intel_event list \<Rightarrow> macro_release list \<Rightarrow> string" where
  "events_payload dumps isofmt evs releases =
     dumps (JObj [(''events'', JArr (map (event_json isofmt) evs)), (''macro_releases'', JArr (map (release_json isofmt) releases))])"

definition json_object :: "(string \<Rightarrow> string + json) \<Rightarrow> string \<Rightarrow> string + (string, json) dict" where
  "json_object loads s =
     res_bind (loads s) (\<lambda>v. case v of JObj d \<Rightarrow> Inr d | _ \<Rightarrow> Inl (''synth response root must be an object, got '' @ type_name v))"

definition brace_blob :: "string \<Rightarrow> string option" where
  "brace_blob s =
     (let start = length (takeWhile (\<lambda>c. c \<noteq> CHR ''{'') s);
          back_len = length (takeWhile (\<lambda>c. c \<noteq> CHR ''}'') (rev s))
      in if CHR ''{'' \<notin> set s \<or> CHR ''}'' \<notin> set s then None
         else let stop = length s - 1 - back_len in
           if stop \<le> start then None else Some (take (stop + 1 - start) (drop start s)))"

definition parse_synth :: "(string \<Rightarrow> string + json) \<Rightarrow> string \<Rightarrow> string + (string, json) dict" where
  "parse_synth loads raw =
     (let s = strip raw in
      if starts_with ''{'' s \<and> ends_with ''}'' s then json_object loads s
      else case brace_blob s of
             None \<Rightarrow> Inl ''synth response did not contain a JSON object''
           | Some blob \<Rightarrow> json_object loads blob)"

definition setdefault :: "string \<Rightarrow> json \<Rightarrow> (string, json) dict \<Rightarrow> (string, json) dict" where
  "setdefault k v d = (if map_of d k = None then AList.update k v d else d)"

definition synth_call :: "(string \<times> string) list \<Rightarrow> chat_call" where
  "synth_call messages = \<lparr>cc_caller = ''intel.synth'', cc_messages = messages, cc_max_tokens = 4096, cc_temperature = 2 / 10\<rparr>"

definition call_synth :: "'w synth_env \<Rightarrow> (string \<times> string) list \<Rightarrow> dtime \<Rightarrow> (intel_digest, 'w) io" where
  "call_synth env messages now =
     io_bind (sy_chat env (synth_call messages)) (\<lambda>answer.
     io_bind (lift_res (parse_synth (sy_loads env) answer)) (\<lambda>parsed.
     io_bind (sy_ulid env) (\<lambda>new_id.
       lift_res (sy_validate env
         (setdefault ''bias_balance'' (JObj [(''by_region'', JObj []), (''by_lean'', JObj [])])
           (setdefault ''events'' (JArr [])
             (setdefault ''macro_thesis'' (JStr ''Macro thesis pending.'')
               (setdefault ''issued_at'' (JStr (sy_iso env now))
                 (setdefault ''id'' (JStr new_id) parsed)))))))))"

definition MAX_REPROMPTS :: nat where
  "MAX_REPROMPTS = 2"

definition reprompt_note :: "string \<Rightarrow> string \<times> string" where
  "reprompt_note dominant =
     (''user'', ''Previous synth was too '' @ dominant @ ''-heavy. '' @
        ''Surface at least 5 events from non-'' @ dominant @ '' regions.'')"

fun reprompt_loop :: "'w synth_env \<Rightarrow> bias_balance \<Rightarrow> dtime \<Rightarrow> nat \<Rightarrow> (string \<times> string) list \<Rightarrow> intel_digest \<Rightarrow> (intel_digest, 'w) io" where
  "reprompt_loop env balance now 0 messages digest = io_ret digest"
| "reprompt_loop env balance now (Suc n) messages digest =
     (case dominant_region balance DOMINANCE_THRESHOLD of
        None \<Rightarrow> io_ret digest
      | Some dominant \<Rightarrow>
          (let messages' = messages @ [reprompt_note dominant] in
           io_bind (call_synth env messages' now) (\<lambda>digest'. reprompt_loop env balance now n messages' digest')))"

definition synth_messages :: "'w synth_env \<Rightarrow> intel_event list \<Rightarrow> macro_release list \<Rightarrow> string \<Rightarrow> string + (string \<times> string) list" where
  "synth_messages env evs releases macro_regime =
     res_bind (sy_prompt env ''intel.synth''
         [(''events_json'', events_payload (sy_dumps env) (sy_iso env) evs releases), (''macro_regime'', macro_regime)])
       (\<lambda>(sys, usr). Inr [(''system'', str_or sys []), (''user'', usr)])"

definition synthesize :: "'w synth_env \<Rightarrow> intel_event list \<Rightarrow> macro_release list \<Rightarrow> string \<Rightarrow> source_cfg list \<Rightarrow> dtime
    \<Rightarrow> (intel_digest, 'w) io" where
  "synthesize env evs releases macro_regime sources now =
     (let balance = compute_balance evs (weights_from sources) in
      io_bind (lift_res (synth_messages env evs releases macro_regime)) (\<lambda>messages.
      io_bind (call_synth env messages now) (\<lambda>digest.
      io_bind (reprompt_loop env balance now MAX_REPROMPTS messages digest) (\<lambda>final.
        io_ret (final\<lparr>dg_bias_balance := balance\<rparr>)))))"

definition FALLBACK_WHY :: string where
  "FALLBACK_WHY = ''Auto-stub: synth fallback path.''"

definition fallback_digest :: "intel_event list \<Rightarrow> bias_balance \<Rightarrow> string \<Rightarrow> string \<Rightarrow> dtime \<Rightarrow> intel_digest" where
  "fallback_digest evs balance macro_regime new_id now =
     \<lparr>dg_id = new_id, dg_issued_at = now, dg_macro_regime = macro_regime,
      dg_events = map (\<lambda>(i, ev). \<lparr>de_id = ie_id ev, de_rank = i + 1, de_headline = ie_title_en ev, de_why_it_matters = FALLBACK_WHY,
          de_primary_asset_links = ie_target_assets ev, de_regime_change_score = 0, de_novelty = 0,
          de_sentiment = ie_sentiment ev, de_sources = [(ie_source_id ev, ie_url ev)]\<rparr>)
        (List.enumerate 0 (take 25 evs)),
      dg_bias_balance = balance,
      dg_macro_thesis = ''Synth fallback '' @ em_dash @ '' review manually.''\<rparr>"

section \<open>The balance against its definition\<close>

definition lookup0 :: "(string, rat) dict \<Rightarrow> string \<Rightarrow> rat" where
  "lookup0 d k = (case map_of d k of None \<Rightarrow> 0 | Some v \<Rightarrow> v)"

definition total_weight :: "(string, rat) dict \<Rightarrow> intel_event list \<Rightarrow> rat" where
  "total_weight weights evs = sum_list (map (weight_for weights) evs)"

definition region_weight :: "(string, rat) dict \<Rightarrow> intel_event list \<Rightarrow> string \<Rightarrow> rat" where
  "region_weight weights evs r = total_weight weights (filter (\<lambda>ev. ie_source_region ev = r) evs)"

lemma lookup0_add_at: "lookup0 (add_at k w d) r = lookup0 d r + (if r = k then w else 0)"
  by (simp add: lookup0_def add_at_def)

lemma distinct_add_at: "distinct (keys d) \<Longrightarrow> distinct (keys (add_at k w d))"
  by (auto simp: add_at_def)

lemma tally_events_sums:
  assumes "tally_events weights evs (by_region, by_lean, tot) = (by_region', by_lean', tot')" and "distinct (keys by_region)"
  shows "lookup0 by_region' r = lookup0 by_region r + region_weight weights evs r \<and> distinct (keys by_region')
    \<and> tot' = tot + total_weight weights evs"
  using assms
proof (induction evs arbitrary: by_region by_lean tot)
  case (Cons ev evs)
  let ?w = "weight_for weights ev"
  have "tally_events weights evs (add_at (ie_source_region ev) ?w by_region, add_at (ie_source_lean ev) ?w by_lean, tot + ?w)
      = (by_region', by_lean', tot')" using Cons.prems(1) by (simp add: Let_def)
  from Cons.IH [OF this distinct_add_at [OF Cons.prems(2)]] show ?case
    by (simp add: lookup0_add_at region_weight_def total_weight_def)
qed (simp add: region_weight_def total_weight_def)

lemma total_weight_nonneg: "list_all (\<lambda>ev. 0 < weight_for weights ev) evs \<Longrightarrow> 0 \<le> total_weight weights evs"
  by (induction evs) (simp_all add: total_weight_def)

lemma two_regions_within_total:
  "list_all (\<lambda>ev. 0 < weight_for weights ev) evs \<Longrightarrow> r \<noteq> q
    \<Longrightarrow> region_weight weights evs r + region_weight weights evs q \<le> total_weight weights evs"
  by (induction evs) (auto simp: region_weight_def total_weight_def)

lemma first_max_in: "first_max x xs \<in> set (x # xs)"
  by (induction x xs rule: first_max.induct) auto

lemma dominant_region_in:
  assumes "dominant_region b t = Some r"
  shows "\<exists>s. (r, s) \<in> set (bl_by_region b) \<and> t < s"
proof -
  obtain x xs where over: "filter (\<lambda>(r, s). t < s) (bl_by_region b) = x # xs" and r: "r = fst (first_max x xs)"
    using assms by (auto simp: dominant_region_def split: list.splits)
  obtain q s where qs: "first_max x xs = (q, s)" by (rule prod.exhaust)
  have "(q, s) \<in> set (filter (\<lambda>(r, s). t < s) (bl_by_region b))" unfolding over qs [symmetric] by (rule first_max_in)
  then show ?thesis using r qs by (simp, blast)
qed

lemma dominant_region_exists: "(r, s) \<in> set (bl_by_region b) \<Longrightarrow> t < s \<Longrightarrow> \<exists>q. dominant_region b t = Some q"
  by (force simp: dominant_region_def filter_empty_conv split: list.splits)

lemma balance_shares:
  assumes "total_weight weights evs \<noteq> 0"
  shows "\<exists>d. bl_by_region (compute_balance evs weights) = map (\<lambda>(k, v). (k, v / total_weight weights evs)) d
    \<and> distinct (keys d) \<and> (\<forall>r. lookup0 d r = region_weight weights evs r)"
proof -
  obtain d l t where t: "tally_events weights evs ([], [], 0) = (d, l, t)" by (rule prod_cases3)
  have all: "lookup0 d r = region_weight weights evs r" "distinct (keys d)" "t = total_weight weights evs" for r
    using tally_events_sums [OF t, of r] by (simp_all add: lookup0_def)
  then have "bl_by_region (compute_balance evs weights) = map (\<lambda>(k, v). (k, v / t)) d"
    using assms by (simp add: compute_balance_def t)
  then show ?thesis using all by blast
qed

text \<open>
  C23: With positive weights, the region reported as dominant is the one whose sources carry more than 55% of the weight of
  all events, and there is none exactly if no region does.
\<close>

theorem dominant_region_iff:
  assumes "list_all (\<lambda>ev. 0 < weight_for weights ev) evs"
  shows "dominant_region (compute_balance evs weights) DOMINANCE_THRESHOLD = Some r
    \<longleftrightarrow> 55 / 100 * total_weight weights evs < region_weight weights evs r"
proof (cases "total_weight weights evs = 0")
  case True
  obtain d l t where t: "tally_events weights evs ([], [], 0) = (d, l, t)" by (rule prod_cases3)
  have "t = 0" using tally_events_sums [OF t] True by simp
  moreover have "region_weight weights evs r \<le> 0"
    using two_regions_within_total [OF assms, of r "r @ ''x''"] total_weight_nonneg [of weights "filter (\<lambda>ev. ie_source_region ev = r @ ''x'') evs"]
      assms True by (auto simp: region_weight_def list_all_iff)
  ultimately show ?thesis using True by (simp add: compute_balance_def t no_balance_def dominant_region_def)
next
  case False
  define tot where "tot = total_weight weights evs"
  have tot: "0 < tot" using False total_weight_nonneg [OF assms] by (simp add: tot_def)
  obtain d where d: "bl_by_region (compute_balance evs weights) = map (\<lambda>(k, v). (k, v / tot)) d" "distinct (keys d)"
      "\<And>q. lookup0 d q = region_weight weights evs q"
    using balance_shares [OF False] unfolding tot_def by blast
  have share: "(q, s) \<in> set (bl_by_region (compute_balance evs weights)) \<Longrightarrow> s = region_weight weights evs q / tot" for q s
    using d(3) [of q] map_of_is_SomeI [OF d(2)] by (auto simp: d(1) lookup0_def)
  have dominant: "55 / 100 * tot < region_weight weights evs q" if dom: "dominant_region (compute_balance evs weights) DOMINANCE_THRESHOLD = Some q" for q
  proof -
    obtain s where "(q, s) \<in> set (bl_by_region (compute_balance evs weights))" and s: "55 / 100 < s"
      using dominant_region_in [OF dom] by (auto simp: DOMINANCE_THRESHOLD_def)
    from share [OF this(1)] s show ?thesis using tot by (simp add: pos_less_divide_eq)
  qed
  show ?thesis
  proof
    assume "55 / 100 * total_weight weights evs < region_weight weights evs r"
    then have big: "55 / 100 * tot < region_weight weights evs r" by (simp add: tot_def)
    then have "lookup0 d r \<noteq> 0" using tot d(3) by auto
    then obtain v where v: "map_of d r = Some v" by (auto simp: lookup0_def split: option.splits)
    then have "(r, v / tot) \<in> set (bl_by_region (compute_balance evs weights))"
      unfolding d(1) by (force dest: map_of_SomeD)
    moreover have "DOMINANCE_THRESHOLD < v / tot"
      using big tot d(3) [of r] v by (simp add: lookup0_def DOMINANCE_THRESHOLD_def pos_less_divide_eq)
    ultimately obtain q where q: "dominant_region (compute_balance evs weights) DOMINANCE_THRESHOLD = Some q"
      using dominant_region_exists by blast
    have "q = r"
    proof (rule ccontr)
      assume "q \<noteq> r"
      from two_regions_within_total [OF assms this] have "region_weight weights evs q + region_weight weights evs r \<le> tot"
        by (simp add: tot_def)
      then show False using dominant [OF q] big tot by linarith
    qed
    then show "dominant_region (compute_balance evs weights) DOMINANCE_THRESHOLD = Some r" using q by simp
  qed (use dominant in \<open>simp add: tot_def\<close>)
qed

text \<open>The environment with a model that keeps the log of its calls.\<close>

definition lift_log :: "('a, 'w) io \<Rightarrow> ('a, 'w \<times> chat_call list) io" where
  "lift_log m = (\<lambda>(w, calls). case m w of (r, w') \<Rightarrow> (r, (w', calls)))"

definition logged_env :: "'w synth_env \<Rightarrow> ('w \<times> chat_call list) synth_env" where
  "logged_env env =
     \<lparr>sy_chat = logged_chat (sy_chat env), sy_prompt = sy_prompt env, sy_loads = sy_loads env, sy_dumps = sy_dumps env,
      sy_validate = sy_validate env, sy_ulid = lift_log (sy_ulid env), sy_now = lift_log (sy_now env), sy_iso = sy_iso env\<rparr>"

lemma logged_synth_call:
  "call_synth (logged_env env) messages now (w, calls)
     = (case call_synth env messages now w of (r, w') \<Rightarrow> (r, (w', calls @ [synth_call messages])))"
  by (simp add: call_synth_def logged_env_def logged_chat_def lift_log_def lift_res_def io_bind_def split: prod.splits sum.splits)

text \<open>The calls of one more pass of the loop, whatever the digests are.\<close>

lemma reprompt_log:
  assumes "dominant_region balance DOMINANCE_THRESHOLD = Some r"
  shows "reprompt_loop (logged_env env) balance now n messages digest (w, calls) = (res, (w', calls')) \<Longrightarrow>
     \<exists>k \<le> n. calls' = calls @ map (\<lambda>i. synth_call (messages @ replicate (Suc i) (reprompt_note r))) [0..<k]
       \<and> (\<forall>d. res = Inr d \<longrightarrow> k = n
           \<and> (n \<noteq> 0 \<longrightarrow> (\<exists>w0. call_synth env (messages @ replicate n (reprompt_note r)) now w0 = (Inr d, w'))))"
proof (induction n arbitrary: messages digest w calls)
  case (Suc n)
  let ?ms = "messages @ [reprompt_note r]"
  obtain a w1 where c: "call_synth env ?ms now w = (a, w1)" by (rule prod.exhaust)
  have shift: "map (\<lambda>i. synth_call (?ms @ replicate (Suc i) (reprompt_note r))) [0..<k]
      = map (\<lambda>i. synth_call (messages @ replicate (Suc i) (reprompt_note r))) [1..<Suc k]" for k
    by (simp add: map_Suc_upt [symmetric] del: upt_Suc)
  have front: "synth_call ?ms # map (\<lambda>i. synth_call (messages @ replicate (Suc i) (reprompt_note r))) [1..<Suc k]
      = map (\<lambda>i. synth_call (messages @ replicate (Suc i) (reprompt_note r))) [0..<Suc k]" for k
    by (simp add: upt_conv_Cons del: upt_Suc)
  show ?case
  proof (cases a)
    case (Inl e)
    then have "calls' = calls @ map (\<lambda>i. synth_call (messages @ replicate (Suc i) (reprompt_note r))) [0..<1]" "res = Inl e"
      using Suc.prems c by (simp_all add: assms Let_def io_bind_def logged_synth_call)
    then show ?thesis by (intro exI [of _ 1]) simp
  next
    case (Inr d1)
    then have again: "reprompt_loop (logged_env env) balance now n ?ms d1 (w1, calls @ [synth_call ?ms]) = (res, (w', calls'))"
      using Suc.prems c by (simp add: assms Let_def io_bind_def logged_synth_call)
    from Suc.IH [OF again] obtain k where k: "k \<le> n"
        "calls' = (calls @ [synth_call ?ms]) @ map (\<lambda>i. synth_call (?ms @ replicate (Suc i) (reprompt_note r))) [0..<k]"
        "\<And>d. res = Inr d \<Longrightarrow> k = n \<and> (n \<noteq> 0 \<longrightarrow> (\<exists>w0. call_synth env (?ms @ replicate n (reprompt_note r)) now w0 = (Inr d, w')))"
      by blast
    have log: "calls' = calls @ map (\<lambda>i. synth_call (messages @ replicate (Suc i) (reprompt_note r))) [0..<Suc k]"
      unfolding k(2) shift front [symmetric] by simp
    have end_call: "k = n \<and> (\<exists>w0. call_synth env (messages @ replicate (Suc n) (reprompt_note r)) now w0 = (Inr d, w'))" if res: "res = Inr d" for d
    proof (cases n)
      case 0
      then have "d = d1" "w' = w1" using again res by (simp_all add: io_ret_def)
      then show ?thesis using k(3) [OF res] c Inr 0 by auto
    qed (use k(3) [OF res] in auto)
    show ?thesis using log end_call k(1) by (intro exI [of _ "Suc k"]) blast
  qed
qed (simp add: io_ret_def)

lemma no_reprompt:
  "dominant_region balance DOMINANCE_THRESHOLD = None \<Longrightarrow> reprompt_loop env balance now n messages digest = io_ret digest"
  by (cases n) simp_all

text \<open>
  C16: The model is asked at most three times, each time with the messages of the first time and one more request to look
  beyond the dominant region: the log of its calls depends on the events alone, never on the digests it answered. When no
  region dominates the events, there is one call. When one does and a digest comes out, there were exactly three, however
  well balanced the first two answers were, and the digest is the last one with the events' balance written over its own.
  Only a call that fails (or an answer without a valid digest) stops earlier, and then the whole synthesis fails.
\<close>

theorem reprompts_ignore_the_digest:
  assumes "synth_messages env evs releases macro_regime = Inr messages"
    and "reg = dominant_region (compute_balance evs (weights_from sources)) (55 / 100)"
    and "synthesize (logged_env env) evs releases macro_regime sources now (w, []) = (res, (w', calls))"
  shows "calls = map (\<lambda>i. synth_call (messages @ replicate i (''user'', ''Previous synth was too '' @ the reg @ ''-heavy. '' @
           ''Surface at least 5 events from non-'' @ the reg @ '' regions.''))) [0..<length calls]
    \<and> 1 \<le> length calls \<and> length calls \<le> (if reg = None then 1 else 3)
    \<and> (\<forall>d. res = Inr d \<longrightarrow> length calls = (if reg = None then 1 else 3)
        \<and> (\<exists>w0 final. call_synth env (messages @ replicate (length calls - 1) (reprompt_note (the reg))) now w0 = (Inr final, w')
             \<and> d = final\<lparr>dg_bias_balance := compute_balance evs (weights_from sources)\<rparr>))"
proof -
  let ?b = "compute_balance evs (weights_from sources)" and ?note = "reprompt_note (the reg)"
  have reg: "dominant_region ?b DOMINANCE_THRESHOLD = reg" by (simp add: assms(2) DOMINANCE_THRESHOLD_def)
  have note_eq: "(''user'', ''Previous synth was too '' @ the reg @ ''-heavy. '' @ ''Surface at least 5 events from non-'' @ the reg @ '' regions.'')
      = ?note" by (simp add: reprompt_note_def)
  obtain a w1 where c: "call_synth env messages now w = (a, w1)" by (rule prod.exhaust)
  have same: "synth_messages (logged_env env) evs releases macro_regime = Inr messages"
    using assms(1) by (simp add: synth_messages_def logged_env_def)
  show ?thesis
  proof (cases a)
    case (Inl e)
    then have "calls = [synth_call messages]" "res = Inl e"
      using assms(3) c by (simp_all add: synthesize_def same Let_def lift_res_def io_bind_def logged_synth_call)
    then show ?thesis by simp
  next
    case (Inr d1)
    let ?loop = "reprompt_loop (logged_env env) ?b now MAX_REPROMPTS messages d1 (w1, [synth_call messages])"
    obtain l where l: "?loop = (l, (w', calls))" "res = map_sum id (\<lambda>d. d\<lparr>dg_bias_balance := ?b\<rparr>) l"
      using assms(3) c Inr
      by (cases ?loop; cases "fst ?loop") (auto simp: synthesize_def same Let_def lift_res_def io_bind_def io_ret_def logged_synth_call)
    show ?thesis
    proof (cases reg)
      case None
      then have "?loop = (Inr d1, (w1, [synth_call messages]))" by (simp add: no_reprompt [OF reg [unfolded None]] io_ret_def)
      then have "calls = [synth_call messages]" "l = Inr d1" "w' = w1" using l(1) by simp_all
      then show ?thesis using l(2) None c Inr by auto
    next
      case (Some r)
      from reprompt_log [OF reg [unfolded Some] l(1)] obtain k where k: "k \<le> 2"
          "calls = [synth_call messages] @ map (\<lambda>i. synth_call (messages @ replicate (Suc i) ?note)) [0..<k]"
          "\<And>d. l = Inr d \<Longrightarrow> k = 2 \<and> (\<exists>w0. call_synth env (messages @ replicate 2 ?note) now w0 = (Inr d, w'))"
        by (auto simp: Some MAX_REPROMPTS_def)
      have log: "calls = map (\<lambda>i. synth_call (messages @ replicate i ?note)) [0..<Suc k]"
        unfolding k(2) by (simp add: upt_conv_Cons map_Suc_upt [symmetric] del: upt_Suc)
      then have len: "length calls = Suc k" by simp
      have fin: "length calls = 3 \<and> (\<exists>w0 final. call_synth env (messages @ replicate (length calls - 1) ?note) now w0 = (Inr final, w')
           \<and> d = final\<lparr>dg_bias_balance := ?b\<rparr>)" if res: "res = Inr d" for d
      proof -
        obtain d0 where d0: "l = Inr d0" "d = d0\<lparr>dg_bias_balance := ?b\<rparr>" using res l(2) by (cases l) auto
        from k(3) [OF d0(1)] show ?thesis using d0(2) len by auto
      qed
      show ?thesis using log len k(1) fin Some unfolding note_eq by auto
    qed
  qed
qed

definition sample_event :: "string \<Rightarrow> string \<Rightarrow> rat \<Rightarrow> intel_event" where
  "sample_event source region valence =
     \<lparr>ie_id = ''e1'', ie_source_id = source, ie_source_region = region, ie_source_lean = ''center'', ie_event_ts = (0, 0),
      ie_title = ''Rates'', ie_body = [], ie_title_en = ''Rates'', ie_body_en = [], ie_lang = ''en'', ie_sentiment = valence,
      ie_target_assets = [''AAPL''], ie_url = None\<rparr>"

theorem dominant_region_iff_witness:
  "dominant_region (compute_balance [sample_event ''wsj'' ''US'' 0, sample_event ''scmp'' ''HK'' 0, sample_event ''ft'' ''US'' 0]
      [(''wsj'', 0.7)]) DOMINANCE_THRESHOLD = Some ''US''"
proof -
  let ?evs = "[sample_event ''wsj'' ''US'' 0, sample_event ''scmp'' ''HK'' 0, sample_event ''ft'' ''US'' 0]"
  have 1: "list_all (\<lambda>ev. 0 < weight_for [(''wsj'', 0.7)] ev) ?evs" by (simp add: weight_for_def sample_event_def)
  show ?thesis unfolding dominant_region_iff [OF 1]
    by (simp add: total_weight_def region_weight_def weight_for_def sample_event_def)
qed

definition sample_digest :: intel_digest where
  "sample_digest = \<lparr>dg_id = ''d1'', dg_issued_at = (0, 0), dg_macro_regime = ''unknown'', dg_events = [], dg_bias_balance = no_balance,
     dg_macro_thesis = ''Macro thesis pending.''\<rparr>"

text \<open>An environment that counts the calls of the model.\<close>

definition counting_env :: "nat synth_env" where
  "counting_env =
     \<lparr>sy_chat = (\<lambda>c n. (Inr ''{}'', n + 1)), sy_prompt = (\<lambda>c vs. Inr (None, ''Rank the events.'')), sy_loads = (\<lambda>s. Inr (JObj [])),
      sy_dumps = (\<lambda>v. ''{}''), sy_validate = (\<lambda>d. Inr sample_digest), sy_ulid = io_ret ''01ARZ3NDEKTSV4RRFFQ69G5FAV'',
      sy_now = io_ret (0, 0), sy_iso = (\<lambda>t. ''1970-01-01T00:00:00+00:00'')\<rparr>"

lemma counting_call: "call_synth counting_env messages now n = (Inr sample_digest, n + 1)"
proof -
  have "parse_synth (\<lambda>s. Inr (JObj [])) ''{}'' = Inr []"
    by (simp add: parse_synth_def json_object_def strip_def is_space_def starts_with_def ends_with_def)
  then show ?thesis by (simp add: call_synth_def counting_env_def io_bind_def lift_res_def io_ret_def)
qed

theorem reprompts_ignore_the_digest_witness:
  "\<exists>calls. synthesize (logged_env counting_env) [sample_event ''wsj'' ''US'' 0] [] ''unknown'' [] (0, 0) (0, [])
      = (Inr (sample_digest\<lparr>dg_bias_balance := compute_balance [sample_event ''wsj'' ''US'' 0] []\<rparr>), (3, calls)) \<and> length calls = 3"
proof -
  have 1: "synth_messages counting_env [sample_event ''wsj'' ''US'' 0] [] ''unknown'' = Inr [(''system'', []), (''user'', ''Rank the events.'')]"
    by (simp add: synth_messages_def counting_env_def str_or_def)
  have 2: "dominant_region (compute_balance [sample_event ''wsj'' ''US'' 0] (weights_from [])) (55 / 100) = Some ''US''"
    by (simp add: compute_balance_def weights_from_def weight_for_def add_at_def dominant_region_def sample_event_def)
  have same: "synth_messages (logged_env counting_env) [sample_event ''wsj'' ''US'' 0] [] ''unknown'' = Inr [(''system'', []), (''user'', ''Rank the events.'')]"
    using 1 by (simp add: synth_messages_def logged_env_def)
  have d: "dominant_region (compute_balance [sample_event ''wsj'' ''US'' 0] []) DOMINANCE_THRESHOLD = Some ''US''"
    using 2 by (simp add: DOMINANCE_THRESHOLD_def weights_from_def)
  have r: "\<exists>calls. synthesize (logged_env counting_env) [sample_event ''wsj'' ''US'' 0] [] ''unknown'' [] (0, 0) (0, [])
      = (Inr (sample_digest\<lparr>dg_bias_balance := compute_balance [sample_event ''wsj'' ''US'' 0] []\<rparr>), (3, calls))"
    by (simp add: synthesize_def same d Let_def weights_from_def lift_res_def io_bind_def io_ret_def logged_synth_call counting_call MAX_REPROMPTS_def
        numeral_2_eq_2)
  then obtain calls where c: "synthesize (logged_env counting_env) [sample_event ''wsj'' ''US'' 0] [] ''unknown'' [] (0, 0) (0, [])
      = (Inr (sample_digest\<lparr>dg_bias_balance := compute_balance [sample_event ''wsj'' ''US'' 0] []\<rparr>), (3, calls))" by blast
  from reprompts_ignore_the_digest [OF 1 2 [symmetric] c] show ?thesis using c by auto
qed

section \<open>The brief\<close>

text \<open>\<open>show_rank\<close> is the decimal text of the rank; the summary goes into the prompt.\<close>

definition digest_summary :: "intel_digest \<Rightarrow> string" where
  "digest_summary d =
     ''Macro regime: '' @ dg_macro_regime d @ [CHR 0x0A] @ ''Macro thesis: '' @ dg_macro_thesis d @ [CHR 0x0A, CHR 0x0A]
     @ join_with [CHR 0x0A] (map (\<lambda>ev. show_nat (de_rank ev) @ ''. **'' @ de_headline ev @ ''** '' @ em_dash @ '' '' @ de_why_it_matters ev)
          (take 15 (dg_events d)))"

fun intel_strip_loop :: "bool \<Rightarrow> utext \<Rightarrow> utext" where
  "intel_strip_loop in_tag [] = []"
| "intel_strip_loop in_tag (ch # s) =
     (if ch = 60 then intel_strip_loop True s
      else if ch = 62 then intel_strip_loop False s
      else if in_tag then intel_strip_loop in_tag s
      else ch # intel_strip_loop in_tag s)"

definition intel_truncate :: "utext \<Rightarrow> nat \<Rightarrow> utext" where
  "intel_truncate s limit =
     (if length s \<le> limit then s
      else if limit \<le> length TRUNCATE_LINK then take limit s
      else take (limit - length TRUNCATE_LINK) s @ TRUNCATE_LINK)"

definition intel_normalize :: "utext \<Rightarrow> language \<Rightarrow> utext" where
  "intel_normalize md l =
     (let s = intel_strip_loop False (ustrip md);
          s2 = (if sublist (disclaimer_of l) s then s else s @ [10, 10] @ disclaimer_of l)
      in intel_truncate s2 WECHAT_LIMIT)"

record intel_brief =
  bf_issued_at :: dtime
  bf_audience :: string
  bf_language :: language
  bf_markdown :: utext
  bf_char_count :: nat
  bf_wechat_safe :: bool

definition brief_call :: "string option \<Rightarrow> string \<Rightarrow> chat_call" where
  "brief_call sys usr =
     \<lparr>cc_caller = ''secretary.brief.morning'', cc_messages = [(''system'', str_or sys []), (''user'', usr)],
      cc_max_tokens = 1200, cc_temperature = 3 / 10\<rparr>"

definition lang_code :: "language \<Rightarrow> string" where
  "lang_code l = (if l = ZH then ''zh'' else ''en'')"

definition compose_intel_brief :: "'w synth_env \<Rightarrow> intel_digest \<Rightarrow> string \<Rightarrow> language \<Rightarrow> (intel_brief, 'w) io" where
  "compose_intel_brief env digest audience l =
     io_bind (lift_res (sy_prompt env ''secretary.brief.morning''
        [(''digest_md'', digest_summary digest),
         (''top_advices_md'', ''(no advices emitted yet '' @ em_dash @ '' pre-fundamental cycle)''),
         (''leaderboard_md'', ''(leaderboard pending; emitted weekly by backtester)''), (''language'', lang_code l)])) (\<lambda>(sys, usr).
     io_bind (sy_chat env (brief_call sys usr)) (\<lambda>answer.
     io_bind (sy_now env) (\<lambda>now.
       let md = intel_normalize (ut answer) l in
       io_ret \<lparr>bf_issued_at = now, bf_audience = audience, bf_language = l, bf_markdown = md, bf_char_count = length md,
               bf_wechat_safe = True\<rparr>)))"

section \<open>The dashboard\<close>

definition balance_json :: "bias_balance \<Rightarrow> json" where
  "balance_json b =
     JObj [(''by_region'', JObj (map (\<lambda>(k, v). (k, JNum v)) (bl_by_region b))),
           (''by_lean'', JObj (map (\<lambda>(k, v). (k, JNum v)) (bl_by_lean b)))]"

definition dashboard_payload :: "intel_digest \<Rightarrow> json" where
  "dashboard_payload d =
     JObj [(''macro_regime'', JStr (dg_macro_regime d)), (''macro_thesis'', JStr (dg_macro_thesis d)),
           (''headline_ticker'', JArr (map (\<lambda>ev. JObj [(''rank'', jnat (de_rank ev)), (''headline'', JStr (de_headline ev)),
                (''regime_change_score'', JNum (de_regime_change_score ev))]) (take 10 (dg_events d)))),
           (''bias_balance'', balance_json (dg_bias_balance d)), (''events_count'', jnat (length (dg_events d)))]"

definition from_digest :: "'w synth_env \<Rightarrow> intel_digest \<Rightarrow> (dtime \<times> json, 'w) io" where
  "from_digest env d = io_bind (sy_now env) (\<lambda>now. io_ret (now, dashboard_payload d))"

section \<open>The context of a ticker\<close>

record intel_context =
  cx_ticker :: string
  cx_asof :: seconds
  cx_window_hours :: int
  cx_event_count :: nat
  cx_sentiment_ema :: rat
  cx_regime_change_score :: rat
  cx_top_themes :: "string list"
  cx_top_sources :: "string list"
  cx_notable_event_ids :: "string list"

definition context_valid :: "intel_context \<Rightarrow> bool" where
  "context_valid c \<longleftrightarrow> 1 \<le> cx_window_hours c \<and> cx_window_hours c \<le> 168 \<and> -1 \<le> cx_sentiment_ema c \<and> cx_sentiment_ema c \<le> 1
     \<and> 0 \<le> cx_regime_change_score c \<and> cx_regime_change_score c \<le> 1"

definition recent_for_ticker :: "intel_event list \<Rightarrow> string \<Rightarrow> seconds \<Rightarrow> intel_event list" where
  "recent_for_ticker evs ticker since =
     filter (\<lambda>e. ticker \<in> set (ie_target_assets e) \<and> since \<le> fst (ie_event_ts e)) evs"

definition EMA_ALPHA :: rat where
  "EMA_ALPHA = 3 / 10"

definition sentiment_ema :: "intel_event list \<Rightarrow> rat" where
  "sentiment_ema evs =
     (case sort_key (\<lambda>e. fst (ie_event_ts e)) evs of
        [] \<Rightarrow> 0
      | e # es \<Rightarrow> max (-1) (min 1 (fold (\<lambda>ev ema. EMA_ALPHA * ie_sentiment ev + (1 - EMA_ALPHA) * ema) es (ie_sentiment e))))"

definition regime_change_score :: "(real \<Rightarrow> rat) \<Rightarrow> intel_event list \<Rightarrow> rat" where
  "regime_change_score flt evs =
     (if length evs < 2 then 0
      else let ss = map ie_sentiment evs; n = of_nat (length ss); m = sum_list ss / n;
               variance = sum_list (map (\<lambda>s. (s - m) ^ 2) ss) / n
           in min 1 (flt (sqrt (of_rat variance))))"

text \<open>A \<open>Counter\<close> and its \<open>most_common(k)\<close>: equal counts in the order of their first occurrence.\<close>

definition count_up :: "string \<Rightarrow> (string, nat) dict \<Rightarrow> (string, nat) dict" where
  "count_up k d = AList.update k ((case map_of d k of None \<Rightarrow> 0 | Some n \<Rightarrow> n) + 1) d"

definition most_common :: "nat \<Rightarrow> (string, nat) dict \<Rightarrow> string list" where
  "most_common k d = map fst (take k (sort_key (\<lambda>p. - int (snd p)) d))"

definition build_context :: "(real \<Rightarrow> rat) \<Rightarrow> string \<Rightarrow> (string \<Rightarrow> seconds \<Rightarrow> intel_event list) \<Rightarrow> seconds \<Rightarrow> int \<Rightarrow> nat
    \<Rightarrow> string + intel_context" where
  "build_context flt ticker query asof window_hours top_k =
     (let evs = query ticker (asof - 3600 * of_int window_hours);
          themes = fold count_up (concat (map (\<lambda>e. filter (\<lambda>t. t \<noteq> ticker) (ie_target_assets e)) evs)) [];
          srcs = fold count_up (map ie_source_id evs) [];
          notable = map ie_id (filter (\<lambda>e. 5 / 10 < \<bar>ie_sentiment e\<bar>) evs);
          c = \<lparr>cx_ticker = ticker, cx_asof = asof, cx_window_hours = window_hours, cx_event_count = length evs,
               cx_sentiment_ema = sentiment_ema evs, cx_regime_change_score = regime_change_score flt evs,
               cx_top_themes = most_common top_k themes, cx_top_sources = most_common top_k srcs,
               cx_notable_event_ids = take top_k notable\<rparr>
      in if context_valid c then Inr c else Inl ''validation error'')"

section \<open>What briefs and contexts are like\<close>

lemma intel_strip_agrees: "intel_strip_loop b s = strip_html_loop b s"
  by (induction b s rule: intel_strip_loop.induct) simp_all

lemma intel_truncate_agrees: "intel_truncate s limit = char_truncate s limit"
  by (simp add: intel_truncate_def char_truncate_def)

lemma intel_normalize_fits: "length (intel_normalize md l) \<le> WECHAT_LIMIT"
  by (simp add: intel_normalize_def Let_def intel_truncate_agrees char_truncate_fits)

text \<open>
  Every brief the intelligence agent composes fits WeChat's 4096 characters, counts them right and holds no angle
  bracket, whatever the model writes.
\<close>

theorem intel_brief_well_typed:
  assumes "compose_intel_brief env digest audience l w = (Inr b, w')"
  shows "length (bf_markdown b) \<le> 4096 \<and> bf_char_count b = length (bf_markdown b)
    \<and> 60 \<notin> set (bf_markdown b) \<and> 62 \<notin> set (bf_markdown b)"
proof -
  obtain answer now where b: "b = \<lparr>bf_issued_at = now, bf_audience = audience, bf_language = l,
      bf_markdown = intel_normalize (ut answer) l, bf_char_count = length (intel_normalize (ut answer) l), bf_wechat_safe = True\<rparr>"
    using assms by (auto simp: compose_intel_brief_def io_bind_def io_ret_def lift_res_def Let_def split: prod.splits sum.splits)
  have "60 \<notin> set (disclaimer_of l) \<and> 62 \<notin> set (disclaimer_of l)"
    by (simp add: disclaimer_of_def DISCLAIMER_EN_def DISCLAIMER_ZH_def ut_def)
  moreover have "60 \<notin> set TRUNCATE_LINK \<and> 62 \<notin> set TRUNCATE_LINK" by (simp add: TRUNCATE_LINK_def ut_def)
  ultimately have "60 \<notin> set (intel_normalize (ut answer) l) \<and> 62 \<notin> set (intel_normalize (ut answer) l)"
    using strip_html_no_brackets [of False "ustrip (ut answer)"]
    by (auto simp: intel_normalize_def Let_def intel_truncate_agrees intel_strip_agrees char_truncate_def dest: in_set_takeD)
  then show ?thesis using intel_normalize_fits [of "ut answer" l] by (simp add: b WECHAT_LIMIT_def)
qed

theorem intel_brief_well_typed_witness:
  "\<exists>b. compose_intel_brief counting_env sample_digest ''principal'' EN 0 = (Inr b, 1) \<and> length (bf_markdown b) \<le> 4096"
proof -
  obtain b where b: "compose_intel_brief counting_env sample_digest ''principal'' EN 0 = (Inr b, 1)"
    by (simp add: compose_intel_brief_def counting_env_def io_bind_def io_ret_def lift_res_def Let_def)
  from intel_brief_well_typed [OF b] b show ?thesis by blast
qed

text \<open>Averaging keeps within the range of what is averaged.\<close>

lemma ema_fold_between:
  assumes "list_all (\<lambda>e. lo \<le> ie_sentiment e \<and> ie_sentiment e \<le> hi) es" and "lo \<le> x" and "x \<le> hi"
  shows "lo \<le> fold (\<lambda>ev ema. EMA_ALPHA * ie_sentiment ev + (1 - EMA_ALPHA) * ema) es x
    \<and> fold (\<lambda>ev ema. EMA_ALPHA * ie_sentiment ev + (1 - EMA_ALPHA) * ema) es x \<le> hi"
  using assms by (induction es arbitrary: x) (auto simp: EMA_ALPHA_def)

lemma sentiment_ema_unit: "-1 \<le> sentiment_ema evs \<and> sentiment_ema evs \<le> 1"
  by (simp add: sentiment_ema_def split: list.split)

lemma sentiment_ema_between:
  assumes "list_all (\<lambda>e. lo \<le> ie_sentiment e \<and> ie_sentiment e \<le> hi) evs" and "evs \<noteq> []" and "-1 \<le> lo" and "hi \<le> 1"
  shows "lo \<le> sentiment_ema evs \<and> sentiment_ema evs \<le> hi"
proof (cases "sort_key (\<lambda>e. fst (ie_event_ts e)) evs")
  case Nil
  then show ?thesis using assms(2) by (metis length_0_conv length_sort)
next
  case (Cons e es)
  have "set (e # es) = set evs" using Cons by (metis set_sort)
  then have all: "list_all (\<lambda>e. lo \<le> ie_sentiment e \<and> ie_sentiment e \<le> hi) (e # es)" using assms(1) by (simp add: list_all_iff)
  then show ?thesis using ema_fold_between [of lo hi es "ie_sentiment e"] assms(3,4) by (simp add: sentiment_ema_def Cons)
qed

lemma regime_change_unit:
  assumes "\<forall>x \<ge> 0. 0 \<le> flt x"
  shows "0 \<le> regime_change_score flt evs \<and> regime_change_score flt evs \<le> 1"
proof -
  have "0 \<le> sum_list (map (\<lambda>s. (s - m) ^ 2) ss) / of_nat n" for m :: rat and ss and n :: nat
    by (intro divide_nonneg_nonneg sum_list_nonneg) auto
  then have "0 \<le> flt (sqrt (of_rat (sum_list (map (\<lambda>s. (s - m) ^ 2) ss) / of_nat n)))" for m ss and n :: nat
    by (intro assms [rule_format]) (simp only: real_sqrt_ge_0_iff zero_le_of_rat_iff)
  then show ?thesis unfolding regime_change_score_def Let_def by (simp del: map_map)
qed

text \<open>
  A ticker's context can be built exactly if the window is from 1 to 168 hours; it then counts the events in the window
  that name the ticker, and its sentiment lies within the range of theirs.
\<close>

theorem context_built_iff:
  assumes "\<forall>x \<ge> 0. 0 \<le> flt x" and "-1 \<le> lo" and "hi \<le> 1"
    and "list_all (\<lambda>e. lo \<le> ie_sentiment e \<and> ie_sentiment e \<le> hi) evs"
    and "e \<in> set evs" and "ticker \<in> set (ie_target_assets e)" and "asof - 3600 * of_int window_hours \<le> fst (ie_event_ts e)"
  shows "(\<exists>c. build_context flt ticker (recent_for_ticker evs) asof window_hours k = Inr c
       \<and> 0 < cx_event_count c \<and> lo \<le> cx_sentiment_ema c \<and> cx_sentiment_ema c \<le> hi)
    \<longleftrightarrow> 1 \<le> window_hours \<and> window_hours \<le> 168"
proof -
  let ?evs = "recent_for_ticker evs ticker (asof - 3600 * of_int window_hours)"
  have ne: "?evs \<noteq> []" using assms(5-7) by (auto simp: recent_for_ticker_def filter_empty_conv)
  have "list_all (\<lambda>e. lo \<le> ie_sentiment e \<and> ie_sentiment e \<le> hi) ?evs"
    using assms(4) by (auto simp: recent_for_ticker_def list_all_iff)
  from sentiment_ema_between [OF this ne assms(2,3)] have ema: "lo \<le> sentiment_ema ?evs \<and> sentiment_ema ?evs \<le> hi" .
  have "0 \<le> regime_change_score flt ?evs" "regime_change_score flt ?evs \<le> 1"
    using regime_change_unit [OF assms(1)] by simp_all
  then show ?thesis using ne ema sentiment_ema_unit [of ?evs]
    by (auto simp: build_context_def Let_def context_valid_def)
qed

theorem context_built_iff_witness:
  "\<exists>c. build_context thousandths ''AAPL'' (recent_for_ticker [sample_event ''wsj'' ''US'' (-3/4)]) 0 24 5 = Inr c \<and> cx_sentiment_ema c \<le> 0"
proof -
  have 1: "\<forall>x \<ge> 0. 0 \<le> thousandths x" by (simp add: thousandths_def)
  have 2: "list_all (\<lambda>e. -1 \<le> ie_sentiment e \<and> ie_sentiment e \<le> 0) [sample_event ''wsj'' ''US'' (-3/4)]" by (simp add: sample_event_def)
  show ?thesis
    using context_built_iff [OF 1 _ _ 2, where e = "sample_event ''wsj'' ''US'' (-3/4)" and ticker = "''AAPL''" and asof = 0
      and window_hours = 24 and k = 5] by (auto simp: sample_event_def)
qed

end
