(* ===== verification/IntelCrawl.thy ===== *)
theory IntelCrawl
  imports IntelSynth
begin

text \<open>
  Where the intelligence agent's events and macro releases come from
  (\<^verbatim>\<open>apps/agent_intelligence/intel/\<close>): the crawlers (\<^verbatim>\<open>crawler/\<close>) with the composite of
  \<^verbatim>\<open>factory.py\<close>, the macro sources (\<^verbatim>\<open>macro/\<close>) and the writer of located events
  (\<^verbatim>\<open>geo_writer.py\<close>). HTTP, feedparser, csv, the archives and the date parsers are parameters.
\<close>

text \<open>A download: its content, an error of httpx or the operating system, another exception.\<close>

datatype 'b fetched = Fetched 'b | NetError | FetchRaises string

text \<open>A generator's outcome: what it yields, and the exception that ends it, if one does.\<close>

type_synonym ('a, 'w) stream = "'w \<Rightarrow> ('a list \<times> string option) \<times> 'w"

section \<open>RSS\<close>

type_synonym rss_entry = "(string, string) dict"

definition opt_or :: "string option \<Rightarrow> string option \<Rightarrow> string option" where
  "opt_or a b = (case a of Some s \<Rightarrow> if s \<noteq> [] then a else b | None \<Rightarrow> b)"

text \<open>\<open>parse_date\<close> is \<open>parsedate_to_datetime\<close>: an instant with its offset, or one without a zone.\<close>

definition entry_timestamp :: "(string \<Rightarrow> (seconds \<times> int option) option) \<Rightarrow> rss_entry \<Rightarrow> dtime \<Rightarrow> dtime" where
  "entry_timestamp parse_date entry dflt =
     (case opt_or (map_of entry ''published'') (map_of entry ''updated'') of
        None \<Rightarrow> dflt
      | Some raw \<Rightarrow>
          (case parse_date raw of
             None \<Rightarrow> dflt
           | Some (t, None) \<Rightarrow> (t, 0)
           | Some (t, Some off) \<Rightarrow> (t, off)))"

definition to_raw :: "(string \<Rightarrow> (seconds \<times> int option) option) \<Rightarrow> rss_entry \<Rightarrow> source_cfg \<Rightarrow> dtime \<Rightarrow> exn + raw_event" where
  "to_raw parse_date entry source ingest_ts =
     (let title = strip (case map_of entry ''title'' of None \<Rightarrow> [] | Some s \<Rightarrow> s) in
      if title = [] then Inl (ValueError ''entry has no title'')
      else Inr \<lparr>re_source_id = sc_id source, re_event_ts = entry_timestamp parse_date entry ingest_ts, re_ingest_ts = ingest_ts,
                re_url = map_of entry ''link'', re_title = title,
                re_body = strip (str_or (opt_or (map_of entry ''summary'') (map_of entry ''description'')) []),
                re_lang = sc_language source, re_raw = []\<rparr>)"

definition parse_feed :: "(string \<Rightarrow> (seconds \<times> int option) option) \<Rightarrow> rss_entry list \<Rightarrow> source_cfg \<Rightarrow> dtime \<Rightarrow> raw_event list" where
  "parse_feed parse_date entries source now =
     List.map_filter (\<lambda>e. case to_raw parse_date e source now of Inl _ \<Rightarrow> None | Inr r \<Rightarrow> Some r) entries"

record ('b, 'w) web =
  wb_fetch :: "json \<Rightarrow> 'w \<Rightarrow> 'b fetched \<times> 'w"
  wb_entries :: "'b \<Rightarrow> rss_entry list"
  wb_date :: "string \<Rightarrow> (seconds \<times> int option) option"
  wb_now :: "'w \<Rightarrow> dtime"
  wb_text :: "'b \<Rightarrow> string"
  wb_unzip :: "'b \<Rightarrow> 'b fetched"
  wb_gunzip :: "'b \<Rightarrow> 'b fetched"
  wb_rows :: "'b \<Rightarrow> string list list"
  wb_gdelt_date :: "string \<Rightarrow> seconds option"
  wb_float :: "string \<Rightarrow> rat option"
  wb_tone_text :: "rat \<Rightarrow> string"

definition rss_fetch :: "('b, 'w) web \<Rightarrow> source_cfg \<Rightarrow> (raw_event, 'w) stream" where
  "rss_fetch web source w =
     (if \<not> truthy (sc_url source) then (([], None), w)
      else case wb_fetch web (sc_url source) w of
             (Fetched blob, w') \<Rightarrow> ((parse_feed (wb_date web) (wb_entries web blob) source (wb_now web w'), None), w')
           | (NetError, w') \<Rightarrow> (([], None), w')
           | (FetchRaises e, w') \<Rightarrow> (([], Some e), w'))"

section \<open>GDELT\<close>

definition LATEST_FILE_URL :: string where
  "LATEST_FILE_URL = ''http://data.gdeltproject.org/gdeltv2/lastupdate.txt''"

definition GDELT_GKG_COLUMNS :: "string list" where
  "GDELT_GKG_COLUMNS =
     [''GKGRECORDID'', ''DATE'', ''SourceCollectionIdentifier'', ''SourceCommonName'', ''DocumentIdentifier'',
      ''Counts'', ''V2Counts'', ''Themes'', ''V2Themes'', ''Locations'', ''V2Locations'', ''Persons'', ''V2Persons'',
      ''Organizations'', ''V2Organizations'', ''V2Tone'', ''Dates'', ''GCAM'', ''SharingImage'', ''RelatedImages'',
      ''SocialImageEmbeds'', ''SocialVideoEmbeds'', ''Quotations'', ''AllNames'', ''Amounts'', ''TranslationInfo'', ''Extras'']"

definition first_location :: "(string \<Rightarrow> rat option) \<Rightarrow> string \<Rightarrow> rat option \<times> rat option \<times> string option" where
  "first_location fl raw =
     (if raw = [] then (None, None, None)
      else let parts = split_on CHR ''|'' (hd (split_on CHR ''#'' raw)) in
        if length parts < 7 then (None, None, None)
        else let lat_s = parts ! 5; lon_s = parts ! 6;
                 name = (if parts ! 1 = [] then None else Some (parts ! 1))
             in if lat_s \<noteq> [] \<and> fl lat_s = None \<or> lon_s \<noteq> [] \<and> fl lon_s = None then (None, None, name)
                else (if lat_s = [] then None else fl lat_s, if lon_s = [] then None else fl lon_s, name))"

definition tone_from_v2 :: "(string \<Rightarrow> rat option) \<Rightarrow> string \<Rightarrow> rat option" where
  "tone_from_v2 fl raw = (if raw = [] then None else fl (hd (split_on CHR '','' raw)))"

fun latest_in_lines :: "string list \<Rightarrow> string option" where
  "latest_in_lines [] = None"
| "latest_in_lines (line # ls) =
     (let parts = words_of line in
      if 3 \<le> length parts \<and> ends_with ''.gkg.csv.zip'' (parts ! 2) then Some (parts ! 2) else latest_in_lines ls)"

text \<open>A row with all its columns; \<open>DATE\<close> that does not parse skips the row.\<close>

definition column :: "string list \<Rightarrow> string \<Rightarrow> string" where
  "column row name = (case map_of (zip GDELT_GKG_COLUMNS row) name of None \<Rightarrow> [] | Some s \<Rightarrow> s)"

definition theme_names :: "string list \<Rightarrow> string list" where
  "theme_names themes = map (\<lambda>t. hd (split_on CHR '','' t)) (filter (\<lambda>t. t \<noteq> []) themes)"

definition gdelt_event :: "('b, 'w) web \<Rightarrow> string list \<Rightarrow> seconds \<Rightarrow> dtime \<Rightarrow> raw_event" where
  "gdelt_event web row event_ts now =
     (let (lat, lon, place) = first_location (wb_float web) (column row ''V2Locations'');
          tone = tone_from_v2 (wb_float web) (column row ''V2Tone'');
          themes = take 5 (split_on CHR '';'' (column row ''V2Themes''));
          doc_url = hd (split_on CHR ''<'' (column row ''DocumentIdentifier''));
          title = take 200 (join_with '';'' (theme_names themes))
      in \<lparr>re_source_id = ''gdelt'', re_event_ts = (event_ts, 0), re_ingest_ts = now,
          re_url = (if doc_url = [] then None else Some doc_url),
          re_title = (if title = [] then ''GDELT event'' else title),
          re_body = ''tone='' @ wb_tone_text web (case tone of None \<Rightarrow> 0 | Some t \<Rightarrow> t) @ ''; place='' @ str_or place ''-''
                    @ ''; themes='' @ take 300 (join_with '','' (theme_names themes)),
          re_lang = ''en'',
          re_raw = [(''gkg_record_id'', JStr (column row ''GKGRECORDID'')), (''lat'', jopt JNum lat), (''lon'', jopt JNum lon),
                    (''tone'', jopt JNum tone), (''themes'', JArr (map JStr themes)),
                    (''raw_locations'', JStr (column row ''V2Locations''))]\<rparr>)"

definition gdelt_rows :: "('b, 'w) web \<Rightarrow> string list list \<Rightarrow> dtime \<Rightarrow> raw_event list" where
  "gdelt_rows web rows now =
     List.map_filter (\<lambda>row. if length row < length GDELT_GKG_COLUMNS then None
       else map_option (\<lambda>ts. gdelt_event web row ts now) (wb_gdelt_date web (take 14 (column row ''DATE'')))) rows"

definition latest_gkg_url :: "('b, 'w) web \<Rightarrow> (string option, 'w) io" where
  "latest_gkg_url web w =
     (case wb_fetch web (JStr LATEST_FILE_URL) w of
        (Fetched blob, w') \<Rightarrow> (Inr (latest_in_lines (splitlines (wb_text web blob))), w')
      | (NetError, w') \<Rightarrow> (Inl ''httpx.HTTPError'', w')
      | (FetchRaises e, w') \<Rightarrow> (Inl e, w'))"

definition gdelt_unpack :: "('b, 'w) web \<Rightarrow> string \<Rightarrow> 'b \<Rightarrow> 'b fetched" where
  "gdelt_unpack web url blob =
     (if ends_with ''.zip'' url then wb_unzip web blob else if ends_with ''.gz'' url then wb_gunzip web blob else Fetched blob)"

definition gdelt_pull :: "('b, 'w) web \<Rightarrow> string \<Rightarrow> (raw_event, 'w) stream" where
  "gdelt_pull web url w =
     (case wb_fetch web (JStr url) w of
        (NetError, w') \<Rightarrow> (([], None), w')
      | (FetchRaises e, w') \<Rightarrow> (([], Some e), w')
      | (Fetched blob, w') \<Rightarrow>
          (case gdelt_unpack web url blob of
             NetError \<Rightarrow> (([], None), w')
           | FetchRaises e \<Rightarrow> (([], Some e), w')
           | Fetched csv \<Rightarrow> ((gdelt_rows web (wb_rows web csv) (wb_now web w'), None), w')))"

text \<open>\<open>source.url or await self._latest_gkg_url()\<close>, for a URL that is text.\<close>

definition gdelt_fetch :: "('b, 'w) web \<Rightarrow> source_cfg \<Rightarrow> (raw_event, 'w) stream" where
  "gdelt_fetch web source w =
     (case sc_url source of
        JStr (c # url) \<Rightarrow> gdelt_pull web (c # url) w
      | v \<Rightarrow>
          if truthy v
          then (case wb_fetch web v w of
                  (NetError, w') \<Rightarrow> (([], None), w')
                | (FetchRaises e, w') \<Rightarrow> (([], Some e), w')
                | (Fetched blob, w') \<Rightarrow> (([], Some ''AttributeError''), w'))
          else (case latest_gkg_url web w of
                  (Inl e, w') \<Rightarrow> (([], Some e), w')
                | (Inr None, w') \<Rightarrow> (([], None), w')
                | (Inr (Some url), w') \<Rightarrow> gdelt_pull web url w'))"

section \<open>The composite crawler, and the replayed one\<close>

definition composite_fetch :: "(source_cfg \<Rightarrow> (raw_event, 'w) stream) \<Rightarrow> (source_cfg \<Rightarrow> (raw_event, 'w) stream)
    \<Rightarrow> source_cfg \<Rightarrow> (raw_event, 'w) stream" where
  "composite_fetch rss gdelt source = (if starts_with ''gdelt'' (sc_id source) then gdelt source else rss source)"

definition memory_fetch :: "(string, raw_event list) dict \<Rightarrow> source_cfg \<Rightarrow> (raw_event, 'w) stream" where
  "memory_fetch evs source w = ((case map_of evs (sc_id source) of None \<Rightarrow> [] | Some es \<Rightarrow> es, None), w)"

section \<open>Macro releases\<close>

definition memory_macro :: "macro_release list \<Rightarrow> seconds \<Rightarrow> macro_release list" where
  "memory_macro releases asof = filter (\<lambda>r. fst (mr_released_at r) \<le> asof) releases"

definition DEFAULT_SERIES :: "string list" where
  "DEFAULT_SERIES =
     [''CPIAUCSL'', ''CORESTICKM159SFRBATL'', ''PAYEMS'', ''UMCSENT'', ''GS10'', ''GS2'', ''M2SL'', ''INDPRO'', ''DTWEXBGS'',
      ''BAMLH0A0HYM2'']"

text \<open>\<open>yaml\<close> is the parsed file, if it exists, and \<open>env\<close> the variable \<open>IIC_MACRO_SERIES\<close>.\<close>

definition load_series :: "pystd \<Rightarrow> json option \<Rightarrow> string option \<Rightarrow> string list" where
  "load_series py yaml env =
     (let from_env = (case env of Some (c # s) \<Rightarrow> filter (\<lambda>t. t \<noteq> []) (map strip (split_on CHR '','' (c # s))) | _ \<Rightarrow> DEFAULT_SERIES) in
      case yaml of
        Some (JObj d) \<Rightarrow> (case dget d ''fred'' of JArr (v # vs) \<Rightarrow> map (to_str py) (v # vs) | _ \<Rightarrow> from_env)
      | _ \<Rightarrow> from_env)"

definition fred_url :: "string \<Rightarrow> string \<Rightarrow> string" where
  "fred_url api_key series_id =
     ''https://api.stlouisfed.org/fred/series/observations'' @ ''?series_id='' @ series_id @ ''&api_key='' @ api_key
     @ ''&file_type=json&sort_order=desc&limit=1''"

text \<open>
  The release of a series in an answer: \<open>Inl\<close> for an exception the loop does not catch, \<open>Inr None\<close> for
  a series left out. \<open>day\<close> is \<open>strptime\<close> on a date, at midnight UTC.
\<close>

definition is_container :: "json \<Rightarrow> bool" where
  "is_container v = (case v of JArr _ \<Rightarrow> True | JObj _ \<Rightarrow> True | _ \<Rightarrow> False)"

definition obs_date :: "(string \<Rightarrow> seconds option) \<Rightarrow> seconds \<Rightarrow> json \<Rightarrow> seconds" where
  "obs_date day asof v = (case v of JStr d \<Rightarrow> (case day d of Some t \<Rightarrow> t | None \<Rightarrow> asof) | _ \<Rightarrow> asof)"

definition fred_release :: "pystd \<Rightarrow> (string \<Rightarrow> seconds option) \<Rightarrow> seconds \<Rightarrow> string \<Rightarrow> json \<Rightarrow> string + macro_release option" where
  "fred_release py day asof series_id blob =
     (case blob of
        JObj b \<Rightarrow>
          (case jor (dget b ''observations'') (JArr [JObj []]) of
             JArr (first # _) \<Rightarrow>
               (if \<not> truthy first then Inr None
                else case first of
                  JObj obs \<Rightarrow>
                    (let raw = dget obs ''value'' in
                     if raw = JNull \<or> raw = JStr [] \<or> raw = JStr ''.'' then Inr None
                     else if is_container raw then Inl ''TypeError''
                     else case float_of py raw of
                            None \<Rightarrow> Inr None
                          | Some v \<Rightarrow> Inr (Some \<lparr>mr_source = ''fred'', mr_series = series_id,
                                               mr_released_at = (obs_date day asof (dget obs ''date''), 0), mr_value = v, mr_note = []\<rparr>))
                | _ \<Rightarrow> Inl ''AttributeError'')
           | _ \<Rightarrow> Inl ''not a list'')
      | _ \<Rightarrow> Inl ''AttributeError'')"

fun fred_loop :: "pystd \<Rightarrow> (string \<Rightarrow> seconds option) \<Rightarrow> (string \<Rightarrow> 'w \<Rightarrow> json fetched \<times> 'w) \<Rightarrow> string \<Rightarrow> seconds
    \<Rightarrow> string list \<Rightarrow> macro_release list \<Rightarrow> (macro_release list, 'w) io" where
  "fred_loop py day fetch_json api_key asof [] out w = (Inr out, w)"
| "fred_loop py day fetch_json api_key asof (s # ss) out w =
     (case fetch_json (fred_url api_key s) w of
        (NetError, w') \<Rightarrow> fred_loop py day fetch_json api_key asof ss out w'
      | (FetchRaises e, w') \<Rightarrow> (Inl e, w')
      | (Fetched blob, w') \<Rightarrow>
          (case fred_release py day asof s blob of
             Inl e \<Rightarrow> (Inl e, w')
           | Inr None \<Rightarrow> fred_loop py day fetch_json api_key asof ss out w'
           | Inr (Some r) \<Rightarrow> fred_loop py day fetch_json api_key asof ss (out @ [r]) w'))"

definition fred_fetch :: "pystd \<Rightarrow> (string \<Rightarrow> seconds option) \<Rightarrow> (string \<Rightarrow> 'w \<Rightarrow> json fetched \<times> 'w) \<Rightarrow> string \<Rightarrow> string list
    \<Rightarrow> seconds \<Rightarrow> (macro_release list, 'w) io" where
  "fred_fetch py day fetch_json api_key series asof =
     (if api_key = [] then io_ret []
      else io_bind (fred_loop py day fetch_json api_key asof series []) (\<lambda>out. io_ret (memory_macro out asof)))"

section \<open>Located events\<close>

record geo_row =
  go_ts :: dtime
  go_lat :: json
  go_lon :: json
  go_theme :: "string option"
  go_tone :: json
  go_src_url :: "string option"
  go_gkg_id :: json

text \<open>The themes of the crawler are strings; the rows of the in-memory sink.\<close>

definition write_geo_event :: "raw_event \<Rightarrow> geo_row list \<Rightarrow> bool \<times> geo_row list" where
  "write_geo_event ev rows =
     (let d = re_raw ev; lat = dget d ''lat''; lon = dget d ''lon'' in
      if lat = JNull \<or> lon = JNull then (False, rows)
      else (True, rows @ [\<lparr>go_ts = re_event_ts ev, go_lat = lat, go_lon = lon,
              go_theme = (case jor (dget d ''themes'') (JArr []) of JArr (JStr t # _) \<Rightarrow> Some (hd (split_on CHR '','' t)) | _ \<Rightarrow> None),
              go_tone = dget d ''tone'', go_src_url = re_url ev, go_gkg_id = dget d ''gkg_record_id''\<rparr>]))"

section \<open>What the sources give\<close>

lemma fred_loop_series:
  "fred_loop py day fetch_json api_key asof ss out w = (Inr rs, w') \<Longrightarrow>
     \<exists>new. rs = out @ new \<and> subseq (map mr_series new) ss"
proof (induction py day fetch_json api_key asof ss out w rule: fred_loop.induct)
  case (2 py day fetch_json api_key asof s ss out w)
  obtain o1 w1 where f: "fetch_json (fred_url api_key s) w = (o1, w1)" by (rule prod.exhaust)
  show ?case
  proof (cases o1)
    case NetError
    then obtain new where "rs = out @ new" "subseq (map mr_series new) ss" using 2 f by auto
    then show ?thesis by (auto intro: list_emb_Cons)
  next
    case (FetchRaises e)
    then show ?thesis using "2.prems" f by simp
  next
    case (Fetched blob)
    show ?thesis
    proof (cases "fred_release py day asof s blob")
      case (Inl e)
      then show ?thesis using "2.prems" f Fetched by simp
    next
      case (Inr r)
      show ?thesis
      proof (cases r)
        case None
        then have "\<exists>new. rs = out @ new \<and> subseq (map mr_series new) ss" using 2 f Fetched Inr by simp
        then show ?thesis by (auto intro: list_emb_Cons)
      next
        case (Some m)
        then have m: "mr_series m = s" using Inr by (auto simp: fred_release_def Let_def split: json.splits list.splits if_splits option.splits)
        have "\<exists>new. rs = (out @ [m]) @ new \<and> subseq (map mr_series new) ss" using 2 f Fetched Inr Some by simp
        then obtain new where "rs = (out @ [m]) @ new" "subseq (map mr_series new) ss" by blast
        then have "rs = out @ (m # new)" "subseq (map mr_series (m # new)) (s # ss)" using m by simp_all
        then show ?thesis by blast
      qed
    qed
  qed
qed simp

text \<open>
  FRED gives at most one release for each configured series, in their order, each dated no later than the time asked
  for; without a key it gives none and asks nobody.
\<close>

theorem fred_releases_dated_in_order:
  assumes "fred_fetch py day fetch_json api_key series asof w = (Inr rs, w')"
  shows "subseq (map mr_series rs) series \<and> list_all (\<lambda>r. fst (mr_released_at r) \<le> asof) rs \<and> (api_key = [] \<longrightarrow> rs = [] \<and> w' = w)"
proof (cases "api_key = []")
  case True
  then show ?thesis using assms by (simp add: fred_fetch_def io_ret_def)
next
  case False
  obtain out w1 where l: "fred_loop py day fetch_json api_key asof series [] w = (Inr out, w1)" and rs: "rs = memory_macro out asof"
    using assms False by (auto simp: fred_fetch_def io_bind_def io_ret_def split: prod.splits sum.splits)
  have "subseq (map mr_series out) series" using fred_loop_series [OF l] by auto
  moreover have "subseq (map mr_series rs) (map mr_series out)"
    unfolding rs memory_macro_def by (rule subseq_map [OF subseq_filter_left])
  ultimately show ?thesis using False by (auto simp: rs memory_macro_def list_all_iff intro: subseq_order.trans)
qed

definition sample_fred :: "string \<Rightarrow> unit \<Rightarrow> json fetched \<times> unit" where
  "sample_fred url w = (Fetched (JObj [(''observations'', JArr [JObj [(''value'', JNum 4), (''date'', JStr ''2024-01-01'')]])]), w)"

theorem fred_releases_dated_in_order_witness:
  "\<exists>rs. fred_fetch py_ascii (\<lambda>d. Some 10) sample_fred ''key'' [''GS10'', ''GS2''] 20 () = (Inr rs, ()) \<and> length rs = 2
     \<and> list_all (\<lambda>r. fst (mr_released_at r) \<le> 20) rs"
proof -
  let ?m = "\<lambda>s. \<lparr>mr_source = ''fred'', mr_series = s, mr_released_at = (10, 0), mr_value = 4, mr_note = []\<rparr>"
  have f: "fred_fetch py_ascii (\<lambda>d. Some 10) sample_fred ''key'' [''GS10'', ''GS2''] 20 () = (Inr [?m ''GS10'', ?m ''GS2''], ())"
    by (simp add: fred_fetch_def io_bind_def io_ret_def sample_fred_def fred_release_def jor_def dget_def is_container_def
        obs_date_def memory_macro_def Let_def)
  from fred_releases_dated_in_order [OF f] show ?thesis using f by simp
qed

text \<open>
  C35: While GDELT cannot be reached, its crawler yields nothing and does not raise exactly if the source names its file: the
  download of the list of files is not guarded.
\<close>

theorem gdelt_outage_raises_iff:
  assumes "\<And>v w. fst (wb_fetch web v w) = NetError"
  shows "fst (gdelt_fetch web source w) = ([], None) \<longleftrightarrow> truthy (sc_url source)"
proof -
  have fetch: "\<exists>w'. wb_fetch web v w = (NetError, w')" for v w using assms by (metis prod.collapse)
  obtain w1 where 1: "wb_fetch web (sc_url source) w = (NetError, w1)" using fetch by blast
  obtain w2 where 2: "wb_fetch web (JStr LATEST_FILE_URL) w = (NetError, w2)" using fetch by blast
  show ?thesis
  proof (cases "truthy (sc_url source)")
    case True
    then show ?thesis using 1
      by (cases "sc_url source" rule: truthy.cases) (auto simp: gdelt_fetch_def gdelt_pull_def neq_Nil_conv)
  next
    case False
    then have "gdelt_fetch web source w = (([], Some ''httpx.HTTPError''), w2)"
      using 2 by (cases "sc_url source" rule: truthy.cases) (auto simp: gdelt_fetch_def latest_gkg_url_def)
    then show ?thesis using False by simp
  qed
qed

definition dead_web :: "(unit, unit) web" where
  "dead_web = \<lparr>wb_fetch = (\<lambda>v w. (NetError, w)), wb_entries = (\<lambda>b. []), wb_date = (\<lambda>s. None), wb_now = (\<lambda>w. (0, 0)),
     wb_text = (\<lambda>b. []), wb_unzip = Fetched, wb_gunzip = Fetched, wb_rows = (\<lambda>b. []), wb_gdelt_date = (\<lambda>s. None),
     wb_float = (\<lambda>s. None), wb_tone_text = (\<lambda>r. [])\<rparr>"

definition gdelt_source :: source_cfg where
  "gdelt_source = \<lparr>sc_id = ''gdelt:gkg'', sc_region = ''GLOBAL'', sc_lean = ''center'', sc_region_weight = 1, sc_language = ''en'',
     sc_url = JNull, sc_channel = JNull, sc_rate_limit = JNull\<rparr>"

theorem gdelt_outage_raises_iff_witness:
  "fst (gdelt_fetch dead_web gdelt_source ()) \<noteq> ([], None)"
proof -
  have 1: "fst (wb_fetch dead_web v w) = NetError" for v w by (simp add: dead_web_def)
  show ?thesis unfolding gdelt_outage_raises_iff [OF 1] by (simp add: gdelt_source_def)
qed

end
