(* ===== verification/IntelService.thy ===== *)
theory IntelService
  imports IntelCrawl
begin

text \<open>
  The intelligence agent as a service (\<^verbatim>\<open>apps/agent_intelligence/intel/\<close>): the event stores
  (\<^verbatim>\<open>persistence.py\<close>) against the table the migrations create, the pipeline (\<^verbatim>\<open>pipeline.py\<close>),
  its factory (\<^verbatim>\<open>factory.py\<close>) and the endpoints (\<^verbatim>\<open>main.py\<close>). The world of the calls is a
  parameter; the in-memory set-up is one instance of it.
\<close>

section \<open>Event stores\<close>

definition event_hash :: "(string \<Rightarrow> string) \<Rightarrow> (dtime \<Rightarrow> string) \<Rightarrow> intel_event \<Rightarrow> string" where
  "event_hash sha isofmt ev =
     sha (join_with ''|'' [ie_source_id ev, str_or (ie_url ev) (ie_title_en ev), ts_text isofmt (ie_event_ts ev)])"

type_synonym event_rows = "(string, intel_event) dict"

definition memory_event_insert :: "intel_event \<Rightarrow> string \<Rightarrow> event_rows \<Rightarrow> bool \<times> event_rows" where
  "memory_event_insert ev hkey rows =
     (if hkey \<in> set (keys rows) then (False, rows) else (True, AList.update hkey ev rows))"

text \<open>
  A table with its columns, those that are required and have no default, and its unique constraints. PostgreSQL rejects an
  insert that names another column, or a conflict target without a unique constraint on it.
\<close>

record sql_table =
  tb_columns :: "string list"
  tb_required :: "string list"
  tb_unique :: "string list list"

definition lake_events :: sql_table where
  "lake_events =
     \<lparr>tb_columns = [''id'', ''source_id'', ''source_lean'', ''source_region'', ''event_ts'', ''ingest_ts'', ''url'', ''title'',
                    ''body'', ''lang'', ''raw'', ''hash''],
      tb_required = [''source_id'', ''event_ts'', ''raw'', ''hash''],
      tb_unique = [[''id'', ''event_ts''], [''hash'', ''event_ts'']]\<rparr>"

definition EVENT_COLUMNS :: "string list" where
  "EVENT_COLUMNS =
     [''id'', ''ts'', ''source_id'', ''source_region'', ''source_lean'', ''title'', ''body'', ''title_en'', ''body_en'', ''lang'',
      ''sentiment'', ''target_assets'', ''url'', ''hash'']"

definition insert_error :: "sql_table \<Rightarrow> string list \<Rightarrow> string list \<Rightarrow> string option" where
  "insert_error tb cols target =
     (case filter (\<lambda>c. c \<notin> set (tb_columns tb)) cols of
        c # _ \<Rightarrow> Some (''column does not exist: '' @ c)
      | [] \<Rightarrow>
          if target \<notin> set (tb_unique tb) then Some ''no unique constraint matching ON CONFLICT''
          else (case filter (\<lambda>c. c \<notin> set cols) (tb_required tb) of
                  c # _ \<Rightarrow> Some (''null value in column '' @ c) | [] \<Rightarrow> None))"

definition pg_event_insert :: "sql_table \<Rightarrow> intel_event \<Rightarrow> string \<Rightarrow> event_rows \<Rightarrow> (string + bool) \<times> event_rows" where
  "pg_event_insert tb ev hkey rows =
     (case insert_error tb EVENT_COLUMNS [''hash''] of
        Some e \<Rightarrow> (Inl e, rows)
      | None \<Rightarrow>
          if hkey \<in> set (keys rows) then (Inr False, rows) else (Inr True, rows @ [(hkey, ev)]))"

section \<open>The pipeline\<close>

record 'w intel_pipeline =
  pp_sources :: "source_cfg list"
  pp_fetch :: "source_cfg \<Rightarrow> (raw_event, 'w) stream"
  pp_claim :: "string \<Rightarrow> seconds \<Rightarrow> (bool, 'w) io"
  pp_search :: "vec \<Rightarrow> nat \<Rightarrow> seconds \<Rightarrow> (hit list, 'w) io"
  pp_add :: "string \<Rightarrow> vec \<Rightarrow> seconds \<Rightarrow> (unit, 'w) io"
  pp_embed :: "string \<Rightarrow> (vec, 'w) io"
  pp_macro :: "dtime \<Rightarrow> (macro_release list, 'w) io"
  pp_insert :: "intel_event \<Rightarrow> string \<Rightarrow> (bool, 'w) io"
  pp_env :: "'w synth_env"
  pp_sha :: "string \<Rightarrow> string"
  pp_float :: "string \<Rightarrow> pyfloat option"

record pipeline_result =
  pr_digest :: intel_digest
  pr_brief :: intel_brief
  pr_dashboard :: "dtime \<times> json"
  pr_accepted :: "intel_event list"
  pr_dropped_hash :: nat
  pr_dropped_semantic :: nat

definition to_event :: "'w intel_pipeline \<Rightarrow> raw_event \<Rightarrow> source_cfg \<Rightarrow> (intel_event, 'w) io" where
  "to_event p raw source =
     io_bind (translate (sy_chat (pp_env p)) raw) (\<lambda>(title_en, body_en).
     io_bind (classify (pp_float p) (sy_chat (pp_env p)) title_en body_en) (\<lambda>sent.
     io_bind (sy_ulid (pp_env p)) (\<lambda>new_id.
       io_ret \<lparr>ie_id = new_id, ie_source_id = re_source_id raw, ie_source_region = sc_region source,
               ie_source_lean = sc_lean source, ie_event_ts = re_event_ts raw, ie_title = re_title raw, ie_body = re_body raw,
               ie_title_en = title_en, ie_body_en = body_en, ie_lang = re_lang raw, ie_sentiment = sr_valence sent,
               ie_target_assets = sr_target_assets sent, ie_url = re_url raw\<rparr>)))"

type_synonym intake = "intel_event list \<times> nat \<times> nat"

fun take_event :: "'w intel_pipeline \<Rightarrow> source_cfg \<Rightarrow> raw_event \<Rightarrow> intake \<Rightarrow> (intake, 'w) io" where
  "take_event p source raw (acc, dropped_hash, dropped_semantic) =
     io_bind (pp_claim p (hash_key (pp_sha p) (sy_iso (pp_env p)) raw) DEDUPE_TTL_SECONDS) (\<lambda>fresh.
       if \<not> fresh then io_ret (acc, dropped_hash + 1, dropped_semantic)
       else io_bind (semantic_accept (pp_search p) (pp_add p) (pp_embed p) (sy_iso (pp_env p)) raw) (\<lambda>(ok, dup).
         if \<not> ok then io_ret (acc, dropped_hash, dropped_semantic + 1)
         else io_bind (to_event p raw source) (\<lambda>ev.
              io_bind (pp_insert p ev (event_hash (pp_sha p) (sy_iso (pp_env p)) ev)) (\<lambda>inserted.
                io_ret (if inserted then acc @ [ev] else acc, dropped_hash, dropped_semantic)))))"

fun take_events :: "'w intel_pipeline \<Rightarrow> source_cfg \<Rightarrow> raw_event list \<Rightarrow> intake \<Rightarrow> (intake, 'w) io" where
  "take_events p source [] st = io_ret st"
| "take_events p source (raw # raws) st = io_bind (take_event p source raw st) (\<lambda>st'. take_events p source raws st')"

fun take_sources :: "'w intel_pipeline \<Rightarrow> source_cfg list \<Rightarrow> intake \<Rightarrow> (intake, 'w) io" where
  "take_sources p [] st w = (Inr st, w)"
| "take_sources p (source # sources) st w =
     (case pp_fetch p source w of
        ((raws, ending), w1) \<Rightarrow>
          io_bind (take_events p source raws st)
            (\<lambda>st'. case ending of Some e \<Rightarrow> lift_res (Inl e) | None \<Rightarrow> take_sources p sources st') w1)"

definition run_pipeline :: "'w intel_pipeline \<Rightarrow> string \<Rightarrow> dtime option \<Rightarrow> (pipeline_result, 'w) io" where
  "run_pipeline p macro_regime asof =
     io_bind (case asof of Some t \<Rightarrow> io_ret t | None \<Rightarrow> sy_now (pp_env p)) (\<lambda>now.
     io_bind (take_sources p (pp_sources p) ([], 0, 0)) (\<lambda>(accepted, dropped_hash, dropped_semantic).
     io_bind (pp_macro p now) (\<lambda>releases.
     io_bind (synthesize (pp_env p) accepted releases macro_regime (pp_sources p) now) (\<lambda>digest.
     io_bind (compose_intel_brief (pp_env p) digest ''principal'' EN) (\<lambda>brief.
     io_bind (from_digest (pp_env p) digest) (\<lambda>dash.
       io_ret \<lparr>pr_digest = digest, pr_brief = brief, pr_dashboard = dash, pr_accepted = accepted,
               pr_dropped_hash = dropped_hash, pr_dropped_semantic = dropped_semantic\<rparr>))))))"

section \<open>The factory\<close>

text \<open>The in-memory collaborators; \<open>mw_rest\<close> is the world outside them (the model, the clock).\<close>

record 'x mem_world =
  mw_seen :: seen_set
  mw_docs :: semantic_docs
  mw_rows :: event_rows
  mw_rest :: 'x

definition memory_pipeline :: "(real \<Rightarrow> rat) \<Rightarrow> source_cfg list \<Rightarrow> (string, raw_event list) dict \<Rightarrow> 'x mem_world synth_env
    \<Rightarrow> (string \<Rightarrow> string) \<Rightarrow> (string \<Rightarrow> pyfloat option) \<Rightarrow> 'x mem_world intel_pipeline" where
  "memory_pipeline flt sources test_events env sha fl =
     \<lparr>pp_sources = sources, pp_fetch = memory_fetch test_events,
      pp_claim = (\<lambda>k ttl w. let (ok, seen) = memory_claim 0 k ttl (mw_seen w) in (Inr ok, w\<lparr>mw_seen := seen\<rparr>)),
      pp_search = (\<lambda>v k since w. (Inr (memory_search flt v k since (mw_docs w)), w)),
      pp_add = (\<lambda>doc_id v ts w. (Inr (), w\<lparr>mw_docs := memory_insert doc_id v ts (mw_docs w)\<rparr>)),
      pp_embed = (\<lambda>s. io_ret (hash_embed flt EMBED_DIM s)),
      pp_macro = (\<lambda>now. io_ret (memory_macro [] (fst now))),
      pp_insert = (\<lambda>ev k w. let (ok, rows) = memory_event_insert ev k (mw_rows w) in (Inr ok, w\<lparr>mw_rows := rows\<rparr>)),
      pp_env = env, pp_sha = sha, pp_float = fl\<rparr>"

text \<open>What a configuration sets; a collaborator it leaves out is that of \<open>dflt\<close>.\<close>

record 'w intel_config =
  ic_sources :: "source_cfg list"
  ic_crawler :: "(source_cfg \<Rightarrow> (raw_event, 'w) stream) option"
  ic_hash_store :: "(string \<Rightarrow> seconds \<Rightarrow> (bool, 'w) io) option"
  ic_index :: "((vec \<Rightarrow> nat \<Rightarrow> seconds \<Rightarrow> (hit list, 'w) io) \<times> (string \<Rightarrow> vec \<Rightarrow> seconds \<Rightarrow> (unit, 'w) io)) option"
  ic_macro :: "(dtime \<Rightarrow> (macro_release list, 'w) io) option"
  ic_event_store :: "(intel_event \<Rightarrow> string \<Rightarrow> (bool, 'w) io) option"

definition build_pipeline :: "'w intel_pipeline \<Rightarrow> 'w intel_config \<Rightarrow> 'w intel_pipeline" where
  "build_pipeline dflt cfg =
     dflt\<lparr>pp_sources := ic_sources cfg,
          pp_fetch := (case ic_crawler cfg of None \<Rightarrow> pp_fetch dflt | Some f \<Rightarrow> f),
          pp_claim := (case ic_hash_store cfg of None \<Rightarrow> pp_claim dflt | Some f \<Rightarrow> f),
          pp_search := (case ic_index cfg of None \<Rightarrow> pp_search dflt | Some (f, g) \<Rightarrow> f),
          pp_add := (case ic_index cfg of None \<Rightarrow> pp_add dflt | Some (f, g) \<Rightarrow> g),
          pp_macro := (case ic_macro cfg of None \<Rightarrow> pp_macro dflt | Some f \<Rightarrow> f),
          pp_insert := (case ic_event_store cfg of None \<Rightarrow> pp_insert dflt | Some f \<Rightarrow> f)\<rparr>"

type_synonym env_vars = "string \<Rightarrow> string option"

definition env_or :: "env_vars \<Rightarrow> string \<Rightarrow> string \<Rightarrow> string" where
  "env_or env k dflt = (case env k of None \<Rightarrow> dflt | Some v \<Rightarrow> v)"

datatype crawler_kind = RssCrawler | GdeltCrawler | CompositeCrawler

definition crawler_from_env :: "env_vars \<Rightarrow> crawler_kind option" where
  "crawler_from_env env =
     (let backend = lower (env_or env ''INTEL_CRAWLER_BACKEND'' []) in
      if backend = ''rss'' \<or> backend = ''live'' then Some RssCrawler
      else if backend = ''gdelt'' then Some GdeltCrawler
      else if backend = ''rss+gdelt'' then Some CompositeCrawler
      else None)"

definition redis_from_env :: "env_vars \<Rightarrow> bool" where
  "redis_from_env env \<longleftrightarrow> lower (env_or env ''INTEL_HASH_STORE_BACKEND'' []) = ''redis''"

definition pgvector_from_env :: "env_vars \<Rightarrow> bool" where
  "pgvector_from_env env \<longleftrightarrow> lower (env_or env ''INTEL_SEMANTIC_INDEX_BACKEND'' []) = ''pgvector''"

definition fred_from_env :: "env_vars \<Rightarrow> bool" where
  "fred_from_env env \<longleftrightarrow> lower (env_or env ''INTEL_MACRO_BACKEND'' []) = ''fred''"

definition postgres_from_env :: "env_vars \<Rightarrow> bool" where
  "postgres_from_env env \<longleftrightarrow> lower (env_or env ''INTEL_EVENT_STORE_BACKEND'' []) = ''postgres''"

text \<open>The path of the manifest: the variable, or, when the service starts by itself, the first default that exists.\<close>

definition sources_path :: "(string \<Rightarrow> bool) \<Rightarrow> env_vars \<Rightarrow> string" where
  "sources_path exists env =
     (let given = env_or env ''INTEL_SOURCES_PATH'' [] in
      if given = [] \<and> env_or env ''INTEL_AUTOSTART'' ''0'' = ''1''
      then (case List.find exists [''/app/sources.yaml'', ''apps/agent_intelligence/sources.yaml''] of None \<Rightarrow> [] | Some c \<Rightarrow> c)
      else given)"

text \<open>The backends the environment picks, each with its model; \<open>load\<close> reads and parses a manifest.\<close>

record 'w backends =
  bk_crawler :: "crawler_kind \<Rightarrow> source_cfg \<Rightarrow> (raw_event, 'w) stream"
  bk_redis :: "string \<Rightarrow> seconds \<Rightarrow> (bool, 'w) io"
  bk_pgvector :: "(vec \<Rightarrow> nat \<Rightarrow> seconds \<Rightarrow> (hit list, 'w) io) \<times> (string \<Rightarrow> vec \<Rightarrow> seconds \<Rightarrow> (unit, 'w) io)"
  bk_fred :: "dtime \<Rightarrow> (macro_release list, 'w) io"
  bk_postgres :: "intel_event \<Rightarrow> string \<Rightarrow> (bool, 'w) io"

definition config_from_env :: "(string \<Rightarrow> bool) \<Rightarrow> (string \<Rightarrow> exn + source_cfg list) \<Rightarrow> 'w backends \<Rightarrow> env_vars
    \<Rightarrow> exn + 'w intel_config" where
  "config_from_env exists load bk env =
     (let path = sources_path exists env in
      res_bind (if path \<noteq> [] \<and> exists path then load path else Inr []) (\<lambda>srcs.
        Inr \<lparr>ic_sources = srcs, ic_crawler = map_option (bk_crawler bk) (crawler_from_env env),
             ic_hash_store = (if redis_from_env env then Some (bk_redis bk) else None),
             ic_index = (if pgvector_from_env env then Some (bk_pgvector bk) else None),
             ic_macro = (if fred_from_env env then Some (bk_fred bk) else None),
             ic_event_store = (if postgres_from_env env then Some (bk_postgres bk) else None)\<rparr>))"

text \<open>The default embedding; \<open>router_embed\<close> gives the vectors of the router's answer.\<close>

definition default_embed :: "(real \<Rightarrow> rat) \<Rightarrow> env_vars \<Rightarrow> (string \<Rightarrow> string \<Rightarrow> (vec list, 'w) io) \<Rightarrow> string \<Rightarrow> (vec, 'w) io" where
  "default_embed flt env router_embed s =
     (if lower (env_or env ''INTEL_EMBED_BACKEND'' []) = ''llm''
      then io_bind (router_embed ''intel.dedupe.embed'' s) (\<lambda>vectors.
             case vectors of [] \<Rightarrow> lift_res (Inl ''intel.dedupe.embed returned no vectors'') | v # _ \<Rightarrow> io_ret v)
      else io_ret (hash_embed flt EMBED_DIM s))"

section \<open>The service\<close>

datatype reply = Reply json | HttpError nat string | Raised string

record 'w intel_state =
  is_last_synth_at :: "string option"
  is_last_brief_at :: "string option"
  is_feeds_active :: nat
  is_pipeline :: "'w intel_pipeline option"
  is_built_at :: "string option"

definition initial_state :: "'w intel_state" where
  "initial_state = \<lparr>is_last_synth_at = None, is_last_brief_at = None, is_feeds_active = 0, is_pipeline = None, is_built_at = None\<rparr>"

definition set_pipeline :: "'w intel_pipeline \<Rightarrow> 'w intel_state \<Rightarrow> 'w intel_state" where
  "set_pipeline p st = st\<lparr>is_pipeline := Some p\<rparr>"

text \<open>What \<open>_startup_pipeline\<close> catches while it counts the feeds.\<close>

definition load_failure :: "exn \<Rightarrow> bool" where
  "load_failure e = (case e of ValueError _ \<Rightarrow> True | OtherExn n \<Rightarrow> n = ''OSError'' | _ \<Rightarrow> False)"

definition count_feeds :: "(string \<Rightarrow> bool) \<Rightarrow> (string \<Rightarrow> exn + source_cfg list) \<Rightarrow> env_vars \<Rightarrow> 'w intel_state \<Rightarrow> exn + 'w intel_state" where
  "count_feeds exists load env st =
     (let path = env_or env ''INTEL_SOURCES_PATH'' [] in
      if path \<noteq> [] \<and> exists path
      then (case load path of
              Inr srcs \<Rightarrow> Inr (st\<lparr>is_feeds_active := length srcs\<rparr>)
            | Inl e \<Rightarrow> if load_failure e then Inr st else Inl e)
      else Inr st)"

definition startup :: "(string \<Rightarrow> bool) \<Rightarrow> (string \<Rightarrow> exn + source_cfg list) \<Rightarrow> 'w backends \<Rightarrow> 'w intel_pipeline \<Rightarrow> string
    \<Rightarrow> env_vars \<Rightarrow> 'w intel_state \<Rightarrow> exn + 'w intel_state" where
  "startup exists load bk dflt built_at env st =
     res_bind (count_feeds exists load env st) (\<lambda>st1.
       if env ''INTEL_AUTOSTART'' \<noteq> Some ''1'' then Inr st1
       else res_bind (config_from_env exists load bk env) (\<lambda>cfg.
         Inr (st1\<lparr>is_pipeline := Some (build_pipeline dflt cfg), is_built_at := Some built_at,
                  is_feeds_active := max (is_feeds_active st1) (length (ic_sources cfg))\<rparr>)))"

definition health :: "'w intel_state \<Rightarrow> json" where
  "health st =
     JObj [(''status'', JStr ''ok''), (''service'', JStr ''agent_intelligence''), (''feeds_active'', jnat (is_feeds_active st)),
           (''last_synth_at'', jopt JStr (is_last_synth_at st)), (''last_brief_at'', jopt JStr (is_last_brief_at st)),
           (''pipeline_bound'', JBool (is_pipeline st \<noteq> None))]"

definition drop_counts :: "pipeline_result \<Rightarrow> (string \<times> json) list" where
  "drop_counts r = [(''dropped_hash'', jnat (pr_dropped_hash r)), (''dropped_semantic'', jnat (pr_dropped_semantic r))]"

definition health_deep :: "'w intel_state \<Rightarrow> 'w \<Rightarrow> reply \<times> 'w" where
  "health_deep st w =
     (case is_pipeline st of
        None \<Rightarrow> (HttpError 503 ''pipeline not bound'', w)
      | Some p \<Rightarrow>
          (case run_pipeline p ''unknown'' None w of
             (Inl e, w') \<Rightarrow> (HttpError 503 (''pipeline run failed: '' @ e), w')
           | (Inr r, w') \<Rightarrow>
               (Reply (JObj ([(''status'', JStr ''ok''), (''service'', JStr ''agent_intelligence''),
                              (''events_accepted'', jnat (length (pr_accepted r)))] @ drop_counts r)), w')))"

text \<open>\<open>show_ts\<close> is \<open>str\<close> of a time.\<close>

definition run_synthesize :: "(dtime \<Rightarrow> string) \<Rightarrow> 'w intel_state \<Rightarrow> 'w \<Rightarrow> (reply \<times> 'w intel_state) \<times> 'w" where
  "run_synthesize show_ts st w =
     (case is_pipeline st of
        None \<Rightarrow> ((HttpError 503 ''pipeline not configured'', st), w)
      | Some p \<Rightarrow>
          (case run_pipeline p ''unknown'' None w of
             (Inl e, w') \<Rightarrow> ((Raised e, st), w')
           | (Inr r, w') \<Rightarrow>
               ((Reply (JObj ([(''status'', JStr ''ok''), (''events'', jnat (length (pr_accepted r)))] @ drop_counts r)),
                 st\<lparr>is_last_synth_at := Some (show_ts (dg_issued_at (pr_digest r))),
                    is_last_brief_at := Some (show_ts (bf_issued_at (pr_brief r)))\<rparr>), w')))"

definition pull_reply :: "json \<Rightarrow> pipeline_result \<Rightarrow> (string \<times> json) list" where
  "pull_reply source r =
     [(''status'', JStr ''ok''), (''source'', source), (''accepted_event_ids'', JArr (map (JStr \<circ> ie_id) (pr_accepted r))),
      (''events'', jnat (length (pr_accepted r)))] @ drop_counts r"

definition run_pull :: "(string, json) dict \<Rightarrow> 'w intel_state \<Rightarrow> 'w \<Rightarrow> reply \<times> 'w" where
  "run_pull payload st w =
     (case is_pipeline st of
        None \<Rightarrow> (HttpError 503 ''pipeline not configured'', w)
      | Some p \<Rightarrow>
          (let source = jor (dget payload ''source'') (JStr ''rss'') in
           case run_pipeline p ''unknown'' None w of
             (Inl e, w') \<Rightarrow> (Raised e, w')
           | (Inr r, w') \<Rightarrow>
               if source \<noteq> JStr ''macro'' then (Reply (JObj (pull_reply source r)), w')
               else (case io_bind (sy_now (pp_env p)) (pp_macro p) w' of
                       (res, w'') \<Rightarrow>
                         (let releases = (case res of Inl _ \<Rightarrow> [] | Inr rs \<Rightarrow> rs) in
                          (Reply (JObj (pull_reply source r @ [(''series'', JArr (map (JStr \<circ> mr_series) releases))])), w'')))))"

definition parse_window :: "string \<Rightarrow> int" where
  "parse_window window =
     (if window = [] then 24 * 3600
      else let unit = lower_char (last window) in
        case py_int (butlast window) of
          None \<Rightarrow> 24 * 3600
        | Some n \<Rightarrow>
            if unit = CHR ''h'' then n * 3600
            else if unit = CHR ''m'' then n * 60
            else if unit = CHR ''d'' then n * 86400
            else 24 * 3600)"

definition theme_filters :: "string option \<Rightarrow> string list" where
  "theme_filters themes = filter (\<lambda>t. t \<noteq> []) (map strip (split_on CHR '','' (str_or themes [])))"

text \<open>The query on \<open>lake.geo_events\<close> and its parameters.\<close>

definition geo_sql :: "string list \<Rightarrow> string" where
  "geo_sql filters =
     ''SELECT event_id::text AS event_id, ts, lat, lon, theme, tone, '' @ ''src_url, place ''
     @ ''FROM lake.geo_events '' @ ''WHERE ts >= :since ''
     @ (if filters = [] then []
        else ''AND ('' @ join_with '' OR '' (map (\<lambda>i. ''theme LIKE :t'' @ show_nat i @ '' || '' @ [CHR 0x27] @ ''%'' @ [CHR 0x27])
               [0..<length filters]) @ '') '')
     @ ''ORDER BY ts DESC LIMIT 10000''"

definition geo_params :: "string list \<Rightarrow> (string, string) dict" where
  "geo_params filters = map (\<lambda>(i, t). (''t'' @ show_nat i, t)) (List.enumerate 0 filters)"

text \<open>\<open>rows\<close> are the events the store shows: those of the in-memory store, none of the Postgres one.\<close>

definition context_json :: "intel_context \<Rightarrow> json" where
  "context_json c =
     JObj [(''schema'', JStr ''intel.context.v1''), (''ticker'', JStr (cx_ticker c)), (''asof'', JNum (cx_asof c)),
           (''window_hours'', JNum (of_int (cx_window_hours c))), (''event_count'', jnat (cx_event_count c)),
           (''sentiment_ema'', JNum (cx_sentiment_ema c)), (''regime_change_score'', JNum (cx_regime_change_score c)),
           (''top_themes'', JArr (map JStr (cx_top_themes c))), (''top_sources'', JArr (map JStr (cx_top_sources c))),
           (''notable_event_ids'', JArr (map JStr (cx_notable_event_ids c)))]"

definition run_context :: "(real \<Rightarrow> rat) \<Rightarrow> seconds \<Rightarrow> event_rows \<Rightarrow> (string, json) dict \<Rightarrow> 'w intel_state \<Rightarrow> reply" where
  "run_context flt now rows payload st =
     (let ticker = dget payload ''ticker'' in
      if \<not> truthy ticker then HttpError 400 (''missing '' @ [CHR 0x27] @ ''ticker'' @ [CHR 0x27])
      else case int_of_json (jget_or (JObj payload) ''window_hours'' (JNum 24)) of
             Inl e \<Rightarrow> Raised ''window_hours''
           | Inr window_hours \<Rightarrow>
               if is_pipeline st = None then HttpError 503 ''pipeline not configured''
               else (case ticker of
                       JStr t \<Rightarrow>
                         (case build_context flt t (recent_for_ticker (vals rows)) now window_hours 5 of
                            Inl e \<Rightarrow> Raised e | Inr c \<Rightarrow> Reply (context_json c))
                     | _ \<Rightarrow> Raised ''validation error''))"

section \<open>What the pipeline does with events\<close>

lemma io_bind_Inr_iff: "io_bind m f w = (Inr y, w') \<longleftrightarrow> (\<exists>x w1. m w = (Inr x, w1) \<and> f x w1 = (Inr y, w'))"
  by (auto simp: io_bind_def split: prod.splits sum.splits)

text \<open>The Postgres store of the pipeline: \<open>get\<close> and \<open>put\<close> are the table in the world.\<close>

definition postgres_insert :: "('w \<Rightarrow> event_rows) \<Rightarrow> (event_rows \<Rightarrow> 'w \<Rightarrow> 'w) \<Rightarrow> intel_event \<Rightarrow> string \<Rightarrow> (bool, 'w) io" where
  "postgres_insert get put ev hkey w = (case pg_event_insert lake_events ev hkey (get w) of (r, rows) \<Rightarrow> (r, put rows w))"

lemma postgres_never_inserts: "\<exists>e. fst (postgres_insert get put ev hkey w) = Inl e"
  by (simp add: postgres_insert_def pg_event_insert_def insert_error_def EVENT_COLUMNS_def lake_events_def)

lemma take_event_keeps:
  assumes "\<And>ev k w. \<exists>e. fst (pp_insert p ev k w) = Inl e"
    and "take_event p source raw (acc, dh, ds) w = (Inr (acc', dh', ds'), w')"
  shows "acc' = acc \<and> dh' + ds' = Suc (dh + ds)"
proof -
  have no: "pp_insert p ev k w1 = (Inr b, w2) \<Longrightarrow> False" for ev k w1 b w2 using assms(1) [of ev k w1] by simp
  from assms(2) show ?thesis
    by (auto simp: io_bind_Inr_iff io_ret_def split: if_splits dest: no)
qed

lemma take_events_keep:
  assumes "\<And>ev k w. \<exists>e. fst (pp_insert p ev k w) = Inl e"
  shows "take_events p source raws (acc, dh, ds) w = (Inr (acc', dh', ds'), w') \<Longrightarrow> acc' = acc"
proof (induction raws arbitrary: dh ds w)
  case (Cons raw raws)
  then obtain acc1 dh1 ds1 w1 where s: "take_event p source raw (acc, dh, ds) w = (Inr (acc1, dh1, ds1), w1)"
      "take_events p source raws (acc1, dh1, ds1) w1 = (Inr (acc', dh', ds'), w')"
    by (auto simp: io_bind_Inr_iff simp del: take_event.simps)
  have "acc1 = acc" using take_event_keeps [OF assms s(1)] by simp
  then show ?case using Cons.IH s(2) by simp
qed (simp add: io_ret_def)

lemma take_sources_keep:
  assumes "\<And>ev k w. \<exists>e. fst (pp_insert p ev k w) = Inl e"
  shows "take_sources p sources (acc, dh, ds) w = (Inr (acc', dh', ds'), w') \<Longrightarrow> acc' = acc"
proof (induction sources arbitrary: dh ds w)
  case (Cons source sources)
  obtain raws ending w0 where f: "pp_fetch p source w = ((raws, ending), w0)" by (metis prod.exhaust)
  then obtain acc1 dh1 ds1 w1 where s: "take_events p source raws (acc, dh, ds) w0 = (Inr (acc1, dh1, ds1), w1)"
      and n: "(case ending of Some e \<Rightarrow> lift_res (Inl e) | None \<Rightarrow> take_sources p sources (acc1, dh1, ds1)) w1 = (Inr (acc', dh', ds'), w')"
    using Cons.prems by (auto simp: io_bind_Inr_iff)
  have "acc1 = acc" using take_events_keep [OF assms s] .
  then show ?case using Cons.IH n by (cases ending) (simp_all add: lift_res_def)
qed simp

text \<open>
  C4: With the Postgres store, on the table the migrations create, a run of the pipeline that ends at all accepts no event:
  the statement names columns the table does not have, so every insert raises.
\<close>

theorem production_accepts_nothing:
  assumes "pp_insert p = postgres_insert get put" and "run_pipeline p macro_regime asof w = (Inr r, w')"
  shows "pr_accepted r = []"
proof -
  have no: "\<exists>e. fst (pp_insert p ev k w) = Inl e" for ev k w unfolding assms(1) by (rule postgres_never_inserts)
  from assms(2) obtain acc dh ds w1 w2 where s: "take_sources p (pp_sources p) ([], 0, 0) w1 = (Inr (acc, dh, ds), w2)"
      and "pr_accepted r = acc"
    by (auto simp: run_pipeline_def io_bind_Inr_iff io_ret_def)
  then show ?thesis using take_sources_keep [OF no s] by simp
qed

definition seen_pipeline :: "nat intel_pipeline" where
  "seen_pipeline =
     \<lparr>pp_sources = [gdelt_source], pp_fetch = memory_fetch [(''gdelt:gkg'', [sample_raw ''Fed to act'' 0])],
      pp_claim = (\<lambda>k ttl. io_ret False), pp_search = (\<lambda>v k since. io_ret []), pp_add = (\<lambda>d v t. io_ret ()),
      pp_embed = (\<lambda>s. io_ret []), pp_macro = (\<lambda>t. io_ret []), pp_insert = postgres_insert (\<lambda>w. []) (\<lambda>rows w. w),
      pp_env = counting_env, pp_sha = id, pp_float = (\<lambda>s. None)\<rparr>"

lemma seen_pipeline_runs: "\<exists>r. run_pipeline seen_pipeline ''unknown'' None 0 = (Inr r, 2) \<and> pr_dropped_hash r = 1"
proof -
  have t: "take_sources seen_pipeline (pp_sources seen_pipeline) ([], 0, 0) w = (Inr ([], 1, 0), w)" for w
    by (simp add: seen_pipeline_def memory_fetch_def gdelt_source_def io_bind_def io_ret_def)
  have m: "sy_prompt counting_env c vs = Inr (None, ''Rank the events.'')" "sy_now counting_env = io_ret (0, 0)" for c vs
    by (simp_all add: counting_env_def)
  have s: "synthesize counting_env [] [] ''unknown'' sources (0, 0) n = (Inr (sample_digest\<lparr>dg_bias_balance := no_balance\<rparr>), n + 1)" for sources n
    by (simp add: synthesize_def synth_messages_def compute_balance_def dominant_region_def no_balance_def Let_def m lift_res_def
        io_bind_def io_ret_def counting_call MAX_REPROMPTS_def numeral_2_eq_2)
  have c: "\<exists>b. compose_intel_brief counting_env d a l n = (Inr b, n + 1)" for d a l n
    by (simp add: compose_intel_brief_def counting_env_def io_bind_def io_ret_def lift_res_def Let_def)
  have d: "\<exists>x. from_digest counting_env dg n = (Inr x, n)" for dg n by (simp add: from_digest_def m io_bind_def io_ret_def)
  have env: "pp_env seen_pipeline = counting_env" "pp_macro seen_pipeline = (\<lambda>t. io_ret [])" by (simp_all add: seen_pipeline_def)
  obtain b where b: "compose_intel_brief counting_env (sample_digest\<lparr>dg_bias_balance := no_balance\<rparr>) ''principal'' EN 1 = (Inr b, 2)"
    using c [of "sample_digest\<lparr>dg_bias_balance := no_balance\<rparr>" "''principal''" EN 1] by auto
  obtain x where x: "from_digest counting_env (sample_digest\<lparr>dg_bias_balance := no_balance\<rparr>) 2 = (Inr x, 2)" using d by blast
  show ?thesis
    by (simp add: run_pipeline_def env m io_bind_def t s b x) (simp add: io_ret_def s b [simplified] x)
qed

theorem production_accepts_nothing_witness:
  "\<exists>r. run_pipeline seen_pipeline ''unknown'' None 0 = (Inr r, 2) \<and> pr_accepted r = [] \<and> pr_dropped_hash r = 1"
proof -
  obtain r where r: "run_pipeline seen_pipeline ''unknown'' None 0 = (Inr r, 2)" "pr_dropped_hash r = 1" using seen_pipeline_runs by blast
  have "pp_insert seen_pipeline = postgres_insert (\<lambda>w. []) (\<lambda>rows w. w)" by (simp add: seen_pipeline_def)
  from production_accepts_nothing [OF this r(1)] r show ?thesis by blast
qed

text \<open>The parts of the world the model and the clock leave alone.\<close>

definition leaves_gates :: "'x mem_world synth_env \<Rightarrow> bool" where
  "leaves_gates env \<longleftrightarrow>
     (\<forall>c w. mw_seen (snd (sy_chat env c w)) = mw_seen w) \<and> (\<forall>w. mw_seen (snd (sy_ulid env w)) = mw_seen w)"

lemma io_bind_keeps:
  assumes "g (snd (m w)) = g w" and "\<And>x w1. g (snd (f x w1)) = g w1"
  shows "g (snd (io_bind m f w)) = g w"
proof -
  obtain r w1 where m: "m w = (r, w1)" by (rule prod.exhaust)
  show ?thesis using assms by (cases r) (simp_all add: io_bind_def m)
qed

lemmas io_bind_seen = io_bind_keeps [where g = mw_seen]

lemma to_event_keeps_seen:
  assumes "leaves_gates (pp_env p)"
  shows "mw_seen (snd (to_event p raw source w)) = mw_seen w"
proof -
  have chat: "mw_seen (snd (sy_chat (pp_env p) c w)) = mw_seen w" and ulid: "mw_seen (snd (sy_ulid (pp_env p) w)) = mw_seen w" for c w
    using assms by (simp_all add: leaves_gates_def)
  have t: "mw_seen (snd (translate (sy_chat (pp_env p)) raw w)) = mw_seen w" for w
    unfolding translate_def by (simp add: io_ret_def) (intro impI io_bind_seen, simp_all add: chat io_ret_def)
  have c: "mw_seen (snd (classify fl (sy_chat (pp_env p)) a b w)) = mw_seen w" for fl a b w
    unfolding classify_def Let_def by (simp add: io_ret_def) (intro impI io_bind_seen, simp_all add: chat io_ret_def case_prod_beta)
  show ?thesis unfolding to_event_def case_prod_beta
    by (intro io_bind_seen t c ulid) (simp add: io_ret_def)
qed

lemma memory_claim_io:
  "pp_claim ((memory_pipeline flt sources evs env sha fl)\<lparr>pp_insert := ins, pp_embed := emb\<rparr>) k ttl w
     = (Inr (k \<notin> mw_seen w), w\<lparr>mw_seen := insert k (mw_seen w)\<rparr>)"
  by (auto simp: memory_pipeline_def memory_claim_def insert_absorb)

lemma rest_keeps_seen:
  assumes "leaves_gates env" and "\<And>ev k w. mw_seen (snd (ins ev k w)) = mw_seen w" and "\<And>s w. mw_seen (snd (emb s w)) = mw_seen w"
    and "p = (memory_pipeline flt sources evs env sha fl)\<lparr>pp_insert := ins, pp_embed := emb\<rparr>"
  shows "mw_seen (snd (io_bind (semantic_accept (pp_search p) (pp_add p) (pp_embed p) isofmt raw) (\<lambda>(ok, dup).
         if \<not> ok then io_ret (acc, dh, ds + 1)
         else io_bind (to_event p raw source) (\<lambda>ev. io_bind (pp_insert p ev (h ev)) (\<lambda>done. io_ret (f ev done)))) w)) = mw_seen w"
proof -
  have env: "pp_env p = env" by (simp add: assms(4) memory_pipeline_def)
  have "mw_seen (snd (semantic_accept (pp_search p) (pp_add p) (pp_embed p) isofmt raw w)) = mw_seen w" for w
    unfolding assms(4) memory_pipeline_def semantic_accept_def
    by (intro io_bind_seen) (auto simp: assms(3) io_ret_def memory_search_def split: list.split intro!: io_bind_seen)
  moreover have "mw_seen (snd (pp_insert p ev k w)) = mw_seen w" for ev k w
    using assms(2) by (simp add: assms(4))
  moreover have "mw_seen (snd (to_event p raw source w)) = mw_seen w" for w
    by (rule to_event_keeps_seen) (simp add: env assms(1))
  ultimately show ?thesis
    by (intro io_bind_seen) (auto simp: case_prod_beta io_ret_def intro!: io_bind_seen)
qed

lemma io_bind_assoc: "io_bind (io_bind m f) g = io_bind m (\<lambda>x. io_bind (f x) g)"
  by (auto simp: io_bind_def fun_eq_iff split: sum.splits prod.splits)

lemma take_events_append: "take_events p source (xs @ ys) = (\<lambda>st. io_bind (take_events p source xs st) (take_events p source ys))"
proof (induction xs)
  case (Cons x xs)
  show ?case by (rule ext) (simp add: Cons.IH io_bind_assoc del: take_event.simps)
qed simp

lemma take_sources_append: "take_sources p (xs @ ys) st = io_bind (take_sources p xs st) (take_sources p ys)"
proof (induction xs arbitrary: st)
  case (Cons x xs)
  show ?case
  proof (rule ext)
    fix w
    obtain raws ending w1 where "pp_fetch p x w = ((raws, ending), w1)" by (metis prod.exhaust)
    then show "take_sources p ((x # xs) @ ys) st w = io_bind (take_sources p (x # xs) st) (take_sources p ys) w"
      by (cases "take_events p x raws st w1"; cases "fst (take_events p x raws st w1)"; cases ending)
        (auto simp: io_bind_def Cons.IH lift_res_def)
  qed
qed (simp add: fun_eq_iff io_bind_def)

text \<open>
  C6: An event on which anything fails after the hash gate (its embedding, translation, classification, the
  new id or the insertion, whatever event store is behind it) ends the whole run with that failure: the events and the
  sources after it are not looked at and no brief is written. When the event comes again, in any later run and from any
  source, the default hash gate, whose set of keys only grows, counts it as a duplicate and does not store it.
\<close>

theorem failed_event_is_lost:
  assumes "leaves_gates env" and "\<And>ev k w. mw_seen (snd (ins ev k w)) = mw_seen w" and "\<And>s w. mw_seen (snd (emb s w)) = mw_seen w"
    and p: "p = (memory_pipeline flt (before @ source # after) evs env sha fl)\<lparr>pp_insert := ins, pp_embed := emb\<rparr>"
    and clock: "(case asof of Some t \<Rightarrow> io_ret t | None \<Rightarrow> sy_now env) w = (Inr now, w0)"
    and "take_sources p before ([], 0, 0) w0 = (Inr st1, w1)"
    and "map_of evs (sc_id source) = Some (earlier @ raw # later)"
    and "take_events p source earlier st1 w1 = (Inr (acc, dh, ds), w2)"
    and fails: "take_event p source raw (acc, dh, ds) w2 = (Inl e, w3)"
  shows "run_pipeline p macro_regime asof w = (Inl e, w3)
    \<and> (\<forall>w4 source' acc' dh' ds'. mw_seen w3 \<subseteq> mw_seen w4 \<longrightarrow>
        take_event p source' raw (acc', dh', ds') w4 = (Inr (acc', dh' + 1, ds'), w4))"
proof
  have p_simps: "pp_sources p = before @ source # after" "pp_fetch p = memory_fetch evs" "pp_env p = env"
    by (simp_all add: p memory_pipeline_def)
  have "take_events p source (earlier @ raw # later) st1 w1 = (Inl e, w3)"
    using assms(8) fails by (simp add: take_events_append io_bind_def del: take_event.simps)
  then have "take_sources p (source # after) st1 w1 = (Inl e, w3)"
    using assms(7) by (simp add: p_simps memory_fetch_def io_bind_def)
  then have "take_sources p (pp_sources p) ([], 0, 0) w0 = (Inl e, w3)"
    using assms(6) by (simp add: p_simps(1) take_sources_append io_bind_def del: take_sources.simps)
  then show "run_pipeline p macro_regime asof w = (Inl e, w3)"
    unfolding run_pipeline_def using clock [folded p_simps(3)] by (simp add: io_bind_ok io_bind_fails)
next
  let ?k = "hash_key (pp_sha p) (sy_iso (pp_env p)) raw"
  have claim: "pp_claim p k ttl w = (Inr (k \<notin> mw_seen w), w\<lparr>mw_seen := insert k (mw_seen w)\<rparr>)" for k ttl w
    unfolding p by (rule memory_claim_io)
  have fresh: "?k \<notin> mw_seen w2" using fails by (auto simp: io_bind_def claim io_ret_def)
  have "mw_seen w3 = mw_seen (w2\<lparr>mw_seen := insert ?k (mw_seen w2)\<rparr>)"
    using fails fresh
      rest_keeps_seen [OF assms(1,2,3) p, where isofmt = "sy_iso (pp_env p)" and raw = raw and source = source and acc = acc and dh = dh
        and ds = ds and h = "event_hash (pp_sha p) (sy_iso (pp_env p))" and f = "\<lambda>ev done. (if done then acc @ [ev] else acc, dh, ds)"
        and w = "w2\<lparr>mw_seen := insert ?k (mw_seen w2)\<rparr>"]
    by (simp add: io_bind_ok [OF claim])
  then have "?k \<in> mw_seen w3" by simp
  then show "\<forall>w4 source' acc' dh' ds'. mw_seen w3 \<subseteq> mw_seen w4 \<longrightarrow>
      take_event p source' raw (acc', dh', ds') w4 = (Inr (acc', dh' + 1, ds'), w4)"
    by (auto simp: io_bind_def claim io_ret_def insert_absorb)
qed

definition plain_env :: "unit mem_world synth_env" where
  "plain_env =
     \<lparr>sy_chat = (\<lambda>c w. (Inl ''model down'', w)), sy_prompt = (\<lambda>c vs. Inr (None, [])), sy_loads = (\<lambda>s. Inl ''no JSON''),
      sy_dumps = (\<lambda>v. []), sy_validate = (\<lambda>d. Inr sample_digest), sy_ulid = io_ret ''01ARZ3NDEKTSV4RRFFQ69G5FAV'',
      sy_now = io_ret (0, 0), sy_iso = (\<lambda>t. [])\<rparr>"

definition empty_world :: "unit mem_world" where
  "empty_world = \<lparr>mw_seen = {}, mw_docs = [], mw_rows = [], mw_rest = ()\<rparr>"

text \<open>The default pipeline with the Postgres store on the table of the migrations.\<close>

definition stored_insert :: "intel_event \<Rightarrow> string \<Rightarrow> (bool, unit mem_world) io" where
  "stored_insert ev k w = (case pg_event_insert lake_events ev k (mw_rows w) of (r, rows) \<Rightarrow> (r, w\<lparr>mw_rows := rows\<rparr>))"

definition stored_pipeline :: "unit mem_world intel_pipeline" where
  "stored_pipeline =
     (memory_pipeline thousandths ([] @ gdelt_source # []) [(''gdelt:gkg'', [] @ sample_raw ''a'' 0 # [])] plain_env id (\<lambda>s. None))
       \<lparr>pp_insert := stored_insert, pp_embed := (\<lambda>s. io_ret (hash_embed thousandths EMBED_DIM s))\<rparr>"

lemma stored_insert_fails: "stored_insert ev k w = (Inl ''column does not exist: ts'', w)"
  by (simp add: stored_insert_def pg_event_insert_def insert_error_def EVENT_COLUMNS_def lake_events_def)

lemma stored_pipeline_fails:
  "\<exists>w3. take_event stored_pipeline gdelt_source (sample_raw ''a'' 0) ([], 0, 0) empty_world = (Inl ''column does not exist: ts'', w3)"
proof -
  have cand: "candidate_tickers ''a'' = []" by code_simp
  show ?thesis
    by (simp add: stored_pipeline_def memory_pipeline_def sample_raw_def empty_world_def memory_claim_def semantic_accept_def
        memory_search_def to_event_def translate_def lower_def lower_char_def classify_def cand plain_env_def Let_def io_bind_def io_ret_def
        stored_insert_fails)
qed

theorem failed_event_is_lost_witness:
  "\<exists>w3. run_pipeline stored_pipeline ''unknown'' None empty_world = (Inl ''column does not exist: ts'', w3)
     \<and> take_event stored_pipeline gdelt_source (sample_raw ''a'' 0) ([], 0, 0) w3 = (Inr ([], 1, 0), w3)"
proof -
  obtain w3 where f: "take_event stored_pipeline gdelt_source (sample_raw ''a'' 0) ([], 0, 0) empty_world
      = (Inl ''column does not exist: ts'', w3)" using stored_pipeline_fails by blast
  have 1: "leaves_gates plain_env" by (simp add: leaves_gates_def plain_env_def io_ret_def)
  have 2: "mw_seen (snd (stored_insert ev k w)) = mw_seen w" for ev k w by (simp add: stored_insert_fails)
  have 3: "mw_seen (snd (io_ret (hash_embed thousandths EMBED_DIM s) w)) = mw_seen w" for s and w :: "unit mem_world" by (simp add: io_ret_def)
  have 4: "(case None of Some t \<Rightarrow> io_ret t | None \<Rightarrow> sy_now plain_env) empty_world = (Inr (0, 0), empty_world)"
    by (simp add: plain_env_def io_ret_def)
  have 5: "take_sources stored_pipeline [] ([], 0, 0) empty_world = (Inr ([], 0, 0), empty_world)" by simp
  have 6: "map_of [(''gdelt:gkg'', [] @ sample_raw ''a'' 0 # [])] (sc_id gdelt_source) = Some ([] @ sample_raw ''a'' 0 # [])"
    by (simp add: gdelt_source_def)
  have 7: "take_events stored_pipeline gdelt_source [] ([], 0, 0) empty_world = (Inr ([], 0, 0), empty_world)" by (simp add: io_ret_def)
  from failed_event_is_lost [OF 1 2 3 stored_pipeline_def 4 5 6 7 f] show ?thesis by auto
qed

lemma take_event_counts:
  "take_event p source raw (acc, dh, ds) w = (Inr (acc', dh', ds'), w') \<Longrightarrow>
     length acc + dh + ds \<le> length acc' + dh' + ds' \<and> length acc' + dh' + ds' \<le> Suc (length acc + dh + ds)"
  by (auto simp: io_bind_Inr_iff io_ret_def split: if_splits)

lemma take_events_count:
  "take_events p source raws (acc, dh, ds) w = (Inr (acc', dh', ds'), w') \<Longrightarrow>
     length acc' + dh' + ds' \<le> length raws + length acc + dh + ds"
proof (induction raws arbitrary: acc dh ds w)
  case (Cons raw raws)
  then obtain acc1 dh1 ds1 w1 where s: "take_event p source raw (acc, dh, ds) w = (Inr (acc1, dh1, ds1), w1)"
      "take_events p source raws (acc1, dh1, ds1) w1 = (Inr (acc', dh', ds'), w')"
    by (auto simp: io_bind_Inr_iff simp del: take_event.simps)
  show ?case using take_event_counts [OF s(1)] Cons.IH [OF s(2)] by simp
qed (simp add: io_ret_def)

definition arrivals_of :: "(string, raw_event list) dict \<Rightarrow> source_cfg \<Rightarrow> nat" where
  "arrivals_of evs source = (case map_of evs (sc_id source) of None \<Rightarrow> 0 | Some es \<Rightarrow> length es)"

lemma take_sources_count:
  assumes "pp_fetch p = memory_fetch evs"
  shows "take_sources p sources (acc, dh, ds) w = (Inr (acc', dh', ds'), w') \<Longrightarrow>
     length acc' + dh' + ds' \<le> sum_list (map (arrivals_of evs) sources) + length acc + dh + ds"
proof (induction sources arbitrary: acc dh ds w)
  case (Cons source sources)
  obtain acc1 dh1 ds1 w1 where
    s: "take_events p source (case map_of evs (sc_id source) of None \<Rightarrow> [] | Some es \<Rightarrow> es) (acc, dh, ds) w = (Inr (acc1, dh1, ds1), w1)"
      "take_sources p sources (acc1, dh1, ds1) w1 = (Inr (acc', dh', ds'), w')"
    using Cons.prems by (auto simp: assms memory_fetch_def io_bind_Inr_iff)
  show ?case using take_events_count [OF s(1)] Cons.IH [OF s(2)] by (simp add: arrivals_of_def split: option.splits)
qed simp

text \<open>
  A run that ends counts no event twice: those accepted and those dropped by either gate are together at most those
  that arrived.
\<close>

theorem intake_within_arrivals:
  assumes "run_pipeline (memory_pipeline flt sources evs env sha fl) macro_regime asof w = (Inr r, w')"
  shows "length (pr_accepted r) + pr_dropped_hash r + pr_dropped_semantic r \<le> sum_list (map (arrivals_of evs) sources)"
proof -
  let ?p = "memory_pipeline flt sources evs env sha fl"
  obtain acc dh ds w1 w2 where s: "take_sources ?p (pp_sources ?p) ([], 0, 0) w1 = (Inr (acc, dh, ds), w2)"
      and r: "pr_accepted r = acc" "pr_dropped_hash r = dh" "pr_dropped_semantic r = ds"
    using assms by (auto simp: run_pipeline_def io_bind_Inr_iff io_ret_def)
  have "pp_fetch ?p = memory_fetch evs" "pp_sources ?p = sources" by (simp_all add: memory_pipeline_def)
  then show ?thesis using take_sources_count [of ?p evs, OF _ s] r by simp
qed

text \<open>Over the Postgres store every context that can be built is empty: the store shows no events to the endpoint.\<close>

theorem production_context_is_empty:
  assumes "is_pipeline st \<noteq> None"
  shows "run_context flt now [] [(''ticker'', JStr (c # t))] st
    = Reply (context_json \<lparr>cx_ticker = c # t, cx_asof = now, cx_window_hours = 24, cx_event_count = 0, cx_sentiment_ema = 0,
        cx_regime_change_score = 0, cx_top_themes = [], cx_top_sources = [], cx_notable_event_ids = []\<rparr>)"
  using assms
  by (simp add: run_context_def dget_def jget_or_def int_of_json_def build_context_def recent_for_ticker_def sentiment_ema_def
      regime_change_score_def most_common_def context_valid_def Let_def trunc_def)

theorem production_context_is_empty_witness:
  "run_context thousandths 0 [] [(''ticker'', JStr ''AAPL'')] (set_pipeline seen_pipeline initial_state) \<noteq> HttpError 503 ''pipeline not configured''"
  using production_context_is_empty [of "set_pipeline seen_pipeline initial_state" thousandths 0 "CHR ''A''" "''APL''"]
  by (simp add: set_pipeline_def)

definition calm_env :: "unit mem_world synth_env" where
  "calm_env =
     \<lparr>sy_chat = (\<lambda>c. io_ret ''{}''), sy_prompt = (\<lambda>c vs. Inr (None, [])), sy_loads = (\<lambda>s. Inr (JObj [])),
      sy_dumps = (\<lambda>v. []), sy_validate = (\<lambda>d. Inr sample_digest), sy_ulid = io_ret ''01ARZ3NDEKTSV4RRFFQ69G5FAV'',
      sy_now = io_ret (0, 0), sy_iso = (\<lambda>t. [])\<rparr>"

lemma calm_runs:
  "\<exists>r w'. run_pipeline (memory_pipeline thousandths [gdelt_source] [(''gdelt:gkg'', [sample_raw ''a'' 0, sample_raw ''a'' 0])] calm_env id
     (\<lambda>s. None)) ''unknown'' None empty_world = (Inr r, w') \<and> length (pr_accepted r) = 1 \<and> pr_dropped_hash r = 1"
proof -
  let ?p = "memory_pipeline thousandths [gdelt_source] [(''gdelt:gkg'', [sample_raw ''a'' 0, sample_raw ''a'' 0])] calm_env id (\<lambda>s. None)"
  have cand: "candidate_tickers ''a'' = []" by code_simp
  have take: "\<exists>ev w. take_sources ?p (pp_sources ?p) ([], 0, 0) empty_world = (Inr ([ev], 1, 0), w)"
    by (simp add: memory_pipeline_def memory_fetch_def gdelt_source_def sample_raw_def empty_world_def memory_claim_def semantic_accept_def
        memory_search_def to_event_def translate_def lower_def lower_char_def classify_def cand memory_event_insert_def calm_env_def
        hash_key_def hash_for_def hash_payload_def Let_def io_bind_def io_ret_def)
  then obtain ev w where t: "take_sources ?p (pp_sources ?p) ([], 0, 0) empty_world = (Inr ([ev], 1, 0), w)" by blast
  have call: "call_synth calm_env ms now w = (Inr sample_digest, w)" for ms now w
  proof -
    have "parse_synth (\<lambda>s. Inr (JObj [])) ''{}'' = Inr []"
      by (simp add: parse_synth_def json_object_def strip_def is_space_def starts_with_def ends_with_def)
    then show ?thesis by (simp add: call_synth_def calm_env_def io_bind_def lift_res_def io_ret_def)
  qed
  have loop: "\<exists>d. reprompt_loop calm_env b now n ms sample_digest w = (Inr d, w)" for b now n ms w
    by (induction n arbitrary: ms) (simp_all add: io_ret_def io_bind_def call Let_def split: option.split)
  have m: "sy_prompt calm_env c vs = Inr (None, [])" "sy_now calm_env = io_ret (0, 0)" for c vs by (simp_all add: calm_env_def)
  have s: "\<exists>d. synthesize calm_env evs rs mr srcs now w = (Inr d, w)" for evs rs mr srcs now w
  proof -
    obtain d where "reprompt_loop calm_env (compute_balance evs (weights_from srcs)) now MAX_REPROMPTS
        [(''system'', str_or None []), (''user'', [])] sample_digest w = (Inr d, w)" using loop by blast
    then show ?thesis by (simp add: synthesize_def synth_messages_def Let_def lift_res_def io_bind_def io_ret_def call m)
  qed
  have b: "\<exists>b. compose_intel_brief calm_env d a l w = (Inr b, w)" for d a l w
    by (simp add: compose_intel_brief_def calm_env_def io_bind_def io_ret_def lift_res_def Let_def)
  obtain d where d: "synthesize calm_env [ev] [] ''unknown'' [gdelt_source] (0, 0) w = (Inr d, w)" using s by blast
  obtain x where x: "compose_intel_brief calm_env d ''principal'' EN w = (Inr x, w)" using b by blast
  have env: "pp_env ?p = calm_env" "pp_macro ?p = (\<lambda>now. io_ret [])" "pp_sources ?p = [gdelt_source]"
    by (simp_all add: memory_pipeline_def memory_macro_def)
  show ?thesis
    by (simp add: run_pipeline_def env m io_bind_def io_ret_def t [unfolded env] d x from_digest_def del: take_sources.simps)
qed

theorem intake_within_arrivals_witness:
  "\<exists>r. fst (run_pipeline (memory_pipeline thousandths [gdelt_source] [(''gdelt:gkg'', [sample_raw ''a'' 0, sample_raw ''a'' 0])] calm_env id
     (\<lambda>s. None)) ''unknown'' None empty_world) = Inr r \<and> length (pr_accepted r) + pr_dropped_hash r + pr_dropped_semantic r \<le> 2"
proof -
  obtain r w' where r: "run_pipeline (memory_pipeline thousandths [gdelt_source] [(''gdelt:gkg'', [sample_raw ''a'' 0, sample_raw ''a'' 0])]
      calm_env id (\<lambda>s. None)) ''unknown'' None empty_world = (Inr r, w')" using calm_runs by blast
  from intake_within_arrivals [OF r] have "length (pr_accepted r) + pr_dropped_hash r + pr_dropped_semantic r \<le> 2"
    by (simp add: arrivals_of_def gdelt_source_def)
  then show ?thesis using r by auto
qed

end
