(* ===== verification/Prompts.thy ===== *)
theory Prompts
  imports PyStd "HOL-Library.List_Lexorder" "HOL-Library.Char_ord"
begin

text \<open>
  The prompt registry (\<^verbatim>\<open>packages/prompts/prompts/\<close>): the frontmatter (\<^verbatim>\<open>frontmatter.py\<close>), rendering
  (\<^verbatim>\<open>render.py\<close>), the append-only publisher (\<^verbatim>\<open>publisher.py\<close>) and the registry (\<^verbatim>\<open>registry.py\<close>). YAML with
  Pydantic, Jinja, SHA-256 and the order of versions are parameters.
\<close>

section \<open>Frontmatter\<close>

datatype prompt_error =
  UnknownCaller string | NoStableVersion string | FrontmatterError string | MissingVariable string
| ImmutablePrompt string | OtherError string

record variable_spec =
  vs_name :: string
  vs_type :: string
  vs_required :: bool
  vs_default :: json

record frontmatter =
  fm_caller_id :: string
  fm_version :: string
  fm_tier :: string
  fm_description :: string
  fm_status :: string
  fm_variables :: "variable_spec list"
  fm_output_schema :: "string option"
  fm_system_role :: "string option"

record parsed_prompt =
  pz_front :: frontmatter
  pz_body :: string
  pz_path :: string

definition DELIM :: string where
  "DELIM = ''---''"

abbreviation nl :: string where
  "nl \<equiv> [CHR 0x0A]"

definition not_delim :: "string \<Rightarrow> bool" where
  "not_delim l \<longleftrightarrow> strip l \<noteq> DELIM"

text \<open>The YAML text and the body of a file.\<close>

definition split_file :: "string \<Rightarrow> prompt_error + string \<times> string" where
  "split_file s =
     (case splitlines s of
        [] \<Rightarrow> Inl (FrontmatterError ''missing leading --- frontmatter delimiter'')
      | l # ls \<Rightarrow>
          if not_delim l then Inl (FrontmatterError ''missing leading --- frontmatter delimiter'')
          else case dropWhile not_delim ls of
                 [] \<Rightarrow> Inl (FrontmatterError ''missing closing --- delimiter'')
               | _ # rest \<Rightarrow> Inr (join_with nl (takeWhile not_delim ls), dropWhile (\<lambda>c. c = CHR 0x0A) (join_with nl rest)))"

text \<open>\<open>load\<close> is YAML and the validation of the frontmatter.\<close>

definition parse_prompt :: "(string \<Rightarrow> string + frontmatter) \<Rightarrow> string \<Rightarrow> string \<Rightarrow> prompt_error + parsed_prompt" where
  "parse_prompt load s path =
     res_bind (split_file s) (\<lambda>(yaml_text, body).
       case load yaml_text of
         Inl e \<Rightarrow> Inl (FrontmatterError e)
       | Inr fm \<Rightarrow> Inr \<lparr>pz_front = fm, pz_body = body, pz_path = path\<rparr>)"

section \<open>Rendering\<close>

fun declared_vars :: "variable_spec list \<Rightarrow> (string, json) dict \<Rightarrow> (string, json) dict \<Rightarrow> prompt_error + (string, json) dict" where
  "declared_vars [] passed out = Inr out"
| "declared_vars (sp # specs) passed out =
     (case map_of passed (vs_name sp) of
        Some v \<Rightarrow> declared_vars specs passed (AList.update (vs_name sp) v out)
      | None \<Rightarrow>
          if vs_required sp \<and> vs_default sp = JNull
          then Inl (MissingVariable (''required variable '' @ vs_name sp @ '' not supplied''))
          else declared_vars specs passed (AList.update (vs_name sp) (vs_default sp) out))"

definition merge_with_defaults :: "variable_spec list \<Rightarrow> (string, json) dict \<Rightarrow> prompt_error + (string, json) dict" where
  "merge_with_defaults declared passed =
     res_bind (declared_vars declared passed []) (\<lambda>out.
       Inr (fold (\<lambda>(k, v) d. if map_of d k = None then AList.update k v d else d) passed out))"

definition render_body :: "(string \<Rightarrow> (string, json) dict \<Rightarrow> string + string) \<Rightarrow> string \<Rightarrow> (string, json) dict \<Rightarrow> prompt_error + string" where
  "render_body jinja body vars =
     (case jinja body vars of Inl e \<Rightarrow> Inl (MissingVariable (''render failed: '' @ e)) | Inr s \<Rightarrow> Inr s)"

text \<open>\<open>s.split(nl nl, 1)\<close>: the text before the first empty line and what follows, if there is one.\<close>

fun cut_paragraph :: "string \<Rightarrow> string \<times> string option" where
  "cut_paragraph [] = ([], None)"
| "cut_paragraph [c] = ([c], None)"
| "cut_paragraph (c # d # s) =
     (if c = CHR 0x0A \<and> d = CHR 0x0A then ([], Some s)
      else let (p, r) = cut_paragraph (d # s) in (c # p, r))"

definition split_system_user :: "string \<Rightarrow> frontmatter \<Rightarrow> string option \<times> string" where
  "split_system_user rendered fm =
     (if fm_system_role fm \<noteq> Some ''first_paragraph'' then (None, rendered)
      else case cut_paragraph rendered of
             (p, None) \<Rightarrow> (Some (strip p), [])
           | (p, Some r) \<Rightarrow> (Some (strip p), dropWhile (\<lambda>c. c = CHR 0x0A) r))"

section \<open>The publisher\<close>

text \<open>The published files: the caller's directory, the name, the text. Versions hold no glob characters.\<close>

type_synonym published = "(string \<times> string \<times> string) list"

definition short_sha :: "(string \<Rightarrow> string) \<Rightarrow> string \<Rightarrow> string" where
  "short_sha sha s = take 16 (sha s)"

definition published_name :: "string \<Rightarrow> string \<Rightarrow> string" where
  "published_name version h = version @ ''__'' @ h @ ''.md''"

definition existing_versions :: "published \<Rightarrow> string \<Rightarrow> string \<Rightarrow> string list" where
  "existing_versions pub caller version =
     sort (map (fst \<circ> snd)
       (filter (\<lambda>(c, n, s). c = caller \<and> starts_with (version @ ''__'') n \<and> ends_with ''.md'' (drop (length version + 2) n)) pub))"

fun after_dunder :: "string \<Rightarrow> string" where
  "after_dunder (c # d # s) = (if c = CHR ''_'' \<and> d = CHR ''_'' then s else after_dunder (d # s))"
| "after_dunder s = []"

text \<open>\<open>path.stem.split('__', 1)[1]\<close> of a name that ends in \<open>.md\<close>.\<close>

definition prior_sha :: "string \<Rightarrow> string" where
  "prior_sha name = after_dunder (take (length name - 3) name)"

definition persist :: "(string \<Rightarrow> string) \<Rightarrow> bool \<Rightarrow> string \<Rightarrow> string \<Rightarrow> string \<Rightarrow> published \<Rightarrow> (prompt_error + string option) \<times> published" where
  "persist sha writable caller version source pub =
     (if \<not> writable then (Inr None, pub)
      else let h = short_sha sha source in
        case existing_versions pub caller version of
          prior # _ \<Rightarrow> (if prior_sha prior \<noteq> h then Inl (ImmutablePrompt caller) else Inr (Some prior), pub)
        | [] \<Rightarrow> (Inr (Some (published_name version h)), pub @ [(caller, published_name version h, source)]))"

section \<open>The registry\<close>

text \<open>A directory of prompts: for a caller its files in the order of their names; \<open>ver\<close> reads a version.\<close>

type_synonym prompt_dirs = "string \<Rightarrow> (string \<times> string) list option"

definition load_versions :: "(string \<Rightarrow> string + frontmatter) \<Rightarrow> (string \<Rightarrow> 'v::linorder option) \<Rightarrow> prompt_dirs \<Rightarrow> string
    \<Rightarrow> prompt_error + parsed_prompt list" where
  "load_versions load ver dirs caller =
     (case dirs caller of
        None \<Rightarrow> Inl (UnknownCaller caller)
      | Some files \<Rightarrow>
          res_bind (those_res (map (\<lambda>(path, s). parse_prompt load s path) files)) (\<lambda>parsed.
            if list_ex (\<lambda>p. ver (fm_version (pz_front p)) = None) parsed then Inl (OtherError ''InvalidVersion'')
            else Inr (sort_key (\<lambda>p. the (ver (fm_version (pz_front p)))) parsed)))"

text \<open>\<open>lru_cache\<close>: what was loaded once is not read again; the eviction of the 513th caller is left out.\<close>

type_synonym version_cache = "(string, parsed_prompt list) dict"

definition list_versions :: "(string \<Rightarrow> string + frontmatter) \<Rightarrow> (string \<Rightarrow> 'v::linorder option) \<Rightarrow> prompt_dirs \<Rightarrow> string
    \<Rightarrow> version_cache \<Rightarrow> (prompt_error + parsed_prompt list) \<times> version_cache" where
  "list_versions load ver dirs caller cache =
     (case map_of cache caller of
        Some ps \<Rightarrow> (Inr ps, cache)
      | None \<Rightarrow>
          (case load_versions load ver dirs caller of
             Inl e \<Rightarrow> (Inl e, cache)
           | Inr ps \<Rightarrow> (Inr ps, AList.update caller ps cache)))"

text \<open>\<open>max\<close> with a key: the first of the largest.\<close>

fun first_largest :: "('a \<Rightarrow> 'v::linorder) \<Rightarrow> 'a \<Rightarrow> 'a list \<Rightarrow> 'a" where
  "first_largest key best [] = best"
| "first_largest key best (x # xs) = first_largest key (if key best < key x then x else best) xs"

definition pick_stable :: "(string \<Rightarrow> 'v::linorder option) \<Rightarrow> parsed_prompt list \<Rightarrow> string \<Rightarrow> prompt_error + parsed_prompt" where
  "pick_stable ver parsed caller =
     (case filter (\<lambda>p. fm_status (pz_front p) = ''stable'') parsed of
        [] \<Rightarrow> Inl (NoStableVersion caller)
      | p # ps \<Rightarrow> Inr (first_largest (\<lambda>p. the (ver (fm_version (pz_front p)))) p ps))"

definition pick_explicit :: "parsed_prompt list \<Rightarrow> string \<Rightarrow> string \<Rightarrow> prompt_error + parsed_prompt" where
  "pick_explicit parsed caller version =
     (case List.find (\<lambda>p. fm_version (pz_front p) = version) parsed of
        None \<Rightarrow> Inl (UnknownCaller caller) | Some p \<Rightarrow> Inr p)"

record rendered_prompt =
  rd_caller_id :: string
  rd_version :: string
  rd_tier :: string
  rd_system :: "string option"
  rd_user :: string
  rd_path :: string

text \<open>\<open>read_path\<close> is the text of the file now.\<close>

record prompt_env =
  ne_load :: "string \<Rightarrow> string + frontmatter"
  ne_jinja :: "string \<Rightarrow> (string, json) dict \<Rightarrow> string + string"
  ne_sha :: "string \<Rightarrow> string"
  ne_writable :: bool
  ne_read_path :: "string \<Rightarrow> string"

definition get_prompt :: "prompt_env \<Rightarrow> (string \<Rightarrow> 'v::linorder option) \<Rightarrow> prompt_dirs \<Rightarrow> string \<Rightarrow> string option
    \<Rightarrow> (string, json) dict \<Rightarrow> version_cache \<times> published \<Rightarrow> (prompt_error + rendered_prompt) \<times> version_cache \<times> published" where
  "get_prompt env ver dirs caller version variables st =
     (case list_versions (ne_load env) ver dirs caller (fst st) of
        (Inl e, cache) \<Rightarrow> (Inl e, cache, snd st)
      | (Inr parsed_versions, cache) \<Rightarrow>
          (case res_bind (case version of Some v \<Rightarrow> pick_explicit parsed_versions caller v
                                        | None \<Rightarrow> pick_stable ver parsed_versions caller) (\<lambda>p.
                res_bind (merge_with_defaults (fm_variables (pz_front p)) variables) (\<lambda>final_vars.
                res_bind (render_body (ne_jinja env) (pz_body p) final_vars) (\<lambda>rendered. Inr (p, rendered)))) of
             Inl e \<Rightarrow> (Inl e, cache, snd st)
           | Inr (p, rendered) \<Rightarrow>
               (let fm = pz_front p; (sys, usr) = split_system_user rendered fm in
                case persist (ne_sha env) (ne_writable env) (fm_caller_id fm) (fm_version fm) (ne_read_path env (pz_path p)) (snd st) of
                  (Inl e, pub) \<Rightarrow> (Inl e, cache, pub)
                | (Inr _, pub) \<Rightarrow>
                    (Inr \<lparr>rd_caller_id = fm_caller_id fm, rd_version = fm_version fm, rd_tier = fm_tier fm, rd_system = sys,
                          rd_user = usr, rd_path = pz_path p\<rparr>, cache, pub))))"

section \<open>Round trip of a file\<close>

lemma delim_facts: "\<not> not_delim DELIM" "list_all (\<lambda>c. \<not> line_break c) DELIM" "DELIM \<noteq> []"
  by code_simp+

lemma drop_empty_lines:
  assumes "body = [] \<or> hd body \<noteq> []" and "list_all (list_all (\<lambda>c. \<not> line_break c)) (yaml @ body)"
  shows "dropWhile (\<lambda>c. c = CHR 0x0A) (join_with nl (replicate k [] @ body)) = join_with nl body"
proof -
  have body: "dropWhile (\<lambda>c. c = CHR 0x0A) (join_with nl body) = join_with nl body"
  proof (cases body)
    case (Cons l ls)
    then obtain c l' where l: "l = c # l'" using assms(1) by (cases l) auto
    have "line_break CHR 0x0A" by code_simp
    then have "c \<noteq> CHR 0x0A" using assms(2) by (auto simp: Cons l)
    then show ?thesis by (cases ls) (simp_all add: Cons l)
  qed simp
  show ?thesis
  proof (induction k)
    case (Suc k)
    then show ?case by (cases "replicate k [] @ body") simp_all
  qed (simp add: body)
qed

text \<open>
  C22: A prompt file of a delimiter, YAML lines, a delimiter, any number of empty lines and the lines of a body that begins
  with a non-empty line, with a newline at its end (as every file of the registry) or without one, is parsed exactly if its
  YAML is, with that frontmatter and with the lines of the body joined: only the empty lines before the body and one newline
  at the end of the file are lost.
\<close>

theorem prompt_file_roundtrip:
  assumes "list_all (list_all (\<lambda>c. \<not> line_break c)) (yaml @ body)" and "list_all not_delim yaml"
    and "body = [] \<or> hd body \<noteq> []" and "ended \<or> (body = [] \<and> k = 0) \<or> (body \<noteq> [] \<and> last body \<noteq> [])"
  shows "parse_prompt load (join_with nl (DELIM # yaml @ DELIM # replicate k [] @ body) @ (if ended then nl else [])) path
    = (case load (join_with nl yaml) of
         Inl e \<Rightarrow> Inl (FrontmatterError e)
       | Inr fm \<Rightarrow> Inr \<lparr>pz_front = fm, pz_body = join_with nl body, pz_path = path\<rparr>)"
proof -
  let ?ls = "DELIM # yaml @ DELIM # replicate k [] @ body"
  have ls: "list_all (list_all (\<lambda>c. \<not> line_break c)) ?ls"
    using assms(1) delim_facts(2) by (auto simp: list_all_iff)
  have lines: "splitlines (join_with nl ?ls @ (if ended then nl else [])) = ?ls"
  proof (cases ended)
    case False
    then have "last ?ls \<noteq> []" using assms(4) delim_facts(3) by auto
    then show ?thesis using splitlines_join [OF ls] False by simp
  qed (use splitlines_join_ended [OF ls] in simp)
  have y: "not_delim l" if "l \<in> set yaml" for l using assms(2) that by (simp add: list_all_iff)
  have "takeWhile not_delim (yaml @ DELIM # replicate k [] @ body) = yaml"
      "dropWhile not_delim (yaml @ DELIM # replicate k [] @ body) = DELIM # replicate k [] @ body"
    using y delim_facts(1) by (simp_all add: takeWhile_append2 dropWhile_append2)
  then have "split_file (join_with nl ?ls @ (if ended then nl else [])) = Inr (join_with nl yaml, join_with nl body)"
    using delim_facts(1) by (simp add: split_file_def lines drop_empty_lines [OF assms(3,1)])
  then show ?thesis by (simp add: parse_prompt_def)
qed

definition sample_front :: frontmatter where
  "sample_front = \<lparr>fm_caller_id = ''intel.synth'', fm_version = ''1.0.0'', fm_tier = ''pro'', fm_description = [], fm_status = ''stable'',
     fm_variables = [], fm_output_schema = None, fm_system_role = None\<rparr>"

theorem prompt_file_roundtrip_witness:
  "parse_prompt (\<lambda>y. if y = ''version: 1.0.0'' then Inr sample_front else Inl [])
     (join_with nl [DELIM, ''version: 1.0.0'', DELIM, [], ''Rank these.'', [], ''Go.''] @ nl) ''1.0.0.md''
   = Inr \<lparr>pz_front = sample_front, pz_body = ''Rank these.'' @ nl @ nl @ ''Go.'', pz_path = ''1.0.0.md''\<rparr>"
proof -
  have 1: "list_all (list_all (\<lambda>c. \<not> line_break c)) ([''version: 1.0.0''] @ [''Rank these.'', [], ''Go.''])" by code_simp
  have 2: "list_all not_delim [''version: 1.0.0'']" by code_simp
  from prompt_file_roundtrip [OF 1 2, where ended = True and k = 1] show ?thesis by simp
qed

section \<open>The publisher writes once\<close>

text \<open>
  The abstract publisher: a map from a caller and a version to the text published for them, which never changes. It knows
  nothing of hashes.
\<close>

datatype pub_out = NotWritable | Published | Refused

type_synonym pub_op = "bool \<times> string \<times> string \<times> string"

fun spec_publish :: "pub_op \<Rightarrow> (string \<times> string \<rightharpoonup> string) \<Rightarrow> pub_out \<times> (string \<times> string \<rightharpoonup> string)" where
  "spec_publish (writable, caller, version, source) m =
     (if \<not> writable then (NotWritable, m)
      else case m (caller, version) of
             None \<Rightarrow> (Published, m((caller, version) \<mapsto> source))
           | Some s \<Rightarrow> (if s = source then Published else Refused, m))"

definition out_of :: "prompt_error + string option \<Rightarrow> pub_out" where
  "out_of r = (case r of Inl _ \<Rightarrow> Refused | Inr None \<Rightarrow> NotWritable | Inr (Some _) \<Rightarrow> Published)"

fun persist_all :: "(string \<Rightarrow> string) \<Rightarrow> pub_op list \<Rightarrow> published \<Rightarrow> pub_out list" where
  "persist_all sha [] pub = []"
| "persist_all sha ((writable, caller, version, source) # ops) pub =
     (case persist sha writable caller version source pub of (r, pub') \<Rightarrow> out_of r # persist_all sha ops pub')"

fun spec_all :: "pub_op list \<Rightarrow> (string \<times> string \<rightharpoonup> string) \<Rightarrow> pub_out list" where
  "spec_all [] m = []"
| "spec_all (op # ops) m = (case spec_publish op m of (r, m') \<Rightarrow> r # spec_all ops m')"

text \<open>The files that stand for a map; a version holds no underscore.\<close>

definition plain_version :: "string \<Rightarrow> bool" where
  "plain_version v \<longleftrightarrow> CHR ''_'' \<notin> set v"

definition stands_for :: "(string \<Rightarrow> string) \<Rightarrow> published \<Rightarrow> (string \<times> string \<rightharpoonup> string) \<Rightarrow> bool" where
  "stands_for sha pub m \<longleftrightarrow>
     (\<forall>(c, n, s) \<in> set pub. \<exists>v. plain_version v \<and> n = published_name v (short_sha sha s) \<and> m (c, v) = Some s)
     \<and> (\<forall>c v s. m (c, v) = Some s \<longrightarrow> (c, published_name v (short_sha sha s), s) \<in> set pub)"

lemma after_dunder_plain: "plain_version v \<Longrightarrow> after_dunder (v @ ''__'' @ h) = h"
proof (induction v)
  case (Cons c v)
  then show ?case by (cases v) (auto simp: plain_version_def)
qed simp

lemma prior_sha_of_name: "plain_version v \<Longrightarrow> prior_sha (published_name v h) = h"
  using after_dunder_plain [of v h] by (simp add: prior_sha_def published_name_def)

lemma name_matches:
  assumes "plain_version v" and "plain_version u"
  shows "starts_with (v @ ''__'') (published_name u h) \<and> ends_with ''.md'' (drop (length v + 2) (published_name u h)) \<longleftrightarrow> u = v"
proof
  assume "u = v"
  then show "starts_with (v @ ''__'') (published_name u h) \<and> ends_with ''.md'' (drop (length v + 2) (published_name u h))"
    using starts_with_append [of "v @ ''__''" "h @ ''.md''"] by (simp add: published_name_def)
next
  assume "starts_with (v @ ''__'') (published_name u h) \<and> ends_with ''.md'' (drop (length v + 2) (published_name u h))"
  then obtain t where t: "u @ ''__'' @ h @ ''.md'' = v @ ''__'' @ t" by (auto simp: starts_with_iff published_name_def)
  have u: "takeWhile (\<lambda>c. c \<noteq> CHR ''_'') (u @ ''__'' @ h @ ''.md'') = u"
    using assms(2) by (subst takeWhile_append2) (auto simp: plain_version_def)
  have v: "takeWhile (\<lambda>c. c \<noteq> CHR ''_'') (v @ ''__'' @ t) = v"
    using assms(1) by (subst takeWhile_append2) (auto simp: plain_version_def)
  show "u = v" using u v t by simp
qed

lemma existing_of_absent:
  assumes "stands_for sha pub m" and "plain_version v" and "m (c, v) = None"
  shows "existing_versions pub c v = []"
proof -
  have "\<not> (starts_with (v @ ''__'') n \<and> ends_with ''.md'' (drop (length v + 2) n))" if in_pub: "(c, n, s) \<in> set pub" for n s
  proof -
    obtain u where u: "plain_version u" "n = published_name u (short_sha sha s)" "m (c, u) = Some s"
      using assms(1) in_pub unfolding stands_for_def by fast
    then have "u \<noteq> v" using assms(3) by auto
    then show ?thesis unfolding u(2) using name_matches [OF assms(2) u(1)] by blast
  qed
  then show ?thesis by (auto simp: existing_versions_def filter_empty_conv simp flip: set_empty)
qed

lemma existing_of_present:
  assumes "stands_for sha pub m" and "plain_version v" and "m (c, v) = Some t"
  shows "\<exists>rest. existing_versions pub c v = published_name v (short_sha sha t) # rest"
proof -
  let ?ns = "existing_versions pub c v" and ?h = "short_sha sha t"
  have all: "n = published_name v ?h" if in_ns: "n \<in> set ?ns" for n
  proof -
    obtain s where s: "(c, n, s) \<in> set pub" "starts_with (v @ ''__'') n \<and> ends_with ''.md'' (drop (length v + 2) n)"
      using in_ns by (auto simp: existing_versions_def)
    obtain u where u: "plain_version u" "n = published_name u (short_sha sha s)" "m (c, u) = Some s"
      using assms(1) s(1) unfolding stands_for_def by fast
    have "u = v" using name_matches [OF assms(2) u(1)] s(2) unfolding u(2) by blast
    then show ?thesis using u assms(3) by simp
  qed
  have "(c, published_name v ?h, t) \<in> set pub" using assms(1,3) unfolding stands_for_def by blast
  then have "published_name v ?h \<in> set ?ns"
    using name_matches [OF assms(2,2), of ?h] by (force simp: existing_versions_def)
  then obtain n rest where ns: "?ns = n # rest" by (cases ?ns) auto
  then show ?thesis using all [of n] by simp
qed

lemma persist_refines:
  assumes "stands_for sha pub m" and "plain_version v"
    and "persist sha writable c v source pub = (r, pub')" and "spec_publish (writable, c, v, source) m = (r', m')"
    and "\<And>s. m (c, v) = Some s \<Longrightarrow> short_sha sha s = short_sha sha source \<Longrightarrow> s = source"
  shows "out_of r = r' \<and> stands_for sha pub' m'"
proof (cases "writable \<and> m (c, v) = None")
  case True
  then have "existing_versions pub c v = []" using existing_of_absent [OF assms(1,2)] by simp
  then have r: "r = Inr (Some (published_name v (short_sha sha source)))"
      "pub' = pub @ [(c, published_name v (short_sha sha source), source)]" "r' = Published" "m' = m((c, v) \<mapsto> source)"
    using assms(3,4) True by (simp_all add: persist_def Let_def)
  have "stands_for sha pub' m'"
    unfolding stands_for_def
  proof (intro conjI ballI allI impI)
    fix x
    assume "x \<in> set pub'"
    then consider "x \<in> set pub" | "x = (c, published_name v (short_sha sha source), source)" by (auto simp: r)
    then show "case x of (c, n, s) \<Rightarrow> \<exists>v. plain_version v \<and> n = published_name v (short_sha sha s) \<and> m' (c, v) = Some s"
    proof cases
      case 1
      obtain c' n s where x: "x = (c', n, s)" by (cases x)
      obtain u where u: "plain_version u" "n = published_name u (short_sha sha s)" "m (c', u) = Some s"
        using assms(1) 1 unfolding stands_for_def x by fast
      have "(c', u) \<noteq> (c, v)" using u(3) True by auto
      then show ?thesis using u by (auto simp: x r)
    qed (use assms(2) in \<open>auto simp: r\<close>)
  next
    fix c' v' t
    assume "m' (c', v') = Some t"
    then show "(c', published_name v' (short_sha sha t), t) \<in> set pub'"
      using assms(1) unfolding stands_for_def r by (auto split: if_splits)
  qed
  then show ?thesis by (simp add: r out_of_def)
next
  case False
  then show ?thesis
  proof (cases writable)
    case True
    then obtain t where t: "m (c, v) = Some t" using False by auto
    obtain rest where e: "existing_versions pub c v = published_name v (short_sha sha t) # rest"
      using existing_of_present [OF assms(1,2) t] by blast
    show ?thesis using assms(1,3,4) assms(5) [OF t] True t
      by (auto simp: persist_def Let_def e prior_sha_of_name [OF assms(2)] out_of_def split: if_splits)
  qed (use assms in \<open>auto simp: persist_def out_of_def\<close>)
qed

definition op_text :: "pub_op \<Rightarrow> string" where
  "op_text op = snd (snd (snd op))"

text \<open>
  C11: The publisher's files implement a map that is written once: whatever prompts are published in whatever order, with
  the directory writable or not, a version is accepted exactly if nothing or the very same text was published for it
  before. This holds of versions without an underscore and of texts that the first 16 hexadecimal digits of their SHA-256
  tell apart.
\<close>

theorem publisher_refines_write_once:
  assumes "list_all (\<lambda>(writable, c, v, source). plain_version v) ops"
    and digest: "inj_on (\<lambda>s. take 16 (sha s)) (op_text ` set ops)"
  shows "persist_all sha ops [] = spec_all ops Map.empty"
proof -
  have "stands_for sha pub m \<Longrightarrow> ran m \<union> op_text ` set ops' \<subseteq> op_text ` set ops \<Longrightarrow>
      list_all (\<lambda>(writable, c, v, source). plain_version v) ops' \<Longrightarrow> persist_all sha ops' pub = spec_all ops' m" for ops' pub m
  proof (induction ops' arbitrary: pub m)
    case (Cons op ops')
    obtain wr c v source where op: "op = (wr, c, v, source)" by (cases op) auto
    obtain r pub' where p: "persist sha wr c v source pub = (r, pub')" by (rule prod.exhaust)
    obtain r' m' where sp: "spec_publish (wr, c, v, source) m = (r', m')" by (rule prod.exhaust)
    have texts: "source \<in> op_text ` set ops" "ran m \<subseteq> op_text ` set ops" using Cons.prems(2) by (auto simp: op op_text_def)
    have apart: "s = source" if eq: "m (c, v) = Some s" "short_sha sha s = short_sha sha source" for s
      using inj_onD [OF digest, of s source] texts eq by (auto simp: short_sha_def ran_def)
    have "ran m' \<subseteq> insert source (ran m)" using sp by (cases wr; cases "m (c, v)") (auto split: if_splits)
    then have sub: "ran m' \<union> op_text ` set ops' \<subseteq> op_text ` set ops" using Cons.prems(2) texts by auto
    have "plain_version v" and tail: "list_all (\<lambda>(writable, c, v, source). plain_version v) ops'" using Cons.prems(3) by (simp_all add: op)
    note step = persist_refines [OF Cons.prems(1) this(1) p sp apart]
    have "persist_all sha ops' pub' = spec_all ops' m'" by (rule Cons.IH [OF conjunct2 [OF step] sub tail])
    then show ?case using conjunct1 [OF step] by (simp only: op persist_all.simps spec_all.simps p sp prod.case)
  qed simp
  from this [of "[]" Map.empty ops] assms(1) show ?thesis by (auto simp: stands_for_def)
qed

theorem publisher_refines_write_once_witness:
  "persist_all id [(True, ''intel.synth'', ''1.0.0'', ''a''), (True, ''intel.synth'', ''1.0.0'', ''a''), (True, ''intel.synth'', ''1.0.0'', ''b'')] []
    = [Published, Published, Refused]"
proof -
  let ?ops = "[(True, ''intel.synth'', ''1.0.0'', ''a''), (True, ''intel.synth'', ''1.0.0'', ''a''), (True, ''intel.synth'', ''1.0.0'', ''b'')]"
  have 1: "list_all (\<lambda>(writable, c, v, source). plain_version v) ?ops" by (simp add: plain_version_def)
  have 2: "inj_on (\<lambda>s. take 16 (id s)) (op_text ` set ?ops)" by (simp add: op_text_def)
  show ?thesis unfolding publisher_refines_write_once [OF 1 2] by simp
qed

lemma first_largest_in: "first_largest key x xs \<in> set (x # xs) \<and> (\<forall>y \<in> set (x # xs). key y \<le> key (first_largest key x xs))"
proof (induction xs arbitrary: x)
  case (Cons y xs)
  show ?case
  proof (cases "key x < key y")
    case True
    have "key y \<le> key (first_largest key y xs)" using Cons.IH [of y] by simp
    then show ?thesis using Cons.IH [of y] True by auto
  next
    case False
    have "key x \<le> key (first_largest key x xs)" using Cons.IH [of x] by simp
    then show ?thesis using Cons.IH [of x] False by auto
  qed
qed simp

text \<open>
  Without a version asked for, the registry gives a stable version that no stable version is above, and it refuses
  exactly if there is no stable one.
\<close>

theorem stable_pick_is_highest:
  "(pick_stable ver parsed caller = Inl (NoStableVersion caller) \<longleftrightarrow> (\<forall>p \<in> set parsed. fm_status (pz_front p) \<noteq> ''stable''))
   \<and> (\<forall>p. pick_stable ver parsed caller = Inr p \<longrightarrow> p \<in> set parsed \<and> fm_status (pz_front p) = ''stable''
        \<and> (\<forall>q \<in> set parsed. fm_status (pz_front q) = ''stable''
             \<longrightarrow> (the (ver (fm_version (pz_front q))) :: 'v::linorder) \<le> the (ver (fm_version (pz_front p)))))"
proof (cases "filter (\<lambda>p. fm_status (pz_front p) = ''stable'') parsed")
  case Nil
  then show ?thesis by (auto simp: pick_stable_def filter_empty_conv)
next
  case (Cons p ps)
  have st: "set (p # ps) = {q \<in> set parsed. fm_status (pz_front q) = ''stable''}" using Cons [symmetric] by simp
  then have "p \<in> set parsed \<and> fm_status (pz_front p) = ''stable''" by auto
  then show ?thesis
    using first_largest_in [of "\<lambda>p. the (ver (fm_version (pz_front p)))" p ps] unfolding st
    by (auto simp: pick_stable_def Cons)
qed

definition sample_prompt :: "string \<Rightarrow> string \<Rightarrow> parsed_prompt" where
  "sample_prompt version status =
     \<lparr>pz_front = \<lparr>fm_caller_id = ''intel.synth'', fm_version = version, fm_tier = ''pro'', fm_description = [], fm_status = status,
        fm_variables = [], fm_output_schema = None, fm_system_role = None\<rparr>, pz_body = [], pz_path = version\<rparr>"

theorem stable_pick_is_highest_witness:
  "pick_stable (\<lambda>v. Some (length v)) [sample_prompt ''1'' ''stable'', sample_prompt ''1.1'' ''beta''] ''intel.synth'' = Inr (sample_prompt ''1'' ''stable'')
   \<and> (\<forall>q \<in> set [sample_prompt ''1'' ''stable'', sample_prompt ''1.1'' ''beta'']. fm_status (pz_front q) = ''stable''
        \<longrightarrow> length (fm_version (pz_front q)) \<le> 1)"
proof -
  let ?ps = "[sample_prompt ''1'' ''stable'', sample_prompt ''1.1'' ''beta'']"
  have "pick_stable (\<lambda>v. Some (length v)) ?ps ''intel.synth'' = Inr (sample_prompt ''1'' ''stable'')"
    by (simp add: pick_stable_def sample_prompt_def)
  with stable_pick_is_highest [of "\<lambda>v. Some (length v)" ?ps "''intel.synth''"] show ?thesis by (auto simp: sample_prompt_def)
qed

end
