(* ===== verification/PromptEval.thy ===== *)
theory PromptEval
  imports Prompts
begin

text \<open>
  The evaluation of prompts (\<^verbatim>\<open>packages/prompts/prompts/eval/\<close>): the judge's scores
  (\<^verbatim>\<open>judge.py\<close>), with the regular expression of a score line written out, and the replay of the
  golden set (\<^verbatim>\<open>runner.py\<close>). The model and the prompt registry are parameters.
\<close>

section \<open>Score lines\<close>

text \<open>
  \<open>^\s*(\d+)\s*[:.\)]\s*([01](?:\.\d+)?)\s*$\<close> with \<open>re.M\<close>. White space may span lines; after the number it is taken
  as far as the end of the text or the last line end within it.
\<close>

fun digits_value :: "nat \<Rightarrow> string \<Rightarrow> nat" where
  "digits_value acc [] = acc"
| "digits_value acc (c # s) = digits_value (10 * acc + (of_char c - 48)) s"

definition space_tail :: "string \<Rightarrow> (string \<times> string) option" where
  "space_tail s =
     (let w = takeWhile is_space s; r = dropWhile is_space s in
      if r = [] then Some (w, [])
      else if CHR 0x0A \<notin> set w then None
      else let k = length w - 1 - length (takeWhile (\<lambda>c. c \<noteq> CHR 0x0A) (rev w)) in Some (take k w, drop k w @ r))"

text \<open>The number after the separator: its value and the rest.\<close>

definition score_number :: "string \<Rightarrow> (rat \<times> string) option" where
  "score_number s =
     (case s of
        [] \<Rightarrow> None
      | c # s1 \<Rightarrow>
          if c \<noteq> CHR ''0'' \<and> c \<noteq> CHR ''1'' then None
          else let whole = (if c = CHR ''1'' then 1 else 0); ds = takeWhile is_digit (tl s1) in
            if s1 \<noteq> [] \<and> hd s1 = CHR ''.'' \<and> ds \<noteq> []
            then Some (whole + of_nat (digits_value 0 ds) / 10 ^ length ds, dropWhile is_digit (tl s1))
            else Some (whole, s1))"

definition match_score :: "string \<Rightarrow> (nat \<times> rat \<times> string \<times> string) option" where
  "match_score s =
     (let s1 = dropWhile is_space s; ds = takeWhile is_digit s1; s2 = dropWhile is_space (dropWhile is_digit s1) in
      if ds = [] \<or> s2 = [] \<or> hd s2 \<notin> {CHR '':'', CHR ''.'', CHR '')''} then None
      else case score_number (dropWhile is_space (tl s2)) of
             None \<Rightarrow> None
           | Some (x, s3) \<Rightarrow>
               (case space_tail s3 of None \<Rightarrow> None | Some (w, rest) \<Rightarrow> Some (digits_value 0 ds, x, w, rest)))"

lemma space_tail_le: "space_tail s = Some (w, rest) \<Longrightarrow> length rest \<le> length s"
proof -
  assume a: "space_tail s = Some (w, rest)"
  have "length (takeWhile is_space s) + length (dropWhile is_space s) = length s"
    using takeWhile_dropWhile_id [of is_space s] by (metis length_append)
  then show ?thesis using a by (auto simp: space_tail_def Let_def split: if_splits)
qed

lemma score_number_less: "score_number s = Some (x, rest) \<Longrightarrow> length rest < length s"
proof (cases s)
  case (Cons c s1)
  assume "score_number s = Some (x, rest)"
  moreover have "length (dropWhile is_digit (tl s1)) \<le> length s1" using length_dropWhile_le [of is_digit "tl s1"] by simp
  ultimately show ?thesis by (auto simp: Cons score_number_def Let_def less_Suc_eq_le split: if_splits)
qed (simp add: score_number_def)

lemma match_score_less:
  assumes "match_score s = Some (i, x, w, rest)"
  shows "length rest < length s"
proof -
  let ?s1 = "dropWhile is_space s" and ?s2 = "dropWhile is_space (dropWhile is_digit (dropWhile is_space s))"
  obtain s3 where n: "score_number (dropWhile is_space (tl ?s2)) = Some (x, s3)" and t: "space_tail s3 = Some (w, rest)"
    using assms by (auto simp: match_score_def Let_def split: if_splits option.splits)
  have "length rest \<le> length s3" by (rule space_tail_le [OF t])
  also have "\<dots> < length (dropWhile is_space (tl ?s2))" by (rule score_number_less [OF n])
  also have "\<dots> \<le> length ?s2" using length_dropWhile_le [of is_space "tl ?s2"] by simp
  also have "\<dots> \<le> length (dropWhile is_digit ?s1)" by (rule length_dropWhile_le)
  also have "\<dots> \<le> length ?s1" by (rule length_dropWhile_le)
  also have "\<dots> \<le> length s" by (rule length_dropWhile_le)
  finally show ?thesis .
qed

text \<open>\<open>findall\<close> and \<open>sub\<close>: the scores, and the text without them; \<open>bol\<close> says whether a line begins here.\<close>

function score_scan :: "bool \<Rightarrow> string \<Rightarrow> (nat \<times> rat) list \<times> string" where
  "score_scan bol s =
     (case (if bol then match_score s else None) of
        Some (i, x, w, rest) \<Rightarrow>
          (let (found, left) = score_scan (w \<noteq> [] \<and> last w = CHR 0x0A) rest in ((i, x) # found, left))
      | None \<Rightarrow>
          (case s of
             [] \<Rightarrow> ([], [])
           | c # t \<Rightarrow> let (found, left) = score_scan (c = CHR 0x0A) t in (found, c # left)))"
  by pat_completeness auto
termination
  by (relation "measure (length \<circ> snd)") (auto dest: match_score_less split: if_splits)

declare score_scan.simps [simp del]

section \<open>The judge\<close>

record judge_result =
  jd_overall_score :: rat
  jd_rubric_scores :: "(string, rat) dict"
  jd_notes :: string

definition format_inputs :: "(string, string) dict \<Rightarrow> string" where
  "format_inputs inputs =
     (if inputs = [] then ''(none)'' else join_with nl (map (\<lambda>(k, v). ''- **'' @ k @ ''**: '' @ take 500 v) inputs))"

definition format_rubric :: "string list \<Rightarrow> string" where
  "format_rubric rubric = join_with nl (map (\<lambda>(i, item). show_nat (i + 1) @ ''. '' @ item) (List.enumerate 0 rubric))"

fun score_items :: "(nat \<rightharpoonup> rat) \<Rightarrow> nat \<Rightarrow> string list \<Rightarrow> (string, rat) dict \<Rightarrow> (string, rat) dict" where
  "score_items parsed i [] d = d"
| "score_items parsed i (item # items) d =
     score_items parsed (i + 1) items (AList.update item (case parsed i of None \<Rightarrow> 0 | Some x \<Rightarrow> x) d)"

definition parse_judge_response :: "string \<Rightarrow> string list \<Rightarrow> judge_result" where
  "parse_judge_response s rubric =
     (let (found, left) = score_scan True s;
          parsed = map_of (rev (filter (\<lambda>(i, x). 0 \<le> x \<and> x \<le> 1) found));
          scores = score_items parsed 1 rubric []
      in \<lparr>jd_overall_score = (if scores = [] then 0 else sum_list (vals scores) / of_nat (length scores)),
          jd_rubric_scores = scores, jd_notes = strip left\<rparr>)"

section \<open>The runner\<close>

record golden_entry =
  ge_id :: string
  ge_caller_id :: string
  ge_inputs :: "(string, json) dict"
  ge_rubric :: "string list"

record entry_result =
  er_entry_id :: string
  er_caller_id :: string
  er_version :: string
  er_overall_score :: rat
  er_rubric_scores :: "(string, rat) dict"
  er_candidate_answer :: string
  er_judge_notes :: string

record eval_report =
  ep_total_entries :: nat
  ep_per_caller_mean :: "(string, rat) dict"
  ep_per_entry :: "entry_result list"
  ep_overall_mean :: rat

definition coverage_report :: "golden_entry list \<Rightarrow> (string, nat) dict" where
  "coverage_report entries =
     fold (\<lambda>e d. AList.update (ge_caller_id e) ((case map_of d (ge_caller_id e) of None \<Rightarrow> 0 | Some n \<Rightarrow> n) + 1) d) entries []"

text \<open>
  \<open>get\<close> is the registry with its state in the world; \<open>chat\<close> gives the caller, the messages and the tier to the model;
  \<open>show\<close> is \<open>str\<close> of an input.
\<close>

record 'w eval_env =
  ee_get :: "string \<Rightarrow> string option \<Rightarrow> (string, json) dict \<Rightarrow> 'w \<Rightarrow> (string + rendered_prompt) \<times> 'w"
  ee_chat :: "string \<Rightarrow> (string \<times> string) list \<Rightarrow> string \<Rightarrow> 'w \<Rightarrow> (string + string) \<times> 'w"
  ee_str :: "json \<Rightarrow> string"

definition prompt_messages :: "rendered_prompt \<Rightarrow> (string \<times> string) list" where
  "prompt_messages p =
     (case rd_system p of Some (c # s) \<Rightarrow> [(''system'', c # s)] | _ \<Rightarrow> []) @ [(''user'', rd_user p)]"

definition judge_messages :: "rendered_prompt \<Rightarrow> (string \<times> string) list" where
  "judge_messages p = [(''system'', (case rd_system p of None \<Rightarrow> [] | Some s \<Rightarrow> s)), (''user'', rd_user p)]"

definition judge_variables :: "'w eval_env \<Rightarrow> golden_entry \<Rightarrow> string \<Rightarrow> (string, json) dict" where
  "judge_variables env entry candidate =
     [(''caller_id_under_test'', JStr (ge_caller_id entry)),
      (''inputs_json'', JStr (format_inputs (map (\<lambda>(k, v). (k, ee_str env v)) (ge_inputs entry)))),
      (''rubric_md'', JStr (format_rubric (ge_rubric entry))), (''candidate_answer'', JStr candidate)]"

definition run_one :: "'w eval_env \<Rightarrow> string option \<Rightarrow> golden_entry \<Rightarrow> 'w \<Rightarrow> (string + entry_result) \<times> 'w" where
  "run_one env version entry w =
     (case ee_get env (ge_caller_id entry) version (ge_inputs entry) w of
        (Inl e, w1) \<Rightarrow> (Inl e, w1)
      | (Inr prompt, w1) \<Rightarrow>
          (case ee_chat env (ge_caller_id entry) (prompt_messages prompt) (rd_tier prompt) w1 of
             (Inl e, w2) \<Rightarrow> (Inl e, w2)
           | (Inr candidate, w2) \<Rightarrow>
               (case ee_get env ''eval.judge'' None (judge_variables env entry candidate) w2 of
                  (Inl e, w3) \<Rightarrow> (Inl e, w3)
                | (Inr judge, w3) \<Rightarrow>
                    (case ee_chat env ''eval.judge'' (judge_messages judge) ''pro'' w3 of
                       (Inl e, w4) \<Rightarrow> (Inl e, w4)
                     | (Inr answer, w4) \<Rightarrow>
                         (let r = parse_judge_response answer (ge_rubric entry) in
                          (Inr \<lparr>er_entry_id = ge_id entry, er_caller_id = ge_caller_id entry, er_version = rd_version prompt,
                                er_overall_score = jd_overall_score r, er_rubric_scores = jd_rubric_scores r,
                                er_candidate_answer = candidate, er_judge_notes = jd_notes r\<rparr>, w4))))))"

fun run_entries :: "'w eval_env \<Rightarrow> string option \<Rightarrow> golden_entry list \<Rightarrow> 'w \<Rightarrow> (string + entry_result list) \<times> 'w" where
  "run_entries env version [] w = (Inr [], w)"
| "run_entries env version (entry # entries) w =
     (case run_one env version entry w of
        (Inl e, w1) \<Rightarrow> (Inl e, w1)
      | (Inr r, w1) \<Rightarrow>
          (case run_entries env version entries w1 of
             (Inl e, w2) \<Rightarrow> (Inl e, w2) | (Inr rs, w2) \<Rightarrow> (Inr (r # rs), w2)))"

definition mean_of :: "rat list \<Rightarrow> rat" where
  "mean_of xs = (if xs = [] then 0 else sum_list xs / of_nat (length xs))"

definition scores_by_caller :: "entry_result list \<Rightarrow> (string, rat list) dict" where
  "scores_by_caller rs =
     fold (\<lambda>r d. AList.update (er_caller_id r) ((case map_of d (er_caller_id r) of None \<Rightarrow> [] | Some xs \<Rightarrow> xs) @ [er_overall_score r]) d) rs []"

definition eval_run :: "'w eval_env \<Rightarrow> golden_entry list \<Rightarrow> string option \<Rightarrow> string option \<Rightarrow> 'w \<Rightarrow> (string + eval_report) \<times> 'w" where
  "eval_run env golden caller_id version w =
     (let entries = (case caller_id of None \<Rightarrow> golden | Some c \<Rightarrow> filter (\<lambda>e. ge_caller_id e = c) golden) in
      case run_entries env version entries w of
        (Inl e, w1) \<Rightarrow> (Inl e, w1)
      | (Inr results, w1) \<Rightarrow>
          (Inr \<lparr>ep_total_entries = length results,
                ep_per_caller_mean = map (\<lambda>(c, xs). (c, mean_of xs)) (scores_by_caller results),
                ep_per_entry = results, ep_overall_mean = mean_of (map er_overall_score results)\<rparr>, w1))"

section \<open>Scores stay in the unit interval\<close>

lemma score_items_unit:
  assumes "\<And>i x. parsed i = Some x \<Longrightarrow> 0 \<le> x \<and> x \<le> 1"
  shows "list_all (\<lambda>(k, v). 0 \<le> v \<and> v \<le> 1) d \<Longrightarrow> list_all (\<lambda>(k, v). 0 \<le> v \<and> v \<le> (1 :: rat)) (score_items parsed i items d)"
proof (induction items arbitrary: i d)
  case (Cons item items)
  have "0 \<le> (case parsed i of None \<Rightarrow> 0 | Some x \<Rightarrow> x) \<and> (case parsed i of None \<Rightarrow> 0 | Some x \<Rightarrow> x) \<le> (1 :: rat)"
    using assms by (cases "parsed i") simp_all
  then have "list_all (\<lambda>(k, v). 0 \<le> v \<and> v \<le> 1) (AList.update item (case parsed i of None \<Rightarrow> 0 | Some x \<Rightarrow> x) d)"
    using Cons.prems by (induction d) auto
  then show ?case using Cons.IH by simp
qed simp

lemma mean_unit:
  assumes "list_all (\<lambda>x. 0 \<le> x \<and> x \<le> (1 :: rat)) xs" and "xs \<noteq> []"
  shows "0 \<le> sum_list xs / of_nat (length xs) \<and> sum_list xs / of_nat (length xs) \<le> 1"
proof -
  have "0 \<le> sum_list xs \<and> sum_list xs \<le> of_nat (length xs)" using assms(1) by (induction xs) auto
  moreover have "0 < (of_nat (length xs) :: rat)" using assms(2) by simp
  ultimately show ?thesis by (simp add: pos_divide_le_eq)
qed

lemma judge_unit: "0 \<le> jd_overall_score (parse_judge_response s rubric) \<and> jd_overall_score (parse_judge_response s rubric) \<le> 1
    \<and> list_all (\<lambda>(k, v). 0 \<le> v \<and> v \<le> 1) (jd_rubric_scores (parse_judge_response s rubric))"
proof -
  obtain found left where f: "score_scan True s = (found, left)" by (rule prod.exhaust)
  let ?parsed = "map_of (rev (filter (\<lambda>(i, x). 0 \<le> x \<and> x \<le> 1) found))"
  let ?scores = "score_items ?parsed 1 rubric []"
  have unit: "0 \<le> x \<and> x \<le> 1" if p: "?parsed i = Some x" for i x using map_of_SomeD [OF p] by auto
  have u: "list_all (\<lambda>(k, v). 0 \<le> v \<and> v \<le> 1) ?scores" by (rule score_items_unit, erule unit) simp
  then have "list_all (\<lambda>x. 0 \<le> x \<and> x \<le> 1) (vals ?scores)" by (auto simp: list_all_iff)
  then have m: "vals ?scores \<noteq> [] \<Longrightarrow> 0 \<le> sum_list (vals ?scores) / of_nat (length (vals ?scores))
      \<and> sum_list (vals ?scores) / of_nat (length (vals ?scores)) \<le> 1" by (rule mean_unit)
  have "jd_overall_score (parse_judge_response s rubric) = (if ?scores = [] then 0 else sum_list (vals ?scores) / of_nat (length ?scores))"
      "jd_rubric_scores (parse_judge_response s rubric) = ?scores"
    by (simp_all only: parse_judge_response_def f Let_def prod.case judge_result.simps)
  then show ?thesis using m u by (cases "?scores = []") simp_all
qed

text \<open>
  C31: Whatever the models answer, a report that is produced has one result for each entry chosen, in order, and all of its
  scores and means lie between 0 and 1.
\<close>

theorem eval_report_unit:
  assumes "eval_run env golden caller_id version w = (Inr rep, w')"
  shows "map er_entry_id (ep_per_entry rep) = map ge_id (filter (\<lambda>e. caller_id = None \<or> caller_id = Some (ge_caller_id e)) golden)
    \<and> 0 \<le> ep_overall_mean rep \<and> ep_overall_mean rep \<le> 1
    \<and> list_all (\<lambda>r. 0 \<le> er_overall_score r \<and> er_overall_score r \<le> 1) (ep_per_entry rep)"
proof -
  let ?entries = "filter (\<lambda>e. caller_id = None \<or> caller_id = Some (ge_caller_id e)) golden"
  have entries: "(case caller_id of None \<Rightarrow> golden | Some c \<Rightarrow> filter (\<lambda>e. ge_caller_id e = c) golden) = ?entries"
    by (cases caller_id) (auto intro: filter_cong)
  have one: "er_entry_id r = ge_id e \<and> 0 \<le> er_overall_score r \<and> er_overall_score r \<le> 1"
    if "run_one env version e w1 = (Inr r, w2)" for e r w1 w2
    using that judge_unit by (auto simp: run_one_def Let_def split: prod.splits sum.splits)
  have all: "run_entries env version es w1 = (Inr rs, w2) \<Longrightarrow>
      map er_entry_id rs = map ge_id es \<and> list_all (\<lambda>r. 0 \<le> er_overall_score r \<and> er_overall_score r \<le> 1) rs" for es rs w1 w2
  proof (induction es arbitrary: rs w1)
    case (Cons e es)
    then obtain r w3 rs' where "run_one env version e w1 = (Inr r, w3)" "run_entries env version es w3 = (Inr rs', w2)" "rs = r # rs'"
      by (auto split: prod.splits sum.splits)
    then show ?case using one Cons.IH by simp
  qed simp
  obtain results where res: "run_entries env version ?entries w = (Inr results, w')"
      and rep: "ep_per_entry rep = results" "ep_overall_mean rep = mean_of (map er_overall_score results)"
    using assms unfolding eval_run_def entries Let_def by (auto split: prod.splits sum.splits)
  have "0 \<le> mean_of (map er_overall_score results) \<and> mean_of (map er_overall_score results) \<le> 1"
    using all [OF res] mean_unit [of "map er_overall_score results"] by (auto simp: mean_of_def list_all_iff)
  then show ?thesis using all [OF res] by (simp add: rep)
qed

definition echo_eval :: "unit eval_env" where
  "echo_eval =
     \<lparr>ee_get = (\<lambda>caller version vars w. (Inr \<lparr>rd_caller_id = caller, rd_version = ''1.0.0'', rd_tier = ''pro'', rd_system = None,
          rd_user = ''Rank.'', rd_path = []\<rparr>, w)),
      ee_chat = (\<lambda>caller messages tier w. (Inr ''1: 0.8'', w)), ee_str = (\<lambda>v. [])\<rparr>"

definition sample_entry :: golden_entry where
  "sample_entry = \<lparr>ge_id = ''g1'', ge_caller_id = ''intel.synth'', ge_inputs = [], ge_rubric = [''cites its sources'']\<rparr>"

theorem eval_report_unit_witness:
  "\<exists>rep. eval_run echo_eval [sample_entry] None None () = (Inr rep, ()) \<and> map er_entry_id (ep_per_entry rep) = [''g1'']
     \<and> ep_overall_mean rep \<le> 1"
proof -
  obtain rep where rep: "eval_run echo_eval [sample_entry] None None () = (Inr rep, ())"
    by (simp add: eval_run_def run_one_def echo_eval_def Let_def)
  from eval_report_unit [OF rep] rep show ?thesis by (auto simp: sample_entry_def)
qed

end
