(* ===== verification/NotifyAdapters.thy ===== *)
theory NotifyAdapters
  imports SecretaryText
begin

text \<open>
  The channels of the notifier (\<^verbatim>\<open>packages/notifier/notifier/\<close>): the markdown normaliser
  (\<^verbatim>\<open>markdown_normalizer.py\<close>, its regular expressions written out) and the five adapters
  (\<^verbatim>\<open>adapters/\<close>). A text is a list of code points; HTTP, SMTP, the clock and the pauses are
  operations on a world.
\<close>

section \<open>Normalising markdown\<close>

definition DEFAULT_MAX_CHARS :: nat where
  "DEFAULT_MAX_CHARS = 4096"

definition TRUNCATE_SUFFIX_EN :: utext where
  "TRUNCATE_SUFFIX_EN = [10, 10, 8230] @ ut ''more on dashboard '' @ [8594, 32]"

definition TRUNCATE_SUFFIX_ZH :: utext where
  "TRUNCATE_SUFFIX_ZH = [10, 10, 8230, 26356, 22810, 35265, 20202, 34920, 26495, 32, 8594, 32]"

text \<open>\<open><[^>]+>\<close>.\<close>

function drop_tags :: "utext \<Rightarrow> utext" where
  "drop_tags [] = []"
| "drop_tags (c # s) =
     (if c = 60 \<and> takeWhile (\<lambda>x. x \<noteq> 62) s \<noteq> [] \<and> dropWhile (\<lambda>x. x \<noteq> 62) s \<noteq> []
      then drop_tags (tl (dropWhile (\<lambda>x. x \<noteq> 62) s))
      else c # drop_tags s)"
  by pat_completeness auto
termination
  by (relation "measure length") (auto simp: less_Suc_eq_le intro: le_trans [OF diff_le_self length_dropWhile_le])

text \<open>
  \<open>sub\<close> of an expression that starts at a line: \<open>m\<close> gives the replacement and the rest of the text at a
  match. A line starts at the beginning and after a newline.
\<close>

function line_sub :: "(utext \<Rightarrow> (utext \<times> utext) option) \<Rightarrow> bool \<Rightarrow> utext \<Rightarrow> utext" where
  "line_sub m bol [] = []"
| "line_sub m bol (c # s) =
     (case (if bol then m (c # s) else None) of
        Some (rep, rest) \<Rightarrow>
          if length rest < length (c # s)
          then rep @ line_sub m ((c # s) ! (length (c # s) - length rest - 1) = 10) rest
          else c # line_sub m (c = 10) s
      | None \<Rightarrow> c # line_sub m (c = 10) s)"
  by pat_completeness auto
termination by (relation "measure (length \<circ> snd \<circ> snd)") auto

definition rest_of_line :: "utext \<Rightarrow> utext \<times> utext" where
  "rest_of_line s = (takeWhile (\<lambda>c. c \<noteq> 10) s, dropWhile (\<lambda>c. c \<noteq> 10) s)"

definition bold :: "utext \<Rightarrow> utext" where
  "bold s = [42, 42] @ s @ [42, 42]"

text \<open>\<open>^(#{3,6})\s+(.*)$\<close>.\<close>

definition heading_match :: "utext \<Rightarrow> (utext \<times> utext) option" where
  "heading_match s =
     (let n = length (takeWhile (\<lambda>c. c = 35) s); r = drop n s in
      if 3 \<le> n \<and> n \<le> 6 \<and> takeWhile uspace r \<noteq> []
      then (case rest_of_line (dropWhile uspace r) of (g, rest) \<Rightarrow> Some (bold (ustrip g), rest))
      else None)"

text \<open>\<open>^>\s?(.*)$\<close>.\<close>

definition quote_match :: "utext \<Rightarrow> (utext \<times> utext) option" where
  "quote_match s =
     (if s \<noteq> [] \<and> hd s = 62
      then (case rest_of_line (if tl s \<noteq> [] \<and> uspace (hd (tl s)) then tl (tl s) else tl s) of (g, rest) \<Rightarrow> Some (bold (ustrip g), rest))
      else None)"

text \<open>\<open>^( {2,})([-*+]\s)\<close>.\<close>

definition indent_match :: "utext \<Rightarrow> (utext \<times> utext) option" where
  "indent_match s =
     (let n = length (takeWhile (\<lambda>c. c = 32) s); r = drop n s in
      if 2 \<le> n \<and> 2 \<le> length r \<and> hd r \<in> {45, 42, 43} \<and> uspace (r ! 1)
      then Some (replicate (2 * min (n div 2) 2) 32 @ take 2 r, drop 2 r)
      else None)"

text \<open>\<open>__([^_]+)__\<close>.\<close>

function star_bold :: "utext \<Rightarrow> utext" where
  "star_bold [] = []"
| "star_bold (c # s) =
     (let w = takeWhile (\<lambda>x. x \<noteq> 95) (tl s); r = dropWhile (\<lambda>x. x \<noteq> 95) (tl s) in
      if c = 95 \<and> s \<noteq> [] \<and> hd s = 95 \<and> w \<noteq> [] \<and> take 2 r = [95, 95]
      then bold w @ star_bold (drop 2 r)
      else c # star_bold s)"
  by pat_completeness auto
termination
proof (relation "measure length")
  fix c :: nat and s w r :: utext
  assume "r = dropWhile (\<lambda>x. x \<noteq> 95) (tl s)"
  then have "length r \<le> length s"
    using length_dropWhile_le [of "\<lambda>x. x \<noteq> 95" "tl s"] by simp
  then show "(drop 2 r, c # s) \<in> measure length"
    by simp
qed auto

definition truncate_chars :: "utext \<Rightarrow> nat \<Rightarrow> string \<Rightarrow> utext \<Rightarrow> utext" where
  "truncate_chars s max_chars language dashboard_url =
     (if length s \<le> max_chars then s
      else let suffix = (if language = ''zh'' then TRUNCATE_SUFFIX_ZH else TRUNCATE_SUFFIX_EN);
               suffix_full = (if dashboard_url \<noteq> [] then suffix @ dashboard_url
                              else rev (dropWhile (\<lambda>c. c = 32) (rev suffix)))
           in if max_chars \<le> length suffix_full then take max_chars s
              else urstrip (take (max_chars - length suffix_full) s) @ suffix_full)"

definition clean :: "utext \<Rightarrow> string \<Rightarrow> nat \<Rightarrow> utext \<Rightarrow> utext" where
  "clean s language max_chars dashboard_url =
     truncate_chars
       (star_bold (line_sub indent_match True (line_sub quote_match True (line_sub heading_match True (drop_tags s)))))
       max_chars language dashboard_url"

section \<open>HTTP\<close>

datatype req_body = BotBody utext "string list" | AppBody string string utext | FormBody utext utext | TextBody utext | NoBody

record http_req =
  rq_url :: string
  rq_params :: "(string \<times> string) list"
  rq_headers :: "(string \<times> string) list"
  rq_body :: req_body

text \<open>A transport error of httpx, or a status with the text of the answer.\<close>

datatype http_resp = TransportError string | Status nat string

text \<open>What the answer of the token endpoint says: the exception of \<open>resp.json()\<close> or of \<open>.get\<close>, no token, a token.\<close>

datatype token_answer = NotJson string | NoToken string | Token string

record 'w wires =
  wi_call :: "http_req \<Rightarrow> 'w \<Rightarrow> http_resp \<times> 'w"
  wi_pause :: "seconds \<Rightarrow> 'w \<Rightarrow> 'w"
  wi_clock :: "'w \<Rightarrow> seconds"
  wi_token :: "string \<Rightarrow> token_answer"

definition markdown_of :: "notification \<Rightarrow> utext" where
  "markdown_of n = ut (n_markdown n)"

section \<open>The WeCom bot\<close>

definition WEBHOOK_BASE :: string where
  "WEBHOOK_BASE = ''https://qyapi.weixin.qq.com/cgi-bin/webhook/send''"

definition bot_request :: "string \<Rightarrow> notification \<Rightarrow> http_req" where
  "bot_request key n =
     \<lparr>rq_url = WEBHOOK_BASE @ ''?key='' @ key, rq_params = [], rq_headers = [],
      rq_body = BotBody (clean (markdown_of n) (n_language n) DEFAULT_MAX_CHARS []) (case n_mentioned n of None \<Rightarrow> [] | Some l \<Rightarrow> l)\<rparr>"

definition retry_pause :: "nat \<Rightarrow> seconds" where
  "retry_pause attempt = 1 / 2 * 2 ^ attempt"

text \<open>The loop over the attempts; \<open>left\<close> is how many are left after this one.\<close>

fun post_with_retry :: "'w wires \<Rightarrow> http_req \<Rightarrow> nat \<Rightarrow> nat \<Rightarrow> 'w \<Rightarrow> send_result \<times> 'w" where
  "post_with_retry net req attempt left w =
     (case wi_call net req w of
        (TransportError e, w1) \<Rightarrow>
          (case left of
             0 \<Rightarrow> (SendDown (''wecom_bot transport: '' @ e), w1)
           | Suc k \<Rightarrow> post_with_retry net req (attempt + 1) k (wi_pause net (retry_pause attempt) w1))
      | (Status code answer, w1) \<Rightarrow>
          if code = 429 then (SendRateLimit ''wecom_bot 429'', w1)
          else if 500 \<le> code
          then (case left of
                  0 \<Rightarrow> (SendDown (''wecom_bot '' @ show_nat code), w1)
                | Suc k \<Rightarrow> post_with_retry net req (attempt + 1) k (wi_pause net (retry_pause attempt) w1))
          else if 400 \<le> code then (SendRejected (''wecom_bot '' @ show_nat code @ '': '' @ take 200 answer), w1)
          else (SendOk, w1))"

declare post_with_retry.simps [simp del]

definition bot_send :: "'w wires \<Rightarrow> (string, string) dict \<Rightarrow> nat \<Rightarrow> notification \<Rightarrow> 'w \<Rightarrow> send_result \<times> 'w" where
  "bot_send net bot_keys max_retries n w =
     (let channel = channel_value (n_channel n) in
      if channel = ''chat'' then (SendRejected (''wecom_bot does not handle '' @ [CHR 0x27] @ ''chat'' @ [CHR 0x27] @ '' channel''), w)
      else case map_of bot_keys channel of
             Some (c # key) \<Rightarrow> post_with_retry net (bot_request (c # key) n) 0 max_retries w
           | _ \<Rightarrow> (SendRejected (''no webhook key for channel='' @ channel), w))"

definition bot_keys_from_env :: "(string \<Rightarrow> string option) \<Rightarrow> (string, string) dict" where
  "bot_keys_from_env env =
     List.map_filter (\<lambda>channel. case env (''WECOM_BOT_'' @ upper channel @ ''_KEY'') of
        Some (c # key) \<Rightarrow> Some (channel, c # key) | _ \<Rightarrow> None) [''briefs'', ''alerts'', ''fills'']"

section \<open>The WeCom app\<close>

definition TOKEN_URL :: string where
  "TOKEN_URL = ''https://qyapi.weixin.qq.com/cgi-bin/gettoken''"

definition SEND_URL :: string where
  "SEND_URL = ''https://qyapi.weixin.qq.com/cgi-bin/message/send''"

definition TOKEN_TTL_S :: seconds where
  "TOKEN_TTL_S = 7000"

record wecom_app =
  wa_corp_id :: string
  wa_agent_id :: string
  wa_secret :: string
  wa_token :: "string option"
  wa_fetched_at :: seconds

definition token_fresh :: "wecom_app \<Rightarrow> seconds \<Rightarrow> bool" where
  "token_fresh a now \<longleftrightarrow> (case wa_token a of Some (c # t) \<Rightarrow> now - wa_fetched_at a < TOKEN_TTL_S | _ \<Rightarrow> False)"

text \<open>\<open>wi_token\<close> reads the access token from the JSON of an answer; a transport error of the request is not caught.\<close>

definition access_token :: "'w wires \<Rightarrow> wecom_app \<Rightarrow> 'w \<Rightarrow> (send_result + string) \<times> wecom_app \<times> 'w" where
  "access_token net a w =
     (if token_fresh a (wi_clock net w) then (Inr (the (wa_token a)), a, w)
      else case wi_call net \<lparr>rq_url = TOKEN_URL, rq_params = [(''corpid'', wa_corp_id a), (''corpsecret'', wa_secret a)],
                             rq_headers = [], rq_body = NoBody\<rparr> w of
             (TransportError e, w1) \<Rightarrow> (Inl (SendError e), a, w1)
           | (Status code answer, w1) \<Rightarrow>
               if code \<noteq> 200 then (Inl (SendDown (''wecom_app token http '' @ show_nat code)), a, w1)
               else (case wi_token net answer of
                       NotJson e \<Rightarrow> (Inl (SendError e), a, w1)
                     | NoToken payload \<Rightarrow> (Inl (SendDown (''wecom_app token: '' @ payload)), a, w1)
                     | Token t \<Rightarrow> (Inr t, a\<lparr>wa_token := Some t, wa_fetched_at := wi_clock net w1\<rparr>, w1)))"

definition app_send :: "'w wires \<Rightarrow> notification \<Rightarrow> wecom_app \<times> 'w \<Rightarrow> send_result \<times> wecom_app \<times> 'w" where
  "app_send net n st =
     (let (a, w) = st in
      case n_target n of
        Some (c # user) \<Rightarrow>
          if n_channel n \<noteq> CHAT then (SendRejected ''wecom_app only handles the chat channel'', a, w)
          else if wa_corp_id a = [] \<or> wa_agent_id a = [] \<or> wa_secret a = []
          then (SendRejected ''wecom_app missing corp_id/agent_id/app_secret'', a, w)
          else (case access_token net a w of
                  (Inl r, a1, w1) \<Rightarrow> (r, a1, w1)
                | (Inr token, a1, w1) \<Rightarrow>
                    (case wi_call net \<lparr>rq_url = SEND_URL, rq_params = [(''access_token'', token)], rq_headers = [],
                              rq_body = AppBody (c # user) (wa_agent_id a) (clean (markdown_of n) (n_language n) DEFAULT_MAX_CHARS [])\<rparr> w1 of
                       (TransportError e, w2) \<Rightarrow> (SendDown (''wecom_app transport: '' @ e), a1, w2)
                     | (Status code answer, w2) \<Rightarrow>
                         (if 500 \<le> code then SendDown (''wecom_app '' @ show_nat code)
                          else if 400 \<le> code then SendRejected (''wecom_app '' @ show_nat code @ '': '' @ take 200 answer)
                          else SendOk, a1, w2)))
      | _ \<Rightarrow> (SendRejected ''wecom_app requires Notification.target_user'', a, w))"

section \<open>ServerChan and ntfy\<close>

definition BODY_LIMIT :: nat where
  "BODY_LIMIT = 32000"

definition title_prefix :: "notification \<Rightarrow> utext" where
  "title_prefix n =
     (let urgent = n_severity n \<in> {ALERT, CRITICAL} in
      if n_language n = ''zh'' then (if urgent then [12304, 25552, 37266, 12305] else [12304, 31616, 25253, 12305])
      else ut (if urgent then ''[ALERT] '' else ''[BRIEF] ''))"

definition headline :: "notification \<Rightarrow> utext" where
  "headline n =
     (let s = strip (n_markdown n);
          first_line = (if s = [] then ''IIC'' else hd (splitlines s))
      in ut (take 30 (strip (dropWhile (\<lambda>c. c = CHR ''#'' \<or> c = CHR '' '') first_line))))"

definition sc_title :: "notification \<Rightarrow> utext" where
  "sc_title n = title_prefix n @ headline n"

definition sc_send :: "'w wires \<Rightarrow> string \<Rightarrow> notification \<Rightarrow> 'w \<Rightarrow> send_result \<times> 'w" where
  "sc_send net sendkey n w =
     (if sendkey = [] then (SendRejected ''serverchan: SERVERCHAN_SENDKEY not configured'', w)
      else case wi_call net \<lparr>rq_url = ''https://sctapi.ftqq.com/'' @ sendkey @ ''.send'', rq_params = [],
                 rq_headers = [(''Content-Type'', ''application/x-www-form-urlencoded; charset=utf-8'')],
                 rq_body = FormBody (sc_title n) (take BODY_LIMIT (markdown_of n))\<rparr> w of
             (TransportError e, w1) \<Rightarrow> (SendDown (''serverchan transport: '' @ e), w1)
           | (Status code answer, w1) \<Rightarrow>
               (if 500 \<le> code then SendDown (''serverchan '' @ show_nat code)
                else if 400 \<le> code then SendRejected (''serverchan '' @ show_nat code @ '': '' @ take 200 answer)
                else SendOk, w1))"

fun priority_header :: "severity \<Rightarrow> string" where
  "priority_header INFO = ''default''"
| "priority_header WARN = ''high''"
| "priority_header ALERT = ''high''"
| "priority_header CRITICAL = ''urgent''"

definition ntfy_send :: "'w wires \<Rightarrow> string \<Rightarrow> string \<Rightarrow> notification \<Rightarrow> 'w \<Rightarrow> send_result \<times> 'w" where
  "ntfy_send net base_url topic_prefix n w =
     (case wi_call net \<lparr>rq_url = rev (dropWhile (\<lambda>c. c = CHR ''/'') (rev base_url)) @ ''/'' @ topic_prefix @ ''-'' @ channel_value (n_channel n),
             rq_params = [], rq_headers = [(''Content-Type'', ''text/markdown; charset=utf-8''), (''Title'', ''IIC''),
               (''Priority'', priority_header (n_severity n))],
             rq_body = TextBody (markdown_of n)\<rparr> w of
        (TransportError e, w1) \<Rightarrow> (SendDown (''ntfy transport: '' @ e), w1)
      | (Status code answer, w1) \<Rightarrow> (if 500 \<le> code then SendDown (''ntfy '' @ show_nat code) else SendOk, w1))"

section \<open>SMTP\<close>

text \<open>\<open>s.replace(c, r)\<close> of a single character.\<close>

definition replace_char :: "char \<Rightarrow> string \<Rightarrow> string \<Rightarrow> string" where
  "replace_char c r s = concat (map (\<lambda>d. if d = c then r else [d]) s)"

definition escape_html :: "string \<Rightarrow> string" where
  "escape_html s = replace_char CHR ''>'' ''&gt;'' (replace_char CHR ''<'' ''&lt;'' (replace_char CHR ''&'' ''&amp;'' s))"

definition html_line :: "string \<Rightarrow> string" where
  "html_line line =
     (let s = strip line in
      if starts_with ''# '' s then ''<h1>'' @ escape_html (drop 2 s) @ ''</h1>''
      else if starts_with ''## '' s then ''<h2>'' @ escape_html (drop 3 s) @ ''</h2>''
      else if starts_with ''- '' s then ''<li>'' @ escape_html (drop 2 s) @ ''</li>''
      else ''<p>'' @ escape_html s @ ''</p>'')"

definition markdown_to_html :: "string \<Rightarrow> string" where
  "markdown_to_html s = ''<html><body>'' @ join_with [CHR 0x0A] (map html_line (splitlines s)) @ ''</body></html>''"

record email =
  em_subject :: string
  em_from :: string
  em_to :: string
  em_text :: string
  em_html :: string

record smtp_cfg =
  sm_host :: string
  sm_sender :: string
  sm_recipient :: string

definition build_message :: "smtp_cfg \<Rightarrow> notification \<Rightarrow> email" where
  "build_message c n =
     \<lparr>em_subject = ''[IIC '' @ severity_value (n_severity n) @ ''/'' @ channel_value (n_channel n) @ '']'', em_from = sm_sender c,
      em_to = sm_recipient c, em_text = n_markdown n, em_html = markdown_to_html (n_markdown n)\<rparr>"

text \<open>\<open>deliver\<close> opens the connection, sends and closes: a transport error is caught, another exception is not.\<close>

datatype smtp_out = Mailed | MailTransport string | MailRaises string

definition smtp_send :: "(email \<Rightarrow> 'w \<Rightarrow> smtp_out \<times> 'w) \<Rightarrow> smtp_cfg \<Rightarrow> notification \<Rightarrow> 'w \<Rightarrow> send_result \<times> 'w" where
  "smtp_send deliver c n w =
     (if sm_host c = [] \<or> sm_sender c = [] \<or> sm_recipient c = [] then (SendRejected ''smtp: missing host/from/to'', w)
      else case deliver (build_message c n) w of
             (Mailed, w1) \<Rightarrow> (SendOk, w1)
           | (MailTransport e, w1) \<Rightarrow> (SendDown (''smtp transport: '' @ e), w1)
           | (MailRaises e, w1) \<Rightarrow> (SendError e, w1))"

section \<open>Lemmas\<close>

lemma urstrip_length: "length (urstrip s) \<le> length s"
  by (rule prefix_length_le [OF urstrip_prefix])

lemma truncate_fits: "length (truncate_chars s m l u) \<le> m"
  using urstrip_length [of "take (m - k) s" for k]
  by (auto simp: truncate_chars_def Let_def not_le intro!: le_trans [OF add_right_mono [OF urstrip_length]])

lemma drop_tags_subset: "set (drop_tags s) \<subseteq> set s"
proof (induction s rule: drop_tags.induct)
  case (2 c s)
  have "set (tl (dropWhile (\<lambda>x. x \<noteq> 62) s)) \<subseteq> set s"
    by (rule set_mono_suffix [OF suffix_order.trans [OF suffix_tl suffix_dropWhile]])
  then show ?case using 2 by auto
qed simp

lemma drop_tags_after: "s = [] \<or> hd s = 62 \<Longrightarrow> drop_tags s = [] \<or> hd (drop_tags s) = 62"
  by (cases s) auto

lemma drop_tags_idem: "drop_tags (drop_tags s) = drop_tags s"
proof (induction s rule: drop_tags.induct)
  case (2 c s)
  show ?case
  proof (cases "c = 60 \<and> takeWhile (\<lambda>x. x \<noteq> 62) s \<noteq> [] \<and> dropWhile (\<lambda>x. x \<noteq> 62) s \<noteq> []")
    case False
    have no_tag: "\<not> (c = 60 \<and> takeWhile (\<lambda>x. x \<noteq> 62) (drop_tags s) \<noteq> [] \<and> dropWhile (\<lambda>x. x \<noteq> 62) (drop_tags s) \<noteq> [])"
      using False drop_tags_after [of s] drop_tags_subset [of s]
      by (auto simp: takeWhile_eq_Nil_iff dropWhile_eq_Nil_conv)
    have "drop_tags (c # s) = c # drop_tags s"
      by (subst drop_tags.simps(2)) (simp only: False if_False)
    moreover have "drop_tags (c # drop_tags s) = c # drop_tags (drop_tags s)"
      by (subst drop_tags.simps(2)) (simp only: no_tag if_False)
    ultimately show ?thesis using "2.IH"(2) False by simp
  qed (use 2 in simp)
qed simp

subsection \<open>Retries of the bot\<close>

text \<open>Scripted answers: the world is the answers still to come and the pauses made so far.\<close>

definition scripted :: "(http_resp list \<times> seconds list) wires" where
  "scripted =
     \<lparr>wi_call = (\<lambda>_ w. (hd (fst w), (tl (fst w), snd w))), wi_pause = (\<lambda>d w. (fst w, snd w @ [d])),
      wi_clock = (\<lambda>_. 0), wi_token = NotJson\<rparr>"

text \<open>The answers that settle a delivery at once, and what an answer means when no attempt is left.\<close>

fun conclusive :: "http_resp \<Rightarrow> bool" where
  "conclusive (TransportError e) \<longleftrightarrow> False"
| "conclusive (Status code answer) \<longleftrightarrow> code < 500"

fun verdict :: "http_resp \<Rightarrow> send_result" where
  "verdict (TransportError e) = SendDown (''wecom_bot transport: '' @ e)"
| "verdict (Status code answer) =
     (if code = 429 then SendRateLimit ''wecom_bot 429''
      else if 500 \<le> code then SendDown (''wecom_bot '' @ show_nat code)
      else if 400 \<le> code then SendRejected (''wecom_bot '' @ show_nat code @ '': '' @ take 200 answer)
      else SendOk)"

text \<open>The number of attempts: up to the first conclusive answer, all of them when there is none.\<close>

definition tries :: "nat \<Rightarrow> http_resp list \<Rightarrow> nat" where
  "tries left rs = min left (length (takeWhile (\<lambda>r. \<not> conclusive r) rs))"

lemma tries_Cons: "tries (Suc k) (r # rs) = (if conclusive r then 0 else Suc (tries k rs))"
  by (simp add: tries_def)

lemma scripted_step:
  "post_with_retry scripted req a left (r # rs, ps) =
     (if conclusive r \<or> left = 0 then (verdict r, (rs, ps))
      else post_with_retry scripted req (Suc a) (left - 1) (rs, ps @ [retry_pause a]))"
  by (subst post_with_retry.simps)
    (auto simp: scripted_def split: http_resp.split nat.split)

lemma scripted_run:
  assumes "left < length rs"
  shows "post_with_retry scripted req a left (rs, ps) =
     (verdict (rs ! tries left rs), (drop (Suc (tries left rs)) rs, ps @ map retry_pause [a..<a + tries left rs]))"
  using assms
proof (induction left arbitrary: a rs ps)
  case 0
  then obtain r rs' where "rs = r # rs'" by (cases rs) auto
  then show ?case by (simp add: scripted_step tries_def)
next
  case (Suc k)
  then obtain r rs' where rs: "rs = r # rs'" and len: "k < length rs'" by (cases rs) auto
  show ?case
  proof (cases "conclusive r")
    case False
    then show ?thesis
      using Suc.IH [OF len, of "Suc a" "ps @ [retry_pause a]"]
      by (simp add: rs scripted_step tries_Cons upt_conv_Cons del: upt_Suc)
  qed (simp add: rs scripted_step tries_Cons)
qed

section \<open>Properties\<close>

text \<open>
  a normalised message never exceeds the character limit, whatever the text, the language and the
  dashboard link, and taking the tags out is idempotent.
\<close>

theorem clean_fits: "length (clean s language m url) \<le> m \<and> drop_tags (drop_tags s) = drop_tags s"
  by (simp add: clean_def truncate_fits drop_tags_idem)

text \<open>
  C33: Against scripted answers the bot makes one attempt more than its retries at most, stops at the first
  conclusive answer and reports its verdict, reports the last failure when there is none, and pauses half a
  second, one second, two seconds and so on, each pause twice the one before, between the attempts.
\<close>

theorem bot_retries:
  assumes "left < length rs"
  shows "post_with_retry scripted req 0 left (rs, []) =
    (let n = min left (length (takeWhile (\<lambda>r. \<not> conclusive r) rs)) in
     (verdict (rs ! n), (drop (Suc n) rs, map (\<lambda>i. 1 / 2 * 2 ^ i) [0..<n])))"
  using scripted_run [OF assms, of req 0 "[]"] by (simp add: tries_def retry_pause_def Let_def cong: map_cong)

lemma bot_retries_witness:
  "post_with_retry scripted \<lparr>rq_url = [], rq_params = [], rq_headers = [], rq_body = NoBody\<rparr> 0 1
     ([Status 502 [], Status 200 [], Status 200 []], []) = (SendOk, ([Status 200 []], [1 / 2]))"
  using bot_retries [of 1 "[Status 502 [], Status 200 [], Status 200 []]"] by simp



lemma replace_char_simps [simp]: "replace_char c r [] = []" "replace_char c r (d # s) = (if d = c then r else [d]) @ replace_char c r s"
  by (simp_all add: replace_char_def)





text \<open>
  ntfy counts every answer below 500 as a delivery: a message the server refused with a 4xx is reported
  as sent, where every other channel rejects it.
\<close>

theorem ntfy_accepts_client_errors:
  assumes "wi_call net (\<lparr>rq_url = rev (dropWhile (\<lambda>c. c = CHR ''/'') (rev base)) @ ''/'' @ tp @ ''-'' @ channel_value (n_channel n),
      rq_params = [], rq_headers = [(''Content-Type'', ''text/markdown; charset=utf-8''), (''Title'', ''IIC''),
        (''Priority'', priority_header (n_severity n))], rq_body = TextBody (markdown_of n)\<rparr>) w = (Status code answer, w1)"
  shows "fst (ntfy_send net base tp n w) = SendOk \<longleftrightarrow> code < 500"
  using assms by (simp add: ntfy_send_def)

definition refusing :: "unit wires" where
  "refusing = \<lparr>wi_call = (\<lambda>_ w. (Status 413 [], w)), wi_pause = (\<lambda>_ w. w), wi_clock = (\<lambda>_. 0), wi_token = NotJson\<rparr>"

lemma ntfy_accepts_client_errors_witness:
  "fst (ntfy_send refusing ''http://ntfy'' ''iic''
     \<lparr>n_severity = ALERT, n_channel = ALERTS, n_markdown = ''x'', n_language = ''en'', n_mentioned = None, n_target = None\<rparr> ()) = SendOk"
  by (subst ntfy_accepts_client_errors [where code = 413 and answer = "[]" and ?w1.0 = "()"]) (simp_all add: refusing_def)

text \<open>
  the application adapter asks for a token only when it has none younger than 7000 seconds; a delivery
  refused because of the token keeps that token, so the next one within the period is sent with it again.
\<close>

theorem app_keeps_refused_token:
  assumes "token_fresh a (wi_clock net w)"
    and "wi_call net \<lparr>rq_url = SEND_URL, rq_params = [(''access_token'', the (wa_token a))], rq_headers = [],
           rq_body = AppBody user (wa_agent_id a) (clean (markdown_of n) (n_language n) DEFAULT_MAX_CHARS [])\<rparr> w = (Status 401 answer, w2)"
    and "n_target n = Some user" and "user \<noteq> []" and "n_channel n = CHAT"
    and "wa_corp_id a \<noteq> []" and "wa_agent_id a \<noteq> []" and "wa_secret a \<noteq> []"
  shows "\<exists>why. app_send net n (a, w) = (SendRejected why, a, w2)"
  using assms by (cases user) (auto simp: app_send_def access_token_def)

definition unauthorised :: "unit wires" where
  "unauthorised = \<lparr>wi_call = (\<lambda>_ w. (Status 401 [], w)), wi_pause = (\<lambda>_ w. w), wi_clock = (\<lambda>_. 0), wi_token = NotJson\<rparr>"

lemma app_keeps_refused_token_witness:
  "\<exists>why. app_send unauthorised
     \<lparr>n_severity = INFO, n_channel = CHAT, n_markdown = ''x'', n_language = ''en'', n_mentioned = None, n_target = Some ''u''\<rparr>
     (\<lparr>wa_corp_id = ''c'', wa_agent_id = ''a'', wa_secret = ''s'', wa_token = Some ''t'', wa_fetched_at = 0\<rparr>, ()) =
     (SendRejected why, \<lparr>wa_corp_id = ''c'', wa_agent_id = ''a'', wa_secret = ''s'', wa_token = Some ''t'', wa_fetched_at = 0\<rparr>, ())"
  by (rule app_keeps_refused_token [where user = "''u''" and answer = "[]"])
    (simp_all add: unauthorised_def token_fresh_def TOKEN_TTL_S_def)

text \<open>
  a ServerChan title has 32 characters at most exactly when its headline leaves room for the prefix; a
  headline of 30 characters gives a title of 38 in English and 34 in Chinese.
\<close>

theorem sc_title_cap:
  "length (sc_title n) \<le> 32 \<longleftrightarrow> length (headline n) \<le> (if n_language n = ''zh'' then 28 else 24)"
  by (simp add: sc_title_def title_prefix_def ut_def Let_def)

text \<open>Code spans are not kept as they are: a generic type in one loses its parameter.\<close>

lemma code_span_changed: "clean (ut ''`a<b>c`'') ''en'' DEFAULT_MAX_CHARS [] = ut ''`ac`''"
  by code_simp

end
