(* ===== verification/LlmBootstrap.thy ===== *)
theory LlmBootstrap
  imports LlmRouter
begin

text \<open>
  How a service gets its router (\<^verbatim>\<open>packages/llm-client/llm_client/\<close>): construction from the environment and
  the lifespan hook (\<^verbatim>\<open>bootstrap.py\<close>), the caps of the meter (\<^verbatim>\<open>cost_meter.py\<close>), the process-wide
  router with the module-level calls (\<^verbatim>\<open>router.py\<close>), and the rows the Postgres sink writes
  (\<^verbatim>\<open>telemetry.py\<close>) against the table of migrations \<^verbatim>\<open>0003\<close> and \<^verbatim>\<open>0006\<close>. \<open>float\<close> of a string
  and the construction of a database engine are parameters.
\<close>

section \<open>The environment\<close>

type_synonym env = "string \<Rightarrow> string option"

text \<open>\<open>if key := os.environ.get(name)\<close> and \<open>os.environ.get(name, default)\<close>.\<close>

definition env_key :: "env \<Rightarrow> string \<Rightarrow> string option" where
  "env_key env name = (case env name of Some v \<Rightarrow> if v = [] then None else Some v | None \<Rightarrow> None)"

definition env_or :: "env \<Rightarrow> string \<Rightarrow> string \<Rightarrow> string" where
  "env_or env name fallback = (case env name of Some v \<Rightarrow> v | None \<Rightarrow> fallback)"

text \<open>
  A cap: \<open>to_float\<close> is \<open>float\<close> of the text, \<open>None\<close> for a \<open>ValueError\<close> and \<open>Some None\<close> for an infinite
  number. The default caps are infinite.
\<close>

definition env_cap :: "(string \<Rightarrow> usd option option) \<Rightarrow> env \<Rightarrow> string \<Rightarrow> usd option" where
  "env_cap to_float env name =
     (case env_key env name of None \<Rightarrow> None | Some raw \<Rightarrow> (case to_float raw of None \<Rightarrow> None | Some c \<Rightarrow> c))"

section \<open>Construction from the environment\<close>

datatype adapter_cfg =
  DeepSeekCfg string string string string string
| AnthropicCfg string string
| GroqCfg string string

fun adapter_name :: "adapter_cfg \<Rightarrow> string" where
  "adapter_name (DeepSeekCfg key base pro flash emb) = ''deepseek''"
| "adapter_name (AnthropicCfg key model) = ''anthropic''"
| "adapter_name (GroqCfg key model) = ''groq''"

definition anthropic_of :: "env \<Rightarrow> string \<Rightarrow> adapter_cfg" where
  "anthropic_of env key = AnthropicCfg key (env_or env ''ANTHROPIC_MODEL'' ''claude-sonnet-4-6'')"

definition groq_of :: "env \<Rightarrow> string \<Rightarrow> adapter_cfg" where
  "groq_of env key = GroqCfg key (env_or env ''GROQ_MODEL'' ''llama-3.3-70b-versatile'')"

definition build_primary :: "env \<Rightarrow> adapter_cfg option" where
  "build_primary env =
     (case env_key env ''DEEPSEEK_API_KEY'' of
        Some key \<Rightarrow> Some (DeepSeekCfg key (env_or env ''DEEPSEEK_BASE_URL'' ''https://api.deepseek.com'')
          (env_or env ''DEEPSEEK_MODEL_PRO'' ''deepseek-v4-pro'') (env_or env ''DEEPSEEK_MODEL_FLASH'' ''deepseek-v4-flash'')
          (env_or env ''DEEPSEEK_MODEL_EMBED'' ''deepseek-bge-m3''))
      | None \<Rightarrow> (case env_key env ''ANTHROPIC_API_KEY'' of
          Some key \<Rightarrow> Some (anthropic_of env key)
        | None \<Rightarrow> map_option (groq_of env) (env_key env ''GROQ_API_KEY'')))"

record fallback_chain =
  fc_pro :: "adapter_cfg option"
  fc_flash :: "adapter_cfg option"

definition build_fallback_chain :: "env \<Rightarrow> fallback_chain" where
  "build_fallback_chain env =
     \<lparr>fc_pro = map_option (anthropic_of env) (env_key env ''ANTHROPIC_API_KEY''),
      fc_flash = map_option (groq_of env) (env_key env ''GROQ_API_KEY'')\<rparr>"

text \<open>\<open>engine_ok\<close>: SQLAlchemy can be imported and accepts the DSN.\<close>

datatype tele_sink = NullSink | PostgresSink string

definition build_telemetry_sink :: "(string \<Rightarrow> bool) \<Rightarrow> env \<Rightarrow> tele_sink" where
  "build_telemetry_sink engine_ok env =
     (case env_key env ''LAKE_DSN'' of
        None \<Rightarrow> NullSink
      | Some dsn \<Rightarrow> if engine_ok dsn then PostgresSink dsn else NullSink)"

record llm_service =
  ls_primary :: adapter_cfg
  ls_fallback :: fallback_chain
  ls_meter :: meter_cfg
  ls_sink :: tele_sink

definition default_meter :: "(string \<Rightarrow> usd option option) \<Rightarrow> env \<Rightarrow> meter_cfg" where
  "default_meter to_float env =
     \<lparr>mc_monthly_cap = env_cap to_float env ''LLM_MONTHLY_CAP_USD'', mc_fallback_cap = env_cap to_float env ''LLM_FALLBACK_CAP_USD'',
      mc_soft_fraction = 8 / 10, mc_cooldown = 3600\<rparr>"

record host =
  ho_env :: env
  ho_float :: "string \<Rightarrow> usd option option"
  ho_engine_ok :: "string \<Rightarrow> bool"

definition router_from_env :: "host \<Rightarrow> llm_service option" where
  "router_from_env h =
     map_option (\<lambda>p. \<lparr>ls_primary = p, ls_fallback = build_fallback_chain (ho_env h),
         ls_meter = default_meter (ho_float h) (ho_env h), ls_sink = build_telemetry_sink (ho_engine_ok h) (ho_env h)\<rparr>)
       (build_primary (ho_env h))"

text \<open>A new router: no spend, no cache, nobody in flight.\<close>

definition fresh_router :: router where
  "fresh_router = \<lparr>rt_meter = new_meter, rt_spend = [], rt_cache = Map.empty, rt_tele = [], rt_callers = (\<lambda>_. 0), rt_slots = (\<lambda>_. 0)\<rparr>"

definition service_cfg :: "llm_service \<Rightarrow> router_cfg" where
  "service_cfg v =
     \<lparr>rc_primary_name = adapter_name (ls_primary v), rc_meter = ls_meter v, rc_has_cache = False,
      rc_pro_fallback = (fc_pro (ls_fallback v) \<noteq> None), rc_flash_fallback = (fc_flash (ls_fallback v) \<noteq> None)\<rparr>"

section \<open>The router of the process\<close>

text \<open>\<open>_default_router\<close>: the service's configuration with the state of its router.\<close>

type_synonym process = "(router_cfg \<times> router) option"

definition set_router :: "(router_cfg \<times> router) option \<Rightarrow> process \<Rightarrow> process" where
  "set_router r p = r"

definition get_router :: "process \<Rightarrow> llm_error + router_cfg \<times> router" where
  "get_router p = (case p of
     None \<Rightarrow> Inl (NoLLMAvailable ''no default router configured - call set_router() at app boot'') | Some r \<Rightarrow> Inr r)"

definition current_router :: "process \<Rightarrow> process" where
  "current_router p = p"

definition bootstrap_router_or_die :: "host \<Rightarrow> string \<Rightarrow> process \<Rightarrow> (string + router_cfg \<times> router) \<times> process" where
  "bootstrap_router_or_die h service_name p =
     (case router_from_env h of
        None \<Rightarrow> (Inl (service_name @ '': no LLM provider configured. Set at least one of DEEPSEEK_API_KEY / ANTHROPIC_API_KEY / GROQ_API_KEY in the service environment. See D7.1 H0.''), p)
      | Some v \<Rightarrow> (Inr (service_cfg v, fresh_router), set_router (Some (service_cfg v, fresh_router)) p))"

definition bootstrap_router_optional :: "host \<Rightarrow> process \<Rightarrow> (router_cfg \<times> router) option \<times> process" where
  "bootstrap_router_optional h p =
     (case router_from_env h of
        None \<Rightarrow> (None, p)
      | Some v \<Rightarrow> (Some (service_cfg v, fresh_router), set_router (Some (service_cfg v, fresh_router)) p))"

definition lifespan_bootstrap :: "host \<Rightarrow> string \<Rightarrow> bool \<Rightarrow> process \<Rightarrow> (string + (router_cfg \<times> router) option) \<times> process" where
  "lifespan_bootstrap h service_name strict p =
     (case current_router p of
        Some r \<Rightarrow> (Inr (Some r), p)
      | None \<Rightarrow>
          if strict then (case bootstrap_router_or_die h service_name p of
              (Inl e, q) \<Rightarrow> (Inl e, q) | (Inr r, q) \<Rightarrow> (Inr (Some r), q))
          else (case bootstrap_router_optional h p of (r, q) \<Rightarrow> (Inr r, q)))"

text \<open>The module-level calls go to the router of the process.\<close>

definition module_chat :: "string \<Rightarrow> message list \<Rightarrow> tier option \<Rightarrow> script \<Rightarrow> process \<Rightarrow> chat_response await \<times> process" where
  "module_chat caller_id ms force_tier sc p =
     (case get_router p of
        Inl e \<Rightarrow> (Err e, p)
      | Inr (rc, s) \<Rightarrow> (case chat rc caller_id ms force_tier sc s of (r, s1) \<Rightarrow> (r, set_router (Some (rc, s1)) p)))"

section \<open>The rows of \<open>lake.llm_calls\<close>\<close>

record call_row =
  cr_caller_id :: string
  cr_tier :: string
  cr_model :: string
  cr_prompt_tokens :: int
  cr_completion_tokens :: int
  cr_cost_usd :: usd
  cr_latency_ms :: int
  cr_cached :: bool
  cr_fallback_used :: bool
  cr_outcome :: string
  cr_error :: "string option"

fun outcome_text :: "call_outcome \<Rightarrow> string" where
  "outcome_text OutOk = ''ok''"
| "outcome_text OutError = ''error''"
| "outcome_text OutTimeout = ''timeout''"
| "outcome_text OutRateLimit = ''rate_limit''"
| "outcome_text OutSkipped = ''skipped''"

text \<open>The row of a call; the two hashes and the generated id are left out.\<close>

definition postgres_row :: "tele_row \<Rightarrow> call_row" where
  "postgres_row t =
     (case tl_response t of
        Some r \<Rightarrow> \<lparr>cr_caller_id = tl_caller_id t, cr_tier = tier_text (lr_tier r), cr_model = lr_model r,
          cr_prompt_tokens = lr_prompt_tokens r, cr_completion_tokens = lr_completion_tokens r, cr_cost_usd = lr_cost_usd r,
          cr_latency_ms = lr_latency_ms r, cr_cached = lr_cached r, cr_fallback_used = lr_fallback_used r,
          cr_outcome = outcome_text (tl_outcome t), cr_error = tl_error t\<rparr>
      | None \<Rightarrow> \<lparr>cr_caller_id = tl_caller_id t, cr_tier = ''flash'', cr_model = ''no-response:'' @ outcome_text (tl_outcome t),
          cr_prompt_tokens = 0, cr_completion_tokens = 0, cr_cost_usd = 0, cr_latency_ms = 0, cr_cached = False,
          cr_fallback_used = False, cr_outcome = outcome_text (tl_outcome t), cr_error = tl_error t\<rparr>)"

text \<open>The checks of the table: those of migration \<open>0003\<close>, with the outcomes as \<open>0006\<close> leaves them.\<close>

definition tier_check :: "call_row \<Rightarrow> bool" where
  "tier_check r \<longleftrightarrow> cr_tier r \<in> {''flash'', ''pro'', ''embed''}"

definition outcome_check :: "call_row \<Rightarrow> bool" where
  "outcome_check r \<longleftrightarrow> cr_outcome r \<in> {''ok'', ''error'', ''timeout'', ''rate_limit'', ''skipped''}"

text \<open>What the in-memory sink of the tests records of the same call.\<close>

record captured_row =
  ca_caller_id :: string
  ca_outcome :: string
  ca_error :: "string option"
  ca_tier :: "string option"
  ca_model :: "string option"
  ca_cost_usd :: usd
  ca_cached :: bool
  ca_fallback_used :: bool

definition captured_row :: "tele_row \<Rightarrow> captured_row" where
  "captured_row t =
     (let base = \<lparr>ca_caller_id = tl_caller_id t, ca_outcome = outcome_text (tl_outcome t), ca_error = tl_error t,
                  ca_tier = None, ca_model = None, ca_cost_usd = 0, ca_cached = False, ca_fallback_used = False\<rparr>
      in case tl_response t of
           None \<Rightarrow> base
         | Some r \<Rightarrow> base\<lparr>ca_tier := Some (tier_text (lr_tier r)), ca_model := Some (lr_model r), ca_cost_usd := lr_cost_usd r,
             ca_cached := lr_cached r, ca_fallback_used := lr_fallback_used r\<rparr>)"

text \<open>\<open>_write\<close>: the sink's exceptions are logged; \<open>insert\<close> is the session.\<close>

definition sink_write :: "(string \<Rightarrow> call_row \<Rightarrow> 'w \<Rightarrow> 'w option) \<Rightarrow> tele_sink \<Rightarrow> tele_row \<Rightarrow> 'w \<Rightarrow> 'w" where
  "sink_write ins sink t w =
     (case sink of
        NullSink \<Rightarrow> w
      | PostgresSink dsn \<Rightarrow> (case ins dsn (postgres_row t) w of Some w1 \<Rightarrow> w1 | None \<Rightarrow> w))"

section \<open>Calling the configured adapter\<close>

definition adapter_chat :: "adapter_cfg \<Rightarrow> post \<Rightarrow> message list \<Rightarrow> tier \<Rightarrow> call_opts \<Rightarrow> llm_error + chat_response" where
  "adapter_chat a post ms t co =
     (case a of
        DeepSeekCfg key base pro flash emb \<Rightarrow> deepseek_chat \<lparr>ds_model_pro = pro, ds_model_flash = flash, ds_embed_model = emb\<rparr> post ms t co
      | AnthropicCfg key model \<Rightarrow> anthropic_chat model post ms t co
      | GroqCfg key model \<Rightarrow> groq_chat model post ms t co)"

definition no_provider :: "env \<Rightarrow> bool" where
  "no_provider env \<longleftrightarrow> env_key env ''DEEPSEEK_API_KEY'' = None \<and> env_key env ''ANTHROPIC_API_KEY'' = None \<and> env_key env ''GROQ_API_KEY'' = None"

lemma build_primary_None: "build_primary env = None \<longleftrightarrow> no_provider env"
  by (auto simp: build_primary_def no_provider_def split: option.splits)

lemma router_from_env_None: "router_from_env h = None \<longleftrightarrow> no_provider (ho_env h)"
  by (simp add: router_from_env_def build_primary_None)

lemma lifespan_cases:
  "lifespan_bootstrap h n strict (Some r) = (Inr (Some r), Some r)"
  "no_provider (ho_env h) \<Longrightarrow> \<not> strict \<Longrightarrow> lifespan_bootstrap h n strict None = (Inr None, None)"
  "no_provider (ho_env h) \<Longrightarrow> strict \<Longrightarrow> isl (fst (lifespan_bootstrap h n strict None)) \<and> snd (lifespan_bootstrap h n strict None) = None"
  "router_from_env h = Some v \<Longrightarrow> lifespan_bootstrap h n strict None = (Inr (Some (service_cfg v, fresh_router)), Some (service_cfg v, fresh_router))"
  using router_from_env_None [of h]
  by (auto simp: lifespan_bootstrap_def current_router_def bootstrap_router_or_die_def bootstrap_router_optional_def set_router_def)

lemma capless_allow:
  assumes "mc_monthly_cap (rc_meter rc) = None" and "mc_fallback_cap (rc_meter rc) = None" and "mt_state (rt_meter s) = MClosed"
  shows "allow rc now today fb s = (True, s)"
  using assms by (simp add: allow_def meter_allow_def meter_refresh_def reaches_def)

lemma meter_untouched [simp]:
  "rt_meter (take_slot k s) = rt_meter s" "rt_meter (drop_slot k s) = rt_meter s"
  "rt_meter (take_caller c s) = rt_meter s" "rt_meter (drop_caller c s) = rt_meter s"
  by (simp_all add: take_slot_def drop_slot_def take_caller_def drop_caller_def)

definition capless :: "router_cfg \<Rightarrow> router \<Rightarrow> bool" where
  "capless rc s \<longleftrightarrow> mc_monthly_cap (rc_meter rc) = None \<and> mc_fallback_cap (rc_meter rc) = None \<and> mt_state (rt_meter s) = MClosed"

lemma capless_attempt: "capless rc s \<Longrightarrow> script_ok sc \<Longrightarrow> own_error (fst (attempt rc c t sc s))"
  using fallback_chat_own [of sc rc t]
  by (auto simp: attempt_def capless_def capless_allow script_ok_def own_error_def split: await.splits)

lemma capless_limited: "capless rc s \<Longrightarrow> script_ok sc \<Longrightarrow> own_error (fst (limited_attempt rc c t sc s))"
  using capless_attempt [of rc "take_slot (rc_primary_name rc, t) s" sc c t]
  by (auto simp: limited_attempt_def capless_def script_ok_def own_error_def Let_def split: await.splits prod.splits)

lemma capless_guarded: "capless rc s \<Longrightarrow> script_ok sc \<Longrightarrow> own_error (fst (guarded_attempt rc c t sc s))"
  using capless_limited [of rc "take_caller c s" sc c t]
  by (auto simp: guarded_attempt_def capless_def script_ok_def own_error_def split: await.splits prod.splits)

lemma pick_tier_error: "pick_tier c ft sg = Inl e \<Longrightarrow> e \<noteq> CostBudgetExceeded m"
  by (auto simp: pick_tier_def resolve_tier_def llm_lookup_def as_llm_def res_bind_def split: option.splits sum.splits if_splits)

section \<open>Properties\<close>

text \<open>
  a strict service fails to boot exactly when its process has no router and none of the three provider keys
  is set to a non-empty value; after a boot the process has a router exactly when it had one or a key is set, and
  booting again, whatever the environment then, returns the router installed before.
\<close>

theorem service_boots_iff_provider:
  "isl (fst (lifespan_bootstrap h n strict p)) = (strict \<and> p = None \<and> no_provider (ho_env h))
   \<and> (snd (lifespan_bootstrap h n strict p) \<noteq> None) = (p \<noteq> None \<or> \<not> no_provider (ho_env h))
   \<and> lifespan_bootstrap h' n' strict' (snd (lifespan_bootstrap h n strict p)) =
       (case snd (lifespan_bootstrap h n strict p) of
          None \<Rightarrow> lifespan_bootstrap h' n' strict' None | Some r \<Rightarrow> (Inr (Some r), Some r))"
proof (cases p)
  case None
  show ?thesis
  proof (cases "router_from_env h")
    case (Some v)
    then have "\<not> no_provider (ho_env h)" using router_from_env_None [of h] by simp
    then show ?thesis using lifespan_cases(4) [OF Some] by (simp add: None lifespan_cases(1))
  next
    case no: None
    then have np: "no_provider (ho_env h)" using router_from_env_None [of h] by simp
    show ?thesis
      using lifespan_cases(2) [OF np, of strict n] lifespan_cases(3) [OF np, of strict n] np
      by (cases strict) (simp_all add: None)
  qed
qed (simp add: lifespan_cases(1))

text \<open>
  C34: without a DeepSeek key the Anthropic adapter is primary and Pro fallback at once, so failing over asks the
  same provider again, and every answer of the healthy primary is charged to the fallback budget.
\<close>

theorem lone_provider_spends_fallback_budget:
  assumes "router_from_env h = Some v" and "env_key (ho_env h) ''DEEPSEEK_API_KEY'' = None"
    and "env_key (ho_env h) ''ANTHROPIC_API_KEY'' \<noteq> None"
    and "adapter_chat (ls_primary v) post ms t co = Inr r"
  shows "fc_pro (ls_fallback v) = Some (ls_primary v)
    \<and> mem_total (rt_spend (meter_record d r s)) d True = mem_total (rt_spend s) d True + lr_cost_usd r"
proof -
  obtain key where key: "env_key (ho_env h) ''ANTHROPIC_API_KEY'' = Some key" using assms(3) by auto
  have prim: "ls_primary v = anthropic_of (ho_env h) key" and fall: "fc_pro (ls_fallback v) = Some (anthropic_of (ho_env h) key)"
    using assms(1,2) key by (auto simp: router_from_env_def build_primary_def build_fallback_chain_def)
  have "anthropic_chat (env_or (ho_env h) ''ANTHROPIC_MODEL'' ''claude-sonnet-4-6'') post ms t co = Inr r"
    using assms(4) by (simp add: prim adapter_chat_def anthropic_of_def)
  then have "lr_fallback_used r"
    by (auto simp: anthropic_chat_def anthropic_response_def as_llm_def make_response_def res_bind_def
        split: if_splits http_result.splits sum.splits)
  then show ?thesis by (simp add: prim fall meter_record_def mem_total_record)
qed

definition anthropic_only :: host where
  "anthropic_only = \<lparr>ho_env = [''ANTHROPIC_API_KEY'' \<mapsto> ''k''], ho_float = (\<lambda>_. None), ho_engine_ok = (\<lambda>_. True)\<rparr>"

definition small_answer :: post where
  "small_answer = (\<lambda>_. HttpResponse 200 [] (JObj [(''content'', JArr []), (''id'', JStr ''x''),
     (''usage'', JObj [(''input_tokens'', JNum 0), (''output_tokens'', JNum 0)])]))"

definition sample_opts :: call_opts where
  "sample_opts = \<lparr>co_max_tokens = 1, co_temperature = 0, co_timeout_text = ''30'', co_uuid = ''u'', co_latency_ms = 5\<rparr>"

lemma lone_provider_spends_fallback_budget_witness:
  "\<exists>v r. router_from_env anthropic_only = Some v \<and> adapter_chat (ls_primary v) small_answer [] Flash sample_opts = Inr r
     \<and> fc_pro (ls_fallback v) = Some (ls_primary v) \<and> mem_total (rt_spend (meter_record 0 r fresh_router)) 0 True = lr_cost_usd r"
proof -
  obtain v where v: "router_from_env anthropic_only = Some v" "ls_primary v = AnthropicCfg ''k'' ''claude-sonnet-4-6''"
    by (simp add: router_from_env_def anthropic_only_def build_primary_def env_key_def anthropic_of_def env_or_def)
  have keys: "env_key (ho_env anthropic_only) ''DEEPSEEK_API_KEY'' = None" "env_key (ho_env anthropic_only) ''ANTHROPIC_API_KEY'' \<noteq> None"
    by (simp_all add: anthropic_only_def env_key_def)
  have "\<exists>r. adapter_chat (ls_primary v) small_answer [] Flash sample_opts = Inr r"
    by (simp add: v adapter_chat_def anthropic_chat_def small_answer_def anthropic_response_def sample_opts_def
        jget_attr_def jget_or_def usage_count_def request_id_def make_response_def as_llm_def jint_def trunc_def)
  then obtain r where r: "adapter_chat (ls_primary v) small_answer [] Flash sample_opts = Inr r" ..
  show ?thesis
    using lone_provider_spends_fallback_budget [OF v(1) keys r, of 0 fresh_router] v(1) r
    by (auto simp: fresh_router_def)
qed

text \<open>
  a restart gives the whole budget back: the router a service builds has spent nothing, so with positive caps
  its first call is let through whatever the service had spent before.
\<close>

theorem restart_gives_budget_back:
  assumes "lifespan_bootstrap h n strict None = (Inr (Some (rc, s)), q)"
    and "\<forall>c. mc_monthly_cap (rc_meter rc) = Some c \<longrightarrow> 0 < c" and "\<forall>c. mc_fallback_cap (rc_meter rc) = Some c \<longrightarrow> 0 < c"
  shows "fst (allow rc now today fb s)"
proof -
  have "router_from_env h \<noteq> None"
    using assms(1) lifespan_cases(2,3) [of h strict n] router_from_env_None [of h] by (cases strict) auto
  then obtain v where "router_from_env h = Some v" by auto
  from assms(1) lifespan_cases(4) [OF this, of n strict] have "s = fresh_router" by simp
  then show ?thesis
    using assms(2,3)
    by (auto simp: allow_def meter_allow_def meter_refresh_def fresh_router_def new_meter_def reaches_def not_le split: option.splits)
qed

definition groq_only :: host where
  "groq_only = \<lparr>ho_env = [''GROQ_API_KEY'' \<mapsto> ''k''], ho_float = (\<lambda>_. None), ho_engine_ok = (\<lambda>_. True)\<rparr>"

lemma groq_only_boot: "\<exists>v. router_from_env groq_only = Some v \<and> mc_monthly_cap (rc_meter (service_cfg v)) = None
    \<and> mc_fallback_cap (rc_meter (service_cfg v)) = None"
  by (simp add: router_from_env_def groq_only_def build_primary_def env_key_def service_cfg_def default_meter_def env_cap_def)

lemma restart_gives_budget_back_witness:
  "\<exists>rc. fst (allow rc 0 0 True fresh_router)"
proof -
  obtain v where v: "router_from_env groq_only = Some v" "mc_monthly_cap (rc_meter (service_cfg v)) = None"
      "mc_fallback_cap (rc_meter (service_cfg v)) = None"
    using groq_only_boot by blast
  have "fst (allow (service_cfg v) 0 0 True fresh_router)"
    by (rule restart_gives_budget_back [OF lifespan_cases(4) [OF v(1), of "''agent_quant''" False]]) (simp_all add: v)
  then show ?thesis by blast
qed

text \<open>
  with no cap configured, or a cap that is no number, no call of a closed meter ends in the budget error,
  however much has been spent.
\<close>

theorem default_caps_never_gate:
  assumes "router_from_env h = Some v" and "env_cap (ho_float h) (ho_env h) ''LLM_MONTHLY_CAP_USD'' = None"
    and "env_cap (ho_float h) (ho_env h) ''LLM_FALLBACK_CAP_USD'' = None"
    and "script_ok sc" and "mt_state (rt_meter s) = MClosed"
  shows "fst (chat (service_cfg v) caller ms ft sc s) \<noteq> Err (CostBudgetExceeded m)"
proof -
  let ?rc = "service_cfg v"
  have cl: "capless ?rc s"
    using assms(1,2,3,5) by (auto simp: capless_def service_cfg_def router_from_env_def default_meter_def)
  have allow: "allow ?rc now today False s = (True, s)" for now today
    using cl by (simp add: capless_def capless_allow)
  have guarded: "fst (guarded_attempt ?rc caller t sc s) \<noteq> Err (CostBudgetExceeded m)" for t
    using capless_guarded [OF cl assms(4)] by (simp add: own_error_def)
  show ?thesis
  proof (cases "llm_lookup caller")
    case (Inr sp)
    show ?thesis
    proof (cases "pick_tier caller ft (sc_signals sc)")
      case tier: (Inr t)
      show ?thesis
        using guarded [of t]
        by (cases "guarded_attempt ?rc caller t sc s"; cases "fst (guarded_attempt ?rc caller t sc s)")
          (auto simp: chat_def Inr tier allow Let_def split: option.splits)
    qed (use pick_tier_error Inr in \<open>auto simp: chat_def\<close>)
  qed (auto simp: chat_def llm_lookup_def split: option.splits if_splits)
qed

lemma default_caps_never_gate_witness:
  "\<exists>v. router_from_env groq_only = Some v \<and> fst (chat (service_cfg v) ''secretary.echo'' [] None toy_script fresh_router) \<noteq> Err (CostBudgetExceeded [])"
proof -
  obtain v where v: "router_from_env groq_only = Some v" using groq_only_boot by blast
  have "fst (chat (service_cfg v) ''secretary.echo'' [] None toy_script fresh_router) \<noteq> Err (CostBudgetExceeded [])"
    by (rule default_caps_never_gate [OF v _ _ script_ok_toy])
      (simp_all add: groq_only_def env_cap_def env_key_def fresh_router_def new_meter_def)
  with v show ?thesis by blast
qed

text \<open>
  C27: every row the sink writes satisfies the checks of the table, a call without an answer and a skipped one
  included.
\<close>

theorem telemetry_row_well_typed: "tier_check (postgres_row t) \<and> outcome_check (postgres_row t)"
proof -
  have "tier_text x \<in> {''flash'', ''pro'', ''embed''}" for x by (cases x) simp_all
  moreover have "outcome_text y \<in> {''ok'', ''error'', ''timeout'', ''rate_limit'', ''skipped''}" for y by (cases y) simp_all
  ultimately show ?thesis
    by (auto simp: tier_check_def outcome_check_def postgres_row_def split: option.splits)
qed

end
