(* ===== verification/AdminConnectors.thy ===== *)
theory AdminConnectors
  imports AdminApi PyStd
begin

text \<open>
  The other half of the admin API (\<^verbatim>\<open>apps/admin_api/admin_api/\<close>): connector tests (\<^verbatim>\<open>connectors.py\<close>),
  the broker file (\<^verbatim>\<open>brokers.py\<close>), the schedule file (\<^verbatim>\<open>schedules.py\<close>), the list of secrets and
  their masked values (\<^verbatim>\<open>secrets.py\<close>) and the endpoints of \<^verbatim>\<open>main.py\<close> that \<^verbatim>\<open>AdminApi\<close> leaves
  out. A YAML document is a JSON value; its parser and printer, sops, HTTP and the FUTU client are parameters.
\<close>

section \<open>Secrets on this host\<close>

text \<open>\<open>sops -d\<close> of a sealed file: its output, an error of the process, or no such program.\<close>

datatype sops_run = SopsOut string | SopsFails | SopsMissing

record admin_host =
  ah_sealed :: "string \<Rightarrow> bool"
  ah_have_sops :: bool
  ah_decrypt :: bool
  ah_sops :: "string \<Rightarrow> sops_run"
  ah_yaml :: "string \<Rightarrow> json option"
  ah_env :: "string \<Rightarrow> string option"
  ah_py :: pystd

text \<open>\<open>(yaml.safe_load(raw) or {}).get("value")\<close>; a document that is no mapping has no \<open>get\<close>.\<close>

definition doc_field :: "json \<Rightarrow> string \<Rightarrow> exn + json option" where
  "doc_field doc k = (case (if truthy doc then doc else JObj []) of JObj d \<Rightarrow> Inr (map_of d k) | _ \<Rightarrow> Inl AttributeError)"

definition read_plaintext :: "admin_host \<Rightarrow> string \<Rightarrow> exn + string option" where
  "read_plaintext h name =
     (if \<not> ah_sealed h name then Inr None
      else case ah_sops h name of
             SopsOut raw \<Rightarrow>
               (case ah_yaml h raw of
                  None \<Rightarrow> Inr None
                | Some doc \<Rightarrow> res_bind (doc_field doc ''value'') (\<lambda>v. Inr (case v of
                      None \<Rightarrow> None | Some x \<Rightarrow> if truthy x then Some (to_str (ah_py h) x) else None)))
           | _ \<Rightarrow> Inr None)"

definition bullets :: string where
  "bullets = replicate 4 CHR 0x95"

definition masked_value :: "admin_host \<Rightarrow> string \<Rightarrow> exn + string option" where
  "masked_value h name =
     (if \<not> ah_sealed h name \<or> \<not> ah_have_sops h then Inr None
      else if \<not> ah_decrypt h then Inr None
      else case ah_sops h name of
             SopsFails \<Rightarrow> Inr None
           | SopsMissing \<Rightarrow> Inl (OtherExn ''FileNotFoundError'')
           | SopsOut raw \<Rightarrow>
               (case ah_yaml h raw of
                  None \<Rightarrow> Inl (OtherExn ''YAMLError'')
                | Some doc \<Rightarrow> res_bind (doc_field doc ''value'') (\<lambda>v.
                    let value = (case v of None \<Rightarrow> [] | Some x \<Rightarrow> to_str (ah_py h) x) in
                    Inr (if value = [] then None
                         else if 4 \<le> length value then Some (bullets @ drop (length value - 4) value) else Some bullets))))"

record secret_row =
  sr_name :: string
  sr_present :: bool
  sr_path :: "string option"

definition list_secrets :: "admin_host \<Rightarrow> secret_row list" where
  "list_secrets h = map (\<lambda>name. \<lparr>sr_name = name, sr_present = ah_sealed h name,
      sr_path = (if ah_sealed h name then Some (''secrets/sealed/'' @ name @ ''.yaml.enc'') else None)\<rparr>) KNOWN_SECRETS"

section \<open>Connector tests\<close>

datatype connector_state = ConnOk | ConnError | Unconfigured

record connector_status =
  cs_name :: string
  cs_state :: connector_state
  cs_detail :: "string option"

text \<open>A GET of httpx: a transport error with its text, or the status code.\<close>

datatype probe = ProbeFails string | ProbeStatus nat

definition unconfigured :: "string \<Rightarrow> connector_status" where
  "unconfigured name = \<lparr>cs_name = name, cs_state = Unconfigured, cs_detail = None\<rparr>"

definition judge_probe :: "string \<Rightarrow> nat set \<Rightarrow> string \<Rightarrow> probe \<Rightarrow> connector_status" where
  "judge_probe name good detail p =
     (case p of
        ProbeFails m \<Rightarrow> \<lparr>cs_name = name, cs_state = ConnError, cs_detail = Some m\<rparr>
      | ProbeStatus code \<Rightarrow>
          if code \<in> good then \<lparr>cs_name = name, cs_state = ConnOk, cs_detail = Some detail\<rparr>
          else \<lparr>cs_name = name, cs_state = ConnError, cs_detail = Some (''http '' @ show_nat code)\<rparr>)"

text \<open>\<open>_read_plaintext(name) or os.environ.get(var)\<close>, then the probe with the key.\<close>

definition keyed_test :: "admin_host \<Rightarrow> (string \<Rightarrow> string \<Rightarrow> probe) \<Rightarrow> string \<Rightarrow> string \<Rightarrow> string \<Rightarrow> nat set \<Rightarrow> string \<Rightarrow> exn + connector_status" where
  "keyed_test h ping name secret var good detail =
     res_bind (read_plaintext h secret) (\<lambda>plain.
       let key = (case plain of Some (c # k) \<Rightarrow> c # k | _ \<Rightarrow> (case ah_env h var of None \<Rightarrow> [] | Some k \<Rightarrow> k)) in
       Inr (if key = [] then unconfigured name else judge_probe name good detail (ping name key)))"

definition test_deepseek :: "admin_host \<Rightarrow> (string \<Rightarrow> string \<Rightarrow> probe) \<Rightarrow> exn + connector_status" where
  "test_deepseek h ping = keyed_test h ping ''deepseek'' ''deepseek_api_key'' ''DEEPSEEK_API_KEY'' {200} ''models endpoint 200''"

definition test_anthropic :: "admin_host \<Rightarrow> (string \<Rightarrow> string \<Rightarrow> probe) \<Rightarrow> exn + connector_status" where
  "test_anthropic h ping = keyed_test h ping ''anthropic'' ''anthropic_api_key'' ''ANTHROPIC_API_KEY'' {200, 400, 405} ''auth accepted''"

definition test_fred :: "admin_host \<Rightarrow> (string \<Rightarrow> string \<Rightarrow> probe) \<Rightarrow> exn + connector_status" where
  "test_fred h ping = keyed_test h ping ''fred'' ''fred_api_key'' ''FRED_API_KEY'' {200} ''GS10 lookup 200''"

definition test_gdelt :: "(string \<Rightarrow> string \<Rightarrow> probe) \<Rightarrow> connector_status" where
  "test_gdelt ping = judge_probe ''gdelt'' {200} ''lastupdate 200'' (ping ''gdelt'' [])"

definition test_connector :: "admin_host \<Rightarrow> (string \<Rightarrow> string \<Rightarrow> probe) \<Rightarrow> string \<Rightarrow> exn + connector_status" where
  "test_connector h ping name =
     (if name = ''deepseek'' then test_deepseek h ping
      else if name = ''anthropic'' then test_anthropic h ping
      else if name = ''fred'' then test_fred h ping
      else if name = ''gdelt'' then Inr (test_gdelt ping)
      else Inr \<lparr>cs_name = name, cs_state = Unconfigured, cs_detail = Some ''no test handler''\<rparr>)"

definition known_connectors :: "string list" where
  "known_connectors = [''deepseek'', ''anthropic'', ''groq'', ''openai'', ''fred'', ''newsapi'', ''gdelt'', ''wecom'', ''futu'']"

section \<open>The broker file\<close>

definition BROKERS_REL :: string where
  "BROKERS_REL = ''infra/futu/brokers.yaml''"

record broker_cfg =
  bk_id :: string
  bk_host :: string
  bk_port :: int
  bk_tls_cert :: json
  bk_quotation_tier :: string
  bk_max_subscriptions :: int
  bk_notes :: string

text \<open>A row of the file, or of a request: \<open>item\<close> is a mapping with an id.\<close>

definition broker_of :: "pystd \<Rightarrow> (string, json) dict \<Rightarrow> json \<Rightarrow> exn + broker_cfg" where
  "broker_of py item bid =
     (let f = (\<lambda>k dflt. jget_or (JObj item) k dflt) in
      res_bind (int_of_json (f ''port'' (JNum 11111))) (\<lambda>port.
      res_bind (int_of_json (f ''max_subscriptions'' (JNum 100))) (\<lambda>subs.
      Inr \<lparr>bk_id = to_str py bid, bk_host = to_str py (f ''host'' (JStr ''127.0.0.1'')), bk_port = port,
           bk_tls_cert = jor (f ''tls_cert'' JNull) JNull,
           bk_quotation_tier = to_str py (f ''quotation_tier'' (JStr ''free'')), bk_max_subscriptions = subs,
           bk_notes = to_str py (f ''notes'' (JStr []))\<rparr>)))"

fun file_rows :: "pystd \<Rightarrow> json list \<Rightarrow> exn + broker_cfg list" where
  "file_rows py [] = Inr []"
| "file_rows py (row # rows) =
     (case row of
        JObj item \<Rightarrow>
          (if truthy (field_of item ''id'')
           then res_bind (broker_of py item (field_of item ''id'')) (\<lambda>b. res_bind (file_rows py rows) (\<lambda>bs. Inr (b # bs)))
           else file_rows py rows)
      | _ \<Rightarrow> file_rows py rows)"

definition parse_brokers :: "pystd \<Rightarrow> json \<Rightarrow> exn + broker_cfg list" where
  "parse_brokers py doc =
     (let brokers = (case doc of JObj d \<Rightarrow> jor (field_of d ''brokers'') (JArr []) | _ \<Rightarrow> JArr []) in
      case iterate brokers of Inl m \<Rightarrow> Inl TypeError | Inr rows \<Rightarrow> file_rows py rows)"

definition load_brokers :: "admin_host \<Rightarrow> path \<Rightarrow> files \<Rightarrow> exn + broker_cfg list" where
  "load_brokers h rdir fs =
     (case fs (resolve rdir BROKERS_REL) of
        None \<Rightarrow> Inr []
      | Some s \<Rightarrow> (case ah_yaml h (universal_newlines s) of None \<Rightarrow> Inl (OtherExn ''YAMLError'') | Some doc \<Rightarrow> parse_brokers (ah_py h) doc))"

definition broker_json :: "broker_cfg \<Rightarrow> json" where
  "broker_json b = JObj
     [(''id'', JStr (bk_id b)), (''host'', JStr (bk_host b)), (''port'', JNum (of_int (bk_port b))), (''tls_cert'', bk_tls_cert b),
      (''quotation_tier'', JStr (bk_quotation_tier b)), (''max_subscriptions'', JNum (of_int (bk_max_subscriptions b))),
      (''notes'', JStr (bk_notes b))]"

definition brokers_doc :: "broker_cfg list \<Rightarrow> json" where
  "brokers_doc bs = JObj [(''brokers'', JArr (map broker_json bs))]"

text \<open>\<open>handshake host port\<close>: the return code and data of \<open>get_global_state\<close>, or the exception.\<close>

datatype verify_answer = UnknownBroker string | Verified bool int json | VerifyError string

definition verify_broker :: "admin_host \<Rightarrow> path \<Rightarrow> files \<Rightarrow> (string \<Rightarrow> int \<Rightarrow> string + int \<times> json) \<Rightarrow> string \<Rightarrow> exn + verify_answer" where
  "verify_broker h rdir fs handshake broker_id =
     res_bind (load_brokers h rdir fs) (\<lambda>bs.
       case find (\<lambda>b. bk_id b = broker_id) bs of
         None \<Rightarrow> Inr (UnknownBroker broker_id)
       | Some b \<Rightarrow> (case handshake (bk_host b) (bk_port b) of
            Inl e \<Rightarrow> Inr (VerifyError e) | Inr (ret, data) \<Rightarrow> Inr (Verified (ret = 0) ret data)))"

section \<open>The schedule file\<close>

definition schedule_body :: "schedule_entry \<Rightarrow> json" where
  "schedule_body e = JObj ([(''enabled'', JBool (sc_enabled e))] @ (if truthy (sc_cron e) then [(''cron'', sc_cron e)] else [])
     @ (if truthy (sc_timezone e) then [(''timezone'', sc_timezone e)] else []))"

text \<open>The document \<open>dump\<close> prints: its keys are the job ids, the last entry with an id counts.\<close>

definition schedules_doc :: "schedule_entry list \<Rightarrow> (json, json) dict" where
  "schedules_doc es = foldl (\<lambda>d e. AList.update (sc_job_id e) (schedule_body e) d) [] es"

definition load_schedules :: "(json, json) dict \<Rightarrow> (json, schedule_entry) dict" where
  "load_schedules raw = List.map_filter (\<lambda>(job, body). case body of
       JObj d \<Rightarrow> Some (job, \<lparr>sc_job_id = job, sc_enabled = truthy (jget_or body ''enabled'' (JBool True)),
           sc_cron = jget_or body ''cron'' JNull, sc_timezone = jget_or body ''timezone'' JNull\<rparr>)
     | _ \<Rightarrow> None) raw"

section \<open>Endpoints\<close>

fun request_rows :: "pystd \<Rightarrow> json list \<Rightarrow> exn + broker_cfg list" where
  "request_rows py [] = Inr []"
| "request_rows py (row # rows) =
     (case row of
        JObj item \<Rightarrow> (case map_of item ''id'' of
            Some bid \<Rightarrow> res_bind (broker_of py item bid) (\<lambda>b. res_bind (request_rows py rows) (\<lambda>bs. Inr (b # bs)))
          | None \<Rightarrow> request_rows py rows)
      | _ \<Rightarrow> request_rows py rows)"

definition apply_brokers :: "env \<Rightarrow> pystd \<Rightarrow> (json \<Rightarrow> string) \<Rightarrow> string \<Rightarrow> int \<Rightarrow> json \<Rightarrow> admin_state \<Rightarrow> http \<times> admin_state" where
  "apply_brokers e py yaml_dump uid ts body s =
     (case jget body ''brokers'' of
        Some (JArr raw) \<Rightarrow>
          (case request_rows py raw of
             Inl x \<Rightarrow> (Http500, s)
           | Inr bs \<Rightarrow> apply_fixed e uid ts BROKERS_REL (yaml_dump (brokers_doc bs)) ''brokers update via admin UI'' s)
      | _ \<Rightarrow> (Http400, s))"

definition list_brokers :: "admin_host \<Rightarrow> path \<Rightarrow> admin_state \<Rightarrow> http \<times> json option" where
  "list_brokers h rdir s =
     (case load_brokers h rdir (as_files s) of
        Inl x \<Rightarrow> (Http500, None)
      | Inr bs \<Rightarrow> (Http200, Some (brokers_doc bs)))"

definition read_endpoint :: "env \<Rightarrow> string \<Rightarrow> admin_state \<Rightarrow> http \<times> snapshot option" where
  "read_endpoint e rel s =
     (case read_file (en_sha e) (en_root e) (as_files s) rel of Inl x \<Rightarrow> (http_of x, None) | Inr sn \<Rightarrow> (Http200, Some sn))"

definition propose_endpoint :: "env \<Rightarrow> string \<Rightarrow> string \<Rightarrow> admin_state \<Rightarrow> http \<times> (string \<times> string) option" where
  "propose_endpoint e rel content s =
     (case propose (en_sha e) (en_yaml_ok e) (en_root e) (as_files s) rel content of
        Inl x \<Rightarrow> (http_of x, None) | Inr hs \<Rightarrow> (Http200, Some hs))"

definition connector_endpoint :: "admin_host \<Rightarrow> (string \<Rightarrow> string \<Rightarrow> probe) \<Rightarrow> string \<Rightarrow> http \<times> connector_status option" where
  "connector_endpoint h ping name =
     (case test_connector h ping name of Inl x \<Rightarrow> (Http500, None) | Inr st \<Rightarrow> (Http200, Some st))"

definition audit_head :: "env \<Rightarrow> admin_state \<Rightarrow> string option" where
  "audit_head e s = sink_head (en_sink e) (as_rows s)"

section \<open>Lemmas\<close>

lemma jor_idem [simp]: "jor (jor a JNull) JNull = jor a JNull"
  by (simp add: jor_def)

lemma broker_of_json: "jor (bk_tls_cert b) JNull = bk_tls_cert b \<Longrightarrow>
    (case broker_json b of JObj d \<Rightarrow> broker_of py d (JStr (bk_id b))) = Inr b"
  by (simp add: broker_json_def broker_of_def jget_or_def int_of_json_def to_str_def trunc_def)

lemma broker_of_tls: "broker_of py item bid = Inr b \<Longrightarrow> jor (bk_tls_cert b) JNull = bk_tls_cert b"
  by (auto simp: broker_of_def Let_def res_bind_Inr_iff)

lemma file_rows_json:
  "list_all (\<lambda>b. jor (bk_tls_cert b) JNull = bk_tls_cert b) bs \<Longrightarrow>
     file_rows py (map broker_json bs) = Inr (filter (\<lambda>b. bk_id b \<noteq> []) bs)"
proof (induction bs)
  case (Cons b bs)
  then show ?case
    using broker_of_json [of b py]
    by (auto simp: broker_json_def jget_or_def)
qed simp

lemma request_rows_tls: "request_rows py raw = Inr bs \<Longrightarrow> list_all (\<lambda>b. jor (bk_tls_cert b) JNull = bk_tls_cert b) bs"
  by (induction py raw arbitrary: bs rule: request_rows.induct)
    (auto simp: res_bind_Inr_iff broker_of_tls split: json.splits option.splits)

lemma parse_brokers_doc:
  "list_all (\<lambda>b. jor (bk_tls_cert b) JNull = bk_tls_cert b) bs \<Longrightarrow>
     parse_brokers py (brokers_doc bs) = Inr (filter (\<lambda>b. bk_id b \<noteq> []) bs)"
  using file_rows_json [of bs py]
  by (cases bs) (simp_all add: parse_brokers_def brokers_doc_def jget_or_def jor_def)

lemma apply_fixed_200:
  assumes "apply_fixed e uid ts rel content reason s = (Http200, s')"
  obtains p where "abs_path (en_root e) rel = Inr p" "as_files s' p = Some content"
  using assms
  by (auto simp: apply_fixed_def apply_write_def res_bind_Inr_iff split: sum.splits if_splits elim!: audit_row_cases)

lemma brokers_path: "abs_path rdir BROKERS_REL = Inr p \<Longrightarrow> p = resolve rdir BROKERS_REL"
  by (simp add: abs_path_def Let_def BROKERS_REL_def lstrip_slash_def split: if_splits)

section \<open>Properties\<close>

text \<open>
  C39: what a successful update of the brokers writes is what the list shows afterwards, field by field, but for
  the brokers whose id is the empty string: these are written and then never shown.
\<close>

theorem brokers_listed_after_apply:
  assumes "apply_brokers e (ah_py h) yaml_dump uid ts (JObj [(''brokers'', JArr raw)]) s = (Http200, s')"
    and "request_rows (ah_py h) raw = Inr bs"
    and "ah_yaml h (universal_newlines (yaml_dump (brokers_doc bs))) = Some (brokers_doc bs)"
  shows "list_brokers h (en_root e) s' = (Http200, Some (brokers_doc (filter (\<lambda>b. bk_id b \<noteq> []) bs)))"
proof -
  from assms(1,2) have "apply_fixed e uid ts BROKERS_REL (yaml_dump (brokers_doc bs)) ''brokers update via admin UI'' s = (Http200, s')"
    by (simp add: apply_brokers_def)
  then obtain p where "abs_path (en_root e) BROKERS_REL = Inr p" "as_files s' p = Some (yaml_dump (brokers_doc bs))"
    by (rule apply_fixed_200)
  then have "as_files s' (resolve (en_root e) BROKERS_REL) = Some (yaml_dump (brokers_doc bs))"
    using brokers_path by metis
  then show ?thesis
    using assms(3) parse_brokers_doc [OF request_rows_tls [OF assms(2)]]
    by (simp add: list_brokers_def load_brokers_def)
qed

definition two_brokers :: "broker_cfg list" where
  "two_brokers = map (\<lambda>i. \<lparr>bk_id = i, bk_host = ''127.0.0.1'', bk_port = 11111, bk_tls_cert = JNull, bk_quotation_tier = ''free'',
     bk_max_subscriptions = 100, bk_notes = []\<rparr>) [''futu-001'', []]"

definition sample_host :: admin_host where
  "sample_host = \<lparr>ah_sealed = (\<lambda>_. False), ah_have_sops = False, ah_decrypt = False, ah_sops = (\<lambda>_. SopsMissing),
     ah_yaml = (\<lambda>_. Some (brokers_doc two_brokers)), ah_env = (\<lambda>_. None), ah_py = py_ascii\<rparr>"

lemma int_of_json_numeral: "int_of_json (JNum (numeral n)) = Inr (numeral n)"
  by (simp add: int_of_json_def trunc_def)

lemma broker_of_id:
  "broker_of py [(''id'', JStr i)] (JStr i) =
     Inr \<lparr>bk_id = i, bk_host = ''127.0.0.1'', bk_port = 11111, bk_tls_cert = JNull, bk_quotation_tier = ''free'',
       bk_max_subscriptions = 100, bk_notes = []\<rparr>"
  unfolding broker_of_def jget_or_def by (simp add: int_of_json_numeral to_str_def jor_def)

lemma brokers_editable: "abs_path [''repo''] BROKERS_REL = Inr [''repo'', ''infra'', ''futu'', ''brokers.yaml'']"
proof -
  have rel: "lstrip_slash BROKERS_REL = BROKERS_REL" by (simp add: lstrip_slash_def BROKERS_REL_def)
  have "BROKERS_REL \<in> set EDITABLE_PATHS" by (simp add: EDITABLE_PATHS_def BROKERS_REL_def)
  then have "is_editable BROKERS_REL" by (auto simp: is_editable_def rel list_ex_iff)
  moreover have "BROKERS_REL = join_with ''/'' [''infra'', ''futu'', ''brokers.yaml'']" by (simp add: BROKERS_REL_def)
  then have "split_on CHR ''/'' BROKERS_REL = [''infra'', ''futu'', ''brokers.yaml'']"
    using split_on_join [of "[''infra'', ''futu'', ''brokers.yaml'']" "CHR ''/''"] by fastforce
  ultimately show ?thesis by (simp add: abs_path_def rel resolve_def)
qed

lemma brokers_listed_after_apply_witness:
  "\<exists>s'. apply_brokers (sample_env InMemory) py_ascii (\<lambda>_. ''doc'') ''u'' 0
       (JObj [(''brokers'', JArr [JObj [(''id'', JStr ''futu-001'')], JObj [(''id'', JStr [])]])]) empty_state = (Http200, s')
     \<and> list_brokers sample_host [''repo''] s' = (Http200, Some (brokers_doc [hd two_brokers]))"
proof -
  let ?raw = "[JObj [(''id'', JStr ''futu-001'')], JObj [(''id'', JStr [])]]"
  have rows: "request_rows (ah_py sample_host) ?raw = Inr two_brokers"
    by (simp add: sample_host_def two_brokers_def broker_of_id)
  have path: "abs_path [''repo''] BROKERS_REL = Inr [''repo'', ''infra'', ''futu'', ''brokers.yaml'']"
    by (rule brokers_editable)
  have fixed: "\<exists>s'. apply_fixed (sample_env InMemory) ''u'' 0 BROKERS_REL ''doc'' reason empty_state = (Http200, s')"
    for reason
    using path
    by (simp add: apply_fixed_def read_file_def apply_write_def audit_row_def sink_append_def sink_append_at_def sample_env_def empty_state_def Let_def)
  have rows': "request_rows py_ascii ?raw = Inr two_brokers" using rows by (simp only: sample_host_def admin_host.simps)
  have "\<exists>s'. apply_brokers (sample_env InMemory) py_ascii (\<lambda>_. ''doc'') ''u'' 0 (JObj [(''brokers'', JArr ?raw)])
      empty_state = (Http200, s')"
    using fixed [of "''brokers update via admin UI''"]
    by (simp add: apply_brokers_def rows' del: request_rows.simps)
  then obtain s' where s': "apply_brokers (sample_env InMemory) py_ascii (\<lambda>_. ''doc'') ''u'' 0 (JObj [(''brokers'', JArr ?raw)])
      empty_state = (Http200, s')" ..
  have "list_brokers sample_host (en_root (sample_env InMemory)) s' = (Http200, Some (brokers_doc (filter (\<lambda>b. bk_id b \<noteq> []) two_brokers)))"
    by (rule brokers_listed_after_apply [OF _ rows, where e = "sample_env InMemory" and ?yaml_dump = "\<lambda>_. ''doc''" and uid = "''u''" and ts = 0
          and s = "empty_state"])
      (simp_all only: s' sample_host_def admin_host.simps)
  then show ?thesis using s' by (auto simp: sample_env_def two_brokers_def)
qed

text \<open>
  a connector is reported as working only after a probe with a non-empty key (none for GDELT) was answered
  with 200, for Anthropic also 400 or 405.
\<close>

theorem connector_ok_needs_probe:
  assumes "test_connector h ping name = Inr st" and "cs_state st = ConnOk"
  shows "\<exists>key code. ping name key = ProbeStatus code \<and> (code = 200 \<or> name = ''anthropic'' \<and> code \<in> {400, 405})
    \<and> (key \<noteq> [] \<or> name = ''gdelt'') \<and> name \<in> set known_connectors"
proof -
  have probe: "\<exists>code. p = ProbeStatus code \<and> code \<in> good" if "judge_probe n good d p = st" for n good d p
    using that assms(2) by (auto simp: judge_probe_def split: probe.splits if_splits)
  have keyed: "\<exists>key code. key \<noteq> [] \<and> ping n key = ProbeStatus code \<and> code \<in> good"
    if k: "keyed_test h ping n secret var good d = Inr st" for n secret var good d
  proof -
    obtain plain where "read_plaintext h secret = Inr plain"
      using k by (auto simp: keyed_test_def res_bind_Inr_iff)
    moreover define key where "key = (case plain of Some (c # k) \<Rightarrow> c # k | _ \<Rightarrow> (case ah_env h var of None \<Rightarrow> [] | Some k \<Rightarrow> k))"
    ultimately have "(if key = [] then unconfigured n else judge_probe n good d (ping n key)) = st"
      using k by (simp add: keyed_test_def Let_def split: if_splits)
    then have "key \<noteq> []" "judge_probe n good d (ping n key) = st"
      using assms(2) by (auto simp: unconfigured_def split: if_splits)
    then show ?thesis using probe by blast
  qed
  consider "name = ''deepseek''" | "name = ''anthropic''" | "name = ''fred''" | "name = ''gdelt''"
    | "name \<notin> {''deepseek'', ''anthropic'', ''fred'', ''gdelt''}" by blast
  then show ?thesis
  proof cases
    case 1
    then show ?thesis using assms(1) keyed by (fastforce simp: test_connector_def test_deepseek_def known_connectors_def)
  next
    case 2
    then show ?thesis using assms(1) keyed by (fastforce simp: test_connector_def test_anthropic_def known_connectors_def)
  next
    case 3
    then show ?thesis using assms(1) keyed by (fastforce simp: test_connector_def test_fred_def known_connectors_def)
  next
    case 4
    then show ?thesis using assms(1) probe by (fastforce simp: test_connector_def test_gdelt_def known_connectors_def)
  qed (use assms in \<open>auto simp: test_connector_def\<close>)
qed

lemma connector_ok_needs_probe_witness:
  "\<exists>key code. ProbeStatus 200 = ProbeStatus code \<and> (code = 200 \<or> ''gdelt'' = ''anthropic'' \<and> code \<in> {400, 405})
    \<and> (key \<noteq> [] \<or> ''gdelt'' = ''gdelt'') \<and> ''gdelt'' \<in> set known_connectors"
  using connector_ok_needs_probe [of sample_host "\<lambda>_ _. ProbeStatus 200" "''gdelt''"]
  by (simp add: test_connector_def test_gdelt_def judge_probe_def)

text \<open>
  five of the nine connectors the page lists have no test: they are reported as unconfigured on every host,
  whatever secrets it holds.
\<close>

theorem untested_connectors:
  "filter (\<lambda>name. \<forall>h ping. test_connector h ping name = Inr \<lparr>cs_name = name, cs_state = Unconfigured, cs_detail = Some ''no test handler''\<rparr>)
     known_connectors = [''groq'', ''openai'', ''newsapi'', ''wecom'', ''futu'']"
proof -
  have tested: "\<not> (\<forall>h ping. test_connector h ping name = Inr \<lparr>cs_name = name, cs_state = Unconfigured, cs_detail = Some ''no test handler''\<rparr>)"
    if "name \<in> {''deepseek'', ''anthropic'', ''fred'', ''gdelt''}" for name
  proof
    assume "\<forall>h ping. test_connector h ping name = Inr \<lparr>cs_name = name, cs_state = Unconfigured, cs_detail = Some ''no test handler''\<rparr>"
    then have "test_connector sample_host (\<lambda>_ _. ProbeStatus 500) name = Inr \<lparr>cs_name = name, cs_state = Unconfigured, cs_detail = Some ''no test handler''\<rparr>"
      by blast
    with that show False
      by (auto simp: test_connector_def test_deepseek_def test_anthropic_def test_fred_def test_gdelt_def keyed_test_def
          read_plaintext_def sample_host_def unconfigured_def judge_probe_def)
  qed
  show ?thesis
    using tested [of "''deepseek''"] tested [of "''anthropic''"] tested [of "''fred''"] tested [of "''gdelt''"]
    by (simp add: known_connectors_def) (simp add: test_connector_def)
qed

text \<open>
  verifying a broker raises exactly when the broker file does not load; the handshake's own exceptions come
  back as an answer.
\<close>

theorem verify_raises_iff: "isl (verify_broker h rdir fs handshake b) = isl (load_brokers h rdir fs)"
  by (cases "load_brokers h rdir fs") (auto simp: verify_broker_def split: option.splits sum.splits)

text \<open>the masked form of a secret of four characters shows all of it.\<close>

theorem short_secret_shown:
  assumes "ah_sealed h name" and "ah_have_sops h" and "ah_decrypt h" and "ah_sops h name = SopsOut raw"
    and "ah_yaml h raw = Some (JObj [(''value'', JStr v)])" and "length v = 4"
  shows "masked_value h name = Inr (Some (bullets @ v))"
  using assms by (auto simp: masked_value_def doc_field_def to_str_def)

lemma short_secret_shown_witness:
  "masked_value (sample_host\<lparr>ah_sealed := (\<lambda>_. True), ah_have_sops := True, ah_decrypt := True, ah_sops := (\<lambda>_. SopsOut []),
     ah_yaml := (\<lambda>_. Some (JObj [(''value'', JStr ''1234'')]))\<rparr>) ''futu_opend_password'' = Inr (Some (bullets @ ''1234''))"
  by (rule short_secret_shown) simp_all

end
