(* ===== verification/MarketPull.thy ===== *)
theory MarketPull
  imports FutuQuotes
begin

text \<open>
  The market agent (\<^verbatim>\<open>apps/agent_market/agent_market/\<close>): the crypto writer over ccxt (\<^verbatim>\<open>crypto.py\<close>) and
  the currency writer over FRED (\<^verbatim>\<open>fx.py\<close>), both into the sink of quotes. ccxt's clients, the HTTP
  exchange, \<open>int\<close> of a string and the clock are parameters; every tick is stamped with the clock when it is made.
\<close>

section \<open>Crypto\<close>

definition EXCHANGES :: "string list" where
  "EXCHANGES = [''binance'', ''coinbase'']"

definition DEFAULT_PAIRS :: "string list" where
  "DEFAULT_PAIRS = [''BTC/USDT'', ''ETH/USDT'', ''SOL/USDT'', ''BTC/USD'', ''ETH/USD'']"

text \<open>
  What a pull meets: which exchanges ccxt can build a client for, what a client answers for a pair (a
  ticker, or an exception), and the clock at the \<open>i\<close>-th tick.
\<close>

record ccxt =
  cx_builds :: "string \<Rightarrow> bool"
  cx_ticker :: "string \<Rightarrow> string \<Rightarrow> (string, json) dict option"
  cx_clock :: "nat \<Rightarrow> seconds"

record crypto_writer =
  cw_pairs :: "string list"
  cw_clients :: "string list"

definition client_for :: "ccxt \<Rightarrow> string \<Rightarrow> crypto_writer \<Rightarrow> bool \<times> crypto_writer" where
  "client_for cx ex w =
     (if ex \<in> set (cw_clients w) then (True, w)
      else if cx_builds cx ex then (True, w\<lparr>cw_clients := cw_clients w @ [ex]\<rparr>)
      else (False, w))"

definition crypto_ticker :: "string \<Rightarrow> string" where
  "crypto_ticker pair = filter (\<lambda>c. c \<noteq> CHR ''/'') pair"

text \<open>\<open>float(tkr.get("last") or 0.0)\<close> is not guarded; bid, ask and volume are.\<close>

definition crypto_tick :: "pystd \<Rightarrow> (string \<Rightarrow> int option) \<Rightarrow> seconds \<Rightarrow> string \<Rightarrow> string \<Rightarrow> (string, json) dict \<Rightarrow> exn + quote_tick" where
  "crypto_tick py int_text now ex pair tkr =
     (case float_of py (jor (dget tkr ''last'') (JNum 0)) of
        None \<Rightarrow> Inl (ValueError ''last'')
      | Some price \<Rightarrow> Inr \<lparr>qt_ticker = crypto_ticker pair, qt_exch = upper ex, qt_last = price,
          qt_bid = maybe_float py (dget tkr ''bid''), qt_ask = maybe_float py (dget tkr ''ask''),
          qt_vol = maybe_int int_text (dget tkr ''baseVolume''), qt_ts = now, qt_src = ex\<rparr>)"

fun pull_pairs :: "pystd \<Rightarrow> (string \<Rightarrow> int option) \<Rightarrow> ccxt \<Rightarrow> string \<Rightarrow> string list \<Rightarrow> quote_tick list \<Rightarrow> exn + quote_tick list" where
  "pull_pairs py int_text cx ex [] ticks = Inr ticks"
| "pull_pairs py int_text cx ex (pair # pairs) ticks =
     (case cx_ticker cx ex pair of
        None \<Rightarrow> pull_pairs py int_text cx ex pairs ticks
      | Some tkr \<Rightarrow> res_bind (crypto_tick py int_text (cx_clock cx (length ticks)) ex pair tkr) (\<lambda>t.
          pull_pairs py int_text cx ex pairs (ticks @ [t])))"

fun pull_exchanges :: "pystd \<Rightarrow> (string \<Rightarrow> int option) \<Rightarrow> ccxt \<Rightarrow> string list \<Rightarrow> crypto_writer \<Rightarrow> quote_tick list
    \<Rightarrow> (exn + quote_tick list) \<times> crypto_writer" where
  "pull_exchanges py int_text cx [] w ticks = (Inr ticks, w)"
| "pull_exchanges py int_text cx (ex # exs) w ticks =
     (case client_for cx ex w of
        (False, w1) \<Rightarrow> pull_exchanges py int_text cx exs w1 ticks
      | (True, w1) \<Rightarrow> (case pull_pairs py int_text cx ex (cw_pairs w1) ticks of
            Inl e \<Rightarrow> (Inl e, w1) | Inr ts \<Rightarrow> pull_exchanges py int_text cx exs w1 ts))"

definition crypto_pull :: "pystd \<Rightarrow> (string \<Rightarrow> int option) \<Rightarrow> ccxt \<Rightarrow> (quote_tick list \<Rightarrow> 's \<Rightarrow> nat \<times> 's) \<Rightarrow> crypto_writer \<times> 's
    \<Rightarrow> (exn + nat) \<times> crypto_writer \<times> 's" where
  "crypto_pull py int_text cx ins st =
     (case pull_exchanges py int_text cx EXCHANGES (fst st) [] of
        (Inl e, w) \<Rightarrow> (Inl e, w, snd st)
      | (Inr ticks, w) \<Rightarrow> (case ins ticks (snd st) of (n, s) \<Rightarrow> (Inr n, w, s)))"

section \<open>Currencies\<close>

definition FRED_FX_SERIES :: "(string, string) dict" where
  "FRED_FX_SERIES = [(''DEXUSEU'', ''EURUSD''), (''DEXJPUS'', ''USDJPY''), (''DEXCHUS'', ''USDCNY''), (''DEXHKUS'', ''USDHKD''),
     (''DEXSZUS'', ''USDCHF''), (''DEXUSUK'', ''GBPUSD'')]"

definition fx_url :: "string \<Rightarrow> string \<Rightarrow> string" where
  "fx_url api_key series =
     ''https://api.stlouisfed.org/fred/series/observations?series_id='' @ series @ ''&api_key='' @ api_key
       @ ''&file_type=json&sort_order=desc&limit=1''"

text \<open>The answer of a fetch: a transport or status error of httpx, another exception, or the document.\<close>

datatype fx_answer = FxHttpError | FxRaises string | FxDoc json

text \<open>
  The value of the newest observation: \<open>(blob.get("observations") or [{}])[0].get("value")\<close>. A value that is
  no number is skipped when it is a string and raises otherwise.
\<close>

definition first_observation :: "json \<Rightarrow> exn + (string, json) dict" where
  "first_observation blob =
     (case blob of
        JObj d \<Rightarrow> (case jor (dget d ''observations'') (JArr [JObj []]) of
            JArr (JObj obs # _) \<Rightarrow> Inr obs
          | JArr _ \<Rightarrow> Inl AttributeError
          | JStr _ \<Rightarrow> Inl AttributeError
          | JObj _ \<Rightarrow> Inl (KeyError ''0'')
          | _ \<Rightarrow> Inl TypeError)
      | _ \<Rightarrow> Inl AttributeError)"

definition observed_value :: "pystd \<Rightarrow> (string, json) dict \<Rightarrow> exn + rat option" where
  "observed_value py obs =
     (let raw = dget obs ''value'' in
      if raw \<in> {JNull, JStr [], JStr ''.''} then Inr None
      else case raw of
             JStr s \<Rightarrow> Inr (py_float py s)
           | _ \<Rightarrow> (case float_of py raw of None \<Rightarrow> Inl TypeError | Some x \<Rightarrow> Inr (Some x)))"

definition fx_tick :: "seconds \<Rightarrow> string \<Rightarrow> rat \<Rightarrow> quote_tick" where
  "fx_tick now ticker x = \<lparr>qt_ticker = ticker, qt_exch = ''FX'', qt_last = x, qt_bid = None, qt_ask = None, qt_vol = None,
     qt_ts = now, qt_src = ''fred''\<rparr>"

fun pull_series :: "pystd \<Rightarrow> (string \<Rightarrow> fx_answer) \<Rightarrow> (nat \<Rightarrow> seconds) \<Rightarrow> string \<Rightarrow> (string, string) dict \<Rightarrow> quote_tick list
    \<Rightarrow> exn + quote_tick list" where
  "pull_series py fetch clock key [] ticks = Inr ticks"
| "pull_series py fetch clock key ((series, ticker) # rest) ticks =
     (case fetch (fx_url key series) of
        FxHttpError \<Rightarrow> pull_series py fetch clock key rest ticks
      | FxRaises e \<Rightarrow> Inl (OtherExn e)
      | FxDoc blob \<Rightarrow> res_bind (first_observation blob) (\<lambda>obs. res_bind (observed_value py obs) (\<lambda>v.
          case v of
            None \<Rightarrow> pull_series py fetch clock key rest ticks
          | Some x \<Rightarrow> pull_series py fetch clock key rest (ticks @ [fx_tick (clock (length ticks)) ticker x]))))"

definition fx_pull :: "pystd \<Rightarrow> (string \<Rightarrow> fx_answer) \<Rightarrow> (nat \<Rightarrow> seconds) \<Rightarrow> string \<Rightarrow> (quote_tick list \<Rightarrow> 's \<Rightarrow> nat \<times> 's) \<Rightarrow> 's
    \<Rightarrow> (exn + nat) \<times> 's" where
  "fx_pull py fetch clock key ins s =
     (if key = [] then (Inr 0, s)
      else case pull_series py fetch clock key FRED_FX_SERIES [] of
             Inl e \<Rightarrow> (Inl e, s)
           | Inr ticks \<Rightarrow> (case ins ticks s of (n, s1) \<Rightarrow> (Inr n, s1)))"

section \<open>Lemmas\<close>

lemma pull_pairs_length: "pull_pairs py it cx ex pairs ticks = Inr ts \<Longrightarrow> length ticks \<le> length ts \<and> length ts \<le> length ticks + length pairs"
  by (induction pairs arbitrary: ticks) (fastforce simp: res_bind_Inr_iff split: option.splits)+

lemma pull_pairs_kept:
  "pull_pairs py it cx ex pairs ticks = Inr ts \<Longrightarrow> pair \<in> set pairs \<Longrightarrow> cx_ticker cx ex pair = Some tkr \<Longrightarrow>
     \<exists>now t. crypto_tick py it now ex pair tkr = Inr t"
  by (induction pairs arbitrary: ticks) (fastforce simp: res_bind_Inr_iff split: option.splits)+

lemma client_for_pairs: "client_for cx ex w = (ok, w1) \<Longrightarrow> cw_pairs w1 = cw_pairs w"
  by (auto simp: client_for_def split: if_splits)

lemma client_for_built: "cx_builds cx ex \<Longrightarrow> fst (client_for cx ex w)"
  by (simp add: client_for_def)

lemma pull_exchanges_length:
  "pull_exchanges py it cx exs w ticks = (Inr ts, w1) \<Longrightarrow> length ts \<le> length ticks + length exs * length (cw_pairs w)"
proof (induction exs arbitrary: w ticks)
  case (Cons ex exs)
  obtain ok w2 where c: "client_for cx ex w = (ok, w2)" by fastforce
  note pairs = client_for_pairs [OF c]
  show ?case
  proof (cases ok)
    case True
    then obtain ts1 where p: "pull_pairs py it cx ex (cw_pairs w2) ticks = Inr ts1"
        and r: "pull_exchanges py it cx exs w2 ts1 = (Inr ts, w1)"
      using Cons.prems c by (auto split: sum.splits)
    show ?thesis using Cons.IH [OF r] pull_pairs_length [OF p] by (simp add: pairs)
  next
    case False
    then have "pull_exchanges py it cx exs w2 ticks = (Inr ts, w1)" using Cons.prems c by simp
    from Cons.IH [OF this] show ?thesis by (simp add: pairs)
  qed
qed simp

lemma pull_exchanges_kept:
  "pull_exchanges py it cx exs w ticks = (Inr ts, w1) \<Longrightarrow> ex \<in> set exs \<Longrightarrow> cx_builds cx ex \<Longrightarrow> pair \<in> set (cw_pairs w) \<Longrightarrow>
     cx_ticker cx ex pair = Some tkr \<Longrightarrow> \<exists>now t. crypto_tick py it now ex pair tkr = Inr t"
proof (induction exs arbitrary: w ticks)
  case (Cons e exs)
  obtain ok w2 where c: "client_for cx e w = (ok, w2)" by fastforce
  note pairs = client_for_pairs [OF c]
  show ?case
  proof (cases ok)
    case True
    then obtain ts1 where p: "pull_pairs py it cx e (cw_pairs w2) ticks = Inr ts1"
        and r: "pull_exchanges py it cx exs w2 ts1 = (Inr ts, w1)"
      using Cons.prems(1) c by (auto split: sum.splits)
    show ?thesis
    proof (cases "ex = e")
      case True
      then show ?thesis using pull_pairs_kept [OF p] Cons.prems pairs by simp
    qed (use Cons.IH [OF r] Cons.prems pairs in auto)
  next
    case False
    then have "ex \<noteq> e" using client_for_built [OF Cons.prems(3)] c by (metis fst_conv)
    then show ?thesis using Cons c False pairs by auto
  qed
qed simp

section \<open>Properties\<close>

lemma insert_ticks_bounds:
  "set rows \<subseteq> set (fold insert_tick ts rows) \<and> set (fold insert_tick ts rows) \<subseteq> set rows \<union> set ts"
proof (induction ts arbitrary: rows)
  case (Cons t ts)
  have "set rows \<subseteq> set (insert_tick t rows)" "set (insert_tick t rows) \<subseteq> insert t (set rows)" by (auto simp: insert_tick_def)
  then show ?case using Cons.IH [of "insert_tick t rows"] by auto
qed simp

text \<open>The row of a ticker that no other row of it is as new as is what the facade serves, as long as it is fresh.\<close>

lemma newest_row_served:
  assumes "t \<in> set table" and "\<And>r. r \<in> set table \<Longrightarrow> qt_ticker r = qt_ticker t \<Longrightarrow> r \<noteq> t \<Longrightarrow> qt_ts r < qt_ts t"
  shows "lake_snapshot q age table [qt_ticker t] = (if q \<le> qt_ts t + age then [(qt_ticker t, qt_last t)] else [])"
proof (cases "q \<le> qt_ts t + age")
  case True
  then have "t \<in> set (fresh_rows (q - age) table (qt_ticker t))" using assms(1) by (simp add: fresh_rows_def)
  then obtain r rs where rows: "fresh_rows (q - age) table (qt_ticker t) = r # rs"
    by (cases "fresh_rows (q - age) table (qt_ticker t)") auto
  let ?best = "newest rs r"
  have best: "?best \<in> set (r # rs)" "\<forall>x \<in> set (r # rs). qt_ts x \<le> qt_ts ?best" using newest_in [of rs r] by blast+
  then have "?best \<in> set table" "qt_ticker ?best = qt_ticker t" using rows [symmetric] by (auto simp: fresh_rows_def)
  moreover have "qt_ts t \<le> qt_ts ?best" using best(2) \<open>t \<in> set (fresh_rows _ _ _)\<close> rows by auto
  ultimately have "?best = t" using assms(2) [of ?best] by fastforce
  then show ?thesis using True rows by (simp add: lake_snapshot_def sorted_strings_def)
next
  case False
  have "qt_ts r < q - age" if in_table: "r \<in> set table" "qt_ticker r = qt_ticker t" for r
    using assms(2) [OF in_table] False by (cases "r = t") auto
  then have "fresh_rows (q - age) table (qt_ticker t) = []" by (auto simp: fresh_rows_def filter_empty_conv not_le)
  then show ?thesis using False by (simp add: lake_snapshot_def sorted_strings_def)
qed

text \<open>
  C26: An exchange's answer without a last price is stored with the price zero. Whatever other rows are stored after it, as
  long as it is the newest row of its ticker, a query of the quotes facade at any time up to the maximal age after the pull
  is answered with the price zero, and one later than that with no price at all.
\<close>

theorem missing_price_served_as_zero:
  assumes "crypto_tick py it now ex pair tkr = Inr t" and "\<not> truthy (dget tkr ''last'')"
    and "\<And>r. r \<in> set rows \<union> set later \<Longrightarrow> qt_ticker r = crypto_ticker pair \<Longrightarrow> qt_ts r < now"
  shows "lake_snapshot q age (fold insert_tick later (insert_tick t rows)) [crypto_ticker pair]
    = (if q \<le> now + age then [(crypto_ticker pair, 0)] else [])"
proof -
  let ?table = "fold insert_tick later (insert_tick t rows)"
  have t: "qt_last t = 0" "qt_ts t = now" "qt_ticker t = crypto_ticker pair"
    using assms(1,2) by (auto simp: crypto_tick_def jor_def)
  have "tick_key t \<notin> tick_key ` set rows" using assms(3) t(2,3) by (force simp: tick_key_def)
  then have ins: "insert_tick t rows = rows @ [t]" by (simp add: insert_tick_def)
  have "t \<in> set ?table" using insert_ticks_bounds [of "rows @ [t]" later] by (auto simp: ins)
  moreover have "qt_ts r < qt_ts t" if in_table: "r \<in> set ?table" "qt_ticker r = qt_ticker t" "r \<noteq> t" for r
    using assms(3) [of r] insert_ticks_bounds [of "rows @ [t]" later] in_table t(2,3) by (auto simp: ins)
  ultimately show ?thesis using newest_row_served [of t ?table q age] t by simp
qed

definition no_last :: "(string, json) dict" where
  "no_last = [(''symbol'', JStr ''SOL/USDT''), (''bid'', JNum 100)]"

lemma missing_price_served_as_zero_witness:
  "\<exists>t. crypto_tick py_ascii (\<lambda>_. None) 10 ''binance'' ''SOL/USDT'' no_last = Inr t
     \<and> lake_snapshot 40 60 (fold insert_tick [fx_tick 20 ''EUR/USD'' 1] (insert_tick t [])) [''SOLUSDT''] = [(''SOLUSDT'', 0)]"
proof -
  have "\<exists>t. crypto_tick py_ascii (\<lambda>_. None) 10 ''binance'' ''SOL/USDT'' no_last = Inr t"
    by (simp add: crypto_tick_def no_last_def dget_def jor_def)
  then obtain t where t: "crypto_tick py_ascii (\<lambda>_. None) 10 ''binance'' ''SOL/USDT'' no_last = Inr t" ..
  have s: "crypto_ticker ''SOL/USDT'' = ''SOLUSDT''" by (simp add: crypto_ticker_def)
  have "lake_snapshot 40 60 (fold insert_tick [fx_tick 20 ''EUR/USD'' 1] (insert_tick t [])) [crypto_ticker ''SOL/USDT'']
      = (if (40 :: rat) \<le> 10 + 60 then [(crypto_ticker ''SOL/USDT'', 0)] else [])"
    by (rule missing_price_served_as_zero [OF t]) (auto simp: no_last_def dget_def s fx_tick_def)
  with t show ?thesis unfolding s by auto
qed

text \<open>
  one unreadable last price of any exchange fails the whole pull: no row of any exchange or pair is written.
\<close>

theorem crypto_pull_all_or_nothing:
  assumes "ex \<in> set EXCHANGES" and "cx_builds cx ex" and "pair \<in> set (cw_pairs w)" and "cx_ticker cx ex pair = Some tkr"
    and "\<forall>now. isl (crypto_tick py it now ex pair tkr)"
  shows "\<exists>e w1. crypto_pull py it cx ins (w, s) = (Inl e, w1, s)"
proof -
  obtain r w1 where p: "pull_exchanges py it cx EXCHANGES w [] = (r, w1)" by fastforce
  have "isl r"
  proof (rule ccontr)
    assume "\<not> isl r"
    then obtain ts where "r = Inr ts" by (cases r) auto
    then have "\<exists>now t. crypto_tick py it now ex pair tkr = Inr t"
      using pull_exchanges_kept [of py it cx EXCHANGES w "[]" ts w1] p assms(1-4) by blast
    then show False using assms(5) by (metis sum.disc(2))
  qed
  then show ?thesis using p by (cases r) (simp_all add: crypto_pull_def)
qed

definition one_bad_last :: ccxt where
  "one_bad_last = \<lparr>cx_builds = (\<lambda>_. True),
     cx_ticker = (\<lambda>ex pair. if ex = ''coinbase'' \<and> pair = ''ETH/USD'' then Some [(''last'', JStr ''n/a'')] else Some [(''last'', JNum 100)]),
     cx_clock = of_nat\<rparr>"

lemma crypto_pull_all_or_nothing_witness:
  "\<exists>e w1. crypto_pull py_ascii (\<lambda>_. None) one_bad_last mem_insert (\<lparr>cw_pairs = DEFAULT_PAIRS, cw_clients = []\<rparr>, []) = (Inl e, w1, [])"
  by (rule crypto_pull_all_or_nothing [where ex = "''coinbase''" and pair = "''ETH/USD''" and tkr = "[(''last'', JStr ''n/a'')]"])
    (simp_all add: EXCHANGES_def DEFAULT_PAIRS_def one_bad_last_def crypto_tick_def dget_def jor_def py_ascii_def)

text \<open>The date FRED gives with the newest observation, set to another one.\<close>

definition redate :: "string \<Rightarrow> fx_answer \<Rightarrow> fx_answer" where
  "redate d a =
     (case a of
        FxDoc (JObj m) \<Rightarrow>
          (case map_of m ''observations'' of
             Some (JArr (JObj obs # rest)) \<Rightarrow>
               FxDoc (JObj (AList.update ''observations'' (JArr (JObj (AList.update ''date'' (JStr d) obs) # rest)) m))
           | _ \<Rightarrow> a)
      | _ \<Rightarrow> a)"

definition fx_reading :: "pystd \<Rightarrow> fx_answer \<Rightarrow> exn + rat option" where
  "fx_reading py a = (case a of FxHttpError \<Rightarrow> Inr None | FxRaises e \<Rightarrow> Inl (OtherExn e)
     | FxDoc blob \<Rightarrow> res_bind (first_observation blob) (observed_value py))"

lemma pull_series_reading:
  "pull_series py fetch clock key ((series, ticker) # rest) ticks =
     (case fx_reading py (fetch (fx_url key series)) of
        Inl e \<Rightarrow> Inl e
      | Inr None \<Rightarrow> pull_series py fetch clock key rest ticks
      | Inr (Some x) \<Rightarrow> pull_series py fetch clock key rest (ticks @ [fx_tick (clock (length ticks)) ticker x]))"
  by (auto simp: fx_reading_def res_bind_def split: fx_answer.splits sum.splits option.splits)

lemma fx_reading_redate: "fx_reading py (redate d a) = fx_reading py a"
proof -
  have "observed_value py (AList.update ''date'' (JStr d) obs) = observed_value py obs" for obs
    by (simp add: observed_value_def dget_def update_conv')
  then show ?thesis
    by (auto simp: redate_def fx_reading_def first_observation_def dget_def jor_def update_conv'
        split: fx_answer.splits json.splits option.splits list.splits)
qed

lemma pull_series_stamps:
  "pull_series py fetch clock key ss ticks = Inr ticks' \<Longrightarrow> map qt_ts ticks = map clock [0..<length ticks] \<Longrightarrow>
     map qt_ts ticks' = map clock [0..<length ticks']"
  by (induction ss arbitrary: ticks)
    (auto simp: pull_series_reading fx_tick_def simp del: pull_series.simps(2) split: sum.splits option.splits)

text \<open>
  C38: The date of an observation plays no part in what is stored. Whatever date FRED gives with its newest rate, the pull
  does the same; and every row it writes is stamped with the clock at the moment the row was made, the first with its first
  reading, the second with its second: a rate of last week passes as one of now. Without a key, or when an answer cannot be
  read, it writes nothing.
\<close>

theorem fx_ignores_observation_date:
  "fx_pull py (\<lambda>u. redate d (fetch u)) clock key ins s = fx_pull py fetch clock key ins s
   \<and> (case fx_pull py fetch clock key ins s of
        (Inl e, s1) \<Rightarrow> s1 = s
      | (Inr n, s1) \<Rightarrow> (key = [] \<and> n = 0 \<and> s1 = s)
          \<or> (\<exists>ticks. ins ticks s = (n, s1) \<and> map qt_ts ticks = map clock [0..<length ticks]))"
proof -
  have same: "pull_series py (\<lambda>u. redate d (fetch u)) clock key ss ticks = pull_series py fetch clock key ss ticks" for ss ticks
    by (induction ss arbitrary: ticks)
      (auto simp: pull_series_reading fx_reading_redate simp del: pull_series.simps(2) split: sum.splits option.splits)
  show ?thesis
  proof (cases "pull_series py fetch clock key FRED_FX_SERIES []")
    case (Inr ticks)
    obtain n s1 where "ins ticks s = (n, s1)" by (rule prod.exhaust)
    then show ?thesis using Inr pull_series_stamps [OF Inr] by (auto simp: fx_pull_def same)
  qed (simp add: fx_pull_def same)
qed

text \<open>a pull of crypto prices writes at most one row for each exchange and pair.\<close>

theorem crypto_pull_bounded:
  assumes "crypto_pull py it cx mem_insert (w, rows) = (Inr n, w1, rows1)"
  shows "length rows1 = length rows + n \<and> n \<le> 2 * length (cw_pairs w)"
  using assms pull_exchanges_length [of py it cx EXCHANGES w "[]"]
  by (fastforce simp: crypto_pull_def mem_insert_def EXCHANGES_def split: sum.splits prod.splits)

lemma crypto_pull_bounded_witness:
  "\<exists>n w1 rows1. crypto_pull py_ascii (\<lambda>_. None) \<lparr>cx_builds = (\<lambda>_. False), cx_ticker = (\<lambda>_ _. None), cx_clock = of_nat\<rparr> mem_insert
      (\<lparr>cw_pairs = DEFAULT_PAIRS, cw_clients = []\<rparr>, []) = (Inr n, w1, rows1) \<and> length rows1 = n \<and> n \<le> 10"
proof -
  let ?r = "crypto_pull py_ascii (\<lambda>_. None) \<lparr>cx_builds = (\<lambda>_. False), cx_ticker = (\<lambda>_ _. None), cx_clock = of_nat\<rparr> mem_insert
      (\<lparr>cw_pairs = DEFAULT_PAIRS, cw_clients = []\<rparr>, [])"
  have "\<exists>n w1 rows1. ?r = (Inr n, w1, rows1)"
    by (simp add: crypto_pull_def EXCHANGES_def client_for_def mem_insert_def)
  then obtain n w1 rows1 where r: "?r = (Inr n, w1, rows1)" by blast
  from crypto_pull_bounded [OF r] r show ?thesis by (auto simp: DEFAULT_PAIRS_def)
qed

end
