(* ===== verification/FutuOpenD.thy ===== *)
theory FutuOpenD
  imports FutuQuotes FutuClient
begin

text \<open>
  What stands behind the FUTU agent's clients (\<^verbatim>\<open>apps/agent_futu/futu/\<close>): the deterministic OpenD of
  \<^verbatim>\<open>fake_opend.py\<close>, the lazily connected one of \<^verbatim>\<open>real_opend.py\<close>, the two quote contexts of \<^verbatim>\<open>quote_client.py\<close>,
  and the service of \<^verbatim>\<open>main.py\<close> with its portfolio endpoint, which drives the aggregator (\<^verbatim>\<open>aggregator.py\<close>)
  through the audited client of \<open>FutuClient\<close>. The futu SDK is a parameter. Ids and times of audit
  entries come from the environment, by the number of the entry.
\<close>

section \<open>The fake OpenD\<close>

type_synonym row = "(string, json) dict"
type_synonym answer = "int \<times> row list"

definition RET_OK :: int where
  "RET_OK = 0"

record fake_openD =
  fo_futu_id :: string
  fo_accounts :: "row list"
  fo_positions :: "(string, row list) dict"

definition fake_acc_list :: "fake_openD \<Rightarrow> answer" where
  "fake_acc_list f = (RET_OK, fo_accounts f)"

definition accinfo_row :: "json \<Rightarrow> row \<Rightarrow> row" where
  "accinfo_row acc_id acc =
     [(''acc_id'', acc_id), (''currency'', jget_or (JObj acc) ''base_currency'' (JStr ''USD'')),
      (''total_assets'', jget_or (JObj acc) ''nav'' (JNum 0)), (''cash'', jget_or (JObj acc) ''cash'' (JNum 0)),
      (''power'', jget_or (JObj acc) ''purchasing_power'' (JNum 0))]"

fun accinfo_loop :: "json \<Rightarrow> row list \<Rightarrow> exn + answer" where
  "accinfo_loop acc_id [] = Inr (-1, [])"
| "accinfo_loop acc_id (acc # accs) =
     res_bind (jitem (JObj acc) ''acc_id'') (\<lambda>i. if i = acc_id then Inr (RET_OK, [accinfo_row acc_id acc]) else accinfo_loop acc_id accs)"

definition fake_accinfo :: "fake_openD \<Rightarrow> json \<Rightarrow> exn + answer" where
  "fake_accinfo f acc_id = accinfo_loop acc_id (fo_accounts f)"

definition fake_positions :: "fake_openD \<Rightarrow> string \<Rightarrow> answer" where
  "fake_positions f acc_id = (RET_OK, case map_of (fo_positions f) acc_id of None \<Rightarrow> [] | Some ps \<Rightarrow> ps)"

definition fake_orders :: answer where
  "fake_orders = (RET_OK, [])"

definition fake_market_state :: "json list \<Rightarrow> answer" where
  "fake_market_state codes = (RET_OK, map (\<lambda>c. [(''code'', c), (''market_state'', JStr ''TRADE'')]) codes)"

text \<open>
  The object as the read-only client sees it: a method by its name, on its positional arguments. The
  positions are kept in a dict by text, so an unhashable account id raises and any other has none.
\<close>

definition fake_attr :: "fake_openD \<Rightarrow> (json list, answer, unit) openD" where
  "fake_attr f name =
     (let one = (\<lambda>g args w. case args of [a] \<Rightarrow> (g a, w) | _ \<Rightarrow> (Raised ''TypeError'', w)) in
      if name = ''get_acc_list'' then Some (\<lambda>args w. if args = [] then (Returned (fake_acc_list f), w) else (Raised ''TypeError'', w))
      else if name = ''accinfo_query'' then Some (one (\<lambda>a. case fake_accinfo f a of Inl e \<Rightarrow> Raised ''KeyError'' | Inr r \<Rightarrow> Returned r))
      else if name = ''position_list_query'' then Some (one (\<lambda>a. case a of JStr i \<Rightarrow> Returned (fake_positions f i)
          | JArr _ \<Rightarrow> Raised ''TypeError'' | JObj _ \<Rightarrow> Raised ''TypeError'' | _ \<Rightarrow> Returned (RET_OK, [])))
      else if name \<in> {''order_list_query'', ''history_order_list_query'', ''history_deal_list_query''} then Some (one (\<lambda>_. Returned fake_orders))
      else if name = ''get_market_state'' then Some (one (\<lambda>a. case a of JArr codes \<Rightarrow> Returned (fake_market_state codes)
          | JStr t \<Rightarrow> Returned (fake_market_state (map (\<lambda>c. JStr [c]) t)) | JObj d \<Rightarrow> Returned (fake_market_state (map JStr (remdups (map fst d))))
          | _ \<Rightarrow> Raised ''TypeError''))
      else None)"

definition fixture_position :: "string \<times> rat \<times> rat \<times> rat \<times> rat \<Rightarrow> row" where
  "fixture_position p = (case p of (code, qty, cost, mv, pl) \<Rightarrow>
     [(''code'', JStr code), (''qty'', JNum qty), (''cost_price'', JNum cost), (''market_val'', JNum mv), (''pl_val'', JNum pl)])"

definition fixture_acc :: "string \<Rightarrow> string \<Rightarrow> rat \<Rightarrow> rat \<Rightarrow> rat \<Rightarrow> row" where
  "fixture_acc acc_id ccy nav cash pp =
     [(''acc_id'', JStr acc_id), (''base_currency'', JStr ccy), (''nav'', JNum nav), (''cash'', JNum cash), (''purchasing_power'', JNum pp)]"

definition fake_a :: fake_openD where
  "fake_a = \<lparr>fo_futu_id = ''ZW-PRIMARY'', fo_accounts = [fixture_acc ''acc-001'' ''USD'' 100000 25000 50000],
     fo_positions = [(''acc-001'', map fixture_position
       [(''US.AAPL'', 100, 150, 22000, 7000), (''US.MSFT'', 50, 300, 22500, 7500), (''US.SPY'', 20, 400, 9000, 1000),
        (''US.GLD'', 40, 200, 9200, 1200), (''US.TLT'', 100, 90, 9300, 300)])]\<rparr>"

definition fake_b :: fake_openD where
  "fake_b = \<lparr>fo_futu_id = ''ZW-FAMILY'', fo_accounts = [fixture_acc ''acc-100'' ''HKD'' 500000 200000 300000],
     fo_positions = [(''acc-100'', map fixture_position
       [(''HK.00700'', 200, 350, 80000, 10000), (''HK.09988'', 1000, 80, 90000, 10000), (''HK.02800'', 5000, 21, 110000, 5000),
        (''HK.03690'', 500, 100, 55000, 5000), (''HK.01211'', 200, 220, 47000, 3000)])]\<rparr>"

section \<open>The real OpenD\<close>

record real_cfg =
  rl_host :: string
  rl_port :: int
  rl_timeout_s :: int
  rl_tls_cert :: "string option"

definition int_env :: "string \<Rightarrow> string option \<Rightarrow> int \<Rightarrow> exn + int" where
  "int_env name v fallback = (case v of None \<Rightarrow> Inr fallback | Some s \<Rightarrow> (case py_int s of None \<Rightarrow> Inl (ValueError s) | Some n \<Rightarrow> Inr n))"

definition real_cfg_from_env :: "(string \<Rightarrow> string option) \<Rightarrow> exn + real_cfg" where
  "real_cfg_from_env env =
     res_bind (int_env ''port'' (env ''FUTU_OPEND_PORT'') 11111) (\<lambda>port.
     res_bind (int_env ''timeout'' (env ''FUTU_OPEND_TIMEOUT'') 5) (\<lambda>timeout.
     Inr \<lparr>rl_host = (case env ''FUTU_OPEND_HOST'' of None \<Rightarrow> ''127.0.0.1'' | Some h \<Rightarrow> h), rl_port = port, rl_timeout_s = timeout,
          rl_tls_cert = (case env ''FUTU_OPEND_TLS_CERT'' of Some (c # s) \<Rightarrow> Some (c # s) | _ \<Rightarrow> None)\<rparr>))"

text \<open>
  The SDK: building a context from host, port and the encryption flag, a call on a context, closing one. A
  building that raises leaves no context behind.
\<close>

record ('c, 'v, 'w) sdk =
  sk_connect :: "string \<Rightarrow> int \<Rightarrow> bool \<Rightarrow> 'w \<Rightarrow> (string + 'c) \<times> 'w"
  sk_call :: "'c \<Rightarrow> string \<Rightarrow> string list \<Rightarrow> 'w \<Rightarrow> 'v outcome \<times> 'w"
  sk_close :: "'c \<Rightarrow> 'w \<Rightarrow> 'w"

definition real_ctx :: "('c, 'v, 'w) sdk \<Rightarrow> real_cfg \<Rightarrow> 'c option \<times> 'w \<Rightarrow> (string + 'c) \<times> 'c option \<times> 'w" where
  "real_ctx sdk cfg st =
     (case st of
        (Some c, w) \<Rightarrow> (Inr c, Some c, w)
      | (None, w) \<Rightarrow> (case sk_connect sdk (rl_host cfg) (rl_port cfg) (rl_tls_cert cfg \<noteq> None) w of
            (Inl e, w1) \<Rightarrow> (Inl e, None, w1)
          | (Inr c, w1) \<Rightarrow> (Inr c, Some c, w1)))"

datatype real_op = RealCall string "string list" | RealClose

fun real_step :: "('c, 'v, 'w) sdk \<Rightarrow> real_cfg \<Rightarrow> real_op \<Rightarrow> 'c option \<times> 'w \<Rightarrow> 'v outcome option \<times> 'c option \<times> 'w" where
  "real_step sdk cfg (RealCall name args) st =
     (case real_ctx sdk cfg st of
        (Inl e, c, w) \<Rightarrow> (Some (Raised e), c, w)
      | (Inr ctx, c, w) \<Rightarrow> (case sk_call sdk ctx name args w of (out, w1) \<Rightarrow> (Some out, c, w1)))"
| "real_step sdk cfg RealClose st =
     (case st of (Some c, w) \<Rightarrow> (None, None, sk_close sdk c w) | (None, w) \<Rightarrow> (None, None, w))"

fun real_run :: "('c, 'v, 'w) sdk \<Rightarrow> real_cfg \<Rightarrow> real_op list \<Rightarrow> 'c option \<times> 'w \<Rightarrow> 'v outcome option list \<times> 'c option \<times> 'w" where
  "real_run sdk cfg [] st = ([], st)"
| "real_run sdk cfg (x # xs) st =
     (case real_step sdk cfg x st of (r, st1) \<Rightarrow> (case real_run sdk cfg xs st1 of (rs, st2) \<Rightarrow> (r # rs, st2)))"

section \<open>Quote contexts\<close>

record fake_quote_ctx =
  fq_snapshots :: "(string, row) dict"
  fq_subs :: "string set"

definition fake_snapshot :: "fake_quote_ctx \<Rightarrow> string list \<Rightarrow> answer" where
  "fake_snapshot q codes = (0, map (\<lambda>code. let snap = (case map_of (fq_snapshots q) code of None \<Rightarrow> [] | Some s \<Rightarrow> s) in
      [(''code'', JStr code), (''last_price'', jget_or (JObj snap) ''last'' (JNum 0)), (''volume'', jget_or (JObj snap) ''vol'' (JNum 0))]) codes)"

fun fake_sub_step :: "quote_call \<Rightarrow> fake_quote_ctx \<Rightarrow> fake_quote_ctx" where
  "fake_sub_step (Subscribe codes st) q = q\<lparr>fq_subs := fq_subs q \<union> set codes\<rparr>"
| "fake_sub_step (Unsubscribe codes st) q = q\<lparr>fq_subs := fq_subs q - set codes\<rparr>"

datatype quote_backend = FakeQuotes | RealQuotes string int

definition make_quote_client :: "(string \<Rightarrow> string option) \<Rightarrow> exn + quote_backend" where
  "make_quote_client env =
     (if lower (case env ''FUTU_QUOTE_BACKEND'' of None \<Rightarrow> ''real'' | Some b \<Rightarrow> b) = ''fake'' then Inr FakeQuotes
      else res_bind (int_env ''port'' (env ''FUTU_OPEND_PORT'') 11111) (\<lambda>port.
        Inr (RealQuotes (case env ''FUTU_OPEND_HOST'' of None \<Rightarrow> ''127.0.0.1'' | Some h \<Rightarrow> h) port)))"

section \<open>The service\<close>

record futu_service =
  sv_clients :: "(fake_openD \<times> string) list"
  sv_audit :: futu_log

definition futu_startup :: "bool \<Rightarrow> futu_service \<Rightarrow> futu_service" where
  "futu_startup autostart s = (if autostart then s\<lparr>sv_clients := [(fake_a, ''fid_primary''), (fake_b, ''fid_family'')]\<rparr> else s)"

text \<open>The aggregator (\<^verbatim>\<open>aggregator.py\<close>) as it runs: every call on a client goes through the audited wrapper.\<close>

type_synonym 'a audited = "futu_log \<Rightarrow> (exn + 'a) \<times> futu_log"

definition audit_bind :: "'a audited \<Rightarrow> ('a \<Rightarrow> 'b audited) \<Rightarrow> 'b audited" where
  "audit_bind m f = (\<lambda>lg. case m lg of (Inl e, lg1) \<Rightarrow> (Inl e, lg1) | (Inr x, lg1) \<Rightarrow> f x lg1)"

definition audit_lift :: "exn + 'a \<Rightarrow> 'a audited" where
  "audit_lift r = (\<lambda>lg. (r, lg))"

definition summarise_answer :: "answer \<Rightarrow> string" where
  "summarise_answer a = ''ok='' @ (if fst a < 0 then ''-'' else []) @ show_nat (nat \<bar>fst a\<bar>) @ '' rows='' @ show_nat (length (snd a))"

text \<open>The environment of the entries: SHA-256, \<open>_safe_repr\<close> of the arguments, and the id and the time of the \<open>n\<close>-th entry.\<close>

record audit_env =
  au_sha :: "string \<Rightarrow> string"
  au_rep :: "json list \<Rightarrow> string \<times> string"
  au_stamp :: "nat \<Rightarrow> string \<times> string"

definition ask :: "audit_env \<Rightarrow> fake_openD \<times> string \<Rightarrow> string \<Rightarrow> json list \<Rightarrow> answer audited" where
  "ask au c name args lg =
     (case client_call (au_sha au) (au_rep au) summarise_answer (snd c) (fake_attr (fst c))
             \<lparr>ca_name = name, ca_args = args, ca_entry_id = fst (au_stamp au (length lg)), ca_issued_at = snd (au_stamp au (length lg))\<rparr>
             \<lparr>cs_log = lg, cs_world = ()\<rparr> of
        (Called (Returned a), s1) \<Rightarrow> (Inr a, cs_log s1)
      | (Called (Raised e), s1) \<Rightarrow> (Inl (OtherExn e), cs_log s1)
      | (Called TornDown, s1) \<Rightarrow> (Inl (OtherExn ''BaseException''), cs_log s1)
      | (Refused, s1) \<Rightarrow> (Inl (OtherExn ''FutuReadOnlyError''), cs_log s1)
      | (NotCallable, s1) \<Rightarrow> (Inl TypeError, cs_log s1))"

fun audited_accounts :: "audit_env \<Rightarrow> pystd \<Rightarrow> fake_openD \<times> string \<Rightarrow> row list \<Rightarrow> account_state list audited" where
  "audited_accounts au py c [] = audit_lift (Inr [])"
| "audited_accounts au py c (acc # accs) =
     audit_bind (audit_lift (jitem (JObj acc) ''acc_id'')) (\<lambda>acc_id.
     audit_bind (ask au c ''position_list_query'' [acc_id]) (\<lambda>pos.
     audit_bind (audit_lift (account_of py \<lparr>fc_id_hash = snd c, fc_acc_list = (RET_OK, []), fc_positions = (\<lambda>_. pos)\<rparr>
                   acc (jget_or (JObj acc) ''base_currency'' (JStr ''USD'')) acc_id)) (\<lambda>a.
     audit_bind (audited_accounts au py c accs) (\<lambda>others. audit_lift (Inr (a # others))))))"

fun audited_clients :: "audit_env \<Rightarrow> pystd \<Rightarrow> (fake_openD \<times> string) list \<Rightarrow> account_state list audited" where
  "audited_clients au py [] = audit_lift (Inr [])"
| "audited_clients au py (c # cs) =
     audit_bind (ask au c ''get_acc_list'' []) (\<lambda>(ret, accs).
     audit_bind (if ret \<noteq> 0 then audit_lift (Inr []) else audited_accounts au py c accs) (\<lambda>mine.
     audit_bind (audited_clients au py cs) (\<lambda>others. audit_lift (Inr (mine @ others)))))"

definition aggregate_of :: "account_state list \<Rightarrow> aggregate_state" where
  "aggregate_of accounts =
     (let total_nav = sum_list (map ac_nav accounts) in
      \<lparr>ag_accounts = accounts, ag_nav = total_nav, ag_cash = sum_list (map ac_cash accounts),
       ag_largest_concentration_pct_nav = largest_concentration_pct accounts total_nav, ag_base_currency = ''USD''\<rparr>)"

datatype portfolio_reply = Unavailable string | PortfolioRaises exn | Portfolio aggregate_state

definition portfolio_snapshot :: "audit_env \<Rightarrow> pystd \<Rightarrow> bool \<Rightarrow> futu_service \<Rightarrow> portfolio_reply \<times> futu_service" where
  "portfolio_snapshot au py enabled s =
     (if \<not> enabled then (Unavailable ''agent_futu.enabled flag is off'', s)
      else if sv_clients s = [] then (Unavailable ''no OpenD clients registered (set FUTU_AUTOSTART=1)'', s)
      else case audited_clients au py (sv_clients s) (sv_audit s) of
             (Inl e, lg) \<Rightarrow> (PortfolioRaises e, s\<lparr>sv_audit := lg\<rparr>)
           | (Inr accounts, lg) \<Rightarrow> (Portfolio (aggregate_of accounts), s\<lparr>sv_audit := lg\<rparr>))"

record futu_health =
  fh_openD_count :: nat
  fh_audit_entries :: nat
  fh_audit_head :: string
  fh_flag_on :: bool

definition health :: "bool \<Rightarrow> futu_service \<Rightarrow> futu_health" where
  "health enabled s = \<lparr>fh_openD_count = length (sv_clients s), fh_audit_entries = length (sv_audit s), fh_audit_head = fl_head (sv_audit s),
     fh_flag_on = enabled\<rparr>"

definition audit_head :: "(string \<Rightarrow> string) \<Rightarrow> futu_service \<Rightarrow> string \<times> nat \<times> bool" where
  "audit_head sha s = (fl_head (sv_audit s), length (sv_audit s), fl_verify_chain sha (sv_audit s))"

section \<open>Lemmas\<close>

text \<open>A log whose entries got their ids from the environment, in order, and whose chain is intact.\<close>

definition log_of :: "audit_env \<Rightarrow> futu_log \<Rightarrow> bool" where
  "log_of au lg \<longleftrightarrow> log_ids lg = map (fst \<circ> au_stamp au) [0..<length lg] \<and> fl_verify_chain (au_sha au) lg"

definition call_view :: "futu_entry \<Rightarrow> string \<times> string \<times> string" where
  "call_view e = (fe_method e, fe_args_repr e, fe_status e)"

lemma ask_answered:
  assumes "inj (fst \<circ> au_stamp au)" and "log_of au lg" and "name \<in> set ALLOWED_METHODS"
    and "fake_attr (fst c) name = Some g" and "g args () = (Returned a, ())"
  shows "\<exists>e. ask au c name args lg = (Inr a, lg @ [e]) \<and> log_of au (lg @ [e]) \<and> call_view e = (name, fst (au_rep au args), ''ok'')"
proof -
  let ?c = "\<lparr>ca_name = name, ca_args = args, ca_entry_id = fst (au_stamp au (length lg)), ca_issued_at = snd (au_stamp au (length lg))\<rparr>"
  obtain r s1 where call: "client_call (au_sha au) (au_rep au) summarise_answer (snd c) (fake_attr (fst c)) ?c \<lparr>cs_log = lg, cs_world = ()\<rparr> = (r, s1)"
    by (rule prod.exhaust)
  have "client_getattr (fake_attr (fst c)) name = Method g" using assms(3,4) client_getattr_Method by blast
  then have r: "r = Called (Returned a)"
    using call assms(5) by (auto simp: client_call_def wrapped_def Let_def split: prod.splits)
  have "fst (au_stamp au (length lg)) \<notin> set (log_ids lg)"
    using assms(1,2) by (auto simp: log_of_def inj_eq [OF assms(1), unfolded comp_def])
  then obtain es where es: "cs_log s1 = lg @ es" "map entry_view es = audit_due (au_rep au) ?c r" "fl_verify_chain (au_sha au) (cs_log s1)"
    using client_call_audited [OF _ _ call] assms(2) by (auto simp: log_of_def)
  then obtain e where e: "es = [e]" "entry_view e = (fst (au_stamp au (length lg)), name, fst (au_rep au args), snd (au_rep au args), ''ok'')"
    by (auto simp: r)
  have "ask au c name args lg = (Inr a, lg @ [e])" by (simp add: ask_def call r es(1) e(1))
  moreover have "log_of au (lg @ [e])" using assms(2) es e by (simp add: log_of_def log_ids_def entry_view_def)
  moreover have "call_view e = (name, fst (au_rep au args), ''ok'')" using e(2) by (simp add: call_view_def entry_view_def)
  ultimately show ?thesis by blast
qed

definition observed :: "fake_openD \<times> string \<Rightarrow> futu_client" where
  "observed c = \<lparr>fc_id_hash = snd c, fc_acc_list = fake_acc_list (fst c),
     fc_positions = (\<lambda>a. case a of JStr i \<Rightarrow> fake_positions (fst c) i | _ \<Rightarrow> (RET_OK, []))\<rparr>"

definition acc_ids :: "fake_openD \<Rightarrow> string list \<Rightarrow> bool" where
  "acc_ids f ids \<longleftrightarrow> map (\<lambda>acc. map_of acc ''acc_id'') (fo_accounts f) = map (Some \<circ> JStr) ids"

lemma account_of_observed:
  "account_of py \<lparr>fc_id_hash = snd c, fc_acc_list = l, fc_positions = (\<lambda>_. fake_positions (fst c) i)\<rparr> acc ccy (JStr i)
     = account_of py (observed c) acc ccy (JStr i)"
  by (simp add: account_of_def observed_def)

lemma audited_accounts_run:
  assumes "inj (fst \<circ> au_stamp au)"
  shows "log_of au lg \<Longrightarrow> map (\<lambda>acc. map_of acc ''acc_id'') accs = map (Some \<circ> JStr) ids \<Longrightarrow>
      those_res (map (read_account py (observed c)) accs) = Inr accounts \<Longrightarrow>
      \<exists>es. audited_accounts au py c accs lg = (Inr accounts, lg @ es) \<and> log_of au (lg @ es)
        \<and> map call_view es = map (\<lambda>i. (''position_list_query'', fst (au_rep au [JStr i]), ''ok'')) ids"
proof (induction accs arbitrary: lg ids accounts)
  case (Cons acc accs)
  obtain i js where ids: "ids = i # js" "map_of acc ''acc_id'' = Some (JStr i)"
      "map (\<lambda>acc. map_of acc ''acc_id'') accs = map (Some \<circ> JStr) js" using Cons.prems(2) by (cases ids) auto
  have this_account: "read_account py (observed c) acc
      = account_of py (observed c) acc (jget_or (JObj acc) ''base_currency'' (JStr ''USD'')) (JStr i)"
    by (simp add: read_account_def jitem_def ids(2))
  obtain a others where a: "account_of py (observed c) acc (jget_or (JObj acc) ''base_currency'' (JStr ''USD'')) (JStr i) = Inr a"
      "those_res (map (read_account py (observed c)) accs) = Inr others" "accounts = a # others"
    using Cons.prems(3) by (auto simp: this_account res_bind_Inr_iff)
  obtain g where g: "fake_attr (fst c) ''position_list_query'' = Some g" "g [JStr i] () = (Returned (fake_positions (fst c) i), ())"
    by (simp add: fake_attr_def Let_def)
  have "''position_list_query'' \<in> set ALLOWED_METHODS" by (simp add: ALLOWED_METHODS_def)
  from ask_answered [OF assms Cons.prems(1) this g] obtain e where e:
      "ask au c ''position_list_query'' [JStr i] lg = (Inr (fake_positions (fst c) i), lg @ [e])" "log_of au (lg @ [e])"
      "call_view e = (''position_list_query'', fst (au_rep au [JStr i]), ''ok'')" by blast
  from Cons.IH [OF e(2) ids(3) a(2)] obtain es where es: "audited_accounts au py c accs (lg @ [e]) = (Inr others, (lg @ [e]) @ es)"
      "log_of au ((lg @ [e]) @ es)" "map call_view es = map (\<lambda>i. (''position_list_query'', fst (au_rep au [JStr i]), ''ok'')) js" by blast
  have "audited_accounts au py c (acc # accs) lg = (Inr accounts, lg @ e # es)"
    using a(1) by (simp add: audit_bind_def audit_lift_def jitem_def ids(2) e(1) account_of_observed es(1) a(3))
  then show ?case using es e(3) by (intro exI [of _ "e # es"]) (simp add: ids(1))
qed (simp add: audit_lift_def)

text \<open>
  A run over clients whose account ids are texts gives the accounts of the pure aggregate
  (\<open>FutuQuotes\<close>) and leaves one finished entry for each of its calls, in order.
\<close>

lemma audited_clients_run:
  assumes "inj (fst \<circ> au_stamp au)"
  shows "log_of au lg \<Longrightarrow> list_all2 (\<lambda>c. acc_ids (fst c)) cs idss \<Longrightarrow> those_res (map (client_accounts py) (map observed cs)) = Inr per \<Longrightarrow>
      \<exists>es. audited_clients au py cs lg = (Inr (concat per), lg @ es) \<and> log_of au (lg @ es)
        \<and> map call_view es = concat (map (\<lambda>ids. (''get_acc_list'', fst (au_rep au []), ''ok'')
              # map (\<lambda>i. (''position_list_query'', fst (au_rep au [JStr i]), ''ok'')) ids) idss)"
proof (induction cs arbitrary: lg idss per)
  case (Cons c cs)
  obtain ids idss' where ids: "idss = ids # idss'" "acc_ids (fst c) ids" "list_all2 (\<lambda>c. acc_ids (fst c)) cs idss'"
    using Cons.prems(2) by (cases idss) auto
  obtain mine per' where per: "per = mine # per'" "client_accounts py (observed c) = Inr mine"
      "those_res (map (client_accounts py) (map observed cs)) = Inr per'"
    using Cons.prems(3) by (auto simp: res_bind_Inr_iff)
  have obs: "fc_acc_list (observed c) = (0, fo_accounts (fst c))" by (simp add: observed_def fake_acc_list_def RET_OK_def)
  have mine: "those_res (map (read_account py (observed c)) (fo_accounts (fst c))) = Inr mine"
    using per(2) by (simp add: client_accounts_def obs)
  obtain g where g: "fake_attr (fst c) ''get_acc_list'' = Some g" "g [] () = (Returned (fake_acc_list (fst c)), ())"
    by (simp add: fake_attr_def Let_def)
  have "''get_acc_list'' \<in> set ALLOWED_METHODS" by (simp add: ALLOWED_METHODS_def)
  from ask_answered [OF assms Cons.prems(1) this g] obtain e where e:
      "ask au c ''get_acc_list'' [] lg = (Inr (fake_acc_list (fst c)), lg @ [e])" "log_of au (lg @ [e])"
      "call_view e = (''get_acc_list'', fst (au_rep au []), ''ok'')" by blast
  from audited_accounts_run [OF assms e(2) ids(2) [unfolded acc_ids_def] mine] obtain es where es:
      "audited_accounts au py c (fo_accounts (fst c)) (lg @ [e]) = (Inr mine, (lg @ [e]) @ es)" "log_of au ((lg @ [e]) @ es)"
      "map call_view es = map (\<lambda>i. (''position_list_query'', fst (au_rep au [JStr i]), ''ok'')) ids" by blast
  from Cons.IH [OF es(2) ids(3) per(3)] obtain fs where fs:
      "audited_clients au py cs ((lg @ [e]) @ es) = (Inr (concat per'), ((lg @ [e]) @ es) @ fs)" "log_of au (((lg @ [e]) @ es) @ fs)"
      "map call_view fs = concat (map (\<lambda>ids. (''get_acc_list'', fst (au_rep au []), ''ok'')
              # map (\<lambda>i. (''position_list_query'', fst (au_rep au [JStr i]), ''ok'')) ids) idss')" by blast
  have "audited_clients au py (c # cs) lg = (Inr (concat per), lg @ e # es @ fs)"
    using es(1) fs(1) by (simp add: audit_bind_def audit_lift_def e(1) fake_acc_list_def RET_OK_def per(1))
  then show ?case using fs es(3) e(3) by (intro exI [of _ "e # es @ fs"]) (simp add: ids(1))
qed (simp add: audit_lift_def)

lemma fixture_read:
  "read_position py ccy (fixture_position (code, qty, cost, mv, pl)) =
     Inr \<lparr>po_ticker = snd (parse_code code), po_venue = fst (parse_code code), po_qty = qty, po_cost_basis = cost, po_currency = ccy,
       po_market_value = mv, po_unrealized = pl\<rparr>"
  by (simp add: read_position_def fixture_position_def jitem_def get_float_def jget_or_def)

lemma fixture_accounts:
  "\<exists>per. those_res (map (client_accounts py) (map observed [(fake_a, ''fid_primary''), (fake_b, ''fid_family'')])) = Inr per
     \<and> sum_list (map ac_nav (concat per)) = 600000 \<and> sum_list (map ac_cash (concat per)) = 225000
     \<and> map ac_account_id (concat per) = [JStr ''acc-001'', JStr ''acc-100'']
     \<and> map ac_base_currency (concat per) = [JStr ''USD'', JStr ''HKD'']"
  by (simp add: client_accounts_def observed_def fake_acc_list_def RET_OK_def fake_a_def fake_b_def
      read_account_def account_of_def fixture_acc_def jitem_def get_float_def jget_or_def fake_positions_def fixture_read Let_def)

section \<open>Properties\<close>

text \<open>
  C28: With its flag off (the default) the portfolio endpoint answers 503 and calls nothing; so it does when it was not
  started with FUTU_AUTOSTART. Started, and with the flag on, it reports the two fixture accounts and nothing else, whatever
  the real accounts hold: a net asset value of 600000 labelled USD, the sum of 100000 US dollars and 500000 Hong Kong
  dollars. Each request appends exactly the four entries of the aggregator's own calls (the accounts of either client and
  the positions of its account, each answered), and the chain still verifies; entry ids are taken to be fresh, as uuid4 ids are.
\<close>

theorem portfolio_is_fixture:
  assumes "inj (fst \<circ> au_stamp au)" and "log_of au (sv_audit s)"
  shows "portfolio_snapshot au py False s = (Unavailable ''agent_futu.enabled flag is off'', s)
    \<and> (let s0 = futu_startup False (s\<lparr>sv_clients := []\<rparr>) in
         portfolio_snapshot au py True s0 = (Unavailable ''no OpenD clients registered (set FUTU_AUTOSTART=1)'', s0))
    \<and> (\<exists>a es. portfolio_snapshot au py True (futu_startup True s) = (Portfolio a, (futu_startup True s)\<lparr>sv_audit := sv_audit s @ es\<rparr>)
        \<and> ag_nav a = 600000 \<and> ag_cash a = 225000 \<and> ag_base_currency a = ''USD''
        \<and> map ac_account_id (ag_accounts a) = [JStr ''acc-001'', JStr ''acc-100'']
        \<and> map ac_base_currency (ag_accounts a) = [JStr ''USD'', JStr ''HKD'']
        \<and> map (\<lambda>e. (fe_method e, fe_args_repr e, fe_status e)) es =
            [(''get_acc_list'', fst (au_rep au []), ''ok''), (''position_list_query'', fst (au_rep au [JStr ''acc-001'']), ''ok''),
             (''get_acc_list'', fst (au_rep au []), ''ok''), (''position_list_query'', fst (au_rep au [JStr ''acc-100'']), ''ok'')]
        \<and> fl_verify_chain (au_sha au) (sv_audit s @ es) \<and> log_of au (sv_audit s @ es))"
proof -
  let ?cs = "[(fake_a, ''fid_primary''), (fake_b, ''fid_family'')]"
  obtain per where per: "those_res (map (client_accounts py) (map observed ?cs)) = Inr per"
      "sum_list (map ac_nav (concat per)) = 600000" "sum_list (map ac_cash (concat per)) = 225000"
      "map ac_account_id (concat per) = [JStr ''acc-001'', JStr ''acc-100'']" "map ac_base_currency (concat per) = [JStr ''USD'', JStr ''HKD'']"
    using fixture_accounts [of py] by (elim exE conjE)
  have "list_all2 (\<lambda>c. acc_ids (fst c)) ?cs [[''acc-001''], [''acc-100'']]"
    by (simp add: acc_ids_def fake_a_def fake_b_def fixture_acc_def)
  note run = audited_clients_run [OF assms this per(1)]
  have calls: "concat (map (\<lambda>ids. (''get_acc_list'', fst (au_rep au []), ''ok'')
        # map (\<lambda>i. (''position_list_query'', fst (au_rep au [JStr i]), ''ok'')) ids) [[''acc-001''], [''acc-100'']])
      = [(''get_acc_list'', fst (au_rep au []), ''ok''), (''position_list_query'', fst (au_rep au [JStr ''acc-001'']), ''ok''),
         (''get_acc_list'', fst (au_rep au []), ''ok''), (''position_list_query'', fst (au_rep au [JStr ''acc-100'']), ''ok'')]" by simp
  obtain es where es:
      "audited_clients au py ?cs (sv_audit s) = (Inr (concat per), sv_audit s @ es)" "log_of au (sv_audit s @ es)"
      "map call_view es = [(''get_acc_list'', fst (au_rep au []), ''ok''), (''position_list_query'', fst (au_rep au [JStr ''acc-001'']), ''ok''),
             (''get_acc_list'', fst (au_rep au []), ''ok''), (''position_list_query'', fst (au_rep au [JStr ''acc-100'']), ''ok'')]"
    using run unfolding calls by (elim exE conjE)
  let ?a = "aggregate_of (concat per)"
  have snap: "portfolio_snapshot au py True (futu_startup True s) = (Portfolio ?a, (futu_startup True s)\<lparr>sv_audit := sv_audit s @ es\<rparr>)"
    by (simp add: portfolio_snapshot_def futu_startup_def es(1) del: audited_clients.simps)
  have sums: "ag_nav ?a = 600000" "ag_cash ?a = 225000" "ag_base_currency ?a = ''USD''"
    using per(2,3) by (simp_all only: aggregate_of_def Let_def aggregate_state.simps)
  have accs: "map ac_account_id (ag_accounts ?a) = [JStr ''acc-001'', JStr ''acc-100'']"
      "map ac_base_currency (ag_accounts ?a) = [JStr ''USD'', JStr ''HKD'']"
    using per(4,5) by (simp_all only: aggregate_of_def Let_def aggregate_state.simps)
  have off: "portfolio_snapshot au py False s = (Unavailable ''agent_futu.enabled flag is off'', s)"
    by (simp only: portfolio_snapshot_def not_False_eq_True if_True)
  have idle: "portfolio_snapshot au py True (futu_startup False (s\<lparr>sv_clients := []\<rparr>))
      = (Unavailable ''no OpenD clients registered (set FUTU_AUTOSTART=1)'', futu_startup False (s\<lparr>sv_clients := []\<rparr>))"
    by (simp add: portfolio_snapshot_def futu_startup_def)
  have chain: "fl_verify_chain (au_sha au) (sv_audit s @ es)" using es(2) by (simp add: log_of_def)
  show ?thesis unfolding Let_def
    by (intro conjI exI [of _ ?a] exI [of _ es]) (fact off idle snap sums accs es(3) [unfolded call_view_def] chain es(2))+
qed

lemma portfolio_is_fixture_witness:
  "\<exists>a s'. portfolio_snapshot \<lparr>au_sha = id, au_rep = (\<lambda>_. ([], [])), au_stamp = (\<lambda>n. (replicate n CHR ''u'', []))\<rparr> py_ascii True
      (futu_startup True \<lparr>sv_clients = [], sv_audit = []\<rparr>) = (Portfolio a, s') \<and> ag_nav a = 600000 \<and> length (sv_audit s') = 4"
proof -
  let ?au = "\<lparr>au_sha = id, au_rep = (\<lambda>_. ([], [])), au_stamp = (\<lambda>n. (replicate n CHR ''u'', []))\<rparr>"
  have "inj (fst \<circ> au_stamp ?au)" by (auto simp: inj_def dest: arg_cong [where f = length])
  moreover have "log_of ?au (sv_audit \<lparr>sv_clients = [], sv_audit = []\<rparr>)" by (simp add: log_of_def log_ids_def fl_verify_chain_def)
  ultimately obtain a es where "portfolio_snapshot ?au py_ascii True (futu_startup True \<lparr>sv_clients = [], sv_audit = []\<rparr>)
        = (Portfolio a, (futu_startup True \<lparr>sv_clients = [], sv_audit = []\<rparr>)\<lparr>sv_audit := sv_audit \<lparr>sv_clients = [], sv_audit = []\<rparr> @ es\<rparr>)"
      "ag_nav a = 600000" "length (map (\<lambda>e. (fe_method e, fe_args_repr e, fe_status e)) es) = 4"
    using portfolio_is_fixture [of ?au "\<lparr>sv_clients = [], sv_audit = []\<rparr>" py_ascii] by auto
  then show ?thesis by (auto simp: futu_startup_def)
qed

text \<open>An SDK that counts the contexts it builds, and the first calls after the start or a close.\<close>

definition counting :: "(nat, unit, nat) sdk" where
  "counting = \<lparr>sk_connect = (\<lambda>h p enc w. (Inr w, Suc w)), sk_call = (\<lambda>c name args w. (Returned (), w)), sk_close = (\<lambda>c w. w)\<rparr>"

fun first_calls :: "bool \<Rightarrow> real_op list \<Rightarrow> nat" where
  "first_calls up [] = 0"
| "first_calls up (RealCall name args # xs) = (if up then 0 else 1) + first_calls True xs"
| "first_calls up (RealClose # xs) = first_calls False xs"

text \<open>
  the real OpenD connects lazily and once: over any calls and closes it builds exactly one context for each
  first call after the start or a close, and none otherwise.
\<close>

theorem real_connects_once:
  "snd (snd (real_run counting cfg xs (c, n))) = n + first_calls (c \<noteq> None) xs"
proof (induction xs arbitrary: c n)
  case (Cons x xs)
  show ?case
  proof (cases x)
    case (RealCall name args)
    show ?thesis
      using Cons.IH [of "Some n" "Suc n"] Cons.IH [of c n]
      by (cases c) (auto simp: RealCall real_ctx_def counting_def split: prod.splits)
  next
    case RealClose
    then show ?thesis using Cons.IH [of None n] by (cases c) (auto simp: counting_def split: prod.splits)
  qed
qed simp

text \<open>
  the fake quote context follows OpenD for one subtype only: over calls of a single subtype it holds what
  OpenD streams for it, while with two subtypes an unsubscribe of one drops the codes of the other.
\<close>

theorem fake_subs_follow_one_subtype:
  "(list_all (\<lambda>c. case c of Subscribe ts st' \<Rightarrow> st' = st | Unsubscribe ts st' \<Rightarrow> st' = st) cs
      \<longrightarrow> fq_subs (fold fake_sub_step cs \<lparr>fq_snapshots = [], fq_subs = {}\<rparr>) = opend_view cs st)
   \<and> (let mixed = [Subscribe [''US.AAPL''] ''QUOTE'', Subscribe [''US.AAPL''] ''K_1M'', Unsubscribe [''US.AAPL''] ''K_1M''] in
      fq_subs (fold fake_sub_step mixed \<lparr>fq_snapshots = [], fq_subs = {}\<rparr>) = {} \<and> opend_view mixed ''QUOTE'' = {''US.AAPL''})"
proof -
  have "fq_subs (fold fake_sub_step cs q) = foldl (opend_apply st) (fq_subs q) cs"
    if "list_all (\<lambda>c. case c of Subscribe ts st' \<Rightarrow> st' = st | Unsubscribe ts st' \<Rightarrow> st' = st) cs" for cs and q :: fake_quote_ctx
    using that by (induction cs arbitrary: q) (auto split: quote_call.splits)
  from this [of cs "\<lparr>fq_snapshots = [], fq_subs = {}\<rparr>"] show ?thesis by (simp add: opend_view_def)
qed

lemma fake_subs_follow_one_subtype_witness:
  "fq_subs (fold fake_sub_step [Subscribe [''US.AAPL''] ''QUOTE''] \<lparr>fq_snapshots = [], fq_subs = {}\<rparr>)
     = opend_view [Subscribe [''US.AAPL''] ''QUOTE''] ''QUOTE''"
  using fake_subs_follow_one_subtype [of "''QUOTE''" "[Subscribe [''US.AAPL''] ''QUOTE'']"] by simp

end
