(* ===== verification/LakeStores.thy ===== *)
theory LakeStores
  imports NxStore PyStd
begin

text \<open>
  The data lake's thin clients (\<^verbatim>\<open>packages/data-lake/data_lake/\<close>): configuration from the environment
  (\<^verbatim>\<open>config.py\<close>), the transaction of a Postgres session (\<^verbatim>\<open>postgres.py\<close>), the Chroma collections
  (\<^verbatim>\<open>chroma.py\<close>), the MinIO buckets (\<^verbatim>\<open>minio.py\<close>), the Redis helpers (\<^verbatim>\<open>redis.py\<close>) and the health
  probes (\<^verbatim>\<open>health.py\<close>). The servers are parameters or finite maps with the behaviour their documentation gives.
\<close>

section \<open>Configuration\<close>

record lake_config =
  lc_pg_host :: string
  lc_pg_port :: int
  lc_pg_db :: string
  lc_pg_user_app :: string
  lc_pg_password_app :: string
  lc_pg_user_ro :: string
  lc_pg_password_ro :: string
  lc_pg_user_migration :: string
  lc_pg_password_migration :: string
  lc_chroma_host :: string
  lc_chroma_port :: int
  lc_minio_endpoint :: string
  lc_minio_access_key :: string
  lc_minio_secret_key :: string
  lc_minio_bucket_default :: string
  lc_minio_secure :: bool
  lc_redis_url :: string

text \<open>\<open>_env(key, default)\<close>; without a value and a default it raises.\<close>

definition env_value :: "(string \<Rightarrow> string option) \<Rightarrow> string \<Rightarrow> string option \<Rightarrow> exn + string" where
  "env_value env key dflt =
     (case (case env key of None \<Rightarrow> dflt | Some v \<Rightarrow> Some v) of None \<Rightarrow> Inl (KeyError key) | Some v \<Rightarrow> Inr v)"

definition env_default :: "(string \<Rightarrow> string option) \<Rightarrow> string \<Rightarrow> string \<Rightarrow> string" where
  "env_default env key dflt = (case env key of None \<Rightarrow> dflt | Some v \<Rightarrow> v)"

definition int_of_text :: "string \<Rightarrow> exn + int" where
  "int_of_text s = (case py_int s of None \<Rightarrow> Inl (ValueError s) | Some n \<Rightarrow> Inr n)"

definition get_config :: "(string \<Rightarrow> string option) \<Rightarrow> exn + lake_config" where
  "get_config env =
     res_bind (env_value env ''POSTGRES_USER'' (Some ''iic_app'')) (\<lambda>user_app.
     res_bind (env_value env ''POSTGRES_PASSWORD'' (Some [])) (\<lambda>password_app.
     res_bind (env_value env ''POSTGRES_HOST'' (Some ''postgres'')) (\<lambda>pg_host.
     res_bind (res_bind (env_value env ''POSTGRES_PORT'' (Some ''5432'')) int_of_text) (\<lambda>pg_port.
     res_bind (env_value env ''POSTGRES_DB'' (Some ''iic'')) (\<lambda>pg_db.
     res_bind (env_value env ''CHROMA_HOST'' (Some ''chroma'')) (\<lambda>chroma_host.
     res_bind (res_bind (env_value env ''CHROMA_PORT'' (Some ''8000'')) int_of_text) (\<lambda>chroma_port.
     res_bind (env_value env ''MINIO_ENDPOINT'' (Some ''minio:9000'')) (\<lambda>minio_endpoint.
     res_bind (env_value env ''MINIO_ROOT_USER'' (Some ''iic'')) (\<lambda>access_key.
     res_bind (env_value env ''MINIO_ROOT_PASSWORD'' (Some [])) (\<lambda>secret_key.
     res_bind (env_value env ''REDIS_URL'' (Some ''redis://redis:6379/0'')) (\<lambda>redis_url.
     Inr \<lparr>lc_pg_host = pg_host, lc_pg_port = pg_port, lc_pg_db = pg_db, lc_pg_user_app = user_app, lc_pg_password_app = password_app,
          lc_pg_user_ro = env_default env ''POSTGRES_USER_RO'' ''iic_ro'', lc_pg_password_ro = env_default env ''POSTGRES_PASSWORD_RO'' password_app,
          lc_pg_user_migration = env_default env ''POSTGRES_USER_MIGRATION'' ''iic_migration'',
          lc_pg_password_migration = env_default env ''POSTGRES_PASSWORD_MIGRATION'' password_app,
          lc_chroma_host = chroma_host, lc_chroma_port = chroma_port, lc_minio_endpoint = minio_endpoint, lc_minio_access_key = access_key,
          lc_minio_secret_key = secret_key, lc_minio_bucket_default = env_default env ''MINIO_BUCKET'' ''iic'',
          lc_minio_secure = (lower (env_default env ''MINIO_SECURE'' ''false'') = ''true''), lc_redis_url = redis_url\<rparr>)))))))))))"

definition show_int :: "int \<Rightarrow> string" where
  "show_int n = (if n < 0 then ''-'' @ show_nat (nat (- n)) else show_nat (nat n))"

definition dsn :: "lake_config \<Rightarrow> string \<Rightarrow> string \<Rightarrow> bool \<Rightarrow> string" where
  "dsn c user password async_driver =
     (if async_driver then ''postgresql+asyncpg'' else ''postgresql+psycopg2'') @ ''://'' @ user @ '':'' @ password @ ''@'' @ lc_pg_host c
       @ '':'' @ show_int (lc_pg_port c) @ ''/'' @ lc_pg_db c"

definition pg_dsn_app :: "lake_config \<Rightarrow> string" where
  "pg_dsn_app c = dsn c (lc_pg_user_app c) (lc_pg_password_app c) True"

definition pg_dsn_ro :: "lake_config \<Rightarrow> string" where
  "pg_dsn_ro c = dsn c (lc_pg_user_ro c) (lc_pg_password_ro c) True"

definition pg_dsn_migration :: "lake_config \<Rightarrow> string" where
  "pg_dsn_migration c = dsn c (lc_pg_user_migration c) (lc_pg_password_migration c) False"

text \<open>\<open>lru_cache(maxsize=1)\<close>: the first value of the process, an exception is not kept.\<close>

definition cached_config :: "(string \<Rightarrow> string option) \<Rightarrow> lake_config option \<Rightarrow> (exn + lake_config) \<times> lake_config option" where
  "cached_config env cache =
     (case cache of
        Some c \<Rightarrow> (Inr c, cache)
      | None \<Rightarrow> (case get_config env of Inl e \<Rightarrow> (Inl e, None) | Inr c \<Rightarrow> (Inr c, Some c)))"

section \<open>A Postgres session\<close>

text \<open>
  The body works on its own copy; \<open>commit\<close> publishes it or raises, \<open>rollback\<close> and closing discard it. A
  cancellation is no \<open>Exception\<close>: neither commit nor rollback runs, closing discards.
\<close>

datatype 'r body_end = BodyReturns 'r | BodyRaises string | BodyCancelled

definition pg_session :: "('d \<Rightarrow> bool) \<Rightarrow> ('d \<Rightarrow> 'r body_end \<times> 'd) \<Rightarrow> 'd \<Rightarrow> 'r body_end \<times> 'd" where
  "pg_session commit_ok body d =
     (case body d of
        (BodyReturns r, d1) \<Rightarrow> if commit_ok d1 then (BodyReturns r, d1) else (BodyRaises ''commit'', d)
      | (x, d1) \<Rightarrow> (x, d))"

section \<open>Named containers\<close>

text \<open>
  Collections and buckets are made on demand: after \<open>ensure\<close> a name exists, what existed stays, and ensuring an
  existing name changes nothing.
\<close>

locale container_store =
  fixes ensure :: "'m \<Rightarrow> string \<Rightarrow> 's \<Rightarrow> 's"
    and present :: "'s \<Rightarrow> string set"
  assumes ensure_present: "present (ensure m n s) = insert n (present s)"
    and ensure_again: "n \<in> present s \<Longrightarrow> ensure m n s = s"
begin

lemma ensure_all_present: "present (fold (\<lambda>(m, n). ensure m n) xs s) = present s \<union> snd ` set xs"
  by (induction xs arbitrary: s) (auto simp: ensure_present)

lemma ensure_all_again: "snd ` set xs \<subseteq> present s \<Longrightarrow> fold (\<lambda>(m, n). ensure m n) xs s = s"
  by (induction xs arbitrary: s) (auto simp: ensure_again)

lemma ensure_all_twice: "fold (\<lambda>(m, n). ensure m n) xs (fold (\<lambda>(m, n). ensure m n) xs s) = fold (\<lambda>(m, n). ensure m n) xs s"
  by (rule ensure_all_again) (simp add: ensure_all_present)

end

section \<open>Chroma\<close>

definition CANONICAL_COLLECTIONS :: "string list" where
  "CANONICAL_COLLECTIONS = [''news'', ''filings'', ''me'']"

text \<open>A collection: its metadata and its documents by id.\<close>

type_synonym metadata = "(string, string) dict"
type_synonym collections = "string \<Rightarrow> (metadata \<times> (string, string \<times> metadata) dict) option"

definition get_or_create_with :: "metadata \<Rightarrow> string \<Rightarrow> collections \<Rightarrow> collections" where
  "get_or_create_with meta name cs =
     (if cs name \<noteq> None then cs
      else cs(name \<mapsto> (fold (\<lambda>(k, v). AList.update k v) meta [(''embedding_model'', ''bge-m3'')], [])))"

definition upsert_doc :: "string \<Rightarrow> string \<Rightarrow> string \<Rightarrow> metadata \<Rightarrow> collections \<Rightarrow> collections" where
  "upsert_doc collection doc_id doc meta cs =
     (let cs1 = get_or_create_with [] collection cs in
      case cs1 collection of None \<Rightarrow> cs1 | Some (m, docs) \<Rightarrow> cs1(collection \<mapsto> (m, AList.update doc_id (doc, meta) docs)))"

record hit =
  ht_doc_id :: string
  ht_text :: string
  ht_score :: rat
  ht_metadata :: metadata

text \<open>The four lists of an answer for one query; a list that is absent or empty is \<open>[]\<close>.\<close>

record chroma_answer =
  ca_ids :: "string list"
  ca_documents :: "string list"
  ca_metadatas :: "metadata list"
  ca_distances :: "rat list"

definition hit_of :: "chroma_answer \<Rightarrow> nat \<times> string \<Rightarrow> exn + hit" where
  "hit_of a x =
     (case x of (i, doc) \<Rightarrow>
        if length (ca_ids a) \<le> i \<or> (ca_distances a \<noteq> [] \<and> length (ca_distances a) \<le> i) \<or> (ca_metadatas a \<noteq> [] \<and> length (ca_metadatas a) \<le> i)
        then Inl (OtherExn ''IndexError'')
        else Inr \<lparr>ht_doc_id = ca_ids a ! i, ht_text = doc, ht_score = (if ca_distances a = [] then 0 else 1 - ca_distances a ! i),
                  ht_metadata = (if ca_metadatas a = [] then [] else ca_metadatas a ! i)\<rparr>)"

definition chroma_query :: "(string \<Rightarrow> string \<Rightarrow> nat \<Rightarrow> collections \<Rightarrow> chroma_answer) \<Rightarrow> string \<Rightarrow> string \<Rightarrow> nat \<Rightarrow> collections
    \<Rightarrow> (exn + hit list) \<times> collections" where
  "chroma_query search collection query_text k cs =
     (let cs1 = get_or_create_with [] collection cs; a = search collection query_text k cs1 in
      (those_res (map (hit_of a) (enumerate 0 (ca_documents a))), cs1))"

definition persona_collection :: "string \<Rightarrow> string" where
  "persona_collection slug = ''persona_memory_'' @ slug"

definition bootstrap_collections :: "string list \<Rightarrow> collections \<Rightarrow> string list \<times> collections" where
  "bootstrap_collections persona_slugs cs =
     (CANONICAL_COLLECTIONS @ map persona_collection persona_slugs,
      fold (\<lambda>slug. get_or_create_with [(''persona_slug'', slug)] (persona_collection slug)) persona_slugs
        (fold (get_or_create_with []) CANONICAL_COLLECTIONS cs))"

interpretation chroma: container_store get_or_create_with dom
  by unfold_locales (auto simp: get_or_create_with_def)

section \<open>MinIO\<close>

record bucket_spec =
  bs_name :: string
  bs_expire_days :: "nat option"
  bs_transition_days :: "nat option"

definition CANONICAL_BUCKETS :: "bucket_spec list" where
  "CANONICAL_BUCKETS =
     [\<lparr>bs_name = ''iic-filings'', bs_expire_days = None, bs_transition_days = Some 90\<rparr>,
      \<lparr>bs_name = ''iic-news-html'', bs_expire_days = Some 365, bs_transition_days = None\<rparr>,
      \<lparr>bs_name = ''iic-snapshots-parquet'', bs_expire_days = None, bs_transition_days = None\<rparr>,
      \<lparr>bs_name = ''iic-charts'', bs_expire_days = Some 180, bs_transition_days = None\<rparr>]"

text \<open>\<open>endpoint.partition(":")\<close> with the default port.\<close>

definition minio_endpoint :: "string \<Rightarrow> string" where
  "minio_endpoint s =
     (let host = takeWhile (\<lambda>c. c \<noteq> CHR '':'') s; port = tl (dropWhile (\<lambda>c. c \<noteq> CHR '':'') s) in
      host @ '':'' @ (if port = [] then ''9000'' else port))"

type_synonym buckets = "string \<Rightarrow> (string, string) dict option"

definition ensure_bucket :: "string \<Rightarrow> buckets \<Rightarrow> buckets" where
  "ensure_bucket name bs = (if bs name = None then bs(name \<mapsto> []) else bs)"

definition put_object :: "string \<Rightarrow> string \<Rightarrow> string \<Rightarrow> buckets \<Rightarrow> exn + buckets" where
  "put_object bucket k data bs =
     (case bs bucket of None \<Rightarrow> Inl (OtherExn ''NoSuchBucket'') | Some objs \<Rightarrow> Inr (bs(bucket \<mapsto> AList.update k data objs)))"

definition get_object :: "string \<Rightarrow> string \<Rightarrow> buckets \<Rightarrow> exn + string" where
  "get_object bucket k bs =
     (case bs bucket of
        None \<Rightarrow> Inl (OtherExn ''NoSuchBucket'')
      | Some objs \<Rightarrow> (case map_of objs k of None \<Rightarrow> Inl (OtherExn ''NoSuchKey'') | Some d \<Rightarrow> Inr d))"

interpretation minio: container_store "\<lambda>u :: unit. ensure_bucket" dom
  by unfold_locales (auto simp: ensure_bucket_def split: if_splits)

section \<open>Redis\<close>

definition DEDUPE_TTL :: seconds where
  "DEDUPE_TTL = 60 * 60 * 24 * 7"

definition LLM_CACHE_TTL :: seconds where
  "LLM_CACHE_TTL = 60 * 60"

definition dedupe_key :: "string \<Rightarrow> string" where
  "dedupe_key h = ''dedupe:hash:'' @ h"

definition seen_dedupe :: "seconds \<Rightarrow> string \<Rightarrow> ttl_nx \<Rightarrow> bool \<times> ttl_nx" where
  "seen_dedupe now h st = (case ttl_set_nx now (dedupe_key h) ''1'' DEDUPE_TTL st of (ok, st1) \<Rightarrow> (\<not> ok, st1))"

definition llm_cache_key :: "string \<Rightarrow> string \<Rightarrow> string" where
  "llm_cache_key route h = ''cache:llm:'' @ route @ '':'' @ h"

definition redis_get :: "seconds \<Rightarrow> string \<Rightarrow> ttl_nx \<Rightarrow> string option" where
  "redis_get now k st = (case st k of Some (v, expires) \<Rightarrow> if now < expires then Some v else None | None \<Rightarrow> None)"

definition llm_cache_get :: "seconds \<Rightarrow> string \<Rightarrow> string \<Rightarrow> ttl_nx \<Rightarrow> string option" where
  "llm_cache_get now route h st = redis_get now (llm_cache_key route h) st"

definition llm_cache_set :: "seconds \<Rightarrow> string \<Rightarrow> string \<Rightarrow> string \<Rightarrow> ttl_nx \<Rightarrow> ttl_nx" where
  "llm_cache_set now route h v st = st(llm_cache_key route h \<mapsto> (v, now + LLM_CACHE_TTL))"

section \<open>Health\<close>

datatype probe_status = HealthOk | Degraded

text \<open>\<open>raises\<close>: a call on the store raised; the probe turns any exception into \<open>StoreUnavailable\<close>.\<close>

record store_health =
  sh_status :: probe_status
  sh_present :: "string list"
  sh_missing :: "string list"

definition health_of :: "string list \<Rightarrow> string list \<Rightarrow> store_health" where
  "health_of wanted listed =
     (let missing = filter (\<lambda>n. n \<notin> set listed) wanted in
      \<lparr>sh_status = (if missing = [] then HealthOk else Degraded), sh_present = listed, sh_missing = missing\<rparr>)"

definition chroma_health :: "string + string list \<Rightarrow> string + store_health" where
  "chroma_health listing = (case listing of Inl e \<Rightarrow> Inl (''chroma: '' @ e) | Inr names \<Rightarrow> Inr (health_of CANONICAL_COLLECTIONS names))"

definition minio_health :: "(string \<Rightarrow> string + bool) \<Rightarrow> string + store_health" where
  "minio_health found_at =
     (case those_res (map found_at (map bs_name CANONICAL_BUCKETS)) of
        Inl e \<Rightarrow> Inl (''minio: '' @ e)
      | Inr found \<Rightarrow>
          (let present = map fst (filter snd (zip (map bs_name CANONICAL_BUCKETS) found)) in
           Inr (health_of (map bs_name CANONICAL_BUCKETS) present)))"

definition redis_health :: "string + bool \<Rightarrow> string + probe_status" where
  "redis_health ping = (case ping of Inl e \<Rightarrow> Inl (''redis: '' @ e) | Inr ok \<Rightarrow> Inr (if ok then HealthOk else Degraded))"

definition pg_health :: "string + int \<Rightarrow> string + int \<Rightarrow> string + int \<times> int" where
  "pg_health ping advice_rows =
     (case ping of Inl e \<Rightarrow> Inl (''postgres: '' @ e)
      | Inr p \<Rightarrow> (case advice_rows of Inl e \<Rightarrow> Inl (''postgres: '' @ e) | Inr n \<Rightarrow> Inr (p, n)))"

section \<open>Lemmas\<close>

definition bad_number :: "(string \<Rightarrow> string option) \<Rightarrow> string \<Rightarrow> bool" where
  "bad_number env key = (case env key of None \<Rightarrow> False | Some v \<Rightarrow> py_int v = None)"

lemma env_value_default: "env_value env key (Some d) = Inr (env_default env key d)"
  by (simp add: env_value_def env_default_def split: option.split)

lemma port_text: "py_int d = Some n \<Longrightarrow> isl (int_of_text (env_default env key d)) = bad_number env key"
  by (simp add: int_of_text_def env_default_def bad_number_def split: option.split)

lemma bootstrap_fold:
  "snd (bootstrap_collections slugs cs) =
     fold (\<lambda>(m, n). get_or_create_with m n)
       (map (Pair []) CANONICAL_COLLECTIONS @ map (\<lambda>slug. ([(''persona_slug'', slug)], persona_collection slug)) slugs) cs"
  by (simp add: bootstrap_collections_def fold_map comp_def)

lemma bootstrap_present: "dom (snd (bootstrap_collections slugs cs)) = dom cs \<union> set (fst (bootstrap_collections slugs cs))"
  unfolding bootstrap_fold chroma.ensure_all_present
  by (simp add: bootstrap_collections_def image_Un image_image)

section \<open>Properties\<close>

text \<open>
  the configuration fails exactly when one of the two ports is set to a text that is no integer; no variable
  is required, whatever the message of the helper says.
\<close>

theorem config_fails_iff_bad_port:
  "isl (get_config env) = (bad_number env ''POSTGRES_PORT'' \<or> bad_number env ''CHROMA_PORT'')
   \<and> (\<forall>k. get_config env \<noteq> Inl (KeyError k))"
proof -
  have "py_int ''5432'' = Some 5432" "py_int ''8000'' = Some 8000" by code_simp+
  from port_text [OF this(1), of env "''POSTGRES_PORT''"] port_text [OF this(2), of env "''CHROMA_PORT''"]
  have ports: "isl (int_of_text (env_default env ''POSTGRES_PORT'' ''5432'')) = bad_number env ''POSTGRES_PORT''"
    "isl (int_of_text (env_default env ''CHROMA_PORT'' ''8000'')) = bad_number env ''CHROMA_PORT''" .
  have "int_of_text s \<noteq> Inl (KeyError k)" for s k by (simp add: int_of_text_def split: option.split)
  then have no_key: "r = int_of_text s \<Longrightarrow> r \<noteq> Inl (KeyError k)" for r s k by simp
  have shape: "\<exists>mk. get_config env = res_bind (int_of_text (env_default env ''POSTGRES_PORT'' ''5432'')) (\<lambda>pg.
      res_bind (int_of_text (env_default env ''CHROMA_PORT'' ''8000'')) (\<lambda>ch. Inr (mk pg ch)))"
    unfolding get_config_def env_value_default res_bind_simps by (rule exI, rule refl)
  then obtain mk where mk: "get_config env = res_bind (int_of_text (env_default env ''POSTGRES_PORT'' ''5432'')) (\<lambda>pg.
      res_bind (int_of_text (env_default env ''CHROMA_PORT'' ''8000'')) (\<lambda>ch. Inr (mk pg ch)))" ..
  show ?thesis
  proof (cases "int_of_text (env_default env ''POSTGRES_PORT'' ''5432'')")
    case (Inl e)
    then show ?thesis using ports(1) no_key [OF Inl [symmetric]] by (simp add: mk)
  next
    case pg: (Inr n)
    show ?thesis
    proof (cases "int_of_text (env_default env ''CHROMA_PORT'' ''8000'')")
      case (Inl e)
      then show ?thesis using ports(2) pg no_key [OF Inl [symmetric]] by (simp add: mk)
    qed (use ports pg in \<open>simp add: mk\<close>)
  qed
qed

text \<open>
  the connection string does not tell a password from a host: moving what follows an at sign of the password
  to the front of the host gives the same string, so a password with an at sign points the driver at another host.
\<close>

theorem dsn_is_ambiguous:
  "dsn (c\<lparr>lc_pg_host := h\<rparr>) user (p @ ''@'' @ q) a = dsn (c\<lparr>lc_pg_host := q @ ''@'' @ h\<rparr>) user p a"
  by (simp add: dsn_def)

text \<open>
  after the collections are bootstrapped the health probe finds nothing missing, every name the bootstrap
  returns exists, and bootstrapping again changes nothing.
\<close>

theorem bootstrap_heals:
  assumes "set names = dom (snd (bootstrap_collections slugs cs))"
  shows "chroma_health (Inr names) = Inr \<lparr>sh_status = HealthOk, sh_present = names, sh_missing = []\<rparr>
    \<and> set (fst (bootstrap_collections slugs cs)) \<subseteq> set names
    \<and> snd (bootstrap_collections slugs (snd (bootstrap_collections slugs cs))) = snd (bootstrap_collections slugs cs)"
proof -
  have sub: "set (fst (bootstrap_collections slugs cs)) \<subseteq> set names"
    using assms bootstrap_present [of slugs cs] by simp
  then have "set CANONICAL_COLLECTIONS \<subseteq> set names" by (simp add: bootstrap_collections_def)
  then have "filter (\<lambda>n. n \<notin> set names) CANONICAL_COLLECTIONS = []" by (auto simp: filter_empty_conv)
  then have "chroma_health (Inr names) = Inr \<lparr>sh_status = HealthOk, sh_present = names, sh_missing = []\<rparr>"
    by (simp add: chroma_health_def health_of_def)
  moreover have "snd (bootstrap_collections slugs (snd (bootstrap_collections slugs cs))) = snd (bootstrap_collections slugs cs)"
    unfolding bootstrap_fold by (rule chroma.ensure_all_twice)
  ultimately show ?thesis using sub by simp
qed

lemma bootstrap_heals_witness:
  "chroma_health (Inr (fst (bootstrap_collections [''buffett''] Map.empty))) =
     Inr \<lparr>sh_status = HealthOk, sh_present = fst (bootstrap_collections [''buffett''] Map.empty), sh_missing = []\<rparr>"
  using bootstrap_heals [of "fst (bootstrap_collections [''buffett''] Map.empty)" "[''buffett'']" Map.empty] bootstrap_present [of "[''buffett'']" Map.empty]
  by simp

text \<open>
  a hash seen for the first time is reported as new, and as seen for the seven days after, while other
  hashes are not affected.
\<close>

theorem dedupe_for_seven_days:
  assumes "\<not> ttl_held now st (dedupe_key h)" and "now \<le> t" and "t < now + 60 * 60 * 24 * 7"
  shows "fst (seen_dedupe now h st) = False \<and> fst (seen_dedupe t h (snd (seen_dedupe now h st))) = True
    \<and> (h' \<noteq> h \<longrightarrow> fst (seen_dedupe t h' (snd (seen_dedupe now h st))) = fst (seen_dedupe t h' st))"
proof -
  have st1: "snd (seen_dedupe now h st) = snd (ttl_set_nx now (dedupe_key h) ''1'' DEDUPE_TTL st)"
    and seen: "fst (seen_dedupe u k s) = ttl_held u s (dedupe_key k)" for u k s
    using redis.set_iff [of u "dedupe_key k" "''1''" DEDUPE_TTL s] by (auto simp: seen_dedupe_def split: prod.split)
  have "ttl_held t (snd (ttl_set_nx now (dedupe_key h) ''1'' DEDUPE_TTL st)) (dedupe_key h)"
    by (rule redis.set_lasts) (use assms in \<open>simp_all add: DEDUPE_TTL_def\<close>)
  moreover have "h' \<noteq> h \<Longrightarrow> dedupe_key h' \<noteq> dedupe_key h" by (simp add: dedupe_key_def)
  ultimately show ?thesis using assms(1) redis.set_other [of "dedupe_key h'" "dedupe_key h"] by (auto simp: seen st1)
qed

lemma dedupe_for_seven_days_witness:
  "fst (seen_dedupe 100 ''ab'' (snd (seen_dedupe 0 ''ab'' Map.empty)))"
  using dedupe_for_seven_days [of 0 Map.empty "''ab''" 100 "''cd''"] by (simp add: ttl_held_def)

text \<open>what is put into an ensured bucket is read back, and ensuring the bucket again keeps it.\<close>

theorem bucket_roundtrip:
  "\<exists>bs1. put_object b k data (ensure_bucket b bs) = Inr bs1 \<and> get_object b k (ensure_bucket b bs1) = Inr data"
  by (cases "bs b") (simp_all add: put_object_def get_object_def ensure_bucket_def update_conv')

end
