(* ===== verification/Spec2Isabelle.thy ===== *)
theory Spec2Isabelle
  imports Breaker Redelivery RateLimits FutuClient AdviceLedger AdminApi LlmRouter OrchestratorApp Board AdviceMerger BacktestStats WalkForward FutuQuotes Marks Secretary PersonaTeam FeatureFlags Pit QuantTeam FundTeam IntelService PromptEval NotifyAdapters LlmBootstrap AdminConnectors MarketPull FutuOpenD LakeStores
begin

text \<open>
  A verification library for the Investment Intelligence Center: a set of services under \<^verbatim>\<open>apps/\<close> that read
  news and quotes, let several agents (quant, fundamental, eight personas) write investment advice, let a board
  decide, and tell the principal through a secretary, and the packages under \<^verbatim>\<open>packages/\<close> they share. Every
  definition is a translation of Python source, named after it; every theory opens with the files it translates.

  \<^bold>\<open>How the parts interact.\<close> A trigger (cron, NATS subject, HTTP) reaches the orchestrator's \<^verbatim>\<open>route\<close>, which
  runs a DAG under the run-once cache (\<open>OrchestratorApp\<close>). DAG nodes call agents through a client with a
  circuit breaker per target (\<open>AgentClient\<close>, \<open>Breaker\<close>); events first pass a triage gate with an LLM
  tie-break (\<open>EventTriage\<close>). The agents call language models through one router with budget, limits,
  cache and fallback (\<open>LlmRouter\<close>) and prompts from a registry (\<open>Prompts\<close>). Their advice envelopes
  (\<open>Schema\<close>) go through the merger (\<open>AdviceMerger\<close>) into a hash-chained ledger
  (\<open>AdviceLedger\<close>), open positions in the backtest book (\<open>Backtest\<close>), and come back as
  reflections in a decision log (\<open>DecisionLog\<close>). Notifications go out over channels in the order a
  severity plan gives, with a redelivery queue behind them (\<open>Notifier\<close>, \<open>NotifyAdapters\<close>,
  \<open>Redelivery\<close>).

  \<^bold>\<open>Conventions.\<close> A float is an exact rational; where a root or a power leaves the rationals, the parameter
  \<open>flt\<close> is the rounding to a float (statistics that need a root throughout are over the reals). An
  infinite cap is a value of its own. A datetime is a number of seconds, with the offset of its zone where the code
  looks at it. A string is a list of characters; a character outside Latin-1 that occurs in a message is one
  character of its own, and where the code counts Chinese characters a text is a list of code points. A dict is an
  association list in insertion order. Code that may raise returns a sum with \<open>Inl\<close> for the exception.
  State is passed explicitly: an operation returns the new state, and a service's environment (its model, clock,
  stores, HTTP) is a record of functions on a world \<open>'w\<close>. Code between two suspension points of asyncio
  is one step; where interleavings matter (\<open>Breaker\<close>, \<open>FutuAudit\<close>) they are sequences of such steps.

  \<^bold>\<open>The orchestrator\<close> (\<^verbatim>\<open>apps/orchestrator/orchestrator/\<close>). \<open>Breaker\<close> (\<^verbatim>\<open>plan/breaker.py\<close>): the
  registry as a record, \<open>begin_call\<close> and \<open>end_call\<close> as the two atomic halves of \<^verbatim>\<open>call\<close>, a step
  relation over any number of overlapping calls; refinement of a two-state specification, one probe at a time, and
  what a cancelled probe does. \<open>DagRunner\<close> (\<^verbatim>\<open>execute/runner.py\<close>, \<^verbatim>\<open>execute/sla.py\<close>): the ready-set loop
  with fuel, where one more than the number of nodes is proved enough for every graph; each node runs once, after its
  parents. \<open>AgentClient\<close>, \<open>AgentDags\<close>, \<open>EventTriage\<close>, \<open>TradingRoom\<close>,
  \<open>AuxiliaryDags\<close>, \<open>MorningBrief\<close>: the DAGs of \<^verbatim>\<open>plan/\<close> and what they share. \<open>NxStore\<close>
  (\<^verbatim>\<open>execute/concurrency.py\<close>, \<^verbatim>\<open>state/idempotency.py\<close>): slots and the run-once cache over a locale of
  \<^verbatim>\<open>SET NX EX\<close> stores. \<open>OrchestratorApp\<close> (\<^verbatim>\<open>app.py\<close>, \<^verbatim>\<open>plan/registry.py\<close>, \<^verbatim>\<open>triggers/\<close>): routing and
  endpoints. \<open>AdviceMerger\<close> (\<^verbatim>\<open>merge/\<close>) and \<open>RateLimits\<close>: the merger and, with the notifier's, the
  sliding-window limiters as two interpretations of one locale.

  \<^bold>\<open>Shared packages.\<close> \<open>LlmAdapters\<close>, \<open>CostMeter\<close>, \<open>LlmLimits\<close>, \<open>LlmRouter\<close>,
  \<open>LlmBootstrap\<close> (\<^verbatim>\<open>packages/llm-client\<close>): adapters and prices, the spend store (a locale) with the
  meter's breaker, token buckets and semaphores, the router with cache and telemetry rows, construction from the
  environment against the CHECKs of the telemetry table. \<open>Notifier\<close>, \<open>Redelivery\<close>,
  \<open>NotifyAdapters\<close> (\<^verbatim>\<open>packages/notifier\<close>). \<open>Schema\<close> (\<^verbatim>\<open>packages/schema\<close>): the envelopes with
  their validators as one Boolean predicate each. \<open>DataBus\<close> (\<^verbatim>\<open>packages/data-bus\<close>): subjects, publishing
  and consuming. \<open>AdviceLedger\<close>, \<open>Marks\<close>, \<open>DecisionLog\<close>, \<open>Pit\<close>, \<open>LakeStores\<close>
  (\<^verbatim>\<open>packages/data-lake\<close>): the ledger and two other tamper-evident logs are interpretations of the locale of
  \<open>HashChain\<close>. \<open>FeatureFlags\<close> (\<^verbatim>\<open>packages/featureflags\<close>), \<open>Prompts\<close> and
  \<open>PromptEval\<close> (\<^verbatim>\<open>packages/prompts\<close>).

  \<^bold>\<open>The agents.\<close> Intelligence (\<^verbatim>\<open>apps/agent_intelligence/intel/\<close>): \<open>IntelIngest\<close> (gates against
  duplicates), \<open>IntelText\<close> (translation, sentiment), \<open>IntelSynth\<close> (digest, brief, context),
  \<open>IntelCrawl\<close> (crawlers), \<open>IntelService\<close> (pipeline, stores against the migrations' table,
  endpoints). Quant (\<^verbatim>\<open>apps/agent_quant/quant/\<close>): \<open>QuantSignal\<close>, \<open>QuantFactors\<close>,
  \<open>QuantTeam\<close>. Fundamental (\<^verbatim>\<open>apps/agent_fundamental/fund/\<close>): \<open>FundFilings\<close>, \<open>FundTeam\<close>.
  Personas (\<^verbatim>\<open>apps/agent_persona/persona/\<close>): \<open>PersonaReasoner\<close>, \<open>PersonaTeam\<close>. Board
  (\<^verbatim>\<open>apps/agent_board/board/\<close>): \<open>Board\<close>. Backtest (\<^verbatim>\<open>apps/agent_backtest/backtest/\<close>):
  \<open>Backtest\<close>, \<open>BacktestStats\<close>, \<open>WalkForward\<close>, \<open>BacktestService\<close>. Secretary
  (\<^verbatim>\<open>apps/agent_secretary/secretary/\<close>): \<open>SecretaryStores\<close>, \<open>SecretaryText\<close>,
  \<open>SecretaryInbound\<close>, \<open>Secretary\<close>. FUTU (\<^verbatim>\<open>apps/agent_futu/futu/\<close>): \<open>FutuAudit\<close>,
  \<open>FutuClient\<close>, \<open>FutuQuotes\<close>, \<open>FutuOpenD\<close>. Market data
  (\<^verbatim>\<open>apps/agent_market/agent_market/\<close>): \<open>MarketPull\<close>. Admin API (\<^verbatim>\<open>apps/admin_api/admin_api/\<close>):
  \<open>AdminApi\<close>, \<open>AdminConnectors\<close>. \<open>Prelude\<close>, \<open>Json\<close>, \<open>JsonText\<close> and
  \<open>PyStd\<close> hold what they share: results, dictionaries, JSON values, the Python builtins the source uses.

  \<^bold>\<open>What the theorems show.\<close> Refinement of an abstract state machine or store (breaker, decision log, prompt
  publisher, flags file, Redis gate); invariants over every sequence of operations (probes, rate windows, positions,
  hash chains, spend caps); equivalence of a loop with its closed form (ranking, Gordon growth, drawdown, dominant
  region); exact conditions under which an envelope the code builds passes its validators (\<open>_valid_iff\<close>);
  round trips (prompt files, broker file, e-mail escapes, queue records); termination with an explicit bound; and what
  the code does where it differs from what its comments or documents say (the production store that accepts no event,
  events lost after a failure, the cancelled probe, the fixture portfolio), as properties of the code as it is. Every
  property with a hypothesis is followed by a witness that applies it to a concrete input.

  \<^bold>\<open>Assumed of third-party code\<close>, as named hypotheses or parameters: SHA-256 and SHA-1 (the chain theorems give
  a collision as the alternative; the publisher assumes that the texts published are told apart by sixteen digits),
  UUID and ULID generators (fresh where a theorem says so), language models, HTTP, NATS, SDKs, YAML and JSON parsers
  and printers (with a round trip where one is needed), Pydantic's parsing, SQL engines beyond the columns, checks and
  constraints the migrations state, and Redis and Postgres beyond their documented commands. The environments of
  witnesses instantiate all of them with concrete functions.

  \<^bold>\<open>Not modelled.\<close> Connections, tracing and process start-up, FastAPI set-up and request parsing, temporary files,
  fsync and file locks, newline translation when a text file is read (the texts hold no carriage return), logging,
  migrations no modelled code reads back, the TypeScript dashboard, shell scripts, infrastructure files and tests.
\<close>

end
